(* ===== verification/Prelude.thy ===== *)
theory Prelude
  imports Main "HOL-Library.Word" "HOL-Library.Monad_Syntax" "HOL-Library.AList" "HOL-Library.Char_ord"
begin

unbundle bit_operations_syntax

text \<open>
  Shared vocabulary of the development: Rust's machine integers as words, byte buffers, the slice
  operations the code uses (with the panic of an out-of-range slice as \<^term>\<open>None\<close>), little- and
  big-endian codecs, saturating arithmetic, and the interface \<open>wire_struct\<close> of the packed
  structs that are read from and written into packet buffers.

  Conventions. \<open>'a may_panic\<close> is the result of code that can panic: \<^term>\<open>None\<close> is the
  panic, and a Rust \<open>Option\<close> is an \<open>'a option\<close> inside it. The \<open>usize\<close> values that are
  lengths and offsets of buffers are \<^typ>\<open>nat\<close>; where the source's arithmetic on them can
  wrap, the \<open>2 ^ 64\<close> wrap of the release profile is written out. Words wrap, as the release
  profile (no overflow checks) does.
\<close>

type_synonym u8 = "8 word"
type_synonym u16 = "16 word"
type_synonym u32 = "32 word"
type_synonym u64 = "64 word"
type_synonym bytes = "u8 list"
type_synonym 'a may_panic = "'a option"

named_theorems slice_simps \<open>slices, buffers and panics\<close>
named_theorems codec_simps \<open>byte codecs and struct layouts\<close>
named_theorems sat_simps \<open>saturating arithmetic\<close>

section \<open>Slices and buffers\<close>

text \<open>\<open>buf.get(off..)\<close>\<close>

definition get_from :: "nat \<Rightarrow> 'a list \<Rightarrow> 'a list option" where
  "get_from off buf = (if off \<le> length buf then Some (drop off buf) else None)"

text \<open>\<open>&buf[off..]\<close> and \<open>BytesMut::split_off\<close>, which panic when \<open>off\<close> is past the end.\<close>

definition index_from :: "nat \<Rightarrow> 'a list \<Rightarrow> 'a list may_panic" where
  "index_from off buf = (if off \<le> length buf then Some (drop off buf) else None)"

text \<open>\<open>&buf[lo..hi]\<close>\<close>

definition index_range :: "nat \<Rightarrow> nat \<Rightarrow> 'a list \<Rightarrow> 'a list may_panic" where
  "index_range lo hi buf =
     (if lo \<le> hi \<and> hi \<le> length buf then Some (take (hi - lo) (drop lo buf)) else None)"

text \<open>\<open>buf[lo..hi].copy_from_slice(src)\<close>: panics on a range past the end or a length mismatch.\<close>

definition copy_range :: "nat \<Rightarrow> nat \<Rightarrow> 'a list \<Rightarrow> 'a list \<Rightarrow> 'a list may_panic" where
  "copy_range lo hi src buf =
     (if lo \<le> hi \<and> hi \<le> length buf \<and> length src = hi - lo
      then Some (take lo buf @ src @ drop hi buf) else None)"

text \<open>
  A buffer whose length was set without writing it (\<open>set_len\<close> after \<open>reserve\<close>): its contents
  are whatever the allocation held, the parameter \<open>u\<close>.
\<close>

definition uninit :: "(nat \<Rightarrow> 'a) \<Rightarrow> nat \<Rightarrow> 'a list" where
  "uninit u n = map u [0..<n]"

lemma length_uninit [simp]: "length (uninit u n) = n"
  by (simp add: uninit_def)

lemma get_from_Some_iff [slice_simps]:
  "get_from off buf = Some r \<longleftrightarrow> off \<le> length buf \<and> r = drop off buf"
  by (auto simp: get_from_def)

lemma get_from_None_iff [slice_simps]: "get_from off buf = None \<longleftrightarrow> length buf < off"
  by (auto simp: get_from_def)

lemma index_from_Some_iff [slice_simps]:
  "index_from off buf = Some r \<longleftrightarrow> off \<le> length buf \<and> r = drop off buf"
  by (auto simp: index_from_def)

lemma index_from_None_iff [slice_simps]: "index_from off buf = None \<longleftrightarrow> length buf < off"
  by (auto simp: index_from_def)

lemma index_range_Some_iff [slice_simps]:
  "index_range lo hi buf = Some r \<longleftrightarrow>
     lo \<le> hi \<and> hi \<le> length buf \<and> r = take (hi - lo) (drop lo buf)"
  by (auto simp: index_range_def)

lemma index_range_append [slice_simps]:
  "lo = length xs \<Longrightarrow> hi = lo + length ys \<Longrightarrow> index_range lo hi (xs @ ys @ zs) = Some ys"
  by (simp add: index_range_def)

lemma copy_range_Some_iff [slice_simps]:
  "copy_range lo hi src buf = Some r \<longleftrightarrow>
     lo \<le> hi \<and> hi \<le> length buf \<and> length src = hi - lo \<and> r = take lo buf @ src @ drop hi buf"
  by (auto simp: copy_range_def)

lemma length_copy_range: "copy_range lo hi src buf = Some r \<Longrightarrow> length r = length buf"
  by (auto simp: slice_simps)

section \<open>Byte codecs\<close>

definition byte_of :: "nat \<Rightarrow> 'a::len word \<Rightarrow> u8" where
  "byte_of i w = ucast (drop_bit (8 * i) w)"

text \<open>The \<open>n\<close> low bytes, least significant first (\<open>U16<LittleEndian>\<close>, \<open>U32<LittleEndian>\<close>).\<close>

definition le_bytes :: "nat \<Rightarrow> 'a::len word \<Rightarrow> bytes" where
  "le_bytes n w = map (\<lambda>i. byte_of i w) [0..<n]"

fun of_le :: "bytes \<Rightarrow> 'a::len word" where
  "of_le [] = 0"
| "of_le (b # bs) = ucast b OR push_bit 8 (of_le bs)"

text \<open>Most significant byte first (\<open>to_be_bytes\<close>, \<open>from_be_bytes\<close>).\<close>

definition be_bytes :: "nat \<Rightarrow> 'a::len word \<Rightarrow> bytes" where
  "be_bytes n w = rev (le_bytes n w)"

definition of_be :: "bytes \<Rightarrow> 'a::len word" where
  "of_be bs = of_le (rev bs)"

lemma length_le_bytes [simp]: "length (le_bytes n w) = n"
  by (simp add: le_bytes_def)

lemma length_be_bytes [simp]: "length (be_bytes n w) = n"
  by (simp add: be_bytes_def)

lemma bit_byte_of: "bit (byte_of i w) j \<longleftrightarrow> j < 8 \<and> bit w (8 * i + j)"
  by (auto simp: byte_of_def bit_ucast_iff bit_drop_bit_eq)

lemma bit_of_le:
  "bit (of_le bs :: 'a::len word) i \<longleftrightarrow>
     i < LENGTH('a) \<and> i div 8 < length bs \<and> bit (bs ! (i div 8)) (i mod 8)"
proof (induction bs arbitrary: i)
  case Nil
  then show ?case by simp
next
  case (Cons b bs)
  show ?case
  proof (cases "i < 8")
    case True
    then show ?thesis
      by (auto simp: bit_or_iff bit_push_bit_iff bit_ucast_iff)
  next
    case False
    then obtain k where k: "i = 8 + k" by (metis add_diff_inverse_nat)
    have "\<not> bit b i" using False bit_imp_le_length [of b i] by auto
    moreover have "(8 + k) div 8 = Suc (k div 8)" by simp
    ultimately show ?thesis using k
      by (auto simp: bit_or_iff bit_push_bit_iff bit_ucast_iff Cons.IH)
  qed
qed

lemma of_le_le_bytes [codec_simps]:
  "LENGTH('a) \<le> 8 * n \<Longrightarrow> of_le (le_bytes n w) = (w :: 'a::len word)"
proof (rule bit_word_eqI)
  fix i assume "LENGTH('a) \<le> 8 * n" and i: "i < LENGTH('a)"
  then have "i div 8 < n" by linarith
  with i show "bit (of_le (le_bytes n w) :: 'a word) i = bit w i"
    by (simp add: bit_of_le le_bytes_def bit_byte_of)
qed

lemma le_bytes_of_le [codec_simps]:
  assumes "length bs = n" and "8 * n \<le> LENGTH('a)"
  shows "le_bytes n (of_le bs :: 'a::len word) = bs"
proof (rule nth_equalityI)
  show "length (le_bytes n (of_le bs :: 'a word)) = length bs" using assms by simp
next
  fix i assume "i < length (le_bytes n (of_le bs :: 'a word))"
  then have i: "i < n" by simp
  show "le_bytes n (of_le bs :: 'a word) ! i = bs ! i"
  proof (rule bit_word_eqI)
    fix j assume "j < LENGTH(8)"
    then have j: "j < 8" by simp
    have "8 * i + j < LENGTH('a)" using i j assms by linarith
    then show "bit (le_bytes n (of_le bs :: 'a word) ! i) j = bit (bs ! i) j"
      using i j assms by (simp add: le_bytes_def bit_byte_of bit_of_le)
  qed
qed

lemma of_be_be_bytes [codec_simps]:
  "LENGTH('a) \<le> 8 * n \<Longrightarrow> of_be (be_bytes n w) = (w :: 'a::len word)"
  by (simp add: of_be_def be_bytes_def codec_simps)

lemma be_bytes_of_be [codec_simps]:
  "length bs = n \<Longrightarrow> 8 * n \<le> LENGTH('a) \<Longrightarrow> be_bytes n (of_be bs :: 'a::len word) = bs"
  by (simp add: of_be_def be_bytes_def codec_simps)

lemma be_bytes_inj:
  "LENGTH('a) \<le> 8 * n \<Longrightarrow> be_bytes n (v :: 'a::len word) = be_bytes n w \<longleftrightarrow> v = w"
  by (metis of_be_be_bytes)

section \<open>Saturating arithmetic\<close>

definition sat_add :: "'a::len word \<Rightarrow> 'a word \<Rightarrow> 'a word" where
  "sat_add a b = (if unat a + unat b < 2 ^ LENGTH('a) then a + b else - 1)"

definition sat_sub :: "'a::len word \<Rightarrow> 'a word \<Rightarrow> 'a word" where
  "sat_sub a b = (if a \<le> b then 0 else a - b)"

lemma unat_sat_sub [sat_simps]: "unat (sat_sub a b) = unat a - unat b"
  by (auto simp: sat_sub_def unat_sub word_le_nat_alt not_le)

lemma unat_sat_add [sat_simps]:
  "unat (sat_add a (b :: 'a::len word)) = min (unat a + unat b) (2 ^ LENGTH('a) - 1)"
proof (cases "unat a + unat b < 2 ^ LENGTH('a)")
  case True
  then show ?thesis by (simp add: sat_add_def unat_word_ariths)
next
  case False
  moreover have "unat (- 1 :: 'a word) = 2 ^ LENGTH('a) - 1"
    by (simp only: unsigned_minus_1_eq_mask mask_eq_exp_minus_1)
  ultimately show ?thesis by (simp add: sat_add_def)
qed

lemma sat_add_ge: "a \<le> sat_add a (b :: 'a::len word)"
proof -
  have "unat a < 2 ^ LENGTH('a)" by (rule unsigned_less)
  then have "unat a \<le> 2 ^ LENGTH('a) - 1" by linarith
  then show ?thesis by (simp add: word_le_nat_alt sat_simps)
qed

section \<open>Packed structs in packet buffers\<close>

text \<open>
  The interface of a \<open>repr(C, packed)\<close> struct with \<open>AsBytes\<close>/\<open>FromBytes\<close>: a fixed size, its
  bytes, and the struct read off a prefix of a buffer. The laws give what the code relies on:
  a struct written over the prefix of a buffer is read back from it, and leaves the rest alone.
\<close>

locale wire_struct =
  fixes size_of :: nat
    and as_bytes :: "'s \<Rightarrow> bytes"
    and ref_from_prefix :: "bytes \<Rightarrow> 's option"
  assumes len_as_bytes: "length (as_bytes s) = size_of"
    and prefix_short: "length bs < size_of \<Longrightarrow> ref_from_prefix bs = None"
    and prefix_as_bytes: "ref_from_prefix (as_bytes s @ rest) = Some s"
    and as_bytes_prefix: "ref_from_prefix bs = Some s \<Longrightarrow> as_bytes s = take size_of bs"
begin

lemma prefix_len: "ref_from_prefix bs = Some s \<Longrightarrow> size_of \<le> length bs"
  using prefix_short [of bs] by (cases "size_of \<le> length bs") auto

text \<open>Writing through \<open>mut_from_prefix\<close>: the first bytes are replaced, the others stay.\<close>

lemma write_read: "size_of \<le> length bs \<Longrightarrow> ref_from_prefix (as_bytes s @ drop size_of bs) = Some s"
  by (rule prefix_as_bytes)

lemma write_len: "size_of \<le> length bs \<Longrightarrow> length (as_bytes s @ drop size_of bs) = length bs"
  by (simp add: len_as_bytes)

lemma write_rest: "size_of \<le> n \<Longrightarrow> drop n (as_bytes s @ drop size_of bs) = drop n bs"
  by (simp add: len_as_bytes)

lemma write_same: "ref_from_prefix bs = Some s \<Longrightarrow> as_bytes s @ drop size_of bs = bs"
  by (simp add: as_bytes_prefix)

lemma as_bytes_inj: "as_bytes s = as_bytes t \<Longrightarrow> s = t"
  using prefix_as_bytes [of s "[]"] prefix_as_bytes [of t "[]"] by simp

end

section \<open>Text\<close>

text \<open>\<open>str::trim\<close> on ASCII white space.\<close>

definition is_space :: "char \<Rightarrow> bool" where
  "is_space ch \<longleftrightarrow> ch = CHR '' '' \<or> (9 \<le> (of_char ch :: nat) \<and> (of_char ch :: nat) \<le> 13)"

definition trim :: "string \<Rightarrow> string" where
  "trim s = rev (dropWhile is_space (rev (dropWhile is_space s)))"

section \<open>Association lists as concurrent maps\<close>

text \<open>
  A \<open>DashMap\<close>/\<open>HashMap\<close> whose iteration the code observes is an association list with
  distinct keys; the list order is the (unspecified) iteration order. \<open>insert\<close> is
  \<^const>\<open>AList.update\<close>, \<open>remove\<close> is \<^const>\<open>AList.delete\<close>, \<open>retain\<close> is \<^const>\<open>filter\<close>.
\<close>

text \<open>Times and durations are counted in nanoseconds.\<close>

definition SEC :: nat where "SEC = 1000000000"

abbreviation keys_distinct :: "('k \<times> 'v) list \<Rightarrow> bool" where
  "keys_distinct m \<equiv> distinct (map fst m)"

lemma keys_distinct_filter: "keys_distinct m \<Longrightarrow> keys_distinct (filter P m)"
  by (induction m) auto

lemma map_of_filter_key:
  "keys_distinct m \<Longrightarrow> map_of (filter P m) k = (case map_of m k of
     Some v \<Rightarrow> if P (k, v) then Some v else None | None \<Rightarrow> None)"
proof (induction m)
  case Nil
  then show ?case by simp
next
  case (Cons kv m)
  obtain k' v' where [simp]: "kv = (k', v')" by (cases kv)
  have "k' \<notin> fst ` set m" using Cons.prems by simp
  then have "map_of (filter P m) k' = None"
    by (auto simp: map_of_eq_None_iff)
  moreover have "map_of m k' = None" using \<open>k' \<notin> fst ` set m\<close> by (simp add: map_of_eq_None_iff)
  ultimately show ?case using Cons by (auto split: option.splits)
qed

lemma map_of_filter_Some:
  "keys_distinct m \<Longrightarrow> map_of (filter P m) k = Some v \<longleftrightarrow> map_of m k = Some v \<and> P (k, v)"
  by (cases "map_of m k") (auto simp: map_of_filter_key)

lemma length_update_le: "length (AList.update k v m) \<le> Suc (length m)"
  by (induction m) auto

lemma list_all_update: "list_all P xs \<Longrightarrow> P (k, v) \<Longrightarrow> list_all P (AList.update k v xs)"
  by (induction xs) auto

lemma update_not_Nil [simp]: "AList.update k v xs \<noteq> []" "[] \<noteq> AList.update k v xs"
  by (cases xs; auto)+

lemma list_all_delete: "list_all P xs \<Longrightarrow> list_all P (AList.delete k xs)"
  by (auto simp: AList.delete_eq list_all_iff)

lemma fresh_update: "map_of xs k = None \<Longrightarrow> AList.update k v xs = xs @ [(k, v)]"
  by (induction xs) (auto split: if_splits)

lemma fresh_delete: "map_of xs k = None \<Longrightarrow> AList.delete k (xs @ [(k, v)]) = xs"
proof -
  assume "map_of xs k = None"
  then have "k \<notin> fst ` set xs" by (simp add: map_of_eq_None_iff)
  then show ?thesis by (auto simp: AList.delete_eq intro!: filter_True) (metis fst_conv image_eqI)
qed

end
