(* ===== verification/Packet_Def.thy ===== *)
theory Packet_Def
  imports Prelude
begin

unbundle bit_operations_syntax

text \<open>
  The packed structs of \<open>easytier/src/tunnel/packet_def.rs\<close>: the tunnel headers, the peer manager
  header with its flag byte, the foreign-network header, and the tails that encryption and
  compression append. Each header is an instance of \<open>wire_struct\<close>. The packet buffer that holds
  them is in the theory \<open>Zc_Packet\<close>.
\<close>

section \<open>Header structs and their sizes\<close>

definition TCP_TUNNEL_HEADER_SIZE :: nat where "TCP_TUNNEL_HEADER_SIZE = 4"
definition UDP_TUNNEL_HEADER_SIZE :: nat where "UDP_TUNNEL_HEADER_SIZE = 8"
definition WG_TUNNEL_HEADER_SIZE :: nat where "WG_TUNNEL_HEADER_SIZE = 20"
definition PEER_MANAGER_HEADER_SIZE :: nat where "PEER_MANAGER_HEADER_SIZE = 16"
definition FOREIGN_NETWORK_HEADER_SIZE :: nat where "FOREIGN_NETWORK_HEADER_SIZE = 10"
definition AEAD_TAIL_SIZE :: nat where "AEAD_TAIL_SIZE = 16 + 12"
definition COMPRESSOR_TAIL_SIZE :: nat where "COMPRESSOR_TAIL_SIZE = 1"

definition max_usize :: "nat \<Rightarrow> nat \<Rightarrow> nat" where
  "max_usize a b = [a, b] ! (if a < b then 1 else 0)"

definition TAIL_RESERVED_SIZE :: nat where
  "TAIL_RESERVED_SIZE = max_usize AEAD_TAIL_SIZE COMPRESSOR_TAIL_SIZE"

lemmas size_defs = TCP_TUNNEL_HEADER_SIZE_def UDP_TUNNEL_HEADER_SIZE_def WG_TUNNEL_HEADER_SIZE_def
  PEER_MANAGER_HEADER_SIZE_def FOREIGN_NETWORK_HEADER_SIZE_def AEAD_TAIL_SIZE_def
  COMPRESSOR_TAIL_SIZE_def

record TCPTunnelHeader =
  tcp_len :: u32

record UDPTunnelHeader =
  udp_conn_id :: u32
  udp_msg_type :: u8
  udp_padding :: u8
  udp_len :: u16

record PeerManagerHeader =
  from_peer_id :: u32
  to_peer_id :: u32
  pm_packet_type :: u8
  pm_flags :: u8
  forward_counter :: u8
  pm_reserved :: u8
  pm_len :: u32

record ForeignNetworkPacketHeader =
  fn_header_len :: u16
  fn_dst_peer_id :: u32
  network_name_offset :: u16
  network_name_len :: u16

record AeadTail =
  aead_tag :: bytes
  aead_nonce :: bytes

datatype UdpPacketType = UPT_Invalid | UPT_Syn | UPT_Sack | UPT_Data | UPT_Fin | UPT_HolePunch
  | UPT_V4HolePunch | UPT_V6HolePunch

primrec UdpPacketType_code :: "UdpPacketType \<Rightarrow> u8" where
  "UdpPacketType_code UPT_Invalid = 0"
| "UdpPacketType_code UPT_Syn = 1"
| "UdpPacketType_code UPT_Sack = 2"
| "UdpPacketType_code UPT_Data = 3"
| "UdpPacketType_code UPT_Fin = 4"
| "UdpPacketType_code UPT_HolePunch = 5"
| "UdpPacketType_code UPT_V4HolePunch = 6"
| "UdpPacketType_code UPT_V6HolePunch = 7"

datatype PacketType = PT_Invalid | PT_Data | PT_HandShake | PT_RoutePacket | PT_Ping | PT_Pong
  | PT_TaRpc | PT_Route | PT_RpcReq | PT_RpcResp | PT_ForeignNetworkPacket | PT_KcpSrc | PT_KcpDst
  | PT_QuicSrc | PT_QuicDst | PT_NoiseHandshakeMsg1 | PT_NoiseHandshakeMsg2
  | PT_NoiseHandshakeMsg3 | PT_RelayHandshake | PT_RelayHandshakeAck
  | PT_DataWithKcpSrcModified | PT_DataWithQuicSrcModified

primrec PacketType_code :: "PacketType \<Rightarrow> u8" where
  "PacketType_code PT_Invalid = 0"
| "PacketType_code PT_Data = 1"
| "PacketType_code PT_HandShake = 2"
| "PacketType_code PT_RoutePacket = 3"
| "PacketType_code PT_Ping = 4"
| "PacketType_code PT_Pong = 5"
| "PacketType_code PT_TaRpc = 6"
| "PacketType_code PT_Route = 7"
| "PacketType_code PT_RpcReq = 8"
| "PacketType_code PT_RpcResp = 9"
| "PacketType_code PT_ForeignNetworkPacket = 10"
| "PacketType_code PT_KcpSrc = 11"
| "PacketType_code PT_KcpDst = 12"
| "PacketType_code PT_QuicSrc = 16"
| "PacketType_code PT_QuicDst = 17"
| "PacketType_code PT_NoiseHandshakeMsg1 = 13"
| "PacketType_code PT_NoiseHandshakeMsg2 = 14"
| "PacketType_code PT_NoiseHandshakeMsg3 = 15"
| "PacketType_code PT_RelayHandshake = 20"
| "PacketType_code PT_RelayHandshakeAck = 21"
| "PacketType_code PT_DataWithKcpSrcModified = 18"
| "PacketType_code PT_DataWithQuicSrcModified = 19"

section \<open>The flag byte of the peer manager header\<close>

text \<open>
  \<open>PeerManagerHeaderFlags\<close> declares every bit (\<open>const _ = !0\<close>), so \<open>from_bits\<close> never fails;
  \<open>contains\<close>, \<open>insert\<close> and \<open>remove\<close> are the bit operations below.
\<close>

definition ENCRYPTED :: u8 where "ENCRYPTED = 1"
definition LATENCY_FIRST :: u8 where "LATENCY_FIRST = 2"
definition EXIT_NODE :: u8 where "EXIT_NODE = 4"
definition NO_PROXY :: u8 where "NO_PROXY = 8"
definition COMPRESSED :: u8 where "COMPRESSED = 16"
definition NOT_SEND_TO_TUN :: u8 where "NOT_SEND_TO_TUN = 64"

lemmas flag_defs = ENCRYPTED_def LATENCY_FIRST_def EXIT_NODE_def NO_PROXY_def COMPRESSED_def
  NOT_SEND_TO_TUN_def

definition flag_contains :: "u8 \<Rightarrow> u8 \<Rightarrow> bool" where
  "flag_contains fl f \<longleftrightarrow> fl AND f = f"

definition flag_put :: "u8 \<Rightarrow> bool \<Rightarrow> u8 \<Rightarrow> u8" where
  "flag_put f b fl = (if b then fl OR f else fl AND NOT f)"

definition is_encrypted :: "PeerManagerHeader \<Rightarrow> bool" where
  "is_encrypted h = flag_contains (pm_flags h) ENCRYPTED"

definition set_encrypted :: "bool \<Rightarrow> PeerManagerHeader \<Rightarrow> PeerManagerHeader" where
  "set_encrypted b h = h\<lparr>pm_flags := flag_put ENCRYPTED b (pm_flags h)\<rparr>"

definition is_latency_first :: "PeerManagerHeader \<Rightarrow> bool" where
  "is_latency_first h = flag_contains (pm_flags h) LATENCY_FIRST"

definition is_exit_node :: "PeerManagerHeader \<Rightarrow> bool" where
  "is_exit_node h = flag_contains (pm_flags h) EXIT_NODE"

definition is_no_proxy :: "PeerManagerHeader \<Rightarrow> bool" where
  "is_no_proxy h = flag_contains (pm_flags h) NO_PROXY"

definition is_compressed :: "PeerManagerHeader \<Rightarrow> bool" where
  "is_compressed h = flag_contains (pm_flags h) COMPRESSED"

definition set_latency_first :: "bool \<Rightarrow> PeerManagerHeader \<Rightarrow> PeerManagerHeader" where
  "set_latency_first b h = h\<lparr>pm_flags := flag_put LATENCY_FIRST b (pm_flags h)\<rparr>"

definition set_exit_node :: "bool \<Rightarrow> PeerManagerHeader \<Rightarrow> PeerManagerHeader" where
  "set_exit_node b h = h\<lparr>pm_flags := flag_put EXIT_NODE b (pm_flags h)\<rparr>"

definition set_no_proxy :: "bool \<Rightarrow> PeerManagerHeader \<Rightarrow> PeerManagerHeader" where
  "set_no_proxy b h = h\<lparr>pm_flags := flag_put NO_PROXY b (pm_flags h)\<rparr>"

definition set_compressed :: "bool \<Rightarrow> PeerManagerHeader \<Rightarrow> PeerManagerHeader" where
  "set_compressed b h = h\<lparr>pm_flags := flag_put COMPRESSED b (pm_flags h)\<rparr>"

definition set_not_send_to_tun :: "bool \<Rightarrow> PeerManagerHeader \<Rightarrow> PeerManagerHeader" where
  "set_not_send_to_tun b h = h\<lparr>pm_flags := flag_put NOT_SEND_TO_TUN b (pm_flags h)\<rparr>"

definition is_not_send_to_tun :: "PeerManagerHeader \<Rightarrow> bool" where
  "is_not_send_to_tun h = flag_contains (pm_flags h) NOT_SEND_TO_TUN"

text \<open>The two marks assert that the packet is a data packet and panic otherwise.\<close>

definition mark_kcp_src_modified :: "PeerManagerHeader \<Rightarrow> PeerManagerHeader may_panic" where
  "mark_kcp_src_modified h =
     (if pm_packet_type h = PacketType_code PT_Data
      then Some (h\<lparr>pm_packet_type := PacketType_code PT_DataWithKcpSrcModified\<rparr>) else None)"

definition is_kcp_src_modified :: "PeerManagerHeader \<Rightarrow> bool" where
  "is_kcp_src_modified h \<longleftrightarrow> pm_packet_type h = PacketType_code PT_DataWithKcpSrcModified"

definition mark_quic_src_modified :: "PeerManagerHeader \<Rightarrow> PeerManagerHeader may_panic" where
  "mark_quic_src_modified h =
     (if pm_packet_type h = PacketType_code PT_Data
      then Some (h\<lparr>pm_packet_type := PacketType_code PT_DataWithQuicSrcModified\<rparr>) else None)"

definition is_quic_src_modified :: "PeerManagerHeader \<Rightarrow> bool" where
  "is_quic_src_modified h \<longleftrightarrow> pm_packet_type h = PacketType_code PT_DataWithQuicSrcModified"

lemmas flag_ops = is_encrypted_def set_encrypted_def is_latency_first_def is_exit_node_def
  is_no_proxy_def is_compressed_def set_latency_first_def set_exit_node_def set_no_proxy_def
  set_compressed_def set_not_send_to_tun_def is_not_send_to_tun_def

section \<open>Struct layouts\<close>

definition tcp_as_bytes :: "TCPTunnelHeader \<Rightarrow> bytes" where
  "tcp_as_bytes h = le_bytes 4 (tcp_len h)"

definition tcp_ref_from_prefix :: "bytes \<Rightarrow> TCPTunnelHeader option" where
  "tcp_ref_from_prefix bs =
     (if length bs < TCP_TUNNEL_HEADER_SIZE then None
      else Some \<lparr>tcp_len = of_le (take 4 bs)\<rparr>)"

definition udp_as_bytes :: "UDPTunnelHeader \<Rightarrow> bytes" where
  "udp_as_bytes h =
     le_bytes 4 (udp_conn_id h) @ [udp_msg_type h, udp_padding h] @ le_bytes 2 (udp_len h)"

definition udp_ref_from_prefix :: "bytes \<Rightarrow> UDPTunnelHeader option" where
  "udp_ref_from_prefix bs =
     (if length bs < UDP_TUNNEL_HEADER_SIZE then None
      else Some \<lparr>udp_conn_id = of_le (take 4 bs), udp_msg_type = bs ! 4, udp_padding = bs ! 5,
                 udp_len = of_le (take 2 (drop 6 bs))\<rparr>)"

text \<open>\<open>WGTunnelHeader\<close> is its twenty raw bytes.\<close>

definition wg_ref_from_prefix :: "bytes \<Rightarrow> bytes option" where
  "wg_ref_from_prefix bs =
     (if length bs < WG_TUNNEL_HEADER_SIZE then None else Some (take WG_TUNNEL_HEADER_SIZE bs))"

definition pmh_as_bytes :: "PeerManagerHeader \<Rightarrow> bytes" where
  "pmh_as_bytes h =
     le_bytes 4 (from_peer_id h) @ le_bytes 4 (to_peer_id h) @
     [pm_packet_type h, pm_flags h, forward_counter h, pm_reserved h] @ le_bytes 4 (pm_len h)"

definition pmh_ref_from_prefix :: "bytes \<Rightarrow> PeerManagerHeader option" where
  "pmh_ref_from_prefix bs =
     (if length bs < PEER_MANAGER_HEADER_SIZE then None
      else Some \<lparr>from_peer_id = of_le (take 4 bs), to_peer_id = of_le (take 4 (drop 4 bs)),
                 pm_packet_type = bs ! 8, pm_flags = bs ! 9, forward_counter = bs ! 10,
                 pm_reserved = bs ! 11, pm_len = of_le (take 4 (drop 12 bs))\<rparr>)"

definition fnh_as_bytes :: "ForeignNetworkPacketHeader \<Rightarrow> bytes" where
  "fnh_as_bytes h =
     le_bytes 2 (fn_header_len h) @ le_bytes 4 (fn_dst_peer_id h) @
     le_bytes 2 (network_name_offset h) @ le_bytes 2 (network_name_len h)"

definition fnh_ref_from_prefix :: "bytes \<Rightarrow> ForeignNetworkPacketHeader option" where
  "fnh_ref_from_prefix bs =
     (if length bs < FOREIGN_NETWORK_HEADER_SIZE then None
      else Some \<lparr>fn_header_len = of_le (take 2 bs), fn_dst_peer_id = of_le (take 4 (drop 2 bs)),
                 network_name_offset = of_le (take 2 (drop 6 bs)),
                 network_name_len = of_le (take 2 (drop 8 bs))\<rparr>)"

definition aead_tail_as_bytes :: "AeadTail \<Rightarrow> bytes" where
  "aead_tail_as_bytes t = aead_tag t @ aead_nonce t"

definition aead_tail_ref_from_suffix :: "bytes \<Rightarrow> AeadTail option" where
  "aead_tail_ref_from_suffix bs =
     (if length bs < AEAD_TAIL_SIZE then None
      else let tl = drop (length bs - AEAD_TAIL_SIZE) bs
           in Some \<lparr>aead_tag = take 16 tl, aead_nonce = drop 16 tl\<rparr>)"

text \<open>The compressor tail is one byte; the algorithm codes are those of the \<open>zstd\<close> feature.\<close>

datatype CompressorAlgo = CA_None | CA_ZstdDefault

primrec CompressorAlgo_code :: "CompressorAlgo \<Rightarrow> u8" where
  "CompressorAlgo_code CA_None = 0"
| "CompressorAlgo_code CA_ZstdDefault = 1"

record CompressorTail =
  ct_algo :: u8

definition compressor_tail_new :: "CompressorAlgo \<Rightarrow> CompressorTail" where
  "compressor_tail_new a = \<lparr>ct_algo = CompressorAlgo_code a\<rparr>"

definition get_algo :: "CompressorTail \<Rightarrow> CompressorAlgo option" where
  "get_algo t = (if ct_algo t = 1 then Some CA_ZstdDefault else None)"

lemmas layout_defs = tcp_as_bytes_def tcp_ref_from_prefix_def udp_as_bytes_def
  udp_ref_from_prefix_def pmh_as_bytes_def pmh_ref_from_prefix_def fnh_as_bytes_def
  fnh_ref_from_prefix_def

lemma take_drop_nth:
  "n < length bs \<Longrightarrow> take (Suc m) (drop n bs) = bs ! n # take m (drop (Suc n) bs)"
  by (simp add: Cons_nth_drop_Suc [symmetric])

lemma take_plus_drop: "take n bs @ take m (drop n bs) = take (n + m) bs"
  by (simp add: take_add)

interpretation tcp_hdr: wire_struct TCP_TUNNEL_HEADER_SIZE tcp_as_bytes tcp_ref_from_prefix
  by unfold_locales (auto simp: layout_defs size_defs codec_simps split: if_splits)

interpretation udp_hdr: wire_struct UDP_TUNNEL_HEADER_SIZE udp_as_bytes udp_ref_from_prefix
proof unfold_locales
  fix bs s assume "udp_ref_from_prefix bs = Some s"
  then have len: "8 \<le> length bs" and s: "udp_as_bytes s =
      take 4 bs @ [bs ! 4, bs ! 5] @ take 2 (drop 6 bs)"
    by (auto simp: layout_defs size_defs codec_simps split: if_splits)
  have "[bs ! 4, bs ! 5] = take 2 (drop 4 bs)"
    using len by (simp add: numeral_2_eq_2 take_drop_nth)
  then show "udp_as_bytes s = take UDP_TUNNEL_HEADER_SIZE bs"
    using take_plus_drop [of 4 bs 2] take_plus_drop [of 6 bs 2]
    by (simp add: s size_defs flip: append_assoc)
qed (auto simp: layout_defs size_defs codec_simps nth_append)

interpretation pm_hdr: wire_struct PEER_MANAGER_HEADER_SIZE pmh_as_bytes pmh_ref_from_prefix
proof unfold_locales
  fix bs s assume "pmh_ref_from_prefix bs = Some s"
  then have len: "16 \<le> length bs" and s: "pmh_as_bytes s =
      take 4 bs @ take 4 (drop 4 bs) @ [bs ! 8, bs ! 9, bs ! 10, bs ! 11] @ take 4 (drop 12 bs)"
    by (auto simp: layout_defs size_defs codec_simps split: if_splits)
  have "[bs ! 8, bs ! 9, bs ! 10, bs ! 11] = take 4 (drop 8 bs)"
    using len by (simp add: eval_nat_numeral take_drop_nth)
  then show "pmh_as_bytes s = take PEER_MANAGER_HEADER_SIZE bs"
    using take_plus_drop [of 4 bs 4] take_plus_drop [of 8 bs 4] take_plus_drop [of 12 bs 4]
    by (simp add: s size_defs flip: append_assoc)
qed (auto simp: layout_defs size_defs codec_simps nth_append)

interpretation fn_hdr: wire_struct FOREIGN_NETWORK_HEADER_SIZE fnh_as_bytes fnh_ref_from_prefix
proof unfold_locales
  fix bs s assume "fnh_ref_from_prefix bs = Some s"
  then have s: "fnh_as_bytes s =
      take 2 bs @ take 4 (drop 2 bs) @ take 2 (drop 6 bs) @ take 2 (drop 8 bs)"
    by (auto simp: layout_defs size_defs codec_simps split: if_splits)
  then show "fnh_as_bytes s = take FOREIGN_NETWORK_HEADER_SIZE bs"
    using take_plus_drop [of 2 bs 4] take_plus_drop [of 6 bs 2] take_plus_drop [of 8 bs 2]
    by (simp add: size_defs flip: append_assoc)
qed (auto simp: layout_defs size_defs codec_simps)

section \<open>Foreign-network header\<close>

text \<open>
  A Rust string is its UTF-8 bytes. \<open>utf8_valid\<close> is the validity test of \<open>str::from_utf8\<close>: no
  overlong form, no surrogate, nothing above U+10FFFF.
\<close>

definition utf8_cont :: "u8 \<Rightarrow> bool" where
  "utf8_cont b \<longleftrightarrow> 0x80 \<le> b \<and> b \<le> 0xBF"

fun utf8_valid :: "bytes \<Rightarrow> bool" where
  "utf8_valid [] = True"
| "utf8_valid (b # bs) =
     (if b < 0x80 then utf8_valid bs
      else if 0xC2 \<le> b \<and> b \<le> 0xDF then
        (case bs of c1 # r \<Rightarrow> utf8_cont c1 \<and> utf8_valid r | _ \<Rightarrow> False)
      else if 0xE0 \<le> b \<and> b \<le> 0xEF then
        (case bs of c1 # c2 # r \<Rightarrow>
           (if b = 0xE0 then 0xA0 \<le> c1 \<and> c1 \<le> 0xBF
            else if b = 0xED then 0x80 \<le> c1 \<and> c1 \<le> 0x9F else utf8_cont c1)
           \<and> utf8_cont c2 \<and> utf8_valid r
         | _ \<Rightarrow> False)
      else if 0xF0 \<le> b \<and> b \<le> 0xF4 then
        (case bs of c1 # c2 # c3 # r \<Rightarrow>
           (if b = 0xF0 then 0x90 \<le> c1 \<and> c1 \<le> 0xBF
            else if b = 0xF4 then 0x80 \<le> c1 \<and> c1 \<le> 0x8F else utf8_cont c1)
           \<and> utf8_cont c2 \<and> utf8_cont c3 \<and> utf8_valid r
         | _ \<Rightarrow> False)
      else False)"

text \<open>The lengths are cast to 16 bits, and the header length wraps with them.\<close>

definition fnh_new :: "u32 \<Rightarrow> bytes \<Rightarrow> ForeignNetworkPacketHeader" where
  "fnh_new dst name =
     (let off = of_nat FOREIGN_NETWORK_HEADER_SIZE; len = of_nat (length name)
      in \<lparr>fn_header_len = off + len, fn_dst_peer_id = dst, network_name_offset = off,
          network_name_len = len\<rparr>)"

text \<open>A name range outside the payload and a name that is not UTF-8 both panic.\<close>

definition get_network_name :: "ForeignNetworkPacketHeader \<Rightarrow> bytes \<Rightarrow> bytes may_panic" where
  "get_network_name h pl = do {
     let off = unat (network_name_offset h);
     name \<leftarrow> index_range off (off + unat (network_name_len h)) pl;
     if utf8_valid name then Some name else None }"

definition fnh_get_dst_peer_id :: "ForeignNetworkPacketHeader \<Rightarrow> u32" where
  "fnh_get_dst_peer_id h = fn_dst_peer_id h"

definition get_header_len :: "ForeignNetworkPacketHeader \<Rightarrow> nat" where
  "get_header_len h = unat (fn_header_len h)"

lemma fnh_new_lens:
  assumes "length name \<le> 65525"
  shows "get_header_len (fnh_new dst name) = 10 + length name"
    and "unat (network_name_offset (fnh_new dst name)) = 10"
    and "unat (network_name_len (fnh_new dst name)) = length name"
  using assms
  by (simp_all add: fnh_new_def get_header_len_def size_defs Let_def unat_word_ariths
      unat_of_nat take_bit_eq_mod)

section \<open>Laws of the flag byte\<close>

text \<open>Flags that share no bit do not disturb each other.\<close>

lemma flag_put_same: "f \<noteq> 0 \<Longrightarrow> flag_contains (flag_put f b fl) f = b"
  by (auto simp: flag_contains_def flag_put_def word_bw_lcs ac_simps bit_eq_iff bit_simps)

lemma flag_put_other: "f AND g = 0 \<Longrightarrow> flag_contains (flag_put f b fl) g = flag_contains fl g"
proof -
  assume "f AND g = 0"
  then have *: "\<not> (bit f n \<and> bit g n)" for n by (metis bit_and_iff bit_0_eq bot_apply bot_bool_def)
  show ?thesis
    unfolding flag_contains_def flag_put_def
    by (rule arg_cong [where f = "\<lambda>x. x = g"], rule bit_eqI) (use * in \<open>auto simp: bit_simps\<close>)
qed

lemma flag_contains_bit: "n < 8 \<Longrightarrow> flag_contains fl (2 ^ n) = bit fl n"
  unfolding flag_contains_def bit_eq_iff [of "fl AND 2 ^ n"] by (auto simp: bit_simps)

text \<open>Setting a clear flag and clearing it again gives the flags back.\<close>

lemma flag_put_undo:
  assumes "n < 8" and "\<not> flag_contains fl (2 ^ n)"
  shows "flag_put (2 ^ n) False (flag_put (2 ^ n) True fl) = fl"
proof (rule bit_word_eqI)
  fix i assume "i < LENGTH(8)"
  then show "bit (flag_put (2 ^ n) False (flag_put (2 ^ n) True fl)) i = bit fl i"
    using assms flag_contains_bit [of n fl] by (auto simp: flag_put_def bit_simps)
qed

lemma set_encrypted_undo:
  "\<not> is_encrypted h \<Longrightarrow> set_encrypted False (set_encrypted True h) = h"
  using flag_put_undo [of 0 "pm_flags h"] by (simp add: is_encrypted_def set_encrypted_def ENCRYPTED_def)

lemma set_compressed_undo:
  "\<not> is_compressed h \<Longrightarrow> set_compressed False (set_compressed True h) = h"
  using flag_put_undo [of 4 "pm_flags h"]
  by (simp add: is_compressed_def set_compressed_def COMPRESSED_def)

lemma is_encrypted_set [simp]: "is_encrypted (set_encrypted b h) = b"
  by (simp add: flag_ops flag_put_same ENCRYPTED_def)

lemma is_compressed_set [simp]: "is_compressed (set_compressed b h) = b"
  by (simp add: flag_ops flag_put_same COMPRESSED_def)

lemma is_compressed_set_encrypted [simp]: "is_compressed (set_encrypted b h) = is_compressed h"
  by (simp add: flag_ops flag_defs flag_put_other)

lemma is_encrypted_set_compressed [simp]: "is_encrypted (set_compressed b h) = is_encrypted h"
  by (simp add: flag_ops flag_defs flag_put_other)

lemma pm_len_set [simp]:
  "pm_len (set_encrypted b h) = pm_len h" "pm_len (set_compressed b h) = pm_len h"
  by (simp_all add: flag_ops)

end
