(* ===== verification/Zc_Packet.thy ===== *)
theory Zc_Packet
  imports Packet_Def
begin

unbundle bit_operations_syntax

text \<open>
  \<open>ZCPacket\<close> of \<open>easytier/src/tunnel/packet_def.rs\<close>: one buffer in which the headers of every
  tunnel type overlay each other at the offsets of the packet's type. A reference into the buffer
  (\<open>peer_manager_header\<close>) is modelled by reading the struct, a mutable one
  (\<open>mut_peer_manager_header\<close>) by a function on the struct whose result is written back.
  Buffers are \<^typ>\<open>bytes\<close>; the contents of space reserved and not yet written is the parameter
  \<open>u\<close> (see \<^const>\<open>uninit\<close>), so every theorem holds whatever the allocation held.
\<close>

section \<open>Packet types and offsets\<close>

record zc_packet_offsets =
  payload_offset_of :: nat
  peer_manager_header_offset :: nat
  tcp_tunnel_header_offset :: nat
  udp_tunnel_header_offset :: nat
  wg_tunnel_header_offset :: nat
  dummy_tunnel_header_offset :: nat

datatype ZCPacketType = ZT_TCP | ZT_UDP | ZT_WG | ZT_NIC | ZT_DummyTunnel

definition PAYLOAD_OFFSET_FOR_NIC_PACKET :: nat where
  "PAYLOAD_OFFSET_FOR_NIC_PACKET =
     max_usize (max_usize TCP_TUNNEL_HEADER_SIZE UDP_TUNNEL_HEADER_SIZE) WG_TUNNEL_HEADER_SIZE
     + PEER_MANAGER_HEADER_SIZE"

definition INVALID_OFFSET :: nat where "INVALID_OFFSET = 2 ^ 64 - 1"

definition get_converted_offset :: "nat \<Rightarrow> nat \<Rightarrow> nat" where
  "get_converted_offset old_hdr_size new_hdr_size =
     (if old_hdr_size < new_hdr_size then INVALID_OFFSET else old_hdr_size - new_hdr_size)"

primrec get_packet_offsets :: "ZCPacketType \<Rightarrow> zc_packet_offsets" where
  "get_packet_offsets ZT_TCP =
     \<lparr>payload_offset_of = TCP_TUNNEL_HEADER_SIZE + PEER_MANAGER_HEADER_SIZE,
      peer_manager_header_offset = TCP_TUNNEL_HEADER_SIZE,
      tcp_tunnel_header_offset = 0,
      udp_tunnel_header_offset = get_converted_offset TCP_TUNNEL_HEADER_SIZE UDP_TUNNEL_HEADER_SIZE,
      wg_tunnel_header_offset = get_converted_offset TCP_TUNNEL_HEADER_SIZE WG_TUNNEL_HEADER_SIZE,
      dummy_tunnel_header_offset = get_converted_offset TCP_TUNNEL_HEADER_SIZE 0\<rparr>"
| "get_packet_offsets ZT_UDP =
     \<lparr>payload_offset_of = UDP_TUNNEL_HEADER_SIZE + PEER_MANAGER_HEADER_SIZE,
      peer_manager_header_offset = UDP_TUNNEL_HEADER_SIZE,
      tcp_tunnel_header_offset = get_converted_offset UDP_TUNNEL_HEADER_SIZE TCP_TUNNEL_HEADER_SIZE,
      udp_tunnel_header_offset = 0,
      wg_tunnel_header_offset = get_converted_offset UDP_TUNNEL_HEADER_SIZE WG_TUNNEL_HEADER_SIZE,
      dummy_tunnel_header_offset = get_converted_offset UDP_TUNNEL_HEADER_SIZE 0\<rparr>"
| "get_packet_offsets ZT_WG =
     \<lparr>payload_offset_of = WG_TUNNEL_HEADER_SIZE + PEER_MANAGER_HEADER_SIZE,
      peer_manager_header_offset = WG_TUNNEL_HEADER_SIZE,
      tcp_tunnel_header_offset = get_converted_offset WG_TUNNEL_HEADER_SIZE TCP_TUNNEL_HEADER_SIZE,
      udp_tunnel_header_offset = get_converted_offset WG_TUNNEL_HEADER_SIZE UDP_TUNNEL_HEADER_SIZE,
      wg_tunnel_header_offset = 0,
      dummy_tunnel_header_offset = get_converted_offset WG_TUNNEL_HEADER_SIZE 0\<rparr>"
| "get_packet_offsets ZT_NIC =
     \<lparr>payload_offset_of = PAYLOAD_OFFSET_FOR_NIC_PACKET,
      peer_manager_header_offset = PAYLOAD_OFFSET_FOR_NIC_PACKET - PEER_MANAGER_HEADER_SIZE,
      tcp_tunnel_header_offset =
        PAYLOAD_OFFSET_FOR_NIC_PACKET - PEER_MANAGER_HEADER_SIZE - TCP_TUNNEL_HEADER_SIZE,
      udp_tunnel_header_offset =
        PAYLOAD_OFFSET_FOR_NIC_PACKET - PEER_MANAGER_HEADER_SIZE - UDP_TUNNEL_HEADER_SIZE,
      wg_tunnel_header_offset =
        PAYLOAD_OFFSET_FOR_NIC_PACKET - PEER_MANAGER_HEADER_SIZE - WG_TUNNEL_HEADER_SIZE,
      dummy_tunnel_header_offset = PAYLOAD_OFFSET_FOR_NIC_PACKET - PEER_MANAGER_HEADER_SIZE\<rparr>"
| "get_packet_offsets ZT_DummyTunnel =
     \<lparr>payload_offset_of = PEER_MANAGER_HEADER_SIZE,
      peer_manager_header_offset = 0,
      tcp_tunnel_header_offset = get_converted_offset 0 TCP_TUNNEL_HEADER_SIZE,
      udp_tunnel_header_offset = get_converted_offset 0 UDP_TUNNEL_HEADER_SIZE,
      wg_tunnel_header_offset = get_converted_offset 0 WG_TUNNEL_HEADER_SIZE,
      dummy_tunnel_header_offset = 0\<rparr>"

section \<open>The packet and its accessors\<close>

record zc_packet =
  inner :: bytes
  packet_type :: ZCPacketType

definition offsets :: "zc_packet \<Rightarrow> zc_packet_offsets" where
  "offsets p = get_packet_offsets (packet_type p)"

definition bytes_from_offset :: "zc_packet \<Rightarrow> nat \<Rightarrow> bytes option" where
  "bytes_from_offset p offset = get_from offset (inner p)"

definition new_nic_packet :: zc_packet where
  "new_nic_packet = \<lparr>inner = [], packet_type = ZT_NIC\<rparr>"

definition new_from_buf :: "bytes \<Rightarrow> ZCPacketType \<Rightarrow> zc_packet" where
  "new_from_buf buf t = \<lparr>inner = buf, packet_type = t\<rparr>"

definition payload_offset :: "zc_packet \<Rightarrow> nat" where
  "payload_offset p = payload_offset_of (offsets p)"

definition payload :: "zc_packet \<Rightarrow> bytes may_panic" where
  "payload p = index_from (payload_offset p) (inner p)"

text \<open>\<open>p.mut_payload()\<close> with the slice rewritten by \<open>f\<close>, a function that keeps its length.\<close>

definition mut_payload :: "(bytes \<Rightarrow> bytes may_panic) \<Rightarrow> zc_packet \<Rightarrow> zc_packet may_panic" where
  "mut_payload f p = do {
     pl \<leftarrow> index_from (payload_offset p) (inner p);
     pl' \<leftarrow> f pl;
     Some (p\<lparr>inner := take (payload_offset p) (inner p) @ pl'\<rparr>) }"

definition payload_bytes :: "zc_packet \<Rightarrow> bytes may_panic" where
  "payload_bytes p = index_from (payload_offset p) (inner p)"

definition peer_manager_header :: "zc_packet \<Rightarrow> PeerManagerHeader option" where
  "peer_manager_header p =
     Option.bind (bytes_from_offset p (peer_manager_header_offset (offsets p))) pmh_ref_from_prefix"

definition tcp_tunnel_header :: "zc_packet \<Rightarrow> TCPTunnelHeader option" where
  "tcp_tunnel_header p =
     Option.bind (bytes_from_offset p (tcp_tunnel_header_offset (offsets p))) tcp_ref_from_prefix"

definition udp_tunnel_header :: "zc_packet \<Rightarrow> UDPTunnelHeader option" where
  "udp_tunnel_header p =
     Option.bind (bytes_from_offset p (udp_tunnel_header_offset (offsets p))) udp_ref_from_prefix"

text \<open>
  The mutable accessors: \<^term>\<open>None\<close> where the code returns \<open>None\<close>, otherwise the packet after the
  caller's update \<open>f\<close> of the header.
\<close>

definition mut_at :: "nat \<Rightarrow> nat \<Rightarrow> bytes \<Rightarrow> zc_packet \<Rightarrow> zc_packet" where
  "mut_at off sz new p =
     p\<lparr>inner := take off (inner p) @ new @ drop (off + sz) (inner p)\<rparr>"

definition mut_peer_manager_header ::
  "(PeerManagerHeader \<Rightarrow> PeerManagerHeader) \<Rightarrow> zc_packet \<Rightarrow> zc_packet option" where
  "mut_peer_manager_header f p = do {
     let offset = peer_manager_header_offset (offsets p);
     bs \<leftarrow> bytes_from_offset p offset;
     h \<leftarrow> pmh_ref_from_prefix bs;
     Some (mut_at offset PEER_MANAGER_HEADER_SIZE (pmh_as_bytes (f h)) p) }"

definition mut_tcp_tunnel_header ::
  "(TCPTunnelHeader \<Rightarrow> TCPTunnelHeader) \<Rightarrow> zc_packet \<Rightarrow> zc_packet option" where
  "mut_tcp_tunnel_header f p = do {
     let offset = tcp_tunnel_header_offset (offsets p);
     bs \<leftarrow> bytes_from_offset p offset;
     h \<leftarrow> tcp_ref_from_prefix bs;
     Some (mut_at offset TCP_TUNNEL_HEADER_SIZE (tcp_as_bytes (f h)) p) }"

definition mut_udp_tunnel_header ::
  "(UDPTunnelHeader \<Rightarrow> UDPTunnelHeader) \<Rightarrow> zc_packet \<Rightarrow> zc_packet option" where
  "mut_udp_tunnel_header f p = do {
     let offset = udp_tunnel_header_offset (offsets p);
     bs \<leftarrow> bytes_from_offset p offset;
     h \<leftarrow> udp_ref_from_prefix bs;
     Some (mut_at offset UDP_TUNNEL_HEADER_SIZE (udp_as_bytes (f h)) p) }"

text \<open>The WireGuard header is twenty bytes, rewritten in place.\<close>

definition mut_wg_tunnel_header :: "(bytes \<Rightarrow> bytes) \<Rightarrow> zc_packet \<Rightarrow> zc_packet option" where
  "mut_wg_tunnel_header f p = do {
     let offset = wg_tunnel_header_offset (offsets p);
     bs \<leftarrow> bytes_from_offset p offset;
     h \<leftarrow> wg_ref_from_prefix bs;
     Some (mut_at offset WG_TUNNEL_HEADER_SIZE (f h) p) }"

text \<open>The addition to an invalid offset wraps at 64 bits.\<close>

definition udp_payload :: "zc_packet \<Rightarrow> bytes may_panic" where
  "udp_payload p =
     index_from ((udp_tunnel_header_offset (offsets p) + UDP_TUNNEL_HEADER_SIZE) mod 2 ^ 64) (inner p)"

text \<open>The subtraction wraps at 64 bits when the buffer is shorter than the headers.\<close>

definition payload_len :: "zc_packet \<Rightarrow> nat" where
  "payload_len p = (length (inner p) + 2 ^ 64 - payload_offset p) mod 2 ^ 64"

definition buf_len :: "zc_packet \<Rightarrow> nat" where
  "buf_len p = length (inner p)"

definition tunnel_payload :: "zc_packet \<Rightarrow> bytes may_panic" where
  "tunnel_payload p = index_from (peer_manager_header_offset (offsets p)) (inner p)"

definition tunnel_payload_bytes :: "zc_packet \<Rightarrow> bytes may_panic" where
  "tunnel_payload_bytes p = index_from (peer_manager_header_offset (offsets p)) (inner p)"

text \<open>\<open>mut_peer_manager_header().unwrap()\<close> panics on a short buffer.\<close>

definition fill_peer_manager_hdr :: "u32 \<Rightarrow> u32 \<Rightarrow> u8 \<Rightarrow> zc_packet \<Rightarrow> zc_packet may_panic" where
  "fill_peer_manager_hdr from_id to_id ty p =
     mut_peer_manager_header (\<lambda>h. h\<lparr>from_peer_id := from_id, to_peer_id := to_id,
       pm_packet_type := ty, pm_flags := 0, forward_counter := 1,
       pm_len := of_nat (payload_len p)\<rparr>) p"

definition convert_type ::
  "(nat \<Rightarrow> u8) \<Rightarrow> ZCPacketType \<Rightarrow> zc_packet \<Rightarrow> zc_packet may_panic" where
  "convert_type u target p =
     (if target = packet_type p then Some p
      else do {
        new_offset \<leftarrow> (case target of
             ZT_TCP \<Rightarrow> Some (tcp_tunnel_header_offset (offsets p))
           | ZT_UDP \<Rightarrow> Some (udp_tunnel_header_offset (offsets p))
           | ZT_WG \<Rightarrow> Some (wg_tunnel_header_offset (offsets p))
           | ZT_DummyTunnel \<Rightarrow> Some (dummy_tunnel_header_offset (offsets p))
           | ZT_NIC \<Rightarrow> None);
        if new_offset = INVALID_OFFSET then do {
          tp \<leftarrow> tunnel_payload p;
          let new_pm_offset = peer_manager_header_offset (get_packet_offsets target);
          Some (new_from_buf (uninit u new_pm_offset @ tp) target) }
        else do {
          buf \<leftarrow> index_from new_offset (inner p);
          Some (new_from_buf buf target) } })"

definition into_bytes :: "zc_packet \<Rightarrow> bytes" where
  "into_bytes p = inner p"

definition is_lossy :: "zc_packet \<Rightarrow> bool" where
  "is_lossy p = (case peer_manager_header p of
     Some h \<Rightarrow> pm_packet_type h = PacketType_code PT_Data | None \<Rightarrow> False)"

definition get_src_peer_id :: "zc_packet \<Rightarrow> u32 option" where
  "get_src_peer_id p = map_option from_peer_id (peer_manager_header p)"

definition get_dst_peer_id :: "zc_packet \<Rightarrow> u32 option" where
  "get_dst_peer_id p = map_option to_peer_id (peer_manager_header p)"

section \<open>Constructors\<close>

definition new_with_payload :: "(nat \<Rightarrow> u8) \<Rightarrow> bytes \<Rightarrow> zc_packet may_panic" where
  "new_with_payload u pl =
     (let ret = new_nic_packet;
          total_len = payload_offset ret + length pl;
          ret = ret\<lparr>inner := uninit u total_len\<rparr>
      in mut_payload (copy_range 0 (length pl) pl) ret)"

text \<open>
  The subtraction wraps, and \<open>set_len\<close> past the reserved capacity is undefined behaviour: both
  are the \<^term>\<open>None\<close> of a capacity smaller than the computed length.
\<close>

definition new_for_tun :: "(nat \<Rightarrow> u8) \<Rightarrow> nat \<Rightarrow> nat \<Rightarrow> zc_packet may_panic" where
  "new_for_tun u cap packet_info_len =
     (let ret = new_nic_packet;
          total_len = (payload_offset ret + 2 ^ 64 - packet_info_len) mod 2 ^ 64
      in if total_len \<le> cap then Some (ret\<lparr>inner := uninit u total_len\<rparr>) else None)"

definition new_for_foreign_network ::
  "(nat \<Rightarrow> u8) \<Rightarrow> bytes \<Rightarrow> u32 \<Rightarrow> zc_packet \<Rightarrow> zc_packet may_panic" where
  "new_for_foreign_network u name dst fp = do {
     let hdr = fnh_new dst name;
     tp \<leftarrow> tunnel_payload fp;
     let total_payload_len = get_header_len hdr + length tp;
     let ret = new_nic_packet;
     let ret = ret\<lparr>inner := uninit u (payload_offset ret + total_payload_len)\<rparr>;
     ret \<leftarrow> mut_payload (copy_range 0 FOREIGN_NETWORK_HEADER_SIZE (fnh_as_bytes hdr)) ret;
     let name_offset = unat (network_name_offset hdr);
     let name_len = unat (network_name_len hdr);
     ret \<leftarrow> mut_payload (copy_range name_offset (name_offset + name_len) name) ret;
     ret \<leftarrow> mut_payload (\<lambda>pl. copy_range (get_header_len hdr) (length pl) tp pl) ret;
     mut_peer_manager_header (\<lambda>h. h\<lparr>from_peer_id := 0, to_peer_id := 0,
       pm_packet_type := PacketType_code PT_ForeignNetworkPacket,
       pm_len := of_nat total_payload_len\<rparr>) ret }"

section \<open>Unwrapping a foreign-network packet\<close>

definition foreign_network_hdr ::
  "zc_packet \<Rightarrow> ForeignNetworkPacketHeader option may_panic" where
  "foreign_network_hdr p = do {
     h \<leftarrow> peer_manager_header p;
     if pm_packet_type h = PacketType_code PT_ForeignNetworkPacket
     then do { pl \<leftarrow> payload p; Some (fnh_ref_from_prefix pl) }
     else Some None }"

definition foreign_network_inner_packet_type :: "zc_packet \<Rightarrow> u8 option may_panic" where
  "foreign_network_inner_packet_type p =
     (case peer_manager_header p of
        None \<Rightarrow> Some None
      | Some h \<Rightarrow>
          if pm_packet_type h \<noteq> PacketType_code PT_ForeignNetworkPacket then Some None
          else do {
            pl \<leftarrow> payload p;
            Some (do { fh \<leftarrow> fnh_ref_from_prefix pl;
                       inner_packet \<leftarrow> get_from (get_header_len fh) pl;
                       map_option pm_packet_type (pmh_ref_from_prefix inner_packet) }) })"

text \<open>Both the \<open>unwrap\<close> of an absent header and \<open>split_off\<close> past the end panic.\<close>

definition foreign_network_packet :: "zc_packet \<Rightarrow> zc_packet may_panic" where
  "foreign_network_packet p = do {
     fho \<leftarrow> foreign_network_hdr p;
     fh \<leftarrow> fho;
     buf \<leftarrow> index_from (get_header_len fh + payload_offset p) (inner p);
     Some (new_from_buf buf ZT_DummyTunnel) }"

section \<open>Offsets\<close>

lemma nic_payload_offset: "PAYLOAD_OFFSET_FOR_NIC_PACKET = 36"
  by (simp add: PAYLOAD_OFFSET_FOR_NIC_PACKET_def max_usize_def size_defs)

lemmas offset_simps = get_converted_offset_def size_defs nic_payload_offset

text \<open>The peer manager header is followed by the payload in every packet type.\<close>

lemma payload_after_header:
  "payload_offset_of (get_packet_offsets t) =
     peer_manager_header_offset (get_packet_offsets t) + PEER_MANAGER_HEADER_SIZE"
  by (cases t) (simp_all add: offset_simps)

lemma payload_offset_eq: "payload_offset p = peer_manager_header_offset (offsets p) + 16"
  by (simp add: payload_offset_def offsets_def payload_after_header PEER_MANAGER_HEADER_SIZE_def)

lemma pm_offset_le: "peer_manager_header_offset (offsets p) \<le> 20"
  by (cases "packet_type p") (simp_all add: offsets_def offset_simps)

lemma payload_offset_le: "payload_offset p \<le> 36"
  using pm_offset_le [of p] by (simp add: payload_offset_eq)

lemma payload_offset_nic: "packet_type p = ZT_NIC \<Longrightarrow> payload_offset p = 36"
  by (simp add: payload_offset_def offsets_def offset_simps)

lemma pm_offset_nic: "packet_type p = ZT_NIC \<Longrightarrow> peer_manager_header_offset (offsets p) = 20"
  by (simp add: offsets_def offset_simps)

section \<open>Reading and writing headers\<close>

lemma peer_manager_header_None_iff:
  "peer_manager_header p = None \<longleftrightarrow> length (inner p) < payload_offset p"
proof (cases "payload_offset p \<le> length (inner p)")
  case True
  then have "\<exists>h. pmh_ref_from_prefix (drop (peer_manager_header_offset (offsets p)) (inner p)) = Some h"
    by (auto simp: pmh_ref_from_prefix_def size_defs payload_offset_eq)
  then show ?thesis using True
    by (auto simp: peer_manager_header_def bytes_from_offset_def get_from_def payload_offset_eq)
next
  case False
  then show ?thesis
    by (auto simp: peer_manager_header_def bytes_from_offset_def get_from_def payload_offset_eq
        pmh_ref_from_prefix_def size_defs)
qed

lemma peer_manager_header_Some_len:
  "peer_manager_header p = Some h \<Longrightarrow> payload_offset p \<le> length (inner p)"
  using peer_manager_header_None_iff [of p] by (simp add: not_less [symmetric])

text \<open>A header that is present can be rewritten: it reads back, nothing else moves.\<close>

lemma mut_peer_manager_header_Some:
  assumes "peer_manager_header p = Some h"
  shows "\<exists>p'. mut_peer_manager_header f p = Some p' \<and> peer_manager_header p' = Some (f h)
    \<and> packet_type p' = packet_type p \<and> length (inner p') = length (inner p)
    \<and> take (peer_manager_header_offset (offsets p)) (inner p') =
        take (peer_manager_header_offset (offsets p)) (inner p)
    \<and> drop (payload_offset p) (inner p') = drop (payload_offset p) (inner p)"
proof -
  let ?o = "peer_manager_header_offset (offsets p)"
  let ?i = "take ?o (inner p) @ pmh_as_bytes (f h) @ drop (?o + PEER_MANAGER_HEADER_SIZE) (inner p)"
  have len: "?o + 16 \<le> length (inner p)"
    using peer_manager_header_Some_len [OF assms] by (simp add: payload_offset_eq)
  have h: "pmh_ref_from_prefix (drop ?o (inner p)) = Some h"
    using assms len by (simp add: peer_manager_header_def bytes_from_offset_def get_from_def)
  have "mut_peer_manager_header f p = Some (p\<lparr>inner := ?i\<rparr>)"
    using h len
    by (simp add: mut_peer_manager_header_def bytes_from_offset_def get_from_def mut_at_def Let_def)
  moreover have "peer_manager_header (p\<lparr>inner := ?i\<rparr>) = Some (f h)"
    using len by (simp add: peer_manager_header_def bytes_from_offset_def get_from_def offsets_def
        pm_hdr.prefix_as_bytes)
  moreover have "drop (payload_offset p) ?i = drop (payload_offset p) (inner p)"
    using len by (simp add: payload_offset_eq pm_hdr.len_as_bytes PEER_MANAGER_HEADER_SIZE_def)
  moreover have "length ?i = length (inner p)"
    using len by (simp add: pm_hdr.len_as_bytes PEER_MANAGER_HEADER_SIZE_def)
  ultimately show ?thesis using len by (auto simp: offsets_def)
qed

lemma mut_peer_manager_header_None_iff:
  "mut_peer_manager_header f p = None \<longleftrightarrow> peer_manager_header p = None"
  by (cases "peer_manager_header p")
    (auto simp: mut_peer_manager_header_def peer_manager_header_def bytes_from_offset_def
      get_from_def split: bind_splits if_splits)

lemma mut_payload_Some_iff:
  "mut_payload f p = Some p' \<longleftrightarrow> payload_offset p \<le> length (inner p) \<and>
     (\<exists>pl. f (drop (payload_offset p) (inner p)) = Some pl \<and>
       p' = p\<lparr>inner := take (payload_offset p) (inner p) @ pl\<rparr>)"
  by (auto simp: mut_payload_def slice_simps bind_eq_Some_conv)

lemma payload_len_eq:
  assumes "payload_offset p \<le> length (inner p)" and "length (inner p) < 2 ^ 64"
  shows "payload_len p = length (inner p) - payload_offset p"
proof -
  have "length (inner p) + 2 ^ 64 - payload_offset p = (length (inner p) - payload_offset p) + 2 ^ 64"
    using assms by linarith
  moreover have "length (inner p) - payload_offset p < 2 ^ 64" using assms by linarith
  ultimately show ?thesis unfolding payload_len_def by (simp only: mod_add_self2 mod_less)
qed

section \<open>Packets by their parts\<close>

text \<open>
  A packet that holds its headers is its tunnel header \<open>pre\<close>, the peer manager header and the
  payload; the operations then act on the parts. \<open>hdr_room t pre\<close> says that \<open>pre\<close> is as long as
  the header space of the type.
\<close>

definition pkt :: "ZCPacketType \<Rightarrow> bytes \<Rightarrow> PeerManagerHeader \<Rightarrow> bytes \<Rightarrow> zc_packet" where
  "pkt t pre h pl = \<lparr>inner = pre @ pmh_as_bytes h @ pl, packet_type = t\<rparr>"

definition hdr_room :: "ZCPacketType \<Rightarrow> bytes \<Rightarrow> bool" where
  "hdr_room t pre \<longleftrightarrow> length pre = peer_manager_header_offset (get_packet_offsets t)"

named_theorems pkt_simps \<open>operations on a packet by its parts\<close>

lemma pkt_payload_offset [pkt_simps]:
  "hdr_room t pre \<Longrightarrow> payload_offset (pkt t pre h pl) = length pre + 16"
  by (simp add: payload_offset_eq offsets_def hdr_room_def pkt_def)

lemma pkt_offsets: "offsets (pkt t pre h pl) = get_packet_offsets t"
  by (simp add: offsets_def pkt_def)

lemma length_pmh [simp]: "length (pmh_as_bytes h) = 16"
  by (simp add: pm_hdr.len_as_bytes PEER_MANAGER_HEADER_SIZE_def)

lemma pkt_packet_type [pkt_simps]: "packet_type (pkt t pre h pl) = t"
  by (simp add: pkt_def)

lemma pkt_inner: "inner (pkt t pre h pl) = pre @ pmh_as_bytes h @ pl"
  by (simp add: pkt_def)

lemma pkt_payload [pkt_simps]: "hdr_room t pre \<Longrightarrow> payload (pkt t pre h pl) = Some pl"
  by (simp add: payload_def pkt_payload_offset index_from_def pkt_inner)

lemma pkt_peer_manager_header [pkt_simps]:
  "hdr_room t pre \<Longrightarrow> peer_manager_header (pkt t pre h pl) = Some h"
  by (simp add: peer_manager_header_def bytes_from_offset_def get_from_def pkt_inner pkt_offsets
      hdr_room_def [symmetric] pm_hdr.prefix_as_bytes) (simp add: hdr_room_def pm_hdr.prefix_as_bytes)

lemma pkt_mut_peer_manager_header [pkt_simps]:
  "hdr_room t pre \<Longrightarrow> mut_peer_manager_header f (pkt t pre h pl) = Some (pkt t pre (f h) pl)"
  by (simp add: mut_peer_manager_header_def bytes_from_offset_def get_from_def pkt_inner pkt_offsets
      hdr_room_def pm_hdr.prefix_as_bytes mut_at_def Let_def PEER_MANAGER_HEADER_SIZE_def)
    (simp add: pkt_def)

lemma pkt_mut_payload [pkt_simps]:
  "hdr_room t pre \<Longrightarrow> mut_payload f (pkt t pre h pl) = map_option (pkt t pre h) (f pl)"
  by (cases "f pl") (simp_all add: mut_payload_def index_from_def pkt_inner pkt_payload_offset,
      simp add: pkt_def)

lemma pkt_buf_len [pkt_simps]: "buf_len (pkt t pre h pl) = length pre + 16 + length pl"
  by (simp add: buf_len_def pkt_inner)

text \<open>\<open>mut_inner().extend_from_slice(xs)\<close> and \<open>mut_inner().truncate(n)\<close>.\<close>

definition extend_inner :: "bytes \<Rightarrow> zc_packet \<Rightarrow> zc_packet" where
  "extend_inner xs p = p\<lparr>inner := inner p @ xs\<rparr>"

definition truncate_inner :: "nat \<Rightarrow> zc_packet \<Rightarrow> zc_packet" where
  "truncate_inner n p = p\<lparr>inner := take n (inner p)\<rparr>"

lemma pkt_extend [pkt_simps]: "extend_inner xs (pkt t pre h pl) = pkt t pre h (pl @ xs)"
  by (simp add: extend_inner_def pkt_def)

lemma pkt_truncate [pkt_simps]:
  "length pre + 16 \<le> n \<Longrightarrow>
     truncate_inner n (pkt t pre h pl) = pkt t pre h (take (n - (length pre + 16)) pl)"
  by (simp add: truncate_inner_def pkt_def)

lemma pkt_cases:
  assumes "peer_manager_header p = Some h"
  obtains t pre pl where "p = pkt t pre h pl" and "hdr_room t pre"
proof
  let ?o = "peer_manager_header_offset (offsets p)"
  have len: "?o + 16 \<le> length (inner p)"
    using peer_manager_header_Some_len [OF assms] by (simp add: payload_offset_eq)
  then have "pmh_ref_from_prefix (drop ?o (inner p)) = Some h"
    using assms by (simp add: peer_manager_header_def bytes_from_offset_def get_from_def)
  from pm_hdr.write_same [OF this]
  have "pmh_as_bytes h @ drop (16 + ?o) (inner p) = drop ?o (inner p)"
    by (simp add: PEER_MANAGER_HEADER_SIZE_def)
  then have "inner p = take ?o (inner p) @ pmh_as_bytes h @ drop (16 + ?o) (inner p)" by simp
  then show "p = pkt (packet_type p) (take ?o (inner p)) h (drop (16 + ?o) (inner p))"
    by (cases p) (simp add: pkt_def)
  show "hdr_room (packet_type p) (take ?o (inner p))"
    using len by (simp add: hdr_room_def offsets_def)
qed

section \<open>Conversions between packet types\<close>

lemma peer_manager_header_tunnel_payload:
  "peer_manager_header p = Option.bind (tunnel_payload p) pmh_ref_from_prefix"
  by (simp add: peer_manager_header_def tunnel_payload_def bytes_from_offset_def get_from_def
      index_from_def)

lemma payload_tunnel_payload: "payload p = Option.bind (tunnel_payload p) (index_from 16)"
  by (auto simp: payload_def tunnel_payload_def index_from_def payload_offset_eq ac_simps)

lemma tunnel_payload_new_from_buf:
  "length xs = peer_manager_header_offset (get_packet_offsets t) \<Longrightarrow>
     tunnel_payload (new_from_buf (xs @ tp) t) = Some tp"
  by (simp add: tunnel_payload_def new_from_buf_def offsets_def index_from_def)

lemma convert_type_same: "convert_type u (packet_type p) p = Some p"
  by (simp add: convert_type_def)

text \<open>
  The target's header either has no room in front of the peer manager header, and then the packet
  is copied into a larger buffer, or it starts at the returned offset and the buffer is split there.
\<close>

lemma tunnel_payload_split:
  assumes "off + peer_manager_header_offset (get_packet_offsets t) =
      peer_manager_header_offset (offsets p)"
    and "off \<le> length (inner p)"
  shows "tunnel_payload (new_from_buf (drop off (inner p)) t) = tunnel_payload p"
  using assms
  by (auto simp: tunnel_payload_def new_from_buf_def offsets_def index_from_def add.commute)

lemma convert_type_tunnel_payload:
  assumes len: "payload_offset p \<le> length (inner p)"
    and t: "target \<noteq> ZT_NIC \<or> packet_type p = ZT_NIC"
  shows "\<exists>p'. convert_type u target p = Some p' \<and> packet_type p' = target \<and>
    tunnel_payload p' = tunnel_payload p"
proof (cases "target = packet_type p")
  case True
  then show ?thesis by (simp add: convert_type_same)
next
  case False
  let ?o = "case target of ZT_TCP \<Rightarrow> tcp_tunnel_header_offset (offsets p)
      | ZT_UDP \<Rightarrow> udp_tunnel_header_offset (offsets p) | ZT_WG \<Rightarrow> wg_tunnel_header_offset (offsets p)
      | ZT_DummyTunnel \<Rightarrow> dummy_tunnel_header_offset (offsets p) | ZT_NIC \<Rightarrow> 0"
  have conv: "convert_type u target p =
      (if ?o = INVALID_OFFSET then do {
          tp \<leftarrow> tunnel_payload p;
          Some (new_from_buf (uninit u (peer_manager_header_offset (get_packet_offsets target)) @ tp)
            target) }
       else do { buf \<leftarrow> index_from ?o (inner p); Some (new_from_buf buf target) })"
    using False t by (cases target) (simp_all add: convert_type_def)
  have off: "?o = INVALID_OFFSET \<or> ?o + peer_manager_header_offset (get_packet_offsets target) =
      peer_manager_header_offset (offsets p)"
    using False t by (cases target; cases "packet_type p") (simp_all add: offsets_def offset_simps)
  show ?thesis
  proof (cases "?o = INVALID_OFFSET")
    case True
    then show ?thesis using conv len
      by (auto simp: tunnel_payload_new_from_buf tunnel_payload_def [of p] index_from_def
          payload_offset_eq) (simp add: new_from_buf_def)
  next
    case no: False
    with off have o: "?o + peer_manager_header_offset (get_packet_offsets target) =
      peer_manager_header_offset (offsets p)" by blast
    then have "?o \<le> length (inner p)" using len by (simp add: payload_offset_eq)
    then show ?thesis using conv no tunnel_payload_split [OF o]
      by (simp add: index_from_def) (simp add: new_from_buf_def)
  qed
qed

text \<open>
  Converting a packet that holds its headers to another tunnel type never panics (the NIC type
  is never a target of a tunnel packet), and the peer manager header and the payload behind it are
  the ones of the original packet, whatever the uninitialised space of a new buffer held.
\<close>

theorem convert_type_preserves:
  assumes "payload_offset p \<le> length (inner p)"
    and "target \<noteq> ZT_NIC \<or> packet_type p = ZT_NIC"
  shows "\<exists>p'. convert_type u target p = Some p' \<and> packet_type p' = target \<and>
    tunnel_payload p' = tunnel_payload p \<and> peer_manager_header p' = peer_manager_header p \<and>
    payload p' = payload p \<and> payload p' \<noteq> None"
proof -
  obtain p' where p': "convert_type u target p = Some p'" "packet_type p' = target"
    "tunnel_payload p' = tunnel_payload p"
    using convert_type_tunnel_payload [OF assms] by blast
  moreover have "payload p \<noteq> None" using assms(1) by (simp add: payload_def slice_simps)
  ultimately show ?thesis
    by (simp add: peer_manager_header_tunnel_payload payload_tunnel_payload)
qed

theorem convert_type_preserves_witness:
  "let p = new_from_buf (replicate 20 7) ZT_TCP in
    \<exists>p'. convert_type (\<lambda>_. 0) ZT_WG p = Some p' \<and> packet_type p' = ZT_WG \<and>
    tunnel_payload p' = tunnel_payload p \<and> peer_manager_header p' = peer_manager_header p \<and>
    payload p' = payload p \<and> payload p' \<noteq> None"
  using convert_type_preserves [of "new_from_buf (replicate 20 7) ZT_TCP" ZT_WG "\<lambda>_. 0"]
  by (simp add: payload_offset_def offsets_def new_from_buf_def offset_simps)

text \<open>
  Filling the peer manager header writes exactly the given ids and type, clears the flags, sets
  the hop counter to one and the length to the payload's, keeps the reserved byte and every byte
  outside the header; it panics exactly when the buffer is too short to hold the header.
\<close>

lemma fill_peer_manager_hdr_spec:
  "case peer_manager_header p of
     None \<Rightarrow> length (inner p) < payload_offset p \<and> fill_peer_manager_hdr a b t p = None
   | Some h \<Rightarrow> (\<exists>p'. fill_peer_manager_hdr a b t p = Some p' \<and>
       peer_manager_header p' = Some \<lparr>from_peer_id = a, to_peer_id = b, pm_packet_type = t,
         pm_flags = 0, forward_counter = 1, pm_reserved = pm_reserved h,
         pm_len = of_nat (payload_len p)\<rparr> \<and>
       packet_type p' = packet_type p \<and> length (inner p') = length (inner p) \<and>
       payload p' = payload p \<and>
       take (peer_manager_header_offset (offsets p)) (inner p') =
         take (peer_manager_header_offset (offsets p)) (inner p))"
proof (cases "peer_manager_header p")
  case None
  moreover from None have "length (inner p) < payload_offset p"
    by (simp add: peer_manager_header_None_iff)
  ultimately show ?thesis
    by (simp add: fill_peer_manager_hdr_def mut_peer_manager_header_None_iff)
next
  case (Some h)
  let ?f = "\<lambda>h. h\<lparr>from_peer_id := a, to_peer_id := b, pm_packet_type := t, pm_flags := 0,
       forward_counter := 1, pm_len := of_nat (payload_len p)\<rparr>"
  obtain p' where p': "mut_peer_manager_header ?f p = Some p'" "peer_manager_header p' = Some (?f h)"
    "packet_type p' = packet_type p" "length (inner p') = length (inner p)"
    "take (peer_manager_header_offset (offsets p)) (inner p') =
        take (peer_manager_header_offset (offsets p)) (inner p)"
    "drop (payload_offset p) (inner p') = drop (payload_offset p) (inner p)"
    using mut_peer_manager_header_Some [OF Some, of ?f] by blast
  have "payload_offset p' = payload_offset p" using p'(3) by (simp add: payload_offset_def offsets_def)
  then have "payload p' = payload p" using p'(4,6) by (simp add: payload_def index_from_def)
  then show ?thesis using p' by (simp add: Some fill_peer_manager_hdr_def)
qed

text \<open>
  A packet built from a payload has that payload, room for every tunnel header in front of it,
  and its length.
\<close>

lemma new_with_payload_spec:
  "\<exists>p. new_with_payload u pl = Some p \<and> packet_type p = ZT_NIC \<and> payload p = Some pl \<and>
     buf_len p = 36 + length pl \<and> peer_manager_header p \<noteq> None"
proof -
  let ?p = "\<lparr>inner = uninit u (36 + length pl), packet_type = ZT_NIC\<rparr>"
  have off: "payload_offset \<lparr>inner = b, packet_type = ZT_NIC\<rparr> = 36" for b
    by (simp add: payload_offset_nic)
  have "new_with_payload u pl =
      Some \<lparr>inner = take 36 (uninit u (36 + length pl)) @ pl, packet_type = ZT_NIC\<rparr>"
    by (simp add: new_with_payload_def new_nic_packet_def off mut_payload_Some_iff copy_range_def)
  then show ?thesis
    by (simp add: payload_def off index_from_def buf_len_def peer_manager_header_None_iff)
qed

section \<open>Foreign-network packets\<close>

lemma list_split4:
  "xs = take n xs @ take m (drop n xs) @ take k (drop (n + m) xs) @ drop (n + m + k) xs"
  by (metis append_take_drop_id drop_drop add.commute)

text \<open>The four writes of \<open>new_for_foreign_network\<close> fill the whole payload.\<close>

lemma new_for_foreign_network_Some:
  assumes "length name \<le> 65525" and "tunnel_payload fp = Some tp"
  shows "\<exists>p h. new_for_foreign_network u name dst fp = Some p \<and> packet_type p = ZT_NIC \<and>
    payload p = Some (fnh_as_bytes (fnh_new dst name) @ name @ tp) \<and>
    peer_manager_header p = Some h \<and> from_peer_id h = 0 \<and> to_peer_id h = 0 \<and>
    pm_packet_type h = PacketType_code PT_ForeignNetworkPacket \<and>
    pm_len h = of_nat (10 + length name + length tp)"
proof -
  let ?hb = "fnh_as_bytes (fnh_new dst name)"
  let ?buf = "uninit u (36 + (10 + length name + length tp))"
  define pre where "pre = take 36 ?buf"
  define a where "a = take 10 (drop 36 ?buf)"
  define b where "b = take (length name) (drop 46 ?buf)"
  define c where "c = drop (46 + length name) ?buf"
  let ?P = "\<lambda>b. \<lparr>inner = b, packet_type = ZT_NIC\<rparr>"
  have buf: "?buf = pre @ a @ b @ c"
    unfolding pre_def a_def b_def c_def
    using list_split4 [of ?buf 36 10 "length name"] by simp
  have buf': "uninit u (46 + (length name + length tp)) = pre @ a @ b @ c"
    using buf by (simp add: add.assoc)
  have lens: "length pre = 36" "length a = 10" "length b = length name" "length c = length tp"
    by (simp_all add: pre_def a_def b_def c_def)
  have hb: "length ?hb = 10" by (simp add: fn_hdr.len_as_bytes size_defs)
  have po: "payload_offset (?P x) = 36" for x by (simp add: payload_offset_nic)
  have w1: "mut_payload (copy_range 0 10 ?hb) (?P (pre @ a @ b @ c)) = Some (?P (pre @ ?hb @ b @ c))"
    using lens hb by (simp add: mut_payload_Some_iff po copy_range_def)
  have w2: "mut_payload (copy_range 10 (10 + length name) name) (?P (pre @ ?hb @ b @ c)) =
      Some (?P (pre @ ?hb @ name @ c))"
    using lens hb by (simp add: mut_payload_Some_iff po copy_range_def)
  have w3: "mut_payload (\<lambda>pl. copy_range (10 + length name) (length pl) tp pl)
      (?P (pre @ ?hb @ name @ c)) = Some (?P (pre @ ?hb @ name @ tp))"
    using lens hb po by (simp add: mut_payload_Some_iff copy_range_def)
  let ?f = "\<lambda>h. h\<lparr>from_peer_id := 0, to_peer_id := 0,
       pm_packet_type := PacketType_code PT_ForeignNetworkPacket,
       pm_len := of_nat (10 + length name + length tp)\<rparr>"
  have "peer_manager_header (?P (pre @ ?hb @ name @ tp)) \<noteq> None"
    using lens po by (simp add: peer_manager_header_None_iff)
  then obtain h where h: "peer_manager_header (?P (pre @ ?hb @ name @ tp)) = Some h" by blast
  obtain p where p: "mut_peer_manager_header ?f (?P (pre @ ?hb @ name @ tp)) = Some p"
    "peer_manager_header p = Some (?f h)" "packet_type p = ZT_NIC"
    "length (inner p) = length (pre @ ?hb @ name @ tp)"
    "drop 36 (inner p) = drop 36 (pre @ ?hb @ name @ tp)"
    using mut_peer_manager_header_Some [OF h, of ?f] po by auto
  have "new_for_foreign_network u name dst fp =
      mut_peer_manager_header ?f (?P (pre @ ?hb @ name @ tp))"
    unfolding new_for_foreign_network_def using w1 w2 w3 assms(2)
    by (simp add: Let_def fnh_new_lens [OF assms(1)] new_nic_packet_def po size_defs buf')
  then show ?thesis using p lens
    by (auto simp: payload_def payload_offset_nic index_from_def)
qed

text \<open>
  C11. A packet wrapped for a foreign network with a name of at most 65525 bytes carries the name,
  the destination and the inner packet: the header is found, the name and the inner packet type
  read back, and unwrapping yields the peer manager header and payload that were wrapped.
\<close>

theorem foreign_network_roundtrip:
  assumes "length name \<le> 65525" and "utf8_valid name" and "tunnel_payload fp = Some tp"
  shows "\<exists>p q pl. new_for_foreign_network u name dst fp = Some p \<and>
    foreign_network_hdr p = Some (Some (fnh_new dst name)) \<and>
    payload p = Some pl \<and> get_network_name (fnh_new dst name) pl = Some name \<and>
    fnh_get_dst_peer_id (fnh_new dst name) = dst \<and>
    foreign_network_inner_packet_type p = Some (map_option pm_packet_type (peer_manager_header fp)) \<and>
    foreign_network_packet p = Some q \<and> tunnel_payload q = Some tp \<and>
    peer_manager_header q = peer_manager_header fp"
proof -
  let ?h = "fnh_new dst name"
  have hb: "length (fnh_as_bytes ?h) = 10" by (simp add: fn_hdr.len_as_bytes size_defs)
  obtain p h where p: "new_for_foreign_network u name dst fp = Some p" "packet_type p = ZT_NIC"
    "payload p = Some (fnh_as_bytes ?h @ name @ tp)" "peer_manager_header p = Some h"
    "pm_packet_type h = PacketType_code PT_ForeignNetworkPacket"
    using new_for_foreign_network_Some [OF assms(1,3)] by blast
  have hdr: "foreign_network_hdr p = Some (Some ?h)"
    using p by (simp add: foreign_network_hdr_def fn_hdr.prefix_as_bytes)
  have name: "get_network_name ?h (fnh_as_bytes ?h @ name @ tp) = Some name"
    using assms(1,2) hb
    by (simp add: get_network_name_def fnh_new_lens index_range_append Let_def)
  have inner: "36 \<le> length (inner p)" "drop 36 (inner p) = fnh_as_bytes ?h @ name @ tp"
    using p(2,3) by (auto simp: payload_def payload_offset_nic slice_simps)
  have "length (drop 36 (inner p)) = 10 + length name + length tp" using inner(2) hb by simp
  then have len: "length (inner p) = 46 + length name + length tp" using inner(1) by simp
  have "drop (length name + 46) (inner p) = drop (10 + length name) (drop 36 (inner p))"
    by (simp add: ac_simps)
  then have drop: "drop (length name + 46) (inner p) = tp" using inner(2) hb by simp
  have inner_ty: "foreign_network_inner_packet_type p =
      Some (map_option pm_packet_type (peer_manager_header fp))"
    using p assms hb
    by (simp add: foreign_network_inner_packet_type_def fn_hdr.prefix_as_bytes fnh_new_lens
        get_from_def peer_manager_header_tunnel_payload [of fp])
  have q: "foreign_network_packet p = Some (new_from_buf tp ZT_DummyTunnel)"
    using hdr p(2) assms(1) len drop
    by (simp add: foreign_network_packet_def fnh_new_lens payload_offset_nic index_from_def
        ac_simps)
  have tp: "tunnel_payload (new_from_buf tp ZT_DummyTunnel) = Some tp"
    using tunnel_payload_new_from_buf [of "[]" ZT_DummyTunnel tp] by simp
  show ?thesis using p(1,3) hdr name inner_ty q tp assms(3)
    by (simp add: peer_manager_header_tunnel_payload fnh_get_dst_peer_id_def fnh_new_def Let_def)
qed

theorem foreign_network_roundtrip_witness:
  "\<exists>p q pl. new_for_foreign_network (\<lambda>_. 9) [0x6E, 0xC3, 0xA9] 2 (new_from_buf (replicate 18 1) ZT_DummyTunnel)
      = Some p \<and>
    foreign_network_hdr p = Some (Some (fnh_new 2 [0x6E, 0xC3, 0xA9])) \<and>
    payload p = Some pl \<and> get_network_name (fnh_new 2 [0x6E, 0xC3, 0xA9]) pl = Some [0x6E, 0xC3, 0xA9] \<and>
    fnh_get_dst_peer_id (fnh_new 2 [0x6E, 0xC3, 0xA9]) = 2 \<and>
    foreign_network_inner_packet_type p =
      Some (map_option pm_packet_type
        (peer_manager_header (new_from_buf (replicate 18 1) ZT_DummyTunnel))) \<and>
    foreign_network_packet p = Some q \<and> tunnel_payload q = Some (replicate 18 1) \<and>
    peer_manager_header q = peer_manager_header (new_from_buf (replicate 18 1) ZT_DummyTunnel)"
proof (rule foreign_network_roundtrip)
  show "utf8_valid [0x6E, 0xC3, 0xA9]" by (simp add: utf8_cont_def)
  show "tunnel_payload (new_from_buf (replicate 18 1) ZT_DummyTunnel) = Some (replicate 18 1)"
    using tunnel_payload_new_from_buf [of "[]" ZT_DummyTunnel "replicate 18 1"] by simp
qed simp

text \<open>
  The receiving side does not validate the header it reads: a well-formed peer manager header
  of type foreign-network packet in front of a foreign-network header whose name range leaves the
  payload (or names bytes that are not UTF-8) makes \<open>get_network_name\<close> panic, although the header
  accessors succeed.
\<close>

theorem get_network_name_unvalidated:
  assumes "hdr_room t pre" and "pm_packet_type h = PacketType_code PT_ForeignNetworkPacket"
  shows "foreign_network_hdr (pkt t pre h (fnh_as_bytes fh @ rest)) = Some (Some fh) \<and>
    (get_network_name fh (fnh_as_bytes fh @ rest) = None \<longleftrightarrow>
       10 + length rest < unat (network_name_offset fh) + unat (network_name_len fh) \<or>
       \<not> utf8_valid (take (unat (network_name_len fh))
           (drop (unat (network_name_offset fh)) (fnh_as_bytes fh @ rest))))"
proof -
  have "length (fnh_as_bytes fh) = 10" by (simp add: fn_hdr.len_as_bytes size_defs)
  then show ?thesis using assms
    by (auto simp: foreign_network_hdr_def pkt_simps fn_hdr.prefix_as_bytes get_network_name_def
        Let_def index_range_def)
qed

theorem get_network_name_unvalidated_witness:
  "let h = \<lparr>from_peer_id = 5, to_peer_id = 6, pm_packet_type = 10, pm_flags = 0,
        forward_counter = 1, pm_reserved = 0, pm_len = 10\<rparr>;
       fh = \<lparr>fn_header_len = 10, fn_dst_peer_id = 1, network_name_offset = 10,
        network_name_len = 1\<rparr>
   in foreign_network_hdr (pkt ZT_DummyTunnel [] h (fnh_as_bytes fh)) = Some (Some fh) \<and>
      get_network_name fh (fnh_as_bytes fh) = None"
proof -
  have "hdr_room ZT_DummyTunnel []" by (simp add: hdr_room_def)
  from get_network_name_unvalidated [OF this, of "\<lparr>from_peer_id = 5, to_peer_id = 6,
        pm_packet_type = 10, pm_flags = 0, forward_counter = 1, pm_reserved = 0, pm_len = 10\<rparr>"
      "\<lparr>fn_header_len = 10, fn_dst_peer_id = 1, network_name_offset = 10,
        network_name_len = 1\<rparr>" "[]"]
  show ?thesis by simp
qed

end
