(* ===== verification/Encrypt.thy ===== *)
theory Encrypt
  imports Zc_Packet
begin

unbundle bit_operations_syntax

text \<open>
  The packet ciphers of \<open>easytier/src/peers/encrypt\<close>: \<open>NullCipher\<close>, \<open>XorCipher\<close>, \<open>RingCipher\<close>
  and \<open>AesGcmCipher\<close>, and \<open>create_encryptor\<close> with the default features (ring through the
  \<open>wireguard\<close> feature). The AEAD primitives of the crates are the parameter \<open>api\<close>; what the code
  relies on is \<open>aead_ok\<close>. The random nonce is the parameter \<open>rnd\<close>. A cipher call returns the
  packet it leaves behind or the error; after an error the packet is dropped by the callers (its
  payload is unspecified then) and is not part of the result.
\<close>

datatype enc_error = PacketTooShort nat | DecryptionFailed | EncryptionFailed | InvalidTag bytes

type_synonym enc_result = "(enc_error + zc_packet) may_panic"

datatype aead_alg = AES_128_GCM | AES_256_GCM | CHACHA20_POLY1305

text \<open>
  \<open>aead_seal alg key nonce text\<close> is the ciphertext and the tag; \<open>aead_open alg key nonce
  ciphertext tag\<close> is the text, or \<^term>\<open>None\<close> when the tag does not verify.
\<close>

record aead_api =
  aead_seal :: "aead_alg \<Rightarrow> bytes \<Rightarrow> bytes \<Rightarrow> bytes \<Rightarrow> (bytes \<times> bytes) option"
  aead_open :: "aead_alg \<Rightarrow> bytes \<Rightarrow> bytes \<Rightarrow> bytes \<Rightarrow> bytes \<Rightarrow> bytes option"

text \<open>
  Documented behaviour of the AEAD algorithms: sealing keeps the length and gives a 16-byte tag,
  and opening is the exact inverse of sealing (any other ciphertext or tag is rejected).
\<close>

definition aead_ok :: "aead_api \<Rightarrow> bool" where
  "aead_ok api \<longleftrightarrow>
     (\<forall>alg key nonce m c t. aead_seal api alg key nonce m = Some (c, t) \<longrightarrow>
        length c = length m \<and> length t = 16) \<and>
     (\<forall>alg key nonce m c t. aead_open api alg key nonce c t = Some m \<longleftrightarrow>
        aead_seal api alg key nonce m = Some (c, t))"

lemma aead_ok_seal:
  "aead_ok api \<Longrightarrow> aead_seal api alg key nonce m = Some (c, t) \<Longrightarrow>
     length c = length m \<and> length t = 16 \<and> aead_open api alg key nonce c t = Some m"
  by (auto simp: aead_ok_def)

lemma aead_ok_open:
  "aead_ok api \<Longrightarrow> aead_open api alg key nonce c t = Some m \<Longrightarrow>
     aead_seal api alg key nonce m = Some (c, t) \<and> length c = length m \<and> length t = 16"
  by (auto simp: aead_ok_def)

section \<open>NullCipher\<close>

definition null_decrypt :: "zc_packet \<Rightarrow> enc_result" where
  "null_decrypt p = do {
     h \<leftarrow> peer_manager_header p;
     Some (if is_encrypted h then Inl DecryptionFailed else Inr p) }"

definition null_encrypt :: "zc_packet \<Rightarrow> enc_result" where
  "null_encrypt p = Some (Inr p)"

section \<open>XorCipher\<close>

definition xor_new :: "bytes \<Rightarrow> bytes may_panic" where
  "xor_new key = (if key = [] then None else Some key)"

definition xor_data :: "bytes \<Rightarrow> bytes \<Rightarrow> bytes" where
  "xor_data key d = map (\<lambda>(i, byte). byte XOR key ! (i mod length key)) (enumerate 0 d)"

definition xor_decrypt :: "bytes \<Rightarrow> zc_packet \<Rightarrow> enc_result" where
  "xor_decrypt key p = do {
     h \<leftarrow> peer_manager_header p;
     if \<not> is_encrypted h then Some (Inr p)
     else do {
       p \<leftarrow> mut_payload (\<lambda>d. Some (xor_data key d)) p;
       p \<leftarrow> mut_peer_manager_header (set_encrypted False) p;
       Some (Inr p) } }"

definition xor_encrypt :: "bytes \<Rightarrow> zc_packet \<Rightarrow> enc_result" where
  "xor_encrypt key p = do {
     h \<leftarrow> peer_manager_header p;
     if is_encrypted h then Some (Inr p)
     else do {
       p \<leftarrow> mut_payload (\<lambda>d. Some (xor_data key d)) p;
       p \<leftarrow> mut_peer_manager_header (set_encrypted True) p;
       Some (Inr p) } }"

section \<open>RingCipher\<close>

datatype RingEnum = Ring_Aes128Gcm bytes | Ring_Aes256Gcm bytes | Ring_ChaCha20 bytes

primrec get_cipher :: "RingEnum \<Rightarrow> aead_alg \<times> bytes" where
  "get_cipher (Ring_Aes128Gcm key) = (AES_128_GCM, key)"
| "get_cipher (Ring_Aes256Gcm key) = (AES_256_GCM, key)"
| "get_cipher (Ring_ChaCha20 key) = (CHACHA20_POLY1305, key)"

text \<open>\<open>open_in_place\<close> takes the text and the tag behind it and leaves the plain text in front.\<close>

definition ring_decrypt :: "aead_api \<Rightarrow> RingEnum \<Rightarrow> zc_packet \<Rightarrow> enc_result" where
  "ring_decrypt api c p = do {
     h \<leftarrow> peer_manager_header p;
     if \<not> is_encrypted h then Some (Inr p)
     else do {
       pl \<leftarrow> payload p;
       let payload_len = length pl;
       if payload_len < AEAD_TAIL_SIZE then Some (Inl (PacketTooShort payload_len))
       else do {
         let text_and_tag_len = payload_len - AEAD_TAIL_SIZE + 16;
         tail \<leftarrow> aead_tail_ref_from_suffix pl;
         in_out \<leftarrow> index_range 0 text_and_tag_len pl;
         let (alg, key) = get_cipher c;
         case aead_open api alg key (aead_nonce tail) (take (text_and_tag_len - 16) in_out)
                (drop (text_and_tag_len - 16) in_out) of
           None \<Rightarrow> Some (Inl DecryptionFailed)
         | Some text \<Rightarrow> do {
             p \<leftarrow> mut_payload (copy_range 0 (length text) text) p;
             p \<leftarrow> mut_peer_manager_header (set_encrypted False) p;
             Some (Inr (truncate_inner (buf_len p - AEAD_TAIL_SIZE) p)) } } } }"

definition ring_encrypt_with_nonce ::
  "aead_api \<Rightarrow> bytes \<Rightarrow> RingEnum \<Rightarrow> bytes option \<Rightarrow> zc_packet \<Rightarrow> enc_result" where
  "ring_encrypt_with_nonce api rnd c nonce p = do {
     h \<leftarrow> peer_manager_header p;
     if is_encrypted h then Some (Inr p)
     else case (case nonce of Some n \<Rightarrow> if length n = 12 then Some n else None | None \<Rightarrow> Some rnd) of
       None \<Rightarrow> Some (Inl EncryptionFailed)
     | Some n \<Rightarrow> do {
         pl \<leftarrow> payload p;
         let (alg, key) = get_cipher c;
         case aead_seal api alg key n pl of
           None \<Rightarrow> Some (Inl EncryptionFailed)
         | Some (ct, tag) \<Rightarrow> do {
             p \<leftarrow> mut_payload (copy_range 0 (length ct) ct) p;
             if length tag \<noteq> 16 then Some (Inl (InvalidTag tag))
             else do {
               p \<leftarrow> mut_peer_manager_header (set_encrypted True) p;
               Some (Inr (extend_inner
                 (aead_tail_as_bytes \<lparr>aead_tag = tag, aead_nonce = n\<rparr>) p)) } } } }"

section \<open>AesGcmCipher\<close>

datatype AesGcmEnum = AES128GCM bytes | AES256GCM bytes

primrec aes_gcm_cipher :: "AesGcmEnum \<Rightarrow> aead_alg \<times> bytes" where
  "aes_gcm_cipher (AES128GCM key) = (AES_128_GCM, key)"
| "aes_gcm_cipher (AES256GCM key) = (AES_256_GCM, key)"

text \<open>The detached interface takes the tag apart from the text.\<close>

definition aes_gcm_decrypt :: "aead_api \<Rightarrow> AesGcmEnum \<Rightarrow> zc_packet \<Rightarrow> enc_result" where
  "aes_gcm_decrypt api c p = do {
     h \<leftarrow> peer_manager_header p;
     if \<not> is_encrypted h then Some (Inr p)
     else do {
       pl \<leftarrow> payload p;
       let payload_len = length pl;
       if payload_len < AEAD_TAIL_SIZE then Some (Inl (PacketTooShort payload_len))
       else do {
         let text_len = payload_len - AEAD_TAIL_SIZE;
         tail \<leftarrow> aead_tail_ref_from_suffix pl;
         in_out \<leftarrow> index_range 0 text_len pl;
         let (alg, key) = aes_gcm_cipher c;
         case aead_open api alg key (aead_nonce tail) in_out (aead_tag tail) of
           None \<Rightarrow> Some (Inl DecryptionFailed)
         | Some text \<Rightarrow> do {
             p \<leftarrow> mut_payload (copy_range 0 (length text) text) p;
             p \<leftarrow> mut_peer_manager_header (set_encrypted False) p;
             Some (Inr (truncate_inner (buf_len p - AEAD_TAIL_SIZE) p)) } } } }"

definition aes_gcm_encrypt_with_nonce ::
  "aead_api \<Rightarrow> bytes \<Rightarrow> AesGcmEnum \<Rightarrow> bytes option \<Rightarrow> zc_packet \<Rightarrow> enc_result" where
  "aes_gcm_encrypt_with_nonce api rnd c nonce p = do {
     h \<leftarrow> peer_manager_header p;
     if is_encrypted h then Some (Inr p)
     else case (case nonce of Some n \<Rightarrow> if length n = 12 then Some n else None | None \<Rightarrow> Some rnd) of
       None \<Rightarrow> Some (Inl EncryptionFailed)
     | Some n \<Rightarrow> do {
         pl \<leftarrow> payload p;
         let (alg, key) = aes_gcm_cipher c;
         case aead_seal api alg key n pl of
           None \<Rightarrow> Some (Inl EncryptionFailed)
         | Some (ct, tag) \<Rightarrow> do {
             p \<leftarrow> mut_payload (copy_range 0 (length ct) ct) p;
             p \<leftarrow> mut_peer_manager_header (set_encrypted True) p;
             Some (Inr (extend_inner
               (aead_tail_as_bytes \<lparr>aead_tag = tag, aead_nonce = n\<rparr>) p)) } } }"

section \<open>The Encryptor trait object and create_encryptor\<close>

datatype cipher = NullCipher | XorCipher bytes | RingCipher RingEnum | AesGcmCipher AesGcmEnum

primrec decrypt :: "aead_api \<Rightarrow> cipher \<Rightarrow> zc_packet \<Rightarrow> enc_result" where
  "decrypt api NullCipher p = null_decrypt p"
| "decrypt api (XorCipher key) p = xor_decrypt key p"
| "decrypt api (RingCipher c) p = ring_decrypt api c p"
| "decrypt api (AesGcmCipher c) p = aes_gcm_decrypt api c p"

text \<open>The trait's default method ignores the nonce.\<close>

primrec encrypt_with_nonce ::
  "aead_api \<Rightarrow> bytes \<Rightarrow> cipher \<Rightarrow> bytes option \<Rightarrow> zc_packet \<Rightarrow> enc_result" where
  "encrypt_with_nonce api rnd NullCipher nonce p = null_encrypt p"
| "encrypt_with_nonce api rnd (XorCipher key) nonce p = xor_encrypt key p"
| "encrypt_with_nonce api rnd (RingCipher c) nonce p = ring_encrypt_with_nonce api rnd c nonce p"
| "encrypt_with_nonce api rnd (AesGcmCipher c) nonce p = aes_gcm_encrypt_with_nonce api rnd c nonce p"

definition encrypt :: "aead_api \<Rightarrow> bytes \<Rightarrow> cipher \<Rightarrow> zc_packet \<Rightarrow> enc_result" where
  "encrypt api rnd c p = encrypt_with_nonce api rnd c None p"

datatype EncryptionAlgorithm = EA_Xor | EA_AesGcm | EA_Aes256Gcm | EA_ChaCha20

definition ascii_lower :: "char \<Rightarrow> char" where
  "ascii_lower ch = (if CHR ''A'' \<le> ch \<and> ch \<le> CHR ''Z''
     then char_of (of_char ch + 32 :: nat) else ch)"

text \<open>\<open>EnumString\<close> with \<open>ascii_case_insensitive\<close>.\<close>

definition EncryptionAlgorithm_try_from :: "string \<Rightarrow> EncryptionAlgorithm option" where
  "EncryptionAlgorithm_try_from s =
     (let l = map ascii_lower s
      in if l = ''xor'' then Some EA_Xor
         else if l = ''aes-gcm'' then Some EA_AesGcm
         else if l = ''aes-256-gcm'' then Some EA_Aes256Gcm
         else if l = ''chacha20'' then Some EA_ChaCha20
         else None)"

definition EncryptionAlgorithm_default :: EncryptionAlgorithm where
  "EncryptionAlgorithm_default = EA_AesGcm"

definition create_encryptor :: "string \<Rightarrow> bytes \<Rightarrow> bytes \<Rightarrow> cipher may_panic" where
  "create_encryptor algorithm key_128 key_256 =
     (let alg = (case EncryptionAlgorithm_try_from algorithm of
            Some a \<Rightarrow> a | None \<Rightarrow> EncryptionAlgorithm_default)
      in case alg of
           EA_Xor \<Rightarrow> map_option XorCipher (xor_new key_128)
         | EA_AesGcm \<Rightarrow> Some (RingCipher (Ring_Aes128Gcm key_128))
         | EA_Aes256Gcm \<Rightarrow> Some (RingCipher (Ring_Aes256Gcm key_256))
         | EA_ChaCha20 \<Rightarrow> Some (RingCipher (Ring_ChaCha20 key_256)))"

section \<open>The contract of a packet cipher\<close>

text \<open>
  What the peer manager relies on when it calls an \<open>Encryptor\<close>. \<open>lawful\<close> collects the conditions
  on the parameters of the cipher (the AEAD library, the random nonce, the key).
\<close>

locale packet_cipher =
  fixes lawful :: bool
    and enc :: "bytes option \<Rightarrow> zc_packet \<Rightarrow> enc_result"
    and dec :: "zc_packet \<Rightarrow> enc_result"
  assumes enc_total: "lawful \<Longrightarrow> peer_manager_header p = Some h \<Longrightarrow> enc n p \<noteq> None"
    and dec_total: "lawful \<Longrightarrow> peer_manager_header p = Some h \<Longrightarrow> dec p \<noteq> None"
    and dec_plain: "lawful \<Longrightarrow> peer_manager_header p = Some h \<Longrightarrow> \<not> is_encrypted h \<Longrightarrow>
          dec p = Some (Inr p)"
    and enc_dec: "lawful \<Longrightarrow> peer_manager_header p = Some h \<Longrightarrow> \<not> is_encrypted h \<Longrightarrow>
          enc n p = Some (Inr q) \<Longrightarrow> dec q = Some (Inr p)"
    and dec_enc: "lawful \<Longrightarrow> peer_manager_header q = Some h \<Longrightarrow> is_encrypted h \<Longrightarrow>
          dec q = Some (Inr p) \<Longrightarrow>
          peer_manager_header p = Some (set_encrypted False h) \<and> (\<exists>n. enc n p = Some (Inr q))"
begin

lemma enc_inj:
  assumes "lawful" and "peer_manager_header p = Some h" and "\<not> is_encrypted h"
    and "peer_manager_header p' = Some h'" and "\<not> is_encrypted h'"
    and "enc n p = Some (Inr q)" and "enc n' p' = Some (Inr q)"
  shows "p = p'"
  using enc_dec [OF assms(1-3,6)] enc_dec [OF assms(1,4,5,7)] by simp

text \<open>What decryption returns is never still marked as encrypted, so decrypting again changes nothing.\<close>

lemma dec_dec:
  assumes "lawful" and "peer_manager_header q = Some h" and "dec q = Some (Inr p)"
  shows "(\<exists>h'. peer_manager_header p = Some h' \<and> \<not> is_encrypted h') \<and> dec p = Some (Inr p)"
proof (cases "is_encrypted h")
  case True
  have "peer_manager_header p = Some (set_encrypted False h)"
    using dec_enc [OF assms(1,2) True assms(3)] by blast
  then show ?thesis using dec_plain [OF assms(1)] by auto
next
  case False
  then have "p = q" using dec_plain [OF assms(1,2)] assms(3) by simp
  then show ?thesis using dec_plain [OF assms(1,2)] assms(2) False by simp
qed

end

interpretation null: packet_cipher True "\<lambda>_. null_encrypt" null_decrypt
  by unfold_locales (auto simp: null_decrypt_def null_encrypt_def split: if_splits)

section \<open>XorCipher meets the contract\<close>

lemma xor_data_nth:
  "i < length d \<Longrightarrow> xor_data key d ! i = d ! i XOR key ! (i mod length key)"
  by (simp add: xor_data_def nth_enumerate_eq)

lemma length_xor_data [simp]: "length (xor_data key d) = length d"
  by (simp add: xor_data_def)

lemma xor_data_involution [simp]: "xor_data key (xor_data key d) = d"
  by (rule nth_equalityI) (simp_all add: xor_data_nth xor.assoc)

lemma set_encrypted_redo: "is_encrypted h \<Longrightarrow> set_encrypted True (set_encrypted False h) = h"
proof -
  assume "is_encrypted h"
  then have *: "bit (pm_flags h) 0"
    using flag_contains_bit [of 0 "pm_flags h"] by (simp add: is_encrypted_def ENCRYPTED_def)
  have "(pm_flags h AND NOT 1) OR 1 = pm_flags h"
    by (rule bit_word_eqI) (use * in \<open>auto simp: bit_simps\<close>)
  then show ?thesis by (simp add: set_encrypted_def flag_put_def ENCRYPTED_def)
qed

lemma xor_encrypt_pkt:
  "hdr_room t pre \<Longrightarrow> xor_encrypt key (pkt t pre h pl) =
     Some (Inr (if is_encrypted h then pkt t pre h pl
       else pkt t pre (set_encrypted True h) (xor_data key pl)))"
  by (simp add: xor_encrypt_def pkt_simps)

lemma xor_decrypt_pkt:
  "hdr_room t pre \<Longrightarrow> xor_decrypt key (pkt t pre h pl) =
     Some (Inr (if is_encrypted h then pkt t pre (set_encrypted False h) (xor_data key pl)
       else pkt t pre h pl))"
  by (simp add: xor_decrypt_def pkt_simps)

interpretation xor: packet_cipher "key \<noteq> []" "\<lambda>_. xor_encrypt key" "xor_decrypt key" for key
proof (unfold_locales, goal_cases)
  case (1 p h n)
  then show ?case by (auto elim!: pkt_cases simp: xor_encrypt_pkt)
next
  case (2 p h)
  then show ?case by (auto elim!: pkt_cases simp: xor_decrypt_pkt)
next
  case (3 p h)
  then show ?case by (simp add: xor_decrypt_def)
next
  case (4 p h n q)
  from 4(2) obtain t pre pl where p: "p = pkt t pre h pl" "hdr_room t pre" by (rule pkt_cases)
  with 4(3,4) show ?case
    by (auto simp: xor_encrypt_pkt xor_decrypt_pkt set_encrypted_undo)
next
  case (5 q h p)
  from 5(2) obtain t pre pl where q: "q = pkt t pre h pl" "hdr_room t pre" by (rule pkt_cases)
  with 5(3,4) show ?case
    by (auto simp: xor_encrypt_pkt xor_decrypt_pkt set_encrypted_redo pkt_simps)
qed

section \<open>The AEAD ciphers meet the contract\<close>

text \<open>
  Both backends write the same packet: the sealed text, the tag and the nonce behind the peer
  manager header, with the encrypted flag set.
\<close>

lemma ring_encrypt_pkt:
  assumes "aead_ok api" and "hdr_room t pre" and "\<not> is_encrypted h"
  shows "ring_encrypt_with_nonce api rnd c nonce (pkt t pre h pl) = Some
     (case (case nonce of Some n \<Rightarrow> if length n = 12 then Some n else None | None \<Rightarrow> Some rnd) of
        None \<Rightarrow> Inl EncryptionFailed
      | Some n \<Rightarrow> (case aead_seal api (fst (get_cipher c)) (snd (get_cipher c)) n pl of
          None \<Rightarrow> Inl EncryptionFailed
        | Some (ct, tag) \<Rightarrow> Inr (pkt t pre (set_encrypted True h) (ct @ tag @ n))))"
proof -
  have *: "length ct = length pl \<and> length tag = 16"
    if "aead_seal api (fst (get_cipher c)) (snd (get_cipher c)) n pl = Some (ct, tag)" for n ct tag
    using aead_ok_seal [OF assms(1) that] by simp
  show ?thesis
    using assms(2,3) * by (cases "get_cipher c")
      (auto simp: ring_encrypt_with_nonce_def pkt_simps copy_range_def aead_tail_as_bytes_def
        split: option.splits)
qed

lemma aes_gcm_encrypt_pkt:
  assumes "aead_ok api" and "hdr_room t pre" and "\<not> is_encrypted h"
  shows "aes_gcm_encrypt_with_nonce api rnd c nonce (pkt t pre h pl) = Some
     (case (case nonce of Some n \<Rightarrow> if length n = 12 then Some n else None | None \<Rightarrow> Some rnd) of
        None \<Rightarrow> Inl EncryptionFailed
      | Some n \<Rightarrow> (case aead_seal api (fst (aes_gcm_cipher c)) (snd (aes_gcm_cipher c)) n pl of
          None \<Rightarrow> Inl EncryptionFailed
        | Some (ct, tag) \<Rightarrow> Inr (pkt t pre (set_encrypted True h) (ct @ tag @ n))))"
proof -
  have *: "length ct = length pl \<and> length tag = 16"
    if "aead_seal api (fst (aes_gcm_cipher c)) (snd (aes_gcm_cipher c)) n pl = Some (ct, tag)"
    for n ct tag
    using aead_ok_seal [OF assms(1) that] by simp
  show ?thesis
    using assms(2,3) * by (cases "aes_gcm_cipher c")
      (auto simp: aes_gcm_encrypt_with_nonce_def pkt_simps copy_range_def aead_tail_as_bytes_def
        split: option.splits)
qed

text \<open>Opening reads the nonce and tag off the end and leaves the text.\<close>

lemma ring_decrypt_pkt:
  assumes "aead_ok api" and "hdr_room t pre" and "is_encrypted h"
  shows "ring_decrypt api c (pkt t pre h pl) = Some
     (if length pl < 28 then Inl (PacketTooShort (length pl))
      else let n = length pl - 28 in
        (case aead_open api (fst (get_cipher c)) (snd (get_cipher c)) (drop (n + 16) pl) (take n pl)
             (take 16 (drop n pl)) of
           None \<Rightarrow> Inl DecryptionFailed
         | Some text \<Rightarrow> Inr (pkt t pre (set_encrypted False h) text)))"
proof (cases "length pl < 28")
  case True
  then show ?thesis using assms by (simp add: ring_decrypt_def pkt_simps AEAD_TAIL_SIZE_def Let_def)
next
  case False
  define n where "n = length pl - 28"
  have len: "length pl = n + 28" using False by (simp add: n_def)
  have tail: "aead_tail_ref_from_suffix pl =
      Some \<lparr>aead_tag = take 16 (drop n pl), aead_nonce = drop (n + 16) pl\<rparr>"
    using len by (simp add: aead_tail_ref_from_suffix_def AEAD_TAIL_SIZE_def Let_def add.commute)
  have buf: "index_range 0 (n + 16) pl = Some (take (n + 16) pl)" "take n (take (n + 16) pl) = take n pl"
    "drop n (take (n + 16) pl) = take 16 (drop n pl)"
    using len by (simp_all add: index_range_def drop_take)
  obtain alg key where ak: "get_cipher c = (alg, key)" by fastforce
  show ?thesis
  proof (cases "aead_open api alg key (drop (n + 16) pl) (take n pl) (take 16 (drop n pl))")
    case None
    then show ?thesis using assms tail buf ak len
      by (simp add: ring_decrypt_def pkt_simps AEAD_TAIL_SIZE_def Let_def index_range_def)
  next
    case (Some m)
    then have "length m = n" using aead_ok_open [OF assms(1) Some] len by simp
    then show ?thesis using assms tail buf ak len Some
      by (simp add: ring_decrypt_def pkt_simps AEAD_TAIL_SIZE_def Let_def index_range_def
          copy_range_def)
  qed
qed

lemma aes_gcm_decrypt_pkt:
  assumes "aead_ok api" and "hdr_room t pre" and "is_encrypted h"
  shows "aes_gcm_decrypt api c (pkt t pre h pl) = Some
     (if length pl < 28 then Inl (PacketTooShort (length pl))
      else let n = length pl - 28 in
        (case aead_open api (fst (aes_gcm_cipher c)) (snd (aes_gcm_cipher c)) (drop (n + 16) pl)
             (take n pl) (take 16 (drop n pl)) of
           None \<Rightarrow> Inl DecryptionFailed
         | Some text \<Rightarrow> Inr (pkt t pre (set_encrypted False h) text)))"
proof (cases "length pl < 28")
  case True
  then show ?thesis using assms by (simp add: aes_gcm_decrypt_def pkt_simps AEAD_TAIL_SIZE_def Let_def)
next
  case False
  define n where "n = length pl - 28"
  have len: "length pl = n + 28" using False by (simp add: n_def)
  have tail: "aead_tail_ref_from_suffix pl =
      Some \<lparr>aead_tag = take 16 (drop n pl), aead_nonce = drop (n + 16) pl\<rparr>"
    using len by (simp add: aead_tail_ref_from_suffix_def AEAD_TAIL_SIZE_def Let_def add.commute)
  obtain alg key where ak: "aes_gcm_cipher c = (alg, key)" by fastforce
  show ?thesis
  proof (cases "aead_open api alg key (drop (n + 16) pl) (take n pl) (take 16 (drop n pl))")
    case None
    then show ?thesis using assms tail ak len
      by (simp add: aes_gcm_decrypt_def pkt_simps AEAD_TAIL_SIZE_def Let_def index_range_def)
  next
    case (Some m)
    then have "length m = n" using aead_ok_open [OF assms(1) Some] len by simp
    then show ?thesis using assms tail ak len Some
      by (simp add: aes_gcm_decrypt_def pkt_simps AEAD_TAIL_SIZE_def Let_def index_range_def
          copy_range_def)
  qed
qed

text \<open>
  The packet format shared by the AEAD backends, from which the contract of a packet cipher
  follows once for all of them.
\<close>

locale aead_packet_format =
  fixes api :: aead_api and rnd :: bytes and alg :: aead_alg and key :: bytes
    and enc :: "bytes option \<Rightarrow> zc_packet \<Rightarrow> enc_result"
    and dec :: "zc_packet \<Rightarrow> enc_result"
  assumes enc_marked: "peer_manager_header p = Some h \<Longrightarrow> is_encrypted h \<Longrightarrow> enc n p = Some (Inr p)"
    and dec_unmarked: "peer_manager_header p = Some h \<Longrightarrow> \<not> is_encrypted h \<Longrightarrow> dec p = Some (Inr p)"
    and enc_format: "aead_ok api \<Longrightarrow> hdr_room t pre \<Longrightarrow> \<not> is_encrypted h \<Longrightarrow>
      enc nonce (pkt t pre h pl) = Some
       (case (case nonce of Some n \<Rightarrow> if length n = 12 then Some n else None | None \<Rightarrow> Some rnd) of
          None \<Rightarrow> Inl EncryptionFailed
        | Some n \<Rightarrow> (case aead_seal api alg key n pl of
            None \<Rightarrow> Inl EncryptionFailed
          | Some (ct, tag) \<Rightarrow> Inr (pkt t pre (set_encrypted True h) (ct @ tag @ n))))"
    and dec_format: "aead_ok api \<Longrightarrow> hdr_room t pre \<Longrightarrow> is_encrypted h \<Longrightarrow>
      dec (pkt t pre h pl) = Some
       (if length pl < 28 then Inl (PacketTooShort (length pl))
        else let n = length pl - 28 in
          (case aead_open api alg key (drop (n + 16) pl) (take n pl) (take 16 (drop n pl)) of
             None \<Rightarrow> Inl DecryptionFailed
           | Some text \<Rightarrow> Inr (pkt t pre (set_encrypted False h) text)))"
begin

lemma enc_dec_format:
  assumes ok: "aead_ok api" "length rnd = 12" and hdr: "peer_manager_header p = Some h"
    and plain: "\<not> is_encrypted h" and e: "enc nonce p = Some (Inr q)"
  shows "dec q = Some (Inr p)"
proof -
  from hdr obtain t pre pl where p: "p = pkt t pre h pl" "hdr_room t pre" by (rule pkt_cases)
  obtain n ct tag where n: "length n = 12" and seal: "aead_seal api alg key n pl = Some (ct, tag)"
    and q: "q = pkt t pre (set_encrypted True h) (ct @ tag @ n)"
    using e enc_format [OF ok(1) p(2) plain, of nonce pl] p(1) ok(2)
    by (auto split: option.splits if_splits)
  have "length ct = length pl" "length tag = 16" "aead_open api alg key n ct tag = Some pl"
    using aead_ok_seal [OF ok(1) seal] by simp_all
  then show ?thesis using dec_format [OF ok(1) p(2), of "set_encrypted True h"] n q p(1) plain
    by (simp add: set_encrypted_undo)
qed

lemma dec_enc_format:
  assumes ok: "aead_ok api" and hdr: "peer_manager_header q = Some h"
    and mark: "is_encrypted h" and d: "dec q = Some (Inr p)"
  shows "peer_manager_header p = Some (set_encrypted False h) \<and> (\<exists>n. enc n p = Some (Inr q))"
proof -
  from hdr obtain t pre pl where q: "q = pkt t pre h pl" "hdr_room t pre" by (rule pkt_cases)
  define n where "n = length pl - 28"
  have d': "dec (pkt t pre h pl) = Some (Inr p)" using d q(1) by simp
  have long: "\<not> length pl < 28"
    using d' dec_format [OF ok q(2) mark, of pl] by (auto split: if_splits)
  let ?o = "aead_open api alg key (drop (n + 16) pl) (take n pl) (take 16 (drop n pl))"
  have "Inr p = (case ?o of None \<Rightarrow> Inl DecryptionFailed
      | Some text \<Rightarrow> Inr (pkt t pre (set_encrypted False h) text))"
    using d' dec_format [OF ok q(2) mark, of pl] long by (simp add: Let_def n_def)
  then obtain m where m: "length pl = n + 28" "p = pkt t pre (set_encrypted False h) m" "?o = Some m"
    using long by (cases ?o) (simp_all add: n_def)
  have "take n pl @ take 16 (drop n pl) @ drop (n + 16) pl = pl"
    by (metis append_take_drop_id drop_drop add.commute)
  moreover have "aead_seal api alg key (drop (n + 16) pl) m = Some (take n pl, take 16 (drop n pl))"
    using aead_ok_open [OF ok m(3)] by simp
  ultimately have "enc (Some (drop (n + 16) pl)) p = Some (Inr q)"
    using enc_format [OF ok q(2), of "set_encrypted False h" "Some (drop (n + 16) pl)" m] m q(1) mark
    by (simp add: set_encrypted_redo)
  then show ?thesis using m(2) q(2) by (auto simp: pkt_simps)
qed

end

sublocale aead_packet_format \<subseteq> packet_cipher "aead_ok api \<and> length rnd = 12" enc dec
proof (unfold_locales, goal_cases)
  case (1 p h n)
  then show ?case using enc_marked enc_format by (cases "is_encrypted h") (auto elim!: pkt_cases)
next
  case (2 p h)
  then show ?case using dec_unmarked dec_format by (cases "is_encrypted h") (auto elim!: pkt_cases)
next
  case (3 p h)
  then show ?case by (simp add: dec_unmarked)
next
  case (4 p h n q)
  then show ?case using enc_dec_format by blast
next
  case (5 q h p)
  then show ?case using dec_enc_format by blast
qed

interpretation ring: aead_packet_format api rnd "fst (get_cipher c)" "snd (get_cipher c)"
  "ring_encrypt_with_nonce api rnd c" "ring_decrypt api c" for api rnd c
proof unfold_locales
  show "peer_manager_header p = Some h \<Longrightarrow> is_encrypted h \<Longrightarrow>
      ring_encrypt_with_nonce api rnd c n p = Some (Inr p)" for p h n
    by (simp add: ring_encrypt_with_nonce_def)
  show "peer_manager_header p = Some h \<Longrightarrow> \<not> is_encrypted h \<Longrightarrow> ring_decrypt api c p = Some (Inr p)"
    for p h by (simp add: ring_decrypt_def)
qed (fact ring_encrypt_pkt ring_decrypt_pkt)+

interpretation gcm: aead_packet_format api rnd "fst (aes_gcm_cipher c)" "snd (aes_gcm_cipher c)"
  "aes_gcm_encrypt_with_nonce api rnd c" "aes_gcm_decrypt api c" for api rnd c
proof unfold_locales
  show "peer_manager_header p = Some h \<Longrightarrow> is_encrypted h \<Longrightarrow>
      aes_gcm_encrypt_with_nonce api rnd c n p = Some (Inr p)" for p h n
    by (simp add: aes_gcm_encrypt_with_nonce_def)
  show "peer_manager_header p = Some h \<Longrightarrow> \<not> is_encrypted h \<Longrightarrow> aes_gcm_decrypt api c p = Some (Inr p)"
    for p h by (simp add: aes_gcm_decrypt_def)
qed (fact aes_gcm_encrypt_pkt aes_gcm_decrypt_pkt)+

section \<open>Every Encryptor meets the contract\<close>

primrec cipher_ok :: "aead_api \<Rightarrow> bytes \<Rightarrow> cipher \<Rightarrow> bool" where
  "cipher_ok api rnd NullCipher = True"
| "cipher_ok api rnd (XorCipher key) = (key \<noteq> [])"
| "cipher_ok api rnd (RingCipher c) = (aead_ok api \<and> length rnd = 12)"
| "cipher_ok api rnd (AesGcmCipher c) = (aead_ok api \<and> length rnd = 12)"

lemma encrypt_null: "encrypt_with_nonce api rnd NullCipher = (\<lambda>_. null_encrypt)"
  by (intro ext) simp

lemma encrypt_xor: "encrypt_with_nonce api rnd (XorCipher key) = (\<lambda>_. xor_encrypt key)"
  by (intro ext) simp

lemma encrypt_ring: "encrypt_with_nonce api rnd (RingCipher r) = ring_encrypt_with_nonce api rnd r"
  by (intro ext) simp

lemma encrypt_gcm: "encrypt_with_nonce api rnd (AesGcmCipher g) = aes_gcm_encrypt_with_nonce api rnd g"
  by (intro ext) simp

lemma decrypt_fun:
  "decrypt api NullCipher = null_decrypt" "decrypt api (XorCipher key) = xor_decrypt key"
  "decrypt api (RingCipher r) = ring_decrypt api r"
  "decrypt api (AesGcmCipher g) = aes_gcm_decrypt api g"
  by (intro ext, simp)+

lemmas encryptor_fun = encrypt_null encrypt_xor encrypt_ring encrypt_gcm decrypt_fun

interpretation encryptor: packet_cipher "cipher_ok api rnd c" "encrypt_with_nonce api rnd c"
  "decrypt api c" for api rnd c
proof (cases c)
  case NullCipher
  then show "packet_cipher (cipher_ok api rnd c) (encrypt_with_nonce api rnd c) (decrypt api c)"
    using null.packet_cipher_axioms by (simp add: encryptor_fun)
next
  case (XorCipher key)
  then show "packet_cipher (cipher_ok api rnd c) (encrypt_with_nonce api rnd c) (decrypt api c)"
    using xor.packet_cipher_axioms [of key] by (simp add: encryptor_fun)
next
  case (RingCipher r)
  then show "packet_cipher (cipher_ok api rnd c) (encrypt_with_nonce api rnd c) (decrypt api c)"
    using ring.packet_cipher_axioms [of api rnd r] by (simp add: encryptor_fun)
next
  case (AesGcmCipher g)
  then show "packet_cipher (cipher_ok api rnd c) (encrypt_with_nonce api rnd c) (decrypt api c)"
    using gcm.packet_cipher_axioms [of api rnd g] by (simp add: encryptor_fun)
qed

lemma create_encryptor_total:
  assumes "key_128 \<noteq> []"
  obtains c where "create_encryptor algorithm key_128 key_256 = Some c"
    and "(\<exists>r. c = RingCipher r) \<or> (\<exists>k. c = XorCipher k \<and> k \<noteq> [])"
  using assms that
  by (cases "case EncryptionAlgorithm_try_from algorithm of Some a \<Rightarrow> a
        | None \<Rightarrow> EncryptionAlgorithm_default")
    (auto simp: create_encryptor_def xor_new_def)

section \<open>Properties\<close>

text \<open>
  A concrete AEAD for the witnesses: the text masked with the first byte of the key, and a tag
  that is the nonce with four bytes of padding.
\<close>

definition demo_api :: aead_api where
  "demo_api =
     \<lparr>aead_seal = (\<lambda>alg key nonce m. if length nonce = 12
        then Some (map (\<lambda>b. b XOR hd (key @ [0])) m, nonce @ [1, 2, 3, 4]) else None),
      aead_open = (\<lambda>alg key nonce c t. if length nonce = 12 \<and> t = nonce @ [1, 2, 3, 4]
        then Some (map (\<lambda>b. b XOR hd (key @ [0])) c) else None)\<rparr>"

lemma xor_mask: "map (\<lambda>b. b XOR k) (map (\<lambda>b. b XOR k) m) = (m :: bytes)"
  by (simp add: o_def xor.assoc)

lemma demo_api_ok: "aead_ok demo_api"
proof -
  have "map (\<lambda>b. b XOR k) c = m \<longleftrightarrow> c = map (\<lambda>b. b XOR k) m" for k and c m :: bytes
    by (metis xor_mask)
  then show ?thesis by (auto simp: aead_ok_def demo_api_def)
qed

text \<open>
  C12. Whatever algorithm name is configured, \<open>create_encryptor\<close> yields a cipher, and for every
  packet that is not yet encrypted the cipher does not panic, and what it encrypts decrypts to
  the very same packet (buffer, header and type).
\<close>

theorem create_encryptor_roundtrip:
  assumes "aead_ok api" and "length rnd = 12" and "key_128 \<noteq> []"
    and "peer_manager_header p = Some h" and "\<not> is_encrypted h"
  shows "\<exists>c. create_encryptor algorithm key_128 key_256 = Some c \<and>
    (case encrypt_with_nonce api rnd c nonce p of
       None \<Rightarrow> False
     | Some (Inl e) \<Rightarrow> e = EncryptionFailed
     | Some (Inr q) \<Rightarrow> decrypt api c q = Some (Inr p))"
proof -
  obtain c where c1: "create_encryptor algorithm key_128 key_256 = Some c"
    "(\<exists>r. c = RingCipher r) \<or> (\<exists>k. c = XorCipher k \<and> k \<noteq> [])"
    by (rule create_encryptor_total [OF assms(3)])
  then have c: "create_encryptor algorithm key_128 key_256 = Some c" "cipher_ok api rnd c"
    "(\<exists>r. c = RingCipher r) \<or> (\<exists>k. c = XorCipher k)"
    using assms(1,2) by auto
  from assms(4) obtain t pre pl where p: "p = pkt t pre h pl" "hdr_room t pre" by (rule pkt_cases)
  have err: "e = EncryptionFailed" if "encrypt_with_nonce api rnd c nonce p = Some (Inl e)" for e
    using that c(3) p assms(5) ring_encrypt_pkt [OF assms(1) p(2) assms(5), of rnd _ nonce pl]
    by (auto simp: xor_encrypt_pkt split: option.splits if_splits)
  have "encrypt_with_nonce api rnd c nonce p \<noteq> None"
    by (rule encryptor.enc_total [OF c(2) assms(4)])
  then show ?thesis
    using c(1) err encryptor.enc_dec [OF c(2) assms(4,5), of nonce]
    by (auto split: option.splits sum.splits)
qed

theorem create_encryptor_roundtrip_witness:
  "\<exists>c. create_encryptor ''AES-256-gcm'' [1] [2] = Some c \<and>
    (case encrypt_with_nonce demo_api (replicate 12 0) c (Some (replicate 12 7))
        (pkt ZT_TCP [0, 0, 0, 0] \<lparr>from_peer_id = 1, to_peer_id = 2, pm_packet_type = 1,
          pm_flags = 0, forward_counter = 1, pm_reserved = 0, pm_len = 3\<rparr> [5, 6, 7]) of
       None \<Rightarrow> False
     | Some (Inl e) \<Rightarrow> e = EncryptionFailed
     | Some (Inr q) \<Rightarrow> decrypt demo_api c q =
         Some (Inr (pkt ZT_TCP [0, 0, 0, 0] \<lparr>from_peer_id = 1, to_peer_id = 2, pm_packet_type = 1,
          pm_flags = 0, forward_counter = 1, pm_reserved = 0, pm_len = 3\<rparr> [5, 6, 7])))"
proof (rule create_encryptor_roundtrip [OF demo_api_ok])
  show "peer_manager_header (pkt ZT_TCP [0, 0, 0, 0] \<lparr>from_peer_id = 1, to_peer_id = 2,
      pm_packet_type = 1, pm_flags = 0, forward_counter = 1, pm_reserved = 0, pm_len = 3\<rparr> [5, 6, 7])
    = Some \<lparr>from_peer_id = 1, to_peer_id = 2, pm_packet_type = 1, pm_flags = 0,
        forward_counter = 1, pm_reserved = 0, pm_len = 3\<rparr>"
    by (rule pkt_peer_manager_header) (simp add: hdr_room_def size_defs)
qed (simp_all add: is_encrypted_def flag_contains_def ENCRYPTED_def)

text \<open>
  Every cipher accepts a packet marked as encrypted only when it is the encryption of the packet
  it returns: a forged text or tag never decrypts. The returned packet is no longer marked, and
  decrypting it again changes nothing.
\<close>

theorem decrypt_only_encryptions:
  assumes "cipher_ok api rnd c" and "peer_manager_header q = Some h" and "is_encrypted h"
    and "decrypt api c q = Some (Inr p)"
  shows "peer_manager_header p = Some (set_encrypted False h) \<and>
    (\<exists>n. encrypt_with_nonce api rnd c n p = Some (Inr q)) \<and> decrypt api c p = Some (Inr p)"
  using encryptor.dec_enc [OF assms] encryptor.dec_dec [OF assms(1,2,4)] by blast

theorem decrypt_only_encryptions_witness:
  "let h = \<lparr>from_peer_id = 1, to_peer_id = 2, pm_packet_type = 1, pm_flags = 1,
          forward_counter = 1, pm_reserved = 0, pm_len = 3\<rparr>;
       q = pkt ZT_DummyTunnel [] h ([4, 4, 4] @ replicate 12 7 @ [1, 2, 3, 4] @ replicate 12 7);
       p = pkt ZT_DummyTunnel [] (set_encrypted False h) [6, 6, 6];
       c = RingCipher (Ring_ChaCha20 [2])
   in decrypt demo_api c q = Some (Inr p) \<and>
    peer_manager_header p = Some (set_encrypted False h) \<and>
    (\<exists>n. encrypt_with_nonce demo_api (replicate 12 0) c n p = Some (Inr q)) \<and>
    decrypt demo_api c p = Some (Inr p)"
proof -
  let ?h = "\<lparr>from_peer_id = 1, to_peer_id = 2, pm_packet_type = 1, pm_flags = 1,
          forward_counter = 1, pm_reserved = 0, pm_len = 3\<rparr>"
  have room: "hdr_room ZT_DummyTunnel []" by (simp add: hdr_room_def)
  have enc: "is_encrypted ?h" by (simp add: is_encrypted_def flag_contains_def ENCRYPTED_def)
  have d: "decrypt demo_api (RingCipher (Ring_ChaCha20 [2])) (pkt ZT_DummyTunnel [] ?h
      ([4, 4, 4] @ replicate 12 7 @ [1, 2, 3, 4] @ replicate 12 7)) =
      Some (Inr (pkt ZT_DummyTunnel [] (set_encrypted False ?h) [6, 6, 6]))"
    by (simp add: ring_decrypt_pkt [OF demo_api_ok room enc]) (simp add: demo_api_def eval_nat_numeral)
  from decrypt_only_encryptions [OF _ pkt_peer_manager_header [OF room] enc d, of "replicate 12 0"]
  show ?thesis using d demo_api_ok unfolding Let_def by simp
qed

end
