(* ===== verification/Compressor.thy ===== *)
theory Compressor
  imports Encrypt
begin

text \<open>
  \<open>DefaultCompressor\<close> of \<open>easytier/src/common/compressor.rs\<close> with the \<open>zstd\<close> feature. The zstd
  crate's one-shot compressor and its decompressor with an output capacity are the parameter
  \<open>z\<close>; what the code relies on is \<open>zstd_ok\<close>. The thread-local context maps only cache contexts.
\<close>

datatype comp_error = CE_Compress | CE_Decompress | CE_Attempts | CE_TooShort nat | CE_UnknownAlgo u8
  | CE_LenMismatch nat u32

text \<open>A decompression into a buffer of a given capacity; \<open>Z_TooSmall\<close> is the error whose message
  contains \<open>buffer is too small\<close>.\<close>

datatype zstd_result = Z_Ok bytes | Z_TooSmall | Z_Err

record zstd_api =
  zstd_compress :: "bytes \<Rightarrow> bytes option"
  zstd_decompress :: "bytes \<Rightarrow> nat \<Rightarrow> zstd_result"

text \<open>
  Documented behaviour of zstd: decompressing a frame gives the compressed data back if it fits
  into the buffer, and reports a too small destination otherwise.
\<close>

definition zstd_ok :: "zstd_api \<Rightarrow> bool" where
  "zstd_ok z \<longleftrightarrow> (\<forall>m c cap. zstd_compress z m = Some c \<longrightarrow>
     zstd_decompress z c cap = (if length m \<le> cap then Z_Ok m else Z_TooSmall))"

definition compress_raw :: "zstd_api \<Rightarrow> bytes \<Rightarrow> CompressorAlgo \<Rightarrow> comp_error + bytes" where
  "compress_raw z d algo = (case algo of
     CA_ZstdDefault \<Rightarrow> (case zstd_compress z d of Some c \<Rightarrow> Inr c | None \<Rightarrow> Inl CE_Compress)
   | CA_None \<Rightarrow> Inr d)"

text \<open>The output capacity of attempt \<open>i\<close>; the multiplication wraps at 64 bits.\<close>

definition attempt_len :: "bytes \<Rightarrow> nat \<Rightarrow> nat" where
  "attempt_len d i =
     (let len = (length d * 2 ^ i) mod 2 ^ 64
      in if i = 5 \<and> len < 64 * 1024 then 64 * 1024 else len)"

fun decompress_attempts :: "zstd_api \<Rightarrow> bytes \<Rightarrow> nat list \<Rightarrow> comp_error + bytes" where
  "decompress_attempts z d [] = Inl CE_Attempts"
| "decompress_attempts z d (i # is) = (case zstd_decompress z d (attempt_len d i) of
     Z_Ok buf \<Rightarrow> Inr buf
   | Z_TooSmall \<Rightarrow> decompress_attempts z d is
   | Z_Err \<Rightarrow> Inl CE_Decompress)"

definition decompress_raw :: "zstd_api \<Rightarrow> bytes \<Rightarrow> CompressorAlgo \<Rightarrow> comp_error + bytes" where
  "decompress_raw z d algo = (case algo of
     CA_ZstdDefault \<Rightarrow> decompress_attempts z d [1, 2, 3, 4, 5]
   | CA_None \<Rightarrow> Inr d)"

definition compress :: "zstd_api \<Rightarrow> CompressorAlgo \<Rightarrow> zc_packet \<Rightarrow> (comp_error + zc_packet) may_panic"
where
  "compress z algo p =
     (if algo = CA_None then Some (Inr p)
      else do {
        h \<leftarrow> peer_manager_header p;
        if is_compressed h then Some (Inr p)
        else do {
          let tail = compressor_tail_new algo;
          pl \<leftarrow> payload p;
          case compress_raw z pl algo of
            Inl e \<Rightarrow> Some (Inl e)
          | Inr buf \<Rightarrow>
              if length buf + COMPRESSOR_TAIL_SIZE > unat (pm_len h) then Some (Inr p)
              else do {
                p \<leftarrow> mut_peer_manager_header (set_compressed True) p;
                let p = truncate_inner (payload_offset p) p;
                let p = extend_inner buf p;
                Some (Inr (extend_inner [ct_algo tail] p)) } } })"

text \<open>\<open>CompressorTail::ref_from_suffix\<close> is the last byte of the payload.\<close>

definition decompress :: "zstd_api \<Rightarrow> zc_packet \<Rightarrow> (comp_error + zc_packet) may_panic" where
  "decompress z p = do {
     h \<leftarrow> peer_manager_header p;
     if \<not> is_compressed h then Some (Inr p)
     else do {
       pl \<leftarrow> payload p;
       let payload_len = length pl;
       if payload_len < COMPRESSOR_TAIL_SIZE then Some (Inl (CE_TooShort payload_len))
       else do {
         let text_len = payload_len - COMPRESSOR_TAIL_SIZE;
         let tail = \<lparr>ct_algo = last pl\<rparr>;
         case get_algo tail of
           None \<Rightarrow> Some (Inl (CE_UnknownAlgo (ct_algo tail)))
         | Some algo \<Rightarrow> (case decompress_raw z (take text_len pl) algo of
             Inl e \<Rightarrow> Some (Inl e)
           | Inr buf \<Rightarrow>
               if length buf \<noteq> unat (pm_len h) then Some (Inl (CE_LenMismatch (length buf) (pm_len h)))
               else do {
                 p \<leftarrow> mut_peer_manager_header (set_compressed False) p;
                 let p = truncate_inner (payload_offset p) p;
                 Some (Inr (extend_inner buf p)) }) } } }"

section \<open>The growing output buffer\<close>

lemma attempts_of_compressed:
  assumes "zstd_ok z" and "zstd_compress z m = Some c"
  shows "decompress_attempts z c is =
    (if \<exists>i\<in>set is. length m \<le> attempt_len c i then Inr m else Inl CE_Attempts)"
  using assms by (induction "is") (auto simp: zstd_ok_def)

lemma attempt_len_mono:
  assumes "length c * 32 < 2 ^ 64" and "i \<le> 5"
  shows "attempt_len c i \<le> attempt_len c 5"
proof -
  have "(2::nat) ^ i \<le> 2 ^ 5" using assms(2) by (intro power_increasing) simp_all
  then have *: "length c * 2 ^ i \<le> length c * 32" by (intro mult_le_mono) simp_all
  then have "(length c * 2 ^ i) mod 2 ^ 64 = length c * 2 ^ i"
    using assms(1) by (intro mod_less) (rule le_less_trans)
  then have i: "i \<noteq> 5 \<Longrightarrow> attempt_len c i = length c * 2 ^ i" by (simp add: attempt_len_def Let_def)
  have "length c * 32 \<le> attempt_len c 5" using assms(1) by (simp add: attempt_len_def Let_def)
  with * have "length c * 2 ^ i \<le> attempt_len c 5" by (rule le_trans)
  with i show ?thesis by (cases "i = 5") simp_all
qed

lemma decompress_raw_of_compressed:
  assumes "zstd_ok z" and "compress_raw z m algo = Inr c" and "length c * 32 < 2 ^ 64"
  shows "decompress_raw z c algo =
    (if algo = CA_None \<or> length m \<le> max (32 * length c) 65536 then Inr m else Inl CE_Attempts)"
proof (cases algo)
  case CA_None
  then show ?thesis using assms(2) by (simp add: compress_raw_def decompress_raw_def)
next
  case CA_ZstdDefault
  then have c: "zstd_compress z m = Some c"
    using assms(2) by (simp add: compress_raw_def split: option.splits)
  have "attempt_len c 5 = max (32 * length c) 65536"
    using assms(3) by (simp add: attempt_len_def Let_def mod_less)
  moreover have "(\<exists>i\<in>set [1, 2, 3, 4, 5]. length m \<le> attempt_len c i) \<longleftrightarrow> length m \<le> attempt_len c 5"
    using attempt_len_mono [OF assms(3), of 1] attempt_len_mono [OF assms(3), of 2]
      attempt_len_mono [OF assms(3), of 3] attempt_len_mono [OF assms(3), of 4] by auto
  ultimately show ?thesis
    using CA_ZstdDefault attempts_of_compressed [OF assms(1) c]
    by (simp add: decompress_raw_def del: decompress_attempts.simps)
qed

text \<open>
  Data that zstd compressed decompresses again if it fits the last output buffer the code tries,
  32 times the compressed size and at least 64 KiB; data that compresses better than that and is
  larger than 64 KiB is refused after five attempts, although the frame is valid.
\<close>

theorem decompress_raw_compress_raw:
  assumes "zstd_ok z" and "compress_raw z m algo = Inr c" and "length c * 32 < 2 ^ 64"
  shows "decompress_raw z c algo =
    (if algo = CA_None \<or> length m \<le> max (32 * length c) 65536 then Inr m else Inl CE_Attempts)"
  by (rule decompress_raw_of_compressed [OF assms])

text \<open>A zstd-shaped codec for the witnesses: run-length coding of constant data.\<close>

definition demo_zstd :: zstd_api where
  "demo_zstd =
     \<lparr>zstd_compress = (\<lambda>m. if m = replicate (length m) 0 \<and> length m = 70000 then Some [0, 0]
        else if m = replicate 9 3 then Some [9, 3] else None),
      zstd_decompress = (\<lambda>c cap.
        if c = [0, 0] then (if 70000 \<le> cap then Z_Ok (replicate 70000 0) else Z_TooSmall)
        else if c = [9, 3] then (if 9 \<le> cap then Z_Ok (replicate 9 3) else Z_TooSmall)
        else Z_Err)\<rparr>"

lemma demo_zstd_ok: "zstd_ok demo_zstd"
  by (auto simp: zstd_ok_def demo_zstd_def split: if_splits)

theorem decompress_raw_compress_raw_witness:
  "decompress_raw demo_zstd [9, 3] CA_ZstdDefault = Inr (replicate 9 3) \<and>
   decompress_raw demo_zstd [0, 0] CA_ZstdDefault = Inl CE_Attempts"
proof
  have "compress_raw demo_zstd (replicate 9 3) CA_ZstdDefault = Inr [9, 3]"
    by (simp add: compress_raw_def demo_zstd_def)
  from decompress_raw_compress_raw [OF demo_zstd_ok this]
  show "decompress_raw demo_zstd [9, 3] CA_ZstdDefault = Inr (replicate 9 3)" by simp
  have "compress_raw demo_zstd (replicate 70000 0) CA_ZstdDefault = Inr [0, 0]"
    by (simp add: compress_raw_def demo_zstd_def)
  from decompress_raw_compress_raw [OF demo_zstd_ok this]
  show "decompress_raw demo_zstd [0, 0] CA_ZstdDefault = Inl CE_Attempts" by simp
qed

section \<open>Packets\<close>

lemma compress_pkt:
  assumes "hdr_room t pre"
  shows "compress z CA_ZstdDefault (pkt t pre h pl) = Some
    (if is_compressed h then Inr (pkt t pre h pl)
     else case zstd_compress z pl of
         None \<Rightarrow> Inl CE_Compress
       | Some c \<Rightarrow> if length c + 1 > unat (pm_len h) then Inr (pkt t pre h pl)
           else Inr (pkt t pre (set_compressed True h) (c @ [1])))"
  using assms
  by (auto simp: compress_def pkt_simps compress_raw_def COMPRESSOR_TAIL_SIZE_def Let_def
      compressor_tail_new_def split: option.splits)

lemma decompress_pkt:
  assumes "hdr_room t pre" and "is_compressed h"
  shows "decompress z (pkt t pre h (c @ [1])) = Some
    (case decompress_raw z c CA_ZstdDefault of
       Inl e \<Rightarrow> Inl e
     | Inr buf \<Rightarrow> if length buf \<noteq> unat (pm_len h) then Inl (CE_LenMismatch (length buf) (pm_len h))
         else Inr (pkt t pre (set_compressed False h) buf))"
  using assms
  by (auto simp: decompress_def pkt_simps COMPRESSOR_TAIL_SIZE_def Let_def get_algo_def
      split: sum.splits)

text \<open>
  Compressing a packet whose header length is its payload length never panics, never makes it
  longer, and decompression gives the same packet back whenever the payload is at most 64 KiB (or
  compresses by at most a factor of 32): in particular for every packet of a 64 KiB tunnel.
\<close>

theorem compress_roundtrip:
  assumes "zstd_ok z" and "peer_manager_header p = Some h" and "\<not> is_compressed h"
    and "payload p = Some pl" and "unat (pm_len h) = length pl" and "length pl \<le> 65536"
    and "compress z algo p = Some (Inr q)"
  shows "decompress z q = Some (Inr p) \<and> buf_len q \<le> buf_len p"
proof (cases algo)
  case CA_None
  then show ?thesis using assms(2,3,7) by (simp add: compress_def decompress_def)
next
  case CA_ZstdDefault
  from assms(2) obtain t pre pl' where p: "p = pkt t pre h pl'" "hdr_room t pre" by (rule pkt_cases)
  then have pl: "pl' = pl" using assms(4) by (simp add: pkt_simps)
  show ?thesis
  proof (cases "q = p")
    case True
    then show ?thesis using assms(2,3) by (simp add: decompress_def)
  next
    case False
    obtain c where c: "zstd_compress z pl = Some c" "length c + 1 \<le> length pl"
      "q = pkt t pre (set_compressed True h) (c @ [1])"
      using assms(3,5,7) False CA_ZstdDefault compress_pkt [OF p(2), of z h pl] p(1) pl
      by (auto split: option.splits if_splits)
    have "decompress_raw z c CA_ZstdDefault = Inr pl"
      using decompress_raw_of_compressed [OF assms(1), of pl CA_ZstdDefault c] c(1,2) assms(6)
      by (simp add: compress_raw_def)
    then show ?thesis using c assms(3,5) p pl decompress_pkt [OF p(2), of "set_compressed True h" z c]
      by (simp add: set_compressed_undo pkt_simps)
  qed
qed

theorem compress_roundtrip_witness:
  "let h = \<lparr>from_peer_id = 1, to_peer_id = 2, pm_packet_type = 1, pm_flags = 0,
          forward_counter = 1, pm_reserved = 0, pm_len = 9\<rparr>;
       p = pkt ZT_DummyTunnel [] h (replicate 9 3);
       q = pkt ZT_DummyTunnel [] (set_compressed True h) [9, 3, 1]
   in compress demo_zstd CA_ZstdDefault p = Some (Inr q) \<and>
      decompress demo_zstd q = Some (Inr p) \<and> buf_len q \<le> buf_len p"
proof -
  let ?h = "\<lparr>from_peer_id = 1, to_peer_id = 2, pm_packet_type = 1, pm_flags = 0,
          forward_counter = 1, pm_reserved = 0, pm_len = 9\<rparr>"
  have room: "hdr_room ZT_DummyTunnel []" by (simp add: hdr_room_def)
  have plain: "\<not> is_compressed ?h" by (simp add: is_compressed_def flag_contains_def COMPRESSED_def)
  have "compress demo_zstd CA_ZstdDefault (pkt ZT_DummyTunnel [] ?h (replicate 9 3)) =
      Some (Inr (pkt ZT_DummyTunnel [] (set_compressed True ?h) [9, 3, 1]))"
    using plain by (simp add: compress_pkt [OF room]) (simp add: demo_zstd_def)
  with compress_roundtrip [OF demo_zstd_ok pkt_peer_manager_header [OF room] plain
      pkt_payload [OF room] _ _ this]
  show ?thesis by simp
qed

end
