(* ===== verification/Replay_Window.thy ===== *)
theory Replay_Window
  imports Prelude
begin

unbundle bit_operations_syntax

text \<open>
  \<open>ReplayWindow256\<close> of \<open>easytier/src/peers/secure_datagram.rs\<close>: the highest accepted sequence
  number and a bitmap of 32 bytes whose bit \<open>d\<close> says that \<open>max_seq - d\<close> was accepted. The byte and
  carry loops of \<open>shift_right\<close> are modelled as loops and shown to shift the bitmap; the window is
  then shown to be a replay filter over the set of everything it accepted.
\<close>

record ReplayWindow256 =
  max_seq :: u64
  bitmap :: bytes
  win_valid :: bool

definition window_default :: ReplayWindow256 where
  "window_default = \<lparr>max_seq = 0, bitmap = replicate 32 0, win_valid = False\<rparr>"

definition window_clear :: "ReplayWindow256 \<Rightarrow> ReplayWindow256" where
  "window_clear w = w\<lparr>max_seq := 0, bitmap := map (\<lambda>_. 0) (bitmap w), win_valid := False\<rparr>"

definition test_bit :: "bytes \<Rightarrow> nat \<Rightarrow> bool" where
  "test_bit bm idx = (let byte = idx div 8; b = idx mod 8 in drop_bit b (bm ! byte) AND 1 = 1)"

definition set_bit :: "nat \<Rightarrow> bytes \<Rightarrow> bytes" where
  "set_bit idx bm = (let byte = idx div 8; b = idx mod 8 in bm[byte := bm ! byte OR push_bit b 1])"

text \<open>The loop over the byte indices from the last to the first, writing in place.\<close>

definition shift_bytes :: "nat \<Rightarrow> bytes \<Rightarrow> bytes" where
  "shift_bytes byte_shift bm =
     fold (\<lambda>i bm. bm[i := if byte_shift \<le> i then bm ! (i - byte_shift) else 0])
       (rev [0..<length bm]) bm"

text \<open>The loop that carries the high bits of each byte into the next.\<close>

fun shift_carry :: "nat \<Rightarrow> u8 \<Rightarrow> bytes \<Rightarrow> bytes" where
  "shift_carry bit_shift carry [] = []"
| "shift_carry bit_shift carry (b # bs) =
     (push_bit bit_shift b OR carry) # shift_carry bit_shift (drop_bit (8 - bit_shift) b) bs"

definition shift_right :: "nat \<Rightarrow> bytes \<Rightarrow> bytes" where
  "shift_right shift bm =
     (if shift = 0 then bm
      else if shift \<ge> 256 then map (\<lambda>_. 0) bm
      else let byte_shift = shift div 8; bit_shift = shift mod 8;
               bm = (if byte_shift > 0 then shift_bytes byte_shift bm else bm)
           in if bit_shift > 0 then shift_carry bit_shift 0 bm else bm)"

definition accept :: "u64 \<Rightarrow> ReplayWindow256 \<Rightarrow> ReplayWindow256 \<times> bool" where
  "accept seq w =
     (if \<not> win_valid w then
        (w\<lparr>win_valid := True, max_seq := seq, bitmap := set_bit 0 (bitmap w)\<rparr>, True)
      else if seq > max_seq w then
        (let shift = unat (seq - max_seq w)
         in (w\<lparr>bitmap := set_bit 0 (shift_right shift (bitmap w)), max_seq := seq\<rparr>, True))
      else
        (let delta = unat (max_seq w - seq)
         in if delta \<ge> 256 then (w, False)
            else if test_bit (bitmap w) delta then (w, False)
            else (w\<lparr>bitmap := set_bit delta (bitmap w)\<rparr>, True)))"

definition can_accept :: "u64 \<Rightarrow> ReplayWindow256 \<Rightarrow> bool" where
  "can_accept seq w =
     (if \<not> win_valid w \<or> seq > max_seq w then True
      else let delta = unat (max_seq w - seq) in delta < 256 \<and> \<not> test_bit (bitmap w) delta)"

section \<open>Bits of the bitmap\<close>

lemma test_bit_iff: "test_bit bm i \<longleftrightarrow> bit (bm ! (i div 8)) (i mod 8)"
  by (simp add: test_bit_def Let_def and_one_eq bit_iff_odd_drop_bit odd_iff_mod_2_eq_one)

lemma length_set_bit [simp]: "length (set_bit i bm) = length bm"
  by (simp add: set_bit_def Let_def)

lemma test_bit_set_bit:
  assumes "i div 8 < length bm"
  shows "test_bit (set_bit i bm) j \<longleftrightarrow> i = j \<or> test_bit bm j"
proof (cases "i div 8 = j div 8")
  case True
  then have "i = j \<longleftrightarrow> i mod 8 = j mod 8" by (metis div_mult_mod_eq)
  moreover have "j mod 8 < 8" by simp
  ultimately show ?thesis using True assms
    by (auto simp: test_bit_iff set_bit_def Let_def bit_simps)
next
  case False
  then have "i \<noteq> j" by auto
  then show ?thesis using False by (simp add: test_bit_iff set_bit_def Let_def)
qed

lemma fold_shift_bytes:
  "n \<le> length bm \<Longrightarrow>
   (let r = fold (\<lambda>i bm. bm[i := if s \<le> i then bm ! (i - s) else 0]) (rev [0..<n]) bm
    in length r = length bm \<and> (\<forall>i < length bm.
      r ! i = (if i < n then if s \<le> i then bm ! (i - s) else 0 else (bm :: bytes) ! i)))"
proof (induction n arbitrary: bm)
  case 0
  then show ?case by simp
next
  case (Suc n)
  let ?b = "bm[n := if s \<le> n then bm ! (n - s) else 0]"
  let ?r = "fold (\<lambda>i bm. bm[i := if s \<le> i then bm ! (i - s) else 0]) (rev [0..<n]) ?b"
  have IH: "length ?r = length bm" "\<And>i. i < length bm \<Longrightarrow>
      ?r ! i = (if i < n then if s \<le> i then ?b ! (i - s) else 0 else ?b ! i)"
    using Suc.IH [of ?b] Suc.prems by (simp_all add: Let_def)
  have "?r ! i = (if i < Suc n then if s \<le> i then bm ! (i - s) else 0 else bm ! i)"
    if "i < length bm" for i
  proof -
    have "i < n \<Longrightarrow> s \<le> i \<Longrightarrow> ?b ! (i - s) = bm ! (i - s)" by simp
    then show ?thesis using IH(2) [OF that] that Suc.prems by (auto simp: nth_list_update less_Suc_eq)
  qed
  then show ?case using IH(1) by (simp add: Let_def)
qed

lemma shift_bytes_nth:
  "length (shift_bytes s bm) = length bm"
  "i < length bm \<Longrightarrow> shift_bytes s bm ! i = (if s \<le> i then bm ! (i - s) else 0)"
  using fold_shift_bytes [of "length bm" bm s] by (simp_all add: shift_bytes_def Let_def)

lemma length_shift_carry [simp]: "length (shift_carry s c bm) = length bm"
  by (induction s c bm rule: shift_carry.induct) simp_all

lemma shift_carry_nth:
  "i < length bm \<Longrightarrow> shift_carry s c bm ! i =
     (push_bit s (bm ! i) OR (if i = 0 then c else drop_bit (8 - s) (bm ! (i - 1))))"
proof (induction s c bm arbitrary: i rule: shift_carry.induct)
  case (1 s c)
  then show ?case by simp
next
  case (2 s c b bs)
  then show ?case by (cases i; cases "i - 1") auto
qed

lemma test_bit_shift_bytes:
  assumes "i div 8 < length bm"
  shows "test_bit (shift_bytes s bm) i \<longleftrightarrow> 8 * s \<le> i \<and> test_bit bm (i - 8 * s)"
proof (cases "s \<le> i div 8")
  case True
  then have le: "8 * s \<le> i" by linarith
  then obtain j where "i = 8 * s + j" by (metis le_add_diff_inverse)
  then show ?thesis using assms True by (simp add: test_bit_iff shift_bytes_nth)
next
  case False
  then have "\<not> 8 * s \<le> i" by (metis div_le_mono nonzero_mult_div_cancel_left zero_neq_numeral)
  then show ?thesis using assms False by (simp add: test_bit_iff shift_bytes_nth)
qed

lemma test_bit_shift_carry:
  assumes "i div 8 < length bm" and "0 < s" and "s < 8"
  shows "test_bit (shift_carry s 0 bm) i \<longleftrightarrow> s \<le> i \<and> test_bit bm (i - s)"
proof -
  define q r where "q = i div 8" and "r = i mod 8"
  have i: "i = 8 * q + r" and r: "r < 8" by (simp_all add: q_def r_def)
  have q: "q < length bm" using assms(1) by (simp add: q_def)
  have tb: "test_bit b (8 * a + c) \<longleftrightarrow> bit (b ! a) c" if "c < 8" for a c b
    using that by (simp add: test_bit_iff)
  have lhs: "test_bit (shift_carry s 0 bm) i \<longleftrightarrow> bit (shift_carry s 0 bm ! q) r"
    by (simp only: i tb [OF r])
  show ?thesis
  proof (cases "s \<le> r")
    case True
    then have e: "i - s = 8 * q + (r - s)" using i by simp
    have "test_bit bm (i - s) \<longleftrightarrow> bit (bm ! q) (r - s)"
      using r by (simp only: e, intro tb) simp
    moreover have "\<not> bit (drop_bit (8 - s) b) r" for b :: u8
      using True assms(2) by (auto simp: bit_drop_bit_eq dest: bit_imp_le_length)
    moreover have "s \<le> i" using True i by simp
    ultimately show ?thesis using q r True by (simp add: lhs shift_carry_nth bit_simps)
  next
    case False
    show ?thesis
    proof (cases q)
      case 0
      then show ?thesis using i q r False lhs by (simp add: shift_carry_nth bit_simps)
    next
      case (Suc p)
      then have "i - s = 8 * p + (8 - s + r)" and "8 - s + r < 8"
        using i r False assms by simp_all
      then have "test_bit bm (i - s) \<longleftrightarrow> bit (bm ! p) (8 - s + r)" by (simp only: tb)
      moreover have "s \<le> i" using i Suc assms(3) by simp
      ultimately show ?thesis using q r False Suc assms
        by (simp add: lhs shift_carry_nth bit_simps)
    qed
  qed
qed

text \<open>\<open>shift_right\<close> moves every bit up and drops those past bit 255.\<close>

lemma length_shift_right [simp]: "length (shift_right s bm) = length bm"
  by (simp add: shift_right_def Let_def shift_bytes_nth)

lemma test_bit_shift_right:
  assumes "length bm = 32" and "i < 256"
  shows "test_bit (shift_right s bm) i \<longleftrightarrow> s \<le> i \<and> test_bit bm (i - s)"
proof (cases "s = 0 \<or> s \<ge> 256")
  case True
  then show ?thesis using assms by (auto simp: shift_right_def test_bit_iff)
next
  case False
  have i: "i div 8 < length bm" using assms by simp
  have s: "8 * (s div 8) + s mod 8 = s" by simp
  define bm' where "bm' = (if s div 8 > 0 then shift_bytes (s div 8) bm else bm)"
  have bm': "length bm' = 32" "j < 256 \<Longrightarrow>
      test_bit bm' j \<longleftrightarrow> 8 * (s div 8) \<le> j \<and> test_bit bm (j - 8 * (s div 8))" for j
    using assms(1) test_bit_shift_bytes [of j bm "s div 8"] by (auto simp: bm'_def shift_bytes_nth)
  have r: "shift_right s bm = (if s mod 8 > 0 then shift_carry (s mod 8) 0 bm' else bm')"
    using False by (simp add: shift_right_def bm'_def Let_def)
  show ?thesis
  proof (cases "s mod 8 > 0")
    case True
    then have "test_bit (shift_right s bm) i \<longleftrightarrow> s mod 8 \<le> i \<and> test_bit bm' (i - s mod 8)"
      using r test_bit_shift_carry [of i bm' "s mod 8"] bm'(1) assms(2) by simp
    also have "\<dots> \<longleftrightarrow> s mod 8 \<le> i \<and> 8 * (s div 8) \<le> i - s mod 8 \<and>
        test_bit bm (i - s mod 8 - 8 * (s div 8))"
      using bm'(2) [of "i - s mod 8"] assms(2) by simp
    also have "i - s mod 8 - 8 * (s div 8) = i - s" using s by (metis diff_diff_left add.commute)
    also have "s mod 8 \<le> i \<and> 8 * (s div 8) \<le> i - s mod 8 \<and> test_bit bm (i - s) \<longleftrightarrow>
        s \<le> i \<and> test_bit bm (i - s)"
      using s by linarith
    finally show ?thesis .
  next
    case False
    then show ?thesis using r bm'(2) [OF assms(2)] s by simp
  qed
qed

section \<open>Replay filters\<close>

text \<open>
  A filter decides on one item \<open>q\<close> in a context \<open>c\<close> (a time) at a time; \<open>filter_run\<close> feeds it a
  sequence and collects the accepted items. \<open>admissible_run\<close> says that the filter was used in
  an admissible context at every step.
\<close>

fun filter_run :: "('c \<Rightarrow> 'q \<Rightarrow> 's \<Rightarrow> 's \<times> bool) \<Rightarrow> ('c \<times> 'q) list \<Rightarrow> 's \<Rightarrow> 's \<times> 'q list" where
  "filter_run f [] s = (s, [])"
| "filter_run f ((c, q) # es) s =
     (let (s', b) = f c q s; (s'', acc) = filter_run f es s'
      in (s'', if b then q # acc else acc))"

fun admissible_run ::
  "('c \<Rightarrow> 's \<Rightarrow> bool) \<Rightarrow> ('c \<Rightarrow> 'q \<Rightarrow> 's \<Rightarrow> 's \<times> bool) \<Rightarrow> ('c \<times> 'q) list \<Rightarrow> 's \<Rightarrow> bool" where
  "admissible_run adm f [] s = True"
| "admissible_run adm f ((c, q) # es) s = (adm c s \<and> admissible_run adm f es (fst (f c q s)))"

text \<open>
  \<open>rel s H\<close>: the state \<open>s\<close> is one that has accepted exactly the items of \<open>H\<close>.
\<close>

locale replay_filter =
  fixes step :: "'c \<Rightarrow> 'q \<Rightarrow> 's \<Rightarrow> 's \<times> bool"
    and adm :: "'c \<Rightarrow> 's \<Rightarrow> bool"
    and rel :: "'s \<Rightarrow> 'q set \<Rightarrow> bool"
  assumes step_accept: "rel s H \<Longrightarrow> adm c s \<Longrightarrow> step c q s = (s', True) \<Longrightarrow> q \<notin> H \<and> rel s' (insert q H)"
    and step_reject: "rel s H \<Longrightarrow> adm c s \<Longrightarrow> step c q s = (s', False) \<Longrightarrow> rel s' H"
begin

lemma run_no_replay:
  assumes "rel s H" and "admissible_run adm step es s"
  shows "distinct (snd (filter_run step es s)) \<and> set (snd (filter_run step es s)) \<inter> H = {} \<and>
    rel (fst (filter_run step es s)) (H \<union> set (snd (filter_run step es s)))"
  using assms
proof (induction es arbitrary: s H)
  case Nil
  then show ?case by simp
next
  case (Cons e es)
  obtain c q where e: "e = (c, q)" by (cases e)
  obtain s' b where st: "step c q s = (s', b)" by (cases "step c q s")
  obtain s'' acc where r: "filter_run step es s' = (s'', acc)" by (cases "filter_run step es s'")
  have adm: "adm c s" "admissible_run adm step es s'" using Cons.prems(2) e st by simp_all
  show ?case
  proof (cases b)
    case True
    then have "q \<notin> H" "rel s' (insert q H)" using step_accept [OF Cons.prems(1) adm(1)] st by simp_all
    with Cons.IH [OF this(2) adm(2)] show ?thesis using e st r True by auto
  next
    case False
    then have "rel s' H" using step_reject [OF Cons.prems(1) adm(1)] st by simp
    with Cons.IH [OF this adm(2)] show ?thesis using e st r False by simp
  qed
qed

end

section \<open>The window is a replay filter\<close>

definition window_rel :: "ReplayWindow256 \<Rightarrow> u64 set \<Rightarrow> bool" where
  "window_rel w H \<longleftrightarrow> length (bitmap w) = 32 \<and>
     (if win_valid w
      then max_seq w \<in> H \<and> (\<forall>h\<in>H. h \<le> max_seq w) \<and>
           (\<forall>d<256. test_bit (bitmap w) d \<longleftrightarrow> (\<exists>h\<in>H. unat (max_seq w) = unat h + d))
      else H = {} \<and> (\<forall>d<256. \<not> test_bit (bitmap w) d))"

lemma window_rel_default: "window_rel window_default {}"
  by (simp add: window_rel_def window_default_def test_bit_iff)

lemma window_rel_clear: "length (bitmap w) = 32 \<Longrightarrow> window_rel (window_clear w) {}"
  by (simp add: window_rel_def window_clear_def test_bit_iff)

lemma window_seen:
  assumes "window_rel w H" and "win_valid w" and "q \<le> max_seq w" and "unat (max_seq w - q) < 256"
  shows "test_bit (bitmap w) (unat (max_seq w - q)) \<longleftrightarrow> q \<in> H"
proof -
  have d: "unat (max_seq w - q) = unat (max_seq w) - unat q"
    using assms(3) by (simp add: unat_sub word_le_nat_alt)
  have "(\<exists>h\<in>H. unat (max_seq w) = unat h + unat (max_seq w - q)) \<longleftrightarrow> q \<in> H"
  proof
    assume "\<exists>h\<in>H. unat (max_seq w) = unat h + unat (max_seq w - q)"
    then obtain h where h: "h \<in> H" "unat (max_seq w) = unat h + unat (max_seq w - q)" by blast
    then have "h = q" using d assms(3) by (simp add: word_le_nat_alt word_unat_eq_iff)
    then show "q \<in> H" using h(1) by simp
  next
    assume "q \<in> H"
    then show "\<exists>h\<in>H. unat (max_seq w) = unat h + unat (max_seq w - q)"
      using d assms(3) by (intro bexI [of _ q]) (simp_all add: word_le_nat_alt)
  qed
  then show ?thesis using assms(1,2,4) by (simp add: window_rel_def)
qed

text \<open>The verdict of \<open>accept\<close>, in terms of what was accepted before.\<close>

lemma accept_iff:
  assumes "window_rel w H"
  shows "snd (accept q w) \<longleftrightarrow>
    H = {} \<or> q > max_seq w \<or> (unat (max_seq w) - unat q < 256 \<and> q \<notin> H)"
proof (cases "win_valid w")
  case False
  then show ?thesis using assms by (simp add: accept_def window_rel_def)
next
  case True
  then have ne: "H \<noteq> {}" using assms by (auto simp: window_rel_def)
  show ?thesis
  proof (cases "q > max_seq w")
    case True
    then show ?thesis using \<open>win_valid w\<close> by (simp add: accept_def Let_def)
  next
    case False
    then have le: "q \<le> max_seq w" by simp
    then have "unat (max_seq w - q) = unat (max_seq w) - unat q"
      by (simp add: unat_sub word_le_nat_alt)
    then show ?thesis using True le ne window_seen [OF assms True le]
      by (auto simp: accept_def Let_def)
  qed
qed

lemma can_accept_iff_accept: "can_accept q w = snd (accept q w)"
  by (auto simp: can_accept_def accept_def Let_def)

lemma accept_reject_same: "\<not> snd (accept q w) \<Longrightarrow> fst (accept q w) = w"
  by (auto simp: accept_def Let_def split: if_splits)

lemma window_rel_advance:
  assumes rel: "window_rel w H" and v: "win_valid w" and gt: "q > max_seq w"
  shows "window_rel (fst (accept q w)) (insert q H)"
proof -
  let ?s = "unat (q - max_seq w)"
  have s: "unat q = unat (max_seq w) + ?s" and pos: "0 < ?s"
    using gt by (simp_all add: unat_sub word_le_nat_alt word_less_nat_alt)
  have len: "length (bitmap w) = 32" using rel by (simp add: window_rel_def)
  have H: "h \<le> max_seq w" if "h \<in> H" for h using rel v that by (simp add: window_rel_def)
  have "test_bit (set_bit 0 (shift_right ?s (bitmap w))) d \<longleftrightarrow>
      (\<exists>h\<in>insert q H. unat q = unat h + d)" if d: "d < 256" for d
  proof -
    have "test_bit (set_bit 0 (shift_right ?s (bitmap w))) d \<longleftrightarrow>
        d = 0 \<or> ?s \<le> d \<and> test_bit (bitmap w) (d - ?s)"
      using len d by (auto simp: test_bit_set_bit test_bit_shift_right)
    also have "\<dots> \<longleftrightarrow> d = 0 \<or> ?s \<le> d \<and> (\<exists>h\<in>H. unat (max_seq w) = unat h + (d - ?s))"
      using rel v d by (auto simp: window_rel_def)
    also have "\<dots> \<longleftrightarrow> d = 0 \<or> (\<exists>h\<in>H. unat q = unat h + d)"
    proof -
      have "?s \<le> d \<and> unat (max_seq w) = unat h + (d - ?s) \<longleftrightarrow> unat q = unat h + d"
        if "h \<in> H" for h using H [OF that] s by (auto simp: word_le_nat_alt)
      then show ?thesis by blast
    qed
    finally show ?thesis by auto
  qed
  moreover have "\<forall>h\<in>H. h \<le> q" using H gt by (meson order_less_imp_le order_trans)
  ultimately show ?thesis
    using v gt len by (simp add: accept_def Let_def window_rel_def)
qed

lemma window_rel_accept:
  assumes rel: "window_rel w H" and acc: "snd (accept q w)"
  shows "q \<notin> H \<and> window_rel (fst (accept q w)) (insert q H)"
proof (cases "win_valid w")
  case False
  then show ?thesis using rel
    by (auto simp: accept_def window_rel_def test_bit_set_bit)
next
  case True
  show ?thesis
  proof (cases "q > max_seq w")
    case gt: True
    then have "q \<notin> H" using rel True by (auto simp: window_rel_def)
    then show ?thesis using window_rel_advance [OF rel True gt] by simp
  next
    case False
    then have le: "q \<le> max_seq w" by simp
    let ?d = "unat (max_seq w - q)"
    have d: "?d < 256" "\<not> test_bit (bitmap w) ?d"
      using acc True le by (auto simp: accept_def Let_def split: if_splits)
    have eq: "unat (max_seq w) = unat q + ?d"
      using le by (simp add: unat_sub word_le_nat_alt)
    have "test_bit (set_bit ?d (bitmap w)) e \<longleftrightarrow> (\<exists>h\<in>insert q H. unat (max_seq w) = unat h + e)"
      if "e < 256" for e
      using rel True that d(1) eq by (auto simp: window_rel_def test_bit_set_bit)
    then show ?thesis using rel True le d window_seen [OF rel True le d(1)]
      by (auto simp: accept_def Let_def window_rel_def)
  qed
qed

interpretation window: replay_filter "\<lambda>_ :: unit. accept" "\<lambda>_ _. True" window_rel
proof unfold_locales
  fix s H q s'
  show "window_rel s H \<Longrightarrow> accept q s = (s', True) \<Longrightarrow> q \<notin> H \<and> window_rel s' (insert q H)"
    using window_rel_accept [of s H q] by simp
  show "window_rel s H \<Longrightarrow> accept q s = (s', False) \<Longrightarrow> window_rel s' H"
    using accept_reject_same [of q s] by simp
qed

text \<open>
  The replay window, started empty, accepts every sequence number at most once, whatever the
  order in which packets arrive.
\<close>

theorem window_accepts_once:
  "distinct (snd (filter_run (\<lambda>_. accept) (map (Pair ()) seqs) window_default))"
proof -
  have "admissible_run (\<lambda>_ _. True) (\<lambda>_ :: unit. accept) es s" for es s
    by (induction es arbitrary: s) auto
  then show ?thesis using window.run_no_replay [OF window_rel_default] by blast
qed

text \<open>
  C13. The window refines its specification: after accepting exactly the set \<open>H\<close>, it accepts
  \<open>seq\<close> if and only if \<open>H\<close> is empty, \<open>seq\<close> is newer than everything in \<open>H\<close>, or \<open>seq\<close> is
  fresh and less than 256 behind the newest; and it then has accepted exactly \<open>H\<close> and \<open>seq\<close>.
  The check without commitment gives the same verdict.
\<close>

theorem window_refines_set:
  assumes "window_rel w H"
  shows "can_accept seq w = snd (accept seq w) \<and>
    (snd (accept seq w) \<longleftrightarrow> H = {} \<or> (\<forall>h\<in>H. h < seq) \<or>
       seq \<notin> H \<and> (\<forall>h\<in>H. unat h - unat seq < 256)) \<and>
    window_rel (fst (accept seq w)) (if snd (accept seq w) then insert seq H else H)"
proof -
  have H: "H = {} \<or> max_seq w \<in> H \<and> (\<forall>h\<in>H. h \<le> max_seq w)"
    using assms by (auto simp: window_rel_def split: if_splits)
  have "seq > max_seq w \<longleftrightarrow> (\<forall>h\<in>H. h < seq)" if "H \<noteq> {}"
    using H that by (auto intro: le_less_trans)
  moreover have "unat (max_seq w) - unat seq < 256 \<longleftrightarrow> (\<forall>h\<in>H. unat h - unat seq < 256)" if "H \<noteq> {}"
    using H that by (auto simp: word_le_nat_alt intro: le_less_trans [OF diff_le_mono])
  ultimately show ?thesis
    using accept_iff [OF assms] window_rel_accept [OF assms] accept_reject_same [of seq w] assms
    by (auto simp: can_accept_iff_accept)
qed

theorem window_refines_set_witness:
  "can_accept 3 (fst (accept 7 window_default)) = snd (accept 3 (fst (accept 7 window_default))) \<and>
    (snd (accept 3 (fst (accept 7 window_default))) \<longleftrightarrow> {7 :: u64} = {} \<or> (\<forall>h\<in>{7 :: u64}. h < 3) \<or>
       3 \<notin> {7 :: u64} \<and> (\<forall>h\<in>{7 :: u64}. unat h - unat (3 :: u64) < 256)) \<and>
    window_rel (fst (accept 3 (fst (accept 7 window_default))))
      (if snd (accept 3 (fst (accept 7 window_default))) then insert 3 {7} else {7})"
proof (rule window_refines_set)
  show "window_rel (fst (accept 7 window_default)) {7}"
    using window_rel_accept [OF window_rel_default, of 7]
    by (simp add: accept_iff [OF window_rel_default])
qed

end
