(* ===== verification/Secure_Datagram.thy ===== *)
theory Secure_Datagram
  imports Replay_Window Encrypt
begin

unbundle bit_operations_syntax

text \<open>
  \<open>SecureDatagramSession\<close> of \<open>easytier/src/peers/secure_datagram.rs\<close>: nonces, epochs and key
  rotation on the sending side, replay protection per direction and epoch on the receiving side,
  the key cache, and the two payload handlers. The arrays indexed by \<open>dir.idx()\<close> are functions of
  the direction; the two slots of a direction are a pair (current, previous). The clock is a
  parameter of every operation that reads it, HMAC-SHA256 is the parameter \<open>hmac\<close>, the AEAD library
  is \<open>api\<close>. Each handler is one atomic step: the interleavings of its atomics and mutexes with
  other handlers are not modelled.
\<close>

datatype SecureDatagramDirection = AToB | BToA

primrec idx :: "SecureDatagramDirection \<Rightarrow> nat" where
  "idx AToB = 0"
| "idx BToA = 1"

section \<open>Slots\<close>

record EpochKeySlot =
  key_epoch :: u32
  key_generation :: u32
  key_valid :: bool
  send_cipher :: "cipher option"
  recv_cipher :: "cipher option"

definition key_slot_default :: EpochKeySlot where
  "key_slot_default = \<lparr>key_epoch = 0, key_generation = 0, key_valid = False, send_cipher = None,
     recv_cipher = None\<rparr>"

text \<open>\<open>unwrap\<close> panics on a slot without ciphers.\<close>

definition get_encryptor :: "bool \<Rightarrow> EpochKeySlot \<Rightarrow> cipher may_panic" where
  "get_encryptor is_send s = (if is_send then send_cipher s else recv_cipher s)"

record EpochRxSlot =
  rx_epoch :: u32
  rx_window :: ReplayWindow256
  last_rx_ms :: u64
  rx_valid :: bool

definition rx_slot_default :: EpochRxSlot where
  "rx_slot_default = \<lparr>rx_epoch = 0, rx_window = window_default, last_rx_ms = 0, rx_valid = False\<rparr>"

definition rx_slot_clear :: "EpochRxSlot \<Rightarrow> EpochRxSlot" where
  "rx_slot_clear s = \<lparr>rx_epoch = 0, rx_window = window_clear (rx_window s), last_rx_ms = 0,
     rx_valid = False\<rparr>"

type_synonym 'a per_dir = "SecureDatagramDirection \<Rightarrow> 'a"
type_synonym rx_slots = "(EpochRxSlot \<times> EpochRxSlot) per_dir"

record SyncRxGrace =
  grace_slots :: rx_slots
  expires_at_ms :: u64
  grace_valid :: bool

definition grace_default :: SyncRxGrace where
  "grace_default = \<lparr>grace_slots = (\<lambda>_. (rx_slot_default, rx_slot_default)), expires_at_ms = 0,
     grace_valid = False\<rparr>"

definition grace_clear :: "SyncRxGrace \<Rightarrow> SyncRxGrace" where
  "grace_clear g = \<lparr>grace_slots = (\<lambda>_. (rx_slot_default, rx_slot_default)), expires_at_ms = 0,
     grace_valid = False\<rparr>"

definition grace_refresh :: "rx_slots \<Rightarrow> u64 \<Rightarrow> SyncRxGrace \<Rightarrow> SyncRxGrace" where
  "grace_refresh slots expires g = \<lparr>grace_slots = slots, expires_at_ms = expires, grace_valid = True\<rparr>"

definition maybe_expire :: "u64 \<Rightarrow> SyncRxGrace \<Rightarrow> SyncRxGrace" where
  "maybe_expire now g = (if grace_valid g \<and> now \<ge> expires_at_ms g then grace_clear g else g)"

section \<open>The session\<close>

definition EVICT_IDLE_AFTER_MS :: u64 where "EVICT_IDLE_AFTER_MS = 30000"
definition SYNC_RX_GRACE_AFTER_MS :: u64 where "SYNC_RX_GRACE_AFTER_MS = 5000"
definition ROTATE_AFTER_PACKETS :: u64 where "ROTATE_AFTER_PACKETS = 1000000"
definition ROTATE_AFTER_MS :: u64 where "ROTATE_AFTER_MS = 10 * 60 * 1000"
definition MAX_ACCEPTED_RX_EPOCH_AHEAD :: u32 where "MAX_ACCEPTED_RX_EPOCH_AHEAD = 3"
definition DECRYPT_FAIL_THRESHOLD :: u32 where "DECRYPT_FAIL_THRESHOLD = 10"

record session =
  root_key :: bytes
  session_generation :: u32
  send_epoch :: u32
  send_seq :: "u64 per_dir"
  send_epoch_started_ms :: u64
  send_packets_since_epoch :: u64
  rx :: rx_slots
  key_cache :: "(EpochKeySlot \<times> EpochKeySlot) per_dir"
  sync_rx_grace :: SyncRxGrace
  sync_rx_grace_expires_at_ms :: u64
  send_cipher_algorithm :: string
  recv_cipher_algorithm :: string
  invalidated :: bool
  decrypt_fail_count :: u32

datatype sdg_error = SessionInvalidated | NoTail | ReplayRejected | AlgoNotSame | CipherError enc_error

definition session_new :: "u64 \<Rightarrow> bytes \<Rightarrow> u32 \<Rightarrow> u32 \<Rightarrow> string \<Rightarrow> string \<Rightarrow> session" where
  "session_new now key gen initial_epoch send_alg recv_alg =
     \<lparr>root_key = key, session_generation = gen, send_epoch = initial_epoch, send_seq = (\<lambda>_. 0),
      send_epoch_started_ms = now, send_packets_since_epoch = 0,
      rx = (\<lambda>_. (rx_slot_default, rx_slot_default)),
      key_cache = (\<lambda>_. (key_slot_default, key_slot_default)),
      sync_rx_grace = grace_default, sync_rx_grace_expires_at_ms = 0,
      send_cipher_algorithm = send_alg, recv_cipher_algorithm = recv_alg,
      invalidated = False, decrypt_fail_count = 0\<rparr>"

definition invalidate :: "session \<Rightarrow> session" where
  "invalidate s = s\<lparr>invalidated := True\<rparr>"

definition is_valid :: "session \<Rightarrow> bool" where
  "is_valid s = (\<not> invalidated s)"

text \<open>The highest epoch in use anywhere, plus one, wrapping.\<close>

definition next_sync_epoch :: "session \<Rightarrow> u32" where
  "next_sync_epoch s =
     fold (\<lambda>dir m.
         let cur = fst (rx s dir);
             m = (if rx_valid cur then max m (rx_epoch cur) else m);
             prev = snd (rx s dir)
         in if rx_valid prev then max m (rx_epoch prev) else m)
       [AToB, BToA] (send_epoch s) + 1"

definition check_encrypt_algo_same :: "string \<Rightarrow> string \<Rightarrow> session \<Rightarrow> sdg_error option" where
  "check_encrypt_algo_same send_alg recv_alg s =
     (if send_cipher_algorithm s \<noteq> send_alg \<or> recv_cipher_algorithm s \<noteq> recv_alg
      then Some AlgoNotSame else None)"

text \<open>The clock is read twice: for the start of the epoch and for the grace period.\<close>

definition sync_root_key :: "u64 \<Rightarrow> u64 \<Rightarrow> bytes \<Rightarrow> u32 \<Rightarrow> u32 \<Rightarrow> bool \<Rightarrow> session \<Rightarrow> session" where
  "sync_root_key now now' key gen initial_epoch preserve_rx_grace s =
     (let old_root_key = root_key s;
          can_preserve_rx_grace = preserve_rx_grace \<and> old_root_key = key;
          s = s\<lparr>root_key := key, session_generation := gen, send_epoch := initial_epoch,
                send_seq := (\<lambda>_. 0), send_epoch_started_ms := now, send_packets_since_epoch := 0\<rparr>;
          s = (if can_preserve_rx_grace
               then let expires = sat_add now' SYNC_RX_GRACE_AFTER_MS
                    in s\<lparr>sync_rx_grace := grace_refresh (rx s) expires (sync_rx_grace s),
                         sync_rx_grace_expires_at_ms := expires\<rparr>
               else s\<lparr>sync_rx_grace := grace_clear (sync_rx_grace s),
                      sync_rx_grace_expires_at_ms := 0\<rparr>);
          s = s\<lparr>rx := (\<lambda>dir. (rx_slot_clear (fst (rx s dir)), rx_slot_clear (snd (rx s dir))))\<rparr>
      in s\<lparr>key_cache := (\<lambda>_. (key_slot_default, key_slot_default))\<rparr>)"

section \<open>Keys\<close>

definition traffic_info :: "u32 \<Rightarrow> SecureDatagramDirection \<Rightarrow> bytes" where
  "traffic_info epoch dir =
     map (\<lambda>c. of_nat (of_char c)) ''et-traffic'' @ be_bytes 4 epoch @ [of_nat (idx dir)]"

definition hkdf_traffic_key ::
  "(bytes \<Rightarrow> bytes \<Rightarrow> bytes) \<Rightarrow> bytes \<Rightarrow> u32 \<Rightarrow> SecureDatagramDirection \<Rightarrow> bytes" where
  "hkdf_traffic_key hmac root epoch dir =
     (let salt = replicate 32 0;
          prk = hmac salt root;
          okm = hmac prk (traffic_info epoch dir @ [1])
      in take 32 okm)"

text \<open>
  The two slots of the direction are searched in order; a missing key is derived and stored in
  the first slot if that is free or of the same epoch, in the second otherwise.
\<close>

definition key_slot_match :: "u32 \<Rightarrow> u32 \<Rightarrow> EpochKeySlot \<Rightarrow> bool" where
  "key_slot_match epoch gen slot \<longleftrightarrow>
     key_valid slot \<and> key_epoch slot = epoch \<and> key_generation slot = gen"

definition get_or_create_encryptor ::
  "(bytes \<Rightarrow> bytes \<Rightarrow> bytes) \<Rightarrow> u32 \<Rightarrow> SecureDatagramDirection \<Rightarrow> u32 \<Rightarrow> bool \<Rightarrow> session
    \<Rightarrow> (cipher \<times> session) may_panic" where
  "get_or_create_encryptor hmac epoch dir gen is_send s =
     (let (s0, s1) = key_cache s dir in
      if key_slot_match epoch gen s0 then map_option (\<lambda>c. (c, s)) (get_encryptor is_send s0)
      else if key_slot_match epoch gen s1 then map_option (\<lambda>c. (c, s)) (get_encryptor is_send s1)
      else do {
        let key = hkdf_traffic_key hmac (root_key s) epoch dir;
        key_128 \<leftarrow> index_range 0 16 key;
        sc \<leftarrow> create_encryptor (send_cipher_algorithm s) key_128 key;
        rc \<leftarrow> create_encryptor (recv_cipher_algorithm s) key_128 key;
        let slot = \<lparr>key_epoch = epoch, key_generation = gen, key_valid = True,
          send_cipher = Some sc, recv_cipher = Some rc\<rparr>;
        ret \<leftarrow> get_encryptor is_send slot;
        let slots = (if \<not> key_valid s0 \<or> key_epoch s0 = epoch then (slot, s1) else (s0, slot));
        Some (ret, s\<lparr>key_cache := (key_cache s)(dir := slots)\<rparr>) })"

section \<open>Sending: epochs and nonces\<close>

definition maybe_rotate_epoch :: "u64 \<Rightarrow> session \<Rightarrow> session" where
  "maybe_rotate_epoch now s =
     (let packets = send_packets_since_epoch s + 1;
          s = s\<lparr>send_packets_since_epoch := packets\<rparr>;
          started = send_epoch_started_ms s
      in if packets < ROTATE_AFTER_PACKETS \<and> sat_sub now started < ROTATE_AFTER_MS then s
         else s\<lparr>send_epoch := send_epoch s + 1, send_epoch_started_ms := now,
                send_packets_since_epoch := 0\<rparr>)"

definition next_nonce ::
  "u64 \<Rightarrow> SecureDatagramDirection \<Rightarrow> session \<Rightarrow> (u32 \<times> u64 \<times> bytes) \<times> session" where
  "next_nonce now dir s =
     (let s = maybe_rotate_epoch now s;
          epoch = send_epoch s;
          seq = send_seq s dir;
          s = s\<lparr>send_seq := (send_seq s)(dir := seq + 1)\<rparr>
      in ((epoch, seq, be_bytes 4 epoch @ be_bytes 8 seq), s))"

section \<open>Receiving: replay protection\<close>

definition parse_tail :: "bytes \<Rightarrow> bytes option" where
  "parse_tail pl = map_option aead_nonce (aead_tail_ref_from_suffix pl)"

definition evict_slot :: "u64 \<Rightarrow> EpochRxSlot \<Rightarrow> EpochRxSlot" where
  "evict_slot now slot =
     (if \<not> rx_valid slot then slot
      else if last_rx_ms slot \<noteq> 0 \<and> sat_sub now (last_rx_ms slot) > EVICT_IDLE_AFTER_MS
      then rx_slot_clear slot else slot)"

definition evict_old_rx_slots :: "u64 \<Rightarrow> rx_slots \<Rightarrow> rx_slots" where
  "evict_old_rx_slots now slots =
     (\<lambda>dir. (evict_slot now (fst (slots dir)), evict_slot now (snd (slots dir))))"

definition epoch_in_slots :: "EpochRxSlot \<times> EpochRxSlot \<Rightarrow> u32 \<Rightarrow> bool" where
  "epoch_in_slots slots epoch \<longleftrightarrow>
     rx_valid (fst slots) \<and> rx_epoch (fst slots) = epoch \<or>
     rx_valid (snd slots) \<and> rx_epoch (snd slots) = epoch"

definition sync_rx_grace_active :: "u64 \<Rightarrow> session \<Rightarrow> bool \<times> session" where
  "sync_rx_grace_active now s =
     (if sync_rx_grace_expires_at_ms s = 0 then (False, s)
      else if now < sync_rx_grace_expires_at_ms s then (True, s)
      else (False, s\<lparr>sync_rx_grace_expires_at_ms := 0\<rparr>))"

text \<open>
  The common first part of \<open>precheck_replay\<close> and \<open>commit_replay\<close>: evict idle slots and look at the
  grace period. The result says whether the grace slots take part; they are in the session.
\<close>

definition enter_replay :: "u64 \<Rightarrow> session \<Rightarrow> bool \<times> session" where
  "enter_replay now s =
     (let s = s\<lparr>rx := evict_old_rx_slots now (rx s)\<rparr>;
          (active, s) = sync_rx_grace_active now s
      in if active then
           let g = maybe_expire now (sync_rx_grace s)
           in if grace_valid g
              then (True, s\<lparr>sync_rx_grace :=
                     g\<lparr>grace_slots := evict_old_rx_slots now (grace_slots g)\<rparr>\<rparr>)
              else (False, s\<lparr>sync_rx_grace := g, sync_rx_grace_expires_at_ms := 0\<rparr>)
         else (False, s))"

definition max_allowed_epoch :: "u32 \<Rightarrow> EpochRxSlot \<Rightarrow> EpochRxSlot \<Rightarrow> u32" where
  "max_allowed_epoch snd_epoch cur prev =
     (let b = snd_epoch;
          b = (if rx_valid cur then max b (rx_epoch cur) else b);
          b = (if rx_valid prev then max b (rx_epoch prev) else b)
      in sat_add b MAX_ACCEPTED_RX_EPOCH_AHEAD)"

definition precheck_replay ::
  "u32 \<Rightarrow> u64 \<Rightarrow> SecureDatagramDirection \<Rightarrow> u64 \<Rightarrow> session \<Rightarrow> bool \<times> session" where
  "precheck_replay epoch seq dir now s =
     (let (grace, s) = enter_replay now s;
          (g0, g1) = grace_slots (sync_rx_grace s) dir;
          (cur, prev) = rx s dir
      in (if grace \<and> epoch_in_slots (g0, g1) epoch
          then (if rx_valid g0 \<and> rx_epoch g0 = epoch then can_accept seq (rx_window g0)
                else can_accept seq (rx_window g1))
          else if \<not> rx_valid cur then True
          else if epoch = rx_epoch cur then can_accept seq (rx_window cur)
          else if rx_valid prev \<and> epoch = rx_epoch prev then can_accept seq (rx_window prev)
          else if epoch > rx_epoch cur then \<not> epoch > max_allowed_epoch (send_epoch s) cur prev
          else False, s))"

text \<open>\<open>slot.last_rx_ms = now_ms; slot.window.accept(seq)\<close>\<close>

definition slot_accept :: "u64 \<Rightarrow> u64 \<Rightarrow> EpochRxSlot \<Rightarrow> EpochRxSlot \<times> bool" where
  "slot_accept now seq slot =
     (let (w, ok) = accept seq (rx_window slot)
      in (slot\<lparr>last_rx_ms := now, rx_window := w\<rparr>, ok))"

definition fresh_slot :: "u32 \<Rightarrow> u64 \<Rightarrow> EpochRxSlot" where
  "fresh_slot epoch now =
     \<lparr>rx_epoch = epoch, rx_window = window_default, last_rx_ms = now, rx_valid = True\<rparr>"

definition commit_slots ::
  "u32 \<Rightarrow> u64 \<Rightarrow> u64 \<Rightarrow> u32 \<Rightarrow> EpochRxSlot \<times> EpochRxSlot \<Rightarrow> (EpochRxSlot \<times> EpochRxSlot) \<times> bool" where
  "commit_slots epoch seq now snd_epoch slots =
     (let (cur, prev) = slots;
          cur = (if \<not> rx_valid cur then fresh_slot epoch now else cur)
      in if epoch = rx_epoch cur then
           let (cur', ok) = slot_accept now seq cur in ((cur', prev), ok)
         else if rx_valid prev \<and> epoch = rx_epoch prev then
           let (prev', ok) = slot_accept now seq prev in ((cur, prev'), ok)
         else if epoch > rx_epoch cur then
           (if epoch > max_allowed_epoch snd_epoch cur prev then ((cur, prev), False)
            else let (w, ok) = accept seq (rx_window (fresh_slot epoch now))
                 in (((fresh_slot epoch now)\<lparr>rx_window := w\<rparr>, cur), ok))
         else ((cur, prev), False))"

definition prune_slot ::
  "u32 \<Rightarrow> EpochRxSlot \<times> EpochRxSlot \<Rightarrow> (EpochRxSlot \<times> EpochRxSlot) option \<Rightarrow> EpochKeySlot \<Rightarrow> EpochKeySlot"
where
  "prune_slot snd_epoch rxs grace slot =
     (if \<not> key_valid slot then slot
      else let e = key_epoch slot;
               allowed = (e = snd_epoch \<or> epoch_in_slots rxs e \<or>
                 (case grace of Some g \<Rightarrow> epoch_in_slots g e | None \<Rightarrow> False))
           in if \<not> allowed then slot\<lparr>key_valid := False\<rparr> else slot)"

definition prune_key_cache :: "bool \<Rightarrow> session \<Rightarrow> session" where
  "prune_key_cache grace s = s\<lparr>key_cache := (\<lambda>d.
     let p = prune_slot (send_epoch s) (rx s d)
           (if grace then Some (grace_slots (sync_rx_grace s) d) else None)
     in (p (fst (key_cache s d)), p (snd (key_cache s d))))\<rparr>"

definition commit_replay ::
  "u32 \<Rightarrow> u64 \<Rightarrow> SecureDatagramDirection \<Rightarrow> u64 \<Rightarrow> session \<Rightarrow> bool \<times> session" where
  "commit_replay epoch seq dir now s =
     (let (grace, s) = enter_replay now s;
          (g0, g1) = grace_slots (sync_rx_grace s) dir
      in if grace \<and> epoch_in_slots (g0, g1) epoch then
           let (slots, ok) = (if rx_valid g0 \<and> rx_epoch g0 = epoch
                 then let (g0', ok) = slot_accept now seq g0 in ((g0', g1), ok)
                 else let (g1', ok) = slot_accept now seq g1 in ((g0, g1'), ok));
               gr = sync_rx_grace s;
               s = s\<lparr>sync_rx_grace := gr\<lparr>grace_slots := (grace_slots gr)(dir := slots)\<rparr>\<rparr>
           in (ok, prune_key_cache grace s)
         else
           let (slots, ok) = commit_slots epoch seq now (send_epoch s) (rx s dir);
               s = s\<lparr>rx := (rx s)(dir := slots)\<rparr>
           in (ok, prune_key_cache grace s))"

definition check_replay ::
  "u32 \<Rightarrow> u64 \<Rightarrow> SecureDatagramDirection \<Rightarrow> u64 \<Rightarrow> session \<Rightarrow> bool \<times> session" where
  "check_replay epoch seq dir now s =
     (let (ok, s) = precheck_replay epoch seq dir now s
      in if ok then commit_replay epoch seq dir now s else (False, s))"

section \<open>The payload handlers\<close>

definition encrypt_payload ::
  "(bytes \<Rightarrow> bytes \<Rightarrow> bytes) \<Rightarrow> aead_api \<Rightarrow> bytes \<Rightarrow> u64 \<Rightarrow> SecureDatagramDirection \<Rightarrow> zc_packet \<Rightarrow> session
    \<Rightarrow> ((sdg_error + zc_packet) \<times> session) may_panic" where
  "encrypt_payload hmac api rnd now dir p s =
     (if \<not> is_valid s then Some (Inl SessionInvalidated, s)
      else do {
        let ((epoch, seq, nonce), s) = next_nonce now dir s;
        (c, s) \<leftarrow> get_or_create_encryptor hmac epoch dir (session_generation s) True s;
        r \<leftarrow> encrypt_with_nonce api rnd c (Some nonce) p;
        Some (case r of
            Inl e \<Rightarrow> (Inl (CipherError e), invalidate s)
          | Inr q \<Rightarrow> (Inr q, s)) })"

definition decrypt_payload ::
  "(bytes \<Rightarrow> bytes \<Rightarrow> bytes) \<Rightarrow> aead_api \<Rightarrow> u64 \<Rightarrow> SecureDatagramDirection \<Rightarrow> zc_packet \<Rightarrow> session
    \<Rightarrow> ((sdg_error + zc_packet) \<times> session) may_panic" where
  "decrypt_payload hmac api now dir p s =
     (if \<not> is_valid s then Some (Inl SessionInvalidated, s)
      else do {
        pl \<leftarrow> payload p;
        case parse_tail pl of
          None \<Rightarrow> Some (Inl NoTail, s)
        | Some nonce \<Rightarrow> do {
            let epoch = of_be (take 4 nonce);
            let seq = of_be (drop 4 nonce);
            let (ok, s) = precheck_replay epoch seq dir now s;
            if \<not> ok then Some (Inl ReplayRejected, s)
            else do {
              (c, s) \<leftarrow> get_or_create_encryptor hmac epoch dir (session_generation s) False s;
              r \<leftarrow> decrypt api c p;
              case r of
                Inl e \<Rightarrow>
                  let count = decrypt_fail_count s + 1;
                      s = s\<lparr>decrypt_fail_count := count\<rparr>;
                      s = (if count \<ge> DECRYPT_FAIL_THRESHOLD then invalidate s else s)
                  in Some (Inl (CipherError e), s)
              | Inr q \<Rightarrow>
                  let s = s\<lparr>decrypt_fail_count := 0\<rparr>;
                      (ok, s) = commit_replay epoch seq dir now s
                  in Some (if \<not> ok then Inl ReplayRejected else Inr q, s) } } })"

section \<open>Sequence numbers and nonces\<close>

text \<open>A run of sends: the direction and the nonce of each.\<close>

fun send_run :: "(u64 \<times> SecureDatagramDirection) list \<Rightarrow> session \<Rightarrow> (SecureDatagramDirection \<times> bytes) list"
where
  "send_run [] s = []"
| "send_run ((now, dir) # es) s =
     (let ((epoch, seq, nonce), s') = next_nonce now dir s in (dir, nonce) # send_run es s')"

lemma send_seq_rotate [simp]: "send_seq (maybe_rotate_epoch now s) = send_seq s"
  by (simp add: maybe_rotate_epoch_def Let_def)

lemma send_run_seq:
  assumes "(d, n) \<in> set (send_run es s)"
  shows "\<exists>k e. k < length es \<and> n = be_bytes 4 (e :: u32) @ be_bytes 8 (send_seq s d + of_nat k)"
  using assms
proof (induction es arbitrary: s)
  case Nil
  then show ?case by simp
next
  case (Cons ev es)
  obtain now dir where ev: "ev = (now, dir)" by (cases ev)
  define s1 where "s1 = maybe_rotate_epoch now s"
  define s2 where "s2 = s1\<lparr>send_seq := (send_seq s1)(dir := send_seq s1 dir + 1)\<rparr>"
  have run: "send_run (ev # es) s =
      (dir, be_bytes 4 (send_epoch s1) @ be_bytes 8 (send_seq s dir)) # send_run es s2"
    by (simp add: ev next_nonce_def Let_def s1_def s2_def)
  have seq: "send_seq s2 x = (if x = dir then send_seq s dir + 1 else send_seq s x)" for x
    by (simp add: s2_def s1_def)
  show ?case
  proof (cases "(d, n) \<in> set (send_run es s2)")
    case True
    then obtain k e where k: "k < length es"
      "n = be_bytes 4 (e :: u32) @ be_bytes 8 (send_seq s2 d + of_nat k)" using Cons.IH by blast
    show ?thesis
    proof (cases "d = dir")
      case True
      then have "send_seq s2 d + of_nat k = send_seq s d + of_nat (Suc k)" using seq by simp
      then show ?thesis using k by (intro exI [of _ "Suc k"] exI [of _ e]) (simp add: add.assoc)
    next
      case False
      then show ?thesis using k seq by (intro exI [of _ k]) auto
    qed
  next
    case False
    then have "d = dir" "n = be_bytes 4 (send_epoch s1) @ be_bytes 8 (send_seq s dir)"
      using Cons.prems run by auto
    then show ?thesis by (intro exI [of _ 0] exI [of _ "send_epoch s1"]) simp
  qed
qed

lemma nonce_seq_eq:
  "be_bytes 4 (e :: u32) @ be_bytes 8 (a :: u64) = be_bytes 4 (e' :: u32) @ be_bytes 8 b \<longleftrightarrow>
     e = e' \<and> a = b"
  by (simp add: be_bytes_inj)

text \<open>
  C14. A session never sends two packets with the same nonce in the same direction (hence under the
  same traffic key), however time passes and whenever the epoch rotates, for up to \<open>2 ^ 64\<close>
  packets between two synchronisations of the root key.
\<close>

theorem nonces_unique:
  assumes "length es \<le> 2 ^ 64"
  shows "distinct (send_run es s)"
  using assms
proof (induction es arbitrary: s)
  case Nil
  then show ?case by simp
next
  case (Cons ev es)
  obtain now dir where ev: "ev = (now, dir)" by (cases ev)
  define s1 where "s1 = maybe_rotate_epoch now s"
  define s2 where "s2 = s1\<lparr>send_seq := (send_seq s1)(dir := send_seq s1 dir + 1)\<rparr>"
  let ?n = "be_bytes 4 (send_epoch s1) @ be_bytes 8 (send_seq s dir)"
  have run: "send_run (ev # es) s = (dir, ?n) # send_run es s2"
    by (simp add: ev next_nonce_def Let_def s1_def s2_def)
  have "(dir, ?n) \<notin> set (send_run es s2)"
  proof
    assume "(dir, ?n) \<in> set (send_run es s2)"
    then obtain k and e :: u32 where k: "k < length es"
      "?n = be_bytes 4 e @ be_bytes 8 (send_seq s2 dir + of_nat k)"
      using send_run_seq by blast
    then have "send_seq s dir = send_seq s dir + 1 + of_nat k"
      unfolding nonce_seq_eq by (simp add: s2_def s1_def)
    then have "(of_nat (Suc k) :: u64) = 0" by (simp add: add.assoc)
    then have "unat (of_nat (Suc k) :: u64) = 0" by (simp only: unat_eq_0 [symmetric])
    then have "Suc k mod 2 ^ 64 = 0"
      using unat_of_nat [where 'a = 64, of "Suc k"] by (simp add: take_bit_eq_mod)
    moreover have "Suc k < 2 ^ 64" using k(1) Cons.prems by simp
    ultimately show False by (simp only: mod_less)
  qed
  then show ?case using run Cons by simp
qed

theorem nonces_unique_witness:
  "length [(5, AToB), (700000, BToA), (700001, AToB)] \<le> (2 :: nat) ^ 64 \<and>
   distinct (send_run [(5, AToB), (700000, BToA), (700001, AToB)]
     (session_new 0 [] 1 7 ''aes-gcm'' ''aes-gcm''))"
  using nonces_unique [of "[(5, AToB), (700000, BToA), (700001, AToB)]"
      "session_new 0 [] 1 7 ''aes-gcm'' ''aes-gcm''"] by simp

text \<open>
  The epoch that a key synchronisation starts from is newer than the sending epoch and every
  epoch still accepted, unless one of them is the last of the 32-bit range: packets sent after a
  synchronisation with an unchanged root key cannot reuse a nonce sent before it.
\<close>

theorem next_sync_epoch_fresh:
  assumes "send_epoch s < - 1" and "\<And>dir. rx_valid (fst (rx s dir)) \<Longrightarrow> rx_epoch (fst (rx s dir)) < - 1"
    and "\<And>dir. rx_valid (snd (rx s dir)) \<Longrightarrow> rx_epoch (snd (rx s dir)) < - 1"
  shows "send_epoch s < next_sync_epoch s \<and>
    (rx_valid (fst (rx s dir)) \<longrightarrow> rx_epoch (fst (rx s dir)) < next_sync_epoch s) \<and>
    (rx_valid (snd (rx s dir)) \<longrightarrow> rx_epoch (snd (rx s dir)) < next_sync_epoch s)"
proof -
  define m where "m = fold (\<lambda>dir m.
         let cur = fst (rx s dir);
             m = (if rx_valid cur then max m (rx_epoch cur) else m);
             prev = snd (rx s dir)
         in if rx_valid prev then max m (rx_epoch prev) else m)
       [AToB, BToA] (send_epoch s)"
  have lt: "m < - 1" using assms(1) assms(2,3) [of AToB] assms(2,3) [of BToA]
    by (auto simp: m_def Let_def)
  have ge: "send_epoch s \<le> m" "rx_valid (fst (rx s d)) \<Longrightarrow> rx_epoch (fst (rx s d)) \<le> m"
    "rx_valid (snd (rx s d)) \<Longrightarrow> rx_epoch (snd (rx s d)) \<le> m" for d
    by (cases d; auto simp: m_def Let_def le_max_iff_disj)+
  have "unat m < unat (- 1 :: u32)" using lt by (simp add: word_less_nat_alt)
  then have "unat m + 1 < 2 ^ 32" by (simp add: unsigned_minus_1_eq_mask mask_eq_exp_minus_1)
  then have "m < m + 1" by (simp add: word_less_nat_alt unat_word_ariths)
  then show ?thesis using ge unfolding next_sync_epoch_def m_def [symmetric]
    by (meson le_less_trans)
qed

theorem next_sync_epoch_fresh_witness:
  "let s = session_new 0 [] 1 7 ''xor'' ''xor'' in
    send_epoch s < next_sync_epoch s \<and>
    (rx_valid (fst (rx s AToB)) \<longrightarrow> rx_epoch (fst (rx s AToB)) < next_sync_epoch s) \<and>
    (rx_valid (snd (rx s AToB)) \<longrightarrow> rx_epoch (snd (rx s AToB)) < next_sync_epoch s)"
  using next_sync_epoch_fresh [of "session_new 0 [] 1 7 ''xor'' ''xor''" AToB]
  by (simp add: session_new_def rx_slot_default_def Let_def)

section \<open>Precheck and commit agree\<close>

lemma evict_slot_idem [simp]: "evict_slot now (evict_slot now x) = evict_slot now x"
  by (simp add: evict_slot_def rx_slot_clear_def)

lemma evict_old_idem [simp]:
  "evict_old_rx_slots now (evict_old_rx_slots now r) = evict_old_rx_slots now r"
  by (simp add: evict_old_rx_slots_def)

lemma enter_replay_idem: "enter_replay now (snd (enter_replay now s)) = enter_replay now s"
proof (cases "sync_rx_grace_expires_at_ms s = 0 \<or> \<not> now < sync_rx_grace_expires_at_ms s")
  case True
  then show ?thesis by (auto simp: enter_replay_def sync_rx_grace_active_def Let_def)
next
  case False
  then show ?thesis
    by (cases "grace_valid (maybe_expire now (sync_rx_grace s))")
      (auto simp: enter_replay_def sync_rx_grace_active_def Let_def maybe_expire_def grace_clear_def
        split: if_splits)
qed

lemma accept_default [simp]: "snd (accept seq window_default)"
  by (simp add: accept_def window_default_def)

text \<open>The verdicts of the two, on the session that the common first part leaves.\<close>

definition replay_verdict ::
  "u32 \<Rightarrow> u64 \<Rightarrow> SecureDatagramDirection \<Rightarrow> bool \<Rightarrow> session \<Rightarrow> bool" where
  "replay_verdict epoch seq dir grace s =
     (let (g0, g1) = grace_slots (sync_rx_grace s) dir; (cur, prev) = rx s dir
      in if grace \<and> epoch_in_slots (g0, g1) epoch
         then (if rx_valid g0 \<and> rx_epoch g0 = epoch then can_accept seq (rx_window g0)
               else can_accept seq (rx_window g1))
         else if \<not> rx_valid cur then True
         else if epoch = rx_epoch cur then can_accept seq (rx_window cur)
         else if rx_valid prev \<and> epoch = rx_epoch prev then can_accept seq (rx_window prev)
         else if epoch > rx_epoch cur then \<not> epoch > max_allowed_epoch (send_epoch s) cur prev
         else False)"

lemma precheck_replay_eq:
  "precheck_replay epoch seq dir now s =
     (replay_verdict epoch seq dir (fst (enter_replay now s)) (snd (enter_replay now s)),
      snd (enter_replay now s))"
  by (simp add: precheck_replay_def replay_verdict_def split_def Let_def)

lemma slot_accept_verdict: "snd (slot_accept now seq slot) = can_accept seq (rx_window slot)"
  by (simp add: slot_accept_def can_accept_iff_accept split_def Let_def)

lemma commit_slots_verdict:
  "snd (commit_slots epoch seq now se slots) =
     (let (cur, prev) = slots
      in if \<not> rx_valid cur then True
         else if epoch = rx_epoch cur then can_accept seq (rx_window cur)
         else if rx_valid prev \<and> epoch = rx_epoch prev then can_accept seq (rx_window prev)
         else if epoch > rx_epoch cur then \<not> epoch > max_allowed_epoch se cur prev
         else False)"
  by (cases slots)
    (auto simp: commit_slots_def Let_def slot_accept_verdict split_def fresh_slot_def
      can_accept_iff_accept)

lemma commit_replay_verdict:
  "fst (commit_replay epoch seq dir now s) =
     replay_verdict epoch seq dir (fst (enter_replay now s)) (snd (enter_replay now s))"
  by (auto simp: commit_replay_def replay_verdict_def split_def Let_def slot_accept_verdict
      commit_slots_verdict)

text \<open>Only the receive slots, the grace slots and the sending epoch matter to the verdict.\<close>

definition same_replay_state :: "session \<Rightarrow> session \<Rightarrow> bool" where
  "same_replay_state s t \<longleftrightarrow> rx s = rx t \<and> sync_rx_grace s = sync_rx_grace t \<and>
     sync_rx_grace_expires_at_ms s = sync_rx_grace_expires_at_ms t \<and> send_epoch s = send_epoch t"

lemma enter_replay_cong:
  assumes "same_replay_state s t"
  shows "fst (enter_replay now s) = fst (enter_replay now t) \<and>
    same_replay_state (snd (enter_replay now s)) (snd (enter_replay now t))"
  using assms
  by (auto simp: same_replay_state_def enter_replay_def sync_rx_grace_active_def Let_def)

lemma replay_verdict_cong:
  "same_replay_state s t \<Longrightarrow> replay_verdict e q d g s = replay_verdict e q d g t"
  by (simp add: same_replay_state_def replay_verdict_def)

lemma commit_after_precheck:
  assumes "precheck_replay epoch seq dir now s = (ok, s')" and "same_replay_state s' t"
  shows "fst (commit_replay epoch seq dir now t) = ok"
proof -
  have s': "s' = snd (enter_replay now s)"
    and ok: "ok = replay_verdict epoch seq dir (fst (enter_replay now s)) s'"
    using assms(1) by (auto simp: precheck_replay_eq)
  have "enter_replay now s' = enter_replay now s" using s' enter_replay_idem by simp
  then have "fst (enter_replay now t) = fst (enter_replay now s)"
    "same_replay_state s' (snd (enter_replay now t))"
    using enter_replay_cong [OF assms(2), of now] s' by simp_all
  then show ?thesis using ok replay_verdict_cong by (simp add: commit_replay_verdict)
qed

lemma check_commit_precheck:
  "fst (check_replay epoch seq dir now s) = fst (precheck_replay epoch seq dir now s) \<and>
   fst (commit_replay epoch seq dir now s) = fst (precheck_replay epoch seq dir now s)"
proof -
  obtain ok s' where pre: "precheck_replay epoch seq dir now s = (ok, s')" by fastforce
  have "fst (commit_replay epoch seq dir now s') = ok"
    by (rule commit_after_precheck [OF pre]) (simp add: same_replay_state_def)
  moreover have "fst (commit_replay epoch seq dir now s) = ok"
    using pre by (auto simp: commit_replay_verdict precheck_replay_eq)
  ultimately show ?thesis by (simp add: check_replay_def pre)
qed

text \<open>
  C16. The check before decryption and the commit after it give the same verdict: a packet that
  passed \<open>precheck_replay\<close> is never refused by \<open>commit_replay\<close> at the same time, and vice versa.
\<close>

theorem check_replay_verdict:
  "fst (check_replay epoch seq dir now s) = fst (precheck_replay epoch seq dir now s) \<and>
   fst (commit_replay epoch seq dir now s) = fst (precheck_replay epoch seq dir now s)"
  by (rule check_commit_precheck)

section \<open>The session as a replay filter\<close>

text \<open>
  What the two slots of a direction remember of the set \<open>H\<close> of accepted (epoch, sequence) pairs:
  the windows of the current and the previous epoch, and that no accepted epoch is newer than the
  current one.
\<close>

definition slots_rel :: "EpochRxSlot \<times> EpochRxSlot \<Rightarrow> (u32 \<times> u64) set \<Rightarrow> bool" where
  "slots_rel slots H \<longleftrightarrow>
     (let (cur, prev) = slots
      in if rx_valid cur
         then window_rel (rx_window cur) {q. (rx_epoch cur, q) \<in> H} \<and>
              (\<forall>e q. (e, q) \<in> H \<longrightarrow> e \<le> rx_epoch cur) \<and>
              (rx_valid prev \<longrightarrow> rx_epoch prev < rx_epoch cur \<and>
                 window_rel (rx_window prev) {q. (rx_epoch prev, q) \<in> H})
         else H = {} \<and> \<not> rx_valid prev)"

lemma insert_pair_same: "{x. (e, x) \<in> insert (e, q) H} = insert q {x. (e, x) \<in> H}"
  by auto

lemma insert_pair_other: "e' \<noteq> e \<Longrightarrow> {x. (e', x) \<in> insert (e, q) H} = {x. (e', x) \<in> H}"
  by auto

lemma slot_accept_fst:
  "rx_epoch (fst (slot_accept now q sl)) = rx_epoch sl"
  "rx_valid (fst (slot_accept now q sl)) = rx_valid sl"
  "rx_window (fst (slot_accept now q sl)) = fst (accept q (rx_window sl))"
  "snd (slot_accept now q sl) = snd (accept q (rx_window sl))"
  by (simp_all add: slot_accept_def Let_def split_def)

text \<open>One slot decides on its own epoch.\<close>

lemma slot_window_step:
  assumes "window_rel (rx_window sl) {x. (rx_epoch sl, x) \<in> H}"
  shows "if snd (slot_accept now q sl)
    then (rx_epoch sl, q) \<notin> H \<and> window_rel (rx_window (fst (slot_accept now q sl)))
           {x. (rx_epoch sl, x) \<in> insert (rx_epoch sl, q) H}
    else window_rel (rx_window (fst (slot_accept now q sl))) {x. (rx_epoch sl, x) \<in> H}"
  using window_rel_accept [OF assms, of q] accept_reject_same [of q "rx_window sl"] assms
  by (simp add: slot_accept_fst insert_pair_same del: insert_iff)

lemma commit_slots_current:
  assumes rel: "slots_rel (cur, prev) H" and v: "rx_valid cur"
  shows "let (sl, ok) = slot_accept now q cur
    in if ok then (rx_epoch cur, q) \<notin> H \<and> slots_rel (sl, prev) (insert (rx_epoch cur, q) H)
       else slots_rel (sl, prev) H"
proof -
  have "window_rel (rx_window cur) {x. (rx_epoch cur, x) \<in> H}"
    using rel v by (simp add: slots_rel_def)
  from slot_window_step [OF this, of now q] rel v show ?thesis
    by (auto simp: slots_rel_def Let_def split_def slot_accept_fst insert_pair_other
        simp del: insert_iff split: if_splits)
qed

lemma commit_slots_previous:
  assumes rel: "slots_rel (cur, prev) H" and v: "rx_valid cur" "rx_valid prev"
  shows "let (sl, ok) = slot_accept now q prev
    in if ok then (rx_epoch prev, q) \<notin> H \<and> slots_rel (cur, sl) (insert (rx_epoch prev, q) H)
       else slots_rel (cur, sl) H"
proof -
  have w: "window_rel (rx_window prev) {x. (rx_epoch prev, x) \<in> H}" "rx_epoch prev < rx_epoch cur"
    using rel v by (simp_all add: slots_rel_def)
  from slot_window_step [OF w(1), of now q] rel v w(2) show ?thesis
    by (auto simp: slots_rel_def Let_def split_def slot_accept_fst insert_pair_other
        simp del: insert_iff split: if_splits)
qed

lemma commit_slots_advance:
  assumes rel: "slots_rel (cur, prev) H" and e: "rx_valid cur \<Longrightarrow> e > rx_epoch cur"
  shows "(e, q) \<notin> H \<and> slots_rel ((fresh_slot e now)\<lparr>rx_window := fst (accept q window_default)\<rparr>, cur)
    (insert (e, q) H)"
proof -
  have no: "(e, x) \<notin> H" for x
  proof (cases "rx_valid cur")
    case True
    then have "\<forall>e' x. (e', x) \<in> H \<longrightarrow> e' \<le> rx_epoch cur" using rel by (simp add: slots_rel_def)
    then show ?thesis using e [OF True] by (meson not_less)
  next
    case False
    then show ?thesis using rel by (simp add: slots_rel_def)
  qed
  have "window_rel (fst (accept q window_default)) {q}"
    using window_rel_accept [OF window_rel_default, of q] by simp
  then have w: "window_rel (fst (accept q window_default)) {x. (e, x) \<in> insert (e, q) H}"
    using no by (simp add: insert_pair_same del: insert_iff)
  have le: "\<forall>e' x. (e', x) \<in> insert (e, q) H \<longrightarrow> e' \<le> e"
    using rel e by (cases "rx_valid cur") (fastforce simp: slots_rel_def)+
  have "rx_valid cur \<longrightarrow> rx_epoch cur < e \<and>
      window_rel (rx_window cur) {x. (rx_epoch cur, x) \<in> insert (e, q) H}"
    using rel e by (auto simp: slots_rel_def insert_pair_other simp del: insert_iff)
  then show ?thesis using no w le by (simp add: slots_rel_def fresh_slot_def del: insert_iff)
qed

lemma commit_slots_rel:
  assumes rel: "slots_rel slots H" and c: "commit_slots e q now se slots = (slots', ok)"
  shows "if ok then (e, q) \<notin> H \<and> slots_rel slots' (insert (e, q) H) else slots_rel slots' H"
proof -
  obtain cur prev where sl: "slots = (cur, prev)" by (cases slots)
  show ?thesis
  proof (cases "rx_valid cur")
    case False
    have "slot_accept now q (fresh_slot e now) =
        ((fresh_slot e now)\<lparr>rx_window := fst (accept q window_default)\<rparr>, True)"
      by (simp add: slot_accept_def fresh_slot_def Let_def split_def)
    moreover have "\<not> rx_valid prev" using rel sl False by (simp add: slots_rel_def)
    moreover have "slots_rel (x, prev) G = slots_rel (x, cur) G" for x G
      using False \<open>\<not> rx_valid prev\<close> by (simp add: slots_rel_def)
    ultimately show ?thesis
      using c sl False commit_slots_advance [of cur prev H e q now] rel
      by (auto simp: commit_slots_def fresh_slot_def)
  next
    case v: True
    consider "e = rx_epoch cur" | "e \<noteq> rx_epoch cur" "rx_valid prev" "e = rx_epoch prev"
      | "e \<noteq> rx_epoch cur" "\<not> (rx_valid prev \<and> e = rx_epoch prev)" "e > rx_epoch cur"
      | "e \<noteq> rx_epoch cur" "\<not> (rx_valid prev \<and> e = rx_epoch prev)" "\<not> e > rx_epoch cur" by blast
    then show ?thesis
    proof cases
      case 1
      then show ?thesis using c sl v commit_slots_current [OF rel [unfolded sl] v, of now q]
        by (auto simp: commit_slots_def split_def Let_def)
    next
      case 2
      then show ?thesis using c sl v commit_slots_previous [OF rel [unfolded sl] v, of now q]
        by (auto simp: commit_slots_def split_def Let_def)
    next
      case 3
      then show ?thesis using c sl v rel commit_slots_advance [OF rel [unfolded sl], of e q now]
        by (auto simp: commit_slots_def split_def Let_def fresh_slot_def split: if_splits)
    next
      case 4
      then show ?thesis using c sl v rel by (auto simp: commit_slots_def)
    qed
  qed
qed

text \<open>
  \<open>slot_live now slot\<close>: the slot is not idle for longer than \<open>EVICT_IDLE_AFTER_MS\<close>, so the
  eviction at the start of a check leaves it alone.
\<close>

definition slot_live :: "u64 \<Rightarrow> EpochRxSlot \<Rightarrow> bool" where
  "slot_live now slot \<longleftrightarrow> rx_valid slot \<longrightarrow>
     last_rx_ms slot = 0 \<or> sat_sub now (last_rx_ms slot) \<le> EVICT_IDLE_AFTER_MS"

definition slots_live :: "SecureDatagramDirection \<Rightarrow> u64 \<Rightarrow> session \<Rightarrow> bool" where
  "slots_live dir now s \<longleftrightarrow> slot_live now (fst (rx s dir)) \<and> slot_live now (snd (rx s dir))"

definition session_rel :: "SecureDatagramDirection \<Rightarrow> session \<Rightarrow> (u32 \<times> u64) set \<Rightarrow> bool" where
  "session_rel dir s H \<longleftrightarrow> slots_rel (rx s dir) H \<and> sync_rx_grace_expires_at_ms s = 0"

lemma evict_slot_live: "slot_live now x \<Longrightarrow> evict_slot now x = x"
  by (auto simp: slot_live_def evict_slot_def)

lemma enter_replay_no_grace:
  "sync_rx_grace_expires_at_ms s = 0 \<Longrightarrow>
     enter_replay now s = (False, s\<lparr>rx := evict_old_rx_slots now (rx s)\<rparr>)"
  by (simp add: enter_replay_def sync_rx_grace_active_def)

lemma rx_enter_live:
  "slots_live dir now s \<Longrightarrow> evict_old_rx_slots now (rx s) dir = rx s dir"
  by (simp add: slots_live_def evict_old_rx_slots_def evict_slot_live)

lemma prune_rx [simp]: "rx (prune_key_cache g s) = rx s"
  "sync_rx_grace_expires_at_ms (prune_key_cache g s) = sync_rx_grace_expires_at_ms s"
  by (simp_all add: prune_key_cache_def)

lemma commit_replay_no_grace:
  assumes "sync_rx_grace_expires_at_ms s = 0" and "slots_live dir now s"
    and "commit_slots e q now (send_epoch s) (rx s dir) = (slots', ok)"
  shows "\<exists>s'. commit_replay e q dir now s = (ok, s') \<and> rx s' dir = slots' \<and>
    sync_rx_grace_expires_at_ms s' = 0"
proof -
  obtain g0 g1 where g: "grace_slots (sync_rx_grace s) dir = (g0, g1)" by fastforce
  show ?thesis using assms g
    by (simp add: commit_replay_def enter_replay_no_grace rx_enter_live)
qed

lemma precheck_no_grace:
  assumes "session_rel dir s H" and "slots_live dir now s"
  shows "session_rel dir (snd (precheck_replay e q dir now s)) H \<and>
    rx (snd (precheck_replay e q dir now s)) dir = rx s dir \<and>
    send_epoch (snd (precheck_replay e q dir now s)) = send_epoch s"
  using assms
  by (simp add: precheck_replay_eq session_rel_def enter_replay_no_grace rx_enter_live)

lemma commit_session_rel:
  assumes "session_rel dir s H" and "slots_live dir now s"
    and "commit_replay e q dir now s = (ok, s')"
  shows "if ok then (e, q) \<notin> H \<and> session_rel dir s' (insert (e, q) H) else session_rel dir s' H"
proof -
  obtain slots' ok' where c: "commit_slots e q now (send_epoch s) (rx s dir) = (slots', ok')" by fastforce
  have g: "sync_rx_grace_expires_at_ms s = 0" and sr: "slots_rel (rx s dir) H"
    using assms(1) by (simp_all add: session_rel_def)
  show ?thesis
    using commit_replay_no_grace [OF g assms(2) c] commit_slots_rel [OF sr c] assms(3)
    by (auto simp: session_rel_def)
qed

definition check_step ::
  "SecureDatagramDirection \<Rightarrow> u64 \<Rightarrow> u32 \<times> u64 \<Rightarrow> session \<Rightarrow> session \<times> bool" where
  "check_step dir now eq s = (let (ok, s') = check_replay (fst eq) (snd eq) dir now s in (s', ok))"

interpretation session: replay_filter "check_step dir" "slots_live dir" "session_rel dir" for dir
proof (unfold_locales, goal_cases)
  case (1 s H now eq s')
  obtain e q where eq: "eq = (e, q)" by (cases eq)
  obtain s1 ok where pre: "precheck_replay e q dir now s = (ok, s1)" by fastforce
  have "ok \<and> commit_replay e q dir now s1 = (True, s')"
    using 1(3) pre eq by (auto simp: check_step_def check_replay_def split: if_splits prod.splits)
  moreover have "session_rel dir s1 H" "slots_live dir now s1"
    using precheck_no_grace [OF 1(1,2), of e q] pre 1(2) by (simp_all add: slots_live_def)
  ultimately show ?case using commit_session_rel [of dir s1 H now e q True s'] eq by simp
next
  case (2 s H now eq s')
  obtain e q where eq: "eq = (e, q)" by (cases eq)
  obtain s1 ok where pre: "precheck_replay e q dir now s = (ok, s1)" by fastforce
  have rel: "session_rel dir s1 H" "slots_live dir now s1"
    using precheck_no_grace [OF 2(1,2), of e q] pre 2(2) by (simp_all add: slots_live_def)
  show ?case
  proof (cases ok)
    case True
    then have "commit_replay e q dir now s1 = (False, s')"
      using 2(3) pre eq by (auto simp: check_step_def check_replay_def split: prod.splits)
    then show ?thesis using commit_session_rel [OF rel] by fastforce
  next
    case False
    then show ?thesis using 2(3) pre eq rel by (simp add: check_step_def check_replay_def)
  qed
qed

text \<open>
  C2. As long as no receive slot of the direction is idle for more than 30 seconds and no key
  synchronisation intervenes, a fresh session accepts every pair of epoch and sequence number at
  most once, across epoch changes and in any arrival order.
\<close>

theorem session_accepts_once:
  assumes "admissible_run (slots_live dir) (check_step dir) es (session_new t0 key gen ep sa ra)"
  shows "distinct (snd (filter_run (check_step dir) es (session_new t0 key gen ep sa ra)))"
proof -
  have "session_rel dir (session_new t0 key gen ep sa ra) {}"
    by (simp add: session_rel_def session_new_def slots_rel_def rx_slot_default_def)
  from session.run_no_replay [OF this assms] show ?thesis by blast
qed

theorem session_accepts_once_witness:
  "distinct (snd (filter_run (check_step AToB) [(5, (1, 9)), (6, (1, 9))] (session_new 4 [] 1 1 ''xor'' ''xor'')))"
proof (rule session_accepts_once)
  show "admissible_run (slots_live AToB) (check_step AToB) [(5, (1, 9)), (6, (1, 9))]
      (session_new 4 [] 1 1 ''xor'' ''xor'')"
    by (simp add: check_step_def check_replay_def precheck_replay_eq replay_verdict_def
        enter_replay_no_grace session_new_def slots_live_def slot_live_def rx_slot_default_def
        evict_old_rx_slots_def evict_slot_def commit_replay_def commit_slots_def slot_accept_def
        fresh_slot_def split_def Let_def prune_key_cache_def sat_sub_def EVICT_IDLE_AFTER_MS_def
        grace_default_def)
qed

text \<open>
  After 30 seconds without traffic the eviction forgets what was accepted: a packet accepted at
  \<open>t\<close> in an idle direction passes the replay check again at any \<open>t'\<close> more than 30 seconds later
  (with the same root key its traffic key is derived again from its epoch).
\<close>

theorem replay_after_idle:
  assumes "commit_replay e q dir t s = (True, s1)" and "sync_rx_grace_expires_at_ms s = 0"
    and "\<not> rx_valid (fst (rx s dir))" and "\<not> rx_valid (snd (rx s dir))"
    and "t \<noteq> 0" and "sat_sub t' t > EVICT_IDLE_AFTER_MS"
  shows "fst (check_replay e q dir t' s1)"
proof -
  have live: "slots_live dir t s" using assms(3,4) by (simp add: slots_live_def slot_live_def)
  let ?cur = "fst (slot_accept t q (fresh_slot e t))"
  have "commit_slots e q t (send_epoch s) (rx s dir) = ((?cur, snd (rx s dir)), True)"
    using assms(3) by (simp add: commit_slots_def split_def slot_accept_def fresh_slot_def Let_def)
  then have s1: "rx s1 dir = (?cur, snd (rx s dir))" "sync_rx_grace_expires_at_ms s1 = 0"
    using commit_replay_no_grace [OF assms(2) live] assms(1) by fastforce+
  have "\<not> rx_valid (evict_slot t' ?cur)"
    using assms(5,6) by (simp add: evict_slot_def slot_accept_def fresh_slot_def Let_def split_def
        rx_slot_clear_def)
  then have "fst (precheck_replay e q dir t' s1)"
    using s1 by (simp add: precheck_replay_eq replay_verdict_def enter_replay_no_grace
        evict_old_rx_slots_def split_def)
  then show ?thesis by (simp add: check_commit_precheck)
qed

theorem replay_after_idle_witness:
  "let s = session_new 4 [] 1 1 ''xor'' ''xor'';
       s1 = snd (commit_replay 1 9 AToB 5 s)
   in commit_replay 1 9 AToB 5 s = (True, s1) \<and> fst (check_replay 1 9 AToB 30006 s1)"
proof -
  let ?s = "session_new 4 [] 1 1 ''xor'' ''xor''"
  let ?s1 = "snd (commit_replay 1 9 AToB 5 ?s)"
  have "fst (commit_replay 1 9 AToB 5 ?s)"
    by (simp add: commit_replay_verdict replay_verdict_def enter_replay_no_grace session_new_def
        evict_old_rx_slots_def evict_slot_def rx_slot_default_def grace_default_def)
  then have c: "commit_replay 1 9 AToB 5 ?s = (True, ?s1)" by (metis prod.collapse)
  have "fst (check_replay 1 9 AToB 30006 ?s1)"
    by (rule replay_after_idle [OF c])
      (simp_all add: session_new_def rx_slot_default_def sat_sub_def EVICT_IDLE_AFTER_MS_def)
  then show ?thesis using c unfolding Let_def by blast
qed

text \<open>
  Whatever is accepted in an epoch that is not yet known lies at most three epochs ahead of
  the newest of the sending and receiving epochs, so that a forged tail cannot move the receiver
  arbitrarily far; older unknown epochs are refused.
\<close>

theorem accepted_epoch_bounded:
  assumes "sync_rx_grace_expires_at_ms s = 0" and "slots_live dir now s"
    and "rx s dir = (cur, prev)" and "rx_valid cur"
    and "fst (precheck_replay e q dir now s)"
  shows "e = rx_epoch cur \<or> rx_valid prev \<and> e = rx_epoch prev \<or>
    rx_epoch cur < e \<and> unat e \<le> Max {unat (send_epoch s), unat (rx_epoch cur),
      if rx_valid prev then unat (rx_epoch prev) else 0} + 3"
proof -
  have v: "replay_verdict e q dir False (s\<lparr>rx := evict_old_rx_slots now (rx s)\<rparr>)"
    using assms(1,5) by (simp add: precheck_replay_eq enter_replay_no_grace)
  have *: "e = rx_epoch cur \<or> rx_valid prev \<and> e = rx_epoch prev \<or>
      rx_epoch cur < e \<and> e \<le> max_allowed_epoch (send_epoch s) cur prev"
    using v assms(3,4) rx_enter_live [OF assms(2)]
    by (auto simp: replay_verdict_def split_def split: if_splits)
  have "unat (max a b) = max (unat a) (unat b)" for a b :: u32
    by (simp add: max_def word_le_nat_alt)
  then have "unat (max_allowed_epoch (send_epoch s) cur prev) \<le>
      Max {unat (send_epoch s), unat (rx_epoch cur),
        if rx_valid prev then unat (rx_epoch prev) else 0} + 3"
    using assms(4)
    by (simp add: max_allowed_epoch_def Let_def sat_simps MAX_ACCEPTED_RX_EPOCH_AHEAD_def max.assoc
        min.coboundedI1)
  then show ?thesis using * by (meson le_trans word_le_nat_alt)
qed

theorem accepted_epoch_bounded_witness:
  "let s = (session_new 4 [] 1 1 ''xor'' ''xor'')\<lparr>rx := (\<lambda>_. (fresh_slot 2 4, rx_slot_default))\<rparr>
   in fst (precheck_replay 5 0 AToB 6 s) \<and>
     (5 = rx_epoch (fresh_slot 2 4) \<or> rx_valid rx_slot_default \<and> 5 = rx_epoch rx_slot_default \<or>
      rx_epoch (fresh_slot 2 4) < 5 \<and> unat (5 :: u32) \<le> Max {unat (send_epoch s),
        unat (rx_epoch (fresh_slot 2 4)),
        if rx_valid rx_slot_default then unat (rx_epoch rx_slot_default) else 0} + 3)"
proof -
  let ?s = "(session_new 4 [] 1 1 ''xor'' ''xor'')\<lparr>rx := (\<lambda>_. (fresh_slot 2 4, rx_slot_default))\<rparr>"
  have live: "slots_live AToB 6 ?s"
    by (simp add: slots_live_def slot_live_def fresh_slot_def rx_slot_default_def sat_sub_def
        EVICT_IDLE_AFTER_MS_def)
  have pre: "fst (precheck_replay 5 0 AToB 6 ?s)"
    by (simp add: precheck_replay_eq enter_replay_no_grace replay_verdict_def session_new_def
        evict_old_rx_slots_def evict_slot_def fresh_slot_def rx_slot_default_def grace_default_def
        sat_sub_def EVICT_IDLE_AFTER_MS_def max_allowed_epoch_def sat_add_def
        MAX_ACCEPTED_RX_EPOCH_AHEAD_def)
  have "sync_rx_grace_expires_at_ms ?s = 0" by (simp add: session_new_def)
  from accepted_epoch_bounded [OF this live _ _ pre, of "fresh_slot 2 4" rx_slot_default] pre
  show ?thesis by (simp add: fresh_slot_def)
qed

section \<open>The key cache\<close>

text \<open>The cipher of a traffic key: derived from root key, epoch and direction alone.\<close>

definition traffic_cipher ::
  "(bytes \<Rightarrow> bytes \<Rightarrow> bytes) \<Rightarrow> bytes \<Rightarrow> string \<Rightarrow> u32 \<Rightarrow> SecureDatagramDirection \<Rightarrow> cipher option" where
  "traffic_cipher hmac root alg epoch dir =
     (let key = hkdf_traffic_key hmac root epoch dir in create_encryptor alg (take 16 key) key)"

definition key_slot_ok ::
  "(bytes \<Rightarrow> bytes \<Rightarrow> bytes) \<Rightarrow> session \<Rightarrow> SecureDatagramDirection \<Rightarrow> EpochKeySlot \<Rightarrow> bool" where
  "key_slot_ok hmac s dir slot \<longleftrightarrow> key_valid slot \<longrightarrow>
     send_cipher slot = traffic_cipher hmac (root_key s) (send_cipher_algorithm s) (key_epoch slot) dir \<and>
     recv_cipher slot = traffic_cipher hmac (root_key s) (recv_cipher_algorithm s) (key_epoch slot) dir"

definition key_cache_ok :: "(bytes \<Rightarrow> bytes \<Rightarrow> bytes) \<Rightarrow> session \<Rightarrow> bool" where
  "key_cache_ok hmac s \<longleftrightarrow>
     (\<forall>dir. key_slot_ok hmac s dir (fst (key_cache s dir)) \<and>
            key_slot_ok hmac s dir (snd (key_cache s dir)))"

text \<open>HMAC-SHA256 has 32 bytes of output.\<close>

definition hmac_ok :: "(bytes \<Rightarrow> bytes \<Rightarrow> bytes) \<Rightarrow> bool" where
  "hmac_ok hmac \<longleftrightarrow> (\<forall>k m. length (hmac k m) = 32)"

lemma traffic_cipher_total:
  assumes "hmac_ok hmac"
  obtains c where "traffic_cipher hmac root alg epoch dir = Some c"
proof -
  have "take 16 (hkdf_traffic_key hmac root epoch dir) \<noteq> []"
    using assms by (auto simp: hkdf_traffic_key_def hmac_ok_def Let_def simp flip: length_0_conv)
  then show ?thesis using that create_encryptor_total unfolding traffic_cipher_def Let_def by metis
qed

lemma key_cache_ok_new: "key_cache_ok hmac (session_new now key gen ep sa ra)"
  by (simp add: key_cache_ok_def key_slot_ok_def session_new_def key_slot_default_def)

lemma key_cache_ok_sync: "key_cache_ok hmac (sync_root_key now now' key gen ep b s)"
  by (simp add: key_cache_ok_def key_slot_ok_def sync_root_key_def Let_def key_slot_default_def)

text \<open>Looking a key up gives the traffic cipher and only touches the cache, which stays sound.\<close>

lemma get_or_create_encryptor_spec:
  assumes ok: "key_cache_ok hmac s" and h: "hmac_ok hmac"
  shows "\<exists>c kc. get_or_create_encryptor hmac epoch dir gen is_send s = Some (c, s\<lparr>key_cache := kc\<rparr>) \<and>
    traffic_cipher hmac (root_key s) (if is_send then send_cipher_algorithm s
      else recv_cipher_algorithm s) epoch dir = Some c \<and> key_cache_ok hmac (s\<lparr>key_cache := kc\<rparr>)"
proof -
  obtain s0 s1 where kc: "key_cache s dir = (s0, s1)" by fastforce
  have ok0: "key_slot_ok hmac s dir s0" "key_slot_ok hmac s dir s1"
    using ok kc by (auto simp: key_cache_ok_def dest: spec [of _ dir])
  let ?key = "hkdf_traffic_key hmac (root_key s) epoch dir"
  obtain sc where sc: "traffic_cipher hmac (root_key s) (send_cipher_algorithm s) epoch dir = Some sc"
    by (rule traffic_cipher_total [OF h])
  obtain rc where rc: "traffic_cipher hmac (root_key s) (recv_cipher_algorithm s) epoch dir = Some rc"
    by (rule traffic_cipher_total [OF h])
  have keep: "s\<lparr>key_cache := key_cache s\<rparr> = s" by simp
  consider "key_slot_match epoch gen s0" | "\<not> key_slot_match epoch gen s0" "key_slot_match epoch gen s1"
    | "\<not> key_slot_match epoch gen s0" "\<not> key_slot_match epoch gen s1" by blast
  then show ?thesis
  proof cases
    case 1
    then show ?thesis using kc ok ok0(1) sc rc keep
      by (intro exI [of _ "if is_send then sc else rc"] exI [of _ "key_cache s"])
        (auto simp: get_or_create_encryptor_def key_slot_match_def key_slot_ok_def get_encryptor_def)
  next
    case 2
    then show ?thesis using kc ok ok0(2) sc rc keep
      by (intro exI [of _ "if is_send then sc else rc"] exI [of _ "key_cache s"])
        (auto simp: get_or_create_encryptor_def key_slot_match_def key_slot_ok_def get_encryptor_def)
  next
    case 3
    let ?slot = "\<lparr>key_epoch = epoch, key_generation = gen, key_valid = True,
          send_cipher = Some sc, recv_cipher = Some rc\<rparr>"
    let ?kc = "(key_cache s)(dir := if \<not> key_valid s0 \<or> key_epoch s0 = epoch then (?slot, s1)
          else (s0, ?slot))"
    have len: "length ?key = 32" using h by (simp add: hkdf_traffic_key_def hmac_ok_def Let_def)
    have "get_or_create_encryptor hmac epoch dir gen is_send s =
        Some (if is_send then sc else rc, s\<lparr>key_cache := ?kc\<rparr>)"
      using 3 kc sc rc len
      by (simp add: get_or_create_encryptor_def traffic_cipher_def index_range_def get_encryptor_def
          Let_def)
    moreover have "key_cache_ok hmac (s\<lparr>key_cache := ?kc\<rparr>)"
      using ok ok0 sc rc by (auto simp: key_cache_ok_def key_slot_ok_def)
    ultimately show ?thesis using sc rc by auto
  qed
qed

lemma key_cache_ok_prune: "key_cache_ok hmac s \<Longrightarrow> key_cache_ok hmac (prune_key_cache g s)"
  by (auto simp: key_cache_ok_def key_slot_ok_def prune_key_cache_def prune_slot_def Let_def)

lemma key_cache_ok_cong:
  "key_cache t = key_cache s \<Longrightarrow> root_key t = root_key s \<Longrightarrow>
   send_cipher_algorithm t = send_cipher_algorithm s \<Longrightarrow>
   recv_cipher_algorithm t = recv_cipher_algorithm s \<Longrightarrow> key_cache_ok hmac t = key_cache_ok hmac s"
  by (simp add: key_cache_ok_def key_slot_ok_def)

lemma key_cache_ok_other [simp]:
  "key_cache_ok hmac (s\<lparr>decrypt_fail_count := n\<rparr>) = key_cache_ok hmac s"
  "key_cache_ok hmac (s\<lparr>invalidated := b\<rparr>) = key_cache_ok hmac s"
  "key_cache_ok hmac (invalidate s) = key_cache_ok hmac s"
  by (simp_all add: key_cache_ok_def key_slot_ok_def invalidate_def)

lemma enter_replay_keys:
  "key_cache (snd (enter_replay now s)) = key_cache s"
  "root_key (snd (enter_replay now s)) = root_key s"
  "send_cipher_algorithm (snd (enter_replay now s)) = send_cipher_algorithm s"
  "recv_cipher_algorithm (snd (enter_replay now s)) = recv_cipher_algorithm s"
  "session_generation (snd (enter_replay now s)) = session_generation s"
  "invalidated (snd (enter_replay now s)) = invalidated s"
  "decrypt_fail_count (snd (enter_replay now s)) = decrypt_fail_count s"
  by (simp_all add: enter_replay_def sync_rx_grace_active_def Let_def)

lemma key_cache_ok_commit:
  assumes "key_cache_ok hmac s"
  shows "key_cache_ok hmac (snd (commit_replay e q dir now s))"
proof -
  have "key_cache_ok hmac (snd (enter_replay now s))"
    using assms by (simp add: key_cache_ok_cong [OF enter_replay_keys(1-4)])
  then show ?thesis
    by (auto simp: commit_replay_def split_def Let_def intro!: key_cache_ok_prune
        elim!: key_cache_ok_cong [THEN iffD2, rotated -1])
qed

section \<open>The handlers\<close>

lemma traffic_cipher_ring:
  assumes "traffic_cipher hmac root alg epoch dir = Some c"
    and "EncryptionAlgorithm_try_from alg \<noteq> Some EA_Xor"
  shows "\<exists>r. c = RingCipher r"
  using assms
  by (cases "EncryptionAlgorithm_try_from alg"; cases "the (EncryptionAlgorithm_try_from alg)")
    (auto simp: traffic_cipher_def create_encryptor_def EncryptionAlgorithm_default_def Let_def)

lemma traffic_cipher_cases:
  assumes "traffic_cipher hmac root alg epoch dir = Some c"
  shows "(\<exists>r. c = RingCipher r) \<or> (\<exists>k. c = XorCipher k)"
proof (cases "EncryptionAlgorithm_try_from alg = Some EA_Xor")
  case True
  then show ?thesis using assms by (auto simp: traffic_cipher_def create_encryptor_def Let_def)
next
  case False
  then show ?thesis using traffic_cipher_ring [OF assms] by blast
qed

lemma parse_tail_append:
  "length tag = 16 \<Longrightarrow> length nonce = 12 \<Longrightarrow> parse_tail (ct @ tag @ nonce) = Some nonce"
  by (simp add: parse_tail_def aead_tail_ref_from_suffix_def AEAD_TAIL_SIZE_def Let_def)

text \<open>The receiver's view of a decryption: what the handler does once the cipher has answered.\<close>

lemma decrypt_payload_Inr:
  assumes "is_valid r" and "payload q = Some pl" and "parse_tail pl = Some nonce"
    and "fst (precheck_replay (of_be (take 4 nonce)) (of_be (drop 4 nonce)) dir now r)"
    and "key_cache_ok hmac r" and "hmac_ok hmac"
    and "traffic_cipher hmac (root_key r) (recv_cipher_algorithm r) (of_be (take 4 nonce)) dir = Some c"
    and "decrypt api c q = Some (Inr p)"
  shows "\<exists>r'. decrypt_payload hmac api now dir q r = Some (Inr p, r') \<and> is_valid r' \<and>
    decrypt_fail_count r' = 0 \<and> key_cache_ok hmac r' \<and>
    (\<exists>r1. same_replay_state (snd (enter_replay now r)) r1 \<and>
       commit_replay (of_be (take 4 nonce)) (of_be (drop 4 nonce)) dir now r1 = (True, r'))"
proof -
  let ?e = "of_be (take 4 nonce)" and ?n = "of_be (drop 4 nonce)"
  define r1 where "r1 = snd (enter_replay now r)"
  have pre: "precheck_replay ?e ?n dir now r = (True, r1)"
    using assms(4) by (simp add: precheck_replay_eq r1_def)
  have ok1: "key_cache_ok hmac r1"
    using assms(5) by (simp add: r1_def key_cache_ok_cong [OF enter_replay_keys(1-4)])
  obtain kc where kc: "get_or_create_encryptor hmac ?e dir (session_generation r1) False r1 =
      Some (c, r1\<lparr>key_cache := kc\<rparr>)" "key_cache_ok hmac (r1\<lparr>key_cache := kc\<rparr>)"
    using get_or_create_encryptor_spec [OF ok1 assms(6), of ?e dir "session_generation r1" False] assms(7)
    by (auto simp: r1_def enter_replay_keys)
  define r2 where "r2 = r1\<lparr>key_cache := kc, decrypt_fail_count := 0\<rparr>"
  have same: "same_replay_state r1 r2" by (simp add: same_replay_state_def r2_def)
  obtain r' where c: "commit_replay ?e ?n dir now r2 = (True, r')"
    using commit_after_precheck [OF pre same] by (metis prod.collapse)
  have "key_cache_ok hmac r2" using kc(2) by (simp add: r2_def key_cache_ok_def key_slot_ok_def)
  then have "key_cache_ok hmac r'" using key_cache_ok_commit [of hmac r2 ?e ?n dir now] c by simp
  moreover have "decrypt_payload hmac api now dir q r = Some (Inr p, r')"
    using assms(1-3,8) pre kc(1) c by (simp add: decrypt_payload_def r2_def)
  moreover have "invalidated r' = invalidated r2 \<and> decrypt_fail_count r' = 0"
  proof -
    have "invalidated (snd (commit_replay ?e ?n dir now r2)) = invalidated r2"
      "decrypt_fail_count (snd (commit_replay ?e ?n dir now r2)) = decrypt_fail_count r2"
      by (auto simp: commit_replay_def split_def Let_def prune_key_cache_def enter_replay_keys)
    then show ?thesis using c by (simp add: r2_def)
  qed
  ultimately show ?thesis using assms(1) same c
    by (auto simp: is_valid_def r2_def r1_def enter_replay_keys)
qed

lemma encrypt_payload_Inr:
  assumes "hmac_ok hmac" and "aead_ok api" and "length rnd = 12" and "key_cache_ok hmac s"
    and "EncryptionAlgorithm_try_from (send_cipher_algorithm s) \<noteq> Some EA_Xor"
    and "peer_manager_header p = Some h" and "\<not> is_encrypted h"
    and "next_nonce now dir s = ((e, n, nonce), s0)"
    and "encrypt_payload hmac api rnd now dir p s = Some (Inr q, s')"
  shows "\<exists>c pl. traffic_cipher hmac (root_key s) (send_cipher_algorithm s) e dir = Some c \<and>
    decrypt api c q = Some (Inr p) \<and> payload q = Some pl \<and> parse_tail pl = Some nonce \<and>
    nonce = be_bytes 4 e @ be_bytes 8 n \<and> peer_manager_header q = Some (set_encrypted True h)"
proof -
  have s0: "key_cache s0 = key_cache s" "root_key s0 = root_key s"
    "send_cipher_algorithm s0 = send_cipher_algorithm s"
    "recv_cipher_algorithm s0 = recv_cipher_algorithm s"
    and nonce: "nonce = be_bytes 4 e @ be_bytes 8 n"
    using assms(8) by (auto simp: next_nonce_def maybe_rotate_epoch_def Let_def)
  have "key_cache_ok hmac s0" using assms(4) by (simp add: key_cache_ok_cong [OF s0])
  from get_or_create_encryptor_spec [OF this assms(1), of e dir "session_generation s0" True]
  obtain c kc where c: "get_or_create_encryptor hmac e dir (session_generation s0) True s0 =
      Some (c, s0\<lparr>key_cache := kc\<rparr>)"
    "traffic_cipher hmac (root_key s) (send_cipher_algorithm s) e dir = Some c"
    using s0 by auto
  obtain rg where rg: "c = RingCipher rg" using traffic_cipher_ring [OF c(2) assms(5)] by blast
  have ok: "cipher_ok api rnd c" using rg assms(2,3) by simp
  have enc: "encrypt_with_nonce api rnd c (Some nonce) p = Some (Inr q)"
    using assms(9) c(1) assms(8)
    by (auto simp: encrypt_payload_def split: if_splits bind_splits sum.splits)
  from assms(6) obtain t pre pl where p: "p = pkt t pre h pl" "hdr_room t pre" by (rule pkt_cases)
  have len: "length nonce = 12" using nonce by simp
  obtain ct tag where q: "q = pkt t pre (set_encrypted True h) (ct @ tag @ nonce)"
    "aead_seal api (fst (get_cipher rg)) (snd (get_cipher rg)) nonce pl = Some (ct, tag)"
    using enc ring_encrypt_pkt [OF assms(2) p(2) assms(7), of rnd rg "Some nonce" pl] rg p(1) len
    by (auto split: option.splits)
  have "length tag = 16" using aead_ok_seal [OF assms(2) q(2)] by simp
  then have "parse_tail (ct @ tag @ nonce) = Some nonce" using len by (rule parse_tail_append)
  moreover have "payload q = Some (ct @ tag @ nonce)" "peer_manager_header q = Some (set_encrypted True h)"
    using q(1) p(2) by (simp_all add: pkt_simps)
  ultimately show ?thesis
    using c(2) nonce encryptor.enc_dec [OF ok assms(6,7) enc] by blast
qed

text \<open>
  C10. End to end: two sessions with the same root key, the receiver's algorithm being the sender's
  (any AEAD), decrypt what the other encrypts: a packet that the sender encrypts is delivered
  unchanged by the receiver, if the receiver's replay check admits its nonce, whatever is in the
  two key caches and wherever the epochs stand.
\<close>

theorem secure_channel_roundtrip:
  assumes "hmac_ok hmac" and "aead_ok api" and "length rnd = 12"
    and "key_cache_ok hmac s" and "key_cache_ok hmac r" and "is_valid r"
    and "root_key r = root_key s" and "recv_cipher_algorithm r = send_cipher_algorithm s"
    and "EncryptionAlgorithm_try_from (send_cipher_algorithm s) \<noteq> Some EA_Xor"
    and "peer_manager_header p = Some h" and "\<not> is_encrypted h"
    and "next_nonce now dir s = ((e, n, nonce), s0)"
    and "encrypt_payload hmac api rnd now dir p s = Some (Inr q, s')"
    and "fst (precheck_replay e n dir now' r)"
  shows "\<exists>r'. decrypt_payload hmac api now' dir q r = Some (Inr p, r') \<and> is_valid r' \<and>
    key_cache_ok hmac r' \<and> decrypt_fail_count r' = 0"
proof -
  obtain c pl where c: "traffic_cipher hmac (root_key s) (send_cipher_algorithm s) e dir = Some c"
    "decrypt api c q = Some (Inr p)" "payload q = Some pl" "parse_tail pl = Some nonce"
    "nonce = be_bytes 4 e @ be_bytes 8 n"
    using encrypt_payload_Inr [OF assms(1-4,9-13)] by blast
  have e: "of_be (take 4 nonce) = e" "of_be (drop 4 nonce) = n"
    using c(5) by (simp_all add: of_be_be_bytes)
  show ?thesis
    using decrypt_payload_Inr [OF assms(6) c(3,4) _ assms(5,1) _ c(2), of dir now'] e assms(7,8,14) c(1)
    by auto
qed

text \<open>The concrete parameters of the witnesses: a constant HMAC, a fresh session and a data packet.\<close>

definition demo_hmac :: "bytes \<Rightarrow> bytes \<Rightarrow> bytes" where
  "demo_hmac k m = replicate 32 7"

definition demo_session :: session where
  "demo_session = session_new 0 [9] 1 7 ''aes-gcm'' ''aes-gcm''"

definition demo_header :: PeerManagerHeader where
  "demo_header = \<lparr>from_peer_id = 1, to_peer_id = 2, pm_packet_type = 1, pm_flags = 0,
     forward_counter = 1, pm_reserved = 0, pm_len = 3\<rparr>"

definition demo_packet :: zc_packet where
  "demo_packet = pkt ZT_DummyTunnel [] demo_header [5, 6, 7]"

lemma demo_facts:
  "hmac_ok demo_hmac" "key_cache_ok hmac demo_session" "is_valid demo_session"
  "EncryptionAlgorithm_try_from (send_cipher_algorithm demo_session) = Some EA_AesGcm"
  "recv_cipher_algorithm demo_session = send_cipher_algorithm demo_session"
  "root_key demo_session = [9]"
  "next_nonce 1 AToB demo_session =
     ((7, 0, be_bytes 4 (7 :: u32) @ be_bytes 8 (0 :: u64)), snd (next_nonce 1 AToB demo_session))"
  "fst (precheck_replay e n AToB now demo_session)"
  by (simp_all add: hmac_ok_def demo_hmac_def demo_session_def key_cache_ok_new)
    (simp_all add: session_new_def is_valid_def EncryptionAlgorithm_try_from_def
      ascii_lower_def next_nonce_def maybe_rotate_epoch_def ROTATE_AFTER_PACKETS_def
      ROTATE_AFTER_MS_def sat_sub_def precheck_replay_eq enter_replay_no_grace replay_verdict_def
      evict_old_rx_slots_def evict_slot_def rx_slot_default_def grace_default_def)

lemma demo_header_facts:
  "peer_manager_header demo_packet = Some demo_header" "\<not> is_encrypted demo_header"
  by (simp_all add: demo_packet_def pkt_simps hdr_room_def)
    (simp add: demo_header_def is_encrypted_def flag_contains_def ENCRYPTED_def)

lemma encrypt_payload_total:
  assumes "hmac_ok hmac" and "aead_ok api" and "length rnd = 12" and "key_cache_ok hmac s"
    and "is_valid s" and "\<And>alg key n m. length n = 12 \<Longrightarrow> aead_seal api alg key n m \<noteq> None"
    and "peer_manager_header p = Some h"
  shows "\<exists>q s'. encrypt_payload hmac api rnd now dir p s = Some (Inr q, s')"
proof -
  obtain e n s0 where nn: "next_nonce now dir s = ((e, n, be_bytes 4 e @ be_bytes 8 n), s0)"
    and s0: "key_cache s0 = key_cache s" "root_key s0 = root_key s"
    "send_cipher_algorithm s0 = send_cipher_algorithm s"
    "recv_cipher_algorithm s0 = recv_cipher_algorithm s"
    by (auto simp: next_nonce_def maybe_rotate_epoch_def Let_def split: if_splits)
  have "key_cache_ok hmac s0" using assms(4) by (simp add: key_cache_ok_cong [OF s0])
  from get_or_create_encryptor_spec [OF this assms(1), of e dir "session_generation s0" True]
  obtain c kc where c: "get_or_create_encryptor hmac e dir (session_generation s0) True s0 =
      Some (c, s0\<lparr>key_cache := kc\<rparr>)"
    "traffic_cipher hmac (root_key s0) (send_cipher_algorithm s0) e dir = Some c" by auto
  from assms(7) obtain t pre pl where p: "p = pkt t pre h pl" "hdr_room t pre" by (rule pkt_cases)
  let ?nonce = "be_bytes 4 e @ be_bytes 8 n"
  have "\<exists>q. encrypt_with_nonce api rnd c (Some ?nonce) p = Some (Inr q)"
  proof (cases "\<exists>rg. c = RingCipher rg")
    case True
    then obtain rg where rg: "c = RingCipher rg" by blast
    obtain ct tag where "aead_seal api (fst (get_cipher rg)) (snd (get_cipher rg)) ?nonce pl = Some (ct, tag)"
      using assms(6) [of ?nonce "fst (get_cipher rg)" "snd (get_cipher rg)" pl] by auto
    then show ?thesis using rg p ring.enc_marked [OF assms(7)]
        ring_encrypt_pkt [OF assms(2) p(2), of h rnd rg "Some ?nonce" pl]
      by (cases "is_encrypted h") auto
  next
    case False
    then have "\<exists>k. c = XorCipher k" using traffic_cipher_cases [OF c(2)] by blast
    then show ?thesis using p by (auto simp: xor_encrypt_pkt)
  qed
  then show ?thesis using assms(5) nn c(1) by (auto simp: encrypt_payload_def)
qed

theorem secure_channel_roundtrip_witness:
  "\<exists>q s' r'. encrypt_payload demo_hmac demo_api (replicate 12 0) 1 AToB demo_packet demo_session =
      Some (Inr q, s') \<and>
    decrypt_payload demo_hmac demo_api 2 AToB q demo_session = Some (Inr demo_packet, r') \<and>
    is_valid r' \<and> key_cache_ok demo_hmac r' \<and> decrypt_fail_count r' = 0"
proof -
  have seal: "length n = 12 \<Longrightarrow> aead_seal demo_api alg key n m \<noteq> None" for alg key n m
    by (simp add: demo_api_def)
  obtain q s' where q: "encrypt_payload demo_hmac demo_api (replicate 12 0) 1 AToB demo_packet
      demo_session = Some (Inr q, s')"
    using encrypt_payload_total [OF demo_facts(1) demo_api_ok _ demo_facts(2,3) seal
        demo_header_facts(1)] by fastforce
  have "EncryptionAlgorithm_try_from (send_cipher_algorithm demo_session) \<noteq> Some EA_Xor"
    by (simp add: demo_facts(4))
  from secure_channel_roundtrip [OF demo_facts(1) demo_api_ok _ demo_facts(2,2,3) refl demo_facts(5)
      this demo_header_facts demo_facts(7) q demo_facts(8)] q
  show ?thesis by simp
qed

text \<open>
  The receiver does not require packets to be encrypted. A packet whose encrypted flag is clear
  is handed on unchanged as if it had been decrypted, provided that the last twelve bytes of its
  payload, read as a nonce, pass the replay check; no key is needed, and the sequence number chosen
  by the sender is committed, so the genuine packet with that number is refused afterwards.
\<close>

theorem plaintext_accepted:
  assumes "hmac_ok hmac" and "key_cache_ok hmac r" and "is_valid r"
    and "sync_rx_grace_expires_at_ms r = 0" and "session_rel dir r H" and "slots_live dir now r"
    and "peer_manager_header p = Some h" and "\<not> is_encrypted h"
    and "payload p = Some pl" and "parse_tail pl = Some nonce"
    and "e = of_be (take 4 nonce)" and "n = of_be (drop 4 nonce)"
    and "fst (precheck_replay e n dir now r)"
  shows "\<exists>r'. decrypt_payload hmac api now dir p r = Some (Inr p, r') \<and>
    session_rel dir r' (insert (e, n) H)"
proof -
  obtain c where c: "traffic_cipher hmac (root_key r) (recv_cipher_algorithm r) e dir = Some c"
    by (rule traffic_cipher_total [OF assms(1)])
  have "decrypt api c p = Some (Inr p)"
    using traffic_cipher_cases [OF c] assms(7,8) by (auto simp: ring_decrypt_def xor_decrypt_def)
  from decrypt_payload_Inr [OF assms(3,9,10) _ assms(2,1) _ this, of dir now]
  obtain r' r1 where r': "decrypt_payload hmac api now dir p r = Some (Inr p, r')"
    "same_replay_state (snd (enter_replay now r)) r1" "commit_replay e n dir now r1 = (True, r')"
    using assms(11-13) c by auto
  have "session_rel dir r1 H" "slots_live dir now r1"
    using r'(2) assms(4-6) enter_replay_no_grace [OF assms(4), of now] rx_enter_live [OF assms(6)]
    by (auto simp: same_replay_state_def session_rel_def slots_live_def)
  then show ?thesis using commit_session_rel [of dir r1 H now e n True r'] r' by auto
qed

theorem plaintext_accepted_witness:
  "\<exists>r'. decrypt_payload demo_hmac demo_api 2 AToB (pkt ZT_DummyTunnel [] demo_header (replicate 28 0))
      demo_session = Some (Inr (pkt ZT_DummyTunnel [] demo_header (replicate 28 0)), r') \<and>
    session_rel AToB r' (insert (0, 0) {})"
proof (rule plaintext_accepted [OF demo_facts(1,2,3)])
  have room: "hdr_room ZT_DummyTunnel []" by (simp add: hdr_room_def)
  show "peer_manager_header (pkt ZT_DummyTunnel [] demo_header (replicate 28 0)) = Some demo_header"
    using room by (simp add: pkt_simps)
  show "payload (pkt ZT_DummyTunnel [] demo_header (replicate 28 0)) = Some (replicate 28 0)"
    by (rule pkt_payload [OF room])
  show "parse_tail (replicate 28 0) = Some (replicate 12 0)"
    by (simp add: parse_tail_def aead_tail_ref_from_suffix_def AEAD_TAIL_SIZE_def)
  show "fst (precheck_replay 0 0 AToB 2 demo_session)" by (rule demo_facts(8))
qed (simp_all add: demo_header_facts demo_session_def session_new_def session_rel_def slots_rel_def
    rx_slot_default_def slots_live_def slot_live_def of_be_def eval_nat_numeral)

text \<open>
  C15. What a received packet does to a session with an AEAD cipher. An error never commits a number: the receive slots are
  those that the eviction of idle slots leaves (untouched if the packet has no tail), only a failed decryption counts as a
  failure, and the tenth failure in a row, and nothing else, invalidates the session. A packet marked as encrypted is
  accepted only if it is the encryption of the returned packet under the traffic key of its epoch. A packet that is not
  marked is not authenticated: it is returned as it is. Every success resets the failure count.
\<close>

theorem decrypt_outcome:
  assumes "decrypt_payload hmac api now dir p r = Some (res, r')"
    and "hmac_ok hmac" and "aead_ok api" and "length rnd = 12" and "key_cache_ok hmac r" and "is_valid r"
    and "EncryptionAlgorithm_try_from (recv_cipher_algorithm r) \<noteq> Some EA_Xor" and "peer_manager_header p = Some h"
  shows "case res of
      Inl (CipherError e) \<Rightarrow> same_replay_state r' (snd (enter_replay now r)) \<and>
        decrypt_fail_count r' = decrypt_fail_count r + 1 \<and>
        (is_valid r' \<longleftrightarrow> decrypt_fail_count r + 1 < 10)
    | Inl NoTail \<Rightarrow> r' = r
    | Inl _ \<Rightarrow> same_replay_state r' (snd (enter_replay now r)) \<and> is_valid r' \<and> decrypt_fail_count r' = decrypt_fail_count r
    | Inr q \<Rightarrow> is_valid r' \<and> decrypt_fail_count r' = 0 \<and>
        (if is_encrypted h
         then \<exists>pl nonce c n. payload p = Some pl \<and> parse_tail pl = Some nonce \<and>
           traffic_cipher hmac (root_key r) (recv_cipher_algorithm r) (of_be (take 4 nonce)) dir = Some c \<and>
           encrypt_with_nonce api rnd c n q = Some (Inr p) \<and> peer_manager_header q = Some (set_encrypted False h)
         else q = p)"
proof -
  obtain pl where pl: "payload p = Some pl"
    using assms(1,6) by (auto simp: decrypt_payload_def split: bind_splits)
  show ?thesis
  proof (cases "parse_tail pl")
    case None
    then show ?thesis using assms(1,6) pl by (auto simp: decrypt_payload_def)
  next
    case (Some nonce)
    let ?e = "of_be (take 4 nonce)" and ?n = "of_be (drop 4 nonce)"
    define r1 where "r1 = snd (enter_replay now r)"
    have r1: "key_cache_ok hmac r1" "invalidated r1 = invalidated r"
      "decrypt_fail_count r1 = decrypt_fail_count r" "root_key r1 = root_key r" "recv_cipher_algorithm r1 = recv_cipher_algorithm r"
      using assms(5) by (simp_all add: r1_def key_cache_ok_cong [OF enter_replay_keys(1-4)] enter_replay_keys)
    show ?thesis
    proof (cases "fst (precheck_replay ?e ?n dir now r)")
      case False
      then show ?thesis using assms(1,6) pl Some r1
        by (auto simp: decrypt_payload_def precheck_replay_eq r1_def is_valid_def same_replay_state_def)
    next
      case True
      then have pre: "precheck_replay ?e ?n dir now r = (True, r1)"
        by (simp add: precheck_replay_eq r1_def)
      obtain c kc where c: "get_or_create_encryptor hmac ?e dir (session_generation r1) False r1 =
          Some (c, r1\<lparr>key_cache := kc\<rparr>)"
        "traffic_cipher hmac (root_key r) (recv_cipher_algorithm r) ?e dir = Some c"
        using get_or_create_encryptor_spec [OF r1(1) assms(2), of ?e dir "session_generation r1" False] r1(4,5)
        by auto
      obtain d where d: "decrypt api c p = Some d"
        using assms(1,6) pl Some pre c by (auto simp: decrypt_payload_def split: bind_splits)
      show ?thesis
      proof (cases d)
        case (Inl e)
        then show ?thesis using assms(1,6) pl Some pre c d r1
          by (auto simp: decrypt_payload_def same_replay_state_def invalidate_def is_valid_def
              DECRYPT_FAIL_THRESHOLD_def Let_def r1_def not_le split: if_splits)
      next
        case (Inr q)
        then have q: "decrypt api c p = Some (Inr q)" using d by simp
        have res: "res = Inr q" "is_valid r'" "decrypt_fail_count r' = 0"
          using decrypt_payload_Inr [OF assms(6) pl Some True assms(5,2) c(2) q] assms(1) by auto
        obtain rc where rc: "c = RingCipher rc" using traffic_cipher_ring [OF c(2) assms(7)] by blast
        show ?thesis
        proof (cases "is_encrypted h")
          case True
          have "cipher_ok api rnd c" using rc assms(3,4) by simp
          from encryptor.dec_enc [OF this assms(8) True q] show ?thesis using res True pl Some c(2) by auto
        next
          case False
          then have "q = p" using q rc assms(8) by (simp add: ring_decrypt_def)
          then show ?thesis using res False by simp
        qed
      qed
    qed
  qed
qed

theorem decrypt_outcome_witness:
  "\<exists>r'. decrypt_payload demo_hmac demo_api 2 AToB
       (pkt ZT_DummyTunnel [] (set_encrypted True demo_header) (replicate 28 0)) demo_session =
       Some (Inl (CipherError DecryptionFailed), r') \<and>
     same_replay_state r' (snd (enter_replay 2 demo_session)) \<and>
     decrypt_fail_count r' = decrypt_fail_count demo_session + 1 \<and>
     (is_valid r' \<longleftrightarrow> decrypt_fail_count demo_session + 1 < 10)"
proof -
  let ?p = "pkt ZT_DummyTunnel [] (set_encrypted True demo_header) (replicate 28 0)"
  have room: "hdr_room ZT_DummyTunnel []" by (simp add: hdr_room_def)
  have tail: "parse_tail (replicate 28 0) = Some (replicate 12 0)"
    by (simp add: parse_tail_def aead_tail_ref_from_suffix_def AEAD_TAIL_SIZE_def)
  define r1 where "r1 = snd (enter_replay 2 demo_session)"
  have pre: "precheck_replay e n AToB 2 demo_session = (True, r1)" for e n
    using demo_facts(8) [of e n 2] by (simp add: precheck_replay_eq r1_def)
  have ok: "key_cache_ok demo_hmac r1"
    using demo_facts(2) by (simp add: r1_def key_cache_ok_cong [OF enter_replay_keys(1-4)])
  obtain c kc where c: "get_or_create_encryptor demo_hmac (of_be (replicate 4 0)) AToB
      (session_generation r1) False r1 = Some (c, r1\<lparr>key_cache := kc\<rparr>)"
    "traffic_cipher demo_hmac (root_key r1) (recv_cipher_algorithm r1) (of_be (replicate 4 0)) AToB = Some c"
    using get_or_create_encryptor_spec [OF ok demo_facts(1), of _ AToB "session_generation r1" False]
    by fastforce
  have "EncryptionAlgorithm_try_from (recv_cipher_algorithm r1) \<noteq> Some EA_Xor"
    by (simp add: r1_def enter_replay_keys demo_facts(4,5))
  then obtain rg where rg: "c = RingCipher rg" using traffic_cipher_ring [OF c(2)] by blast
  have "decrypt demo_api c ?p = Some (Inl DecryptionFailed)"
    by (simp add: rg ring_decrypt_pkt [OF demo_api_ok room]) (simp add: demo_api_def eval_nat_numeral)
  then obtain r' where r': "decrypt_payload demo_hmac demo_api 2 AToB ?p demo_session =
      Some (Inl (CipherError DecryptionFailed), r')"
    using demo_facts(3) tail pre c(1) by (simp add: decrypt_payload_def pkt_payload [OF room] Let_def)
  have "EncryptionAlgorithm_try_from (recv_cipher_algorithm demo_session) \<noteq> Some EA_Xor" by (simp add: demo_facts(4,5))
  from decrypt_outcome [OF r' demo_facts(1) demo_api_ok _ demo_facts(2,3) this pkt_peer_manager_header [OF room], where rnd = "replicate 12 0"] r'
  show ?thesis by auto
qed

end
