(* ===== verification/Peer_Session.thy ===== *)
theory Peer_Session
  imports Secure_Datagram
begin

text \<open>
  \<open>PeerSession\<close> and \<open>PeerSessionStore\<close> of \<open>easytier/src/peers/peer_session.rs\<close>: the sessions a node
  keeps per network and peer, and the two halves of the handshake that agree on a root key. An
  \<open>Arc<PeerSession>\<close> is a reference into a heap, because the store and the connections share the
  session; the reference counts that \<open>evict_unused_sessions\<close> looks at are a parameter, and so are
  the fresh root key and the clock. Each operation is one atomic step.
\<close>

datatype PeerSessionAction = Join | Sync | Create

type_synonym peer_id = u32

record SessionKey =
  network_name :: string
  sk_peer_id :: peer_id

record peer_session =
  ps_peer_id :: peer_id
  peer_static_pubkey :: "bytes option"
  datagram :: session
  ps_invalidated :: bool

datatype ps_error = NoLocalSession | JoinGenerationMismatch | MissingRootKey | PubkeyMismatch
  | PsSessionInvalidated | Datagram sdg_error

section \<open>PeerSession\<close>

definition ps_new ::
  "u64 \<Rightarrow> peer_id \<Rightarrow> bytes \<Rightarrow> u32 \<Rightarrow> u32 \<Rightarrow> string \<Rightarrow> string \<Rightarrow> bytes option \<Rightarrow> peer_session" where
  "ps_new now pid key gen initial_epoch send_alg recv_alg pubkey =
     \<lparr>ps_peer_id = pid, peer_static_pubkey = pubkey,
      datagram = session_new now key gen initial_epoch send_alg recv_alg, ps_invalidated = False\<rparr>"

definition ps_invalidate :: "peer_session \<Rightarrow> peer_session" where
  "ps_invalidate s = s\<lparr>ps_invalidated := True, datagram := invalidate (datagram s)\<rparr>"

definition ps_is_valid :: "peer_session \<Rightarrow> bool" where
  "ps_is_valid s \<longleftrightarrow> \<not> ps_invalidated s \<and> is_valid (datagram s)"

definition ps_session_generation :: "peer_session \<Rightarrow> u32" where
  "ps_session_generation s = session_generation (datagram s)"

definition ps_root_key :: "peer_session \<Rightarrow> bytes" where
  "ps_root_key s = root_key (datagram s)"

definition ps_next_sync_epoch :: "peer_session \<Rightarrow> u32" where
  "ps_next_sync_epoch s = next_sync_epoch (datagram s)"

definition ps_check_encrypt_algo_same :: "string \<Rightarrow> string \<Rightarrow> peer_session \<Rightarrow> ps_error option" where
  "ps_check_encrypt_algo_same send_alg recv_alg s =
     map_option Datagram (check_encrypt_algo_same send_alg recv_alg (datagram s))"

definition check_or_set_peer_static_pubkey ::
  "bytes option \<Rightarrow> peer_session \<Rightarrow> ps_error + peer_session" where
  "check_or_set_peer_static_pubkey pubkey s =
     (case pubkey of
        None \<Rightarrow> Inr s
      | Some pk \<Rightarrow> (case peer_static_pubkey s of
          Some existing \<Rightarrow> if existing \<noteq> pk then Inl PubkeyMismatch else Inr s
        | None \<Rightarrow> Inr (s\<lparr>peer_static_pubkey := Some pk\<rparr>)))"

definition ps_sync_root_key :: "u64 \<Rightarrow> u64 \<Rightarrow> bytes \<Rightarrow> u32 \<Rightarrow> u32 \<Rightarrow> bool \<Rightarrow> peer_session \<Rightarrow> peer_session"
where
  "ps_sync_root_key now now' key gen initial_epoch preserve s =
     s\<lparr>datagram := sync_root_key now now' key gen initial_epoch preserve (datagram s)\<rparr>"

definition dir_for_sender :: "peer_id \<Rightarrow> peer_id \<Rightarrow> SecureDatagramDirection" where
  "dir_for_sender sender receiver = (if sender < receiver then AToB else BToA)"

definition ps_encrypt_payload ::
  "(bytes \<Rightarrow> bytes \<Rightarrow> bytes) \<Rightarrow> aead_api \<Rightarrow> bytes \<Rightarrow> u64 \<Rightarrow> peer_id \<Rightarrow> peer_id \<Rightarrow> zc_packet \<Rightarrow> peer_session
    \<Rightarrow> ((ps_error + zc_packet) \<times> peer_session) may_panic" where
  "ps_encrypt_payload hmac api rnd now sender receiver p s =
     (if \<not> ps_is_valid s then Some (Inl PsSessionInvalidated, s)
      else map_option (\<lambda>(r, d). (case r of Inl e \<Rightarrow> Inl (Datagram e) | Inr q \<Rightarrow> Inr q, s\<lparr>datagram := d\<rparr>))
        (encrypt_payload hmac api rnd now (dir_for_sender sender receiver) p (datagram s)))"

definition ps_decrypt_payload ::
  "(bytes \<Rightarrow> bytes \<Rightarrow> bytes) \<Rightarrow> aead_api \<Rightarrow> u64 \<Rightarrow> peer_id \<Rightarrow> peer_id \<Rightarrow> zc_packet \<Rightarrow> peer_session
    \<Rightarrow> ((ps_error + zc_packet) \<times> peer_session) may_panic" where
  "ps_decrypt_payload hmac api now sender receiver p s =
     (if \<not> ps_is_valid s then Some (Inl PsSessionInvalidated, s)
      else map_option (\<lambda>(r, d). (case r of Inl e \<Rightarrow> Inl (Datagram e) | Inr q \<Rightarrow> Inr q, s\<lparr>datagram := d\<rparr>))
        (decrypt_payload hmac api now (dir_for_sender sender receiver) p (datagram s)))"

section \<open>PeerSessionStore\<close>

type_synonym ref = nat

text \<open>The shared map and the heap of sessions; \<open>next_ref\<close> is the next allocation.\<close>

record store =
  sessions :: "SessionKey \<rightharpoonup> ref"
  heap :: "ref \<Rightarrow> peer_session"
  next_ref :: ref

definition heap_put :: "ref \<Rightarrow> peer_session \<Rightarrow> store \<Rightarrow> store" where
  "heap_put r s st = st\<lparr>heap := (heap st)(r := s)\<rparr>"

definition alloc :: "peer_session \<Rightarrow> store \<Rightarrow> ref \<times> store" where
  "alloc s st = (next_ref st, st\<lparr>heap := (heap st)(next_ref st := s), next_ref := next_ref st + 1\<rparr>)"

definition store_remove :: "SessionKey \<Rightarrow> store \<Rightarrow> store" where
  "store_remove key st = st\<lparr>sessions := (sessions st)(key := None)\<rparr>"

definition store_get :: "SessionKey \<Rightarrow> store \<Rightarrow> ref option \<times> store" where
  "store_get key st =
     (case sessions st key of
        None \<Rightarrow> (None, st)
      | Some r \<Rightarrow> if ps_is_valid (heap st r) then (Some r, st) else (None, store_remove key st))"

definition insert_session :: "SessionKey \<Rightarrow> ref \<Rightarrow> store \<Rightarrow> store" where
  "insert_session key r st = st\<lparr>sessions := (sessions st)(key \<mapsto> r)\<rparr>"

definition evict_unused_sessions :: "(ref \<Rightarrow> nat) \<Rightarrow> store \<Rightarrow> store" where
  "evict_unused_sessions strong_count st = st\<lparr>sessions := (\<lambda>key.
     case sessions st key of
       Some r \<Rightarrow> if strong_count r > 1 then Some r else None
     | None \<Rightarrow> None)\<rparr>"

text \<open>The two checks of both handshake halves: they may set the public key of the session at \<open>r\<close>.\<close>

definition check_session ::
  "string \<Rightarrow> string \<Rightarrow> bytes option \<Rightarrow> ref \<Rightarrow> store \<Rightarrow> (ps_error + unit) \<times> store" where
  "check_session send_alg recv_alg pubkey r st =
     (case ps_check_encrypt_algo_same send_alg recv_alg (heap st r) of
        Some e \<Rightarrow> (Inl e, st)
      | None \<Rightarrow> (case check_or_set_peer_static_pubkey pubkey (heap st r) of
          Inl e \<Rightarrow> (Inl e, st)
        | Inr s \<Rightarrow> (Inr (), heap_put r s st)))"

record upsert_return =
  ur_session :: ref
  ur_action :: PeerSessionAction
  ur_generation :: u32
  ur_root_key :: "bytes option"
  ur_initial_epoch :: u32

definition upsert_responder_session ::
  "u64 \<Rightarrow> bytes \<Rightarrow> SessionKey \<Rightarrow> u32 option \<Rightarrow> string \<Rightarrow> string \<Rightarrow> bytes option \<Rightarrow> store
    \<Rightarrow> (ps_error + upsert_return) \<times> store" where
  "upsert_responder_session now fresh_key key a_gen send_alg recv_alg pubkey st =
     (case (case sessions st key of
              Some r \<Rightarrow> if ps_is_valid (heap st r) then Some r else None
            | None \<Rightarrow> None) of
        None \<Rightarrow>
          let (r, st) = alloc (ps_new now (sk_peer_id key) fresh_key 1 0 send_alg recv_alg pubkey) st;
              st = insert_session key r st
          in (Inr \<lparr>ur_session = r, ur_action = Create, ur_generation = 1, ur_root_key = Some fresh_key,
                   ur_initial_epoch = 0\<rparr>, st)
      | Some r \<Rightarrow>
          (case check_session send_alg recv_alg pubkey r st of
             (Inl e, st) \<Rightarrow> (Inl e, st)
           | (Inr _, st) \<Rightarrow>
               let s = heap st r; local_gen = ps_session_generation s
               in if a_gen = Some local_gen
                  then (Inr \<lparr>ur_session = r, ur_action = Join, ur_generation = local_gen,
                          ur_root_key = None, ur_initial_epoch = 0\<rparr>, st)
                  else (Inr \<lparr>ur_session = r, ur_action = Sync, ur_generation = local_gen,
                          ur_root_key = Some (ps_root_key s),
                          ur_initial_epoch = ps_next_sync_epoch s\<rparr>, st)))"

text \<open>An invalid session is dropped, and the entry of the key is the valid one or a new one.\<close>

definition entry_or_insert ::
  "u64 \<Rightarrow> SessionKey \<Rightarrow> bytes \<Rightarrow> u32 \<Rightarrow> u32 \<Rightarrow> string \<Rightarrow> string \<Rightarrow> bytes option \<Rightarrow> store \<Rightarrow> ref \<times> store" where
  "entry_or_insert t0 key rk b_gen initial_epoch send_alg recv_alg pubkey st =
     (let st = (case sessions st key of
            Some r \<Rightarrow> if \<not> ps_is_valid (heap st r) then store_remove key st else st
          | None \<Rightarrow> st)
      in case sessions st key of
           Some r \<Rightarrow> (r, st)
         | None \<Rightarrow>
             let (r, st) = alloc (ps_new t0 (sk_peer_id key) rk b_gen initial_epoch send_alg
                   recv_alg pubkey) st
             in (r, insert_session key r st))"

definition apply_initiator_action ::
  "u64 \<Rightarrow> u64 \<Rightarrow> u64 \<Rightarrow> SessionKey \<Rightarrow> PeerSessionAction \<Rightarrow> u32 \<Rightarrow> bytes option \<Rightarrow> u32 \<Rightarrow> string \<Rightarrow> string
    \<Rightarrow> bytes option \<Rightarrow> store \<Rightarrow> (ps_error + ref) \<times> store" where
  "apply_initiator_action t0 now now' key action b_gen root_key_32 initial_epoch send_alg recv_alg
      pubkey st =
     (case action of
        Join \<Rightarrow>
          (case store_get key st of
             (None, st) \<Rightarrow> (Inl NoLocalSession, st)
           | (Some r, st) \<Rightarrow>
               (case check_session send_alg recv_alg pubkey r st of
                  (Inl e, st) \<Rightarrow> (Inl e, st)
                | (Inr _, st) \<Rightarrow>
                    if ps_session_generation (heap st r) \<noteq> b_gen
                    then (Inl JoinGenerationMismatch, st)
                    else (Inr r, st)))
      | _ \<Rightarrow>
          (case root_key_32 of
             None \<Rightarrow> (Inl MissingRootKey, st)
           | Some rk \<Rightarrow>
               let (r, st) = entry_or_insert t0 key rk b_gen initial_epoch send_alg recv_alg pubkey st
               in (case check_session send_alg recv_alg pubkey r st of
                     (Inl e, st) \<Rightarrow> (Inl e, st)
                   | (Inr _, st) \<Rightarrow>
                       (Inr r, heap_put r (ps_sync_root_key now now' rk b_gen initial_epoch
                          (action = Sync) (heap st r)) st))))"

section \<open>Agreement of the handshake\<close>

lemma check_session_Inr:
  assumes "check_session sa ra pk r st = (Inr u, st')"
  shows "\<exists>s'. st' = heap_put r s' st \<and> datagram s' = datagram (heap st r) \<and>
    ps_invalidated s' = ps_invalidated (heap st r) \<and> ps_peer_id s' = ps_peer_id (heap st r) \<and>
    (\<forall>p. peer_static_pubkey (heap st r) = Some p \<longrightarrow> peer_static_pubkey s' = Some p) \<and>
    (\<forall>p. pk = Some p \<longrightarrow> peer_static_pubkey s' = Some p)"
  using assms
  by (auto simp: check_session_def check_or_set_peer_static_pubkey_def
      split: option.splits sum.splits if_splits)

lemma check_session_Inl: "check_session sa ra pk r st = (Inl e, st') \<Longrightarrow> st' = st"
  by (auto simp: check_session_def split: option.splits sum.splits)

lemma heap_put_simps [simp]:
  "sessions (heap_put r s st) = sessions st" "next_ref (heap_put r s st) = next_ref st"
  "heap (heap_put r s st) r' = (if r' = r then s else heap st r')"
  by (simp_all add: heap_put_def)

lemma sync_root_key_simps [simp]:
  "root_key (sync_root_key n n' k g e b s) = k"
  "session_generation (sync_root_key n n' k g e b s) = g"
  "send_epoch (sync_root_key n n' k g e b s) = e"
  "invalidated (sync_root_key n n' k g e b s) = invalidated s"
  by (simp_all add: sync_root_key_def Let_def)

lemma entry_or_insert_valid:
  "sessions (snd (entry_or_insert t0 key k g ep sa ra pk st)) key =
     Some (fst (entry_or_insert t0 key k g ep sa ra pk st))"
  "ps_is_valid (heap (snd (entry_or_insert t0 key k g ep sa ra pk st))
     (fst (entry_or_insert t0 key k g ep sa ra pk st)))"
  by (auto simp: entry_or_insert_def Let_def alloc_def insert_session_def store_remove_def
      ps_is_valid_def ps_new_def is_valid_def session_new_def split: option.splits)

text \<open>The session the initiator works on: the valid one in the store, or a new one.\<close>

lemma apply_sync_create:
  assumes "action \<noteq> Join" and "apply_initiator_action t0 n n' key action g rk ep sa ra pk st = (Inr r, st')"
  shows "\<exists>k. rk = Some k \<and> ps_root_key (heap st' r) = k \<and> ps_session_generation (heap st' r) = g \<and>
    send_epoch (datagram (heap st' r)) = ep \<and> sessions st' key = Some r \<and> ps_is_valid (heap st' r)"
proof -
  obtain k where k: "rk = Some k" using assms by (cases rk; cases action) (auto simp: apply_initiator_action_def)
  obtain r1 st1 where e: "entry_or_insert t0 key k g ep sa ra pk st = (r1, st1)" by fastforce
  have p: "sessions st1 key = Some r1" "ps_is_valid (heap st1 r1)"
    using entry_or_insert_valid [of t0 key k g ep sa ra pk st] e by simp_all
  obtain st2 where c: "check_session sa ra pk r1 st1 = (Inr (), st2)" "r = r1"
    "st' = heap_put r (ps_sync_root_key n n' k g ep (action = Sync) (heap st2 r)) st2"
    using assms k e by (cases action) (auto simp: apply_initiator_action_def split: prod.splits sum.splits)
  from check_session_Inr [OF c(1)] show ?thesis
    using c(2,3) k p by (auto simp: ps_sync_root_key_def ps_root_key_def ps_session_generation_def
        ps_is_valid_def is_valid_def)
qed

lemma upsert_reply:
  assumes "upsert_responder_session t fk key a sa ra pk st = (Inr ret, st')"
  shows "sessions st' key = Some (ur_session ret) \<and> ps_is_valid (heap st' (ur_session ret)) \<and>
    ur_generation ret = ps_session_generation (heap st' (ur_session ret)) \<and>
    (ur_action ret \<noteq> Join \<longrightarrow> ur_root_key ret = Some (ps_root_key (heap st' (ur_session ret)))) \<and>
    (ur_action ret = Join \<longrightarrow> a = Some (ur_generation ret))"
proof -
  let ?ex = "case sessions st key of
      Some r \<Rightarrow> if ps_is_valid (heap st r) then Some r else None | None \<Rightarrow> None"
  show ?thesis
  proof (cases ?ex)
    case None
    then show ?thesis using assms
      by (auto simp: upsert_responder_session_def alloc_def insert_session_def ps_new_def
          ps_is_valid_def is_valid_def session_new_def ps_session_generation_def ps_root_key_def)
  next
    case (Some r)
    then have r: "sessions st key = Some r" "ps_is_valid (heap st r)"
      by (auto split: option.splits if_splits)
    obtain st1 where c: "check_session sa ra pk r st = (Inr (), st1)"
      using assms Some by (auto simp: upsert_responder_session_def split: prod.splits sum.splits)
    from check_session_Inr [OF c] show ?thesis using assms r c
      by (auto simp: upsert_responder_session_def Let_def ps_is_valid_def ps_root_key_def
          ps_session_generation_def split: if_splits)
  qed
qed

text \<open>
  C17. When the responder answers with a new session or a synchronisation and the initiator applies
  the answer, both ends hold a valid session for each other with the same root key and the same
  generation, and the initiator sends in the epoch the responder chose.
\<close>

theorem handshake_agreement:
  assumes "upsert_responder_session tb fresh key_b a_gen sa_b ra_b pk_b st_b = (Inr ret, st_b')"
    and "ur_action ret \<noteq> Join"
    and "apply_initiator_action t0 n n' key_a (ur_action ret) (ur_generation ret) (ur_root_key ret)
      (ur_initial_epoch ret) sa_a ra_a pk_a st_a = (Inr r, st_a')"
  shows "sessions st_a' key_a = Some r \<and> sessions st_b' key_b = Some (ur_session ret) \<and>
    ps_is_valid (heap st_a' r) \<and> ps_is_valid (heap st_b' (ur_session ret)) \<and>
    ps_root_key (heap st_a' r) = ps_root_key (heap st_b' (ur_session ret)) \<and>
    ps_session_generation (heap st_a' r) = ps_session_generation (heap st_b' (ur_session ret)) \<and>
    send_epoch (datagram (heap st_a' r)) = ur_initial_epoch ret"
  using apply_sync_create [OF assms(2,3)] upsert_reply [OF assms(1)] assms(2) by auto

section \<open>The store as a state machine\<close>

text \<open>
  Every operation that changes the store or a session: the two handshake halves, lookups and
  removals, and the data plane working on a session that some connection still holds.
\<close>

inductive store_step :: "(bytes \<Rightarrow> bytes \<Rightarrow> bytes) \<Rightarrow> aead_api \<Rightarrow> store \<Rightarrow> store \<Rightarrow> bool" for hmac api where
  step_get: "store_step hmac api st (snd (store_get key st))"
| step_remove: "store_step hmac api st (store_remove key st)"
| step_insert: "r < next_ref st \<Longrightarrow> store_step hmac api st (insert_session key r st)"
| step_evict: "store_step hmac api st (evict_unused_sessions cnt st)"
| step_upsert: "store_step hmac api st (snd (upsert_responder_session t fk key a sa ra pk st))"
| step_apply: "store_step hmac api st (snd (apply_initiator_action t0 n n' key act g rk ep sa ra pk st))"
| step_invalidate: "r < next_ref st \<Longrightarrow> store_step hmac api st (heap_put r (ps_invalidate (heap st r)) st)"
| step_encrypt: "r < next_ref st \<Longrightarrow>
    ps_encrypt_payload hmac api rnd now a b p (heap st r) = Some (res, s') \<Longrightarrow>
    store_step hmac api st (heap_put r s' st)"
| step_decrypt: "r < next_ref st \<Longrightarrow>
    ps_decrypt_payload hmac api now a b p (heap st r) = Some (res, s') \<Longrightarrow>
    store_step hmac api st (heap_put r s' st)"

definition store_wf :: "(bytes \<Rightarrow> bytes \<Rightarrow> bytes) \<Rightarrow> store \<Rightarrow> bool" where
  "store_wf hmac st \<longleftrightarrow> (\<forall>key r. sessions st key = Some r \<longrightarrow> r < next_ref st) \<and>
     (\<forall>r < next_ref st. key_cache_ok hmac (datagram (heap st r)))"

text \<open>
  \<open>evolves s s'\<close>: what an operation may do to an existing session. A pinned public key stays, the
  peer stays, an invalidated session stays invalidated.
\<close>

definition evolves :: "peer_session \<Rightarrow> peer_session \<Rightarrow> bool" where
  "evolves s s' \<longleftrightarrow> ps_peer_id s' = ps_peer_id s \<and>
     (\<forall>pk. peer_static_pubkey s = Some pk \<longrightarrow> peer_static_pubkey s' = Some pk) \<and>
     (ps_is_valid s' \<longrightarrow> ps_is_valid s)"

definition store_evolves :: "(bytes \<Rightarrow> bytes \<Rightarrow> bytes) \<Rightarrow> store \<Rightarrow> store \<Rightarrow> bool" where
  "store_evolves hmac st st' \<longleftrightarrow> store_wf hmac st' \<and> next_ref st \<le> next_ref st' \<and>
     (\<forall>r < next_ref st. evolves (heap st r) (heap st' r))"

lemma evolves_refl [simp]: "evolves s s"
  by (simp add: evolves_def)

lemma evolves_trans: "evolves s t \<Longrightarrow> evolves t u \<Longrightarrow> evolves s u"
  by (auto simp: evolves_def)

lemma store_evolves_refl: "store_wf hmac st \<Longrightarrow> store_evolves hmac st st"
  by (simp add: store_evolves_def)

lemma store_evolves_trans:
  "store_evolves hmac a b \<Longrightarrow> store_evolves hmac b c \<Longrightarrow> store_evolves hmac a c"
  by (auto simp: store_evolves_def intro: evolves_trans)

lemma store_evolves_wf: "store_evolves hmac a b \<Longrightarrow> store_wf hmac b"
  by (simp add: store_evolves_def)

lemma evolves_heap_put:
  assumes "store_wf hmac st" and "evolves (heap st r) s'" and "key_cache_ok hmac (datagram s')"
  shows "store_evolves hmac st (heap_put r s' st)"
  using assms by (auto simp: store_evolves_def store_wf_def)

lemma evolves_sessions:
  assumes "store_wf hmac st" and "\<And>key r. m key = Some r \<Longrightarrow> r < next_ref st"
  shows "store_evolves hmac st (st\<lparr>sessions := m\<rparr>)"
  using assms by (auto simp: store_evolves_def store_wf_def)

lemma evolves_alloc:
  assumes "store_wf hmac st" and "key_cache_ok hmac (datagram s)"
  shows "store_evolves hmac st (insert_session key (fst (alloc s st)) (snd (alloc s st)))"
  using assms
  by (auto simp: store_evolves_def store_wf_def alloc_def insert_session_def less_Suc_eq
      split: if_splits)

lemma evolves_remove: "store_wf hmac st \<Longrightarrow> store_evolves hmac st (store_remove key st)"
  unfolding store_remove_def by (rule evolves_sessions) (auto simp: store_wf_def split: if_splits)

lemma evolves_check_session:
  assumes "store_wf hmac st" and "r < next_ref st"
  shows "store_evolves hmac st (snd (check_session sa ra pk r st))"
proof -
  obtain x st' where c: "check_session sa ra pk r st = (x, st')" by fastforce
  show ?thesis
  proof (cases x)
    case (Inl e)
    then show ?thesis using c check_session_Inl store_evolves_refl [OF assms(1)] by fastforce
  next
    case (Inr u)
    then obtain s' where "st' = heap_put r s' st"
      "datagram s' = datagram (heap st r)" "evolves (heap st r) s'"
      using check_session_Inr [of sa ra pk r st u st'] c by (auto simp: evolves_def ps_is_valid_def)
    then show ?thesis using c assms by (auto simp: store_wf_def intro!: evolves_heap_put)
  qed
qed

lemma evolves_entry:
  assumes "store_wf hmac st"
  shows "store_evolves hmac st (snd (entry_or_insert t0 key k g ep sa ra pk st))"
    and "fst (entry_or_insert t0 key k g ep sa ra pk st) <
      next_ref (snd (entry_or_insert t0 key k g ep sa ra pk st))"
proof -
  define st1 where "st1 = (case sessions st key of
      Some r \<Rightarrow> if \<not> ps_is_valid (heap st r) then store_remove key st else st | None \<Rightarrow> st)"
  have st1: "store_evolves hmac st st1"
    using evolves_remove [OF assms] store_evolves_refl [OF assms]
    by (auto simp: st1_def split: option.splits)
  have new: "key_cache_ok hmac (datagram (ps_new t0 (sk_peer_id key) k g ep sa ra pk))"
    by (simp add: ps_new_def key_cache_ok_new)
  have e: "entry_or_insert t0 key k g ep sa ra pk st = (case sessions st1 key of Some r \<Rightarrow> (r, st1)
      | None \<Rightarrow> (fst (alloc (ps_new t0 (sk_peer_id key) k g ep sa ra pk) st1), insert_session key
          (fst (alloc (ps_new t0 (sk_peer_id key) k g ep sa ra pk) st1))
          (snd (alloc (ps_new t0 (sk_peer_id key) k g ep sa ra pk) st1))))"
    unfolding entry_or_insert_def Let_def split_def st1_def by (rule refl)
  show "store_evolves hmac st (snd (entry_or_insert t0 key k g ep sa ra pk st))"
    using st1 store_evolves_trans [OF st1 evolves_alloc [OF store_evolves_wf [OF st1] new, of key]]
    unfolding e by (simp split: option.splits)
  have "\<forall>r. sessions st1 key = Some r \<longrightarrow> r < next_ref st1"
    using st1 by (auto simp: store_evolves_def store_wf_def)
  then show "fst (entry_or_insert t0 key k g ep sa ra pk st) <
      next_ref (snd (entry_or_insert t0 key k g ep sa ra pk st))"
    unfolding e by (auto simp: alloc_def insert_session_def split: option.splits)
qed

lemma evolves_upsert:
  assumes "store_wf hmac st"
  shows "store_evolves hmac st (snd (upsert_responder_session t fk key a sa ra pk st))"
proof (cases "case sessions st key of
    Some r \<Rightarrow> if ps_is_valid (heap st r) then Some r else None | None \<Rightarrow> None")
  case None
  have "key_cache_ok hmac (datagram (ps_new t (sk_peer_id key) fk 1 0 sa ra pk))"
    by (simp add: ps_new_def key_cache_ok_new)
  from evolves_alloc [OF assms this, of key] show ?thesis
    using None by (simp add: upsert_responder_session_def split_def Let_def)
next
  case (Some r)
  then have "r < next_ref st" using assms by (auto simp: store_wf_def split: option.splits if_splits)
  then have "store_evolves hmac st (snd (check_session sa ra pk r st))"
    by (rule evolves_check_session [OF assms])
  then show ?thesis using Some
    by (cases "check_session sa ra pk r st")
      (auto simp: upsert_responder_session_def Let_def split: sum.splits)
qed

lemma evolves_apply:
  assumes "store_wf hmac st"
  shows "store_evolves hmac st (snd (apply_initiator_action t0 n n' key act g rk ep sa ra pk st))"
proof (cases "act = Join")
  case True
  obtain ro st1 where g: "store_get key st = (ro, st1)" by fastforce
  have st1: "store_evolves hmac st st1" "\<And>r. ro = Some r \<Longrightarrow> r < next_ref st1"
    using g evolves_remove [OF assms, of key] store_evolves_refl [OF assms] assms
    by (auto simp: store_get_def store_wf_def split: option.splits if_splits)
  show ?thesis
  proof (cases ro)
    case None
    then show ?thesis using g st1 True by (simp add: apply_initiator_action_def)
  next
    case (Some r)
    have "store_evolves hmac st1 (snd (check_session sa ra pk r st1))"
      by (rule evolves_check_session [OF store_evolves_wf [OF st1(1)] st1(2) [OF Some]])
    then have "store_evolves hmac st (snd (check_session sa ra pk r st1))"
      by (rule store_evolves_trans [OF st1(1)])
    then show ?thesis using g True Some
      by (cases "check_session sa ra pk r st1")
        (auto simp: apply_initiator_action_def split: sum.splits)
  qed
next
  case False
  show ?thesis
  proof (cases rk)
    case None
    then show ?thesis using False store_evolves_refl [OF assms]
      by (cases act) (simp_all add: apply_initiator_action_def)
  next
    case (Some k)
    obtain r1 st1 where e: "entry_or_insert t0 key k g ep sa ra pk st = (r1, st1)" by fastforce
    have st1: "store_evolves hmac st st1" "r1 < next_ref st1"
      using evolves_entry [OF assms, of t0 key k g ep sa ra pk] e by simp_all
    obtain x st2 where c: "check_session sa ra pk r1 st1 = (x, st2)" by fastforce
    have st2: "store_evolves hmac st st2"
      using store_evolves_trans [OF st1(1) evolves_check_session [OF store_evolves_wf [OF st1(1)] st1(2),
            of sa ra pk]] c by simp
    then have "store_evolves hmac st2 (heap_put r1 (ps_sync_root_key n n' k g ep (act = Sync)
        (heap st2 r1)) st2)"
      by (intro evolves_heap_put store_evolves_wf [OF st2])
        (simp_all add: evolves_def ps_sync_root_key_def ps_is_valid_def is_valid_def key_cache_ok_sync)
    then have "store_evolves hmac st (heap_put r1 (ps_sync_root_key n n' k g ep (act = Sync) (heap st2 r1)) st2)"
      by (rule store_evolves_trans [OF st2])
    then show ?thesis using False Some e c st2
      by (cases act; cases x) (simp_all add: apply_initiator_action_def)
  qed
qed

section \<open>The data plane keeps sessions well-formed\<close>

lemma encrypt_payload_effect:
  assumes "encrypt_payload hmac api rnd now dir p s = Some (res, s')" and "hmac_ok hmac"
    and "key_cache_ok hmac s"
  shows "key_cache_ok hmac s' \<and> (is_valid s' \<longrightarrow> is_valid s)"
proof (cases "is_valid s")
  case False
  then show ?thesis using assms by (simp add: encrypt_payload_def)
next
  case True
  obtain e n nonce s0 where nn: "next_nonce now dir s = ((e, n, nonce), s0)" by (metis prod_cases3 prod.exhaust)
  have "key_cache s0 = key_cache s" "root_key s0 = root_key s"
    "send_cipher_algorithm s0 = send_cipher_algorithm s"
    "recv_cipher_algorithm s0 = recv_cipher_algorithm s"
    using nn by (auto simp: next_nonce_def maybe_rotate_epoch_def Let_def)
  then have "key_cache_ok hmac s0" using assms(3) by (simp add: key_cache_ok_def key_slot_ok_def)
  from get_or_create_encryptor_spec [OF this assms(2), of e dir "session_generation s0" True]
  obtain c kc where c: "get_or_create_encryptor hmac e dir (session_generation s0) True s0 =
      Some (c, s0\<lparr>key_cache := kc\<rparr>)" "key_cache_ok hmac (s0\<lparr>key_cache := kc\<rparr>)" by blast
  then show ?thesis using assms(1) True nn
    by (auto simp: encrypt_payload_def split: bind_splits sum.splits)
qed

lemma decrypt_payload_effect:
  assumes "decrypt_payload hmac api now dir p s = Some (res, s')" and "hmac_ok hmac"
    and "key_cache_ok hmac s"
  shows "key_cache_ok hmac s' \<and> (is_valid s' \<longrightarrow> is_valid s)"
proof (cases "is_valid s")
  case False
  then show ?thesis using assms by (simp add: decrypt_payload_def)
next
  case True
  obtain pl where pl: "payload p = Some pl"
    using assms(1) True by (auto simp: decrypt_payload_def split: bind_splits)
  show ?thesis
  proof (cases "parse_tail pl")
    case None
    then show ?thesis using assms True pl by (auto simp: decrypt_payload_def)
  next
    case (Some nonce)
    let ?e = "of_be (take 4 nonce)" and ?n = "of_be (drop 4 nonce)"
    define s1 where "s1 = snd (enter_replay now s)"
    have s1: "key_cache_ok hmac s1"
      using assms(3) by (simp add: s1_def key_cache_ok_cong [OF enter_replay_keys(1-4)])
    obtain ok where pre: "precheck_replay ?e ?n dir now s = (ok, s1)"
      by (simp add: precheck_replay_eq s1_def)
    from get_or_create_encryptor_spec [OF s1 assms(2), of ?e dir "session_generation s1" False]
    obtain c kc where c: "get_or_create_encryptor hmac ?e dir (session_generation s1) False s1 =
        Some (c, s1\<lparr>key_cache := kc\<rparr>)" "key_cache_ok hmac (s1\<lparr>key_cache := kc\<rparr>)" by blast
    then have "key_cache_ok hmac (s1\<lparr>key_cache := kc, decrypt_fail_count := 0\<rparr>)" by simp
    from key_cache_ok_commit [OF this, of ?e ?n dir now] c s1 show ?thesis
      using assms(1) True pl Some pre
      by (cases ok; cases "commit_replay ?e ?n dir now (s1\<lparr>key_cache := kc, decrypt_fail_count := 0\<rparr>)")
        (auto simp: decrypt_payload_def Let_def split: bind_splits sum.splits)
  qed
qed

lemma store_step_evolves:
  assumes "store_step hmac api st st'" and "hmac_ok hmac" and "store_wf hmac st"
  shows "store_evolves hmac st st'"
  using assms(1)
proof cases
  case (step_get key)
  then show ?thesis using evolves_remove [OF assms(3)] store_evolves_refl [OF assms(3)]
    by (auto simp: store_get_def split: option.splits)
next
  case (step_insert r key)
  then show ?thesis using assms(3) unfolding insert_session_def step_insert(1)
    by (intro evolves_sessions) (auto simp: store_wf_def split: if_splits)
next
  case (step_evict cnt)
  show ?thesis using assms(3) unfolding step_evict evict_unused_sessions_def
    by (intro evolves_sessions) (auto simp: store_wf_def split: option.splits if_splits)
next
  case (step_invalidate r)
  then show ?thesis using assms(3)
    by (auto intro!: evolves_heap_put simp: evolves_def ps_invalidate_def ps_is_valid_def
        is_valid_def invalidate_def store_wf_def key_cache_ok_def key_slot_ok_def)
next
  case (step_encrypt r rnd now a b p res s')
  then show ?thesis using assms(2,3) encrypt_payload_effect [of hmac api rnd now _ p "datagram (heap st r)"]
    by (auto intro!: evolves_heap_put simp: evolves_def ps_encrypt_payload_def ps_is_valid_def
        store_wf_def split: if_splits)
next
  case (step_decrypt r now a b p res s')
  then show ?thesis using assms(2,3) decrypt_payload_effect [of hmac api now _ p "datagram (heap st r)"]
    by (auto intro!: evolves_heap_put simp: evolves_def ps_decrypt_payload_def ps_is_valid_def
        store_wf_def split: if_splits)
qed (simp_all add: evolves_remove evolves_upsert evolves_apply assms(3))

lemma store_steps_evolve:
  assumes "(store_step hmac api)\<^sup>*\<^sup>* st st'" and "hmac_ok hmac" and "store_wf hmac st"
  shows "store_evolves hmac st st'"
  using assms(1)
proof (induction rule: rtranclp_induct)
  case base
  then show ?case by (rule store_evolves_refl [OF assms(3)])
next
  case (step y z)
  then show ?case
    using store_step_evolves [OF _ assms(2) store_evolves_wf] store_evolves_trans by blast
qed

text \<open>
  Whatever sequence of handshakes, lookups, evictions and traffic follows, the static public key
  a session was pinned to never changes, the session keeps belonging to its peer, an invalidated
  session never becomes valid again, the store only refers to allocated sessions, and every
  cached cipher is the one derived from the session's current root key.
\<close>

theorem session_pinning_permanent:
  assumes "(store_step hmac api)\<^sup>*\<^sup>* st st'" and "hmac_ok hmac" and "store_wf hmac st"
    and "r < next_ref st"
  shows "store_wf hmac st' \<and> ps_peer_id (heap st' r) = ps_peer_id (heap st r) \<and>
    (\<forall>pk. peer_static_pubkey (heap st r) = Some pk \<longrightarrow> peer_static_pubkey (heap st' r) = Some pk) \<and>
    (\<not> ps_is_valid (heap st r) \<longrightarrow> \<not> ps_is_valid (heap st' r))"
  using store_steps_evolve [OF assms(1-3)] assms(4) by (auto simp: store_evolves_def evolves_def)

definition empty_store :: store where
  "empty_store = \<lparr>sessions = Map.empty, heap = (\<lambda>_. ps_new 0 0 [] 0 0 [] [] None), next_ref = 0\<rparr>"

lemma store_wf_empty: "store_wf hmac empty_store"
  by (simp add: store_wf_def empty_store_def)

theorem session_pinning_permanent_witness:
  "let key = \<lparr>network_name = ''n'', sk_peer_id = 2\<rparr>;
       st = snd (upsert_responder_session 1 [9] key None ''aes-gcm'' ''aes-gcm'' (Some [7]) empty_store);
       st' = heap_put 0 (ps_invalidate (heap st 0)) st
   in peer_static_pubkey (heap st' 0) = Some [7] \<and> \<not> ps_is_valid (heap st' 0)"
proof -
  let ?key = "\<lparr>network_name = ''n'', sk_peer_id = 2\<rparr>"
  let ?st = "snd (upsert_responder_session 1 [9] ?key None ''aes-gcm'' ''aes-gcm'' (Some [7]) empty_store)"
  let ?st' = "heap_put 0 (ps_invalidate (heap ?st 0)) ?st"
  have st: "0 < next_ref ?st" "peer_static_pubkey (heap ?st 0) = Some [7]"
    by (simp_all add: upsert_responder_session_def empty_store_def alloc_def insert_session_def ps_new_def)
  have "store_step demo_hmac demo_api ?st ?st'" by (rule step_invalidate [OF st(1)])
  then have steps: "(store_step demo_hmac demo_api)\<^sup>*\<^sup>* ?st ?st'" by (rule r_into_rtranclp)
  have wf: "store_wf demo_hmac ?st"
    by (rule store_evolves_wf [OF evolves_upsert [OF store_wf_empty]])
  have "\<not> ps_is_valid (heap ?st' 0)" by (simp add: ps_is_valid_def ps_invalidate_def)
  with session_pinning_permanent [OF steps demo_facts(1) wf st(1)] st(2)
  show ?thesis unfolding Let_def by blast
qed

theorem handshake_agreement_witness:
  "\<exists>ret st_b' r st_a'.
    upsert_responder_session 5 [9, 9] \<lparr>network_name = ''n'', sk_peer_id = 1\<rparr> None ''xor'' ''xor'' None
      empty_store = (Inr ret, st_b') \<and>
    apply_initiator_action 6 6 6 \<lparr>network_name = ''n'', sk_peer_id = 2\<rparr> (ur_action ret)
      (ur_generation ret) (ur_root_key ret) (ur_initial_epoch ret) ''xor'' ''xor'' None empty_store =
      (Inr r, st_a') \<and>
    ps_root_key (heap st_a' r) = ps_root_key (heap st_b' (ur_session ret)) \<and>
    ps_session_generation (heap st_a' r) = ps_session_generation (heap st_b' (ur_session ret)) \<and>
    send_epoch (datagram (heap st_a' r)) = ur_initial_epoch ret"
proof -
  obtain ret st_b' where u: "upsert_responder_session 5 [9, 9] \<lparr>network_name = ''n'', sk_peer_id = 1\<rparr>
      None ''xor'' ''xor'' None empty_store = (Inr ret, st_b')" and a: "ur_action ret = Create"
    "ur_root_key ret = Some [9, 9]"
    by (simp add: upsert_responder_session_def empty_store_def alloc_def)
  obtain r st_a' where i: "apply_initiator_action 6 6 6 \<lparr>network_name = ''n'', sk_peer_id = 2\<rparr>
      (ur_action ret) (ur_generation ret) (ur_root_key ret) (ur_initial_epoch ret) ''xor'' ''xor'' None
      empty_store = (Inr r, st_a')"
    using a by (simp add: apply_initiator_action_def entry_or_insert_def empty_store_def alloc_def
        insert_session_def check_session_def ps_check_encrypt_algo_same_def check_encrypt_algo_same_def
        ps_new_def session_new_def check_or_set_peer_static_pubkey_def)
  have "ur_action ret \<noteq> Join" using a by simp
  from handshake_agreement [OF u this i] u i show ?thesis by blast
qed

text \<open>
  Simultaneous connection attempts break the agreement. Two fresh nodes that answer each
  other's handshake before either applies the answer end with each other's root key: both
  handshakes succeed, both sessions are valid with generation 1, but the root keys are swapped;
  and because the generation is always 1, the next handshake joins the mismatched sessions.
\<close>

theorem simultaneous_open_disagrees:
  "\<exists>ret_b st_b1 ret_a st_a1 ra st_a2 rb st_b2 ret st_b3.
    upsert_responder_session t k_b \<lparr>network_name = nn, sk_peer_id = a\<rparr> None alg alg None empty_store
      = (Inr ret_b, st_b1) \<and>
    upsert_responder_session t k_a \<lparr>network_name = nn, sk_peer_id = b\<rparr> None alg alg None empty_store
      = (Inr ret_a, st_a1) \<and>
    apply_initiator_action t t t \<lparr>network_name = nn, sk_peer_id = b\<rparr> (ur_action ret_b)
      (ur_generation ret_b) (ur_root_key ret_b) (ur_initial_epoch ret_b) alg alg None st_a1 =
      (Inr ra, st_a2) \<and>
    apply_initiator_action t t t \<lparr>network_name = nn, sk_peer_id = a\<rparr> (ur_action ret_a)
      (ur_generation ret_a) (ur_root_key ret_a) (ur_initial_epoch ret_a) alg alg None st_b1 =
      (Inr rb, st_b2) \<and>
    ps_is_valid (heap st_a2 ra) \<and> ps_is_valid (heap st_b2 rb) \<and>
    ps_root_key (heap st_a2 ra) = k_b \<and> ps_root_key (heap st_b2 rb) = k_a \<and>
    upsert_responder_session t k \<lparr>network_name = nn, sk_peer_id = a\<rparr>
      (Some (ps_session_generation (heap st_a2 ra))) alg alg None st_b2 = (Inr ret, st_b3) \<and>
    ur_action ret = Join"
  by (simp add: upsert_responder_session_def apply_initiator_action_def entry_or_insert_def
      empty_store_def alloc_def insert_session_def check_session_def ps_check_encrypt_algo_same_def
      check_encrypt_algo_same_def ps_new_def session_new_def check_or_set_peer_static_pubkey_def
      ps_is_valid_def is_valid_def heap_put_def ps_sync_root_key_def ps_root_key_def
      ps_session_generation_def sync_root_key_def)

end
