(* ===== verification/Token_Bucket.thy ===== *)
theory Token_Bucket
  imports Prelude Complex_Main "HOL-Library.Log_Nat"
begin

text \<open>
  \<open>TokenBucket\<close> and \<open>TokenBucketManager\<close> of \<open>easytier/src/common/token_bucket.rs\<close>. The refill
  computes in \<open>f64\<close>; its values are modelled as the rationals that are representable with 53
  significant bits, every operation rounding to nearest even (no operand is subnormal or overflows:
  a non-zero elapsed time is at least a microsecond, and products stay below \<open>2 ^ 128\<close>). The
  compare-exchange loops are atomic updates. The background task is the operation \<open>refill\<close>; the
  clock is a parameter.
\<close>

section \<open>Double precision\<close>

definition pow2 :: "int \<Rightarrow> rat" where
  "pow2 e = (if 0 \<le> e then 2 ^ nat e else 1 / 2 ^ nat (- e))"

text \<open>The exponent \<open>e\<close> with \<open>pow2 e \<le> x < pow2 (e + 1)\<close>, from the bit lengths of the fraction.\<close>

definition binade :: "rat \<Rightarrow> int" where
  "binade x =
     (let (p, q) = quotient_of x;
          e = int (floorlog 2 (nat p)) - int (floorlog 2 (nat q))
      in if pow2 e \<le> x then e else e - 1)"

definition round_half_even :: "rat \<Rightarrow> int" where
  "round_half_even r =
     (let f = \<lfloor>r\<rfloor>; d = r - of_int f
      in if d < 1 / 2 then f else if d > 1 / 2 then f + 1 else if even f then f else f + 1)"

definition f64 :: "rat \<Rightarrow> rat" where
  "f64 x = (if x = 0 then 0
     else let u = pow2 (binade x - 52) in of_int (round_half_even (x / u)) * u)"

text \<open>\<open>x as u64\<close> truncates and saturates.\<close>

definition f64_as_u64 :: "rat \<Rightarrow> u64" where
  "f64_as_u64 x = (if \<lfloor>x\<rfloor> < 0 then 0 else if \<lfloor>x\<rfloor> < 2 ^ 64 then of_int \<lfloor>x\<rfloor> else - 1)"

definition u64_as_f64 :: "u64 \<Rightarrow> rat" where
  "u64_as_f64 w = f64 (of_nat (unat w))"

section \<open>Buckets\<close>

record BucketConfig =
  capacity :: u64
  fill_rate :: u64
  refill_interval_ms :: u64

text \<open>\<open>LimiterConfig\<close> is a message of three optional 64-bit fields; the product wraps.\<close>

record LimiterConfig =
  lc_burst_rate :: "u64 option"
  lc_bps :: "u64 option"
  lc_fill_duration_ms :: "u64 option"

definition bucket_config_from :: "LimiterConfig \<Rightarrow> BucketConfig" where
  "bucket_config_from cfg =
     (let burst_rate = max 1 (case lc_burst_rate cfg of Some b \<Rightarrow> b | None \<Rightarrow> 1);
          rate = max 8196 (case lc_bps cfg of Some b \<Rightarrow> b | None \<Rightarrow> (- 1) div burst_rate);
          interval = (case lc_fill_duration_ms cfg of Some x \<Rightarrow> max 1 x | None \<Rightarrow> 10)
      in \<lparr>capacity = burst_rate * rate, fill_rate = rate, refill_interval_ms = interval\<rparr>)"

record TokenBucket =
  available_tokens :: u64
  last_refill_time :: u64
  config :: BucketConfig

definition bucket_new_from_cfg :: "BucketConfig \<Rightarrow> TokenBucket" where
  "bucket_new_from_cfg cfg = \<lparr>available_tokens = capacity cfg, last_refill_time = 0, config = cfg\<rparr>"

definition bucket_new :: "u64 \<Rightarrow> u64 \<Rightarrow> u64 \<Rightarrow> TokenBucket" where
  "bucket_new cap bps interval =
     bucket_new_from_cfg \<lparr>capacity = cap, fill_rate = bps, refill_interval_ms = interval\<rparr>"

definition tokens_to_add :: "u64 \<Rightarrow> TokenBucket \<Rightarrow> u64" where
  "tokens_to_add now_micros b =
     (let elapsed_secs = f64 (u64_as_f64 (sat_sub now_micros (last_refill_time b)) / 1000000)
      in f64_as_u64 (f64 (u64_as_f64 (fill_rate (config b)) * elapsed_secs)))"

definition refill :: "u64 \<Rightarrow> TokenBucket \<Rightarrow> TokenBucket" where
  "refill now_micros b =
     (let add = tokens_to_add now_micros b;
          b = b\<lparr>last_refill_time := now_micros\<rparr>
      in if add = 0 then b
         else b\<lparr>available_tokens :=
           min (sat_add (available_tokens b) add) (capacity (config b))\<rparr>)"

definition try_consume :: "u64 \<Rightarrow> TokenBucket \<Rightarrow> TokenBucket \<times> bool" where
  "try_consume tokens b =
     (if tokens > capacity (config b) then (b, False)
      else if available_tokens b < tokens then (b, False)
      else (b\<lparr>available_tokens := available_tokens b - tokens\<rparr>, True))"

section \<open>Rounding error\<close>

lemma pow2_pos: "0 < pow2 e"
  by (simp add: pow2_def)

lemma pow2_add: "pow2 (a + b) = pow2 a * pow2 b"
proof -
  have n: "pow2 (int m - int n) = 2 ^ m / 2 ^ n" for m n :: nat
    by (cases "n \<le> m") (auto simp: pow2_def power_diff nat_diff_distrib' simp flip: of_nat_diff)
  obtain m n where a: "a = int m - int n" by (metis int_diff_cases)
  obtain k l where b: "b = int k - int l" by (metis int_diff_cases)
  have "pow2 (a + b) = pow2 (int (m + k) - int (n + l))" by (simp add: a b algebra_simps)
  then show ?thesis unfolding n a b by (simp add: power_add)
qed

lemma binade_le:
  assumes "0 < x"
  shows "pow2 (binade x) \<le> x"
proof -
  obtain p q where pq: "quotient_of x = (p, q)" by fastforce
  have q: "0 < q" and x: "x = of_int p / of_int q"
    using pq quotient_of_denom_pos quotient_of_div by blast+
  have p: "0 < p" using assms x q by (simp add: zero_less_divide_iff)
  define a b where "a = floorlog 2 (nat p)" and "b = floorlog 2 (nat q)"
  have "a \<noteq> 0" using p by (simp add: a_def floorlog_eq_zero_iff)
  then have a: "2 ^ (a - 1) \<le> nat p" "a > 0" and b: "nat q < 2 ^ b"
    using floorlog_bounds [of "nat p" 2] floorlog_bounds [of "nat q" 2] p q
    by (simp_all add: a_def b_def)
  have "pow2 (int a - int b - 1) \<le> x"
  proof -
    have "pow2 (int a - int b - 1) = pow2 (int (a - 1)) * pow2 (- int b)"
      using a(2) by (simp add: pow2_add [symmetric] of_nat_diff algebra_simps)
    also have "\<dots> = 2 ^ (a - 1) / 2 ^ b" by (simp add: pow2_def)
    also have "\<dots> \<le> of_int p / of_int q"
    proof (rule frac_le)
      have "(2::int) ^ (a - 1) \<le> p" using a(1) p by (simp add: le_nat_iff)
      then have "of_int (2 ^ (a - 1)) \<le> (of_int p :: rat)" by (rule of_int_le_iff [THEN iffD2])
      then show "2 ^ (a - 1) \<le> (of_int p :: rat)" by simp
      have "q \<le> 2 ^ b" using b q by (simp add: nat_less_iff)
      then have "of_int q \<le> (of_int (2 ^ b) :: rat)" by (rule of_int_le_iff [THEN iffD2])
      then show "of_int q \<le> (2 ^ b :: rat)" by simp
    qed (use p q in simp_all)
    finally show ?thesis using x by simp
  qed
  then show ?thesis by (simp add: binade_def pq a_def b_def Let_def)
qed

lemma round_half_even_error: "\<bar>of_int (round_half_even r) - r\<bar> \<le> 1 / 2"
proof -
  have "of_int \<lfloor>r\<rfloor> \<le> r" "r < of_int \<lfloor>r\<rfloor> + 1" using floor_correct [of r] by simp_all
  then show ?thesis by (auto simp: round_half_even_def Let_def abs_le_iff)
qed

lemma f64_error:
  assumes "0 \<le> x"
  shows "\<bar>f64 x - x\<bar> \<le> x / 2 ^ 53"
proof (cases "x = 0")
  case True
  then show ?thesis by (simp add: f64_def)
next
  case False
  define u where "u = pow2 (binade x - 52)"
  have u: "0 < u" by (simp add: u_def pow2_pos)
  have "pow2 (binade x) = u * 2 ^ 52"
    using pow2_add [of "binade x - 52" 52] by (simp add: u_def pow2_def)
  then have ux: "u * 2 ^ 52 \<le> x" using binade_le [of x] False assms by simp
  have "f64 x - x = (of_int (round_half_even (x / u)) - x / u) * u"
    using False u by (simp add: f64_def u_def [symmetric] Let_def left_diff_distrib)
  then have "\<bar>f64 x - x\<bar> = \<bar>of_int (round_half_even (x / u)) - x / u\<bar> * u"
    using u by (simp add: abs_mult)
  also have "\<dots> \<le> 1 / 2 * u"
    using round_half_even_error [of "x / u"] u by (intro mult_right_mono) simp_all
  also have "\<dots> \<le> x / 2 ^ 53" using ux by (simp add: field_simps)
  finally show ?thesis .
qed

lemma f64_bounds:
  assumes "0 \<le> x"
  shows "0 \<le> f64 x" and "f64 x \<le> x * (1 + 1 / 2 ^ 53)"
proof -
  have e: "\<bar>f64 x - x\<bar> \<le> x / 2 ^ 53" by (rule f64_error [OF assms])
  have "x / 2 ^ 53 \<le> x" using assms by (simp add: field_simps)
  then show "0 \<le> f64 x" using abs_le_D2 [OF e] by linarith
  show "f64 x \<le> x * (1 + 1 / 2 ^ 53)" using abs_le_D1 [OF e] by (simp add: algebra_simps)
qed

text \<open>The tokens of a refill, against the exact product of rate and elapsed time.\<close>

lemma f64_as_u64_le: "0 \<le> x \<Longrightarrow> of_nat (unat (f64_as_u64 x)) \<le> x"
proof -
  assume "0 \<le> x"
  then have f: "0 \<le> \<lfloor>x\<rfloor>" by simp
  have eq: "(of_nat (unat (f64_as_u64 x)) :: rat) = of_int (int (unat (f64_as_u64 x)))"
    by (rule of_int_of_nat_eq [symmetric])
  show ?thesis
  proof (cases "\<lfloor>x\<rfloor> < 2 ^ 64")
    case True
    have "int (unat (of_int \<lfloor>x\<rfloor> :: u64)) = \<lfloor>x\<rfloor>"
      using f True by (simp add: unsigned_of_int take_bit_int_eq_self_iff)
    then have "int (unat (f64_as_u64 x)) = \<lfloor>x\<rfloor>" using f True by (simp add: f64_as_u64_def)
    then have "of_nat (unat (f64_as_u64 x)) = (of_int \<lfloor>x\<rfloor> :: rat)"
      using eq by (simp only:)
    then show ?thesis by simp
  next
    case False
    have "int (unat (- 1 :: u64)) = 2 ^ 64 - 1" by (simp add: unsigned_minus_1_eq_mask mask_eq_exp_minus_1)
    then have "int (unat (f64_as_u64 x)) = 2 ^ 64 - 1" using f False by (simp add: f64_as_u64_def)
    then have "of_nat (unat (f64_as_u64 x)) = (of_int (2 ^ 64 - 1) :: rat)"
      using eq by (simp only:)
    also have "\<dots> \<le> of_int \<lfloor>x\<rfloor>" using False by (intro of_int_le_iff [THEN iffD2]) linarith
    also have "\<dots> \<le> x" by simp
    finally show ?thesis .
  qed
qed

definition exact_tokens :: "u64 \<Rightarrow> TokenBucket \<Rightarrow> rat" where
  "exact_tokens now b =
     of_nat (unat (fill_rate (config b))) * (of_nat (unat now - unat (last_refill_time b)) / 1000000)"

lemma tokens_to_add_le:
  "of_nat (unat (tokens_to_add now b)) \<le> exact_tokens now b * (1 + 1 / 2 ^ 50)"
proof -
  define c :: rat where "c = 1 + 1 / 2 ^ 53"
  have c: "1 \<le> c" "c * c * c * c \<le> 1 + 1 / 2 ^ 50" by (simp_all add: c_def)
  define r e where "r = (of_nat (unat (fill_rate (config b))) :: rat)"
    and "e = (of_nat (unat now - unat (last_refill_time b)) :: rat)"
  have nn: "0 \<le> r" "0 \<le> e" unfolding r_def e_def by (rule of_nat_0_le_iff)+
  have fr: "0 \<le> f64 r" "f64 r \<le> r * c" and fe: "0 \<le> f64 e" "f64 e \<le> e * c"
    using f64_bounds [OF nn(1)] f64_bounds [OF nn(2)] by (simp_all add: c_def)
  have fs: "0 \<le> f64 (f64 e / 1000000)" "f64 (f64 e / 1000000) \<le> f64 e / 1000000 * c"
    using f64_bounds [of "f64 e / 1000000"] fe(1) by (simp_all add: c_def)
  have s: "f64 (f64 e / 1000000) \<le> e / 1000000 * c * c"
  proof -
    have "f64 e / 1000000 * c \<le> e * c / 1000000 * c"
      using fe(2) c(1) by (intro mult_right_mono divide_right_mono) simp_all
    then show ?thesis using fs(2) by simp
  qed
  let ?p = "f64 r * f64 (f64 e / 1000000)"
  have "?p \<le> (r * c) * (e / 1000000 * c * c)"
    by (rule mult_mono [OF fr(2) s]) (use nn c(1) fs(1) in simp_all)
  then have p: "?p * c \<le> (r * c) * (e / 1000000 * c * c) * c"
    using c(1) by (intro mult_right_mono) simp_all
  have "of_nat (unat (tokens_to_add now b)) \<le> f64 ?p"
    using f64_as_u64_le [of "f64 ?p"] f64_bounds(1) [of ?p] fr(1) fs(1)
    by (simp add: tokens_to_add_def u64_as_f64_def sat_simps r_def e_def Let_def del: of_nat_unat)
  also have "\<dots> \<le> ?p * c" using f64_bounds(2) [of ?p] fr(1) fs(1) by (simp add: c_def)
  also have "\<dots> \<le> (r * c) * (e / 1000000 * c * c) * c" by (rule p)
  also have "\<dots> = r * (e / 1000000) * (c * c * c * c)" by (simp add: mult_ac)
  also have "\<dots> \<le> r * (e / 1000000) * (1 + 1 / 2 ^ 50)"
    using nn c(2) by (intro mult_left_mono) simp_all
  finally show ?thesis unfolding exact_tokens_def r_def e_def .
qed

section \<open>Rate limiters\<close>

text \<open>
  What a client of a bucket relies on: a successful consumption takes exactly its tokens, a failed
  one changes nothing, and a refill gives at most its gain. Everything a run consumes was then in
  the bucket at the start or gained on the way.
\<close>

datatype limiter_event = Refill u64 | Consume u64

fun limiter_run ::
  "(u64 \<Rightarrow> 'b \<Rightarrow> 'b \<times> bool) \<Rightarrow> (u64 \<Rightarrow> 'b \<Rightarrow> 'b) \<Rightarrow> limiter_event list \<Rightarrow> 'b \<Rightarrow> 'b \<times> nat" where
  "limiter_run con ref [] b = (b, 0)"
| "limiter_run con ref (Refill t # es) b = limiter_run con ref es (ref t b)"
| "limiter_run con ref (Consume n # es) b =
     (let (b', ok) = con n b; (b'', used) = limiter_run con ref es b'
      in (b'', if ok then unat n + used else used))"

fun gained :: "(u64 \<Rightarrow> 'b \<Rightarrow> 'b \<times> bool) \<Rightarrow> (u64 \<Rightarrow> 'b \<Rightarrow> 'b) \<Rightarrow> (u64 \<Rightarrow> 'b \<Rightarrow> nat) \<Rightarrow> limiter_event list
    \<Rightarrow> 'b \<Rightarrow> nat" where
  "gained con ref gain [] b = 0"
| "gained con ref gain (Refill t # es) b = gain t b + gained con ref gain es (ref t b)"
| "gained con ref gain (Consume n # es) b = gained con ref gain es (fst (con n b))"

locale rate_limiter =
  fixes avail :: "'b \<Rightarrow> nat"
    and con :: "u64 \<Rightarrow> 'b \<Rightarrow> 'b \<times> bool"
    and ref :: "u64 \<Rightarrow> 'b \<Rightarrow> 'b"
    and gain :: "u64 \<Rightarrow> 'b \<Rightarrow> nat"
  assumes con_True: "con n b = (b', True) \<Longrightarrow> avail b = avail b' + unat n"
    and con_False: "con n b = (b', False) \<Longrightarrow> b' = b"
    and ref_gain: "avail (ref t b) \<le> avail b + gain t b"
begin

lemma run_conservation:
  "snd (limiter_run con ref es b) + avail (fst (limiter_run con ref es b)) \<le>
     avail b + gained con ref gain es b"
proof (induction es arbitrary: b)
  case Nil
  then show ?case by simp
next
  case (Cons e es)
  show ?case
  proof (cases e)
    case (Refill t)
    then show ?thesis using Cons.IH [of "ref t b"] ref_gain [of t b] by simp
  next
    case (Consume n)
    obtain b' ok where c: "con n b = (b', ok)" by fastforce
    show ?thesis using Cons.IH [of b'] con_True [of n b b'] con_False [of n b b'] c Consume
      by (cases ok) (auto simp: split_def Let_def)
  qed
qed

end

lemma bucket_refill_fields:
  "config (refill t b) = config b" "last_refill_time (refill t b) = t"
  by (simp_all add: refill_def Let_def)

lemma try_consume_fields:
  "config (fst (try_consume n b)) = config b"
  "last_refill_time (fst (try_consume n b)) = last_refill_time b"
  by (simp_all add: try_consume_def)

interpretation bucket: rate_limiter "\<lambda>b. unat (available_tokens b)" try_consume refill
  "\<lambda>t b. unat (tokens_to_add t b)"
proof unfold_locales
  fix n b b'
  show "try_consume n b = (b', True) \<Longrightarrow> unat (available_tokens b) = unat (available_tokens b') + unat n"
    by (auto simp: try_consume_def unat_sub word_le_nat_alt not_less split: if_splits)
  show "try_consume n b = (b', False) \<Longrightarrow> b' = b"
    by (auto simp: try_consume_def split: if_splits)
next
  fix t b
  show "unat (available_tokens (refill t b)) \<le> unat (available_tokens b) + unat (tokens_to_add t b)"
    by (auto simp: refill_def Let_def min_def sat_simps word_le_nat_alt)
qed

section \<open>Properties of the bucket\<close>

definition bucket_ok :: "TokenBucket \<Rightarrow> bool" where
  "bucket_ok b \<longleftrightarrow> available_tokens b \<le> capacity (config b)"

text \<open>
  The bucket never holds more than its capacity, and consumption is exact: it succeeds if and
  only if the tokens are there, takes exactly those, and otherwise changes nothing.
\<close>

theorem bucket_invariant:
  assumes "bucket_ok b"
  shows "bucket_ok (refill t b) \<and> bucket_ok (fst (try_consume n b)) \<and>
    (snd (try_consume n b) \<longleftrightarrow> n \<le> available_tokens b) \<and>
    fst (try_consume n b) = (if n \<le> available_tokens b
      then b\<lparr>available_tokens := available_tokens b - n\<rparr> else b)"
proof -
  have "n \<le> available_tokens b \<Longrightarrow> available_tokens b - n \<le> available_tokens b"
    by (simp add: word_le_nat_alt unat_sub)
  then show ?thesis using assms
    by (auto simp: bucket_ok_def refill_def try_consume_def Let_def)
qed

theorem bucket_invariant_witness:
  "let b = bucket_new 100 50 10 in bucket_ok (refill 7 b) \<and> bucket_ok (fst (try_consume 30 b)) \<and>
    (snd (try_consume 30 b) \<longleftrightarrow> 30 \<le> available_tokens b) \<and>
    fst (try_consume 30 b) = (if 30 \<le> available_tokens b
      then b\<lparr>available_tokens := available_tokens b - 30\<rparr> else b)"
  using bucket_invariant [of "bucket_new 100 50 10" 7 30] unfolding Let_def
  by (simp add: bucket_ok_def bucket_new_def bucket_new_from_cfg_def)

text \<open>Refill times that do not go back.\<close>

fun times_from :: "u64 \<Rightarrow> limiter_event list \<Rightarrow> bool" where
  "times_from t [] = True"
| "times_from t (Refill t' # es) = (t \<le> t' \<and> times_from t' es)"
| "times_from t (Consume n # es) = times_from t es"

lemma exact_tokens_split:
  assumes "last_refill_time b \<le> t" and "t \<le> t'"
  shows "exact_tokens t b + exact_tokens t' (refill t b) = exact_tokens t' b"
proof -
  have "unat t' - unat (last_refill_time b) = (unat t - unat (last_refill_time b)) + (unat t' - unat t)"
    using assms by (simp add: word_le_nat_alt)
  then show ?thesis
    by (simp add: exact_tokens_def bucket_refill_fields distrib_left add_divide_distrib del: of_nat_unat)
qed

lemma last_refill_run:
  "times_from (last_refill_time b) es \<Longrightarrow>
     last_refill_time b \<le> last_refill_time (fst (limiter_run try_consume refill es b))"
proof (induction es arbitrary: b)
  case (Cons e es)
  then show ?case
  proof (cases e)
    case (Refill t)
    then show ?thesis using Cons.IH [of "refill t b"] Cons.prems
      by (auto simp: bucket_refill_fields intro: order_trans)
  next
    case (Consume n)
    then show ?thesis using Cons.IH [of "fst (try_consume n b)"] Cons.prems
      by (auto simp: try_consume_fields split_def Let_def)
  qed
qed simp

lemma gained_le:
  assumes "times_from (last_refill_time b) es"
  shows "of_nat (gained try_consume refill (\<lambda>t b. unat (tokens_to_add t b)) es b) \<le>
    exact_tokens (last_refill_time (fst (limiter_run try_consume refill es b))) b * (1 + 1 / 2 ^ 50)"
  using assms
proof (induction es arbitrary: b)
  case Nil
  then show ?case by (simp add: exact_tokens_def)
next
  case (Cons e es)
  show ?case
  proof (cases e)
    case (Refill t)
    define t' where "t' = last_refill_time (fst (limiter_run try_consume refill es (refill t b)))"
    have le: "last_refill_time b \<le> t" "times_from t es" using Cons.prems Refill by simp_all
    then have "t \<le> t'" using last_refill_run [of "refill t b" es] by (simp add: bucket_refill_fields t'_def)
    then have "exact_tokens t b + exact_tokens t' (refill t b) = exact_tokens t' b"
      by (rule exact_tokens_split [OF le(1)])
    moreover have "of_nat (gained try_consume refill (\<lambda>t b. unat (tokens_to_add t b)) es (refill t b)) \<le>
        exact_tokens t' (refill t b) * (1 + 1 / 2 ^ 50)"
      using Cons.IH [of "refill t b"] le(2) by (simp add: bucket_refill_fields t'_def)
    ultimately show ?thesis using Refill tokens_to_add_le [of t b]
      by (simp add: t'_def [symmetric] distrib_right del: of_nat_unat flip: \<open>_ = exact_tokens t' b\<close>)
  next
    case (Consume n)
    have "exact_tokens t (fst (try_consume n b)) = exact_tokens t b" for t
      by (simp add: exact_tokens_def try_consume_fields)
    then show ?thesis using Cons.IH [of "fst (try_consume n b)"] Cons.prems Consume
      by (simp add: try_consume_fields split_def Let_def)
  qed
qed

text \<open>
  C18. The rate limit holds whatever the sequence of refills and consumptions: a fresh bucket lets
  through at most its capacity plus the fill rate times the time elapsed until the last refill,
  up to the rounding of the double-precision product (a relative error below \<open>2 ^ -50\<close>).
\<close>

theorem bucket_rate_limit:
  assumes "times_from 0 es" and "b = bucket_new_from_cfg cfg"
    and "limiter_run try_consume refill es b = (b', used)"
  shows "(of_nat used :: rat) \<le> of_nat (unat (capacity cfg)) +
    of_nat (unat (fill_rate cfg)) * (of_nat (unat (last_refill_time b')) / 1000000) * (1 + 1 / 2 ^ 50)"
proof -
  let ?g = "gained try_consume refill (\<lambda>t b. unat (tokens_to_add t b)) es b"
  have b: "available_tokens b = capacity cfg" "last_refill_time b = 0" "config b = cfg"
    using assms(2) by (simp_all add: bucket_new_from_cfg_def)
  have "used \<le> unat (capacity cfg) + ?g"
    using bucket.run_conservation [of es b] assms(3) b(1) by simp
  then have "(of_nat used :: rat) \<le> of_nat (unat (capacity cfg)) + of_nat ?g"
    by (metis of_nat_add of_nat_le_iff)
  moreover have "of_nat ?g \<le> exact_tokens (last_refill_time b') b * (1 + 1 / 2 ^ 50)"
    using gained_le [of b es] assms(1,3) b(2) by simp
  ultimately show ?thesis by (simp add: exact_tokens_def b del: of_nat_unat)
qed

theorem bucket_rate_limit_witness:
  "(of_nat (snd (limiter_run try_consume refill [Consume 3] (bucket_new_from_cfg
      \<lparr>capacity = 5, fill_rate = 1000, refill_interval_ms = 10\<rparr>))) :: rat) \<le>
    of_nat (unat (5 :: u64)) + of_nat (unat (1000 :: u64)) * (of_nat (unat (0 :: u64)) / 1000000) * (1 + 1 / 2 ^ 50)"
proof -
  let ?cfg = "\<lparr>capacity = 5, fill_rate = 1000, refill_interval_ms = 10\<rparr>"
  have "times_from 0 [Consume 3]" by simp
  moreover have "limiter_run try_consume refill [Consume 3] (bucket_new_from_cfg ?cfg) =
      ((bucket_new_from_cfg ?cfg)\<lparr>available_tokens := 2\<rparr>, 3)"
    by (simp add: try_consume_def bucket_new_from_cfg_def)
  ultimately show ?thesis
    using bucket_rate_limit [of "[Consume 3]" "bucket_new_from_cfg ?cfg" ?cfg
        "(bucket_new_from_cfg ?cfg)\<lparr>available_tokens := 2\<rparr>" 3]
    by (simp add: bucket_new_from_cfg_def)
qed

text \<open>Ticks that come so often that the rate gives less than one token between two of them.\<close>

fun short_ticks :: "u64 \<Rightarrow> u64 \<Rightarrow> u64 list \<Rightarrow> bool" where
  "short_ticks rate t [] = True"
| "short_ticks rate t (t' # ts) \<longleftrightarrow>
     unat rate * (unat t' - unat t) < 1000000 \<and> short_ticks rate t' ts"

lemma tokens_to_add_zero:
  assumes "unat (fill_rate (config b)) * (unat now - unat (last_refill_time b)) < 1000000"
  shows "tokens_to_add now b = 0"
proof -
  define k where "k = unat (fill_rate (config b)) * (unat now - unat (last_refill_time b))"
  have e: "exact_tokens now b = of_nat k / 1000000"
    by (simp add: exact_tokens_def k_def del: of_nat_unat)
  have "k \<le> 999999" using assms by (simp add: k_def)
  then have "(of_nat k :: rat) \<le> of_nat 999999" by (rule of_nat_mono)
  then have "exact_tokens now b * (1 + 1 / 2 ^ 50) \<le> 999999 / 1000000 * (1 + 1 / 2 ^ 50)"
    unfolding e by (intro mult_right_mono divide_right_mono) simp_all
  also have "\<dots> < 1" by simp
  finally have "(of_nat (unat (tokens_to_add now b)) :: rat) < of_nat 1"
    using tokens_to_add_le [of now b] by (simp del: of_nat_unat)
  then have "unat (tokens_to_add now b) < 1" by (simp only: of_nat_less_iff)
  then show ?thesis by (simp add: unat_eq_0)
qed

text \<open>
  The time of the last refill is stored even when a refill adds nothing, so the fractions of a
  token are lost: if the ticks come so often that the rate gives less than one token per tick, the
  bucket never gains a token, however long it waits. With the 10 ms ticks of the access control
  rules this is every rate below 100 per second.
\<close>

theorem slow_rate_never_refills:
  assumes "short_ticks (fill_rate (config b)) (last_refill_time b) ticks"
  shows "available_tokens (fold refill ticks b) = available_tokens b"
  using assms
proof (induction ticks arbitrary: b)
  case (Cons t ts)
  then have "tokens_to_add t b = 0" by (intro tokens_to_add_zero) simp
  then have "available_tokens (refill t b) = available_tokens b" by (simp add: refill_def)
  then show ?case using Cons by (simp add: bucket_refill_fields)
qed simp

theorem slow_rate_never_refills_witness:
  "available_tokens (fold refill [10000, 20000, 30000, 40000]
     ((bucket_new 10 50 10)\<lparr>available_tokens := 0\<rparr>)) = 0"
  using slow_rate_never_refills [of "(bucket_new 10 50 10)\<lparr>available_tokens := 0\<rparr>"
      "[10000, 20000, 30000, 40000]"]
  by (simp add: bucket_new_def bucket_new_from_cfg_def)

section \<open>The manager\<close>

text \<open>Buckets are shared (\<open>Arc\<close>): the map holds references into a heap of buckets.\<close>

record TokenBucketManager =
  buckets :: "string \<rightharpoonup> nat"
  bucket_heap :: "nat \<Rightarrow> TokenBucket"
  bucket_next :: nat

definition retain_used :: "(nat \<Rightarrow> nat) \<Rightarrow> TokenBucketManager \<Rightarrow> TokenBucketManager" where
  "retain_used strong_count m = m\<lparr>buckets := (\<lambda>key. case buckets m key of
     Some r \<Rightarrow> if strong_count r > 1 then Some r else None | None \<Rightarrow> None)\<rparr>"

definition get_or_create :: "string \<Rightarrow> BucketConfig \<Rightarrow> TokenBucketManager \<Rightarrow> nat \<times> TokenBucketManager" where
  "get_or_create key cfg m =
     (case buckets m key of
        Some r \<Rightarrow> (r, m)
      | None \<Rightarrow>
          let r = bucket_next m
          in (r, m\<lparr>buckets := (buckets m)(key \<mapsto> r),
                   bucket_heap := (bucket_heap m)(r := bucket_new_from_cfg cfg),
                   bucket_next := r + 1\<rparr>))"

end
