(* ===== verification/Acl_Processor.thy ===== *)
theory Acl_Processor
  imports Token_Bucket
begin

text \<open>
  The access control engine of \<open>easytier/src/common/acl_processor.rs\<close>: compiling the configured
  chains into rule lists, matching packets, rate limits, connection tracking, statistics and the
  result cache with its clean-up, and the rules generated from port whitelists. The \<open>cidr\<close> crate is
  the parameter \<open>api\<close>. Instants and durations are natural numbers of nanoseconds; a handler reads the
  clock once (\<open>now\<close>, and \<open>secs\<close> for the Unix time). \<open>DashMap\<close>s that are iterated are association
  lists; a string rendered from a tuple and used only as a key is the tuple. Handlers are atomic.
\<close>

section \<open>Configuration messages (acl.proto)\<close>

datatype Protocol = P_Unspecified | P_Tcp | P_Udp | P_Icmp | P_IcmpV6 | P_Any
datatype Action = A_Noop | A_Allow | A_Drop
datatype ChainType = C_Unspecified | C_Inbound | C_Outbound | C_Forward

text \<open>Enum fields are integers on the wire; an accessor maps an unknown value to the first variant.\<close>

definition Protocol_of :: "int \<Rightarrow> Protocol" where
  "Protocol_of i = (if i = 1 then P_Tcp else if i = 2 then P_Udp else if i = 3 then P_Icmp
     else if i = 4 then P_IcmpV6 else if i = 5 then P_Any else P_Unspecified)"

definition Action_of :: "int \<Rightarrow> Action" where
  "Action_of i = (if i = 1 then A_Allow else if i = 2 then A_Drop else A_Noop)"

definition ChainType_of :: "int \<Rightarrow> ChainType" where
  "ChainType_of i = (if i = 1 then C_Inbound else if i = 2 then C_Outbound
     else if i = 3 then C_Forward else C_Unspecified)"

primrec ChainType_code :: "ChainType \<Rightarrow> int" where
  "ChainType_code C_Unspecified = 0"
| "ChainType_code C_Inbound = 1"
| "ChainType_code C_Outbound = 2"
| "ChainType_code C_Forward = 3"

record Rule =
  r_name :: string
  r_description :: string
  r_priority :: u32
  r_enabled :: bool
  r_protocol :: int
  r_ports :: "string list"
  r_source_ips :: "string list"
  r_destination_ips :: "string list"
  r_source_ports :: "string list"
  r_action :: int
  r_rate_limit :: u32
  r_burst_limit :: u32
  r_stateful :: bool
  r_source_groups :: "string list"
  r_destination_groups :: "string list"

record Chain =
  c_name :: string
  c_chain_type :: int
  c_description :: string
  c_enabled :: bool
  c_rules :: "Rule list"
  c_default_action :: int

text \<open>\<open>AclV1\<close> without its group declarations, which the processor does not use.\<close>

record Acl =
  acl_v1 :: "Chain list option"

section \<open>Packets, rules and results\<close>

datatype IpAddr = IpV4 u32 | IpV6 "128 word"

datatype 'c IpCidr = CidrV4 'c | CidrV6 'c

record 'c cidr_api =
  cidr_from_str :: "string \<Rightarrow> 'c IpCidr option"
  v4_contains :: "'c \<Rightarrow> u32 \<Rightarrow> bool"
  v6_contains :: "'c \<Rightarrow> 128 word \<Rightarrow> bool"

record PacketInfo =
  src_ip :: IpAddr
  dst_ip :: IpAddr
  src_port :: "u16 option"
  dst_port :: "u16 option"
  pi_protocol :: Protocol
  packet_size :: nat
  src_groups :: "string list"
  dst_groups :: "string list"

datatype RateLimitKey = RateLimitKey ChainType u32

record RateLimitValue =
  token_bucket :: TokenBucket
  last_update :: nat

datatype RuleId = RI_Priority u32 | RI_Stateful u32 | RI_Default

text \<open>\<open>rule_stats\<close> is a reference to the counters of the rule.\<close>

record 'c FastLookupRule =
  priority :: u32
  protocol :: Protocol
  src_ip_ranges :: "'c IpCidr list"
  dst_ip_ranges :: "'c IpCidr list"
  src_port_ranges :: "(u16 \<times> u16) list"
  dst_port_ranges :: "(u16 \<times> u16) list"
  source_groups :: "string list"
  destination_groups :: "string list"
  action :: Action
  enabled :: bool
  stateful :: bool
  rate_limit :: u32
  burst_limit :: u32
  rule_stats :: nat

record AclCacheKey =
  k_chain_type :: ChainType
  k_protocol :: Protocol
  k_src_ip :: IpAddr
  k_dst_ip :: IpAddr
  k_src_port :: u16
  k_dst_port :: u16
  k_src_groups :: "string list"
  k_dst_groups :: "string list"

definition from_packet_info :: "PacketInfo \<Rightarrow> ChainType \<Rightarrow> AclCacheKey" where
  "from_packet_info p ct =
     \<lparr>k_chain_type = ct, k_protocol = pi_protocol p, k_src_ip = src_ip p, k_dst_ip = dst_ip p,
      k_src_port = (case src_port p of Some x \<Rightarrow> x | None \<Rightarrow> 0),
      k_dst_port = (case dst_port p of Some x \<Rightarrow> x | None \<Rightarrow> 0),
      k_src_groups = src_groups p, k_dst_groups = dst_groups p\<rparr>"

datatype AclLogContext = StatefulMatch IpAddr IpAddr | RuleMatch IpAddr IpAddr Action
  | DefaultDrop | DefaultAllow | UnsupportedChainType | RateLimitDrop

record AclResult =
  res_action :: Action
  res_matched_rule :: "RuleId option"
  should_log :: bool
  log_context :: "AclLogContext option"

text \<open>The key of the connection table, rendered by the code as \<open>src:port->dst:port\<close>.\<close>

type_synonym conn_key = "IpAddr \<times> u16 \<times> IpAddr \<times> u16"

datatype ConnState = CS_New | CS_Established

record ConnTrackEntry =
  src_addr :: "IpAddr \<times> u16"
  dst_addr :: "IpAddr \<times> u16"
  ct_protocol :: Protocol
  ct_state :: ConnState
  created_at :: u64
  last_seen :: u64
  ct_packet_count :: u64
  ct_byte_count :: u64

record AclCacheEntry =
  e_action :: Action
  e_matched_rule :: RuleId
  last_access :: nat
  e_conn_track_key :: "conn_key option"
  rate_limit_keys :: "RateLimitKey list"
  e_chain_type :: ChainType
  acl_result :: "AclResult option"
  rule_stats_vec :: "nat list"

datatype AclStatKey = CacheHits | CacheSize | CacheMaxSize | RuleMatches | DefaultAllows | DefaultDrops
  | PacketsTotal | PacketsAllowed | PacketsDropped | PacketsNoop
  | InboundPacketsTotal | InboundPacketsAllowed | InboundPacketsDropped | InboundPacketsNoop
  | OutboundPacketsTotal | OutboundPacketsAllowed | OutboundPacketsDropped | OutboundPacketsNoop
  | ForwardPacketsTotal | ForwardPacketsAllowed | ForwardPacketsDropped | ForwardPacketsNoop
  | UnknownPacketsTotal | UnknownPacketsAllowed | UnknownPacketsDropped | UnknownPacketsNoop

datatype AclStatType = ST_Total | ST_Allowed | ST_Dropped | ST_Noop

fun from_chain_and_action :: "ChainType \<Rightarrow> AclStatType \<Rightarrow> AclStatKey" where
  "from_chain_and_action C_Inbound ST_Total = InboundPacketsTotal"
| "from_chain_and_action C_Inbound ST_Allowed = InboundPacketsAllowed"
| "from_chain_and_action C_Inbound ST_Dropped = InboundPacketsDropped"
| "from_chain_and_action C_Inbound ST_Noop = InboundPacketsNoop"
| "from_chain_and_action C_Outbound ST_Total = OutboundPacketsTotal"
| "from_chain_and_action C_Outbound ST_Allowed = OutboundPacketsAllowed"
| "from_chain_and_action C_Outbound ST_Dropped = OutboundPacketsDropped"
| "from_chain_and_action C_Outbound ST_Noop = OutboundPacketsNoop"
| "from_chain_and_action C_Forward ST_Total = ForwardPacketsTotal"
| "from_chain_and_action C_Forward ST_Allowed = ForwardPacketsAllowed"
| "from_chain_and_action C_Forward ST_Dropped = ForwardPacketsDropped"
| "from_chain_and_action C_Forward ST_Noop = ForwardPacketsNoop"
| "from_chain_and_action _ ST_Total = UnknownPacketsTotal"
| "from_chain_and_action _ ST_Allowed = UnknownPacketsAllowed"
| "from_chain_and_action _ ST_Dropped = UnknownPacketsDropped"
| "from_chain_and_action _ ST_Noop = UnknownPacketsNoop"

section \<open>Port ranges\<close>

text \<open>
  \<open>u16::from_str\<close>: an optional plus sign, at least one digit, no overflow.
\<close>

definition is_digit :: "char \<Rightarrow> bool" where
  "is_digit ch \<longleftrightarrow> CHR ''0'' \<le> ch \<and> ch \<le> CHR ''9''"

definition digit_val :: "char \<Rightarrow> nat" where
  "digit_val ch = of_char ch - 48"

definition parse_u16 :: "string \<Rightarrow> u16 option" where
  "parse_u16 s =
     (let ds = (if s \<noteq> [] \<and> hd s = CHR ''+'' then tl s else s);
          n = fold (\<lambda>ch acc. acc * 10 + digit_val ch) ds 0
      in if ds = [] \<or> \<not> list_all is_digit ds then None
         else if n < 65536 then Some (of_nat n) else None)"

text \<open>\<open>u16::to_string\<close>\<close>

fun show_nat :: "nat \<Rightarrow> string" where
  "show_nat n = (if n < 10 then [char_of (48 + n)] else show_nat (n div 10) @ [char_of (48 + n mod 10)])"

declare show_nat.simps [simp del]

text \<open>\<open>s.split_once('-')\<close>\<close>

definition split_once_dash :: "string \<Rightarrow> (string \<times> string) option" where
  "split_once_dash s =
     (case dropWhile (\<lambda>ch. ch \<noteq> CHR ''-'') s of
        [] \<Rightarrow> None
      | _ # r \<Rightarrow> Some (takeWhile (\<lambda>ch. ch \<noteq> CHR ''-'') s, r))"

definition parse_port_range :: "string \<Rightarrow> (u16 \<times> u16) option" where
  "parse_port_range s =
     (case split_once_dash s of
        Some (a, b) \<Rightarrow> do {
          start \<leftarrow> parse_u16 (trim a);
          en \<leftarrow> parse_u16 (trim b);
          Some (start, en) }
      | None \<Rightarrow> do { port \<leftarrow> parse_u16 (trim s); Some (port, port) })"

definition parse_port_start :: "string list \<Rightarrow> u16 option" where
  "parse_port_start strs =
     (case List.map_filter (\<lambda>s. map_option fst (parse_port_range s)) strs of
        [] \<Rightarrow> None | xs \<Rightarrow> Some (Min (set xs)))"

definition parse_port_end :: "string list \<Rightarrow> u16 option" where
  "parse_port_end strs =
     (case List.map_filter (\<lambda>s. map_option snd (parse_port_range s)) strs of
        [] \<Rightarrow> None | xs \<Rightarrow> Some (Max (set xs)))"

section \<open>Compiling the rules\<close>

definition convert_ip_inet_to_cidr :: "'c cidr_api \<Rightarrow> string \<Rightarrow> 'c IpCidr option" where
  "convert_ip_inet_to_cidr api s = cidr_from_str api s"

definition convert_to_fast_lookup_rule :: "'c cidr_api \<Rightarrow> Rule \<Rightarrow> nat \<Rightarrow> 'c FastLookupRule" where
  "convert_to_fast_lookup_rule api r ref =
     \<lparr>priority = r_priority r, protocol = Protocol_of (r_protocol r),
      src_ip_ranges = List.map_filter (convert_ip_inet_to_cidr api) (r_source_ips r),
      dst_ip_ranges = List.map_filter (convert_ip_inet_to_cidr api) (r_destination_ips r),
      src_port_ranges = List.map_filter parse_port_range (r_source_ports r),
      dst_port_ranges = List.map_filter parse_port_range (r_ports r),
      source_groups = r_source_groups r, destination_groups = r_destination_groups r,
      action = Action_of (r_action r), enabled = r_enabled r, stateful = r_stateful r,
      rate_limit = r_rate_limit r, burst_limit = r_burst_limit r, rule_stats = ref\<rparr>"

text \<open>
  The three rule lists, and the next free counter reference. Each chain is sorted by descending
  priority (stable); the chains of one type are concatenated in configuration order.
\<close>

definition chain_rules :: "'c cidr_api \<Rightarrow> Chain \<Rightarrow> nat \<Rightarrow> 'c FastLookupRule list" where
  "chain_rules api c n =
     (let rs = filter r_enabled (c_rules c)
      in sort_key (\<lambda>r. - uint (priority r))
           (map2 (convert_to_fast_lookup_rule api) rs [n..<n + length rs]))"

fun build_rules_from :: "'c cidr_api \<Rightarrow> Chain list \<Rightarrow> nat
    \<Rightarrow> 'c FastLookupRule list \<times> 'c FastLookupRule list \<times> 'c FastLookupRule list" where
  "build_rules_from api [] n = ([], [], [])"
| "build_rules_from api (c # cs) n =
     (if \<not> c_enabled c then build_rules_from api cs n
      else let rules = chain_rules api c n;
               (i, out, f) = build_rules_from api cs (n + length rules)
           in case ChainType_of (c_chain_type c) of
                C_Inbound \<Rightarrow> (rules @ i, out, f)
              | C_Outbound \<Rightarrow> (i, rules @ out, f)
              | C_Forward \<Rightarrow> (i, out, rules @ f)
              | C_Unspecified \<Rightarrow> (i, out, f))"

text \<open>Reference 0 is the counter of the default rule.\<close>

definition build_rules :: "'c cidr_api \<Rightarrow> Acl
    \<Rightarrow> 'c FastLookupRule list \<times> 'c FastLookupRule list \<times> 'c FastLookupRule list" where
  "build_rules api acl = (case acl_v1 acl of Some cs \<Rightarrow> build_rules_from api cs 1 | None \<Rightarrow> ([], [], []))"

definition default_action_of :: "Acl \<Rightarrow> ChainType \<Rightarrow> Action" where
  "default_action_of acl ct =
     (case Option.bind (acl_v1 acl) (find (\<lambda>c. c_chain_type c = ChainType_code ct)) of
        Some c \<Rightarrow> Action_of (c_default_action c)
      | None \<Rightarrow> A_Allow)"

definition build_default_actions :: "Acl \<Rightarrow> Action \<times> Action \<times> Action" where
  "build_default_actions acl =
     (default_action_of acl C_Inbound, default_action_of acl C_Outbound, default_action_of acl C_Forward)"

section \<open>The processor\<close>

text \<open>The counters (packets, bytes) of the rules are behind references; \<open>stat_heap\<close> holds them.\<close>

record 'c AclProcessor =
  inbound_rules :: "'c FastLookupRule list"
  outbound_rules :: "'c FastLookupRule list"
  forward_rules :: "'c FastLookupRule list"
  default_inbound_action :: Action
  default_outbound_action :: Action
  default_forward_action :: Action
  default_rule_stats :: nat
  stat_heap :: "nat \<Rightarrow> u64 \<times> u64"
  conn_track :: "conn_key \<rightharpoonup> ConnTrackEntry"
  rate_limiters :: "RateLimitKey \<rightharpoonup> RateLimitValue"
  rule_cache :: "(AclCacheKey \<times> AclCacheEntry) list"
  cache_max_size :: nat
  cache_cleanup_interval :: nat
  stats :: "AclStatKey \<rightharpoonup> u64"

definition new_with_shared_state :: "'c cidr_api \<Rightarrow> Acl \<Rightarrow> (conn_key \<rightharpoonup> ConnTrackEntry) option
    \<Rightarrow> (RateLimitKey \<rightharpoonup> RateLimitValue) option \<Rightarrow> (AclStatKey \<rightharpoonup> u64) option \<Rightarrow> 'c AclProcessor" where
  "new_with_shared_state api acl ct rl st =
     (let (i, out, f) = build_rules api acl;
          (di, do', df) = build_default_actions acl
      in \<lparr>inbound_rules = i, outbound_rules = out, forward_rules = f,
          default_inbound_action = di, default_outbound_action = do', default_forward_action = df,
          default_rule_stats = 0, stat_heap = (\<lambda>_. (0, 0)),
          conn_track = (case ct of Some m \<Rightarrow> m | None \<Rightarrow> Map.empty),
          rate_limiters = (case rl of Some m \<Rightarrow> m | None \<Rightarrow> Map.empty),
          rule_cache = [], cache_max_size = 1024, cache_cleanup_interval = 20 * SEC,
          stats = (case st of Some m \<Rightarrow> m | None \<Rightarrow> Map.empty)\<rparr>)"

definition acl_new :: "'c cidr_api \<Rightarrow> Acl \<Rightarrow> 'c AclProcessor" where
  "acl_new api acl = new_with_shared_state api acl None None None"

definition get_shared_state where
  "get_shared_state p = (conn_track p, rate_limiters p, stats p)"

section \<open>Matching\<close>

definition cidr_matches :: "'c cidr_api \<Rightarrow> IpAddr \<Rightarrow> 'c IpCidr \<Rightarrow> bool" where
  "cidr_matches api ip cidr = (case (cidr, ip) of
     (CidrV4 c, IpV4 a) \<Rightarrow> v4_contains api c a
   | (CidrV6 c, IpV6 a) \<Rightarrow> v6_contains api c a
   | _ \<Rightarrow> False)"

definition port_ok :: "u16 option \<Rightarrow> (u16 \<times> u16) list \<Rightarrow> bool" where
  "port_ok port ranges = (case port of
     Some x \<Rightarrow> ranges = [] \<or> list_ex (\<lambda>(start, en). start \<le> x \<and> x \<le> en) ranges
   | None \<Rightarrow> True)"

definition rule_matches :: "'c cidr_api \<Rightarrow> 'c FastLookupRule \<Rightarrow> PacketInfo \<Rightarrow> bool" where
  "rule_matches api r p =
     (if protocol r \<noteq> P_Any \<and> protocol r \<noteq> pi_protocol p then False
      else if src_ip_ranges r \<noteq> [] \<and> \<not> list_ex (cidr_matches api (src_ip p)) (src_ip_ranges r) then False
      else if dst_ip_ranges r \<noteq> [] \<and> \<not> list_ex (cidr_matches api (dst_ip p)) (dst_ip_ranges r) then False
      else if \<not> port_ok (src_port p) (src_port_ranges r) then False
      else if \<not> port_ok (dst_port p) (dst_port_ranges r) then False
      else if source_groups r \<noteq> [] \<and> \<not> list_ex (\<lambda>g. g \<in> set (source_groups r)) (src_groups p) then False
      else if destination_groups r \<noteq> [] \<and> \<not> list_ex (\<lambda>g. g \<in> set (destination_groups r)) (dst_groups p)
      then False
      else True)"

section \<open>State operations\<close>

definition increment_stat :: "AclStatKey \<Rightarrow> 'c AclProcessor \<Rightarrow> 'c AclProcessor" where
  "increment_stat key p =
     p\<lparr>stats := (stats p)(key \<mapsto> (case stats p key of Some n \<Rightarrow> n + 1 | None \<Rightarrow> 1))\<rparr>"

text \<open>The counters wrap; every entry of the list counts the packet once.\<close>

definition inc_cache_entry_stats :: "AclCacheEntry \<Rightarrow> PacketInfo \<Rightarrow> 'c AclProcessor \<Rightarrow> 'c AclProcessor" where
  "inc_cache_entry_stats e pkt p =
     p\<lparr>stat_heap := fold (\<lambda>r h. h(r := (fst (h r) + 1, snd (h r) + of_nat (packet_size pkt))))
        (rule_stats_vec e) (stat_heap p)\<rparr>"

definition get_rules_stats :: "'c AclProcessor \<Rightarrow> (u64 \<times> u64) list" where
  "get_rules_stats p = map (\<lambda>r. stat_heap p (rule_stats r)) (inbound_rules p @ outbound_rules p @ forward_rules p)"

definition conn_track_key :: "PacketInfo \<Rightarrow> conn_key" where
  "conn_track_key pkt =
     (src_ip pkt, case src_port pkt of Some x \<Rightarrow> x | None \<Rightarrow> 0,
      dst_ip pkt, case dst_port pkt of Some x \<Rightarrow> x | None \<Rightarrow> 0)"

definition check_connection_state :: "u64 \<Rightarrow> conn_key \<Rightarrow> PacketInfo \<Rightarrow> 'c AclProcessor \<Rightarrow> 'c AclProcessor"
where
  "check_connection_state secs key pkt p =
     p\<lparr>conn_track := (conn_track p)(key \<mapsto> (case conn_track p key of
        Some x \<Rightarrow> x\<lparr>last_seen := secs, ct_packet_count := ct_packet_count x + 1,
            ct_byte_count := ct_byte_count x + of_nat (packet_size pkt), ct_state := CS_Established\<rparr>
      | None \<Rightarrow>
          \<lparr>src_addr = (src_ip pkt, case src_port pkt of Some x \<Rightarrow> x | None \<Rightarrow> 0),
           dst_addr = (dst_ip pkt, case dst_port pkt of Some x \<Rightarrow> x | None \<Rightarrow> 0),
           ct_protocol = pi_protocol pkt, ct_state = CS_New, created_at = secs, last_seen = secs,
           ct_packet_count = 1, ct_byte_count = of_nat (packet_size pkt)\<rparr>))\<rparr>"

text \<open>A bucket that is missing when it may not be created is the panic of the closure.\<close>

definition check_rate_limit :: "nat \<Rightarrow> RateLimitKey \<Rightarrow> u32 \<Rightarrow> u32 \<Rightarrow> bool \<Rightarrow> 'c AclProcessor
    \<Rightarrow> (bool \<times> 'c AclProcessor) may_panic" where
  "check_rate_limit now key rate burst allow_create p =
     (if rate = 0 then Some (True, p)
      else do {
        v \<leftarrow> (case rate_limiters p key of
            Some v \<Rightarrow> Some v
          | None \<Rightarrow> if \<not> allow_create then None
              else Some \<lparr>token_bucket = bucket_new (ucast burst) (ucast rate) 10, last_update = now\<rparr>);
        let (b, ok) = try_consume 1 (token_bucket v);
        Some (ok, p\<lparr>rate_limiters := (rate_limiters p)(key \<mapsto> \<lparr>token_bucket = b, last_update = now\<rparr>)\<rparr>) })"

text \<open>
  Entries not used for 15 seconds go; if more than the maximum remain, the least recently used
  go, down to four fifths of the maximum.
\<close>

definition cleanup_cache :: "nat \<Rightarrow> nat \<Rightarrow> (AclCacheKey \<times> AclCacheEntry) list
    \<Rightarrow> (AclCacheKey \<times> AclCacheEntry) list" where
  "cleanup_cache now max_size cache =
     (let expired_timepoint = (if 15 * SEC \<le> now then now - 15 * SEC else now);
          cache = filter (\<lambda>(_, e). last_access e > expired_timepoint) cache;
          current_size = length cache
      in if current_size \<le> max_size then cache
         else let entries = sort_key snd (map (\<lambda>(k, e). (k, last_access e)) cache);
                  to_remove = current_size - max_size + max_size div 5
              in fold (\<lambda>(k, _). AList.delete k) (take to_remove entries) cache)"

definition cache_result :: "nat \<Rightarrow> AclCacheKey \<Rightarrow> AclCacheEntry \<Rightarrow> 'c AclProcessor \<Rightarrow> 'c AclProcessor" where
  "cache_result now key e p =
     (let cache = AList.update key e (rule_cache p)
      in p\<lparr>rule_cache := (if length cache > cache_max_size p * 2
             then cleanup_cache now (cache_max_size p) cache else cache)\<rparr>)"

text \<open>One tick of each of the two background tasks.\<close>

definition cache_cleanup_tick :: "nat \<Rightarrow> 'c AclProcessor \<Rightarrow> 'c AclProcessor" where
  "cache_cleanup_tick now p =
     p\<lparr>rule_cache := cleanup_cache now (cache_max_size p) (rule_cache p),
       rate_limiters := (\<lambda>k. case rate_limiters p k of
          Some v \<Rightarrow> if now - last_update v < cache_cleanup_interval p then Some v else None
        | None \<Rightarrow> None)\<rparr>"

text \<open>The subtraction of the two Unix times wraps.\<close>

definition cleanup_expired_connections :: "u64 \<Rightarrow> u64 \<Rightarrow> 'c AclProcessor \<Rightarrow> 'c AclProcessor" where
  "cleanup_expired_connections secs timeout_secs p =
     p\<lparr>conn_track := (\<lambda>k. case conn_track p k of
        Some x \<Rightarrow> if secs - last_seen x > timeout_secs then None else Some x
      | None \<Rightarrow> None)\<rparr>"

definition get_stats :: "'c AclProcessor \<Rightarrow> AclStatKey \<rightharpoonup> u64" where
  "get_stats p = (stats p)(CacheSize \<mapsto> of_nat (length (rule_cache p)),
     CacheMaxSize \<mapsto> of_nat (cache_max_size p))"

definition get_cache_hit_rate :: "'c AclProcessor \<Rightarrow> rat" where
  "get_cache_hit_rate p =
     (let hits = (case stats p CacheHits of Some n \<Rightarrow> n | None \<Rightarrow> 0);
          total = hits + (case stats p RuleMatches of Some n \<Rightarrow> n | None \<Rightarrow> 0)
      in if total = 0 then 0 else f64 (u64_as_f64 hits / u64_as_f64 total))"

section \<open>Processing a packet\<close>

fun check_rate_limits :: "nat \<Rightarrow> RateLimitKey list \<Rightarrow> 'c AclProcessor \<Rightarrow> (bool \<times> 'c AclProcessor) may_panic"
where
  "check_rate_limits now [] p = Some (True, p)"
| "check_rate_limits now (k # ks) p = do {
     (ok, p) \<leftarrow> check_rate_limit now k 1 1 False p;
     if \<not> ok then Some (False, p) else check_rate_limits now ks p }"

definition rate_limit_drop :: "RuleId \<Rightarrow> AclResult" where
  "rate_limit_drop r = \<lparr>res_action = A_Drop, res_matched_rule = Some r, should_log = False,
     log_context = Some RateLimitDrop\<rparr>"

definition process_packet_with_cache_entry :: "nat \<Rightarrow> u64 \<Rightarrow> PacketInfo \<Rightarrow> AclCacheEntry
    \<Rightarrow> 'c AclProcessor \<Rightarrow> (AclResult \<times> 'c AclProcessor) may_panic" where
  "process_packet_with_cache_entry now secs pkt e p = do {
     (ok, p) \<leftarrow> check_rate_limits now (rate_limit_keys e) p;
     if \<not> ok then Some (rate_limit_drop (e_matched_rule e), p)
     else do {
       let p = (case e_conn_track_key e of
            Some k \<Rightarrow> check_connection_state secs k pkt p | None \<Rightarrow> p);
       let p = inc_cache_entry_stats e pkt p;
       res \<leftarrow> acl_result e;
       Some (res, p) } }"

primrec rules_of :: "ChainType \<Rightarrow> 'c AclProcessor \<Rightarrow> 'c FastLookupRule list option" where
  "rules_of C_Inbound p = Some (inbound_rules p)"
| "rules_of C_Outbound p = Some (outbound_rules p)"
| "rules_of C_Forward p = Some (forward_rules p)"
| "rules_of C_Unspecified p = None"

primrec default_action_for :: "ChainType \<Rightarrow> 'c AclProcessor \<Rightarrow> Action" where
  "default_action_for C_Inbound p = default_inbound_action p"
| "default_action_for C_Outbound p = default_outbound_action p"
| "default_action_for C_Forward p = default_forward_action p"
| "default_action_for C_Unspecified p = A_Allow"

definition fresh_entry :: "nat \<Rightarrow> ChainType \<Rightarrow> AclCacheEntry" where
  "fresh_entry now ct =
     \<lparr>e_action = A_Allow, e_matched_rule = RI_Default, last_access = now, e_conn_track_key = None,
      rate_limit_keys = [], e_chain_type = ct, acl_result = None, rule_stats_vec = []\<rparr>"

text \<open>The result of a matching rule that is not rate limited.\<close>

definition rule_result :: "'c FastLookupRule \<Rightarrow> PacketInfo \<Rightarrow> AclResult" where
  "rule_result r pkt =
     (if stateful r \<and> action r = A_Allow
      then \<lparr>res_action = A_Allow, res_matched_rule = Some (RI_Stateful (priority r)),
            should_log = False, log_context = Some (StatefulMatch (src_ip pkt) (dst_ip pkt))\<rparr>
      else \<lparr>res_action = action r, res_matched_rule = Some (RI_Priority (priority r)),
            should_log = False, log_context = Some (RuleMatch (src_ip pkt) (dst_ip pkt) (action r))\<rparr>)"

text \<open>The body of the loop for a rule that matches.\<close>

definition apply_rule :: "nat \<Rightarrow> u64 \<Rightarrow> PacketInfo \<Rightarrow> ChainType \<Rightarrow> AclCacheKey \<Rightarrow> 'c FastLookupRule
    \<Rightarrow> 'c AclProcessor \<Rightarrow> (AclResult \<times> 'c AclProcessor) may_panic" where
  "apply_rule now secs pkt ct key r p = do {
     let e = fresh_entry now ct;
     let rule_key = RateLimitKey ct (priority r);
     let e = (if rate_limit r > 0
        then e\<lparr>rate_limit_keys := [rule_key], rule_stats_vec := [rule_stats r]\<rparr> else e);
     (ok, p) \<leftarrow> (if rate_limit r > 0
        then check_rate_limit now rule_key (rate_limit r) (burst_limit r) True p else Some (True, p));
     if \<not> ok then Some (rate_limit_drop (RI_Priority (priority r)), p)
     else do {
       let (e, p) = (if stateful r \<and> action r = A_Allow
          then let k = conn_track_key pkt
               in (e\<lparr>rule_stats_vec := rule_stats_vec e @ [rule_stats r],
                     e_matched_rule := RI_Stateful (priority r), e_conn_track_key := Some k,
                     acl_result := Some (rule_result r pkt)\<rparr>, check_connection_state secs k pkt p)
          else (e\<lparr>rule_stats_vec := rule_stats_vec e @ [rule_stats r],
                  e_matched_rule := RI_Priority (priority r),
                  acl_result := Some (rule_result r pkt)\<rparr>, p));
       let p = increment_stat RuleMatches p;
       let p = inc_cache_entry_stats e pkt p;
       let p = cache_result now key e p;
       res \<leftarrow> acl_result e;
       Some (res, p) } }"

definition default_result :: "Action \<Rightarrow> AclResult" where
  "default_result a = \<lparr>res_action = a, res_matched_rule = Some RI_Default, should_log = False,
     log_context = Some (if a = A_Drop then DefaultDrop else DefaultAllow)\<rparr>"

definition apply_default :: "nat \<Rightarrow> PacketInfo \<Rightarrow> ChainType \<Rightarrow> AclCacheKey \<Rightarrow> 'c AclProcessor
    \<Rightarrow> (AclResult \<times> 'c AclProcessor) may_panic" where
  "apply_default now pkt ct key p = do {
     let default_action = default_action_for ct p;
     let p = increment_stat (if default_action = A_Drop then DefaultDrops else DefaultAllows) p;
     let e = (fresh_entry now ct)\<lparr>rule_stats_vec := [default_rule_stats p], e_matched_rule := RI_Default,
       acl_result := Some (default_result default_action)\<rparr>;
     let p = inc_cache_entry_stats e pkt p;
     let p = cache_result now key e p;
     res \<leftarrow> acl_result e;
     Some (res, p) }"

text \<open>The first enabled rule that matches decides.\<close>

fun process_rules :: "'c cidr_api \<Rightarrow> nat \<Rightarrow> u64 \<Rightarrow> PacketInfo \<Rightarrow> ChainType \<Rightarrow> AclCacheKey
    \<Rightarrow> 'c FastLookupRule list \<Rightarrow> 'c AclProcessor \<Rightarrow> (AclResult \<times> 'c AclProcessor) may_panic" where
  "process_rules api now secs pkt ct key [] p = apply_default now pkt ct key p"
| "process_rules api now secs pkt ct key (r # rs) p =
     (if \<not> enabled r \<or> \<not> rule_matches api r pkt then process_rules api now secs pkt ct key rs p
      else apply_rule now secs pkt ct key r p)"

definition unsupported_chain :: AclResult where
  "unsupported_chain = \<lparr>res_action = A_Drop, res_matched_rule = Some RI_Default, should_log = False,
     log_context = Some UnsupportedChainType\<rparr>"

definition process_packet :: "'c cidr_api \<Rightarrow> nat \<Rightarrow> u64 \<Rightarrow> PacketInfo \<Rightarrow> ChainType \<Rightarrow> 'c AclProcessor
    \<Rightarrow> (AclResult \<times> 'c AclProcessor) may_panic" where
  "process_packet api now secs pkt ct p =
     (let key = from_packet_info pkt ct
      in case map_of (rule_cache p) key of
           Some cached \<Rightarrow>
             let cached = cached\<lparr>last_access := now\<rparr>;
                 p = p\<lparr>rule_cache := AList.update key cached (rule_cache p)\<rparr>;
                 p = increment_stat CacheHits p
             in process_packet_with_cache_entry now secs pkt cached p
         | None \<Rightarrow>
             (case rules_of ct p of
                None \<Rightarrow> Some (unsupported_chain, p)
              | Some rules \<Rightarrow> process_rules api now secs pkt ct key rules p))"

section \<open>Whitelists\<close>

datatype build_error = InvalidRangeFormat | InvalidStart | InvalidEnd | StartAfterEnd | InvalidPort

text \<open>\<open>s.split('-')\<close>\<close>

fun split_dash :: "string \<Rightarrow> string list" where
  "split_dash [] = [[]]"
| "split_dash (ch # s) =
     (if ch = CHR ''-'' then [] # split_dash s
      else case split_dash s of p # ps \<Rightarrow> (ch # p) # ps | [] \<Rightarrow> [[ch]])"

definition parse_port_spec :: "string \<Rightarrow> build_error + string" where
  "parse_port_spec spec =
     (if CHR ''-'' \<in> set spec then
        (case split_dash spec of
           [a, b] \<Rightarrow>
             (case parse_u16 a of
                None \<Rightarrow> Inl InvalidStart
              | Some start \<Rightarrow> (case parse_u16 b of
                  None \<Rightarrow> Inl InvalidEnd
                | Some en \<Rightarrow> if start > en then Inl StartAfterEnd else Inr spec))
         | _ \<Rightarrow> Inl InvalidRangeFormat)
      else (case parse_u16 spec of
              None \<Rightarrow> Inl InvalidPort
            | Some port \<Rightarrow> Inr (show_nat (unat port))))"

fun parse_port_list :: "string list \<Rightarrow> build_error + string list" where
  "parse_port_list [] = Inr []"
| "parse_port_list (spec # specs) =
     (case parse_port_spec spec of
        Inl e \<Rightarrow> Inl e
      | Inr x \<Rightarrow> (case parse_port_list specs of Inl e \<Rightarrow> Inl e | Inr xs \<Rightarrow> Inr (x # xs)))"

record AclRuleBuilder =
  b_acl :: "Acl option"
  tcp_whitelist :: "string list"
  udp_whitelist :: "string list"
  whitelist_priority :: "u32 option"

definition whitelist_rule :: "string \<Rightarrow> string \<Rightarrow> u32 \<Rightarrow> int \<Rightarrow> string list \<Rightarrow> int \<Rightarrow> bool \<Rightarrow> Rule" where
  "whitelist_rule name desc prio proto ports act st =
     \<lparr>r_name = name, r_description = desc, r_priority = prio, r_enabled = True, r_protocol = proto,
      r_ports = ports, r_source_ips = [], r_destination_ips = [], r_source_ports = [],
      r_action = act, r_rate_limit = 0, r_burst_limit = 0, r_stateful = st,
      r_source_groups = [], r_destination_groups = []\<rparr>"

definition tcp_whitelist_rules :: "u32 \<Rightarrow> string list \<Rightarrow> Rule list" where
  "tcp_whitelist_rules prio ports =
     [whitelist_rule ''tcp_whitelist'' ''Auto-generated TCP whitelist rule'' prio 1 ports 1 True,
      whitelist_rule ''tcp_whitelist_deny_other''
        ''Auto-generated TCP whitelist rule to deny other ports'' 0 1 [''0-65535''] 2 False]"

definition udp_whitelist_rules :: "u32 \<Rightarrow> string list \<Rightarrow> Rule list" where
  "udp_whitelist_rules prio ports =
     [whitelist_rule ''udp_whitelist'' ''Auto-generated UDP whitelist rule'' prio 2 ports 1 False,
      whitelist_rule ''udp_whitelist_deny_other''
        ''Auto-generated UDP whitelist rule to deny other ports'' 0 2 [''0-65535''] 2 False]"

definition generate_acl_from_whitelists :: "AclRuleBuilder \<Rightarrow> build_error + AclRuleBuilder" where
  "generate_acl_from_whitelists b =
     (if tcp_whitelist b = [] \<and> udp_whitelist b = [] then Inr b
      else
        let prio = (case whitelist_priority b of Some x \<Rightarrow> x | None \<Rightarrow> 1000)
        in (case (if tcp_whitelist b = [] then Inr (prio, [])
                  else case parse_port_list (tcp_whitelist b) of
                         Inl e \<Rightarrow> Inl e
                       | Inr ports \<Rightarrow> Inr (prio - 1, tcp_whitelist_rules prio ports)) of
              Inl e \<Rightarrow> Inl e
            | Inr (prio, tcp_rules) \<Rightarrow>
                (case (if udp_whitelist b = [] then Inr []
                       else case parse_port_list (udp_whitelist b) of
                              Inl e \<Rightarrow> Inl e
                            | Inr ports \<Rightarrow> Inr (udp_whitelist_rules prio ports)) of
                   Inl e \<Rightarrow> Inl e
                 | Inr udp_rules \<Rightarrow>
                     let chain = \<lparr>c_name = ''inbound_whitelist'', c_chain_type = ChainType_code C_Inbound,
                           c_description = ''Auto-generated inbound whitelist from CLI'',
                           c_enabled = True, c_rules = tcp_rules @ udp_rules, c_default_action = 1\<rparr>;
                         acl = (case b_acl b of Some a \<Rightarrow> a | None \<Rightarrow> \<lparr>acl_v1 = None\<rparr>);
                         acl = (case acl_v1 acl of
                            Some cs \<Rightarrow> acl\<lparr>acl_v1 := Some (cs @ [chain])\<rparr>
                          | None \<Rightarrow> acl\<lparr>acl_v1 := Some [chain]\<rparr>)
                     in Inr (b\<lparr>b_acl := Some acl\<rparr>))))"

definition do_build :: "AclRuleBuilder \<Rightarrow> build_error + Acl option" where
  "do_build b = (case generate_acl_from_whitelists b of Inl e \<Rightarrow> Inl e | Inr b \<Rightarrow> Inr (b_acl b))"

end
