(* ===== verification/Acl_Correctness.thy ===== *)
theory Acl_Correctness
  imports Acl_Processor
begin

text \<open>
  Correctness of the access control engine: the first enabled rule that matches decides (else the
  default action), the cache never changes a verdict, rate limiting only turns a verdict into a
  drop, no clean-up can make the processor panic, the cache stays bounded, and the rules generated
  from whitelists admit exactly the listed ports.
\<close>

section \<open>The specification\<close>

definition first_match :: "'c cidr_api \<Rightarrow> PacketInfo \<Rightarrow> 'c FastLookupRule list \<Rightarrow> 'c FastLookupRule option" where
  "first_match api pkt rs = find (\<lambda>r. enabled r \<and> rule_matches api r pkt) rs"

text \<open>The verdict of the rules alone, without cache and rate limits.\<close>

definition verdict :: "'c cidr_api \<Rightarrow> ChainType \<Rightarrow> PacketInfo \<Rightarrow> 'c AclProcessor \<Rightarrow> AclResult" where
  "verdict api ct pkt p =
     (case rules_of ct p of
        None \<Rightarrow> unsupported_chain
      | Some rs \<Rightarrow> (case first_match api pkt rs of
          Some r \<Rightarrow> rule_result r pkt
        | None \<Rightarrow> default_result (default_action_for ct p)))"

text \<open>Whether the verdict is subject to a rate limit.\<close>

definition limited :: "'c cidr_api \<Rightarrow> ChainType \<Rightarrow> PacketInfo \<Rightarrow> 'c AclProcessor \<Rightarrow> bool" where
  "limited api ct pkt p =
     (case rules_of ct p of
        None \<Rightarrow> False
      | Some rs \<Rightarrow> (case first_match api pkt rs of Some r \<Rightarrow> rate_limit r > 0 | None \<Rightarrow> False))"

text \<open>
  Packets as \<open>extract_packet_info\<close> delivers them: TCP and UDP packets have both ports, others none.
  For these the cache key determines everything the rules look at.
\<close>

definition canonical :: "PacketInfo \<Rightarrow> bool" where
  "canonical pkt \<longleftrightarrow> (src_port pkt \<noteq> None \<longleftrightarrow> pi_protocol pkt \<in> {P_Tcp, P_Udp}) \<and>
     (dst_port pkt \<noteq> None \<longleftrightarrow> pi_protocol pkt \<in> {P_Tcp, P_Udp})"

definition packet_of_key :: "AclCacheKey \<Rightarrow> PacketInfo" where
  "packet_of_key k =
     \<lparr>src_ip = k_src_ip k, dst_ip = k_dst_ip k,
      src_port = (if k_protocol k \<in> {P_Tcp, P_Udp} then Some (k_src_port k) else None),
      dst_port = (if k_protocol k \<in> {P_Tcp, P_Udp} then Some (k_dst_port k) else None),
      pi_protocol = k_protocol k, packet_size = 0, src_groups = k_src_groups k,
      dst_groups = k_dst_groups k\<rparr>"

lemma packet_of_key_from:
  "canonical pkt \<Longrightarrow> packet_of_key (from_packet_info pkt ct) = pkt\<lparr>packet_size := 0\<rparr>"
  by (cases pkt) (auto simp: packet_of_key_def from_packet_info_def canonical_def)

lemma rule_matches_size: "rule_matches api r (pkt\<lparr>packet_size := n\<rparr>) = rule_matches api r pkt"
  by (simp add: rule_matches_def)

lemma first_match_size: "first_match api (pkt\<lparr>packet_size := n\<rparr>) rs = first_match api pkt rs"
  by (simp add: first_match_def rule_matches_size)

lemma rule_result_size: "rule_result r (pkt\<lparr>packet_size := n\<rparr>) = rule_result r pkt"
  by (simp add: rule_result_def)

lemma verdict_key:
  assumes "canonical pkt"
  shows "verdict api ct (packet_of_key (from_packet_info pkt ct)) p = verdict api ct pkt p"
    and "limited api ct (packet_of_key (from_packet_info pkt ct)) p = limited api ct pkt p"
  unfolding packet_of_key_from [OF assms] verdict_def limited_def first_match_size rule_result_size
  by simp_all

lemma process_rules_first_match:
  "process_rules api now secs pkt ct key rs p =
     (case first_match api pkt rs of
        Some r \<Rightarrow> apply_rule now secs pkt ct key r p
      | None \<Rightarrow> apply_default now pkt ct key p)"
  by (induction rs) (auto simp: first_match_def)

section \<open>The invariant\<close>

text \<open>What the processor never changes.\<close>

definition same_rules :: "'c AclProcessor \<Rightarrow> 'c AclProcessor \<Rightarrow> bool" where
  "same_rules p q \<longleftrightarrow> inbound_rules q = inbound_rules p \<and> outbound_rules q = outbound_rules p \<and>
     forward_rules q = forward_rules p \<and> default_inbound_action q = default_inbound_action p \<and>
     default_outbound_action q = default_outbound_action p \<and>
     default_forward_action q = default_forward_action p \<and> cache_max_size q = cache_max_size p \<and>
     cache_cleanup_interval q = cache_cleanup_interval p"

lemma same_rules_refl [simp]: "same_rules p p"
  by (simp add: same_rules_def)

lemma same_rules_trans: "same_rules p q \<Longrightarrow> same_rules q r \<Longrightarrow> same_rules p r"
  by (simp add: same_rules_def)

lemma same_rules_verdict:
  assumes "same_rules p q"
  shows "rules_of ct q = rules_of ct p" and "verdict api ct pkt q = verdict api ct pkt p"
    and "limited api ct pkt q = limited api ct pkt p"
proof -
  show r: "rules_of ct q = rules_of ct p" using assms by (cases ct) (simp_all add: same_rules_def)
  have "default_action_for ct q = default_action_for ct p"
    using assms by (cases ct) (simp_all add: same_rules_def)
  then show "verdict api ct pkt q = verdict api ct pkt p"
    unfolding verdict_def r by (simp only:)
  show "limited api ct pkt q = limited api ct pkt p" by (simp add: limited_def r)
qed

text \<open>
  A cache entry answers what the rules answer for its key, and the bucket of its rate limit is there
  and was touched no earlier than the entry.
\<close>

definition entry_ok :: "'c cidr_api \<Rightarrow> 'c AclProcessor \<Rightarrow> AclCacheKey \<Rightarrow> AclCacheEntry \<Rightarrow> bool" where
  "entry_ok api p k e \<longleftrightarrow>
     acl_result e = Some (verdict api (k_chain_type k) (packet_of_key k) p) \<and>
     length (rate_limit_keys e) \<le> 1 \<and>
     (rate_limit_keys e \<noteq> [] \<longrightarrow> limited api (k_chain_type k) (packet_of_key k) p) \<and>
     (\<forall>rk\<in>set (rate_limit_keys e). \<exists>v. rate_limiters p rk = Some v \<and> last_access e \<le> last_update v)"

definition acl_inv :: "'c cidr_api \<Rightarrow> nat \<Rightarrow> 'c AclProcessor \<Rightarrow> bool" where
  "acl_inv api now p \<longleftrightarrow> keys_distinct (rule_cache p) \<and>
     (\<forall>(k, e)\<in>set (rule_cache p). entry_ok api p k e \<and> last_access e \<le> now) \<and>
     length (rule_cache p) \<le> 2 * cache_max_size p \<and> 0 < cache_max_size p \<and> 15 * SEC \<le> cache_cleanup_interval p"

lemma acl_inv_mono: "acl_inv api now p \<Longrightarrow> now \<le> now' \<Longrightarrow> acl_inv api now' p"
  by (fastforce simp: acl_inv_def)

lemma entry_ok_cong:
  assumes "same_rules p q" and "entry_ok api p k e"
    and "\<And>rk v. rk \<in> set (rate_limit_keys e) \<Longrightarrow> rate_limiters p rk = Some v \<Longrightarrow>
      \<exists>w. rate_limiters q rk = Some w \<and> (last_access e \<le> last_update v \<longrightarrow> last_access e \<le> last_update w)"
  shows "entry_ok api q k e"
  using assms(2,3) unfolding entry_ok_def same_rules_verdict [OF assms(1)] by blast

text \<open>The invariant only looks at the cache and the limiters.\<close>

lemma acl_inv_cong:
  assumes "acl_inv api now p" and "same_rules p q" and "rule_cache q = rule_cache p"
    and "rate_limiters q = rate_limiters p"
  shows "acl_inv api now q"
proof -
  have "entry_ok api q k e" if "(k, e) \<in> set (rule_cache p)" for k e
    using entry_ok_cong [OF assms(2), of api k e] assms(1,4) that by (auto simp: acl_inv_def)
  then show ?thesis using assms by (auto simp: acl_inv_def same_rules_def)
qed

section \<open>Cleaning the cache\<close>

lemma fold_delete_filter:
  "fold (\<lambda>(k, _). AList.delete k) xs c = filter (\<lambda>kv. fst kv \<notin> fst ` set xs) c"
proof (induction xs arbitrary: c)
  case (Cons x xs)
  obtain k v where "x = (k, v)" by fastforce
  then have "fold (\<lambda>(k, _). AList.delete k) (x # xs) c =
      filter (\<lambda>kv. fst kv \<notin> fst ` set xs) (AList.delete k c)"
    using Cons.IH [of "AList.delete k c"] by simp
  also have "\<dots> = filter (\<lambda>kv. fst kv \<notin> fst ` set (x # xs)) c"
    using \<open>x = (k, v)\<close> by (auto simp: AList.delete_eq intro: filter_cong)
  finally show ?case .
qed simp

lemma length_filter_distinct:
  assumes "keys_distinct c" and "K \<subseteq> fst ` set c" and "finite K"
  shows "length (filter (\<lambda>kv. fst kv \<notin> K) c) + card K = length c"
proof -
  have "card K = length (filter (\<lambda>kv. fst kv \<in> K) c)"
  proof -
    have "distinct (map fst (filter (\<lambda>kv. fst kv \<in> K) c))" by (rule keys_distinct_filter [OF assms(1)])
    moreover have "set (map fst (filter (\<lambda>kv. fst kv \<in> K) c)) = K" using assms(2) by auto
    ultimately show ?thesis by (metis distinct_card length_map)
  qed
  then show ?thesis using sum_length_filter_compl [of "\<lambda>kv. fst kv \<in> K" c] by simp
qed

lemma cleanup_cache_spec:
  assumes "keys_distinct c"
  shows "set (cleanup_cache now m c) \<subseteq> set c" and "keys_distinct (cleanup_cache now m c)"
    and "length (cleanup_cache now m c) \<le> m"
    and "\<And>k e. (k, e) \<in> set (cleanup_cache now m c) \<Longrightarrow> now < last_access e + 15 * SEC \<or> now < last_access e"
proof -
  define tp where "tp = (if 15 * SEC \<le> now then now - 15 * SEC else now)"
  define c1 where "c1 = filter (\<lambda>(_, e). last_access e > tp) c"
  define es where "es = sort_key snd (map (\<lambda>(k, e). (k, last_access e)) c1)"
  define n where "n = length c1 - m + m div 5"
  have c1: "set c1 \<subseteq> set c" "keys_distinct c1"
    using keys_distinct_filter [OF assms] by (auto simp: c1_def)
  have cl: "cleanup_cache now m c = (if length c1 \<le> m then c1
      else filter (\<lambda>kv. fst kv \<notin> fst ` set (take n es)) c1)"
    unfolding cleanup_cache_def Let_def fold_delete_filter
    by (simp add: c1_def tp_def es_def n_def)
  have sub: "set (cleanup_cache now m c) \<subseteq> set c1" by (auto simp: cl)
  then show "set (cleanup_cache now m c) \<subseteq> set c" using c1(1) by blast
  show "keys_distinct (cleanup_cache now m c)" using c1(2) by (simp add: cl keys_distinct_filter)
  have keys: "map fst (map (\<lambda>(k, e). (k, last_access e)) c1) = map fst c1" by auto
  have esd: "keys_distinct es" "fst ` set es = fst ` set c1" "length es = length c1"
  proof -
    let ?m = "map (\<lambda>(k, e). (k, last_access e)) c1"
    have "distinct (map fst ?m)" unfolding keys by (rule c1(2))
    then have "distinct ?m \<and> inj_on fst (set ?m)" by (rule distinct_map [THEN iffD1])
    then show "keys_distinct es" unfolding es_def
      by (intro distinct_map [THEN iffD2]) (simp only: distinct_sort set_sort)
    show "fst ` set es = fst ` set c1" by (force simp: es_def)
    show "length es = length c1" by (simp add: es_def)
  qed
  show "length (cleanup_cache now m c) \<le> m"
  proof (cases "length c1 \<le> m")
    case False
    let ?K = "fst ` set (take n es)"
    have K: "?K \<subseteq> fst ` set c1" using esd(2) set_take_subset [of n es] by (metis image_mono)
    have "card ?K = min n (length c1)"
    proof -
      have "distinct (map fst (take n es))" 
        using distinct_take [OF esd(1), of n] by (simp only: take_map)
      then have "card (set (map fst (take n es))) = length (take n es)" by (metis distinct_card length_map)
      then show ?thesis using esd(3) by (simp add: min.commute)
    qed
    then have "length (filter (\<lambda>kv. fst kv \<notin> ?K) c1) + min n (length c1) = length c1"
      using length_filter_distinct [OF c1(2) K] by simp
    then show ?thesis using False unfolding cl n_def by (simp split: if_splits)
  qed (simp add: cl)
  show "now < last_access e + 15 * SEC \<or> now < last_access e" if "(k, e) \<in> set (cleanup_cache now m c)" for k e
    using that sub by (auto simp: c1_def tp_def split: if_splits)
qed

section \<open>Every operation keeps the invariant\<close>

lemma same_rules_ops [simp]:
  "same_rules p (increment_stat k p)" "same_rules p (inc_cache_entry_stats e pkt p)"
  "same_rules p (check_connection_state secs ck pkt p)" "same_rules p (cache_result now key e p)"
  "same_rules p (cleanup_expired_connections secs t p)" "same_rules p (cache_cleanup_tick now p)"
  by (simp_all add: same_rules_def increment_stat_def inc_cache_entry_stats_def
      check_connection_state_def cache_result_def cleanup_expired_connections_def
      cache_cleanup_tick_def Let_def)

lemma cache_ops [simp]:
  "rule_cache (increment_stat k p) = rule_cache p"
  "rule_cache (inc_cache_entry_stats e pkt p) = rule_cache p"
  "rule_cache (check_connection_state secs ck pkt p) = rule_cache p"
  "rule_cache (cleanup_expired_connections secs t p) = rule_cache p"
  "rate_limiters (increment_stat k p) = rate_limiters p"
  "rate_limiters (inc_cache_entry_stats e pkt p) = rate_limiters p"
  "rate_limiters (check_connection_state secs ck pkt p) = rate_limiters p"
  "rate_limiters (cleanup_expired_connections secs t p) = rate_limiters p"
  "rate_limiters (cache_result now key e p) = rate_limiters p"
  by (simp_all add: increment_stat_def inc_cache_entry_stats_def check_connection_state_def
      cleanup_expired_connections_def cache_result_def Let_def)

lemma acl_inv_simple [simp]:
  "acl_inv api now p \<Longrightarrow> acl_inv api now (increment_stat k p)"
  "acl_inv api now p \<Longrightarrow> acl_inv api now (inc_cache_entry_stats e pkt p)"
  "acl_inv api now p \<Longrightarrow> acl_inv api now (check_connection_state secs ck pkt p)"
  "acl_inv api now p \<Longrightarrow> acl_inv api now (cleanup_expired_connections secs t p)"
  by (erule acl_inv_cong; simp)+

text \<open>Looking at a bucket that is there, or may be made, never panics; the bucket is then fresh.\<close>

lemma check_rate_limit_Some:
  assumes "acl_inv api now p" and "rate_limiters p key \<noteq> None \<or> create"
  shows "\<exists>ok q. check_rate_limit now key rate burst create p = Some (ok, q) \<and> acl_inv api now q \<and>
    same_rules p q \<and> rule_cache q = rule_cache p \<and>
    (\<forall>k. rate_limiters p k \<noteq> None \<longrightarrow> rate_limiters q k \<noteq> None) \<and>
    (rate \<noteq> 0 \<longrightarrow> (\<exists>v. rate_limiters q key = Some v \<and> last_update v = now)) \<and>
    (rate = 0 \<longrightarrow> ok)"
proof (cases "rate = 0")
  case True
  then show ?thesis using assms(1)
    by (intro exI [of _ True] exI [of _ p]) (simp add: check_rate_limit_def)
next
  case False
  obtain v where v: "(case rate_limiters p key of Some v \<Rightarrow> Some v
      | None \<Rightarrow> if \<not> create then None else Some \<lparr>token_bucket = bucket_new (ucast burst) (ucast rate) 10,
          last_update = now\<rparr>) = Some v"
    using assms(2) by (cases "rate_limiters p key") auto
  obtain b ok where c: "try_consume 1 (token_bucket v) = (b, ok)" by fastforce
  let ?q = "p\<lparr>rate_limiters := (rate_limiters p)(key \<mapsto> \<lparr>token_bucket = b, last_update = now\<rparr>)\<rparr>"
  have r: "check_rate_limit now key rate burst create p = Some (ok, ?q)"
    using False v c unfolding check_rate_limit_def by simp
  have same: "same_rules p ?q" by (simp add: same_rules_def)
  have "entry_ok api ?q k e" if "(k, e) \<in> set (rule_cache p)" for k e
    using assms(1) that by (intro entry_ok_cong [OF same]) (auto simp: acl_inv_def)
  then have "acl_inv api now ?q" using assms(1) by (auto simp: acl_inv_def)
  then show ?thesis using r False same by simp
qed

lemma acl_inv_tick:
  assumes "acl_inv api now p"
  shows "acl_inv api now (cache_cleanup_tick now p)"
proof -
  let ?q = "cache_cleanup_tick now p" and ?c = "cleanup_cache now (cache_max_size p) (rule_cache p)"
  have d: "keys_distinct (rule_cache p)" using assms by (simp add: acl_inv_def)
  note cl = cleanup_cache_spec [OF d, where now = now and m = "cache_max_size p"]
  have "entry_ok api ?q k e \<and> last_access e \<le> now" if ke: "(k, e) \<in> set ?c" for k e
  proof -
    have ok: "entry_ok api p k e" "last_access e \<le> now" "15 * SEC \<le> cache_cleanup_interval p"
      using assms cl(1) ke by (auto simp: acl_inv_def)
    have "now < last_access e + 15 * SEC" using cl(4) [OF ke] ok(2) by auto
    then have "entry_ok api ?q k e"
      using ok by (intro entry_ok_cong [OF same_rules_ops(6) ok(1)])
        (auto simp: entry_ok_def cache_cleanup_tick_def)
    then show ?thesis using ok(2) by simp
  qed
  then show ?thesis using assms cl(2,3)
    by (auto simp: acl_inv_def cache_cleanup_tick_def)
qed

lemma set_update_cases:
  "(k, x) \<in> set (AList.update key e c) \<Longrightarrow> (k = key \<and> x = e) \<or> (k, x) \<in> set c"
  by (induction c) (auto split: if_splits)

lemma acl_inv_cache_result:
  assumes "acl_inv api now p" and "entry_ok api p key e" and "last_access e \<le> now"
  shows "acl_inv api now (cache_result now key e p)"
proof -
  let ?c = "AList.update key e (rule_cache p)"
  have d: "keys_distinct ?c" using assms(1) by (simp add: acl_inv_def AList.distinct_update)
  have ok: "entry_ok api (cache_result now key e p) k x \<and> last_access x \<le> now"
    if "(k, x) \<in> set ?c" for k x
  proof -
    have "entry_ok api p k x \<and> last_access x \<le> now"
      using set_update_cases [OF that] assms(1-3) by (auto simp: acl_inv_def)
    then show ?thesis by (auto intro: entry_ok_cong [OF same_rules_ops(4)])
  qed
  show ?thesis
  proof (cases "length ?c > cache_max_size p * 2")
    case True
    then show ?thesis
      using cleanup_cache_spec [OF d, where now = now and m = "cache_max_size p"] ok assms(1)
      by (auto simp: acl_inv_def cache_result_def)
  next
    case False
    then show ?thesis using d ok assms(1) by (auto simp: acl_inv_def cache_result_def)
  qed
qed

section \<open>Processing a packet\<close>

text \<open>What a processed packet yields: the verdict of the rules, or a rate-limit drop if one applies.\<close>

definition packet_ok :: "'c cidr_api \<Rightarrow> nat \<Rightarrow> ChainType \<Rightarrow> PacketInfo \<Rightarrow> 'c AclProcessor
    \<Rightarrow> (AclResult \<times> 'c AclProcessor) may_panic \<Rightarrow> bool" where
  "packet_ok api now ct pkt p r =
     (case r of
        None \<Rightarrow> False
      | Some (res, q) \<Rightarrow> acl_inv api now q \<and> same_rules p q \<and>
          (res = verdict api ct pkt p \<or>
           limited api ct pkt p \<and> res_action res = A_Drop \<and> log_context res = Some RateLimitDrop))"

lemma packet_ok_cong:
  "same_rules p q \<Longrightarrow> packet_ok api now ct pkt q r \<Longrightarrow> packet_ok api now ct pkt p r"
  by (auto simp: packet_ok_def same_rules_verdict split: option.splits intro: same_rules_trans)

lemma entry_ok_fresh:
  assumes "acl_result e = Some (verdict api ct pkt p)" and "canonical pkt"
    and "rate_limit_keys e = []"
  shows "entry_ok api p (from_packet_info pkt ct) e"
proof -
  have "k_chain_type (from_packet_info pkt ct) = ct" by (simp add: from_packet_info_def)
  then show ?thesis using assms by (simp add: entry_ok_def verdict_key)
qed

lemma apply_default_ok:
  assumes inv: "acl_inv api now p" and can: "canonical pkt"
    and rs: "rules_of ct p = Some rs" and nm: "first_match api pkt rs = None"
  shows "packet_ok api now ct pkt p (apply_default now pkt ct (from_packet_info pkt ct) p)"
proof -
  let ?a = "default_action_for ct p" and ?key = "from_packet_info pkt ct"
  let ?p1 = "increment_stat (if ?a = A_Drop then DefaultDrops else DefaultAllows) p"
  let ?e = "(fresh_entry now ct)\<lparr>rule_stats_vec := [default_rule_stats ?p1], e_matched_rule := RI_Default,
    acl_result := Some (default_result ?a)\<rparr>"
  let ?p2 = "inc_cache_entry_stats ?e pkt ?p1"
  have same: "same_rules p ?p2" by (rule same_rules_trans [OF same_rules_ops(1) same_rules_ops(2)])
  have v: "verdict api ct pkt p = default_result ?a" using rs nm by (simp add: verdict_def)
  have "acl_result ?e = Some (verdict api ct pkt ?p2)" unfolding same_rules_verdict [OF same] v by simp
  then have "entry_ok api ?p2 ?key ?e" by (rule entry_ok_fresh [OF _ can]) (simp add: fresh_entry_def)
  then have "acl_inv api now (cache_result now ?key ?e ?p2)"
    using inv by (intro acl_inv_cache_result) (simp_all add: fresh_entry_def)
  moreover have "apply_default now pkt ct ?key p =
      Some (default_result ?a, cache_result now ?key ?e ?p2)"
    by (simp add: apply_default_def Let_def)
  moreover have "same_rules p (cache_result now ?key ?e ?p2)"
    by (rule same_rules_trans [OF same same_rules_ops(4)])
  ultimately show ?thesis by (simp add: packet_ok_def v)
qed

text \<open>The end of the loop body: the entry is counted and cached.\<close>

lemma conclude_ok:
  assumes inv: "acl_inv api now p" and can: "canonical pkt"
    and res: "acl_result e = Some (verdict api ct pkt p)" and acc: "last_access e = now"
    and keys: "rate_limit_keys e = [] \<or> (\<exists>rk v. rate_limit_keys e = [rk] \<and> limited api ct pkt p \<and>
      rate_limiters p rk = Some v \<and> last_update v = now)"
  shows "acl_inv api now (cache_result now (from_packet_info pkt ct) e
      (inc_cache_entry_stats e pkt (increment_stat st p)))"
proof -
  let ?q = "inc_cache_entry_stats e pkt (increment_stat st p)"
  have same: "same_rules p ?q" by (rule same_rules_trans [OF same_rules_ops(1) same_rules_ops(2)])
  have ct: "k_chain_type (from_packet_info pkt ct) = ct" by (simp add: from_packet_info_def)
  have "entry_ok api ?q (from_packet_info pkt ct) e"
    using keys res acc
    by (auto simp: entry_ok_def ct verdict_key [OF can] same_rules_verdict [OF same])
  then show ?thesis using inv acc by (intro acl_inv_cache_result) simp_all
qed

lemma apply_rule_ok:
  assumes inv: "acl_inv api now p" and can: "canonical pkt"
    and rs: "rules_of ct p = Some rs" and m: "first_match api pkt rs = Some r"
  shows "packet_ok api now ct pkt p (apply_rule now secs pkt ct (from_packet_info pkt ct) r p)"
proof -
  let ?rk = "RateLimitKey ct (priority r)" and ?key = "from_packet_info pkt ct"
  have v: "verdict api ct pkt p = rule_result r pkt" and l: "limited api ct pkt p = (rate_limit r > 0)"
    using rs m by (simp_all add: verdict_def limited_def)
  have "\<exists>ok p1. (if rate_limit r > 0
      then check_rate_limit now ?rk (rate_limit r) (burst_limit r) True p else Some (True, p)) = Some (ok, p1) \<and>
    acl_inv api now p1 \<and> same_rules p p1 \<and> (\<not> ok \<longrightarrow> rate_limit r > 0) \<and>
    (rate_limit r > 0 \<longrightarrow> (\<exists>v. rate_limiters p1 ?rk = Some v \<and> last_update v = now))"
    using check_rate_limit_Some [OF inv, of ?rk True "rate_limit r" "burst_limit r"] inv
    by (auto simp: word_neq_0_conv)
  then obtain ok p1 where c: "(if rate_limit r > 0
      then check_rate_limit now ?rk (rate_limit r) (burst_limit r) True p else Some (True, p)) = Some (ok, p1)"
    and p1: "acl_inv api now p1" "same_rules p p1" "\<not> ok \<longrightarrow> rate_limit r > 0"
      "rate_limit r > 0 \<longrightarrow> (\<exists>v. rate_limiters p1 ?rk = Some v \<and> last_update v = now)"
    by blast
  show ?thesis
  proof (cases ok)
    case False
    then have "apply_rule now secs pkt ct ?key r p = Some (rate_limit_drop (RI_Priority (priority r)), p1)"
      using c by (simp add: apply_rule_def Let_def)
    then show ?thesis using p1 False l by (simp add: packet_ok_def rate_limit_drop_def)
  next
    case True
    define st where "st = (stateful r \<and> action r = A_Allow)"
    define e0 where "e0 = (if rate_limit r > 0
      then (fresh_entry now ct)\<lparr>rate_limit_keys := [?rk], rule_stats_vec := [rule_stats r]\<rparr>
      else fresh_entry now ct)"
    define e where "e = (if st
      then e0\<lparr>rule_stats_vec := rule_stats_vec e0 @ [rule_stats r], e_matched_rule := RI_Stateful (priority r),
        e_conn_track_key := Some (conn_track_key pkt), acl_result := Some (rule_result r pkt)\<rparr>
      else e0\<lparr>rule_stats_vec := rule_stats_vec e0 @ [rule_stats r], e_matched_rule := RI_Priority (priority r),
        acl_result := Some (rule_result r pkt)\<rparr>)"
    define p2 where "p2 = (if st then check_connection_state secs (conn_track_key pkt) pkt p1 else p1)"
    define q where "q = cache_result now ?key e (inc_cache_entry_stats e pkt (increment_stat RuleMatches p2))"
    have r: "apply_rule now secs pkt ct ?key r p = Some (rule_result r pkt, q)"
      using c True unfolding apply_rule_def Let_def e0_def [symmetric] st_def [symmetric]
      by (simp add: q_def e_def p2_def)
    have s2: "same_rules p p2"
      using same_rules_trans [OF p1(2) same_rules_ops(3)] p1(2) by (simp add: p2_def)
    have lim2: "rate_limiters p2 = rate_limiters p1" by (simp add: p2_def)
    have e: "acl_result e = Some (verdict api ct pkt p2)" "last_access e = now"
      "rate_limit_keys e = (if rate_limit r > 0 then [?rk] else [])"
      unfolding same_rules_verdict [OF s2] v by (simp_all add: e_def e0_def fresh_entry_def)
    have "acl_inv api now q" unfolding q_def
    proof (rule conclude_ok [OF _ can e(1,2)])
      show "acl_inv api now p2" using p1(1) by (simp add: p2_def)
      show "rate_limit_keys e = [] \<or> (\<exists>rk v. rate_limit_keys e = [rk] \<and> limited api ct pkt p2 \<and>
          rate_limiters p2 rk = Some v \<and> last_update v = now)"
        unfolding same_rules_verdict [OF s2] lim2 l e(3) using p1(4) by (cases "rate_limit r > 0") simp_all
    qed
    moreover have "same_rules p q" unfolding q_def
      by (rule same_rules_trans [OF same_rules_trans [OF same_rules_trans [OF s2 same_rules_ops(1)]
            same_rules_ops(2)] same_rules_ops(4)])
    ultimately show ?thesis by (simp add: r packet_ok_def v)
  qed
qed

text \<open>A cache hit marks the entry as used before it looks at the bucket of the entry.\<close>

lemma length_update_old: "key \<in> fst ` set c \<Longrightarrow> length (AList.update key x c) = length c"
  by (induction c) auto

lemma touch_ok:
  assumes inv: "acl_inv api now q" and e: "map_of (rule_cache q) key = Some e"
    and fresh: "\<forall>rk\<in>set (rate_limit_keys e). \<exists>v. rate_limiters q rk = Some v \<and> last_update v = now"
  shows "acl_inv api now (q\<lparr>rule_cache := AList.update key (e\<lparr>last_access := now\<rparr>) (rule_cache q)\<rparr>)"
    (is "acl_inv api now ?q")
proof -
  have same: "same_rules q ?q" by (simp add: same_rules_def)
  have in_c: "(key, e) \<in> set (rule_cache q)" using e by (rule map_of_SomeD)
  have "entry_ok api ?q k x \<and> last_access x \<le> now" if kx: "(k, x) \<in> set (rule_cache ?q)" for k x
  proof (cases "k = key \<and> x = e\<lparr>last_access := now\<rparr>")
    case True
    have "entry_ok api q key e" using inv in_c by (auto simp: acl_inv_def)
    then show ?thesis using True fresh
      by (auto simp: entry_ok_def same_rules_verdict [OF same] same_rules_verdict(1))
  next
    case False
    then have "(k, x) \<in> set (rule_cache q)" using set_update_cases [of k x key] kx by auto
    then show ?thesis using inv entry_ok_cong [OF same, of api k x] by (auto simp: acl_inv_def)
  qed
  moreover have "length (rule_cache ?q) = length (rule_cache q)"
    using in_c by (simp add: length_update_old rev_image_eqI)
  ultimately show ?thesis using inv by (auto simp: acl_inv_def AList.distinct_update)
qed

lemma check_rate_limit_cache:
  "check_rate_limit now k r b cr (p\<lparr>rule_cache := c\<rparr>) =
     map_option (\<lambda>(ok, q). (ok, q\<lparr>rule_cache := c\<rparr>)) (check_rate_limit now k r b cr p)"
  by (auto simp: check_rate_limit_def Let_def split_def split: option.splits)

lemma increment_stat_cache:
  "increment_stat s (p\<lparr>rule_cache := c\<rparr>) = (increment_stat s p)\<lparr>rule_cache := c\<rparr>"
  by (simp add: increment_stat_def)

lemma check_rate_limits_hit:
  assumes inv: "acl_inv api now p" and e: "map_of (rule_cache p) key = Some e"
  defines "c \<equiv> AList.update key (e\<lparr>last_access := now\<rparr>) (rule_cache p)"
  shows "\<exists>ok q. check_rate_limits now (rate_limit_keys e) (p\<lparr>rule_cache := c\<rparr>) = Some (ok, q) \<and>
    acl_inv api now q \<and> same_rules p q \<and> (\<not> ok \<longrightarrow> rate_limit_keys e \<noteq> [])"
proof -
  have eok: "entry_ok api p key e" using inv map_of_SomeD [OF e] by (auto simp: acl_inv_def)
  consider "rate_limit_keys e = []" | rk where "rate_limit_keys e = [rk]"
    using eok by (cases "rate_limit_keys e") (auto simp: entry_ok_def)
  then show ?thesis
  proof cases
    case 1
    then show ?thesis using touch_ok [OF inv e]
      by (intro exI [of _ True] exI [of _ "p\<lparr>rule_cache := c\<rparr>"]) (simp add: c_def same_rules_def)
  next
    case 2
    have "rate_limiters p rk \<noteq> None" using eok 2 by (auto simp: entry_ok_def)
    then obtain ok q where q: "check_rate_limit now rk 1 1 False p = Some (ok, q)" "acl_inv api now q"
      "same_rules p q" "rule_cache q = rule_cache p" "\<exists>v. rate_limiters q rk = Some v \<and> last_update v = now"
      using check_rate_limit_Some [OF inv, of rk False 1 1] by auto
    have "acl_inv api now (q\<lparr>rule_cache := c\<rparr>)"
      using touch_ok [OF q(2), of key e] e q(4,5) 2 by (simp add: c_def)
    moreover have "same_rules p (q\<lparr>rule_cache := c\<rparr>)" using q(3) by (simp add: same_rules_def)
    moreover have "check_rate_limits now (rate_limit_keys e) (p\<lparr>rule_cache := c\<rparr>) = Some (ok, q\<lparr>rule_cache := c\<rparr>)"
      using 2 q(1) by (simp add: check_rate_limit_cache)
    ultimately show ?thesis using 2 by auto
  qed
qed

lemma cache_hit_ok:
  assumes inv: "acl_inv api now p" and can: "canonical pkt"
    and e: "map_of (rule_cache p) (from_packet_info pkt ct) = Some e"
  defines "e' \<equiv> e\<lparr>last_access := now\<rparr>"
  defines "p1 \<equiv> increment_stat CacheHits (p\<lparr>rule_cache := AList.update (from_packet_info pkt ct) e' (rule_cache p)\<rparr>)"
  shows "packet_ok api now ct pkt p (process_packet_with_cache_entry now secs pkt e' p1)"
proof -
  let ?key = "from_packet_info pkt ct" and ?p0 = "increment_stat CacheHits p"
  have ct: "k_chain_type ?key = ct" by (simp add: from_packet_info_def)
  have "entry_ok api p ?key e" using inv map_of_SomeD [OF e] by (auto simp: acl_inv_def)
  then have eok: "acl_result e = Some (verdict api ct pkt p)" "rate_limit_keys e \<noteq> [] \<longrightarrow> limited api ct pkt p"
    by (auto simp: entry_ok_def ct verdict_key [OF can])
  have p1: "p1 = ?p0\<lparr>rule_cache := AList.update ?key (e\<lparr>last_access := now\<rparr>) (rule_cache ?p0)\<rparr>"
    by (simp add: p1_def e'_def increment_stat_cache)
  obtain ok q where q: "check_rate_limits now (rate_limit_keys e) p1 = Some (ok, q)" "acl_inv api now q"
      "same_rules ?p0 q" "\<not> ok \<longrightarrow> rate_limit_keys e \<noteq> []"
    using check_rate_limits_hit [of api now ?p0 ?key e] inv e unfolding p1 by auto
  have same: "same_rules p q" by (rule same_rules_trans [OF same_rules_ops(1) q(3)])
  define q2 where "q2 = (case e_conn_track_key e of Some k \<Rightarrow> check_connection_state secs k pkt q | None \<Rightarrow> q)"
  have q2: "acl_inv api now q2" "same_rules p q2"
    using q(2) same same_rules_trans [OF same same_rules_ops(3)] by (auto simp: q2_def split: option.splits)
  show ?thesis
  proof (cases ok)
    case True
    then have "process_packet_with_cache_entry now secs pkt e' p1 =
        Some (verdict api ct pkt p, inc_cache_entry_stats e' pkt q2)"
      using q(1) eok(1) by (simp add: process_packet_with_cache_entry_def e'_def q2_def Let_def)
    then show ?thesis using q2 same_rules_trans [OF q2(2) same_rules_ops(2)] by (simp add: packet_ok_def)
  next
    case False
    then have "process_packet_with_cache_entry now secs pkt e' p1 = Some (rate_limit_drop (e_matched_rule e), q)"
      using q(1) by (simp add: process_packet_with_cache_entry_def e'_def Let_def)
    then show ?thesis using False q(2,4) same eok(2) by (simp add: packet_ok_def rate_limit_drop_def)
  qed
qed

lemma process_packet_ok:
  assumes "acl_inv api now p" and "canonical pkt"
  shows "packet_ok api now ct pkt p (process_packet api now secs pkt ct p)"
proof (cases "map_of (rule_cache p) (from_packet_info pkt ct)")
  case (Some e)
  then show ?thesis using cache_hit_ok [OF assms Some] by (simp add: process_packet_def Let_def)
next
  case None
  show ?thesis
  proof (cases "rules_of ct p")
    case None': None
    then have "process_packet api now secs pkt ct p = Some (unsupported_chain, p)"
      using None by (simp add: process_packet_def Let_def)
    then show ?thesis using assms None' by (simp add: packet_ok_def verdict_def)
  next
    case (Some rs)
    then have "process_packet api now secs pkt ct p =
        process_rules api now secs pkt ct (from_packet_info pkt ct) rs p"
      using None by (simp add: process_packet_def Let_def)
    then show ?thesis
      using apply_default_ok [OF assms Some] apply_rule_ok [OF assms Some]
      by (cases "first_match api pkt rs") (simp_all add: process_rules_first_match)
  qed
qed

section \<open>Runs\<close>

text \<open>
  A processor at a point in time: packets arrive, the two background tasks and the refill tasks of
  the buckets tick, and time passes.
\<close>

inductive acl_step :: "'c cidr_api \<Rightarrow> nat \<times> 'c AclProcessor \<Rightarrow> nat \<times> 'c AclProcessor \<Rightarrow> bool"
  for api :: "'c cidr_api" where
  step_packet: "canonical pkt \<Longrightarrow> process_packet api now secs pkt ct p = Some (res, q) \<Longrightarrow>
    acl_step api (now, p) (now, q)"
| step_cache: "acl_step api (now, p) (now, cache_cleanup_tick now p)"
| step_conn: "acl_step api (now, p) (now, cleanup_expired_connections secs t p)"
| step_refill: "rate_limiters p rk = Some v \<Longrightarrow> acl_step api (now, p)
    (now, p\<lparr>rate_limiters := (rate_limiters p)(rk \<mapsto> v\<lparr>token_bucket := refill t (token_bucket v)\<rparr>)\<rparr>)"
| step_time: "now \<le> now' \<Longrightarrow> acl_step api (now, p) (now', p)"

lemma acl_inv_refill:
  assumes "acl_inv api now p" and "rate_limiters p rk = Some v"
  shows "acl_inv api now (p\<lparr>rate_limiters := (rate_limiters p)(rk \<mapsto> v\<lparr>token_bucket := b\<rparr>)\<rparr>)"
    (is "acl_inv api now ?q")
proof -
  have same: "same_rules p ?q" by (simp add: same_rules_def)
  have "entry_ok api ?q k e" if "(k, e) \<in> set (rule_cache p)" for k e
    using assms that by (intro entry_ok_cong [OF same]) (auto simp: acl_inv_def)
  then show ?thesis using assms(1) by (auto simp: acl_inv_def)
qed

lemma acl_step_inv:
  assumes "acl_step api (now, p) (now', q)" and "acl_inv api now p"
  shows "acl_inv api now' q \<and> same_rules p q"
  using assms(1)
proof cases
  case (step_packet pkt secs ct res)
  then show ?thesis using process_packet_ok [OF assms(2), of pkt ct secs] by (simp add: packet_ok_def)
next
  case (step_refill rk v t)
  then show ?thesis using acl_inv_refill [OF assms(2)] by (simp add: same_rules_def)
qed (use assms(2) acl_inv_tick acl_inv_mono in auto)

lemma acl_inv_new: "acl_inv api now (new_with_shared_state api acl ct rl st)"
  by (simp add: new_with_shared_state_def acl_inv_def split_def Let_def)

lemma new_same_rules:
  "same_rules (new_with_shared_state api acl ct rl st) (new_with_shared_state api acl ct' rl' st')"
  by (simp add: new_with_shared_state_def same_rules_def split_def Let_def)

lemma acl_run_inv:
  assumes "(acl_step api)\<^sup>*\<^sup>* (t0, new_with_shared_state api acl ct rl st) s"
  shows "acl_inv api (fst s) (snd s) \<and> same_rules (acl_new api acl) (snd s)"
  using assms
proof (induction rule: rtranclp_induct)
  case base
  then show ?case by (simp add: acl_inv_new new_same_rules acl_new_def)
next
  case (step s s')
  then show ?case using acl_step_inv [of api "fst s" "snd s" "fst s'" "snd s'"]
    by (auto intro: same_rules_trans)
qed

text \<open>
  C3. Whatever packets, clean-ups and refills a processor has seen, and whatever state it took over
  from its predecessor at a hot reload, the next packet is processed without a panic and gets the
  verdict of the configured rules: the answer of the first matching rule or the default action. The
  only exception is a drop by the rate limit of the matching rule. The cache answers like the rules.
\<close>

theorem acl_verdict_sound:
  assumes "(acl_step api)\<^sup>*\<^sup>* (t0, new_with_shared_state api acl tracked limits st) (now, p)"
    and "canonical pkt"
  shows "\<exists>res q. process_packet api now secs pkt ct p = Some (res, q) \<and>
    (res = verdict api ct pkt (acl_new api acl) \<or>
     limited api ct pkt (acl_new api acl) \<and> res_action res = A_Drop \<and> log_context res = Some RateLimitDrop)"
proof -
  have i: "acl_inv api now p" "same_rules (acl_new api acl) p" using acl_run_inv [OF assms(1)] by simp_all
  show ?thesis
    using process_packet_ok [OF i(1) assms(2), of ct secs] same_rules_verdict [OF i(2)]
    by (auto simp: packet_ok_def split: option.splits)
qed

text \<open>
  The result cache never holds more than 2048 entries, all with different keys.
\<close>

theorem acl_cache_bounded:
  assumes "(acl_step api)\<^sup>*\<^sup>* (t0, new_with_shared_state api acl tracked limits st) (now, p)"
  shows "length (rule_cache p) \<le> 2048 \<and> distinct (map fst (rule_cache p))"
proof -
  have "cache_max_size (acl_new api acl) = 1024"
    by (simp add: acl_new_def new_with_shared_state_def split_def Let_def)
  then show ?thesis using acl_run_inv [OF assms] by (simp add: acl_inv_def same_rules_def)
qed

section \<open>Rule order\<close>

lemma find_filter: "find P xs = (case filter P xs of [] \<Rightarrow> None | x # _ \<Rightarrow> Some x)"
  by (induction xs) auto

lemma find_sort_key:
  assumes "find P (sort_key f xs) = Some x" and "y \<in> set xs" and "P y"
  shows "f x \<le> f y"
proof -
  obtain zs where z: "filter P (sort_key f xs) = x # zs"
    using assms(1) by (auto simp: find_filter split: list.splits)
  have "sorted (map f (x # zs))" unfolding z [symmetric] by (simp add: sorted_filter)
  moreover have "y \<in> set (x # zs)" unfolding z [symmetric] using assms(2,3) by simp
  ultimately show ?thesis by auto
qed

lemma rule_matches_ref:
  "rule_matches api (convert_to_fast_lookup_rule api r n) pkt =
     rule_matches api (convert_to_fast_lookup_rule api r m) pkt"
  by (simp add: convert_to_fast_lookup_rule_def rule_matches_def)

text \<open>
  Inside a chain the highest priority wins: the rule that decides matches the packet, and no
  other enabled rule of the chain that matches has a higher priority.
\<close>

theorem highest_priority_decides:
  assumes "first_match api pkt (chain_rules api c n) = Some r"
  shows "rule_matches api r pkt \<and>
    (\<forall>r'\<in>set (c_rules c). r_enabled r' \<longrightarrow>
       rule_matches api (convert_to_fast_lookup_rule api r' n) pkt \<longrightarrow> r_priority r' \<le> priority r)"
proof -
  let ?rs = "filter r_enabled (c_rules c)"
  let ?fs = "map2 (convert_to_fast_lookup_rule api) ?rs [n..<n + length ?rs]"
  let ?P = "\<lambda>r. enabled r \<and> rule_matches api r pkt"
  have f: "find ?P (sort_key (\<lambda>r. - uint (priority r)) ?fs) = Some r"
    using assms by (simp add: first_match_def chain_rules_def Let_def)
  have "r_priority r' \<le> priority r" if r': "r' \<in> set ?rs"
    "rule_matches api (convert_to_fast_lookup_rule api r' n) pkt" for r'
  proof -
    obtain i where i: "i < length ?rs" "?rs ! i = r'" using r'(1) unfolding in_set_conv_nth by blast
    let ?y = "convert_to_fast_lookup_rule api r' (n + i)"
    have "?fs ! i = ?y" using i by simp
    moreover have "i < length ?fs" using i(1) by simp
    ultimately have "?y \<in> set ?fs" by (metis nth_mem)
    moreover have "?P ?y" using r' rule_matches_ref [of api r' "n + i" pkt n]
      by (simp add: convert_to_fast_lookup_rule_def)
    ultimately have "- uint (priority r) \<le> - uint (priority ?y)" by (rule find_sort_key [OF f])
    then show ?thesis by (simp add: convert_to_fast_lookup_rule_def word_le_def)
  qed
  moreover have "rule_matches api r pkt" using f by (auto simp: find_Some_iff)
  ultimately show ?thesis by auto
qed

section \<open>Whitelists\<close>

lemma is_digit_iff: "is_digit ch \<longleftrightarrow> 48 \<le> (of_char ch :: nat) \<and> (of_char ch :: nat) \<le> 57"
  by (simp add: is_digit_def less_eq_char_def)

lemma digit_not_space: "is_digit ch \<Longrightarrow> \<not> is_space ch"
  by (auto simp: is_digit_iff is_space_def)

lemma digit_char: "n < 10 \<Longrightarrow> is_digit (char_of (48 + n)) \<and> digit_val (char_of (48 + n)) = n"
  by (simp add: is_digit_iff digit_val_def)

lemma show_nat_digits: "list_all is_digit (show_nat n) \<and> show_nat n \<noteq> []"
proof (induction n rule: show_nat.induct)
  case (1 n)
  then show ?case by (cases "n < 10") (simp_all add: show_nat.simps [of n] digit_char)
qed

lemma show_nat_value: "fold (\<lambda>ch acc. acc * 10 + digit_val ch) (show_nat n) 0 = n"
proof (induction n rule: show_nat.induct)
  case (1 n)
  then show ?case by (cases "n < 10") (simp_all add: show_nat.simps [of n] digit_char)
qed

lemma unat_u16: "unat (w :: u16) < 65536"
  using unsigned_less [of w] by simp

lemma parse_u16_show: "parse_u16 (show_nat (unat (w :: u16))) = Some w"
proof -
  obtain ch s where s: "show_nat (unat w) = ch # s" "is_digit ch"
    using show_nat_digits [of "unat w"] by (cases "show_nat (unat w)") auto
  have "ch \<noteq> CHR ''+''" using s(2) by (auto simp: is_digit_iff)
  then have ds: "(if show_nat (unat w) \<noteq> [] \<and> hd (show_nat (unat w)) = CHR ''+''
      then tl (show_nat (unat w)) else show_nat (unat w)) = show_nat (unat w)"
    unfolding s(1) by simp
  then show ?thesis unfolding parse_u16_def Let_def ds show_nat_value
    using show_nat_digits [of "unat w"] unat_u16 [of w] by simp
qed

lemma parse_u16_chars:
  assumes "parse_u16 s = Some x" and "ch \<in> set s"
  shows "\<not> is_space ch \<and> ch \<noteq> CHR ''-''"
proof -
  have "ch = CHR ''+'' \<or> is_digit ch"
    using assms by (cases s) (auto simp: parse_u16_def Let_def list_all_iff split: if_splits)
  then show ?thesis by (auto simp: digit_not_space is_digit_iff is_space_def)
qed

lemma trim_id:
  assumes "\<And>ch. ch \<in> set s \<Longrightarrow> \<not> is_space ch"
  shows "trim s = s"
proof -
  have d: "dropWhile is_space xs = xs" if "set xs \<subseteq> set s" for xs
    using assms that by (cases xs) auto
  show ?thesis by (simp add: trim_def d)
qed

lemma parse_u16_trim: "parse_u16 s = Some x \<Longrightarrow> trim s = s"
  by (rule trim_id) (use parse_u16_chars in blast)

lemma dropWhile_ConsD: "dropWhile (\<lambda>c. c \<noteq> x) s = y # r \<Longrightarrow> x \<in> set s"
  by (induction s) (auto split: if_splits)

lemma split_dash_nonempty: "split_dash s \<noteq> []"
  by (cases s) (auto split: list.splits)

lemma split_dash_two:
  "split_dash s = [a, b] \<Longrightarrow> split_once_dash s = Some (a, b)"
proof (induction s arbitrary: a)
  case (Cons ch s)
  show ?case
  proof (cases "ch = CHR ''-''")
    case True
    have "split_dash t = [b] \<Longrightarrow> t = b" for t b
    proof (induction t arbitrary: b)
      case (Cons c t)
      then show ?case by (auto simp: split_dash_nonempty split: if_splits list.splits)
    qed simp
    then show ?thesis using Cons.prems True by (simp add: split_once_dash_def)
  next
    case False
    then obtain a' where "a = ch # a'" "split_dash s = [a', b]"
      using Cons.prems by (auto split: list.splits)
    then show ?thesis using Cons.IH [of a'] False
      by (auto simp: split_once_dash_def split: list.splits dest: dropWhile_ConsD)
  qed
qed simp

lemma parse_port_range_single:
  assumes "parse_u16 s = Some x"
  shows "parse_port_range s = Some (x, x)"
proof -
  have d: "dropWhile (\<lambda>ch. ch \<noteq> CHR ''-'') s = []"
    using parse_u16_chars [OF assms] by (simp add: dropWhile_eq_Nil_conv)
  have "split_once_dash s = None" unfolding split_once_dash_def d by simp
  then show ?thesis using assms by (simp add: parse_port_range_def parse_u16_trim)
qed

text \<open>What the builder accepts, the processor reads back as the same range.\<close>

lemma parse_port_spec_range:
  assumes "parse_port_spec spec = Inr out"
  shows "parse_port_range out = parse_port_range spec \<and>
    (\<exists>a b. parse_port_range spec = Some (a, b) \<and> a \<le> b)"
proof (cases "CHR ''-'' \<in> set spec")
  case True
  then obtain a b x y where "split_dash spec = [a, b]" "parse_u16 a = Some x" "parse_u16 b = Some y"
      "x \<le> y" "out = spec"
    using assms by (auto simp: parse_port_spec_def split: list.splits option.splits if_splits)
  moreover have "parse_port_range spec = Some (x, y)"
    using calculation by (simp add: parse_port_range_def split_dash_two parse_u16_trim)
  ultimately show ?thesis by simp
next
  case False
  then obtain x where "parse_u16 spec = Some x" "out = show_nat (unat x)"
    using assms by (auto simp: parse_port_spec_def split: option.splits)
  then show ?thesis by (simp add: parse_port_range_single parse_u16_show)
qed

lemma parse_port_list_ranges:
  "parse_port_list specs = Inr outs \<Longrightarrow>
     List.map_filter parse_port_range outs = map (the \<circ> parse_port_range) specs \<and> length outs = length specs \<and>
     (\<forall>s\<in>set specs. parse_port_range s \<noteq> None)"
proof (induction specs arbitrary: outs)
  case (Cons s specs)
  then obtain x xs where x: "parse_port_spec s = Inr x" "parse_port_list specs = Inr xs" "outs = x # xs"
    by (auto split: sum.splits)
  then show ?case using Cons.IH [OF x(2)] parse_port_spec_range [OF x(1)]
    by (auto simp: List.map_filter_simps)
qed (simp add: List.map_filter_simps)

definition whitelist_of :: "Protocol \<Rightarrow> AclRuleBuilder \<Rightarrow> string list" where
  "whitelist_of proto b = (if proto = P_Tcp then tcp_whitelist b else udp_whitelist b)"

definition listed :: "u16 \<Rightarrow> string \<Rightarrow> bool" where
  "listed port spec = (case parse_port_range spec of Some (a, b) \<Rightarrow> a \<le> port \<and> port \<le> b | None \<Rightarrow> False)"

lemma res_action_rule [simp]: "res_action (rule_result r pkt) = action r"
  by (simp add: rule_result_def)

lemma port_ok_listed:
  assumes "parse_port_list specs = Inr outs" and "specs \<noteq> []"
  shows "port_ok (Some port) (List.map_filter parse_port_range outs) = list_ex (listed port) specs"
proof -
  note r = parse_port_list_ranges [OF assms(1)]
  have "listed port s = (case (the \<circ> parse_port_range) s of (a, b) \<Rightarrow> a \<le> port \<and> port \<le> b)"
    if "s \<in> set specs" for s
    using r that by (cases "parse_port_range s") (auto simp: listed_def)
  then have "list_ex (\<lambda>(a, b). a \<le> port \<and> port \<le> b) (map (the \<circ> parse_port_range) specs) = list_ex (listed port) specs"
    by (simp add: list_ex_iff)
  then show ?thesis using r assms(2) by (simp add: port_ok_def)
qed

lemma all_ports: "List.map_filter parse_port_range [''0-65535''] = [(0, 65535)]"
  by (simp add: List.map_filter_simps parse_port_range_def split_once_dash_def trim_def is_space_def
      parse_u16_def is_digit_iff digit_val_def)

lemma whitelist_rule_matches:
  assumes "Protocol_of pr \<noteq> P_Any"
  shows "rule_matches api (convert_to_fast_lookup_rule api (whitelist_rule nm desc prio pr ports act st) n) pkt \<longleftrightarrow>
    Protocol_of pr = pi_protocol pkt \<and> port_ok (dst_port pkt) (List.map_filter parse_port_range ports)"
  using assms
  by (auto simp: rule_matches_def convert_to_fast_lookup_rule_def whitelist_rule_def
      List.map_filter_simps port_ok_def split: option.splits)

text \<open>The pair of rules of one whitelist: allow the ports, deny the others.\<close>

lemma sort_key_pair: "f a \<le> f b \<Longrightarrow> sort_key f [a, b] = [a, b]"
  by simp

lemma find_sorted:
  "filter P xs = ys \<Longrightarrow> find P (sort_key f xs) = (case sort_key f ys of [] \<Rightarrow> None | x # _ \<Rightarrow> Some x)"
  by (simp add: find_filter filter_sort)

lemma do_build_chain:
  assumes "do_build b = Inr (Some acl)" and "b_acl b = None"
  obtains c pt pu touts uouts where "acl_v1 acl = Some [c]" and "c_enabled c" and "c_chain_type c = 1"
    and "c_default_action c = 1"
    and "c_rules c = (if tcp_whitelist b = [] then [] else tcp_whitelist_rules pt touts) @
      (if udp_whitelist b = [] then [] else udp_whitelist_rules pu uouts)"
    and "tcp_whitelist b \<noteq> [] \<longrightarrow> parse_port_list (tcp_whitelist b) = Inr touts"
    and "udp_whitelist b \<noteq> [] \<longrightarrow> parse_port_list (udp_whitelist b) = Inr uouts"
  using assms
  by (fastforce simp: do_build_def generate_acl_from_whitelists_def Let_def
      split: if_splits sum.splits prod.splits option.splits)

lemma convert_whitelist [simp]:
  "priority (convert_to_fast_lookup_rule api (whitelist_rule nm desc prio pr ports act st) n) = prio"
  "action (convert_to_fast_lookup_rule api (whitelist_rule nm desc prio pr ports act st) n) = Action_of act"
  "enabled (convert_to_fast_lookup_rule api (whitelist_rule nm desc prio pr ports act st) n)"
  "r_enabled (whitelist_rule nm desc prio pr ports act st)"
  by (simp_all add: convert_to_fast_lookup_rule_def whitelist_rule_def)

lemma whitelist_chain_action:
  assumes c: "c_rules c = (if ts = [] then [] else tcp_whitelist_rules pt touts) @
      (if us = [] then [] else udp_whitelist_rules pu uouts)"
    and t: "ts \<noteq> [] \<longrightarrow> parse_port_list ts = Inr touts" and u: "us \<noteq> [] \<longrightarrow> parse_port_list us = Inr uouts"
    and p: "pi_protocol pkt \<in> {P_Tcp, P_Udp}" and d: "dst_port pkt = Some port"
  defines "specs \<equiv> (if pi_protocol pkt = P_Tcp then ts else us)"
  shows "map_option action (first_match api pkt (chain_rules api c n)) =
    (if specs = [] then None else if list_ex (listed port) specs then Some A_Allow else Some A_Drop)"
proof -
  let ?P = "\<lambda>r. enabled r \<and> rule_matches api r pkt"
  have deny: "port_ok (Some port) (List.map_filter parse_port_range [''0-65535''])"
    unfolding all_ports using unat_u16 [of port] by (simp add: port_ok_def word_le_nat_alt)
  have tcp: "ts \<noteq> [] \<Longrightarrow> port_ok (Some port) (List.map_filter parse_port_range touts) = list_ex (listed port) ts"
    using port_ok_listed [of ts] t by blast
  have udp: "us \<noteq> [] \<Longrightarrow> port_ok (Some port) (List.map_filter parse_port_range uouts) = list_ex (listed port) us"
    using port_ok_listed [of us] u by blast
  have prio: "- uint x \<le> - uint (0 :: u32)" for x :: u32 by simp
  show ?thesis
    using p unfolding first_match_def chain_rules_def Let_def c
    by (cases "ts = []"; cases "us = []")
      (auto simp: find_sorted tcp_whitelist_rules_def udp_whitelist_rules_def upt_conv_Cons tcp udp deny d
        whitelist_rule_matches Protocol_of_def Action_of_def specs_def simp del: List.map_filter_simps)
qed

text \<open>
  Port whitelists do what they say: when access control is generated from them alone, an inbound
  TCP or UDP packet is let through exactly if its protocol has no whitelist or its destination port
  lies in one of the listed ports and ranges; everything else is dropped.
\<close>

theorem whitelist_enforced:
  assumes "do_build b = Inr (Some acl)" and "b_acl b = None"
    and "pi_protocol pkt \<in> {P_Tcp, P_Udp}" and "dst_port pkt = Some port"
  shows "res_action (verdict api C_Inbound pkt (acl_new api acl)) =
    (if whitelist_of (pi_protocol pkt) b = [] \<or> list_ex (listed port) (whitelist_of (pi_protocol pkt) b)
     then A_Allow else A_Drop)"
proof -
  obtain c pt pu touts uouts where c: "acl_v1 acl = Some [c]" "c_enabled c" "c_chain_type c = 1"
      "c_default_action c = 1"
    and r: "c_rules c = (if tcp_whitelist b = [] then [] else tcp_whitelist_rules pt touts) @
      (if udp_whitelist b = [] then [] else udp_whitelist_rules pu uouts)"
      "tcp_whitelist b \<noteq> [] \<longrightarrow> parse_port_list (tcp_whitelist b) = Inr touts"
      "udp_whitelist b \<noteq> [] \<longrightarrow> parse_port_list (udp_whitelist b) = Inr uouts"
    by (rule do_build_chain [OF assms(1,2)])
  have rules: "inbound_rules (acl_new api acl) = chain_rules api c 1"
    "default_inbound_action (acl_new api acl) = A_Allow"
    using c by (simp_all add: acl_new_def new_with_shared_state_def build_rules_def Let_def split_def
        ChainType_of_def build_default_actions_def default_action_of_def Action_of_def)
  show ?thesis
    using whitelist_chain_action [OF r assms(3,4), of api 1]
    by (cases "first_match api pkt (chain_rules api c 1)")
      (auto simp: verdict_def rules default_result_def whitelist_of_def split: if_splits)
qed

section \<open>Where rules do not do what they say\<close>

lemma map_filter_None: "\<forall>x\<in>set xs. f x = None \<Longrightarrow> List.map_filter f xs = []"
  by (induction xs) (simp_all add: List.map_filter_simps)

text \<open>
  Source addresses and ports of a rule that cannot be parsed are silently left out. A rule all of
  whose sources or ports are misspelt therefore matches every source or port: it compiles to the
  same rule as one without these restrictions.
\<close>

theorem unparsable_restrictions_ignored:
  assumes "\<forall>s\<in>set (r_source_ips r). cidr_from_str api s = None"
    and "\<forall>s\<in>set (r_ports r). parse_port_range s = None"
  shows "convert_to_fast_lookup_rule api r n =
    convert_to_fast_lookup_rule api (r\<lparr>r_source_ips := [], r_ports := []\<rparr>) n"
proof -
  have "List.map_filter (convert_ip_inet_to_cidr api) (r_source_ips r) = []"
    by (rule map_filter_None) (use assms(1) in \<open>simp add: convert_ip_inet_to_cidr_def\<close>)
  moreover have "List.map_filter parse_port_range (r_ports r) = []"
    by (rule map_filter_None) (use assms(2) in simp)
  ultimately show ?thesis by (simp add: convert_to_fast_lookup_rule_def List.map_filter_simps)
qed

text \<open>
  A packet that passes the rate limit of a rule is counted twice in the statistics of that rule,
  when the rule is evaluated; a rule without rate limit counts it once.
\<close>

theorem rate_limited_rule_counts_twice:
  assumes "apply_rule now secs pkt ct key r p = Some (res, q)" and "log_context res \<noteq> Some RateLimitDrop"
  shows "fst (stat_heap q (rule_stats r)) = fst (stat_heap p (rule_stats r)) + (if rate_limit r > 0 then 2 else 1)"
proof -
  have rl: "stat_heap q = stat_heap p" if "check_rate_limit now k x y True p = Some (ok, q)"
    for k x y ok q
    using that by (auto simp: check_rate_limit_def Let_def split_def split: if_splits option.splits)
  have "stat_heap (cache_result now k e p) = stat_heap p"
    "stat_heap (increment_stat s p) = stat_heap p" "stat_heap (check_connection_state secs ck pkt p) = stat_heap p"
    for k e s ck and p :: "'a AclProcessor"
    by (simp_all add: cache_result_def increment_stat_def check_connection_state_def Let_def)
  note heap = this
  show ?thesis
    using assms
    by (auto simp: apply_rule_def Let_def heap inc_cache_entry_stats_def rate_limit_drop_def fresh_entry_def
        bind_eq_Some_conv dest: rl split: if_splits)
qed

section \<open>Concrete instances\<close>

text \<open>An address library that knows the network 10.0.0.0/8, as (network, mask).\<close>

definition demo_cidr :: "(u32 \<times> u32) cidr_api" where
  "demo_cidr = \<lparr>cidr_from_str = (\<lambda>s. if s = ''10.0.0.0/8'' then Some (CidrV4 (0x0A000000, 0xFF000000)) else None),
     v4_contains = (\<lambda>(net, mask) a. and a mask = net), v6_contains = (\<lambda>_ _. False)\<rparr>"

definition demo_rule :: "u32 \<Rightarrow> string list \<Rightarrow> int \<Rightarrow> u32 \<Rightarrow> Rule" where
  "demo_rule prio ips act rate =
     \<lparr>r_name = ''demo'', r_description = [], r_priority = prio, r_enabled = True, r_protocol = 1,
      r_ports = [], r_source_ips = ips, r_destination_ips = [], r_source_ports = [], r_action = act,
      r_rate_limit = rate, r_burst_limit = 5, r_stateful = False, r_source_groups = [],
      r_destination_groups = []\<rparr>"

definition demo_chain :: Chain where
  "demo_chain = \<lparr>c_name = ''demo'', c_chain_type = 1, c_description = [], c_enabled = True,
     c_rules = [demo_rule 5 [] 1 0, demo_rule 10 [''10.0.0.0/8''] 2 0], c_default_action = 1\<rparr>"

definition demo_acl :: Acl where
  "demo_acl = \<lparr>acl_v1 = Some [demo_chain]\<rparr>"

definition demo_pkt :: PacketInfo where
  "demo_pkt = \<lparr>src_ip = IpV4 0x0A000001, dst_ip = IpV4 0x0A000002, src_port = Some 4000,
     dst_port = Some 80, pi_protocol = P_Tcp, packet_size = 100, src_groups = [], dst_groups = []\<rparr>"

lemma demo_first_match:
  "first_match demo_cidr demo_pkt (chain_rules demo_cidr demo_chain n) =
     Some (convert_to_fast_lookup_rule demo_cidr (demo_rule 10 [''10.0.0.0/8''] 2 0) (n + 1))"
  by (simp add: first_match_def chain_rules_def demo_chain_def upt_conv_Cons convert_to_fast_lookup_rule_def
      demo_rule_def List.map_filter_simps convert_ip_inet_to_cidr_def demo_cidr_def rule_matches_def
      Protocol_of_def cidr_matches_def demo_pkt_def port_ok_def)

lemma demo_verdict: "res_action (verdict demo_cidr C_Inbound demo_pkt (acl_new demo_cidr demo_acl)) = A_Drop"
proof -
  have "inbound_rules (acl_new demo_cidr demo_acl) = chain_rules demo_cidr demo_chain 1"
    by (simp add: acl_new_def new_with_shared_state_def build_rules_def demo_acl_def split_def Let_def)
      (simp add: demo_chain_def ChainType_of_def)
  then show ?thesis
    by (simp add: verdict_def demo_first_match convert_to_fast_lookup_rule_def demo_rule_def Action_of_def)
qed

lemma demo_canonical: "canonical demo_pkt"
  by (simp add: canonical_def demo_pkt_def)

lemma demo_run: "(acl_step demo_cidr)\<^sup>*\<^sup>* (0, new_with_shared_state demo_cidr demo_acl None None None)
    (5, acl_new demo_cidr demo_acl)"
  unfolding acl_new_def by (intro r_into_rtranclp step_time) simp

theorem acl_verdict_sound_witness:
  "\<exists>res q. process_packet demo_cidr 5 0 demo_pkt C_Inbound (acl_new demo_cidr demo_acl) = Some (res, q) \<and>
    res_action res = A_Drop"
  using acl_verdict_sound [OF demo_run demo_canonical, of 0 C_Inbound] demo_verdict by auto

theorem acl_cache_bounded_witness:
  "\<exists>res q. process_packet demo_cidr 5 0 demo_pkt C_Inbound (acl_new demo_cidr demo_acl) = Some (res, q) \<and>
    length (rule_cache q) \<le> 2048"
proof -
  have "packet_ok demo_cidr 5 C_Inbound demo_pkt (acl_new demo_cidr demo_acl)
      (process_packet demo_cidr 5 0 demo_pkt C_Inbound (acl_new demo_cidr demo_acl))"
    using process_packet_ok [OF _ demo_canonical] acl_run_inv [OF demo_run] by simp
  then obtain res q where q: "process_packet demo_cidr 5 0 demo_pkt C_Inbound (acl_new demo_cidr demo_acl) = Some (res, q)"
    by (auto simp: packet_ok_def split: option.splits)
  have "(acl_step demo_cidr)\<^sup>*\<^sup>* (0, new_with_shared_state demo_cidr demo_acl None None None) (5, q)"
    by (rule rtranclp.rtrancl_into_rtrancl [OF demo_run step_packet [OF demo_canonical q]])
  then show ?thesis using acl_cache_bounded [of demo_cidr 0 demo_acl None None None 5 q] q by auto
qed

theorem highest_priority_decides_witness:
  "r_priority (demo_rule 5 [] 1 0) \<le> priority (the (first_match demo_cidr demo_pkt (chain_rules demo_cidr demo_chain 1)))"
proof -
  have "rule_matches demo_cidr (convert_to_fast_lookup_rule demo_cidr (demo_rule 5 [] 1 0) 1) demo_pkt"
    by (simp add: rule_matches_def convert_to_fast_lookup_rule_def demo_rule_def List.map_filter_simps
        Protocol_of_def demo_pkt_def port_ok_def)
  moreover have "demo_rule 5 [] 1 0 \<in> set (c_rules demo_chain)" "r_enabled (demo_rule 5 [] 1 0)"
    by (simp_all add: demo_chain_def demo_rule_def)
  ultimately show ?thesis using highest_priority_decides [OF demo_first_match [of 1]]
    unfolding demo_first_match option.sel by blast
qed

definition demo_builder :: AclRuleBuilder where
  "demo_builder = \<lparr>b_acl = None, tcp_whitelist = [''80''], udp_whitelist = [], whitelist_priority = None\<rparr>"

lemma parse_80: "parse_u16 ''80'' = Some 80"
  by (simp add: parse_u16_def is_digit_iff digit_val_def)

lemma demo_build: "\<exists>acl. do_build demo_builder = Inr (Some acl)"
  by (simp add: do_build_def generate_acl_from_whitelists_def demo_builder_def parse_port_spec_def
      parse_80 Let_def)

theorem whitelist_enforced_witness:
  "\<exists>acl. do_build demo_builder = Inr (Some acl) \<and>
     res_action (verdict demo_cidr C_Inbound demo_pkt (acl_new demo_cidr acl)) = A_Allow \<and>
     res_action (verdict demo_cidr C_Inbound (demo_pkt\<lparr>dst_port := Some 22\<rparr>) (acl_new demo_cidr acl)) = A_Drop"
proof -
  obtain acl where acl: "do_build demo_builder = Inr (Some acl)" using demo_build by blast
  have wl: "b_acl demo_builder = None" "whitelist_of P_Tcp demo_builder = [''80'']"
    by (simp_all add: demo_builder_def whitelist_of_def)
  have "listed 80 ''80''" "\<not> listed 22 ''80''"
    by (simp_all add: listed_def parse_port_range_single [OF parse_80])
  then show ?thesis
    using acl whitelist_enforced [OF acl wl(1), of demo_pkt 80 demo_cidr]
      whitelist_enforced [OF acl wl(1), of "demo_pkt\<lparr>dst_port := Some 22\<rparr>" 22 demo_cidr]
    by (simp add: demo_pkt_def wl(2))
qed

theorem unparsable_restrictions_ignored_witness:
  "convert_to_fast_lookup_rule demo_cidr (demo_rule 5 [''10.0.0.0/33''] 1 0) 1 =
     convert_to_fast_lookup_rule demo_cidr (demo_rule 5 [] 1 0) 1"
  using unparsable_restrictions_ignored [of "demo_rule 5 [''10.0.0.0/33''] 1 0" demo_cidr 1]
  by (simp add: demo_rule_def demo_cidr_def)

theorem rate_limited_rule_counts_twice_witness:
  "\<exists>res q. apply_rule 0 0 demo_pkt C_Inbound (from_packet_info demo_pkt C_Inbound)
      (convert_to_fast_lookup_rule demo_cidr (demo_rule 5 [] 1 100) 1) (acl_new demo_cidr demo_acl) = Some (res, q) \<and>
    fst (stat_heap q 1) = 2"
proof -
  define r where "r = convert_to_fast_lookup_rule demo_cidr (demo_rule 5 [] 1 100) 1"
  define p where "p = acl_new demo_cidr demo_acl"
  have p: "rate_limiters p = Map.empty" "stat_heap p = (\<lambda>_. (0, 0))"
    by (simp_all add: p_def acl_new_def new_with_shared_state_def split_def Let_def)
  have r: "rate_limit r = 100" "burst_limit r = 5" "stateful r = False" "rule_stats r = 1"
    by (simp_all add: r_def convert_to_fast_lookup_rule_def demo_rule_def)
  have "try_consume 1 (bucket_new 5 100 10) = ((bucket_new 5 100 10)\<lparr>available_tokens := 4\<rparr>, True)"
    by (simp add: try_consume_def bucket_new_def bucket_new_from_cfg_def)
  then obtain p1 where p1: "check_rate_limit 0 (RateLimitKey C_Inbound (priority r)) 100 5 True p = Some (True, p1)"
    by (simp add: check_rate_limit_def p)
  obtain q where q: "apply_rule 0 0 demo_pkt C_Inbound (from_packet_info demo_pkt C_Inbound) r p =
      Some (rule_result r demo_pkt, q)"
    by (simp add: apply_rule_def p1 r Let_def)
  have "log_context (rule_result r demo_pkt) \<noteq> Some RateLimitDrop" by (simp add: rule_result_def)
  from rate_limited_rule_counts_twice [OF q this] show ?thesis
    using q unfolding r_def [symmetric] p_def [symmetric] by (simp add: p r)
qed

end
