(* ===== verification/Acl_Filter.thy ===== *)
theory Acl_Filter
  imports Acl_Correctness Zc_Packet
begin

text \<open>
  The packet filter of \<open>easytier/src/peers/acl_filter.rs\<close>: it takes the addresses and ports out of a
  packet, asks the access control processor, counts the result, and lets replies to outbound packets
  through. The \<open>pnet\<close> packet views and the route (groups of a peer) are parameters; the atomic
  replacement of the processor at a hot reload is one step.
\<close>

section \<open>State\<close>

record OutboundAllowRecord =
  o_src_ip :: IpAddr
  o_dst_ip :: IpAddr
  o_src_port :: "u16 option"
  o_dst_port :: "u16 option"
  o_protocol :: Protocol

definition new_from_inbound_packet :: "PacketInfo \<Rightarrow> OutboundAllowRecord" where
  "new_from_inbound_packet p =
     \<lparr>o_src_ip = src_ip p, o_dst_ip = dst_ip p, o_src_port = src_port p, o_dst_port = dst_port p,
      o_protocol = pi_protocol p\<rparr>"

definition new_from_outbound_packet :: "PacketInfo \<Rightarrow> OutboundAllowRecord" where
  "new_from_outbound_packet p =
     \<lparr>o_src_ip = dst_ip p, o_dst_ip = src_ip p, o_src_port = dst_port p, o_dst_port = src_port p,
      o_protocol = pi_protocol p\<rparr>"

record 'c AclFilter =
  acl_processor :: "'c AclProcessor"
  acl_enabled :: bool
  outbound_allow_records :: "OutboundAllowRecord \<rightharpoonup> nat"

definition filter_new :: "'c cidr_api \<Rightarrow> 'c AclFilter" where
  "filter_new api = \<lparr>acl_processor = acl_new api \<lparr>acl_v1 = None\<rparr>, acl_enabled = False,
     outbound_allow_records = Map.empty\<rparr>"

text \<open>One round of the clean-up task.\<close>

definition clean_records :: "nat \<Rightarrow> 'c AclFilter \<Rightarrow> 'c AclFilter" where
  "clean_records now f = f\<lparr>outbound_allow_records := (\<lambda>r. case outbound_allow_records f r of
     Some t \<Rightarrow> if now - t < 30 * SEC then Some t else None | None \<Rightarrow> None)\<rparr>"

definition reload_rules :: "'c cidr_api \<Rightarrow> Acl option \<Rightarrow> 'c AclFilter \<Rightarrow> 'c AclFilter" where
  "reload_rules api cfg f =
     (let f = f\<lparr>outbound_allow_records := Map.empty\<rparr>
      in case cfg of
           None \<Rightarrow> f\<lparr>acl_enabled := False\<rparr>
         | Some acl \<Rightarrow>
             let (ct, rl, st) = get_shared_state (acl_processor f)
             in f\<lparr>acl_processor := new_with_shared_state api acl (Some ct) (Some rl) (Some st),
                  acl_enabled := True\<rparr>)"

definition filter_get_stats where
  "filter_get_stats f =
     (let p = acl_processor f in (get_stats p, ran (conn_track p), get_rules_stats p))"

section \<open>Reading a packet\<close>

text \<open>The accessors of the \<open>pnet\<close> views; \<open>new\<close> gives None on a buffer that is too short.\<close>

record ipv4_view =
  v4_version :: nat
  v4_source :: u32
  v4_destination :: u32
  v4_next_level_protocol :: u8
  v4_payload :: bytes

record ipv6_view =
  v6_source :: "128 word"
  v6_destination :: "128 word"
  v6_next_header :: u8
  v6_payload :: bytes

record pnet_api =
  ipv4_packet_new :: "bytes \<Rightarrow> ipv4_view option"
  ipv6_packet_new :: "bytes \<Rightarrow> ipv6_view option"
  tcp_packet_new :: "bytes \<Rightarrow> (u16 \<times> u16) option"
  udp_packet_new :: "bytes \<Rightarrow> (u16 \<times> u16) option"

text \<open>Protocol numbers: ICMP 1, TCP 6, UDP 17, ICMPv6 58.\<close>

definition extract_ports :: "pnet_api \<Rightarrow> u8 \<Rightarrow> bytes \<Rightarrow> (u16 option \<times> u16 option) option" where
  "extract_ports pn proto pl =
     (if proto = 6 then map_option (\<lambda>(s, d). (Some s, Some d)) (tcp_packet_new pn pl)
      else if proto = 17 then map_option (\<lambda>(s, d). (Some s, Some d)) (udp_packet_new pn pl)
      else Some (None, None))"

definition acl_protocol :: "u8 \<Rightarrow> Protocol" where
  "acl_protocol proto =
     (if proto = 6 then P_Tcp else if proto = 17 then P_Udp else if proto = 1 then P_Icmp
      else if proto = 58 then P_IcmpV6 else P_Unspecified)"

text \<open>\<open>packet.payload()\<close> panics on a packet shorter than its headers: the outer option.\<close>

definition extract_packet_info :: "pnet_api \<Rightarrow> (u32 \<Rightarrow> string list) \<Rightarrow> zc_packet \<Rightarrow> PacketInfo option may_panic"
where
  "extract_packet_info pn get_peer_groups packet = do {
     pl \<leftarrow> payload packet;
     Some (do {
       ip4 \<leftarrow> ipv4_packet_new pn pl;
       (src, dst, proto, ports) \<leftarrow>
         (if v4_version ip4 = 4 then do {
            ports \<leftarrow> extract_ports pn (v4_next_level_protocol ip4) (v4_payload ip4);
            Some (IpV4 (v4_source ip4), IpV4 (v4_destination ip4), v4_next_level_protocol ip4, ports) }
          else if v4_version ip4 = 6 then do {
            ip6 \<leftarrow> ipv6_packet_new pn pl;
            ports \<leftarrow> extract_ports pn (v6_next_header ip6) (v6_payload ip6);
            Some (IpV6 (v6_source ip6), IpV6 (v6_destination ip6), v6_next_header ip6, ports) }
          else None);
       Some \<lparr>src_ip = src, dst_ip = dst, src_port = fst ports, dst_port = snd ports,
         pi_protocol = acl_protocol proto, packet_size = length pl,
         src_groups = (case get_src_peer_id packet of Some i \<Rightarrow> get_peer_groups i | None \<Rightarrow> []),
         dst_groups = (case get_dst_peer_id packet of Some i \<Rightarrow> get_peer_groups i | None \<Rightarrow> [])\<rparr> }) }"

section \<open>Deciding\<close>

definition handle_acl_result :: "AclResult \<Rightarrow> ChainType \<Rightarrow> 'c AclProcessor \<Rightarrow> 'c AclProcessor" where
  "handle_acl_result res ct p =
     (let p = (case res_action res of
          A_Allow \<Rightarrow> increment_stat (from_chain_and_action ct ST_Allowed) (increment_stat PacketsAllowed p)
        | A_Drop \<Rightarrow> increment_stat (from_chain_and_action ct ST_Dropped) (increment_stat PacketsDropped p)
        | A_Noop \<Rightarrow> increment_stat (from_chain_and_action ct ST_Noop) (increment_stat PacketsNoop p))
      in increment_stat PacketsTotal (increment_stat (from_chain_and_action ct ST_Total) p))"

definition classify_chain_type :: "bool \<Rightarrow> PacketInfo \<Rightarrow> u32 option \<Rightarrow> (128 word \<Rightarrow> bool) \<Rightarrow> ChainType" where
  "classify_chain_type is_in info my_ipv4 is_local_ipv6 =
     (if \<not> is_in then C_Outbound
      else let is_local_dst = (dst_ip info = IpV4 (case my_ipv4 of Some a \<Rightarrow> a | None \<Rightarrow> 0) \<or>
             (case dst_ip info of IpV6 dst \<Rightarrow> is_local_ipv6 dst | _ \<Rightarrow> False))
           in if is_local_dst then C_Inbound else C_Forward)"

text \<open>What the node knows of itself and of its peers.\<close>

record node_env =
  my_ipv4 :: "u32 option"
  is_local_ipv6 :: "128 word \<Rightarrow> bool"
  get_peer_groups :: "u32 \<Rightarrow> string list"

definition process_packet_with_acl :: "'c cidr_api \<Rightarrow> pnet_api \<Rightarrow> node_env \<Rightarrow> nat \<Rightarrow> u64 \<Rightarrow> zc_packet
    \<Rightarrow> bool \<Rightarrow> 'c AclFilter \<Rightarrow> (bool \<times> 'c AclFilter) may_panic" where
  "process_packet_with_acl api pn env now secs packet is_in f =
     (if \<not> acl_enabled f then Some (True, f)
      else do {
        h \<leftarrow> peer_manager_header packet;
        if pm_packet_type h \<noteq> PacketType_code PT_Data then Some (True, f)
        else do {
          x \<leftarrow> extract_packet_info pn (get_peer_groups env) packet;
          case x of
            None \<Rightarrow> Some (True, f)
          | Some info \<Rightarrow> do {
              let ct = classify_chain_type is_in info (my_ipv4 env) (is_local_ipv6 env);
              (res, p) \<leftarrow> process_packet api now secs info ct (acl_processor f);
              let f = f\<lparr>acl_processor := handle_acl_result res ct p\<rparr>;
              if res_action res \<noteq> A_Drop then
                Some (True, if ct = C_Outbound
                  then f\<lparr>outbound_allow_records :=
                    (outbound_allow_records f)(new_from_outbound_packet info \<mapsto> now)\<rparr> else f)
              else if is_in \<and> outbound_allow_records f (new_from_inbound_packet info) \<noteq> None then
                Some (True, f\<lparr>outbound_allow_records :=
                  (outbound_allow_records f)(new_from_inbound_packet info \<mapsto> now)\<rparr>)
              else Some (False, f) } } })"

section \<open>Lemmas\<close>

text \<open>Packets reach the processor with ports exactly for TCP and UDP.\<close>

lemma extract_canonical:
  assumes "extract_packet_info pn g packet = Some (Some info)"
  shows "canonical info"
  using assms
  by (auto simp: extract_packet_info_def extract_ports_def acl_protocol_def canonical_def
      bind_eq_Some_conv split: if_splits prod.splits)

lemma header_payload: "peer_manager_header packet = Some h \<Longrightarrow> payload packet \<noteq> None"
  by (rule pkt_cases [of packet]) (auto simp: pkt_simps)

lemma extract_no_panic:
  assumes "peer_manager_header packet = Some h"
  shows "\<exists>x. extract_packet_info pn g packet = Some x"
  using header_payload [OF assms] by (auto simp: extract_packet_info_def)

lemma handle_acl_result_ok:
  "acl_inv api now p \<Longrightarrow> acl_inv api now (handle_acl_result res ct p)"
  "same_rules p (handle_acl_result res ct p)"
proof -
  show "same_rules p (handle_acl_result res ct p)"
    by (cases "res_action res") (auto simp: handle_acl_result_def same_rules_def increment_stat_def Let_def)
  show "acl_inv api now p \<Longrightarrow> acl_inv api now (handle_acl_result res ct p)"
    by (cases "res_action res") (auto simp: handle_acl_result_def Let_def)
qed

section \<open>Runs of the filter\<close>

text \<open>The packet that a filter classifies: enabled, a data packet, readable.\<close>

definition classified :: "pnet_api \<Rightarrow> node_env \<Rightarrow> zc_packet \<Rightarrow> bool \<Rightarrow> 'c AclFilter \<Rightarrow> (PacketInfo \<times> ChainType) option"
where
  "classified pn env packet is_in f =
     (if \<not> acl_enabled f then None
      else do {
        h \<leftarrow> peer_manager_header packet;
        if pm_packet_type h \<noteq> PacketType_code PT_Data then None
        else do {
          x \<leftarrow> extract_packet_info pn (get_peer_groups env) packet;
          info \<leftarrow> x;
          Some (info, classify_chain_type is_in info (my_ipv4 env) (is_local_ipv6 env)) } })"

text \<open>
  Reachable filters at a time: \<open>cfg\<close> is the configuration loaded last, \<open>sent\<close> the outbound packets that
  passed a filter that was enabled since the last reload.
\<close>

inductive filter_reach :: "'c cidr_api \<Rightarrow> pnet_api \<Rightarrow> nat \<Rightarrow> Acl \<Rightarrow> PacketInfo set \<Rightarrow> 'c AclFilter \<Rightarrow> bool"
  for api :: "'c cidr_api" and pn :: pnet_api where
  reach_new: "filter_reach api pn now \<lparr>acl_v1 = None\<rparr> {} (filter_new api)"
| reach_packet: "filter_reach api pn now cfg sent f \<Longrightarrow>
    process_packet_with_acl api pn env now secs packet is_in f = Some (ok, f') \<Longrightarrow>
    filter_reach api pn now cfg
      (case classified pn env packet is_in f of
         Some (info, ct) \<Rightarrow> if \<not> is_in \<and> ok then insert info sent else sent
       | None \<Rightarrow> sent) f'"
| reach_reload: "filter_reach api pn now cfg sent f \<Longrightarrow>
    filter_reach api pn now (case new of Some acl \<Rightarrow> acl | None \<Rightarrow> cfg) {} (reload_rules api new f)"
| reach_clean: "filter_reach api pn now cfg sent f \<Longrightarrow> filter_reach api pn now cfg sent (clean_records now f)"
| reach_processor: "filter_reach api pn now cfg sent f \<Longrightarrow> acl_step api (now, acl_processor f) (now', q) \<Longrightarrow>
    filter_reach api pn now' cfg sent (f\<lparr>acl_processor := q\<rparr>)"

definition filter_inv :: "'c cidr_api \<Rightarrow> nat \<Rightarrow> Acl \<Rightarrow> PacketInfo set \<Rightarrow> 'c AclFilter \<Rightarrow> bool" where
  "filter_inv api now cfg sent f \<longleftrightarrow> acl_inv api now (acl_processor f) \<and>
     same_rules (acl_new api cfg) (acl_processor f) \<and>
     dom (outbound_allow_records f) \<subseteq> new_from_outbound_packet ` sent"

text \<open>One packet through the filter: what it does to the processor and to the records.\<close>

definition packet_outcome :: "'c cidr_api \<Rightarrow> nat \<Rightarrow> Acl \<Rightarrow> PacketInfo \<Rightarrow> ChainType \<Rightarrow> bool
    \<Rightarrow> 'c AclFilter \<Rightarrow> bool \<Rightarrow> 'c AclFilter \<Rightarrow> bool" where
  "packet_outcome api now cfg info ct is_in f ok f' \<longleftrightarrow>
     (\<exists>res. acl_inv api now (acl_processor f') \<and> same_rules (acl_processor f) (acl_processor f') \<and>
        (res = verdict api ct info (acl_new api cfg) \<or>
         limited api ct info (acl_new api cfg) \<and> res_action res = A_Drop) \<and>
        (ok \<longleftrightarrow> res_action res \<noteq> A_Drop \<or>
           is_in \<and> outbound_allow_records f (new_from_inbound_packet info) \<noteq> None) \<and>
        dom (outbound_allow_records f') = dom (outbound_allow_records f) \<union>
          (if \<not> is_in \<and> ok then {new_from_outbound_packet info} else {}))"

lemma packet_outcomeE:
  assumes "packet_outcome api now cfg info ct is_in f ok f'"
  obtains res where "acl_inv api now (acl_processor f')" and "same_rules (acl_processor f) (acl_processor f')"
    and "res = verdict api ct info (acl_new api cfg) \<or>
      limited api ct info (acl_new api cfg) \<and> res_action res = A_Drop"
    and "ok \<longleftrightarrow> res_action res \<noteq> A_Drop \<or>
      is_in \<and> outbound_allow_records f (new_from_inbound_packet info) \<noteq> None"
    and "dom (outbound_allow_records f') = dom (outbound_allow_records f) \<union>
      (if \<not> is_in \<and> ok then {new_from_outbound_packet info} else {})"
  using assms unfolding packet_outcome_def by blast

lemma filter_packet_unclassified:
  assumes "peer_manager_header packet = Some h" and "classified pn env packet is_in f = None"
  shows "process_packet_with_acl api pn env now secs packet is_in f = Some (True, f)"
proof -
  obtain x where "extract_packet_info pn (get_peer_groups env) packet = Some x"
    using extract_no_panic [OF assms(1)] by blast
  then show ?thesis using assms
    by (auto simp: classified_def process_packet_with_acl_def split: if_splits option.splits)
qed

lemma filter_packet:
  assumes inv: "filter_inv api now cfg sent f" and cl: "classified pn env packet is_in f = Some (info, ct)"
  shows "\<exists>ok f'. process_packet_with_acl api pn env now secs packet is_in f = Some (ok, f') \<and>
    packet_outcome api now cfg info ct is_in f ok f'"
proof -
  obtain h where c: "acl_enabled f" "peer_manager_header packet = Some h"
    "pm_packet_type h = PacketType_code PT_Data"
    "extract_packet_info pn (get_peer_groups env) packet = Some (Some info)"
    "ct = classify_chain_type is_in info (my_ipv4 env) (is_local_ipv6 env)"
    using cl by (auto simp: classified_def bind_eq_Some_conv split: if_splits)
  have can: "canonical info" using extract_canonical c(4) by blast
  have out: "ct = C_Outbound \<longleftrightarrow> \<not> is_in" unfolding c(5) by (simp add: classify_chain_type_def)
  have i: "acl_inv api now (acl_processor f)" "same_rules (acl_new api cfg) (acl_processor f)"
    using inv by (simp_all add: filter_inv_def)
  obtain res q where q: "process_packet api now secs info ct (acl_processor f) = Some (res, q)"
    "acl_inv api now q" "same_rules (acl_processor f) q"
    "res = verdict api ct info (acl_processor f) \<or>
     limited api ct info (acl_processor f) \<and> res_action res = A_Drop"
    using process_packet_ok [OF i(1) can, of ct secs] by (auto simp: packet_ok_def split: option.splits)
  let ?q = "handle_acl_result res ct q"
  let ?rec = "outbound_allow_records f" and ?f = "f\<lparr>acl_processor := ?q\<rparr>"
  have qq: "acl_inv api now ?q" "same_rules (acl_processor f) ?q"
    using handle_acl_result_ok(1) [OF q(2)] same_rules_trans [OF q(3) handle_acl_result_ok(2)] by auto
  have r: "process_packet_with_acl api pn env now secs packet is_in f =
    (if res_action res \<noteq> A_Drop then
       Some (True, if ct = C_Outbound
         then ?f\<lparr>outbound_allow_records := ?rec(new_from_outbound_packet info \<mapsto> now)\<rparr> else ?f)
     else if is_in \<and> ?rec (new_from_inbound_packet info) \<noteq> None then
       Some (True, ?f\<lparr>outbound_allow_records := ?rec(new_from_inbound_packet info \<mapsto> now)\<rparr>)
     else Some (False, ?f))"
    using c(1-4) q(1) unfolding process_packet_with_acl_def c(5) by (auto simp: Let_def)
  have v: "res = verdict api ct info (acl_new api cfg) \<or>
      limited api ct info (acl_new api cfg) \<and> res_action res = A_Drop"
    using q(4) unfolding same_rules_verdict [OF i(2)] .
  have po: "packet_outcome api now cfg info ct is_in f ok f'"
    if "acl_processor f' = ?q" "ok \<longleftrightarrow> res_action res \<noteq> A_Drop \<or> is_in \<and> ?rec (new_from_inbound_packet info) \<noteq> None"
      "dom (outbound_allow_records f') = dom ?rec \<union> (if \<not> is_in \<and> ok then {new_from_outbound_packet info} else {})"
    for ok f'
    unfolding packet_outcome_def that(1) using that(2,3) v qq by (intro exI [of _ res]) simp
  consider "res_action res \<noteq> A_Drop" | "res_action res = A_Drop" "is_in" "?rec (new_from_inbound_packet info) \<noteq> None"
    | "res_action res = A_Drop" "\<not> (is_in \<and> ?rec (new_from_inbound_packet info) \<noteq> None)"
    by blast
  then show ?thesis
  proof cases
    case 1
    let ?f' = "if ct = C_Outbound
      then ?f\<lparr>outbound_allow_records := ?rec(new_from_outbound_packet info \<mapsto> now)\<rparr> else ?f"
    have "packet_outcome api now cfg info ct is_in f True ?f'" using 1 out by (intro po) auto
    then show ?thesis unfolding r using 1 by (intro exI [of _ True] exI [of _ ?f']) simp
  next
    case 2
    let ?f' = "?f\<lparr>outbound_allow_records := ?rec(new_from_inbound_packet info \<mapsto> now)\<rparr>"
    have "packet_outcome api now cfg info ct is_in f True ?f'" using 2 by (intro po) auto
    then show ?thesis unfolding r using 2 by (intro exI [of _ True] exI [of _ ?f']) simp
  next
    case 3
    have "packet_outcome api now cfg info ct is_in f False ?f" using 3 by (intro po) auto
    moreover have "process_packet_with_acl api pn env now secs packet is_in f = Some (False, ?f)"
      unfolding r if_not_P [OF 3(2)] using 3(1) by simp
    ultimately show ?thesis by blast
  qed
qed

lemma filter_reach_inv: "filter_reach api pn now cfg sent f \<Longrightarrow> filter_inv api now cfg sent f"
proof (induction rule: filter_reach.induct)
  case (reach_new now)
  then show ?case
    using acl_inv_new [of api now] by (simp add: filter_inv_def filter_new_def acl_new_def)
next
  case (reach_packet now cfg sent f env secs packet is_in ok f')
  show ?case
  proof (cases "classified pn env packet is_in f")
    case None
    then have "f' = f"
      using reach_packet.hyps(2)
      by (auto simp: classified_def process_packet_with_acl_def bind_eq_Some_conv split: if_splits option.splits)
    then show ?thesis using reach_packet.IH None by simp
  next
    case (Some ic)
    obtain info ct where ic: "ic = (info, ct)" by fastforce
    have "packet_outcome api now cfg info ct is_in f ok f'"
      using filter_packet [OF reach_packet.IH, of pn env packet is_in info ct secs] reach_packet.hyps(2) Some ic
      by simp
    then have f': "acl_inv api now (acl_processor f')" "same_rules (acl_processor f) (acl_processor f')"
      "dom (outbound_allow_records f') = dom (outbound_allow_records f) \<union>
         (if \<not> is_in \<and> ok then {new_from_outbound_packet info} else {})"
      unfolding packet_outcome_def by blast+
    have "same_rules (acl_new api cfg) (acl_processor f')"
      using reach_packet.IH f'(2) same_rules_trans unfolding filter_inv_def by blast
    then show ?thesis using f'(1,3) reach_packet.IH Some ic
      by (auto simp: filter_inv_def)
  qed
next
  case (reach_reload now cfg sent f new)
  then show ?case using acl_inv_new [of api now] new_same_rules [of api]
    by (cases new) (auto simp: filter_inv_def reload_rules_def Let_def get_shared_state_def acl_new_def)
next
  case (reach_clean now cfg sent f)
  then show ?case by (auto simp: filter_inv_def clean_records_def split: option.splits if_splits)
next
  case (reach_processor now cfg sent f now' q)
  then show ?case using acl_step_inv [of api now "acl_processor f" now' q]
      same_rules_trans [of "acl_new api cfg" "acl_processor f" q]
    by (auto simp: filter_inv_def)
qed

section \<open>What the filter guarantees\<close>

definition is_reply :: "PacketInfo \<Rightarrow> PacketInfo \<Rightarrow> bool" where
  "is_reply info out \<longleftrightarrow> new_from_inbound_packet info = new_from_outbound_packet out"

text \<open>
  C19. The filter never panics on a packet with a header, and a packet that passes an enabled filter
  passes for a reason: it is not a data packet, cannot be read as IP, the configuration loaded last
  does not drop it, or it is the reply (addresses and ports swapped, same protocol) to an outbound
  packet that passed since the last reload. A packet is dropped only if the configured rules drop it
  or its rule is rate limited.
\<close>

theorem acl_filter_decision:
  assumes "filter_reach api pn now cfg sent f" and "peer_manager_header packet = Some h"
  shows "\<exists>ok f'. process_packet_with_acl api pn env now secs packet is_in f = Some (ok, f') \<and>
    (ok \<longrightarrow> (case classified pn env packet is_in f of
        None \<Rightarrow> True
      | Some (info, ct) \<Rightarrow> res_action (verdict api ct info (acl_new api cfg)) \<noteq> A_Drop \<or>
          is_in \<and> (\<exists>out\<in>sent. is_reply info out))) \<and>
    (\<not> ok \<longrightarrow> (\<exists>info ct. classified pn env packet is_in f = Some (info, ct) \<and>
        (res_action (verdict api ct info (acl_new api cfg)) = A_Drop \<or> limited api ct info (acl_new api cfg))))"
proof -
  have inv: "filter_inv api now cfg sent f" by (rule filter_reach_inv [OF assms(1)])
  show ?thesis
  proof (cases "classified pn env packet is_in f")
    case None
    then show ?thesis using filter_packet_unclassified [OF assms(2) None]
      by (intro exI [of _ True] exI [of _ f]) simp
  next
    case (Some ic)
    obtain info ct where ic: "ic = (info, ct)" by fastforce
    obtain ok f' where r: "process_packet_with_acl api pn env now secs packet is_in f = Some (ok, f')"
      and o: "packet_outcome api now cfg info ct is_in f ok f'"
      using filter_packet [OF inv] Some ic by blast
    have rec: "\<exists>out\<in>sent. is_reply info out"
      if "outbound_allow_records f (new_from_inbound_packet info) \<noteq> None"
      using inv that by (auto simp: filter_inv_def is_reply_def dom_def)
    from o show ?thesis
    proof (rule packet_outcomeE)
      fix res
      assume "res = verdict api ct info (acl_new api cfg) \<or>
          limited api ct info (acl_new api cfg) \<and> res_action res = A_Drop"
        and "ok \<longleftrightarrow> res_action res \<noteq> A_Drop \<or>
          is_in \<and> outbound_allow_records f (new_from_inbound_packet info) \<noteq> None"
      then show ?thesis using rec unfolding r Some ic
        by (intro exI [of _ ok] exI [of _ f']) auto
    qed
  qed
qed

text \<open>
  Replies get through: directly after an outbound packet passed the enabled filter, the packet
  that answers it is let in, whatever the inbound rules say.
\<close>

theorem reply_allowed:
  assumes "filter_reach api pn now cfg sent f"
    and "classified pn env packet False f = Some (out, ct)"
    and "process_packet_with_acl api pn env now secs packet False f = Some (True, f')"
    and "classified pn env reply True f' = Some (info, ct')"
    and "is_reply info out"
  shows "\<exists>f''. process_packet_with_acl api pn env now secs' reply True f' = Some (True, f'')"
proof -
  have "packet_outcome api now cfg out ct False f True f'"
    using filter_packet [OF filter_reach_inv [OF assms(1)] assms(2), of secs] assms(3) by auto
  then have "new_from_outbound_packet out \<in> dom (outbound_allow_records f')"
    by (rule packet_outcomeE) simp
  then have rec: "outbound_allow_records f' (new_from_inbound_packet info) \<noteq> None"
    using assms(5) by (auto simp: is_reply_def)
  have "filter_inv api now cfg (insert out sent) f'"
    using filter_reach_inv [OF reach_packet [OF assms(1,3)]] assms(2) by simp
  then obtain ok f'' where "process_packet_with_acl api pn env now secs' reply True f' = Some (ok, f'')"
      "packet_outcome api now cfg info ct' True f' ok f''"
    using filter_packet [OF _ assms(4)] by blast
  moreover from this(2) rec have ok unfolding packet_outcome_def by blast
  ultimately show ?thesis by simp
qed

section \<open>A concrete filter\<close>

text \<open>Views of IPv4 packets without options, with TCP inside.\<close>

definition be16 :: "bytes \<Rightarrow> nat \<Rightarrow> u16" where
  "be16 bs i = ucast (bs ! i) * 256 + ucast (bs ! (i + 1))"

definition be32 :: "bytes \<Rightarrow> nat \<Rightarrow> u32" where
  "be32 bs i = ucast (be16 bs i) * 65536 + ucast (be16 bs (i + 2))"

definition demo_pnet :: pnet_api where
  "demo_pnet =
     \<lparr>ipv4_packet_new = (\<lambda>bs. if length bs < 20 then None
        else Some \<lparr>v4_version = unat (bs ! 0) div 16, v4_source = be32 bs 12, v4_destination = be32 bs 16,
          v4_next_level_protocol = bs ! 9, v4_payload = drop 20 bs\<rparr>),
      ipv6_packet_new = (\<lambda>_. None),
      tcp_packet_new = (\<lambda>bs. if length bs < 20 then None else Some (be16 bs 0, be16 bs 2)),
      udp_packet_new = (\<lambda>bs. if length bs < 8 then None else Some (be16 bs 0, be16 bs 2))\<rparr>"

definition demo_env :: node_env where
  "demo_env = \<lparr>my_ipv4 = Some 0x0A000002, is_local_ipv6 = (\<lambda>_. False), get_peer_groups = (\<lambda>_. [])\<rparr>"

definition ip_packet :: "u8 \<Rightarrow> u8 \<Rightarrow> u8 list \<Rightarrow> u8 list \<Rightarrow> zc_packet" where
  "ip_packet src dst sport dport = pkt ZT_NIC (replicate 20 0)
     \<lparr>from_peer_id = 1, to_peer_id = 2, pm_packet_type = 1, pm_flags = 0, forward_counter = 1,
      pm_reserved = 0, pm_len = 40\<rparr>
     ([0x45, 0, 0, 40, 0, 0, 0, 0, 64, 6, 0, 0, 10, 0, 0, src, 10, 0, 0, dst] @ sport @ dport @ replicate 16 0)"

definition ip_info :: "u32 \<Rightarrow> u32 \<Rightarrow> u16 \<Rightarrow> u16 \<Rightarrow> PacketInfo" where
  "ip_info src dst sport dport = \<lparr>src_ip = IpV4 src, dst_ip = IpV4 dst, src_port = Some sport,
     dst_port = Some dport, pi_protocol = P_Tcp, packet_size = 40, src_groups = [], dst_groups = []\<rparr>"

abbreviation "demo_out \<equiv> ip_packet 2 1 [0, 80] [15, 160]"
abbreviation "demo_reply \<equiv> ip_packet 1 2 [15, 160] [0, 80]"
abbreviation "demo_filter \<equiv> reload_rules demo_cidr (Some demo_acl) (filter_new demo_cidr)"

lemma hdr_room_nic: "hdr_room ZT_NIC (replicate 20 0)"
  by (simp add: hdr_room_def) code_simp

lemmas demo_simps = ip_packet_def extract_packet_info_def extract_ports_def acl_protocol_def
  demo_pnet_def demo_env_def classify_chain_type_def be16_def be32_def ip_info_def
  get_src_peer_id_def get_dst_peer_id_def

lemma demo_out_classified:
  "acl_enabled f \<Longrightarrow> classified demo_pnet demo_env demo_out False f =
     Some (ip_info 0x0A000002 0x0A000001 80 4000, C_Outbound)"
  by (simp add: classified_def demo_simps pkt_simps hdr_room_nic)

lemma demo_reply_classified:
  "acl_enabled f \<Longrightarrow> classified demo_pnet demo_env demo_reply True f =
     Some (ip_info 0x0A000001 0x0A000002 4000 80, C_Inbound)"
  by (simp add: classified_def demo_simps pkt_simps hdr_room_nic)

lemma demo_filter_reach: "filter_reach demo_cidr demo_pnet 5 demo_acl {} demo_filter"
  using reach_reload [OF reach_new [of demo_cidr demo_pnet 5], of "Some demo_acl"] by simp

lemma demo_filter_enabled: "acl_enabled demo_filter"
  by (simp add: reload_rules_def Let_def split_def)

lemma demo_out_verdict:
  "res_action (verdict demo_cidr C_Outbound info (acl_new demo_cidr demo_acl)) = A_Allow"
  "\<not> limited demo_cidr C_Outbound info (acl_new demo_cidr demo_acl)"
proof -
  have "outbound_rules (acl_new demo_cidr demo_acl) = []"
    by (simp add: acl_new_def new_with_shared_state_def build_rules_def demo_acl_def split_def Let_def)
      (simp add: demo_chain_def ChainType_of_def)
  moreover have "default_outbound_action (acl_new demo_cidr demo_acl) = A_Allow"
    by (simp add: acl_new_def new_with_shared_state_def build_default_actions_def default_action_of_def
        demo_acl_def demo_chain_def split_def Let_def)
  ultimately show "res_action (verdict demo_cidr C_Outbound info (acl_new demo_cidr demo_acl)) = A_Allow"
    "\<not> limited demo_cidr C_Outbound info (acl_new demo_cidr demo_acl)"
    by (simp_all add: verdict_def limited_def first_match_def default_result_def)
qed

theorem acl_filter_decision_witness:
  "\<exists>f'. process_packet_with_acl demo_cidr demo_pnet demo_env 5 0 demo_out False demo_filter = Some (True, f')"
proof -
  have "peer_manager_header demo_out \<noteq> None" by (simp add: ip_packet_def pkt_simps hdr_room_nic)
  then obtain h where "peer_manager_header demo_out = Some h" by blast
  from acl_filter_decision [OF demo_filter_reach this, of demo_env 0 False]
  show ?thesis using demo_out_classified [OF demo_filter_enabled] demo_out_verdict by auto
qed

text \<open>The inbound rule drops packets from 10.0.0.0/8; the reply to port 80 of this node comes in all the same.\<close>

theorem reply_allowed_witness:
  "\<exists>f' f''. process_packet_with_acl demo_cidr demo_pnet demo_env 5 0 demo_out False demo_filter = Some (True, f') \<and>
     process_packet_with_acl demo_cidr demo_pnet demo_env 5 0 demo_reply True f' = Some (True, f'')"
proof -
  let ?out = "ip_info 0x0A000002 0x0A000001 80 4000"
  note cl = demo_out_classified [OF demo_filter_enabled]
  obtain ok f' where f': "process_packet_with_acl demo_cidr demo_pnet demo_env 5 0 demo_out False demo_filter = Some (ok, f')"
    and o: "packet_outcome demo_cidr 5 demo_acl ?out C_Outbound False demo_filter ok f'"
    using filter_packet [OF filter_reach_inv [OF demo_filter_reach] cl] by blast
  have ok using o demo_out_verdict [of ?out] by (auto elim: packet_outcomeE)
  then have r: "process_packet_with_acl demo_cidr demo_pnet demo_env 5 0 demo_out False demo_filter = Some (True, f')"
    using f' by simp
  have "acl_enabled f'" using r cl demo_filter_enabled
    by (auto simp: process_packet_with_acl_def bind_eq_Some_conv Let_def split_def
        split: if_splits option.splits)
  moreover have "is_reply (ip_info 0x0A000001 0x0A000002 4000 80) ?out"
    by (simp add: is_reply_def new_from_inbound_packet_def new_from_outbound_packet_def ip_info_def)
  ultimately show ?thesis
    using r reply_allowed [OF demo_filter_reach cl r demo_reply_classified, of 0] by blast
qed

end
