(* ===== verification/Rpc_Packet.thy ===== *)
theory Rpc_Packet
  imports Compressor
begin

text \<open>
  RPC packets of \<open>easytier/src/proto/rpc_impl/packet.rs\<close>: compressing a message, splitting it into
  pieces that fit one UDP datagram, building the packets, and merging received pieces. The protobuf
  codec of \<open>RpcPacket\<close> (generated by \<open>prost\<close>) and its length functions are the parameter \<open>pb\<close>.
\<close>

section \<open>Messages (common.proto)\<close>

datatype CompressionAlgoPb = CP_Invalid | CP_None | CP_Zstd

primrec CompressionAlgoPb_code :: "CompressionAlgoPb \<Rightarrow> int" where
  "CompressionAlgoPb_code CP_Invalid = 0"
| "CompressionAlgoPb_code CP_None = 1"
| "CompressionAlgoPb_code CP_Zstd = 2"

text \<open>The accessor of an enum field, and \<open>try_into().unwrap_or_default()\<close>.\<close>

definition CompressionAlgoPb_of :: "int \<Rightarrow> CompressionAlgoPb" where
  "CompressionAlgoPb_of i = (if i = 1 then CP_None else if i = 2 then CP_Zstd else CP_Invalid)"

fun algo_from_pb :: "CompressionAlgoPb \<Rightarrow> CompressorAlgo option" where
  "algo_from_pb CP_Zstd = Some CA_ZstdDefault"
| "algo_from_pb CP_None = Some CA_None"
| "algo_from_pb CP_Invalid = None"

primrec algo_to_pb :: "CompressorAlgo \<Rightarrow> CompressionAlgoPb" where
  "algo_to_pb CA_ZstdDefault = CP_Zstd"
| "algo_to_pb CA_None = CP_None"

record RpcDescriptor =
  domain_name :: string
  proto_name :: string
  service_name :: string
  method_index :: u32

record RpcCompressionInfo =
  ci_algo :: int
  ci_accepted_algo :: int

record RpcPacket =
  from_peer :: u32
  to_peer :: u32
  transaction_id :: int
  descriptor :: "RpcDescriptor option"
  body :: bytes
  is_request :: bool
  total_pieces :: u32
  piece_idx :: u32
  trace_id :: int
  compression_info :: "RpcCompressionInfo option"

definition RpcPacket_default :: RpcPacket where
  "RpcPacket_default = \<lparr>from_peer = 0, to_peer = 0, transaction_id = 0, descriptor = None, body = [],
     is_request = False, total_pieces = 0, piece_idx = 0, trace_id = 0, compression_info = None\<rparr>"

datatype rpc_error = MalformatDescriptor | MalformatTotalPieces u32 | MalformatPieceIdx
  | RpcCompress comp_error | InvalidAlgo

section \<open>Compression\<close>

definition compress_packet :: "zstd_api \<Rightarrow> CompressionAlgoPb \<Rightarrow> bytes
    \<Rightarrow> rpc_error + bytes \<times> CompressionAlgoPb" where
  "compress_packet z accepted content =
     (let algo = (case algo_from_pb accepted of Some a \<Rightarrow> a | None \<Rightarrow> CA_None)
      in case compress_raw z content algo of
           Inl e \<Rightarrow> Inl (RpcCompress e)
         | Inr compressed \<Rightarrow>
             if length compressed \<ge> length content then Inr (content, CP_None)
             else Inr (compressed, algo_to_pb algo))"

definition decompress_packet :: "zstd_api \<Rightarrow> CompressionAlgoPb \<Rightarrow> bytes \<Rightarrow> rpc_error + bytes" where
  "decompress_packet z algo content =
     (case algo_from_pb algo of
        None \<Rightarrow> Inl InvalidAlgo
      | Some a \<Rightarrow> (case decompress_raw z content a of Inl e \<Rightarrow> Inl (RpcCompress e) | Inr d \<Rightarrow> Inr d))"

section \<open>Merging\<close>

record PacketMerger =
  first_piece :: "RpcPacket option"
  pieces :: "RpcPacket list"
  last_updated :: nat

definition merger_new :: "nat \<Rightarrow> PacketMerger" where
  "merger_new now = \<lparr>first_piece = None, pieces = [], last_updated = now\<rparr>"

definition try_merge_pieces :: "PacketMerger \<Rightarrow> RpcPacket option" where
  "try_merge_pieces m =
     (if first_piece m = None \<or> pieces m = [] then None
      else if list_ex (\<lambda>p. total_pieces p = 0) (pieces m) then None
      else Some ((pieces m ! 0)\<lparr>total_pieces := 1, piece_idx := 0, body := concat (map body (pieces m))\<rparr>))"

text \<open>\<open>Vec::resize\<close>\<close>

definition resize :: "nat \<Rightarrow> 'a \<Rightarrow> 'a list \<Rightarrow> 'a list" where
  "resize n d xs = take n xs @ replicate (n - length xs) d"

definition feed :: "nat \<Rightarrow> RpcPacket \<Rightarrow> PacketMerger \<Rightarrow> (rpc_error + RpcPacket option) \<times> PacketMerger" where
  "feed now p m =
     (let tot = total_pieces p; idx = piece_idx p
      in if tot = 0 \<and> idx = 0 then (Inr (Some p), m)
         else if idx = 0 \<and> descriptor p = None then (Inl MalformatDescriptor, m)
         else if tot > 32 * 1024 \<or> tot = 0 then (Inl (MalformatTotalPieces tot), m)
         else if idx \<ge> tot then (Inl MalformatPieceIdx, m)
         else
           let m = (if (case first_piece m of
                  None \<Rightarrow> True
                | Some f \<Rightarrow> transaction_id f \<noteq> transaction_id p \<or> from_peer f \<noteq> from_peer p)
                then m\<lparr>first_piece := Some p, pieces := []\<rparr> else m);
               m = m\<lparr>pieces := (resize (unat tot) RpcPacket_default (pieces m))[unat idx := p],
                     last_updated := now\<rparr>
           in (Inr (try_merge_pieces m), m))"

section \<open>Splitting\<close>

record BuildRpcPacketArgs =
  a_from_peer :: u32
  a_to_peer :: u32
  rpc_desc :: RpcDescriptor
  a_transaction_id :: int
  is_req :: bool
  content :: bytes
  a_trace_id :: int
  a_compression_info :: RpcCompressionInfo

text \<open>The generated codec: \<open>encode\<close>, \<open>decode\<close>, and \<open>prost::length_delimiter_len\<close>.\<close>

record pb_api =
  pb_encode :: "RpcPacket \<Rightarrow> bytes"
  pb_decode :: "bytes \<Rightarrow> RpcPacket option"
  length_delimiter_len :: "nat \<Rightarrow> nat"

abbreviation encoded_len :: "pb_api \<Rightarrow> RpcPacket \<Rightarrow> nat" where
  "encoded_len pb p \<equiv> length (pb_encode pb p)"

definition RPC_PACKET_UDP_PAYLOAD_BUDGET :: nat where "RPC_PACKET_UDP_PAYLOAD_BUDGET = 1300"

definition udp_rpc_tunnel_overhead :: nat where
  "udp_rpc_tunnel_overhead = payload_offset_of (get_packet_offsets ZT_UDP) + TAIL_RESERVED_SIZE"

definition max_rpc_packet_encoded_len_for_udp :: nat where
  "max_rpc_packet_encoded_len_for_udp = RPC_PACKET_UDP_PAYLOAD_BUDGET - udp_rpc_tunnel_overhead"

definition build_rpc_piece :: "BuildRpcPacketArgs \<Rightarrow> u32 \<Rightarrow> u32 \<Rightarrow> bytes \<Rightarrow> RpcPacket" where
  "build_rpc_piece args tot idx bd =
     \<lparr>from_peer = a_from_peer args, to_peer = a_to_peer args, transaction_id = a_transaction_id args,
      descriptor = (if idx = 0 \<or> ci_algo (a_compression_info args) = CompressionAlgoPb_code CP_None
        then Some (rpc_desc args) else None),
      body = bd, is_request = is_req args, total_pieces = tot, piece_idx = idx,
      trace_id = a_trace_id args,
      compression_info = (if idx = 0 then Some (a_compression_info args) else None)\<rparr>"

definition pick_piece_len_for_budget :: "pb_api \<Rightarrow> nat \<Rightarrow> nat \<Rightarrow> nat \<Rightarrow> nat" where
  "pick_piece_len_for_budget pb base remaining max_encoded_len =
     (if remaining = 0 then 0
      else if base + 3 > max_encoded_len then 1
      else let budget = max_encoded_len - base;
               reserved = 1 + length_delimiter_len pb budget
           in max (min remaining (budget - reserved)) 1)"

lemma pick_piece_len_pos: "0 < remaining \<Longrightarrow> 0 < pick_piece_len_for_budget pb base remaining m"
  by (auto simp: pick_piece_len_for_budget_def Let_def max_def)

text \<open>The loop of the split: \<open>first\<close> says that no piece was pushed yet.\<close>

function split_loop :: "pb_api \<Rightarrow> nat \<Rightarrow> nat \<Rightarrow> nat \<Rightarrow> nat \<Rightarrow> bool \<Rightarrow> nat \<Rightarrow> (nat \<times> nat) list" where
  "split_loop pb first_base other_base max_encoded_len len first offset =
     (if offset < len then
        let base_len = (if first then first_base else other_base);
            piece_len = pick_piece_len_for_budget pb base_len (len - offset) max_encoded_len
        in (offset, piece_len) #
           split_loop pb first_base other_base max_encoded_len len False (offset + piece_len)
      else [])"
  by pat_completeness auto
termination
proof (relation "measure (\<lambda>(_, _, _, _, len, _, offset). len - offset)")
  fix pb :: pb_api and fb ob m len offset base_len piece_len :: nat and first
  assume "offset < len" and "piece_len = pick_piece_len_for_budget pb base_len (len - offset) m"
  then show "((pb, fb, ob, m, len, False, offset + piece_len), pb, fb, ob, m, len, first, offset)
      \<in> measure (\<lambda>(_, _, _, _, len, _, offset). len - offset)"
    using pick_piece_len_pos [of "len - offset" pb base_len m] by simp
qed simp

declare split_loop.simps [simp del]

definition split_rpc_content_for_udp_budget :: "pb_api \<Rightarrow> BuildRpcPacketArgs \<Rightarrow> (nat \<times> nat) list" where
  "split_rpc_content_for_udp_budget pb args =
     (if content args = [] then [(0, 0)]
      else split_loop pb (encoded_len pb (build_rpc_piece args (- 1) 0 []))
             (encoded_len pb (build_rpc_piece args (- 1) (- 1) []))
             (max max_rpc_packet_encoded_len_for_udp 1) (length (content args)) True 0)"

text \<open>One packet; \<open>encode\<close> into a \<open>Vec\<close> cannot fail.\<close>

definition build_piece_packet :: "pb_api \<Rightarrow> (nat \<Rightarrow> u8) \<Rightarrow> BuildRpcPacketArgs \<Rightarrow> nat \<Rightarrow> nat \<Rightarrow> nat \<times> nat
    \<Rightarrow> zc_packet may_panic" where
  "build_piece_packet pb u args n i ol = do {
     bd \<leftarrow> index_range (fst ol) (fst ol + snd ol) (content args);
     let cur_packet = build_rpc_piece args (of_nat n) (of_nat i) bd;
     zc \<leftarrow> new_with_payload u (pb_encode pb cur_packet);
     fill_peer_manager_hdr (a_from_peer args) (a_to_peer args)
       (PacketType_code (if is_req args then PT_RpcReq else PT_RpcResp)) zc }"

definition build_rpc_packet :: "pb_api \<Rightarrow> (nat \<Rightarrow> u8) \<Rightarrow> BuildRpcPacketArgs \<Rightarrow> zc_packet list may_panic" where
  "build_rpc_packet pb u args =
     (let pcs = split_rpc_content_for_udp_budget pb args;
          ps = map (\<lambda>(i, ol). build_piece_packet pb u args (length pcs) i ol) (enumerate 0 pcs)
      in if None \<in> set ps then None else Some (map the ps))"

section \<open>The slicing plan\<close>

lemma pick_piece_len_le: "pick_piece_len_for_budget pb base remaining m \<le> remaining"
  by (auto simp: pick_piece_len_for_budget_def Let_def max_def)

text \<open>The slices of a plan that starts at \<open>offset\<close> are the rest of the content.\<close>

lemma split_loop_concat:
  "concat (map (\<lambda>(ofs, l). take l (drop ofs xs)) (split_loop pb fb ob m (length xs) first offset)) =
     drop offset xs"
proof (induction pb fb ob m "length xs" first offset rule: split_loop.induct)
  case (1 pb fb ob m first offset)
  show ?case
  proof (cases "offset < length xs")
    case True
    define l where "l = pick_piece_len_for_budget pb (if first then fb else ob) (length xs - offset) m"
    have "take l (drop offset xs) @ drop (offset + l) xs = drop offset xs"
      by (metis add.commute append_take_drop_id drop_drop)
    then show ?thesis
      using True 1(1) [OF True] by (subst split_loop.simps) (simp add: l_def Let_def)
  qed (simp add: split_loop.simps)
qed

lemma split_loop_range:
  "(ofs, l) \<in> set (split_loop pb fb ob m len first offset) \<Longrightarrow> 0 < l \<and> ofs + l \<le> len"
proof (induction pb fb ob m len first offset rule: split_loop.induct)
  case (1 pb fb ob m len first offset)
  have "offset < len" using 1(2) by (subst (asm) split_loop.simps) (auto split: if_splits)
  moreover from this 1(2) have "(ofs, l) = (offset, pick_piece_len_for_budget pb (if first then fb else ob) (len - offset) m) \<or>
      (ofs, l) \<in> set (split_loop pb fb ob m len False
        (offset + pick_piece_len_for_budget pb (if first then fb else ob) (len - offset) m))"
    by (subst (asm) split_loop.simps) (auto simp: Let_def)
  ultimately show ?case
    using 1(1) pick_piece_len_pos [of "len - offset"] pick_piece_len_le [of pb _ "len - offset" m]
    by (fastforce simp: le_diff_conv2 add.commute)
qed

section \<open>The merger\<close>

text \<open>The pieces of one message, complete and in order.\<close>

definition well_pieced :: "RpcPacket list \<Rightarrow> bool" where
  "well_pieced ps \<longleftrightarrow> 0 < length ps \<and> length ps \<le> 32 * 1024 \<and> descriptor (ps ! 0) \<noteq> None \<and>
     (\<forall>i<length ps. total_pieces (ps ! i) = of_nat (length ps) \<and> piece_idx (ps ! i) = of_nat i \<and>
        transaction_id (ps ! i) = transaction_id (ps ! 0) \<and> from_peer (ps ! i) = from_peer (ps ! 0))"

definition merged :: "RpcPacket list \<Rightarrow> RpcPacket" where
  "merged ps = (ps ! 0)\<lparr>total_pieces := 1, piece_idx := 0, body := concat (map body ps)\<rparr>"

text \<open>The merger after the pieces with the indices \<open>fed\<close> have arrived.\<close>

definition merger_holds :: "RpcPacket list \<Rightarrow> nat set \<Rightarrow> PacketMerger \<Rightarrow> bool" where
  "merger_holds ps fed m \<longleftrightarrow>
     (if fed = {} then first_piece m = None
      else (\<exists>f. first_piece m = Some f \<and> transaction_id f = transaction_id (ps ! 0) \<and>
                from_peer f = from_peer (ps ! 0)) \<and>
           pieces m = map (\<lambda>i. if i \<in> fed then ps ! i else RpcPacket_default) [0..<length ps])"

lemma of_nat_u32_zero:
  assumes "i < 2 ^ 32"
  shows "(of_nat i :: u32) = 0 \<longleftrightarrow> i = 0"
proof -
  have i: "unat (of_nat i :: u32) = i" using assms by (simp add: unat_of_nat)
  have "(unat (of_nat i :: u32) = 0) = ((of_nat i :: u32) = 0)" by (rule unsigned_eq_0_iff)
  then show ?thesis unfolding i by blast
qed

lemma of_nat_u32_bounds:
  assumes "i < n" and "n \<le> 32 * 1024"
  shows "unat (of_nat i :: u32) = i" and "unat (of_nat n :: u32) = n" and "(of_nat n :: u32) \<noteq> 0"
    and "\<not> (of_nat n :: u32) > 32 * 1024" and "\<not> (of_nat i :: u32) \<ge> of_nat n"
    and "(of_nat i :: u32) = 0 \<longleftrightarrow> i = 0"
proof -
  show i: "unat (of_nat i :: u32) = i" and n: "unat (of_nat n :: u32) = n"
    using assms by (simp_all add: unat_of_nat)
  show "(of_nat n :: u32) \<noteq> 0" using n assms by (metis gr_implies_not0 unat_0)
  show "\<not> (of_nat n :: u32) > 32 * 1024" using n assms(2) by (simp add: word_less_nat_alt)
  show "\<not> (of_nat i :: u32) \<ge> of_nat n" using n i assms(1) by (simp add: word_le_nat_alt)
  show "(of_nat i :: u32) = 0 \<longleftrightarrow> i = 0" using assms by (intro of_nat_u32_zero) simp
qed

lemma resize_empty: "resize n d [] = map (\<lambda>_. d) [0..<n]"
  by (simp add: resize_def map_replicate_const)

lemma resize_same: "length xs = n \<Longrightarrow> resize n d xs = xs"
  by (simp add: resize_def)

lemma map_upt_update:
  "i < n \<Longrightarrow> (map (\<lambda>j. if j \<in> A then f j else d) [0..<n])[i := f i] =
     map (\<lambda>j. if j \<in> insert i A then f j else d) [0..<n]"
  by (rule nth_equalityI) (auto simp: nth_list_update)

lemma feed_well_pieced:
  assumes w: "well_pieced ps" and i: "i < length ps"
  shows "feed now (ps ! i) m =
    (let m = (if (case first_piece m of None \<Rightarrow> True
            | Some f \<Rightarrow> transaction_id f \<noteq> transaction_id (ps ! 0) \<or> from_peer f \<noteq> from_peer (ps ! 0))
          then m\<lparr>first_piece := Some (ps ! i), pieces := []\<rparr> else m);
         m = m\<lparr>pieces := (resize (length ps) RpcPacket_default (pieces m))[i := ps ! i], last_updated := now\<rparr>
     in (Inr (try_merge_pieces m), m))"
proof -
  have b: "length ps \<le> 32 * 1024" and p: "total_pieces (ps ! i) = of_nat (length ps)" "piece_idx (ps ! i) = of_nat i"
    "transaction_id (ps ! i) = transaction_id (ps ! 0)" "from_peer (ps ! i) = from_peer (ps ! 0)"
    "descriptor (ps ! 0) \<noteq> None"
    using w i unfolding well_pieced_def by blast+
  note n = of_nat_u32_bounds [OF i b]
  have "\<not> (piece_idx (ps ! i) = 0 \<and> descriptor (ps ! i) = None)" using p n(6) by auto
  then show ?thesis unfolding feed_def Let_def p(1-4) n(1,2) using n(3-5) by (simp only: if_False simp_thms)
qed

lemma try_merge_holds:
  assumes w: "well_pieced ps" and f: "first_piece m \<noteq> None"
    and p: "pieces m = map (\<lambda>i. if i \<in> fed then ps ! i else RpcPacket_default) [0..<length ps]"
  shows "try_merge_pieces m = (if {..<length ps} \<subseteq> fed then Some (merged ps) else None)"
proof -
  have n: "0 < length ps" "length ps \<le> 32 * 1024" using w by (auto simp: well_pieced_def)
  have t: "total_pieces (ps ! i) \<noteq> 0" if "i < length ps" for i
    using w that of_nat_u32_bounds(3) [OF that n(2)] by (simp add: well_pieced_def)
  have miss: "list_ex (\<lambda>q. total_pieces q = 0) (pieces m) \<longleftrightarrow> \<not> {..<length ps} \<subseteq> fed"
  proof -
    have "(\<exists>i<length ps. total_pieces (if i \<in> fed then ps ! i else RpcPacket_default) = 0) \<longleftrightarrow> \<not> {..<length ps} \<subseteq> fed"
      using t by (auto simp: RpcPacket_default_def)
    then show ?thesis by (auto simp: p list_ex_iff)
  qed
  have "pieces m = ps" if "{..<length ps} \<subseteq> fed"
    unfolding p by (rule nth_equalityI) (use that in auto)
  then show ?thesis using miss f n(1) by (auto simp: try_merge_pieces_def merged_def p)
qed

text \<open>One piece: the merger completes exactly when it was the last one missing.\<close>

lemma feed_step:
  assumes w: "well_pieced ps" and h: "merger_holds ps fed m" and i: "i < length ps"
  shows "merger_holds ps (insert i fed) (snd (feed now (ps ! i) m))"
    and "fst (feed now (ps ! i) m) = Inr (if {..<length ps} \<subseteq> insert i fed then Some (merged ps) else None)"
proof -
  let ?m = "snd (feed now (ps ! i) m)"
  have p: "transaction_id (ps ! i) = transaction_id (ps ! 0)" "from_peer (ps ! i) = from_peer (ps ! 0)"
    using w i unfolding well_pieced_def by blast+
  have m: "(\<exists>f. first_piece ?m = Some f \<and> transaction_id f = transaction_id (ps ! 0) \<and> from_peer f = from_peer (ps ! 0)) \<and>
      pieces ?m = map (\<lambda>j. if j \<in> insert i fed then ps ! j else RpcPacket_default) [0..<length ps]"
  proof (cases "fed = {}")
    case True
    then show ?thesis using h p map_upt_update [OF i, of "{}" "(!) ps" RpcPacket_default]
      by (simp add: merger_holds_def feed_well_pieced [OF w i] Let_def resize_empty)
  next
    case False
    then show ?thesis using h map_upt_update [OF i, of fed "(!) ps" RpcPacket_default]
      by (auto simp: merger_holds_def feed_well_pieced [OF w i] Let_def resize_same)
  qed
  then show "merger_holds ps (insert i fed) ?m" by (simp add: merger_holds_def)
  have r: "fst (feed now (ps ! i) m) = Inr (try_merge_pieces ?m)" by (simp add: feed_well_pieced [OF w i] Let_def)
  have "first_piece ?m \<noteq> None" using m by blast
  note t = try_merge_holds [OF w this conjunct2 [OF m]]
  show "fst (feed now (ps ! i) m) = Inr (if {..<length ps} \<subseteq> insert i fed then Some (merged ps) else None)"
    unfolding r t ..
qed

fun feed_all :: "nat \<Rightarrow> RpcPacket list \<Rightarrow> PacketMerger \<Rightarrow> PacketMerger" where
  "feed_all now [] m = m"
| "feed_all now (p # ps) m = feed_all now ps (snd (feed now p m))"

lemma feed_all_holds:
  assumes "well_pieced ps" and "merger_holds ps fed m" and "set is \<subseteq> {..<length ps}"
  shows "merger_holds ps (fed \<union> set is) (feed_all now (map ((!) ps) is) m)"
  using assms(2,3)
proof (induction "is" arbitrary: fed m)
  case (Cons i "is")
  then show ?case using feed_step(1) [OF assms(1) Cons.prems(1), of i now]
      Cons.IH [of "insert i fed" "snd (feed now (ps ! i) m)"] by simp
qed simp

section \<open>The pieces of a call\<close>

definition rpc_pieces :: "pb_api \<Rightarrow> BuildRpcPacketArgs \<Rightarrow> RpcPacket list" where
  "rpc_pieces pb args =
     (let plan = split_rpc_content_for_udp_budget pb args
      in map (\<lambda>(i, ofs, l). build_rpc_piece args (of_nat (length plan)) (of_nat i) (take l (drop ofs (content args))))
           (enumerate 0 plan))"

lemma length_rpc_pieces [simp]: "length (rpc_pieces pb args) = length (split_rpc_content_for_udp_budget pb args)"
  by (simp add: rpc_pieces_def Let_def)

lemma rpc_pieces_nth:
  assumes "i < length (rpc_pieces pb args)"
  shows "rpc_pieces pb args ! i = build_rpc_piece args (of_nat (length (rpc_pieces pb args))) (of_nat i)
    (take (snd (split_rpc_content_for_udp_budget pb args ! i))
      (drop (fst (split_rpc_content_for_udp_budget pb args ! i)) (content args)))"
  using assms by (simp add: rpc_pieces_def Let_def nth_enumerate_eq split_def)

lemma plan_nonempty: "split_rpc_content_for_udp_budget pb args \<noteq> []"
  by (simp add: split_rpc_content_for_udp_budget_def split_loop.simps [of pb _ _ _ _ True 0] Let_def)

lemma plan_range:
  "(ofs, l) \<in> set (split_rpc_content_for_udp_budget pb args) \<Longrightarrow> ofs + l \<le> length (content args)"
  using split_loop_range by (fastforce simp: split_rpc_content_for_udp_budget_def split: if_splits)

lemma rpc_pieces_body: "concat (map body (rpc_pieces pb args)) = content args"
proof -
  let ?plan = "split_rpc_content_for_udp_budget pb args"
  have "map body (rpc_pieces pb args) = map (\<lambda>(ofs, l). take l (drop ofs (content args))) ?plan"
    by (rule nth_equalityI) (simp_all add: rpc_pieces_nth build_rpc_piece_def split_def)
  moreover have "concat (map (\<lambda>(ofs, l). take l (drop ofs (content args))) ?plan) = content args"
    by (simp add: split_rpc_content_for_udp_budget_def split_loop_concat)
  ultimately show ?thesis by simp
qed

lemma rpc_pieces_well_pieced:
  assumes "length (rpc_pieces pb args) \<le> 32 * 1024"
  shows "well_pieced (rpc_pieces pb args)"
proof -
  have n: "0 < length (rpc_pieces pb args)" using plan_nonempty by simp
  then show ?thesis using assms unfolding well_pieced_def
    by (auto simp: rpc_pieces_nth [OF n] rpc_pieces_nth build_rpc_piece_def simp del: length_rpc_pieces)
qed

lemma merged_rpc_pieces: "merged (rpc_pieces pb args) = build_rpc_piece args 1 0 (content args)"
proof -
  have "0 < length (rpc_pieces pb args)" using plan_nonempty by simp
  then show ?thesis unfolding merged_def rpc_pieces_body
    by (simp add: rpc_pieces_nth build_rpc_piece_def)
qed

text \<open>The packets carry the encoded pieces.\<close>

lemma build_piece_packet_ok:
  assumes i: "i < length (rpc_pieces pb args)"
  defines "plan \<equiv> split_rpc_content_for_udp_budget pb args"
  shows "\<exists>zc h. build_piece_packet pb u args (length plan) i (plan ! i) = Some zc \<and>
    payload zc = Some (pb_encode pb (rpc_pieces pb args ! i)) \<and> packet_type zc = ZT_NIC \<and>
    peer_manager_header zc = Some h \<and> from_peer_id h = a_from_peer args \<and> to_peer_id h = a_to_peer args \<and>
    pm_packet_type h = PacketType_code (if is_req args then PT_RpcReq else PT_RpcResp)"
proof -
  have "plan ! i \<in> set plan" using i by (simp add: plan_def)
  then have "fst (plan ! i) + snd (plan ! i) \<le> length (content args)"
    using plan_range [of "fst (plan ! i)" "snd (plan ! i)"] by (simp add: plan_def)
  then have bd: "index_range (fst (plan ! i)) (fst (plan ! i) + snd (plan ! i)) (content args) =
      Some (take (snd (plan ! i)) (drop (fst (plan ! i)) (content args)))"
    by (simp add: index_range_def)
  have p: "rpc_pieces pb args ! i = build_rpc_piece args (of_nat (length plan)) (of_nat i)
      (take (snd (plan ! i)) (drop (fst (plan ! i)) (content args)))"
    using rpc_pieces_nth [OF i] by (simp add: plan_def)
  obtain z where z: "new_with_payload u (pb_encode pb (rpc_pieces pb args ! i)) = Some z"
      "packet_type z = ZT_NIC" "payload z = Some (pb_encode pb (rpc_pieces pb args ! i))" "peer_manager_header z \<noteq> None"
    using new_with_payload_spec by blast
  let ?t = "PacketType_code (if is_req args then PT_RpcReq else PT_RpcResp)"
  obtain zc where "fill_peer_manager_hdr (a_from_peer args) (a_to_peer args) ?t z = Some zc"
      "payload zc = payload z" "packet_type zc = packet_type z" "\<exists>h. peer_manager_header zc = Some h \<and>
        from_peer_id h = a_from_peer args \<and> to_peer_id h = a_to_peer args \<and> pm_packet_type h = ?t"
    using fill_peer_manager_hdr_spec [of z "a_from_peer args" "a_to_peer args" ?t] z(4)
    by (fastforce split: option.splits)
  then show ?thesis using z unfolding build_piece_packet_def bd by (auto simp: p [symmetric])
qed

lemma build_rpc_packet_ok:
  "\<exists>zcs. build_rpc_packet pb u args = Some zcs \<and> length zcs = length (rpc_pieces pb args) \<and>
     (\<forall>i<length zcs. payload (zcs ! i) = Some (pb_encode pb (rpc_pieces pb args ! i)) \<and>
        packet_type (zcs ! i) = ZT_NIC \<and> (\<exists>h. peer_manager_header (zcs ! i) = Some h \<and>
        from_peer_id h = a_from_peer args \<and> to_peer_id h = a_to_peer args \<and>
        pm_packet_type h = PacketType_code (if is_req args then PT_RpcReq else PT_RpcResp)))"
proof -
  define plan where "plan = split_rpc_content_for_udp_budget pb args"
  define ps where "ps = map (\<lambda>(i, ol). build_piece_packet pb u args (length plan) i ol) (enumerate 0 plan)"
  have len: "length ps = length plan" by (simp add: ps_def)
  have nth: "ps ! i = build_piece_packet pb u args (length plan) i (plan ! i)" if "i < length plan" for i
    using that by (simp add: ps_def nth_enumerate_eq)
  note ok = build_piece_packet_ok [of _ pb args u, folded plan_def]
  have "None \<notin> set ps"
    using ok nth by (fastforce simp: in_set_conv_nth len plan_def)
  then have "build_rpc_packet pb u args = Some (map the ps)"
    unfolding build_rpc_packet_def Let_def plan_def [symmetric] ps_def [symmetric] by simp
  moreover have "payload (map the ps ! i) = Some (pb_encode pb (rpc_pieces pb args ! i)) \<and>
      packet_type (map the ps ! i) = ZT_NIC \<and> (\<exists>h. peer_manager_header (map the ps ! i) = Some h \<and>
        from_peer_id h = a_from_peer args \<and> to_peer_id h = a_to_peer args \<and>
        pm_packet_type h = PacketType_code (if is_req args then PT_RpcReq else PT_RpcResp))"
    if "i < length plan" for i
    using ok [of i] that nth [OF that] len by (auto simp: plan_def)
  ultimately show ?thesis using len by (simp add: plan_def)
qed

section \<open>What the protocol relies on\<close>

text \<open>Documented behaviour of the codec: a decoded encoding is the message.\<close>

definition pb_decodes :: "pb_api \<Rightarrow> BuildRpcPacketArgs \<Rightarrow> bool" where
  "pb_decodes pb args \<longleftrightarrow>
     (\<forall>n i b. pb_decode pb (pb_encode pb (build_rpc_piece args n i b)) = Some (build_rpc_piece args n i b))"

text \<open>
  The protobuf wire format: counters take most room at their maximum, and a non-empty \<open>bytes\<close> field
  adds a tag byte, the length as a varint, and its contents.
\<close>

definition pb_sizes :: "pb_api \<Rightarrow> BuildRpcPacketArgs \<Rightarrow> bool" where
  "pb_sizes pb args \<longleftrightarrow> mono (length_delimiter_len pb) \<and> length_delimiter_len pb 1 = 1 \<and>
     (\<forall>n i b. encoded_len pb (build_rpc_piece args n i b) \<le>
        encoded_len pb (build_rpc_piece args (- 1) (if i = 0 then 0 else - 1) []) +
        (if b = [] then 0 else 1 + length_delimiter_len pb (length b) + length b))"

lemma split_loop_pick:
  "i < length (split_loop pb fb ob m len first offset) \<Longrightarrow>
   \<exists>rem>0. snd (split_loop pb fb ob m len first offset ! i) =
     pick_piece_len_for_budget pb (if first \<and> i = 0 then fb else ob) rem m"
proof (induction pb fb ob m len first offset arbitrary: i rule: split_loop.induct)
  case (1 pb fb ob m len first offset)
  have lt: "offset < len" using 1(2) by (subst (asm) split_loop.simps) (auto split: if_splits)
  let ?l = "pick_piece_len_for_budget pb (if first then fb else ob) (len - offset) m"
  have s: "split_loop pb fb ob m len first offset =
      (offset, ?l) # split_loop pb fb ob m len False (offset + ?l)"
    using lt by (subst split_loop.simps) (simp add: Let_def)
  show ?case
  proof (cases i)
    case 0
    then show ?thesis using lt by (intro exI [of _ "len - offset"]) (simp add: s)
  next
    case (Suc j)
    then show ?thesis using 1(1) [OF lt refl refl, of j] 1(2) by (simp add: s)
  qed
qed

lemma pick_fits:
  assumes "mono (length_delimiter_len pb)" and "length_delimiter_len pb 1 = 1"
    and "base + 3 \<le> m" and "0 < rem" and "l = pick_piece_len_for_budget pb base rem m"
  shows "base + 1 + length_delimiter_len pb l + l \<le> m"
proof -
  let ?ldl = "length_delimiter_len pb" and ?b = "m - base"
  have l: "l = max (min rem (?b - (1 + ?ldl ?b))) 1"
    using assms(3-5) by (simp add: pick_piece_len_for_budget_def Let_def)
  show ?thesis
  proof (cases "l = 1")
    case False
    then have "l \<le> ?b - (1 + ?ldl ?b)" using l by (auto simp: max_def min_def split: if_splits)
    moreover have "1 \<le> l" using l by simp
    moreover from calculation have "?ldl l \<le> ?ldl ?b" using assms(1) by (simp add: mono_def)
    ultimately show ?thesis using assms(3) by linarith
  qed (use assms(2,3) in simp)
qed

lemma rpc_max_len: "max_rpc_packet_encoded_len_for_udp = 1248"
  by (simp add: max_rpc_packet_encoded_len_for_udp_def RPC_PACKET_UDP_PAYLOAD_BUDGET_def
      udp_rpc_tunnel_overhead_def TAIL_RESERVED_SIZE_def AEAD_TAIL_SIZE_def COMPRESSOR_TAIL_SIZE_def max_usize_def offset_simps)

lemma split_loop_length: "length (split_loop pb fb ob m len first offset) \<le> len - offset"
proof (induction pb fb ob m len first offset rule: split_loop.induct)
  case (1 pb fb ob m len first offset)
  show ?case
  proof (cases "offset < len")
    case True
    let ?l = "pick_piece_len_for_budget pb (if first then fb else ob) (len - offset) m"
    have "0 < ?l" using True by (intro pick_piece_len_pos) simp
    then show ?thesis using True 1 [OF True refl refl] by (subst split_loop.simps) (simp add: Let_def)
  qed (simp add: split_loop.simps)
qed

text \<open>The template a piece is sized with.\<close>

definition piece_base :: "pb_api \<Rightarrow> BuildRpcPacketArgs \<Rightarrow> bool \<Rightarrow> nat" where
  "piece_base pb args first = encoded_len pb (build_rpc_piece args (- 1) (if first then 0 else - 1) [])"

lemma pb_sizes_piece:
  "pb_sizes pb args \<Longrightarrow> encoded_len pb (build_rpc_piece args n i b) \<le> piece_base pb args (i = 0) +
     (if b = [] then 0 else 1 + length_delimiter_len pb (length b) + length b)"
  unfolding pb_sizes_def piece_base_def by blast

lemma piece_fits:
  assumes sz: "pb_sizes pb args" and len: "length (content args) < 2 ^ 32"
    and base: "\<And>first. piece_base pb args first + 3 \<le> max_rpc_packet_encoded_len_for_udp"
    and i: "i < length (rpc_pieces pb args)"
  shows "encoded_len pb (rpc_pieces pb args ! i) \<le> max_rpc_packet_encoded_len_for_udp"
proof -
  define plan where "plan = split_rpc_content_for_udp_budget pb args"
  define bd where "bd = take (snd (plan ! i)) (drop (fst (plan ! i)) (content args))"
  have i': "i < length plan" using i by (simp add: plan_def)
  have p: "rpc_pieces pb args ! i = build_rpc_piece args (of_nat (length (rpc_pieces pb args))) (of_nat i) bd"
    unfolding bd_def plan_def by (rule rpc_pieces_nth [OF i])
  show ?thesis
  proof (cases "content args = []")
    case True
    then have "bd = []" by (simp add: bd_def)
    then have "encoded_len pb (rpc_pieces pb args ! i) \<le> piece_base pb args ((of_nat i :: u32) = 0)"
      using pb_sizes_piece [OF sz, of "of_nat (length (rpc_pieces pb args))" "of_nat i" bd]
      unfolding p by simp
    then show ?thesis using base [of "(of_nat i :: u32) = 0"] by simp
  next
    case False
    have plan: "plan = split_loop pb (piece_base pb args True) (piece_base pb args False)
        max_rpc_packet_encoded_len_for_udp (length (content args)) True 0"
      using False by (simp add: plan_def split_rpc_content_for_udp_budget_def piece_base_def rpc_max_len)
    have "i < 2 ^ 32" using i' len split_loop_length [of pb "piece_base pb args True" "piece_base pb args False"
          max_rpc_packet_encoded_len_for_udp "length (content args)" True 0] by (simp add: plan)
    then have i0: "(of_nat i :: u32) = 0 \<longleftrightarrow> i = 0" by (rule of_nat_u32_zero)
    have "\<exists>rem>0. snd (plan ! i) = pick_piece_len_for_budget pb (if True \<and> i = 0 then piece_base pb args True
        else piece_base pb args False) rem max_rpc_packet_encoded_len_for_udp"
      using i' unfolding plan by (rule split_loop_pick)
    then obtain rem where rem: "rem > 0" "snd (plan ! i) =
        pick_piece_len_for_budget pb (piece_base pb args (i = 0)) rem max_rpc_packet_encoded_len_for_udp"
      by (cases "i = 0") auto
    have m: "mono (length_delimiter_len pb)" "length_delimiter_len pb 1 = 1" using sz by (simp_all add: pb_sizes_def)
    have le: "length bd \<le> snd (plan ! i)" by (simp add: bd_def)
    have "encoded_len pb (rpc_pieces pb args ! i) \<le> piece_base pb args (i = 0) +
        (if bd = [] then 0 else 1 + length_delimiter_len pb (length bd) + length bd)"
      using pb_sizes_piece [OF sz, of "of_nat (length (rpc_pieces pb args))" "of_nat i" bd]
      unfolding p i0 .
    also have "\<dots> \<le> piece_base pb args (i = 0) + 1 + length_delimiter_len pb (snd (plan ! i)) + snd (plan ! i)"
      using le monoD [OF m(1) le] by simp
    also have "\<dots> \<le> max_rpc_packet_encoded_len_for_udp" by (rule pick_fits [OF m base rem])
    finally show ?thesis .
  qed
qed

text \<open>
  Every packet of a call fits the budget of one UDP datagram: with the tunnel and peer headers in
  front and room for the encryption tail behind, no packet is longer than 1300 bytes, provided the
  metadata (descriptor and compression info) leaves room for a body of one byte at all.
\<close>

theorem rpc_packets_fit_datagram:
  assumes "pb_sizes pb args" and "length (content args) < 2 ^ 32"
    and "encoded_len pb (build_rpc_piece args (- 1) 0 []) + 3 \<le> max_rpc_packet_encoded_len_for_udp"
    and "encoded_len pb (build_rpc_piece args (- 1) (- 1) []) + 3 \<le> max_rpc_packet_encoded_len_for_udp"
  shows "\<exists>zcs. build_rpc_packet pb u args = Some zcs \<and> (\<forall>zc\<in>set zcs. \<exists>pl. payload zc = Some pl \<and>
    payload_offset_of (get_packet_offsets ZT_UDP) + length pl + TAIL_RESERVED_SIZE \<le> RPC_PACKET_UDP_PAYLOAD_BUDGET)"
proof -
  have base: "piece_base pb args first + 3 \<le> max_rpc_packet_encoded_len_for_udp" for first
    using assms(3,4) by (simp add: piece_base_def)
  obtain zcs where z: "build_rpc_packet pb u args = Some zcs" "length zcs = length (rpc_pieces pb args)"
      "\<forall>i<length zcs. payload (zcs ! i) = Some (pb_encode pb (rpc_pieces pb args ! i))"
    using build_rpc_packet_ok by blast
  have b: "payload_offset_of (get_packet_offsets ZT_UDP) + max_rpc_packet_encoded_len_for_udp + TAIL_RESERVED_SIZE
      = RPC_PACKET_UDP_PAYLOAD_BUDGET"
    by (simp add: rpc_max_len RPC_PACKET_UDP_PAYLOAD_BUDGET_def TAIL_RESERVED_SIZE_def AEAD_TAIL_SIZE_def
        COMPRESSOR_TAIL_SIZE_def max_usize_def offset_simps)
  have "\<exists>pl. payload zc = Some pl \<and>
    payload_offset_of (get_packet_offsets ZT_UDP) + length pl + TAIL_RESERVED_SIZE \<le> RPC_PACKET_UDP_PAYLOAD_BUDGET"
    if zc: "zc \<in> set zcs" for zc
  proof -
    obtain i where i: "i < length zcs" "zc = zcs ! i" using zc unfolding in_set_conv_nth by blast
    then have "encoded_len pb (rpc_pieces pb args ! i) \<le> max_rpc_packet_encoded_len_for_udp"
      using piece_fits [OF assms(1,2) base] z(2) by simp
    then show ?thesis using i z(3) b by simp
  qed
  then show ?thesis using z(1) by blast
qed

text \<open>A codec with ten bytes of metadata, and a request of 5000 bytes.\<close>

definition tiny_pb :: pb_api where
  "tiny_pb = \<lparr>pb_encode = (\<lambda>p. replicate 10 0 @ body p), pb_decode = (\<lambda>_. None),
     length_delimiter_len = (\<lambda>n. if n < 128 then 1 else if n < 16384 then 2 else 3)\<rparr>"

definition tiny_args :: BuildRpcPacketArgs where
  "tiny_args = \<lparr>a_from_peer = 1, a_to_peer = 2, rpc_desc = \<lparr>domain_name = [], proto_name = [],
     service_name = [], method_index = 0\<rparr>, a_transaction_id = 1, is_req = True, content = replicate 5000 7,
     a_trace_id = 0, a_compression_info = \<lparr>ci_algo = 1, ci_accepted_algo = 2\<rparr>\<rparr>"

theorem rpc_packets_fit_datagram_witness:
  "\<exists>zcs. build_rpc_packet tiny_pb (\<lambda>_. 0) tiny_args = Some zcs \<and> (\<forall>zc\<in>set zcs. \<exists>pl. payload zc = Some pl \<and>
    payload_offset_of (get_packet_offsets ZT_UDP) + length pl + TAIL_RESERVED_SIZE \<le> RPC_PACKET_UDP_PAYLOAD_BUDGET)"
proof (rule rpc_packets_fit_datagram)
  show "pb_sizes tiny_pb tiny_args"
    by (auto simp: pb_sizes_def tiny_pb_def build_rpc_piece_def intro!: monoI)
  show "length (content tiny_args) < 2 ^ 32" by (simp add: tiny_args_def)
  show "encoded_len tiny_pb (build_rpc_piece tiny_args (- 1) 0 []) + 3 \<le> max_rpc_packet_encoded_len_for_udp"
    "encoded_len tiny_pb (build_rpc_piece tiny_args (- 1) (- 1) []) + 3 \<le> max_rpc_packet_encoded_len_for_udp"
    by (simp_all add: rpc_max_len tiny_pb_def build_rpc_piece_def)
qed

end
