(* ===== verification/Rpc_Call.thy ===== *)
theory Rpc_Call
  imports Rpc_Packet
begin

text \<open>
  A remote call: the receive loop and the request handler of \<open>easytier/src/proto/rpc_impl/server.rs\<close>
  and the calling side of \<open>client.rs\<close>. The registered services (with their timeout) and the codecs of
  \<open>RpcRequest\<close> and \<open>RpcResponse\<close> are parameters; the channels to the transport are the packets given
  to and returned by the handlers. Statistics are not modelled.
\<close>

section \<open>Server\<close>

record PacketMergerKey =
  mk_from_peer_id :: u32
  mk_transaction_id :: int

record rpc_server =
  packet_mergers :: "PacketMergerKey \<rightharpoonup> PacketMerger"

datatype svc_error = SE_Rpc rpc_error | SE_Decode | SE_Exec nat

record rpc_service =
  encode_request :: "bytes \<Rightarrow> bytes"
  decode_request :: "bytes \<Rightarrow> bytes option"
  call_method :: "RpcDescriptor \<Rightarrow> bytes \<Rightarrow> svc_error + bytes"
  encode_response :: "svc_error + bytes \<Rightarrow> bytes"
  decode_response :: "bytes \<Rightarrow> (svc_error + bytes) option"

definition merger_key :: "RpcPacket \<Rightarrow> PacketMergerKey" where
  "merger_key p = \<lparr>mk_from_peer_id = from_peer p, mk_transaction_id = transaction_id p\<rparr>"

text \<open>One round of the receive loop: the completed request, if any.\<close>

definition server_receive :: "pb_api \<Rightarrow> nat \<Rightarrow> zc_packet \<Rightarrow> rpc_server \<Rightarrow> (RpcPacket option \<times> rpc_server) may_panic"
where
  "server_receive pb now zc s = do {
     pl \<leftarrow> payload zc;
     case pb_decode pb pl of
       None \<Rightarrow> Some (None, s)
     | Some p \<Rightarrow>
         if \<not> is_request p then Some (None, s)
         else
           let key = merger_key p;
               m = (case packet_mergers s key of Some m \<Rightarrow> m | None \<Rightarrow> merger_new now);
               (ret, m) = feed now p m
           in case ret of
                Inr (Some q) \<Rightarrow> Some (Some q, s\<lparr>packet_mergers := (packet_mergers s)(key := None)\<rparr>)
              | Inr None \<Rightarrow> Some (None, s\<lparr>packet_mergers := (packet_mergers s)(key \<mapsto> m)\<rparr>)
              | Inl e \<Rightarrow> Some (None, s\<lparr>packet_mergers := (packet_mergers s)(key \<mapsto> m)\<rparr>) }"

text \<open>The clean-up task: mergers idle for ten seconds go.\<close>

definition clean_mergers :: "nat \<Rightarrow> rpc_server \<Rightarrow> rpc_server" where
  "clean_mergers now s = s\<lparr>packet_mergers := (\<lambda>k. case packet_mergers s k of
     Some m \<Rightarrow> if (now - last_updated m) div 1000000000 < 10 then Some m else None | None \<Rightarrow> None)\<rparr>"

definition handle_rpc_request :: "zstd_api \<Rightarrow> rpc_service \<Rightarrow> RpcPacket \<Rightarrow> (svc_error + bytes) may_panic" where
  "handle_rpc_request z svc p =
     (case (case compression_info p of
              Some ci \<Rightarrow> decompress_packet z (CompressionAlgoPb_of (ci_algo ci)) (body p)
            | None \<Rightarrow> Inr (body p)) of
        Inl e \<Rightarrow> Some (Inl (SE_Rpc e))
      | Inr bd \<Rightarrow>
          (case decode_request svc bd of
             None \<Rightarrow> Some (Inl SE_Decode)
           | Some req \<Rightarrow> do { desc \<leftarrow> descriptor p; Some (call_method svc desc req) }))"

text \<open>The response packets; the \<open>unwrap\<close>s of the descriptor and of the compression are panics.\<close>

definition handle_rpc :: "pb_api \<Rightarrow> zstd_api \<Rightarrow> (nat \<Rightarrow> u8) \<Rightarrow> rpc_service \<Rightarrow> RpcPacket
    \<Rightarrow> zc_packet list may_panic" where
  "handle_rpc pb z u svc p = do {
     desc \<leftarrow> descriptor p;
     resp \<leftarrow> handle_rpc_request z svc p;
     (compressed, algo) \<leftarrow>
       (case compress_packet z (CompressionAlgoPb_of
              (case compression_info p of Some ci \<Rightarrow> ci_accepted_algo ci | None \<Rightarrow> 0)) (encode_response svc resp) of
          Inl e \<Rightarrow> None
        | Inr x \<Rightarrow> Some x);
     build_rpc_packet pb u
       \<lparr>a_from_peer = to_peer p, a_to_peer = from_peer p, rpc_desc = desc,
        a_transaction_id = transaction_id p, is_req = False, content = compressed, a_trace_id = trace_id p,
        a_compression_info = \<lparr>ci_algo = CompressionAlgoPb_code algo, ci_accepted_algo = CompressionAlgoPb_code CP_Zstd\<rparr>\<rparr> }"

section \<open>Client\<close>

record InflightRequestKey =
  ik_from_peer_id :: u32
  ik_to_peer_id :: u32
  ik_transaction_id :: int

text \<open>
  Of an inflight request the merger is kept here; what the receive loop sends to the caller is its
  result. \<open>cur_tid\<close> is the global transaction counter, which wraps at 64 bits.
\<close>

record rpc_client =
  inflight_requests :: "InflightRequestKey \<rightharpoonup> PacketMerger"
  peer_info :: "u32 \<rightharpoonup> RpcCompressionInfo \<times> nat"
  cur_tid :: u64

record call_args =
  ca_from :: u32
  ca_to :: u32
  ca_desc :: RpcDescriptor
  ca_trace_id :: int
  ca_input :: bytes

definition call_key :: "call_args \<Rightarrow> int \<Rightarrow> InflightRequestKey" where
  "call_key c tid = \<lparr>ik_from_peer_id = ca_from c, ik_to_peer_id = ca_to c, ik_transaction_id = tid\<rparr>"

definition accepted_algo :: "rpc_client \<Rightarrow> u32 \<Rightarrow> CompressionAlgoPb" where
  "accepted_algo cl peer = CompressionAlgoPb_of
     (case peer_info cl peer of Some (ci, _) \<Rightarrow> ci_accepted_algo ci | None \<Rightarrow> 0)"

definition request_args :: "call_args \<Rightarrow> int \<Rightarrow> bytes \<Rightarrow> CompressionAlgoPb \<Rightarrow> BuildRpcPacketArgs" where
  "request_args c tid buf algo =
     \<lparr>a_from_peer = ca_from c, a_to_peer = ca_to c, rpc_desc = ca_desc c, a_transaction_id = tid,
      is_req = True, content = buf, a_trace_id = ca_trace_id c,
      a_compression_info = \<lparr>ci_algo = CompressionAlgoPb_code algo, ci_accepted_algo = CompressionAlgoPb_code CP_Zstd\<rparr>\<rparr>"

text \<open>The first half of \<open>call\<close>: registering the request and building its packets.\<close>

definition call_start :: "pb_api \<Rightarrow> zstd_api \<Rightarrow> (nat \<Rightarrow> u8) \<Rightarrow> rpc_service \<Rightarrow> nat \<Rightarrow> call_args \<Rightarrow> rpc_client
    \<Rightarrow> (int \<times> zc_packet list \<times> rpc_client) may_panic" where
  "call_start pb z u svc now c cl = do {
     let tid = sint (cur_tid cl);
     let cl = cl\<lparr>cur_tid := cur_tid cl + 1,
       inflight_requests := (inflight_requests cl)(call_key c tid \<mapsto> merger_new now)\<rparr>;
     (buf, algo) \<leftarrow> (case compress_packet z (accepted_algo cl (ca_to c)) (encode_request svc (ca_input c)) of
         Inl e \<Rightarrow> None | Inr x \<Rightarrow> Some x);
     packets \<leftarrow> build_rpc_packet pb u (request_args c tid buf algo);
     Some (tid, packets, cl) }"

definition resp_key :: "RpcPacket \<Rightarrow> InflightRequestKey" where
  "resp_key p = \<lparr>ik_from_peer_id = to_peer p, ik_to_peer_id = from_peer p, ik_transaction_id = transaction_id p\<rparr>"

text \<open>One round of the receive loop: the key and the packet that is handed to the caller, if any.\<close>

definition client_receive :: "pb_api \<Rightarrow> nat \<Rightarrow> zc_packet \<Rightarrow> rpc_client
    \<Rightarrow> ((InflightRequestKey \<times> RpcPacket) option \<times> rpc_client) may_panic" where
  "client_receive pb now zc cl = do {
     pl \<leftarrow> payload zc;
     case pb_decode pb pl of
       None \<Rightarrow> Some (None, cl)
     | Some p \<Rightarrow>
         if is_request p then Some (None, cl)
         else
           let key = resp_key p
           in case inflight_requests cl key of
                None \<Rightarrow> Some (None, cl)
              | Some m \<Rightarrow>
                  let (ret, m) = feed now p m;
                      cl = cl\<lparr>inflight_requests := (inflight_requests cl)(key \<mapsto> m)\<rparr>
                  in case ret of
                       Inr (Some q) \<Rightarrow> Some (Some (key, q), cl)
                     | _ \<Rightarrow> Some (None, cl) }"

text \<open>The second half of \<open>call\<close>, with the response packet; the assertion on the transaction may panic.\<close>

definition call_finish :: "zstd_api \<Rightarrow> rpc_service \<Rightarrow> nat \<Rightarrow> call_args \<Rightarrow> int \<Rightarrow> RpcPacket \<Rightarrow> rpc_client
    \<Rightarrow> ((svc_error + bytes) \<times> rpc_client) may_panic" where
  "call_finish z svc now c tid p cl =
     (let done = (\<lambda>cl. cl\<lparr>inflight_requests := (inflight_requests cl)(call_key c tid := None)\<rparr>);
          cl = (case compression_info p of
             Some ci \<Rightarrow> cl\<lparr>peer_info := (peer_info cl)(ca_to c \<mapsto> (ci, now))\<rparr> | None \<Rightarrow> cl)
      in case (case compression_info p of
                 Some ci \<Rightarrow> decompress_packet z (CompressionAlgoPb_of (ci_algo ci)) (body p)
               | None \<Rightarrow> Inr (body p)) of
           Inl e \<Rightarrow> Some (Inl (SE_Rpc e), done cl)
         | Inr bd \<Rightarrow>
             if transaction_id p \<noteq> tid then None
             else (case decode_response svc bd of
                     None \<Rightarrow> Some (Inl SE_Decode, done cl)
                   | Some r \<Rightarrow> Some (r, done cl)))"

text \<open>The clean-up task of the peer information.\<close>

definition clean_peer_info :: "nat \<Rightarrow> rpc_client \<Rightarrow> rpc_client" where
  "clean_peer_info now cl = cl\<lparr>peer_info := (\<lambda>k. case peer_info cl k of
     Some (ci, t) \<Rightarrow> if now - t < 120 * 1000000000 then Some (ci, t) else None | None \<Rightarrow> None)\<rparr>"

text \<open>A receive loop run over several packets: what each of them completed.\<close>

fun receive_all :: "(zc_packet \<Rightarrow> 's \<Rightarrow> ('o option \<times> 's) may_panic) \<Rightarrow> zc_packet list \<Rightarrow> 's
    \<Rightarrow> ('o option list \<times> 's) may_panic" where
  "receive_all step [] s = Some ([], s)"
| "receive_all step (z # zs) s = do {
     (o1, s) \<leftarrow> step z s;
     (os, s) \<leftarrow> receive_all step zs s;
     Some (o1 # os, s) }"

section \<open>Receiving pieces in any order\<close>

text \<open>
  What both receive loops promise: \<open>waits\<close> holds of a state that has got the pieces \<open>fed\<close> of the message
  \<open>ps\<close>; every further piece leads to such a state, and the last one completes the message.
\<close>

locale piece_receiver =
  fixes step :: "zc_packet \<Rightarrow> 's \<Rightarrow> ('o option \<times> 's) may_panic"
    and carries :: "RpcPacket \<Rightarrow> zc_packet \<Rightarrow> bool"
    and waits :: "RpcPacket list \<Rightarrow> nat set \<Rightarrow> 's \<Rightarrow> bool"
    and finished :: "RpcPacket list \<Rightarrow> 's \<Rightarrow> bool"
    and out :: "RpcPacket \<Rightarrow> 'o"
  assumes step_more: "waits ps fed s \<Longrightarrow> i < length ps \<Longrightarrow> carries (ps ! i) zc \<Longrightarrow>
      \<not> {..<length ps} \<subseteq> insert i fed \<Longrightarrow> \<exists>s'. step zc s = Some (None, s') \<and> waits ps (insert i fed) s'"
    and step_last: "waits ps fed s \<Longrightarrow> i < length ps \<Longrightarrow> carries (ps ! i) zc \<Longrightarrow>
      {..<length ps} \<subseteq> insert i fed \<Longrightarrow> \<exists>s'. step zc s = Some (Some (out (merged ps)), s') \<and> finished ps s'"
begin

lemma receive_from:
  assumes "waits ps fed s" and "distinct is" and "set is = {..<length ps} - fed" and "is \<noteq> []"
    and "list_all2 carries (map ((!) ps) is) zcs"
  shows "\<exists>s'. receive_all step zcs s = Some (replicate (length is - 1) None @ [Some (out (merged ps))], s') \<and>
    finished ps s'"
  using assms
proof (induction "is" arbitrary: fed s zcs)
  case (Cons i "is")
  then obtain zc zs where z: "zcs = zc # zs" "carries (ps ! i) zc" "list_all2 carries (map ((!) ps) is) zs"
    by (auto simp: list_all2_Cons1)
  have i: "i < length ps" "set is = {..<length ps} - insert i fed"
    using Cons.prems(2,3) by auto
  show ?case
  proof (cases "is = []")
    case True
    then have "{..<length ps} \<subseteq> insert i fed" using i(2) by auto
    then show ?thesis using step_last [OF Cons.prems(1) i(1) z(2)] z True by auto
  next
    case False
    then have "\<not> {..<length ps} \<subseteq> insert i fed" using i(2) by (metis Diff_eq_empty_iff set_empty)
    then obtain s1 where s1: "step zc s = Some (None, s1)" "waits ps (insert i fed) s1"
      using step_more [OF Cons.prems(1) i(1) z(2)] by blast
    obtain s' where "receive_all step zs s1 =
        Some (replicate (length is - 1) None @ [Some (out (merged ps))], s')" "finished ps s'"
      using Cons.IH [OF s1(2) _ i(2) False z(3)] Cons.prems(2) by auto
    then show ?thesis using s1(1) z(1) False by (cases "is") auto
  qed
qed simp

lemma receive_any_order:
  assumes "waits ps {} s" and "distinct is" and "set is = {..<length ps}" and "ps \<noteq> []"
    and "list_all2 carries (map ((!) ps) is) zcs"
  shows "\<exists>s'. receive_all step zcs s = Some (replicate (length ps - 1) None @ [Some (out (merged ps))], s') \<and>
    finished ps s'"
proof -
  have len: "length is = length ps" using distinct_card [OF assms(2)] unfolding assms(3) by simp
  have ne: "is \<noteq> []" using len assms(4) by force
  have "set is = {..<length ps} - {}" using assms(3) by simp
  from receive_from [OF assms(1,2) this ne assms(5)] show ?thesis unfolding len .
qed

end

text \<open>A packet that carries an encoded piece.\<close>

definition carries_piece :: "pb_api \<Rightarrow> RpcPacket \<Rightarrow> zc_packet \<Rightarrow> bool" where
  "carries_piece pb p zc \<longleftrightarrow> (\<exists>pl. payload zc = Some pl \<and> pb_decode pb pl = Some p)"

definition server_waits :: "rpc_server \<Rightarrow> RpcPacket list \<Rightarrow> nat set \<Rightarrow> rpc_server \<Rightarrow> bool" where
  "server_waits s0 ps fed s \<longleftrightarrow> well_pieced ps \<and> (\<forall>p\<in>set ps. is_request p) \<and>
     packet_mergers s0 (merger_key (ps ! 0)) = None \<and>
     (if fed = {} then s = s0
      else \<exists>m. merger_holds ps fed m \<and> s = s0\<lparr>packet_mergers := (packet_mergers s0)(merger_key (ps ! 0) \<mapsto> m)\<rparr>)"

lemma well_pieced_key:
  assumes "well_pieced ps" and "i < length ps"
  shows "merger_key (ps ! i) = merger_key (ps ! 0)"
proof -
  have "transaction_id (ps ! i) = transaction_id (ps ! 0)" "from_peer (ps ! i) = from_peer (ps ! 0)"
    using assms unfolding well_pieced_def by blast+
  then show ?thesis by (simp add: merger_key_def)
qed

lemma server_receive_piece:
  assumes w: "server_waits s0 ps fed s" and i: "i < length ps" and c: "carries_piece pb (ps ! i) zc"
  defines "k \<equiv> merger_key (ps ! 0)"
  shows "\<exists>m. merger_holds ps (insert i fed) m \<and> server_receive pb now zc s =
    (if {..<length ps} \<subseteq> insert i fed then Some (Some (merged ps), s0)
     else Some (None, s0\<lparr>packet_mergers := (packet_mergers s0)(k \<mapsto> m)\<rparr>))"
proof -
  have wp: "well_pieced ps" and r: "is_request (ps ! i)" and n: "packet_mergers s0 k = None"
    using w i by (auto simp: server_waits_def k_def)
  have k: "merger_key (ps ! i) = k" using well_pieced_key [OF wp i] by (simp add: k_def)
  define m where "m = (case packet_mergers s k of Some m \<Rightarrow> m | None \<Rightarrow> merger_new now)"
  have m: "merger_holds ps fed m"
    using w n by (auto simp: server_waits_def m_def k_def merger_holds_def merger_new_def split: if_splits)
  have s: "(packet_mergers s)(k := x) = (packet_mergers s0)(k := x)" for x
    using w by (auto simp: server_waits_def k_def split: if_splits)
  have s2: "s\<lparr>packet_mergers := y\<rparr> = s0\<lparr>packet_mergers := y\<rparr>" for y
    using w by (auto simp: server_waits_def split: if_splits)
  have s3: "s0\<lparr>packet_mergers := (packet_mergers s0)(k := None)\<rparr> = s0"
    using n by (simp add: fun_upd_idem)
  note f = feed_step [OF wp m i, of now]
  obtain pl where "payload zc = Some pl" "pb_decode pb pl = Some (ps ! i)"
    using c by (auto simp: carries_piece_def)
  then have "server_receive pb now zc s =
    (if {..<length ps} \<subseteq> insert i fed then Some (Some (merged ps), s0)
     else Some (None, s0\<lparr>packet_mergers := (packet_mergers s0)(k \<mapsto> snd (feed now (ps ! i) m))\<rparr>))"
    using r f(2) unfolding server_receive_def
    by (simp add: k m_def [symmetric] Let_def split_def s s2 s3)
  then show ?thesis using f(1) by blast
qed

interpretation server: piece_receiver "server_receive pb now" "carries_piece pb" "server_waits s0"
    "\<lambda>_ s. s = s0" "\<lambda>p. p" for pb now s0
proof
  fix ps fed s i zc
  assume a: "server_waits s0 ps fed s" "i < length ps" "carries_piece pb (ps ! i) zc"
  note r = server_receive_piece [OF a, of now]
  show "\<exists>s'. server_receive pb now zc s = Some (None, s') \<and> server_waits s0 ps (insert i fed) s'"
    if "\<not> {..<length ps} \<subseteq> insert i fed"
    using r that a(1) by (auto simp: server_waits_def)
  show "\<exists>s'. server_receive pb now zc s = Some (Some (merged ps), s') \<and> s' = s0"
    if "{..<length ps} \<subseteq> insert i fed"
    using r that by auto
qed

definition client_waits :: "rpc_client \<Rightarrow> RpcPacket list \<Rightarrow> nat set \<Rightarrow> rpc_client \<Rightarrow> bool" where
  "client_waits cl0 ps fed cl \<longleftrightarrow> well_pieced ps \<and> (\<forall>p\<in>set ps. \<not> is_request p \<and> to_peer p = to_peer (ps ! 0)) \<and>
     (\<exists>m. merger_holds ps fed m \<and>
        cl = cl0\<lparr>inflight_requests := (inflight_requests cl0)(resp_key (ps ! 0) \<mapsto> m)\<rparr>)"

lemma client_receive_piece:
  assumes w: "client_waits cl0 ps fed cl" and i: "i < length ps" and c: "carries_piece pb (ps ! i) zc"
  defines "k \<equiv> resp_key (ps ! 0)"
  shows "\<exists>m. merger_holds ps (insert i fed) m \<and> client_receive pb now zc cl =
    Some (if {..<length ps} \<subseteq> insert i fed then Some (k, merged ps) else None,
      cl0\<lparr>inflight_requests := (inflight_requests cl0)(k \<mapsto> m)\<rparr>)"
proof -
  have wp: "well_pieced ps" and r: "\<not> is_request (ps ! i)" "to_peer (ps ! i) = to_peer (ps ! 0)"
    using w i by (auto simp: client_waits_def)
  have k: "resp_key (ps ! i) = k" using well_pieced_key [OF wp i] r(2) by (simp add: k_def resp_key_def merger_key_def)
  obtain m where m: "merger_holds ps fed m"
    and cl: "cl = cl0\<lparr>inflight_requests := (inflight_requests cl0)(k \<mapsto> m)\<rparr>"
    using w by (auto simp: client_waits_def k_def)
  note f = feed_step [OF wp m i, of now]
  obtain pl where "payload zc = Some pl" "pb_decode pb pl = Some (ps ! i)"
    using c by (auto simp: carries_piece_def)
  then have "client_receive pb now zc cl =
    Some (if {..<length ps} \<subseteq> insert i fed then Some (k, merged ps) else None,
      cl0\<lparr>inflight_requests := (inflight_requests cl0)(k \<mapsto> snd (feed now (ps ! i) m))\<rparr>)"
    using r(1) f(2) unfolding client_receive_def cl by (simp add: k Let_def split_def)
  then show ?thesis using f(1) by blast
qed

lemma resp_key_merged: "resp_key (merged ps) = resp_key (ps ! 0)"
  by (simp add: resp_key_def merged_def)

interpretation client: piece_receiver "client_receive pb now" "carries_piece pb" "client_waits cl0"
    "\<lambda>ps cl. \<exists>m. cl = cl0\<lparr>inflight_requests := (inflight_requests cl0)(resp_key (ps ! 0) \<mapsto> m)\<rparr>"
    "\<lambda>p. (resp_key p, p)" for pb now cl0
proof
  fix ps fed cl i zc
  assume a: "client_waits cl0 ps fed cl" "i < length ps" "carries_piece pb (ps ! i) zc"
  note r = client_receive_piece [OF a, of now]
  show "\<exists>cl'. client_receive pb now zc cl = Some (None, cl') \<and> client_waits cl0 ps (insert i fed) cl'"
    if "\<not> {..<length ps} \<subseteq> insert i fed"
    using r that a(1) by (auto simp: client_waits_def)
  show "\<exists>cl'. client_receive pb now zc cl = Some (Some (resp_key (merged ps), merged ps), cl') \<and>
      (\<exists>m. cl' = cl0\<lparr>inflight_requests := (inflight_requests cl0)(resp_key (ps ! 0) \<mapsto> m)\<rparr>)"
    if "{..<length ps} \<subseteq> insert i fed"
    using r that by (auto simp: resp_key_merged)
qed

section \<open>The whole call\<close>

lemma compress_packet_roundtrip:
  assumes "zstd_ok z" and "compress_packet z a m = Inr (c, algo)" and "length m \<le> 65536"
  shows "decompress_packet z (CompressionAlgoPb_of (CompressionAlgoPb_code algo)) c = Inr m"
proof -
  let ?alg = "case algo_from_pb a of Some x \<Rightarrow> x | None \<Rightarrow> CA_None"
  obtain d where d: "compress_raw z m ?alg = Inr d"
    using assms(2) by (auto simp: compress_packet_def Let_def split: sum.splits)
  show ?thesis
  proof (cases "length d \<ge> length m")
    case True
    then show ?thesis using assms(2) d
      by (simp add: compress_packet_def Let_def decompress_packet_def decompress_raw_def CompressionAlgoPb_of_def)
  next
    case False
    then have c: "c = d" "algo = algo_to_pb ?alg" using assms(2) d by (auto simp: compress_packet_def Let_def)
    have "decompress_raw z d ?alg = Inr m"
      using decompress_raw_of_compressed [OF assms(1) d] False assms(3) by auto
    then show ?thesis unfolding c
      by (cases ?alg) (simp_all add: decompress_packet_def CompressionAlgoPb_of_def)
  qed
qed

definition arrangement :: "nat list \<Rightarrow> nat \<Rightarrow> bool" where
  "arrangement is n \<longleftrightarrow> distinct is \<and> set is = {..<n}"

lemma arrangementD: "arrangement is n \<Longrightarrow> distinct is" "arrangement is n \<Longrightarrow> set is = {..<n}"
  by (simp_all add: arrangement_def)

lemma rpc_pieces_nonempty: "rpc_pieces pb args \<noteq> []"
  using plan_nonempty length_rpc_pieces by (metis length_0_conv)

text \<open>The packets of a call, in any order, are pieces that a receive loop can decode.\<close>

lemma packets_carry:
  assumes "pb_decodes pb args" and "build_rpc_packet pb u args = Some zcs" and "arrangement is (length zcs)"
  shows "list_all2 (carries_piece pb) (map ((!) (rpc_pieces pb args)) is) (map ((!) zcs) is)"
    and "length zcs = length (rpc_pieces pb args)"
proof -
  obtain zs where z: "build_rpc_packet pb u args = Some zs" "length zs = length (rpc_pieces pb args)"
      "\<forall>i<length zs. payload (zs ! i) = Some (pb_encode pb (rpc_pieces pb args ! i))"
    using build_rpc_packet_ok by blast
  then show len: "length zcs = length (rpc_pieces pb args)" using assms(2) by simp
  have "carries_piece pb (rpc_pieces pb args ! i) (zcs ! i)" if i: "i < length zcs" for i
  proof -
    have "i < length (rpc_pieces pb args)" using i len by simp
    then have "pb_decode pb (pb_encode pb (rpc_pieces pb args ! i)) = Some (rpc_pieces pb args ! i)"
      using rpc_pieces_nth assms(1) by (simp add: pb_decodes_def del: length_rpc_pieces)
    then show ?thesis using i z assms(2) by (auto simp: carries_piece_def)
  qed
  moreover have "is ! j < length zcs" if "j < length is" for j
    using nth_mem [OF that] assms(3) unfolding arrangement_def by auto
  ultimately show "list_all2 (carries_piece pb) (map ((!) (rpc_pieces pb args)) is) (map ((!) zcs) is)"
    by (simp add: list_all2_conv_all_nth)
qed

lemma rpc_pieces_fields:
  assumes "p \<in> set (rpc_pieces pb args)"
  shows "is_request p = is_req args" and "to_peer p = a_to_peer args" and "from_peer p = a_from_peer args"
    and "transaction_id p = a_transaction_id args"
  using assms by (auto simp: rpc_pieces_def Let_def build_rpc_piece_def)

lemma rpc_pieces_hd: "rpc_pieces pb args ! 0 \<in> set (rpc_pieces pb args)"
  using plan_nonempty by (intro nth_mem) simp

lemma server_gets_request:
  assumes d: "pb_decodes pb args" and b: "build_rpc_packet pb u args = Some zcs" and o: "arrangement is (length zcs)"
    and n: "length zcs \<le> 32 * 1024" and q: "is_req args"
    and s: "packet_mergers s \<lparr>mk_from_peer_id = a_from_peer args, mk_transaction_id = a_transaction_id args\<rparr> = None"
  shows "receive_all (server_receive pb now) (map ((!) zcs) is) s =
    Some (replicate (length zcs - 1) None @ [Some (build_rpc_piece args 1 0 (content args))], s)"
proof -
  note c = packets_carry [OF d b o]
  have "merger_key (rpc_pieces pb args ! 0) =
      \<lparr>mk_from_peer_id = a_from_peer args, mk_transaction_id = a_transaction_id args\<rparr>"
    using rpc_pieces_fields [OF rpc_pieces_hd] by (simp add: merger_key_def)
  moreover have "well_pieced (rpc_pieces pb args)" using rpc_pieces_well_pieced [of pb args] n c(2) by simp
  moreover have "\<forall>p\<in>set (rpc_pieces pb args). is_request p" using rpc_pieces_fields(1) q by blast
  ultimately have "server_waits s (rpc_pieces pb args) {} s" using s by (simp add: server_waits_def)
  from server.receive_any_order [OF this arrangementD [OF o, unfolded c(2)] rpc_pieces_nonempty c(1), of now]
  show ?thesis unfolding c(2) merged_rpc_pieces by blast
qed

lemma client_gets_response:
  assumes d: "pb_decodes pb args" and b: "build_rpc_packet pb u args = Some zcs" and o: "arrangement is (length zcs)"
    and n: "length zcs \<le> 32 * 1024" and q: "\<not> is_req args"
  defines "k \<equiv> \<lparr>ik_from_peer_id = a_to_peer args, ik_to_peer_id = a_from_peer args,
    ik_transaction_id = a_transaction_id args\<rparr>"
  assumes cl: "inflight_requests cl k = Some (merger_new t)"
  shows "\<exists>m. receive_all (client_receive pb now) (map ((!) zcs) is) cl =
    Some (replicate (length zcs - 1) None @ [Some (k, build_rpc_piece args 1 0 (content args))],
      cl\<lparr>inflight_requests := (inflight_requests cl)(k \<mapsto> m)\<rparr>)"
proof -
  note c = packets_carry [OF d b o]
  have k: "resp_key (rpc_pieces pb args ! 0) = k"
    using rpc_pieces_fields [OF rpc_pieces_hd] by (simp add: resp_key_def k_def)
  have "cl = cl\<lparr>inflight_requests := (inflight_requests cl)(k \<mapsto> merger_new t)\<rparr>"
    using cl by (simp add: fun_upd_idem)
  moreover have "merger_holds (rpc_pieces pb args) {} (merger_new t)"
    by (simp add: merger_holds_def merger_new_def)
  moreover have "well_pieced (rpc_pieces pb args)" using rpc_pieces_well_pieced [of pb args] n c(2) by simp
  moreover have "\<not> is_request p \<and> to_peer p = to_peer (rpc_pieces pb args ! 0)" if "p \<in> set (rpc_pieces pb args)" for p
    unfolding rpc_pieces_fields [OF that] rpc_pieces_fields [OF rpc_pieces_hd] using q by simp
  ultimately have "client_waits cl (rpc_pieces pb args) {} cl"
    unfolding client_waits_def k by blast
  from client.receive_any_order [OF this arrangementD [OF o, unfolded c(2)] rpc_pieces_nonempty c(1), of now]
  have "\<exists>cl' m. receive_all (client_receive pb now) (map ((!) zcs) is) cl =
      Some (replicate (length zcs - 1) None @ [Some (resp_key (merged (rpc_pieces pb args)), merged (rpc_pieces pb args))], cl') \<and>
      cl' = cl\<lparr>inflight_requests := (inflight_requests cl)(k \<mapsto> m)\<rparr>"
    unfolding c(2) k by blast
  moreover have "resp_key (build_rpc_piece args 1 0 (content args)) = k"
    by (simp add: resp_key_def build_rpc_piece_def k_def)
  ultimately show ?thesis unfolding merged_rpc_pieces by auto
qed

definition response_args :: "call_args \<Rightarrow> int \<Rightarrow> bytes \<Rightarrow> CompressionAlgoPb \<Rightarrow> BuildRpcPacketArgs" where
  "response_args c tid buf algo =
     \<lparr>a_from_peer = ca_to c, a_to_peer = ca_from c, rpc_desc = ca_desc c, a_transaction_id = tid,
      is_req = False, content = buf, a_trace_id = ca_trace_id c,
      a_compression_info = \<lparr>ci_algo = CompressionAlgoPb_code algo, ci_accepted_algo = CompressionAlgoPb_code CP_Zstd\<rparr>\<rparr>"

text \<open>The codecs give back what they encoded, for the messages of this call.\<close>

definition codecs_ok :: "pb_api \<Rightarrow> zstd_api \<Rightarrow> rpc_service \<Rightarrow> call_args \<Rightarrow> int \<Rightarrow> bool" where
  "codecs_ok pb z svc c tid \<longleftrightarrow> zstd_ok z \<and> (\<forall>m. zstd_compress z m \<noteq> None) \<and>
     (\<forall>buf algo. pb_decodes pb (request_args c tid buf algo) \<and> pb_decodes pb (response_args c tid buf algo)) \<and>
     decode_request svc (encode_request svc (ca_input c)) = Some (ca_input c) \<and>
     decode_response svc (encode_response svc (call_method svc (ca_desc c) (ca_input c))) =
       Some (call_method svc (ca_desc c) (ca_input c))"

lemma compress_packet_total:
  assumes "\<forall>m. zstd_compress z m \<noteq> None"
  shows "\<exists>c algo. compress_packet z a m = Inr (c, algo)"
proof -
  have "\<exists>d. compress_raw z m alg = Inr d" for alg
    using assms by (cases alg) (auto simp: compress_raw_def split: option.splits)
  then obtain d where "compress_raw z m (case algo_from_pb a of Some x \<Rightarrow> x | None \<Rightarrow> CA_None) = Inr d" by blast
  then show ?thesis by (auto simp: compress_packet_def Let_def)
qed

lemma compress_packet_length: "compress_packet z a m = Inr (c, algo) \<Longrightarrow> length c \<le> length m"
  by (auto simp: compress_packet_def Let_def split: sum.splits if_splits)

lemma rpc_packet_count:
  assumes "build_rpc_packet pb u args = Some zcs"
  shows "length zcs \<le> max 1 (length (content args))"
proof -
  have "length zcs = length (split_rpc_content_for_udp_budget pb args)"
    using assms build_rpc_packet_ok [of pb u args] by auto
  then show ?thesis
    using split_loop_length [of pb _ _ _ "length (content args)" True 0]
    by (auto simp: split_rpc_content_for_udp_budget_def le_max_iff_disj)
qed

text \<open>The server answers the merged request with packets of the response.\<close>

lemma handle_rpc_request_piece:
  assumes ok: "codecs_ok pb z svc c tid"
    and cp: "compress_packet z a (encode_request svc (ca_input c)) = Inr (buf, algo)"
    and len: "length (encode_request svc (ca_input c)) \<le> 65536"
  shows "\<exists>buf' algo'. compress_packet z CP_Zstd (encode_response svc (call_method svc (ca_desc c) (ca_input c))) =
      Inr (buf', algo') \<and>
    handle_rpc pb z u svc (build_rpc_piece (request_args c tid buf algo) 1 0 buf) =
      build_rpc_packet pb u (response_args c tid buf' algo')"
proof -
  let ?q = "build_rpc_piece (request_args c tid buf algo) 1 0 buf"
  have z: "zstd_ok z" and req: "decode_request svc (encode_request svc (ca_input c)) = Some (ca_input c)"
    using ok by (auto simp: codecs_ok_def)
  have q: "descriptor ?q = Some (ca_desc c)" "body ?q = buf" "to_peer ?q = ca_to c" "from_peer ?q = ca_from c"
    "transaction_id ?q = tid" "trace_id ?q = ca_trace_id c" "compression_info ?q =
      Some \<lparr>ci_algo = CompressionAlgoPb_code algo, ci_accepted_algo = CompressionAlgoPb_code CP_Zstd\<rparr>"
    by (simp_all add: build_rpc_piece_def request_args_def)
  have d: "decompress_packet z (CompressionAlgoPb_of (CompressionAlgoPb_code algo)) buf =
      Inr (encode_request svc (ca_input c))"
    by (rule compress_packet_roundtrip [OF z cp len])
  have r: "handle_rpc_request z svc ?q = Some (call_method svc (ca_desc c) (ca_input c))"
    unfolding handle_rpc_request_def q using d req by simp
  obtain buf' algo' where c': "compress_packet z CP_Zstd
      (encode_response svc (call_method svc (ca_desc c) (ca_input c))) = Inr (buf', algo')"
    using compress_packet_total ok unfolding codecs_ok_def by blast
  have "handle_rpc pb z u svc ?q = build_rpc_packet pb u (response_args c tid buf' algo')"
    unfolding handle_rpc_def q r using c' by (simp add: CompressionAlgoPb_of_def response_args_def)
  then show ?thesis using c' by blast
qed

text \<open>
  C4. A remote call returns what the method returns. The packets of the request reach the server in
  any order, it hands exactly one complete request to the service, and the packets of the response,
  again in any order, complete the call with the result of the method on the input; the transaction
  is gone from both sides afterwards. (Messages of at most 64 KiB before compression and 32768 pieces.)
\<close>

theorem rpc_call_returns:
  assumes "call_start pb z u svc t0 c cl = Some (tid, reqs, cl1)" and "codecs_ok pb z svc c tid"
    and "packet_mergers s \<lparr>mk_from_peer_id = ca_from c, mk_transaction_id = tid\<rparr> = None"
    and "length (encode_request svc (ca_input c)) \<le> 65536" and "length reqs \<le> 32 * 1024"
    and "length (encode_response svc (call_method svc (ca_desc c) (ca_input c))) \<le> 65536"
    and "arrangement is (length reqs)"
  shows "\<exists>q resps. receive_all (server_receive pb t1) (map ((!) reqs) is) s =
      Some (replicate (length reqs - 1) None @ [Some q], s) \<and>
    handle_rpc pb z u svc q = Some resps \<and>
    length resps \<le> max 1 (length (encode_response svc (call_method svc (ca_desc c) (ca_input c)))) \<and>
    (\<forall>js. arrangement js (length resps) \<and> length resps \<le> 32 * 1024 \<longrightarrow>
      (\<exists>p cl2 cl3. receive_all (client_receive pb t2) (map ((!) resps) js) cl1 =
         Some (replicate (length resps - 1) None @ [Some (call_key c tid, p)], cl2) \<and>
       call_finish z svc t3 c tid p cl2 = Some (call_method svc (ca_desc c) (ca_input c), cl3) \<and>
       inflight_requests cl3 (call_key c tid) = None))"
proof -
  let ?res = "call_method svc (ca_desc c) (ca_input c)"
  obtain a buf algo where st: "compress_packet z a (encode_request svc (ca_input c)) = Inr (buf, algo)"
      "build_rpc_packet pb u (request_args c tid buf algo) = Some reqs"
    and cl1: "inflight_requests cl1 (call_key c tid) = Some (merger_new t0)"
    using assms(1) by (auto simp: call_start_def bind_eq_Some_conv Let_def split: sum.splits prod.splits)
  let ?ra = "request_args c tid buf algo"
  have ok: "pb_decodes pb ?ra" "zstd_ok z" "decode_response svc (encode_response svc ?res) = Some ?res"
    using assms(2) by (simp_all add: codecs_ok_def)
  have fields: "is_req ?ra" "a_from_peer ?ra = ca_from c" "a_transaction_id ?ra = tid" "content ?ra = buf"
    by (simp_all add: request_args_def)
  have srv: "receive_all (server_receive pb t1) (map ((!) reqs) is) s =
      Some (replicate (length reqs - 1) None @ [Some (build_rpc_piece ?ra 1 0 buf)], s)"
    using server_gets_request [OF ok(1) st(2) assms(7,5), of s t1] fields assms(3) by simp
  obtain buf' algo' where h: "compress_packet z CP_Zstd (encode_response svc ?res) = Inr (buf', algo')"
    "handle_rpc pb z u svc (build_rpc_piece ?ra 1 0 buf) = build_rpc_packet pb u (response_args c tid buf' algo')"
    using handle_rpc_request_piece [OF assms(2) st(1) assms(4)] by blast
  let ?rb = "response_args c tid buf' algo'"
  obtain resps where rs: "build_rpc_packet pb u ?rb = Some resps" using build_rpc_packet_ok by blast
  have rb: "pb_decodes pb ?rb" using assms(2) by (simp add: codecs_ok_def)
  have cli: "\<exists>p cl2 cl3. receive_all (client_receive pb t2) (map ((!) resps) js) cl1 =
         Some (replicate (length resps - 1) None @ [Some (call_key c tid, p)], cl2) \<and>
       call_finish z svc t3 c tid p cl2 = Some (?res, cl3) \<and> inflight_requests cl3 (call_key c tid) = None"
    if js: "arrangement js (length resps)" "length resps \<le> 32 * 1024" for js
  proof -
    let ?p = "build_rpc_piece ?rb 1 0 buf'"
    obtain m where m: "receive_all (client_receive pb t2) (map ((!) resps) js) cl1 =
        Some (replicate (length resps - 1) None @ [Some (call_key c tid, ?p)],
          cl1\<lparr>inflight_requests := (inflight_requests cl1)(call_key c tid \<mapsto> m)\<rparr>)"
      using client_gets_response [OF rb rs js, of cl1 t0 t2] cl1 by (auto simp: response_args_def call_key_def)
    have "decompress_packet z (CompressionAlgoPb_of (CompressionAlgoPb_code algo')) buf' = Inr (encode_response svc ?res)"
      by (rule compress_packet_roundtrip [OF ok(2) h(1) assms(6)])
    then have "\<exists>cl3. call_finish z svc t3 c tid ?p (cl1\<lparr>inflight_requests := (inflight_requests cl1)(call_key c tid \<mapsto> m)\<rparr>)
        = Some (?res, cl3) \<and> inflight_requests cl3 (call_key c tid) = None"
      using ok(3) by (simp add: call_finish_def build_rpc_piece_def response_args_def Let_def)
    then show ?thesis using m by blast
  qed
  have "handle_rpc pb z u svc (build_rpc_piece ?ra 1 0 buf) = Some resps" using h(2) rs by simp
  moreover have "length resps \<le> max 1 (length (encode_response svc ?res))"
    using rpc_packet_count [OF rs] compress_packet_length [OF h(1)] by (simp add: response_args_def)
  moreover have "\<forall>js. arrangement js (length resps) \<and> length resps \<le> 32 * 1024 \<longrightarrow>
      (\<exists>p cl2 cl3. receive_all (client_receive pb t2) (map ((!) resps) js) cl1 =
         Some (replicate (length resps - 1) None @ [Some (call_key c tid, p)], cl2) \<and>
       call_finish z svc t3 c tid p cl2 = Some (?res, cl3) \<and> inflight_requests cl3 (call_key c tid) = None)"
    using cli by blast
  ultimately show ?thesis using srv by blast
qed

text \<open>
  A request in the format of old versions (no piece counters) is handed to the handler without the
  check for a descriptor, and the handler unwraps it: such a packet from any peer panics the server.
\<close>

theorem missing_descriptor_panics:
  assumes "payload zc = Some pl" and "pb_decode pb pl = Some p" and "is_request p"
    and "total_pieces p = 0" and "piece_idx p = 0" and "descriptor p = None"
  shows "\<exists>s'. server_receive pb now zc s = Some (Some p, s') \<and> handle_rpc pb z u svc p = None"
  using assms by (simp add: server_receive_def feed_def handle_rpc_def Let_def)

section \<open>A concrete call\<close>

text \<open>A codec for the messages of one call, and a compressor that stores.\<close>

definition demo_call :: call_args where
  "demo_call = \<lparr>ca_from = 1, ca_to = 2, ca_desc = \<lparr>domain_name = ''net'', proto_name = ''p'',
     service_name = ''s'', method_index = 3\<rparr>, ca_trace_id = 0, ca_input = [1, 2, 3]\<rparr>"

definition algo_byte :: "RpcPacket \<Rightarrow> u8" where
  "algo_byte p = (case compression_info p of
     Some ci \<Rightarrow> (if ci_algo ci = 1 then 1 else if ci_algo ci = 2 then 2 else 0)
   | None \<Rightarrow> (if descriptor p \<noteq> None then 1 else 2))"

definition demo_pb :: pb_api where
  "demo_pb =
     \<lparr>pb_encode = (\<lambda>p. [if is_request p then 1 else 0, algo_byte p] @
        le_bytes 4 (total_pieces p) @ le_bytes 4 (piece_idx p) @ body p),
      pb_decode = (\<lambda>bs. if length bs < 10 then None
        else let algo = CompressionAlgoPb_of (if bs ! 1 = 1 then 1 else if bs ! 1 = 2 then 2 else 0);
                 args = (if bs ! 0 = 1 then request_args else response_args) demo_call 5 [] algo
             in Some (build_rpc_piece args (of_le (take 4 (drop 2 bs))) (of_le (take 4 (drop 6 bs))) (drop 10 bs))),
      length_delimiter_len = (\<lambda>n. if n < 128 then 1 else 2)\<rparr>"

definition demo_svc :: rpc_service where
  "demo_svc = \<lparr>encode_request = (\<lambda>x. x), decode_request = Some, call_method = (\<lambda>d x. Inr (rev x)),
     encode_response = (\<lambda>r. case r of Inr b \<Rightarrow> b | Inl _ \<Rightarrow> []), decode_response = (\<lambda>b. Some (Inr b))\<rparr>"

definition store_zstd :: zstd_api where
  "store_zstd = \<lparr>zstd_compress = (\<lambda>m. Some (0 # m)),
     zstd_decompress = (\<lambda>c cap. case c of [] \<Rightarrow> Z_Err | _ # m \<Rightarrow> if length m \<le> cap then Z_Ok m else Z_TooSmall)\<rparr>"

definition demo_client :: rpc_client where
  "demo_client = \<lparr>inflight_requests = Map.empty, peer_info = Map.empty, cur_tid = 5\<rparr>"

lemma demo_pb_decodes:
  assumes "args = request_args demo_call 5 buf algo \<or> args = response_args demo_call 5 buf algo"
  shows "pb_decodes demo_pb args"
  using assms
  by (cases algo)
    (auto simp: pb_decodes_def demo_pb_def build_rpc_piece_def algo_byte_def request_args_def response_args_def
      CompressionAlgoPb_of_def codec_simps Let_def)

lemma demo_codecs_ok: "codecs_ok demo_pb store_zstd demo_svc demo_call 5"
  using demo_pb_decodes unfolding codecs_ok_def
  by (auto simp: zstd_ok_def store_zstd_def demo_svc_def)

lemma demo_call_start:
  "\<exists>reqs cl1. call_start demo_pb store_zstd (\<lambda>_. 0) demo_svc 0 demo_call demo_client = Some (5, reqs, cl1) \<and>
     length reqs \<le> 3"
proof -
  have "compress_packet store_zstd (accepted_algo cl 2) [1, 2, 3] = Inr ([1, 2, 3], CP_None)"
    if "peer_info cl = Map.empty" for cl
    using that by (simp add: compress_packet_def accepted_algo_def CompressionAlgoPb_of_def compress_raw_def)
  note cp = this
  let ?a = "request_args demo_call 5 [1, 2, 3] CP_None"
  obtain reqs where r: "build_rpc_packet demo_pb (\<lambda>_. 0) ?a = Some reqs" using build_rpc_packet_ok by blast
  have "length reqs \<le> 3" using rpc_packet_count [OF r] by (simp add: request_args_def)
  moreover have "\<exists>cl1. call_start demo_pb store_zstd (\<lambda>_. 0) demo_svc 0 demo_call demo_client = Some (5, reqs, cl1)"
    unfolding call_start_def Let_def using r by (simp add: cp demo_client_def demo_call_def demo_svc_def)
  ultimately show ?thesis by blast
qed

theorem rpc_call_returns_witness:
  "\<exists>reqs cl1 q resps p cl2 cl3.
     call_start demo_pb store_zstd (\<lambda>_. 0) demo_svc 0 demo_call demo_client = Some (5, reqs, cl1) \<and>
     receive_all (server_receive demo_pb 1) reqs \<lparr>packet_mergers = Map.empty\<rparr> =
       Some (replicate (length reqs - 1) None @ [Some q], \<lparr>packet_mergers = Map.empty\<rparr>) \<and>
     handle_rpc demo_pb store_zstd (\<lambda>_. 0) demo_svc q = Some resps \<and>
     receive_all (client_receive demo_pb 2) (rev resps) cl1 =
       Some (replicate (length resps - 1) None @ [Some (call_key demo_call 5, p)], cl2) \<and>
     call_finish store_zstd demo_svc 3 demo_call 5 p cl2 = Some (Inr [3, 2, 1], cl3)"
proof -
  obtain reqs cl1 where st: "call_start demo_pb store_zstd (\<lambda>_. 0) demo_svc 0 demo_call demo_client = Some (5, reqs, cl1)"
    and n: "length reqs \<le> 3"
    using demo_call_start by blast
  have m: "call_method demo_svc (ca_desc demo_call) (ca_input demo_call) = Inr [3, 2, 1]"
    "length (encode_request demo_svc (ca_input demo_call)) = 3"
    "length (encode_response demo_svc (Inr [3, 2, 1])) = 3"
    by (simp_all add: demo_svc_def demo_call_def)
  have ar: "arrangement [0..<length reqs] (length reqs)" by (auto simp: arrangement_def)
  have id: "map ((!) xs) [0..<length xs] = xs" for xs :: "zc_packet list" by (rule map_nth)
  have rv: "arrangement (rev [0..<length xs]) (length xs)" "map ((!) xs) (rev [0..<length xs]) = rev xs"
    for xs :: "zc_packet list"
    using id [of xs] by (auto simp: arrangement_def simp flip: rev_map)
  obtain q resps where q: "receive_all (server_receive demo_pb 1) reqs \<lparr>packet_mergers = Map.empty\<rparr> =
       Some (replicate (length reqs - 1) None @ [Some q], \<lparr>packet_mergers = Map.empty\<rparr>)"
      "handle_rpc demo_pb store_zstd (\<lambda>_. 0) demo_svc q = Some resps" "length resps \<le> 3"
      "\<And>js. arrangement js (length resps) \<Longrightarrow> length resps \<le> 32 * 1024 \<Longrightarrow>
        \<exists>p cl2 cl3. receive_all (client_receive demo_pb 2) (map ((!) resps) js) cl1 =
          Some (replicate (length resps - 1) None @ [Some (call_key demo_call 5, p)], cl2) \<and>
        call_finish store_zstd demo_svc 3 demo_call 5 p cl2 = Some (Inr [3, 2, 1], cl3)"
    using rpc_call_returns [OF st demo_codecs_ok, of "\<lparr>packet_mergers = Map.empty\<rparr>" _ 1 2 3] n ar
    unfolding m by (fastforce simp: id)
  obtain p cl2 cl3 where "receive_all (client_receive demo_pb 2) (rev resps) cl1 =
      Some (replicate (length resps - 1) None @ [Some (call_key demo_call 5, p)], cl2)"
      "call_finish store_zstd demo_svc 3 demo_call 5 p cl2 = Some (Inr [3, 2, 1], cl3)"
    using q(4) [OF rv(1)] q(3) unfolding rv(2) by auto
  then show ?thesis using st q(1,2) by blast
qed

definition old_request :: RpcPacket where
  "old_request = RpcPacket_default\<lparr>is_request := True\<rparr>"

definition old_pb :: pb_api where
  "old_pb = demo_pb\<lparr>pb_decode := (\<lambda>_. Some old_request)\<rparr>"

theorem missing_descriptor_panics_witness:
  "\<exists>zc s'. server_receive old_pb 0 zc \<lparr>packet_mergers = Map.empty\<rparr> = Some (Some old_request, s') \<and>
    handle_rpc old_pb store_zstd (\<lambda>_. 0) demo_svc old_request = None"
proof -
  obtain zc where zc: "payload zc = Some [8]" using new_with_payload_spec by blast
  have d: "pb_decode old_pb [8] = Some old_request" by (simp add: old_pb_def)
  have "is_request old_request" "total_pieces old_request = 0" "piece_idx old_request = 0" "descriptor old_request = None"
    by (simp_all add: old_request_def RpcPacket_default_def)
  from missing_descriptor_panics [OF zc d this] show ?thesis by blast
qed

end
