(* ===== verification/Ip_Reassembler.thy ===== *)
theory Ip_Reassembler
  imports Prelude
begin

text \<open>
  IPv4 fragments, \<open>easytier/src/gateway/ip_reassembler.rs\<close>: composing the fragments of a payload and
  reassembling fragments. The \<open>pnet\<close> views are parameters: \<open>view\<close> reads the fields of a packet,
  \<open>write_header\<close> is what the setters make of the first twenty bytes. Instants are nanoseconds.
\<close>

section \<open>Views of packets\<close>

record ipv4_fields =
  identification :: u16
  flags :: u8
  fragment_offset :: u16
  total_len :: u16
  header_length :: u8
  ip_source :: u32
  ip_destination :: u32
  next_protocol :: u8
  ip_payload :: bytes

definition MoreFragments :: u8 where "MoreFragments = 1"
definition DontFragment :: u8 where "DontFragment = 2"

section \<open>Reassembling\<close>

record IpFragment =
  frag_id :: u16
  frag_offset :: u16
  frag_data :: bytes

definition fragment_from :: "ipv4_fields \<Rightarrow> IpFragment" where
  "fragment_from p = \<lparr>frag_id = identification p, frag_offset = fragment_offset p * 8, frag_data = ip_payload p\<rparr>"

record IpPacket =
  pk_source :: u32
  pk_destination :: u32
  pk_total_length :: "u16 option"
  fragments :: "IpFragment list"

definition ip_packet_new :: "u32 \<Rightarrow> u32 \<Rightarrow> IpPacket" where
  "ip_packet_new src dst = \<lparr>pk_source = src, pk_destination = dst, pk_total_length = None, fragments = []\<rparr>"

text \<open>Sums of 16-bit offsets and lengths wrap.\<close>

definition overlaps :: "IpFragment \<Rightarrow> IpFragment \<Rightarrow> bool" where
  "overlaps f g \<longleftrightarrow>
     frag_offset f \<le> frag_offset g \<and> frag_offset g < frag_offset f + of_nat (length (frag_data f)) \<or>
     frag_offset g \<le> frag_offset f \<and> frag_offset f < frag_offset g + of_nat (length (frag_data g))"

definition packet_add_fragment :: "IpFragment \<Rightarrow> IpPacket \<Rightarrow> IpPacket" where
  "packet_add_fragment g p =
     (if list_ex (\<lambda>f. overlaps f g) (fragments p) then p else p\<lparr>fragments := fragments p @ [g]\<rparr>)"

definition is_complete :: "IpPacket \<Rightarrow> bool" where
  "is_complete p =
     (case pk_total_length p of
        None \<Rightarrow> False
      | Some n \<Rightarrow> foldl (\<lambda>t f. t + of_nat (length (frag_data f))) 0 (fragments p) = n)"

text \<open>Copying the fragments into the buffer; a slice past its end panics.\<close>

fun copy_fragments :: "IpFragment list \<Rightarrow> bytes \<Rightarrow> bytes may_panic" where
  "copy_fragments [] buf = Some buf"
| "copy_fragments (f # fs) buf = do {
     let start = unat (frag_offset f);
     buf \<leftarrow> copy_range start (start + length (frag_data f)) (frag_data f) buf;
     copy_fragments fs buf }"

definition assemble :: "IpPacket \<Rightarrow> bytes option may_panic" where
  "assemble p =
     (if \<not> is_complete p then Some None
      else do {
        n \<leftarrow> pk_total_length p;
        buf \<leftarrow> copy_fragments (sort_key frag_offset (fragments p)) (replicate (unat n) 0);
        Some (Some buf) })"

record IpResemblerKey =
  rk_source :: u32
  rk_destination :: u32
  rk_id :: u16

record IpResemblerValue =
  rv_packet :: IpPacket
  timestamp :: nat

record IpReassembler =
  packets :: "IpResemblerKey \<rightharpoonup> IpResemblerValue"
  timeout :: nat

definition reassembler_new :: "nat \<Rightarrow> IpReassembler" where
  "reassembler_new t = \<lparr>packets = Map.empty, timeout = t\<rparr>"

definition is_packet_fragmented :: "ipv4_fields \<Rightarrow> bool" where
  "is_packet_fragmented p \<longleftrightarrow> fragment_offset p \<noteq> 0 \<or> and (flags p) MoreFragments \<noteq> 0"

definition is_last_fragment :: "ipv4_fields \<Rightarrow> bool" where
  "is_last_fragment p \<longleftrightarrow> and (flags p) MoreFragments = 0"

definition add_fragment :: "nat \<Rightarrow> u32 \<Rightarrow> u32 \<Rightarrow> ipv4_fields \<Rightarrow> IpReassembler
    \<Rightarrow> (bytes option \<times> IpReassembler) may_panic" where
  "add_fragment now src dst p r =
     (let total_length = total_len p - ucast (header_length p) * 4
      in if total_length \<noteq> of_nat (length (ip_payload p)) then Some (None, r)
         else do {
           let fragment = fragment_from p;
           let key = \<lparr>rk_source = src, rk_destination = dst, rk_id = identification p\<rparr>;
           let v = (case packets r key of Some v \<Rightarrow> v
              | None \<Rightarrow> \<lparr>rv_packet = ip_packet_new src dst, timestamp = now\<rparr>);
           let pk = rv_packet v;
           let pk = (if is_last_fragment p
              then pk\<lparr>pk_total_length := Some (total_length + frag_offset fragment)\<rparr> else pk);
           let pk = packet_add_fragment fragment pk;
           res \<leftarrow> assemble pk;
           case res of
             Some d \<Rightarrow> Some (Some d, r\<lparr>packets := (packets r)(key := None)\<rparr>)
           | None \<Rightarrow> Some (None, r\<lparr>packets := (packets r)(key \<mapsto> \<lparr>rv_packet = pk, timestamp = now\<rparr>)\<rparr>) })"

definition remove_expired_packets :: "nat \<Rightarrow> IpReassembler \<Rightarrow> IpReassembler" where
  "remove_expired_packets now r = r\<lparr>packets := (\<lambda>k. case packets r k of
     Some v \<Rightarrow> if now - timestamp v \<le> timeout r then Some v else None | None \<Rightarrow> None)\<rparr>"

section \<open>Composing\<close>

record ComposeIpv4PacketArgs =
  src_v4 :: u32
  dst_v4 :: u32
  c_next_protocol :: u8
  c_payload_len :: nat
  payload_mtu :: nat
  ip_id :: u16

text \<open>
  The fields the setters write for the piece of \<open>len\<close> bytes at \<open>off\<close>. The assertion that the offset is a
  multiple of eight may panic.
\<close>

definition piece_fields :: "ComposeIpv4PacketArgs \<Rightarrow> nat \<Rightarrow> nat \<Rightarrow> nat \<Rightarrow> nat \<Rightarrow> bytes \<Rightarrow> ipv4_fields may_panic"
where
  "piece_fields args total_pieces cur_piece off len pl =
     (let p = \<lparr>identification = ip_id args, flags = DontFragment, fragment_offset = 0,
               total_len = of_nat (len + 20), header_length = 5, ip_source = src_v4 args,
               ip_destination = dst_v4 args, next_protocol = c_next_protocol args, ip_payload = pl\<rparr>
      in if total_pieces > 1 then
           (if off mod 8 \<noteq> 0 then None
            else Some (p\<lparr>flags := (if cur_piece \<noteq> total_pieces - 1 then MoreFragments else 0),
                         fragment_offset := of_nat off div 8\<rparr>))
         else Some p)"

text \<open>
  The header of a piece is written over the end of the previous one, in front of its payload. The callback
  \<open>cb\<close> gets the packets one by one and its first error (\<open>Some e\<close>) ends the loop; the result is the list of
  the packets handed to it, with that error. \<open>write_header\<close> stands for the setters of the packet view, which
  also write the constant fields (version, TTL, DSCP, ECN) and the checksum.
\<close>

function compose_loop :: "(ipv4_fields \<Rightarrow> bytes \<Rightarrow> bytes) \<Rightarrow> (bytes \<Rightarrow> 'e option) \<Rightarrow> ComposeIpv4PacketArgs
    \<Rightarrow> nat \<Rightarrow> nat \<Rightarrow> nat \<Rightarrow> bytes \<Rightarrow> (bytes list \<times> 'e option) may_panic" where
  "compose_loop write_header cb args total_pieces cur_piece off buf =
     (if off < c_payload_len args \<and> payload_mtu args > 0 then do {
        let next = min (off + payload_mtu args) (c_payload_len args);
        let len = next - off;
        slice \<leftarrow> index_range off (off + len + 20) buf;
        p \<leftarrow> piece_fields args total_pieces cur_piece off len (drop 20 slice);
        let hdr = write_header p (take 20 slice);
        buf \<leftarrow> copy_range off (off + 20) hdr buf;
        let pkt = hdr @ drop 20 slice;
        case cb pkt of
          Some e \<Rightarrow> Some ([pkt], Some e)
        | None \<Rightarrow> do {
            (rest, res) \<leftarrow> compose_loop write_header cb args total_pieces (cur_piece + 1) next buf;
            Some (pkt # rest, res) } }
      else Some ([], None))"
  by pat_completeness auto
termination
  by (relation "measure (\<lambda>(_, _, args, _, _, off, _). c_payload_len args - off)") auto

declare compose_loop.simps [simp del]

text \<open>\<open>div_ceil\<close> panics on a zero divisor.\<close>

definition compose_ipv4_packet :: "(ipv4_fields \<Rightarrow> bytes \<Rightarrow> bytes) \<Rightarrow> (bytes \<Rightarrow> 'e option) \<Rightarrow> ComposeIpv4PacketArgs
    \<Rightarrow> bytes \<Rightarrow> (bytes list \<times> 'e option) may_panic" where
  "compose_ipv4_packet write_header cb args buf =
     (if payload_mtu args = 0 then None
      else let total_pieces = (c_payload_len args + payload_mtu args - 1) div payload_mtu args
           in compose_loop write_header cb args total_pieces 0 0 buf)"

section \<open>Fragments of a payload\<close>

definition offset_of :: "ipv4_fields list \<Rightarrow> nat \<Rightarrow> nat" where
  "offset_of fs i = length (concat (map ip_payload (take i fs)))"

text \<open>The fragments of one payload in order, as a sender produces them.\<close>

definition fragmented :: "bytes \<Rightarrow> u16 \<Rightarrow> ipv4_fields list \<Rightarrow> bool" where
  "fragmented P ident fs \<longleftrightarrow> fs \<noteq> [] \<and> concat (map ip_payload fs) = P \<and> length P < 65516 \<and>
     (\<forall>i<length fs. ip_payload (fs ! i) \<noteq> [] \<and> unat (fragment_offset (fs ! i)) * 8 = offset_of fs i \<and>
        total_len (fs ! i) = of_nat (length (ip_payload (fs ! i)) + 20) \<and> header_length (fs ! i) = 5 \<and>
        identification (fs ! i) = ident \<and> (is_last_fragment (fs ! i) \<longleftrightarrow> i = length fs - 1))"

lemma offset_of_Suc: "i < length fs \<Longrightarrow> offset_of fs (Suc i) = offset_of fs i + length (ip_payload (fs ! i))"
  by (simp add: offset_of_def take_Suc_conv_app_nth)

lemma offset_of_mono: "i \<le> j \<Longrightarrow> offset_of fs i \<le> offset_of fs j"
proof -
  assume "i \<le> j"
  then have "take j fs = take i fs @ take (j - i) (drop i fs)" by (metis le_add_diff_inverse take_add)
  then show ?thesis by (simp add: offset_of_def)
qed

lemma offset_of_end: "length fs \<le> i \<Longrightarrow> offset_of fs i = length (concat (map ip_payload fs))"
  by (simp add: offset_of_def)

lemma slice_of_concat:
  assumes "i < length fs"
  shows "take (length (ip_payload (fs ! i))) (drop (offset_of fs i) (concat (map ip_payload fs))) = ip_payload (fs ! i)"
proof -
  have "fs = take i fs @ fs ! i # drop (Suc i) fs" using assms by (rule id_take_nth_drop)
  then have "concat (map ip_payload fs) = concat (map ip_payload (take i fs)) @ ip_payload (fs ! i) @
      concat (map ip_payload (drop (Suc i) fs))"
    by (metis concat.simps(2) concat_append list.simps(9) map_append)
  then show ?thesis by (simp add: offset_of_def)
qed

lemma fragmentedD:
  assumes "fragmented P ident fs" and "i < length fs"
  shows "ip_payload (fs ! i) \<noteq> []" and "unat (fragment_offset (fs ! i)) * 8 = offset_of fs i"
    and "total_len (fs ! i) = of_nat (length (ip_payload (fs ! i)) + 20)" and "header_length (fs ! i) = 5"
    and "identification (fs ! i) = ident" and "is_last_fragment (fs ! i) \<longleftrightarrow> i = length fs - 1"
  using assms unfolding fragmented_def by blast+

lemma fragment_end:
  assumes "fragmented P ident fs" and "i < length fs"
  shows "offset_of fs i + length (ip_payload (fs ! i)) \<le> length P"
proof -
  have "offset_of fs (Suc i) \<le> offset_of fs (length fs)" using assms(2) by (intro offset_of_mono) simp
  then show ?thesis using assms offset_of_end [of fs "length fs"] by (simp add: offset_of_Suc fragmented_def)
qed

lemma unat_frag_offset:
  assumes "fragmented P ident fs" and "i < length fs"
  shows "unat (frag_offset (fragment_from (fs ! i))) = offset_of fs i"
proof -
  have "unat (fragment_offset (fs ! i)) * 8 < 65536"
    using fragmentedD(2) [OF assms] fragment_end [OF assms] assms(1) by (simp add: fragmented_def)
  then have "unat (fragment_offset (fs ! i) * 8) = unat (fragment_offset (fs ! i)) * 8"
    by (simp add: unat_word_ariths)
  then show ?thesis using fragmentedD(2) [OF assms] by (simp add: fragment_from_def)
qed

lemma no_overlap:
  assumes F: "fragmented P ident fs" and ij: "i < length fs" "j < length fs" "i \<noteq> j"
  shows "\<not> overlaps (fragment_from (fs ! i)) (fragment_from (fs ! j))"
proof -
  have e: "unat (frag_offset (fragment_from (fs ! k)) + of_nat (length (frag_data (fragment_from (fs ! k))))) =
      offset_of fs k + length (ip_payload (fs ! k))" if "k < length fs" for k
  proof -
    have "offset_of fs k + length (ip_payload (fs ! k)) < 65536"
      using fragment_end [OF F that] F by (simp add: fragmented_def)
    then show ?thesis using unat_frag_offset [OF F that]
      by (simp add: unat_word_ariths unat_of_nat fragment_from_def)
  qed
  have le: "offset_of fs a + length (ip_payload (fs ! a)) \<le> offset_of fs b" if "a < b" "a < length fs" for a b
    using offset_of_mono [of "Suc a" b fs] that by (simp add: offset_of_Suc)
  have pos: "0 < length (ip_payload (fs ! i))" "0 < length (ip_payload (fs ! j))"
    using fragmentedD(1) [OF F] ij by auto
  have o: "overlaps (fragment_from (fs ! i)) (fragment_from (fs ! j)) \<longleftrightarrow>
      offset_of fs i \<le> offset_of fs j \<and> offset_of fs j < offset_of fs i + length (ip_payload (fs ! i)) \<or>
      offset_of fs j \<le> offset_of fs i \<and> offset_of fs i < offset_of fs j + length (ip_payload (fs ! j))"
    using ij by (simp add: overlaps_def word_le_nat_alt word_less_nat_alt e unat_frag_offset [OF F])
  have "i < j \<or> j < i" using ij(3) by linarith
  then show ?thesis unfolding o using le [of i j] le [of j i] ij(1,2) pos by linarith
qed

text \<open>Copying consistent slices reconstructs what they cover.\<close>

lemma copy_fragments_slices:
  assumes "\<forall>f\<in>set gs. unat (frag_offset f) + length (frag_data f) \<le> length P \<and>
      frag_data f = take (length (frag_data f)) (drop (unat (frag_offset f)) P)"
    and "length buf = length P"
  shows "\<exists>out. copy_fragments gs buf = Some out \<and> length out = length P \<and>
    (\<forall>k<length P. out ! k = (if \<exists>f\<in>set gs. unat (frag_offset f) \<le> k \<and> k < unat (frag_offset f) + length (frag_data f)
       then P ! k else buf ! k))"
  using assms
proof (induction gs arbitrary: buf)
  case (Cons g gs)
  let ?s = "unat (frag_offset g)" and ?l = "length (frag_data g)"
  let ?b = "take ?s buf @ frag_data g @ drop (?s + ?l) buf"
  have g: "?s + ?l \<le> length P" "frag_data g = take ?l (drop ?s P)" using Cons.prems(1) by auto
  have cp: "copy_range ?s (?s + ?l) (frag_data g) buf = Some ?b"
    using g(1) Cons.prems(2) by (simp add: copy_range_def)
  have lb: "length ?b = length P" using g(1) Cons.prems(2) by simp
  have nb: "?b ! k = (if ?s \<le> k \<and> k < ?s + ?l then P ! k else buf ! k)" if "k < length P" for k
  proof -
    have "frag_data g ! (k - ?s) = P ! k" if "?s \<le> k" "k < ?s + ?l"
    proof -
      have "frag_data g ! (k - ?s) = take ?l (drop ?s P) ! (k - ?s)" using g(2) by (rule arg_cong)
      then show ?thesis using that g(1) by simp
    qed
    then show ?thesis using that g(1) Cons.prems(2) by (auto simp: nth_append min_def)
  qed
  obtain out where out: "copy_fragments gs ?b = Some out" "length out = length P"
      "\<forall>k<length P. out ! k = (if \<exists>f\<in>set gs. unat (frag_offset f) \<le> k \<and> k < unat (frag_offset f) + length (frag_data f)
         then P ! k else ?b ! k)"
    using Cons.IH [OF _ lb] Cons.prems(1) by auto
  have "copy_fragments (g # gs) buf = Some out" using out(1) cp by (simp add: Let_def)
  moreover have "\<forall>k<length P. out ! k = (if \<exists>f\<in>set (g # gs). unat (frag_offset f) \<le> k \<and>
      k < unat (frag_offset f) + length (frag_data f) then P ! k else buf ! k)"
    using out(3) nb by auto
  ultimately show ?case using out(2) by blast
qed simp

section \<open>Reassembly in any order\<close>

text \<open>The packet after the fragments with the indices \<open>is\<close> arrived, in this order.\<close>

definition holds_fragments :: "bytes \<Rightarrow> ipv4_fields list \<Rightarrow> nat list \<Rightarrow> IpPacket \<Rightarrow> bool" where
  "holds_fragments P fs is pk \<longleftrightarrow> fragments pk = map (\<lambda>i. fragment_from (fs ! i)) is \<and>
     pk_total_length pk = (if length fs - 1 \<in> set is then Some (of_nat (length P)) else None)"

lemma sum_lengths:
  "foldl (\<lambda>t f. t + of_nat (length (frag_data f))) (of_nat a) fs = (of_nat (a + sum_list (map (length \<circ> frag_data) fs)) :: u16)"
  by (induction fs arbitrary: a) (simp_all flip: of_nat_add add: add.assoc)

lemma length_concat_upt:
  "length (concat (map ip_payload fs)) = sum (\<lambda>i. length (ip_payload (fs ! i))) {..<length fs}"
  by (simp add: length_concat sum_list_sum_nth lessThan_atLeast0)

lemma of_nat_u16_eq: "a < 65536 \<Longrightarrow> b < 65536 \<Longrightarrow> (of_nat a :: u16) = of_nat b \<longleftrightarrow> a = b"
  by (auto simp: word_unat_eq_iff unat_of_nat)

lemma complete_iff:
  assumes F: "fragmented P ident fs" and h: "holds_fragments P fs is pk" and d: "distinct is" and s: "set is \<subseteq> {..<length fs}"
  shows "is_complete pk \<longleftrightarrow> set is = {..<length fs}"
proof -
  let ?len = "\<lambda>i. length (ip_payload (fs ! i))"
  have P: "length P = sum ?len {..<length fs}" "length P < 65536"
    using F length_concat_upt [of fs] by (auto simp: fragmented_def)
  have sl: "sum_list (map (length \<circ> frag_data) (fragments pk)) = sum ?len (set is)"
    using h d by (simp add: holds_fragments_def o_def fragment_from_def sum_list_distinct_conv_sum_set)
  have sum: "foldl (\<lambda>t f. t + of_nat (length (frag_data f))) 0 (fragments pk) = (of_nat (sum ?len (set is)) :: u16)"
    using sum_lengths [of 0 "fragments pk"] unfolding sl by simp
  have le: "sum ?len (set is) \<le> length P" unfolding P(1) using s by (intro sum_mono2) auto
  have eq: "(of_nat (sum ?len (set is)) :: u16) = of_nat (length P) \<longleftrightarrow> sum ?len (set is) = length P"
    using le P(2) by (intro of_nat_u16_eq) simp_all
  have less: "sum ?len (set is) < length P" if "set is \<noteq> {..<length fs}"
  proof -
    obtain j where j: "j < length fs" "j \<notin> set is" using \<open>set is \<noteq> {..<length fs}\<close> s by auto
    have "sum ?len (set is) + ?len j = sum ?len (insert j (set is))" using j(2) by simp
    also have "\<dots> \<le> length P" unfolding P(1) using s j(1) by (intro sum_mono2) auto
    finally show ?thesis using fragmentedD(1) [OF F j(1)] by (cases "ip_payload (fs ! j)") auto
  qed
  have "length fs - 1 < length fs" using F by (simp add: fragmented_def)
  then have "set is = {..<length fs} \<Longrightarrow> pk_total_length pk = Some (of_nat (length P))"
    and "pk_total_length pk = None \<or> pk_total_length pk = Some (of_nat (length P))"
    using h by (simp_all add: holds_fragments_def)
  moreover have "sum ?len (set is) = length P \<longleftrightarrow> set is = {..<length fs}"
  proof
    assume "sum ?len (set is) = length P"
    then show "set is = {..<length fs}" using less by (metis less_irrefl)
  next
    assume "set is = {..<length fs}"
    then show "sum ?len (set is) = length P" by (simp only: P(1))
  qed
  ultimately show ?thesis unfolding is_complete_def sum using eq by (cases "pk_total_length pk") auto
qed

lemma assemble_complete:
  assumes F: "fragmented P ident fs" and h: "holds_fragments P fs is pk" and d: "distinct is" and s: "set is = {..<length fs}"
  shows "assemble pk = Some (Some P)"
proof -
  have n: "pk_total_length pk = Some (of_nat (length P))" "unat (of_nat (length P) :: u16) = length P"
    using h F s by (auto simp: holds_fragments_def fragmented_def unat_of_nat)
  let ?gs = "sort_key frag_offset (fragments pk)"
  have gs: "set ?gs = (\<lambda>i. fragment_from (fs ! i)) ` {..<length fs}"
    using h s by (simp add: holds_fragments_def)
  have P: "P = concat (map ip_payload fs)" using F by (simp add: fragmented_def)
  have frag: "unat (frag_offset (fragment_from (fs ! i))) = offset_of fs i" "frag_data (fragment_from (fs ! i)) = ip_payload (fs ! i)"
    if "i < length fs" for i
    using unat_frag_offset [OF F that] by (simp_all add: fragment_from_def)
  have slices: "\<forall>f\<in>set ?gs. unat (frag_offset f) + length (frag_data f) \<le> length P \<and>
      frag_data f = take (length (frag_data f)) (drop (unat (frag_offset f)) P)"
    unfolding gs using fragment_end [OF F] slice_of_concat [of _ fs] by (auto simp: frag P)
  have cover: "\<exists>f\<in>set ?gs. unat (frag_offset f) \<le> k \<and> k < unat (frag_offset f) + length (frag_data f)"
    if "k < length P" for k
  proof -
    define i where "i = (LEAST i. k < offset_of fs (Suc i))"
    have ex: "k < offset_of fs (Suc (length fs))" using \<open>k < length P\<close> offset_of_end [of fs "Suc (length fs)"] P by simp
    have i: "k < offset_of fs (Suc i)" unfolding i_def by (rule LeastI [of _ "length fs"]) (rule ex)
    have lo: "offset_of fs i \<le> k"
    proof (cases i)
      case (Suc j)
      then have "\<not> k < offset_of fs (Suc j)" using not_less_Least [of j "\<lambda>i. k < offset_of fs (Suc i)"] by (simp add: i_def)
      then show ?thesis using Suc by simp
    qed (simp add: offset_of_def)
    have len: "i < length fs"
    proof (rule ccontr)
      assume "\<not> i < length fs"
      then have "offset_of fs i = length P" using offset_of_end [of fs i] P by simp
      then show False using lo \<open>k < length P\<close> by simp
    qed
    then have "k < offset_of fs i + length (ip_payload (fs ! i))" using i by (simp add: offset_of_Suc)
    then show ?thesis unfolding gs using lo len frag [OF len]
      by (intro bexI [of _ "fragment_from (fs ! i)"]) auto
  qed
  obtain out where out: "copy_fragments ?gs (replicate (length P) 0) = Some out" "length out = length P"
      "\<forall>k<length P. out ! k = P ! k"
    using copy_fragments_slices [OF slices, of "replicate (length P) 0"] cover by auto
  have "out = P" using out(2,3) by (intro nth_equalityI) auto
  moreover have "is_complete pk" using complete_iff [OF F h d] s by simp
  ultimately show ?thesis using out(1) n by (simp add: assemble_def)
qed

definition frag_key :: "u32 \<Rightarrow> u32 \<Rightarrow> u16 \<Rightarrow> IpResemblerKey" where
  "frag_key src dst ident = \<lparr>rk_source = src, rk_destination = dst, rk_id = ident\<rparr>"

definition waits_for :: "bytes \<Rightarrow> u16 \<Rightarrow> u32 \<Rightarrow> u32 \<Rightarrow> ipv4_fields list \<Rightarrow> nat list \<Rightarrow> IpReassembler \<Rightarrow> IpReassembler \<Rightarrow> bool"
where
  "waits_for P ident src dst fs is r0 r \<longleftrightarrow> packets r0 (frag_key src dst ident) = None \<and>
     (if is = [] then r = r0
      else \<exists>v. holds_fragments P fs is (rv_packet v) \<and>
        r = r0\<lparr>packets := (packets r0)(frag_key src dst ident \<mapsto> v)\<rparr>)"

lemma fragment_total:
  assumes "fragmented P ident fs" and "i < length fs"
  shows "total_len (fs ! i) - ucast (header_length (fs ! i)) * 4 = (of_nat (length (ip_payload (fs ! i))) :: u16)"
  using fragmentedD(3,4) [OF assms] by simp

lemma last_total:
  assumes F: "fragmented P ident fs" and i: "i = length fs - 1"
  shows "of_nat (length (ip_payload (fs ! i))) + frag_offset (fragment_from (fs ! i)) = (of_nat (length P) :: u16)"
proof -
  have len: "i < length fs" "Suc i = length fs" using F i by (auto simp: fragmented_def)
  have "offset_of fs i + length (ip_payload (fs ! i)) = length P"
    using offset_of_Suc [OF len(1)] offset_of_end [of fs "Suc i"] len(2) F by (simp add: fragmented_def)
  moreover have "frag_offset (fragment_from (fs ! i)) = of_nat (offset_of fs i)"
    using unat_frag_offset [OF F len(1)] fragment_end [OF F len(1)] F
    by (simp add: word_unat_eq_iff unat_of_nat fragmented_def)
  ultimately show ?thesis by (metis add.commute of_nat_add)
qed

lemma add_fragment_step:
  assumes F: "fragmented P ident fs" and w: "waits_for P ident src dst fs is r0 r" and i: "i < length fs"
    and d: "distinct (is @ [i])" and s: "set is \<subseteq> {..<length fs}"
  shows "\<exists>r'. add_fragment now src dst (fs ! i) r =
      (if set (is @ [i]) = {..<length fs} then Some (Some P, r0) else Some (None, r')) \<and>
    waits_for P ident src dst fs (is @ [i]) r0 r'"
proof -
  let ?k = "frag_key src dst ident" and ?g = "fragment_from (fs ! i)"
  define pk where "pk = rv_packet (case packets r ?k of Some v \<Rightarrow> v
      | None \<Rightarrow> \<lparr>rv_packet = ip_packet_new src dst, timestamp = now\<rparr>)"
  have h: "holds_fragments P fs is pk"
    using w by (auto simp: waits_for_def pk_def holds_fragments_def ip_packet_new_def split: if_splits)
  define pk1 where "pk1 = (if is_last_fragment (fs ! i)
      then pk\<lparr>pk_total_length := Some (of_nat (length (ip_payload (fs ! i))) + frag_offset ?g)\<rparr> else pk)"
  have "\<not> list_ex (\<lambda>f. overlaps f ?g) (fragments pk1)"
    using h d s no_overlap [OF F _ i] by (auto simp: pk1_def holds_fragments_def list_ex_iff)
  then have add: "packet_add_fragment ?g pk1 = pk1\<lparr>fragments := fragments pk1 @ [?g]\<rparr>"
    by (simp add: packet_add_fragment_def)
  define pk2 where "pk2 = pk1\<lparr>fragments := fragments pk1 @ [?g]\<rparr>"
  have h2: "holds_fragments P fs (is @ [i]) pk2"
    using h last_total [OF F] fragmentedD(6) [OF F i] by (auto simp: holds_fragments_def pk2_def pk1_def)
  have s2: "set (is @ [i]) \<subseteq> {..<length fs}" using s i by auto
  have id: "\<lparr>rk_source = src, rk_destination = dst, rk_id = identification (fs ! i)\<rparr> = ?k"
    using fragmentedD(5) [OF F i] by (simp add: frag_key_def)
  have r: "r\<lparr>packets := (packets r)(?k := x)\<rparr> = r0\<lparr>packets := (packets r0)(?k := x)\<rparr>" for x
    using w by (auto simp: waits_for_def split: if_splits)
  have r0: "r0\<lparr>packets := (packets r0)(?k := None)\<rparr> = r0" using w by (simp add: waits_for_def fun_upd_idem)
  have res: "add_fragment now src dst (fs ! i) r = do {
      res \<leftarrow> assemble pk2;
      case res of
        Some dt \<Rightarrow> Some (Some dt, r0)
      | None \<Rightarrow> Some (None, r0\<lparr>packets := (packets r0)(?k \<mapsto> \<lparr>rv_packet = pk2, timestamp = now\<rparr>)\<rparr>) }"
    unfolding add_fragment_def Let_def fragment_total [OF F i] id pk_def [symmetric] pk1_def [symmetric] add
      pk2_def [symmetric] r r0 by simp
  let ?r' = "r0\<lparr>packets := (packets r0)(?k \<mapsto> \<lparr>rv_packet = pk2, timestamp = now\<rparr>)\<rparr>"
  have "assemble pk2 = (if set (is @ [i]) = {..<length fs} then Some (Some P) else Some None)"
    using assemble_complete [OF F h2 d] complete_iff [OF F h2 d s2] by (auto simp: assemble_def)
  then have "add_fragment now src dst (fs ! i) r =
      (if set (is @ [i]) = {..<length fs} then Some (Some P, r0) else Some (None, ?r'))"
    unfolding res by simp
  moreover have "waits_for P ident src dst fs (is @ [i]) r0 ?r'"
    using w h2 by (auto simp: waits_for_def intro!: exI [of _ "\<lparr>rv_packet = pk2, timestamp = now\<rparr>"])
  ultimately show ?thesis by blast
qed

fun add_fragments :: "nat \<Rightarrow> u32 \<Rightarrow> u32 \<Rightarrow> ipv4_fields list \<Rightarrow> IpReassembler
    \<Rightarrow> (bytes option list \<times> IpReassembler) may_panic" where
  "add_fragments now src dst [] r = Some ([], r)"
| "add_fragments now src dst (p # ps) r = do {
     (o1, r) \<leftarrow> add_fragment now src dst p r;
     (os, r) \<leftarrow> add_fragments now src dst ps r;
     Some (o1 # os, r) }"

lemma add_fragments_from:
  assumes F: "fragmented P ident fs" and "waits_for P ident src dst fs is r0 r"
    and "distinct (is @ js)" and "set (is @ js) = {..<length fs}" and "js \<noteq> []"
  shows "add_fragments now src dst (map ((!) fs) js) r = Some (replicate (length js - 1) None @ [Some P], r0)"
  using assms(2-)
proof (induction js arbitrary: "is" r)
  case (Cons j js)
  have j: "j < length fs" and d: "distinct (is @ [j])" and s: "set is \<subseteq> {..<length fs}"
    using Cons.prems(2,3) by auto
  obtain r' where r': "add_fragment now src dst (fs ! j) r =
      (if set (is @ [j]) = {..<length fs} then Some (Some P, r0) else Some (None, r'))"
    "waits_for P ident src dst fs (is @ [j]) r0 r'"
    using add_fragment_step [OF F Cons.prems(1) j d s, of now] by blast
  show ?case
  proof (cases "js = []")
    case True
    then show ?thesis using r'(1) Cons.prems(3) by simp
  next
    case False
    then obtain x where "x \<in> set js" by (cases js) auto
    then have "x \<notin> set (is @ [j])" "x < length fs" using Cons.prems(2,3) by auto
    then have "set (is @ [j]) \<noteq> {..<length fs}" by blast
    then have "add_fragment now src dst (fs ! j) r = Some (None, r')" using r'(1) by (simp only: if_False)
    moreover have "add_fragments now src dst (map ((!) fs) js) r' = Some (replicate (length js - 1) None @ [Some P], r0)"
      by (rule Cons.IH [OF r'(2)]) (use Cons.prems False in auto)
    moreover obtain k where "length js = Suc k" using False by (cases js) auto
    ultimately show ?thesis by simp
  qed
qed simp

section \<open>Composed fragments\<close>

text \<open>The fields of piece \<open>k\<close> of the payload \<open>P\<close>, as the code computes them.\<close>

definition piece :: "ComposeIpv4PacketArgs \<Rightarrow> nat \<Rightarrow> bytes \<Rightarrow> nat \<Rightarrow> ipv4_fields" where
  "piece args n P k =
     (let off = k * payload_mtu args; pl = take (payload_mtu args) (drop off P)
      in \<lparr>identification = ip_id args,
          flags = (if n > 1 then (if k \<noteq> n - 1 then MoreFragments else 0) else DontFragment),
          fragment_offset = (if n > 1 then of_nat off div 8 else 0), total_len = of_nat (length pl + 20),
          header_length = 5, ip_source = src_v4 args, ip_destination = dst_v4 args,
          next_protocol = c_next_protocol args, ip_payload = pl\<rparr>)"

text \<open>What the setters and getters of \<open>pnet\<close> promise: a written header reads back.\<close>

definition view_ok :: "(bytes \<Rightarrow> ipv4_fields option) \<Rightarrow> (ipv4_fields \<Rightarrow> bytes \<Rightarrow> bytes) \<Rightarrow> bool" where
  "view_ok view write_header \<longleftrightarrow> (\<forall>p b. length b = 20 \<longrightarrow> length (write_header p b) = 20 \<and>
     (header_length p = 5 \<and> total_len p = of_nat (length (ip_payload p) + 20) \<and> length (ip_payload p) < 65516 \<and>
      unat (fragment_offset p) < 2 ^ 13 \<and> unat (flags p) < 8 \<longrightarrow>
      view (write_header p b @ ip_payload p) = Some p))"

lemma piece_view:
  assumes "view_ok view write_header" and "length b = 20" and "length P < 65516"
  shows "view (write_header (piece args n P k) b @ ip_payload (piece args n P k)) = Some (piece args n P k)"
proof -
  have d: "unat (w div 8) < 2 ^ 13" for w :: u16
  proof -
    have "unat w < 65536" using unsigned_less [of w] by simp
    then show ?thesis by (simp add: unat_div less_mult_imp_div_less)
  qed
  define p where "p = piece args n P k"
  have "header_length p = 5" "total_len p = of_nat (length (ip_payload p) + 20)" "length (ip_payload p) < 65516"
    using assms(3) by (simp_all add: p_def piece_def Let_def)
  moreover have "unat (fragment_offset p) < 2 ^ 13"
    using d [of "of_nat (k * payload_mtu args)"] by (simp add: p_def piece_def Let_def)
  moreover have "unat (flags p) < 8"
    by (simp add: p_def piece_def Let_def MoreFragments_def DontFragment_def)
  ultimately have "view (write_header p b @ ip_payload p) = Some p"
    using assms(1,2) unfolding view_ok_def by blast
  then show ?thesis by (simp only: p_def)
qed

lemma compose_loop_pieces:
  assumes cb: "\<forall>b. cb b = None" and V: "view_ok view write_header" and args: "0 < payload_mtu args" "c_payload_len args = length P" "length P < 65516"
    and n: "n = (length P + payload_mtu args - 1) div payload_mtu args" and m8: "n > 1 \<longrightarrow> payload_mtu args mod 8 = 0"
  shows "off = min (k * payload_mtu args) (length P) \<Longrightarrow> length P + 20 \<le> length buf \<Longrightarrow>
     take (length P - off) (drop (20 + off) buf) = drop off P \<Longrightarrow>
     \<exists>pkts. compose_loop write_header cb args n k off buf = Some (pkts, None) \<and>
       list_all2 (\<lambda>pk f. view pk = Some f) pkts (map (piece args n P) [k..<n])"
proof (induction "length P - off" arbitrary: off k buf rule: less_induct)
  case less
  let ?mtu = "payload_mtu args"
  have nk: "k * ?mtu < length P \<longleftrightarrow> k < n"
  proof -
    have "k < n \<longleftrightarrow> Suc k \<le> n" by auto
    also have "\<dots> \<longleftrightarrow> Suc k * ?mtu \<le> length P + ?mtu - 1"
      using args(1) unfolding n by (simp add: less_eq_div_iff_mult_less_eq)
    also have "\<dots> \<longleftrightarrow> k * ?mtu < length P" using args(1) by auto
    finally show ?thesis by simp
  qed
  show ?case
  proof (cases "off < length P")
    case False
    then have "\<not> k < n" using less.prems(1) nk by auto
    then show ?thesis using False args by (subst compose_loop.simps) simp
  next
    case True
    then have k: "k < n" "off = k * ?mtu" using less.prems(1) nk by (auto simp: min_def split: if_splits)
    define next_off where "next_off = min (off + ?mtu) (length P)"
    define len where "len = next_off - off"
    define slice where "slice = take (len + 20) (drop off buf)"
    have len: "off + len \<le> length P" "off + len = next_off" "len = min ?mtu (length P - off)"
      using True by (auto simp: len_def next_off_def)
    have sl: "index_range off (off + len + 20) buf = Some slice"
      using len(1) less.prems(2) by (simp add: index_range_def slice_def)
    have pl: "drop 20 slice = take ?mtu (drop off P)"
    proof -
      have "drop 20 slice = take len (drop (20 + off) buf)"
        by (simp add: slice_def drop_take add.commute)
      also have "\<dots> = take len (take (length P - off) (drop (20 + off) buf))"
        using len(1) by (simp add: min_def)
      also have "\<dots> = take len (drop off P)" by (simp only: less.prems(3))
      also have "\<dots> = take ?mtu (drop off P)" unfolding len(3) by (metis length_drop take_take take_all_iff min.commute le_refl)
      finally show ?thesis .
    qed
    have lpl: "length (take ?mtu (drop off P)) = len" using len(3) by simp
    have "off mod 8 = 0" if "n > 1" using m8 that k(2) by (simp add: mod_mult_right_eq mod_0_imp_dvd)
    then have pf: "piece_fields args n k off len (drop 20 slice) = Some (piece args n P k)"
      using lpl by (auto simp: piece_fields_def piece_def Let_def pl k(2))
    have l20: "length (take 20 slice) = 20" using len(1) less.prems(2) by (simp add: slice_def)
    let ?hdr = "write_header (piece args n P k) (take 20 slice)"
    have lh: "length ?hdr = 20" using V l20 by (simp add: view_ok_def)
    define buf' where "buf' = take off buf @ ?hdr @ drop (off + 20) buf"
    have cp: "copy_range off (off + 20) ?hdr buf = Some buf'"
      using lh len(1) less.prems(2) by (simp add: copy_range_def buf'_def)
    have drop': "drop (20 + next_off) buf' = drop (20 + next_off) buf"
      using lh len less.prems(2) by (simp add: buf'_def add.commute)
    have "take (length P - next_off) (drop (20 + next_off) buf') = drop next_off P"
    proof -
      have "take (length P - next_off) (drop (20 + next_off) buf) =
          drop len (take (length P - off) (drop (20 + off) buf))"
        using len by (simp add: drop_take add.commute add.left_commute flip: len(2))
      then show ?thesis unfolding drop' less.prems(3) using len(2) by (simp add: add.commute)
    qed
    moreover have "next_off = min (Suc k * ?mtu) (length P)" by (simp add: next_off_def k(2) add.commute)
    moreover have "length P + 20 \<le> length buf'" using lh len(1) less.prems(2) by (simp add: buf'_def)
    moreover have "length P - next_off < length P - off" using True args(1) by (auto simp: next_off_def)
    ultimately obtain pkts where pkts: "compose_loop write_header cb args n (Suc k) next_off buf' = Some (pkts, None)"
        "list_all2 (\<lambda>pk f. view pk = Some f) pkts (map (piece args n P) [Suc k..<n])"
      using less.hyps [of next_off "Suc k" buf'] by blast
    have "compose_loop write_header cb args n k off buf = Some ((?hdr @ drop 20 slice) # pkts, None)"
      using True args pkts(1) sl pf cp cb
      by (subst compose_loop.simps) (simp add: Let_def flip: next_off_def len_def)
    moreover have "view (?hdr @ drop 20 slice) = Some (piece args n P k)"
      using piece_view [OF V l20 args(3), of args n k] by (simp add: pl piece_def Let_def k(2))
    ultimately show ?thesis using pkts(2) k(1) by (auto simp: upt_conv_Cons)
  qed
qed

lemma chunks_concat: "concat (map (\<lambda>k. take m (drop (k * m) P)) [0..<i]) = take (i * m) P"
proof (induction i)
  case (Suc i)
  have "take (Suc i * m) P = take (i * m) P @ take m (drop (i * m) P)"
    by (simp only: mult_Suc add.commute [of m] take_add)
  then show ?case using Suc by simp
qed simp

lemma pieces_fragmented:
  assumes m: "0 < payload_mtu args" and P: "P \<noteq> []" "length P < 65516"
    and n: "n = (length P + payload_mtu args - 1) div payload_mtu args" and m8: "n > 1 \<longrightarrow> payload_mtu args mod 8 = 0"
  shows "fragmented P (ip_id args) (map (piece args n P) [0..<n])"
proof -
  let ?m = "payload_mtu args" and ?fs = "map (piece args n P) [0..<n]"
  have n0: "0 < n" using m P(1) unfolding n by (cases P) (auto simp: div_greater_zero_iff)
  have cover: "length P \<le> n * ?m"
  proof -
    have "length P + ?m - 1 < n * ?m + ?m" unfolding n using m by (metis div_mult_mod_eq mod_less_divisor nat_add_left_cancel_less)
    then show ?thesis using m by simp
  qed
  have below: "k * ?m < length P" if "k < n" for k
  proof -
    have "Suc k * ?m \<le> n * ?m" using that by (intro mult_le_mono1) simp
    also have "\<dots> \<le> length P + ?m - 1" unfolding n by simp
    finally show ?thesis using m by simp
  qed
  have pl: "map ip_payload (take i ?fs) = map (\<lambda>k. take ?m (drop (k * ?m) P)) [0..<i]" if "i \<le> n" for i
    using that by (simp add: take_map piece_def Let_def take_upt)
  have off: "offset_of ?fs i = i * ?m" if "i < n" for i
    using that below [OF that] by (simp add: offset_of_def pl chunks_concat)
  have all: "concat (map ip_payload ?fs) = P"
    using pl [of n] chunks_concat [of ?m P n] cover by (simp only: order.refl take_all length_map length_upt diff_zero)
  have u: "unat (of_nat (i * ?m) div 8 :: u16) * 8 = i * ?m" if "i < n" "n > 1" for i
  proof -
    have "unat (of_nat (i * ?m) :: u16) = i * ?m" using below [OF that(1)] P(2) by (simp add: unat_of_nat del: of_nat_mult)
    moreover have "i * ?m mod 8 = 0" using m8 that(2) by (metis mod_mult_right_eq mod_0 mult_0_right)
    ultimately show ?thesis using div_mult_mod_eq [of "i * ?m" 8] by (simp add: unat_div del: of_nat_mult)
  qed
  have i0: "i = 0" if "i < n" "\<not> n > 1" for i using that by simp
  have "ip_payload (?fs ! i) \<noteq> [] \<and> unat (fragment_offset (?fs ! i)) * 8 = offset_of ?fs i \<and>
      total_len (?fs ! i) = of_nat (length (ip_payload (?fs ! i)) + 20) \<and> header_length (?fs ! i) = 5 \<and>
      identification (?fs ! i) = ip_id args \<and> (is_last_fragment (?fs ! i) \<longleftrightarrow> i = length ?fs - 1)" if "i < n" for i
  proof (intro conjI)
    show "ip_payload (?fs ! i) \<noteq> []" using that m below [OF that] by (simp add: piece_def Let_def)
    show "unat (fragment_offset (?fs ! i)) * 8 = offset_of ?fs i"
      unfolding off [OF that] using that u [OF that] i0 [OF that]
      by (cases "n > 1") (simp_all add: piece_def Let_def del: of_nat_mult)
    show "is_last_fragment (?fs ! i) \<longleftrightarrow> i = length ?fs - 1"
      using that by (auto simp: piece_def Let_def is_last_fragment_def MoreFragments_def DontFragment_def)
  qed (use that in \<open>simp_all add: piece_def Let_def\<close>)
  then show ?thesis using all n0 P(2) by (simp add: fragmented_def)
qed

text \<open>
  C20. What the gateway fragments, it can reassemble: the fragments of a payload, in whatever order they
  arrive, give nothing until the last one, which gives exactly the payload; the reassembler is then as
  before. (Payloads below 65516 bytes and, where more than one fragment is needed, an MTU divisible by 8.)
\<close>

theorem compose_reassemble:
  assumes ok: "\<forall>b. cb b = None" and "view_ok view write_header" and "0 < payload_mtu args" and "length buf = c_payload_len args + 20"
    and "0 < c_payload_len args" and "c_payload_len args < 65516"
    and "c_payload_len args \<le> payload_mtu args \<or> payload_mtu args mod 8 = 0"
    and "packets r (frag_key src dst (ip_id args)) = None"
  shows "\<exists>pkts fs. compose_ipv4_packet write_header cb args buf = Some (pkts, None) \<and> map view pkts = map Some fs \<and>
    (\<forall>is. distinct is \<and> set is = {..<length fs} \<longrightarrow>
       add_fragments now src dst (map ((!) fs) is) r =
         Some (replicate (length fs - 1) None @ [Some (drop 20 buf)], r))"
proof -
  let ?P = "drop 20 buf"
  define n where "n = (length ?P + payload_mtu args - 1) div payload_mtu args"
  have P: "length ?P = c_payload_len args" "?P \<noteq> []" using assms(4,5) by auto
  have m8: "n > 1 \<longrightarrow> payload_mtu args mod 8 = 0"
  proof
    assume "n > 1"
    have "n \<le> 1" if "length ?P \<le> payload_mtu args"
    proof -
      have "length ?P + payload_mtu args - 1 < 2 * payload_mtu args" using that assms(3) by linarith
      then show ?thesis unfolding n_def by (simp add: less_mult_imp_div_less Suc_le_eq flip: less_Suc_eq_le)
    qed
    then show "payload_mtu args mod 8 = 0" using assms(7) P(1) \<open>n > 1\<close> by (metis not_le)
  qed
  let ?fs = "map (piece args n ?P) [0..<n]"
  have F: "fragmented ?P (ip_id args) ?fs"
    using pieces_fragmented [OF assms(3) P(2) _ n_def m8] P(1) assms(6) by simp
  obtain pkts where pkts: "compose_loop write_header cb args n 0 0 buf = Some (pkts, None)"
      "list_all2 (\<lambda>pk f. view pk = Some f) pkts ?fs"
    using compose_loop_pieces [OF ok assms(2,3) _ _ n_def m8, of 0 0 buf] P(1) assms(4,6) by auto
  have "compose_ipv4_packet write_header cb args buf = Some (pkts, None)"
    using pkts(1) assms(3) P(1) by (simp add: compose_ipv4_packet_def n_def)
  moreover have "map view pkts = map Some ?fs"
    using pkts(2) by (simp add: list_eq_iff_nth_eq list_all2_conv_all_nth)
  moreover have "add_fragments now src dst (map ((!) ?fs) is) r = Some (replicate (length ?fs - 1) None @ [Some ?P], r)"
    if "distinct is" "set is = {..<length ?fs}" for "is"
  proof -
    have len: "length is = length ?fs" using distinct_card [OF that(1)] unfolding that(2) by simp
    have ne: "is \<noteq> []" using len F by (auto simp: fragmented_def)
    have "waits_for ?P (ip_id args) src dst ?fs [] r r" using assms(8) by (simp add: waits_for_def)
    from add_fragments_from [OF F this _ _ ne] show ?thesis using that len by simp
  qed
  ultimately show ?thesis by blast
qed

text \<open>
  Completeness is judged by the total length alone. After a last fragment that starts at \<open>o1 > 0\<close>, a
  fragment of \<open>o1\<close> bytes that lies past the end makes the packet count as complete although its
  beginning is missing, and copying that fragment panics.
\<close>

theorem forged_fragment_panics:
  assumes "is_last_fragment p1" and "\<not> is_last_fragment p2" and "identification p2 = identification p1"
    and "packets r (frag_key src dst (identification p1)) = None"
    and "header_length p1 = 5" and "total_len p1 = of_nat (length (ip_payload p1) + 20)"
    and "header_length p2 = 5" and "total_len p2 = of_nat (length (ip_payload p2) + 20)"
    and "0 < length (ip_payload p1)" and "0 < length (ip_payload p2)"
    and "length (ip_payload p2) = unat (fragment_offset p1) * 8"
    and "unat (fragment_offset p1) * 8 + length (ip_payload p1) \<le> unat (fragment_offset p2) * 8"
    and "unat (fragment_offset p2) * 8 + length (ip_payload p2) < 65536"
  shows "\<exists>r'. add_fragment now src dst p1 r = Some (None, r') \<and> add_fragment now src dst p2 r' = None"
proof -
  let ?k = "frag_key src dst (identification p1)" and ?f1 = "fragment_from p1" and ?f2 = "fragment_from p2"
  let ?o1 = "unat (fragment_offset p1) * 8" and ?o2 = "unat (fragment_offset p2) * 8"
  have o: "unat (frag_offset ?f1) = ?o1" "unat (frag_offset ?f2) = ?o2"
    using assms(11-13) by (simp_all add: fragment_from_def unat_word_ariths)
  have e: "unat (frag_offset ?f1 + of_nat (length (ip_payload p1))) = ?o1 + length (ip_payload p1)"
    "unat (frag_offset ?f2 + of_nat (length (ip_payload p2))) = ?o2 + length (ip_payload p2)"
    using o assms(11-13) by (simp_all add: unat_word_ariths unat_of_nat)
  have t: "total_len p1 - ucast (header_length p1) * 4 = (of_nat (length (ip_payload p1)) :: u16)"
    "total_len p2 - ucast (header_length p2) * 4 = (of_nat (length (ip_payload p2)) :: u16)"
    using assms(5-8) by simp_all
  define n where "n = (of_nat (length (ip_payload p1)) + frag_offset ?f1 :: u16)"
  have n: "unat n = ?o1 + length (ip_payload p1)" using e(1) by (simp add: n_def add.commute)
  define pk1 where "pk1 = \<lparr>pk_source = src, pk_destination = dst, pk_total_length = Some n, fragments = [?f1]\<rparr>"
  have data: "frag_data ?f1 = ip_payload p1" "frag_data ?f2 = ip_payload p2" by (simp_all add: fragment_from_def)
  have "(of_nat (length (ip_payload p1)) :: u16) \<noteq> n"
    using n assms(10-12) by (auto simp: word_unat_eq_iff unat_of_nat)
  then have a1: "assemble pk1 = Some None" by (simp add: assemble_def is_complete_def pk1_def data)
  define r' where "r' = r\<lparr>packets := (packets r)(?k \<mapsto> \<lparr>rv_packet = pk1, timestamp = now\<rparr>)\<rparr>"
  have k: "\<lparr>rk_source = src, rk_destination = dst, rk_id = identification p1\<rparr> = ?k" by (simp add: frag_key_def)
  have s1: "add_fragment now src dst p1 r = Some (None, r')"
    unfolding add_fragment_def t Let_def k using assms(1,4) a1
    by (simp add: ip_packet_new_def packet_add_fragment_def n_def [symmetric] pk1_def [symmetric] r'_def)
  have "overlaps ?f1 ?f2 \<longleftrightarrow> ?o1 \<le> ?o2 \<and> ?o2 < ?o1 + length (ip_payload p1) \<or>
      ?o2 \<le> ?o1 \<and> ?o1 < ?o2 + length (ip_payload p2)"
    by (simp only: overlaps_def word_le_nat_alt word_less_nat_alt data o e)
  moreover have "?o1 + length (ip_payload p1) \<le> ?o2 \<and> ?o1 < ?o2" using assms(9,12) by linarith
  ultimately have "\<not> overlaps ?f1 ?f2" by (simp only: not_less not_le simp_thms) linarith
  then have pk2: "packet_add_fragment ?f2 pk1 = pk1\<lparr>fragments := [?f1, ?f2]\<rparr>"
    by (simp add: packet_add_fragment_def pk1_def)
  have l: "length (ip_payload p1) + length (ip_payload p2) < 65536"
    "length (ip_payload p1) + length (ip_payload p2) = unat n"
    unfolding n using assms(11-13) by linarith+
  have "unat (of_nat (length (ip_payload p1) + length (ip_payload p2)) :: u16) = unat n"
    using l by (simp add: unat_of_nat del: of_nat_add)
  then have "(of_nat (length (ip_payload p1)) + of_nat (length (ip_payload p2)) :: u16) = n"
    unfolding of_nat_add word_unat_eq_iff .
  then have c: "is_complete (pk1\<lparr>fragments := [?f1, ?f2]\<rparr>)" by (simp add: is_complete_def pk1_def data)
  have bad: "copy_range ?o2 (?o2 + length (ip_payload p2)) (ip_payload p2) buf = None"
    if "length buf = ?o1 + length (ip_payload p1)" for buf
  proof -
    have "\<not> ?o2 + length (ip_payload p2) \<le> length buf" unfolding that using assms(10,12) by linarith
    then show ?thesis by (simp only: copy_range_def simp_thms if_False)
  qed
  have "frag_offset ?f1 \<le> frag_offset ?f2" using assms(12) by (simp add: word_le_nat_alt o)
  then have "assemble (pk1\<lparr>fragments := [?f1, ?f2]\<rparr>) = None"
    using c bad by (auto simp: assemble_def pk1_def data o n bind_eq_None_conv Let_def copy_range_def
        split: if_splits)
  then have "add_fragment now src dst p2 r' = None"
    unfolding add_fragment_def t Let_def assms(3) k using assms(2) by (simp add: r'_def pk2)
  then show ?thesis using s1 by blast
qed

section \<open>Concrete packets\<close>

text \<open>A header of twenty bytes that holds the fields, and its view.\<close>

definition demo_write_header :: "ipv4_fields \<Rightarrow> bytes \<Rightarrow> bytes" where
  "demo_write_header p b = be_bytes 2 (identification p) @ [flags p] @ be_bytes 2 (fragment_offset p) @
     be_bytes 4 (ip_source p) @ be_bytes 4 (ip_destination p) @ [next_protocol p] @ replicate 6 0"

definition demo_view :: "bytes \<Rightarrow> ipv4_fields option" where
  "demo_view bs = (if length bs < 20 then None else Some
     \<lparr>identification = of_le (rev (take 2 bs)), flags = bs ! 2, fragment_offset = of_le (rev (take 2 (drop 3 bs))),
      total_len = of_nat (length bs), header_length = 5, ip_source = of_le (rev (take 4 (drop 5 bs))),
      ip_destination = of_le (rev (take 4 (drop 9 bs))), next_protocol = bs ! 13, ip_payload = drop 20 bs\<rparr>)"

lemma demo_view_ok: "view_ok demo_view demo_write_header"
proof -
  have "demo_view (demo_write_header p b @ ip_payload p) = Some p"
    if "header_length p = 5" "total_len p = of_nat (length (ip_payload p) + 20)" for p b
    using that
    by (cases p) (simp add: demo_view_def demo_write_header_def be_bytes_def codec_simps nth_append add.commute)
  moreover have "length (demo_write_header p b) = 20" for p b
    by (simp add: demo_write_header_def be_bytes_def)
  ultimately show ?thesis by (simp add: view_ok_def)
qed

definition demo_cb :: "bytes \<Rightarrow> unit option" where
  "demo_cb b = None"

definition demo_compose :: ComposeIpv4PacketArgs where
  "demo_compose = \<lparr>src_v4 = 1, dst_v4 = 2, c_next_protocol = 17, c_payload_len = 20, payload_mtu = 8, ip_id = 7\<rparr>"

theorem compose_reassemble_witness:
  "\<exists>pkts fs. compose_ipv4_packet demo_write_header demo_cb demo_compose (replicate 20 0 @ map of_nat [1..<21]) = Some (pkts, None) \<and>
    map demo_view pkts = map Some fs \<and>
    add_fragments 0 1 2 (map ((!) fs) (rev [0..<length fs])) (reassembler_new 5) =
      Some (replicate (length fs - 1) None @ [Some (map of_nat [1..<21])], reassembler_new 5)"
proof -
  let ?buf = "replicate 20 0 @ map of_nat [1..<21] :: bytes"
  obtain pkts fs where "compose_ipv4_packet demo_write_header demo_cb demo_compose ?buf = Some (pkts, None)" "map demo_view pkts = map Some fs"
      "\<forall>is. distinct is \<and> set is = {..<length fs} \<longrightarrow> add_fragments 0 1 2 (map ((!) fs) is) (reassembler_new 5) =
         Some (replicate (length fs - 1) None @ [Some (drop 20 ?buf)], reassembler_new 5)"
    using compose_reassemble [of demo_cb, OF _ demo_view_ok, of demo_compose ?buf "reassembler_new 5" 1 2 0]
    by (auto simp: demo_compose_def demo_cb_def reassembler_new_def)
  moreover have "distinct (rev [0..<length fs]) \<and> set (rev [0..<length fs]) = {..<length fs}" by auto
  ultimately show ?thesis by fastforce
qed

definition demo_frag :: "u8 \<Rightarrow> u16 \<Rightarrow> bytes \<Rightarrow> ipv4_fields" where
  "demo_frag fl ofs pl = \<lparr>identification = 7, flags = fl, fragment_offset = ofs, total_len = of_nat (length pl + 20),
     header_length = 5, ip_source = 1, ip_destination = 2, next_protocol = 17, ip_payload = pl\<rparr>"

theorem forged_fragment_panics_witness:
  "\<exists>r'. add_fragment 0 1 2 (demo_frag 0 1 [1]) (reassembler_new 5) = Some (None, r') \<and>
     add_fragment 0 1 2 (demo_frag 1 20 [1, 2, 3, 4, 5, 6, 7, 8]) r' = None"
  by (rule forged_fragment_panics)
    (simp_all add: demo_frag_def is_last_fragment_def MoreFragments_def reassembler_new_def)

end
