(* ===== verification/Graph_Algo.thy ===== *)
theory Graph_Algo
  imports Prelude "HOL-Library.Multiset"
begin

text \<open>
  \<open>peers/graph_algo.rs\<close>: Dijkstra's algorithm with the first hop and the length of each path, which
  computes the routing tables. The graph is given by the edges that leave a node, the target and the
  cost of an edge. \<open>BinaryHeap\<close> is the list of its elements with its \<open>pop\<close> as a parameter: which of
  several greatest elements it returns is left open (interface \<open>max_queue\<close>). The result of the search is
  related to the walks of the graph: it returns, without panic, the least cost of every reachable
  node, with the first hop and the number of hops of a walk of that cost.
\<close>

section \<open>The heap\<close>

datatype Ordering = Less | Equal | Greater

text \<open>\<open>MinScored\<close>: compares in reverse order by the score; \<open>eq\<close> and \<open>lt\<close> are \<open>PartialOrd\<close> of the score.\<close>

definition MinScored_cmp :: "('k \<Rightarrow> 'k \<Rightarrow> bool) \<Rightarrow> ('k \<Rightarrow> 'k \<Rightarrow> bool) \<Rightarrow> 'k \<times> 't \<Rightarrow> 'k \<times> 't \<Rightarrow> Ordering" where
  "MinScored_cmp eq lt x y =
     (let a = fst x; b = fst y in
      if eq a b then Equal
      else if lt a b then Greater
      else if lt b a then Less
      else if \<not> eq a a \<and> \<not> eq b b then Equal
      else if \<not> eq a a then Less
      else Greater)"

abbreviation min_scored :: "'k::linorder \<times> 't \<Rightarrow> 'k \<times> 't \<Rightarrow> Ordering" where
  "min_scored \<equiv> MinScored_cmp (=) (<)"

lemma min_scored_Greater: "min_scored x y = Greater \<longleftrightarrow> fst x < fst y"
  by (auto simp: MinScored_cmp_def Let_def)

locale max_queue =
  fixes cmp :: "'a \<Rightarrow> 'a \<Rightarrow> Ordering" and pop :: "'a list \<Rightarrow> ('a \<times> 'a list) option"
  assumes pop_None: "pop h = None \<longleftrightarrow> h = []"
    and pop_mset: "pop h = Some (x, h') \<Longrightarrow> mset h = add_mset x (mset h')"
    and pop_greatest: "pop h = Some (x, h') \<Longrightarrow> y \<in> set h \<Longrightarrow> cmp y x \<noteq> Greater"
begin

lemma pop_set: "pop h = Some (x, h') \<Longrightarrow> set h = insert x (set h')"
  using pop_mset [of h x h'] by (metis set_mset_add_mset_insert set_mset_mset)

lemma pop_length: "pop h = Some (x, h') \<Longrightarrow> length h = Suc (length h')"
  using pop_mset [of h x h'] by (metis size_add_mset size_mset)

end

text \<open>A concrete \<open>pop\<close>: the first element of least score.\<close>

fun pop_min :: "('k::linorder \<times> 't) list \<Rightarrow> (('k \<times> 't) \<times> ('k \<times> 't) list) option" where
  "pop_min [] = None"
| "pop_min (x # xs) = (case pop_min xs of None \<Rightarrow> Some (x, [])
     | Some (y, ys) \<Rightarrow> if fst y < fst x then Some (y, x # ys) else Some (x, xs))"

lemma pop_min_None: "pop_min h = None \<longleftrightarrow> h = []"
  by (cases h) (auto split: option.splits)

lemma pop_min_Some: "pop_min h = Some (x, h') \<Longrightarrow> mset h = add_mset x (mset h') \<and> (\<forall>y\<in>set h. fst x \<le> fst y)"
proof (induction h arbitrary: x h')
  case (Cons z zs)
  then show ?case
    by (cases "pop_min zs") (fastforce simp: pop_min_None split: if_splits prod.splits)+
qed simp

interpretation binary_heap: max_queue min_scored pop_min
  by unfold_locales (use pop_min_None pop_min_Some in \<open>force simp: min_scored_Greater\<close>)+

section \<open>The search\<close>

record ('n, 'k) search =
  scores :: "'n \<rightharpoonup> 'k"
  first_hop :: "'n \<rightharpoonup> 'n \<times> nat"
  visit_next :: "('k \<times> 'n) list"

text \<open>A new best score of \<open>next\<close>, reached through \<open>node\<close>; \<open>first_hop[&node]\<close> panics where it is missing.\<close>

definition set_route :: "'n \<Rightarrow> 'n \<Rightarrow> 'n \<Rightarrow> 'k \<Rightarrow> ('n, 'k) search \<Rightarrow> ('n, 'k) search may_panic" where
  "set_route start node next next_score st = do {
     hop \<leftarrow> (if node = start then Some (next, 0) else first_hop st node);
     Some (st\<lparr>scores := (scores st)(next \<mapsto> next_score),
              visit_next := (next_score, next) # visit_next st,
              first_hop := (first_hop st)(next \<mapsto> (fst hop, snd hop + 1))\<rparr>) }"

fun relax_edges :: "('e \<Rightarrow> 'n) \<Rightarrow> ('e \<Rightarrow> 'k::{linorder,plus}) \<Rightarrow> 'n \<Rightarrow> 'n set \<Rightarrow> 'k \<Rightarrow> 'n \<Rightarrow> 'e list
    \<Rightarrow> ('n, 'k) search \<Rightarrow> ('n, 'k) search may_panic" where
  "relax_edges target edge_cost start visited node_score node [] st = Some st"
| "relax_edges target edge_cost start visited node_score node (edge # es) st = do {
     let next = target edge;
     st \<leftarrow> (if next \<in> visited then Some st
           else let next_score = node_score + edge_cost edge in
             case scores st next of
               Some old \<Rightarrow> if next_score < old then set_route start node next next_score st else Some st
             | None \<Rightarrow> set_route start node next next_score st);
     relax_edges target edge_cost start visited node_score node es st }"

partial_function (option) search_loop :: "(('k::{linorder,plus} \<times> 'n) list \<Rightarrow> (('k \<times> 'n) \<times> ('k \<times> 'n) list) option)
    \<Rightarrow> ('n \<Rightarrow> 'e list) \<Rightarrow> ('e \<Rightarrow> 'n) \<Rightarrow> ('e \<Rightarrow> 'k) \<Rightarrow> 'n \<Rightarrow> 'n set \<Rightarrow> ('n, 'k) search \<Rightarrow> ('n, 'k) search option" where
  "search_loop pop edges target edge_cost start visited st =
     (case pop (visit_next st) of
        None \<Rightarrow> Some st
      | Some ((node_score, node), heap) \<Rightarrow>
          if node \<in> visited then search_loop pop edges target edge_cost start visited (st\<lparr>visit_next := heap\<rparr>)
          else do {
            st \<leftarrow> relax_edges target edge_cost start visited node_score node (edges node) (st\<lparr>visit_next := heap\<rparr>);
            search_loop pop edges target edge_cost start (insert node visited) st })"

definition dijkstra_with_first_hop :: "(('k::{linorder,plus,zero} \<times> 'n) list \<Rightarrow> (('k \<times> 'n) \<times> ('k \<times> 'n) list) option)
    \<Rightarrow> ('n \<Rightarrow> 'e list) \<Rightarrow> ('e \<Rightarrow> 'n) \<Rightarrow> ('e \<Rightarrow> 'k) \<Rightarrow> 'n \<Rightarrow> (('n \<rightharpoonup> 'k) \<times> ('n \<rightharpoonup> 'n \<times> nat)) option" where
  "dijkstra_with_first_hop pop edges target edge_cost start = do {
     st \<leftarrow> search_loop pop edges target edge_cost start {}
       \<lparr>scores = [start \<mapsto> 0], first_hop = [start \<mapsto> (start, 0)], visit_next = [(0, start)]\<rparr>;
     Some (scores st, first_hop st) }"

section \<open>Walks\<close>

text \<open>A walk from \<open>s\<close> with its end, its cost, its number of edges and its first hop.\<close>

inductive walk :: "('n \<Rightarrow> 'e list) \<Rightarrow> ('e \<Rightarrow> 'n) \<Rightarrow> ('e \<Rightarrow> nat) \<Rightarrow> 'n \<Rightarrow> 'n \<Rightarrow> nat \<Rightarrow> nat \<Rightarrow> 'n \<Rightarrow> bool"
  for edges target cost s where
  walk_start: "walk edges target cost s s 0 0 s"
| walk_step: "walk edges target cost s u c h f \<Longrightarrow> e \<in> set (edges u) \<Longrightarrow>
    walk edges target cost s (target e) (c + cost e) (Suc h) (if h = 0 then target e else f)"

lemma walk_0: "walk edges target cost s u c 0 f \<Longrightarrow> u = s \<and> c = 0 \<and> f = s"
  by (auto elim: walk.cases)

text \<open>
  A finite part \<open>N\<close> of the graph that no edge leaves, in which no sum of edge costs along a path
  without repetition wraps.
\<close>

definition graph_ok :: "('n \<Rightarrow> 'e list) \<Rightarrow> ('e \<Rightarrow> 'n) \<Rightarrow> ('e \<Rightarrow> u64) \<Rightarrow> 'n set \<Rightarrow> nat \<Rightarrow> bool" where
  "graph_ok edges target edge_cost N C \<longleftrightarrow> finite N \<and> card N * C < 2 ^ 64 \<and>
     (\<forall>u\<in>N. \<forall>e\<in>set (edges u). target e \<in> N \<and> unat (edge_cost e) \<le> C)"

lemma graph_ok_edge:
  "graph_ok edges target edge_cost N C \<Longrightarrow> u \<in> N \<Longrightarrow> e \<in> set (edges u) \<Longrightarrow> target e \<in> N \<and> unat (edge_cost e) \<le> C"
  by (auto simp: graph_ok_def)

lemma walk_bound:
  assumes "graph_ok edges target edge_cost N C" and "s \<in> N"
  shows "walk edges target (\<lambda>e. unat (edge_cost e)) s v c h f \<Longrightarrow> v \<in> N \<and> c \<le> h * C"
proof (induction rule: walk.induct)
  case (walk_step u c h f e)
  then show ?case using graph_ok_edge [OF assms(1), of u e] by auto
qed (use assms in simp)

section \<open>Correctness of the search\<close>

text \<open>Every score is the cost of a walk with the recorded first hop and at most \<open>k\<close> edges.\<close>

definition labels_ok :: "('n \<Rightarrow> 'e list) \<Rightarrow> ('e \<Rightarrow> 'n) \<Rightarrow> ('e \<Rightarrow> u64) \<Rightarrow> 'n \<Rightarrow> nat \<Rightarrow> ('n, u64) search \<Rightarrow> bool" where
  "labels_ok edges target edge_cost s k st \<longleftrightarrow> scores st s = Some 0 \<and> first_hop st s = Some (s, 0) \<and>
     (\<forall>v d. scores st v = Some d \<longrightarrow> (\<exists>f h. first_hop st v = Some (f, h) \<and> h \<le> k \<and>
        walk edges target (\<lambda>e. unat (edge_cost e)) s v (unat d) h f)) \<and>
     (\<forall>v. scores st v = None \<longrightarrow> first_hop st v = None)"

text \<open>The heap holds no score below the recorded one, and the recorded score of every node outside \<open>X\<close>.\<close>

definition queued :: "'n set \<Rightarrow> ('n, 'k::linorder) search \<Rightarrow> bool" where
  "queued X st \<longleftrightarrow> (\<forall>(d, v)\<in>set (visit_next st). \<exists>d'. scores st v = Some d' \<and> d' \<le> d) \<and>
     (\<forall>v d. v \<notin> X \<longrightarrow> scores st v = Some d \<longrightarrow> (d, v) \<in> set (visit_next st))"

text \<open>What relaxing the edges of \<open>node\<close> changes: scores outside \<open>X\<close> become better, those in \<open>X\<close> stay.\<close>

definition improves :: "'n set \<Rightarrow> ('n, 'k::linorder) search \<Rightarrow> ('n, 'k) search \<Rightarrow> bool" where
  "improves X st st' \<longleftrightarrow> (\<forall>v\<in>X. scores st' v = scores st v \<and> first_hop st' v = first_hop st v) \<and>
     (\<forall>v d. scores st v = Some d \<longrightarrow> (\<exists>d'. scores st' v = Some d' \<and> d' \<le> d))"

lemma improves_refl: "improves X st st"
  by (simp add: improves_def)

lemma improves_trans: "improves X st st1 \<Longrightarrow> improves X st1 st2 \<Longrightarrow> improves X st st2"
  by (auto simp: improves_def) (meson order_trans)

text \<open>\<open>node\<close> is settled with score \<open>d\<close> while its edges are relaxed; \<open>k\<close> bounds its number of hops.\<close>

definition relaxing :: "('n \<Rightarrow> 'e list) \<Rightarrow> ('e \<Rightarrow> 'n) \<Rightarrow> ('e \<Rightarrow> u64) \<Rightarrow> 'n \<Rightarrow> nat \<Rightarrow> 'n set \<Rightarrow> u64 \<Rightarrow> 'n
    \<Rightarrow> ('n, u64) search \<Rightarrow> bool" where
  "relaxing edges target edge_cost s k visited d node st \<longleftrightarrow> labels_ok edges target edge_cost s (Suc k) st \<and>
     queued (insert node visited) st \<and> scores st node = Some d \<and>
     (\<exists>f h. first_hop st node = Some (f, h) \<and> h \<le> k)"

lemma set_route_relaxing:
  assumes R: "relaxing edges target edge_cost s k visited d node st" and e: "e \<in> set (edges node)"
    and fresh: "target e \<notin> visited" and nn: "target e \<noteq> node" "target e \<noteq> s"
    and ns: "unat ns = unat d + unat (edge_cost e)" "\<forall>old. scores st (target e) = Some old \<longrightarrow> ns < old"
  shows "\<exists>st'. set_route s node (target e) ns st = Some st' \<and>
    relaxing edges target edge_cost s k visited d node st' \<and> improves (insert node visited) st st' \<and>
    scores st' (target e) = Some ns"
proof -
  let ?w = "walk edges target (\<lambda>e. unat (edge_cost e)) s"
  obtain f h where fh: "first_hop st node = Some (f, h)" "h \<le> k" "?w node (unat d) h f"
    using R unfolding relaxing_def labels_ok_def by fastforce
  define hop where "hop = (if node = s then (target e, 0) else (f, h))"
  define st' where "st' = st\<lparr>scores := (scores st)(target e \<mapsto> ns), visit_next := (ns, target e) # visit_next st,
     first_hop := (first_hop st)(target e \<mapsto> (fst hop, snd hop + 1))\<rparr>"
  have eq: "set_route s node (target e) ns st = Some st'"
    by (simp add: set_route_def st'_def hop_def fh(1))
  have h0: "h = 0" if "node = s" using R that fh(1) by (simp add: relaxing_def labels_ok_def)
  have hs: "h \<noteq> 0" if "node \<noteq> s" using that fh(3) walk_0 [of edges target _ s node] by (cases h) auto
  have W: "?w (target e) (unat ns) (snd hop + 1) (fst hop)"
    using walk_step [OF fh(3) e] h0 hs ns(1) by (auto simp: hop_def split: if_splits)
  have hk: "snd hop + 1 \<le> Suc k" using fh(2) by (simp add: hop_def)
  have "labels_ok edges target edge_cost s (Suc k) st'"
    using R W hk nn unfolding relaxing_def labels_ok_def st'_def by auto
  moreover have "queued (insert node visited) st'"
  proof -
    have q: "queued (insert node visited) st" using R by (simp add: relaxing_def)
    have "\<exists>d'. scores st' v = Some d' \<and> d' \<le> x" if heap: "(x, v) \<in> set (visit_next st')" for x v
    proof (cases "(x, v) = (ns, target e)")
      case False
      then have "(x, v) \<in> set (visit_next st)" using heap by (auto simp: st'_def)
      then obtain d' where "scores st v = Some d'" "d' \<le> x" using q by (auto simp: queued_def)
      then show ?thesis using ns(2) by (auto simp: st'_def)
    qed (simp add: st'_def)
    moreover have "(x, v) \<in> set (visit_next st')" if "v \<notin> insert node visited" "scores st' v = Some x" for x v
      using q that by (auto simp: queued_def st'_def split: if_splits)
    ultimately show ?thesis by (auto simp: queued_def)
  qed
  moreover have "scores st' node = Some d" "\<exists>f h. first_hop st' node = Some (f, h) \<and> h \<le> k"
    using R nn(1) by (simp_all add: relaxing_def st'_def)
  moreover have "improves (insert node visited) st st'"
    using ns(2) fresh nn(1) by (auto simp: improves_def st'_def)
  ultimately show ?thesis using eq by (auto simp: relaxing_def st'_def)
qed

text \<open>
  With the sum of a settled score and an edge cost below \<open>2 ^ 64\<close>, relaxing succeeds and leaves every target
  with a score that is at most that sum.
\<close>

lemma relax_edges_correct:
  assumes "set es \<subseteq> set (edges node)" and "\<forall>e\<in>set es. unat d + unat (edge_cost e) < 2 ^ 64" and "s \<in> insert node visited"
  shows "relaxing edges target edge_cost s k visited d node st \<Longrightarrow>
    \<exists>st'. relax_edges target edge_cost s visited d node es st = Some st' \<and>
      relaxing edges target edge_cost s k visited d node st' \<and> improves (insert node visited) st st' \<and>
      (\<forall>e\<in>set es. target e \<notin> visited \<longrightarrow>
        (\<exists>d'. scores st' (target e) = Some d' \<and> unat d' \<le> unat d + unat (edge_cost e)))"
  using assms
proof (induction es arbitrary: st)
  case Nil
  then show ?case by (simp add: improves_refl)
next
  case (Cons e es)
  let ?X = "insert node visited" and ?n = "target e" and ?ns = "d + edge_cost e"
  let ?R = "relaxing edges target edge_cost s k visited d node"
  have ns: "unat ?ns = unat d + unat (edge_cost e)"
    using Cons.prems(3) by (simp add: unat_word_ariths)
  have "\<exists>st1. (if ?n \<in> visited then Some st else case scores st ?n of
       Some old \<Rightarrow> if ?ns < old then set_route s node ?n ?ns st else Some st
     | None \<Rightarrow> set_route s node ?n ?ns st) = Some st1 \<and> ?R st1 \<and> improves ?X st st1 \<and>
     (?n \<notin> visited \<longrightarrow> (\<exists>d'. scores st1 ?n = Some d' \<and> d' \<le> ?ns))"
  proof (cases "?n \<in> visited \<or> (\<exists>old. scores st ?n = Some old \<and> \<not> ?ns < old)")
    case True
    then show ?thesis using Cons.prems(1) improves_refl by (auto simp: not_less)
  next
    case False
    then have better: "?n \<notin> visited" "\<forall>old. scores st ?n = Some old \<longrightarrow> ?ns < old" by auto
    have "d \<le> ?ns" using ns by (simp add: word_le_nat_alt)
    then have "?n \<noteq> node" using better(2) Cons.prems(1) by (auto simp: relaxing_def)
    moreover have "?n \<noteq> s" using better(1) Cons.prems(4) \<open>?n \<noteq> node\<close> by auto
    moreover have "e \<in> set (edges node)" using Cons.prems(2) by simp
    ultimately obtain st' where "set_route s node ?n ?ns st = Some st'" "?R st'" "improves ?X st st'" "scores st' ?n = Some ?ns"
      using set_route_relaxing [OF Cons.prems(1) _ better(1) _ _ ns better(2)] by blast
    then show ?thesis using better by (cases "scores st ?n") auto
  qed
  then obtain st1 where step: "(if ?n \<in> visited then Some st else case scores st ?n of
       Some old \<Rightarrow> if ?ns < old then set_route s node ?n ?ns st else Some st
     | None \<Rightarrow> set_route s node ?n ?ns st) = Some st1" and st1: "?R st1" "improves ?X st st1"
      "?n \<notin> visited \<longrightarrow> (\<exists>d'. scores st1 ?n = Some d' \<and> d' \<le> ?ns)"
    by blast
  have eq: "relax_edges target edge_cost s visited d node (e # es) st = relax_edges target edge_cost s visited d node es st1"
    by (simp only: relax_edges.simps Let_def step Option.bind.simps)
  obtain st' where st': "relax_edges target edge_cost s visited d node es st1 = Some st'" "?R st'" "improves ?X st1 st'"
      "\<forall>e\<in>set es. target e \<notin> visited \<longrightarrow>
        (\<exists>d'. scores st' (target e) = Some d' \<and> unat d' \<le> unat d + unat (edge_cost e))"
    using Cons.IH [OF st1(1)] Cons.prems by auto
  have "\<exists>d'. scores st' ?n = Some d' \<and> unat d' \<le> unat d + unat (edge_cost e)" if n: "?n \<notin> visited"
  proof -
    obtain d1 where d1: "scores st1 ?n = Some d1" "d1 \<le> ?ns" using st1(3) n by auto
    then obtain d2 where "scores st' ?n = Some d2" "d2 \<le> d1" using st'(3) unfolding improves_def by blast
    then show ?thesis using d1(2) ns by (auto simp: word_le_nat_alt)
  qed
  then show ?case using st' eq improves_trans [OF st1(2) st'(3)] by auto
qed

text \<open>
  The invariant of the loop: a visited node has its least cost, and each of its edges gives its target a
  score that is no worse.
\<close>

definition search_inv :: "('n \<Rightarrow> 'e list) \<Rightarrow> ('e \<Rightarrow> 'n) \<Rightarrow> ('e \<Rightarrow> u64) \<Rightarrow> 'n \<Rightarrow> 'n set \<Rightarrow> 'n set \<Rightarrow> ('n, u64) search \<Rightarrow> bool" where
  "search_inv edges target edge_cost s N visited st \<longleftrightarrow>
     labels_ok edges target edge_cost s (card visited) st \<and> queued visited st \<and> visited \<subseteq> N \<and>
     (s \<notin> visited \<longrightarrow> dom (scores st) = {s}) \<and>
     (\<forall>u\<in>visited. \<exists>d. scores st u = Some d \<and>
        (\<forall>c h f. walk edges target (\<lambda>e. unat (edge_cost e)) s u c h f \<longrightarrow> unat d \<le> c) \<and>
        (\<forall>e\<in>set (edges u). \<exists>d'. scores st (target e) = Some d' \<and> unat d' \<le> unat d + unat (edge_cost e)))"

lemma search_inv_visited:
  "search_inv edges target edge_cost s N visited st \<Longrightarrow> u \<in> visited \<Longrightarrow> \<exists>d. scores st u = Some d \<and>
     (\<forall>c h f. walk edges target (\<lambda>e. unat (edge_cost e)) s u c h f \<longrightarrow> unat d \<le> c) \<and>
     (\<forall>e\<in>set (edges u). \<exists>d'. scores st (target e) = Some d' \<and> unat d' \<le> unat d + unat (edge_cost e))"
  unfolding search_inv_def by blast

text \<open>A walk that leaves the visited nodes passes an unvisited node whose score is at most the walk's cost.\<close>

lemma frontier:
  assumes I: "search_inv edges target edge_cost s N visited st"
  shows "walk edges target (\<lambda>e. unat (edge_cost e)) s v c h f \<Longrightarrow>
    v \<in> visited \<or> (\<exists>y d. y \<notin> visited \<and> scores st y = Some d \<and> unat d \<le> c)"
proof (induction rule: walk.induct)
  case walk_start
  have "scores st s = Some 0" using I by (simp add: search_inv_def labels_ok_def)
  then show ?case by force
next
  case (walk_step u c h f e)
  show ?case
  proof (cases "u \<in> visited")
    case True
    then obtain d where d: "unat (d :: u64) \<le> c"
        "\<forall>e\<in>set (edges u). \<exists>d'. scores st (target e) = Some d' \<and> unat d' \<le> unat d + unat (edge_cost e)"
      using search_inv_visited [OF I True] walk_step.hyps(1) by blast
    then obtain d' where "scores st (target e) = Some d'" "unat d' \<le> unat d + unat (edge_cost e)"
      using walk_step.hyps(2) by blast
    with d(1) have "scores st (target e) = Some d' \<and> unat d' \<le> c + unat (edge_cost e)" by simp
    then show ?thesis by blast
  next
    case False
    then obtain y d where "y \<notin> visited" "scores st y = Some d" "unat d \<le> c" using walk_step.IH by blast
    then show ?thesis by (meson trans_le_add1)
  qed
qed

lemma labels_ok_mono: "labels_ok edges target edge_cost s k st \<Longrightarrow> k \<le> k' \<Longrightarrow> labels_ok edges target edge_cost s k' st"
  unfolding labels_ok_def by (meson order_trans)

lemma labels_ok_heap: "labels_ok edges target edge_cost s k (st\<lparr>visit_next := h\<rparr>) = labels_ok edges target edge_cost s k st"
  by (simp add: labels_ok_def)

text \<open>The heap of the search: the greatest element is one of least score.\<close>

locale score_queue = max_queue min_scored pop
  for pop :: "(u64 \<times> 'n) list \<Rightarrow> ((u64 \<times> 'n) \<times> (u64 \<times> 'n) list) option"
begin

lemma pop_least: "pop h = Some (x, h') \<Longrightarrow> y \<in> set h \<Longrightarrow> fst x \<le> fst y"
  using pop_greatest [of h x h' y] by (simp add: min_scored_Greater not_less)

text \<open>A popped node that is not visited yet comes with its recorded score, and that is its least cost.\<close>

lemma popped_recorded:
  assumes "queued visited st" and "pop (visit_next st) = Some ((d, u), heap)" and "u \<notin> visited"
  shows "scores st u = Some d"
proof -
  obtain d' where d': "scores st u = Some d'" "d' \<le> d"
    using assms(1) pop_set [OF assms(2)] by (auto simp: queued_def)
  then have "(d', u) \<in> set (visit_next st)" using assms(1,3) by (simp add: queued_def)
  then have "d \<le> d'" using pop_least [OF assms(2)] by fastforce
  with d' show ?thesis by simp
qed

lemma popped_least_cost:
  assumes I: "search_inv edges target edge_cost s N visited st" and p: "pop (visit_next st) = Some ((d, u), heap)"
    and u: "u \<notin> visited" and W: "walk edges target (\<lambda>e. unat (edge_cost e)) s u c h f"
  shows "unat d \<le> c"
proof -
  obtain y d' where y: "y \<notin> visited" "scores st y = Some d'" "unat d' \<le> c" using frontier [OF I W] u by blast
  then have "(d', y) \<in> set (visit_next st)" using I by (simp add: search_inv_def queued_def)
  then have "d \<le> d'" using pop_least [OF p] by fastforce
  then show ?thesis using y(3) by (simp add: word_le_nat_alt)
qed

lemma skip_visited:
  assumes I: "search_inv edges target edge_cost s N visited st" and p: "pop (visit_next st) = Some ((d, u), heap)"
    and u: "u \<in> visited"
  shows "search_inv edges target edge_cost s N visited (st\<lparr>visit_next := heap\<rparr>)"
proof -
  have "queued visited (st\<lparr>visit_next := heap\<rparr>)"
    using I u pop_set [OF p] by (auto simp: search_inv_def queued_def)
  then show ?thesis using I by (simp add: search_inv_def labels_ok_heap)
qed

lemma visit_step:
  assumes G: "graph_ok edges target edge_cost N C" and s: "s \<in> N"
    and I: "search_inv edges target edge_cost s N visited st" and p: "pop (visit_next st) = Some ((d, u), heap)"
    and u: "u \<notin> visited"
  shows "\<exists>st'. relax_edges target edge_cost s visited d u (edges u) (st\<lparr>visit_next := heap\<rparr>) = Some st' \<and>
    search_inv edges target edge_cost s N (insert u visited) st'"
proof -
  let ?w = "walk edges target (\<lambda>e. unat (edge_cost e)) s" and ?st = "st\<lparr>visit_next := heap\<rparr>" and ?k = "card visited"
  have fin: "finite visited" "visited \<subseteq> N" using G I finite_subset by (auto simp: graph_ok_def search_inv_def)
  have L: "labels_ok edges target edge_cost s ?k st" and Q: "queued visited st" using I by (simp_all add: search_inv_def)
  have du: "scores st u = Some d" using popped_recorded [OF Q p u] .
  then obtain f h where fh: "first_hop st u = Some (f, h)" "h \<le> ?k" "?w u (unat d) h f"
    using L unfolding labels_ok_def by blast
  have uN: "u \<in> N" "unat d \<le> h * C" using walk_bound [OF G s fh(3)] by auto
  have "Suc ?k \<le> card N" using card_mono [of N "insert u visited"] fin uN u G by (simp add: graph_ok_def)
  then have kC: "Suc ?k * C < 2 ^ 64" using G mult_le_mono1 [of "Suc ?k" "card N" C] by (simp add: graph_ok_def)
  have fits: "unat d + unat (edge_cost e) < 2 ^ 64" if "e \<in> set (edges u)" for e
  proof -
    have "unat d + unat (edge_cost e) \<le> h * C + C" using graph_ok_edge [OF G uN(1) that] uN(2) by linarith
    also have "\<dots> \<le> Suc ?k * C" using fh(2) by simp
    finally show ?thesis using kC by linarith
  qed
  have su: "s \<in> insert u visited" using I du by (auto simp: search_inv_def)
  have "queued (insert u visited) ?st" using Q pop_set [OF p] by (auto simp: queued_def)
  then have "relaxing edges target edge_cost s ?k visited d u ?st"
    using labels_ok_mono [OF L, of "Suc ?k"] du fh(1,2) by (simp add: relaxing_def labels_ok_heap)
  from relax_edges_correct [OF _ _ su this, of "edges u"] fits
  obtain st' where st': "relax_edges target edge_cost s visited d u (edges u) ?st = Some st'"
      "relaxing edges target edge_cost s ?k visited d u st'" "improves (insert u visited) ?st st'"
      "\<forall>e\<in>set (edges u). target e \<notin> visited \<longrightarrow>
        (\<exists>d'. scores st' (target e) = Some d' \<and> unat d' \<le> unat d + unat (edge_cost e))"
    by auto
  have keep: "\<exists>x'. scores st' v = Some x' \<and> unat x' \<le> unat x" if "scores st v = Some x" for v x
    using st'(3) that by (auto simp: improves_def word_le_nat_alt)
  have least_u: "unat d \<le> c" if "?w u c h f" for c h f using popped_least_cost [OF I p u that] .
  have "\<exists>x. scores st' v = Some x \<and> (\<forall>c h f. ?w v c h f \<longrightarrow> unat x \<le> c) \<and>
      (\<forall>e\<in>set (edges v). \<exists>d'. scores st' (target e) = Some d' \<and> unat d' \<le> unat x + unat (edge_cost e))"
    if v: "v \<in> insert u visited" for v
  proof (cases "v = u")
    case True
    have "\<exists>d'. scores st' (target e) = Some d' \<and> unat d' \<le> unat d + unat (edge_cost e)" if e: "e \<in> set (edges u)" for e
    proof (cases "target e \<in> visited")
      case vis: True
      then obtain x where "scores st (target e) = Some x" "unat x \<le> unat d + unat (edge_cost e)"
        using search_inv_visited [OF I vis] walk_step [OF fh(3) e] by blast
      then show ?thesis using keep by fastforce
    qed (use st'(4) e in blast)
    then show ?thesis using True st'(2) least_u by (auto simp: relaxing_def)
  next
    case False
    then have vis: "v \<in> visited" using v by simp
    obtain x where x: "scores st v = Some x" "\<forall>c h f. ?w v c h f \<longrightarrow> unat x \<le> c"
        "\<forall>e\<in>set (edges v). \<exists>d'. scores st (target e) = Some d' \<and> unat d' \<le> unat x + unat (edge_cost e)"
      using search_inv_visited [OF I vis] by blast
    have "scores st' v = Some x" using st'(3) vis x(1) by (simp add: improves_def)
    moreover have "\<exists>d'. scores st' (target e) = Some d' \<and> unat d' \<le> unat x + unat (edge_cost e)" if "e \<in> set (edges v)" for e
      using x(3) that keep by (meson order_trans)
    ultimately show ?thesis using x(2) by blast
  qed
  moreover have "labels_ok edges target edge_cost s (card (insert u visited)) st'" "queued (insert u visited) st'"
    using st'(2) fin u by (simp_all add: relaxing_def)
  ultimately show ?thesis using st'(1) su fin uN by (auto simp: search_inv_def)
qed

text \<open>The loop returns: each round visits a node or shortens the heap.\<close>

lemma search_loop_correct:
  assumes G: "graph_ok edges target edge_cost N C" and s: "s \<in> N"
  shows "search_inv edges target edge_cost s N visited st \<Longrightarrow>
    \<exists>st' visited'. search_loop pop edges target edge_cost s visited st = Some st' \<and>
      search_inv edges target edge_cost s N visited' st' \<and> visit_next st' = []"
proof (induction "(card (N - visited), length (visit_next st))" arbitrary: visited st
    rule: wf_induct_rule [OF wf_lex_prod [OF wf_less_than wf_less_than]])
  case (1 visited st)
  show ?case
  proof (cases "pop (visit_next st)")
    case None
    then have "search_loop pop edges target edge_cost s visited st = Some st" by (subst search_loop.simps) simp
    moreover have "visit_next st = []" using None pop_None by simp
    ultimately show ?thesis using "1.prems" by blast
  next
    case (Some r)
    obtain d u heap where r: "r = ((d, u), heap)" by (metis prod.exhaust_sel)
    note p = Some [unfolded r]
    show ?thesis
    proof (cases "u \<in> visited")
      case True
      have "((card (N - visited), length (visit_next (st\<lparr>visit_next := heap\<rparr>))), (card (N - visited), length (visit_next st)))
          \<in> less_than <*lex*> less_than"
        using pop_length [OF p] by simp
      from "1.hyps" [OF this skip_visited [OF "1.prems" p True]] show ?thesis
        using True p by (subst search_loop.simps) simp
    next
      case False
      obtain st' where st': "relax_edges target edge_cost s visited d u (edges u) (st\<lparr>visit_next := heap\<rparr>) = Some st'"
          "search_inv edges target edge_cost s N (insert u visited) st'"
        using visit_step [OF G s "1.prems" p False] by blast
      have "u \<in> N" using st'(2) by (simp add: search_inv_def)
      then have "card (N - insert u visited) < card (N - visited)"
        using G False by (intro psubset_card_mono) (auto simp: graph_ok_def)
      then have "((card (N - insert u visited), length (visit_next st')), (card (N - visited), length (visit_next st)))
          \<in> less_than <*lex*> less_than" by simp
      from "1.hyps" [OF this st'(2)] show ?thesis
        using False p st'(1) by (subst search_loop.simps) simp
    qed
  qed
qed

lemma dijkstra_correct:
  assumes G: "graph_ok edges target edge_cost N C" and s: "s \<in> N"
  shows "\<exists>sc fh. dijkstra_with_first_hop pop edges target edge_cost s = Some (sc, fh) \<and>
    (\<forall>v. sc v = None \<longleftrightarrow> (\<nexists>c h f. walk edges target (\<lambda>e. unat (edge_cost e)) s v c h f)) \<and>
    (\<forall>v. sc v = None \<longrightarrow> fh v = None) \<and>
    (\<forall>v d. sc v = Some d \<longrightarrow> (\<exists>f h. fh v = Some (f, h) \<and> h \<le> card N \<and>
        walk edges target (\<lambda>e. unat (edge_cost e)) s v (unat d) h f) \<and>
      (\<forall>c h f. walk edges target (\<lambda>e. unat (edge_cost e)) s v c h f \<longrightarrow> unat d \<le> c))"
proof -
  let ?w = "walk edges target (\<lambda>e. unat (edge_cost e)) s"
  let ?st = "\<lparr>scores = [s \<mapsto> 0], first_hop = [s \<mapsto> (s, 0)], visit_next = [(0, s)]\<rparr> :: (_, u64) search"
  have "search_inv edges target edge_cost s N {} ?st"
    using walk_start by (auto simp: search_inv_def labels_ok_def queued_def)
  then obtain st' vis where L: "search_loop pop edges target edge_cost s {} ?st = Some st'"
      and I: "search_inv edges target edge_cost s N vis st'" and e: "visit_next st' = []"
    using search_loop_correct [OF G s] by blast
  have dv: "v \<in> vis" if "scores st' v = Some d" for v d
    using I e that by (auto simp: search_inv_def queued_def)
  have reach: "v \<in> vis" if "?w v c h f" for v c h f using frontier [OF I that] dv by blast
  have lab: "\<exists>f h. first_hop st' v = Some (f, h) \<and> h \<le> card vis \<and> ?w v (unat d) h f" if "scores st' v = Some d" for v d
    using I that by (simp add: search_inv_def labels_ok_def)
  have fin: "card vis \<le> card N" using I G by (auto simp: search_inv_def graph_ok_def intro: card_mono)
  have "scores st' v = None \<longleftrightarrow> (\<nexists>c h f. ?w v c h f)" for v
  proof
    assume "scores st' v = None"
    then show "\<nexists>c h f. ?w v c h f" using reach search_inv_visited [OF I] by fastforce
  next
    assume "\<nexists>c h f. ?w v c h f"
    then show "scores st' v = None" using lab by (cases "scores st' v") blast+
  qed
  moreover have "first_hop st' v = None" if "scores st' v = None" for v
    using I that by (simp add: search_inv_def labels_ok_def)
  moreover have "unat d \<le> c" if d: "scores st' v = Some d" and W: "?w v c h f" for v d c h f
    using search_inv_visited [OF I dv [OF d]] d W by auto
  moreover have "\<exists>f h. first_hop st' v = Some (f, h) \<and> h \<le> card N \<and> ?w v (unat d) h f" if "scores st' v = Some d" for v d
    using lab [OF that] fin by (meson order_trans)
  moreover have "dijkstra_with_first_hop pop edges target edge_cost s = Some (scores st', first_hop st')"
    by (simp add: dijkstra_with_first_hop_def L)
  ultimately show ?thesis by blast
qed

end

interpretation route_heap: score_queue pop_min
  by unfold_locales

section \<open>The search as a whole\<close>

text \<open>
  C9. On a finite graph in which no path cost wraps, and whatever the heap does with equal scores, the search
  returns without panic. A node has a score exactly when it is reachable; the score is the least cost of all
  walks to it, and the recorded first hop and path length are those of one walk of that cost.
\<close>

theorem dijkstra_least_cost:
  assumes "score_queue pop" and "graph_ok edges target edge_cost N C" and "s \<in> N"
  shows "\<exists>sc fh. dijkstra_with_first_hop pop edges target edge_cost s = Some (sc, fh) \<and>
    (\<forall>v. sc v = None \<longleftrightarrow> (\<nexists>c h f. walk edges target (\<lambda>e. unat (edge_cost e)) s v c h f)) \<and>
    (\<forall>v. sc v = None \<longrightarrow> fh v = None) \<and>
    (\<forall>v d. sc v = Some d \<longrightarrow> (\<exists>f h. fh v = Some (f, h) \<and> h \<le> card N \<and>
        walk edges target (\<lambda>e. unat (edge_cost e)) s v (unat d) h f) \<and>
      (\<forall>c h f. walk edges target (\<lambda>e. unat (edge_cost e)) s v c h f \<longrightarrow> unat d \<le> c))"
  using assms by (rule score_queue.dijkstra_correct)

text \<open>The graph of the unit test: a direct edge of cost 5 and a detour of cost 3.\<close>

definition demo_edges :: "nat \<Rightarrow> (nat \<times> u64) list" where
  "demo_edges u = (if u = 0 then [(1, 1), (2, 5)] else if u = 1 then [(2, 2)] else [])"

lemma demo_graph_ok: "graph_ok demo_edges fst snd {0, 1, 2, 3} 5"
  by (simp add: graph_ok_def demo_edges_def)

theorem dijkstra_least_cost_witness:
  "\<exists>sc fh. dijkstra_with_first_hop pop_min demo_edges fst snd 0 = Some (sc, fh) \<and> sc 3 = None \<and> fh 3 = None \<and>
     (\<exists>d f h. sc 2 = Some d \<and> unat d \<le> 3 \<and> fh 2 = Some (f, h) \<and>
        walk demo_edges fst (\<lambda>e. unat (snd e)) 0 2 (unat d) h f)"
proof -
  let ?w = "walk demo_edges fst (\<lambda>e. unat (snd e)) 0"
  obtain sc fh where sf: "dijkstra_with_first_hop pop_min demo_edges fst snd 0 = Some (sc, fh)"
      "\<forall>v. sc v = None \<longleftrightarrow> (\<nexists>c h f. ?w v c h f)" "\<forall>v. sc v = None \<longrightarrow> fh v = None"
      "\<forall>v d. sc v = Some d \<longrightarrow> (\<exists>f h. fh v = Some (f, h) \<and> h \<le> card {0, 1, 2, 3::nat} \<and> ?w v (unat d) h f) \<and>
        (\<forall>c h f. ?w v c h f \<longrightarrow> unat d \<le> c)"
    using dijkstra_least_cost [OF route_heap.score_queue_axioms demo_graph_ok, of 0] by blast
  have "?w 1 1 1 1" using walk_step [OF walk_start, of "(1, 1)" demo_edges 0 fst "\<lambda>e. unat (snd e)"]
    by (simp add: demo_edges_def)
  then have w2: "?w 2 3 (Suc (Suc 0)) 1" using walk_step [of demo_edges fst "\<lambda>e. unat (snd e)" 0 1 1 1 1 "(2, 2)"]
    by (simp add: demo_edges_def numeral_3_eq_3)
  have "v \<noteq> 3" if "?w v c h f" for v c h f
    using that by (induction rule: walk.induct) (auto simp: demo_edges_def split: if_splits)
  then have "sc 3 = None" "fh 3 = None" using sf(2,3) by blast+
  moreover obtain d where d: "sc 2 = Some d" using sf(2) w2 by (metis option.exhaust)
  moreover have "unat d \<le> 3" using sf(4) [rule_format, OF d] w2 by blast
  moreover obtain f h where "fh 2 = Some (f, h)" "?w 2 (unat d) h f" using sf(4) [rule_format, OF d] by blast
  ultimately show ?thesis using sf(1) by auto
qed

end
