(* ===== verification/Route_Info.thy ===== *)
theory Route_Info
  imports Prelude
begin

text \<open>
  \<open>peers/peer_ospf_route.rs\<close>, first part: what a node knows of the network. \<open>SyncedRouteInfo\<close> holds the
  description of every peer, the peers it is connected to and the foreign networks it serves, each
  with a version that its owner increments; what other nodes report is merged in by version. A map
  that is iterated is an association list with distinct keys in its iteration order, a \<open>BTreeSet\<close> is a
  finite set. Where an insertion puts a key that is already present is a matter of the crate; lookups do not
  depend on it, and where the order matters (in \<open>Route_Session\<close>) it is a hypothesis. Time is a number of nanoseconds. \<open>DynamicMessage\<close> is a type parameter with the accessor of
  its peer id.
\<close>

type_synonym PeerId = u32
type_synonym Version = u32

section \<open>Data\<close>

record PeerFeatureFlag =
  is_public_server :: bool
  avoid_relay_data :: bool
  kcp_input :: bool
  no_relay_kcp :: bool
  support_conn_list_sync :: bool
  quic_input :: bool
  no_relay_quic :: bool
  is_credential_peer :: bool
  need_p2p :: bool
  disable_p2p :: bool
  ipv6_public_addr_provider :: bool

record Ipv6InetPb =
  v6_address :: "128 word option"
  v6_network_length :: u32

record PeerGroupInfo =
  group_name :: string
  group_proof :: bytes

record TrustedCredentialPubkey =
  cred_pubkey :: bytes
  cred_groups :: "string list"
  allow_relay :: bool
  expiry_unix :: int
  allowed_proxy_cidrs :: "string list"
  reusable :: "bool option"

record TrustedCredentialPubkeyProof =
  credential :: "TrustedCredentialPubkey option"
  credential_hmac :: bytes

record RoutePeerInfo =
  peer_id :: PeerId
  inst_id :: "128 word option"
  cost :: u32
  ipv4_addr :: "u32 option"
  proxy_cidrs :: "string list"
  hostname :: "string option"
  udp_nat_type :: u32
  last_update :: "nat option"
  version :: Version
  easytier_version :: string
  feature_flag :: "PeerFeatureFlag option"
  peer_route_id :: u64
  network_length :: u32
  quic_port :: "u32 option"
  ipv6_addr :: "Ipv6InetPb option"
  groups :: "PeerGroupInfo list"
  tcp_nat_type :: u32
  noise_static_pubkey :: bytes
  trusted_credential_pubkeys :: "TrustedCredentialPubkeyProof list"
  ipv6_public_addr_prefix :: "Ipv6InetPb option"
  ipv6_public_addr_lease :: "Ipv6InetPb option"

text \<open>\<open>RoutePeerInfo::new\<close>; \<open>ver\<close> is the build's version string.\<close>

definition route_peer_info_new :: "string \<Rightarrow> RoutePeerInfo" where
  "route_peer_info_new ver = \<lparr>peer_id = 0, inst_id = Some 0, cost = 0, ipv4_addr = None, proxy_cidrs = [],
     hostname = None, udp_nat_type = 0, last_update = None, version = 0, easytier_version = ver,
     feature_flag = None, peer_route_id = 0, network_length = 24, quic_port = None, ipv6_addr = None, groups = [],
     tcp_nat_type = 0, noise_static_pubkey = [], trusted_credential_pubkeys = [],
     ipv6_public_addr_prefix = None, ipv6_public_addr_lease = None\<rparr>"

record PeerIdVersion =
  pv_peer_id :: PeerId
  pv_version :: Version

record RouteConnBitmap =
  peer_ids :: "PeerIdVersion list"
  bitmap :: bytes

record PeerConnInfo =
  pc_peer_id :: "PeerIdVersion option"
  connected_peer_ids :: "PeerId list"

datatype ConnInfo = ConnBitmap RouteConnBitmap | ConnPeerList "PeerConnInfo list"

record ForeignNetworkRouteInfoKey =
  fk_peer_id :: PeerId
  fk_network_name :: string

record ForeignNetworkRouteInfoEntry =
  foreign_peer_ids :: "PeerId list"
  fe_last_update :: "nat option"
  fe_version :: Version
  network_secret_digest :: bytes
  my_peer_id_for_this_network :: PeerId

type_synonym ForeignInfo = "ForeignNetworkRouteInfoKey option \<times> ForeignNetworkRouteInfoEntry option"

record RouteConnInfo =
  connected_peers :: "PeerId set"
  conn_version :: Version
  conn_last_update :: nat

record 'raw SyncedRouteInfo =
  peer_infos :: "(PeerId \<times> RoutePeerInfo) list"
  raw_peer_infos :: "PeerId \<rightharpoonup> 'raw"
  conn_map :: "(PeerId \<times> RouteConnInfo) list"
  foreign_network :: "(ForeignNetworkRouteInfoKey \<times> ForeignNetworkRouteInfoEntry) list"
  group_trust_map :: "PeerId \<rightharpoonup> (string \<times> bytes) list"
  group_trust_map_cache :: "PeerId \<rightharpoonup> string list"
  trusted_keys :: "bytes \<rightharpoonup> TrustedCredentialPubkey"
  non_reusable_credential_owners :: "bytes \<rightharpoonup> PeerId"
  synced_version :: Version

datatype SyncRouteInfoError = DuplicatePeerId | Stopped

section \<open>Versions\<close>

definition version_inc :: "Version \<Rightarrow> Version" where
  "version_inc v = v + 1"

text \<open>\<open>set_if_larger\<close>: the new value and whether it was set.\<close>

definition set_if_larger :: "Version \<Rightarrow> Version \<Rightarrow> Version \<times> bool" where
  "set_if_larger v old = (max old v, old < v)"

section \<open>Connection bitmaps\<close>

text \<open>The bitmap has one row per peer; \<open>self.bitmap[byte_idx]\<close> panics past its end.\<close>

definition get_bit :: "RouteConnBitmap \<Rightarrow> nat \<Rightarrow> bool may_panic" where
  "get_bit bm idx = (let byte_idx = idx div 8; bit_idx = idx mod 8 in
     if byte_idx < length (bitmap bm) then Some (drop_bit bit_idx (bitmap bm ! byte_idx) AND 1 = 1) else None)"

fun connected_loop :: "RouteConnBitmap \<Rightarrow> nat \<Rightarrow> nat \<Rightarrow> PeerIdVersion list \<Rightarrow> PeerId set may_panic" where
  "connected_loop bm peer_idx idx [] = Some {}"
| "connected_loop bm peer_idx idx (pv # pvs) = do {
     b \<leftarrow> get_bit bm (peer_idx * length (peer_ids bm) + idx);
     rest \<leftarrow> connected_loop bm peer_idx (idx + 1) pvs;
     Some (if b then insert (pv_peer_id pv) rest else rest) }"

definition bitmap_connected_peers :: "RouteConnBitmap \<Rightarrow> nat \<Rightarrow> PeerId set may_panic" where
  "bitmap_connected_peers bm peer_idx = connected_loop bm peer_idx 0 (peer_ids bm)"

section \<open>Operations on the synced information\<close>

definition get_connected_peers :: "'raw SyncedRouteInfo \<Rightarrow> PeerId \<Rightarrow> PeerId set option" where
  "get_connected_peers si p = map_option connected_peers (map_of (conn_map si) p)"

definition remove_peers :: "PeerId set \<Rightarrow> 'raw SyncedRouteInfo \<Rightarrow> 'raw SyncedRouteInfo" where
  "remove_peers ids si = (if ids = {} then si else si\<lparr>
     peer_infos := filter (\<lambda>(p, _). p \<notin> ids) (peer_infos si),
     conn_map := filter (\<lambda>(p, _). p \<notin> ids) (conn_map si),
     raw_peer_infos := (\<lambda>p. if p \<in> ids then None else raw_peer_infos si p),
     group_trust_map := (\<lambda>p. if p \<in> ids then None else group_trust_map si p),
     group_trust_map_cache := (\<lambda>p. if p \<in> ids then None else group_trust_map_cache si p),
     foreign_network := filter (\<lambda>(k, _). fk_peer_id k \<notin> ids) (foreign_network si),
     synced_version := version_inc (synced_version si)\<rparr>)"

text \<open>One peer of the loop of \<open>fill_empty_peer_info\<close>: the flag tells whether the version must change.\<close>

definition fill_one :: "string \<Rightarrow> nat \<Rightarrow> PeerId \<Rightarrow> bool \<times> 'raw SyncedRouteInfo \<Rightarrow> bool \<times> 'raw SyncedRouteInfo" where
  "fill_one ver now p = (\<lambda>(need, si).
     let (need, si) = (if map_of (peer_infos si) p = None
           then (True, si\<lparr>peer_infos := AList.update p ((route_peer_info_new ver)\<lparr>last_update := Some now\<rparr>) (peer_infos si)\<rparr>)
           else (need, si))
     in if map_of (conn_map si) p = None
        then (True, si\<lparr>conn_map := AList.update p \<lparr>connected_peers = {}, conn_version = 0, conn_last_update = now\<rparr> (conn_map si)\<rparr>)
        else (need, si))"

definition fill_empty_peer_info :: "string \<Rightarrow> nat \<Rightarrow> PeerId set \<Rightarrow> 'raw SyncedRouteInfo \<Rightarrow> 'raw SyncedRouteInfo" where
  "fill_empty_peer_info ver now ids si =
     (let (need, si) = fold (fill_one ver now) (sorted_list_of_set ids) (False, si)
      in if need then si\<lparr>synced_version := version_inc (synced_version si)\<rparr> else si)"

definition get_peer_info_version_with_default :: "'raw SyncedRouteInfo \<Rightarrow> PeerId \<Rightarrow> Version" where
  "get_peer_info_version_with_default si p = (case map_of (peer_infos si) p of Some i \<Rightarrow> version i | None \<Rightarrow> 0)"

definition get_avoid_relay_data :: "'raw SyncedRouteInfo \<Rightarrow> PeerId \<Rightarrow> bool" where
  "get_avoid_relay_data si p = (case map_of (peer_infos si) p of
     Some i \<Rightarrow> (case feature_flag i of Some f \<Rightarrow> avoid_relay_data f | None \<Rightarrow> False) | None \<Rightarrow> False)"

definition check_duplicate_peer_id :: "PeerId \<Rightarrow> u64 \<Rightarrow> PeerId \<Rightarrow> u64 option \<Rightarrow> RoutePeerInfo \<Rightarrow> 'raw SyncedRouteInfo
    \<Rightarrow> (SyncRouteInfoError + unit) may_panic" where
  "check_duplicate_peer_id my_peer_id my_peer_route_id dst_peer_id dst_peer_route_id info si =
     (if peer_id info = my_peer_id then
        (if peer_route_id info \<noteq> my_peer_route_id \<and> version info > get_peer_info_version_with_default si (peer_id info)
         then None else Some (Inr ()))
      else if peer_id info = dst_peer_id then
        (case dst_peer_route_id of
           None \<Rightarrow> Some (Inr ())
         | Some r \<Rightarrow> if r \<noteq> peer_route_id info \<and> version info < get_peer_info_version_with_default si (peer_id info)
             then Some (Inl DuplicatePeerId) else Some (Inr ()))
      else Some (Inr ()))"

text \<open>
  The loop of \<open>update_peer_infos\<close>. \<open>raw_id\<close> reads the peer id of a raw message (its \<open>None\<close> is the failed
  \<open>unwrap\<close>). An error leaves what was stored before it.
\<close>

fun update_peer_infos_loop :: "('raw \<Rightarrow> u32 option) \<Rightarrow> nat \<Rightarrow> PeerId \<Rightarrow> u64 \<Rightarrow> PeerId \<Rightarrow> RoutePeerInfo list \<Rightarrow> 'raw list
    \<Rightarrow> bool \<Rightarrow> 'raw SyncedRouteInfo \<Rightarrow> ((SyncRouteInfoError + bool) \<times> 'raw SyncedRouteInfo) may_panic" where
  "update_peer_infos_loop raw_id now my my_route dst [] raws need si = Some (Inr need, si)"
| "update_peer_infos_loop raw_id now my my_route dst (info # infos) [] need si = None"
| "update_peer_infos_loop raw_id now my my_route dst (info # infos) (raw # raws) need si = do {
     chk \<leftarrow> check_duplicate_peer_id my my_route dst
       (if peer_id info = dst then map_option peer_route_id (map_of (peer_infos si) dst) else None) info si;
     case chk of
       Inl e \<Rightarrow> Some (Inl e, si)
     | Inr _ \<Rightarrow> do {
         peer_id_raw \<leftarrow> raw_id raw;
         if peer_id_raw \<noteq> peer_id info then None
         else let info = info\<lparr>last_update := Some now\<rparr> in
           (case map_of (peer_infos si) (peer_id info) of
              None \<Rightarrow> update_peer_infos_loop raw_id now my my_route dst infos raws True
                (si\<lparr>raw_peer_infos := (raw_peer_infos si)(peer_id info \<mapsto> raw),
                    peer_infos := AList.update (peer_id info) info (peer_infos si)\<rparr>)
            | Some old \<Rightarrow>
                if version info > version old
                then update_peer_infos_loop raw_id now my my_route dst infos raws True
                  (si\<lparr>raw_peer_infos := (raw_peer_infos si)(peer_id info \<mapsto> raw),
                      peer_infos := AList.update (peer_id info) info (peer_infos si)\<rparr>)
                else update_peer_infos_loop raw_id now my my_route dst infos raws need si) } }"

definition update_peer_infos :: "('raw \<Rightarrow> u32 option) \<Rightarrow> nat \<Rightarrow> PeerId \<Rightarrow> u64 \<Rightarrow> PeerId \<Rightarrow> RoutePeerInfo list \<Rightarrow> 'raw list
    \<Rightarrow> 'raw SyncedRouteInfo \<Rightarrow> ((SyncRouteInfoError + unit) \<times> 'raw SyncedRouteInfo) may_panic" where
  "update_peer_infos raw_id now my my_route dst infos raws si = do {
     (res, si) \<leftarrow> update_peer_infos_loop raw_id now my my_route dst infos raws False si;
     case res of
       Inl e \<Rightarrow> Some (Inl e, si)
     | Inr need \<Rightarrow> Some (Inr (), if need then si\<lparr>synced_version := version_inc (synced_version si)\<rparr> else si) }"

definition update_conn_info_one_peer :: "nat \<Rightarrow> PeerIdVersion \<Rightarrow> PeerId set \<Rightarrow> 'raw SyncedRouteInfo \<Rightarrow> bool \<times> 'raw SyncedRouteInfo" where
  "update_conn_info_one_peer now pv connected si =
     (if (case map_of (conn_map si) (pv_peer_id pv) of None \<Rightarrow> True | Some old \<Rightarrow> pv_version pv > conn_version old)
      then (True, si\<lparr>conn_map := AList.update (pv_peer_id pv)
        \<lparr>connected_peers = connected, conn_version = pv_version pv, conn_last_update = now\<rparr> (conn_map si)\<rparr>)
      else (False, si))"

fun bitmap_loop :: "string \<Rightarrow> nat \<Rightarrow> RouteConnBitmap \<Rightarrow> nat \<Rightarrow> PeerIdVersion list \<Rightarrow> bool \<Rightarrow> 'raw SyncedRouteInfo
    \<Rightarrow> (bool \<times> 'raw SyncedRouteInfo) may_panic" where
  "bitmap_loop ver now bm peer_idx [] need si = Some (need, si)"
| "bitmap_loop ver now bm peer_idx (pv # pvs) need si = do {
     connected \<leftarrow> bitmap_connected_peers bm peer_idx;
     let si = fill_empty_peer_info ver now connected si;
     let (changed, si) = update_conn_info_one_peer now pv connected si;
     bitmap_loop ver now bm (peer_idx + 1) pvs (need \<or> changed) si }"

definition update_conn_info_with_bitmap :: "string \<Rightarrow> nat \<Rightarrow> RouteConnBitmap \<Rightarrow> 'raw SyncedRouteInfo \<Rightarrow> 'raw SyncedRouteInfo may_panic" where
  "update_conn_info_with_bitmap ver now bm si = do {
     let si = fill_empty_peer_info ver now (pv_peer_id ` set (peer_ids bm)) si;
     (need, si) \<leftarrow> bitmap_loop ver now bm 0 (peer_ids bm) False si;
     Some (if need then si\<lparr>synced_version := version_inc (synced_version si)\<rparr> else si) }"

fun list_loop :: "string \<Rightarrow> nat \<Rightarrow> PeerConnInfo list \<Rightarrow> bool \<Rightarrow> 'raw SyncedRouteInfo \<Rightarrow> bool \<times> 'raw SyncedRouteInfo" where
  "list_loop ver now [] need si = (need, si)"
| "list_loop ver now (pc # pcs) need si = (case pc_peer_id pc of
     None \<Rightarrow> list_loop ver now pcs need si
   | Some pv \<Rightarrow>
       let connected = set (connected_peer_ids pc);
           si = fill_empty_peer_info ver now connected si;
           (changed, si) = update_conn_info_one_peer now pv connected si
       in list_loop ver now pcs (need \<or> changed) si)"

definition update_conn_info_with_list :: "string \<Rightarrow> nat \<Rightarrow> PeerConnInfo list \<Rightarrow> 'raw SyncedRouteInfo \<Rightarrow> 'raw SyncedRouteInfo" where
  "update_conn_info_with_list ver now pcs si =
     (let (need, si) = list_loop ver now pcs False si
      in if need then si\<lparr>synced_version := version_inc (synced_version si)\<rparr> else si)"

definition update_conn_info :: "string \<Rightarrow> nat \<Rightarrow> ConnInfo \<Rightarrow> 'raw SyncedRouteInfo \<Rightarrow> 'raw SyncedRouteInfo may_panic" where
  "update_conn_info ver now ci si = (case ci of
     ConnBitmap bm \<Rightarrow> update_conn_info_with_bitmap ver now bm si
   | ConnPeerList pcs \<Rightarrow> Some (update_conn_info_with_list ver now pcs si))"

fun update_foreign_network :: "nat \<Rightarrow> ForeignInfo list \<Rightarrow> 'raw SyncedRouteInfo \<Rightarrow> bool \<times> 'raw SyncedRouteInfo" where
  "update_foreign_network now [] si = (False, si)"
| "update_foreign_network now (item # items) si = (case item of
     (Some key, Some entry) \<Rightarrow>
       let entry = entry\<lparr>fe_last_update := Some now\<rparr>;
           better = (case map_of (foreign_network si) key of None \<Rightarrow> True | Some old \<Rightarrow> fe_version entry > fe_version old);
           si = (if better then si\<lparr>foreign_network := AList.update key entry (foreign_network si)\<rparr> else si);
           (changed, si) = update_foreign_network now items si
       in (better \<or> changed, si)
   | _ \<Rightarrow> update_foreign_network now items si)"

end
