(* ===== verification/Route_Sync.thy ===== *)
theory Route_Sync
  imports Route_Info
begin

text \<open>
  Merging of route information. The three stores of \<open>SyncedRouteInfo\<close> share one contract: an entry of a
  message replaces the stored entry of its key exactly when its version is larger (interface
  \<open>newest_wins\<close>). From the contract alone, nodes that received the same entries agree, whatever the order
  and grouping in which they arrived. The stores of the code are shown to meet it; a bitmap that is shorter
  than its own list of peers requires, and a report about our own id with another route id, panic.
\<close>

section \<open>The contract\<close>

type_synonym ('k, 'v) entry = "'k \<times> Version \<times> 'v"
type_synonym ('k, 'v) view = "'k \<Rightarrow> Version \<times> 'v option"

definition join :: "('k, 'v) entry \<Rightarrow> ('k, 'v) view \<Rightarrow> ('k, 'v) view" where
  "join = (\<lambda>(k, ver, v) w. if fst (w k) < ver then w(k := (ver, Some v)) else w)"

text \<open>One owner per key: a version is never used for two values.\<close>

definition consistent :: "('k, 'v) entry set \<Rightarrow> bool" where
  "consistent U \<longleftrightarrow> (\<forall>k ver v v'. (k, ver, v) \<in> U \<longrightarrow> (k, ver, v') \<in> U \<longrightarrow> v = v')"

lemma fold_join_ge: "fst (w k) \<le> fst (fold join us w k)"
proof (induction us arbitrary: w)
  case (Cons u us)
  have "fst (w k) \<le> fst (join u w k)" by (cases u) (auto simp: join_def)
  then show ?case using Cons [of "join u w"] by simp
qed simp

lemma fold_join_upper: "(k, ver, v) \<in> set us \<Longrightarrow> ver \<le> fst (fold join us w k)"
proof (induction us arbitrary: w)
  case (Cons u us)
  show ?case
  proof (cases "u = (k, ver, v)")
    case True
    then have "ver \<le> fst (join u w k)" by (auto simp: join_def)
    then show ?thesis using fold_join_ge [of "join u w" k us] by simp
  qed (use Cons in simp)
qed simp

lemma fold_join_source:
  "fold join us w k = w k \<or> (\<exists>ver v. fold join us w k = (ver, Some v) \<and> (k, ver, v) \<in> set us \<and> fst (w k) < ver)"
proof (induction us arbitrary: w)
  case (Cons u us)
  have step: "join u w k = w k \<or> (\<exists>ver v. u = (k, ver, v) \<and> join u w k = (ver, Some v) \<and> fst (w k) < ver)"
    by (cases u) (auto simp: join_def)
  consider "fold join us (join u w) k = join u w k"
    | ver v where "fold join us (join u w) k = (ver, Some v)" "(k, ver, v) \<in> set us" "fst (join u w k) < ver"
    using Cons [of "join u w"] by blast
  then show ?case
  proof cases
    case 1
    then show ?thesis using step by auto
  next
    case 2
    moreover have "fst (w k) \<le> fst (join u w k)" using step by auto
    ultimately show ?thesis by auto
  qed
qed simp

lemma fold_join_same:
  assumes "set us = set vs" and "consistent (set us)"
  shows "fold join us w = fold join vs w"
proof (rule ext)
  fix k
  let ?r = "\<lambda>us. fold join us w k"
  have le: "fst (?r xs) \<le> fst (?r ys)" if "set xs = set ys" for xs ys
    using fold_join_source [of xs w k] fold_join_upper [of k _ _ ys w] fold_join_ge [of w k ys] that by auto
  have eq: "fst (?r us) = fst (?r vs)" using le assms(1) by (simp add: order_antisym)
  show "?r us = ?r vs"
  proof (cases "fst (?r us) = fst (w k)")
    case True
    then have "?r us = w k" "?r vs = w k" using fold_join_source [of _ w k] eq by fastforce+
    then show ?thesis by simp
  next
    case False
    obtain v1 where "?r us = (fst (?r us), Some v1)" "(k, fst (?r us), v1) \<in> set us"
      using fold_join_source [of us w k] False by auto
    moreover obtain v2 where "?r vs = (fst (?r us), Some v2)" "(k, fst (?r us), v2) \<in> set vs"
      using fold_join_source [of vs w k] False eq by auto
    ultimately show ?thesis using assms by (metis consistent_def)
  qed
qed

fun apply_all :: "('m \<Rightarrow> 's \<Rightarrow> 's may_panic) \<Rightarrow> 'm list \<Rightarrow> 's \<Rightarrow> 's may_panic" where
  "apply_all apply_msg [] s = Some s"
| "apply_all apply_msg (m # ms) s = do { s \<leftarrow> apply_msg m s; apply_all apply_msg ms s }"

locale newest_wins =
  fixes view :: "'s \<Rightarrow> ('k, 'v) view"
    and apply_msg :: "'m \<Rightarrow> 's \<Rightarrow> 's may_panic"
    and entries :: "'m \<Rightarrow> ('k, 'v) entry list"
    and ok :: "'m \<Rightarrow> bool"
    and inv :: "'s \<Rightarrow> bool"
  assumes apply_join: "ok m \<Longrightarrow> inv s \<Longrightarrow> \<exists>s'. apply_msg m s = Some s' \<and> inv s' \<and> view s' = fold join (entries m) (view s)"
begin

lemma apply_all_join:
  "\<forall>m\<in>set ms. ok m \<Longrightarrow> inv s \<Longrightarrow>
   \<exists>s'. apply_all apply_msg ms s = Some s' \<and> inv s' \<and> view s' = fold join (concat (map entries ms)) (view s)"
proof (induction ms arbitrary: s)
  case (Cons m ms)
  then obtain s1 where s1: "apply_msg m s = Some s1" "inv s1" "view s1 = fold join (entries m) (view s)"
    using apply_join by (metis list.set_intros(1))
  then show ?case using Cons.IH [of s1] Cons.prems by auto
qed simp

lemma converge:
  assumes "\<forall>m\<in>set ms \<union> set ms'. ok m" and "inv s" "inv s'" and "view s = view s'"
    and "(\<Union>m\<in>set ms. set (entries m)) = (\<Union>m\<in>set ms'. set (entries m))" and "consistent (\<Union>m\<in>set ms. set (entries m))"
  shows "\<exists>r r'. apply_all apply_msg ms s = Some r \<and> apply_all apply_msg ms' s' = Some r' \<and> view r = view r'"
proof -
  obtain r r' where r: "apply_all apply_msg ms s = Some r" "view r = fold join (concat (map entries ms)) (view s)"
      "apply_all apply_msg ms' s' = Some r'" "view r' = fold join (concat (map entries ms')) (view s')"
    using apply_all_join [of ms s] apply_all_join [of ms' s'] assms(1-3) by auto
  have "fold join (concat (map entries ms)) (view s) = fold join (concat (map entries ms')) (view s)"
    by (rule fold_join_same) (use assms(5,6) in auto)
  then show ?thesis using r assms(4) by auto
qed

lemma never_older: "ok m \<Longrightarrow> inv s \<Longrightarrow> apply_msg m s = Some s' \<Longrightarrow> fst (view s k) \<le> fst (view s' k)"
  using apply_join [of m s] fold_join_ge [of "view s" k "entries m"] by auto

end

section \<open>Connections\<close>

text \<open>What is known of the connections of a peer; version 0 is a placeholder.\<close>

definition conn_view :: "'raw SyncedRouteInfo \<Rightarrow> (PeerId, PeerId set) view" where
  "conn_view si p = (case map_of (conn_map si) p of
     Some c \<Rightarrow> if conn_version c = 0 then (0, None) else (conn_version c, Some (connected_peers c))
   | None \<Rightarrow> (0, None))"

fun conn_entries :: "ConnInfo \<Rightarrow> (PeerId, PeerId set) entry list" where
  "conn_entries (ConnBitmap bm) = map (\<lambda>(i, pv). (pv_peer_id pv, pv_version pv, the (bitmap_connected_peers bm i)))
     (List.enumerate 0 (peer_ids bm))"
| "conn_entries (ConnPeerList pcs) = List.map_filter (\<lambda>pc. map_option (\<lambda>pv. (pv_peer_id pv, pv_version pv,
     set (connected_peer_ids pc))) (pc_peer_id pc)) pcs"

text \<open>A bitmap has a bit for every pair of its peers.\<close>

fun conn_ok :: "ConnInfo \<Rightarrow> bool" where
  "conn_ok (ConnBitmap bm) \<longleftrightarrow> length (peer_ids bm) * length (peer_ids bm) \<le> 8 * length (bitmap bm)"
| "conn_ok (ConnPeerList pcs) \<longleftrightarrow> True"

lemma conn_view_version [simp]: "conn_view (si\<lparr>synced_version := v\<rparr>) = conn_view si"
  by (simp add: conn_view_def fun_eq_iff)

lemma conn_view_fill_one: "conn_view (snd (fill_one ver now p (need, si))) = conn_view si"
  by (auto simp: fill_one_def conn_view_def fun_eq_iff update_conv' Let_def)

lemma conn_view_fill_fold: "conn_view (snd (fold (fill_one ver now) ps st)) = conn_view (snd st)"
proof (induction ps arbitrary: st)
  case (Cons p ps)
  then show ?case using conn_view_fill_one [of ver now p "fst st" "snd st"] by simp
qed simp

lemma conn_view_fill [simp]: "conn_view (fill_empty_peer_info ver now ids si) = conn_view si"
  using conn_view_fill_fold [of ver now "sorted_list_of_set ids" "(False, si)"]
  by (auto simp: fill_empty_peer_info_def split: prod.splits)

lemma conn_view_one_peer:
  "conn_view (snd (update_conn_info_one_peer now pv S si)) = join (pv_peer_id pv, pv_version pv, S) (conn_view si)"
  by (auto simp: update_conn_info_one_peer_def conn_view_def join_def fun_eq_iff update_conv' word_gt_0
      split: option.splits)

lemma get_bit_Some: "idx < 8 * length (bitmap bm) \<Longrightarrow> \<exists>b. get_bit bm idx = Some b"
  by (auto simp: get_bit_def Let_def)

lemma connected_loop_Some:
  assumes "peer_idx * length (peer_ids bm) + idx + length pvs \<le> 8 * length (bitmap bm)"
  shows "\<exists>S. connected_loop bm peer_idx idx pvs = Some S"
  using assms
proof (induction pvs arbitrary: idx)
  case (Cons pv pvs)
  obtain b where "get_bit bm (peer_idx * length (peer_ids bm) + idx) = Some b"
    using get_bit_Some [of "peer_idx * length (peer_ids bm) + idx" bm] Cons.prems by auto
  then show ?case using Cons.IH [of "Suc idx"] Cons.prems by auto
qed simp

lemma row_Some:
  assumes "conn_ok (ConnBitmap bm)" and "i < length (peer_ids bm)"
  shows "\<exists>S. bitmap_connected_peers bm i = Some S"
proof -
  let ?n = "length (peer_ids bm)"
  have "i * ?n + ?n \<le> ?n * ?n" using mult_le_mono1 [of "Suc i" ?n ?n] assms(2) by simp
  then show ?thesis using assms(1) unfolding bitmap_connected_peers_def by (intro connected_loop_Some) simp
qed

lemma bitmap_loop_join:
  assumes "conn_ok (ConnBitmap bm)" and "i + length pvs \<le> length (peer_ids bm)"
  shows "\<exists>need' si'. bitmap_loop ver now bm i pvs need si = Some (need', si') \<and> conn_view si' =
    fold join (map (\<lambda>(i, pv). (pv_peer_id pv, pv_version pv, the (bitmap_connected_peers bm i))) (List.enumerate i pvs)) (conn_view si)"
  using assms(2)
proof (induction pvs arbitrary: i need si)
  case (Cons pv pvs)
  obtain S where S: "bitmap_connected_peers bm i = Some S" using row_Some [OF assms(1), of i] Cons.prems by auto
  obtain ch si1 where si1: "update_conn_info_one_peer now pv S (fill_empty_peer_info ver now S si) = (ch, si1)"
    by fastforce
  have "conn_view si1 = join (pv_peer_id pv, pv_version pv, S) (conn_view si)"
    using conn_view_one_peer [of now pv S "fill_empty_peer_info ver now S si"] si1 by simp
  then show ?case using Cons.IH [of "Suc i" "need \<or> ch" si1] Cons.prems S si1 by auto
qed simp

lemma list_loop_join:
  "conn_view (snd (list_loop ver now pcs need si)) = fold join (conn_entries (ConnPeerList pcs)) (conn_view si)"
proof (induction pcs arbitrary: need si)
  case (Cons pc pcs)
  show ?case
  proof (cases "pc_peer_id pc")
    case (Some pv)
    let ?S = "set (connected_peer_ids pc)"
    obtain ch si1 where si1: "update_conn_info_one_peer now pv ?S (fill_empty_peer_info ver now ?S si) = (ch, si1)"
      by fastforce
    have "conn_view si1 = join (pv_peer_id pv, pv_version pv, ?S) (conn_view si)"
      using conn_view_one_peer [of now pv ?S "fill_empty_peer_info ver now ?S si"] si1 by simp
    then show ?thesis using Some Cons.IH [of "need \<or> ch" si1] si1 by (simp add: List.map_filter_simps Let_def)
  qed (use Cons.IH in \<open>simp add: List.map_filter_simps\<close>)
qed (simp add: List.map_filter_simps)

lemma update_conn_info_join:
  assumes "conn_ok ci"
  shows "\<exists>si'. update_conn_info ver now ci si = Some si' \<and> conn_view si' = fold join (conn_entries ci) (conn_view si)"
proof (cases ci)
  case (ConnBitmap bm)
  let ?si = "fill_empty_peer_info ver now (pv_peer_id ` set (peer_ids bm)) si"
  obtain need si1 where "bitmap_loop ver now bm 0 (peer_ids bm) False ?si = Some (need, si1)"
      "conn_view si1 = fold join (conn_entries ci) (conn_view si)"
    using bitmap_loop_join [of bm 0 "peer_ids bm" ver now False ?si] assms ConnBitmap by auto
  then show ?thesis by (simp add: ConnBitmap update_conn_info_def update_conn_info_with_bitmap_def)
next
  case (ConnPeerList pcs)
  then show ?thesis using list_loop_join [of ver now pcs False si]
    by (auto simp: update_conn_info_def update_conn_info_with_list_def split: prod.splits)
qed

text \<open>Messages carry the local time of their arrival.\<close>

interpretation conn_store: newest_wins conn_view "\<lambda>(now, ci). update_conn_info ver now ci" "\<lambda>(now, ci). conn_entries ci"
    "\<lambda>(now, ci). conn_ok ci" "\<lambda>_. True"
  for ver
  by unfold_locales (use update_conn_info_join in auto)

section \<open>Peer descriptions\<close>

text \<open>The time of the last update is local and not part of what nodes agree on.\<close>

definition peer_view :: "'raw SyncedRouteInfo \<Rightarrow> (PeerId, RoutePeerInfo) view" where
  "peer_view si p = (case map_of (peer_infos si) p of
     Some i \<Rightarrow> if version i = 0 then (0, None) else (version i, Some (i\<lparr>last_update := None\<rparr>))
   | None \<Rightarrow> (0, None))"

definition peer_entries :: "RoutePeerInfo list \<Rightarrow> (PeerId, RoutePeerInfo) entry list" where
  "peer_entries infos = map (\<lambda>i. (peer_id i, version i, i\<lparr>last_update := None\<rparr>)) infos"

text \<open>Peer ids are unique: \<open>rid\<close> gives the route id of each peer, and raw messages match the decoded ones.\<close>

definition peers_ok :: "('raw \<Rightarrow> u32 option) \<Rightarrow> (PeerId \<Rightarrow> u64) \<Rightarrow> RoutePeerInfo list \<Rightarrow> 'raw list \<Rightarrow> bool" where
  "peers_ok raw_id rid infos raws \<longleftrightarrow>
     list_all2 (\<lambda>i raw. raw_id raw = Some (peer_id i) \<and> peer_route_id i = rid (peer_id i)) infos raws"

definition route_ids_ok :: "(PeerId \<Rightarrow> u64) \<Rightarrow> 'raw SyncedRouteInfo \<Rightarrow> bool" where
  "route_ids_ok rid si \<longleftrightarrow> (\<forall>p i. map_of (peer_infos si) p = Some i \<longrightarrow> version i = 0 \<or> peer_route_id i = rid p)"

lemma peer_view_version [simp]: "peer_view (si\<lparr>synced_version := v\<rparr>) = peer_view si"
  by (simp add: peer_view_def fun_eq_iff)

lemma route_ids_version [simp]: "route_ids_ok rid (si\<lparr>synced_version := v\<rparr>) = route_ids_ok rid si"
  by (simp add: route_ids_ok_def)

lemma no_duplicate:
  assumes "route_ids_ok rid si" and "peer_route_id info = rid (peer_id info)"
  shows "check_duplicate_peer_id my (rid my) dst
    (if peer_id info = dst then map_option peer_route_id (map_of (peer_infos si) dst) else None) info si = Some (Inr ())"
proof (cases "map_of (peer_infos si) (peer_id info)")
  case (Some i)
  then have "version i = 0 \<or> peer_route_id i = peer_route_id info" using assms by (simp add: route_ids_ok_def)
  then show ?thesis using Some assms(2)
    by (auto simp: check_duplicate_peer_id_def get_peer_info_version_with_default_def)
qed (use assms(2) in \<open>auto simp: check_duplicate_peer_id_def\<close>)

text \<open>Storing a newer description.\<close>

definition put_info :: "nat \<Rightarrow> RoutePeerInfo \<Rightarrow> 'raw \<Rightarrow> 'raw SyncedRouteInfo \<Rightarrow> 'raw SyncedRouteInfo" where
  "put_info now info raw si = si\<lparr>raw_peer_infos := (raw_peer_infos si)(peer_id info \<mapsto> raw),
     peer_infos := AList.update (peer_id info) (info\<lparr>last_update := Some now\<rparr>) (peer_infos si)\<rparr>"

lemma put_info_join:
  assumes "case map_of (peer_infos si) (peer_id info) of None \<Rightarrow> True | Some old \<Rightarrow> version old < version info"
  shows "peer_view (put_info now info raw si) = join (peer_id info, version info, info\<lparr>last_update := None\<rparr>) (peer_view si)"
  using assms by (auto simp: put_info_def peer_view_def join_def fun_eq_iff update_conv' word_gt_0 split: option.splits)

lemma put_info_route_ids:
  "route_ids_ok rid si \<Longrightarrow> peer_route_id info = rid (peer_id info) \<Longrightarrow> route_ids_ok rid (put_info now info raw si)"
  by (auto simp: put_info_def route_ids_ok_def update_conv')

lemma old_info_join:
  assumes "map_of (peer_infos si) (peer_id info) = Some old" and "\<not> version old < version info"
  shows "join (peer_id info, version info, v) (peer_view si) = peer_view si"
  using assms by (auto simp: peer_view_def join_def)

lemma update_peer_infos_step:
  assumes "route_ids_ok rid si" and "raw_id raw = Some (peer_id info)" and "peer_route_id info = rid (peer_id info)"
  shows "update_peer_infos_loop raw_id now my (rid my) dst (info # infos) (raw # raws) need si =
    (if case map_of (peer_infos si) (peer_id info) of None \<Rightarrow> True | Some old \<Rightarrow> version old < version info
     then update_peer_infos_loop raw_id now my (rid my) dst infos raws True (put_info now info raw si)
     else update_peer_infos_loop raw_id now my (rid my) dst infos raws need si)"
  using no_duplicate [OF assms(1,3), of my dst] assms(2)
  by (simp add: put_info_def Let_def split: option.split)

lemma update_peer_infos_loop_join:
  assumes "peers_ok raw_id rid infos raws"
  shows "route_ids_ok rid si \<Longrightarrow>
    \<exists>need' si'. update_peer_infos_loop raw_id now my (rid my) dst infos raws need si = Some (Inr need', si') \<and>
      route_ids_ok rid si' \<and> peer_view si' = fold join (peer_entries infos) (peer_view si)"
  using assms
proof (induction infos arbitrary: raws need si)
  case Nil
  then show ?case by (simp add: peer_entries_def)
next
  case (Cons info infos)
  obtain raw raws' where raws: "raws = raw # raws'" "raw_id raw = Some (peer_id info)"
      "peer_route_id info = rid (peer_id info)" "peers_ok raw_id rid infos raws'"
    using Cons.prems(2) by (auto simp: peers_ok_def list_all2_Cons1)
  note step = update_peer_infos_step [of rid si raw_id raw info now my dst infos raws' need, OF Cons.prems(1) raws(2,3)]
  show ?case
  proof (cases "case map_of (peer_infos si) (peer_id info) of None \<Rightarrow> True | Some old \<Rightarrow> version old < version info")
    case True
    have "route_ids_ok rid (put_info now info raw si)" using put_info_route_ids [of rid si info] Cons.prems(1) raws(3) by simp
    from Cons.IH [OF this raws(4), of True] show ?thesis
      using step True put_info_join [OF True, of now raw] by (simp add: raws(1) peer_entries_def)
  next
    case False
    then obtain old where "map_of (peer_infos si) (peer_id info) = Some old" "\<not> version old < version info"
      by (auto split: option.splits)
    then have "join (peer_id info, version info, info\<lparr>last_update := None\<rparr>) (peer_view si) = peer_view si"
      by (rule old_info_join)
    with Cons.IH [OF Cons.prems(1) raws(4), of need] show ?thesis
      using step False by (simp add: raws(1) peer_entries_def)
  qed
qed

text \<open>A report: the time, the sender, the descriptions and the raw messages; an error counts as a failure here.\<close>

type_synonym 'raw report = "nat \<times> PeerId \<times> RoutePeerInfo list \<times> 'raw list"

definition receive_report :: "('raw \<Rightarrow> u32 option) \<Rightarrow> PeerId \<Rightarrow> u64 \<Rightarrow> 'raw report \<Rightarrow> 'raw SyncedRouteInfo
    \<Rightarrow> 'raw SyncedRouteInfo option" where
  "receive_report raw_id my my_route = (\<lambda>(now, dst, infos, raws) si.
     case update_peer_infos raw_id now my my_route dst infos raws si of
       Some (Inr _, si') \<Rightarrow> Some si' | _ \<Rightarrow> None)"

lemma receive_report_join:
  assumes "peers_ok raw_id rid infos raws" and "route_ids_ok rid si"
  shows "\<exists>si'. receive_report raw_id my (rid my) (now, dst, infos, raws) si = Some si' \<and> route_ids_ok rid si' \<and>
    peer_view si' = fold join (peer_entries infos) (peer_view si)"
  using update_peer_infos_loop_join [OF assms, of now my dst False]
  by (auto simp: receive_report_def update_peer_infos_def)

interpretation peer_store: newest_wins peer_view "receive_report raw_id my (rid my)" "\<lambda>(_, _, infos, _). peer_entries infos"
    "\<lambda>(_, _, infos, raws). peers_ok raw_id rid infos raws" "route_ids_ok rid"
  for raw_id my rid
  by unfold_locales (use receive_report_join in auto)

section \<open>Foreign networks\<close>

definition foreign_view :: "'raw SyncedRouteInfo \<Rightarrow> (ForeignNetworkRouteInfoKey, ForeignNetworkRouteInfoEntry) view" where
  "foreign_view si k = (case map_of (foreign_network si) k of
     Some e \<Rightarrow> if fe_version e = 0 then (0, None) else (fe_version e, Some (e\<lparr>fe_last_update := None\<rparr>))
   | None \<Rightarrow> (0, None))"

definition foreign_entries :: "ForeignInfo list \<Rightarrow> (ForeignNetworkRouteInfoKey, ForeignNetworkRouteInfoEntry) entry list" where
  "foreign_entries items = List.map_filter (\<lambda>item. case item of
     (Some k, Some e) \<Rightarrow> Some (k, fe_version e, e\<lparr>fe_last_update := None\<rparr>) | _ \<Rightarrow> None) items"

lemma update_foreign_network_join:
  "foreign_view (snd (update_foreign_network now items si)) = fold join (foreign_entries items) (foreign_view si)"
proof (induction items arbitrary: si)
  case (Cons item items)
  show ?case
  proof (cases "\<exists>k e. item = (Some k, Some e)")
    case True
    then obtain k e where item: "item = (Some k, Some e)" by blast
    define better where "better \<longleftrightarrow> (case map_of (foreign_network si) k of None \<Rightarrow> True
      | Some old \<Rightarrow> fe_version (e\<lparr>fe_last_update := Some now\<rparr>) > fe_version old)"
    define si1 where "si1 = (if better then si\<lparr>foreign_network := AList.update k (e\<lparr>fe_last_update := Some now\<rparr>) (foreign_network si)\<rparr> else si)"
    have "snd (update_foreign_network now (item # items) si) = snd (update_foreign_network now items si1)"
      by (simp add: item Let_def better_def si1_def split: prod.splits)
    moreover have "foreign_view si1 = join (k, fe_version e, e\<lparr>fe_last_update := None\<rparr>) (foreign_view si)"
      by (auto simp: si1_def better_def foreign_view_def join_def fun_eq_iff update_conv' word_gt_0 split: option.splits)
    ultimately show ?thesis using Cons.IH [of si1] by (simp add: foreign_entries_def item List.map_filter_simps)
  next
    case False
    then have "snd (update_foreign_network now (item # items) si) = snd (update_foreign_network now items si)"
        "foreign_entries (item # items) = foreign_entries items"
      by (auto simp: foreign_entries_def List.map_filter_simps split: option.splits prod.splits)
    then show ?thesis using Cons.IH by simp
  qed
qed (simp add: foreign_entries_def List.map_filter_simps)

interpretation foreign_store: newest_wins foreign_view "\<lambda>(now, items) si. Some (snd (update_foreign_network now items si))"
    "\<lambda>(now, items). foreign_entries items" "\<lambda>_. True" "\<lambda>_. True"
  by unfold_locales (auto simp: update_foreign_network_join)

section \<open>Agreement\<close>

text \<open>
  C8. The topology converges: two nodes that start from the same knowledge and receive the same versioned
  connection lists, in any order, any grouping into messages, any mixture of bitmaps and lists and with any
  repetition, end with the same versions and the same connections for every peer.
\<close>

theorem topology_converges:
  fixes si si' :: "'raw SyncedRouteInfo"
  assumes "\<forall>m\<in>set ms \<union> set ms'. conn_ok (snd m)" and "conn_view si = conn_view si'"
    and "(\<Union>m\<in>set ms. set (conn_entries (snd m))) = (\<Union>m\<in>set ms'. set (conn_entries (snd m)))"
    and "consistent (\<Union>m\<in>set ms. set (conn_entries (snd m)))"
  shows "\<exists>r r'. apply_all (\<lambda>(now, ci). update_conn_info ver now ci) ms si = Some r \<and>
    apply_all (\<lambda>(now, ci). update_conn_info ver now ci) ms' si' = Some r' \<and> conn_view r = conn_view r'"
  by (rule conn_store.converge) (use assms in \<open>auto simp: case_prod_beta\<close>)

text \<open>
  Peer descriptions converge likewise: with unique peer ids, reports are neither refused nor panic, and
  nodes that received the same descriptions, in any order and from whatever senders, store the same
  description (the newest one) of every peer.
\<close>

theorem descriptions_converge:
  assumes "\<forall>(now, dst, infos, raws)\<in>set ms \<union> set ms'. peers_ok raw_id rid infos raws"
    and "route_ids_ok rid si" and "route_ids_ok rid si'" and "peer_view si = peer_view si'"
    and "(\<Union>(now, dst, infos, raws)\<in>set ms. set (peer_entries infos)) = (\<Union>(now, dst, infos, raws)\<in>set ms'. set (peer_entries infos))"
    and "consistent (\<Union>(now, dst, infos, raws)\<in>set ms. set (peer_entries infos))"
  shows "\<exists>r r'. apply_all (receive_report raw_id my (rid my)) ms si = Some r \<and>
    apply_all (receive_report raw_id my' (rid my')) ms' si' = Some r' \<and> peer_view r = peer_view r'"
proof -
  let ?e = "\<lambda>(now, dst, infos, raws). peer_entries infos"
  obtain r where r: "apply_all (receive_report raw_id my (rid my)) ms si = Some r"
      "peer_view r = fold join (concat (map ?e ms)) (peer_view si)"
    using peer_store.apply_all_join [of ms raw_id rid si my] assms(1,2) by (auto simp: case_prod_beta)
  obtain r' where r': "apply_all (receive_report raw_id my' (rid my')) ms' si' = Some r'"
      "peer_view r' = fold join (concat (map ?e ms')) (peer_view si')"
    using peer_store.apply_all_join [of ms' raw_id rid si' my'] assms(1,3) by (auto simp: case_prod_beta)
  have "fold join (concat (map ?e ms)) (peer_view si) = fold join (concat (map ?e ms')) (peer_view si)"
    by (rule fold_join_same) (use assms(5,6) in \<open>auto simp: case_prod_beta\<close>)
  then show ?thesis using r r' assms(4) by auto
qed

lemma connected_loop_None:
  "j < length pvs \<Longrightarrow> get_bit bm (peer_idx * length (peer_ids bm) + (idx + j)) = None \<Longrightarrow> connected_loop bm peer_idx idx pvs = None"
proof (induction pvs arbitrary: idx j)
  case (Cons pv pvs)
  show ?case
  proof (cases j)
    case 0
    then show ?thesis using Cons.prems by simp
  next
    case (Suc k)
    then have "connected_loop bm peer_idx (Suc idx) pvs = None" using Cons.IH [of k "Suc idx"] Cons.prems by simp
    then show ?thesis by (cases "get_bit bm (peer_idx * length (peer_ids bm) + idx)") simp_all
  qed
qed simp

lemma bitmap_loop_None:
  "j < length pvs \<Longrightarrow> bitmap_connected_peers bm (i + j) = None \<Longrightarrow> bitmap_loop ver now bm i pvs need si = None"
proof (induction pvs arbitrary: i j need si)
  case (Cons pv pvs)
  show ?case
  proof (cases j)
    case (Suc k)
    then have "bitmap_loop ver now bm (Suc i) pvs need si = None" for need and si :: "'a SyncedRouteInfo"
      using Cons.IH [of k "Suc i"] Cons.prems by simp
    then show ?thesis by (cases "bitmap_connected_peers bm i") (simp_all add: Let_def split: prod.split)
  qed (use Cons.prems in simp)
qed simp

lemma short_bitmap_row:
  assumes "\<not> conn_ok (ConnBitmap bm)"
  shows "peer_ids bm \<noteq> [] \<and> bitmap_connected_peers bm (length (peer_ids bm) - 1) = None"
proof -
  let ?n = "length (peer_ids bm)"
  have n: "8 * length (bitmap bm) < ?n * ?n" using assms by simp
  then have "0 < ?n" by auto
  moreover have "(?n - 1) * ?n + (?n - 1) = ?n * ?n - 1" using \<open>0 < ?n\<close> by (cases ?n) auto
  then have "get_bit bm ((?n - 1) * ?n + (0 + (?n - 1))) = None" using n by (simp add: get_bit_def Let_def)
  ultimately show ?thesis unfolding bitmap_connected_peers_def
    by (auto intro: connected_loop_None [of "?n - 1"])
qed

text \<open>
  Whether a received connection message is processed depends on its shape alone, and a bitmap with fewer
  than \<open>n * n\<close> bits for its \<open>n\<close> peers always panics the receiving task.
\<close>

theorem conn_info_panics_iff_short: "update_conn_info ver now ci si = None \<longleftrightarrow> \<not> conn_ok ci"
proof (cases "conn_ok ci")
  case True
  then show ?thesis using update_conn_info_join [OF True, of ver now si] by auto
next
  case False
  then obtain bm where ci: "ci = ConnBitmap bm" by (cases ci) auto
  have "bitmap_loop ver now bm 0 (peer_ids bm) need s = None" for need and s :: "'a SyncedRouteInfo"
    using bitmap_loop_None [of "length (peer_ids bm) - 1" "peer_ids bm" bm 0] short_bitmap_row [of bm] False ci by simp
  then show ?thesis using False by (simp add: ci update_conn_info_def update_conn_info_with_bitmap_def)
qed

text \<open>A newer description of our own id with another route id panics.\<close>

lemma duplicate_id_panics:
  assumes "peer_id info = my" and "peer_route_id info \<noteq> my_route"
    and "get_peer_info_version_with_default si my < version info"
  shows "update_peer_infos raw_id now my my_route dst (info # infos) (raw # raws) si = None"
  using assms by (simp add: update_peer_infos_def check_duplicate_peer_id_def)

section \<open>Examples\<close>

definition empty_info :: "'raw SyncedRouteInfo" where
  "empty_info = \<lparr>peer_infos = [], raw_peer_infos = Map.empty, conn_map = [], foreign_network = [],
     group_trust_map = Map.empty, group_trust_map_cache = Map.empty, trusted_keys = Map.empty,
     non_reusable_credential_owners = Map.empty, synced_version = 0\<rparr>"

definition demo_pc :: "u32 \<Rightarrow> u32 \<Rightarrow> u32 list \<Rightarrow> PeerConnInfo" where
  "demo_pc p v ps = \<lparr>pc_peer_id = Some \<lparr>pv_peer_id = p, pv_version = v\<rparr>, connected_peer_ids = ps\<rparr>"

text \<open>An old and a new list of peer 1, in both orders.\<close>

theorem topology_converges_witness:
  "\<exists>r r'. apply_all (\<lambda>(now, ci). update_conn_info ''v'' now ci)
      [(5, ConnPeerList [demo_pc 1 1 [2]]), (6, ConnPeerList [demo_pc 1 2 [3]])] (empty_info :: unit SyncedRouteInfo) = Some r \<and>
    apply_all (\<lambda>(now, ci). update_conn_info ''v'' now ci)
      [(7, ConnPeerList [demo_pc 1 2 [3], demo_pc 1 1 [2]])] (empty_info :: unit SyncedRouteInfo) = Some r' \<and> conn_view r = conn_view r'"
  by (rule topology_converges) (auto simp: demo_pc_def consistent_def List.map_filter_simps)

definition demo_info :: "u32 \<Rightarrow> u32 \<Rightarrow> RoutePeerInfo" where
  "demo_info p v = (route_peer_info_new ''v'')\<lparr>peer_id := p, version := v, peer_route_id := ucast p\<rparr>"

theorem descriptions_converge_witness:
  "\<exists>r r'. apply_all (receive_report Some 9 9) [(5, 2, [demo_info 1 3], [1]), (6, 1, [demo_info 1 4], [1])] empty_info = Some r \<and>
    apply_all (receive_report Some 8 8) [(6, 1, [demo_info 1 4, demo_info 1 3], [1, 1])] empty_info = Some r' \<and> peer_view r = peer_view r'"
proof -
  have e: "route_ids_ok ucast (empty_info :: u32 SyncedRouteInfo)" by (simp add: route_ids_ok_def empty_info_def)
  have "\<exists>r r'. apply_all (receive_report Some 9 (ucast (9 :: u32))) [(5, 2, [demo_info 1 3], [1]), (6, 1, [demo_info 1 4], [1])] empty_info = Some r \<and>
    apply_all (receive_report Some 8 (ucast (8 :: u32))) [(6, 1, [demo_info 1 4, demo_info 1 3], [1, 1])] empty_info = Some r' \<and> peer_view r = peer_view r'"
    by (rule descriptions_converge [OF _ e e refl])
      (auto simp: peers_ok_def peer_entries_def demo_info_def route_peer_info_new_def consistent_def)
  then show ?thesis by simp
qed

end
