(* ===== verification/Route_Table.thy ===== *)
theory Route_Table
  imports Graph_Algo Route_Info
begin

text \<open>
  \<open>peers/peer_ospf_route.rs\<close>, second part: \<open>RouteTable\<close>, computed from the synced information. Parameters:
  \<open>pop\<close> of the heap (theory \<open>Graph_Algo\<close>), \<open>dijkstra\<close> of \<open>petgraph\<close>, the CIDR type and the longest-prefix
  lookup of its prefix map, and the cost calculator. \<open>usize\<close> costs are 64-bit words.
\<close>

section \<open>The peer graph\<close>

text \<open>\<open>petgraph\<close>'s \<open>Graph\<close>: the weights of the nodes by index, and the edges as source, target and weight.\<close>

type_synonym graph_edge = "nat \<times> nat \<times> u64"

record PeerGraph =
  node_weights :: "PeerId list"
  graph_edges :: "graph_edge list"

definition node_weight :: "PeerGraph \<Rightarrow> nat \<Rightarrow> PeerId option" where
  "node_weight g i = (if i < length (node_weights g) then Some (node_weights g ! i) else None)"

definition edges_of :: "PeerGraph \<Rightarrow> nat \<Rightarrow> graph_edge list" where
  "edges_of g u = filter (\<lambda>(s, _, _). s = u) (rev (graph_edges g))"

definition edge_target :: "graph_edge \<Rightarrow> nat" where
  "edge_target e = fst (snd e)"

definition edge_weight :: "graph_edge \<Rightarrow> u64" where
  "edge_weight e = snd (snd e)"

definition NodeIndex_end :: nat where
  "NodeIndex_end = 2 ^ 32 - 1"

definition AVOID_RELAY_COST :: u64 where
  "AVOID_RELAY_COST = 0x7FFFFFFF"

text \<open>\<open>calculate_cost\<close> returns an \<open>i32\<close>; \<open>as usize\<close> extends its sign. \<open>DefaultRouteCostCalculator\<close> is constant.\<close>

type_synonym cost_calculator = "PeerId \<Rightarrow> PeerId \<Rightarrow> u32"

definition DefaultRouteCostCalculator :: cost_calculator where
  "DefaultRouteCostCalculator src dst = 1"

definition edge_cost_of :: "'raw SyncedRouteInfo \<Rightarrow> cost_calculator \<Rightarrow> PeerId \<Rightarrow> PeerId \<Rightarrow> u64" where
  "edge_cost_of si cost_calc src dst =
     (let cost = scast (cost_calc src dst) in if get_avoid_relay_data si src then cost + AVOID_RELAY_COST else cost)"

text \<open>Peers of version 0 are placeholders and no nodes. The index map is that of the nodes.\<close>

definition known_peers :: "'raw SyncedRouteInfo \<Rightarrow> PeerId list" where
  "known_peers si = map fst (filter (\<lambda>(_, info). version info \<noteq> 0) (peer_infos si))"

definition node_index :: "PeerId list \<Rightarrow> PeerId \<Rightarrow> nat option" where
  "node_index ps p = map_of (zip ps [0..<length ps]) p"

definition edges_from :: "'raw SyncedRouteInfo \<Rightarrow> cost_calculator \<Rightarrow> PeerId list \<Rightarrow> PeerId \<times> nat \<Rightarrow> graph_edge list" where
  "edges_from si cost_calc ps = (\<lambda>(src, src_idx).
     List.map_filter (\<lambda>dst. case node_index ps dst of
         None \<Rightarrow> None | Some dst_idx \<Rightarrow> Some (src_idx, dst_idx, edge_cost_of si cost_calc src dst))
       (sorted_list_of_set (case get_connected_peers si src of Some cs \<Rightarrow> cs | None \<Rightarrow> {})))"

definition build_peer_graph_from_synced_info :: "PeerId \<Rightarrow> 'raw SyncedRouteInfo \<Rightarrow> cost_calculator \<Rightarrow> PeerGraph \<times> nat" where
  "build_peer_graph_from_synced_info my_peer_id si cost_calc =
     (let ps = known_peers si in
      case node_index ps my_peer_id of
        None \<Rightarrow> (\<lparr>node_weights = ps, graph_edges = []\<rparr>, NodeIndex_end)
      | Some start \<Rightarrow> (\<lparr>node_weights = ps,
          graph_edges = concat (map (edges_from si cost_calc ps) (zip ps [0..<length ps]))\<rparr>, start))"

section \<open>The table\<close>

record NextHopInfo =
  next_hop_peer_id :: PeerId
  path_latency :: u32
  path_len :: nat
  hop_version :: Version

text \<open>The CIDR types and the longest-prefix match of their prefix maps are third-party code.\<close>

record ('c4, 'c6) cidr_ops =
  parse_cidr :: "string \<Rightarrow> ('c4 + 'c6) option"
  first4 :: "'c4 \<Rightarrow> u32"
  last4 :: "'c4 \<Rightarrow> u32"
  first6 :: "'c6 \<Rightarrow> 128 word"
  last6 :: "'c6 \<Rightarrow> 128 word"
  lpm4 :: "('c4 \<times> PeerIdVersion) list \<Rightarrow> u32 \<Rightarrow> ('c4 \<times> PeerIdVersion) option"
  lpm6 :: "('c6 \<times> PeerIdVersion) list \<Rightarrow> 128 word \<Rightarrow> ('c6 \<times> PeerIdVersion) option"

record ('c4, 'c6) RouteTable =
  rt_peer_infos :: "PeerId \<rightharpoonup> RoutePeerInfo"
  next_hop_map :: "(PeerId \<times> NextHopInfo) list"
  ipv4_peer_id_map :: "u32 \<rightharpoonup> PeerIdVersion"
  ipv6_peer_id_map :: "128 word \<rightharpoonup> PeerIdVersion"
  cidr_peer_id_map :: "('c4 \<times> PeerIdVersion) list"
  cidr_v6_peer_id_map :: "('c6 \<times> PeerIdVersion) list"
  next_hop_map_version :: Version

definition route_table_new :: "('c4, 'c6) RouteTable" where
  "route_table_new = \<lparr>rt_peer_infos = Map.empty, next_hop_map = [], ipv4_peer_id_map = Map.empty,
     ipv6_peer_id_map = Map.empty, cidr_peer_id_map = [], cidr_v6_peer_id_map = [], next_hop_map_version = 0\<rparr>"

definition get_next_hop :: "('c4, 'c6) RouteTable \<Rightarrow> PeerId \<Rightarrow> NextHopInfo option" where
  "get_next_hop rt dst = (case map_of (next_hop_map rt) dst of
     Some x \<Rightarrow> if hop_version x \<ge> next_hop_map_version rt then Some x else None
   | None \<Rightarrow> None)"

definition peer_reachable :: "('c4, 'c6) RouteTable \<Rightarrow> PeerId \<Rightarrow> bool" where
  "peer_reachable rt p \<longleftrightarrow> get_next_hop rt p \<noteq> None"

definition clean_expired_route_info :: "('c4, 'c6) RouteTable \<Rightarrow> ('c4, 'c6) RouteTable" where
  "clean_expired_route_info rt =
     (let hops = filter (\<lambda>(_, v). hop_version v \<ge> next_hop_map_version rt) (next_hop_map rt);
          keep = (\<lambda>p. map_of hops p \<noteq> None)
      in rt\<lparr>next_hop_map := hops,
            rt_peer_infos := (\<lambda>p. if keep p then rt_peer_infos rt p else None),
            ipv4_peer_id_map := (\<lambda>a. case ipv4_peer_id_map rt a of
              Some v \<Rightarrow> if keep (pv_peer_id v) then Some v else None | None \<Rightarrow> None),
            ipv6_peer_id_map := (\<lambda>a. case ipv6_peer_id_map rt a of
              Some v \<Rightarrow> if keep (pv_peer_id v) then Some v else None | None \<Rightarrow> None)\<rparr>)"

text \<open>
  The loop that stores the next hops. It runs over a hash map, in an order that does not matter as the
  destinations differ; here over the indices of the nodes.
\<close>

fun store_hops :: "PeerGraph \<Rightarrow> (nat \<rightharpoonup> u64) \<Rightarrow> (nat \<rightharpoonup> nat \<times> nat) \<Rightarrow> Version \<Rightarrow> nat list \<Rightarrow> (PeerId \<times> NextHopInfo) list
    \<Rightarrow> (PeerId \<times> NextHopInfo) list may_panic" where
  "store_hops g costs next_hops ver [] m = Some m"
| "store_hops g costs next_hops ver (dst # dsts) m = (case next_hops dst of
     None \<Rightarrow> store_hops g costs next_hops ver dsts m
   | Some (next_hop, plen) \<Rightarrow> do {
       hop_peer \<leftarrow> node_weight g next_hop;
       c \<leftarrow> costs dst;
       let info = \<lparr>next_hop_peer_id = hop_peer, path_latency = ucast (c mod AVOID_RELAY_COST), path_len = plen, hop_version = ver\<rparr>;
       dst_peer \<leftarrow> node_weight g dst;
       store_hops g costs next_hops ver dsts
         (case map_of m dst_peer of
            Some x \<Rightarrow> if hop_version x < ver then AList.update dst_peer info m else m
          | None \<Rightarrow> AList.update dst_peer info m) })"

definition gen_next_hop_map_with_least_cost :: "((u64 \<times> nat) list \<Rightarrow> ((u64 \<times> nat) \<times> (u64 \<times> nat) list) option)
    \<Rightarrow> PeerGraph \<Rightarrow> nat \<Rightarrow> Version \<Rightarrow> ('c4, 'c6) RouteTable \<Rightarrow> ('c4, 'c6) RouteTable may_panic" where
  "gen_next_hop_map_with_least_cost pop g start ver rt =
     (if node_weight g start = None then Some rt
      else do {
        (costs, next_hops) \<leftarrow> dijkstra_with_first_hop pop (edges_of g) edge_target edge_weight start;
        hops \<leftarrow> store_hops g costs next_hops ver [0..<length (node_weights g)] (next_hop_map rt);
        Some (rt\<lparr>next_hop_map := hops, next_hop_map_version := fst (set_if_larger ver (next_hop_map_version rt))\<rparr>) })"

definition normalize_edge_cost :: "graph_edge \<Rightarrow> u64" where
  "normalize_edge_cost e = (if edge_weight e \<ge> AVOID_RELAY_COST then AVOID_RELAY_COST + 1 else 1)"

type_synonym petgraph_dijkstra = "(nat \<Rightarrow> graph_edge list) \<Rightarrow> (graph_edge \<Rightarrow> nat) \<Rightarrow> (graph_edge \<Rightarrow> u64) \<Rightarrow> nat \<Rightarrow> (nat \<rightharpoonup> u64)"

definition least_hop_subgraph :: "(nat \<rightharpoonup> u64) \<Rightarrow> PeerGraph \<Rightarrow> PeerGraph" where
  "least_hop_subgraph path_len_map g = g\<lparr>graph_edges := filter (\<lambda>e. case (path_len_map (fst e), path_len_map (edge_target e)) of
     (Some src_path_len, Some tgt_path_len) \<Rightarrow> src_path_len + normalize_edge_cost e = tgt_path_len | _ \<Rightarrow> False) (graph_edges g)\<rparr>"

definition gen_next_hop_map_with_least_hop :: "petgraph_dijkstra \<Rightarrow> ((u64 \<times> nat) list \<Rightarrow> ((u64 \<times> nat) \<times> (u64 \<times> nat) list) option)
    \<Rightarrow> PeerGraph \<Rightarrow> nat \<Rightarrow> Version \<Rightarrow> ('c4, 'c6) RouteTable \<Rightarrow> ('c4, 'c6) RouteTable may_panic" where
  "gen_next_hop_map_with_least_hop dijkstra pop g start ver rt =
     (if node_weight g start = None then Some rt
      else let path_len_map = dijkstra (edges_of g) edge_target normalize_edge_cost start
           in gen_next_hop_map_with_least_cost pop (least_hop_subgraph path_len_map g) start ver rt)"

section \<open>Building the table\<close>

definition cidr_is_subset :: "('c4, 'c6) cidr_ops \<Rightarrow> 'c4 + 'c6 \<Rightarrow> 'c4 + 'c6 \<Rightarrow> bool" where
  "cidr_is_subset ops child parent = (case (child, parent) of
     (Inl c, Inl p) \<Rightarrow> first4 ops p \<le> first4 ops c \<and> last4 ops c \<le> last4 ops p
   | (Inr c, Inr p) \<Rightarrow> first6 ops p \<le> first6 ops c \<and> last6 ops c \<le> last6 ops p
   | _ \<Rightarrow> False)"

definition cidr_is_subset_str :: "('c4, 'c6) cidr_ops \<Rightarrow> string \<Rightarrow> string \<Rightarrow> bool" where
  "cidr_is_subset_str ops child parent = (case parse_cidr ops child of
     None \<Rightarrow> False
   | Some c \<Rightarrow> (case parse_cidr ops parent of None \<Rightarrow> False | Some p \<Rightarrow> cidr_is_subset ops c p))"

definition is_new_peer_better :: "('c4, 'c6) RouteTable \<Rightarrow> PeerIdVersion \<Rightarrow> NextHopInfo \<Rightarrow> PeerIdVersion \<Rightarrow> bool" where
  "is_new_peer_better rt new item old =
     (if pv_version new > pv_version old then True
      else if pv_peer_id new = pv_peer_id old then False
      else case get_next_hop rt (pv_peer_id old) of None \<Rightarrow> True | Some o_hop \<Rightarrow> path_len item < path_len o_hop)"

text \<open>\<open>entry(..).and_modify(..).or_insert(..)\<close>\<close>

definition claim_entry :: "('v \<Rightarrow> bool) \<Rightarrow> 'v \<Rightarrow> 'v option \<Rightarrow> 'v" where
  "claim_entry better new old = (case old of Some v \<Rightarrow> if better v then new else v | None \<Rightarrow> new)"

type_synonym ('c4, 'c6) tries = "('c4 \<times> PeerIdVersion) list \<times> ('c6 \<times> PeerIdVersion) list"

definition add_cidr :: "('c4, 'c6) cidr_ops \<Rightarrow> PeerId \<Rightarrow> ('c4 + 'c6) list \<Rightarrow> (PeerIdVersion \<Rightarrow> bool) \<Rightarrow> PeerIdVersion \<Rightarrow> string
    \<Rightarrow> ('c4, 'c6) tries \<Rightarrow> ('c4, 'c6) tries" where
  "add_cidr ops my_peer_id local_cidrs better new str tries = (case parse_cidr ops str of
     None \<Rightarrow> tries
   | Some cidr \<Rightarrow>
       if pv_peer_id new \<noteq> my_peer_id \<and> list_ex (cidr_is_subset ops cidr) local_cidrs then tries
       else let better = (\<lambda>e. pv_peer_id new = my_peer_id \<or> better e) in
         (case cidr of
            Inl c \<Rightarrow> (AList.update c (claim_entry better new (map_of (fst tries) c)) (fst tries), snd tries)
          | Inr c \<Rightarrow> (fst tries, AList.update c (claim_entry better new (map_of (snd tries) c)) (snd tries))))"

definition add_peer :: "('c4, 'c6) cidr_ops \<Rightarrow> PeerId \<Rightarrow> 'raw SyncedRouteInfo \<Rightarrow> Version \<Rightarrow> ('c4 + 'c6) list \<Rightarrow> PeerId \<times> NextHopInfo
    \<Rightarrow> ('c4, 'c6) RouteTable \<times> ('c4, 'c6) tries \<Rightarrow> ('c4, 'c6) RouteTable \<times> ('c4, 'c6) tries" where
  "add_peer ops my_peer_id si ver local_cidrs = (\<lambda>(p, item) (rt, tries).
     if hop_version item < ver then (rt, tries)
     else case map_of (peer_infos si) p of
       None \<Rightarrow> (rt, tries)
     | Some info \<Rightarrow>
         let new = \<lparr>pv_peer_id = p, pv_version = ver\<rparr>;
             better = is_new_peer_better rt new item;
             rt = rt\<lparr>rt_peer_infos := (rt_peer_infos rt)(p \<mapsto> info)\<rparr>;
             rt = (case ipv4_addr info of None \<Rightarrow> rt
               | Some a \<Rightarrow> rt\<lparr>ipv4_peer_id_map := (ipv4_peer_id_map rt)(a \<mapsto> claim_entry better new (ipv4_peer_id_map rt a))\<rparr>);
             rt = (case Option.bind (ipv6_addr info) v6_address of None \<Rightarrow> rt
               | Some a \<Rightarrow> rt\<lparr>ipv6_peer_id_map := (ipv6_peer_id_map rt)(a \<mapsto> claim_entry better new (ipv6_peer_id_map rt a))\<rparr>);
             rt = (case Option.bind (ipv6_public_addr_lease info) v6_address of None \<Rightarrow> rt
               | Some a \<Rightarrow> rt\<lparr>ipv6_peer_id_map := (ipv6_peer_id_map rt)(a \<mapsto> claim_entry better new (ipv6_peer_id_map rt a))\<rparr>)
         in (rt, fold (add_cidr ops my_peer_id local_cidrs better new) (proxy_cidrs info) tries))"

datatype NextHopPolicy = LeastHop | LeastCost

definition local_proxy_cidrs :: "('c4, 'c6) cidr_ops \<Rightarrow> PeerId \<Rightarrow> 'raw SyncedRouteInfo \<Rightarrow> ('c4 + 'c6) list" where
  "local_proxy_cidrs ops my_peer_id si = (case map_of (peer_infos si) my_peer_id of
     Some info \<Rightarrow> List.map_filter (parse_cidr ops) (proxy_cidrs info) | None \<Rightarrow> [])"

definition skip_rebuild :: "Version \<Rightarrow> ('c4, 'c6) RouteTable \<Rightarrow> ('c4, 'c6) RouteTable" where
  "skip_rebuild ver rt = clean_expired_route_info
     (rt\<lparr>next_hop_map_version := fst (set_if_larger ver (next_hop_map_version rt))\<rparr>)"

definition build_from_synced_info :: "('c4, 'c6) cidr_ops \<Rightarrow> petgraph_dijkstra
    \<Rightarrow> ((u64 \<times> nat) list \<Rightarrow> ((u64 \<times> nat) \<times> (u64 \<times> nat) list) option) \<Rightarrow> PeerId \<Rightarrow> 'raw SyncedRouteInfo \<Rightarrow> NextHopPolicy
    \<Rightarrow> cost_calculator \<Rightarrow> ('c4, 'c6) RouteTable \<Rightarrow> ('c4, 'c6) RouteTable may_panic" where
  "build_from_synced_info ops dijkstra pop my_peer_id si policy cost_calc rt =
     (let ver = synced_version si;
          local_cidrs = local_proxy_cidrs ops my_peer_id si;
          (g, start) = build_peer_graph_from_synced_info my_peer_id si cost_calc
      in if node_weights g = [] then Some (skip_rebuild ver rt)
         else if start = NodeIndex_end then Some (skip_rebuild ver rt)
         else do {
           rt \<leftarrow> (if policy = LeastHop then gen_next_hop_map_with_least_hop dijkstra pop g start ver rt
                 else gen_next_hop_map_with_least_cost pop g start ver rt);
           let (rt, t4, t6) = fold (add_peer ops my_peer_id si ver local_cidrs) (next_hop_map rt) (rt, [], []);
           Some (rt\<lparr>cidr_peer_id_map := t4, cidr_v6_peer_id_map := t6\<rparr>) })"

definition get_peer_id_for_proxy :: "('c4, 'c6) cidr_ops \<Rightarrow> ('c4, 'c6) RouteTable \<Rightarrow> u32 + 128 word \<Rightarrow> PeerId option" where
  "get_peer_id_for_proxy ops rt ip = (case ip of
     Inl ip4 \<Rightarrow> map_option (\<lambda>x. pv_peer_id (snd x)) (lpm4 ops (cidr_peer_id_map rt) ip4)
   | Inr ip6 \<Rightarrow> map_option (\<lambda>x. pv_peer_id (snd x)) (lpm6 ops (cidr_v6_peer_id_map rt) ip6))"

end
