(* ===== verification/Route_Paths.thy ===== *)
theory Route_Paths
  imports Route_Table
begin

text \<open>
  Correctness of the next hops. Paths through the network are lists of edges; a table built from the synced
  information of a node has an entry for exactly the peers that a path leads to, and the entry is the first
  hop of a best path: of least cost, or of the fewest hops (with peers that avoid relaying as a last
  resort) and among these of least cost. With tables built from the same information, forwarding hop by
  hop always arrives.
\<close>

section \<open>Paths\<close>

fun is_path :: "('n \<Rightarrow> 'e list) \<Rightarrow> ('e \<Rightarrow> 'n) \<Rightarrow> 'n \<Rightarrow> 'e list \<Rightarrow> 'n \<Rightarrow> bool" where
  "is_path edges target s [] v \<longleftrightarrow> s = v"
| "is_path edges target s (e # es) v \<longleftrightarrow> e \<in> set (edges s) \<and> is_path edges target (target e) es v"

definition path_hop :: "('e \<Rightarrow> 'n) \<Rightarrow> 'n \<Rightarrow> 'e list \<Rightarrow> 'n" where
  "path_hop target s es = (case es of [] \<Rightarrow> s | e # _ \<Rightarrow> target e)"

abbreviation path_cost :: "('e \<Rightarrow> u64) \<Rightarrow> 'e list \<Rightarrow> nat" where
  "path_cost wt es \<equiv> (\<Sum>e\<leftarrow>es. unat (wt e))"

definition least_path :: "('n \<Rightarrow> 'e list) \<Rightarrow> ('e \<Rightarrow> 'n) \<Rightarrow> ('e \<Rightarrow> u64) \<Rightarrow> 'n \<Rightarrow> 'e list \<Rightarrow> 'n \<Rightarrow> bool" where
  "least_path edges target wt s es v \<longleftrightarrow> is_path edges target s es v \<and>
     (\<forall>es'. is_path edges target s es' v \<longrightarrow> path_cost wt es \<le> path_cost wt es')"

lemma is_path_append:
  "is_path edges target s (es @ es') v \<longleftrightarrow> (\<exists>u. is_path edges target s es u \<and> is_path edges target u es' v)"
  by (induction es arbitrary: s) auto

lemma path_hop_append: "path_hop target s (es @ [e]) = (if es = [] then target e else path_hop target s es)"
  by (cases es) (auto simp: path_hop_def)

lemma walk_is_path:
  "walk edges target wt s v c h f \<Longrightarrow>
   \<exists>es. is_path edges target s es v \<and> c = sum_list (map wt es) \<and> h = length es \<and> f = path_hop target s es"
proof (induction rule: walk.induct)
  case walk_start
  show ?case by (rule exI [of _ "[]"]) (simp add: path_hop_def)
next
  case (walk_step u c h f e)
  then obtain es where "is_path edges target s es u" "c = sum_list (map wt es)" "h = length es" "f = path_hop target s es" by blast
  then show ?case using walk_step.hyps(2) by (intro exI [of _ "es @ [e]"]) (auto simp: is_path_append path_hop_append)
qed

lemma is_path_walk:
  "is_path edges target s es v \<Longrightarrow> walk edges target wt s v (sum_list (map wt es)) (length es) (path_hop target s es)"
proof (induction es arbitrary: v rule: rev_induct)
  case Nil
  then show ?case using walk_start [of edges target wt s] by (simp add: path_hop_def)
next
  case (snoc e es)
  then obtain u where "is_path edges target s es u" "e \<in> set (edges u)" "v = target e" by (auto simp: is_path_append)
  then show ?case using walk_step [OF snoc.IH, of u e] by (simp add: path_hop_append)
qed

lemma least_path_cost: "least_path edges target wt s es v \<Longrightarrow> least_path edges target wt s es' v \<Longrightarrow> path_cost wt es = path_cost wt es'"
  unfolding least_path_def by (meson order_antisym)

text \<open>A suffix of a least path is a least path.\<close>

lemma least_path_suffix:
  assumes "least_path edges target wt s (e # es) v"
  shows "least_path edges target wt (target e) es v"
  unfolding least_path_def
proof (intro conjI allI impI)
  show "is_path edges target (target e) es v" using assms by (simp add: least_path_def)
  fix es' assume "is_path edges target (target e) es' v"
  then have "is_path edges target s (e # es') v" using assms by (simp add: least_path_def)
  then have "path_cost wt (e # es) \<le> path_cost wt (e # es')" using assms unfolding least_path_def by blast
  then show "path_cost wt es \<le> path_cost wt es'" by simp
qed

text \<open>The search in terms of paths.\<close>

lemma dijkstra_paths:
  assumes "score_queue pop" and "graph_ok edges target wt N C" and "s \<in> N"
  shows "\<exists>sc fh. dijkstra_with_first_hop pop edges target wt s = Some (sc, fh) \<and>
    (\<forall>v. case fh v of
       None \<Rightarrow> sc v = None \<and> (\<nexists>es. is_path edges target s es v)
     | Some (f, h) \<Rightarrow> \<exists>es d. least_path edges target wt s es v \<and> f = path_hop target s es \<and> h = length es \<and>
         h \<le> card N \<and> sc v = Some d \<and> unat d = path_cost wt es)"
proof -
  let ?w = "walk edges target (\<lambda>e. unat (wt e)) s"
  obtain sc fh where D: "dijkstra_with_first_hop pop edges target wt s = Some (sc, fh)"
      "\<forall>v. sc v = None \<longleftrightarrow> (\<nexists>c h f. ?w v c h f)" "\<forall>v. sc v = None \<longrightarrow> fh v = None"
      "\<forall>v d. sc v = Some d \<longrightarrow> (\<exists>f h. fh v = Some (f, h) \<and> h \<le> card N \<and> ?w v (unat d) h f) \<and>
        (\<forall>c h f. ?w v c h f \<longrightarrow> unat d \<le> c)"
    using score_queue.dijkstra_correct [OF assms] by blast
  have "case fh v of None \<Rightarrow> sc v = None \<and> (\<nexists>es. is_path edges target s es v)
     | Some (f, h) \<Rightarrow> \<exists>es d. least_path edges target wt s es v \<and> f = path_hop target s es \<and> h = length es \<and>
         h \<le> card N \<and> sc v = Some d \<and> unat d = path_cost wt es" for v
  proof (cases "sc v")
    case None
    then have "\<nexists>es. is_path edges target s es v" using D(2) is_path_walk [of edges target s _ v] by blast
    then show ?thesis using None D(3) by simp
  next
    case (Some d)
    obtain f h where fh: "fh v = Some (f, h)" "?w v (unat d) h f" "h \<le> card N" using D(4) [rule_format, OF Some] by blast
    obtain es where es: "is_path edges target s es v" "unat d = path_cost wt es" "h = length es" "f = path_hop target s es"
      using walk_is_path [OF fh(2)] by auto
    have "unat d \<le> path_cost wt es'" if "is_path edges target s es' v" for es'
      using D(4) [rule_format, OF Some] is_path_walk [OF that, of "\<lambda>e. unat (wt e)"] by blast
    then have "least_path edges target wt s es v" using es by (simp add: least_path_def)
    then show ?thesis using fh(1,3) es Some by auto
  qed
  then show ?thesis using D(1) by blast
qed

lemma short_least_path:
  assumes "graph_ok edges target wt N C" and "s \<in> N" and "is_path edges target s es v"
  shows "\<exists>es'. least_path edges target wt s es' v \<and> length es' \<le> card N"
proof -
  obtain sc fh where "\<forall>v. case fh v of
       None \<Rightarrow> sc v = None \<and> (\<nexists>es. is_path edges target s es v)
     | Some (f, h) \<Rightarrow> \<exists>es d. least_path edges target wt s es v \<and> f = path_hop target s es \<and> h = length es \<and>
         h \<le> card N \<and> sc v = Some (d :: u64) \<and> unat d = path_cost wt es"
    using dijkstra_paths [OF route_heap.score_queue_axioms assms(1,2)] by auto
  then have "case fh v of
       None \<Rightarrow> sc v = None \<and> (\<nexists>es. is_path edges target s es v)
     | Some (f, h) \<Rightarrow> \<exists>es d. least_path edges target wt s es v \<and> f = path_hop target s es \<and> h = length es \<and>
         h \<le> card N \<and> sc v = Some (d :: u64) \<and> unat d = path_cost wt es" ..
  then show ?thesis using assms(3) by (cases "fh v") auto
qed

section \<open>Storing the next hops\<close>

definition graph_wf :: "PeerGraph \<Rightarrow> nat \<Rightarrow> bool" where
  "graph_wf g C \<longleftrightarrow> distinct (node_weights g) \<and> length (node_weights g) * C < 2 ^ 64 \<and>
     (\<forall>(u, v, w)\<in>set (graph_edges g). u < length (node_weights g) \<and> v < length (node_weights g) \<and> unat w \<le> C)"

lemma set_edges_of: "set (edges_of g u) = {e \<in> set (graph_edges g). fst e = u}"
  by (auto simp: edges_of_def)

lemma graph_wf_ok: "graph_wf g C \<Longrightarrow> graph_ok (edges_of g) edge_target edge_weight {..<length (node_weights g)} C"
  by (auto simp: graph_wf_def graph_ok_def set_edges_of edge_target_def edge_weight_def)

lemma path_in_range:
  assumes "graph_wf g C"
  shows "s < length (node_weights g) \<Longrightarrow> is_path (edges_of g) edge_target s es v \<Longrightarrow> v < length (node_weights g)"
proof (induction es arbitrary: s)
  case (Cons e es)
  then have "edge_target e < length (node_weights g)"
    using assms by (auto simp: graph_wf_def set_edges_of edge_target_def)
  then show ?case using Cons by simp
qed simp

lemma path_hop_in_range:
  assumes "graph_wf g C" and "s < length (node_weights g)" and "is_path (edges_of g) edge_target s es v"
  shows "path_hop edge_target s es < length (node_weights g)"
  using assms by (cases es) (auto simp: path_hop_def graph_wf_def set_edges_of edge_target_def)

definition hop_entry :: "PeerGraph \<Rightarrow> (nat \<rightharpoonup> u64) \<Rightarrow> Version \<Rightarrow> nat \<Rightarrow> nat \<times> nat \<Rightarrow> NextHopInfo" where
  "hop_entry g costs ver i = (\<lambda>(nh, l). \<lparr>next_hop_peer_id = node_weights g ! nh,
     path_latency = ucast (the (costs i) mod AVOID_RELAY_COST), path_len = l, hop_version = ver\<rparr>)"

lemma store_hops_spec:
  assumes "distinct (node_weights g)"
  shows "set ds \<subseteq> {..<length (node_weights g)} \<Longrightarrow> distinct ds \<Longrightarrow>
    \<forall>i\<in>set ds. \<forall>nh l. nhs i = Some (nh, l) \<longrightarrow> nh < length (node_weights g) \<and> costs i \<noteq> None \<Longrightarrow>
    \<forall>p\<in>(!) (node_weights g) ` set ds. \<forall>x. map_of m p = Some x \<longrightarrow> hop_version x < ver \<Longrightarrow>
    \<exists>m'. store_hops g costs nhs ver ds m = Some m' \<and> (keys_distinct m \<longrightarrow> keys_distinct m') \<and>
      (\<forall>i\<in>set ds. \<forall>r. nhs i = Some r \<longrightarrow> map_of m' (node_weights g ! i) = Some (hop_entry g costs ver i r)) \<and>
      (\<forall>p. (\<forall>i\<in>set ds. node_weights g ! i = p \<longrightarrow> nhs i = None) \<longrightarrow> map_of m' p = map_of m p)"
proof (induction ds arbitrary: m)
  case (Cons d ds)
  let ?ps = "node_weights g"
  have P: "set ds \<subseteq> {..<length ?ps}" "distinct ds"
      "\<forall>i\<in>set ds. \<forall>nh l. nhs i = Some (nh, l) \<longrightarrow> nh < length ?ps \<and> costs i \<noteq> None"
    using Cons.prems(1-3) by simp_all
  have inj: "?ps ! d \<noteq> ?ps ! i" "?ps ! i \<noteq> ?ps ! d" if "i \<in> set ds" for i
    using assms Cons.prems(1,2) that by (auto simp: nth_eq_iff_index_eq)
  show ?case
  proof (cases "nhs d")
    case None
    obtain m' where "store_hops g costs nhs ver ds m = Some m'" "keys_distinct m \<longrightarrow> keys_distinct m'"
        "\<forall>i\<in>set ds. \<forall>r. nhs i = Some r \<longrightarrow> map_of m' (?ps ! i) = Some (hop_entry g costs ver i r)"
        "\<forall>p. (\<forall>i\<in>set ds. ?ps ! i = p \<longrightarrow> nhs i = None) \<longrightarrow> map_of m' p = map_of m p"
      using Cons.IH [OF P, of m] Cons.prems(4) by auto
    then show ?thesis using None by auto
  next
    case (Some r)
    obtain nh l where r: "r = (nh, l)" by (cases r)
    have nh: "nh < length ?ps" "costs d \<noteq> None" "d < length ?ps" using Cons.prems(1,3) Some r by auto
    define m1 where "m1 = AList.update (?ps ! d) (hop_entry g costs ver d r) m"
    have "case map_of m (?ps ! d) of Some x \<Rightarrow> hop_version x < ver | None \<Rightarrow> True"
      using Cons.prems(4) by (auto split: option.splits)
    then have eq: "store_hops g costs nhs ver (d # ds) m = store_hops g costs nhs ver ds m1"
      using nh Some by (auto simp: r node_weight_def m1_def hop_entry_def Let_def split: option.splits)
    have "\<forall>p\<in>(!) ?ps ` set ds. \<forall>x. map_of m1 p = Some x \<longrightarrow> hop_version x < ver"
      using inj Cons.prems(4) by (auto simp: m1_def update_conv' split: if_splits)
    from Cons.IH [OF P this] obtain m' where m': "store_hops g costs nhs ver ds m1 = Some m'" "keys_distinct m1 \<longrightarrow> keys_distinct m'"
        "\<forall>i\<in>set ds. \<forall>r. nhs i = Some r \<longrightarrow> map_of m' (?ps ! i) = Some (hop_entry g costs ver i r)"
        "\<forall>p. (\<forall>i\<in>set ds. ?ps ! i = p \<longrightarrow> nhs i = None) \<longrightarrow> map_of m' p = map_of m1 p"
      by blast
    have "map_of m' (?ps ! d) = Some (hop_entry g costs ver d r)"
      using m'(4) inj by (auto simp: m1_def update_conv')
    moreover have "map_of m' p = map_of m p" if "\<forall>i\<in>set (d # ds). ?ps ! i = p \<longrightarrow> nhs i = None" for p
      using m'(4) that Some by (auto simp: m1_def update_conv')
    moreover have "keys_distinct m \<longrightarrow> keys_distinct m'" using m'(2) distinct_update [of m] by (simp add: m1_def)
    ultimately show ?thesis using m'(1,3) Some by (simp only: eq) auto
  qed
qed simp

text \<open>A table whose entries are older than the information it is rebuilt from.\<close>

definition older_than :: "Version \<Rightarrow> ('c4, 'c6) RouteTable \<Rightarrow> bool" where
  "older_than ver rt \<longleftrightarrow> keys_distinct (next_hop_map rt) \<and> next_hop_map_version rt \<le> ver \<and>
     (\<forall>p x. map_of (next_hop_map rt) p = Some x \<longrightarrow> hop_version x < ver)"

lemma older_than_new: "0 < ver \<Longrightarrow> older_than ver route_table_new"
  by (simp add: older_than_def route_table_new_def)

text \<open>What the table says of the node \<open>i\<close> of the graph, given a best path to it.\<close>

definition entry_for :: "PeerGraph \<Rightarrow> nat \<Rightarrow> Version \<Rightarrow> graph_edge list \<Rightarrow> NextHopInfo" where
  "entry_for g start ver es = \<lparr>next_hop_peer_id = node_weights g ! path_hop edge_target start es,
     path_latency = ucast (of_nat (path_cost edge_weight es) mod AVOID_RELAY_COST :: u64), path_len = length es, hop_version = ver\<rparr>"

lemma gen_least_cost_spec:
  assumes "score_queue pop" and G: "graph_wf g C" and start: "start < length (node_weights g)" and old: "older_than ver rt"
  shows "\<exists>hops. gen_next_hop_map_with_least_cost pop g start ver rt =
      Some (rt\<lparr>next_hop_map := hops, next_hop_map_version := ver\<rparr>) \<and> keys_distinct hops \<and>
    (\<forall>p. case get_next_hop (rt\<lparr>next_hop_map := hops, next_hop_map_version := ver\<rparr>) p of
       None \<Rightarrow> \<nexists>i es. i < length (node_weights g) \<and> node_weights g ! i = p \<and> is_path (edges_of g) edge_target start es i
     | Some x \<Rightarrow> \<exists>i es. i < length (node_weights g) \<and> node_weights g ! i = p \<and>
         least_path (edges_of g) edge_target edge_weight start es i \<and> x = entry_for g start ver es)"
proof -
  let ?n = "length (node_weights g)" and ?ps = "node_weights g"
  obtain sc fh where D: "dijkstra_with_first_hop pop (edges_of g) edge_target edge_weight start = Some (sc, fh)"
    "\<And>v. case fh v of
       None \<Rightarrow> sc v = None \<and> (\<nexists>es. is_path (edges_of g) edge_target start es v)
     | Some (f, h) \<Rightarrow> \<exists>es d. least_path (edges_of g) edge_target edge_weight start es v \<and> f = path_hop edge_target start es \<and>
         h = length es \<and> h \<le> card {..<?n} \<and> sc v = Some d \<and> unat d = path_cost edge_weight es"
    using dijkstra_paths [OF assms(1) graph_wf_ok [OF G], of start] start by blast
  have hop: "\<exists>es. least_path (edges_of g) edge_target edge_weight start es v \<and> nh < ?n \<and> sc v \<noteq> None \<and>
      hop_entry g sc ver v (nh, l) = entry_for g start ver es" if f: "fh v = Some (nh, l)" for v nh l
  proof -
    obtain es d where es: "least_path (edges_of g) edge_target edge_weight start es v" "nh = path_hop edge_target start es"
        "l = length es" "sc v = Some d" "unat d = path_cost edge_weight es"
      using D(2) [of v] f by auto
    have "d = of_nat (path_cost edge_weight es)" unfolding es(5) [symmetric] by simp
    then have "hop_entry g sc ver v (nh, l) = entry_for g start ver es" using es by (simp add: hop_entry_def entry_for_def)
    moreover have "nh < ?n" using path_hop_in_range [OF G start] es(1,2) by (auto simp: least_path_def)
    ultimately show ?thesis using es(1,4) by blast
  qed
  have dist: "distinct ?ps" using G by (simp add: graph_wf_def)
  have fresh: "\<forall>p\<in>(!) ?ps ` set [0..<?n]. \<forall>x. map_of (next_hop_map rt) p = Some x \<longrightarrow> hop_version x < ver"
    using old unfolding older_than_def by blast
  have rng: "set [0..<?n] \<subseteq> {..<?n}" by auto
  have nh: "\<forall>i\<in>set [0..<?n]. \<forall>nh l. fh i = Some (nh, l) \<longrightarrow> nh < ?n \<and> sc i \<noteq> None" using hop by blast
  obtain hops where S: "store_hops g sc fh ver [0..<?n] (next_hop_map rt) = Some hops" "keys_distinct hops"
      "\<forall>i\<in>set [0..<?n]. \<forall>r. fh i = Some r \<longrightarrow> map_of hops (?ps ! i) = Some (hop_entry g sc ver i r)"
      "\<forall>p. (\<forall>i\<in>set [0..<?n]. ?ps ! i = p \<longrightarrow> fh i = None) \<longrightarrow> map_of hops p = map_of (next_hop_map rt) p"
    using store_hops_spec [OF dist rng distinct_upt nh fresh] old unfolding older_than_def by blast
  let ?rt = "rt\<lparr>next_hop_map := hops, next_hop_map_version := ver\<rparr>"
  have "max (next_hop_map_version rt) ver = ver" using old by (simp add: older_than_def max_absorb2)
  then have gen: "gen_next_hop_map_with_least_cost pop g start ver rt = Some ?rt"
    using start D(1) S(1) by (simp add: gen_next_hop_map_with_least_cost_def node_weight_def set_if_larger_def)
  have "case get_next_hop ?rt p of
       None \<Rightarrow> \<nexists>i es. i < ?n \<and> ?ps ! i = p \<and> is_path (edges_of g) edge_target start es i
     | Some x \<Rightarrow> \<exists>i es. i < ?n \<and> ?ps ! i = p \<and> least_path (edges_of g) edge_target edge_weight start es i \<and> x = entry_for g start ver es" for p
  proof (cases "\<exists>i<?n. ?ps ! i = p \<and> fh i \<noteq> None")
    case True
    then obtain i nh l where i: "i < ?n" "?ps ! i = p" "fh i = Some (nh, l)" by auto
    have "get_next_hop ?rt p = Some (hop_entry g sc ver i (nh, l))"
      using S(3) i by (auto simp: get_next_hop_def hop_entry_def)
    then show ?thesis using hop [OF i(3)] i(1,2) by auto
  next
    case False
    then have "\<forall>i\<in>set [0..<?n]. ?ps ! i = p \<longrightarrow> fh i = None" by (metis atLeastLessThan_upt atLeastLessThan_iff)
    then have "map_of hops p = map_of (next_hop_map rt) p" using S(4) by blast
    then have "hop_version x < ver" if "map_of hops p = Some x" for x
      using old that unfolding older_than_def by simp
    then have "get_next_hop ?rt p = None" by (auto simp: get_next_hop_def not_le split: option.splits)
    moreover have "\<nexists>es. is_path (edges_of g) edge_target start es i" if "i < ?n" "?ps ! i = p" for i
    proof -
      have "fh i = None" using False that by blast
      then show ?thesis using D(2) [of i] by simp
    qed
    ultimately show ?thesis by auto
  qed
  then show ?thesis using gen S(2) by blast
qed

section \<open>Fewest hops\<close>

definition norm_cost :: "u64 \<Rightarrow> u64" where
  "norm_cost w = (if w \<ge> AVOID_RELAY_COST then AVOID_RELAY_COST + 1 else 1)"

text \<open>The best path under a policy. For fewest hops, an edge of a peer that avoids relaying counts as \<open>2 ^ 31\<close> hops.\<close>

definition best_path :: "NextHopPolicy \<Rightarrow> ('n \<Rightarrow> 'e list) \<Rightarrow> ('e \<Rightarrow> 'n) \<Rightarrow> ('e \<Rightarrow> u64) \<Rightarrow> 'n \<Rightarrow> 'e list \<Rightarrow> 'n \<Rightarrow> bool" where
  "best_path policy edges target wt s es v = (case policy of
     LeastCost \<Rightarrow> least_path edges target wt s es v
   | LeastHop \<Rightarrow> least_path edges target (\<lambda>e. norm_cost (wt e)) s es v \<and>
       (\<forall>es'. least_path edges target (\<lambda>e. norm_cost (wt e)) s es' v \<longrightarrow> path_cost wt es \<le> path_cost wt es'))"

text \<open>The documented behaviour of \<open>petgraph::algo::dijkstra\<close>: the lengths of the shortest paths.\<close>

definition petgraph_dijkstra_ok :: "petgraph_dijkstra \<Rightarrow> bool" where
  "petgraph_dijkstra_ok dj \<longleftrightarrow> (\<forall>edges target wt N C s v. graph_ok edges target wt N C \<longrightarrow> s \<in> N \<longrightarrow>
     (case dj edges target wt s v of
        None \<Rightarrow> \<nexists>es. is_path edges target s es v
      | Some d \<Rightarrow> \<exists>es. least_path edges target wt s es v \<and> unat d = path_cost wt es))"

lemma normalize_norm: "normalize_edge_cost e = norm_cost (edge_weight e)"
  by (simp add: normalize_edge_cost_def norm_cost_def)

lemma unat_norm_cost: "unat (norm_cost w) \<le> 2 ^ 31 \<and> 0 < unat (norm_cost w)"
  by (simp add: norm_cost_def AVOID_RELAY_COST_def)

lemma length_peer_list: "distinct (ps :: PeerId list) \<Longrightarrow> length ps \<le> 2 ^ 32"
  using card_mono [of "UNIV :: u32 set" "set ps"] by (simp add: distinct_card card_word)

lemma norm_graph_ok:
  assumes "graph_wf g C"
  shows "graph_ok (edges_of g) edge_target normalize_edge_cost {..<length (node_weights g)} (2 ^ 31)"
proof -
  have "length (node_weights g) \<le> 2 ^ 32" using assms length_peer_list by (simp add: graph_wf_def)
  then show ?thesis using assms unat_norm_cost
    by (auto simp: graph_ok_def graph_wf_def set_edges_of edge_target_def normalize_norm)
qed

text \<open>
  With the distances \<open>nd\<close> of the normalized graph, the edges that are kept are those that lie on a path
  with the fewest hops.
\<close>

definition norm_dist :: "PeerGraph \<Rightarrow> nat \<Rightarrow> (nat \<rightharpoonup> u64) \<Rightarrow> bool" where
  "norm_dist g start nd \<longleftrightarrow> nd start = Some 0 \<and> (\<forall>v d. nd v = Some d \<longrightarrow> unat d \<le> 2 ^ 63) \<and>
     (\<forall>v. case nd v of None \<Rightarrow> \<nexists>es. is_path (edges_of g) edge_target start es v
      | Some d \<Rightarrow> \<exists>es. least_path (edges_of g) edge_target normalize_edge_cost start es v \<and> unat d = path_cost normalize_edge_cost es)"

lemma path_cost_bound:
  assumes "graph_ok edges target wt N C"
  shows "s \<in> N \<Longrightarrow> is_path edges target s es v \<Longrightarrow> path_cost wt es \<le> length es * C"
proof (induction es arbitrary: s)
  case (Cons e es)
  then show ?case using graph_ok_edge [OF assms, of s e] by fastforce
qed simp

lemma petgraph_norm_dist:
  assumes "petgraph_dijkstra_ok dj" and G: "graph_wf g C" and start: "start < length (node_weights g)"
  shows "norm_dist g start (dj (edges_of g) edge_target normalize_edge_cost start)"
proof -
  let ?nd = "dj (edges_of g) edge_target normalize_edge_cost start" and ?N = "{..<length (node_weights g)}"
  let ?lp = "least_path (edges_of g) edge_target normalize_edge_cost start"
  note ok = norm_graph_ok [OF G]
  have spec: "case ?nd v of None \<Rightarrow> \<nexists>es. is_path (edges_of g) edge_target start es v
      | Some d \<Rightarrow> \<exists>es. ?lp es v \<and> unat d = path_cost normalize_edge_cost es" for v
    using assms(1) ok start unfolding petgraph_dijkstra_ok_def by blast
  have "?lp [] start" by (simp add: least_path_def)
  moreover have "?nd start \<noteq> None" using spec [of start] is_path.simps(1) by (metis option.case_eq_if)
  then obtain d es where des: "?nd start = Some d" "?lp es start" "unat d = path_cost normalize_edge_cost es"
    using spec [of start] by auto
  ultimately have "unat d = 0" using least_path_cost [OF des(2)] by fastforce
  then have "?nd start = Some 0" using des(1) by (simp add: unat_eq_zero)
  moreover have "unat d \<le> 2 ^ 63" if d: "?nd v = Some d" for v d
  proof -
    obtain es where es: "?lp es v" "unat d = path_cost normalize_edge_cost es" using spec [of v] d by auto
    obtain es' where es': "?lp es' v" "length es' \<le> card ?N"
      using short_least_path [OF ok, of start es v] start es(1) by (auto simp: least_path_def)
    have "path_cost normalize_edge_cost es' \<le> length es' * 2 ^ 31"
      using path_cost_bound [OF ok] start es'(1) by (auto simp: least_path_def)
    also have "\<dots> \<le> 2 ^ 32 * 2 ^ 31" using es'(2) length_peer_list [of "node_weights g"] G by (simp add: graph_wf_def)
    finally show ?thesis using least_path_cost [OF es(1) es'(1)] es(2) by simp
  qed
  ultimately show ?thesis using spec by (simp add: norm_dist_def)
qed

lemma norm_dist_lower:
  assumes "norm_dist g start nd" and "is_path (edges_of g) edge_target start es v"
  shows "\<exists>d. nd v = Some d \<and> unat d \<le> path_cost normalize_edge_cost es"
proof -
  have "case nd v of None \<Rightarrow> \<nexists>es. is_path (edges_of g) edge_target start es v
      | Some d \<Rightarrow> \<exists>es. least_path (edges_of g) edge_target normalize_edge_cost start es v \<and> unat d = path_cost normalize_edge_cost es"
    using assms(1) unfolding norm_dist_def by blast
  then show ?thesis using assms(2) by (cases "nd v") (auto simp: least_path_def)
qed

lemma norm_dist_attained:
  assumes "norm_dist g start nd" and "nd v = Some d"
  shows "\<exists>es. is_path (edges_of g) edge_target start es v \<and> unat d = path_cost normalize_edge_cost es"
proof -
  have "case nd v of None \<Rightarrow> \<nexists>es. is_path (edges_of g) edge_target start es v
      | Some d \<Rightarrow> \<exists>es. least_path (edges_of g) edge_target normalize_edge_cost start es v \<and> unat d = path_cost normalize_edge_cost es"
    using assms(1) unfolding norm_dist_def by blast
  then show ?thesis using assms(2) by (auto simp: least_path_def)
qed

lemma least_norm_iff:
  assumes "norm_dist g start nd"
  shows "least_path (edges_of g) edge_target normalize_edge_cost start es v \<longleftrightarrow>
    is_path (edges_of g) edge_target start es v \<and> (\<exists>d. nd v = Some d \<and> path_cost normalize_edge_cost es = unat d)"
proof
  assume L: "least_path (edges_of g) edge_target normalize_edge_cost start es v"
  then have p: "is_path (edges_of g) edge_target start es v" by (simp add: least_path_def)
  obtain d where d: "nd v = Some d" "unat d \<le> path_cost normalize_edge_cost es" using norm_dist_lower [OF assms p] by blast
  obtain es' where "is_path (edges_of g) edge_target start es' v" "unat d = path_cost normalize_edge_cost es'"
    using norm_dist_attained [OF assms d(1)] by blast
  then have "path_cost normalize_edge_cost es \<le> unat d" using L unfolding least_path_def by fastforce
  then show "is_path (edges_of g) edge_target start es v \<and> (\<exists>d. nd v = Some d \<and> path_cost normalize_edge_cost es = unat d)"
    using p d by auto
next
  assume R: "is_path (edges_of g) edge_target start es v \<and> (\<exists>d. nd v = Some d \<and> path_cost normalize_edge_cost es = unat d)"
  then show "least_path (edges_of g) edge_target normalize_edge_cost start es v"
    using norm_dist_lower [OF assms] unfolding least_path_def by fastforce
qed

lemma edges_of_subgraph:
  "e \<in> set (edges_of (least_hop_subgraph nd g) u) \<longleftrightarrow> e \<in> set (edges_of g u) \<and>
     (\<exists>a b. nd u = Some a \<and> nd (edge_target e) = Some b \<and> a + normalize_edge_cost e = b)"
  by (auto simp: set_edges_of least_hop_subgraph_def split: option.splits)

lemma unat_dist_plus:
  assumes "norm_dist g start nd" and "nd u = Some a"
  shows "unat (a + normalize_edge_cost e) = unat a + unat (normalize_edge_cost e)"
proof -
  have "unat a \<le> 2 ^ 63" using assms by (simp add: norm_dist_def)
  moreover have "unat (normalize_edge_cost e) \<le> 2 ^ 31" using unat_norm_cost by (simp add: normalize_norm)
  ultimately show ?thesis by (simp add: unat_word_ariths)
qed

lemma subgraph_path_iff:
  assumes N: "norm_dist g start nd"
  shows "is_path (edges_of (least_hop_subgraph nd g)) edge_target start es v \<longleftrightarrow>
    least_path (edges_of g) edge_target normalize_edge_cost start es v"
proof (induction es arbitrary: v rule: rev_induct)
  case Nil
  have "nd start = Some 0" using N by (simp add: norm_dist_def)
  then show ?case by (auto simp: least_norm_iff [OF N])
next
  case (snoc e es)
  let ?n = normalize_edge_cost
  show ?case
  proof
    assume "is_path (edges_of (least_hop_subgraph nd g)) edge_target start (es @ [e]) v"
    then obtain u where "is_path (edges_of (least_hop_subgraph nd g)) edge_target start es u"
        and e: "e \<in> set (edges_of (least_hop_subgraph nd g) u)" "edge_target e = v"
      by (auto simp: is_path_append)
    then obtain a where es: "is_path (edges_of g) edge_target start es u" "nd u = Some a" "path_cost ?n es = unat a"
      using snoc.IH least_norm_iff [OF N] by blast
    then have ab: "e \<in> set (edges_of g u)" "nd v = Some (a + ?n e)" using e edges_of_subgraph by auto
    then have "path_cost ?n (es @ [e]) = unat (a + ?n e)" using unat_dist_plus [OF N es(2)] es(3) by simp
    then show "least_path (edges_of g) edge_target ?n start (es @ [e]) v"
      using es(1) ab e(2) by (auto simp: least_norm_iff [OF N] is_path_append)
  next
    assume "least_path (edges_of g) edge_target ?n start (es @ [e]) v"
    then obtain u b where es: "is_path (edges_of g) edge_target start es u" and e: "e \<in> set (edges_of g u)" "edge_target e = v"
        and b: "nd v = Some b" "path_cost ?n es + unat (?n e) = unat b"
      by (auto simp: least_norm_iff [OF N] is_path_append)
    obtain a where a: "nd u = Some a" "unat a \<le> path_cost ?n es" using norm_dist_lower [OF N es] by blast
    obtain es' where es': "is_path (edges_of g) edge_target start es' u" "unat a = path_cost ?n es'"
      using norm_dist_attained [OF N a(1)] by blast
    have "is_path (edges_of g) edge_target start (es' @ [e]) v" using es'(1) e by (auto simp: is_path_append)
    then have "unat b \<le> unat a + unat (?n e)" using norm_dist_lower [OF N] b(1) es'(2) by fastforce
    then have eq: "path_cost ?n es = unat a" "unat b = unat a + unat (?n e)" using a(2) b(2) by auto
    then have "b = a + ?n e" using unat_dist_plus [OF N a(1)] by (simp add: word_unat_eq_iff)
    then have "e \<in> set (edges_of (least_hop_subgraph nd g) u)" using e a(1) b(1) edges_of_subgraph by auto
    moreover have "is_path (edges_of (least_hop_subgraph nd g)) edge_target start es u"
      using snoc.IH es a(1) eq(1) by (simp add: least_norm_iff [OF N])
    ultimately show "is_path (edges_of (least_hop_subgraph nd g)) edge_target start (es @ [e]) v"
      using e(2) by (auto simp: is_path_append)
  qed
qed

lemma subgraph_best:
  assumes "norm_dist g start nd"
  shows "least_path (edges_of (least_hop_subgraph nd g)) edge_target edge_weight start es v \<longleftrightarrow>
    best_path LeastHop (edges_of g) edge_target edge_weight start es v"
proof -
  have n: "(\<lambda>e. norm_cost (edge_weight e)) = normalize_edge_cost" by (simp add: normalize_norm fun_eq_iff)
  show ?thesis
    by (simp only: best_path_def least_path_def [of "edges_of (least_hop_subgraph nd g)"] subgraph_path_iff [OF assms] n
        NextHopPolicy.case)
qed

lemma subgraph_wf: "graph_wf g C \<Longrightarrow> graph_wf (least_hop_subgraph nd g) C"
  by (auto simp: graph_wf_def least_hop_subgraph_def)

text \<open>Both policies, on the graph.\<close>

lemma gen_next_hop_map_spec:
  assumes pop: "score_queue pop" and dj: "petgraph_dijkstra_ok dj" and G: "graph_wf g C"
    and start: "start < length (node_weights g)" and old: "older_than ver rt"
  shows "\<exists>hops. (if policy = LeastHop then gen_next_hop_map_with_least_hop dj pop g start ver rt
        else gen_next_hop_map_with_least_cost pop g start ver rt) =
      Some (rt\<lparr>next_hop_map := hops, next_hop_map_version := ver\<rparr>) \<and> keys_distinct hops \<and>
    (\<forall>p. case get_next_hop (rt\<lparr>next_hop_map := hops, next_hop_map_version := ver\<rparr>) p of
       None \<Rightarrow> \<nexists>i es. i < length (node_weights g) \<and> node_weights g ! i = p \<and> is_path (edges_of g) edge_target start es i
     | Some x \<Rightarrow> \<exists>i es. i < length (node_weights g) \<and> node_weights g ! i = p \<and>
         best_path policy (edges_of g) edge_target edge_weight start es i \<and> x = entry_for g start ver es)"
proof (cases policy)
  case LeastCost
  have best: "best_path LeastCost (edges_of g) edge_target edge_weight start es i \<longleftrightarrow>
      least_path (edges_of g) edge_target edge_weight start es i" for es i
    by (simp add: best_path_def)
  from gen_least_cost_spec [OF pop G start old] show ?thesis unfolding LeastCost best by simp
next
  case LeastHop
  define nd where "nd = dj (edges_of g) edge_target normalize_edge_cost start"
  let ?g = "least_hop_subgraph nd g"
  have N: "norm_dist g start nd" unfolding nd_def by (rule petgraph_norm_dist [OF dj G start])
  have ps: "node_weights ?g = node_weights g" by (simp add: least_hop_subgraph_def)
  have gen: "gen_next_hop_map_with_least_hop dj pop g start ver rt = gen_next_hop_map_with_least_cost pop ?g start ver rt"
    using start by (simp add: gen_next_hop_map_with_least_hop_def node_weight_def nd_def)
  have ent: "entry_for ?g start ver es = entry_for g start ver es" for es by (simp add: entry_for_def ps)
  have ex: "(\<exists>es. is_path (edges_of ?g) edge_target start es i) \<longleftrightarrow> (\<exists>es. is_path (edges_of g) edge_target start es i)" for i
    using short_least_path [OF norm_graph_ok [OF G], of start _ i] start
    unfolding subgraph_path_iff [OF N] by (auto simp: least_path_def)
  have exp: "(\<exists>i es. i < length (node_weights g) \<and> node_weights g ! i = p \<and> is_path (edges_of ?g) edge_target start es i) \<longleftrightarrow>
      (\<exists>i es. i < length (node_weights g) \<and> node_weights g ! i = p \<and> is_path (edges_of g) edge_target start es i)" for p
    using ex by blast
  from gen_least_cost_spec [OF pop subgraph_wf [OF G, of nd] _ old, of start] start
  show ?thesis unfolding ps subgraph_best [OF N] ent exp gen LeastHop by simp
qed

section \<open>The peer graph\<close>

text \<open>The edges between known peers as the synced information describes them, without node indices.\<close>

definition peer_edges :: "'raw SyncedRouteInfo \<Rightarrow> cost_calculator \<Rightarrow> PeerId \<Rightarrow> (PeerId \<times> u64) list" where
  "peer_edges si cc u = (if u \<in> set (known_peers si)
     then map (\<lambda>v. (v, edge_cost_of si cc u v)) (filter (\<lambda>v. v \<in> set (known_peers si))
       (sorted_list_of_set (case get_connected_peers si u of Some cs \<Rightarrow> cs | None \<Rightarrow> {})))
     else [])"

lemma node_index_Some_iff: "distinct ps \<Longrightarrow> node_index ps p = Some i \<longleftrightarrow> i < length ps \<and> ps ! i = p"
  by (auto simp: node_index_def map_of_eq_Some_iff in_set_zip)

lemma node_index_None_iff: "node_index ps p = None \<longleftrightarrow> p \<notin> set ps"
  by (simp add: node_index_def map_of_zip_is_None)

lemma in_edges_from:
  assumes "distinct ps"
  shows "e \<in> set (edges_from si cc ps (src, i)) \<longleftrightarrow> (\<exists>j<length ps.
    ps ! j \<in> (case get_connected_peers si src of Some cs \<Rightarrow> cs | None \<Rightarrow> {}) \<and> e = (i, j, edge_cost_of si cc src (ps ! j)))"
proof -
  let ?cs = "case get_connected_peers si src of Some cs \<Rightarrow> cs | None \<Rightarrow> {}"
  have "finite ?cs" by simp
  then have "e \<in> set (edges_from si cc ps (src, i)) \<longleftrightarrow>
      (\<exists>v\<in>?cs. \<exists>j. node_index ps v = Some j \<and> e = (i, j, edge_cost_of si cc src v))"
    by (force simp: edges_from_def List.map_filter_def split: option.splits)
  then show ?thesis unfolding node_index_Some_iff [OF assms] by auto
qed

lemma known_peers_distinct: "keys_distinct (peer_infos si) \<Longrightarrow> distinct (known_peers si)"
  by (simp add: known_peers_def keys_distinct_filter)

lemma build_graph:
  assumes "keys_distinct (peer_infos si)" and "my \<in> set (known_peers si)"
  shows "\<exists>g i. build_peer_graph_from_synced_info my si cc = (g, i) \<and> node_weights g = known_peers si \<and>
    i < length (known_peers si) \<and> known_peers si ! i = my \<and>
    (\<forall>e. e \<in> set (graph_edges g) \<longleftrightarrow> (\<exists>i j. i < length (known_peers si) \<and> j < length (known_peers si) \<and>
       known_peers si ! j \<in> (case get_connected_peers si (known_peers si ! i) of Some cs \<Rightarrow> cs | None \<Rightarrow> {}) \<and>
       e = (i, j, edge_cost_of si cc (known_peers si ! i) (known_peers si ! j))))"
proof -
  let ?ps = "known_peers si"
  have d: "distinct ?ps" using assms(1) by (rule known_peers_distinct)
  obtain i where i: "node_index ?ps my = Some i" using assms(2) node_index_None_iff by fastforce
  let ?g = "\<lparr>node_weights = ?ps, graph_edges = concat (map (edges_from si cc ?ps) (zip ?ps [0..<length ?ps]))\<rparr>"
  have "e \<in> set (graph_edges ?g) \<longleftrightarrow> (\<exists>i<length ?ps. e \<in> set (edges_from si cc ?ps (?ps ! i, i)))" for e
    by (force simp: set_zip)
  then have "\<forall>e. e \<in> set (graph_edges ?g) \<longleftrightarrow> (\<exists>i j. i < length ?ps \<and> j < length ?ps \<and>
       ?ps ! j \<in> (case get_connected_peers si (?ps ! i) of Some cs \<Rightarrow> cs | None \<Rightarrow> {}) \<and>
       e = (i, j, edge_cost_of si cc (?ps ! i) (?ps ! j)))"
    unfolding in_edges_from [OF d] by blast
  moreover have "build_peer_graph_from_synced_info my si cc = (?g, i)"
    by (simp add: build_peer_graph_from_synced_info_def Let_def i)
  ultimately show ?thesis using i node_index_Some_iff [OF d] by (intro exI [of _ ?g] exI [of _ i]) simp
qed

text \<open>The cost of an edge does not wrap for non-negative latencies, and neither does the cost of a path.\<close>

definition costs_ok :: "cost_calculator \<Rightarrow> bool" where
  "costs_ok cc \<longleftrightarrow> (\<forall>u v. unat (cc u v) < 2 ^ 31)"

lemma unat_scast: "unat (w :: u32) < 2 ^ 31 \<Longrightarrow> unat (scast w :: u64) = unat w"
proof -
  assume w: "unat w < 2 ^ 31"
  have i: "uint w = int (unat w)" by simp
  have u: "uint w < 2 ^ 31" unfolding i using w of_nat_less_iff [of "unat w" "2 ^ 31", where ?'a = int] by (simp del: of_nat_less_iff of_nat_unat)
  have "- (2 ^ 31) \<le> uint w" by (rule order_trans [OF _ uint_ge_0]) simp
  then have "sint w = uint w" using signed_take_bit_int_eq_self [of 31 "uint w"] u by (simp add: sint_uint)
  then have "(scast w :: u64) = word_of_int (uint w)" by (simp only: Word.scast_eq)
  also have "\<dots> = of_nat (unat w)" by simp
  finally have "unat (scast w :: u64) = take_bit 64 (unat w)" by (simp add: unsigned_ucast_eq)
  also have "\<dots> = unat w" by (rule take_bit_nat_eq_self) (use w in simp)
  finally show ?thesis .
qed

lemma edge_cost_bound:
  assumes "costs_ok cc"
  shows "unat (edge_cost_of si cc u v) = unat (cc u v) + (if get_avoid_relay_data si u then 2 ^ 31 - 1 else 0)"
proof -
  have c: "unat (cc u v) < 2 ^ 31" using assms by (simp add: costs_ok_def)
  have "unat (scast (cc u v) + AVOID_RELAY_COST :: u64) = unat (cc u v) + (2 ^ 31 - 1)"
    using c by (simp add: unat_word_ariths unat_scast AVOID_RELAY_COST_def)
  then show ?thesis using unat_scast [OF c] by (simp add: edge_cost_of_def Let_def)
qed

text \<open>The graph of the code represents the peers and edges of the synced information.\<close>

definition represents :: "'raw SyncedRouteInfo \<Rightarrow> cost_calculator \<Rightarrow> PeerGraph \<Rightarrow> bool" where
  "represents si cc g \<longleftrightarrow> distinct (known_peers si) \<and> node_weights g = known_peers si \<and>
     (\<forall>e. e \<in> set (graph_edges g) \<longleftrightarrow> (\<exists>i j. i < length (known_peers si) \<and> j < length (known_peers si) \<and>
       known_peers si ! j \<in> (case get_connected_peers si (known_peers si ! i) of Some cs \<Rightarrow> cs | None \<Rightarrow> {}) \<and>
       e = (i, j, edge_cost_of si cc (known_peers si ! i) (known_peers si ! j))))"

lemma represents_wf:
  assumes "represents si cc g" and "costs_ok cc"
  shows "graph_wf g (2 ^ 32 - 2)"
proof -
  have d: "distinct (node_weights g)" using assms(1) by (simp add: represents_def)
  have "length (node_weights g) * (2 ^ 32 - 2) \<le> 2 ^ 32 * (2 ^ 32 - 2)"
    using length_peer_list [OF d] by (intro mult_le_mono1)
  then have "length (node_weights g) * (2 ^ 32 - 2) < 2 ^ 64" by simp
  moreover have "unat (edge_cost_of si cc u v) \<le> 2 ^ 32 - 2" for u v
  proof -
    have "unat (cc u v) < 2 ^ 31" using assms(2) by (simp add: costs_ok_def)
    then show ?thesis using edge_cost_bound [OF assms(2), of si u v] by simp
  qed
  ultimately show ?thesis using d assms(1) unfolding graph_wf_def represents_def by auto
qed

definition lift_edge :: "PeerId list \<Rightarrow> graph_edge \<Rightarrow> PeerId \<times> u64" where
  "lift_edge ps e = (ps ! edge_target e, edge_weight e)"

lemma lift_edges:
  assumes R: "represents si cc g" and i: "i < length (known_peers si)"
  shows "set (peer_edges si cc (known_peers si ! i)) = lift_edge (known_peers si) ` set (edges_of g i)"
proof -
  let ?ps = "known_peers si" and ?cs = "case get_connected_peers si (known_peers si ! i) of Some cs \<Rightarrow> cs | None \<Rightarrow> {}"
  have E: "set (edges_of g i) = {(i, j, edge_cost_of si cc (?ps ! i) (?ps ! j)) | j. j < length ?ps \<and> ?ps ! j \<in> ?cs}"
    using R i by (auto simp: set_edges_of represents_def)
  have "set (peer_edges si cc (?ps ! i)) = {(v, edge_cost_of si cc (?ps ! i) v) | v. v \<in> set ?ps \<and> v \<in> ?cs}"
    using i by (auto simp: peer_edges_def)
  also have "\<dots> = {(?ps ! j, edge_cost_of si cc (?ps ! i) (?ps ! j)) | j. j < length ?ps \<and> ?ps ! j \<in> ?cs}"
    by (auto simp: in_set_conv_nth)
  also have "\<dots> = lift_edge ?ps ` set (edges_of g i)"
    unfolding E by (auto simp: lift_edge_def edge_target_def edge_weight_def image_iff)
  finally show ?thesis .
qed

lemma edge_target_in_range:
  "represents si cc g \<Longrightarrow> e \<in> set (edges_of g i) \<Longrightarrow> edge_target e < length (known_peers si)"
  by (cases e) (auto simp: set_edges_of represents_def edge_target_def)

lemma lift_path:
  assumes R: "represents si cc g"
  shows "i < length (known_peers si) \<Longrightarrow> is_path (edges_of g) edge_target i es j \<Longrightarrow>
    is_path (peer_edges si cc) fst (known_peers si ! i) (map (lift_edge (known_peers si)) es) (known_peers si ! j)"
proof (induction es arbitrary: i)
  case (Cons e es)
  then show ?case using lift_edges [OF R, of i] edge_target_in_range [OF R, of e i] by (auto simp: lift_edge_def)
qed simp

lemma unlift_path:
  assumes R: "represents si cc g"
  shows "i < length (known_peers si) \<Longrightarrow> is_path (peer_edges si cc) fst (known_peers si ! i) es p \<Longrightarrow>
    \<exists>es' j. j < length (known_peers si) \<and> known_peers si ! j = p \<and> is_path (edges_of g) edge_target i es' j \<and>
      es = map (lift_edge (known_peers si)) es'"
proof (induction es arbitrary: i)
  case Nil
  then show ?case by (intro exI [of _ "[]"] exI [of _ i]) simp
next
  case (Cons e es)
  obtain e' where e': "e' \<in> set (edges_of g i)" "e = lift_edge (known_peers si) e'"
    using Cons.prems lift_edges [OF R, of i] by auto
  have "edge_target e' < length (known_peers si)" using edge_target_in_range [OF R e'(1)] .
  moreover have "fst e = known_peers si ! edge_target e'" using e'(2) by (simp add: lift_edge_def)
  ultimately obtain es' j where "j < length (known_peers si)" "known_peers si ! j = p" "is_path (edges_of g) edge_target (edge_target e') es' j"
      "es = map (lift_edge (known_peers si)) es'"
    using Cons.IH [of "edge_target e'"] Cons.prems(2) by auto
  then show ?case using e' by (intro exI [of _ "e' # es'"] exI [of _ j]) simp
qed

lemma snd_lift [simp]: "snd (lift_edge ps e) = edge_weight e"
  by (simp add: lift_edge_def)

lemma lift_least:
  assumes R: "represents si cc g" and i: "i < length (known_peers si)" and j: "j < length (known_peers si)"
    and p: "is_path (edges_of g) edge_target i es j"
  shows "least_path (edges_of g) edge_target (\<lambda>e. f (edge_weight e)) i es j \<longleftrightarrow>
    least_path (peer_edges si cc) fst (\<lambda>e. f (snd e)) (known_peers si ! i) (map (lift_edge (known_peers si)) es) (known_peers si ! j)"
    (is "?l \<longleftrightarrow> ?r")
proof
  assume L: ?l
  have "path_cost (\<lambda>e. f (edge_weight e)) es \<le> path_cost (\<lambda>e. f (snd e)) es'"
    if es': "is_path (peer_edges si cc) fst (known_peers si ! i) es' (known_peers si ! j)" for es'
  proof -
    obtain es1 j' where "j' < length (known_peers si)" "known_peers si ! j' = known_peers si ! j"
        "is_path (edges_of g) edge_target i es1 j'" "es' = map (lift_edge (known_peers si)) es1"
      using unlift_path [OF R i es'] by auto
    moreover then have "j' = j" using R j by (simp add: represents_def nth_eq_iff_index_eq)
    ultimately show ?thesis using L by (simp add: least_path_def comp_def)
  qed
  then show ?r using lift_path [OF R i p] by (simp add: least_path_def comp_def)
next
  assume ?r
  then show ?l using p lift_path [OF R i] by (fastforce simp: least_path_def comp_def)
qed

lemma lift_best:
  assumes R: "represents si cc g" and i: "i < length (known_peers si)" and j: "j < length (known_peers si)"
    and B: "best_path policy (edges_of g) edge_target edge_weight i es j"
  shows "best_path policy (peer_edges si cc) fst snd (known_peers si ! i) (map (lift_edge (known_peers si)) es) (known_peers si ! j)"
proof -
  have p: "is_path (edges_of g) edge_target i es j" using B by (simp add: best_path_def least_path_def split: NextHopPolicy.splits)
  note least = lift_least [OF R i j]
  show ?thesis
  proof (cases policy)
    case LeastCost
    then show ?thesis using B least [OF p, of "\<lambda>w. w"] by (simp add: best_path_def)
  next
    case LeastHop
    let ?lp = "least_path (peer_edges si cc) fst (\<lambda>e. norm_cost (snd e)) (known_peers si ! i)"
    have "?lp (map (lift_edge (known_peers si)) es) (known_peers si ! j)"
      using B LeastHop least [OF p, of norm_cost] by (simp add: best_path_def)
    moreover have "path_cost edge_weight es \<le> path_cost snd es'" if es': "?lp es' (known_peers si ! j)" for es'
    proof -
      obtain es1 j' where es1: "j' < length (known_peers si)" "known_peers si ! j' = known_peers si ! j"
          "is_path (edges_of g) edge_target i es1 j'" "es' = map (lift_edge (known_peers si)) es1"
        using unlift_path [OF R i] es' unfolding least_path_def by blast
      then have "j' = j" using R j by (simp add: represents_def nth_eq_iff_index_eq)
      then have "least_path (edges_of g) edge_target (\<lambda>e. norm_cost (edge_weight e)) i es1 j"
        using least [of es1 norm_cost] es1(3,4) es' by simp
      then show ?thesis using B LeastHop es1(4) by (simp add: best_path_def comp_def)
    qed
    ultimately show ?thesis using LeastHop by (simp add: best_path_def comp_def)
  qed
qed

lemma lift_hop: "path_hop fst (ps ! i) (map (lift_edge ps) es) = ps ! path_hop edge_target i es"
  by (cases es) (simp_all add: path_hop_def lift_edge_def)

section \<open>The rebuilt table\<close>

text \<open>
  The conditions under which a node rebuilds its table: its own description is known, there are fewer than
  \<open>2 ^ 32\<close> peers, latencies are not negative, and the version of the information has advanced.
\<close>

definition rebuildable :: "PeerId \<Rightarrow> 'raw SyncedRouteInfo \<Rightarrow> cost_calculator \<Rightarrow> ('c4, 'c6) RouteTable \<Rightarrow> bool" where
  "rebuildable my si cc rt \<longleftrightarrow> keys_distinct (peer_infos si) \<and> my \<in> set (known_peers si) \<and>
     length (known_peers si) < 2 ^ 32 \<and> costs_ok cc \<and> older_than (synced_version si) rt"

lemma add_peer_hops:
  "next_hop_map (fst (add_peer ops my si ver lc item st)) = next_hop_map (fst st) \<and>
   next_hop_map_version (fst (add_peer ops my si ver lc item st)) = next_hop_map_version (fst st)"
  by (auto simp: add_peer_def Let_def split: prod.splits option.splits)

lemma fold_add_peer_hops:
  "next_hop_map (fst (fold (add_peer ops my si ver lc) items st)) = next_hop_map (fst st) \<and>
   next_hop_map_version (fst (fold (add_peer ops my si ver lc) items st)) = next_hop_map_version (fst st)"
proof (induction items arbitrary: st)
  case (Cons item items)
  then show ?case using add_peer_hops [of ops my si ver lc item st] by (simp only: fold_simps comp_apply)
qed simp

lemma rebuildable_graph:
  assumes "rebuildable my si cc rt"
  shows "\<exists>g i. build_peer_graph_from_synced_info my si cc = (g, i) \<and> represents si cc g \<and> i < length (known_peers si) \<and>
    known_peers si ! i = my \<and> node_weights g \<noteq> [] \<and> i \<noteq> NodeIndex_end"
proof -
  have r: "keys_distinct (peer_infos si)" "my \<in> set (known_peers si)" "length (known_peers si) < 2 ^ 32"
    using assms by (simp_all add: rebuildable_def)
  obtain g i where g: "build_peer_graph_from_synced_info my si cc = (g, i)" "node_weights g = known_peers si"
      "i < length (known_peers si)" "known_peers si ! i = my" "represents si cc g"
    using build_graph [OF r(1,2), of cc] known_peers_distinct [OF r(1)] unfolding represents_def by blast
  have "i \<noteq> NodeIndex_end" using g(3) r(3) by (simp add: NodeIndex_end_def)
  moreover have "node_weights g \<noteq> []" using g(2) r(2) by auto
  ultimately show ?thesis using g by blast
qed

text \<open>The entry of a best path between peers.\<close>

definition peer_entry :: "PeerId \<Rightarrow> Version \<Rightarrow> (PeerId \<times> u64) list \<Rightarrow> NextHopInfo" where
  "peer_entry my ver es = \<lparr>next_hop_peer_id = path_hop fst my es,
     path_latency = ucast (of_nat (path_cost snd es) mod AVOID_RELAY_COST :: u64), path_len = length es, hop_version = ver\<rparr>"

lemma lift_entry:
  "represents si cc g \<Longrightarrow> entry_for g i ver es = peer_entry (known_peers si ! i) ver (map (lift_edge (known_peers si)) es)"
  by (simp add: entry_for_def peer_entry_def lift_hop represents_def comp_def)

text \<open>The table right after the next hops are computed, before addresses are added.\<close>

lemma next_hops_of_build:
  assumes pop: "score_queue pop" and dj: "petgraph_dijkstra_ok dj" and R: "rebuildable my si cc rt"
  shows "\<exists>rt1. build_from_synced_info ops dj pop my si policy cc rt =
      (let (rt2, t4, t6) = fold (add_peer ops my si (synced_version si) (local_proxy_cidrs ops my si)) (next_hop_map rt1) (rt1, [], [])
       in Some (rt2\<lparr>cidr_peer_id_map := t4, cidr_v6_peer_id_map := t6\<rparr>)) \<and>
    keys_distinct (next_hop_map rt1) \<and> next_hop_map_version rt1 = synced_version si \<and>
    ipv4_peer_id_map rt1 = ipv4_peer_id_map rt \<and>
    (\<forall>p. case get_next_hop rt1 p of
       None \<Rightarrow> \<nexists>es. is_path (peer_edges si cc) fst my es p
     | Some x \<Rightarrow> \<exists>es. best_path policy (peer_edges si cc) fst snd my es p \<and> x = peer_entry my (synced_version si) es)"
proof -
  let ?ver = "synced_version si"
  obtain g i where g: "build_peer_graph_from_synced_info my si cc = (g, i)" "represents si cc g" "i < length (known_peers si)"
      "known_peers si ! i = my" "node_weights g \<noteq> []" "i \<noteq> NodeIndex_end"
    using rebuildable_graph [OF R] by blast
  have ps: "node_weights g = known_peers si" using g(2) by (simp add: represents_def)
  have i: "i < length (node_weights g)" using g(3) ps by simp
  have wf: "graph_wf g (2 ^ 32 - 2)" and old: "older_than ?ver rt"
    using represents_wf [OF g(2)] R by (simp_all add: rebuildable_def)
  obtain hops where hops: "(if policy = LeastHop then gen_next_hop_map_with_least_hop dj pop g i ?ver rt
        else gen_next_hop_map_with_least_cost pop g i ?ver rt) = Some (rt\<lparr>next_hop_map := hops, next_hop_map_version := ?ver\<rparr>)"
      "keys_distinct hops"
    and P: "\<And>p. case get_next_hop (rt\<lparr>next_hop_map := hops, next_hop_map_version := ?ver\<rparr>) p of
       None \<Rightarrow> \<nexists>j es. j < length (node_weights g) \<and> node_weights g ! j = p \<and> is_path (edges_of g) edge_target i es j
     | Some x \<Rightarrow> \<exists>j es. j < length (node_weights g) \<and> node_weights g ! j = p \<and>
         best_path policy (edges_of g) edge_target edge_weight i es j \<and> x = entry_for g i ?ver es"
    using gen_next_hop_map_spec [OF pop dj wf i old, of policy] by blast
  define rt1 where "rt1 = rt\<lparr>next_hop_map := hops, next_hop_map_version := ?ver\<rparr>"
  have "case get_next_hop rt1 p of None \<Rightarrow> \<nexists>es. is_path (peer_edges si cc) fst my es p
     | Some x \<Rightarrow> \<exists>es. best_path policy (peer_edges si cc) fst snd my es p \<and> x = peer_entry my ?ver es" for p
  proof (cases "get_next_hop rt1 p")
    case None
    then have "\<nexists>j es. j < length (known_peers si) \<and> known_peers si ! j = p \<and> is_path (edges_of g) edge_target i es j"
      using P [of p] by (simp add: rt1_def ps)
    then have "\<nexists>es. is_path (peer_edges si cc) fst my es p" using unlift_path [OF g(2,3), of _ p] unfolding g(4) by blast
    then show ?thesis using None by simp
  next
    case (Some x)
    then obtain j es where "j < length (known_peers si)" "known_peers si ! j = p"
        "best_path policy (edges_of g) edge_target edge_weight i es j" "x = entry_for g i ?ver es"
      using P [of p] unfolding rt1_def ps by auto
    then show ?thesis using Some lift_best [OF g(2,3), of j policy es] lift_entry [OF g(2), of i ?ver es] g(4) by auto
  qed
  moreover have "build_from_synced_info ops dj pop my si policy cc rt =
      (let (rt2, t4, t6) = fold (add_peer ops my si ?ver (local_proxy_cidrs ops my si)) (next_hop_map rt1) (rt1, [], [])
       in Some (rt2\<lparr>cidr_peer_id_map := t4, cidr_v6_peer_id_map := t6\<rparr>))"
    using g(5,6) by (simp add: build_from_synced_info_def g(1) hops(1) rt1_def split: prod.splits)
  ultimately show ?thesis using hops(2) by (intro exI [of _ rt1]) (simp add: rt1_def)
qed

lemma build_next_hops:
  assumes "score_queue pop" and "petgraph_dijkstra_ok dj" and "rebuildable my si cc rt"
  shows "\<exists>rt'. build_from_synced_info ops dj pop my si policy cc rt = Some rt' \<and>
    (\<forall>p. case get_next_hop rt' p of
       None \<Rightarrow> \<nexists>es. is_path (peer_edges si cc) fst my es p
     | Some x \<Rightarrow> \<exists>es. best_path policy (peer_edges si cc) fst snd my es p \<and> x = peer_entry my (synced_version si) es)"
proof -
  obtain rt1 where rt1: "build_from_synced_info ops dj pop my si policy cc rt =
      (let (rt2, t4, t6) = fold (add_peer ops my si (synced_version si) (local_proxy_cidrs ops my si)) (next_hop_map rt1) (rt1, [], [])
       in Some (rt2\<lparr>cidr_peer_id_map := t4, cidr_v6_peer_id_map := t6\<rparr>))"
    and P: "\<forall>p. case get_next_hop rt1 p of
       None \<Rightarrow> \<nexists>es. is_path (peer_edges si cc) fst my es p
     | Some x \<Rightarrow> \<exists>es. best_path policy (peer_edges si cc) fst snd my es p \<and> x = peer_entry my (synced_version si) es"
    using next_hops_of_build [OF assms] by blast
  obtain rt2 t4 t6 where f: "fold (add_peer ops my si (synced_version si) (local_proxy_cidrs ops my si)) (next_hop_map rt1) (rt1, [], []) = (rt2, t4, t6)"
    using prod_cases3 by blast
  have "get_next_hop (rt2\<lparr>cidr_peer_id_map := t4, cidr_v6_peer_id_map := t6\<rparr>) p = get_next_hop rt1 p" for p
    using fold_add_peer_hops [of ops my si "synced_version si" "local_proxy_cidrs ops my si" "next_hop_map rt1" "(rt1, [], [])"] f
    by (simp add: get_next_hop_def split: option.split)
  then show ?thesis using rt1 P f by simp
qed

end
