(* ===== verification/Route_Forwarding.thy ===== *)
theory Route_Forwarding
  imports Route_Paths
begin

text \<open>
  What the rebuilt route table promises to its users: next hops along best paths, delivery hop by hop,
  the owner of a virtual address, and the peer that proxies an address.
\<close>

section \<open>Next hops\<close>

text \<open>
  C1. The rebuilt table is right: it has an entry for exactly the peers that some path of the synced topology
  leads to, and the entry gives the first hop, the number of hops and the latency of a best path of the policy
  (least cost; or fewest hops, avoiding peers that do not relay, and least cost among those). Rebuilding never
  panics and costs never wrap, whatever the non-negative latencies.
\<close>

theorem next_hops_are_best:
  assumes "score_queue pop" and "petgraph_dijkstra_ok dj" and "rebuildable my si cc rt"
  shows "\<exists>rt'. build_from_synced_info ops dj pop my si policy cc rt = Some rt' \<and>
    (\<forall>p. case get_next_hop rt' p of
       None \<Rightarrow> \<nexists>es. is_path (peer_edges si cc) fst my es p
     | Some x \<Rightarrow> \<exists>es. best_path policy (peer_edges si cc) fst snd my es p \<and> x = peer_entry my (synced_version si) es)"
  using assms by (rule build_next_hops)

section \<open>Hop by hop\<close>

text \<open>A packet for \<open>p\<close> at \<open>u\<close> is delivered after \<open>k\<close> forwarding steps, each node consulting its own table.\<close>

inductive arrives :: "(PeerId \<Rightarrow> ('c4, 'c6) RouteTable) \<Rightarrow> PeerId \<Rightarrow> PeerId \<Rightarrow> nat \<Rightarrow> bool" for tbl p where
  arrives_here: "arrives tbl p p 0"
| arrives_hop: "u \<noteq> p \<Longrightarrow> get_next_hop (tbl u) p = Some x \<Longrightarrow> arrives tbl p (next_hop_peer_id x) k \<Longrightarrow> arrives tbl p u (Suc k)"

inductive_cases arrives_SucE: "arrives tbl p u (Suc k)"

text \<open>The quantity that every policy minimizes first.\<close>

definition metric :: "NextHopPolicy \<Rightarrow> PeerId \<times> u64 \<Rightarrow> u64" where
  "metric policy e = (case policy of LeastCost \<Rightarrow> snd e | LeastHop \<Rightarrow> norm_cost (snd e))"

lemma best_is_least: "best_path policy edges fst snd s es v \<Longrightarrow> least_path edges fst (metric policy) s es v"
proof -
  have "metric LeastHop = (\<lambda>e. norm_cost (snd e))" "metric LeastCost = snd" by (simp_all add: metric_def fun_eq_iff)
  then show "best_path policy edges fst snd s es v \<Longrightarrow> ?thesis" by (cases policy) (simp_all add: best_path_def)
qed

lemma peer_edge_target: "e \<in> set (peer_edges si cc u) \<Longrightarrow> fst e \<in> set (known_peers si)"
  by (auto simp: peer_edges_def split: if_splits)

lemma metric_pos:
  assumes "costs_ok cc" and "policy = LeastCost \<longrightarrow> (\<forall>u v. cc u v \<noteq> 0)" and "e \<in> set (peer_edges si cc u)"
  shows "0 < unat (metric policy e)"
proof (cases policy)
  case LeastCost
  obtain v where "snd e = edge_cost_of si cc u v" using assms(3) by (auto simp: peer_edges_def split: if_splits)
  moreover have "0 < unat (cc u v)" using assms(2) LeastCost by (simp add: unat_gt_0)
  ultimately show ?thesis using edge_cost_bound [OF assms(1), of si u v] LeastCost by (simp add: metric_def)
qed (simp add: metric_def unat_norm_cost)

lemma arrives_from_least:
  assumes tbl: "\<And>u q. u \<in> set (known_peers si) \<Longrightarrow> case get_next_hop (tbl u) q of
       None \<Rightarrow> \<nexists>es. is_path (peer_edges si cc) fst u es q
     | Some x \<Rightarrow> \<exists>es. best_path policy (peer_edges si cc) fst snd u es q \<and> x = peer_entry u (synced_version si) es"
    and C: "costs_ok cc" "policy = LeastCost \<longrightarrow> (\<forall>u v. cc u v \<noteq> 0)"
  shows "u \<in> set (known_peers si) \<Longrightarrow> least_path (peer_edges si cc) fst (metric policy) u es p \<Longrightarrow> \<exists>k. arrives tbl p u k"
proof (induction "path_cost (metric policy) es" arbitrary: u es rule: less_induct)
  case less
  show ?case
  proof (cases "u = p")
    case True
    then show ?thesis using arrives_here by blast
  next
    case False
    have "is_path (peer_edges si cc) fst u es p" using less.prems(2) by (simp add: least_path_def)
    then obtain x es' where x: "get_next_hop (tbl u) p = Some x" "best_path policy (peer_edges si cc) fst snd u es' p"
        "x = peer_entry u (synced_version si) es'"
      using tbl [OF less.prems(1), of p] by (cases "get_next_hop (tbl u) p") auto
    have L: "least_path (peer_edges si cc) fst (metric policy) u es' p" using best_is_least [OF x(2)] .
    then obtain e es'' where es': "es' = e # es''" using False by (cases es') (auto simp: least_path_def)
    then have e: "e \<in> set (peer_edges si cc u)" using L by (simp add: least_path_def)
    have "path_cost (metric policy) es = path_cost (metric policy) es'" by (rule least_path_cost [OF less.prems(2) L])
    then have "path_cost (metric policy) es'' < path_cost (metric policy) es" using metric_pos [OF C e] es' by simp
    moreover have "least_path (peer_edges si cc) fst (metric policy) (fst e) es'' p"
      by (rule least_path_suffix [OF L [unfolded es']])
    ultimately obtain k where "arrives tbl p (fst e) k" using less.hyps peer_edge_target [OF e] by blast
    moreover have "next_hop_peer_id x = fst e" using x(3) es' by (simp add: peer_entry_def path_hop_def)
    ultimately show ?thesis using arrives_hop [of u p tbl x k] False x(1) by auto
  qed
qed

text \<open>
  C7. No routing loops: when all nodes have built their tables from the same synced information with the same
  policy and latencies, a packet at any known node for any peer that is reachable from it arrives after finitely
  many hops. (For the least-cost policy, latencies are positive, as \<open>peer_center\<close> reports them.)
\<close>

theorem forwarding_arrives:
  assumes "score_queue pop" and "petgraph_dijkstra_ok dj"
    and "\<forall>u\<in>set (known_peers si). rebuildable u si cc (rt u) \<and>
      build_from_synced_info ops dj pop u si policy cc (rt u) = Some (tbl u)"
    and "policy = LeastCost \<longrightarrow> (\<forall>u v. cc u v \<noteq> 0)"
    and "u \<in> set (known_peers si)" and "is_path (peer_edges si cc) fst u es p"
  shows "\<exists>k. arrives tbl p u k"
proof -
  have T: "case get_next_hop (tbl u) q of
       None \<Rightarrow> \<nexists>es. is_path (peer_edges si cc) fst u es q
     | Some x \<Rightarrow> \<exists>es. best_path policy (peer_edges si cc) fst snd u es q \<and> x = peer_entry u (synced_version si) es"
    if "u \<in> set (known_peers si)" for u q
    using build_next_hops [OF assms(1,2), of u si cc "rt u" ops policy] assms(3) that by auto
  have C: "costs_ok cc" using assms(3,5) by (auto simp: rebuildable_def)
  obtain x es' where "best_path policy (peer_edges si cc) fst snd u es' p"
    using T [OF assms(5), of p] assms(6) by (cases "get_next_hop (tbl u) p") auto
  from arrives_from_least [OF T C assms(4,5) best_is_least [OF this]] show ?thesis .
qed

section \<open>Virtual addresses\<close>

text \<open>The item \<open>(p, hop)\<close> of the next-hop map is current and its peer announces the address \<open>a\<close>.\<close>

definition announces :: "'raw SyncedRouteInfo \<Rightarrow> Version \<Rightarrow> u32 \<Rightarrow> PeerId \<times> NextHopInfo \<Rightarrow> bool" where
  "announces si ver a item \<longleftrightarrow> hop_version (snd item) \<ge> ver \<and>
     (\<exists>info. map_of (peer_infos si) (fst item) = Some info \<and> ipv4_addr info = Some a)"

lemma add_peer_ipv4:
  "ipv4_peer_id_map (fst (add_peer ops my si ver lc (p, hop) (rt, tr))) a =
    (if announces si ver a (p, hop)
     then Some (claim_entry (is_new_peer_better rt \<lparr>pv_peer_id = p, pv_version = ver\<rparr> hop) \<lparr>pv_peer_id = p, pv_version = ver\<rparr>
       (ipv4_peer_id_map rt a))
     else ipv4_peer_id_map rt a)"
  by (auto simp: add_peer_def announces_def Let_def not_less split: option.splits)

text \<open>The entry of \<open>a\<close> after the items \<open>xs\<close>: a current announcer of \<open>a\<close> that is nearest, or the old entry.\<close>

definition owner_among :: "'raw SyncedRouteInfo \<Rightarrow> Version \<Rightarrow> u32 \<Rightarrow> (PeerId \<times> NextHopInfo) list \<Rightarrow> PeerIdVersion option
    \<Rightarrow> PeerIdVersion option \<Rightarrow> bool" where
  "owner_among si ver a xs old e \<longleftrightarrow>
     (if \<exists>item\<in>set xs. announces si ver a item
      then \<exists>p hop. (p, hop) \<in> set xs \<and> announces si ver a (p, hop) \<and> e = Some \<lparr>pv_peer_id = p, pv_version = ver\<rparr> \<and>
        (\<forall>item\<in>set xs. announces si ver a item \<longrightarrow> path_len hop \<le> path_len (snd item))
      else e = old)"

lemma owner_among_skip: "owner_among si ver a xs old e \<Longrightarrow> \<not> announces si ver a x \<Longrightarrow> owner_among si ver a (xs @ [x]) old e"
  unfolding owner_among_def by (auto split: if_splits)

lemma owner_step:
  assumes old: "\<forall>v. old = Some v \<longrightarrow> pv_version v < ver" and O: "owner_among si ver a xs old (ipv4_peer_id_map rt a)"
    and hops: "keys_distinct (next_hop_map rt)" "next_hop_map_version rt = ver" "set (x # xs) \<subseteq> set (next_hop_map rt)"
    and x: "fst x \<notin> fst ` set xs"
  shows "owner_among si ver a (xs @ [x]) old (ipv4_peer_id_map (fst (add_peer ops my si ver lc x (rt, tr))) a)"
proof -
  obtain p hop where [simp]: "x = (p, hop)" by (cases x)
  let ?new = "\<lparr>pv_peer_id = p, pv_version = ver\<rparr>"
  show ?thesis
  proof (cases "announces si ver a x")
    case False
    then show ?thesis using owner_among_skip [OF O False] by (simp add: add_peer_ipv4)
  next
    case True
    show ?thesis
    proof (cases "\<exists>item\<in>set xs. announces si ver a item")
      case none: False
      then have "claim_entry (is_new_peer_better rt ?new hop) ?new (ipv4_peer_id_map rt a) = ?new"
        using O old by (auto simp: owner_among_def claim_entry_def is_new_peer_better_def split: option.splits)
      then show ?thesis using True none by (auto simp: add_peer_ipv4 owner_among_def)
    next
      case some: True
      then obtain q qhop where q: "(q, qhop) \<in> set xs" "announces si ver a (q, qhop)"
          "ipv4_peer_id_map rt a = Some \<lparr>pv_peer_id = q, pv_version = ver\<rparr>"
          "\<forall>item\<in>set xs. announces si ver a item \<longrightarrow> path_len qhop \<le> path_len (snd item)"
        using O by (auto simp: owner_among_def)
      have "p \<noteq> q" using x q(1) by force
      moreover have "get_next_hop rt q = Some qhop"
        using hops q(1,2) by (auto simp: get_next_hop_def announces_def)
      ultimately have better: "is_new_peer_better rt ?new hop \<lparr>pv_peer_id = q, pv_version = ver\<rparr> \<longleftrightarrow> path_len hop < path_len qhop"
        by (simp add: is_new_peer_better_def)
      show ?thesis
      proof (cases "path_len hop < path_len qhop")
        case True
        then have "\<forall>item\<in>set (xs @ [x]). announces si ver a item \<longrightarrow> path_len hop \<le> path_len (snd item)" using q(4) by fastforce
        then show ?thesis using True \<open>announces si ver a x\<close> better q(3)
          by (auto simp: add_peer_ipv4 owner_among_def claim_entry_def)
      next
        case False
        then have "\<forall>item\<in>set (xs @ [x]). announces si ver a item \<longrightarrow> path_len qhop \<le> path_len (snd item)" using q(4) by auto
        then show ?thesis using False \<open>announces si ver a x\<close> better q
          by (auto simp: add_peer_ipv4 owner_among_def claim_entry_def intro!: exI [of _ q] exI [of _ qhop])
      qed
    qed
  qed
qed

lemma owner_fold:
  assumes old: "\<forall>v. ipv4_peer_id_map rt a = Some v \<longrightarrow> pv_version v < ver"
    and hops: "keys_distinct (next_hop_map rt)" "next_hop_map_version rt = ver"
  shows "set xs \<subseteq> set (next_hop_map rt) \<Longrightarrow> keys_distinct xs \<Longrightarrow>
    owner_among si ver a xs (ipv4_peer_id_map rt a) (ipv4_peer_id_map (fst (fold (add_peer ops my si ver lc) xs (rt, tr))) a)"
proof (induction xs rule: rev_induct)
  case Nil
  then show ?case by (simp add: owner_among_def)
next
  case (snoc x xs)
  obtain rt1 tr1 where f: "fold (add_peer ops my si ver lc) xs (rt, tr) = (rt1, tr1)"
    by (cases "fold (add_peer ops my si ver lc) xs (rt, tr)") auto
  have keep: "next_hop_map rt1 = next_hop_map rt" "next_hop_map_version rt1 = next_hop_map_version rt"
    using fold_add_peer_hops [of ops my si ver lc xs "(rt, tr)"] f by simp_all
  have "owner_among si ver a xs (ipv4_peer_id_map rt a) (ipv4_peer_id_map rt1 a)" using snoc f by simp
  from owner_step [OF old this, of x ops my lc tr1] show ?case using snoc.prems hops keep f by auto
qed

text \<open>
  C21. The owner of a virtual IPv4 address: if reachable peers announce the address, the lookup gives one of them,
  and one with the fewest hops. Otherwise the former entry of the address stays as it was.
\<close>

theorem address_owner:
  assumes "score_queue pop" and "petgraph_dijkstra_ok dj" and "rebuildable my si cc rt"
    and "\<forall>v. ipv4_peer_id_map rt a = Some v \<longrightarrow> pv_version v < synced_version si"
  shows "\<exists>rt'. build_from_synced_info ops dj pop my si policy cc rt = Some rt' \<and>
    (let owners = {(p, hop). get_next_hop rt' p = Some hop \<and>
           (\<exists>info. map_of (peer_infos si) p = Some info \<and> ipv4_addr info = Some a)}
     in if owners = {} then ipv4_peer_id_map rt' a = ipv4_peer_id_map rt a
        else \<exists>(p, hop)\<in>owners. ipv4_peer_id_map rt' a = Some \<lparr>pv_peer_id = p, pv_version = synced_version si\<rparr> \<and>
          (\<forall>(q, qhop)\<in>owners. path_len hop \<le> path_len qhop))"
proof -
  let ?ver = "synced_version si" and ?lc = "local_proxy_cidrs ops my si"
  obtain rt1 where rt1: "build_from_synced_info ops dj pop my si policy cc rt =
      (let (rt2, t4, t6) = fold (add_peer ops my si ?ver ?lc) (next_hop_map rt1) (rt1, [], [])
       in Some (rt2\<lparr>cidr_peer_id_map := t4, cidr_v6_peer_id_map := t6\<rparr>))"
      "keys_distinct (next_hop_map rt1)" "next_hop_map_version rt1 = ?ver" "ipv4_peer_id_map rt1 = ipv4_peer_id_map rt"
    using next_hops_of_build [OF assms(1-3)] by blast
  obtain rt2 t4 t6 where f: "fold (add_peer ops my si ?ver ?lc) (next_hop_map rt1) (rt1, [], []) = (rt2, t4, t6)"
    using prod_cases3 by blast
  define rt' where "rt' = rt2\<lparr>cidr_peer_id_map := t4, cidr_v6_peer_id_map := t6\<rparr>"
  have B: "build_from_synced_info ops dj pop my si policy cc rt = Some rt'" using rt1(1) f by (simp add: rt'_def)
  have O: "owner_among si ?ver a (next_hop_map rt1) (ipv4_peer_id_map rt a) (ipv4_peer_id_map rt' a)"
    using owner_fold [of rt1 a ?ver "next_hop_map rt1" si ops my ?lc "([], [])"] rt1(2-4) assms(4) f by (simp add: rt'_def)
  have hop: "get_next_hop rt' p = Some hop \<longleftrightarrow> (p, hop) \<in> set (next_hop_map rt1) \<and> hop_version hop \<ge> ?ver" for p hop
  proof -
    have "get_next_hop rt' p = get_next_hop rt1 p"
      using fold_add_peer_hops [of ops my si ?ver ?lc "next_hop_map rt1" "(rt1, [], [])"] f
      by (simp add: get_next_hop_def rt'_def split: option.split)
    also have "get_next_hop rt1 p = Some hop \<longleftrightarrow> map_of (next_hop_map rt1) p = Some hop \<and> hop_version hop \<ge> ?ver"
      by (auto simp: get_next_hop_def rt1(3) simp del: map_of_eq_Some_iff split: option.splits)
    finally show ?thesis using rt1(2) by simp
  qed
  let ?owners = "{(p, hop). get_next_hop rt' p = Some hop \<and> (\<exists>info. map_of (peer_infos si) p = Some info \<and> ipv4_addr info = Some a)}"
  have own: "?owners = {item \<in> set (next_hop_map rt1). announces si ?ver a item}"
    by (auto simp: hop announces_def)
  show ?thesis
  proof (intro exI conjI)
    show "let owners = ?owners in if owners = {} then ipv4_peer_id_map rt' a = ipv4_peer_id_map rt a
        else \<exists>(p, hop)\<in>owners. ipv4_peer_id_map rt' a = Some \<lparr>pv_peer_id = p, pv_version = ?ver\<rparr> \<and>
          (\<forall>(q, qhop)\<in>owners. path_len hop \<le> path_len qhop)"
      using O unfolding own by (force simp: owner_among_def Let_def split: if_splits)
  qed (rule B)
qed

section \<open>Proxied addresses\<close>

text \<open>The longest-prefix lookup of the prefix map, as its crate documents it.\<close>

definition contains4 :: "('c4, 'c6) cidr_ops \<Rightarrow> 'c4 \<Rightarrow> u32 \<Rightarrow> bool" where
  "contains4 ops c ip \<longleftrightarrow> first4 ops c \<le> ip \<and> ip \<le> last4 ops c"

definition lpm4_ok :: "('c4, 'c6) cidr_ops \<Rightarrow> bool" where
  "lpm4_ok ops \<longleftrightarrow> (\<forall>m ip. case lpm4 ops m ip of
     None \<Rightarrow> \<forall>c v. map_of m c = Some v \<longrightarrow> \<not> contains4 ops c ip
   | Some (c, v) \<Rightarrow> map_of m c = Some v \<and> contains4 ops c ip \<and>
       (\<forall>c' v'. map_of m c' = Some v' \<longrightarrow> contains4 ops c' ip \<longrightarrow> last4 ops c - first4 ops c \<le> last4 ops c' - first4 ops c'))"

text \<open>A CIDR that a peer announces and the table accepts: a remote one must not lie in a local one.\<close>

definition accepted :: "('c4, 'c6) cidr_ops \<Rightarrow> PeerId \<Rightarrow> ('c4 + 'c6) list \<Rightarrow> PeerId \<Rightarrow> 'c4 \<Rightarrow> string list \<Rightarrow> bool" where
  "accepted ops my lc p c strs \<longleftrightarrow> Some (Inl c) \<in> parse_cidr ops ` set strs \<and>
     (p = my \<or> \<not> list_ex (cidr_is_subset ops (Inl c)) lc)"

lemma accepted_Cons:
  "accepted ops my lc p c (str # strs) \<longleftrightarrow>
    (parse_cidr ops str = Some (Inl c) \<and> (p = my \<or> \<not> list_ex (cidr_is_subset ops (Inl c)) lc)) \<or> accepted ops my lc p c strs"
  by (auto simp: accepted_def)

lemma claim_entry_cases: "claim_entry b new old = new \<or> old = Some (claim_entry b new old)"
  by (auto simp: claim_entry_def split: option.split)

lemma add_cidr_fst:
  "map_of (fst (add_cidr ops my lc better new str tries)) c =
    (if parse_cidr ops str = Some (Inl c) \<and> (pv_peer_id new = my \<or> \<not> list_ex (cidr_is_subset ops (Inl c)) lc)
     then Some (claim_entry (\<lambda>e. pv_peer_id new = my \<or> better e) new (map_of (fst tries) c)) else map_of (fst tries) c)"
  by (auto simp: add_cidr_def Let_def update_conv' split: option.splits sum.splits)

lemma add_cidrs_entry:
  "let e = map_of (fst (fold (add_cidr ops my lc better new) strs tries)) c in
   (e = map_of (fst tries) c \<or> e = Some new \<and> accepted ops my lc (pv_peer_id new) c strs) \<and>
   (accepted ops my lc (pv_peer_id new) c strs \<or> map_of (fst tries) c \<noteq> None \<longrightarrow> e \<noteq> None)"
proof (induction strs arbitrary: tries)
  case Nil
  then show ?case by (simp add: accepted_def Let_def)
next
  case (Cons str strs)
  let ?acc = "parse_cidr ops str = Some (Inl c) \<and> (pv_peer_id new = my \<or> \<not> list_ex (cidr_is_subset ops (Inl c)) lc)"
  define tr where "tr = add_cidr ops my lc better new str tries"
  have step: "map_of (fst tr) c = map_of (fst tries) c \<or> map_of (fst tr) c = Some new \<and> ?acc"
      "?acc \<or> map_of (fst tries) c \<noteq> None \<longrightarrow> map_of (fst tr) c \<noteq> None"
    using claim_entry_cases [of "\<lambda>e. pv_peer_id new = my \<or> better e" new "map_of (fst tries) c"]
    by (auto simp: tr_def add_cidr_fst)
  show ?case using Cons.IH [of tr] step unfolding Let_def accepted_Cons fold_simps(2) tr_def [symmetric] by metis
qed

text \<open>The trie after the items \<open>xs\<close>: every entry was accepted from a current item, and every accepted CIDR has one.\<close>

definition trie_ok :: "('c4, 'c6) cidr_ops \<Rightarrow> PeerId \<Rightarrow> 'raw SyncedRouteInfo \<Rightarrow> Version \<Rightarrow> ('c4 + 'c6) list
    \<Rightarrow> (PeerId \<times> NextHopInfo) set \<Rightarrow> ('c4 \<times> PeerIdVersion) list \<Rightarrow> bool" where
  "trie_ok ops my si ver lc X t \<longleftrightarrow>
     (\<forall>c v. map_of t c = Some v \<longrightarrow> (\<exists>hop info. (pv_peer_id v, hop) \<in> X \<and> hop_version hop \<ge> ver \<and>
        map_of (peer_infos si) (pv_peer_id v) = Some info \<and> accepted ops my lc (pv_peer_id v) c (proxy_cidrs info))) \<and>
     (\<forall>p hop info c. (p, hop) \<in> X \<longrightarrow> hop_version hop \<ge> ver \<longrightarrow> map_of (peer_infos si) p = Some info \<longrightarrow>
        accepted ops my lc p c (proxy_cidrs info) \<longrightarrow> map_of t c \<noteq> None)"

lemma add_peer_trie:
  "fst (snd (add_peer ops my si ver lc (p, hop) (rt, tr))) =
    (if hop_version hop < ver then fst tr
     else case map_of (peer_infos si) p of None \<Rightarrow> fst tr
       | Some info \<Rightarrow> fst (fold (add_cidr ops my lc (is_new_peer_better rt \<lparr>pv_peer_id = p, pv_version = ver\<rparr> hop)
           \<lparr>pv_peer_id = p, pv_version = ver\<rparr>) (proxy_cidrs info) tr))"
  by (auto simp: add_peer_def Let_def split: option.splits)

lemma trie_step:
  assumes "trie_ok ops my si ver lc X (fst tr)"
  shows "trie_ok ops my si ver lc (insert (p, hop) X) (fst (snd (add_peer ops my si ver lc (p, hop) (rt, tr))))"
proof (cases "hop_version hop < ver \<or> map_of (peer_infos si) p = None")
  case True
  then have "fst (snd (add_peer ops my si ver lc (p, hop) (rt, tr))) = fst tr" by (auto simp: add_peer_trie)
  then show ?thesis using assms True unfolding trie_ok_def by (simp only:) (metis insert_iff leD option.distinct(1) prod.inject)
next
  case False
  then obtain info where info: "map_of (peer_infos si) p = Some info" "ver \<le> hop_version hop" by auto
  let ?t = "fst (snd (add_peer ops my si ver lc (p, hop) (rt, tr)))" and ?acc = "\<lambda>c. accepted ops my lc p c (proxy_cidrs info)"
  have e: "map_of ?t c = map_of (fst tr) c \<or> map_of ?t c = Some \<lparr>pv_peer_id = p, pv_version = ver\<rparr> \<and> ?acc c"
      "?acc c \<or> map_of (fst tr) c \<noteq> None \<longrightarrow> map_of ?t c \<noteq> None" for c
    using add_cidrs_entry [of ops my lc "is_new_peer_better rt \<lparr>pv_peer_id = p, pv_version = ver\<rparr> hop"
        "\<lparr>pv_peer_id = p, pv_version = ver\<rparr>" "proxy_cidrs info" tr c] info
    by (auto simp: add_peer_trie Let_def)
  show ?thesis unfolding trie_ok_def
  proof (intro conjI allI impI)
    fix c v assume v: "map_of ?t c = Some v"
    show "\<exists>hop' info. (pv_peer_id v, hop') \<in> insert (p, hop) X \<and> ver \<le> hop_version hop' \<and>
        map_of (peer_infos si) (pv_peer_id v) = Some info \<and> accepted ops my lc (pv_peer_id v) c (proxy_cidrs info)"
    proof (cases "map_of ?t c = map_of (fst tr) c")
      case True
      then have "map_of (fst tr) c = Some v" using v by simp
      then show ?thesis using assms unfolding trie_ok_def by blast
    next
      case False
      then have "v = \<lparr>pv_peer_id = p, pv_version = ver\<rparr>" "?acc c" using e(1) [of c] v by auto
      then show ?thesis using info by auto
    qed
  next
    fix q hop' info' c
    assume "(q, hop') \<in> insert (p, hop) X" "ver \<le> hop_version hop'" "map_of (peer_infos si) q = Some info'"
      "accepted ops my lc q c (proxy_cidrs info')"
    then show "map_of ?t c \<noteq> None" using e(2) [of c] assms info unfolding trie_ok_def by (metis insert_iff option.inject prod.inject)
  qed
qed

lemma trie_fold:
  "trie_ok ops my si ver lc X (fst tr) \<Longrightarrow>
   trie_ok ops my si ver lc (X \<union> set xs) (fst (snd (fold (add_peer ops my si ver lc) xs (rt, tr))))"
proof (induction xs arbitrary: X rt tr)
  case (Cons x xs)
  obtain p hop where x: "x = (p, hop)" by (cases x)
  obtain rt1 tr1 where s: "add_peer ops my si ver lc x (rt, tr) = (rt1, tr1)"
    by (cases "add_peer ops my si ver lc x (rt, tr)") auto
  have "trie_ok ops my si ver lc (insert x X) (fst tr1)" using trie_step [OF Cons.prems, of p hop rt] s by (simp add: x)
  from Cons.IH [OF this, of rt1] show ?case using s by simp
qed simp

text \<open>
  Lookup of a proxied IPv4 address: the answer is a reachable peer that announces a network with the
  address, the network is the smallest of all that reachable peers announce, and networks inside a locally
  announced one are never taken from others. There is no answer only if no such network exists.
\<close>

theorem proxy_lookup:
  assumes "score_queue pop" and "petgraph_dijkstra_ok dj" and "rebuildable my si cc rt" and "lpm4_ok ops"
  shows "\<exists>rt'. build_from_synced_info ops dj pop my si policy cc rt = Some rt' \<and>
    (let proxies = {(p, c). peer_reachable rt' p \<and> contains4 ops c ip \<and> (\<exists>info. map_of (peer_infos si) p = Some info \<and>
           accepted ops my (local_proxy_cidrs ops my si) p c (proxy_cidrs info))}
     in case get_peer_id_for_proxy ops rt' (Inl ip) of
       None \<Rightarrow> proxies = {}
     | Some p \<Rightarrow> \<exists>c. (p, c) \<in> proxies \<and> (\<forall>(q, c')\<in>proxies. last4 ops c - first4 ops c \<le> last4 ops c' - first4 ops c'))"
proof -
  let ?ver = "synced_version si" and ?lc = "local_proxy_cidrs ops my si"
  obtain rt1 where rt1: "build_from_synced_info ops dj pop my si policy cc rt =
      (let (rt2, t4, t6) = fold (add_peer ops my si ?ver ?lc) (next_hop_map rt1) (rt1, [], [])
       in Some (rt2\<lparr>cidr_peer_id_map := t4, cidr_v6_peer_id_map := t6\<rparr>))"
      "keys_distinct (next_hop_map rt1)" "next_hop_map_version rt1 = ?ver"
    using next_hops_of_build [OF assms(1-3)] by blast
  obtain rt2 t4 t6 where f: "fold (add_peer ops my si ?ver ?lc) (next_hop_map rt1) (rt1, [], []) = (rt2, t4, t6)"
    using prod_cases3 by blast
  define rt' where "rt' = rt2\<lparr>cidr_peer_id_map := t4, cidr_v6_peer_id_map := t6\<rparr>"
  have B: "build_from_synced_info ops dj pop my si policy cc rt = Some rt'" using rt1(1) f by (simp add: rt'_def)
  have T: "trie_ok ops my si ?ver ?lc (set (next_hop_map rt1)) (cidr_peer_id_map rt')"
    using trie_fold [of ops my si ?ver ?lc "{}" "([], [])" "next_hop_map rt1" rt1] f by (simp add: trie_ok_def rt'_def)
  have reach: "peer_reachable rt' p \<longleftrightarrow> (\<exists>hop. (p, hop) \<in> set (next_hop_map rt1) \<and> hop_version hop \<ge> ?ver)" for p
  proof -
    have "get_next_hop rt' p = get_next_hop rt1 p"
      using fold_add_peer_hops [of ops my si ?ver ?lc "next_hop_map rt1" "(rt1, [], [])"] f
      by (simp add: get_next_hop_def rt'_def split: option.split)
    also have "get_next_hop rt1 p \<noteq> None \<longleftrightarrow> (\<exists>hop. map_of (next_hop_map rt1) p = Some hop \<and> hop_version hop \<ge> ?ver)"
      by (auto simp: get_next_hop_def rt1(3) simp del: map_of_eq_Some_iff split: option.splits)
    finally show ?thesis using rt1(2) by (simp add: peer_reachable_def)
  qed
  let ?proxies = "{(p, c). peer_reachable rt' p \<and> contains4 ops c ip \<and> (\<exists>info. map_of (peer_infos si) p = Some info \<and>
           accepted ops my ?lc p c (proxy_cidrs info))}"
  have sound: "(pv_peer_id v, c) \<in> ?proxies" if "map_of (cidr_peer_id_map rt') c = Some v" "contains4 ops c ip" for c v
    using T that unfolding trie_ok_def by (fastforce simp: reach)
  have complete: "\<exists>v. map_of (cidr_peer_id_map rt') c = Some v" if "(p, c) \<in> ?proxies" for p c
    using T that unfolding trie_ok_def by (fastforce simp: reach)
  have L: "case lpm4 ops (cidr_peer_id_map rt') ip of
     None \<Rightarrow> \<forall>c v. map_of (cidr_peer_id_map rt') c = Some v \<longrightarrow> \<not> contains4 ops c ip
   | Some (c, v) \<Rightarrow> map_of (cidr_peer_id_map rt') c = Some v \<and> contains4 ops c ip \<and>
       (\<forall>c' v'. map_of (cidr_peer_id_map rt') c' = Some v' \<longrightarrow> contains4 ops c' ip \<longrightarrow>
         last4 ops c - first4 ops c \<le> last4 ops c' - first4 ops c')"
    using assms(4) unfolding lpm4_ok_def by blast
  have "case get_peer_id_for_proxy ops rt' (Inl ip) of
       None \<Rightarrow> ?proxies = {}
     | Some p \<Rightarrow> \<exists>c. (p, c) \<in> ?proxies \<and> (\<forall>(q, c')\<in>?proxies. last4 ops c - first4 ops c \<le> last4 ops c' - first4 ops c')"
  proof (cases "lpm4 ops (cidr_peer_id_map rt') ip")
    case None
    then have "?proxies = {}" using L complete by fastforce
    then show ?thesis using None by (simp add: get_peer_id_for_proxy_def)
  next
    case (Some r)
    obtain c v where r: "r = (c, v)" by (cases r)
    have c: "map_of (cidr_peer_id_map rt') c = Some v" "contains4 ops c ip"
      "\<forall>c' v'. map_of (cidr_peer_id_map rt') c' = Some v' \<longrightarrow> contains4 ops c' ip \<longrightarrow>
         last4 ops c - first4 ops c \<le> last4 ops c' - first4 ops c'"
      using L Some r by simp_all
    have "last4 ops c - first4 ops c \<le> last4 ops c' - first4 ops c'" if q: "(q, c') \<in> ?proxies" for q c'
      using c(3) complete [OF q] q by blast
    then have "\<exists>c. (pv_peer_id v, c) \<in> ?proxies \<and> (\<forall>(q, c')\<in>?proxies. last4 ops c - first4 ops c \<le> last4 ops c' - first4 ops c')"
      using sound [OF c(1,2)] by blast
    then show ?thesis using Some r by (simp add: get_peer_id_for_proxy_def)
  qed
  then show ?thesis using B unfolding Let_def by blast
qed

section \<open>Example\<close>

text \<open>A network of three peers in a line; peer 3 has a virtual address and proxies a network.\<close>

definition demo_peer :: "PeerId \<Rightarrow> RoutePeerInfo" where
  "demo_peer p = (route_peer_info_new ''v'')\<lparr>peer_id := p, version := 1,
     ipv4_addr := (if p = 3 then Some 0x0A000003 else None),
     proxy_cidrs := (if p = 3 then [''10.1.0.0/16''] else [])\<rparr>"

definition demo_conn :: "PeerId set \<Rightarrow> RouteConnInfo" where
  "demo_conn cs = \<lparr>connected_peers = cs, conn_version = 1, conn_last_update = 0\<rparr>"

definition demo_si :: "unit SyncedRouteInfo" where
  "demo_si = \<lparr>peer_infos = [(1, demo_peer 1), (2, demo_peer 2), (3, demo_peer 3)], raw_peer_infos = Map.empty,
     conn_map = [(1, demo_conn {2}), (2, demo_conn {1, 3}), (3, demo_conn {2})], foreign_network = [],
     group_trust_map = Map.empty, group_trust_map_cache = Map.empty, trusted_keys = Map.empty,
     non_reusable_credential_owners = Map.empty, synced_version = 1\<rparr>"

definition demo_dijkstra :: petgraph_dijkstra where
  "demo_dijkstra edges target wt s = (case dijkstra_with_first_hop pop_min edges target wt s of Some (sc, _) \<Rightarrow> sc | None \<Rightarrow> Map.empty)"

definition demo_lpm :: "((u32 \<times> u32) \<times> PeerIdVersion) list \<Rightarrow> u32 \<Rightarrow> ((u32 \<times> u32) \<times> PeerIdVersion) option" where
  "demo_lpm m ip = map_option (\<lambda>r. snd (fst r)) (pop_min (map (\<lambda>(c, v). (snd c - fst c, (c, v)))
     (filter (\<lambda>(c, _). fst c \<le> ip \<and> ip \<le> snd c) (AList.clearjunk m))))"

definition demo_ops :: "(u32 \<times> u32, unit) cidr_ops" where
  "demo_ops = \<lparr>parse_cidr = (\<lambda>s. if s = ''10.1.0.0/16'' then Some (Inl (0x0A010000, 0x0A01FFFF)) else None),
     first4 = fst, last4 = snd, first6 = (\<lambda>_. 0), last6 = (\<lambda>_. 0), lpm4 = demo_lpm, lpm6 = (\<lambda>_ _. None)\<rparr>"

lemma demo_dijkstra_ok: "petgraph_dijkstra_ok demo_dijkstra"
  unfolding petgraph_dijkstra_ok_def
proof (intro allI impI)
  fix edges :: "nat \<Rightarrow> graph_edge list" and target wt N C s v
  assume "graph_ok edges target wt N C" and "(s :: nat) \<in> N"
  from dijkstra_paths [OF route_heap.score_queue_axioms this]
  obtain sc fh where D: "dijkstra_with_first_hop pop_min edges target wt s = Some (sc, fh)"
    "case fh v of None \<Rightarrow> sc v = None \<and> (\<nexists>es. is_path edges target s es v)
     | Some (f, h) \<Rightarrow> \<exists>es d. least_path edges target wt s es v \<and> f = path_hop target s es \<and> h = length es \<and>
         h \<le> card N \<and> sc v = Some d \<and> unat d = path_cost wt es"
    by blast
  then show "case demo_dijkstra edges target wt s v of None \<Rightarrow> \<nexists>es. is_path edges target s es v
      | Some d \<Rightarrow> \<exists>es. least_path edges target wt s es v \<and> unat d = path_cost wt es"
    by (cases "fh v") (auto simp: demo_dijkstra_def)
qed

lemma demo_lpm_ok: "lpm4_ok demo_ops"
  unfolding lpm4_ok_def
proof (intro allI)
  fix m :: "((u32 \<times> u32) \<times> PeerIdVersion) list" and ip
  define l where "l = map (\<lambda>(c, v). (snd c - fst c, (c, v))) (filter (\<lambda>(c, _). fst c \<le> ip \<and> ip \<le> snd c) (AList.clearjunk m))"
  have mem: "(w, c, v) \<in> set l \<longleftrightarrow> map_of m c = Some v \<and> contains4 demo_ops c ip \<and> w = snd c - fst c" for w c v
    using map_of_eq_Some_iff [OF distinct_clearjunk [of m], of c v]
    by (auto simp: l_def contains4_def demo_ops_def map_of_clearjunk)
  show "case lpm4 demo_ops m ip of
     None \<Rightarrow> \<forall>c v. map_of m c = Some v \<longrightarrow> \<not> contains4 demo_ops c ip
   | Some (c, v) \<Rightarrow> map_of m c = Some v \<and> contains4 demo_ops c ip \<and>
       (\<forall>c' v'. map_of m c' = Some v' \<longrightarrow> contains4 demo_ops c' ip \<longrightarrow>
         last4 demo_ops c - first4 demo_ops c \<le> last4 demo_ops c' - first4 demo_ops c')"
  proof (cases "pop_min l")
    case None
    then have "l = []" by (simp only: pop_min_None)
    then have "\<not> (map_of m c = Some v \<and> contains4 demo_ops c ip)" for c v using mem [of _ c v] by (metis empty_iff list.set(1))
    then show ?thesis using None by (auto simp: demo_ops_def demo_lpm_def l_def)
  next
    case (Some r)
    obtain x h where rx: "r = (x, h)" by (cases r)
    obtain w c v where x: "x = (w, c, v)" by (rule prod_cases3)
    note r = rx [unfolded x]
    have min: "\<forall>y\<in>set l. w \<le> fst y" using pop_min_Some [OF Some [unfolded r]] by simp
    have "(w, c, v) \<in> set l" using binary_heap.pop_set [OF Some [unfolded r]] by simp
    then have c: "map_of m c = Some v" "contains4 demo_ops c ip" "w = snd c - fst c" using mem by simp_all
    moreover have "snd c - fst c \<le> snd c' - fst c'" if "map_of m c' = Some v'" "contains4 demo_ops c' ip" for c' v'
    proof -
      have "(snd c' - fst c', c', v') \<in> set l" using mem that by simp
      then show ?thesis using min c(3) by fastforce
    qed
    moreover have "lpm4 demo_ops m ip = Some (c, v)" using Some r by (simp add: demo_ops_def demo_lpm_def flip: l_def)
    moreover have "last4 demo_ops = snd" "first4 demo_ops = fst" by (simp_all add: demo_ops_def)
    ultimately show ?thesis by (simp del: split_paired_All) blast
  qed
qed

lemma demo_known: "known_peers demo_si = [1, 2, 3]"
  by (simp add: known_peers_def demo_si_def demo_peer_def route_peer_info_new_def)

lemma demo_rebuildable: "u \<in> set (known_peers demo_si) \<Longrightarrow> rebuildable u demo_si DefaultRouteCostCalculator route_table_new"
  using older_than_new [of "synced_version demo_si"] unfolding rebuildable_def
  by (simp add: demo_known) (simp add: demo_si_def costs_ok_def DefaultRouteCostCalculator_def)

lemmas demo_facts = route_heap.score_queue_axioms demo_dijkstra_ok

theorem next_hops_are_best_witness:
  "\<exists>rt'. build_from_synced_info demo_ops demo_dijkstra pop_min 1 demo_si LeastHop DefaultRouteCostCalculator route_table_new = Some rt' \<and>
    (\<forall>p. case get_next_hop rt' p of
       None \<Rightarrow> \<nexists>es. is_path (peer_edges demo_si DefaultRouteCostCalculator) fst 1 es p
     | Some x \<Rightarrow> \<exists>es. best_path LeastHop (peer_edges demo_si DefaultRouteCostCalculator) fst snd 1 es p \<and>
         x = peer_entry 1 (synced_version demo_si) es)"
  by (rule next_hops_are_best [OF demo_facts]) (rule demo_rebuildable, simp add: demo_known)

definition demo_tables :: "PeerId \<Rightarrow> (u32 \<times> u32, unit) RouteTable" where
  "demo_tables u = the (build_from_synced_info demo_ops demo_dijkstra pop_min u demo_si LeastHop DefaultRouteCostCalculator route_table_new)"

theorem forwarding_arrives_witness: "\<exists>k. arrives demo_tables 3 1 k"
proof (rule forwarding_arrives [OF demo_facts, where si = demo_si and cc = DefaultRouteCostCalculator and policy = LeastHop])
  show "\<forall>u\<in>set (known_peers demo_si). rebuildable u demo_si DefaultRouteCostCalculator route_table_new \<and>
      build_from_synced_info demo_ops demo_dijkstra pop_min u demo_si LeastHop DefaultRouteCostCalculator route_table_new = Some (demo_tables u)"
    using build_next_hops [OF demo_facts demo_rebuildable, of _ demo_ops LeastHop] demo_rebuildable
    by (fastforce simp: demo_tables_def)
  show "is_path (peer_edges demo_si DefaultRouteCostCalculator) fst 1 [(2, 1), (3, 1)] 3"
    by (simp add: peer_edges_def demo_known)
      (simp add: demo_si_def get_connected_peers_def demo_conn_def edge_cost_of_def get_avoid_relay_data_def
        demo_peer_def route_peer_info_new_def DefaultRouteCostCalculator_def)
qed (simp_all add: demo_known)

theorem address_owner_witness:
  "\<exists>rt'. build_from_synced_info demo_ops demo_dijkstra pop_min 1 demo_si LeastHop DefaultRouteCostCalculator route_table_new = Some rt' \<and>
    (let owners = {(p, hop). get_next_hop rt' p = Some hop \<and>
           (\<exists>info. map_of (peer_infos demo_si) p = Some info \<and> ipv4_addr info = Some 0x0A000003)}
     in if owners = {} then ipv4_peer_id_map rt' 0x0A000003 = ipv4_peer_id_map (route_table_new :: (u32 \<times> u32, unit) RouteTable) 0x0A000003
        else \<exists>(p, hop)\<in>owners. ipv4_peer_id_map rt' 0x0A000003 = Some \<lparr>pv_peer_id = p, pv_version = synced_version demo_si\<rparr> \<and>
          (\<forall>(q, qhop)\<in>owners. path_len hop \<le> path_len qhop))"
  by (rule address_owner [OF demo_facts demo_rebuildable]) (simp_all add: demo_known route_table_new_def)

theorem proxy_lookup_witness:
  "\<exists>rt'. build_from_synced_info demo_ops demo_dijkstra pop_min 1 demo_si LeastHop DefaultRouteCostCalculator route_table_new = Some rt' \<and>
    (let proxies = {(p, c). peer_reachable rt' p \<and> contains4 demo_ops c 0x0A010005 \<and> (\<exists>info. map_of (peer_infos demo_si) p = Some info \<and>
           accepted demo_ops 1 (local_proxy_cidrs demo_ops 1 demo_si) p c (proxy_cidrs info))}
     in case get_peer_id_for_proxy demo_ops rt' (Inl 0x0A010005) of
       None \<Rightarrow> proxies = {}
     | Some p \<Rightarrow> \<exists>c. (p, c) \<in> proxies \<and> (\<forall>(q, c')\<in>proxies. last4 demo_ops c - first4 demo_ops c \<le> last4 demo_ops c' - first4 demo_ops c'))"
  by (rule proxy_lookup [OF demo_facts demo_rebuildable demo_lpm_ok]) (simp add: demo_known)

end
