(* ===== verification/Route_Trust.thy ===== *)
theory Route_Trust
  imports Route_Sync
begin

text \<open>
  Trust in the route information: proofs of group membership and of credentials (\<open>proto/peer_rpc.rs\<close>), the
  groups and credentials a node trusts (\<open>SyncedRouteInfo\<close> in \<open>peers/peer_ospf_route.rs\<close>) and the trusted
  keys of the context (\<open>common/global_ctx.rs\<close>). Parameters: \<open>hmac\<close> (HMAC-SHA256), the protobuf encoding of a
  credential and the fields of a stored raw message (\<open>DynamicMessage\<close>).
\<close>

section \<open>Proofs\<close>

text \<open>A string's bytes; strings are lists of bytes here.\<close>

definition str_bytes :: "string \<Rightarrow> bytes" where
  "str_bytes s = map of_char s"

definition group_sign_data :: "string \<Rightarrow> PeerId \<Rightarrow> bytes" where
  "group_sign_data name p = str_bytes name @ [0] @ be_bytes 4 p"

definition generate_with_proof :: "(bytes \<Rightarrow> bytes \<Rightarrow> bytes) \<Rightarrow> string \<Rightarrow> string \<Rightarrow> PeerId \<Rightarrow> PeerGroupInfo" where
  "generate_with_proof hmac name secret p = \<lparr>group_name = name, group_proof = hmac (str_bytes secret) (group_sign_data name p)\<rparr>"

definition group_verify :: "(bytes \<Rightarrow> bytes \<Rightarrow> bytes) \<Rightarrow> PeerGroupInfo \<Rightarrow> string \<Rightarrow> PeerId \<Rightarrow> bool" where
  "group_verify hmac g secret p \<longleftrightarrow> hmac (str_bytes secret) (group_sign_data (group_name g) p) = group_proof g"

definition credential_label :: bytes where
  "credential_label = str_bytes ''easytier credential proof''"

definition generate_credential_hmac_from_bytes :: "(bytes \<Rightarrow> bytes \<Rightarrow> bytes) \<Rightarrow> bytes \<Rightarrow> string \<Rightarrow> bytes" where
  "generate_credential_hmac_from_bytes hmac cred secret = hmac (str_bytes secret) (credential_label @ cred)"

definition new_signed :: "(bytes \<Rightarrow> bytes \<Rightarrow> bytes) \<Rightarrow> (TrustedCredentialPubkey \<Rightarrow> bytes) \<Rightarrow> TrustedCredentialPubkey \<Rightarrow> string
    \<Rightarrow> TrustedCredentialPubkeyProof" where
  "new_signed hmac encode c secret = \<lparr>credential = Some c,
     credential_hmac = generate_credential_hmac_from_bytes hmac (encode c) secret\<rparr>"

definition verify_credential_hmac_with_bytes :: "(bytes \<Rightarrow> bytes \<Rightarrow> bytes) \<Rightarrow> TrustedCredentialPubkeyProof \<Rightarrow> bytes \<Rightarrow> string \<Rightarrow> bool" where
  "verify_credential_hmac_with_bytes hmac proof cred secret =
     (if credential_hmac proof = [] then False
      else hmac (str_bytes secret) (credential_label @ cred) = credential_hmac proof)"

definition verify_credential_hmac :: "(bytes \<Rightarrow> bytes \<Rightarrow> bytes) \<Rightarrow> (TrustedCredentialPubkey \<Rightarrow> bytes) \<Rightarrow> TrustedCredentialPubkeyProof
    \<Rightarrow> string \<Rightarrow> bool" where
  "verify_credential_hmac hmac encode proof secret = (case credential proof of
     None \<Rightarrow> False | Some c \<Rightarrow> verify_credential_hmac_with_bytes hmac proof (encode c) secret)"

section \<open>Groups\<close>

definition set_peer_groups :: "PeerId \<Rightarrow> (string \<times> bytes) list \<Rightarrow> 'raw SyncedRouteInfo \<Rightarrow> 'raw SyncedRouteInfo" where
  "set_peer_groups p gs si =
     (if gs = [] then si\<lparr>group_trust_map := (group_trust_map si)(p := None), group_trust_map_cache := (group_trust_map_cache si)(p := None)\<rparr>
      else si\<lparr>group_trust_map := (group_trust_map si)(p \<mapsto> gs), group_trust_map_cache := (group_trust_map_cache si)(p \<mapsto> map fst gs)\<rparr>)"

definition get_proof_groups :: "'raw SyncedRouteInfo \<Rightarrow> PeerId \<Rightarrow> (string \<times> bytes) list" where
  "get_proof_groups si p = (case group_trust_map si p of Some gs \<Rightarrow> filter (\<lambda>(_, proof). proof \<noteq> []) gs | None \<Rightarrow> [])"

definition default_feature_flag :: PeerFeatureFlag where
  "default_feature_flag = \<lparr>is_public_server = False, avoid_relay_data = False, kcp_input = False, no_relay_kcp = False,
     support_conn_list_sync = False, quic_input = False, no_relay_quic = False, is_credential_peer = False,
     need_p2p = False, disable_p2p = False, ipv6_public_addr_provider = False\<rparr>"

definition mark_credential_peer :: "bool \<Rightarrow> RoutePeerInfo \<Rightarrow> RoutePeerInfo" where
  "mark_credential_peer b info = info\<lparr>feature_flag := Some ((case feature_flag info of Some f \<Rightarrow> f | None \<Rightarrow> default_feature_flag)
     \<lparr>is_credential_peer := b\<rparr>)\<rparr>"

definition is_credential_peer_info :: "RoutePeerInfo \<Rightarrow> bool" where
  "is_credential_peer_info info = (case feature_flag info of Some f \<Rightarrow> is_credential_peer f | None \<Rightarrow> False)"

definition is_admin_peer :: "RoutePeerInfo \<Rightarrow> bool" where
  "is_admin_peer info = (if version info = 0 then False else \<not> is_credential_peer_info info)"

text \<open>
  \<open>verify_groups\<close>: the groups of a peer whose proof checks out with the local secret of the group; for
  administrators, where the node has no network secret, also the other groups they declare. \<open>entry().or_default()\<close>
  inserts an empty proof.
\<close>

definition or_default :: "string \<Rightarrow> (string \<times> bytes) list \<Rightarrow> (string \<times> bytes) list" where
  "or_default name gs = (if map_of gs name = None then AList.update name [] gs else gs)"

definition verify_groups :: "(bytes \<Rightarrow> bytes \<Rightarrow> bytes) \<Rightarrow> (string \<rightharpoonup> string) \<Rightarrow> bool \<Rightarrow> RoutePeerInfo \<Rightarrow> (string \<times> bytes) list" where
  "verify_groups hmac secrets trust_admin info =
     (let gs = fold (\<lambda>g gs. case secrets (group_name g) of
            Some secret \<Rightarrow> if group_verify hmac g secret (peer_id info) then AList.update (group_name g) (group_proof g) gs else gs
          | None \<Rightarrow> gs) (groups info) []
      in if trust_admin \<and> is_admin_peer info then fold (\<lambda>g. or_default (group_name g)) (groups info) gs else gs)"

text \<open>Both arms of the entry match store a non-empty map with its names and remove an empty one.\<close>

definition verify_and_update_group_trusts :: "(bytes \<Rightarrow> bytes \<Rightarrow> bytes) \<Rightarrow> RoutePeerInfo list \<Rightarrow> (string \<times> string) list \<Rightarrow> bool
    \<Rightarrow> 'raw SyncedRouteInfo \<Rightarrow> 'raw SyncedRouteInfo" where
  "verify_and_update_group_trusts hmac infos declarations trust_admin si =
     fold (\<lambda>info si. let gs = verify_groups hmac (map_of (rev declarations)) trust_admin info in
       case group_trust_map si (peer_id info) of
         Some _ \<Rightarrow>
           if gs = [] then si\<lparr>group_trust_map := (group_trust_map si)(peer_id info := None),
             group_trust_map_cache := (group_trust_map_cache si)(peer_id info := None)\<rparr>
           else si\<lparr>group_trust_map_cache := (group_trust_map_cache si)(peer_id info \<mapsto> map fst gs),
             group_trust_map := (group_trust_map si)(peer_id info \<mapsto> gs)\<rparr>
       | None \<Rightarrow>
           if gs \<noteq> [] then si\<lparr>group_trust_map_cache := (group_trust_map_cache si)(peer_id info \<mapsto> map fst gs),
             group_trust_map := (group_trust_map si)(peer_id info \<mapsto> gs)\<rparr>
           else si) infos si"

definition update_my_group_trusts :: "PeerId \<Rightarrow> PeerGroupInfo list \<Rightarrow> 'raw SyncedRouteInfo \<Rightarrow> 'raw SyncedRouteInfo" where
  "update_my_group_trusts my gs si = set_peer_groups my (fold (\<lambda>g m. AList.update (group_name g) (group_proof g) m) gs []) si"

section \<open>Credentials\<close>

datatype TrustedKeySource = OspfNode | OspfCredential

record TrustedKeyMetadata =
  source :: TrustedKeySource
  key_expiry :: "int option"

definition is_expired :: "int \<Rightarrow> TrustedKeyMetadata \<Rightarrow> bool" where
  "is_expired now m = (case key_expiry m of Some e \<Rightarrow> now \<ge> e | None \<Rightarrow> False)"

type_synonym TrustedKeyMap = "bytes \<rightharpoonup> TrustedKeyMetadata"

text \<open>\<open>TrustedKeyMapManager\<close>: the trusted keys of every network, by name.\<close>

type_synonym TrustedKeyMapManager = "string \<rightharpoonup> TrustedKeyMap"

definition update_trusted_keys :: "string \<Rightarrow> TrustedKeyMap \<Rightarrow> TrustedKeyMapManager \<Rightarrow> TrustedKeyMapManager" where
  "update_trusted_keys network_name ks m = m(network_name \<mapsto> ks)"

definition remove_trusted_keys :: "string \<Rightarrow> TrustedKeyMapManager \<Rightarrow> TrustedKeyMapManager" where
  "remove_trusted_keys network_name m = m(network_name := None)"

definition verify_trusted_key_with_source :: "int \<Rightarrow> TrustedKeyMapManager \<Rightarrow> bytes \<Rightarrow> string \<Rightarrow> TrustedKeySource option \<Rightarrow> bool" where
  "verify_trusted_key_with_source now m pubkey network_name src = (case m network_name of None \<Rightarrow> False | Some ks \<Rightarrow>
     (case ks pubkey of None \<Rightarrow> False
      | Some d \<Rightarrow> (case src of Some s \<Rightarrow> source d = s \<and> \<not> is_expired now d | None \<Rightarrow> \<not> is_expired now d)))"

definition verify_trusted_key :: "int \<Rightarrow> TrustedKeyMapManager \<Rightarrow> bytes \<Rightarrow> string \<Rightarrow> bool" where
  "verify_trusted_key now m pubkey network_name = verify_trusted_key_with_source now m pubkey network_name None"

text \<open>The third-party parts of credential checks.\<close>

record ('raw, 'val) trust_api =
  api_hmac :: "bytes \<Rightarrow> bytes \<Rightarrow> bytes"
  encode_credential :: "TrustedCredentialPubkey \<Rightarrow> bytes"
  get_field_by_name :: "'raw \<Rightarrow> string \<Rightarrow> 'val option"
  as_list :: "'val \<Rightarrow> 'val list option"
  as_message :: "'val \<Rightarrow> 'raw option"
  encode_to_vec :: "'raw \<Rightarrow> bytes"

definition raw_credential_bytes_from_route_info :: "('raw, 'val) trust_api \<Rightarrow> 'raw \<Rightarrow> nat \<Rightarrow> bytes option" where
  "raw_credential_bytes_from_route_info api raw proof_idx = do {
     proofs \<leftarrow> get_field_by_name api raw ''trusted_credential_pubkeys'';
     vs \<leftarrow> as_list api proofs;
     v \<leftarrow> (if proof_idx < length vs then Some (vs ! proof_idx) else None);
     m \<leftarrow> as_message api v;
     c \<leftarrow> get_field_by_name api m ''credential'';
     map_option (encode_to_vec api) (as_message api c) }"

definition credential_is_reusable :: "TrustedCredentialPubkey \<Rightarrow> bool" where
  "credential_is_reusable c = (case reusable c of Some b \<Rightarrow> b | None \<Rightarrow> True)"

definition credential_proof_is_valid :: "('raw, 'val) trust_api \<Rightarrow> 'raw option \<Rightarrow> nat \<Rightarrow> TrustedCredentialPubkeyProof \<Rightarrow> string option \<Rightarrow> bool" where
  "credential_proof_is_valid api raw proof_idx proof network_secret = (case network_secret of
     None \<Rightarrow> True
   | Some secret \<Rightarrow> (case Option.bind raw (\<lambda>r. raw_credential_bytes_from_route_info api r proof_idx) of
       Some bs \<Rightarrow> verify_credential_hmac_with_bytes (api_hmac api) proof bs secret
     | None \<Rightarrow> verify_credential_hmac (api_hmac api) (encode_credential api) proof secret))"

fun collect_proofs :: "('raw, 'val) trust_api \<Rightarrow> 'raw option \<Rightarrow> string option \<Rightarrow> int \<Rightarrow> nat \<Rightarrow> TrustedCredentialPubkeyProof list
    \<Rightarrow> (bytes \<rightharpoonup> TrustedCredentialPubkey) \<times> TrustedKeyMap \<Rightarrow> (bytes \<rightharpoonup> TrustedCredentialPubkey) \<times> TrustedKeyMap" where
  "collect_proofs api raw network_secret now idx [] acc = acc"
| "collect_proofs api raw network_secret now idx (proof # proofs) (all_trusted, keys) =
     (if \<not> credential_proof_is_valid api raw idx proof network_secret
      then collect_proofs api raw network_secret now (idx + 1) proofs (all_trusted, keys)
      else case credential proof of
        None \<Rightarrow> collect_proofs api raw network_secret now (idx + 1) proofs (all_trusted, keys)
      | Some c \<Rightarrow>
          if expiry_unix c \<le> now then collect_proofs api raw network_secret now (idx + 1) proofs (all_trusted, keys)
          else collect_proofs api raw network_secret now (idx + 1) proofs
            (case all_trusted (cred_pubkey c) of Some _ \<Rightarrow> all_trusted | None \<Rightarrow> all_trusted(cred_pubkey c \<mapsto> c),
             keys(cred_pubkey c \<mapsto> \<lparr>source = OspfCredential, key_expiry = Some (expiry_unix c)\<rparr>)))"

definition collect_peer :: "('raw, 'val) trust_api \<Rightarrow> 'raw SyncedRouteInfo \<Rightarrow> string option \<Rightarrow> int \<Rightarrow> PeerId \<times> RoutePeerInfo
    \<Rightarrow> (bytes \<rightharpoonup> TrustedCredentialPubkey) \<times> TrustedKeyMap \<Rightarrow> (bytes \<rightharpoonup> TrustedCredentialPubkey) \<times> TrustedKeyMap" where
  "collect_peer api si network_secret now = (\<lambda>(p, info) (all_trusted, keys).
     if \<not> is_admin_peer info then (all_trusted, keys)
     else let keys = (if noise_static_pubkey info \<noteq> []
            then keys(noise_static_pubkey info \<mapsto> \<lparr>source = OspfNode, key_expiry = None\<rparr>) else keys)
          in collect_proofs api (raw_peer_infos si p) network_secret now 0
               (trusted_credential_pubkeys info) (all_trusted, keys))"

definition collect_trusted_credentials :: "('raw, 'val) trust_api \<Rightarrow> 'raw SyncedRouteInfo \<Rightarrow> string option \<Rightarrow> int
    \<Rightarrow> (bytes \<rightharpoonup> TrustedCredentialPubkey) \<times> TrustedKeyMap" where
  "collect_trusted_credentials api si network_secret now =
     fold (collect_peer api si network_secret now) (peer_infos si) (Map.empty, Map.empty)"

text \<open>The peers that compete for a credential that only one may use; the lowest id owns it.\<close>

definition candidates :: "(PeerId \<times> RoutePeerInfo) list \<Rightarrow> (bytes \<rightharpoonup> TrustedCredentialPubkey) \<Rightarrow> (PeerId \<Rightarrow> bool) \<Rightarrow> bytes \<Rightarrow> PeerId set" where
  "candidates infos all_trusted active pubkey = fst ` set (filter (\<lambda>(p, info).
     noise_static_pubkey info \<noteq> [] \<and> noise_static_pubkey info = pubkey \<and>
     (case all_trusted pubkey of None \<Rightarrow> False | Some c \<Rightarrow> \<not> credential_is_reusable c) \<and> active p) infos)"

definition collect_non_reusable_credential_owners :: "(PeerId \<times> RoutePeerInfo) list \<Rightarrow> (bytes \<rightharpoonup> TrustedCredentialPubkey)
    \<Rightarrow> (PeerId \<Rightarrow> bool) \<Rightarrow> (bytes \<rightharpoonup> PeerId) \<times> PeerId set" where
  "collect_non_reusable_credential_owners infos all_trusted active =
     (\<lambda>pubkey. let cs = candidates infos all_trusted active pubkey in if cs = {} then None else Some (Min cs),
      \<Union>info\<in>snd ` set infos. let cs = candidates infos all_trusted active (noise_static_pubkey info)
        in if cs = {} then {} else cs - {Min cs})"

definition replace_non_reusable_credential_owners :: "(bytes \<rightharpoonup> PeerId) \<Rightarrow> 'raw SyncedRouteInfo \<Rightarrow> 'raw SyncedRouteInfo" where
  "replace_non_reusable_credential_owners owners si = si\<lparr>non_reusable_credential_owners :=
     (\<lambda>k. if owners k \<noteq> None then non_reusable_credential_owners si k else None) ++ owners\<rparr>"

definition update_credential_groups :: "(PeerId \<times> RoutePeerInfo) list \<Rightarrow> (bytes \<rightharpoonup> TrustedCredentialPubkey)
    \<Rightarrow> 'raw SyncedRouteInfo \<Rightarrow> 'raw SyncedRouteInfo" where
  "update_credential_groups infos all_trusted si = fold (\<lambda>(_, info) si.
     if noise_static_pubkey info = [] then si
     else case all_trusted (noise_static_pubkey info) of
       None \<Rightarrow> si
     | Some c \<Rightarrow> set_peer_groups (peer_id info) (fold or_default (cred_groups c) (get_proof_groups si (peer_id info))) si) infos si"

definition collect_revoked_credential_peers :: "(PeerId \<times> RoutePeerInfo) list \<Rightarrow> bytes set \<Rightarrow> (bytes \<rightharpoonup> TrustedCredentialPubkey) \<Rightarrow> PeerId set" where
  "collect_revoked_credential_peers infos prev all_trusted = fst ` set (filter (\<lambda>(p, info).
     \<not> (noise_static_pubkey info = [] \<or> version info = 0) \<and> noise_static_pubkey info \<in> prev \<and>
     all_trusted (noise_static_pubkey info) = None) infos)"

definition replace_trusted_credential_pubkeys :: "(bytes \<rightharpoonup> TrustedCredentialPubkey) \<Rightarrow> 'raw SyncedRouteInfo \<Rightarrow> bytes set \<times> 'raw SyncedRouteInfo" where
  "replace_trusted_credential_pubkeys all_trusted si = (dom (trusted_keys si), si\<lparr>trusted_keys := all_trusted\<rparr>)"

definition verify_and_update_credential_trusts_protecting :: "('raw, 'val) trust_api \<Rightarrow> string option \<Rightarrow> int \<Rightarrow> (PeerId \<Rightarrow> bool) \<Rightarrow> PeerId option
    \<Rightarrow> 'raw SyncedRouteInfo \<Rightarrow> PeerId list \<times> TrustedKeyMap \<times> 'raw SyncedRouteInfo" where
  "verify_and_update_credential_trusts_protecting api network_secret now active protected si =
     (let infos = peer_infos si;
          (all_trusted, keys) = collect_trusted_credentials api si network_secret now;
          (prev, si) = replace_trusted_credential_pubkeys all_trusted si;
          (owners, duplicates) = collect_non_reusable_credential_owners infos all_trusted active;
          si = replace_non_reusable_credential_owners owners si;
          si = update_credential_groups infos all_trusted si;
          untrusted = collect_revoked_credential_peers infos prev all_trusted \<union> duplicates;
          untrusted = (case protected of Some p \<Rightarrow> untrusted - {p} | None \<Rightarrow> untrusted);
          si = (if untrusted \<noteq> {} then remove_peers untrusted si else si)
      in (sorted_list_of_set untrusted, keys, si))"

definition verify_and_update_credential_trusts :: "('raw, 'val) trust_api \<Rightarrow> string option \<Rightarrow> int
    \<Rightarrow> 'raw SyncedRouteInfo \<Rightarrow> PeerId list \<times> TrustedKeyMap \<times> 'raw SyncedRouteInfo" where
  "verify_and_update_credential_trusts api network_secret now =
     verify_and_update_credential_trusts_protecting api network_secret now (\<lambda>_. True) None"

definition is_known_credential_peer :: "'raw SyncedRouteInfo \<Rightarrow> PeerId \<Rightarrow> bool" where
  "is_known_credential_peer si p = (case map_of (peer_infos si) p of Some info \<Rightarrow> is_credential_peer_info info | None \<Rightarrow> False)"

definition get_credential_info_by_pubkey :: "'raw SyncedRouteInfo \<Rightarrow> bytes \<Rightarrow> TrustedCredentialPubkey option" where
  "get_credential_info_by_pubkey si pubkey = (if pubkey = [] then None else trusted_keys si pubkey)"

section \<open>Proofs are bound to the group and the peer\<close>

lemma inj_of_char_word: "inj (of_char :: char \<Rightarrow> u8)"
proof (rule injI)
  fix c d :: char assume a: "(of_char c :: u8) = of_char d"
  have u: "unat (of_char x :: u8) = of_char x" for x
  proof -
    have "unat (of_nat (of_char x) :: u8) = of_char x" using nat_of_char_less_256 [of x] by (simp add: unat_of_nat)
    then show ?thesis by (simp only: of_nat_of_char)
  qed
  from a have "(of_char c :: nat) = of_char d" by (metis u)
  then show "c = d" by simp
qed

lemma str_bytes_inj: "str_bytes s = str_bytes t \<longleftrightarrow> s = t"
  unfolding str_bytes_def by (rule inj_map_eq_map [OF inj_of_char_word])

text \<open>The signed data determines the group and the peer, so a proof cannot be reused for another.\<close>

lemma group_sign_data_inj: "group_sign_data n p = group_sign_data m q \<longleftrightarrow> n = m \<and> p = q"
  by (auto simp: group_sign_data_def str_bytes_inj be_bytes_inj)

lemma generated_proof_verifies: "group_verify hmac (generate_with_proof hmac n s p) s p"
  by (simp add: group_verify_def generate_with_proof_def)

lemma new_signed_verifies:
  "generate_credential_hmac_from_bytes hmac (encode c) s \<noteq> [] \<Longrightarrow> verify_credential_hmac hmac encode (new_signed hmac encode c s) s"
  by (simp add: verify_credential_hmac_def new_signed_def verify_credential_hmac_with_bytes_def
      generate_credential_hmac_from_bytes_def)

section \<open>Trusted groups\<close>

text \<open>The cache of group names agrees with the map, which stores no empty entry.\<close>

definition groups_ok :: "'raw SyncedRouteInfo \<Rightarrow> bool" where
  "groups_ok si \<longleftrightarrow> (\<forall>p. group_trust_map_cache si p = map_option (map fst) (group_trust_map si p) \<and>
     (\<forall>gs. group_trust_map si p = Some gs \<longrightarrow> gs \<noteq> [] \<and> keys_distinct gs))"

lemma groups_ok_put: "groups_ok si \<Longrightarrow> keys_distinct gs \<Longrightarrow> gs \<noteq> [] \<Longrightarrow>
   groups_ok (si\<lparr>group_trust_map_cache := (group_trust_map_cache si)(p \<mapsto> map fst gs), group_trust_map := (group_trust_map si)(p \<mapsto> gs)\<rparr>)"
  by (simp add: groups_ok_def)

lemma groups_ok_set: "groups_ok si \<Longrightarrow> keys_distinct gs \<Longrightarrow> groups_ok (set_peer_groups p gs si)"
  by (simp add: groups_ok_def set_peer_groups_def)

lemma or_default_dom: "map_of (or_default n gs) m \<noteq> None \<longleftrightarrow> map_of gs m \<noteq> None \<or> m = n"
  by (auto simp: or_default_def update_conv')

lemma or_default_distinct: "keys_distinct gs \<Longrightarrow> keys_distinct (or_default n gs)"
  by (simp add: or_default_def distinct_update)

lemma fold_or_default: "(map_of (fold or_default ns gs) m \<noteq> None \<longleftrightarrow> map_of gs m \<noteq> None \<or> m \<in> set ns) \<and>
   (keys_distinct gs \<longrightarrow> keys_distinct (fold or_default ns gs))"
proof (induction ns arbitrary: gs)
  case (Cons n ns)
  show ?case
    using Cons [of "or_default n gs"] or_default_dom [of n gs m] or_default_distinct [of gs n] unfolding fold_Cons comp_apply
    by auto
qed simp

lemma fold_verify:
  fixes hmac secrets p
  defines "step \<equiv> (\<lambda>g gs. case secrets (group_name g) of
     Some secret \<Rightarrow> if group_verify hmac g secret p then AList.update (group_name g) (group_proof g) gs else gs | None \<Rightarrow> gs)"
  shows "(map_of (fold step ns gs) m \<noteq> None \<longleftrightarrow> map_of gs m \<noteq> None \<or>
      (\<exists>g\<in>set ns. group_name g = m \<and> (\<exists>s. secrets m = Some s \<and> group_verify hmac g s p))) \<and>
    (keys_distinct gs \<longrightarrow> keys_distinct (fold step ns gs))"
proof (induction ns arbitrary: gs)
  case (Cons n ns)
  have "(map_of (step n gs) m \<noteq> None \<longleftrightarrow> map_of gs m \<noteq> None \<or>
      group_name n = m \<and> (\<exists>s. secrets m = Some s \<and> group_verify hmac n s p)) \<and>
    (keys_distinct gs \<longrightarrow> keys_distinct (step n gs))"
    by (auto simp: step_def update_conv' distinct_update split: option.split)
  then show ?case using Cons [of "step n gs"] by auto
qed simp

lemma verify_groups_dom:
  "map_of (verify_groups hmac secrets trust_admin info) n \<noteq> None \<longleftrightarrow>
    (\<exists>g\<in>set (groups info). group_name g = n \<and> (\<exists>s. secrets n = Some s \<and> group_verify hmac g s (peer_id info))) \<or>
    (trust_admin \<and> is_admin_peer info \<and> n \<in> group_name ` set (groups info))" (is "?L \<longleftrightarrow> ?A \<or> _")
  and verify_groups_distinct: "keys_distinct (verify_groups hmac secrets trust_admin info)"
proof -
  define gs where "gs = verify_groups hmac secrets False info"
  let ?all = "fold or_default (map group_name (groups info)) gs"
  have gs: "map_of gs n \<noteq> None \<longleftrightarrow> ?A" "keys_distinct gs"
    using fold_verify [where secrets = secrets and hmac = hmac and p = "peer_id info" and ns = "groups info" and gs = "[]" and m = n]
    unfolding gs_def verify_groups_def Let_def map_of.simps(1) list.map(1) distinct.simps(1) simp_thms if_False by blast+
  have all: "map_of ?all n \<noteq> None \<longleftrightarrow> map_of gs n \<noteq> None \<or> n \<in> group_name ` set (groups info)" "keys_distinct ?all"
    using fold_or_default [of "map group_name (groups info)" gs n] gs(2) unfolding set_map by blast+
  have e: "verify_groups hmac secrets trust_admin info = (if trust_admin \<and> is_admin_peer info then ?all else gs)"
    by (simp add: gs_def verify_groups_def Let_def fold_map comp_def)
  show "?L \<longleftrightarrow> ?A \<or> trust_admin \<and> is_admin_peer info \<and> n \<in> group_name ` set (groups info)"
    unfolding e using gs(1) all(1) by (cases "trust_admin \<and> is_admin_peer info") (simp_all only: if_True if_False simp_thms, blast+)
  show "keys_distinct (verify_groups hmac secrets trust_admin info)" unfolding e using gs(2) all(2) by (simp split: if_split)
qed

text \<open>One peer of the loop: in both arms the result is that of \<open>set_peer_groups\<close>.\<close>

lemma group_trust_step:
  assumes "groups_ok si"
  shows "(case group_trust_map si p of
         Some _ \<Rightarrow>
           if gs = [] then si\<lparr>group_trust_map := (group_trust_map si)(p := None),
             group_trust_map_cache := (group_trust_map_cache si)(p := None)\<rparr>
           else si\<lparr>group_trust_map_cache := (group_trust_map_cache si)(p \<mapsto> map fst gs),
             group_trust_map := (group_trust_map si)(p \<mapsto> gs)\<rparr>
       | None \<Rightarrow>
           if gs \<noteq> [] then si\<lparr>group_trust_map_cache := (group_trust_map_cache si)(p \<mapsto> map fst gs),
             group_trust_map := (group_trust_map si)(p \<mapsto> gs)\<rparr>
           else si) = set_peer_groups p gs si"
proof (cases "group_trust_map si p")
  case None
  then have "group_trust_map_cache si p = None" using assms by (simp add: groups_ok_def)
  then have "(group_trust_map si)(p := None) = group_trust_map si" "(group_trust_map_cache si)(p := None) = group_trust_map_cache si"
    using None by auto
  then show ?thesis using None by (simp add: set_peer_groups_def)
qed (simp add: set_peer_groups_def)

lemma group_trusts_fold:
  assumes "groups_ok si"
  shows "verify_and_update_group_trusts hmac infos decls trust_admin si =
      fold (\<lambda>info. set_peer_groups (peer_id info) (verify_groups hmac (map_of (rev decls)) trust_admin info)) infos si \<and>
    groups_ok (verify_and_update_group_trusts hmac infos decls trust_admin si)"
  using assms
proof (induction infos arbitrary: si)
  case (Cons info infos)
  have "groups_ok (set_peer_groups (peer_id info) (verify_groups hmac (map_of (rev decls)) trust_admin info) si)"
    using groups_ok_set [OF Cons.prems] verify_groups_distinct by blast
  note ih = Cons.IH [OF this]
  have e: "verify_and_update_group_trusts hmac (info # infos) decls trust_admin si = verify_and_update_group_trusts hmac infos decls trust_admin
      (set_peer_groups (peer_id info) (verify_groups hmac (map_of (rev decls)) trust_admin info) si)"
    unfolding verify_and_update_group_trusts_def Let_def fold_Cons comp_apply group_trust_step [OF Cons.prems] by (rule refl)
  show ?case unfolding e fold_Cons comp_apply by (rule ih)
qed (simp add: verify_and_update_group_trusts_def)

lemma set_peer_groups_names:
  "map_option (map fst) (group_trust_map (set_peer_groups p gs si) q) =
    (if q = p then (if gs = [] then None else Some (map fst gs)) else map_option (map fst) (group_trust_map si q))"
  by (simp add: set_peer_groups_def)

lemma fold_set_groups_other:
  "p \<notin> peer_id ` set infos \<Longrightarrow>
   group_trust_map (fold (\<lambda>info. set_peer_groups (peer_id info) (f info)) infos si) p = group_trust_map si p"
  by (induction infos arbitrary: si) (auto simp: set_peer_groups_def)

lemma fold_set_groups:
  "distinct (map peer_id infos) \<Longrightarrow> info \<in> set infos \<Longrightarrow>
   group_trust_map (fold (\<lambda>info. set_peer_groups (peer_id info) (f info)) infos si) (peer_id info) =
     (if f info = [] then None else Some (f info))"
proof (induction infos arbitrary: si)
  case (Cons i infos)
  show ?case
  proof (cases "info = i")
    case True
    then have "peer_id info \<notin> peer_id ` set infos" using Cons.prems by auto
    from fold_set_groups_other [OF this, of f "set_peer_groups (peer_id i) (f i) si"] show ?thesis using True
      by (simp add: set_peer_groups_def [of "peer_id i"])
  qed (use Cons in simp)
qed simp

text \<open>The entries after a report is processed: those of the last description of the peer.\<close>

lemma group_trusts_entry:
  assumes "groups_ok si" and "distinct (map peer_id infos)" and "info \<in> set infos"
    and "si' = verify_and_update_group_trusts hmac infos decls trust_admin si"
  shows "groups_ok si'" and "group_trust_map si' (peer_id info) =
    (let gs = verify_groups hmac (map_of (rev decls)) trust_admin info in if gs = [] then None else Some gs)"
  using group_trusts_fold [OF assms(1), of hmac infos decls trust_admin]
    fold_set_groups [OF assms(2,3), of "verify_groups hmac (map_of (rev decls)) trust_admin" si] unfolding assms(4) Let_def by metis+

text \<open>Proofs that checked out are not empty; entries without one come from the trust in administrators.\<close>

definition proven_group :: "(bytes \<Rightarrow> bytes \<Rightarrow> bytes) \<Rightarrow> (string \<rightharpoonup> string) \<Rightarrow> RoutePeerInfo \<Rightarrow> string \<Rightarrow> bool" where
  "proven_group hmac secrets info n \<longleftrightarrow> (\<exists>g\<in>set (groups info). group_name g = n \<and>
     (\<exists>s. secrets n = Some s \<and> hmac (str_bytes s) (group_sign_data n (peer_id info)) = group_proof g))"

lemma fold_verify_proofs:
  assumes "\<And>k d. hmac k d \<noteq> []" and "\<forall>n pr. map_of gs n = Some pr \<longrightarrow> pr \<noteq> []"
  shows "\<forall>n pr. map_of (fold (\<lambda>g gs. case secrets (group_name g) of
     Some secret \<Rightarrow> if group_verify hmac g secret p then AList.update (group_name g) (group_proof g) gs else gs | None \<Rightarrow> gs) ns gs) n = Some pr \<longrightarrow> pr \<noteq> []"
  using assms(2)
proof (induction ns arbitrary: gs)
  case (Cons g ns)
  have "group_verify hmac g s p \<Longrightarrow> group_proof g \<noteq> []" for s using assms(1) by (metis group_verify_def)
  then have "\<forall>n pr. map_of (case secrets (group_name g) of
     Some secret \<Rightarrow> if group_verify hmac g secret p then AList.update (group_name g) (group_proof g) gs else gs | None \<Rightarrow> gs) n = Some pr \<longrightarrow> pr \<noteq> []"
    using Cons.prems by (auto simp: update_conv' split: option.split)
  from Cons.IH [OF this] show ?case by simp
qed simp

lemma fold_or_default_map: "map_of (fold or_default ns gs) n = (case map_of gs n of Some pr \<Rightarrow> Some pr | None \<Rightarrow> if n \<in> set ns then Some [] else None)"
  by (induction ns arbitrary: gs) (auto simp: or_default_def update_conv' split: option.split)

lemma verify_groups_proofs:
  assumes "\<And>k d. hmac k d \<noteq> []"
  shows "(\<exists>pr. map_of (verify_groups hmac secrets trust_admin info) n = Some pr \<and> pr \<noteq> []) \<longleftrightarrow> proven_group hmac secrets info n"
proof -
  define gs where "gs = verify_groups hmac secrets False info"
  have gs: "map_of gs n \<noteq> None \<longleftrightarrow> proven_group hmac secrets info n"
    unfolding gs_def proven_group_def verify_groups_dom group_verify_def by auto
  have ne: "\<forall>n pr. map_of gs n = Some pr \<longrightarrow> pr \<noteq> []"
    using fold_verify_proofs [where hmac = hmac and gs = "[]" and secrets = secrets and p = "peer_id info" and ns = "groups info", OF assms] by (simp add: gs_def verify_groups_def Let_def)
  have e: "verify_groups hmac secrets trust_admin info =
      (if trust_admin \<and> is_admin_peer info then fold or_default (map group_name (groups info)) gs else gs)"
    by (simp add: gs_def verify_groups_def Let_def fold_map comp_def)
  show ?thesis
  proof (cases "map_of gs n")
    case None
    then show ?thesis unfolding e using gs by (auto simp: fold_or_default_map split: if_splits)
  next
    case (Some pr)
    then show ?thesis unfolding e using gs ne by (auto simp: fold_or_default_map)
  qed
qed

lemma map_of_filter_proofs:
  assumes "keys_distinct gs"
  shows "keys_distinct (filter (\<lambda>(_, pr). pr \<noteq> []) gs)"
    and "map_of (filter (\<lambda>(_, pr). pr \<noteq> []) gs) n \<noteq> None \<longleftrightarrow> (\<exists>pr. map_of gs n = Some pr \<and> pr \<noteq> [])"
proof -
  show d: "keys_distinct (filter (\<lambda>(_, pr). pr \<noteq> []) gs)" using assms by (simp add: distinct_map_filter)
  show "map_of (filter (\<lambda>(_, pr). pr \<noteq> []) gs) n \<noteq> None \<longleftrightarrow> (\<exists>pr. map_of gs n = Some pr \<and> pr \<noteq> [])"
    using assms by (auto simp: map_of_eq_None_iff image_iff)
qed

section \<open>Trusted credentials\<close>

text \<open>
  A credential that an administrator's description vouches for: the proof at this position is valid under
  the network secret, carries the credential, and the credential has not expired.
\<close>

definition vouched :: "('raw, 'val) trust_api \<Rightarrow> 'raw option \<Rightarrow> string option \<Rightarrow> int \<Rightarrow> RoutePeerInfo \<Rightarrow> TrustedCredentialPubkey \<Rightarrow> bool" where
  "vouched api raw network_secret now info c \<longleftrightarrow> is_admin_peer info \<and> now < expiry_unix c \<and>
     (\<exists>idx < length (trusted_credential_pubkeys info).
        credential (trusted_credential_pubkeys info ! idx) = Some c \<and>
        credential_proof_is_valid api raw idx (trusted_credential_pubkeys info ! idx) network_secret)"

text \<open>The positions are counted from the start of the whole list.\<close>

lemma collect_proofs_keys:
  fixes api and raw and secret and now and idx and proofs
  defines "good \<equiv> (\<lambda>c. \<exists>i < length proofs. credential (proofs ! i) = Some c \<and> now < expiry_unix c \<and>
      credential_proof_is_valid api raw (idx + i) (proofs ! i) secret)"
  shows "(\<forall>k c. fst (collect_proofs api raw secret now idx proofs acc) k = Some c \<longrightarrow>
      fst acc k = Some c \<or> cred_pubkey c = k \<and> good c) \<and>
    (\<forall>k. fst (collect_proofs api raw secret now idx proofs acc) k \<noteq> None \<longleftrightarrow>
      fst acc k \<noteq> None \<or> (\<exists>c. cred_pubkey c = k \<and> good c))"
  unfolding good_def
proof (induction proofs arbitrary: idx acc)
  case (Cons p proofs)
  let ?good = "\<lambda>idx proofs c. \<exists>i < length proofs. credential (proofs ! i) = Some c \<and> now < expiry_unix c \<and>
      credential_proof_is_valid api raw (idx + i) (proofs ! i) secret"
  let ?now = "\<lambda>c. credential p = Some c \<and> now < expiry_unix c \<and> credential_proof_is_valid api raw idx p secret"
  have good: "?good idx (p # proofs) c \<longleftrightarrow> ?now c \<or> ?good (idx + 1) proofs c" for c
    by (auto simp: less_Suc_eq_0_disj)
  define acc' where "acc' = (if \<not> credential_proof_is_valid api raw idx p secret then acc else case credential p of None \<Rightarrow> acc
    | Some c \<Rightarrow> if expiry_unix c \<le> now then acc else
       (case fst acc (cred_pubkey c) of Some _ \<Rightarrow> fst acc | None \<Rightarrow> (fst acc)(cred_pubkey c \<mapsto> c),
        (snd acc)(cred_pubkey c \<mapsto> \<lparr>source = OspfCredential, key_expiry = Some (expiry_unix c)\<rparr>)))"
  have e: "collect_proofs api raw secret now idx (p # proofs) acc = collect_proofs api raw secret now (idx + 1) proofs acc'"
    by (cases acc) (simp add: acc'_def split: option.split)
  have step: "fst acc' k = Some c \<Longrightarrow> fst acc k = Some c \<or> cred_pubkey c = k \<and> ?now c"
    "fst acc' k \<noteq> None \<longleftrightarrow> fst acc k \<noteq> None \<or> (\<exists>c. cred_pubkey c = k \<and> ?now c)" for k c
    by (auto simp: acc'_def split: if_splits option.splits)
  define later where "later c \<longleftrightarrow> ?good (idx + 1) proofs c" for c
  define nowgood where "nowgood c \<longleftrightarrow> ?now c" for c
  define r where "r = fst (collect_proofs api raw secret now (idx + 1) proofs acc')"
  have ih: "\<forall>k c. r k = Some c \<longrightarrow> fst acc' k = Some c \<or> cred_pubkey c = k \<and> later c"
    "\<forall>k. r k \<noteq> None \<longleftrightarrow> fst acc' k \<noteq> None \<or> (\<exists>c. cred_pubkey c = k \<and> later c)"
    using Cons [of "idx + 1" acc'] unfolding r_def later_def by blast+
  have "(\<forall>k c. r k = Some c \<longrightarrow> fst acc k = Some c \<or> cred_pubkey c = k \<and> (nowgood c \<or> later c)) \<and>
    (\<forall>k. r k \<noteq> None \<longleftrightarrow> fst acc k \<noteq> None \<or> (\<exists>c. cred_pubkey c = k \<and> (nowgood c \<or> later c)))"
    using ih step(1) [folded nowgood_def] step(2) [folded nowgood_def] by metis
  then show ?case unfolding e good r_def later_def nowgood_def .
qed simp

lemma collect_peer_keys:
  "fst (collect_peer api si secret now (p, info) acc) k = Some c \<Longrightarrow>
     fst acc k = Some c \<or> cred_pubkey c = k \<and> vouched api (raw_peer_infos si p) secret now info c" (is "?A \<Longrightarrow> ?B")
  "fst (collect_peer api si secret now (p, info) acc) k \<noteq> None \<longleftrightarrow>
     fst acc k \<noteq> None \<or> (\<exists>c. cred_pubkey c = k \<and> vouched api (raw_peer_infos si p) secret now info c)" (is ?C)
proof -
  obtain t keys where acc: "acc = (t, keys)" by (cases acc)
  define acc' where "acc' = (t, if noise_static_pubkey info \<noteq> [] then keys(noise_static_pubkey info \<mapsto> \<lparr>source = OspfNode, key_expiry = None\<rparr>) else keys)"
  have e: "collect_peer api si secret now (p, info) acc = (if is_admin_peer info
     then collect_proofs api (raw_peer_infos si p) secret now 0 (trusted_credential_pubkeys info) acc' else acc)"
    by (simp add: collect_peer_def acc acc'_def)
  have f: "fst acc' = fst acc" by (simp add: acc acc'_def)
  note c = collect_proofs_keys [where idx = 0 and api = api and raw = "raw_peer_infos si p" and secret = secret and now = now
      and proofs = "trusted_credential_pubkeys info" and acc = acc', unfolded f add_0]
  show "?A \<Longrightarrow> ?B" and ?C
    unfolding e vouched_def using c by (cases "is_admin_peer info"; simp; blast)+
qed

text \<open>A loop that adds entries accepted by \<open>V\<close> to a map.\<close>

lemma fold_adds:
  assumes "\<And>x acc k c. g (f x acc) k = Some c \<Longrightarrow> g acc k = Some c \<or> K c = k \<and> V x c"
    and "\<And>x acc k. g (f x acc) k \<noteq> None \<longleftrightarrow> g acc k \<noteq> None \<or> (\<exists>c. K c = k \<and> V x c)"
  shows "g (fold f xs acc) k = Some c \<Longrightarrow> g acc k = Some c \<or> K c = k \<and> (\<exists>x\<in>set xs. V x c)"
    and "g (fold f xs acc) k \<noteq> None \<longleftrightarrow> g acc k \<noteq> None \<or> (\<exists>c. K c = k \<and> (\<exists>x\<in>set xs. V x c))"
proof (induction xs arbitrary: acc)
  case (Cons x xs)
  {
    case 1
    then show ?case using Cons(1) [of "f x acc"] assms(1) [of x acc k c] unfolding fold_Cons comp_apply list.set by blast
  next
    case 2
    have "g (fold f (x # xs) acc) k \<noteq> None \<longleftrightarrow> g (f x acc) k \<noteq> None \<or> (\<exists>c. K c = k \<and> (\<exists>x\<in>set xs. V x c))"
      using Cons(2) [of "f x acc"] by (simp only: fold_Cons comp_apply)
    then show ?case unfolding assms(2) list.set by blast
  }
qed auto

lemma collect_trusted_keys:
  fixes api and si :: "'raw SyncedRouteInfo" and secret and now
  defines "t \<equiv> fst (collect_trusted_credentials api si secret now)"
  shows "t k = Some c \<Longrightarrow> cred_pubkey c = k \<and> (\<exists>(p, info)\<in>set (peer_infos si). vouched api (raw_peer_infos si p) secret now info c)"
    and "t k \<noteq> None \<longleftrightarrow> (\<exists>c. cred_pubkey c = k \<and> (\<exists>(p, info)\<in>set (peer_infos si). vouched api (raw_peer_infos si p) secret now info c))"
proof -
  let ?V = "\<lambda>(p, info). vouched api (raw_peer_infos si p) secret now info"
  have 1: "fst (collect_peer api si secret now x acc) k = Some c \<Longrightarrow> fst acc k = Some c \<or> cred_pubkey c = k \<and> ?V x c"
    and 2: "fst (collect_peer api si secret now x acc) k \<noteq> None \<longleftrightarrow> fst acc k \<noteq> None \<or> (\<exists>c. cred_pubkey c = k \<and> ?V x c)" for x acc k c
    using collect_peer_keys(1) [of api si secret now "fst x" "snd x" acc k c] collect_peer_keys(2) [of api si secret now "fst x" "snd x" acc k]
    unfolding prod.collapse case_prod_beta by blast+
  note f = fold_adds [where g = fst and f = "collect_peer api si secret now" and K = cred_pubkey and V = ?V and k = k and xs = "peer_infos si"
      and acc = "(Map.empty, Map.empty)", OF 1 2]
  show "t k = Some c \<Longrightarrow> cred_pubkey c = k \<and> (\<exists>(p, info)\<in>set (peer_infos si). vouched api (raw_peer_infos si p) secret now info c)"
    using f(1) [of c] unfolding t_def collect_trusted_credentials_def by (auto simp: case_prod_beta)
  show "t k \<noteq> None \<longleftrightarrow> (\<exists>c. cred_pubkey c = k \<and> (\<exists>(p, info)\<in>set (peer_infos si). vouched api (raw_peer_infos si p) secret now info c))"
    using f(2) unfolding t_def collect_trusted_credentials_def fst_conv case_prod_beta by blast
qed

text \<open>The groups of credential peers change nothing else.\<close>

lemma fold_keeps: "(\<And>x s. proj (f x s) = proj s) \<Longrightarrow> proj (fold f xs s) = proj s"
  by (induction xs arbitrary: s) auto

lemma update_credential_groups_keeps:
  "peer_infos (update_credential_groups infos t si) = peer_infos si"
  "conn_map (update_credential_groups infos t si) = conn_map si"
  "foreign_network (update_credential_groups infos t si) = foreign_network si"
  "trusted_keys (update_credential_groups infos t si) = trusted_keys si"
  unfolding update_credential_groups_def
  by (rule fold_keeps; auto simp: set_peer_groups_def split: prod.split option.split)+

lemma duplicates_iff: "p \<in> snd (collect_non_reusable_credential_owners infos t active) \<longleftrightarrow>
   (\<exists>k. p \<in> candidates infos t active k \<and> p \<noteq> Min (candidates infos t active k))"
proof
  assume "p \<in> snd (collect_non_reusable_credential_owners infos t active)"
  then obtain info :: RoutePeerInfo where "p \<in> (let cs = candidates infos t active (noise_static_pubkey info) in if cs = {} then {} else cs - {Min cs})"
    unfolding collect_non_reusable_credential_owners_def snd_conv by blast
  then show "\<exists>k. p \<in> candidates infos t active k \<and> p \<noteq> Min (candidates infos t active k)"
    by (auto simp: Let_def split: if_splits)
next
  assume "\<exists>k. p \<in> candidates infos t active k \<and> p \<noteq> Min (candidates infos t active k)"
  then obtain k where k: "p \<in> candidates infos t active k" "p \<noteq> Min (candidates infos t active k)" by blast
  then obtain info where "info \<in> snd ` set infos" "noise_static_pubkey info = k" unfolding candidates_def by force
  then show "p \<in> snd (collect_non_reusable_credential_owners infos t active)"
    using k unfolding collect_non_reusable_credential_owners_def snd_conv Let_def by force
qed

text \<open>The result of the trust update in one equation.\<close>

definition untrusted_peers :: "('raw, 'val) trust_api \<Rightarrow> string option \<Rightarrow> int \<Rightarrow> (PeerId \<Rightarrow> bool) \<Rightarrow> PeerId option \<Rightarrow> 'raw SyncedRouteInfo \<Rightarrow> PeerId set" where
  "untrusted_peers api secret now active protected si =
     (let t = fst (collect_trusted_credentials api si secret now);
          bad = collect_revoked_credential_peers (peer_infos si) (dom (trusted_keys si)) t \<union>
            snd (collect_non_reusable_credential_owners (peer_infos si) t active)
      in case protected of Some p \<Rightarrow> bad - {p} | None \<Rightarrow> bad)"

definition with_trusted_keys :: "('raw, 'val) trust_api \<Rightarrow> string option \<Rightarrow> int \<Rightarrow> (PeerId \<Rightarrow> bool) \<Rightarrow> 'raw SyncedRouteInfo \<Rightarrow> 'raw SyncedRouteInfo" where
  "with_trusted_keys api secret now active si =
     (let t = fst (collect_trusted_credentials api si secret now)
      in update_credential_groups (peer_infos si) t (replace_non_reusable_credential_owners
           (fst (collect_non_reusable_credential_owners (peer_infos si) t active)) (si\<lparr>trusted_keys := t\<rparr>)))"

lemma credential_trusts_eq:
  "verify_and_update_credential_trusts_protecting api secret now active protected si =
     (let u = untrusted_peers api secret now active protected si; mid = with_trusted_keys api secret now active si
      in (sorted_list_of_set u, snd (collect_trusted_credentials api si secret now), if u \<noteq> {} then remove_peers u mid else mid))"
  by (simp only: verify_and_update_credential_trusts_protecting_def replace_trusted_credential_pubkeys_def
      Let_def case_prod_beta fst_conv snd_conv untrusted_peers_def with_trusted_keys_def)

lemma with_trusted_keys_keeps [simp]:
  "peer_infos (with_trusted_keys api secret now active si) = peer_infos si"
  "conn_map (with_trusted_keys api secret now active si) = conn_map si"
  "foreign_network (with_trusted_keys api secret now active si) = foreign_network si"
  "trusted_keys (with_trusted_keys api secret now active si) = fst (collect_trusted_credentials api si secret now)"
  by (simp_all add: with_trusted_keys_def Let_def update_credential_groups_keeps replace_non_reusable_credential_owners_def)

text \<open>The stores after the update.\<close>

lemma credential_trusts_stores:
  assumes "verify_and_update_credential_trusts_protecting api secret now active protected si = (untrusted, keys, si')"
  shows "set untrusted = untrusted_peers api secret now active protected si"
    and "peer_infos si' = filter (\<lambda>(p, _). p \<notin> set untrusted) (peer_infos si)"
    and "conn_map si' = filter (\<lambda>(p, _). p \<notin> set untrusted) (conn_map si)"
    and "foreign_network si' = filter (\<lambda>(k, _). fk_peer_id k \<notin> set untrusted) (foreign_network si)"
    and "trusted_keys si' = fst (collect_trusted_credentials api si secret now)"
  using assms unfolding credential_trusts_eq by (auto simp: Let_def remove_peers_def split: if_splits)

text \<open>
  C23. Revoked and shared credentials are enforced: after the trust update the trusted keys are exactly those
  that a description of an administrator vouches for with a valid proof that has not expired; a peer whose
  credential was trusted before and is no longer so is removed, of the active peers that use the same
  credential meant for one peer only the one with the lowest id stays, and nobody else is removed; the
  protected peer always stays.
\<close>

theorem credential_trusts_enforced:
  assumes "verify_and_update_credential_trusts_protecting api secret now active protected si = (untrusted, keys, si')"
  shows "(\<forall>k c. trusted_keys si' k = Some c \<longrightarrow> cred_pubkey c = k \<and>
      (\<exists>(p, info)\<in>set (peer_infos si). vouched api (raw_peer_infos si p) secret now info c)) \<and>
    (\<forall>(p, info)\<in>set (peer_infos si). \<forall>c. vouched api (raw_peer_infos si p) secret now info c \<longrightarrow> trusted_keys si' (cred_pubkey c) \<noteq> None) \<and>
    peer_infos si' = filter (\<lambda>(p, _). p \<notin> set untrusted) (peer_infos si) \<and>
    (\<forall>p. p \<in> set untrusted \<longleftrightarrow> protected \<noteq> Some p \<and>
      ((\<exists>info. (p, info) \<in> set (peer_infos si) \<and> noise_static_pubkey info \<noteq> [] \<and> version info \<noteq> 0 \<and>
         trusted_keys si (noise_static_pubkey info) \<noteq> None \<and> trusted_keys si' (noise_static_pubkey info) = None) \<or>
       (\<exists>k. p \<in> candidates (peer_infos si) (trusted_keys si') active k \<and> p \<noteq> Min (candidates (peer_infos si) (trusted_keys si') active k))))"
proof -
  let ?infos = "peer_infos si"
  define t where "t = fst (collect_trusted_credentials api si secret now)"
  define bad where "bad = collect_revoked_credential_peers ?infos (dom (trusted_keys si)) t \<union>
    snd (collect_non_reusable_credential_owners ?infos t active)"
  define u where "u = (case protected of Some p \<Rightarrow> bad - {p} | None \<Rightarrow> bad)"
  have "untrusted_peers api secret now active protected si = u" by (simp only: untrusted_peers_def Let_def u_def bad_def t_def)
  then have su: "set untrusted = u" using credential_trusts_stores(1) [OF assms] by simp
  have t': "trusted_keys si' = t" using credential_trusts_stores(5) [OF assms] by (simp add: t_def)
  have pi: "peer_infos si' = filter (\<lambda>(p, _). p \<notin> u) ?infos" using credential_trusts_stores(2) [OF assms] by (simp add: su)
  have "p \<in> u \<longleftrightarrow> protected \<noteq> Some p \<and> p \<in> bad" for p by (auto simp: u_def split: option.split)
  moreover have "p \<in> collect_revoked_credential_peers ?infos (dom (trusted_keys si)) t \<longleftrightarrow>
      (\<exists>info. (p, info) \<in> set ?infos \<and> noise_static_pubkey info \<noteq> [] \<and> version info \<noteq> 0 \<and>
         trusted_keys si (noise_static_pubkey info) \<noteq> None \<and> t (noise_static_pubkey info) = None)" for p
    unfolding collect_revoked_credential_peers_def by (auto simp: image_iff)
  moreover note ck = collect_trusted_keys [of api si secret now, folded t_def]
  have "\<forall>(p, info)\<in>set ?infos. \<forall>c. vouched api (raw_peer_infos si p) secret now info c \<longrightarrow> t (cred_pubkey c) \<noteq> None"
    using ck(2) by blast
  ultimately show ?thesis
    unfolding su t' pi using ck(1) duplicates_iff [of _ ?infos t active] unfolding bad_def Un_iff by blast
qed

section \<open>Members of groups\<close>

text \<open>The names that access control sees.\<close>

definition group_members :: "'raw SyncedRouteInfo \<Rightarrow> PeerId \<Rightarrow> string set" where
  "group_members si p = (case group_trust_map_cache si p of Some names \<Rightarrow> set names | None \<Rightarrow> {})"

lemma group_members_map: "groups_ok si \<Longrightarrow> n \<in> group_members si p \<longleftrightarrow> (case group_trust_map si p of Some gs \<Rightarrow> map_of gs n \<noteq> None | None \<Rightarrow> False)"
  by (auto simp: group_members_def groups_ok_def map_of_eq_None_iff split: option.splits)

text \<open>The credential that counts for a description.\<close>

definition credential_of :: "(bytes \<rightharpoonup> TrustedCredentialPubkey) \<Rightarrow> RoutePeerInfo \<Rightarrow> TrustedCredentialPubkey option" where
  "credential_of t info = (if noise_static_pubkey info = [] then None else t (noise_static_pubkey info))"

abbreviation credential_groups_of :: "(bytes \<rightharpoonup> TrustedCredentialPubkey) \<Rightarrow> RoutePeerInfo \<Rightarrow> 'raw SyncedRouteInfo \<Rightarrow> 'raw SyncedRouteInfo" where
  "credential_groups_of t info si \<equiv> (case credential_of t info of None \<Rightarrow> si
     | Some c \<Rightarrow> set_peer_groups (peer_id info) (fold or_default (cred_groups c) (get_proof_groups si (peer_id info))) si)"

lemma update_credential_groups_eq: "update_credential_groups infos t si = fold (credential_groups_of t) (map snd infos) si"
  unfolding update_credential_groups_def fold_map
  by (rule arg_cong [where f = "\<lambda>f. fold f infos si"]) (auto simp: fun_eq_iff credential_of_def split: option.split)

lemma get_proof_groups_distinct: "groups_ok si \<Longrightarrow> keys_distinct (get_proof_groups si p)"
  by (auto simp: get_proof_groups_def groups_ok_def map_of_filter_proofs(1) split: option.split)

lemma credential_groups_step:
  assumes "groups_ok si"
  shows "groups_ok (credential_groups_of t info si)"
    and "p \<noteq> peer_id info \<Longrightarrow> group_trust_map (credential_groups_of t info si) p = group_trust_map si p"
proof -
  have "keys_distinct (fold or_default ns (get_proof_groups si (peer_id info)))" for ns
    using fold_or_default get_proof_groups_distinct [OF assms] by blast
  then show "groups_ok (credential_groups_of t info si)" using assms groups_ok_set [OF assms] by (simp split: option.split)
  show "p \<noteq> peer_id info \<Longrightarrow> group_trust_map (credential_groups_of t info si) p = group_trust_map si p"
    by (simp add: set_peer_groups_def split: option.split)
qed

lemma credential_groups_fold:
  assumes "groups_ok si"
  shows "groups_ok (fold (credential_groups_of t) infos si) \<and>
    (p \<notin> peer_id ` set infos \<longrightarrow> group_trust_map (fold (credential_groups_of t) infos si) p = group_trust_map si p)"
  using assms
proof (induction infos arbitrary: si)
  case (Cons i infos)
  note s = credential_groups_step [OF Cons.prems, where t = t and info = i]
  show ?case using Cons.IH [OF s(1)] s(2) [where p = p] by auto
qed simp

lemma credential_groups_entry:
  assumes "groups_ok si" and "distinct (map peer_id infos)" and "info \<in> set infos"
  shows "group_trust_map (fold (credential_groups_of t) infos si) (peer_id info) = group_trust_map (credential_groups_of t info si) (peer_id info)"
  using assms
proof (induction infos arbitrary: si)
  case (Cons i infos)
  note s = credential_groups_step [OF Cons.prems(1), where t = t and info = i]
  show ?case
  proof (cases "info = i")
    case True
    then have "peer_id info \<notin> peer_id ` set infos" using Cons.prems(2) by auto
    then show ?thesis using credential_groups_fold [OF s(1), where p = "peer_id info" and infos = infos and t = t] unfolding True by simp
  next
    case False
    have nd: "peer_id i \<notin> peer_id ` set infos" using Cons.prems(2) by simp
    have i: "info \<in> set infos" using False Cons.prems(3) by simp
    then have ne: "peer_id info \<noteq> peer_id i" using nd by (metis imageI)
    have "group_trust_map (credential_groups_of t i si) (peer_id info) = group_trust_map si (peer_id info)" using s(2) [OF ne] .
    then have "group_trust_map (credential_groups_of t info (credential_groups_of t i si)) (peer_id info) =
        group_trust_map (credential_groups_of t info si) (peer_id info)"
      by (cases "credential_of t info") (auto simp: set_peer_groups_def get_proof_groups_def)
    then show ?thesis using Cons.IH [OF s(1) _ i] Cons.prems(2) by simp
  qed
qed simp

lemma groups_ok_remove: "groups_ok si \<Longrightarrow> groups_ok (remove_peers u si)"
  by (auto simp: groups_ok_def remove_peers_def)

text \<open>
  C22. Group membership is justified. A report that names each peer once is processed and the credentials are then checked
  again, as the handler does; between the two the stores of groups do not change, and each peer has one stored description.
  Afterwards a peer of the report that is still known is a member of a group exactly if it presented a proof made with the
  local secret of that group for this very peer id; or the key of its stored description has a trusted credential that
  names the group (no proof is needed then); or,
  without such a credential and where the node trusts the declarations of administrators (it has no network secret),
  if it is an administrator and declares the group. A peer that was removed for lack of trust is a member of none. The list
  of names handed to access control always agrees with the map. The message authentication codes are never empty.
\<close>

theorem group_membership_justified:
  assumes "groups_ok si" and "distinct (map peer_id infos)" and "info \<in> set infos" and "\<And>k d. hmac k d \<noteq> []"
    and "si1 = verify_and_update_group_trusts hmac infos decls trust_admin si"
    and "group_trust_map si2 = group_trust_map si1" and "group_trust_map_cache si2 = group_trust_map_cache si1"
    and "distinct (map (peer_id \<circ> snd) (peer_infos si2))" and "(q, stored) \<in> set (peer_infos si2)" and "peer_id stored = peer_id info"
    and "verify_and_update_credential_trusts_protecting api secret now active protected si2 = (untrusted, keys, si')"
  shows "groups_ok si' \<and>
    (peer_id info \<in> set untrusted \<longrightarrow> group_members si' (peer_id info) = {}) \<and>
    (peer_id info \<notin> set untrusted \<longrightarrow> (n \<in> group_members si' (peer_id info) \<longleftrightarrow>
      proven_group hmac (map_of (rev decls)) info n \<or>
      (case credential_of (trusted_keys si') stored of
         Some c \<Rightarrow> n \<in> set (cred_groups c)
       | None \<Rightarrow> trust_admin \<and> is_admin_peer info \<and> n \<in> group_name ` set (groups info))))"
proof -
  let ?p = "peer_id info" and ?t = "trusted_keys si'"
  define u where "u = untrusted_peers api secret now active protected si2"
  define mid where "mid = with_trusted_keys api secret now active si2"
  have t: "?t = fst (collect_trusted_credentials api si2 secret now)" and su: "set untrusted = u"
    using credential_trusts_stores(1,5) [OF assms(11)] by (simp_all add: u_def)
  have si': "si' = (if u \<noteq> {} then remove_peers u mid else mid)"
    using assms(11) unfolding credential_trusts_eq Let_def u_def mid_def by simp
  note e1 = group_trusts_entry [OF assms(1-3,5)]
  define base where "base = replace_non_reusable_credential_owners (fst (collect_non_reusable_credential_owners (peer_infos si2) ?t active)) (si2\<lparr>trusted_keys := ?t\<rparr>)"
  have base: "group_trust_map base = group_trust_map si1" "groups_ok base"
    using e1(1) assms(6,7) by (simp_all add: base_def replace_non_reusable_credential_owners_def groups_ok_def)
  have mid: "mid = fold (credential_groups_of ?t) (map snd (peer_infos si2)) base"
    unfolding mid_def with_trusted_keys_def t [symmetric] Let_def update_credential_groups_eq base_def by (rule refl)
  have ok: "groups_ok mid" unfolding mid using credential_groups_fold [OF base(2)] by blast
  then have ok': "groups_ok si'" unfolding si' by (simp add: groups_ok_remove)
  have gone: "?p \<in> u \<Longrightarrow> group_members si' ?p = {}" unfolding si' by (auto simp: group_members_def remove_peers_def)
  have st: "stored \<in> set (map snd (peer_infos si2))" using assms(9) by force
  have d: "distinct (map peer_id (map snd (peer_infos si2)))" using assms(8) by (simp add: comp_def)
  have entry: "group_trust_map mid ?p = group_trust_map (credential_groups_of ?t stored base) ?p"
    using credential_groups_entry [OF base(2) d st] assms(10) unfolding mid by simp
  let ?gs = "verify_groups hmac (map_of (rev decls)) trust_admin info"
  have gb: "group_trust_map base ?p = (if ?gs = [] then None else Some ?gs)" using e1(2) base(1) by (simp add: Let_def)
  have pr: "map_of (get_proof_groups base ?p) n \<noteq> None \<longleftrightarrow> proven_group hmac (map_of (rev decls)) info n"
  proof -
    have "get_proof_groups base ?p = filter (\<lambda>(_, pr). pr \<noteq> []) ?gs" by (simp add: get_proof_groups_def gb)
    then show ?thesis
      using verify_groups_proofs [where hmac = hmac and secrets = "map_of (rev decls)" and trust_admin = trust_admin and info = info and n = n, OF assms(4)]
        map_of_filter_proofs(2) [OF verify_groups_distinct] by metis
  qed
  have "(case group_trust_map mid ?p of Some gs \<Rightarrow> map_of gs n \<noteq> None | None \<Rightarrow> False) \<longleftrightarrow>
      proven_group hmac (map_of (rev decls)) info n \<or> (case credential_of ?t stored of Some c \<Rightarrow> n \<in> set (cred_groups c)
       | None \<Rightarrow> trust_admin \<and> is_admin_peer info \<and> n \<in> group_name ` set (groups info))"
  proof (cases "credential_of ?t stored")
    case None
    then show ?thesis using entry gb verify_groups_dom [of hmac "map_of (rev decls)" trust_admin info n]
      by (auto simp: proven_group_def group_verify_def)
  next
    case (Some c)
    let ?fs = "fold or_default (cred_groups c) (get_proof_groups base ?p)"
    have "group_trust_map mid ?p = (if ?fs = [] then None else Some ?fs)" using entry Some assms(10) by (simp add: set_peer_groups_def)
    moreover have "map_of ?fs n \<noteq> None \<longleftrightarrow> proven_group hmac (map_of (rev decls)) info n \<or> n \<in> set (cred_groups c)"
      using fold_or_default [of "cred_groups c" "get_proof_groups base ?p" n] pr by blast
    ultimately show ?thesis using Some by auto
  qed
  then have "?p \<notin> u \<Longrightarrow> n \<in> group_members si' ?p \<longleftrightarrow> proven_group hmac (map_of (rev decls)) info n \<or>
      (case credential_of ?t stored of Some c \<Rightarrow> n \<in> set (cred_groups c) | None \<Rightarrow> trust_admin \<and> is_admin_peer info \<and> n \<in> group_name ` set (groups info))"
    using group_members_map [OF ok'] by (auto simp: si' remove_peers_def)
  then show ?thesis using ok' gone su by blast
qed

section \<open>Examples\<close>

text \<open>An administrator vouches for a credential for one peer, and two peers use it.\<close>

definition demo_credential :: TrustedCredentialPubkey where
  "demo_credential = \<lparr>cred_pubkey = [7], cred_groups = [''guests''], allow_relay = False, expiry_unix = 100, allowed_proxy_cidrs = [],
     reusable = Some False\<rparr>"

definition demo_api :: "(unit, unit) trust_api" where
  "demo_api = \<lparr>api_hmac = (@), encode_credential = cred_pubkey, get_field_by_name = \<lambda>_ _. None, as_list = \<lambda>_. None,
     as_message = \<lambda>_. None, encode_to_vec = \<lambda>_. []\<rparr>"

definition demo_shared :: "unit SyncedRouteInfo" where
  "demo_shared = empty_info\<lparr>peer_infos :=
    [(1, (demo_info 1 1)\<lparr>trusted_credential_pubkeys := [new_signed (@) cred_pubkey demo_credential ''secret'']\<rparr>),
     (2, (demo_info 2 1)\<lparr>noise_static_pubkey := [7]\<rparr>), (3, (demo_info 3 1)\<lparr>noise_static_pubkey := [7]\<rparr>)]\<rparr>"

lemma demo_vouched: "(\<exists>(p, info)\<in>set (peer_infos demo_shared). vouched demo_api (raw_peer_infos demo_shared p) (Some ''secret'') 50 info c) \<longleftrightarrow> c = demo_credential"
  by (auto simp: demo_shared_def empty_info_def vouched_def demo_info_def route_peer_info_new_def new_signed_def is_admin_peer_def
      is_credential_peer_info_def demo_credential_def credential_proof_is_valid_def demo_api_def verify_credential_hmac_def
      verify_credential_hmac_with_bytes_def generate_credential_hmac_from_bytes_def str_bytes_def)

theorem credential_trusts_enforced_witness:
  "\<exists>untrusted keys si'. verify_and_update_credential_trusts_protecting demo_api (Some ''secret'') 50 (\<lambda>_. True) None demo_shared = (untrusted, keys, si') \<and>
    trusted_keys si' [7] = Some demo_credential \<and> map fst (peer_infos si') = [1, 2]"
proof -
  obtain untrusted keys si' where r: "verify_and_update_credential_trusts_protecting demo_api (Some ''secret'') 50 (\<lambda>_. True) None demo_shared = (untrusted, keys, si')"
    by (metis prod_cases3)
  note t = credential_trusts_enforced [OF r]
  note t1 = t [THEN conjunct1] and t2 = t [THEN conjunct2, THEN conjunct1] and t3 = t [THEN conjunct2, THEN conjunct2]
  have k: "trusted_keys si' k = Some c \<longleftrightarrow> k = [7] \<and> c = demo_credential" for k c
  proof -
    obtain x where x: "x \<in> set (peer_infos demo_shared)" "case x of (p, info) \<Rightarrow> vouched demo_api (raw_peer_infos demo_shared p) (Some ''secret'') 50 info demo_credential"
      using demo_vouched [of demo_credential] by blast
    have "trusted_keys si' (cred_pubkey demo_credential) \<noteq> None" using bspec [OF t2 x(1)] x(2) by (cases x) simp
    moreover have "trusted_keys si' k = Some c \<Longrightarrow> cred_pubkey c = k \<and> c = demo_credential" for k c 
      using t1 [THEN spec, THEN spec, of k c] unfolding demo_vouched by blast
    moreover have "cred_pubkey demo_credential = [7]" by (simp add: demo_credential_def)
    ultimately show ?thesis by (metis not_None_eq)
  qed
  then have k7: "trusted_keys si' = [[7] \<mapsto> demo_credential]" by (intro ext) (metis fun_upd_apply not_None_eq)
  have c: "candidates (peer_infos demo_shared) (trusted_keys si') (\<lambda>_. True) k = (if k = [7] then {2, 3} else {})" for k
    by (auto simp: k7 candidates_def demo_shared_def demo_info_def route_peer_info_new_def credential_is_reusable_def demo_credential_def)
  have "p \<in> set untrusted \<longleftrightarrow> (\<exists>k. p \<in> (if k = [7 :: u8] then {2, 3} else {}) \<and> p \<noteq> Min (if k = [7] then {2, 3} else {}))" for p
  proof -
    have "trusted_keys demo_shared = Map.empty" by (simp add: demo_shared_def empty_info_def)
    then show ?thesis using t3 unfolding c by simp
  qed
  then have "p \<in> set untrusted \<longleftrightarrow> p = 3" for p by (auto split: if_splits)
  then have "map fst (peer_infos si') = [1, 2]" using t3 by (simp add: demo_shared_def)
  then show ?thesis using r k7 by (intro exI [of _ untrusted] exI [of _ keys] exI [of _ si'] conjI) simp_all
qed

text \<open>Peer 3 proves that it is in the group ''ops'', guesses the secret of ''admins'', and has a credential for ''guests''.\<close>

definition demo_mac :: "bytes \<Rightarrow> bytes \<Rightarrow> bytes" where
  "demo_mac k d = 1 # k @ d"

definition demo_member :: RoutePeerInfo where
  "demo_member = (demo_info 3 1)\<lparr>groups := [generate_with_proof demo_mac ''ops'' ''key'' 3, generate_with_proof demo_mac ''admins'' ''guess'' 3],
     noise_static_pubkey := [7]\<rparr>"

definition demo_reported :: "unit SyncedRouteInfo" where
  "demo_reported = (verify_and_update_group_trusts demo_mac [demo_member] [(''ops'', ''key''), (''admins'', ''secret'')] False empty_info)\<lparr>peer_infos :=
    [(1, (demo_info 1 1)\<lparr>trusted_credential_pubkeys := [new_signed (@) cred_pubkey demo_credential ''secret'']\<rparr>), (3, demo_member)]\<rparr>"

lemma groups_ok_empty: "groups_ok empty_info"
  by (simp add: groups_ok_def empty_info_def)

lemma demo_member_fields: "peer_id demo_member = 3" "noise_static_pubkey demo_member = [7]"
  by (simp_all add: demo_member_def demo_info_def route_peer_info_new_def)

lemma demo_reported_stores:
  "peer_infos demo_reported = [(1, (demo_info 1 1)\<lparr>trusted_credential_pubkeys := [new_signed (@) cred_pubkey demo_credential ''secret'']\<rparr>), (3, demo_member)]"
  "trusted_keys demo_reported = Map.empty" "raw_peer_infos demo_reported = Map.empty"
  by (simp_all add: demo_reported_def verify_and_update_group_trusts_def Let_def empty_info_def split: option.split)

lemma demo_reported_vouched: "(\<exists>(p, info)\<in>set (peer_infos demo_reported). vouched demo_api (raw_peer_infos demo_reported p) (Some ''secret'') 50 info c) \<longleftrightarrow> c = demo_credential"
  by (auto simp: demo_reported_stores demo_member_def vouched_def demo_info_def route_peer_info_new_def new_signed_def is_admin_peer_def
      is_credential_peer_info_def demo_credential_def credential_proof_is_valid_def demo_api_def verify_credential_hmac_def
      verify_credential_hmac_with_bytes_def generate_credential_hmac_from_bytes_def str_bytes_def)

lemma demo_reported_trusted: "fst (collect_trusted_credentials demo_api demo_reported (Some ''secret'') 50) = [[7] \<mapsto> demo_credential]"
proof -
  let ?t = "fst (collect_trusted_credentials demo_api demo_reported (Some ''secret'') 50)"
  note ck = collect_trusted_keys [of demo_api demo_reported "Some ''secret''" 50]
  have key: "cred_pubkey demo_credential = [7]" by (simp add: demo_credential_def)
  have 1: "?t k = Some c \<Longrightarrow> k = [7] \<and> c = demo_credential" for k c
    using ck(1) [of k c] unfolding demo_reported_vouched key by (auto simp: key)
  have "?t [7] \<noteq> None" unfolding ck(2) demo_reported_vouched using key by blast
  then obtain c where c: "?t [7] = Some c" by blast
  show ?thesis
  proof (rule ext)
    fix k
    show "?t k = [[7] \<mapsto> demo_credential] k"
    proof (cases "?t k")
      case None
      then have "k \<noteq> [7]" using c by (metis option.distinct(1))
      then show ?thesis using None by simp
    next
      case (Some d)
      then show ?thesis using 1 [OF Some] by simp
    qed
  qed
qed

theorem group_membership_justified_witness:
  "\<exists>untrusted keys si'. verify_and_update_credential_trusts_protecting demo_api (Some ''secret'') 50 (\<lambda>_. True) None demo_reported = (untrusted, keys, si') \<and>
    ''ops'' \<in> group_members si' 3 \<and> ''guests'' \<in> group_members si' 3 \<and> ''admins'' \<notin> group_members si' 3"
proof -
  obtain untrusted keys si' where r: "verify_and_update_credential_trusts_protecting demo_api (Some ''secret'') 50 (\<lambda>_. True) None demo_reported = (untrusted, keys, si')"
    by (metis prod_cases3)
  note s = credential_trusts_stores [OF r]
  have t: "trusted_keys si' = [[7] \<mapsto> demo_credential]" using s(5) demo_reported_trusted by simp
  have cs: "candidates (peer_infos demo_reported) [[7] \<mapsto> demo_credential] (\<lambda>_. True) k \<subseteq> {3}" for k
    by (auto simp: candidates_def demo_reported_stores demo_info_def route_peer_info_new_def)
  have "p \<in> candidates (peer_infos demo_reported) [[7] \<mapsto> demo_credential] (\<lambda>_. True) k \<Longrightarrow> p = Min (candidates (peer_infos demo_reported) [[7] \<mapsto> demo_credential] (\<lambda>_. True) k)" for p k
    using cs [of k] by (metis Min_singleton singletonD subset_singletonD empty_iff)
  then have u: "set untrusted = {}"
    unfolding s(1) untrusted_peers_def demo_reported_trusted Let_def option.case
    using duplicates_iff [of _ "peer_infos demo_reported" "[[7] \<mapsto> demo_credential]" "\<lambda>_. True"]
    by (auto simp: collect_revoked_credential_peers_def demo_reported_stores)
  have d: "distinct (map peer_id [demo_member])" "demo_member \<in> set [demo_member]" "distinct (map (peer_id \<circ> snd) (peer_infos demo_reported))"
    "(3, demo_member) \<in> set (peer_infos demo_reported)"
    by (simp_all add: demo_reported_stores demo_member_fields) (simp add: demo_info_def route_peer_info_new_def)
  have mac: "demo_mac k x \<noteq> []" for k x by (simp add: demo_mac_def)
  define si1 :: "unit SyncedRouteInfo" where "si1 = verify_and_update_group_trusts demo_mac [demo_member] [(''ops'', ''key''), (''admins'', ''secret'')] False empty_info"
  have g: "group_trust_map demo_reported = group_trust_map si1" "group_trust_map_cache demo_reported = group_trust_map_cache si1"
    by (simp_all add: demo_reported_def si1_def)
  have "n \<in> group_members si' 3 \<longleftrightarrow> proven_group demo_mac (map_of (rev [(''ops'', ''key''), (''admins'', ''secret'')])) demo_member n \<or> n = ''guests''" for n
    using group_membership_justified [OF groups_ok_empty d(1,2) mac si1_def g d(3,4) refl r, of n] u t
    by (simp add: demo_member_fields credential_of_def demo_credential_def)
  then show ?thesis using r by (simp add: proven_group_def demo_member_def generate_with_proof_def demo_mac_def str_bytes_def demo_info_def)
qed

end
