(* ===== verification/Route_Own.thy ===== *)
theory Route_Own
  imports Route_Trust
begin

text \<open>
  \<open>peers/peer_ospf_route.rs\<close>, the entries a node owns: its description, its list of connections and the
  foreign networks it serves. A node is the only one to change them, and it marks a change by a new version.
\<close>

definition UPDATE_PEER_INFO_PERIOD :: nat where
  "UPDATE_PEER_INFO_PERIOD = 3600 * SEC"

text \<open>\<open>SystemTime::elapsed\<close> fails for a time in the future.\<close>

definition elapsed :: "nat \<Rightarrow> nat \<Rightarrow> nat option" where
  "elapsed now t = (if t \<le> now then Some (now - t) else None)"

definition is_foreign_network_info_newer :: "ForeignNetworkRouteInfoEntry \<Rightarrow> ForeignNetworkRouteInfoEntry \<Rightarrow> bool option" where
  "is_foreign_network_info_newer next_e prev = do {
     n \<leftarrow> fe_last_update next_e;
     p \<leftarrow> fe_last_update prev;
     Some (n > p) }"

section \<open>The own description\<close>

text \<open>What \<open>new_updated_self\<close> reads from the context. Addresses and networks are printed by their crate.\<close>

record self_ctx =
  ctx_id :: "128 word"
  ctx_ipv4 :: "(u32 \<times> u8) option"
  ctx_proxy_cidrs :: "(string option \<times> string) list"
  vpn_portal_cidr :: "string option"
  ctx_hostname :: string
  ctx_udp_nat_type :: u32
  ctx_tcp_nat_type :: u32
  ctx_feature_flags :: PeerFeatureFlag
  ctx_ipv6 :: "Ipv6InetPb option"
  advertised_ipv6_public_addr_prefix :: "Ipv6InetPb option"
  ctx_acl_groups :: "PeerId \<Rightarrow> PeerGroupInfo list"
  secure_mode_public_key :: "bytes option"
  ctx_network_secret :: "string option"
  get_trusted_pubkeys :: "string \<Rightarrow> TrustedCredentialPubkeyProof list"

definition new_updated_self :: "string \<Rightarrow> PeerId \<Rightarrow> u64 \<Rightarrow> self_ctx \<Rightarrow> Ipv6InetPb option \<Rightarrow> RoutePeerInfo" where
  "new_updated_self ver my route_id ctx lease = \<lparr>
     peer_id = my, inst_id = Some (ctx_id ctx), cost = 0, ipv4_addr = map_option fst (ctx_ipv4 ctx),
     proxy_cidrs = map (\<lambda>(mapped, cidr). case mapped of Some m \<Rightarrow> m | None \<Rightarrow> cidr) (ctx_proxy_cidrs ctx)
       @ (case vpn_portal_cidr ctx of Some c \<Rightarrow> [c] | None \<Rightarrow> []),
     hostname = Some (ctx_hostname ctx), udp_nat_type = ctx_udp_nat_type ctx, last_update = None, version = 0,
     easytier_version = ver, feature_flag = Some (ctx_feature_flags ctx), peer_route_id = route_id,
     network_length = (case ctx_ipv4 ctx of Some (_, len) \<Rightarrow> ucast len | None \<Rightarrow> 24), quic_port = None,
     ipv6_addr = ctx_ipv6 ctx, groups = ctx_acl_groups ctx my, tcp_nat_type = ctx_tcp_nat_type ctx,
     noise_static_pubkey = (case secure_mode_public_key ctx of Some pk \<Rightarrow> pk | None \<Rightarrow> []),
     trusted_credential_pubkeys = (case ctx_network_secret ctx of Some s \<Rightarrow> get_trusted_pubkeys ctx s | None \<Rightarrow> []),
     ipv6_public_addr_prefix = advertised_ipv6_public_addr_prefix ctx, ipv6_public_addr_lease = lease\<rparr>"

definition try_update_new_peer_info :: "nat \<Rightarrow> RoutePeerInfo \<Rightarrow> RoutePeerInfo \<Rightarrow> bool \<times> RoutePeerInfo" where
  "try_update_new_peer_info now old new =
     (let need_update_periodically = (case elapsed now (case last_update old of Some t \<Rightarrow> t | None \<Rightarrow> 0) of
            Some d \<Rightarrow> d > UPDATE_PEER_INFO_PERIOD | None \<Rightarrow> True);
          new = new\<lparr>version := version old, last_update := last_update old\<rparr>
      in if new \<noteq> old \<or> need_update_periodically then (True, new\<lparr>version := version new + 1\<rparr>) else (False, new))"

definition update_my_peer_info :: "string \<Rightarrow> nat \<Rightarrow> PeerId \<Rightarrow> u64 \<Rightarrow> self_ctx \<Rightarrow> Ipv6InetPb option
    \<Rightarrow> 'raw SyncedRouteInfo \<Rightarrow> bool \<times> 'raw SyncedRouteInfo" where
  "update_my_peer_info ver now my route_id ctx lease si =
     (let new = new_updated_self ver my route_id ctx lease;
          old = map_of (peer_infos si) my;
          new_version = (case old of Some o_info \<Rightarrow> version o_info | None \<Rightarrow> 0) + 1;
          (need_insert_new, new) = (case old of Some o_info \<Rightarrow> try_update_new_peer_info now o_info new | None \<Rightarrow> (True, new))
      in if need_insert_new
         then let acl_groups = (case old of Some o_info \<Rightarrow> if groups o_info \<noteq> groups new then Some (groups new) else None
                    | None \<Rightarrow> Some (groups new));
                  si = si\<lparr>peer_infos := AList.update my (new\<lparr>last_update := Some now, version := new_version\<rparr>) (peer_infos si)\<rparr>;
                  si = (case acl_groups of Some gs \<Rightarrow> update_my_group_trusts my gs si | None \<Rightarrow> si)
              in (True, si\<lparr>synced_version := version_inc (synced_version si)\<rparr>)
         else (False, si))"

section \<open>The own connections\<close>

definition update_my_conn_info :: "string \<Rightarrow> nat \<Rightarrow> PeerId \<Rightarrow> PeerId set \<Rightarrow> 'raw SyncedRouteInfo \<Rightarrow> bool \<times> 'raw SyncedRouteInfo" where
  "update_my_conn_info ver now my connected si =
     (let si = fill_empty_peer_info ver now connected si;
          mine = map_of (conn_map si) my;
          new_version = (case mine of Some c \<Rightarrow> conn_version c | None \<Rightarrow> 0) + 1
      in if (case mine of Some old \<Rightarrow> connected_peers old \<noteq> connected | None \<Rightarrow> True)
         then (True, si\<lparr>conn_map := AList.update my \<lparr>connected_peers = connected, conn_version = new_version, conn_last_update = now\<rparr> (conn_map si),
                        synced_version := version_inc (synced_version si)\<rparr>)
         else (False, si))"

section \<open>The own foreign networks\<close>

type_synonym ForeignMap = "(ForeignNetworkRouteInfoKey \<times> ForeignNetworkRouteInfoEntry) list"

text \<open>
  The loop over the stored entries of this node. The results are the stored entries, the networks that
  were not stored before, and whether an entry changed; \<open>None\<close> is the failed assertion.
\<close>

fun refresh_own :: "nat \<Rightarrow> Version \<Rightarrow> PeerId \<Rightarrow> ForeignMap \<Rightarrow> ForeignMap \<Rightarrow> (ForeignMap \<times> ForeignMap \<times> bool) may_panic" where
  "refresh_own now now_version my [] fns = Some ([], fns, False)"
| "refresh_own now now_version my ((key, e) # es) fns =
     (if fk_peer_id key \<noteq> my then do {
        (es, fns, upd) \<leftarrow> refresh_own now now_version my es fns;
        Some ((key, e) # es, fns, upd) }
      else case map_of fns key of
        Some new_entry \<Rightarrow>
          if foreign_peer_ids new_entry = [] then None
          else let renew = (case is_foreign_network_info_newer new_entry e of
                  None \<Rightarrow> False
                | Some is_newer \<Rightarrow> is_newer \<or> (case fe_last_update e of
                    Some t \<Rightarrow> (case elapsed now t of Some d \<Rightarrow> d | None \<Rightarrow> 0) > UPDATE_PEER_INFO_PERIOD | None \<Rightarrow> False));
               e' = (if renew then new_entry\<lparr>fe_version := max (fe_version new_entry + 1) now_version\<rparr> else e)
          in do {
            (es, fns, upd) \<leftarrow> refresh_own now now_version my es (AList.delete key fns);
            Some ((key, e') # es, fns, renew \<or> upd) }
      | None \<Rightarrow> do {
          (es, fns, upd) \<leftarrow> refresh_own now now_version my es fns;
          Some (if foreign_peer_ids e \<noteq> []
            then ((key, e\<lparr>foreign_peer_ids := [], fe_last_update := Some now, fe_version := max (fe_version e + 1) now_version\<rparr>) # es, fns, True)
            else ((key, e) # es, fns, upd)) })"

fun add_own :: "Version \<Rightarrow> ForeignMap \<Rightarrow> ForeignMap \<Rightarrow> ForeignMap may_panic" where
  "add_own now_version [] es = Some es"
| "add_own now_version ((key, v) # fns) es =
     (if foreign_peer_ids v = [] then None
      else add_own now_version fns (case map_of es key of
        Some old \<Rightarrow> if fe_version v > fe_version old then AList.update key v es else es
      | None \<Rightarrow> AList.update key (v\<lparr>fe_version := now_version\<rparr>) es))"

definition update_my_foreign_network :: "nat \<Rightarrow> PeerId \<Rightarrow> ForeignMap \<Rightarrow> 'raw SyncedRouteInfo \<Rightarrow> (bool \<times> 'raw SyncedRouteInfo) may_panic" where
  "update_my_foreign_network now my fns si = do {
     let now_version = of_nat (now div SEC);
     (es, fns, upd) \<leftarrow> refresh_own now now_version my (foreign_network si) fns;
     let upd = (upd \<or> fns \<noteq> []);
     es \<leftarrow> add_own now_version fns es;
     let si = si\<lparr>foreign_network := es\<rparr>;
     Some (upd, if upd then si\<lparr>synced_version := version_inc (synced_version si)\<rparr> else si) }"

section \<open>Changes get new versions\<close>

lemma set_peer_groups_infos [simp]: "peer_infos (set_peer_groups p gs si) = peer_infos si"
  by (simp add: set_peer_groups_def)

lemma update_my_group_trusts_infos [simp]: "peer_infos (update_my_group_trusts my gs si) = peer_infos si"
  by (simp add: update_my_group_trusts_def)

lemma own_description:
  assumes "update_my_peer_info ver now my rid ctx lease si = (b, si')"
  shows "(\<exists>info. map_of (peer_infos si') my = Some info \<and>
      info\<lparr>last_update := None, version := 0\<rparr> = new_updated_self ver my rid ctx lease \<and>
      (case map_of (peer_infos si) my of Some old \<Rightarrow> if b then version info = version old + 1 else info = old
       | None \<Rightarrow> b \<and> version info = 1)) \<and>
    (\<forall>q. q \<noteq> my \<longrightarrow> map_of (peer_infos si') q = map_of (peer_infos si) q)"
proof (cases "map_of (peer_infos si) my")
  case None
  then show ?thesis using assms
    by (auto simp: update_my_peer_info_def new_updated_self_def Let_def update_conv')
next
  case (Some old)
  define new where "new = (new_updated_self ver my rid ctx lease)\<lparr>version := version old, last_update := last_update old\<rparr>"
  have n: "new\<lparr>last_update := None, version := 0\<rparr> = new_updated_self ver my rid ctx lease"
    by (simp add: new_def new_updated_self_def)
  obtain c v where t: "try_update_new_peer_info now old (new_updated_self ver my rid ctx lease) = (c, v)" by (cases "try_update_new_peer_info now old (new_updated_self ver my rid ctx lease)")
  then have c: "\<not> c \<Longrightarrow> old = new" and vv: "v = (if c then new\<lparr>version := version new + 1\<rparr> else new)"
    by (auto simp: try_update_new_peer_info_def new_def [symmetric] Let_def split: if_splits)
  have v: "v\<lparr>last_update := None, version := 0\<rparr> = new_updated_self ver my rid ctx lease" using n by (simp add: vv)
  show ?thesis
  proof (cases c)
    case True
    have "b" and "peer_infos si' = AList.update my (v\<lparr>last_update := Some now, version := version old + 1\<rparr>) (peer_infos si)"
      using assms Some t True by (auto simp: update_my_peer_info_def Let_def split: if_splits)
    then show ?thesis using Some v by (auto simp: update_conv')
  next
    case False
    then have "si' = si" "\<not> b" using assms Some t by (auto simp: update_my_peer_info_def Let_def)
    then show ?thesis using Some c [OF False] n by auto
  qed
qed

lemma own_connections:
  assumes "update_my_conn_info ver now my connected si = (b, si')"
  shows "(\<exists>c. map_of (conn_map si') my = Some c \<and> connected_peers c = connected \<and>
      conn_version c = (if b then fst (conn_view si my) + 1 else fst (conn_view si my))) \<and>
    (\<forall>q. q \<noteq> my \<longrightarrow> conn_view si' q = conn_view si q)"
proof -
  define s1 where "s1 = fill_empty_peer_info ver now connected si"
  have s1: "conn_view s1 = conn_view si" by (simp add: s1_def)
  have v: "fst (conn_view si my) = (case map_of (conn_map s1) my of Some c \<Rightarrow> conn_version c | None \<Rightarrow> 0)"
    unfolding s1 [symmetric] conn_view_def by (auto split: option.split)
  show ?thesis
  proof (cases b)
    case True
    then have e: "si' = s1\<lparr>conn_map := AList.update my \<lparr>connected_peers = connected, conn_version = fst (conn_view si my) + 1, conn_last_update = now\<rparr> (conn_map s1),
        synced_version := version_inc (synced_version s1)\<rparr>"
      using assms by (auto simp: update_my_conn_info_def s1_def [symmetric] Let_def v split: if_splits)
    have "q \<noteq> my \<Longrightarrow> conn_view si' q = conn_view s1 q" for q by (simp add: e conn_view_def update_conv')
    then show ?thesis using True s1 by (auto simp: e update_conv')
  next
    case False
    then have e: "si' = s1" and "\<exists>c. map_of (conn_map s1) my = Some c \<and> connected_peers c = connected"
      using assms by (auto simp: update_my_conn_info_def s1_def [symmetric] Let_def split: if_splits option.splits)
    then show ?thesis using False s1 v by auto
  qed
qed

text \<open>
  A node's own entries are always current and every change gets the next version: after an update the
  stored description is that of the context and the stored connections are the given ones, with the
  version counted up if something changed (or a description is an hour old) and untouched otherwise, and
  the entries of other nodes stay.
\<close>

theorem own_changes_are_newer:
  "case update_my_peer_info ver now my rid ctx lease si of (changed, si1) \<Rightarrow>
     case update_my_conn_info ver now my connected si1 of (changed2, si2) \<Rightarrow>
       (\<exists>info. map_of (peer_infos si1) my = Some info \<and>
          info\<lparr>last_update := None, version := 0\<rparr> = new_updated_self ver my rid ctx lease \<and>
          (case map_of (peer_infos si) my of Some old \<Rightarrow> if changed then version info = version old + 1 else info = old
           | None \<Rightarrow> changed \<and> version info = 1)) \<and>
       (\<exists>c. map_of (conn_map si2) my = Some c \<and> connected_peers c = connected \<and>
          conn_version c = (if changed2 then fst (conn_view si my) + 1 else fst (conn_view si my))) \<and>
       (\<forall>q. q = my \<or> map_of (peer_infos si1) q = map_of (peer_infos si) q \<and> conn_view si2 q = conn_view si q)"
proof -
  obtain b si1 where 1: "update_my_peer_info ver now my rid ctx lease si = (b, si1)" by (cases "update_my_peer_info ver now my rid ctx lease si")
  obtain b2 si2 where 2: "update_my_conn_info ver now my connected si1 = (b2, si2)" by (cases "update_my_conn_info ver now my connected si1")
  have "conn_map si1 = conn_map si"
    using 1 by (auto simp: update_my_peer_info_def update_my_group_trusts_def set_peer_groups_def Let_def split: if_splits option.splits prod.splits)
  then have "conn_view si1 = conn_view si" by (simp add: conn_view_def fun_eq_iff)
  then show ?thesis using own_description [OF 1] own_connections [OF 2] unfolding 1 2 prod.case by auto
qed

section \<open>Versions of foreign networks\<close>

lemma refresh_own_total:
  "\<forall>(k, n)\<in>set fns. foreign_peer_ids n \<noteq> [] \<Longrightarrow>
   \<exists>es' fns' upd. refresh_own now nv my es fns = Some (es', fns', upd) \<and> (\<forall>(k, n)\<in>set fns'. foreign_peer_ids n \<noteq> []) \<and>
     map fst es' = map fst es \<and> (\<forall>k. fk_peer_id k = my \<longrightarrow> k \<in> fst ` set es \<longrightarrow> map_of fns' k = None)"
proof (induction es arbitrary: fns)
  case (Cons x es)
  obtain k e where x: "x = (k, e)" by (cases x)
  have d: "\<forall>(k, n)\<in>set (AList.delete k fns). foreign_peer_ids n \<noteq> []"
    using Cons.prems by (auto simp: AList.delete_eq)
  have none: "refresh_own now nv my es' fs = Some (r, fs', u) \<Longrightarrow> map_of fs k' = None \<Longrightarrow> map_of fs' k' = None" for es' fs r fs' u k'
    by (induction now nv my es' fs arbitrary: r fs' u rule: refresh_own.induct)
      (auto simp: Let_def delete_conv' split: if_splits option.splits bind_splits)
  show ?case
  proof (cases "fk_peer_id k = my")
    case False
    then show ?thesis using Cons.IH [OF Cons.prems] x by force
  next
    case True
    show ?thesis
    proof (cases "map_of fns k")
      case None
      then obtain es' fns' upd where r: "refresh_own now nv my es fns = Some (es', fns', upd)" "\<forall>(k, n)\<in>set fns'. foreign_peer_ids n \<noteq> []"
          "map fst es' = map fst es" "\<forall>k. fk_peer_id k = my \<longrightarrow> k \<in> fst ` set es \<longrightarrow> map_of fns' k = None"
        using Cons.IH [OF Cons.prems] by blast
      then show ?thesis using x True None none [OF r(1) None] by auto
    next
      case (Some n)
      obtain es' fns' upd where r: "refresh_own now nv my es (AList.delete k fns) = Some (es', fns', upd)" "\<forall>(k, n)\<in>set fns'. foreign_peer_ids n \<noteq> []"
          "map fst es' = map fst es" "\<forall>k. fk_peer_id k = my \<longrightarrow> k \<in> fst ` set es \<longrightarrow> map_of fns' k = None"
        using Cons.IH [OF d] by blast
      moreover have "foreign_peer_ids n \<noteq> []" using Cons.prems map_of_SomeD [OF Some] by auto
      ultimately show ?thesis using x True Some none [OF r(1), of k] by (auto simp: Let_def delete_conv')
    qed
  qed
qed auto

lemma refresh_own_renews:
  "refresh_own now nv my es fns = Some (es', fns', upd) \<Longrightarrow> map_of es key = Some e \<Longrightarrow> fk_peer_id key = my \<Longrightarrow>
   map_of fns key = Some n \<Longrightarrow> is_foreign_network_info_newer n e = Some True \<Longrightarrow>
   map_of es' key = Some (n\<lparr>fe_version := max (fe_version n + 1) nv\<rparr>) \<and> upd"
  by (induction now nv my es fns arbitrary: es' fns' upd rule: refresh_own.induct)
    (auto simp: Let_def delete_conv' split: if_splits option.splits bind_splits)

lemma add_own_total:
  "\<forall>(k, n)\<in>set fns. foreign_peer_ids n \<noteq> [] \<Longrightarrow> \<exists>es'. add_own nv fns es = Some es' \<and> (\<forall>k. map_of fns k = None \<longrightarrow> map_of es' k = map_of es k)"
proof (induction fns arbitrary: es)
  case (Cons x fns)
  obtain k v where x: "x = (k, v)" by (cases x)
  define es1 where "es1 = (case map_of es k of Some old \<Rightarrow> if fe_version v > fe_version old then AList.update k v es else es
      | None \<Rightarrow> AList.update k (v\<lparr>fe_version := nv\<rparr>) es)"
  have "q \<noteq> k \<Longrightarrow> map_of es1 q = map_of es q" for q by (auto simp: es1_def update_conv' split: option.split)
  then show ?case using Cons.IH [of es1] Cons.prems x by (auto simp: es1_def)
qed simp

text \<open>
  The version of an own foreign network entry follows the wall clock and not the stored version: when the
  clock was set back below the stored version, a change of the network is stored with a smaller version, so a
  node that holds the old entry keeps it.
\<close>

theorem foreign_change_lost_after_clock_step:
  assumes "map_of (foreign_network si) key = Some e" and "fk_peer_id key = my" and "map_of fns key = Some n"
    and "\<forall>(k, n)\<in>set fns. foreign_peer_ids n \<noteq> []" and "is_foreign_network_info_newer n e = Some True"
    and "fe_version n = 0" and "of_nat (now div SEC) < fe_version e" and "1 < fe_version e"
    and "map_of (foreign_network other) key = Some e"
  shows "\<exists>si' e'. update_my_foreign_network now my fns si = Some (True, si') \<and> map_of (foreign_network si') key = Some e' \<and>
    foreign_peer_ids e' = foreign_peer_ids n \<and>
    update_foreign_network later [(Some key, Some e')] other = (False, other)"
proof -
  let ?nv = "of_nat (now div SEC) :: Version"
  obtain es' fns' upd where r: "refresh_own now ?nv my (foreign_network si) fns = Some (es', fns', upd)"
      "\<forall>(k, n)\<in>set fns'. foreign_peer_ids n \<noteq> []" "\<forall>k. fk_peer_id k = my \<longrightarrow> k \<in> fst ` set (foreign_network si) \<longrightarrow> map_of fns' k = None"
    using refresh_own_total [OF assms(4), of now ?nv my "foreign_network si"] by (elim exE conjE) (rule that)
  define e' where "e' = n\<lparr>fe_version := max (fe_version n + 1) ?nv\<rparr>"
  have u: "map_of es' key = Some e'" upd using refresh_own_renews [OF r(1) assms(1,2,3,5)] by (simp_all add: e'_def)
  have "key \<in> fst ` set (foreign_network si)" using map_of_SomeD [OF assms(1)] by force
  with r(3) assms(2) have "map_of fns' key = None" by simp
  then obtain es'' where a: "add_own ?nv fns' es' = Some es''" "map_of es'' key = Some e'"
    using add_own_total [OF r(2), of ?nv es'] u(1) by auto
  have "\<not> fe_version e < fe_version e'" using assms(6-8) by (auto simp: e'_def max_def)
  then have "update_foreign_network later [(Some key, Some e')] other = (False, other)" using assms(9) by simp
  then show ?thesis using r(1) u(2) a by (auto simp: update_my_foreign_network_def Let_def e'_def)
qed

definition demo_key :: ForeignNetworkRouteInfoKey where
  "demo_key = \<lparr>fk_peer_id = 1, fk_network_name = ''guests''\<rparr>"

definition demo_entry :: "nat \<Rightarrow> Version \<Rightarrow> PeerId list \<Rightarrow> ForeignNetworkRouteInfoEntry" where
  "demo_entry t v ps = \<lparr>foreign_peer_ids = ps, fe_last_update = Some t, fe_version = v, network_secret_digest = [], my_peer_id_for_this_network = 4\<rparr>"

definition demo_foreign :: "unit SyncedRouteInfo" where
  "demo_foreign = empty_info\<lparr>foreign_network := [(demo_key, demo_entry 10 900 [7])]\<rparr>"

theorem foreign_change_lost_after_clock_step_witness:
  "\<exists>si' e'. update_my_foreign_network (800 * SEC) 1 [(demo_key, demo_entry 20 0 [7, 8])] demo_foreign = Some (True, si') \<and>
    map_of (foreign_network si') demo_key = Some e' \<and> foreign_peer_ids e' = foreign_peer_ids (demo_entry 20 0 [7, 8]) \<and>
    update_foreign_network 0 [(Some demo_key, Some e')] demo_foreign = (False, demo_foreign)"
  by (rule foreign_change_lost_after_clock_step [where e = "demo_entry 10 900 [7]"])
    (simp_all add: demo_foreign_def demo_entry_def demo_key_def is_foreign_network_info_newer_def SEC_def)

end
