(* ===== verification/Route_Session.thy ===== *)
theory Route_Session
  imports Route_Own
begin

text \<open>
  \<open>peers/peer_ospf_route.rs\<close>, \<open>SyncRouteSession\<close>: what a node remembers of one neighbour, above all the versions
  that the neighbour already has, and the selection of the entries that are news to it.
\<close>

section \<open>Versions the neighbour has\<close>

record VersionAndTouchTime =
  vt_version :: Version
  touch_time :: nat

type_synonym 'k saved = "'k \<rightharpoonup> VersionAndTouchTime"

definition vt_is_expired :: "nat \<Rightarrow> VersionAndTouchTime \<Rightarrow> bool" where
  "vt_is_expired now v \<longleftrightarrow> now - touch_time v > 60 * SEC"

text \<open>The common body of the three checks: \<open>is_dst\<close> tells that the entry belongs to the neighbour itself.\<close>

definition check_saved :: "nat \<Rightarrow> bool \<Rightarrow> 'k \<Rightarrow> Version \<Rightarrow> 'k saved \<Rightarrow> bool \<times> 'k saved" where
  "check_saved now is_dst k ver m =
     (if ver = 0 \<or> is_dst then (True, m)
      else case m k of
        Some v \<Rightarrow> (vt_version v \<ge> ver, m(k \<mapsto> v\<lparr>touch_time := now\<rparr>))
      | None \<Rightarrow> (False, m))"

text \<open>\<open>entry(k).or_default().set_if_larger(ver)\<close>\<close>

definition save_version :: "nat \<Rightarrow> 'k \<Rightarrow> Version \<Rightarrow> 'k saved \<Rightarrow> 'k saved" where
  "save_version now k ver m =
     (let v = (case m k of Some v \<Rightarrow> v | None \<Rightarrow> \<lparr>vt_version = 0, touch_time = now\<rparr>)
      in m(k \<mapsto> v\<lparr>vt_version := fst (set_if_larger ver (vt_version v))\<rparr>))"

definition drop_expired :: "nat \<Rightarrow> 'k saved \<Rightarrow> 'k saved" where
  "drop_expired now m k = (case m k of Some v \<Rightarrow> if vt_is_expired now v then None else Some v | None \<Rightarrow> None)"

section \<open>The session\<close>

record SyncRouteSession =
  ss_dst_peer_id :: PeerId
  dst_saved_peer_info_versions :: "PeerId saved"
  dst_saved_conn_info_version :: "PeerId saved"
  dst_saved_foreign_network_versions :: "ForeignNetworkRouteInfoKey saved"
  unreachable_peers_for_peer_info :: "(PeerId \<times> Version) list"
  unreachable_peers_for_conn_info :: "(PeerId \<times> Version) list"
  last_sync_succ_timestamp :: "nat option"
  my_session_id :: u64
  dst_session_id :: u64
  we_are_initiator :: bool
  dst_is_initiator :: bool
  need_sync_initiator_info :: bool
  rpc_tx_count :: u32
  rpc_rx_count :: u32

definition sync_session_new :: "u64 \<Rightarrow> PeerId \<Rightarrow> SyncRouteSession" where
  "sync_session_new random dst = \<lparr>ss_dst_peer_id = dst, dst_saved_peer_info_versions = Map.empty,
     dst_saved_conn_info_version = Map.empty, dst_saved_foreign_network_versions = Map.empty,
     unreachable_peers_for_peer_info = [], unreachable_peers_for_conn_info = [], last_sync_succ_timestamp = None,
     my_session_id = random, dst_session_id = 0, we_are_initiator = False, dst_is_initiator = False,
     need_sync_initiator_info = False, rpc_tx_count = 0, rpc_rx_count = 0\<rparr>"

definition check_saved_peer_info_update_to_date :: "nat \<Rightarrow> PeerId \<Rightarrow> Version \<Rightarrow> SyncRouteSession \<Rightarrow> bool \<times> SyncRouteSession" where
  "check_saved_peer_info_update_to_date now p ver s =
     (let (b, m) = check_saved now (p = ss_dst_peer_id s) p ver (dst_saved_peer_info_versions s)
      in (b, s\<lparr>dst_saved_peer_info_versions := m\<rparr>))"

definition check_saved_conn_version_update_to_date :: "nat \<Rightarrow> PeerId \<Rightarrow> Version \<Rightarrow> SyncRouteSession \<Rightarrow> bool \<times> SyncRouteSession" where
  "check_saved_conn_version_update_to_date now p ver s =
     (let (b, m) = check_saved now (p = ss_dst_peer_id s) p ver (dst_saved_conn_info_version s)
      in (b, s\<lparr>dst_saved_conn_info_version := m\<rparr>))"

definition check_saved_foreign_network_version_update_to_date :: "nat \<Rightarrow> ForeignNetworkRouteInfoKey \<Rightarrow> Version \<Rightarrow> SyncRouteSession
    \<Rightarrow> bool \<times> SyncRouteSession" where
  "check_saved_foreign_network_version_update_to_date now k ver s =
     (let (b, m) = check_saved now (fk_peer_id k = ss_dst_peer_id s) k ver (dst_saved_foreign_network_versions s)
      in (b, s\<lparr>dst_saved_foreign_network_versions := m\<rparr>))"

definition update_dst_saved_peer_info_version :: "nat \<Rightarrow> RoutePeerInfo list \<Rightarrow> PeerId \<Rightarrow> SyncRouteSession \<Rightarrow> SyncRouteSession" where
  "update_dst_saved_peer_info_version now infos dst s = s\<lparr>dst_saved_peer_info_versions :=
     fold (\<lambda>info m. if peer_id info = dst then m else save_version now (peer_id info) (version info) m)
       infos (dst_saved_peer_info_versions s)\<rparr>"

definition update_dst_saved_conn_bitmap_version :: "nat \<Rightarrow> RouteConnBitmap \<Rightarrow> PeerId \<Rightarrow> SyncRouteSession \<Rightarrow> SyncRouteSession" where
  "update_dst_saved_conn_bitmap_version now bm dst s = s\<lparr>dst_saved_conn_info_version :=
     fold (\<lambda>pv m. if pv_peer_id pv = dst then m else save_version now (pv_peer_id pv) (pv_version pv) m)
       (peer_ids bm) (dst_saved_conn_info_version s)\<rparr>"

definition update_dst_saved_conn_peer_list_version :: "nat \<Rightarrow> PeerConnInfo list \<Rightarrow> PeerId \<Rightarrow> SyncRouteSession \<Rightarrow> SyncRouteSession" where
  "update_dst_saved_conn_peer_list_version now pcs dst s = s\<lparr>dst_saved_conn_info_version :=
     fold (\<lambda>pc m. case pc_peer_id pc of
         None \<Rightarrow> m
       | Some pv \<Rightarrow> if pv_peer_id pv = dst then m else save_version now (pv_peer_id pv) (pv_version pv) m)
       pcs (dst_saved_conn_info_version s)\<rparr>"

definition update_dst_saved_conn_info_version :: "nat \<Rightarrow> ConnInfo \<Rightarrow> PeerId \<Rightarrow> SyncRouteSession \<Rightarrow> SyncRouteSession" where
  "update_dst_saved_conn_info_version now ci dst s = (case ci of
     ConnBitmap bm \<Rightarrow> update_dst_saved_conn_bitmap_version now bm dst s
   | ConnPeerList pcs \<Rightarrow> update_dst_saved_conn_peer_list_version now pcs dst s)"

text \<open>The key and the value of every item are unwrapped.\<close>

fun save_foreign :: "nat \<Rightarrow> PeerId \<Rightarrow> ForeignInfo list \<Rightarrow> ForeignNetworkRouteInfoKey saved \<Rightarrow> ForeignNetworkRouteInfoKey saved may_panic" where
  "save_foreign now dst [] m = Some m"
| "save_foreign now dst ((key, val) # items) m = (case key of
     None \<Rightarrow> None
   | Some k \<Rightarrow>
       if fk_peer_id k = dst then save_foreign now dst items m
       else (case val of None \<Rightarrow> None | Some e \<Rightarrow> save_foreign now dst items (save_version now k (fe_version e) m)))"

definition update_dst_saved_foreign_network_version :: "nat \<Rightarrow> ForeignInfo list \<Rightarrow> PeerId \<Rightarrow> SyncRouteSession \<Rightarrow> SyncRouteSession may_panic" where
  "update_dst_saved_foreign_network_version now items dst s =
     map_option (\<lambda>m. s\<lparr>dst_saved_foreign_network_versions := m\<rparr>) (save_foreign now dst items (dst_saved_foreign_network_versions s))"

definition update_initiator_flag :: "bool \<Rightarrow> SyncRouteSession \<Rightarrow> SyncRouteSession" where
  "update_initiator_flag b s = s\<lparr>we_are_initiator := b, need_sync_initiator_info := True\<rparr>"

definition update_dst_session_id :: "u64 \<Rightarrow> SyncRouteSession \<Rightarrow> SyncRouteSession" where
  "update_dst_session_id sid s =
     (if sid \<noteq> dst_session_id s
      then s\<lparr>dst_session_id := sid, dst_saved_conn_info_version := Map.empty, dst_saved_peer_info_versions := Map.empty,
             last_sync_succ_timestamp := None, unreachable_peers_for_peer_info := [], unreachable_peers_for_conn_info := []\<rparr>
      else s)"

definition clean_dst_saved_map :: "nat \<Rightarrow> SyncRouteSession \<Rightarrow> SyncRouteSession" where
  "clean_dst_saved_map now s = s\<lparr>
     dst_saved_peer_info_versions := drop_expired now (dst_saved_peer_info_versions s),
     dst_saved_conn_info_version := drop_expired now (dst_saved_conn_info_version s),
     dst_saved_foreign_network_versions := drop_expired now (dst_saved_foreign_network_versions s)\<rparr>"

definition update_last_sync_succ_timestamp :: "nat \<Rightarrow> SyncRouteSession \<Rightarrow> SyncRouteSession" where
  "update_last_sync_succ_timestamp t s =
     (if (case last_sync_succ_timestamp s of None \<Rightarrow> True | Some old \<Rightarrow> old < t)
      then s\<lparr>last_sync_succ_timestamp := Some t\<rparr> else s)"

section \<open>News for the neighbour\<close>

text \<open>\<open>BTreeMap\<close> with its keys in ascending order.\<close>

fun btree_insert :: "'k::linorder \<Rightarrow> 'v \<Rightarrow> ('k \<times> 'v) list \<Rightarrow> ('k \<times> 'v) list" where
  "btree_insert k v [] = [(k, v)]"
| "btree_insert k v ((k', v') # m) = (if k < k' then (k, v) # (k', v') # m
     else if k = k' then (k, v) # m else (k', v') # btree_insert k v m)"

text \<open>
  \<open>build_route_info\<close> and \<open>build_conn_peer_list\<close> select entries by the same two loops, over the entries \<open>(p, e)\<close>
  from the last to the first. \<open>ident\<close> is the id that is looked up in the saved versions, \<open>ver\<close> and \<open>upd\<close> the
  version and the time of the last update of an entry. The state is the saved versions, the unreachable
  peers and the selected entries.
\<close>

fun news_loop :: "nat \<Rightarrow> (PeerId \<Rightarrow> bool) \<Rightarrow> PeerId \<Rightarrow> nat option \<Rightarrow> (PeerId \<times> 'e \<Rightarrow> PeerId) \<Rightarrow> ('e \<Rightarrow> Version) \<Rightarrow> ('e \<Rightarrow> nat option)
    \<Rightarrow> (PeerId \<times> 'e) list \<Rightarrow> PeerId saved \<times> (PeerId \<times> Version) list \<times> (PeerId \<times> 'e) list
    \<Rightarrow> PeerId saved \<times> (PeerId \<times> Version) list \<times> (PeerId \<times> 'e) list" where
  "news_loop now reach dst ts ident ver upd [] st = st"
| "news_loop now reach dst ts ident ver upd ((p, e) # es) (saved, unr, out) =
     (if (case upd e of Some u \<Rightarrow> (case ts of Some t \<Rightarrow> u < t | None \<Rightarrow> False) | None \<Rightarrow> False) then (saved, unr, out)
      else let (up_to_date, saved) = check_saved now (ident (p, e) = dst) (ident (p, e)) (ver e) saved
        in news_loop now reach dst ts ident ver upd es
          (if up_to_date then (saved, unr, out)
           else if \<not> reach p then (saved, btree_insert p (ver e) unr, out)
           else (saved, unr, out @ [(p, e)])))"

text \<open>The \<open>retain\<close> over the unreachable peers.\<close>

fun retain_loop :: "nat \<Rightarrow> (PeerId \<Rightarrow> bool) \<Rightarrow> PeerId \<Rightarrow> (PeerId \<rightharpoonup> 'e) \<Rightarrow> (PeerId \<times> Version) list
    \<Rightarrow> PeerId saved \<times> (PeerId \<times> Version) list \<times> (PeerId \<times> 'e) list
    \<Rightarrow> PeerId saved \<times> (PeerId \<times> Version) list \<times> (PeerId \<times> 'e) list" where
  "retain_loop now reach dst lookup [] st = st"
| "retain_loop now reach dst lookup ((p, v) # us) (saved, kept, out) =
     (let (up_to_date, saved) = check_saved now (p = dst) p v saved
      in retain_loop now reach dst lookup us
        (if up_to_date then (saved, kept, out)
         else case lookup p of
           None \<Rightarrow> (saved, kept, out)
         | Some e \<Rightarrow> (saved, kept @ [(p, v)], if reach p then out @ [(p, e)] else out)))"

definition select_news :: "nat \<Rightarrow> (PeerId \<Rightarrow> bool) \<Rightarrow> PeerId \<Rightarrow> nat option \<Rightarrow> (PeerId \<times> 'e \<Rightarrow> PeerId) \<Rightarrow> ('e \<Rightarrow> Version) \<Rightarrow> ('e \<Rightarrow> nat option)
    \<Rightarrow> (PeerId \<times> 'e) list \<Rightarrow> PeerId saved \<times> (PeerId \<times> Version) list
    \<Rightarrow> PeerId saved \<times> (PeerId \<times> Version) list \<times> (PeerId \<times> 'e) list" where
  "select_news now reach dst ts ident ver upd entries = (\<lambda>(saved, unr).
     let (saved, unr, out) = news_loop now reach dst ts ident ver upd (rev entries) (saved, unr, [])
     in retain_loop now reach dst (map_of entries) unr (saved, [], out))"

definition build_route_info :: "nat \<Rightarrow> (PeerId \<Rightarrow> bool) \<Rightarrow> 'raw SyncedRouteInfo \<Rightarrow> SyncRouteSession
    \<Rightarrow> RoutePeerInfo list option \<times> SyncRouteSession" where
  "build_route_info now reach si s =
     (let (saved, unr, out) = select_news now reach (ss_dst_peer_id s) (last_sync_succ_timestamp s)
            (\<lambda>(_, info). peer_id info) version last_update (peer_infos si)
            (dst_saved_peer_info_versions s, unreachable_peers_for_peer_info s)
      in (if out = [] then None else Some (map snd out),
          s\<lparr>dst_saved_peer_info_versions := saved, unreachable_peers_for_peer_info := unr\<rparr>))"

definition to_conn_peer :: "PeerId \<times> RouteConnInfo \<Rightarrow> PeerConnInfo" where
  "to_conn_peer = (\<lambda>(p, c). \<lparr>pc_peer_id = Some \<lparr>pv_peer_id = p, pv_version = conn_version c\<rparr>,
     connected_peer_ids = sorted_list_of_set (connected_peers c)\<rparr>)"

text \<open>\<open>size_of\<close> of \<open>PeerIdVersion\<close> and of \<open>PeerId\<close> are 8 and 4 bytes.\<close>

definition build_conn_peer_list :: "nat \<Rightarrow> (PeerId \<Rightarrow> bool) \<Rightarrow> 'raw SyncedRouteInfo \<Rightarrow> SyncRouteSession
    \<Rightarrow> (PeerConnInfo list \<times> nat) option \<times> SyncRouteSession" where
  "build_conn_peer_list now reach si s =
     (let (saved, unr, out) = select_news now reach (ss_dst_peer_id s) (last_sync_succ_timestamp s)
            fst conn_version (\<lambda>c. Some (conn_last_update c)) (conn_map si)
            (dst_saved_conn_info_version s, unreachable_peers_for_conn_info s);
          estimated_size = sum_list (map (\<lambda>(_, c). 8 + card (connected_peers c) * 4) out)
      in (if out = [] then None else Some (map to_conn_peer out, estimated_size),
          s\<lparr>dst_saved_conn_info_version := saved, unreachable_peers_for_conn_info := unr\<rparr>))"

fun foreign_news :: "nat \<Rightarrow> PeerId \<Rightarrow> ForeignMap \<Rightarrow> ForeignNetworkRouteInfoKey saved
    \<Rightarrow> ForeignInfo list \<times> ForeignNetworkRouteInfoKey saved" where
  "foreign_news now dst [] saved = ([], saved)"
| "foreign_news now dst ((k, e) # es) saved =
     (let (up_to_date, saved) = check_saved now (fk_peer_id k = dst) k (fe_version e) saved;
          (out, saved) = foreign_news now dst es saved
      in (if up_to_date then out else (Some k, Some e) # out, saved))"

definition build_foreign_network_info :: "nat \<Rightarrow> 'raw SyncedRouteInfo \<Rightarrow> SyncRouteSession \<Rightarrow> ForeignInfo list option \<times> SyncRouteSession" where
  "build_foreign_network_info now si s =
     (let (out, saved) = foreign_news now (ss_dst_peer_id s) (foreign_network si) (dst_saved_foreign_network_versions s)
      in (if out = [] then None else Some out, s\<lparr>dst_saved_foreign_network_versions := saved\<rparr>))"

section \<open>What is selected\<close>

definition known :: "'k saved \<Rightarrow> bool \<Rightarrow> 'k \<Rightarrow> Version \<Rightarrow> bool" where
  "known saved is_dst k v \<longleftrightarrow> v = 0 \<or> is_dst \<or> (\<exists>x. saved k = Some x \<and> v \<le> vt_version x)"

definition versions :: "'k saved \<Rightarrow> 'k \<rightharpoonup> Version" where
  "versions saved k = map_option vt_version (saved k)"

lemma known_versions: "known saved d k v \<longleftrightarrow> v = 0 \<or> d \<or> (\<exists>x. versions saved k = Some x \<and> v \<le> x)"
  by (auto simp: known_def versions_def)

lemma check_saved_result: "fst (check_saved now d k v m) \<longleftrightarrow> known m d k v"
  by (auto simp: check_saved_def known_def split: option.split)

lemma check_saved_versions: "versions (snd (check_saved now d k v m)) = versions m"
  by (auto simp: check_saved_def versions_def fun_eq_iff split: option.split)

lemma check_saved_known: "known (snd (check_saved now d k v m)) = known m"
  by (simp add: fun_eq_iff known_versions check_saved_versions)

lemma versions_save: "versions (save_version now k v m) q =
   (if q = k then Some (max v (case versions m k of Some x \<Rightarrow> x | None \<Rightarrow> 0)) else versions m q)"
  by (auto simp: save_version_def versions_def set_if_larger_def max_def Let_def split: option.split)

lemma btree_insert_keeps: "x \<in> set m \<Longrightarrow> fst x \<noteq> k \<Longrightarrow> x \<in> set (btree_insert k v m)"
  by (induction k v m rule: btree_insert.induct) auto

lemma btree_insert_new: "(k, v) \<in> set (btree_insert k v m)"
  by (induction k v m rule: btree_insert.induct) auto

lemma btree_insert_subset: "set (btree_insert k v m) \<subseteq> insert (k, v) (set m)"
  by (induction k v m rule: btree_insert.induct) auto

definition outdated :: "nat option \<Rightarrow> ('e \<Rightarrow> nat option) \<Rightarrow> 'e \<Rightarrow> bool" where
  "outdated ts upd e \<longleftrightarrow> (\<exists>t u. ts = Some t \<and> upd e = Some u \<and> u < t)"

lemma outdated_case: "(case upd e of Some u \<Rightarrow> (case ts of Some t \<Rightarrow> u < t | None \<Rightarrow> False) | None \<Rightarrow> False) \<longleftrightarrow> outdated ts upd e"
  by (auto simp: outdated_def split: option.split)

lemma subset_chain: "X \<subseteq> Y \<union> B \<Longrightarrow> Y \<subseteq> Z \<union> A \<Longrightarrow> A \<union> B \<subseteq> C \<Longrightarrow> X \<subseteq> Z \<union> C"
  by blast

text \<open>One round of the first loop.\<close>

lemma news_loop_step:
  "news_loop now reach dst ts ident ver upd ((p, e) # es) (saved, unr, out) =
     (if outdated ts upd e then (saved, unr, out)
      else news_loop now reach dst ts ident ver upd es
        (let saved' = snd (check_saved now (ident (p, e) = dst) (ident (p, e)) (ver e) saved) in
         if known saved (ident (p, e) = dst) (ident (p, e)) (ver e) then (saved', unr, out)
         else if \<not> reach p then (saved', btree_insert p (ver e) unr, out)
         else (saved', unr, out @ [(p, e)])))"
  by (simp add: outdated_case Let_def case_prod_beta check_saved_result)

declare news_loop.simps(2) [simp del]
declare news_loop_step [simp]

lemma news_loop_sound:
  assumes "news_loop now reach dst ts ident ver upd es (saved, unr, out) = (saved', unr', out')"
  shows "versions saved' = versions saved \<and> set out \<subseteq> set out' \<and> set out' \<subseteq> set out \<union> {x \<in> set es. reach (fst x) \<and> \<not> known saved (ident x = dst) (ident x) (ver (snd x))} \<and>
    set unr' \<subseteq> set unr \<union> {(p, ver e) | p e. (p, e) \<in> set es \<and> \<not> reach p} \<and>
    (\<forall>x \<in> set unr. (\<forall>y \<in> set es. outdated ts upd (snd y) \<or> fst y \<noteq> fst x) \<longrightarrow> x \<in> set unr')"
  using assms
proof (induction es arbitrary: saved unr out)
  case (Cons x es)
  obtain p e where x: "x = (p, e)" by (cases x)
  show ?case
  proof (cases "outdated ts upd e")
    case False
    define st where "st = (let saved' = snd (check_saved now (ident (p, e) = dst) (ident (p, e)) (ver e) saved) in
         if known saved (ident (p, e) = dst) (ident (p, e)) (ver e) then (saved', unr, out)
         else if \<not> reach p then (saved', btree_insert p (ver e) unr, out)
         else (saved', unr, out @ [(p, e)]))"
    obtain s1 u1 o1 where st1: "st = (s1, u1, o1)" by (cases st) auto
    have "news_loop now reach dst ts ident ver upd es (s1, u1, o1) = (saved', unr', out')"
      using Cons.prems False by (simp add: x st_def [symmetric] st1)
    note ih = Cons.IH [OF this]
    have v: "versions s1 = versions saved" and o: "set out \<subseteq> set o1"
        "set o1 \<subseteq> set out \<union> {x. x = (p, e) \<and> reach p \<and> \<not> known saved (ident x = dst) (ident x) (ver e)}"
      and u: "\<forall>x \<in> set unr. fst x \<noteq> p \<longrightarrow> x \<in> set u1" "set u1 \<subseteq> set unr \<union> {y. y = (p, ver e) \<and> \<not> reach p}"
      using st1 btree_insert_subset [of p "ver e" unr]
      by (auto simp: st_def Let_def check_saved_versions btree_insert_keeps split: if_splits)
    have kn: "known s1 = known saved" using v by (simp add: fun_eq_iff known_versions)
    have "set unr' \<subseteq> set unr \<union> {(p, ver e) | p e. (p, e) \<in> set (x # es) \<and> \<not> reach p}"
      by (rule subset_chain [OF ih [THEN conjunct2, THEN conjunct2, THEN conjunct2, THEN conjunct1] u(2)]) (auto simp: x)
    moreover have "set out' \<subseteq> set out \<union> {y \<in> set (x # es). reach (fst y) \<and> \<not> known saved (ident y = dst) (ident y) (ver (snd y))}"
      using ih o(2) unfolding kn x by auto
    ultimately show ?thesis using ih v o(1) u(1) False by (auto simp: x)
  qed (use Cons.prems in \<open>auto simp: x\<close>)
qed simp

lemma news_loop_complete:
  assumes "news_loop now reach dst ts ident ver upd es (saved, unr, out) = (saved', unr', out')"
    and "keys_distinct es" and "sorted_wrt (\<lambda>x y. outdated ts upd (snd x) \<longrightarrow> outdated ts upd (snd y)) es"
    and "(p, e) \<in> set es" and "\<not> outdated ts upd e" and "\<not> known saved (ident (p, e) = dst) (ident (p, e)) (ver e)"
  shows "if reach p then (p, e) \<in> set out' else (p, ver e) \<in> set unr'"
  using assms
proof (induction es arbitrary: saved unr out)
  case (Cons x es)
  obtain q f where x: "x = (q, f)" by (cases x)
  have nout: "\<not> outdated ts upd f" using Cons.prems(3,4,5) x by auto
  define st where "st = (let saved' = snd (check_saved now (ident (q, f) = dst) (ident (q, f)) (ver f) saved) in
       if known saved (ident (q, f) = dst) (ident (q, f)) (ver f) then (saved', unr, out)
       else if \<not> reach q then (saved', btree_insert q (ver f) unr, out)
       else (saved', unr, out @ [(q, f)]))"
  obtain s1 u1 o1 where st1: "st = (s1, u1, o1)" by (cases st) auto
  have l: "news_loop now reach dst ts ident ver upd es (s1, u1, o1) = (saved', unr', out')"
    using Cons.prems(1) nout by (simp add: x st_def [symmetric] st1)
  have k: "known s1 = known saved" using st1 by (auto simp: st_def Let_def check_saved_known split: if_splits)
  show ?case
  proof (cases "(p, e) = (q, f)")
    case True
    then have "if reach p then (p, e) \<in> set o1 else (p, ver e) \<in> set u1"
      using st1 Cons.prems(6) by (auto simp: st_def Let_def btree_insert_new split: if_splits)
    moreover have "\<forall>y \<in> set es. outdated ts upd (snd y) \<or> fst y \<noteq> p" using Cons.prems(2) True x by force
    ultimately show ?thesis using news_loop_sound [OF l] by auto
  next
    case False
    then show ?thesis using Cons.IH [OF l] Cons.prems(2-6) x k by auto
  qed
qed simp

lemma retain_loop_spec:
  assumes "retain_loop now reach dst lookup us (saved, kept, out) = (saved', kept', out')"
  shows "versions saved' = versions saved \<and> set kept \<subseteq> set kept' \<and> set out \<subseteq> set out' \<and>
    set kept' \<subseteq> set kept \<union> set us \<and>
    set out' \<subseteq> set out \<union> {x. lookup (fst x) = Some (snd x) \<and> reach (fst x) \<and> (\<exists>v. (fst x, v) \<in> set us \<and> \<not> known saved (fst x = dst) (fst x) v)} \<and>
    (\<forall>p v e. (p, v) \<in> set us \<longrightarrow> lookup p = Some e \<longrightarrow> known saved (p = dst) p v \<or> (p, v) \<in> set kept' \<and> (reach p \<longrightarrow> (p, e) \<in> set out'))"
  using assms
proof (induction us arbitrary: saved kept out)
  case (Cons u us)
  obtain q w where u: "u = (q, w)" by (cases u)
  define s1 where "s1 = snd (check_saved now (q = dst) q w saved)"
  define st where "st = (if known saved (q = dst) q w then (s1, kept, out)
         else case lookup q of None \<Rightarrow> (s1, kept, out) | Some e \<Rightarrow> (s1, kept @ [(q, w)], if reach q then out @ [(q, e)] else out))"
  obtain s2 k2 o2 where st2: "st = (s2, k2, o2)" by (cases st) auto
  have "retain_loop now reach dst lookup us (s2, k2, o2) = (saved', kept', out')"
    using Cons.prems by (simp add: u case_prod_beta check_saved_result s1_def [symmetric] st_def [symmetric] st2)
  note ih = Cons.IH [OF this]
  have "versions s2 = versions saved" using st2 by (auto simp: st_def s1_def check_saved_versions split: if_splits option.splits)
  then have kn: "known s2 = known saved" by (simp add: fun_eq_iff known_versions)
  have here: "known saved (q = dst) q w \<or> (q, w) \<in> set k2 \<and> (reach q \<longrightarrow> (q, e) \<in> set o2)" if "lookup q = Some e" for e
    using st2 that by (auto simp: st_def split: if_splits)
  have mono: "set kept \<subseteq> set k2" "set out \<subseteq> set o2" "set k2 \<subseteq> insert (q, w) (set kept)"
      "set o2 \<subseteq> set out \<union> {x. lookup (fst x) = Some (snd x) \<and> reach (fst x) \<and> fst x = q \<and> \<not> known saved (q = dst) q w}"
    using st2 by (auto simp: st_def split: if_splits option.splits)
  have "known saved (p = dst) p v \<or> (p, v) \<in> set kept' \<and> (reach p \<longrightarrow> (p, e) \<in> set out')"
    if "(p, v) \<in> set (u # us)" "lookup p = Some e" for p v e
  proof (cases "(p, v) = (q, w)")
    case True
    then show ?thesis using here [of e] that ih by auto
  next
    case False
    then have "(p, v) \<in> set us" using that(1) u by auto
    then show ?thesis using ih that(2) unfolding kn by blast
  qed
  moreover have "set kept \<subseteq> set kept'" "set out \<subseteq> set out'" using mono ih by blast+
  moreover have "set kept' \<subseteq> set kept \<union> set (u # us)" using mono(3) ih u by auto
  moreover have "set out' \<subseteq> set out \<union> {x. lookup (fst x) = Some (snd x) \<and> reach (fst x) \<and>
      (\<exists>v. (fst x, v) \<in> set (u # us) \<and> \<not> known saved (fst x = dst) (fst x) v)}"
    by (rule subset_chain [OF ih [unfolded kn, THEN conjunct2, THEN conjunct2, THEN conjunct2, THEN conjunct2, THEN conjunct1] mono(4)]) (auto simp: u)
  ultimately show ?case using ih \<open>versions s2 = versions saved\<close> by simp
qed simp

text \<open>
  Everything that was not updated since the last successful exchange is known to the neighbour or waits
  among the unreachable peers.
\<close>

definition covered :: "PeerId \<Rightarrow> nat option \<Rightarrow> ('e \<Rightarrow> Version) \<Rightarrow> ('e \<Rightarrow> nat option) \<Rightarrow> (PeerId \<times> 'e) list \<Rightarrow> PeerId saved
    \<Rightarrow> (PeerId \<times> Version) list \<Rightarrow> bool" where
  "covered dst ts ver upd es saved unr \<longleftrightarrow>
     (\<forall>(p, e)\<in>set es. outdated ts upd e \<longrightarrow> known saved (p = dst) p (ver e) \<or> (p, ver e) \<in> set unr)"

text \<open>Saving the versions of a list of entries.\<close>

definition save_all :: "nat \<Rightarrow> ('k \<Rightarrow> bool) \<Rightarrow> ('k \<times> Version) list \<Rightarrow> 'k saved \<Rightarrow> 'k saved" where
  "save_all now skip kvs m = fold (\<lambda>(k, v) m. if skip k then m else save_version now k v m) kvs m"

lemma known_save: "known m d k v \<Longrightarrow> known (save_version now q w m) d k v"
  by (auto simp: known_versions versions_save max_def split: option.splits)

lemma save_all_mono: "known m d k v \<Longrightarrow> known (save_all now skip kvs m) d k v"
  unfolding save_all_def by (induction kvs arbitrary: m) (auto simp: known_save split: prod.split)

lemma save_all_known: "(k, v) \<in> set kvs \<Longrightarrow> known (save_all now skip kvs m) (skip k) k v"
proof (induction kvs arbitrary: m)
  case (Cons x kvs)
  show ?case
  proof (cases "x = (k, v)")
    case True
    have "known (if skip k then m else save_version now k v m) (skip k) k v"
      by (auto simp: known_versions versions_save max_def)
    from save_all_mono [OF this, of now skip kvs] show ?thesis using True by (simp add: save_all_def)
  next
    case False
    then show ?thesis using Cons by (auto simp: save_all_def)
  qed
qed simp

lemma save_all_source: "versions (save_all now skip kvs m) q = Some y \<Longrightarrow> versions m q = Some y \<or> (q, y) \<in> set kvs"
proof (induction kvs arbitrary: m)
  case (Cons x kvs)
  obtain k v where x: "x = (k, v)" by (cases x)
  let ?m = "if skip k then m else save_version now k v m"
  have "versions (save_all now skip kvs ?m) q = Some y" using Cons.prems by (simp add: save_all_def x)
  then have "versions ?m q = Some y \<or> (q, y) \<in> set kvs" by (rule Cons.IH)
  then show ?case by (auto simp: x versions_save max_def split: if_splits option.splits)
qed (simp add: save_all_def)

text \<open>
  A session is in step with the neighbour, which has the versions \<open>theirs\<close>: nothing that is not new is forgotten,
  the versions of unreachable peers are not ahead, and the neighbour has what it is believed to have.
\<close>

definition in_step :: "PeerId \<Rightarrow> nat option \<Rightarrow> ('e \<Rightarrow> Version) \<Rightarrow> ('e \<Rightarrow> nat option) \<Rightarrow> (PeerId \<times> 'e) list \<Rightarrow> (PeerId \<Rightarrow> Version)
    \<Rightarrow> PeerId saved \<Rightarrow> (PeerId \<times> Version) list \<Rightarrow> bool" where
  "in_step dst ts ver upd es theirs saved unr \<longleftrightarrow> covered dst ts ver upd es saved unr \<and>
     (\<forall>p v e. (p, v) \<in> set unr \<longrightarrow> (p, e) \<in> set es \<longrightarrow> v \<le> ver e) \<and>
     (\<forall>q y. versions saved q = Some y \<longrightarrow> y \<le> theirs q)"

text \<open>
  The interface of a store that is synced to neighbours: one entry per peer, under the id of the peer, with the
  most recently updated entries last (the order of \<open>OrderedHashMap\<close> that the early exit of the loop needs).
\<close>

locale synced_store =
  fixes entries :: "'s \<Rightarrow> (PeerId \<times> 'e) list" and ident :: "PeerId \<times> 'e \<Rightarrow> PeerId" and ver :: "'e \<Rightarrow> Version"
    and upd :: "'e \<Rightarrow> nat option" and wf :: "'s \<Rightarrow> bool"
  assumes one_entry: "wf s \<Longrightarrow> keys_distinct (entries s)"
    and own_id: "wf s \<Longrightarrow> (p, e) \<in> set (entries s) \<Longrightarrow> ver e = 0 \<or> ident (p, e) = p"
    and recent_last: "wf s \<Longrightarrow> sorted_wrt (\<lambda>x y. \<exists>u v. upd (snd x) = Some u \<and> upd (snd y) = Some v \<and> u \<le> v) (entries s)"
begin

lemma outdated_suffix:
  assumes "wf s"
  shows "sorted_wrt (\<lambda>x y. outdated ts upd (snd x) \<longrightarrow> outdated ts upd (snd y)) (rev (entries s))"
proof -
  have "sorted_wrt (\<lambda>x y. outdated ts upd (snd y) \<longrightarrow> outdated ts upd (snd x)) (entries s)"
    by (rule sorted_wrt_mono_rel [OF _ recent_last [OF assms]]) (auto simp: outdated_def)
  then show ?thesis by (simp add: sorted_wrt_rev)
qed

lemma known_ident: "wf s \<Longrightarrow> (p, e) \<in> set (entries s) \<Longrightarrow> known saved (ident (p, e) = dst) (ident (p, e)) (ver e) = known saved (p = dst) p (ver e)"
  using own_id [of s p e] by (auto simp: known_def)

lemma select_news_complete:
  assumes wf: "wf s" and cov: "covered dst ts ver upd (entries s) saved unr"
    and sel: "select_news now reach dst ts ident ver upd (entries s) (saved, unr) = (saved', unr', out)"
  shows "versions saved' = versions saved" and "set out \<subseteq> {x \<in> set (entries s). reach (fst x)}"
    and "(p, e) \<in> set (entries s) \<Longrightarrow> known saved (p = dst) p (ver e) \<or> (if reach p then (p, e) \<in> set out else (p, ver e) \<in> set unr')"
proof -
  obtain s1 u1 o1 where 1: "news_loop now reach dst ts ident ver upd (rev (entries s)) (saved, unr, []) = (s1, u1, o1)"
    by (cases "news_loop now reach dst ts ident ver upd (rev (entries s)) (saved, unr, [])") auto
  have 2: "retain_loop now reach dst (map_of (entries s)) u1 (s1, [], o1) = (saved', unr', out)"
    using sel by (simp add: select_news_def 1)
  note n = news_loop_sound [OF 1] and r = retain_loop_spec [OF 2]
  have lk: "map_of (entries s) p = Some e \<longleftrightarrow> (p, e) \<in> set (entries s)" for p e
    using one_entry [OF wf] by (rule map_of_eq_Some_iff)
  show "versions saved' = versions saved" using n r by simp
  then have kn: "known s1 = known saved" using n by (simp add: fun_eq_iff known_versions)
  show "set out \<subseteq> {x \<in> set (entries s). reach (fst x)}" using n r lk by auto
  show "known saved (p = dst) p (ver e) \<or> (if reach p then (p, e) \<in> set out else (p, ver e) \<in> set unr')" if pe: "(p, e) \<in> set (entries s)"
  proof (cases "known saved (p = dst) p (ver e)")
    case False
    have "(p, ver e) \<in> set u1 \<or> reach p \<and> (p, e) \<in> set o1"
    proof (cases "outdated ts upd e")
      case True
      then have "(p, ver e) \<in> set unr" using cov pe False by (auto simp: covered_def)
      moreover have "\<forall>y\<in>set (rev (entries s)). outdated ts upd (snd y) \<or> fst y \<noteq> p"
        using True pe lk by (metis prod.collapse set_rev option.inject)
      ultimately show ?thesis using n by auto
    next
      case nout: False
      have "keys_distinct (rev (entries s))" using one_entry [OF wf] by (simp add: rev_map [symmetric])
      from news_loop_complete [OF 1 this outdated_suffix [OF wf] _ nout, of p] show ?thesis
        using pe False by (simp add: known_ident [OF wf pe] split: if_splits)
    qed
    moreover have "(p, ver e) \<in> set u1 \<longrightarrow> (p, ver e) \<in> set unr' \<and> (reach p \<longrightarrow> (p, e) \<in> set out)"
      using r lk [of p e] pe False unfolding kn by blast
    moreover have "set o1 \<subseteq> set out" using r by blast
    ultimately show ?thesis by auto
  qed simp
qed

lemma select_news_out:
  assumes wf: "wf s" and sel: "select_news now reach dst ts ident ver upd (entries s) (saved, unr) = (saved', unr', out)"
  shows "set unr' \<subseteq> set unr \<union> {(p, ver e) | p e. (p, e) \<in> set (entries s) \<and> \<not> reach p}"
    and "(p, e) \<in> set out \<Longrightarrow> (p, e) \<in> set (entries s) \<and> reach p \<and>
      (\<not> known saved (p = dst) p (ver e) \<or> (\<exists>v. (p, v) \<in> set unr \<and> \<not> known saved (p = dst) p v))"
proof -
  obtain s1 u1 o1 where 1: "news_loop now reach dst ts ident ver upd (rev (entries s)) (saved, unr, []) = (s1, u1, o1)"
    by (cases "news_loop now reach dst ts ident ver upd (rev (entries s)) (saved, unr, [])") auto
  have 2: "retain_loop now reach dst (map_of (entries s)) u1 (s1, [], o1) = (saved', unr', out)"
    using sel by (simp add: select_news_def 1)
  note n = news_loop_sound [OF 1] and r = retain_loop_spec [OF 2]
  have u1: "set u1 \<subseteq> set unr \<union> {(p, ver e) | p e. (p, e) \<in> set (entries s) \<and> \<not> reach p}" using n by simp
  then show "set unr' \<subseteq> set unr \<union> {(p, ver e) | p e. (p, e) \<in> set (entries s) \<and> \<not> reach p}" using r by auto
  have kn: "known s1 = known saved" using n by (simp add: fun_eq_iff known_versions)
  show "(p, e) \<in> set (entries s) \<and> reach p \<and> (\<not> known saved (p = dst) p (ver e) \<or> (\<exists>v. (p, v) \<in> set unr \<and> \<not> known saved (p = dst) p v))"
    if pe: "(p, e) \<in> set out"
  proof -
    consider "(p, e) \<in> set o1" | v where "(p, e) \<in> set (entries s)" "reach p" "(p, v) \<in> set u1" "\<not> known saved (p = dst) p v"
    proof (cases "(p, e) \<in> set o1")
      case False
      then have "(p, e) \<in> {x. map_of (entries s) (fst x) = Some (snd x) \<and> reach (fst x) \<and> (\<exists>v. (fst x, v) \<in> set u1 \<and> \<not> known saved (fst x = dst) (fst x) v)}"
        using subsetD [OF r [unfolded kn, THEN conjunct2, THEN conjunct2, THEN conjunct2, THEN conjunct2, THEN conjunct1] pe] by blast
      then show ?thesis using that(2) by (auto dest: map_of_SomeD)
    qed
    then show ?thesis
    proof cases
      case 1
      then show ?thesis using n known_ident [OF wf, of p e saved dst] by auto
    next
      case 2
      then show ?thesis using u1 by auto
    qed
  qed
qed

text \<open>
  A round that delivers the selected entries: the session stays in step, the neighbour has everything
  reachable, and nothing is left to send.
\<close>

lemma round:
  assumes wf: "wf s" and step: "in_step dst ts ver upd (entries s) theirs saved unr"
    and sel: "select_news now reach dst ts ident ver upd (entries s) (saved, unr) = (saved', unr', out)"
    and sent: "\<forall>q. theirs q \<le> theirs' q" "\<forall>(p, e)\<in>set out. ver e \<le> theirs' p"
    and s2: "saved2 = save_all now2 (\<lambda>p. p = dst) (map (\<lambda>x. (ident x, ver (snd x))) out) saved'"
  shows "in_step dst ts' ver upd (entries s) theirs' saved2 unr'"
    and "(p, e) \<in> set (entries s) \<Longrightarrow> reach p \<Longrightarrow> p \<noteq> dst \<Longrightarrow> ver e \<le> theirs' p"
    and "select_news now3 reach dst ts' ident ver upd (entries s) (saved2, unr') = (saved3, unr3, out3) \<Longrightarrow> out3 = []"
proof -
  have cov: "covered dst ts ver upd (entries s) saved unr" using step by (simp add: in_step_def)
  note c = select_news_complete [OF wf cov sel] and o = select_news_out [OF wf sel]
  have out: "(p, e) \<in> set out \<Longrightarrow> (p, e) \<in> set (entries s)" for p e using c(2) by auto
  have kn': "known saved' = known saved" using c(1) by (simp add: fun_eq_iff known_versions)
  have k2: "known saved2 (p = dst) p (ver e)" if "(p, e) \<in> set out" for p e
  proof -
    have "known saved2 (ident (p, e) = dst) (ident (p, e)) (ver e)" unfolding s2
      by (rule save_all_known [where skip = "\<lambda>p. p = dst"]) (use that in force)
    then show ?thesis using known_ident [OF wf out [OF that]] by simp
  qed
  have all: "known saved2 (p = dst) p (ver e) \<or> \<not> reach p \<and> (p, ver e) \<in> set unr'" if "(p, e) \<in> set (entries s)" for p e
    using c(3) [OF that] k2 [of p e] save_all_mono [of saved' "p = dst" p "ver e" now2 "\<lambda>p. p = dst"] unfolding kn' s2
    by (auto split: if_splits)
  have le: "v \<le> ver e" if "(p, v) \<in> set unr'" "(p, e) \<in> set (entries s)" for p v e
  proof -
    consider "(p, v) \<in> set unr" | e' where "(p, e') \<in> set (entries s)" "v = ver e'" using o(1) \<open>(p, v) \<in> set unr'\<close> by auto
    then show ?thesis
    proof cases
      case 1
      then show ?thesis using step that(2) by (auto simp: in_step_def)
    next
      case 2
      then show ?thesis using that(2) one_entry [OF wf] by (metis eq_key_imp_eq_value order_refl)
    qed
  qed
  have have_it: "y \<le> theirs' q" if "versions saved2 q = Some y" for q y
  proof -
    from save_all_source [OF that [unfolded s2]] consider "versions saved q = Some y" | x where "x \<in> set out" "q = ident x" "y = ver (snd x)"
      using c(1) by auto
    then show ?thesis
    proof cases
      case 1
      then have "y \<le> theirs q" using step by (simp add: in_step_def)
      then show ?thesis using sent(1) by (metis order_trans)
    next
      case 2
      obtain p e where x: "x = (p, e)" by (cases x)
      then have "y = 0 \<or> q = p" using own_id [OF wf out, of p e] 2 by auto
      then show ?thesis using sent(2) 2 x by auto
    qed
  qed
  show "in_step dst ts' ver upd (entries s) theirs' saved2 unr'"
    unfolding in_step_def covered_def using all le have_it by auto
  show "ver e \<le> theirs' p" if "(p, e) \<in> set (entries s)" "reach p" "p \<noteq> dst"
    using all [OF that(1)] that have_it [of p] by (auto simp: known_versions)
  show "out3 = []" if sel3: "select_news now3 reach dst ts' ident ver upd (entries s) (saved2, unr') = (saved3, unr3, out3)"
  proof (rule ccontr)
    assume "out3 \<noteq> []"
    then obtain p e where pe: "(p, e) \<in> set out3" by (metis list.set_intros(1) neq_Nil_conv prod.collapse)
    from select_news_out(2) [OF wf sel3 this] all [of p e] obtain v where "(p, v) \<in> set unr'" "\<not> known saved2 (p = dst) p v" "known saved2 (p = dst) p (ver e)"
        "(p, e) \<in> set (entries s)" by blast
    then show False using le [of p v e] by (auto simp: known_versions)
  qed
qed

end

text \<open>Both stores of \<open>SyncedRouteInfo\<close> that are selected this way provide the interface.\<close>

definition infos_wf :: "'raw SyncedRouteInfo \<Rightarrow> bool" where
  "infos_wf si \<longleftrightarrow> keys_distinct (peer_infos si) \<and> (\<forall>(p, i)\<in>set (peer_infos si). version i = 0 \<or> peer_id i = p) \<and>
     sorted_wrt (\<lambda>x y. \<exists>u v. last_update (snd x) = Some u \<and> last_update (snd y) = Some v \<and> u \<le> v) (peer_infos si)"

definition conns_wf :: "'raw SyncedRouteInfo \<Rightarrow> bool" where
  "conns_wf si \<longleftrightarrow> keys_distinct (conn_map si) \<and> sorted_wrt (\<lambda>x y. conn_last_update (snd x) \<le> conn_last_update (snd y)) (conn_map si)"

interpretation peer_news: synced_store peer_infos "\<lambda>(_, info). peer_id info" version last_update infos_wf
  by unfold_locales (auto simp: infos_wf_def)

interpretation conn_news: synced_store conn_map fst conn_version "\<lambda>c. Some (conn_last_update c)" conns_wf
  by unfold_locales (auto simp: conns_wf_def)

end
