(* ===== verification/Route_Service.thy ===== *)
theory Route_Service
  imports Route_Session Route_Table
begin

text \<open>
  \<open>peers/peer_ospf_route.rs\<close>, \<open>PeerRouteServiceImpl\<close> and \<open>RouteSessionManager\<close>: the state of the route service, the
  exchange of route information with a neighbour (the request, its handler and the response) and the
  maintenance of the own entries. Parameters: the crates behind \<open>RouteTable\<close> and the trust checks, the
  interface to the peers, and the callback of the public IPv6 service.
\<close>

datatype PeerIdentityType = Admin | Credential | SharedNode

record ('raw, 'val, 'c4, 'c6) route_env =
  env_cidr :: "('c4, 'c6) cidr_ops"
  env_dijkstra :: petgraph_dijkstra
  env_pop :: "(u64 \<times> nat) list \<Rightarrow> ((u64 \<times> nat) \<times> (u64 \<times> nat) list) option"
  env_trust :: "('raw, 'val) trust_api"
  env_raw_id :: "'raw \<Rightarrow> u32 option"
  env_transcode :: "RoutePeerInfo \<Rightarrow> 'raw"
  env_set_field :: "'raw \<Rightarrow> string \<Rightarrow> 'val \<Rightarrow> 'raw"
  env_version :: string
  env_network_name :: string
  env_network_secret :: "string option"
  env_group_declarations :: "(string \<times> string) list"
  env_is_public_server :: bool

record route_interface =
  if_list_peers :: "PeerId list"
  if_need_periodic_requery :: bool
  if_public_key :: "PeerId \<Rightarrow> bytes option"
  if_identity_type :: "PeerId \<Rightarrow> PeerIdentityType option"
  if_foreign_networks :: ForeignMap

record InterfacePeerSnapshot =
  generation :: u64
  peers :: "PeerId set"
  identity_types :: "PeerId \<rightharpoonup> PeerIdentityType option"

text \<open>The keys of the owner map are the name and the digest of a network, which is what their equality compares.\<close>

record ('raw, 'c4, 'c6) PeerRouteServiceImpl =
  my_peer_id :: PeerId
  my_peer_route_id :: u64
  sessions :: "(PeerId \<times> SyncRouteSession) list"
  cost_calculator :: cost_calculator
  route_table :: "('c4, 'c6) RouteTable"
  route_table_with_cost :: "('c4, 'c6) RouteTable"
  foreign_network_owner_map :: "string \<times> bytes \<Rightarrow> PeerId list"
  foreign_network_my_peer_id_map :: "string \<times> PeerId \<rightharpoonup> PeerId"
  synced_route_info :: "'raw SyncedRouteInfo"
  self_public_ipv6_addr_lease :: "Ipv6InetPb option"
  cached_local_conn_map :: RouteConnBitmap
  cached_local_conn_map_version :: Version
  cached_interface_peer_snapshot :: InterfacePeerSnapshot
  interface_peers_generation :: u64
  applied_interface_peers_generation :: u64
  last_update_my_foreign_network :: "nat option"
  peer_info_last_update :: nat
  network_trusted_keys :: TrustedKeyMapManager

definition service_new :: "PeerId \<Rightarrow> u64 \<Rightarrow> nat \<Rightarrow> ('raw, 'c4, 'c6) PeerRouteServiceImpl" where
  "service_new my random now = \<lparr>my_peer_id = my, my_peer_route_id = random, sessions = [],
     cost_calculator = DefaultRouteCostCalculator, route_table = route_table_new, route_table_with_cost = route_table_new,
     foreign_network_owner_map = (\<lambda>_. []), foreign_network_my_peer_id_map = Map.empty, synced_route_info = empty_info,
     self_public_ipv6_addr_lease = None, cached_local_conn_map = \<lparr>peer_ids = [], bitmap = []\<rparr>, cached_local_conn_map_version = 0,
     cached_interface_peer_snapshot = \<lparr>generation = 0, peers = {}, identity_types = Map.empty\<rparr>, interface_peers_generation = 1,
     applied_interface_peers_generation = 0, last_update_my_foreign_network = None, peer_info_last_update = now,
     network_trusted_keys = Map.empty\<rparr>"

definition is_active_non_reusable_credential_peer :: "('raw, 'c4, 'c6) PeerRouteServiceImpl \<Rightarrow> PeerId \<Rightarrow> bool" where
  "is_active_non_reusable_credential_peer sv p \<longleftrightarrow>
     p = my_peer_id sv \<or> map_of (sessions sv) p \<noteq> None \<or> peer_reachable (route_table sv) p"

section \<open>Sessions\<close>

definition get_session :: "('raw, 'c4, 'c6) PeerRouteServiceImpl \<Rightarrow> PeerId \<Rightarrow> SyncRouteSession option" where
  "get_session sv dst = map_of (sessions sv) dst"

definition put_session :: "SyncRouteSession \<Rightarrow> ('raw, 'c4, 'c6) PeerRouteServiceImpl \<Rightarrow> ('raw, 'c4, 'c6) PeerRouteServiceImpl" where
  "put_session s sv = sv\<lparr>sessions := AList.update (ss_dst_peer_id s) s (sessions sv)\<rparr>"

definition get_or_create_session :: "u64 \<Rightarrow> PeerId \<Rightarrow> ('raw, 'c4, 'c6) PeerRouteServiceImpl
    \<Rightarrow> SyncRouteSession \<times> ('raw, 'c4, 'c6) PeerRouteServiceImpl" where
  "get_or_create_session random dst sv = (case map_of (sessions sv) dst of
     Some s \<Rightarrow> (s, sv)
   | None \<Rightarrow> (sync_session_new random dst, sv\<lparr>sessions := AList.update dst (sync_session_new random dst) (sessions sv)\<rparr>))"

definition remove_session :: "PeerId \<Rightarrow> ('raw, 'c4, 'c6) PeerRouteServiceImpl \<Rightarrow> ('raw, 'c4, 'c6) PeerRouteServiceImpl" where
  "remove_session dst sv = sv\<lparr>sessions := AList.delete dst (sessions sv)\<rparr>"

section \<open>The peers of the interface\<close>

definition mark_interface_peers_dirty :: "('raw, 'c4, 'c6) PeerRouteServiceImpl \<Rightarrow> ('raw, 'c4, 'c6) PeerRouteServiceImpl" where
  "mark_interface_peers_dirty sv = sv\<lparr>interface_peers_generation := interface_peers_generation sv + 1\<rparr>"

definition interface_peer_snapshot_uncached :: "route_interface \<Rightarrow> InterfacePeerSnapshot" where
  "interface_peer_snapshot_uncached ifc = \<lparr>generation = 0, peers = set (if_list_peers ifc),
     identity_types = (\<lambda>p. if p \<in> set (if_list_peers ifc) then Some (if_identity_type ifc p) else None)\<rparr>"

text \<open>The generation does not change during a call, so the first attempt of the loop succeeds.\<close>

definition interface_peer_snapshot :: "route_interface \<Rightarrow> ('raw, 'c4, 'c6) PeerRouteServiceImpl
    \<Rightarrow> InterfacePeerSnapshot \<times> ('raw, 'c4, 'c6) PeerRouteServiceImpl" where
  "interface_peer_snapshot ifc sv =
     (if generation (cached_interface_peer_snapshot sv) = interface_peers_generation sv
      then (cached_interface_peer_snapshot sv, sv)
      else let snap = (interface_peer_snapshot_uncached ifc)\<lparr>generation := interface_peers_generation sv\<rparr>
        in (snap, sv\<lparr>cached_interface_peer_snapshot := snap\<rparr>))"

definition get_peer_identity_type_from_interface :: "route_interface \<Rightarrow> PeerId \<Rightarrow> ('raw, 'c4, 'c6) PeerRouteServiceImpl
    \<Rightarrow> PeerIdentityType option \<times> ('raw, 'c4, 'c6) PeerRouteServiceImpl" where
  "get_peer_identity_type_from_interface ifc p sv =
     (let (snap, sv) = interface_peer_snapshot ifc sv
      in (case identity_types snap p of Some t \<Rightarrow> t | None \<Rightarrow> if_identity_type ifc p, sv))"

section \<open>Route tables and the bitmap of connections\<close>

definition update_route_table :: "('raw, 'val, 'c4, 'c6) route_env \<Rightarrow> ('raw, 'c4, 'c6) PeerRouteServiceImpl
    \<Rightarrow> ('raw, 'c4, 'c6) PeerRouteServiceImpl may_panic" where
  "update_route_table env sv = do {
     rt \<leftarrow> build_from_synced_info (env_cidr env) (env_dijkstra env) (env_pop env) (my_peer_id sv) (synced_route_info sv)
       LeastHop (cost_calculator sv) (route_table sv);
     rtc \<leftarrow> build_from_synced_info (env_cidr env) (env_dijkstra env) (env_pop env) (my_peer_id sv) (synced_route_info sv)
       LeastCost (cost_calculator sv) (route_table_with_cost sv);
     Some (sv\<lparr>route_table := rt, route_table_with_cost := rtc\<rparr>) }"

text \<open>A digest of another length than 32 becomes the default array.\<close>

definition to_digest :: "bytes \<Rightarrow> bytes" where
  "to_digest d = (if length d = 32 then d else replicate 32 0)"

definition update_foreign_network_owner_map :: "('raw, 'c4, 'c6) PeerRouteServiceImpl \<Rightarrow> ('raw, 'c4, 'c6) PeerRouteServiceImpl" where
  "update_foreign_network_owner_map sv =
     fold (\<lambda>(key, e) sv.
       if fk_peer_id key = my_peer_id sv \<or> \<not> peer_reachable (route_table sv) (fk_peer_id key) \<or> foreign_peer_ids e = [] then sv
       else let ni = (fk_network_name key, to_digest (network_secret_digest e)) in
         sv\<lparr>foreign_network_owner_map := (foreign_network_owner_map sv)(ni := foreign_network_owner_map sv ni @ [my_peer_id_for_this_network e]),
            foreign_network_my_peer_id_map :=
              (foreign_network_my_peer_id_map sv)((fk_network_name key, my_peer_id_for_this_network e) \<mapsto> fk_peer_id key)\<rparr>)
       (foreign_network (synced_route_info sv))
       (sv\<lparr>foreign_network_my_peer_id_map := Map.empty, foreign_network_owner_map := (\<lambda>_. [])\<rparr>)"

definition add_to_all_peer_ids :: "PeerId \<Rightarrow> Version \<Rightarrow> (PeerId \<times> Version) list \<Rightarrow> (PeerId \<times> Version) list" where
  "add_to_all_peer_ids p v m = (case map_of m p of
     Some x \<Rightarrow> if x < v then btree_insert p v m else m
   | None \<Rightarrow> btree_insert p v m)"

definition collect_conn :: "(PeerId \<Rightarrow> bool) \<Rightarrow> PeerId \<times> RouteConnInfo \<Rightarrow> (PeerId \<times> Version) list \<Rightarrow> (PeerId \<times> Version) list" where
  "collect_conn reach = (\<lambda>(src, c) m.
     if \<not> reach src then m
     else fold (\<lambda>dst. add_to_all_peer_ids dst 0) (sorted_list_of_set (connected_peers c)) (add_to_all_peer_ids src (conn_version c) m))"

definition collect_all_peer_ids :: "(PeerId \<Rightarrow> bool) \<Rightarrow> (PeerId \<times> RouteConnInfo) list \<Rightarrow> (PeerId \<times> Version) list" where
  "collect_all_peer_ids reach conns = fold (collect_conn reach) conns []"

definition set_conn_bit :: "nat \<Rightarrow> bytes \<Rightarrow> bytes may_panic" where
  "set_conn_bit i bits = (if i div 8 < length bits then Some (bits[i div 8 := bits ! (i div 8) OR push_bit (i mod 8) 1]) else None)"

fun fill_conn_row :: "PeerId set \<Rightarrow> nat \<Rightarrow> nat \<Rightarrow> nat \<Rightarrow> PeerId list \<Rightarrow> bytes \<Rightarrow> bytes may_panic" where
  "fill_conn_row connected n peer_idx idx [] bits = Some bits"
| "fill_conn_row connected n peer_idx idx (q # qs) bits = do {
     bits \<leftarrow> (if q \<in> connected then set_conn_bit (peer_idx * n + idx) bits else Some bits);
     fill_conn_row connected n peer_idx (idx + 1) qs bits }"

fun fill_conn_rows :: "(PeerId \<times> RouteConnInfo) list \<Rightarrow> PeerId list \<Rightarrow> nat \<Rightarrow> PeerId list \<Rightarrow> bytes \<Rightarrow> bytes may_panic" where
  "fill_conn_rows conns all_ids peer_idx [] bits = Some bits"
| "fill_conn_rows conns all_ids peer_idx (p # ps) bits = do {
     bits \<leftarrow> (case map_of conns p of
         None \<Rightarrow> Some bits
       | Some c \<Rightarrow> fill_conn_row (connected_peers c) (length all_ids) peer_idx 0 all_ids bits);
     fill_conn_rows conns all_ids (peer_idx + 1) ps bits }"

definition build_local_conn_bitmap :: "(PeerId \<Rightarrow> bool) \<Rightarrow> (PeerId \<times> RouteConnInfo) list \<Rightarrow> RouteConnBitmap may_panic" where
  "build_local_conn_bitmap reach conns =
     (let all_ids = collect_all_peer_ids reach conns; n = length all_ids in do {
       bits \<leftarrow> fill_conn_rows conns (map fst all_ids) 0 (map fst all_ids) (replicate ((n * n + 7) div 8) 0);
       Some \<lparr>peer_ids = map (\<lambda>(p, v). \<lparr>pv_peer_id = p, pv_version = v\<rparr>) all_ids, bitmap = bits\<rparr> })"

definition update_route_table_and_cached_local_conn_bitmap :: "('raw, 'val, 'c4, 'c6) route_env \<Rightarrow> nat \<Rightarrow> ('raw, 'c4, 'c6) PeerRouteServiceImpl
    \<Rightarrow> ('raw, 'c4, 'c6) PeerRouteServiceImpl may_panic" where
  "update_route_table_and_cached_local_conn_bitmap env now sv = do {
     let sv = sv\<lparr>peer_info_last_update := now\<rparr>;
     sv \<leftarrow> update_route_table env sv;
     bm \<leftarrow> build_local_conn_bitmap (peer_reachable (route_table sv)) (conn_map (synced_route_info sv));
     let (ver, larger) = set_if_larger (synced_version (synced_route_info sv)) (cached_local_conn_map_version sv);
     Some (if larger then sv\<lparr>cached_local_conn_map_version := ver, cached_local_conn_map := bm\<rparr> else sv) }"

section \<open>Trust\<close>

definition refresh_credential_trusts_with_current_topology :: "('raw, 'val, 'c4, 'c6) route_env \<Rightarrow> nat \<Rightarrow> ('raw, 'c4, 'c6) PeerRouteServiceImpl
    \<Rightarrow> (PeerId list \<times> ('raw, 'c4, 'c6) PeerRouteServiceImpl) may_panic" where
  "refresh_credential_trusts_with_current_topology env now sv = do {
     sv \<leftarrow> update_route_table_and_cached_local_conn_bitmap env now sv;
     let (untrusted, keys, si) = verify_and_update_credential_trusts_protecting (env_trust env) (env_network_secret env) (int (now div SEC))
       (is_active_non_reusable_credential_peer sv) (Some (my_peer_id sv)) (synced_route_info sv);
     let sv = sv\<lparr>synced_route_info := si, network_trusted_keys := update_trusted_keys (env_network_name env) keys (network_trusted_keys sv)\<rparr>;
     sv \<leftarrow> (if untrusted \<noteq> [] then update_route_table_and_cached_local_conn_bitmap env now sv else Some sv);
     Some (untrusted, sv) }"

section \<open>Requests\<close>

record 'raw SyncRouteInfoRequest =
  req_my_peer_id :: PeerId
  req_my_session_id :: u64
  req_is_initiator :: bool
  req_peer_infos :: "RoutePeerInfo list option"
  req_raw_peer_infos :: "'raw list option"
  req_conn_info :: "ConnInfo option"
  req_foreign_network_infos :: "ForeignInfo list option"

record SyncRouteInfoResponse =
  resp_is_initiator :: bool
  resp_session_id :: u64
  resp_error :: "SyncRouteInfoError option"

definition estimate_conn_bitmap_size :: "RouteConnBitmap \<Rightarrow> nat" where
  "estimate_conn_bitmap_size bm = length (bitmap bm) + length (peer_ids bm) * 8"

definition build_conn_info :: "bool \<Rightarrow> nat \<Rightarrow> PeerId \<Rightarrow> ('raw, 'c4, 'c6) PeerRouteServiceImpl \<Rightarrow> SyncRouteSession
    \<Rightarrow> ConnInfo option \<times> SyncRouteSession" where
  "build_conn_info force_use_conn_list now dst sv s =
     (let dst_supports_peer_list = ((case Option.bind (map_of (peer_infos (synced_route_info sv)) dst) feature_flag of
            Some f \<Rightarrow> support_conn_list_sync f | None \<Rightarrow> False) \<or> force_use_conn_list);
          (peer_list, s) = build_conn_peer_list now (peer_reachable (route_table sv)) (synced_route_info sv) s
      in (case peer_list of
            None \<Rightarrow> None
          | Some (pcs, estimated_size) \<Rightarrow>
              if estimated_size < estimate_conn_bitmap_size (cached_local_conn_map sv) \<and> dst_supports_peer_list
              then Some (ConnPeerList pcs) else Some (ConnBitmap (cached_local_conn_map sv)), s))"

definition build_sync_request :: "bool \<Rightarrow> nat \<Rightarrow> PeerId \<Rightarrow> ('raw, 'c4, 'c6) PeerRouteServiceImpl \<Rightarrow> SyncRouteSession
    \<Rightarrow> RoutePeerInfo list option \<times> ConnInfo option \<times> ForeignInfo list option \<times> SyncRouteSession" where
  "build_sync_request force now dst sv s =
     (let (infos, s) = build_route_info now (peer_reachable (route_table sv)) (synced_route_info sv) s;
          (ci, s) = build_conn_info force now dst sv s;
          (fns, s) = build_foreign_network_info now (synced_route_info sv) s
      in (infos, ci, fns, s))"

text \<open>The raw messages of \<open>build_sync_route_raw_req\<close>.\<close>

definition build_sync_route_raw_req :: "('raw, 'val, 'c4, 'c6) route_env \<Rightarrow> 'raw SyncedRouteInfo \<Rightarrow> RoutePeerInfo list \<Rightarrow> 'raw list" where
  "build_sync_route_raw_req env si infos =
     map (\<lambda>i. case raw_peer_infos si (peer_id i) of Some r \<Rightarrow> r | None \<Rightarrow> env_transcode env i) infos"

text \<open>
  \<open>sync_route_with_peer\<close> up to the remote call: \<open>None\<close> if there is no session or nothing to send (the function
  returns true). The call is made without the session lock.
\<close>

definition sync_route_with_peer_request :: "('raw, 'val, 'c4, 'c6) route_env \<Rightarrow> bool \<Rightarrow> nat \<Rightarrow> PeerId \<Rightarrow> bool
    \<Rightarrow> ('raw, 'c4, 'c6) PeerRouteServiceImpl \<Rightarrow> 'raw SyncRouteInfoRequest option \<times> ('raw, 'c4, 'c6) PeerRouteServiceImpl" where
  "sync_route_with_peer_request env force now dst sync_as_initiator sv = (case get_session sv dst of
     None \<Rightarrow> (None, sv)
   | Some s \<Rightarrow>
       let (infos, ci, fns, s) = build_sync_request force now dst sv s
       in if infos = None \<and> ci = None \<and> fns = None \<and> \<not> need_sync_initiator_info s \<and> \<not> (sync_as_initiator \<and> we_are_initiator s)
          then (None, put_session s sv)
          else let s = s\<lparr>need_sync_initiator_info := False\<rparr>
            in (Some \<lparr>req_my_peer_id = my_peer_id sv, req_my_session_id = my_session_id s, req_is_initiator = we_are_initiator s,
                  req_peer_infos = infos, req_raw_peer_infos = map_option (build_sync_route_raw_req env (synced_route_info sv)) infos,
                  req_conn_info = ci, req_foreign_network_infos = fns\<rparr>, put_session s sv))"

text \<open>
  \<open>sync_route_with_peer\<close> after the call, on the session object; \<open>started\<close> is the time before the request was
  built, and a response of \<open>None\<close> is a failed call.
\<close>

definition sync_route_with_peer_response :: "bool \<Rightarrow> nat \<Rightarrow> PeerId \<Rightarrow> nat \<Rightarrow> 'raw SyncRouteInfoRequest \<Rightarrow> SyncRouteInfoResponse option
    \<Rightarrow> SyncRouteSession \<Rightarrow> SyncRouteSession may_panic" where
  "sync_route_with_peer_response public_server now dst started req ret s = (case ret of
     None \<Rightarrow> Some (s\<lparr>need_sync_initiator_info := True\<rparr>)
   | Some resp \<Rightarrow>
       (case resp_error resp of
          Some DuplicatePeerId \<Rightarrow> if \<not> public_server then None else Some s
        | Some _ \<Rightarrow> Some (s\<lparr>need_sync_initiator_info := True\<rparr>)
        | None \<Rightarrow>
            let s = s\<lparr>rpc_tx_count := rpc_tx_count s + 1, dst_is_initiator := resp_is_initiator resp\<rparr>;
                s = update_dst_session_id (resp_session_id resp) s;
                s = (case req_peer_infos req of Some infos \<Rightarrow> update_dst_saved_peer_info_version now infos dst s | None \<Rightarrow> s);
                s = (case req_conn_info req of Some ci \<Rightarrow> update_dst_saved_conn_info_version now ci dst s | None \<Rightarrow> s)
            in do {
              s \<leftarrow> (case req_foreign_network_infos req of
                  Some fns \<Rightarrow> update_dst_saved_foreign_network_version now fns dst s | None \<Rightarrow> Some s);
              Some (update_last_sync_succ_timestamp started s) }))"

section \<open>The handler of requests\<close>

definition patch_raw_from_info :: "('raw, 'val, 'c4, 'c6) route_env \<Rightarrow> RoutePeerInfo \<Rightarrow> string list \<Rightarrow> 'raw \<Rightarrow> 'raw" where
  "patch_raw_from_info env info names raw =
     fold (\<lambda>f raw. case get_field_by_name (env_trust env) (env_transcode env info) f of
       Some v \<Rightarrow> env_set_field env raw f v | None \<Rightarrow> raw) names raw"

fun position :: "('a \<Rightarrow> bool) \<Rightarrow> 'a list \<Rightarrow> nat option" where
  "position P [] = None"
| "position P (x # xs) = (if P x then Some 0 else map_option Suc (position P xs))"

text \<open>The inner option is the result, the outer one the panic of an index past the end.\<close>

definition extract_credential_peer_info :: "('raw, 'val, 'c4, 'c6) route_env \<Rightarrow> PeerId \<Rightarrow> RoutePeerInfo list \<Rightarrow> 'raw list
    \<Rightarrow> TrustedCredentialPubkey \<Rightarrow> (RoutePeerInfo \<times> 'raw) option may_panic" where
  "extract_credential_peer_info env from infos raws cred = (case position (\<lambda>i. peer_id i = from) infos of
     None \<Rightarrow> Some None
   | Some idx \<Rightarrow>
       if idx < length raws then
         let info = infos ! idx;
             info = info\<lparr>proxy_cidrs := (if allowed_proxy_cidrs cred \<noteq> []
               then filter (\<lambda>c. list_ex (cidr_is_subset_str (env_cidr env) c) (allowed_proxy_cidrs cred)) (proxy_cidrs info) else [])\<rparr>;
             info = mark_credential_peer True info
         in Some (Some (info, patch_raw_from_info env info [''proxy_cidrs'', ''feature_flag''] (raws ! idx)))
       else None)"

text \<open>The received descriptions: whether something was stored, the session and the information; an error leaves the session.\<close>

definition handle_peer_infos :: "('raw, 'val, 'c4, 'c6) route_env \<Rightarrow> nat \<Rightarrow> PeerId \<Rightarrow> u64 \<Rightarrow> PeerId \<Rightarrow> TrustedCredentialPubkey option
    \<Rightarrow> RoutePeerInfo list option \<Rightarrow> 'raw list option \<Rightarrow> SyncRouteSession \<times> 'raw SyncedRouteInfo
    \<Rightarrow> ((SyncRouteInfoError + bool) \<times> SyncRouteSession \<times> 'raw SyncedRouteInfo) may_panic" where
  "handle_peer_infos env now my my_route from credential_info infos raws = (\<lambda>(session, si). case infos of
     None \<Rightarrow> Some (Inr False, session, si)
   | Some p_infos \<Rightarrow> do {
       raws \<leftarrow> raws;
       (pi, rpi) \<leftarrow> (case credential_info of
           Some cred \<Rightarrow> map_option (\<lambda>r. case r of Some (i, raw) \<Rightarrow> ([i], [raw]) | None \<Rightarrow> ([], []))
             (extract_credential_peer_info env from p_infos raws cred)
         | None \<Rightarrow> Some (p_infos, raws));
       if pi = [] then Some (Inr False, session, si)
       else do {
         (res, si) \<leftarrow> update_peer_infos (env_raw_id env) now my my_route from pi rpi si;
         case res of
           Inl e \<Rightarrow> Some (Inl e, session, si)
         | Inr _ \<Rightarrow>
             let si = verify_and_update_group_trusts (api_hmac (env_trust env)) pi (env_group_declarations env) (env_network_secret env = None) si
             in Some (Inr True, update_dst_saved_peer_info_version now pi from session, si) } })"

definition handle_conn_info :: "('raw, 'val, 'c4, 'c6) route_env \<Rightarrow> nat \<Rightarrow> PeerId \<Rightarrow> TrustedCredentialPubkey option \<Rightarrow> ConnInfo option
    \<Rightarrow> SyncRouteSession \<times> 'raw SyncedRouteInfo \<Rightarrow> (bool \<times> SyncRouteSession \<times> 'raw SyncedRouteInfo) may_panic" where
  "handle_conn_info env now from credential_info conn_info = (\<lambda>(session, si). case conn_info of
     None \<Rightarrow> Some (False, session, si)
   | Some ci \<Rightarrow>
       if (case credential_info of None \<Rightarrow> True | Some cred \<Rightarrow> allow_relay cred)
       then do {
         si \<leftarrow> update_conn_info (env_version env) now ci si;
         Some (True, update_dst_saved_conn_info_version now ci from session, si) }
       else Some (False, session, si))"

definition handle_foreign :: "nat \<Rightarrow> PeerId \<Rightarrow> TrustedCredentialPubkey option \<Rightarrow> ForeignInfo list option
    \<Rightarrow> SyncRouteSession \<times> 'raw SyncedRouteInfo \<Rightarrow> (bool \<times> SyncRouteSession \<times> 'raw SyncedRouteInfo) may_panic" where
  "handle_foreign now from credential_info foreign_info = (\<lambda>(session, si). case foreign_info of
     None \<Rightarrow> Some (False, session, si)
   | Some fns \<Rightarrow>
       if credential_info = None
       then let (changed, si) = update_foreign_network now fns si
         in do {
           session \<leftarrow> update_dst_saved_foreign_network_version now fns from session;
           Some (changed, session, si) }
       else Some (False, session, si))"

record ('raw, 'c4, 'c6) sync_outcome =
  outcome_result :: "SyncRouteInfoError + SyncRouteInfoResponse"
  closed_peers :: "PeerId list"
  trigger_sync :: bool
  outcome_service :: "('raw, 'c4, 'c6) PeerRouteServiceImpl"

text \<open>
  \<open>hook\<close> is \<open>handle_route_change\<close> of the public IPv6 service. From the check of the sender on, a
  credential peer is one with \<open>credential_info\<close>.
\<close>

definition do_sync_route_info :: "('raw, 'val, 'c4, 'c6) route_env
    \<Rightarrow> (('raw, 'c4, 'c6) PeerRouteServiceImpl \<Rightarrow> bool \<times> ('raw, 'c4, 'c6) PeerRouteServiceImpl)
    \<Rightarrow> route_interface \<Rightarrow> nat \<Rightarrow> u64 \<Rightarrow> 'raw SyncRouteInfoRequest
    \<Rightarrow> ('raw, 'c4, 'c6) PeerRouteServiceImpl \<Rightarrow> ('raw, 'c4, 'c6) sync_outcome may_panic" where
  "do_sync_route_info env hook ifc now random req sv =
     (let from = req_my_peer_id req;
          (session, sv) = get_or_create_session random from sv;
          (identity, sv) = get_peer_identity_type_from_interface ifc from sv;
          from_is_credential = (identity = Some Credential);
          credential_info = (if from_is_credential
            then Option.bind (if_public_key ifc from) (get_credential_info_by_pubkey (synced_route_info sv)) else None)
      in if from_is_credential \<and> credential_info = None
         then Some \<lparr>outcome_result = Inl Stopped, closed_peers = [], trigger_sync = False, outcome_service = sv\<rparr>
         else let session = update_dst_session_id (req_my_session_id req) (session\<lparr>rpc_rx_count := rpc_rx_count session + 1\<rparr>)
           in do {
             (res, session, si) \<leftarrow> handle_peer_infos env now (my_peer_id sv) (my_peer_route_id sv) from credential_info
               (req_peer_infos req) (req_raw_peer_infos req) (session, synced_route_info sv);
             case res of
               Inl e \<Rightarrow> Some \<lparr>outcome_result = Inl e, closed_peers = [], trigger_sync = False,
                 outcome_service = put_session session (sv\<lparr>synced_route_info := si\<rparr>)\<rparr>
             | Inr stored \<Rightarrow> do {
                 (conn_stored, session, si) \<leftarrow> handle_conn_info env now from credential_info (req_conn_info req) (session, si);
                 let need_update_route_table = (stored \<or> conn_stored);
                 let sv = sv\<lparr>synced_route_info := si\<rparr>;
                 (untrusted, sv) \<leftarrow> (if need_update_route_table then refresh_credential_trusts_with_current_topology env now sv else Some ([], sv));
                 (foreign_changed, session, si) \<leftarrow> handle_foreign now from credential_info (req_foreign_network_infos req)
                   (session, synced_route_info sv);
                 let sv = sv\<lparr>synced_route_info := si\<rparr>;
                 sv \<leftarrow> (if need_update_route_table \<or> foreign_changed
                   then do {
                     sv \<leftarrow> update_route_table_and_cached_local_conn_bitmap env now sv;
                     let sv = update_foreign_network_owner_map sv;
                     Some (if need_update_route_table then snd (hook sv) else sv) }
                   else Some sv);
                 let session = session\<lparr>dst_is_initiator := req_is_initiator req\<rparr>;
                 Some \<lparr>outcome_result = Inr \<lparr>resp_is_initiator = we_are_initiator session, resp_session_id = my_session_id session, resp_error = None\<rparr>,
                   closed_peers = untrusted, trigger_sync = (need_update_route_table \<or> foreign_changed),
                   outcome_service = put_session session sv\<rparr> } })"

text \<open>\<open>sync_route_info\<close>: the raw messages are as many as the descriptions; an error is put into the response.\<close>

definition sync_route_info :: "('raw, 'val, 'c4, 'c6) route_env
    \<Rightarrow> (('raw, 'c4, 'c6) PeerRouteServiceImpl \<Rightarrow> bool \<times> ('raw, 'c4, 'c6) PeerRouteServiceImpl)
    \<Rightarrow> route_interface \<Rightarrow> nat \<Rightarrow> u64 \<Rightarrow> 'raw SyncRouteInfoRequest
    \<Rightarrow> ('raw, 'c4, 'c6) PeerRouteServiceImpl \<Rightarrow> (SyncRouteInfoResponse \<times> ('raw, 'c4, 'c6) sync_outcome) may_panic" where
  "sync_route_info env hook ifc now random req sv =
     (if (case req_peer_infos req of None \<Rightarrow> True
          | Some infos \<Rightarrow> (case req_raw_peer_infos req of Some raws \<Rightarrow> length raws = length infos | None \<Rightarrow> False))
      then do {
        out \<leftarrow> do_sync_route_info env hook ifc now random req sv;
        Some (case outcome_result out of
            Inr resp \<Rightarrow> resp
          | Inl e \<Rightarrow> \<lparr>resp_is_initiator = False, resp_session_id = 0, resp_error = Some e\<rparr>, out) }
      else None)"

section \<open>The own entries\<close>

definition service_update_my_peer_info :: "('raw, 'val, 'c4, 'c6) route_env \<Rightarrow> self_ctx \<Rightarrow> nat \<Rightarrow> ('raw, 'c4, 'c6) PeerRouteServiceImpl
    \<Rightarrow> bool \<times> ('raw, 'c4, 'c6) PeerRouteServiceImpl" where
  "service_update_my_peer_info env ctx now sv =
     (let (b, si) = update_my_peer_info (env_version env) now (my_peer_id sv) (my_peer_route_id sv) ctx (self_public_ipv6_addr_lease sv) (synced_route_info sv)
      in (b, sv\<lparr>synced_route_info := si\<rparr>))"

definition service_update_my_conn_info :: "('raw, 'val, 'c4, 'c6) route_env \<Rightarrow> route_interface \<Rightarrow> nat \<Rightarrow> ('raw, 'c4, 'c6) PeerRouteServiceImpl
    \<Rightarrow> bool \<times> ('raw, 'c4, 'c6) PeerRouteServiceImpl" where
  "service_update_my_conn_info env ifc now sv =
     (let generation_applied = (applied_interface_peers_generation sv = interface_peers_generation sv)
      in if generation_applied \<and> \<not> if_need_periodic_requery ifc then (False, sv)
         else let sv = (if generation_applied then mark_interface_peers_dirty sv else sv);
                  (snap, sv) = interface_peer_snapshot ifc sv;
                  (updated, si) = update_my_conn_info (env_version env) now (my_peer_id sv) (peers snap) (synced_route_info sv)
              in (updated, sv\<lparr>synced_route_info := si, applied_interface_peers_generation := generation snap\<rparr>))"

definition service_update_my_foreign_network :: "nat \<Rightarrow> route_interface \<Rightarrow> nat \<Rightarrow> ('raw, 'c4, 'c6) PeerRouteServiceImpl
    \<Rightarrow> (bool \<times> ('raw, 'c4, 'c6) PeerRouteServiceImpl) may_panic" where
  "service_update_my_foreign_network interval_sec ifc now sv =
     (if (case last_update_my_foreign_network sv of Some t \<Rightarrow> (now - t) div SEC < interval_sec | None \<Rightarrow> False) then Some (False, sv)
      else do {
        let sv = sv\<lparr>last_update_my_foreign_network := Some now\<rparr>;
        (b, si) \<leftarrow> update_my_foreign_network now (my_peer_id sv) (if_foreign_networks ifc) (synced_route_info sv);
        Some (b, sv\<lparr>synced_route_info := si\<rparr>) })"

text \<open>The results are whether neighbours must be told, the peers that are disconnected, and the state.\<close>

definition update_my_infos :: "('raw, 'val, 'c4, 'c6) route_env
    \<Rightarrow> (('raw, 'c4, 'c6) PeerRouteServiceImpl \<Rightarrow> bool \<times> ('raw, 'c4, 'c6) PeerRouteServiceImpl)
    \<Rightarrow> nat \<Rightarrow> route_interface \<Rightarrow> self_ctx \<Rightarrow> nat \<Rightarrow> ('raw, 'c4, 'c6) PeerRouteServiceImpl
    \<Rightarrow> (bool \<times> PeerId list \<times> ('raw, 'c4, 'c6) PeerRouteServiceImpl) may_panic" where
  "update_my_infos env hook interval_sec ifc ctx now sv = do {
     let (my_peer_info_updated, sv) = service_update_my_peer_info env ctx now sv;
     let (my_conn_info_updated, sv) = service_update_my_conn_info env ifc now sv;
     (my_foreign_network_updated, sv) \<leftarrow> service_update_my_foreign_network interval_sec ifc now sv;
     (untrusted, sv) \<leftarrow> (if my_peer_info_updated then refresh_credential_trusts_with_current_topology env now sv else Some ([], sv));
     (public_ipv6_state_updated, sv) \<leftarrow> (if my_peer_info_updated \<or> my_conn_info_updated \<or> untrusted \<noteq> []
       then do {
         sv \<leftarrow> update_route_table_and_cached_local_conn_bitmap env now sv;
         Some (hook (update_foreign_network_owner_map sv)) }
       else Some (False, sv));
     let sv = (if my_peer_info_updated then sv\<lparr>peer_info_last_update := now\<rparr> else sv);
     Some (my_peer_info_updated \<or> my_conn_info_updated \<or> my_foreign_network_updated \<or> public_ipv6_state_updated, untrusted, sv) }"

definition refresh_acl_groups :: "('raw, 'val, 'c4, 'c6) route_env
    \<Rightarrow> (('raw, 'c4, 'c6) PeerRouteServiceImpl \<Rightarrow> bool \<times> ('raw, 'c4, 'c6) PeerRouteServiceImpl)
    \<Rightarrow> self_ctx \<Rightarrow> nat \<Rightarrow> ('raw, 'c4, 'c6) PeerRouteServiceImpl
    \<Rightarrow> (bool \<times> PeerId list \<times> ('raw, 'c4, 'c6) PeerRouteServiceImpl) may_panic" where
  "refresh_acl_groups env hook ctx now sv = do {
     let (my_peer_info_updated, sv) = service_update_my_peer_info env ctx now sv;
     let sv = sv\<lparr>synced_route_info := verify_and_update_group_trusts (api_hmac (env_trust env)) (map snd (peer_infos (synced_route_info sv)))
       (env_group_declarations env) (env_network_secret env = None) (synced_route_info sv)\<rparr>;
     (untrusted, sv) \<leftarrow> refresh_credential_trusts_with_current_topology env now sv;
     (public_ipv6_state_updated, sv) \<leftarrow> (if my_peer_info_updated \<or> untrusted \<noteq> []
       then do {
         sv \<leftarrow> update_route_table_and_cached_local_conn_bitmap env now sv;
         Some (hook (update_foreign_network_owner_map sv)) }
       else Some (False, sv));
     let sv = (if my_peer_info_updated then sv\<lparr>peer_info_last_update := now\<rparr> else sv);
     Some (my_peer_info_updated \<or> untrusted \<noteq> [] \<or> public_ipv6_state_updated, untrusted, sv) }"

section \<open>Expiry\<close>

definition REMOVE_DEAD_PEER_INFO_AFTER :: nat where
  "REMOVE_DEAD_PEER_INFO_AFTER = 3660 * SEC"

definition REMOVE_UNREACHABLE_PEER_INFO_AFTER :: nat where
  "REMOVE_UNREACHABLE_PEER_INFO_AFTER = 90 * SEC"

definition expired_peer :: "nat \<Rightarrow> (PeerId \<Rightarrow> bool) \<Rightarrow> PeerId \<times> RoutePeerInfo \<Rightarrow> bool" where
  "expired_peer now reach = (\<lambda>(p, info). case elapsed now (the (last_update info)) of
     Some d \<Rightarrow> d > REMOVE_DEAD_PEER_INFO_AFTER \<or> d > REMOVE_UNREACHABLE_PEER_INFO_AFTER \<and> \<not> reach p
   | None \<Rightarrow> False)"

definition expired_foreign :: "nat \<Rightarrow> ForeignNetworkRouteInfoEntry \<Rightarrow> bool" where
  "expired_foreign now e = (case Option.bind (fe_last_update e) (elapsed now) of
     None \<Rightarrow> True | Some d \<Rightarrow> d > REMOVE_DEAD_PEER_INFO_AFTER)"

definition clear_expired_peer :: "('raw, 'val, 'c4, 'c6) route_env \<Rightarrow> nat \<Rightarrow> ('raw, 'c4, 'c6) PeerRouteServiceImpl
    \<Rightarrow> (PeerId list \<times> ('raw, 'c4, 'c6) PeerRouteServiceImpl) may_panic" where
  "clear_expired_peer env now sv =
     (let si = synced_route_info sv in
      if list_ex (\<lambda>(_, info). last_update info = None) (peer_infos si) then None
      else do {
        let si = remove_peers (fst ` set (filter (expired_peer now (peer_reachable (route_table sv))) (peer_infos si))) si;
        let si = si\<lparr>foreign_network := filter (\<lambda>(_, e). \<not> expired_foreign now e) (foreign_network si)\<rparr>;
        (untrusted, sv) \<leftarrow> refresh_credential_trusts_with_current_topology env now (sv\<lparr>synced_route_info := si\<rparr>);
        Some (untrusted, sv\<lparr>route_table := clean_expired_route_info (route_table sv),
          route_table_with_cost := clean_expired_route_info (route_table_with_cost sv)\<rparr>) })"

section \<open>The initiator\<close>

text \<open>\<open>NatType\<close>: \<open>OpenInternet\<close> is 1 and \<open>NoPat\<close> is 2; a value that is no \<open>NatType\<close> reads as \<open>Unknown\<close>, 0.\<close>

definition get_udp_nat_type :: "('c4, 'c6) RouteTable \<Rightarrow> PeerId \<Rightarrow> u32 option" where
  "get_udp_nat_type rt p = map_option (\<lambda>i. if udp_nat_type i \<le> 9 then udp_nat_type i else 0) (rt_peer_infos rt p)"

definition initiator_candidates :: "InterfacePeerSnapshot \<Rightarrow> ('raw, 'c4, 'c6) PeerRouteServiceImpl \<Rightarrow> PeerId list" where
  "initiator_candidates snap sv = filter (\<lambda>p.
     (case identity_types snap p of Some (Some t) \<Rightarrow> t | _ \<Rightarrow> Admin) \<noteq> Credential \<and>
     (case get_session sv p of None \<Rightarrow> True | Some s \<Rightarrow> \<not> dst_is_initiator s)) (sorted_list_of_set (peers snap))"

definition choose_initiator :: "('c4, 'c6) RouteTable \<Rightarrow> PeerId list \<Rightarrow> PeerId" where
  "choose_initiator rt cands = (case List.find (\<lambda>p. get_udp_nat_type rt p = Some 1 \<or> get_udp_nat_type rt p = Some 2) cands of
     Some p \<Rightarrow> p | None \<Rightarrow> hd cands)"

definition set_initiator :: "PeerId \<Rightarrow> bool \<Rightarrow> ('raw, 'c4, 'c6) PeerRouteServiceImpl \<Rightarrow> ('raw, 'c4, 'c6) PeerRouteServiceImpl" where
  "set_initiator p b sv = (case get_session sv p of
     Some s \<Rightarrow> sv\<lparr>sessions := AList.update p (update_initiator_flag b s) (sessions sv)\<rparr> | None \<Rightarrow> sv)"

text \<open>
  One round of \<open>maintain_sessions\<close>. \<open>running\<close> tells which sessions have a running task; a session that is
  created here gets one. The state is the current peer to initiate to and the service.
\<close>

definition maintain_sessions_round :: "route_interface \<Rightarrow> u64 \<Rightarrow> (PeerId \<Rightarrow> bool) \<Rightarrow> PeerId option \<times> ('raw, 'c4, 'c6) PeerRouteServiceImpl
    \<Rightarrow> PeerId option \<times> ('raw, 'c4, 'c6) PeerRouteServiceImpl" where
  "maintain_sessions_round ifc random running = (\<lambda>(cur, sv).
     let (snap, sv) = interface_peer_snapshot ifc sv;
         session_peers = sorted_list_of_set (fst ` set (sessions sv));
         gone = filter (\<lambda>p. p \<notin> peers snap) session_peers;
         cur = (case cur of Some c \<Rightarrow> if c \<in> set gone then None else Some c | None \<Rightarrow> None);
         sv = fold remove_session gone sv;
         cands = initiator_candidates snap sv
     in if cands = [] then (cur, sv)
        else
          let new_dst = choose_initiator (route_table sv) cands;
              sv = (if Some new_dst \<noteq> cur
                then let sv = (case cur of Some c \<Rightarrow> set_initiator c False sv | None \<Rightarrow> sv)
                  in set_initiator new_dst True (snd (get_or_create_session random new_dst sv))
                else sv);
              stop = filter (\<lambda>p. case get_session sv p of
                  Some s \<Rightarrow> \<not> ((dst_is_initiator s \<or> we_are_initiator s \<or> need_sync_initiator_info s) \<and> running p)
                | None \<Rightarrow> False) session_peers
          in (Some new_dst, fold remove_session stop sv))"

end
