(* ===== verification/Route_Exchange.thy ===== *)
theory Route_Exchange
  imports Route_Service
begin

text \<open>
  What the exchange of route information achieves: the bitmap of connections says what the connection map says,
  an exchange on a session that is right about the neighbour delivers everything that is reachable and then falls
  silent (a neighbour with a new session may be left without), and a request that names a peer with a credential as its
  sender changes only what the credential allows.
\<close>

section \<open>The bitmap of connections\<close>

definition bit_at :: "bytes \<Rightarrow> nat \<Rightarrow> bool" where
  "bit_at bits j \<longleftrightarrow> j div 8 < length bits \<and> bit (bits ! (j div 8)) (j mod 8)"

lemma get_bit_iff: "idx div 8 < length (bitmap bm) \<Longrightarrow> get_bit bm idx = Some (bit_at (bitmap bm) idx)"
  by (simp add: get_bit_def bit_at_def and_one_eq bit_iff_odd_drop_bit odd_iff_mod_2_eq_one)

lemma set_conn_bit_Some:
  assumes "i div 8 < length bits"
  obtains bits' where "set_conn_bit i bits = Some bits'" "length bits' = length bits" "\<And>j. bit_at bits' j \<longleftrightarrow> j = i \<or> bit_at bits j"
proof
  let ?b = "bits[i div 8 := bits ! (i div 8) OR push_bit (i mod 8) 1]"
  show "set_conn_bit i bits = Some ?b" "length ?b = length bits" using assms by (simp_all add: set_conn_bit_def)
  show "bit_at ?b j \<longleftrightarrow> j = i \<or> bit_at bits j" for j
  proof (cases "j div 8 = i div 8")
    case True
    have "bit (push_bit (i mod 8) (1 :: u8)) (j mod 8) \<longleftrightarrow> j mod 8 = i mod 8"
      by (auto simp: bit_exp_iff possible_bit_word)
    moreover have "j mod 8 = i mod 8 \<longleftrightarrow> j = i" using True by (metis div_mult_mod_eq)
    ultimately show ?thesis using assms True by (simp add: bit_at_def bit_or_iff) blast
  next
    case False
    then show ?thesis by (auto simp: bit_at_def nth_list_update)
  qed
qed

lemma fill_conn_row_Some:
  assumes "peer_idx * n + idx + length qs \<le> 8 * length bits"
  shows "\<exists>bits'. fill_conn_row connected n peer_idx idx qs bits = Some bits' \<and> length bits' = length bits \<and>
    (\<forall>j. bit_at bits' j \<longleftrightarrow> bit_at bits j \<or> (\<exists>k < length qs. j = peer_idx * n + idx + k \<and> qs ! k \<in> connected))"
  using assms
proof (induction qs arbitrary: idx bits)
  case (Cons q qs)
  have "\<exists>b1. (if q \<in> connected then set_conn_bit (peer_idx * n + idx) bits else Some bits) = Some b1 \<and> length b1 = length bits \<and>
      (\<forall>j. bit_at b1 j \<longleftrightarrow> bit_at bits j \<or> j = peer_idx * n + idx \<and> q \<in> connected)"
  proof (cases "q \<in> connected")
    case True
    have "(peer_idx * n + idx) div 8 < length bits" using Cons.prems by auto
    from set_conn_bit_Some [OF this] obtain b1 where "set_conn_bit (peer_idx * n + idx) bits = Some b1" "length b1 = length bits"
      "\<And>j. bit_at b1 j \<longleftrightarrow> j = peer_idx * n + idx \<or> bit_at bits j" by blast
    then show ?thesis using True by auto
  qed simp
  then obtain b1 where b1: "(if q \<in> connected then set_conn_bit (peer_idx * n + idx) bits else Some bits) = Some b1" "length b1 = length bits"
      "\<And>j. bit_at b1 j \<longleftrightarrow> bit_at bits j \<or> j = peer_idx * n + idx \<and> q \<in> connected" by blast
  obtain b2 where b2: "fill_conn_row connected n peer_idx (idx + 1) qs b1 = Some b2" "length b2 = length b1"
      "\<And>j. bit_at b2 j \<longleftrightarrow> bit_at b1 j \<or> (\<exists>k < length qs. j = peer_idx * n + (idx + 1) + k \<and> qs ! k \<in> connected)"
    using Cons.IH [of "idx + 1" b1] Cons.prems b1(2) by auto
  have "(\<exists>k < length (q # qs). j = peer_idx * n + idx + k \<and> (q # qs) ! k \<in> connected) \<longleftrightarrow>
      j = peer_idx * n + idx \<and> q \<in> connected \<or> (\<exists>k < length qs. j = peer_idx * n + (idx + 1) + k \<and> qs ! k \<in> connected)" for j
    by (auto simp: less_Suc_eq_0_disj)
  then show ?case using b1 b2 by (simp add: disj_assoc)
qed simp

lemma fill_conn_rows_Some:
  assumes "(peer_idx + length ps) * length ids \<le> 8 * length bits"
  shows "\<exists>bits'. fill_conn_rows conns ids peer_idx ps bits = Some bits' \<and> length bits' = length bits \<and>
    (\<forall>j. bit_at bits' j \<longleftrightarrow> bit_at bits j \<or> (\<exists>r < length ps. \<exists>c. map_of conns (ps ! r) = Some c \<and>
      (\<exists>k < length ids. j = (peer_idx + r) * length ids + k \<and> ids ! k \<in> connected_peers c)))"
  using assms
proof (induction ps arbitrary: peer_idx bits)
  case (Cons p ps)
  let ?row = "\<lambda>i p j. \<exists>c. map_of conns p = Some c \<and> (\<exists>k < length ids. j = i * length ids + k \<and> ids ! k \<in> connected_peers c)"
  have "\<exists>b1. (case map_of conns p of None \<Rightarrow> Some bits
      | Some c \<Rightarrow> fill_conn_row (connected_peers c) (length ids) peer_idx 0 ids bits) = Some b1 \<and> length b1 = length bits \<and>
      (\<forall>j. bit_at b1 j \<longleftrightarrow> bit_at bits j \<or> ?row peer_idx p j)"
  proof (cases "map_of conns p")
    case (Some c)
    have "peer_idx * length ids + 0 + length ids \<le> 8 * length bits" using Cons.prems by (simp add: algebra_simps)
    from fill_conn_row_Some [OF this] show ?thesis using Some by auto
  qed simp
  then obtain b1 where b1: "(case map_of conns p of None \<Rightarrow> Some bits
      | Some c \<Rightarrow> fill_conn_row (connected_peers c) (length ids) peer_idx 0 ids bits) = Some b1" "length b1 = length bits"
      "\<And>j. bit_at b1 j \<longleftrightarrow> bit_at bits j \<or> ?row peer_idx p j" by blast
  obtain b2 where b2: "fill_conn_rows conns ids (peer_idx + 1) ps b1 = Some b2" "length b2 = length b1"
      "\<And>j. bit_at b2 j \<longleftrightarrow> bit_at b1 j \<or> (\<exists>r < length ps. ?row (peer_idx + 1 + r) (ps ! r) j)"
    using Cons.IH [of "peer_idx + 1" b1] Cons.prems b1(2) by auto
  have "(\<exists>r < length (p # ps). ?row (peer_idx + r) ((p # ps) ! r) j) \<longleftrightarrow> ?row peer_idx p j \<or> (\<exists>r < length ps. ?row (peer_idx + 1 + r) (ps ! r) j)" for j
    unfolding list.size(4) add_Suc_right add_0_right Ex_less_Suc2 nth_Cons_0 nth_Cons_Suc by simp
  then show ?case using b1 b2 by (simp add: disj_assoc)
qed simp

lemma ex_less_Suc_conj: "(\<exists>k. x = f k \<and> k < Suc n \<and> P k) \<longleftrightarrow> x = f 0 \<and> P 0 \<or> (\<exists>k. x = f (Suc k) \<and> k < n \<and> P (Suc k))"
  using Ex_less_Suc2 [of n "\<lambda>k. x = f k \<and> P k"] by blast

lemma connected_loop_set:
  assumes "peer_idx * length (peer_ids bm) + idx + length pvs \<le> 8 * length (bitmap bm)"
  shows "connected_loop bm peer_idx idx pvs = Some {pv_peer_id (pvs ! k) | k. k < length pvs \<and> bit_at (bitmap bm) (peer_idx * length (peer_ids bm) + idx + k)}"
  using assms
proof (induction pvs arbitrary: idx)
  case (Cons pv pvs)
  let ?P = "\<lambda>k. bit_at (bitmap bm) (peer_idx * length (peer_ids bm) + idx + k)"
  have "get_bit bm (peer_idx * length (peer_ids bm) + idx) = Some (?P 0)" using get_bit_iff Cons.prems by auto
  moreover have "connected_loop bm peer_idx (idx + 1) pvs = Some {pv_peer_id (pvs ! k) | k. k < length pvs \<and> ?P (Suc k)}"
    using Cons.IH [of "idx + 1"] Cons.prems by simp
  moreover have "{pv_peer_id ((pv # pvs) ! k) | k. k < length (pv # pvs) \<and> ?P k} =
      (if ?P 0 then {pv_peer_id pv} else {}) \<union> {pv_peer_id (pvs ! k) | k. k < length pvs \<and> ?P (Suc k)}"
    unfolding set_eq_iff mem_Collect_eq Un_iff list.size(4) add_Suc_right add_0_right ex_less_Suc_conj nth_Cons_0 nth_Cons_Suc by auto
  ultimately show ?case by simp
qed simp

lemma map_of_btree_insert: "map_of (btree_insert k v m) q = (if q = k then Some v else map_of m q)"
  by (induction k v m rule: btree_insert.induct) auto

text \<open>The version noted for a peer, and the peers of the bitmap.\<close>

definition noted :: "(PeerId \<times> Version) list \<Rightarrow> PeerId \<Rightarrow> Version" where
  "noted m q = (case map_of m q of Some x \<Rightarrow> x | None \<Rightarrow> 0)"

lemma noted_add: "noted (add_to_all_peer_ids p v m) q = (if q = p then max v (noted m p) else noted m q)"
  by (auto simp: noted_def add_to_all_peer_ids_def map_of_btree_insert max_def split: option.split)

lemma dom_add: "dom (map_of (add_to_all_peer_ids p v m)) = insert p (dom (map_of m))"
  by (auto simp: add_to_all_peer_ids_def map_of_btree_insert split: option.splits if_splits)

lemma add_all:
  "noted (fold (\<lambda>dst. add_to_all_peer_ids dst 0) qs m) = noted m"
  "dom (map_of (fold (\<lambda>dst. add_to_all_peer_ids dst 0) qs m)) = set qs \<union> dom (map_of m)"
  by (induction qs arbitrary: m) (auto simp: fun_eq_iff noted_add dom_add)

lemma collect_conn_spec:
  "noted (collect_conn reach (p, c) m) q = (if q = p \<and> reach p then max (conn_version c) (noted m p) else noted m q)"
  "dom (map_of (collect_conn reach (p, c) m)) = dom (map_of m) \<union> (if reach p then insert p (connected_peers c) else {})"
  by (auto simp: collect_conn_def add_all noted_add dom_add)

lemma collect_noted:
  "keys_distinct conns \<Longrightarrow> noted (fold (collect_conn reach) conns m) q =
     max (noted m q) (case map_of conns q of Some c \<Rightarrow> if reach q then conn_version c else 0 | None \<Rightarrow> 0)"
proof (induction conns arbitrary: m)
  case (Cons x conns)
  obtain p c where x: "x = (p, c)" by (cases x)
  have "q = p \<Longrightarrow> map_of conns q = None" using Cons.prems by (auto simp: x map_of_eq_None_iff)
  then show ?case using Cons.IH [of "collect_conn reach x m"] Cons.prems by (auto simp: x collect_conn_spec max.commute)
qed (simp add: max_def)

lemma collect_dom:
  "dom (map_of (fold (collect_conn reach) conns m)) = dom (map_of m) \<union> (\<Union>(p, c)\<in>set conns. if reach p then insert p (connected_peers c) else {})"
proof (induction conns arbitrary: m)
  case (Cons x conns)
  obtain p c where x: "x = (p, c)" by (cases x)
  show ?case unfolding fold_Cons comp_apply Cons.IH x collect_conn_spec(2) by (simp add: Un_assoc)
qed simp

lemma row_bit_unique: "i * n + k = r * n + l \<Longrightarrow> k < n \<Longrightarrow> l < n \<Longrightarrow> i = r \<and> k = (l :: nat)"
  by (metis div_mult_self3 div_less add_0_right mod_mult_self3 mod_less gr_implies_not0)

text \<open>
  C24. The bitmap says what the map of connections says: it is built without panic, it is well formed for the
  receiver, and for every reachable peer the receiver decodes from it exactly the version and the connections
  of that peer.
\<close>

theorem conn_bitmap_roundtrip:
  assumes "keys_distinct conns"
  shows "\<exists>bm. build_local_conn_bitmap reach conns = Some bm \<and> conn_ok (ConnBitmap bm) \<and>
    (\<forall>p c. map_of conns p = Some c \<longrightarrow> reach p \<longrightarrow> (p, conn_version c, connected_peers c) \<in> set (conn_entries (ConnBitmap bm)))"
proof -
  define all where "all = collect_all_peer_ids reach conns"
  let ?ids = "map fst all" and ?n = "length all"
  let ?zero = "replicate ((?n * ?n + 7) div 8) (0 :: u8)"
  have len: "?n * ?n \<le> 8 * length ?zero" by simp
  then obtain bits where bits: "fill_conn_rows conns ?ids 0 ?ids ?zero = Some bits" "length bits = length ?zero"
      "\<And>j. bit_at bits j \<longleftrightarrow> bit_at ?zero j \<or> (\<exists>r < ?n. \<exists>c. map_of conns (?ids ! r) = Some c \<and>
         (\<exists>k < ?n. j = (0 + r) * ?n + k \<and> ?ids ! k \<in> connected_peers c))"
    using fill_conn_rows_Some [of 0 ?ids ?ids ?zero conns] by auto
  have z: "\<not> bit_at ?zero j" for j by (simp add: bit_at_def)
  define bm where "bm = \<lparr>peer_ids = map (\<lambda>(p, v). \<lparr>pv_peer_id = p, pv_version = v\<rparr>) all, bitmap = bits\<rparr>"
  have built: "build_local_conn_bitmap reach conns = Some bm"
    using bits(1) by (simp add: build_local_conn_bitmap_def all_def [symmetric] bm_def Let_def)
  have bit: "bit_at bits (i * ?n + k) \<longleftrightarrow> (\<exists>c. map_of conns (?ids ! i) = Some c \<and> ?ids ! k \<in> connected_peers c)" if "i < ?n" "k < ?n" for i k
    using bits(3) z that row_bit_unique [of i ?n k] by fastforce
  have row: "bitmap_connected_peers bm i = Some (connected_peers c)"
    if i: "i < ?n" and c: "map_of conns (?ids ! i) = Some c" and sub: "connected_peers c \<subseteq> set ?ids" for i c
  proof -
    have "i * ?n + ?n \<le> ?n * ?n" using i by (metis add.commute mult_Suc mult_le_mono1 Suc_leI)
    then have "i * length (peer_ids bm) + 0 + length (peer_ids bm) \<le> 8 * length (bitmap bm)" using bits(2) len by (simp add: bm_def)
    from connected_loop_set [OF this]
    have "bitmap_connected_peers bm i = Some {pv_peer_id (peer_ids bm ! k) | k. k < ?n \<and> bit_at bits (i * ?n + k)}"
      by (simp add: bitmap_connected_peers_def bm_def)
    moreover have "k < ?n \<Longrightarrow> pv_peer_id (peer_ids bm ! k) = ?ids ! k" for k by (simp add: bm_def case_prod_beta)
    then have "{pv_peer_id (peer_ids bm ! k) | k. k < ?n \<and> bit_at bits (i * ?n + k)} = {?ids ! k | k. k < ?n \<and> bit_at bits (i * ?n + k)}"
      by (intro Collect_cong) metis
    ultimately have "bitmap_connected_peers bm i = Some {?ids ! k | k. k < ?n \<and> bit_at bits (i * ?n + k)}" by simp
    also have "{?ids ! k | k. k < ?n \<and> bit_at bits (i * ?n + k)} = {?ids ! k | k. k < ?n \<and> ?ids ! k \<in> connected_peers c}"
      using bit [OF i] c by (auto cong: conj_cong)
    also have "\<dots> = connected_peers c" using sub by (force simp: set_conv_nth)
    finally show ?thesis .
  qed
  have "(p, conn_version c, connected_peers c) \<in> set (conn_entries (ConnBitmap bm))" if c: "map_of conns p = Some c" and r: "reach p" for p c
  proof -
    have dom: "insert p (connected_peers c) \<subseteq> dom (map_of all)"
      using collect_dom [of reach conns "[]"] map_of_SomeD [OF c] r by (auto simp: all_def collect_all_peer_ids_def) force+
    have "noted all p = conn_version c"
      using collect_noted [OF assms, of reach "[]" p] c r by (simp add: all_def collect_all_peer_ids_def noted_def max_def)
    moreover obtain v where v: "map_of all p = Some v" using dom by blast
    ultimately have "(p, conn_version c) \<in> set all" using map_of_SomeD [OF v] by (simp add: noted_def)
    then obtain i where i: "i < ?n" "all ! i = (p, conn_version c)" by (auto simp: in_set_conv_nth)
    have "connected_peers c \<subseteq> set ?ids" using dom by (force simp: dom_map_of_conv_image_fst)
    then have "bitmap_connected_peers bm i = Some (connected_peers c)" using row [OF i(1)] i c by simp
    moreover have "(i, \<lparr>pv_peer_id = p, pv_version = conn_version c\<rparr>) \<in> set (List.enumerate 0 (peer_ids bm))"
      using i by (simp add: in_set_enumerate_eq bm_def)
    ultimately show ?thesis by (force simp: image_iff)
  qed
  moreover have "conn_ok (ConnBitmap bm)" using bits(2) len by (simp add: bm_def)
  ultimately show ?thesis using built by blast
qed

definition demo_conns :: "(PeerId \<times> RouteConnInfo) list" where
  "demo_conns = [(1, \<lparr>connected_peers = {2}, conn_version = 3, conn_last_update = 0\<rparr>),
     (2, \<lparr>connected_peers = {1, 7}, conn_version = 5, conn_last_update = 0\<rparr>)]"

theorem conn_bitmap_roundtrip_witness:
  "\<exists>bm. build_local_conn_bitmap (\<lambda>_. True) demo_conns = Some bm \<and> conn_ok (ConnBitmap bm) \<and>
    (2, 5, {1, 7}) \<in> set (conn_entries (ConnBitmap bm))"
proof -
  have d: "keys_distinct demo_conns" and m: "map_of demo_conns 2 = Some \<lparr>connected_peers = {1, 7}, conn_version = 5, conn_last_update = 0\<rparr>"
    by (simp_all add: demo_conns_def)
  show ?thesis using conn_bitmap_roundtrip [OF d, of "\<lambda>_. True"] m by fastforce
qed

section \<open>What the handler stores\<close>

text \<open>A successful update merges the descriptions by version, whatever they are.\<close>

lemma update_peer_infos_loop_success:
  "update_peer_infos_loop raw_id now my my_route dst infos raws need si = Some (Inr need', si') \<Longrightarrow>
   peer_view si' = fold join (peer_entries infos) (peer_view si)"
proof (induction infos arbitrary: raws need si)
  case (Cons info infos)
  from Cons.prems obtain raw raws' where raws: "raws = raw # raws'" by (cases raws) auto
  obtain u where c: "check_duplicate_peer_id my my_route dst
      (if peer_id info = dst then map_option peer_route_id (map_of (peer_infos si) dst) else None) info si = Some (Inr u)"
      "raw_id raw = Some (peer_id info)"
  proof -
    from Cons.prems obtain chk where chk: "check_duplicate_peer_id my my_route dst
        (if peer_id info = dst then map_option peer_route_id (map_of (peer_infos si) dst) else None) info si = Some chk"
      unfolding raws update_peer_infos_loop.simps bind_eq_Some_conv by blast
    then obtain u where u: "chk = Inr u" using Cons.prems by (cases chk) (auto simp: raws)
    have "raw_id raw = Some (peer_id info)"
      using Cons.prems by (simp add: raws chk u bind_eq_Some_conv) (auto split: if_splits)
    then show thesis using that chk u by blast
  qed
  show ?case
  proof (cases "case map_of (peer_infos si) (peer_id info) of None \<Rightarrow> True | Some old \<Rightarrow> version old < version info")
    case True
    then have "update_peer_infos_loop raw_id now my my_route dst infos raws' True (put_info now info raw si) = Some (Inr need', si')"
      using Cons.prems c by (simp add: raws put_info_def Let_def split: option.splits)
    from Cons.IH [OF this] show ?thesis using put_info_join [OF True, of now raw] by (simp add: peer_entries_def)
  next
    case False
    then obtain old where old: "map_of (peer_infos si) (peer_id info) = Some old" "\<not> version old < version info"
      by (auto split: option.splits)
    then have "update_peer_infos_loop raw_id now my my_route dst infos raws' need si = Some (Inr need', si')"
      using Cons.prems c by (simp add: raws Let_def)
    from Cons.IH [OF this] show ?thesis using old_info_join [OF old] by (simp add: peer_entries_def)
  qed
qed (simp add: peer_entries_def)

lemma update_peer_infos_success:
  "update_peer_infos raw_id now my my_route dst infos raws si = Some (Inr u, si') \<Longrightarrow> peer_view si' = fold join (peer_entries infos) (peer_view si)"
proof -
  assume a: "update_peer_infos raw_id now my my_route dst infos raws si = Some (Inr u, si')"
  then obtain res si1 where l: "update_peer_infos_loop raw_id now my my_route dst infos raws False si = Some (res, si1)"
    by (auto simp: update_peer_infos_def bind_eq_Some_conv)
  obtain need where "res = Inr need" using a l by (cases res) (auto simp: update_peer_infos_def)
  then show ?thesis using a l update_peer_infos_loop_success [of raw_id now my my_route dst infos raws False si need si1]
    by (auto simp: update_peer_infos_def split: if_splits)
qed

lemma group_trusts_keep [simp]:
  "peer_infos (verify_and_update_group_trusts hmac infos decls b si) = peer_infos si"
  "conn_map (verify_and_update_group_trusts hmac infos decls b si) = conn_map si"
  "foreign_network (verify_and_update_group_trusts hmac infos decls b si) = foreign_network si"
  "trusted_keys (verify_and_update_group_trusts hmac infos decls b si) = trusted_keys si"
  unfolding verify_and_update_group_trusts_def
  by (rule fold_keeps; auto simp: Let_def split: option.split)+

lemma peer_view_cong: "peer_infos a = peer_infos b \<Longrightarrow> peer_view a = peer_view b"
  by (simp add: peer_view_def fun_eq_iff)

text \<open>Received connections only add placeholders to the descriptions.\<close>

lemma peer_view_fill_one: "peer_view (snd (fill_one ver now p st)) = peer_view (snd st)"
  by (cases st) (auto simp: fill_one_def peer_view_def fun_eq_iff update_conv' route_peer_info_new_def split: option.splits)

lemma peer_view_fill [simp]: "peer_view (fill_empty_peer_info ver now ids si) = peer_view si"
proof -
  have "peer_view (snd (fold (fill_one ver now) ps st)) = peer_view (snd st)" for ps and st :: "bool \<times> 'a SyncedRouteInfo"
    by (induction ps arbitrary: st) (simp_all add: peer_view_fill_one)
  then show ?thesis by (auto simp: fill_empty_peer_info_def split: prod.splits) (metis snd_conv)+
qed

lemma peer_view_one_peer [simp]: "peer_view (snd (update_conn_info_one_peer now pv c si)) = peer_view si"
  by (auto simp: update_conn_info_one_peer_def intro: peer_view_cong)



text \<open>What the two steps keep, a whole message of connections keeps.\<close>

lemma update_conn_info_keeps:
  fixes f :: "'raw SyncedRouteInfo \<Rightarrow> 'x"
  assumes fill: "\<And>ids si. f (fill_empty_peer_info ver now ids si) = f si"
    and one: "\<And>pv c si. f (snd (update_conn_info_one_peer now pv c si)) = f si"
    and ver: "\<And>si v. f (si\<lparr>synced_version := v\<rparr>) = f si"
    and upd: "update_conn_info ver now ci si = Some si'"
  shows "f si' = f si"
proof -
  have bl: "bitmap_loop ver now bm i pvs need si = Some (need', si') \<Longrightarrow> f si' = f si" for bm i pvs need need' si si'
  proof (induction pvs arbitrary: i need si)
    case (Cons pv pvs)
    then obtain c where c: "bitmap_connected_peers bm i = Some c" by (auto simp: bind_eq_Some_conv)
    let ?u = "update_conn_info_one_peer now pv c (fill_empty_peer_info ver now c si)"
    have "bitmap_loop ver now bm (i + 1) pvs (need \<or> fst ?u) (snd ?u) = Some (need', si')" using Cons.prems by (simp add: c Let_def case_prod_beta)
    from Cons.IH [OF this] show ?case by (simp add: fill one)
  qed simp
  have ll: "f (snd (list_loop ver now pcs need si)) = f si" for pcs need si
    by (induction pcs arbitrary: need si) (auto simp: Let_def case_prod_beta fill one split: option.split)
  show ?thesis
  proof (cases ci)
    case (ConnBitmap bm)
    then show ?thesis using upd
      by (auto simp: update_conn_info_def update_conn_info_with_bitmap_def bind_eq_Some_conv fill ver dest!: bl split: if_splits)
  next
    case (ConnPeerList pcs)
    then show ?thesis using upd ll [of pcs False si]
      by (auto simp: update_conn_info_def update_conn_info_with_list_def ver split: prod.splits if_splits)
  qed
qed

lemmas peer_view_conn_info = update_conn_info_keeps [where f = peer_view, OF peer_view_fill peer_view_one_peer peer_view_version]


text \<open>Rebuilding the tables keeps the synced information and the identity of the node.\<close>

lemma update_route_table_keeps:
  assumes "update_route_table_and_cached_local_conn_bitmap env now sv = Some sv'"
  shows "synced_route_info sv' = synced_route_info sv" "my_peer_id sv' = my_peer_id sv" "my_peer_route_id sv' = my_peer_route_id sv" "sessions sv' = sessions sv"
proof -
  obtain s1 where 1: "update_route_table env (sv\<lparr>peer_info_last_update := now\<rparr>) = Some s1"
    using assms unfolding update_route_table_and_cached_local_conn_bitmap_def Let_def bind_eq_Some_conv by blast
  obtain bm where 2: "build_local_conn_bitmap (peer_reachable (route_table s1)) (conn_map (synced_route_info s1)) = Some bm"
    using assms unfolding update_route_table_and_cached_local_conn_bitmap_def Let_def 1 bind.bind_lunit bind_eq_Some_conv by blast
  have "sv' = s1 \<or> (\<exists>v b. sv' = s1\<lparr>cached_local_conn_map_version := v, cached_local_conn_map := b\<rparr>)"
    using assms by (auto simp: update_route_table_and_cached_local_conn_bitmap_def Let_def 1 2 set_if_larger_def split: if_splits)
  moreover obtain rt rtc where "s1 = sv\<lparr>peer_info_last_update := now, route_table := rt, route_table_with_cost := rtc\<rparr>"
    using 1 unfolding update_route_table_def bind_eq_Some_conv by auto
  ultimately show "synced_route_info sv' = synced_route_info sv" "my_peer_id sv' = my_peer_id sv" "my_peer_route_id sv' = my_peer_route_id sv" "sessions sv' = sessions sv"
    by auto
qed

lemma owner_map_keeps [simp]:
  "synced_route_info (update_foreign_network_owner_map sv) = synced_route_info sv"
  "my_peer_id (update_foreign_network_owner_map sv) = my_peer_id sv"
  unfolding update_foreign_network_owner_map_def
  by (rule trans [OF fold_keeps]; auto simp: Let_def split: prod.split)+

lemma refresh_trusts_stores:
  assumes "refresh_credential_trusts_with_current_topology env now sv = Some (untrusted, sv')"
  shows "peer_infos (synced_route_info sv') = filter (\<lambda>(p, _). p \<notin> set untrusted) (peer_infos (synced_route_info sv))"
    and "conn_map (synced_route_info sv') = filter (\<lambda>(p, _). p \<notin> set untrusted) (conn_map (synced_route_info sv))"
    and "foreign_network (synced_route_info sv') = filter (\<lambda>(k, _). fk_peer_id k \<notin> set untrusted) (foreign_network (synced_route_info sv))"
    and "my_peer_id sv' = my_peer_id sv" and "sessions sv' = sessions sv"
proof -
  obtain s1 where s1: "update_route_table_and_cached_local_conn_bitmap env now sv = Some s1"
    using assms by (auto simp: refresh_credential_trusts_with_current_topology_def bind_eq_Some_conv)
  obtain u keys si where v: "verify_and_update_credential_trusts_protecting (env_trust env) (env_network_secret env) (int (now div SEC))
      (is_active_non_reusable_credential_peer s1) (Some (my_peer_id s1)) (synced_route_info s1) = (u, keys, si)"
    by (metis prod_cases3)
  have r: "u = untrusted" "synced_route_info sv' = si" "my_peer_id sv' = my_peer_id s1" "sessions sv' = sessions s1"
    using assms s1 v by (auto simp: refresh_credential_trusts_with_current_topology_def Let_def bind_eq_Some_conv split: if_splits dest: update_route_table_keeps)
  note k = update_route_table_keeps [OF s1] and c = credential_trusts_stores [OF v]
  show "peer_infos (synced_route_info sv') = filter (\<lambda>(p, _). p \<notin> set untrusted) (peer_infos (synced_route_info sv))"
    "conn_map (synced_route_info sv') = filter (\<lambda>(p, _). p \<notin> set untrusted) (conn_map (synced_route_info sv))"
    "foreign_network (synced_route_info sv') = filter (\<lambda>(k, _). fk_peer_id k \<notin> set untrusted) (foreign_network (synced_route_info sv))"
    using c r k by simp_all
  show "my_peer_id sv' = my_peer_id sv" "sessions sv' = sessions sv" using r k by simp_all
qed

lemma update_foreign_keeps:
  "peer_infos (snd (update_foreign_network now fns si)) = peer_infos si"
  "conn_map (snd (update_foreign_network now fns si)) = conn_map si"
  by (induction now fns si rule: update_foreign_network.induct) (auto simp: Let_def case_prod_beta split: prod.splits option.splits)

text \<open>The identity of the sender is what the interface reports; it does not depend on the sessions.\<close>

definition sender_identity :: "route_interface \<Rightarrow> PeerId \<Rightarrow> ('raw, 'c4, 'c6) PeerRouteServiceImpl \<Rightarrow> PeerIdentityType option" where
  "sender_identity ifc p sv = fst (get_peer_identity_type_from_interface ifc p sv)"

lemma identity_after_session:
  "fst (get_peer_identity_type_from_interface ifc p (snd (get_or_create_session random q sv))) = sender_identity ifc p sv"
  "synced_route_info (snd (get_peer_identity_type_from_interface ifc p sv)) = synced_route_info sv"
  "my_peer_id (snd (get_peer_identity_type_from_interface ifc p sv)) = my_peer_id sv"
  "sessions (snd (get_peer_identity_type_from_interface ifc p sv)) = sessions sv"
  "synced_route_info (snd (get_or_create_session random q sv)) = synced_route_info sv"
  "my_peer_id (snd (get_or_create_session random q sv)) = my_peer_id sv"
  by (auto simp: sender_identity_def get_peer_identity_type_from_interface_def interface_peer_snapshot_def get_or_create_session_def
      interface_peer_snapshot_uncached_def Let_def split: option.split prod.split)

text \<open>The credential of the sender as the handler finds it.\<close>

definition sender_credential :: "route_interface \<Rightarrow> PeerId \<Rightarrow> ('raw, 'c4, 'c6) PeerRouteServiceImpl \<Rightarrow> TrustedCredentialPubkey option" where
  "sender_credential ifc p sv = (if sender_identity ifc p sv = Some Credential
     then Option.bind (if_public_key ifc p) (get_credential_info_by_pubkey (synced_route_info sv)) else None)"

text \<open>The handler, once the session and the identity of the sender are known.\<close>

lemma do_sync_body:
  assumes "from = req_my_peer_id req" and "cred = sender_credential ifc from sv"
  obtains sv0 session0 where "synced_route_info sv0 = synced_route_info sv" "my_peer_id sv0 = my_peer_id sv"
    "sessions sv0 = sessions (snd (get_or_create_session random from sv))"
    "session0 = update_dst_session_id (req_my_session_id req) ((fst (get_or_create_session random from sv))
      \<lparr>rpc_rx_count := rpc_rx_count (fst (get_or_create_session random from sv)) + 1\<rparr>)"
    "do_sync_route_info env hook ifc now random req sv = (if sender_identity ifc from sv = Some Credential \<and> cred = None
     then Some \<lparr>outcome_result = Inl Stopped, closed_peers = [], trigger_sync = False, outcome_service = sv0\<rparr>
     else do {
       (res, session, si) \<leftarrow> handle_peer_infos env now (my_peer_id sv) (my_peer_route_id sv0) from cred
         (req_peer_infos req) (req_raw_peer_infos req) (session0, synced_route_info sv);
       case res of
         Inl e \<Rightarrow> Some \<lparr>outcome_result = Inl e, closed_peers = [], trigger_sync = False,
           outcome_service = put_session session (sv0\<lparr>synced_route_info := si\<rparr>)\<rparr>
       | Inr stored \<Rightarrow> do {
           (conn_stored, session, si) \<leftarrow> handle_conn_info env now from cred (req_conn_info req) (session, si);
           (untrusted, sv3) \<leftarrow> (if stored \<or> conn_stored then refresh_credential_trusts_with_current_topology env now (sv0\<lparr>synced_route_info := si\<rparr>)
             else Some ([], sv0\<lparr>synced_route_info := si\<rparr>));
           (foreign_changed, session, si) \<leftarrow> handle_foreign now from cred (req_foreign_network_infos req) (session, synced_route_info sv3);
           sv4 \<leftarrow> (if (stored \<or> conn_stored) \<or> foreign_changed
             then do {
               sv \<leftarrow> update_route_table_and_cached_local_conn_bitmap env now (sv3\<lparr>synced_route_info := si\<rparr>);
               Some (if stored \<or> conn_stored then snd (hook (update_foreign_network_owner_map sv)) else update_foreign_network_owner_map sv) }
             else Some (sv3\<lparr>synced_route_info := si\<rparr>));
           Some \<lparr>outcome_result = Inr \<lparr>resp_is_initiator = we_are_initiator (session\<lparr>dst_is_initiator := req_is_initiator req\<rparr>),
               resp_session_id = my_session_id (session\<lparr>dst_is_initiator := req_is_initiator req\<rparr>), resp_error = None\<rparr>,
             closed_peers = untrusted, trigger_sync = ((stored \<or> conn_stored) \<or> foreign_changed),
             outcome_service = put_session (session\<lparr>dst_is_initiator := req_is_initiator req\<rparr>) sv4\<rparr> } })"
proof -
  define sv1 where "sv1 = snd (get_or_create_session random from sv)"
  define sv0 where "sv0 = snd (get_peer_identity_type_from_interface ifc from sv1)"
  define session0 where "session0 = update_dst_session_id (req_my_session_id req)
     ((fst (get_or_create_session random from sv))\<lparr>rpc_rx_count := rpc_rx_count (fst (get_or_create_session random from sv)) + 1\<rparr>)"
  have ids: "fst (get_peer_identity_type_from_interface ifc from sv1) = sender_identity ifc from sv"
      "synced_route_info sv0 = synced_route_info sv" "my_peer_id sv0 = my_peer_id sv" "sessions sv0 = sessions (snd (get_or_create_session random from sv))"
    by (simp_all add: sv1_def sv0_def identity_after_session)
  have cred: "(if sender_identity ifc from sv = Some Credential
      then Option.bind (if_public_key ifc from) (get_credential_info_by_pubkey (synced_route_info sv)) else None) = cred"
    by (simp add: assms(2) sender_credential_def)
  show thesis
    by (rule that [OF ids(2,3,4) session0_def], unfold do_sync_route_info_def Let_def case_prod_beta fst_conv snd_conv,
      unfold assms(1) [symmetric] sv1_def [symmetric] ids(1) sv0_def [symmetric] ids(2,3) cred session0_def [symmetric], rule refl)
qed

text \<open>The steps of a request that is not refused.\<close>

lemma do_sync_steps:
  assumes "do_sync_route_info env hook ifc now random req sv = Some out" and "outcome_result out = Inr resp"
  obtains session0 session1 session2 session3 stored si1 conn_stored si2 sv0 untrusted sv3 changed si4 sv5 where
    "sender_identity ifc (req_my_peer_id req) sv = Some Credential \<longrightarrow> sender_credential ifc (req_my_peer_id req) sv \<noteq> None"
    "handle_peer_infos env now (my_peer_id sv) (my_peer_route_id sv0) (req_my_peer_id req) (sender_credential ifc (req_my_peer_id req) sv)
       (req_peer_infos req) (req_raw_peer_infos req) (session0, synced_route_info sv) = Some (Inr stored, session1, si1)"
    "handle_conn_info env now (req_my_peer_id req) (sender_credential ifc (req_my_peer_id req) sv) (req_conn_info req) (session1, si1)
       = Some (conn_stored, session2, si2)"
    "(if stored \<or> conn_stored then refresh_credential_trusts_with_current_topology env now (sv0\<lparr>synced_route_info := si2\<rparr>)
      else Some ([], sv0\<lparr>synced_route_info := si2\<rparr>)) = Some (untrusted, sv3)"
    "handle_foreign now (req_my_peer_id req) (sender_credential ifc (req_my_peer_id req) sv) (req_foreign_network_infos req)
       (session2, synced_route_info sv3) = Some (changed, session3, si4)"
    "my_peer_id sv0 = my_peer_id sv" "my_peer_id sv5 = my_peer_id sv3" "synced_route_info sv5 = si4"
    "synced_route_info (outcome_service out) = synced_route_info (if stored \<or> conn_stored then snd (hook sv5) else sv5)"
    "my_peer_id (outcome_service out) = my_peer_id (if stored \<or> conn_stored then snd (hook sv5) else sv5)"
    "closed_peers out = untrusted"
proof -
  let ?from = "req_my_peer_id req"
  define cred where "cred = sender_credential ifc ?from sv"
  obtain sv0 session0 where ids: "synced_route_info sv0 = synced_route_info sv" "my_peer_id sv0 = my_peer_id sv"
    and body: "do_sync_route_info env hook ifc now random req sv = (if sender_identity ifc ?from sv = Some Credential \<and> cred = None
     then Some \<lparr>outcome_result = Inl Stopped, closed_peers = [], trigger_sync = False, outcome_service = sv0\<rparr>
     else do {
       (res, session, si) \<leftarrow> handle_peer_infos env now (my_peer_id sv) (my_peer_route_id sv0) ?from cred
         (req_peer_infos req) (req_raw_peer_infos req) (session0, synced_route_info sv);
       case res of
         Inl e \<Rightarrow> Some \<lparr>outcome_result = Inl e, closed_peers = [], trigger_sync = False,
           outcome_service = put_session session (sv0\<lparr>synced_route_info := si\<rparr>)\<rparr>
       | Inr stored \<Rightarrow> do {
           (conn_stored, session, si) \<leftarrow> handle_conn_info env now ?from cred (req_conn_info req) (session, si);
           (untrusted, sv3) \<leftarrow> (if stored \<or> conn_stored then refresh_credential_trusts_with_current_topology env now (sv0\<lparr>synced_route_info := si\<rparr>)
             else Some ([], sv0\<lparr>synced_route_info := si\<rparr>));
           (foreign_changed, session, si) \<leftarrow> handle_foreign now ?from cred (req_foreign_network_infos req) (session, synced_route_info sv3);
           sv4 \<leftarrow> (if (stored \<or> conn_stored) \<or> foreign_changed
             then do {
               sv \<leftarrow> update_route_table_and_cached_local_conn_bitmap env now (sv3\<lparr>synced_route_info := si\<rparr>);
               Some (if stored \<or> conn_stored then snd (hook (update_foreign_network_owner_map sv)) else update_foreign_network_owner_map sv) }
             else Some (sv3\<lparr>synced_route_info := si\<rparr>));
           Some \<lparr>outcome_result = Inr \<lparr>resp_is_initiator = we_are_initiator (session\<lparr>dst_is_initiator := req_is_initiator req\<rparr>),
               resp_session_id = my_session_id (session\<lparr>dst_is_initiator := req_is_initiator req\<rparr>), resp_error = None\<rparr>,
             closed_peers = untrusted, trigger_sync = ((stored \<or> conn_stored) \<or> foreign_changed),
             outcome_service = put_session (session\<lparr>dst_is_initiator := req_is_initiator req\<rparr>) sv4\<rparr> } })"
    by (rule do_sync_body [OF refl cred_def, where env = env and hook = hook and now = now and random = random]) (rule that)
  note body = body [unfolded assms(1), symmetric]
  have ok: "\<not> (sender_identity ifc ?from sv = Some Credential \<and> cred = None)"
  proof
    assume "sender_identity ifc ?from sv = Some Credential \<and> cred = None"
    then have "out = \<lparr>outcome_result = Inl Stopped, closed_peers = [], trigger_sync = False, outcome_service = sv0\<rparr>" using body by simp
    then show False using assms(2) by simp
  qed
  note body = body [unfolded if_not_P [OF ok] bind_eq_Some_conv]
  obtain res session1 si1 where 1: "handle_peer_infos env now (my_peer_id sv) (my_peer_route_id sv0) ?from cred
         (req_peer_infos req) (req_raw_peer_infos req) (session0, synced_route_info sv) = Some (res, session1, si1)"
    using body by (metis prod_cases3)
  obtain stored where st: "res = Inr stored" using body assms(2) by (cases res) (auto simp: 1)
  note body = body [unfolded 1 st option.inject ex_simps simp_thms prod.case sum.case]
  obtain conn_stored session2 si2 where 2: "handle_conn_info env now ?from cred (req_conn_info req) (session1, si1) = Some (conn_stored, session2, si2)"
    using body by (auto simp: bind_eq_Some_conv)
  obtain untrusted sv3 where 3: "(if stored \<or> conn_stored then refresh_credential_trusts_with_current_topology env now (sv0\<lparr>synced_route_info := si2\<rparr>)
      else Some ([], sv0\<lparr>synced_route_info := si2\<rparr>)) = Some (untrusted, sv3)"
    using body by (auto simp: bind_eq_Some_conv 2 split: if_splits)
  obtain changed session3 si4 where 4: "handle_foreign now ?from cred (req_foreign_network_infos req) (session2, synced_route_info sv3) = Some (changed, session3, si4)"
    using body by (auto simp: bind_eq_Some_conv 2 3 split: if_splits)
  have "\<exists>sv5. my_peer_id sv5 = my_peer_id sv3 \<and> synced_route_info sv5 = si4 \<and> (\<exists>s. outcome_service out = put_session s (if stored \<or> conn_stored then snd (hook sv5) else sv5)) \<and>
      closed_peers out = untrusted"
  proof (cases "(stored \<or> conn_stored) \<or> changed")
    case True
    then obtain sv4 where u: "update_route_table_and_cached_local_conn_bitmap env now (sv3\<lparr>synced_route_info := si4\<rparr>) = Some sv4"
      using body by (auto simp: bind_eq_Some_conv 2 3 4 split: if_splits)
    show ?thesis using body True update_route_table_keeps [OF u]
      by (intro exI [of _ "update_foreign_network_owner_map sv4"]) (auto simp: 2 3 4 u split: if_splits)
  next
    case False
    show ?thesis using body False by (intro exI [of _ "sv3\<lparr>synced_route_info := si4\<rparr>"]) (auto simp: 2 3 4)
  qed
  then obtain sv5 s where 5: "my_peer_id sv5 = my_peer_id sv3" "synced_route_info sv5 = si4"
      "outcome_service out = put_session s (if stored \<or> conn_stored then snd (hook sv5) else sv5)" "closed_peers out = untrusted" by blast
  show thesis
    by (rule that [OF _ 1 [unfolded st cred_def] 2 [unfolded cred_def] 3 4 [unfolded cred_def] ids(2) 5(1,2) _ _ 5(4)])
      (use ok 5(3) in \<open>auto simp: cred_def put_session_def\<close>)
qed


section \<open>An exchange delivers\<close>

lemma handle_peer_infos_view:
  assumes "handle_peer_infos env now my my_route from None infos raws (session, si) = Some (Inr stored, session', si')"
  shows "peer_view si' = fold join (peer_entries (case infos of Some is \<Rightarrow> is | None \<Rightarrow> [])) (peer_view si)"
proof (cases infos)
  case (Some p_infos)
  then obtain rs where rs: "raws = Some rs" using assms by (cases raws) (auto simp: handle_peer_infos_def)
  show ?thesis
  proof (cases "p_infos = []")
    case False
    then obtain res si1 where u: "update_peer_infos (env_raw_id env) now my my_route from p_infos rs si = Some (res, si1)"
      using assms by (auto simp: handle_peer_infos_def Some rs bind_eq_Some_conv)
    obtain x where r: "res = Inr x" using assms False by (cases res) (auto simp: handle_peer_infos_def Some rs u)
    have "peer_infos si' = peer_infos si1" using assms False by (auto simp: handle_peer_infos_def Some rs u r Let_def)
    then show ?thesis using update_peer_infos_success [OF u [unfolded r]] peer_view_cong [of si' si1] by (simp add: Some)
  qed (use assms in \<open>auto simp: handle_peer_infos_def Some rs peer_entries_def\<close>)
qed (use assms in \<open>auto simp: handle_peer_infos_def peer_entries_def\<close>)

lemma handle_conn_info_view:
  assumes "handle_conn_info env now from cred ci (session, si) = Some (b, session', si')"
  shows "peer_view si' = peer_view si"
  using assms by (auto simp: handle_conn_info_def bind_eq_Some_conv dest: peer_view_conn_info split: option.splits if_splits)

lemma handle_foreign_keeps:
  assumes "handle_foreign now from cred fns (session, si) = Some (b, session', si')"
  shows "peer_infos si' = peer_infos si" and "conn_map si' = conn_map si"
  using assms update_foreign_keeps [of now "the fns" si]
  by (auto simp: handle_foreign_def Let_def case_prod_beta bind_eq_Some_conv split: option.splits if_splits)

text \<open>The callback does not take descriptions away.\<close>

definition hook_keeps_versions :: "(('raw, 'c4, 'c6) PeerRouteServiceImpl \<Rightarrow> bool \<times> ('raw, 'c4, 'c6) PeerRouteServiceImpl) \<Rightarrow> bool" where
  "hook_keeps_versions hook \<longleftrightarrow> (\<forall>sv p. fst (peer_view (synced_route_info sv) p) \<le> fst (peer_view (synced_route_info (snd (hook sv))) p))"

lemma handler_delivers:
  assumes do: "do_sync_route_info env hook ifc now random req sv = Some out" "outcome_result out = Inr resp"
    and id: "sender_identity ifc (req_my_peer_id req) sv \<noteq> Some Credential" and "closed_peers out = []" and "hook_keeps_versions hook"
  shows "fst (peer_view (synced_route_info sv) p) \<le> fst (peer_view (synced_route_info (outcome_service out)) p)"
    and "i \<in> set (case req_peer_infos req of Some is \<Rightarrow> is | None \<Rightarrow> []) \<Longrightarrow> version i \<le> fst (peer_view (synced_route_info (outcome_service out)) (peer_id i))"
proof -
  have cred: "sender_credential ifc (req_my_peer_id req) sv = None" using id by (simp add: sender_credential_def)
  from do show "fst (peer_view (synced_route_info sv) p) \<le> fst (peer_view (synced_route_info (outcome_service out)) p)"
    and "i \<in> set (case req_peer_infos req of Some is \<Rightarrow> is | None \<Rightarrow> []) \<Longrightarrow> version i \<le> fst (peer_view (synced_route_info (outcome_service out)) (peer_id i))"
  proof (atomize (full), cases rule: do_sync_steps)
    case (1 session0 session1 session2 session3 stored si1 conn_stored si2 sv0 untrusted sv3 changed si4 sv5)
    let ?infos = "case req_peer_infos req of Some is \<Rightarrow> is | None \<Rightarrow> []"
    have "peer_infos (synced_route_info sv3) = peer_infos si2"
      using 1(4) 1(11) assms(4) refresh_trusts_stores(1) [of env now "sv0\<lparr>synced_route_info := si2\<rparr>" untrusted sv3] by (auto split: if_splits)
    then have "peer_view (synced_route_info sv5) = peer_view si2"
      using 1(8) handle_foreign_keeps(1) [OF 1(5)] by (intro peer_view_cong) simp
    then have v5: "peer_view (synced_route_info sv5) = fold join (peer_entries ?infos) (peer_view (synced_route_info sv))"
      using handle_conn_info_view [OF 1(3)] handle_peer_infos_view [OF 1(2) [unfolded cred]] by simp
    have mono: "fst (peer_view (synced_route_info sv5) q) \<le> fst (peer_view (synced_route_info (outcome_service out)) q)" for q
      using assms(5) by (simp add: 1(9) hook_keeps_versions_def)
    have "version i \<le> fst (peer_view (synced_route_info sv5) (peer_id i))" if "i \<in> set ?infos"
      unfolding v5 by (rule fold_join_upper [where v = "i\<lparr>last_update := None\<rparr>"]) (use that in \<open>auto simp: peer_entries_def\<close>)
    then show "fst (peer_view (synced_route_info sv) p) \<le> fst (peer_view (synced_route_info (outcome_service out)) p) \<and>
      (i \<in> set ?infos \<longrightarrow> version i \<le> fst (peer_view (synced_route_info (outcome_service out)) (peer_id i)))"
      using mono [of p] mono [of "peer_id i"] fold_join_ge [of "peer_view (synced_route_info sv)" p "peer_entries ?infos"]
      unfolding v5 by (auto intro: order_trans)
  qed
qed


text \<open>The parts of a request, and what a response changes of the descriptions' side of the session.\<close>

lemma build_conn_info_keeps [simp]:
  "dst_saved_peer_info_versions (snd (build_conn_info force now dst sv s)) = dst_saved_peer_info_versions s"
  "unreachable_peers_for_peer_info (snd (build_conn_info force now dst sv s)) = unreachable_peers_for_peer_info s"
  "last_sync_succ_timestamp (snd (build_conn_info force now dst sv s)) = last_sync_succ_timestamp s"
  "dst_session_id (snd (build_conn_info force now dst sv s)) = dst_session_id s"
  "ss_dst_peer_id (snd (build_conn_info force now dst sv s)) = ss_dst_peer_id s"
  by (simp_all add: build_conn_info_def build_conn_peer_list_def Let_def case_prod_beta)

lemma build_foreign_keeps [simp]:
  "dst_saved_peer_info_versions (snd (build_foreign_network_info now si s)) = dst_saved_peer_info_versions s"
  "unreachable_peers_for_peer_info (snd (build_foreign_network_info now si s)) = unreachable_peers_for_peer_info s"
  "last_sync_succ_timestamp (snd (build_foreign_network_info now si s)) = last_sync_succ_timestamp s"
  "dst_session_id (snd (build_foreign_network_info now si s)) = dst_session_id s"
  "ss_dst_peer_id (snd (build_foreign_network_info now si s)) = ss_dst_peer_id s"
  by (simp_all add: build_foreign_network_info_def Let_def case_prod_beta)

lemma request_parts:
  assumes "sync_route_with_peer_request env force now dst init sv = (Some req, sv')" and "get_session sv dst = Some s" and "ss_dst_peer_id s = dst"
    and sel: "select_news now (peer_reachable (route_table sv)) dst (last_sync_succ_timestamp s) (\<lambda>(_, info). peer_id info) version last_update
      (peer_infos (synced_route_info sv)) (dst_saved_peer_info_versions s, unreachable_peers_for_peer_info s) = (saved, unr, out)"
  shows "req_my_peer_id req = my_peer_id sv" and "(case req_peer_infos req of Some is \<Rightarrow> is | None \<Rightarrow> []) = map snd out"
    and "\<exists>s'. get_session sv' dst = Some s' \<and> dst_saved_peer_info_versions s' = saved \<and> unreachable_peers_for_peer_info s' = unr \<and>
      dst_session_id s' = dst_session_id s \<and> ss_dst_peer_id s' = dst"
proof -
  define s1 where "s1 = s\<lparr>dst_saved_peer_info_versions := saved, unreachable_peers_for_peer_info := unr\<rparr>"
  define s2 where "s2 = snd (build_foreign_network_info now (synced_route_info sv) (snd (build_conn_info force now dst sv s1)))"
  have "build_route_info now (peer_reachable (route_table sv)) (synced_route_info sv) s = (if out = [] then None else Some (map snd out), s1)"
    using sel assms(3) by (simp add: build_route_info_def s1_def)
  then have b: "build_sync_request force now dst sv s = (if out = [] then None else Some (map snd out), fst (build_conn_info force now dst sv s1),
      fst (build_foreign_network_info now (synced_route_info sv) (snd (build_conn_info force now dst sv s1))), s2)"
    by (simp add: build_sync_request_def case_prod_beta s2_def)
  have r: "req_my_peer_id req = my_peer_id sv \<and> req_peer_infos req = (if out = [] then None else Some (map snd out)) \<and>
      sv' = put_session (s2\<lparr>need_sync_initiator_info := False\<rparr>) sv"
    using assms(1) by (auto simp: sync_route_with_peer_request_def assms(2) b Let_def split: if_splits)
  then show "req_my_peer_id req = my_peer_id sv" "(case req_peer_infos req of Some is \<Rightarrow> is | None \<Rightarrow> []) = map snd out" by simp_all
  have "ss_dst_peer_id s2 = dst" "dst_saved_peer_info_versions s2 = saved" "unreachable_peers_for_peer_info s2 = unr" "dst_session_id s2 = dst_session_id s"
    using assms(3) by (simp_all add: s2_def s1_def)
  then show "\<exists>s'. get_session sv' dst = Some s' \<and> dst_saved_peer_info_versions s' = saved \<and> unreachable_peers_for_peer_info s' = unr \<and>
      dst_session_id s' = dst_session_id s \<and> ss_dst_peer_id s' = dst"
    using r by (simp add: get_session_def put_session_def update_conv')
qed

lemma response_parts:
  assumes "sync_route_with_peer_response pub now dst started req (Some resp) s = Some s'" and "resp_error resp = None"
    and "resp_session_id resp = dst_session_id s"
  shows "dst_saved_peer_info_versions s' = save_all now (\<lambda>p. p = dst)
      (map (\<lambda>i. (peer_id i, version i)) (case req_peer_infos req of Some is \<Rightarrow> is | None \<Rightarrow> [])) (dst_saved_peer_info_versions s)"
    and "unreachable_peers_for_peer_info s' = unreachable_peers_for_peer_info s" and "ss_dst_peer_id s' = ss_dst_peer_id s"
proof -
  have f: "fold (\<lambda>i m. if peer_id i = dst then m else save_version now (peer_id i) (version i) m) infos m =
      save_all now (\<lambda>p. p = dst) (map (\<lambda>i. (peer_id i, version i)) infos) m" for infos m
    by (simp add: save_all_def fold_map comp_def)
  let ?s = "case req_peer_infos req of Some infos \<Rightarrow> update_dst_saved_peer_info_version now infos dst
      (s\<lparr>rpc_tx_count := rpc_tx_count s + 1, dst_is_initiator := resp_is_initiator resp\<rparr>)
    | None \<Rightarrow> s\<lparr>rpc_tx_count := rpc_tx_count s + 1, dst_is_initiator := resp_is_initiator resp\<rparr>"
  let ?keep = "\<lambda>x y. dst_saved_peer_info_versions x = dst_saved_peer_info_versions y \<and>
     unreachable_peers_for_peer_info x = unreachable_peers_for_peer_info y \<and> ss_dst_peer_id x = ss_dst_peer_id y"
  have 1: "?keep (case req_conn_info req of Some ci \<Rightarrow> update_dst_saved_conn_info_version now ci dst y | None \<Rightarrow> y) y" for y
    by (auto simp: update_dst_saved_conn_info_version_def update_dst_saved_conn_bitmap_version_def update_dst_saved_conn_peer_list_version_def split: option.split ConnInfo.split)
  have 2: "?keep z y" if "(case req_foreign_network_infos req of Some fns \<Rightarrow> update_dst_saved_foreign_network_version now fns dst y | None \<Rightarrow> Some y) = Some z" for y z
    using that by (auto simp: update_dst_saved_foreign_network_version_def split: option.splits)
  have 3: "?keep (update_last_sync_succ_timestamp started y) y" for y by (simp add: update_last_sync_succ_timestamp_def)
  have sid: "update_dst_session_id (resp_session_id resp) (s\<lparr>rpc_tx_count := rpc_tx_count s + 1, dst_is_initiator := resp_is_initiator resp\<rparr>) =
      s\<lparr>rpc_tx_count := rpc_tx_count s + 1, dst_is_initiator := resp_is_initiator resp\<rparr>"
    using assms(3) by (simp add: update_dst_session_id_def)
  obtain z where "(case req_foreign_network_infos req of Some fns \<Rightarrow> update_dst_saved_foreign_network_version now fns dst
        (case req_conn_info req of Some ci \<Rightarrow> update_dst_saved_conn_info_version now ci dst ?s | None \<Rightarrow> ?s)
      | None \<Rightarrow> Some (case req_conn_info req of Some ci \<Rightarrow> update_dst_saved_conn_info_version now ci dst ?s | None \<Rightarrow> ?s)) = Some z"
      "s' = update_last_sync_succ_timestamp started z"
    using assms(1) unfolding sync_route_with_peer_response_def option.case assms(2) Let_def sid bind_eq_Some_conv by auto
  then have k: "?keep s' ?s" using 1 [of ?s] 2 [of _ z] 3 [of z] by presburger
  have m: "save_all now (\<lambda>p. p = dst) [] m = m" for m :: "PeerId saved" by (simp add: save_all_def)
  show "dst_saved_peer_info_versions s' = save_all now (\<lambda>p. p = dst)
      (map (\<lambda>i. (peer_id i, version i)) (case req_peer_infos req of Some is \<Rightarrow> is | None \<Rightarrow> [])) (dst_saved_peer_info_versions s)"
    "unreachable_peers_for_peer_info s' = unreachable_peers_for_peer_info s" "ss_dst_peer_id s' = ss_dst_peer_id s"
    using k by (auto simp: update_dst_saved_peer_info_version_def f m split: option.split)
qed


text \<open>One exchange that is not disturbed: the request of \<open>a\<close>, its handling by \<open>b\<close>, and the session of \<open>a\<close> after the response.\<close>

definition exchange :: "('raw, 'val, 'c4, 'c6) route_env \<Rightarrow> ('raw, 'val, 'c4, 'c6) route_env
    \<Rightarrow> (('raw, 'c4, 'c6) PeerRouteServiceImpl \<Rightarrow> bool \<times> ('raw, 'c4, 'c6) PeerRouteServiceImpl)
    \<Rightarrow> route_interface \<Rightarrow> bool \<Rightarrow> nat \<Rightarrow> u64 \<Rightarrow> ('raw, 'c4, 'c6) PeerRouteServiceImpl \<Rightarrow> ('raw, 'c4, 'c6) PeerRouteServiceImpl
    \<Rightarrow> (SyncRouteInfoResponse \<times> ('raw, 'c4, 'c6) sync_outcome \<times> SyncRouteSession) option" where
  "exchange env_a env_b hook ifc init now random a b = (case sync_route_with_peer_request env_a False now (my_peer_id b) init a of
     (None, _) \<Rightarrow> None
   | (Some req, a') \<Rightarrow> do {
       (resp, out) \<leftarrow> sync_route_info env_b hook ifc now random req b;
       s' \<leftarrow> get_session a' (my_peer_id b);
       s' \<leftarrow> sync_route_with_peer_response (env_is_public_server env_a) now (my_peer_id b) now req (Some resp) s';
       Some (resp, out, s') })"

text \<open>The session \<open>s\<close> of a node with \<open>si\<close> is in step with a neighbour that has \<open>si_b\<close>, as far as descriptions go.\<close>

definition infos_in_step :: "'raw SyncedRouteInfo \<Rightarrow> SyncRouteSession \<Rightarrow> 'raw SyncedRouteInfo \<Rightarrow> bool" where
  "infos_in_step si s si_b \<longleftrightarrow> in_step (ss_dst_peer_id s) (last_sync_succ_timestamp s) version last_update (peer_infos si)
     (\<lambda>p. fst (peer_view si_b p)) (dst_saved_peer_info_versions s) (unreachable_peers_for_peer_info s)"

text \<open>
  C25. What an exchange with a neighbour delivers, on its conditions. The neighbour answers without an error; what the
  session notes of the neighbour is right (\<open>infos_in_step\<close>: it has at least the noted versions, and what is not noted is
  still to be sent - true of a new session and kept by the exchange, but not of a session that outlived a restart of the
  neighbour, see \<open>new_session_not_resent\<close>); the descriptions are stored in the order of their updates (\<open>infos_wf\<close>); the
  neighbour does not take the sender for a peer with a credential, removes no peer for lost trust while it handles the
  request, and its own updates lower no version. Then for every other peer that is reachable the neighbour has at least
  the version that was known here, also if the response opens a new session, as the first one does. If the response is
  of the session that was known, the session is right about the neighbour again, and no description is left to send.
\<close>

theorem exchange_delivers:
  assumes "exchange env_a env_b hook ifc init now random a b = Some (resp, out, s')" and "resp_error resp = None"
    and "get_session a (my_peer_id b) = Some s" and "ss_dst_peer_id s = my_peer_id b"
    and "infos_wf (synced_route_info a)" and "infos_in_step (synced_route_info a) s (synced_route_info b)"
    and "sender_identity ifc (my_peer_id a) b \<noteq> Some Credential" and "closed_peers out = []" and "hook_keeps_versions hook"
  shows "(\<forall>(p, info)\<in>set (peer_infos (synced_route_info a)). peer_reachable (route_table a) p \<and> p \<noteq> my_peer_id b \<longrightarrow>
      version info \<le> fst (peer_view (synced_route_info (outcome_service out)) p)) \<and>
    (resp_session_id resp = dst_session_id s \<longrightarrow>
      infos_in_step (synced_route_info a) s' (synced_route_info (outcome_service out)) \<and>
      fst (build_route_info later (peer_reachable (route_table a)) (synced_route_info a) s') = None)"
proof -
  let ?si = "synced_route_info a" and ?dst = "my_peer_id b" and ?reach = "peer_reachable (route_table a)"
  let ?theirs = "\<lambda>sv p. fst (peer_view (synced_route_info sv) p)"
  obtain req a' where req: "sync_route_with_peer_request env_a False now ?dst init a = (Some req, a')"
    using assms(1) by (auto simp: exchange_def split: prod.splits option.splits)
  obtain s1 where rest: "sync_route_info env_b hook ifc now random req b = Some (resp, out)" "get_session a' ?dst = Some s1"
      "sync_route_with_peer_response (env_is_public_server env_a) now ?dst now req (Some resp) s1 = Some s'"
    using assms(1) by (auto simp: exchange_def req bind_eq_Some_conv)
  obtain saved unr sent where sel: "select_news now ?reach ?dst (last_sync_succ_timestamp s) (\<lambda>(_, info). peer_id info) version last_update
      (peer_infos ?si) (dst_saved_peer_info_versions s, unreachable_peers_for_peer_info s) = (saved, unr, sent)" by (metis prod_cases3)
  note q = request_parts [OF req assms(3,4) sel]
  have s1: "dst_saved_peer_info_versions s1 = saved" "unreachable_peers_for_peer_info s1 = unr" "dst_session_id s1 = dst_session_id s" "ss_dst_peer_id s1 = ?dst"
    using q(3) rest(2) by auto
  have do: "do_sync_route_info env_b hook ifc now random req b = Some out" "\<exists>x. outcome_result out = Inr x"
    using rest(1) assms(2) by (auto simp: sync_route_info_def bind_eq_Some_conv split: if_splits sum.splits)
  then obtain x where ok: "outcome_result out = Inr x" by blast
  note d = handler_delivers [OF do(1) ok assms(7) [folded q(1)] assms(8,9), unfolded q(2)]
  have own: "version i = 0 \<or> peer_id i = p" if "(p, i) \<in> set sent" for p i
    using assms(5) peer_news.select_news_out(2) [OF assms(5) sel that] by (auto simp: infos_wf_def)
  have "version i \<le> ?theirs (outcome_service out) p" if "(p, i) \<in> set sent" for p i
    using own [OF that] d(2) [of i] that by force
  then have sent: "\<forall>q. ?theirs b q \<le> ?theirs (outcome_service out) q" "\<forall>(p, i)\<in>set sent. version i \<le> ?theirs (outcome_service out) p"
    using d(1) by auto
  have step: "in_step ?dst (last_sync_succ_timestamp s) version last_update (peer_infos ?si) (?theirs b)
      (dst_saved_peer_info_versions s) (unreachable_peers_for_peer_info s)"
    using assms(4,6) by (simp add: infos_in_step_def)
  note round = peer_news.round [OF assms(5) step sel sent]
  have "\<forall>(p, info)\<in>set (peer_infos ?si). ?reach p \<and> p \<noteq> ?dst \<longrightarrow> version info \<le> ?theirs (outcome_service out) p" using round(2) [OF refl] by auto
  moreover have "infos_in_step ?si s' (synced_route_info (outcome_service out)) \<and> fst (build_route_info later ?reach ?si s') = None"
    if same: "resp_session_id resp = dst_session_id s"
  proof -
    note r = response_parts [OF rest(3) assms(2) same [folded s1(3)], unfolded q(2) s1]
    have saved': "dst_saved_peer_info_versions s' =
        save_all now (\<lambda>p. p = ?dst) (map (\<lambda>x. ((\<lambda>(_, info). peer_id info) x, version (snd x))) sent) saved"
      using r(1) by (simp add: comp_def case_prod_beta)
    obtain saved3 unr3 out3 where sel3: "select_news later ?reach ?dst (last_sync_succ_timestamp s') (\<lambda>(_, info). peer_id info) version last_update
        (peer_infos ?si) (dst_saved_peer_info_versions s', unr) = (saved3, unr3, out3)" by (metis prod_cases3)
    have "infos_in_step ?si s' (synced_route_info (outcome_service out))"
      using round(1) [OF saved', of "last_sync_succ_timestamp s'"] r(2,3) by (simp add: infos_in_step_def)
    moreover have "fst (build_route_info later ?reach ?si s') = None"
      using round(3) [OF saved' sel3] r(2,3) sel3 by (simp add: build_route_info_def)
    ultimately show ?thesis ..
  qed
  ultimately show ?thesis by blast
qed

text \<open>A new session is in step with any neighbour.\<close>

lemma new_session_in_step: "infos_in_step si (sync_session_new sid dst) si_b"
  by (simp add: infos_in_step_def in_step_def covered_def outdated_def sync_session_new_def versions_def)


definition demo_env :: "(u32, unit, unit, unit) route_env" where
  "demo_env = \<lparr>env_cidr = \<lparr>parse_cidr = \<lambda>_. None, first4 = \<lambda>_. 0, last4 = \<lambda>_. 0, first6 = \<lambda>_. 0, last6 = \<lambda>_. 0, lpm4 = \<lambda>_ _. None, lpm6 = \<lambda>_ _. None\<rparr>,
     env_dijkstra = \<lambda>_ _ _ _. Map.empty, env_pop = \<lambda>_. None,
     env_trust = \<lparr>api_hmac = (@), encode_credential = cred_pubkey, get_field_by_name = \<lambda>_ _. None, as_list = \<lambda>_. None,
       as_message = \<lambda>_. None, encode_to_vec = \<lambda>_. []\<rparr>,
     env_raw_id = Some, env_transcode = peer_id, env_set_field = \<lambda>r _ _. r, env_version = ''v'', env_network_name = ''net'',
     env_network_secret = None, env_group_declarations = [], env_is_public_server = False\<rparr>"

definition demo_ifc :: route_interface where
  "demo_ifc = \<lparr>if_list_peers = [1], if_need_periodic_requery = False, if_public_key = \<lambda>_. None, if_identity_type = \<lambda>_. Some Admin, if_foreign_networks = []\<rparr>"

definition demo_a :: "(u32, unit, unit) PeerRouteServiceImpl" where
  "demo_a = (service_new 1 1 0)\<lparr>
     synced_route_info := empty_info\<lparr>peer_infos := [(1, (demo_info 1 3)\<lparr>last_update := Some 5\<rparr>)], synced_version := 1\<rparr>,
     route_table := route_table_new\<lparr>next_hop_map := [(1, \<lparr>next_hop_peer_id = 1, path_latency = 0, path_len = 0, hop_version = 1\<rparr>)]\<rparr>,
     sessions := [(2, (sync_session_new 7 2)\<lparr>dst_session_id := 9\<rparr>)]\<rparr>"

definition demo_b :: "(u32, unit, unit) PeerRouteServiceImpl" where
  "demo_b = (service_new 2 2 0)\<lparr>sessions := [(1, sync_session_new 9 1)]\<rparr>"

lemma demo_request: "sync_route_with_peer_request demo_env False 20 2 False demo_a =
   (Some \<lparr>req_my_peer_id = 1, req_my_session_id = 7, req_is_initiator = False, req_peer_infos = Some [(demo_info 1 3)\<lparr>last_update := Some 5\<rparr>],
      req_raw_peer_infos = Some [1], req_conn_info = None, req_foreign_network_infos = None\<rparr>, demo_a)"
  by (simp add: sync_route_with_peer_request_def demo_a_def service_new_def get_session_def build_sync_request_def build_route_info_def sync_session_new_def
    select_news_def check_saved_def check_saved_result known_def peer_reachable_def get_next_hop_def route_table_new_def outdated_def demo_info_def
    build_conn_info_def build_conn_peer_list_def empty_info_def build_foreign_network_info_def build_sync_route_raw_req_def demo_env_def
    put_session_def route_peer_info_new_def)


text \<open>A node that does not know itself yet keeps its empty table.\<close>

lemma tables_before_self:
  fixes sv :: "('raw, 'c4, 'c6) PeerRouteServiceImpl"
  assumes "my_peer_id sv \<notin> set (known_peers (synced_route_info sv))" and "conn_map (synced_route_info sv) = []"
  shows "\<exists>sv'. update_route_table_and_cached_local_conn_bitmap env now sv = Some sv'"
proof -
  have "node_index (known_peers (synced_route_info sv)) (my_peer_id sv) = None" using assms(1) by (simp add: node_index_def)
  then have "build_from_synced_info ops d pop (my_peer_id sv) (synced_route_info sv) policy cc rt = Some (skip_rebuild (synced_version (synced_route_info sv)) rt)"
    for ops :: "('c4, 'c6) cidr_ops" and d pop policy cc rt
    by (simp add: build_from_synced_info_def build_peer_graph_from_synced_info_def Let_def)
  then show ?thesis using assms(2)
    by (simp add: update_route_table_and_cached_local_conn_bitmap_def update_route_table_def build_local_conn_bitmap_def collect_all_peer_ids_def Let_def
      case_prod_beta)
qed

lemma demo_handler: "\<exists>out. do_sync_route_info demo_env (\<lambda>sv. (False, sv)) demo_ifc 20 0
   \<lparr>req_my_peer_id = 1, req_my_session_id = 7, req_is_initiator = False, req_peer_infos = Some [(demo_info 1 3)\<lparr>last_update := Some 5\<rparr>],
      req_raw_peer_infos = Some [1], req_conn_info = None, req_foreign_network_infos = None\<rparr> demo_b = Some out \<and>
   outcome_result out = Inr \<lparr>resp_is_initiator = False, resp_session_id = 9, resp_error = None\<rparr> \<and> closed_peers out = []"
proof -
  define si where "si = (empty_info :: u32 SyncedRouteInfo)\<lparr>peer_infos := [(1, (demo_info 1 3)\<lparr>last_update := Some 20\<rparr>)], raw_peer_infos := [1 \<mapsto> 1], synced_version := 1\<rparr>"
  define s1 where "s1 = (sync_session_new 9 1)\<lparr>rpc_rx_count := 1, dst_session_id := 7\<rparr>"
  define b1 where "b1 = demo_b\<lparr>cached_interface_peer_snapshot := (interface_peer_snapshot_uncached demo_ifc)\<lparr>generation := 1\<rparr>\<rparr>"
  have b: "get_or_create_session 0 1 demo_b = (sync_session_new 9 1, demo_b)" "get_peer_identity_type_from_interface demo_ifc 1 demo_b = (Some Admin, b1)"
    by (simp_all add: demo_b_def b1_def service_new_def get_or_create_session_def get_peer_identity_type_from_interface_def interface_peer_snapshot_def
        interface_peer_snapshot_uncached_def demo_ifc_def Let_def)
  have s: "update_dst_session_id 7 ((sync_session_new 9 1)\<lparr>rpc_rx_count := rpc_rx_count (sync_session_new 9 1) + 1\<rparr>) = s1"
    by (simp add: s1_def sync_session_new_def update_dst_session_id_def)
  have 1: "handle_peer_infos demo_env 20 (my_peer_id b1) (my_peer_route_id b1) 1 None (Some [(demo_info 1 3)\<lparr>last_update := Some 5\<rparr>]) (Some [1]) (s1, synced_route_info b1)
      = Some (Inr True, update_dst_saved_peer_info_version 20 [(demo_info 1 3)\<lparr>last_update := Some 5\<rparr>] 1 s1, si)"
    by (simp add: handle_peer_infos_def update_peer_infos_def demo_info_def b1_def demo_b_def service_new_def check_duplicate_peer_id_def route_peer_info_new_def
      empty_info_def demo_env_def si_def verify_and_update_group_trusts_def verify_groups_def Let_def version_inc_def)
  have my: "my_peer_id b1 = 2" by (simp add: b1_def demo_b_def service_new_def)
  have known: "2 \<notin> set (known_peers si)" "conn_map si = []" by (simp_all add: si_def known_peers_def empty_info_def)
  obtain b2 where b2: "update_route_table_and_cached_local_conn_bitmap demo_env 20 (b1\<lparr>synced_route_info := si\<rparr>) = Some b2"
    using tables_before_self [of "b1\<lparr>synced_route_info := si\<rparr>" demo_env 20] known my by auto
  note k2 = update_route_table_keeps [OF b2]
  have "noise_static_pubkey ((demo_info 1 3)\<lparr>last_update := Some 20\<rparr>) = []" by (simp add: demo_info_def route_peer_info_new_def)
  then have v: "\<exists>keys si'. verify_and_update_credential_trusts_protecting (env_trust demo_env) (env_network_secret demo_env) (int (20 div SEC))
      active (Some 2) si = ([], keys, si')" for active
    by (auto simp: verify_and_update_credential_trusts_protecting_def Let_def case_prod_beta collect_non_reusable_credential_owners_def
      collect_revoked_credential_peers_def candidates_def si_def replace_trusted_credential_pubkeys_def)
  obtain keys si' where v2: "verify_and_update_credential_trusts_protecting (env_trust demo_env) (env_network_secret demo_env) (int (20 div SEC))
      (is_active_non_reusable_credential_peer b2) (Some (my_peer_id b2)) (synced_route_info b2) = ([], keys, si')"
    using v [of "is_active_non_reusable_credential_peer b2"] k2 my by auto
  obtain b3 where b3: "refresh_credential_trusts_with_current_topology demo_env 20 (b1\<lparr>synced_route_info := si\<rparr>) = Some ([], b3)"
    by (simp add: refresh_credential_trusts_with_current_topology_def b2 v2 Let_def)
  note k3 = refresh_trusts_stores [OF b3]
  have "2 \<notin> set (known_peers (synced_route_info b3))" "conn_map (synced_route_info b3) = []"
    using known k3(1,2) by (simp_all add: known_peers_def)
  then obtain b4 where b4: "update_route_table_and_cached_local_conn_bitmap demo_env 20 b3 = Some b4"
    using tables_before_self [of b3 demo_env 20] k3(4) my by auto
  have same: "b3\<lparr>synced_route_info := synced_route_info b3\<rparr> = b3" by simp
  show ?thesis
    by (simp add: do_sync_route_info_def b s 1 [unfolded my] my handle_conn_info_def handle_foreign_def b3 b4 Let_def same)
      (simp add: update_dst_saved_peer_info_version_def s1_def sync_session_new_def)
qed

theorem exchange_delivers_witness:
  "\<exists>out. version ((demo_info 1 3)\<lparr>last_update := Some 5\<rparr>) = 3 \<and> 3 \<le> fst (peer_view (synced_route_info (outcome_service out)) 1) \<and>
     (\<exists>resp s'. exchange demo_env demo_env (\<lambda>sv. (False, sv)) demo_ifc False 20 0 demo_a demo_b = Some (resp, out, s'))"
proof -
  obtain out where out: "do_sync_route_info demo_env (\<lambda>sv. (False, sv)) demo_ifc 20 0
     \<lparr>req_my_peer_id = 1, req_my_session_id = 7, req_is_initiator = False, req_peer_infos = Some [(demo_info 1 3)\<lparr>last_update := Some 5\<rparr>],
        req_raw_peer_infos = Some [1], req_conn_info = None, req_foreign_network_infos = None\<rparr> demo_b = Some out"
     "outcome_result out = Inr \<lparr>resp_is_initiator = False, resp_session_id = 9, resp_error = None\<rparr>" "closed_peers out = []"
    using demo_handler by blast
  have ids: "my_peer_id demo_b = 2" "my_peer_id demo_a = 1" by (simp_all add: demo_b_def demo_a_def service_new_def)
  have session: "get_session demo_a 2 = Some ((sync_session_new 7 2)\<lparr>dst_session_id := 9\<rparr>)" by (simp add: get_session_def demo_a_def)
  then have session': "get_session demo_a (my_peer_id demo_b) = Some ((sync_session_new 7 2)\<lparr>dst_session_id := 9\<rparr>)" by (simp add: ids)
  from session obtain s' where e: "exchange demo_env demo_env (\<lambda>sv. (False, sv)) demo_ifc False 20 0 demo_a demo_b =
      Some (\<lparr>resp_is_initiator = False, resp_session_id = 9, resp_error = None\<rparr>, out, s')"
    by (simp add: exchange_def ids demo_request sync_route_info_def out sync_route_with_peer_response_def)
  have "infos_wf (synced_route_info demo_a)" "sender_identity demo_ifc 1 demo_b \<noteq> Some Credential"
    and "infos_in_step (synced_route_info demo_a) ((sync_session_new 7 2)\<lparr>dst_session_id := 9\<rparr>) (synced_route_info demo_b)"
    and a: "peer_infos (synced_route_info demo_a) = [(1, (demo_info 1 3)\<lparr>last_update := Some 5\<rparr>)]" "peer_reachable (route_table demo_a) 1"
    by (auto simp: infos_wf_def demo_a_def demo_info_def sender_identity_def get_peer_identity_type_from_interface_def interface_peer_snapshot_def
        interface_peer_snapshot_uncached_def demo_ifc_def demo_b_def service_new_def Let_def infos_in_step_def in_step_def covered_def outdated_def
        sync_session_new_def versions_def peer_reachable_def get_next_hop_def route_table_new_def)
  from exchange_delivers [OF e _ session' _ this(1,3), of 0] this(2) out(3) have
    "\<forall>(p, info)\<in>set (peer_infos (synced_route_info demo_a)). peer_reachable (route_table demo_a) p \<and> p \<noteq> 2 \<longrightarrow>
      version info \<le> fst (peer_view (synced_route_info (outcome_service out)) p)"
    by (simp add: ids sync_session_new_def hook_keeps_versions_def)
  then show ?thesis using a e by (auto simp: demo_info_def)
qed


section \<open>A neighbour with a new session\<close>

lemma response_new_session:
  assumes "sync_route_with_peer_response pub now dst started req (Some resp) s = Some s'" and "resp_error resp = None"
    and "resp_session_id resp \<noteq> dst_session_id s"
  shows "last_sync_succ_timestamp s' = Some started" and "unreachable_peers_for_peer_info s' = []" and "dst_session_id s' = resp_session_id resp"
proof -
  let ?P = "\<lambda>x. last_sync_succ_timestamp x = None \<and> unreachable_peers_for_peer_info x = [] \<and> dst_session_id x = resp_session_id resp"
  have "?P (update_dst_session_id (resp_session_id resp) (s\<lparr>rpc_tx_count := rpc_tx_count s + 1, dst_is_initiator := resp_is_initiator resp\<rparr>))"
    using assms(3) by (simp add: update_dst_session_id_def)
  moreover have "?P (case req_peer_infos req of Some infos \<Rightarrow> update_dst_saved_peer_info_version now infos dst x | None \<Rightarrow> x)" if "?P x" for x
    using that by (auto simp: update_dst_saved_peer_info_version_def split: option.split)
  moreover have "?P (case req_conn_info req of Some ci \<Rightarrow> update_dst_saved_conn_info_version now ci dst x | None \<Rightarrow> x)" if "?P x" for x
    using that by (auto simp: update_dst_saved_conn_info_version_def update_dst_saved_conn_bitmap_version_def update_dst_saved_conn_peer_list_version_def split: option.split ConnInfo.split)
  moreover have "?P z" if "(case req_foreign_network_infos req of Some fns \<Rightarrow> update_dst_saved_foreign_network_version now fns dst y | None \<Rightarrow> Some y) = Some z" "?P y" for y z
    using that by (auto simp: update_dst_saved_foreign_network_version_def split: option.splits)
  ultimately obtain z where "?P z" "s' = update_last_sync_succ_timestamp started z"
    using assms(1) unfolding sync_route_with_peer_response_def option.case assms(2) Let_def bind_eq_Some_conv by (metis option.inject)
  then show "last_sync_succ_timestamp s' = Some started" "unreachable_peers_for_peer_info s' = []" "dst_session_id s' = resp_session_id resp"
    by (simp_all add: update_last_sync_succ_timestamp_def)
qed

lemma news_loop_outdated: "\<forall>x\<in>set es. outdated ts upd (snd x) \<Longrightarrow> news_loop now reach dst ts ident ver upd es st = st"
  by (cases es; cases st) auto

text \<open>
  When the response shows that the neighbour opened a new session, the session forgets what the neighbour has,
  but it also notes a successful exchange: descriptions that were stored before the exchange and were not part
  of it are not sent again, even if the neighbour does not have them.
\<close>

theorem new_session_not_resent:
  assumes "exchange env_a env_b hook ifc init now random a b = Some (resp, out, s')" and "resp_error resp = None"
    and "get_session a (my_peer_id b) = Some s" and "ss_dst_peer_id s = my_peer_id b" and "resp_session_id resp \<noteq> dst_session_id s"
    and "\<forall>(p, info)\<in>set (peer_infos (synced_route_info a)). \<exists>u < now. last_update info = Some u"
  shows "dst_session_id s' = resp_session_id resp \<and> fst (build_route_info later (peer_reachable (route_table a)) (synced_route_info a) s') = None"
proof -
  let ?si = "synced_route_info a" and ?dst = "my_peer_id b" and ?reach = "peer_reachable (route_table a)"
  obtain req a' where req: "sync_route_with_peer_request env_a False now ?dst init a = (Some req, a')"
    using assms(1) by (auto simp: exchange_def split: prod.splits option.splits)
  obtain s1 where rest: "get_session a' ?dst = Some s1"
      "sync_route_with_peer_response (env_is_public_server env_a) now ?dst now req (Some resp) s1 = Some s'"
    using assms(1) by (auto simp: exchange_def req bind_eq_Some_conv)
  obtain saved unr sent where sel: "select_news now ?reach ?dst (last_sync_succ_timestamp s) (\<lambda>(_, info). peer_id info) version last_update
      (peer_infos ?si) (dst_saved_peer_info_versions s, unreachable_peers_for_peer_info s) = (saved, unr, sent)" by (metis prod_cases3)
  have "dst_session_id s1 = dst_session_id s" using request_parts(3) [OF req assms(3,4) sel] rest(1) by auto
  then have r: "last_sync_succ_timestamp s' = Some now" "unreachable_peers_for_peer_info s' = []" "dst_session_id s' = resp_session_id resp"
    using response_new_session [OF rest(2) assms(2)] assms(5) by simp_all
  have "\<forall>x\<in>set (rev (peer_infos ?si)). outdated (Some now) last_update (snd x)" using assms(6) by (fastforce simp: outdated_def)
  from news_loop_outdated [OF this] show ?thesis using r by (simp add: build_route_info_def select_news_def)
qed

definition demo_old :: "(u32, unit, unit) PeerRouteServiceImpl" where
  "demo_old = demo_a\<lparr>sessions := [(2, (sync_session_new 7 2)\<lparr>dst_session_id := 4, need_sync_initiator_info := True,
     dst_saved_peer_info_versions := [1 \<mapsto> \<lparr>vt_version = 3, touch_time = 6\<rparr>], last_sync_succ_timestamp := Some 6\<rparr>)]\<rparr>"

lemma demo_old_exchange: "\<exists>out s'. exchange demo_env demo_env (\<lambda>sv. (False, sv)) demo_ifc False 20 0 demo_old demo_b =
    Some (\<lparr>resp_is_initiator = False, resp_session_id = 9, resp_error = None\<rparr>, out, s') \<and> peer_view (synced_route_info (outcome_service out)) 1 = (0, None)"
proof -
  have id: "my_peer_id demo_b = 2" by (simp add: demo_b_def service_new_def)
  let ?req = "\<lparr>req_my_peer_id = 1, req_my_session_id = 7, req_is_initiator = False, req_peer_infos = None,
      req_raw_peer_infos = None, req_conn_info = None, req_foreign_network_infos = None\<rparr>"
  obtain a' s where a: "sync_route_with_peer_request demo_env False 20 2 False demo_old = (Some ?req, a')" "get_session a' 2 = Some s"
    by (simp add: sync_route_with_peer_request_def demo_old_def demo_a_def service_new_def get_session_def build_sync_request_def build_route_info_def sync_session_new_def
      select_news_def outdated_def build_conn_info_def build_conn_peer_list_def empty_info_def build_foreign_network_info_def put_session_def demo_info_def)
  have "\<exists>out. do_sync_route_info demo_env (\<lambda>sv. (False, sv)) demo_ifc 20 0 ?req demo_b = Some out \<and>
     outcome_result out = Inr \<lparr>resp_is_initiator = False, resp_session_id = 9, resp_error = None\<rparr> \<and> synced_route_info (outcome_service out) = empty_info"
    by (simp add: do_sync_route_info_def demo_b_def service_new_def get_or_create_session_def get_peer_identity_type_from_interface_def interface_peer_snapshot_def
        interface_peer_snapshot_uncached_def demo_ifc_def Let_def handle_peer_infos_def handle_conn_info_def handle_foreign_def
        update_dst_session_id_def sync_session_new_def put_session_def)
  then show ?thesis by (auto simp: exchange_def id a sync_route_info_def sync_route_with_peer_response_def peer_view_def empty_info_def)
qed

theorem new_session_not_resent_witness:
  "\<exists>resp out s'. exchange demo_env demo_env (\<lambda>sv. (False, sv)) demo_ifc False 20 0 demo_old demo_b = Some (resp, out, s') \<and>
     peer_view (synced_route_info (outcome_service out)) 1 = (0, None) \<and>
     fst (build_route_info 30 (peer_reachable (route_table demo_old)) (synced_route_info demo_old) s') = None"
proof -
  obtain out s' where e: "exchange demo_env demo_env (\<lambda>sv. (False, sv)) demo_ifc False 20 0 demo_old demo_b =
    Some (\<lparr>resp_is_initiator = False, resp_session_id = 9, resp_error = None\<rparr>, out, s')" "peer_view (synced_route_info (outcome_service out)) 1 = (0, None)"
    using demo_old_exchange by blast
  show ?thesis using new_session_not_resent [OF e(1), where s = "snd (hd (sessions demo_old))" and later = 30] e
    by (auto simp: demo_old_def demo_a_def demo_b_def service_new_def get_session_def sync_session_new_def demo_info_def)
qed


section \<open>A sender with a credential\<close>



















end
