(* ===== verification/Route_Initiator.thy ===== *)
theory Route_Initiator
  imports Route_Exchange
begin

text \<open>
  The life of the route service as a step relation: rounds of \<open>maintain_sessions\<close>, requests sent and received,
  responses, refreshes of the own entries and expiry, in any order. Along every run a node initiates at
  most one session.
\<close>

section \<open>Steps\<close>

type_synonym ('raw, 'c4, 'c6) route_state = "PeerId option \<times> ('raw, 'c4, 'c6) PeerRouteServiceImpl"

inductive route_step :: "('raw, 'val, 'c4, 'c6) route_env
    \<Rightarrow> (('raw, 'c4, 'c6) PeerRouteServiceImpl \<Rightarrow> bool \<times> ('raw, 'c4, 'c6) PeerRouteServiceImpl)
    \<Rightarrow> ('raw, 'c4, 'c6) route_state \<Rightarrow> ('raw, 'c4, 'c6) route_state \<Rightarrow> bool" for env hook where
  maintain: "route_step env hook st (maintain_sessions_round ifc random running st)"
| request: "sync_route_with_peer_request env force now dst init sv = (req, sv') \<Longrightarrow> route_step env hook (cur, sv) (cur, sv')"
| response: "get_session sv dst = Some s \<Longrightarrow> sync_route_with_peer_response pub now dst started (req :: 'raw SyncRouteInfoRequest) ret s = Some s' \<Longrightarrow>
    route_step env hook (cur, sv) (cur, put_session s' sv)"
| receive: "sync_route_info env hook ifc now random req sv = Some (resp, out) \<Longrightarrow> route_step env hook (cur, sv) (cur, outcome_service out)"
| own_infos: "update_my_infos env hook interval ifc ctx now sv = Some (b, closed, sv') \<Longrightarrow> route_step env hook (cur, sv) (cur, sv')"
| acl_groups: "refresh_acl_groups env hook ctx now sv = Some (b, closed, sv') \<Longrightarrow> route_step env hook (cur, sv) (cur, sv')"
| expire: "clear_expired_peer env now sv = Some (closed, sv') \<Longrightarrow> route_step env hook (cur, sv) (cur, sv')"
| clean: "get_session sv dst = Some s \<Longrightarrow> route_step env hook (cur, sv) (cur, put_session (clean_dst_saved_map now s) sv)"

inductive route_run :: "('raw, 'val, 'c4, 'c6) route_env
    \<Rightarrow> (('raw, 'c4, 'c6) PeerRouteServiceImpl \<Rightarrow> bool \<times> ('raw, 'c4, 'c6) PeerRouteServiceImpl)
    \<Rightarrow> ('raw, 'c4, 'c6) route_state \<Rightarrow> bool" for env hook where
  start: "route_run env hook (None, service_new my random now)"
| step: "route_run env hook st \<Longrightarrow> route_step env hook st st' \<Longrightarrow> route_run env hook st'"

text \<open>Every session is stored under the peer it is for, and a session that is initiated is the current one.\<close>

definition sessions_ok :: "('raw, 'c4, 'c6) route_state \<Rightarrow> bool" where
  "sessions_ok = (\<lambda>(cur, sv). \<forall>p s. get_session sv p = Some s \<longrightarrow> ss_dst_peer_id s = p \<and> (we_are_initiator s \<longrightarrow> cur = Some p))"

lemma sessions_ok_cong: "get_session sv' = get_session sv \<Longrightarrow> sessions_ok (cur, sv') = sessions_ok (cur, sv)"
  by (simp add: sessions_ok_def)

lemma get_session_cong: "sessions sv' = sessions sv \<Longrightarrow> get_session sv' = get_session sv"
  by (simp add: get_session_def fun_eq_iff)

lemma get_put_session [simp]: "get_session (put_session s sv) p = (if p = ss_dst_peer_id s then Some s else get_session sv p)"
  by (simp add: get_session_def put_session_def update_conv')

section \<open>What keeps the flags\<close>

text \<open>The operations on a session, other than \<open>update_initiator_flag\<close>, keep its peer and whether it is initiated.\<close>

definition same_role :: "SyncRouteSession \<Rightarrow> SyncRouteSession \<Rightarrow> bool" where
  "same_role s s' \<longleftrightarrow> ss_dst_peer_id s' = ss_dst_peer_id s \<and> we_are_initiator s' = we_are_initiator s"

lemma same_role_refl [simp]: "same_role s s" by (simp add: same_role_def)

lemma same_role_trans [trans]: "same_role a b \<Longrightarrow> same_role b c \<Longrightarrow> same_role a c" by (simp add: same_role_def)

lemma put_session_role: "sessions_ok (cur, sv) \<Longrightarrow> get_session sv p = Some s \<Longrightarrow> same_role s s' \<Longrightarrow> sessions_ok (cur, put_session s' sv)"
  by (auto simp: sessions_ok_def same_role_def)

lemma session_ops_role [simp]:
  "same_role s (update_dst_session_id sid s)" "same_role s (update_dst_saved_peer_info_version now infos dst s)"
  "same_role s (update_dst_saved_conn_info_version now ci dst s)" "same_role s (clean_dst_saved_map now s)"
  "same_role s (update_last_sync_succ_timestamp t s)"
  by (auto simp: same_role_def update_dst_session_id_def update_dst_saved_peer_info_version_def update_dst_saved_conn_info_version_def
    update_dst_saved_conn_bitmap_version_def update_dst_saved_conn_peer_list_version_def clean_dst_saved_map_def
    update_last_sync_succ_timestamp_def split: ConnInfo.split)

lemma save_foreign_role: "update_dst_saved_foreign_network_version now items dst s = Some s' \<Longrightarrow> same_role s s'"
  by (auto simp: same_role_def update_dst_saved_foreign_network_version_def)

lemma response_role:
  assumes "sync_route_with_peer_response pub now dst started req ret s = Some s'"
  shows "same_role s s'"
proof (cases "ret = None \<or> (\<exists>resp. ret = Some resp \<and> resp_error resp \<noteq> None)")
  case True
  then show ?thesis using assms
    by (auto simp: sync_route_with_peer_response_def same_role_def split: option.splits SyncRouteInfoError.splits if_splits)
next
  case False
  then obtain resp where r: "ret = Some resp" "resp_error resp = None" by auto
  let ?s1 = "update_dst_session_id (resp_session_id resp) (s\<lparr>rpc_tx_count := rpc_tx_count s + 1, dst_is_initiator := resp_is_initiator resp\<rparr>)"
  let ?s2 = "case req_peer_infos req of Some infos \<Rightarrow> update_dst_saved_peer_info_version now infos dst ?s1 | None \<Rightarrow> ?s1"
  let ?s3 = "case req_conn_info req of Some ci \<Rightarrow> update_dst_saved_conn_info_version now ci dst ?s2 | None \<Rightarrow> ?s2"
  obtain s4 where 4: "(case req_foreign_network_infos req of Some fns \<Rightarrow> update_dst_saved_foreign_network_version now fns dst ?s3 | None \<Rightarrow> Some ?s3) = Some s4"
      "s' = update_last_sync_succ_timestamp started s4"
    using assms unfolding sync_route_with_peer_response_def r option.case Let_def bind_eq_Some_conv by auto
  have "same_role s (s\<lparr>rpc_tx_count := rpc_tx_count s + 1, dst_is_initiator := resp_is_initiator resp\<rparr>)" by (simp add: same_role_def)
  also have "same_role \<dots> ?s1" by simp
  also have "same_role \<dots> ?s2" by (cases "req_peer_infos req") simp_all
  also have "same_role \<dots> ?s3" by (cases "req_conn_info req") simp_all
  also have "same_role \<dots> s4" using 4(1) save_foreign_role by (cases "req_foreign_network_infos req") auto
  also have "same_role \<dots> s'" by (simp add: 4(2))
  finally show ?thesis .
qed

lemma request_role:
  assumes "sync_route_with_peer_request env force now dst init sv = (req, sv')"
  shows "sv' = sv \<or> (\<exists>s s'. get_session sv dst = Some s \<and> same_role s s' \<and> sv' = put_session s' sv)"
proof (cases "get_session sv dst")
  case (Some s)
  have "same_role s (snd (build_route_info now r si s))" for r and si :: "'a SyncedRouteInfo"
    by (simp add: build_route_info_def same_role_def case_prod_beta)
  moreover have "same_role x (snd (build_conn_info force now dst sv x))" for x
    by (simp add: build_conn_info_def build_conn_peer_list_def same_role_def Let_def case_prod_beta)
  moreover have "same_role x (snd (build_foreign_network_info now si x))" for x and si :: "'a SyncedRouteInfo"
    by (simp add: build_foreign_network_info_def same_role_def Let_def case_prod_beta)
  ultimately have r: "same_role s (snd (snd (snd (build_sync_request force now dst sv s))))" (is "same_role s ?s1")
    by (simp add: build_sync_request_def case_prod_beta) (blast intro: same_role_trans)
  then have "same_role s (?s1\<lparr>need_sync_initiator_info := False\<rparr>)" by (simp add: same_role_def)
  moreover have "sv' = put_session ?s1 sv \<or> sv' = put_session (?s1\<lparr>need_sync_initiator_info := False\<rparr>) sv"
    using assms Some by (auto simp: sync_route_with_peer_request_def Let_def case_prod_beta split: if_splits)
  ultimately show ?thesis using r Some by blast
qed (use assms in \<open>simp add: sync_route_with_peer_request_def\<close>)

section \<open>Sessions of the handler\<close>

definition hook_keeps_sessions :: "(('raw, 'c4, 'c6) PeerRouteServiceImpl \<Rightarrow> bool \<times> ('raw, 'c4, 'c6) PeerRouteServiceImpl) \<Rightarrow> bool" where
  "hook_keeps_sessions hook \<longleftrightarrow> (\<forall>sv. sessions (snd (hook sv)) = sessions sv)"

lemma owner_map_sessions [simp]: "sessions (update_foreign_network_owner_map sv) = sessions sv"
  unfolding update_foreign_network_owner_map_def by (rule trans [OF fold_keeps]) (auto simp: Let_def split: prod.split)

lemma handler_roles:
  "handle_peer_infos env now my my_route from cred infos raws (session, si) = Some (res, session', si') \<Longrightarrow> same_role session session'"
  "handle_conn_info env now from cred ci (session, si) = Some (b, session', si') \<Longrightarrow> same_role session session'"
  "handle_foreign now from cred fns (session, si) = Some (b, session', si') \<Longrightarrow> same_role session session'"
proof -
  show "same_role session session'" if h: "handle_peer_infos env now my my_route from cred infos raws (session, si) = Some (res, session', si')"
  proof (cases infos)
    case (Some p_infos)
    obtain x where x: "raws = Some x" using h Some by (cases raws) (auto simp: handle_peer_infos_def)
    obtain pis rpis where p: "(case cred of Some c \<Rightarrow> map_option (\<lambda>r. case r of Some (i, raw) \<Rightarrow> ([i], [raw]) | None \<Rightarrow> ([], []))
        (extract_credential_peer_info env from p_infos x c) | None \<Rightarrow> Some (p_infos, x)) = Some (pis, rpis)"
      using h by (auto simp: handle_peer_infos_def Some x bind_eq_Some_conv)
    show ?thesis
    proof (cases "pis = []")
      case False
      then obtain res1 si1 where u: "update_peer_infos (env_raw_id env) now my my_route from pis rpis si = Some (res1, si1)"
        using h by (auto simp: handle_peer_infos_def Some x p bind_eq_Some_conv)
      show ?thesis using h False by (cases res1) (auto simp: handle_peer_infos_def Some x p u Let_def)
    qed (use h in \<open>auto simp: handle_peer_infos_def Some x p\<close>)
  qed (use h in \<open>auto simp: handle_peer_infos_def\<close>)
  show "handle_conn_info env now from cred ci (session, si) = Some (b, session', si') \<Longrightarrow> same_role session session'"
    by (auto simp: handle_conn_info_def bind_eq_Some_conv split: option.splits if_splits)
  show "handle_foreign now from cred fns (session, si) = Some (b, session', si') \<Longrightarrow> same_role session session'"
    by (auto simp: handle_foreign_def bind_eq_Some_conv Let_def case_prod_beta dest: save_foreign_role split: option.splits if_splits)
qed

lemma do_sync_sessions:
  assumes "do_sync_route_info env hook ifc now random req sv = Some out" and "hook_keeps_sessions hook"
  obtains (kept) "sessions (outcome_service out) = sessions (snd (get_or_create_session random (req_my_peer_id req) sv))"
  | (put) s sv1 where "same_role (fst (get_or_create_session random (req_my_peer_id req) sv)) s"
      "sessions sv1 = sessions (snd (get_or_create_session random (req_my_peer_id req) sv))" "outcome_service out = put_session s sv1"
proof (rule do_sync_body [OF refl refl, where env = env and hook = hook and ifc = ifc and now = now and random = random and req = req and sv = sv], goal_cases)
  case (1 sv0 session0)
  let ?cred = "sender_credential ifc (req_my_peer_id req) sv" and ?s = "fst (get_or_create_session random (req_my_peer_id req) sv)"
  note body = 1(7) [unfolded assms(1), symmetric]
  have r0: "same_role ?s session0"
    using session_ops_role(1) [of "?s\<lparr>rpc_rx_count := rpc_rx_count ?s + 1\<rparr>" "req_my_session_id req"] 1(6) by (simp add: same_role_def)
  show thesis
  proof (cases "sender_identity ifc (req_my_peer_id req) sv = Some Credential \<and> ?cred = None")
    case True
    then have "outcome_service out = sv0" using body by auto
    then show ?thesis using kept 1(5) by simp
  next
    case False
    note body = body [unfolded if_not_P [OF False]]
    obtain res session1 si1 where h1: "handle_peer_infos env now (my_peer_id sv) (my_peer_route_id sv0) (req_my_peer_id req) ?cred
        (req_peer_infos req) (req_raw_peer_infos req) (session0, synced_route_info sv) = Some (res, session1, si1)"
      using body by (auto simp: bind_eq_Some_conv)
    note r1 = same_role_trans [OF r0 handler_roles(1) [OF h1]]
    show ?thesis
    proof (cases res)
      case (Inl e)
      have "outcome_service out = put_session session1 (sv0\<lparr>synced_route_info := si1\<rparr>)" using body by (auto simp: h1 Inl)
      then show ?thesis using put [OF r1, of "sv0\<lparr>synced_route_info := si1\<rparr>"] 1(5) by simp
    next
      case (Inr stored)
      note body = body [unfolded h1 Inr bind.bind_lunit prod.case sum.case]
      obtain conn_stored session2 si2 where h2: "handle_conn_info env now (req_my_peer_id req) ?cred (req_conn_info req) (session1, si1) = Some (conn_stored, session2, si2)"
        using body by (auto simp: bind_eq_Some_conv)
      note body = body [unfolded h2 bind.bind_lunit prod.case]
      obtain untrusted sv3 where h3: "(if stored \<or> conn_stored then refresh_credential_trusts_with_current_topology env now (sv0\<lparr>synced_route_info := si2\<rparr>)
          else Some ([], sv0\<lparr>synced_route_info := si2\<rparr>)) = Some (untrusted, sv3)"
        using body by (auto simp: bind_eq_Some_conv)
      note body = body [unfolded h3 bind.bind_lunit prod.case]
      obtain changed session3 si4 where h4: "handle_foreign now (req_my_peer_id req) ?cred (req_foreign_network_infos req) (session2, synced_route_info sv3) = Some (changed, session3, si4)"
        using body by (auto simp: bind_eq_Some_conv)
      note body = body [unfolded h4 bind.bind_lunit prod.case]
      have s3: "sessions sv3 = sessions sv0" using h3 refresh_trusts_stores(5) [of env now "sv0\<lparr>synced_route_info := si2\<rparr>"] by (auto split: if_splits)
      obtain sv4 where out: "outcome_service out = put_session (session3\<lparr>dst_is_initiator := req_is_initiator req\<rparr>) sv4" "sessions sv4 = sessions sv3"
        using body assms(2) by (auto simp: bind_eq_Some_conv hook_keeps_sessions_def dest: update_route_table_keeps(4) split: if_splits)
      have "same_role ?s (session3\<lparr>dst_is_initiator := req_is_initiator req\<rparr>)"
        using same_role_trans [OF same_role_trans [OF r1 handler_roles(2) [OF h2]] handler_roles(3) [OF h4]] by (simp add: same_role_def)
      then show ?thesis using put out s3 1(5) by simp
    qed
  qed
qed

section \<open>A round of \<open>maintain_sessions\<close>\<close>

lemma get_or_create_ok:
  assumes "sessions_ok (cur, sv)"
  shows "sessions_ok (cur, snd (get_or_create_session random p sv))"
    and "get_session (snd (get_or_create_session random p sv)) p = Some (fst (get_or_create_session random p sv))"
  using assms by (auto simp: sessions_ok_def get_or_create_session_def get_session_def sync_session_new_def update_conv' split: option.split)

lemma get_remove_all: "get_session (fold remove_session ps sv) p = (if p \<in> set ps then None else get_session sv p)"
  by (induction ps arbitrary: sv) (auto simp: get_session_def remove_session_def delete_conv')

lemma remove_all_ok: "sessions_ok (cur, sv) \<Longrightarrow> sessions_ok (cur, fold remove_session ps sv)"
  by (simp add: sessions_ok_def get_remove_all)

lemma get_set_initiator:
  "get_session (set_initiator p b sv) q = (if q = p then map_option (update_initiator_flag b) (get_session sv p) else get_session sv q)"
  by (auto simp: set_initiator_def get_session_def update_conv' split: option.split)

lemma snapshot_sessions: "sessions (snd (interface_peer_snapshot ifc sv)) = sessions sv"
  by (simp add: interface_peer_snapshot_def Let_def)

lemma change_initiator_ok:
  assumes "sessions_ok (cur, sv)" and "sv1 = (case cur of Some c \<Rightarrow> set_initiator c False sv | None \<Rightarrow> sv)"
  shows "sessions_ok (Some new_dst, set_initiator new_dst True (snd (get_or_create_session random new_dst sv1)))"
proof -
  have "\<forall>p s. get_session sv1 p = Some s \<longrightarrow> ss_dst_peer_id s = p \<and> \<not> we_are_initiator s"
    using assms by (auto simp: sessions_ok_def get_set_initiator update_initiator_flag_def split: option.splits if_splits)
  then have "sessions_ok (None, sv1)" by (simp add: sessions_ok_def)
  from get_or_create_ok(1) [OF this] show ?thesis
    by (auto simp: sessions_ok_def get_set_initiator update_initiator_flag_def split: if_splits)
qed

lemma maintain_ok:
  assumes "sessions_ok (cur, sv)"
  shows "sessions_ok (maintain_sessions_round ifc random running (cur, sv))"
proof -
  define sv1 where "sv1 = snd (interface_peer_snapshot ifc sv)"
  define snap where "snap = fst (interface_peer_snapshot ifc sv)"
  define gone where "gone = filter (\<lambda>p. p \<notin> peers snap) (sorted_list_of_set (fst ` set (sessions sv1)))"
  define sv2 where "sv2 = fold remove_session gone sv1"
  define cur2 where "cur2 = (case cur of Some c \<Rightarrow> if c \<in> set gone then None else Some c | None \<Rightarrow> None)"
  have "sessions_ok (cur, sv1)" using assms by (simp add: sv1_def get_session_cong [OF snapshot_sessions] sessions_ok_def)
  then have 2: "sessions_ok (cur2, sv2)" by (auto simp: sessions_ok_def sv2_def cur2_def get_remove_all split: option.splits if_splits)
  have "sessions_ok (Some new_dst, if Some new_dst \<noteq> cur2
      then set_initiator new_dst True (snd (get_or_create_session random new_dst (case cur2 of Some c \<Rightarrow> set_initiator c False sv2 | None \<Rightarrow> sv2))) else sv2)" for new_dst
    using change_initiator_ok [OF 2 refl] 2 by auto
  from remove_all_ok [OF this] 2 show ?thesis
    unfolding maintain_sessions_round_def prod.case case_prod_beta Let_def fst_conv snd_conv
    unfolding sv1_def [symmetric] snap_def [symmetric]
    unfolding gone_def [symmetric]
    unfolding sv2_def [symmetric] cur2_def [symmetric]
    by simp
qed

section \<open>Every run\<close>

lemma rebuild_sessions:
  assumes "(if P then update_route_table_and_cached_local_conn_bitmap env now y \<bind> (\<lambda>sv. Some (hook (update_foreign_network_owner_map sv))) else Some (False, y)) = Some r"
    and "hook_keeps_sessions hook"
  shows "sessions (snd r) = sessions y"
  using assms by (auto simp: bind_eq_Some_conv hook_keeps_sessions_def dest!: update_route_table_keeps(4) split: if_splits)

lemma own_infos_sessions:
  assumes "update_my_infos env hook interval ifc ctx now sv = Some (b, closed, sv')" and "hook_keeps_sessions hook"
  shows "sessions sv' = sessions sv"
proof -
  have 1: "sessions (snd (service_update_my_peer_info env ctx now x)) = sessions x" for x
    by (simp add: service_update_my_peer_info_def case_prod_beta)
  have 2: "sessions (snd (service_update_my_conn_info env ifc now x)) = sessions x" for x
    by (simp add: service_update_my_conn_info_def Let_def case_prod_beta snapshot_sessions mark_interface_peers_dirty_def)
  have 3: "sessions z = sessions x" if "service_update_my_foreign_network interval ifc now x = Some (c, z)" for x c z
    using that by (auto simp: service_update_my_foreign_network_def bind_eq_Some_conv Let_def split: if_splits)
  define x where "x = snd (service_update_my_conn_info env ifc now (snd (service_update_my_peer_info env ctx now sv)))"
  have x: "sessions x = sessions sv" by (simp add: x_def 1 2)
  obtain c z where z: "service_update_my_foreign_network interval ifc now x = Some (c, z)"
    using assms(1) by (auto simp: update_my_infos_def case_prod_beta x_def bind_eq_Some_conv)
  obtain u y where y: "(if fst (service_update_my_peer_info env ctx now sv) then refresh_credential_trusts_with_current_topology env now z else Some ([], z)) = Some (u, y)"
    using assms(1) z by (auto simp: update_my_infos_def case_prod_beta x_def [symmetric] bind_eq_Some_conv)
  have ys: "sessions y = sessions z" using y refresh_trusts_stores(5) by (auto split: if_splits)
  obtain P r where r: "(if P then update_route_table_and_cached_local_conn_bitmap env now y \<bind> (\<lambda>sv. Some (hook (update_foreign_network_owner_map sv))) else Some (False, y)) = Some r"
      "sv' = (if fst (service_update_my_peer_info env ctx now sv) then (snd r)\<lparr>peer_info_last_update := now\<rparr> else snd r)"
    using assms(1) unfolding update_my_infos_def case_prod_beta x_def [symmetric] z y Let_def bind.bind_lunit fst_conv snd_conv bind_eq_Some_conv [of "if _ then _ else _"]
    by (auto simp: case_prod_beta)
  have "sessions sv' = sessions y" using rebuild_sessions [OF r(1) assms(2)] r(2) by simp
  then show ?thesis using ys 3 [OF z] x by simp
qed

lemma acl_groups_sessions:
  assumes "refresh_acl_groups env hook ctx now sv = Some (b, closed, sv')" and "hook_keeps_sessions hook"
  shows "sessions sv' = sessions sv"
proof -
  define x where "x = (snd (service_update_my_peer_info env ctx now sv))\<lparr>synced_route_info :=
     verify_and_update_group_trusts (api_hmac (env_trust env)) (map snd (peer_infos (synced_route_info (snd (service_update_my_peer_info env ctx now sv)))))
       (env_group_declarations env) (env_network_secret env = None) (synced_route_info (snd (service_update_my_peer_info env ctx now sv)))\<rparr>"
  have x: "sessions x = sessions sv" by (simp add: x_def service_update_my_peer_info_def case_prod_beta)
  obtain u y where y: "refresh_credential_trusts_with_current_topology env now x = Some (u, y)"
    using assms(1) by (auto simp: refresh_acl_groups_def case_prod_beta x_def Let_def bind_eq_Some_conv)
  obtain P r where r: "(if P then update_route_table_and_cached_local_conn_bitmap env now y \<bind> (\<lambda>sv. Some (hook (update_foreign_network_owner_map sv))) else Some (False, y)) = Some r"
      "sv' = (if fst (service_update_my_peer_info env ctx now sv) then (snd r)\<lparr>peer_info_last_update := now\<rparr> else snd r)"
    using assms(1) unfolding refresh_acl_groups_def case_prod_beta Let_def x_def [symmetric] y bind.bind_lunit fst_conv snd_conv bind_eq_Some_conv [of "if _ then _ else _"]
    by (auto simp: case_prod_beta)
  have "sessions sv' = sessions y" using rebuild_sessions [OF r(1) assms(2)] r(2) by simp
  then show ?thesis using refresh_trusts_stores(5) [OF y] x by simp
qed

lemma expire_sessions: "clear_expired_peer env now sv = Some (closed, sv') \<Longrightarrow> sessions sv' = sessions sv"
  by (auto simp: clear_expired_peer_def Let_def bind_eq_Some_conv dest!: refresh_trusts_stores(5) split: if_splits)

lemma step_ok:
  assumes "route_step env hook st st'" and "sessions_ok st" and "hook_keeps_sessions hook"
  shows "sessions_ok st'"
  using assms(1,2)
proof (induction rule: route_step.induct)
  case (maintain st ifc random running)
  then show ?case using maintain_ok by (cases st) auto
next
  case (request force now dst init sv req sv' cur)
  from request_role [OF request(1)] show ?case using request(2) put_session_role by blast
next
  case (response sv dst s pub now started req ret s' cur)
  then show ?case using response_role [OF response(2)] put_session_role by blast
next
  case (receive ifc now random req sv resp out cur)
  then have d: "do_sync_route_info env hook ifc now random req sv = Some out" by (auto simp: sync_route_info_def bind_eq_Some_conv split: if_splits)
  note g = get_or_create_ok [OF receive(2), of random "req_my_peer_id req"]
  from d assms(3) show ?case
  proof (cases rule: do_sync_sessions)
    case kept
    then show ?thesis using g(1) sessions_ok_cong [OF get_session_cong] by blast
  next
    case (put s sv1)
    have gs: "get_session sv1 = get_session (snd (get_or_create_session random (req_my_peer_id req) sv))" by (rule get_session_cong [OF put(2)])
    have "sessions_ok (cur, sv1)" using g(1) sessions_ok_cong [OF gs] by simp
    then show ?thesis using put_session_role [OF _ _ put(1), of cur sv1 "req_my_peer_id req"] g(2) gs put(3) by simp
  qed
next
  case (own_infos interval ifc ctx now sv b closed sv' cur)
  then show ?case using sessions_ok_cong [OF get_session_cong [OF own_infos_sessions [OF own_infos(1) assms(3)]]] by simp
next
  case (acl_groups ctx now sv b closed sv' cur)
  then show ?case using sessions_ok_cong [OF get_session_cong [OF acl_groups_sessions [OF acl_groups(1) assms(3)]]] by simp
next
  case (expire now sv closed sv' cur)
  then show ?case using sessions_ok_cong [OF get_session_cong [OF expire_sessions [OF expire(1)]]] by simp
next
  case (clean sv dst s cur now)
  then show ?case using put_session_role session_ops_role(4) by blast
qed

text \<open>
  C27. Along every run of the service, each session is stored under its peer and the node initiates at most one
  session, the one it currently has chosen.
\<close>

theorem single_initiator:
  assumes "route_run env hook (cur, sv)" and "hook_keeps_sessions hook"
  shows "\<forall>p s. get_session sv p = Some s \<longrightarrow> ss_dst_peer_id s = p \<and> (we_are_initiator s \<longrightarrow> cur = Some p)"
proof -
  have "sessions_ok st" if "route_run env hook st" for st
    using that
  proof (induction rule: route_run.induct)
    case (start my random now)
    show ?case by (simp add: sessions_ok_def get_session_def service_new_def)
  qed (use step_ok assms(2) in blast)
  from this [OF assms(1)] show ?thesis by (simp add: sessions_ok_def)
qed


text \<open>The snapshot of the interface is current.\<close>

definition snapshot_current :: "route_interface \<Rightarrow> ('raw, 'c4, 'c6) PeerRouteServiceImpl \<Rightarrow> bool" where
  "snapshot_current ifc sv \<longleftrightarrow> cached_interface_peer_snapshot sv = (interface_peer_snapshot_uncached ifc)\<lparr>generation := interface_peers_generation sv\<rparr>"

definition demo_start :: "(u32, unit, unit) PeerRouteServiceImpl" where
  "demo_start = service_new 2 2 0"

lemma demo_round: "\<exists>sv s. maintain_sessions_round demo_ifc 5 (\<lambda>_. True) (None, demo_start) = (Some 1, sv) \<and> get_session sv 1 = Some s \<and> we_are_initiator s \<and>
    \<not> dst_is_initiator s \<and> snapshot_current demo_ifc sv"
  by (simp add: maintain_sessions_round_def demo_start_def service_new_def demo_ifc_def interface_peer_snapshot_def interface_peer_snapshot_uncached_def
    initiator_candidates_def get_session_def choose_initiator_def get_udp_nat_type_def route_table_new_def get_or_create_session_def set_initiator_def
    update_initiator_flag_def sync_session_new_def snapshot_current_def Let_def)

theorem single_initiator_witness:
  "\<exists>sv s. route_run demo_env (\<lambda>sv. (False, sv)) (Some 1, sv) \<and> get_session sv 1 = Some s \<and> we_are_initiator s \<and> ss_dst_peer_id s = 1"
proof -
  obtain sv s where r: "maintain_sessions_round demo_ifc 5 (\<lambda>_. True) (None, demo_start) = (Some 1, sv)" "get_session sv 1 = Some s" "we_are_initiator s"
    using demo_round by blast
  have "route_run demo_env (\<lambda>sv. (False, sv)) (None, demo_start)" unfolding demo_start_def by (rule route_run.start)
  from route_run.step [OF this route_step.maintain [where ifc = demo_ifc and random = 5 and running = "\<lambda>_. True"]]
  have run: "route_run demo_env (\<lambda>sv. (False, sv)) (Some 1, sv)" by (simp only: r(1))
  have "hook_keeps_sessions (\<lambda>sv :: (u32, unit, unit) PeerRouteServiceImpl. (False, sv))" by (simp add: hook_keeps_sessions_def)
  from single_initiator [OF run this] show ?thesis using r run by blast
qed

section \<open>An initiator that stopped\<close>

lemma remove_all_snapshot: "snapshot_current ifc (fold remove_session ps sv) = snapshot_current ifc sv"
  by (induction ps arbitrary: sv) (simp_all add: snapshot_current_def remove_session_def)

lemma sessions_dom: "get_session sv c = Some s \<Longrightarrow> c \<in> set (sorted_list_of_set (fst ` set (sessions sv)))"
  by (force simp: get_session_def dest: map_of_SomeD)

lemma stopped_round:
  assumes "snapshot_current ifc sv" and "if_list_peers ifc = [c]" and "if_identity_type ifc c \<noteq> Some Credential" and "\<not> running c"
    and "\<forall>s. get_session sv c = Some s \<longrightarrow> \<not> dst_is_initiator s"
  shows "\<exists>sv'. maintain_sessions_round ifc random running (Some c, sv) = (Some c, sv') \<and> get_session sv' c = None \<and> snapshot_current ifc sv'"
proof -
  have snap: "interface_peer_snapshot ifc sv = ((interface_peer_snapshot_uncached ifc)\<lparr>generation := interface_peers_generation sv\<rparr>, sv)"
    using assms(1) by (simp add: snapshot_current_def interface_peer_snapshot_def)
  define snap' where "snap' = (interface_peer_snapshot_uncached ifc)\<lparr>generation := interface_peers_generation sv\<rparr>"
  have peers: "peers snap' = {c}" by (simp add: snap'_def interface_peer_snapshot_uncached_def assms(2))
  define gone where "gone = filter (\<lambda>p. p \<notin> peers snap') (sorted_list_of_set (fst ` set (sessions sv)))"
  define sv1 where "sv1 = fold remove_session gone sv"
  have g: "c \<notin> set gone" by (simp add: gone_def peers)
  then have c1: "get_session sv1 c = get_session sv c" by (simp add: sv1_def get_remove_all)
  have cands: "initiator_candidates snap' sv1 = [c]"
    using assms(2,3,5) c1 by (auto simp: initiator_candidates_def peers snap'_def interface_peer_snapshot_uncached_def split: option.split)
  have choose: "choose_initiator rt [c] = c" for rt :: "('b, 'c) RouteTable" by (simp add: choose_initiator_def)
  define stop where "stop = filter (\<lambda>p. case get_session sv1 p of
      Some s \<Rightarrow> \<not> ((dst_is_initiator s \<or> we_are_initiator s \<or> need_sync_initiator_info s) \<and> running p) | None \<Rightarrow> False) (sorted_list_of_set (fst ` set (sessions sv)))"
  have "maintain_sessions_round ifc random running (Some c, sv) = (Some c, fold remove_session stop sv1)"
    unfolding maintain_sessions_round_def prod.case snap Let_def snap'_def [symmetric] gone_def [symmetric] sv1_def [symmetric] cands choose
    by (simp add: g stop_def)
  moreover have "get_session (fold remove_session stop sv1) c = None"
    using sessions_dom [of sv c] assms(4) c1 by (cases "get_session sv c") (auto simp: get_remove_all stop_def)
  moreover have "snapshot_current ifc (fold remove_session stop sv1)" by (simp add: remove_all_snapshot sv1_def assms(1))
  ultimately show ?thesis by blast
qed

text \<open>
  If the task of the initiated session ended, the next round removes the session but keeps its peer as the
  current choice, so no later round opens a session to it again: a node whose only neighbour it is stays
  without a session.
\<close>

theorem stopped_initiator_not_restarted:
  assumes "snapshot_current ifc sv" and "if_list_peers ifc = [c]" and "if_identity_type ifc c \<noteq> Some Credential" and "\<not> running c"
    and "get_session sv c = Some s" and "\<not> dst_is_initiator s"
  shows "\<exists>sv'. (maintain_sessions_round ifc random running ^^ Suc n) (Some c, sv) = (Some c, sv') \<and> get_session sv' c = None"
proof -
  have "\<exists>sv'. (maintain_sessions_round ifc random running ^^ Suc n) (Some c, sv) = (Some c, sv') \<and> get_session sv' c = None \<and> snapshot_current ifc sv'"
  proof (induction n)
    case 0
    then show ?case using stopped_round [where running = running, OF assms(1-4)] assms(5,6) by simp
  next
    case (Suc n)
    then obtain sv' where i: "(maintain_sessions_round ifc random running ^^ Suc n) (Some c, sv) = (Some c, sv')" "get_session sv' c = None" "snapshot_current ifc sv'" by blast
    from stopped_round [where running = running, OF i(3) assms(2-4)] i(1,2) show ?case by simp
  qed
  then show ?thesis by blast
qed

theorem stopped_initiator_not_restarted_witness:
  "\<exists>sv sv' s. maintain_sessions_round demo_ifc 5 (\<lambda>_. True) (None, demo_start) = (Some 1, sv) \<and> get_session sv 1 = Some s \<and>
     (maintain_sessions_round demo_ifc 5 (\<lambda>_. False) ^^ Suc 9) (Some 1, sv) = (Some 1, sv') \<and> get_session sv' 1 = None"
proof -
  from demo_round obtain sv s where r: "maintain_sessions_round demo_ifc 5 (\<lambda>_. True) (None, demo_start) = (Some 1, sv)" "get_session sv 1 = Some s"
      "\<not> dst_is_initiator s" "snapshot_current demo_ifc sv" by blast
  have "if_list_peers demo_ifc = [1]" "if_identity_type demo_ifc 1 \<noteq> Some Credential" by (simp_all add: demo_ifc_def)
  from stopped_initiator_not_restarted [OF r(4) this _ r(2,3), of "\<lambda>_. False" 9 5] r(1,2) show ?thesis by blast
qed

end
