(* ===== verification/Credential_Manager.thy ===== *)
theory Credential_Manager
  imports Route_Trust
begin

text \<open>
  \<open>peers/credential_manager.rs\<close>: the credentials an administrator issues to nodes without the network secret, and the
  use of them and of the propagated keys by the context (\<open>is_pubkey_trusted\<close> and \<open>get_secret_proof\<close> in
  \<open>common/global_ctx.rs\<close>). Parameters: base64, the key generator, the identifier generator and the clock. The file
  behind \<open>storage_path\<close> is the map it holds; whether a write succeeds is a parameter.
\<close>

section \<open>The manager\<close>

text \<open>Base64 and X25519 are third-party code.\<close>

record key_api =
  b64_encode :: "bytes \<Rightarrow> string"
  b64_decode :: "string \<Rightarrow> bytes option"
  public_key :: "bytes \<Rightarrow> bytes"

record CredentialEntry =
  ce_pubkey :: string
  ce_secret :: string
  ce_groups :: "string list"
  ce_allow_relay :: bool
  ce_allowed_proxy_cidrs :: "string list"
  ce_reusable :: bool
  ce_expiry_unix :: int
  ce_created_at_unix :: int

definition is_active_at :: "int \<Rightarrow> CredentialEntry \<Rightarrow> bool" where
  "is_active_at now e \<longleftrightarrow> ce_expiry_unix e > now"

definition decode_pubkey_b64 :: "key_api \<Rightarrow> string \<Rightarrow> bytes option" where
  "decode_pubkey_b64 api s = (case b64_decode api s of
     None \<Rightarrow> None | Some d \<Rightarrow> if length d \<noteq> 32 then None else Some d)"

definition to_trusted_credential :: "key_api \<Rightarrow> CredentialEntry \<Rightarrow> TrustedCredentialPubkey option" where
  "to_trusted_credential api e = map_option (\<lambda>pk. \<lparr>cred_pubkey = pk, cred_groups = ce_groups e, allow_relay = ce_allow_relay e,
     expiry_unix = ce_expiry_unix e, allowed_proxy_cidrs = ce_allowed_proxy_cidrs e, reusable = Some (ce_reusable e)\<rparr>)
     (decode_pubkey_b64 api (ce_pubkey e))"

record CredentialInfo =
  ci_credential_id :: string
  ci_groups :: "string list"
  ci_allow_relay :: bool
  ci_expiry_unix :: int
  ci_allowed_proxy_cidrs :: "string list"
  ci_reusable :: "bool option"

definition to_api_credential_info :: "string \<Rightarrow> CredentialEntry \<Rightarrow> CredentialInfo" where
  "to_api_credential_info cid e = \<lparr>ci_credential_id = cid, ci_groups = ce_groups e, ci_allow_relay = ce_allow_relay e,
     ci_expiry_unix = ce_expiry_unix e, ci_allowed_proxy_cidrs = ce_allowed_proxy_cidrs e, ci_reusable = Some (ce_reusable e)\<rparr>"

record CredentialManager =
  credentials :: "(string \<times> CredentialEntry) list"
  has_storage :: bool
  storage :: "(string \<times> CredentialEntry) list option"

definition save_to_disk :: "bool \<Rightarrow> CredentialManager \<Rightarrow> CredentialManager" where
  "save_to_disk written m = (if \<not> has_storage m then m else if written then m\<lparr>storage := Some (credentials m)\<rparr> else m)"

text \<open>A missing or unreadable file is \<^term>\<open>None\<close>.\<close>

definition load_from_disk :: "CredentialManager \<Rightarrow> CredentialManager" where
  "load_from_disk m = (if \<not> has_storage m then m else case storage m of None \<Rightarrow> m | Some loaded \<Rightarrow> m\<lparr>credentials := loaded\<rparr>)"

definition credential_manager_new :: "(string \<times> CredentialEntry) list option option \<Rightarrow> CredentialManager" where
  "credential_manager_new file = load_from_disk
     (case file of None \<Rightarrow> \<lparr>credentials = [], has_storage = False, storage = None\<rparr>
      | Some content \<Rightarrow> \<lparr>credentials = [], has_storage = True, storage = content\<rparr>)"

text \<open>The sum of the clock and the lifetime is a signed 64-bit addition.\<close>

definition build_entry :: "key_api \<Rightarrow> bytes \<Rightarrow> int \<Rightarrow> string list \<Rightarrow> bool \<Rightarrow> string list \<Rightarrow> bool \<Rightarrow> u64 \<Rightarrow> CredentialEntry \<times> string" where
  "build_entry api private now gs relay cidrs reuse ttl =
     (let secret = b64_encode api private
      in (\<lparr>ce_pubkey = b64_encode api (public_key api private), ce_secret = secret, ce_groups = gs, ce_allow_relay = relay,
           ce_allowed_proxy_cidrs = cidrs, ce_reusable = reuse, ce_expiry_unix = sint ((of_int now :: u64) + ttl),
           ce_created_at_unix = now\<rparr>, secret))"

definition generate_credential_with_options ::
  "key_api \<Rightarrow> bytes \<Rightarrow> string \<Rightarrow> int \<Rightarrow> bool \<Rightarrow> string list \<Rightarrow> bool \<Rightarrow> string list \<Rightarrow> u64 \<Rightarrow> string option \<Rightarrow> bool
    \<Rightarrow> CredentialManager \<Rightarrow> (string \<times> string) \<times> CredentialManager" where
  "generate_credential_with_options api private uuid now written gs relay cidrs ttl cid reuse m =
     (let wanted = (case map_option trim cid of Some s \<Rightarrow> if s = '''' then None else Some s | None \<Rightarrow> None);
          new = (\<lambda>i. let (e, secret) = build_entry api private now gs relay cidrs reuse ttl
            in ((i, secret), save_to_disk written (m\<lparr>credentials := AList.update i e (credentials m)\<rparr>)))
      in case wanted of
        None \<Rightarrow> new uuid
      | Some i \<Rightarrow>
          (case map_of (credentials m) i of
             Some existing \<Rightarrow> if ce_secret existing \<noteq> '''' then ((i, ce_secret existing), m) else new i
           | None \<Rightarrow> new i))"

definition generate_credential_with_id where
  "generate_credential_with_id api private uuid now written gs relay cidrs ttl cid m =
     generate_credential_with_options api private uuid now written gs relay cidrs ttl cid True m"

definition generate_credential where
  "generate_credential api private uuid now written gs relay cidrs ttl m =
     generate_credential_with_options api private uuid now written gs relay cidrs ttl None True m"

definition revoke_credential :: "bool \<Rightarrow> string \<Rightarrow> CredentialManager \<Rightarrow> bool \<times> CredentialManager" where
  "revoke_credential written i m =
     (if map_of (credentials m) i \<noteq> None then (True, save_to_disk written (m\<lparr>credentials := AList.delete i (credentials m)\<rparr>))
      else (False, m))"

definition manager_trusted_pubkeys ::
  "(bytes \<Rightarrow> bytes \<Rightarrow> bytes) \<Rightarrow> (TrustedCredentialPubkey \<Rightarrow> bytes) \<Rightarrow> key_api \<Rightarrow> int \<Rightarrow> string \<Rightarrow> CredentialManager
    \<Rightarrow> TrustedCredentialPubkeyProof list" where
  "manager_trusted_pubkeys hmac encode api now secret m =
     List.map_filter (\<lambda>e. map_option (\<lambda>c. new_signed hmac encode c secret) (to_trusted_credential api e))
       (filter (is_active_at now) (map snd (credentials m)))"

definition manager_pubkey_trusted :: "key_api \<Rightarrow> int \<Rightarrow> bytes \<Rightarrow> CredentialManager \<Rightarrow> bool" where
  "manager_pubkey_trusted api now pubkey m =
     list_ex (\<lambda>e. ce_pubkey e = b64_encode api pubkey \<and> is_active_at now e) (map snd (credentials m))"

definition list_credentials :: "int \<Rightarrow> CredentialManager \<Rightarrow> CredentialInfo list" where
  "list_credentials now m = map (\<lambda>(i, e). to_api_credential_info i e) (filter (\<lambda>(_, e). is_active_at now e) (credentials m))"

section \<open>The context\<close>

text \<open>The identity of the network: its name, the secret of an administrator, the digest of the secret.\<close>

record NetworkIdentity =
  ni_network_name :: string
  ni_network_secret :: "string option"
  ni_network_secret_digest :: "bytes option"

definition get_secret_proof :: "(bytes \<Rightarrow> bytes \<Rightarrow> bytes) \<Rightarrow> NetworkIdentity \<Rightarrow> bytes \<Rightarrow> bytes option" where
  "get_secret_proof hmac ni challenge = map_option (\<lambda>secret. hmac (str_bytes secret) (str_bytes ''easytier secret proof'' @ challenge))
     (ni_network_secret ni)"

definition is_pubkey_trusted :: "key_api \<Rightarrow> int \<Rightarrow> TrustedKeyMapManager \<Rightarrow> CredentialManager \<Rightarrow> string \<Rightarrow> bytes \<Rightarrow> string \<Rightarrow> bool" where
  "is_pubkey_trusted api now keys creds my_network pubkey network =
     (if verify_trusted_key now keys pubkey network then True
      else if network = my_network then manager_pubkey_trusted api now pubkey creds
      else False)"

section \<open>The life of a credential\<close>

definition key_api_ok :: "key_api \<Rightarrow> bool" where
  "key_api_ok api \<longleftrightarrow> (\<forall>b. b64_decode api (b64_encode api b) = Some b) \<and> (\<forall>p. length (public_key api p) = 32)"

lemma b64_inj: "key_api_ok api \<Longrightarrow> b64_encode api a = b64_encode api b \<longleftrightarrow> a = b"
  by (metis key_api_ok_def option.inject)

lemma credentials_save [simp]: "credentials (save_to_disk w m) = credentials m"
  by (simp add: save_to_disk_def)

lemma generated_entry:
  assumes "generate_credential api private uuid now w gs relay cidrs ttl m = ((i, secret), m')"
  shows "i = uuid \<and> secret = b64_encode api private \<and>
    credentials m' = AList.update uuid (fst (build_entry api private now gs relay cidrs True ttl)) (credentials m)"
  using assms by (auto simp: generate_credential_def generate_credential_with_options_def build_entry_def Let_def)

definition demo_keys :: key_api where
  "demo_keys = \<lparr>b64_encode = (\<lambda>b. CHR ''='' # map (\<lambda>x. char_of (unat x)) b), b64_decode = (\<lambda>s. case s of [] \<Rightarrow> None | _ # s \<Rightarrow> Some (map (\<lambda>ch. of_nat (of_char ch)) s)),
     public_key = (\<lambda>p. if length p = 32 then p else replicate 32 (hd (p @ [0])))\<rparr>"

lemma unat_mod_256: "unat (x :: u8) mod 256 = unat x"
  using unsigned_less [of x, where ?'a = nat] by simp

lemma demo_keys_ok: "key_api_ok demo_keys"
  by (simp add: key_api_ok_def demo_keys_def comp_def unat_mod_256)

text \<open>
  C29. A new credential is trusted exactly while it has not expired, its public key is what the administrator announces
  with a proof that the holders of the network secret accept, and once it is revoked neither its key is trusted nor is
  it announced: trust is again what it was before the credential was issued.
\<close>

theorem credential_lifecycle:
  assumes "key_api_ok api" and "\<And>k d. hmac k d \<noteq> []" and "map_of (credentials m) uuid = None"
    and "\<not> manager_pubkey_trusted api t (public_key api private) m"
    and "generate_credential api private uuid now w gs relay cidrs ttl m = ((i, secret), m')"
  shows "(manager_pubkey_trusted api t (public_key api private) m' \<longleftrightarrow> t < sint ((of_int now :: u64) + ttl)) \<and>
    (t < sint ((of_int now :: u64) + ttl) \<longrightarrow> (\<exists>p \<in> set (manager_trusted_pubkeys hmac encode api t net_secret m').
      verify_credential_hmac hmac encode p net_secret \<and> map_option cred_pubkey (credential p) = Some (public_key api private))) \<and>
    fst (revoke_credential w' i m') \<and>
    manager_pubkey_trusted api t' pk (snd (revoke_credential w' i m')) = manager_pubkey_trusted api t' pk m \<and>
    manager_trusted_pubkeys hmac encode api t' net_secret (snd (revoke_credential w' i m')) =
      manager_trusted_pubkeys hmac encode api t' net_secret m"
proof -
  define e where "e = fst (build_entry api private now gs relay cidrs True ttl)"
  have m': "i = uuid" "credentials m' = credentials m @ [(uuid, e)]"
    using generated_entry [OF assms(5)] fresh_update [OF assms(3)] by (auto simp: e_def)
  have e: "ce_pubkey e = b64_encode api (public_key api private)" "is_active_at t e \<longleftrightarrow> t < sint ((of_int now :: u64) + ttl)" for t
    by (auto simp: e_def build_entry_def is_active_at_def Let_def)
  have 1: "manager_pubkey_trusted api t (public_key api private) m' \<longleftrightarrow> t < sint ((of_int now :: u64) + ttl)"
    using assms(4) e by (simp add: manager_pubkey_trusted_def m')
  obtain c where c: "to_trusted_credential api e = Some c" "cred_pubkey c = public_key api private"
    using assms(1) by (auto simp: to_trusted_credential_def decode_pubkey_b64_def e(1) key_api_ok_def)
  have "verify_credential_hmac hmac encode (new_signed hmac encode c net_secret) net_secret"
    using assms(2) by (intro new_signed_verifies) (simp add: generate_credential_hmac_from_bytes_def)
  then have 2: "t < sint ((of_int now :: u64) + ttl) \<longrightarrow> (\<exists>p \<in> set (manager_trusted_pubkeys hmac encode api t net_secret m').
      verify_credential_hmac hmac encode p net_secret \<and> map_option cred_pubkey (credential p) = Some (public_key api private))"
    using c e(2) by (auto simp: manager_trusted_pubkeys_def m' List.map_filter_def new_signed_def intro!: bexI [of _ "new_signed hmac encode c net_secret"])
  have r: "fst (revoke_credential w' i m')" by (simp add: revoke_credential_def m' map_of_eq_None_iff)
  have "credentials (snd (revoke_credential w' i m')) = credentials m"
    using r fresh_delete [OF assms(3)] by (auto simp: revoke_credential_def m' split: if_splits)
  then show ?thesis using 1 2 r by (simp add: manager_pubkey_trusted_def manager_trusted_pubkeys_def)
qed

theorem credential_lifecycle_witness:
  "\<exists>m'. generate_credential demo_keys [7] ''id'' 100 True [''guest''] False [] 3600 (credential_manager_new None) =
      ((''id'', b64_encode demo_keys [7]), m') \<and>
    manager_pubkey_trusted demo_keys 3699 (public_key demo_keys [7]) m' \<and>
    \<not> manager_pubkey_trusted demo_keys 3700 (public_key demo_keys [7]) m' \<and>
    (\<exists>p \<in> set (manager_trusted_pubkeys (\<lambda>k d. 1 # k @ d) cred_pubkey demo_keys 3699 ''s'' m').
      verify_credential_hmac (\<lambda>k d. 1 # k @ d) cred_pubkey p ''s'') \<and>
    \<not> manager_pubkey_trusted demo_keys 3699 (public_key demo_keys [7]) (snd (revoke_credential True ''id'' m')) \<and>
    manager_trusted_pubkeys (\<lambda>k d. 1 # k @ d) cred_pubkey demo_keys 3699 ''s'' (snd (revoke_credential True ''id'' m')) = []"
proof -
  let ?m = "credential_manager_new None"
  have c: "credentials ?m = []" by (simp add: credential_manager_new_def load_from_disk_def)
  obtain i s m' where g: "generate_credential demo_keys [7] ''id'' 100 True [''guest''] False [] 3600 ?m = ((i, s), m')"
    by (metis prod.exhaust)
  have i: "i = ''id''" "s = b64_encode demo_keys [7]" using generated_entry [OF g] by auto
  have n: "map_of (credentials ?m) ''id'' = None" "\<not> manager_pubkey_trusted demo_keys t pk ?m"
    "manager_trusted_pubkeys h en demo_keys t ns ?m = []" for t pk h en ns
    by (simp_all add: c manager_pubkey_trusted_def manager_trusted_pubkeys_def List.map_filter_def)
  note life = credential_lifecycle [OF demo_keys_ok _ n(1,2) g, where hmac = "\<lambda>k d. 1 # k @ d" and encode = cred_pubkey and t' = 3699 and net_secret = "''s''"]
  have "sint ((of_int 100 :: u64) + 3600) = 3700" by simp
  then show ?thesis using life [of 3699 True] life [of 3700] g n(2,3) by (auto simp: i)
qed

text \<open>
  Asking again for a credential under an identifier whose credential has expired hands out the old secret and
  renews nothing: the returned secret's key is not trusted then, nor at any later time.
\<close>

theorem expired_credential_reissued:
  assumes "key_api_ok api" and "map_of (credentials m) cid = Some e" and "distinct (map fst (credentials m))"
    and "ce_secret e = b64_encode api private" and "ce_pubkey e = b64_encode api (public_key api private)" and "ce_secret e \<noteq> ''''"
    and "trim cid = cid" and "cid \<noteq> ''''" and "ce_expiry_unix e \<le> now"
    and "\<forall>(k, e') \<in> set (credentials m). ce_pubkey e' = ce_pubkey e \<longrightarrow> k = cid"
  shows "\<exists>m'. generate_credential_with_id api fresh uuid now w gs relay cidrs ttl (Some cid) m = ((cid, b64_encode api private), m') \<and>
    (\<forall>t \<ge> now. \<not> manager_pubkey_trusted api t (public_key api private) m')"
proof -
  have g: "generate_credential_with_id api fresh uuid now w gs relay cidrs ttl (Some cid) m = ((cid, b64_encode api private), m)"
    using assms by (simp add: generate_credential_with_id_def generate_credential_with_options_def Let_def)
  have "\<not> manager_pubkey_trusted api t (public_key api private) m" if "t \<ge> now" for t
  proof
    assume "manager_pubkey_trusted api t (public_key api private) m"
    then obtain k e' where k: "(k, e') \<in> set (credentials m)" "ce_pubkey e' = ce_pubkey e" "is_active_at t e'"
      using assms(5) by (auto simp: manager_pubkey_trusted_def list_ex_iff)
    then have "k = cid" using assms(10) by auto
    then have "e' = e" using k assms(2,3) by (metis map_of_is_SomeI option.inject)
    then show False using k that assms(9) by (simp add: is_active_at_def)
  qed
  then show ?thesis using g by blast
qed

theorem expired_credential_reissued_witness:
  "let m = snd (generate_credential demo_keys [7] ''id'' 100 True [] False [] 10 (credential_manager_new None))
   in \<exists>m'. generate_credential_with_id demo_keys [8] ''new'' 200 True [] False [] 3600 (Some ''id'') m = ((''id'', b64_encode demo_keys [7]), m') \<and>
     (\<forall>t \<ge> 200. \<not> manager_pubkey_trusted demo_keys t (public_key demo_keys [7]) m')"
proof -
  let ?m = "snd (generate_credential demo_keys [7] ''id'' 100 True [] False [] 10 (credential_manager_new None))"
  let ?e = "fst (build_entry demo_keys [7] 100 [] False [] True 10)"
  have m: "credentials ?m = [(''id'', ?e)]"
    by (simp add: generate_credential_def generate_credential_with_options_def credential_manager_new_def load_from_disk_def Let_def split_def)
  have e: "ce_secret ?e = b64_encode demo_keys [7]" "ce_pubkey ?e = b64_encode demo_keys (public_key demo_keys [7])" "ce_secret ?e \<noteq> ''''"
    "ce_expiry_unix ?e \<le> 200" by (simp_all add: build_entry_def demo_keys_def Let_def)
  have t: "trim ''id'' = ''id''" by (simp add: trim_def is_space_def)
  show ?thesis unfolding Let_def
    by (rule expired_credential_reissued [OF demo_keys_ok, where e = ?e]) (use m e t in auto)
qed

end
