(* ===== verification/Peer_Map.thy ===== *)
theory Peer_Map
  imports Route_Service Peer_Session
begin

text \<open>
  \<open>peers/peer.rs\<close>, \<open>peers/peer_map.rs\<close>, \<open>peers/foreign_network_client.rs\<close> and the lookups of \<open>PeerRoute\<close> in
  \<open>peers/peer_ospf_route.rs\<close>: the connections to a neighbour, the neighbours of a node, and the choice of the
  connection and of the gateway for a packet. Whether the tunnel of a connection takes a packet is a
  parameter; the tasks that wait for close events are operations of their own.
\<close>

section \<open>Connections to a peer\<close>

type_synonym PeerConnId = "128 word"

datatype pm_error = RouteError | PeerNoConnectionError PeerId | TunnelError | SecretKeyError | ConnNotFound | CryptError ps_error

record PeerConn =
  conn_id :: PeerConnId
  conn_peer_id :: PeerId
  conn_identity_type :: PeerIdentityType
  noise_remote_static_pubkey :: bytes
  latency_us :: u64
  conn_is_closed :: bool
  is_hole_punched :: bool
  client_url :: "string option"

record Peer =
  peer_node_id :: PeerId
  conns :: "(PeerConnId \<times> PeerConn) list"
  default_conn_id :: PeerConnId
  peer_identity_type :: "PeerIdentityType option"
  peer_public_key :: "bytes option"

definition peer_new :: "PeerId \<Rightarrow> Peer" where
  "peer_new p = \<lparr>peer_node_id = p, conns = [], default_conn_id = 0, peer_identity_type = None, peer_public_key = None\<rparr>"

text \<open>The identity is stored before the key is checked.\<close>

definition add_peer_conn :: "PeerConn \<Rightarrow> Peer \<Rightarrow> (pm_error + unit) \<times> Peer" where
  "add_peer_conn conn p =
     (if (case peer_identity_type p of Some t \<Rightarrow> t \<noteq> conn_identity_type conn | None \<Rightarrow> False) then (Inl SecretKeyError, p)
      else let p = p\<lparr>peer_identity_type := Some (conn_identity_type conn)\<rparr>
        in if (case peer_public_key p of Some k \<Rightarrow> k \<noteq> noise_remote_static_pubkey conn | None \<Rightarrow> False) then (Inl SecretKeyError, p)
           else (Inr (), p\<lparr>peer_public_key := Some (noise_remote_static_pubkey conn), conns := AList.update (conn_id conn) conn (conns p)\<rparr>))"

text \<open>The close event of a connection.\<close>

definition conn_closed :: "PeerConnId \<Rightarrow> Peer \<Rightarrow> Peer" where
  "conn_closed cid p = (case map_of (conns p) cid of
     None \<Rightarrow> p
   | Some _ \<Rightarrow>
       let p = p\<lparr>conns := AList.delete cid (conns p)\<rparr>
       in if conns p = [] then p\<lparr>peer_identity_type := None, peer_public_key := None\<rparr> else p)"

text \<open>Every five seconds the default is cleared if there is a choice.\<close>

definition clear_default_conn :: "Peer \<Rightarrow> Peer" where
  "clear_default_conn p = (if length (conns p) > 1 then p\<lparr>default_conn_id := 0\<rparr> else p)"

definition min_latency_conn :: "(PeerConnId \<times> PeerConn) list \<Rightarrow> u64 \<times> PeerConnId \<Rightarrow> u64 \<times> PeerConnId" where
  "min_latency_conn cs st = fold (\<lambda>(_, c) (min_latency, d). if latency_us c < min_latency then (latency_us c, conn_id c) else (min_latency, d)) cs st"

definition select_conn :: "Peer \<Rightarrow> PeerConn option \<times> Peer" where
  "select_conn p = (case map_of (conns p) (default_conn_id p) of
     Some c \<Rightarrow> (Some c, p)
   | None \<Rightarrow>
       let p = p\<lparr>default_conn_id := snd (min_latency_conn (conns p) (-1, default_conn_id p))\<rparr>
       in (map_of (conns p) (default_conn_id p), p))"

text \<open>\<open>sink\<close> tells whether the tunnel of a connection takes the packet.\<close>

type_synonym sink = "PeerConn \<Rightarrow> zc_packet \<Rightarrow> bool"

definition peer_send_msg :: "sink \<Rightarrow> zc_packet \<Rightarrow> Peer \<Rightarrow> (pm_error + PeerConnId) \<times> Peer" where
  "peer_send_msg sink msg p = (case select_conn p of
     (None, p) \<Rightarrow> (Inl (PeerNoConnectionError (peer_node_id p)), p)
   | (Some c, p) \<Rightarrow> (if sink c msg then Inr (conn_id c) else Inl TunnelError, p))"

definition close_peer_conn :: "PeerConnId \<Rightarrow> Peer \<Rightarrow> (pm_error + PeerConnId)" where
  "close_peer_conn cid p = (if map_of (conns p) cid = None then Inl ConnNotFound else Inr cid)"

text \<open>The open connections, and the closed ones for which a close event is sent.\<close>

definition list_peer_conns :: "Peer \<Rightarrow> PeerConn list \<times> PeerConnId list" where
  "list_peer_conns p = (filter (\<lambda>c. \<not> conn_is_closed c) (map snd (conns p)), map conn_id (filter conn_is_closed (map snd (conns p))))"

definition has_live_conns :: "Peer \<Rightarrow> bool" where
  "has_live_conns p = list_ex (\<lambda>(_, c). \<not> conn_is_closed c) (conns p)"

definition peer_has_directly_connected_conn :: "Peer \<Rightarrow> bool" where
  "peer_has_directly_connected_conn p = list_ex (\<lambda>(_, c). \<not> conn_is_closed c \<and> \<not> is_hole_punched c) (conns p)"

definition get_directly_connections :: "Peer \<Rightarrow> PeerConnId set" where
  "get_directly_connections p = set (map (conn_id \<circ> snd) (filter (\<lambda>(_, c). \<not> is_hole_punched c) (conns p)))"

section \<open>Routes\<close>

text \<open>
  \<open>Route\<close> of the management API, and the conversion from a route entry. An unknown NAT type leaves the
  default \<open>Unknown = 0\<close>; \<open>inst_id\<close> is kept as the identifier whose text the code stores.
\<close>

record listed_route =
  lr_peer_id :: PeerId
  lr_ipv4_addr :: "(u32 \<times> u32) option"
  lr_next_hop_peer_id :: PeerId
  lr_cost :: u32
  lr_path_latency :: u32
  lr_proxy_cidrs :: "string list"
  lr_hostname :: string
  lr_udp_nat_type :: u32
  lr_tcp_nat_type :: u32
  lr_inst_id :: "128 word option"
  lr_version :: string
  lr_feature_flag :: "PeerFeatureFlag option"
  lr_next_hop_peer_id_latency_first :: "PeerId option"
  lr_cost_latency_first :: "u32 option"
  lr_path_latency_latency_first :: "u32 option"
  lr_ipv6_addr :: "Ipv6InetPb option"
  lr_public_ipv6_addr :: "Ipv6InetPb option"
  lr_ipv6_public_addr_prefix :: "Ipv6InetPb option"

definition nat_type_or_default :: "u32 \<Rightarrow> u32" where
  "nat_type_or_default t = (if t \<le> 9 then t else 0)"

definition route_of_info :: "RoutePeerInfo \<Rightarrow> listed_route" where
  "route_of_info v = \<lparr>lr_peer_id = peer_id v,
     lr_ipv4_addr = map_option (\<lambda>a. (a, if network_length v = 0 then 24 else network_length v)) (ipv4_addr v),
     lr_next_hop_peer_id = 0, lr_cost = 0, lr_path_latency = 0, lr_proxy_cidrs = proxy_cidrs v,
     lr_hostname = (case hostname v of Some h \<Rightarrow> h | None \<Rightarrow> ''''),
     lr_udp_nat_type = nat_type_or_default (udp_nat_type v), lr_tcp_nat_type = nat_type_or_default (tcp_nat_type v),
     lr_inst_id = inst_id v, lr_version = easytier_version v, lr_feature_flag = feature_flag v,
     lr_next_hop_peer_id_latency_first = None, lr_cost_latency_first = None, lr_path_latency_latency_first = None,
     lr_ipv6_addr = ipv6_addr v, lr_public_ipv6_addr = ipv6_public_addr_lease v,
     lr_ipv6_public_addr_prefix = ipv6_public_addr_prefix v\<rparr>"

text \<open>What the peer map asks a route (trait \<open>Route\<close>).\<close>

record route_ops =
  ro_next_hop_with_policy :: "PeerId \<Rightarrow> NextHopPolicy \<Rightarrow> PeerId option"
  ro_peer_id_by_ipv4 :: "u32 \<Rightarrow> PeerId option"
  ro_peer_id_by_ipv6 :: "128 word \<Rightarrow> PeerId option"
  ro_peer_info :: "PeerId \<Rightarrow> RoutePeerInfo option"
  ro_origin_my_peer_id :: "string \<Rightarrow> PeerId \<Rightarrow> PeerId option"
  ro_peers_own_foreign_network :: "string \<times> bytes \<Rightarrow> PeerId list"
  ro_list_routes :: "listed_route list"

text \<open>\<open>PeerRoute\<close>. \<open>same4\<close> and \<open>same6\<close> are \<open>is_ip_in_same_network\<close> of the context.\<close>

definition get_next_hop_with_policy :: "('raw, 'c4, 'c6) PeerRouteServiceImpl \<Rightarrow> PeerId \<Rightarrow> NextHopPolicy \<Rightarrow> PeerId option" where
  "get_next_hop_with_policy sv dst policy =
     map_option next_hop_peer_id (get_next_hop (if policy = LeastCost then route_table_with_cost sv else route_table sv) dst)"

definition get_peer_id_by_ipv4 :: "('c4, 'c6) cidr_ops \<Rightarrow> (u32 \<Rightarrow> bool) \<Rightarrow> ('raw, 'c4, 'c6) PeerRouteServiceImpl \<Rightarrow> u32 \<Rightarrow> PeerId option" where
  "get_peer_id_by_ipv4 ops same4 sv ip = (case ipv4_peer_id_map (route_table sv) ip of
     Some p \<Rightarrow> Some (pv_peer_id p)
   | None \<Rightarrow> if same4 ip then None else get_peer_id_for_proxy ops (route_table sv) (Inl ip))"

definition get_peer_id_by_ipv6 :: "('c4, 'c6) cidr_ops \<Rightarrow> (128 word \<Rightarrow> bool) \<Rightarrow> ('raw, 'c4, 'c6) PeerRouteServiceImpl \<Rightarrow> 128 word \<Rightarrow> PeerId option" where
  "get_peer_id_by_ipv6 ops same6 sv ip = (case ipv6_peer_id_map (route_table sv) ip of
     Some p \<Rightarrow> Some (pv_peer_id p)
   | None \<Rightarrow> if same6 ip then None else get_peer_id_for_proxy ops (route_table sv) (Inr ip))"

text \<open>\<open>list_routes\<close>, over the keys \<open>order\<close> of the table's peers in the order of the iteration.\<close>

definition list_routes :: "PeerId list \<Rightarrow> ('raw, 'c4, 'c6) PeerRouteServiceImpl \<Rightarrow> listed_route list" where
  "list_routes order sv = List.map_filter (\<lambda>p. case rt_peer_infos (route_table sv) p of
     None \<Rightarrow> None
   | Some info \<Rightarrow>
       if p = my_peer_id sv then None
       else (case get_next_hop (route_table sv) p of
           None \<Rightarrow> None
         | Some h \<Rightarrow>
             let h' = get_next_hop (route_table_with_cost sv) p
             in Some ((route_of_info info)\<lparr>lr_next_hop_peer_id := next_hop_peer_id h, lr_cost := of_nat (path_len h),
                  lr_path_latency := path_latency h,
                  lr_next_hop_peer_id_latency_first := map_option next_hop_peer_id h',
                  lr_cost_latency_first := map_option (\<lambda>h. of_nat (path_len h)) h',
                  lr_path_latency_latency_first := map_option path_latency h'\<rparr>))) order"

definition list_proxy_cidrs :: "('raw, 'c4, 'c6) PeerRouteServiceImpl \<Rightarrow> 'c4 set" where
  "list_proxy_cidrs sv = fst ` set (filter (\<lambda>(_, pv). pv_peer_id pv \<noteq> my_peer_id sv) (cidr_peer_id_map (route_table sv)))"

definition list_proxy_cidrs_v6 :: "('raw, 'c4, 'c6) PeerRouteServiceImpl \<Rightarrow> 'c6 set" where
  "list_proxy_cidrs_v6 sv = fst ` set (filter (\<lambda>(_, pv). pv_peer_id pv \<noteq> my_peer_id sv) (cidr_v6_peer_id_map (route_table sv)))"

definition list_foreign_network_info ::
  "('raw, 'c4, 'c6) PeerRouteServiceImpl \<Rightarrow> (ForeignNetworkRouteInfoKey \<times> ForeignNetworkRouteInfoEntry) list" where
  "list_foreign_network_info sv = filter (\<lambda>(k, v). foreign_peer_ids v \<noteq> [] \<and> peer_reachable (route_table sv) (fk_peer_id k))
     (foreign_network (synced_route_info sv))"

text \<open>Per peer, the number of its networks and of their peers.\<close>

definition get_foreign_network_summary :: "('raw, 'c4, 'c6) PeerRouteServiceImpl \<Rightarrow> PeerId \<rightharpoonup> u32 \<times> u32" where
  "get_foreign_network_summary sv = fold (\<lambda>(k, v) m.
     let (n, c) = (case m (fk_peer_id k) of Some e \<Rightarrow> e | None \<Rightarrow> (0, 0))
     in m(fk_peer_id k \<mapsto> (n + 1, c + of_nat (length (foreign_peer_ids v))))) (foreign_network (synced_route_info sv)) Map.empty"

definition peer_route :: "('c4, 'c6) cidr_ops \<Rightarrow> (u32 \<Rightarrow> bool) \<Rightarrow> (128 word \<Rightarrow> bool) \<Rightarrow> PeerId list \<Rightarrow> ('raw, 'c4, 'c6) PeerRouteServiceImpl \<Rightarrow> route_ops" where
  "peer_route ops same4 same6 order sv = \<lparr>
     ro_next_hop_with_policy = get_next_hop_with_policy sv,
     ro_peer_id_by_ipv4 = get_peer_id_by_ipv4 ops same4 sv,
     ro_peer_id_by_ipv6 = get_peer_id_by_ipv6 ops same6 sv,
     ro_peer_info = rt_peer_infos (route_table sv),
     ro_origin_my_peer_id = (\<lambda>name p. foreign_network_my_peer_id_map sv (name, p)),
     ro_peers_own_foreign_network = foreign_network_owner_map sv,
     ro_list_routes = list_routes order sv\<rparr>"

section \<open>The peers of a node\<close>

record PeerMap =
  map_my_peer_id :: PeerId
  peer_map :: "(PeerId \<times> Peer) list"
  routes :: "route_ops list"
  alive_client_urls :: "(string \<times> PeerConnId) list"

definition peer_map_new :: "PeerId \<Rightarrow> PeerMap" where
  "peer_map_new my = \<lparr>map_my_peer_id = my, peer_map = [], routes = [], alive_client_urls = []\<rparr>"

definition maintain_alive_client_urls :: "PeerConn \<Rightarrow> PeerMap \<Rightarrow> PeerMap" where
  "maintain_alive_client_urls conn m = (case client_url conn of
     None \<Rightarrow> m | Some url \<Rightarrow> m\<lparr>alive_client_urls := alive_client_urls m @ [(url, conn_id conn)]\<rparr>)"

text \<open>The task behind it, when the connection is closed.\<close>

definition client_url_closed :: "string \<Rightarrow> PeerConnId \<Rightarrow> PeerMap \<Rightarrow> PeerMap" where
  "client_url_closed url cid m = m\<lparr>alive_client_urls := filter (\<lambda>x. x \<noteq> (url, cid)) (alive_client_urls m)\<rparr>"

definition is_client_url_alive :: "PeerMap \<Rightarrow> string \<Rightarrow> bool" where
  "is_client_url_alive m url = (url \<in> fst ` set (alive_client_urls m))"

definition map_add_new_peer_conn :: "PeerConn \<Rightarrow> PeerMap \<Rightarrow> (pm_error + unit) \<times> PeerMap" where
  "map_add_new_peer_conn conn m =
     (let m = maintain_alive_client_urls conn m; p = conn_peer_id conn
      in case map_of (peer_map m) p of
        None \<Rightarrow> (case add_peer_conn conn (peer_new p) of
            (Inl e, _) \<Rightarrow> (Inl e, m)
          | (Inr _, peer) \<Rightarrow> (Inr (), m\<lparr>peer_map := AList.update p peer (peer_map m)\<rparr>))
      | Some peer \<Rightarrow>
          let (res, peer) = add_peer_conn conn peer in (res, m\<lparr>peer_map := AList.update p peer (peer_map m)\<rparr>))"

definition has_peer :: "PeerMap \<Rightarrow> PeerId \<Rightarrow> bool" where
  "has_peer m p \<longleftrightarrow> p = map_my_peer_id m \<or> map_of (peer_map m) p \<noteq> None"

text \<open>Where a packet goes: to the own receive channel, or out on a connection of a peer.\<close>

datatype delivery = Loopback zc_packet | OnConn PeerId PeerConnId zc_packet

definition send_msg_directly :: "sink \<Rightarrow> zc_packet \<Rightarrow> PeerId \<Rightarrow> PeerMap \<Rightarrow> (pm_error + delivery) \<times> PeerMap" where
  "send_msg_directly sink msg dst m =
     (if dst = map_my_peer_id m then (Inr (Loopback msg), m)
      else case map_of (peer_map m) dst of
        None \<Rightarrow> (Inl RouteError, m)
      | Some peer \<Rightarrow>
          let (res, peer) = peer_send_msg sink msg peer
          in (map_sum id (\<lambda>cid. OnConn dst cid msg) res, m\<lparr>peer_map := AList.update dst peer (peer_map m)\<rparr>))"

text \<open>The first answer of the routes.\<close>

fun first_some :: "('a \<Rightarrow> 'b option) \<Rightarrow> 'a list \<Rightarrow> 'b option" where
  "first_some f [] = None"
| "first_some f (x # xs) = (case f x of Some y \<Rightarrow> Some y | None \<Rightarrow> first_some f xs)"

definition get_gateway_peer_id :: "PeerMap \<Rightarrow> PeerId \<Rightarrow> NextHopPolicy \<Rightarrow> PeerId option" where
  "get_gateway_peer_id m dst policy =
     (if dst = map_my_peer_id m then Some dst
      else if has_peer m dst \<and> policy = LeastHop then Some dst
      else first_some (\<lambda>r. ro_next_hop_with_policy r dst policy) (routes m))"

definition list_peers_own_foreign_network :: "PeerMap \<Rightarrow> string \<times> bytes \<Rightarrow> PeerId list" where
  "list_peers_own_foreign_network m ni = concat (map (\<lambda>r. ro_peers_own_foreign_network r ni) (routes m))"

definition map_send_msg :: "sink \<Rightarrow> zc_packet \<Rightarrow> PeerId \<Rightarrow> NextHopPolicy \<Rightarrow> PeerMap \<Rightarrow> (pm_error + delivery) \<times> PeerMap" where
  "map_send_msg sink msg dst policy m = (case get_gateway_peer_id m dst policy of
     None \<Rightarrow> (Inl RouteError, m) | Some g \<Rightarrow> send_msg_directly sink msg g m)"

definition map_peer_id_by_ipv4 :: "PeerMap \<Rightarrow> u32 \<Rightarrow> PeerId option" where
  "map_peer_id_by_ipv4 m ip = first_some (\<lambda>r. ro_peer_id_by_ipv4 r ip) (routes m)"

definition map_peer_id_by_ipv6 :: "PeerMap \<Rightarrow> 128 word \<Rightarrow> PeerId option" where
  "map_peer_id_by_ipv6 m ip = first_some (\<lambda>r. ro_peer_id_by_ipv6 r ip) (routes m)"

definition get_route_peer_info :: "PeerMap \<Rightarrow> PeerId \<Rightarrow> RoutePeerInfo option" where
  "get_route_peer_info m p = first_some (\<lambda>r. ro_peer_info r p) (routes m)"

definition get_origin_my_peer_id :: "PeerMap \<Rightarrow> string \<Rightarrow> PeerId \<Rightarrow> PeerId option" where
  "get_origin_my_peer_id m name p = first_some (\<lambda>r. ro_origin_my_peer_id r name p) (routes m)"

definition list_peers_with_conn :: "PeerMap \<Rightarrow> PeerId list" where
  "list_peers_with_conn m = map fst (filter (\<lambda>(_, p). has_live_conns p) (peer_map m))"

definition close_peer :: "PeerId \<Rightarrow> PeerMap \<Rightarrow> PeerMap" where
  "close_peer p m = m\<lparr>peer_map := AList.delete p (peer_map m)\<rparr>"

definition add_route :: "route_ops \<Rightarrow> PeerMap \<Rightarrow> PeerMap" where
  "add_route r m = m\<lparr>routes := r # routes m\<rparr>"

definition clean_peer_without_conn :: "PeerMap \<Rightarrow> PeerMap" where
  "clean_peer_without_conn m = fold close_peer
     (map fst (filter (\<lambda>(_, p). fst (list_peer_conns p) = []) (peer_map m))) m"

definition map_list_routes :: "PeerMap \<Rightarrow> PeerId \<rightharpoonup> PeerId" where
  "map_list_routes m = map_of (rev (map (\<lambda>r. (lr_peer_id r, lr_next_hop_peer_id r)) (concat (map ro_list_routes (routes m)))))"

definition list_route_infos :: "PeerMap \<Rightarrow> listed_route list" where
  "list_route_infos m = (case routes m of [] \<Rightarrow> [] | r # _ \<Rightarrow> ro_list_routes r)"

definition need_relay_by_foreign_network :: "PeerMap \<Rightarrow> PeerId \<Rightarrow> pm_error + bool" where
  "need_relay_by_foreign_network m dst = (case get_gateway_peer_id m dst LeastHop of
     None \<Rightarrow> Inl RouteError | Some g \<Rightarrow> Inr (\<not> has_peer m g))"

section \<open>The client of foreign networks\<close>

text \<open>\<open>ForeignNetworkClient\<close> has a peer map of its own.\<close>

definition client_get_next_hop :: "PeerMap \<Rightarrow> PeerId \<Rightarrow> PeerId option" where
  "client_get_next_hop m p = (if has_peer m p then Some p else None)"

definition client_send_msg :: "sink \<Rightarrow> zc_packet \<Rightarrow> PeerId \<Rightarrow> PeerMap \<Rightarrow> (pm_error + delivery) \<times> PeerMap" where
  "client_send_msg sink msg p m = (case client_get_next_hop m p of
     Some hop \<Rightarrow> send_msg_directly sink msg hop m | None \<Rightarrow> (Inl RouteError, m))"

section \<open>Well-formed peers\<close>

text \<open>
  What a peer promises: its connections are stored under their own identifier, all of them have the identity and
  the public key of the peer, and a peer has an identity and a key exactly while it has a connection.
\<close>

definition peer_ok :: "PeerId \<Rightarrow> Peer \<Rightarrow> bool" where
  "peer_ok k p \<longleftrightarrow> peer_node_id p = k \<and> distinct (map fst (conns p)) \<and>
     (conns p = [] \<longleftrightarrow> peer_identity_type p = None) \<and> (conns p = [] \<longleftrightarrow> peer_public_key p = None) \<and>
     list_all (\<lambda>(cid, c). conn_id c = cid \<and> conn_peer_id c = k \<and> peer_identity_type p = Some (conn_identity_type c) \<and>
       peer_public_key p = Some (noise_remote_static_pubkey c)) (conns p)"

definition peer_map_ok :: "PeerMap \<Rightarrow> bool" where
  "peer_map_ok m \<longleftrightarrow> distinct (map fst (peer_map m)) \<and> list_all (\<lambda>(k, p). peer_ok k p) (peer_map m)"

text \<open>Every change of the map of one peer, behind which the sending operations and the background tasks stand.\<close>

inductive pm_step :: "PeerMap \<Rightarrow> PeerMap \<Rightarrow> bool" where
  step_add: "pm_step m (snd (map_add_new_peer_conn conn m))"
| step_conn_closed: "map_of (peer_map m) k = Some p \<Longrightarrow> pm_step m (m\<lparr>peer_map := AList.update k (conn_closed cid p) (peer_map m)\<rparr>)"
| step_clear_default: "map_of (peer_map m) k = Some p \<Longrightarrow> pm_step m (m\<lparr>peer_map := AList.update k (clear_default_conn p) (peer_map m)\<rparr>)"
| step_url_closed: "pm_step m (client_url_closed url cid m)"
| step_send_directly: "pm_step m (snd (send_msg_directly sink msg dst m))"
| step_send: "pm_step m (snd (map_send_msg sink msg dst policy m))"
| step_client_send: "pm_step m (snd (client_send_msg sink msg dst m))"
| step_close_peer: "pm_step m (close_peer k m)"
| step_add_route: "pm_step m (add_route r m)"
| step_clean: "pm_step m (clean_peer_without_conn m)"

lemma peer_ok_new: "peer_ok k (peer_new k)"
  by (simp add: peer_ok_def peer_new_def)

lemma peer_ok_add:
  assumes "peer_ok k p" and "conn_peer_id conn = k"
  shows "peer_ok k (snd (add_peer_conn conn p))"
proof (cases "peer_identity_type p")
  case None
  then show ?thesis using assms by (auto simp: peer_ok_def add_peer_conn_def Let_def)
next
  case (Some t)
  then obtain key where key: "peer_public_key p = Some key" using assms(1) by (auto simp: peer_ok_def)
  show ?thesis
  proof (cases "t = conn_identity_type conn \<and> key = noise_remote_static_pubkey conn")
    case True
    then show ?thesis using assms Some key
      by (auto simp: peer_ok_def add_peer_conn_def Let_def intro: list_all_update distinct_update)
  next
    case False
    then show ?thesis using assms Some key by (auto simp: peer_ok_def add_peer_conn_def Let_def)
  qed
qed

lemma add_first_conn: "fst (add_peer_conn conn (peer_new k)) = Inr ()"
  by (simp add: add_peer_conn_def peer_new_def Let_def)

lemma peer_ok_closed: "peer_ok k p \<Longrightarrow> peer_ok k (conn_closed cid p)"
proof (cases "map_of (conns p) cid")
  case (Some c)
  assume ok: "peer_ok k p"
  have "conns p \<noteq> []" using Some by auto
  then show ?thesis using ok Some
    by (auto simp: peer_ok_def conn_closed_def Let_def distinct_delete intro: list_all_delete)
qed (simp add: conn_closed_def)

lemma peer_ok_default [simp]: "peer_ok k (p\<lparr>default_conn_id := d\<rparr>) = peer_ok k p"
  by (simp add: peer_ok_def)

lemma peer_ok_clear: "peer_ok k p \<Longrightarrow> peer_ok k (clear_default_conn p)"
  by (simp add: clear_default_conn_def)

lemma peer_ok_select: "peer_ok k p \<Longrightarrow> peer_ok k (snd (select_conn p))"
  by (auto simp: select_conn_def Let_def split: option.split)

lemma peer_send_state: "snd (peer_send_msg sink msg p) = snd (select_conn p)"
  by (auto simp: peer_send_msg_def split: prod.splits option.splits)

lemma ok_lookup: "peer_map_ok m \<Longrightarrow> map_of (peer_map m) k = Some p \<Longrightarrow> peer_ok k p"
  by (auto simp: peer_map_ok_def list_all_iff dest!: map_of_SomeD)

lemma ok_update: "peer_map_ok m \<Longrightarrow> peer_ok k p \<Longrightarrow> peer_map_ok (m\<lparr>peer_map := AList.update k p (peer_map m)\<rparr>)"
  by (simp add: peer_map_ok_def list_all_update distinct_update)

lemma ok_close: "peer_map_ok m \<Longrightarrow> peer_map_ok (close_peer k m)"
  by (simp add: peer_map_ok_def close_peer_def list_all_delete distinct_delete)

lemma ok_urls [simp]: "peer_map_ok (m\<lparr>alive_client_urls := u\<rparr>) = peer_map_ok m"
  "peer_map_ok (m\<lparr>routes := r\<rparr>) = peer_map_ok m"
  by (simp_all add: peer_map_ok_def)

lemma ok_add:
  assumes "peer_map_ok m"
  shows "peer_map_ok (snd (map_add_new_peer_conn conn m))"
proof -
  define m1 where "m1 = maintain_alive_client_urls conn m"
  have m1: "peer_map_ok m1" using assms by (simp add: m1_def maintain_alive_client_urls_def split: option.split)
  show ?thesis
  proof (cases "map_of (peer_map m1) (conn_peer_id conn)")
    case None
    then show ?thesis using m1 add_first_conn [of conn "conn_peer_id conn"] peer_ok_add [OF peer_ok_new refl, of conn]
      by (auto simp: map_add_new_peer_conn_def Let_def m1_def [symmetric] split: prod.splits sum.splits intro: ok_update)
  next
    case (Some p)
    show ?thesis using m1 Some peer_ok_add [OF ok_lookup [OF m1 Some] refl]
      by (auto simp: map_add_new_peer_conn_def Let_def m1_def [symmetric] split: prod.splits intro: ok_update)
  qed
qed

lemma ok_send_directly: "peer_map_ok m \<Longrightarrow> peer_map_ok (snd (send_msg_directly sink msg dst m))"
  using peer_send_state [of sink msg] peer_ok_select [of dst]
  by (auto simp: send_msg_directly_def Let_def split: option.splits prod.splits intro!: ok_update dest: ok_lookup)
     (metis ok_lookup snd_conv)

lemma ok_clean: "peer_map_ok m \<Longrightarrow> peer_map_ok (clean_peer_without_conn m)"
proof -
  have "peer_map_ok m \<Longrightarrow> peer_map_ok (fold close_peer ks m)" for ks
    by (induction ks arbitrary: m) (auto intro: ok_close)
  then show "peer_map_ok m \<Longrightarrow> ?thesis" by (simp add: clean_peer_without_conn_def)
qed

lemma pm_step_ok: "pm_step m m' \<Longrightarrow> peer_map_ok m \<Longrightarrow> peer_map_ok m'"
proof (induction rule: pm_step.induct)
  case (step_conn_closed m k p cid)
  then show ?case by (blast intro: ok_update peer_ok_closed ok_lookup)
next
  case (step_clear_default m k p)
  then show ?case by (blast intro: ok_update peer_ok_clear ok_lookup)
qed (auto simp: client_url_closed_def map_send_msg_def client_send_msg_def add_route_def
      intro: ok_add ok_send_directly ok_close ok_clean split: option.split)

text \<open>
  C28. Whatever connections arrive, close and are used, all connections a node keeps under a peer identifier belong to
  that identifier and present the same identity type and the same static public key, the ones the peer reports; a
  connection with another key is never stored beside them.
\<close>

theorem one_identity_per_peer:
  assumes "pm_step\<^sup>*\<^sup>* (peer_map_new my) m" and "map_of (peer_map m) k = Some p"
    and "map_of (conns p) cid = Some c"
  shows "conn_id c = cid \<and> conn_peer_id c = k \<and> peer_identity_type p = Some (conn_identity_type c) \<and>
    peer_public_key p = Some (noise_remote_static_pubkey c)"
proof -
  have "peer_map_ok m" using assms(1)
  proof (induction rule: rtranclp_induct)
    case base
    show ?case by (simp add: peer_map_ok_def peer_map_new_def)
  qed (rule pm_step_ok)
  then have "peer_ok k p" using assms(2) by (rule ok_lookup)
  then show ?thesis using assms(3) by (auto simp: peer_ok_def list_all_iff dest!: map_of_SomeD)
qed

text \<open>Two connections of an administrator to node 7, a later one whose key differs, and one of them closed again.\<close>

definition demo_conn :: "PeerConnId \<Rightarrow> bytes \<Rightarrow> u64 \<Rightarrow> PeerConn" where
  "demo_conn cid key lat = \<lparr>conn_id = cid, conn_peer_id = 7, conn_identity_type = Admin, noise_remote_static_pubkey = key,
     latency_us = lat, conn_is_closed = False, is_hole_punched = False, client_url = None\<rparr>"

definition demo_pm :: PeerMap where
  "demo_pm = snd (map_add_new_peer_conn (demo_conn 3 [9] 10) (snd (map_add_new_peer_conn (demo_conn 2 [5] 40)
     (snd (map_add_new_peer_conn (demo_conn 1 [5] 90) (peer_map_new 4))))))"

lemmas demo_pm_simps = demo_pm_def demo_conn_def map_add_new_peer_conn_def maintain_alive_client_urls_def peer_map_new_def
  add_peer_conn_def peer_new_def

lemma demo_pm_value: "demo_pm = \<lparr>map_my_peer_id = 4,
    peer_map = [(7, \<lparr>peer_node_id = 7, conns = [(1, demo_conn 1 [5] 90), (2, demo_conn 2 [5] 40)], default_conn_id = 0,
      peer_identity_type = Some Admin, peer_public_key = Some [5]\<rparr>)], routes = [], alive_client_urls = []\<rparr>"
  by (simp add: demo_pm_simps)

theorem one_identity_per_peer_witness:
  "\<exists>m p c. pm_step\<^sup>*\<^sup>* (peer_map_new 4) m \<and> map_of (peer_map m) 7 = Some p \<and> map_of (conns p) 2 = Some c \<and>
    peer_public_key p = Some (noise_remote_static_pubkey c) \<and> length (conns p) = 2"
proof -
  have r: "pm_step\<^sup>*\<^sup>* (peer_map_new 4) demo_pm"
    unfolding demo_pm_def by (meson r_into_rtranclp rtranclp.rtrancl_into_rtrancl pm_step.step_add)
  obtain p where p: "map_of (peer_map demo_pm) 7 = Some p" "map_of (conns p) 2 = Some (demo_conn 2 [5] 40)" "length (conns p) = 2"
    by (simp add: demo_pm_value)
  show ?thesis using one_identity_per_peer [OF r p(1,2)] r p by blast
qed

section \<open>The choice of the connection\<close>

lemma min_latency_conn_spec:
  assumes "\<forall>(cid, c) \<in> set cs. conn_id c = cid"
  shows "let (l, d) = min_latency_conn cs (l0, d0) in l \<le> l0 \<and> (\<forall>(cid, c) \<in> set cs. l \<le> latency_us c) \<and>
    ((l, d) = (l0, d0) \<or> (\<exists>c. (d, c) \<in> set cs \<and> latency_us c = l))"
  using assms
proof (induction cs arbitrary: l0 d0)
  case (Cons x cs)
  obtain k c where x: "x = (k, c)" by fastforce
  define l1 d1 where s: "l1 = (if latency_us c < l0 then latency_us c else l0)" "d1 = (if latency_us c < l0 then conn_id c else d0)"
  have e: "min_latency_conn (x # cs) (l0, d0) = min_latency_conn cs (l1, d1)" by (simp add: min_latency_conn_def x s)
  obtain l d where r: "min_latency_conn cs (l1, d1) = (l, d)" by fastforce
  have IH: "l \<le> l1" "\<forall>(cid, c) \<in> set cs. l \<le> latency_us c" "(l, d) = (l1, d1) \<or> (\<exists>c. (d, c) \<in> set cs \<and> latency_us c = l)"
    using Cons.IH [of l1 d1] Cons.prems r by auto
  have l1: "l1 \<le> l0" "l1 \<le> latency_us c" by (auto simp: s)
  have "conn_id c = k" using Cons.prems x by auto
  then have "(l1, d1) = (l0, d0) \<or> (d1, c) \<in> set (x # cs) \<and> latency_us c = l1" by (auto simp: s x)
  then show ?case using IH l1 unfolding e r Let_def by (auto simp: x)
qed (simp add: min_latency_conn_def)

text \<open>
  The connection a packet leaves on: the one chosen before while it is still there, otherwise one whose latency
  no other connection of the peer beats. A peer with a connection of finite latency always yields one, and the
  choice is remembered.
\<close>

theorem select_conn_fastest:
  assumes "peer_ok k p" and "\<exists>(cid, c) \<in> set (conns p). latency_us c < - 1"
  shows "\<exists>c p'. select_conn p = (Some c, p') \<and> (conn_id c, c) \<in> set (conns p) \<and> default_conn_id p' = conn_id c \<and>
    (if map_of (conns p) (default_conn_id p) \<noteq> None then p' = p
     else \<forall>(cid, d) \<in> set (conns p). latency_us c \<le> latency_us d)"
proof -
  have ids: "\<forall>(cid, c) \<in> set (conns p). conn_id c = cid" and dist: "distinct (map fst (conns p))"
    using assms(1) by (auto simp: peer_ok_def list_all_iff)
  show ?thesis
  proof (cases "map_of (conns p) (default_conn_id p)")
    case (Some c)
    then show ?thesis using ids by (auto simp: select_conn_def dest!: map_of_SomeD)
  next
    case None
    obtain l d where m: "min_latency_conn (conns p) (-1, default_conn_id p) = (l, d)" by fastforce
    note sp = min_latency_conn_spec [OF ids, of "-1" "default_conn_id p", unfolded m Let_def prod.case]
    obtain cid1 c1 where c1: "(cid1, c1) \<in> set (conns p)" "latency_us c1 < -1" using assms(2) by auto
    then have "l < -1" using sp by fastforce
    then obtain c where c: "(d, c) \<in> set (conns p)" "latency_us c = l" using sp by auto
    then have lk: "map_of (conns p) d = Some c" "conn_id c = d" using dist ids by (auto simp: map_of_eq_Some_iff)
    show ?thesis using None m lk c sp by (auto simp: select_conn_def Let_def)
  qed
qed

theorem select_conn_fastest_witness:
  "\<exists>p c p'. peer_ok 7 p \<and> (\<exists>(cid, c) \<in> set (conns p). latency_us c < - 1) \<and> map_of (conns p) (default_conn_id p) = None \<and>
    select_conn p = (Some c, p') \<and> (\<forall>(cid, d) \<in> set (conns p). latency_us c \<le> latency_us d)"
proof -
  obtain p where p: "map_of (peer_map demo_pm) 7 = Some p" "map_of (conns p) (default_conn_id p) = None"
    "\<exists>(cid, c) \<in> set (conns p). latency_us c < - 1"
    by (simp add: demo_pm_value demo_conn_def)
  have ok: "peer_ok 7 p" using p(1) by (auto simp: demo_pm_value peer_ok_def demo_conn_def)
  show ?thesis using select_conn_fastest [OF ok p(3)] ok p by (auto simp: split_beta)
qed

end
