(* ===== verification/Peer_Conn.thy ===== *)
theory Peer_Conn
  imports Peer_Map Credential_Manager
begin

text \<open>
  \<open>peers/peer_conn.rs\<close>: the handshake of a connection, in the clear or with the Noise protocol, the authentication of
  the remote node, and the filter that encrypts what a node itself sends on a connection. The Noise library (\<open>snow\<close>),
  the protobuf encodings and the random identifiers are parameters. A handshake waits for packets; its code is cut at
  these points, and the items the tunnel yields while it waits are an argument.
\<close>

section \<open>The session filter\<close>

record PeerSessionTunnelFilter =
  sf_enabled :: bool
  sf_my_peer_id :: PeerId
  sf_peer_id :: "PeerId option"
  sf_session :: "ref option"

definition filter_new_with_peer :: "PeerId \<Rightarrow> bool \<Rightarrow> PeerSessionTunnelFilter" where
  "filter_new_with_peer my enabled = \<lparr>sf_enabled = enabled, sf_my_peer_id = my, sf_peer_id = None, sf_session = None\<rparr>"

definition should_skip_encrypt :: "PeerManagerHeader \<Rightarrow> bool" where
  "should_skip_encrypt hdr \<longleftrightarrow> pm_packet_type hdr \<in> PacketType_code `
     {PT_NoiseHandshakeMsg1, PT_NoiseHandshakeMsg2, PT_NoiseHandshakeMsg3, PT_RelayHandshake, PT_RelayHandshakeAck, PT_Ping, PT_Pong}"

text \<open>\<^term>\<open>None\<close> inside the result is a dropped packet.\<close>

definition before_send ::
  "(bytes \<Rightarrow> bytes \<Rightarrow> bytes) \<Rightarrow> aead_api \<Rightarrow> bytes \<Rightarrow> u64 \<Rightarrow> PeerSessionTunnelFilter \<Rightarrow> zc_packet \<Rightarrow> store
    \<Rightarrow> (zc_packet option \<times> store) may_panic" where
  "before_send hmac api rnd now f data st =
     (if \<not> sf_enabled f then Some (Some data, st)
      else case peer_manager_header data of
        None \<Rightarrow> Some (Some data, st)
      | Some hdr \<Rightarrow>
          if should_skip_encrypt hdr then Some (Some data, st)
          else case (sf_peer_id f, sf_session f) of
            (Some pid, Some r) \<Rightarrow>
              if sf_my_peer_id f \<noteq> from_peer_id hdr then Some (Some data, st)
              else do {
                (res, s) \<leftarrow> ps_encrypt_payload hmac api rnd now (sf_my_peer_id f) pid data (heap st r);
                let st = heap_put r s st;
                Some (case res of Inl _ \<Rightarrow> (None, st) | Inr q \<Rightarrow> (Some q, st)) }
          | _ \<Rightarrow> Some (Some data, st))"

datatype tunnel_error = TunnelIo | SessionInvalidatedError

definition after_received ::
  "(bytes \<Rightarrow> bytes \<Rightarrow> bytes) \<Rightarrow> aead_api \<Rightarrow> u64 \<Rightarrow> PeerSessionTunnelFilter \<Rightarrow> tunnel_error + zc_packet \<Rightarrow> store
    \<Rightarrow> ((tunnel_error + zc_packet) option \<times> store) may_panic" where
  "after_received hmac api now f item st =
     (if \<not> sf_enabled f then Some (Some item, st)
      else case item of
        Inl e \<Rightarrow> Some (Some (Inl e), st)
      | Inr data \<Rightarrow>
          (case peer_manager_header data of
             None \<Rightarrow> Some (Some (Inr data), st)
           | Some hdr \<Rightarrow>
               if should_skip_encrypt hdr \<or> from_peer_id hdr = 0 then Some (Some (Inr data), st)
               else case (sf_peer_id f, sf_session f) of
                 (Some pid, Some r) \<Rightarrow>
                   if from_peer_id hdr \<noteq> pid \<or> to_peer_id hdr \<noteq> sf_my_peer_id f then Some (Some (Inr data), st)
                   else do {
                     (res, s) \<leftarrow> ps_decrypt_payload hmac api now (from_peer_id hdr) (sf_my_peer_id f) data (heap st r);
                     let st = heap_put r s st;
                     Some (case res of
                         Inr q \<Rightarrow> (Some (Inr q), st)
                       | Inl _ \<Rightarrow> (if \<not> ps_is_valid s then Some (Inl SessionInvalidatedError) else None, st)) }
               | _ \<Rightarrow> Some (Some (Inr data), st)))"

section \<open>Messages and libraries\<close>

record HandshakeRequest =
  hr_magic :: u32
  hr_my_peer_id :: PeerId
  hr_version :: u32
  hr_features :: "string list"
  hr_network_name :: string
  hr_network_secret_digest :: bytes

definition MAGIC :: u32 where "MAGIC = 0xd1e1a5e1"
definition VERSION :: u32 where "VERSION = 1"

record NoiseMsg1 =
  m1_version :: u32
  a_network_name :: string
  a_session_generation :: "u32 option"
  a_conn_id :: "128 word option"
  client_encryption_algorithm :: string

record NoiseMsg2 =
  b_network_name :: string
  role_hint :: u32
  m2_action :: u32
  b_session_generation :: u32
  m2_root_key_32 :: "bytes option"
  m2_initial_epoch :: u32
  b_conn_id :: "128 word option"
  m2_a_conn_id_echo :: "128 word option"
  m2_secret_proof_32 :: "bytes option"
  server_encryption_algorithm :: string

record NoiseMsg3 =
  m3_a_conn_id_echo :: "128 word option"
  b_conn_id_echo :: "128 word option"
  m3_secret_proof_32 :: "bytes option"
  m3_secret_digest :: bytes

text \<open>\<open>PeerConnSessionActionPb\<close>\<close>

primrec action_code :: "PeerSessionAction \<Rightarrow> u32" where
  "action_code Join = 0"
| "action_code Sync = 1"
| "action_code Create = 2"

definition action_try_from :: "u32 \<Rightarrow> PeerSessionAction option" where
  "action_try_from n = (if n = 0 then Some Join else if n = 1 then Some Sync else if n = 2 then Some Create else None)"

text \<open>
  \<open>snow\<close>: a handshake state is built from pattern, prologue, private key, for the pattern IK the public key of the
  responder, and the randomness of the ephemeral key; messages carry a payload.
\<close>

record 'hs noise_api =
  build_initiator :: "string \<Rightarrow> bytes \<Rightarrow> bytes \<Rightarrow> bytes option \<Rightarrow> bytes \<Rightarrow> 'hs option"
  build_responder :: "string \<Rightarrow> bytes \<Rightarrow> bytes \<Rightarrow> bytes \<Rightarrow> 'hs option"
  write_message :: "'hs \<Rightarrow> bytes \<Rightarrow> (bytes \<times> 'hs) option"
  read_message :: "'hs \<Rightarrow> bytes \<Rightarrow> (bytes \<times> 'hs) option"
  get_handshake_hash :: "'hs \<Rightarrow> bytes"
  get_remote_static :: "'hs \<Rightarrow> bytes option"

record pb_codec =
  enc_req :: "HandshakeRequest \<Rightarrow> bytes"
  dec_req :: "bytes \<Rightarrow> HandshakeRequest option"
  enc_m1 :: "NoiseMsg1 \<Rightarrow> bytes"
  dec_m1 :: "bytes \<Rightarrow> NoiseMsg1 option"
  enc_m2 :: "NoiseMsg2 \<Rightarrow> bytes"
  dec_m2 :: "bytes \<Rightarrow> NoiseMsg2 option"
  enc_m3 :: "NoiseMsg3 \<Rightarrow> bytes"
  dec_m3 :: "bytes \<Rightarrow> NoiseMsg3 option"

text \<open>What the connection reads of the context and the configuration.\<close>

record conn_ctx =
  cx_hmac :: "bytes \<Rightarrow> bytes \<Rightarrow> bytes"
  cx_identity :: NetworkIdentity
  cx_secure_enabled :: bool
  cx_keypair :: "(bytes \<times> bytes) option"
  cx_keys :: key_api
  cx_unix_now :: int
  cx_trusted_keys :: TrustedKeyMapManager
  cx_credentials :: CredentialManager
  cx_encryption_algorithm :: string
  cx_peers :: "(string \<times> string option) list"
  cx_hmac_secret_digest :: bool

definition cx_network_name :: "conn_ctx \<Rightarrow> string" where
  "cx_network_name cx = ni_network_name (cx_identity cx)"

definition cx_secret_proof :: "conn_ctx \<Rightarrow> bytes \<Rightarrow> bytes option" where
  "cx_secret_proof cx = get_secret_proof (cx_hmac cx) (cx_identity cx)"

definition cx_pubkey_trusted :: "conn_ctx \<Rightarrow> bytes \<Rightarrow> string \<Rightarrow> bool" where
  "cx_pubkey_trusted cx = is_pubkey_trusted (cx_keys cx) (cx_unix_now cx) (cx_trusted_keys cx) (cx_credentials cx) (cx_network_name cx)"

datatype conn_error = NoHeader | WrongPacketType | DecodeError | InvalidDigest | ConnClosed | RecvError | SendError
  | InvalidKey | NoSecureConfig | NoiseError | PeerIdMismatch | ConnIdMismatch | InvalidAction | RoleHintMismatch
  | PinnedMismatch | PinnedUntrusted | AuthFailed | SessionErr ps_error | PeerIdConflict | Refused

section \<open>Receiving during the handshake\<close>

definition decode_handshake_packet :: "pb_codec \<Rightarrow> zc_packet \<Rightarrow> (conn_error + HandshakeRequest) may_panic" where
  "decode_handshake_packet pb packet = (case peer_manager_header packet of
     None \<Rightarrow> Some (Inl NoHeader)
   | Some hdr \<Rightarrow>
       if pm_packet_type hdr \<noteq> PacketType_code PT_HandShake then Some (Inl WrongPacketType)
       else do {
         pl \<leftarrow> payload packet;
         Some (case dec_req pb pl of
             None \<Rightarrow> Inl DecodeError
           | Some rsp \<Rightarrow> if length (hr_network_secret_digest rsp) \<noteq> 32 then Inl InvalidDigest else Inr rsp) })"

text \<open>
  \<open>wait_handshake_loop\<close>: packets that are no handshake are skipped; an error or the end of the tunnel ends the
  wait, and so does the time limit, which is the end of the list.
\<close>

fun wait_handshake_loop :: "pb_codec \<Rightarrow> (tunnel_error + zc_packet) list \<Rightarrow> (conn_error + HandshakeRequest) may_panic" where
  "wait_handshake_loop pb [] = Some (Inl ConnClosed)"
| "wait_handshake_loop pb (Inl e # xs) = Some (Inl RecvError)"
| "wait_handshake_loop pb (Inr packet # xs) = do {
     r \<leftarrow> decode_handshake_packet pb packet;
     case r of Inr rsp \<Rightarrow> Some (Inr rsp) | Inl _ \<Rightarrow> wait_handshake_loop pb xs }"

fun recv_next_peer_manager_packet :: "PacketType option \<Rightarrow> (tunnel_error + zc_packet) list \<Rightarrow> conn_error + zc_packet" where
  "recv_next_peer_manager_packet t [] = Inl ConnClosed"
| "recv_next_peer_manager_packet t (Inl e # xs) = Inl RecvError"
| "recv_next_peer_manager_packet t (Inr packet # xs) = (case peer_manager_header packet of
     None \<Rightarrow> recv_next_peer_manager_packet t xs
   | Some hdr \<Rightarrow>
       if t = None \<or> pm_packet_type hdr = PacketType_code (the t) then Inr packet
       else recv_next_peer_manager_packet t xs)"

definition conn_decode_handshake_message ::
  "('hs, 'z) noise_api_scheme \<Rightarrow> (bytes \<Rightarrow> 'm option) \<Rightarrow> PacketType \<Rightarrow> 'hs \<Rightarrow> zc_packet \<Rightarrow> (conn_error + ('m \<times> 'hs)) may_panic" where
  "conn_decode_handshake_message nz dec t hs packet = (case peer_manager_header packet of
     None \<Rightarrow> Some (Inl NoHeader)
   | Some hdr \<Rightarrow>
       if pm_packet_type hdr \<noteq> PacketType_code t then Some (Inl WrongPacketType)
       else do {
         pl \<leftarrow> payload packet;
         Some (case read_message nz hs pl of
             None \<Rightarrow> Inl NoiseError
           | Some (out, hs) \<Rightarrow> (case dec out of None \<Rightarrow> Inl DecodeError | Some m \<Rightarrow> Inr (m, hs))) })"

text \<open>\<open>send_noise_msg\<close> up to the tunnel: the packet to send and the new handshake state.\<close>

definition noise_packet ::
  "(nat \<Rightarrow> u8) \<Rightarrow> ('hs, 'z) noise_api_scheme \<Rightarrow> PeerId \<Rightarrow> PeerId \<Rightarrow> PacketType \<Rightarrow> bytes \<Rightarrow> 'hs \<Rightarrow> (conn_error + (zc_packet \<times> 'hs)) may_panic" where
  "noise_packet u nz my remote t body hs = (case write_message nz hs body of
     None \<Rightarrow> Some (Inl NoiseError)
   | Some (msg, hs) \<Rightarrow> do {
       packet \<leftarrow> new_with_payload u msg;
       packet \<leftarrow> fill_peer_manager_hdr my remote (PacketType_code t) packet;
       Some (Inr (packet, hs)) })"

definition decode_b64_32 :: "key_api \<Rightarrow> string \<Rightarrow> conn_error + bytes" where
  "decode_b64_32 api s = (case b64_decode api s of
     None \<Rightarrow> Inl InvalidKey | Some d \<Rightarrow> if length d \<noteq> 32 then Inl InvalidKey else Inr d)"

text \<open>\<open>remote_url\<close> is the parsed address of the remote end of the tunnel.\<close>

definition get_pinned_remote_static_pubkey_b64 :: "conn_ctx \<Rightarrow> string option \<Rightarrow> string option" where
  "get_pinned_remote_static_pubkey_b64 cx remote_url = (case remote_url of
     None \<Rightarrow> None
   | Some url \<Rightarrow> (case find (\<lambda>p. fst p = url) (cx_peers cx) of None \<Rightarrow> None | Some p \<Rightarrow> snd p))"

section \<open>Authentication\<close>

datatype SecureAuthLevel = NoAuth | EncryptedUnauthenticated | PeerVerified | NetworkSecretConfirmed

definition verify_remote_auth ::
  "conn_ctx \<Rightarrow> bytes option \<Rightarrow> bytes \<Rightarrow> bytes \<Rightarrow> bytes option \<Rightarrow> bool \<Rightarrow> bool \<Rightarrow> string \<Rightarrow> conn_error + SecureAuthLevel" where
  "verify_remote_auth cx proof handshake_hash remote_pubkey pinned has_network_secret is_initiator remote_network_name =
     (if proof \<noteq> None \<and> cx_secret_proof cx handshake_hash \<noteq> None \<and> cx_secret_proof cx handshake_hash = proof
      then Inr NetworkSecretConfirmed
      else case pinned of
        Some pk \<Rightarrow>
          if pk \<noteq> remote_pubkey then Inl PinnedMismatch
          else if \<not> has_network_secret \<and> \<not> cx_pubkey_trusted cx remote_pubkey remote_network_name then Inl PinnedUntrusted
          else Inr PeerVerified
      | None \<Rightarrow>
          if cx_pubkey_trusted cx remote_pubkey remote_network_name then Inr PeerVerified
          else if is_initiator \<and> \<not> has_network_secret then Inr EncryptedUnauthenticated
          else Inl AuthFailed)"

definition classify_remote_identity :: "conn_ctx \<Rightarrow> string \<Rightarrow> SecureAuthLevel \<Rightarrow> bool \<Rightarrow> bool \<Rightarrow> bool \<Rightarrow> PeerIdentityType" where
  "classify_remote_identity cx remote_network_name level same_network sent_proof is_client =
     (if \<not> same_network \<or> remote_network_name \<noteq> cx_network_name cx
      then if is_client then SharedNode else if sent_proof then Admin else Credential
      else if level = NetworkSecretConfirmed \<or> sent_proof then Admin else Credential)"

section \<open>The connection\<close>

record NoiseHandshakeResult =
  nr_peer_id :: PeerId
  nr_session :: ref
  nr_local_static_pubkey :: bytes
  nr_remote_static_pubkey :: bytes
  nr_handshake_hash :: bytes
  nr_secure_auth_level :: SecureAuthLevel
  nr_peer_identity_type :: PeerIdentityType
  nr_remote_network_name :: string
  nr_secret_digest :: bytes
  nr_client_secret_proof :: "(bytes \<times> bytes) option"
  nr_my_encrypt_algo :: string
  nr_remote_encrypt_algo :: string

record conn =
  c_my_peer_id :: PeerId
  c_peer_id_hint :: "PeerId option"
  c_remote_url :: "string option"
  c_session_filter :: PeerSessionTunnelFilter
  c_noise :: "NoiseHandshakeResult option"
  c_info :: "HandshakeRequest option"
  c_is_client :: "bool option"
  c_my_encrypt_algo :: string

definition conn_new :: "conn_ctx \<Rightarrow> PeerId \<Rightarrow> PeerId option \<Rightarrow> string option \<Rightarrow> conn" where
  "conn_new cx my hint url = \<lparr>c_my_peer_id = my, c_peer_id_hint = hint, c_remote_url = url,
     c_session_filter = filter_new_with_peer my (cx_secure_enabled cx), c_noise = None, c_info = None, c_is_client = None,
     c_my_encrypt_algo = cx_encryption_algorithm cx\<rparr>"

text \<open>\<open>set_peer_id\<close> panics after the handshake.\<close>

definition conn_set_peer_id :: "PeerId \<Rightarrow> conn \<Rightarrow> conn may_panic" where
  "conn_set_peer_id p c = (if c_info c \<noteq> None then None
     else Some (c\<lparr>c_my_peer_id := p, c_session_filter := (c_session_filter c)\<lparr>sf_my_peer_id := p\<rparr>\<rparr>))"

text \<open>The accessors of a finished handshake unwrap \<open>info\<close>.\<close>

definition get_peer_id :: "conn \<Rightarrow> PeerId may_panic" where
  "get_peer_id c = map_option hr_my_peer_id (c_info c)"

text \<open>\<open>copy_from_slice\<close> into 32 bytes panics on any other length.\<close>

definition conn_network_identity :: "conn \<Rightarrow> NetworkIdentity may_panic" where
  "conn_network_identity c = do {
     info \<leftarrow> c_info c;
     digest \<leftarrow> copy_range 0 32 (hr_network_secret_digest info) (replicate 32 0);
     Some \<lparr>ni_network_name = hr_network_name info, ni_network_secret = None, ni_network_secret_digest = Some digest\<rparr> }"

definition get_peer_identity_type :: "conn \<Rightarrow> PeerIdentityType" where
  "get_peer_identity_type c = (case c_noise c of Some n \<Rightarrow> nr_peer_identity_type n | None \<Rightarrow> Admin)"

definition network_secret_digest_is_empty :: "NetworkIdentity \<Rightarrow> bool" where
  "network_secret_digest_is_empty ni = (case ni_network_secret_digest ni of None \<Rightarrow> True | Some d \<Rightarrow> list_all (\<lambda>b. b = 0) d)"

definition matches_local_secret_proof :: "conn_ctx \<Rightarrow> conn \<Rightarrow> bool" where
  "matches_local_secret_proof cx c = (case c_noise c of
     None \<Rightarrow> False
   | Some n \<Rightarrow> (case nr_client_secret_proof n of
       None \<Rightarrow> False
     | Some (challenge, proof) \<Rightarrow> cx_secret_proof cx challenge = Some proof))"

definition matches_local_network_secret :: "conn_ctx \<Rightarrow> conn \<Rightarrow> bool may_panic" where
  "matches_local_network_secret cx c =
     (if matches_local_secret_proof cx c then Some True
      else do {
        peer \<leftarrow> conn_network_identity c;
        Some (\<not> network_secret_digest_is_empty (cx_identity cx) \<and> \<not> network_secret_digest_is_empty peer \<and>
          ni_network_secret_digest (cx_identity cx) = ni_network_secret_digest peer) })"

text \<open>What the peers of a node read of a connection (\<open>get_conn_info\<close>).\<close>

definition peer_conn_of :: "PeerConnId \<Rightarrow> u64 \<Rightarrow> bool \<Rightarrow> bool \<Rightarrow> conn \<Rightarrow> PeerConn may_panic" where
  "peer_conn_of cid latency closed punched c = do {
     p \<leftarrow> get_peer_id c;
     Some \<lparr>conn_id = cid, conn_peer_id = p, conn_identity_type = get_peer_identity_type c,
       noise_remote_static_pubkey = (case c_noise c of Some n \<Rightarrow> nr_remote_static_pubkey n | None \<Rightarrow> []),
       latency_us = latency, conn_is_closed = closed, is_hole_punched = punched,
       client_url = (if c_is_client c = Some True then c_remote_url c else None)\<rparr> }"

section \<open>Network identities\<close>

text \<open>
  \<open>generate_digest_from_str\<close> (\<open>tunnel/mod.rs\<close>): \<open>h\<close> is the standard library's \<open>DefaultHasher\<close> applied to all bytes
  written so far.
\<close>

fun digest_shards :: "(bytes \<Rightarrow> u64) \<Rightarrow> nat \<Rightarrow> bytes \<Rightarrow> bytes \<Rightarrow> bytes" where
  "digest_shards h 0 written digest = digest"
| "digest_shards h (Suc n) written digest =
     (let digest = digest @ be_bytes 8 (h written) in digest_shards h n (written @ digest) digest)"

definition generate_digest_from_str :: "(bytes \<Rightarrow> u64) \<Rightarrow> string \<Rightarrow> string \<Rightarrow> bytes" where
  "generate_digest_from_str h s1 s2 = digest_shards h 4 (str_bytes s1 @ str_bytes s2) []"

definition network_identity_new :: "(bytes \<Rightarrow> u64) \<Rightarrow> string \<Rightarrow> string \<Rightarrow> NetworkIdentity" where
  "network_identity_new h name secret = \<lparr>ni_network_name = name, ni_network_secret = Some secret,
     ni_network_secret_digest = Some (generate_digest_from_str h name secret)\<rparr>"

definition network_identity_new_credential :: "string \<Rightarrow> NetworkIdentity" where
  "network_identity_new_credential name = \<lparr>ni_network_name = name, ni_network_secret = None, ni_network_secret_digest = None\<rparr>"

definition with_only_digest :: "(bytes \<Rightarrow> u64) \<Rightarrow> NetworkIdentity \<Rightarrow> string \<times> bytes option" where
  "with_only_digest h ni = (ni_network_name ni,
     if ni_network_secret_digest ni \<noteq> None then ni_network_secret_digest ni
     else map_option (generate_digest_from_str h (ni_network_name ni)) (ni_network_secret ni))"

definition network_identity_eq :: "(bytes \<Rightarrow> u64) \<Rightarrow> NetworkIdentity \<Rightarrow> NetworkIdentity \<Rightarrow> bool" where
  "network_identity_eq h a b \<longleftrightarrow> with_only_digest h a = with_only_digest h b"

section \<open>The handshake in the clear\<close>

definition handshake_packet :: "(nat \<Rightarrow> u8) \<Rightarrow> pb_codec \<Rightarrow> conn_ctx \<Rightarrow> bool \<Rightarrow> conn \<Rightarrow> zc_packet may_panic" where
  "handshake_packet u pb cx send_secret_digest c =
     (let req = \<lparr>hr_magic = MAGIC, hr_my_peer_id = c_my_peer_id c, hr_version = VERSION, hr_features = [],
        hr_network_name = cx_network_name cx,
        hr_network_secret_digest =
          (if send_secret_digest
           then (case ni_network_secret_digest (cx_identity cx) of Some d \<Rightarrow> d | None \<Rightarrow> replicate 32 0)
           else replicate 32 0)\<rparr>
      in do {
        packet \<leftarrow> new_with_payload u (enc_req pb req);
        fill_peer_manager_hdr (c_my_peer_id c) 0 (PacketType_code PT_HandShake) packet })"

text \<open>A handshake with oneself is refused, after the connection was filled in.\<close>

definition refuse_own_id :: "conn \<Rightarrow> conn_error + conn" where
  "refuse_own_id c = (if get_peer_id c = Some (c_my_peer_id c) then Inl PeerIdConflict else Inr c)"

section \<open>The Noise handshake\<close>

definition XX :: string where "XX = ''Noise_XX_25519_ChaChaPoly_SHA256''"

definition prologue :: bytes where "prologue = str_bytes ''easytier-peerconn-noise''"

text \<open>\<open>if remote_static.len() == 32\<close>\<close>

definition key_32 :: "bytes \<Rightarrow> bytes option" where
  "key_32 k = (if length k = 32 then Some k else None)"

record 'hs client_wait =
  cw_hs :: 'hs
  cw_conn_id :: "128 word"
  cw_pinned :: "bytes option"
  cw_local_static_pubkey :: bytes
  cw_server_handshake_hash :: bytes

text \<open>
  \<open>do_noise_handshake_as_client\<close> up to the wait for the second message. \<open>tx\<close> tells whether the tunnel takes a packet.
\<close>

definition noise_client_start ::
  "('hs, 'z) noise_api_scheme \<Rightarrow> pb_codec \<Rightarrow> conn_ctx \<Rightarrow> (nat \<Rightarrow> u8) \<Rightarrow> (zc_packet \<Rightarrow> bool) \<Rightarrow> 128 word \<Rightarrow> bytes \<Rightarrow> conn \<Rightarrow> store
    \<Rightarrow> ((conn_error + (zc_packet \<times> 'hs client_wait)) \<times> store) may_panic" where
  "noise_client_start nz pb cx u tx uuid eph c st =
     (case (case get_pinned_remote_static_pubkey_b64 cx (c_remote_url c) of
              None \<Rightarrow> Inr None | Some v \<Rightarrow> map_sum id Some (decode_b64_32 (cx_keys cx) v)) of
        Inl e \<Rightarrow> Some (Inl e, st)
      | Inr pinned \<Rightarrow>
          (case cx_keypair cx of
             None \<Rightarrow> Some (Inl NoSecureConfig, st)
           | Some (priv, pub) \<Rightarrow>
               let (r, st) = (case c_peer_id_hint c of
                     None \<Rightarrow> (None, st)
                   | Some p \<Rightarrow> store_get \<lparr>network_name = cx_network_name cx, sk_peer_id = p\<rparr> st);
                   msg1 = \<lparr>m1_version = VERSION, a_network_name = cx_network_name cx,
                     a_session_generation = map_option (\<lambda>r. ps_session_generation (heap st r)) r, a_conn_id = Some uuid,
                     client_encryption_algorithm = c_my_encrypt_algo c\<rparr>
               in case build_initiator nz XX prologue priv None eph of
                    None \<Rightarrow> Some (Inl NoiseError, st)
                  | Some hs \<Rightarrow> do {
                      sent \<leftarrow> noise_packet u nz (c_my_peer_id c) 0 PT_NoiseHandshakeMsg1 (enc_m1 pb msg1) hs;
                      Some (case sent of
                          Inl e \<Rightarrow> (Inl e, st)
                        | Inr (packet, hs) \<Rightarrow>
                            if \<not> tx packet then (Inl SendError, st)
                            else (Inr (packet, \<lparr>cw_hs = hs, cw_conn_id = uuid, cw_pinned = pinned, cw_local_static_pubkey = pub,
                              cw_server_handshake_hash = get_handshake_hash nz hs\<rparr>), st)) }))"

text \<open>The checks of the second message.\<close>

definition check_msg2 :: "conn_ctx \<Rightarrow> 'hs client_wait \<Rightarrow> NoiseMsg2 \<Rightarrow> conn_error + PeerSessionAction" where
  "check_msg2 cx w m =
     (if m2_a_conn_id_echo m \<noteq> Some (cw_conn_id w) then Inl ConnIdMismatch
      else case action_try_from (m2_action m) of
        None \<Rightarrow> Inl InvalidAction
      | Some action \<Rightarrow>
          if b_network_name m = cx_network_name cx \<and> role_hint m \<noteq> 1 then Inl RoleHintMismatch else Inr action)"

text \<open>The digest the client presents.\<close>

definition client_secret_digest :: "conn_ctx \<Rightarrow> bytes" where
  "client_secret_digest cx =
     (if cx_hmac_secret_digest cx
      then (case cx_secret_proof cx (str_bytes ''digest'') of Some d \<Rightarrow> d | None \<Rightarrow> [])
      else (case ni_network_secret_digest (cx_identity cx) of Some d \<Rightarrow> d | None \<Rightarrow> replicate 32 0))"

definition verify_server :: "conn_ctx \<Rightarrow> 'hs client_wait \<Rightarrow> NoiseMsg2 \<Rightarrow> bytes \<Rightarrow> conn_error + SecureAuthLevel" where
  "verify_server cx w m remote_static =
     (if role_hint m \<noteq> 1 \<and> cw_pinned w = None then Inr EncryptedUnauthenticated
      else verify_remote_auth cx (m2_secret_proof_32 m) (cw_server_handshake_hash w) remote_static (cw_pinned w)
        (ni_network_secret (cx_identity cx) \<noteq> None) True (b_network_name m))"

text \<open>
  The last part, after the third message was sent: the server is authenticated and the session adopted. \<open>t0\<close>, \<open>now\<close> and
  \<open>now'\<close> are the clock readings of the session store.
\<close>

definition noise_client_adopt ::
  "('hs, 'z) noise_api_scheme \<Rightarrow> conn_ctx \<Rightarrow> u64 \<Rightarrow> u64 \<Rightarrow> u64 \<Rightarrow> PeerSessionAction \<Rightarrow> 'hs client_wait \<Rightarrow> PeerId \<Rightarrow> NoiseMsg2 \<Rightarrow> 'hs
    \<Rightarrow> conn \<Rightarrow> store \<Rightarrow> (conn_error + NoiseHandshakeResult) \<times> store" where
  "noise_client_adopt nz cx t0 now now' action w remote m hs c st =
     (let remote_static = (case get_remote_static nz hs of Some k \<Rightarrow> k | None \<Rightarrow> [])
      in case verify_server cx w m remote_static of
        Inl e \<Rightarrow> (Inl e, st)
      | Inr level \<Rightarrow>
          (case apply_initiator_action t0 now now' \<lparr>network_name = cx_network_name cx, sk_peer_id = remote\<rparr> action
              (b_session_generation m) (Option.bind (m2_root_key_32 m) key_32) (m2_initial_epoch m)
              (cx_encryption_algorithm cx) (server_encryption_algorithm m) (key_32 remote_static) st of
             (Inl e, st) \<Rightarrow> (Inl (SessionErr e), st)
           | (Inr r, st) \<Rightarrow> (Inr \<lparr>nr_peer_id = remote, nr_session = r, nr_local_static_pubkey = cw_local_static_pubkey w,
               nr_remote_static_pubkey = remote_static, nr_handshake_hash = get_handshake_hash nz hs,
               nr_secure_auth_level = level,
               nr_peer_identity_type = classify_remote_identity cx (b_network_name m) level (role_hint m = 1)
                 (m2_secret_proof_32 m \<noteq> None) True,
               nr_remote_network_name = b_network_name m, nr_secret_digest = client_secret_digest cx,
               nr_client_secret_proof = None, nr_my_encrypt_algo = c_my_encrypt_algo c,
               nr_remote_encrypt_algo = server_encryption_algorithm m\<rparr>, st)))"

text \<open>\<open>do_noise_handshake_as_client\<close> from the wait on: the packets sent, the outcome and the store.\<close>

definition noise_client_finish ::
  "('hs, 'z) noise_api_scheme \<Rightarrow> pb_codec \<Rightarrow> conn_ctx \<Rightarrow> (nat \<Rightarrow> u8) \<Rightarrow> (zc_packet \<Rightarrow> bool) \<Rightarrow> u64 \<Rightarrow> u64 \<Rightarrow> u64 \<Rightarrow> conn
    \<Rightarrow> 'hs client_wait \<Rightarrow> (tunnel_error + zc_packet) list \<Rightarrow> store
    \<Rightarrow> (zc_packet list \<times> (conn_error + NoiseHandshakeResult) \<times> store) may_panic" where
  "noise_client_finish nz pb cx u tx t0 now now' c w items st =
     (case recv_next_peer_manager_packet (Some PT_NoiseHandshakeMsg2) items of
        Inl e \<Rightarrow> Some ([], Inl e, st)
      | Inr msg2 \<Rightarrow> do {
          remote \<leftarrow> get_src_peer_id msg2;
          if c_peer_id_hint c \<noteq> None \<and> c_peer_id_hint c \<noteq> Some remote then Some ([], Inl PeerIdMismatch, st)
          else do {
            dec \<leftarrow> conn_decode_handshake_message nz (dec_m2 pb) PT_NoiseHandshakeMsg2 (cw_hs w) msg2;
            case dec of
              Inl e \<Rightarrow> Some ([], Inl e, st)
            | Inr (m, hs) \<Rightarrow>
                (case check_msg2 cx w m of
                   Inl e \<Rightarrow> Some ([], Inl e, st)
                 | Inr action \<Rightarrow> do {
                     let msg3 = \<lparr>m3_a_conn_id_echo = Some (cw_conn_id w), b_conn_id_echo = b_conn_id m,
                       m3_secret_proof_32 = cx_secret_proof cx (get_handshake_hash nz hs),
                       m3_secret_digest = client_secret_digest cx\<rparr>;
                     sent \<leftarrow> noise_packet u nz (c_my_peer_id c) remote PT_NoiseHandshakeMsg3 (enc_m3 pb msg3) hs;
                     Some (case sent of
                         Inl e \<Rightarrow> ([], Inl e, st)
                       | Inr (packet, hs) \<Rightarrow>
                           if \<not> tx packet then ([], Inl SendError, st)
                           else ([packet], noise_client_adopt nz cx t0 now now' action w remote m hs c st)) }) } })"

record 'hs server_wait =
  sw_hs :: 'hs
  sw_msg1 :: NoiseMsg1
  sw_remote_peer_id :: PeerId
  sw_role_hint :: u32
  sw_b_conn_id :: "128 word"
  sw_session :: ref
  sw_handshake_hash_for_proof :: bytes
  sw_local_static_pubkey :: bytes

text \<open>The answer of the server to a decoded first message.\<close>

definition server_msg2 ::
  "('hs, 'z) noise_api_scheme \<Rightarrow> conn_ctx \<Rightarrow> u64 \<Rightarrow> bytes \<Rightarrow> 128 word \<Rightarrow> PeerId \<Rightarrow> NoiseMsg1 \<Rightarrow> 'hs \<Rightarrow> store
    \<Rightarrow> (conn_error + (NoiseMsg2 \<times> ref)) \<times> store" where
  "server_msg2 nz cx now fresh_key uuid remote m hs st =
     (let same = a_network_name m = cx_network_name cx
      in case upsert_responder_session now fresh_key \<lparr>network_name = a_network_name m, sk_peer_id = remote\<rparr>
            (a_session_generation m) (cx_encryption_algorithm cx) (client_encryption_algorithm m) None st of
        (Inl e, st) \<Rightarrow> (Inl (SessionErr e), st)
      | (Inr ret, st) \<Rightarrow> (Inr (\<lparr>b_network_name = cx_network_name cx, role_hint = (if same then 1 else 2),
          m2_action = action_code (ur_action ret), b_session_generation = ur_generation ret,
          m2_root_key_32 = ur_root_key ret, m2_initial_epoch = ur_initial_epoch ret, b_conn_id = Some uuid,
          m2_a_conn_id_echo = a_conn_id m,
          m2_secret_proof_32 = (if same then cx_secret_proof cx (get_handshake_hash nz hs) else None),
          server_encryption_algorithm = cx_encryption_algorithm cx\<rparr>, ur_session ret), st))"

text \<open>
  \<open>do_noise_handshake_as_server\<close> up to the wait for the third message. \<open>handshake_recved\<close> is the caller's hook, which
  may refuse the network or give the connection another identifier.
\<close>

definition noise_server_start ::
  "('hs, 'z) noise_api_scheme \<Rightarrow> pb_codec \<Rightarrow> conn_ctx \<Rightarrow> (nat \<Rightarrow> u8) \<Rightarrow> (zc_packet \<Rightarrow> bool)
    \<Rightarrow> (string \<Rightarrow> conn \<Rightarrow> (conn_error + conn) may_panic) \<Rightarrow> u64 \<Rightarrow> bytes \<Rightarrow> 128 word \<Rightarrow> bytes \<Rightarrow> zc_packet \<Rightarrow> conn \<Rightarrow> store
    \<Rightarrow> ((conn_error + (zc_packet \<times> 'hs server_wait \<times> conn)) \<times> store) may_panic" where
  "noise_server_start nz pb cx u tx handshake_recved now fresh_key uuid eph first c st =
     (case cx_keypair cx of
        None \<Rightarrow> Some (Inl NoSecureConfig, st)
      | Some (priv, pub) \<Rightarrow>
          (case build_responder nz XX prologue priv eph of
             None \<Rightarrow> Some (Inl NoiseError, st)
           | Some hs \<Rightarrow> do {
               remote \<leftarrow> get_src_peer_id first;
               dec \<leftarrow> conn_decode_handshake_message nz (dec_m1 pb) PT_NoiseHandshakeMsg1 hs first;
               case dec of
                 Inl e \<Rightarrow> Some (Inl e, st)
               | Inr (m, hs) \<Rightarrow> do {
                   hook \<leftarrow> handshake_recved (a_network_name m) c;
                   case hook of
                     Inl e \<Rightarrow> Some (Inl e, st)
                   | Inr c \<Rightarrow>
                       (case server_msg2 nz cx now fresh_key uuid remote m hs st of
                          (Inl e, st) \<Rightarrow> Some (Inl e, st)
                        | (Inr (msg2, r), st) \<Rightarrow> do {
                            sent \<leftarrow> noise_packet u nz (c_my_peer_id c) remote PT_NoiseHandshakeMsg2 (enc_m2 pb msg2) hs;
                            Some (case sent of
                                Inl e \<Rightarrow> (Inl e, st)
                              | Inr (packet, hs) \<Rightarrow>
                                  if \<not> tx packet then (Inl SendError, st)
                                  else (Inr (packet, \<lparr>sw_hs = hs, sw_msg1 = m, sw_remote_peer_id = remote, sw_role_hint = role_hint msg2,
                                    sw_b_conn_id = uuid, sw_session = r,
                                    sw_handshake_hash_for_proof = get_handshake_hash nz hs, sw_local_static_pubkey = pub\<rparr>, c), st)) }) } }))"

definition verify_client :: "conn_ctx \<Rightarrow> 'hs server_wait \<Rightarrow> NoiseMsg3 \<Rightarrow> bytes \<Rightarrow> conn_error + SecureAuthLevel" where
  "verify_client cx w m remote_static =
     (if sw_role_hint w = 1
      then verify_remote_auth cx (m3_secret_proof_32 m) (sw_handshake_hash_for_proof w) remote_static None
        (ni_network_secret (cx_identity cx) \<noteq> None) False (a_network_name (sw_msg1 w))
      else Inr EncryptedUnauthenticated)"

text \<open>What the server does with a decoded third message.\<close>

definition noise_server_accept ::
  "('hs, 'z) noise_api_scheme \<Rightarrow> conn_ctx \<Rightarrow> conn \<Rightarrow> 'hs server_wait \<Rightarrow> NoiseMsg3 \<Rightarrow> 'hs \<Rightarrow> store
    \<Rightarrow> (conn_error + NoiseHandshakeResult) \<times> store" where
  "noise_server_accept nz cx c w m hs st =
     (if m3_a_conn_id_echo m \<noteq> a_conn_id (sw_msg1 w) \<or> b_conn_id_echo m \<noteq> Some (sw_b_conn_id w) then (Inl ConnIdMismatch, st)
      else let remote_static = (case get_remote_static nz hs of Some k \<Rightarrow> k | None \<Rightarrow> []); r = sw_session w
        in case check_or_set_peer_static_pubkey (key_32 remote_static) (heap st r) of
          Inl e \<Rightarrow> (Inl (SessionErr e), st)
        | Inr s \<Rightarrow>
            let st = heap_put r s st
            in case verify_client cx w m remote_static of
              Inl e \<Rightarrow> (Inl e, st)
            | Inr level \<Rightarrow> (Inr \<lparr>nr_peer_id = sw_remote_peer_id w, nr_session = r,
                nr_local_static_pubkey = sw_local_static_pubkey w, nr_remote_static_pubkey = remote_static,
                nr_handshake_hash = get_handshake_hash nz hs, nr_secure_auth_level = level,
                nr_peer_identity_type = classify_remote_identity cx (a_network_name (sw_msg1 w)) level (sw_role_hint w = 1)
                  (m3_secret_proof_32 m \<noteq> None) False,
                nr_remote_network_name = a_network_name (sw_msg1 w), nr_secret_digest = m3_secret_digest m,
                nr_client_secret_proof = map_option (\<lambda>p. (sw_handshake_hash_for_proof w, p)) (m3_secret_proof_32 m),
                nr_my_encrypt_algo = c_my_encrypt_algo c,
                nr_remote_encrypt_algo = client_encryption_algorithm (sw_msg1 w)\<rparr>, st))"

definition noise_server_finish ::
  "('hs, 'z) noise_api_scheme \<Rightarrow> pb_codec \<Rightarrow> conn_ctx \<Rightarrow> conn \<Rightarrow> 'hs server_wait \<Rightarrow> (tunnel_error + zc_packet) list \<Rightarrow> store
    \<Rightarrow> ((conn_error + NoiseHandshakeResult) \<times> store) may_panic" where
  "noise_server_finish nz pb cx c w items st =
     (case recv_next_peer_manager_packet (Some PT_NoiseHandshakeMsg3) items of
        Inl e \<Rightarrow> Some (Inl e, st)
      | Inr msg3 \<Rightarrow> do {
          dec \<leftarrow> conn_decode_handshake_message nz (dec_m3 pb) PT_NoiseHandshakeMsg3 (sw_hs w) msg3;
          Some (case dec of
              Inl e \<Rightarrow> (Inl e, st)
            | Inr (m, hs) \<Rightarrow> noise_server_accept nz cx c w m hs st) })"

definition build_handshake_rsp :: "NoiseHandshakeResult \<Rightarrow> HandshakeRequest" where
  "build_handshake_rsp n = \<lparr>hr_magic = MAGIC, hr_my_peer_id = nr_peer_id n, hr_version = VERSION, hr_features = [],
     hr_network_name = nr_remote_network_name n, hr_network_secret_digest = nr_secret_digest n\<rparr>"

text \<open>Both roles fill in the connection from the result of the Noise handshake.\<close>

definition noise_done :: "bool \<Rightarrow> NoiseHandshakeResult \<Rightarrow> conn \<Rightarrow> conn" where
  "noise_done client n c = c\<lparr>c_session_filter := (c_session_filter c)\<lparr>sf_session := Some (nr_session n), sf_peer_id := Some (nr_peer_id n)\<rparr>,
     c_noise := Some n, c_info := Some (build_handshake_rsp n), c_is_client := Some client\<rparr>"

section \<open>Both roles\<close>

text \<open>
  \<open>do_handshake_as_client\<close>, first part: the first packet, with the Noise state to wait with in secure mode.
\<close>

definition handshake_client_start ::
  "('hs, 'z) noise_api_scheme \<Rightarrow> pb_codec \<Rightarrow> conn_ctx \<Rightarrow> (nat \<Rightarrow> u8) \<Rightarrow> (zc_packet \<Rightarrow> bool) \<Rightarrow> 128 word \<Rightarrow> bytes \<Rightarrow> conn \<Rightarrow> store
    \<Rightarrow> ((conn_error + (zc_packet \<times> 'hs client_wait option)) \<times> store) may_panic" where
  "handshake_client_start nz pb cx u tx uuid eph c st =
     (if cx_secure_enabled cx
      then map_option (\<lambda>(r, st). (map_sum id (\<lambda>(packet, w). (packet, Some w)) r, st)) (noise_client_start nz pb cx u tx uuid eph c st)
      else do {
        packet \<leftarrow> handshake_packet u pb cx True c;
        Some (if \<not> tx packet then Inl SendError else Inr (packet, None), st) })"

definition handshake_client_finish ::
  "('hs, 'z) noise_api_scheme \<Rightarrow> pb_codec \<Rightarrow> conn_ctx \<Rightarrow> (nat \<Rightarrow> u8) \<Rightarrow> (zc_packet \<Rightarrow> bool) \<Rightarrow> u64 \<Rightarrow> u64 \<Rightarrow> u64 \<Rightarrow> conn
    \<Rightarrow> 'hs client_wait option \<Rightarrow> (tunnel_error + zc_packet) list \<Rightarrow> store
    \<Rightarrow> (zc_packet list \<times> (conn_error + conn) \<times> store) may_panic" where
  "handshake_client_finish nz pb cx u tx t0 now now' c w items st = (case w of
     Some w \<Rightarrow> do {
       (pkts, r, st) \<leftarrow> noise_client_finish nz pb cx u tx t0 now now' c w items st;
       Some (pkts, case r of Inl e \<Rightarrow> Inl e | Inr n \<Rightarrow> refuse_own_id (noise_done True n c), st) }
   | None \<Rightarrow> do {
       r \<leftarrow> wait_handshake_loop pb items;
       Some ([], case r of Inl e \<Rightarrow> Inl e | Inr rsp \<Rightarrow> refuse_own_id (c\<lparr>c_info := Some rsp, c_is_client := Some True\<rparr>), st) })"

text \<open>
  \<open>do_handshake_as_server_ext\<close> on the first packet: a Noise handshake goes on, one in the clear is finished, with the
  answer sent unless the tunnel refuses it.
\<close>

datatype 'hs server_step = Finished "zc_packet list" "conn_error + conn" | Continue zc_packet "'hs server_wait" conn

definition handshake_server_start ::
  "('hs, 'z) noise_api_scheme \<Rightarrow> pb_codec \<Rightarrow> (bytes \<Rightarrow> u64) \<Rightarrow> conn_ctx \<Rightarrow> (nat \<Rightarrow> u8) \<Rightarrow> (zc_packet \<Rightarrow> bool)
    \<Rightarrow> (string \<Rightarrow> conn \<Rightarrow> (conn_error + conn) may_panic) \<Rightarrow> u64 \<Rightarrow> bytes \<Rightarrow> 128 word \<Rightarrow> bytes
    \<Rightarrow> (tunnel_error + zc_packet) list \<Rightarrow> conn \<Rightarrow> store \<Rightarrow> ('hs server_step \<times> store) may_panic" where
  "handshake_server_start nz pb h cx u tx handshake_recved now fresh_key uuid eph items c st =
     (case recv_next_peer_manager_packet None items of
        Inl e \<Rightarrow> Some (Finished [] (Inl e), st)
      | Inr first \<Rightarrow>
          (case peer_manager_header first of
             None \<Rightarrow> Some (Finished [] (Inl NoHeader), st)
           | Some hdr \<Rightarrow>
               if cx_secure_enabled cx \<and> pm_packet_type hdr = PacketType_code PT_NoiseHandshakeMsg1
               then map_option (\<lambda>(r, st). (case r of Inl e \<Rightarrow> Finished [] (Inl e) | Inr (packet, w, c) \<Rightarrow> Continue packet w c, st))
                 (noise_server_start nz pb cx u tx handshake_recved now fresh_key uuid eph first c st)
               else if pm_packet_type hdr = PacketType_code PT_HandShake
               then do {
                 dec \<leftarrow> decode_handshake_packet pb first;
                 case dec of
                   Inl e \<Rightarrow> Some (Finished [] (Inl e), st)
                 | Inr rsp \<Rightarrow> do {
                     hook \<leftarrow> handshake_recved (hr_network_name rsp) c;
                     case hook of
                       Inl e \<Rightarrow> Some (Finished [] (Inl e), st)
                     | Inr c \<Rightarrow> do {
                         let c = c\<lparr>c_info := Some rsp, c_is_client := Some False\<rparr>;
                         peer \<leftarrow> conn_network_identity c;
                         packet \<leftarrow> handshake_packet u pb cx (network_identity_eq h peer (cx_identity cx)) c;
                         Some (if \<not> tx packet then Finished [] (Inl SendError) else Finished [packet] (refuse_own_id c), st) } } }
               else Some (Finished [] (Inl WrongPacketType), st)))"

definition handshake_server_finish ::
  "('hs, 'z) noise_api_scheme \<Rightarrow> pb_codec \<Rightarrow> conn_ctx \<Rightarrow> conn \<Rightarrow> 'hs server_wait \<Rightarrow> (tunnel_error + zc_packet) list \<Rightarrow> store
    \<Rightarrow> ((conn_error + conn) \<times> store) may_panic" where
  "handshake_server_finish nz pb cx c w items st = do {
     (r, st) \<leftarrow> noise_server_finish nz pb cx c w items st;
     Some (case r of Inl e \<Rightarrow> Inl e | Inr n \<Rightarrow> refuse_own_id (noise_done False n c), st) }"


end
