(* ===== verification/Peer_Auth.thy ===== *)
theory Peer_Auth
  imports Peer_Conn
begin

text \<open>
  What the handshake of \<^theory_text>\<open>Peer_Conn\<close> guarantees: agreement and mutual authentication of administrators, what a server
  may conclude about a client, and two ways in which it falls short; and the delivery of packets through the session
  filters of both ends. The Noise library enters through \<open>noise_xx_ok\<close>, its documented behaviour.
\<close>

section \<open>The libraries\<close>

text \<open>
  What one end writes with the pattern XX the other end reads, both then have the same handshake hash, and after the
  third message both know the public key that belongs to the private key of the other end.
\<close>

definition noise_xx_ok :: "('hs, 'z) noise_api_scheme \<Rightarrow> (bytes \<Rightarrow> bytes) \<Rightarrow> bool" where
  "noise_xx_ok nz pub \<longleftrightarrow> (\<forall>pro ka kb ea eb a0 b0.
     build_initiator nz XX pro ka None ea = Some a0 \<and> build_responder nz XX pro kb eb = Some b0 \<longrightarrow>
     (\<forall>p1 c1 a1. write_message nz a0 p1 = Some (c1, a1) \<longrightarrow>
       (\<exists>b1. read_message nz b0 c1 = Some (p1, b1) \<and> get_handshake_hash nz b1 = get_handshake_hash nz a1 \<and>
         (\<forall>p2 c2 b2. write_message nz b1 p2 = Some (c2, b2) \<longrightarrow>
           (\<exists>a2. read_message nz a1 c2 = Some (p2, a2) \<and> get_handshake_hash nz a2 = get_handshake_hash nz b2 \<and>
             (\<forall>p3 c3 a3. write_message nz a2 p3 = Some (c3, a3) \<longrightarrow>
               get_remote_static nz a3 = Some (pub kb) \<and>
               (\<exists>b3. read_message nz b2 c3 = Some (p3, b3) \<and> get_remote_static nz b3 = Some (pub ka))))))))"

definition codec_ok :: "pb_codec \<Rightarrow> bool" where
  "codec_ok pb \<longleftrightarrow> (\<forall>m. dec_m1 pb (enc_m1 pb m) = Some m) \<and> (\<forall>m. dec_m2 pb (enc_m2 pb m) = Some m) \<and>
     (\<forall>m. dec_m3 pb (enc_m3 pb m) = Some m)"

lemma noise_packet_spec:
  assumes "noise_packet u nz my remote t body hs = Some (Inr (p, hs'))"
  shows "\<exists>msg h. write_message nz hs body = Some (msg, hs') \<and> payload p = Some msg \<and> peer_manager_header p = Some h \<and>
    from_peer_id h = my \<and> to_peer_id h = remote \<and> pm_packet_type h = PacketType_code t"
proof -
  obtain msg where w: "write_message nz hs body = Some (msg, hs')"
    using assms by (auto simp: noise_packet_def split: option.splits bind_splits)
  obtain q h where q: "new_with_payload u msg = Some q" "payload q = Some msg" "peer_manager_header q = Some h"
    using new_with_payload_spec [of u msg] by auto
  have "fill_peer_manager_hdr my remote (PacketType_code t) q = Some p" using assms w q(1) by (auto simp: noise_packet_def split: bind_splits)
  then show ?thesis using fill_peer_manager_hdr_spec [of q my remote "PacketType_code t"] q w by auto
qed

lemma recv_next_hit:
  "peer_manager_header p = Some h \<Longrightarrow> pm_packet_type h = PacketType_code t \<Longrightarrow> recv_next_peer_manager_packet (Some t) (Inr p # items) = Inr p"
  by simp

lemma decode_written:
  assumes "payload p = Some c" and "peer_manager_header p = Some h" and "pm_packet_type h = PacketType_code t"
    and "read_message nz hs c = Some (out, hs')" and "dec out = Some m"
  shows "conn_decode_handshake_message nz dec t hs p = Some (Inr (m, hs'))"
  using assms by (simp add: conn_decode_handshake_message_def)

section \<open>What each part sent\<close>

text \<open>A started client has built a Noise state and written its first message with it.\<close>

lemma client_start_spec:
  assumes "noise_client_start nz pb cx u tx uuid eph c st = Some (Inr (p1, w), st')"
  shows "\<exists>priv a0 m c1 h. cx_keypair cx = Some (priv, cw_local_static_pubkey w) \<and>
    build_initiator nz XX prologue priv None eph = Some a0 \<and> write_message nz a0 (enc_m1 pb m) = Some (c1, cw_hs w) \<and>
    payload p1 = Some c1 \<and> peer_manager_header p1 = Some h \<and> from_peer_id h = c_my_peer_id c \<and>
    pm_packet_type h = PacketType_code PT_NoiseHandshakeMsg1 \<and>
    cw_server_handshake_hash w = get_handshake_hash nz (cw_hs w) \<and> cw_conn_id w = uuid \<and>
    a_network_name m = cx_network_name cx \<and> a_conn_id m = Some uuid \<and>
    client_encryption_algorithm m = c_my_encrypt_algo c \<and> (c_peer_id_hint c = None \<longrightarrow> a_session_generation m = None)"
proof -
  obtain pinned where "(case get_pinned_remote_static_pubkey_b64 cx (c_remote_url c) of
      None \<Rightarrow> Inr None | Some v \<Rightarrow> map_sum id Some (decode_b64_32 (cx_keys cx) v)) = Inr pinned"
    using assms by (auto simp: noise_client_start_def split: sum.splits)
  note pinned = this
  obtain priv pub where k: "cx_keypair cx = Some (priv, pub)"
    using assms pinned by (auto simp: noise_client_start_def split: option.splits)
  obtain r st1 where r: "(case c_peer_id_hint c of None \<Rightarrow> (None, st)
      | Some p \<Rightarrow> store_get \<lparr>network_name = cx_network_name cx, sk_peer_id = p\<rparr> st) = (r, st1)" by fastforce
  define m where "m = \<lparr>m1_version = VERSION, a_network_name = cx_network_name cx,
      a_session_generation = map_option (\<lambda>r. ps_session_generation (heap st1 r)) r, a_conn_id = Some uuid,
      client_encryption_algorithm = c_my_encrypt_algo c\<rparr>"
  obtain a0 where a0: "build_initiator nz XX prologue priv None eph = Some a0"
    using assms k r by (auto simp: noise_client_start_def pinned split: option.splits)
  obtain hs where np: "noise_packet u nz (c_my_peer_id c) 0 PT_NoiseHandshakeMsg1 (enc_m1 pb m) a0 = Some (Inr (p1, hs))"
    "w = \<lparr>cw_hs = hs, cw_conn_id = uuid, cw_pinned = pinned, cw_local_static_pubkey = pub,
      cw_server_handshake_hash = get_handshake_hash nz hs\<rparr>"
    using assms k r a0 by (auto simp: noise_client_start_def pinned m_def split: bind_splits sum.splits if_splits)
  obtain c1 h where w: "write_message nz a0 (enc_m1 pb m) = Some (c1, hs)" "payload p1 = Some c1" "peer_manager_header p1 = Some h"
    "from_peer_id h = c_my_peer_id c" "pm_packet_type h = PacketType_code PT_NoiseHandshakeMsg1"
    using noise_packet_spec [OF np(1)] by blast
  show ?thesis
    by (rule exI [of _ priv], rule exI [of _ a0], rule exI [of _ m], rule exI [of _ c1], rule exI [of _ h])
      (use k a0 np(2) w r in \<open>auto simp: m_def\<close>)
qed

lemma server_start_spec:
  assumes "noise_server_start nz pb cx u tx hook now fresh uuid eph p1 c st = Some (Inr (p2, w, c'), st')"
  shows "\<exists>priv b0 h1 m b1 m2 c2 h2. cx_keypair cx = Some (priv, sw_local_static_pubkey w) \<and>
    build_responder nz XX prologue priv eph = Some b0 \<and> peer_manager_header p1 = Some h1 \<and>
    conn_decode_handshake_message nz (dec_m1 pb) PT_NoiseHandshakeMsg1 b0 p1 = Some (Inr (m, b1)) \<and>
    server_msg2 nz cx now fresh uuid (from_peer_id h1) m b1 st = (Inr (m2, sw_session w), st') \<and>
    write_message nz b1 (enc_m2 pb m2) = Some (c2, sw_hs w) \<and> payload p2 = Some c2 \<and> peer_manager_header p2 = Some h2 \<and>
    from_peer_id h2 = c_my_peer_id c' \<and> pm_packet_type h2 = PacketType_code PT_NoiseHandshakeMsg2 \<and>
    sw_handshake_hash_for_proof w = get_handshake_hash nz (sw_hs w) \<and> sw_msg1 w = m \<and> sw_b_conn_id w = uuid \<and>
    sw_remote_peer_id w = from_peer_id h1 \<and> sw_role_hint w = role_hint m2"
proof -
  obtain priv pub where k: "cx_keypair cx = Some (priv, pub)" using assms by (auto simp: noise_server_start_def split: option.splits)
  obtain b0 where b0: "build_responder nz XX prologue priv eph = Some b0"
    using assms k by (auto simp: noise_server_start_def split: option.splits)
  obtain h1 where h1: "peer_manager_header p1 = Some h1"
    using assms k b0 by (auto simp: noise_server_start_def get_src_peer_id_def split: bind_splits)
  obtain m b1 where d: "conn_decode_handshake_message nz (dec_m1 pb) PT_NoiseHandshakeMsg1 b0 p1 = Some (Inr (m, b1))"
    using assms k b0 h1 by (auto simp: noise_server_start_def get_src_peer_id_def split: bind_splits sum.splits)
  have hk: "hook (a_network_name m) c = Some (Inr c')"
    using assms k b0 h1 d by (auto simp: noise_server_start_def get_src_peer_id_def split: bind_splits sum.splits prod.splits if_splits)
  obtain m2 r where s2: "server_msg2 nz cx now fresh uuid (from_peer_id h1) m b1 st = (Inr (m2, r), st')"
    using assms k b0 h1 d hk by (auto simp: noise_server_start_def get_src_peer_id_def split: bind_splits sum.splits prod.splits if_splits)
  obtain hs where np: "noise_packet u nz (c_my_peer_id c') (from_peer_id h1) PT_NoiseHandshakeMsg2 (enc_m2 pb m2) b1 = Some (Inr (p2, hs))"
    "w = \<lparr>sw_hs = hs, sw_msg1 = m, sw_remote_peer_id = from_peer_id h1, sw_role_hint = role_hint m2, sw_b_conn_id = uuid,
      sw_session = r, sw_handshake_hash_for_proof = get_handshake_hash nz hs, sw_local_static_pubkey = pub\<rparr>"
    using assms k b0 h1 d hk s2 by (auto simp: noise_server_start_def get_src_peer_id_def split: bind_splits sum.splits if_splits)
  from noise_packet_spec [OF np(1)] show ?thesis using k b0 h1 d s2 np(2) by auto
qed

text \<open>A client that received the second message and sent the third.\<close>

lemma client_finish_spec:
  assumes "noise_client_finish nz pb cx u tx t0 now now' c w (Inr p2 # items) st = Some ([p3], ra, st')"
    and "peer_manager_header p2 = Some h2" and "pm_packet_type h2 = PacketType_code PT_NoiseHandshakeMsg2"
    and "conn_decode_handshake_message nz (dec_m2 pb) PT_NoiseHandshakeMsg2 (cw_hs w) p2 = Some (Inr (m, hs))"
  shows "\<exists>action m3 c3 hs3 h3. check_msg2 cx w m = Inr action \<and>
    m3 = \<lparr>m3_a_conn_id_echo = Some (cw_conn_id w), b_conn_id_echo = b_conn_id m,
      m3_secret_proof_32 = cx_secret_proof cx (get_handshake_hash nz hs), m3_secret_digest = client_secret_digest cx\<rparr> \<and>
    write_message nz hs (enc_m3 pb m3) = Some (c3, hs3) \<and> payload p3 = Some c3 \<and> peer_manager_header p3 = Some h3 \<and>
    pm_packet_type h3 = PacketType_code PT_NoiseHandshakeMsg3 \<and>
    (ra, st') = noise_client_adopt nz cx t0 now now' action w (from_peer_id h2) m hs3 c st"
proof -
  have rcv: "recv_next_peer_manager_packet (Some PT_NoiseHandshakeMsg2) (Inr p2 # items) = Inr p2"
    by (rule recv_next_hit [OF assms(2,3)])
  obtain action where ch: "check_msg2 cx w m = Inr action"
    using assms(1,2,4) unfolding noise_client_finish_def rcv
    by (auto simp: get_src_peer_id_def split: if_splits sum.splits)
  define m3 where "m3 = \<lparr>m3_a_conn_id_echo = Some (cw_conn_id w), b_conn_id_echo = b_conn_id m,
      m3_secret_proof_32 = cx_secret_proof cx (get_handshake_hash nz hs), m3_secret_digest = client_secret_digest cx\<rparr>"
  obtain hs3 where np: "noise_packet u nz (c_my_peer_id c) (from_peer_id h2) PT_NoiseHandshakeMsg3 (enc_m3 pb m3) hs = Some (Inr (p3, hs3))"
    "(ra, st') = noise_client_adopt nz cx t0 now now' action w (from_peer_id h2) m hs3 c st"
    using assms(1,2,4) ch unfolding noise_client_finish_def rcv
    by (auto simp: get_src_peer_id_def m3_def split: if_splits sum.splits bind_splits)
  from noise_packet_spec [OF np(1)] show ?thesis using ch np(2) m3_def by auto
qed

section \<open>Mutual authentication\<close>

lemma action_roundtrip [simp]: "action_try_from (action_code a) = Some a"
  by (cases a) (simp_all add: action_try_from_def)

text \<open>Two nodes with the same network name and secret, and the same proofs.\<close>

definition same_network :: "conn_ctx \<Rightarrow> conn_ctx \<Rightarrow> bool" where
  "same_network a b \<longleftrightarrow> cx_network_name a = cx_network_name b \<and> cx_hmac a = cx_hmac b \<and>
     ni_network_secret (cx_identity a) = ni_network_secret (cx_identity b) \<and> ni_network_secret (cx_identity a) \<noteq> None"

lemma same_network_proof:
  "same_network a b \<Longrightarrow> \<exists>p. cx_secret_proof a ch = Some p \<and> cx_secret_proof b ch = Some p"
  by (cases "ni_network_secret (cx_identity b)") (auto simp: same_network_def cx_secret_proof_def get_secret_proof_def)

lemma verify_confirmed:
  "cx_secret_proof cx hash = Some p \<Longrightarrow> verify_remote_auth cx (Some p) hash k pinned b i n = Inr NetworkSecretConfirmed"
  by (simp add: verify_remote_auth_def)

text \<open>A server without a session for the client answers with a new session and its own proof.\<close>

lemma server_msg2_create:
  assumes "server_msg2 nz cx now fresh uuid remote m hs st = (Inr (m2, r), st')"
    and "sessions st \<lparr>network_name = a_network_name m, sk_peer_id = remote\<rparr> = None"
  shows "m2_action m2 = action_code Create \<and> m2_root_key_32 m2 = Some fresh \<and> sessions st' \<lparr>network_name = a_network_name m, sk_peer_id = remote\<rparr> = Some r \<and>
    ps_is_valid (heap st' r) \<and> ps_root_key (heap st' r) = fresh \<and> ps_session_generation (heap st' r) = b_session_generation m2 \<and>
    peer_static_pubkey (heap st' r) = None \<and> b_conn_id m2 = Some uuid \<and> m2_a_conn_id_echo m2 = a_conn_id m \<and> b_network_name m2 = cx_network_name cx \<and>
    (a_network_name m = cx_network_name cx \<longrightarrow> role_hint m2 = 1 \<and> m2_secret_proof_32 m2 = cx_secret_proof cx (get_handshake_hash nz hs))"
  using assms by (auto simp: server_msg2_def Let_def upsert_responder_session_def alloc_def insert_session_def ps_new_def ps_is_valid_def
      is_valid_def session_new_def ps_root_key_def ps_session_generation_def)

lemma fresh_apply:
  assumes "sessions st key = None"
  shows "\<exists>r st'. apply_initiator_action t0 now now' key Create g (Some k) ep sa ra pk st = (Inr r, st') \<and>
    peer_static_pubkey (heap st' r) = pk"
  using assms by (auto simp: apply_initiator_action_def entry_or_insert_def alloc_def insert_session_def check_session_def
      ps_check_encrypt_algo_same_def check_encrypt_algo_same_def ps_new_def session_new_def check_or_set_peer_static_pubkey_def
      ps_sync_root_key_def split: option.split)

lemma client_adopts:
  assumes "sessions st \<lparr>network_name = cx_network_name cx, sk_peer_id = remote\<rparr> = None" and "length fresh = 32"
    and "m2_root_key_32 m = Some fresh" and "role_hint m = 1" and "b_network_name m = cx_network_name cx"
    and "m2_secret_proof_32 m = Some p" and "cx_secret_proof cx (cw_server_handshake_hash w) = Some p"
    and "get_remote_static nz hs = Some pk"
  shows "\<exists>n st'. noise_client_adopt nz cx t0 now now' Create w remote m hs c st = (Inr n, st') \<and>
    nr_peer_id n = remote \<and> nr_remote_static_pubkey n = pk \<and> nr_secure_auth_level n = NetworkSecretConfirmed \<and>
    nr_peer_identity_type n = Admin \<and> ps_is_valid (heap st' (nr_session n)) \<and> ps_root_key (heap st' (nr_session n)) = fresh \<and>
    ps_session_generation (heap st' (nr_session n)) = b_session_generation m \<and>
    sessions st' \<lparr>network_name = cx_network_name cx, sk_peer_id = remote\<rparr> = Some (nr_session n) \<and>
    peer_static_pubkey (heap st' (nr_session n)) = key_32 pk"
proof -
  have rk: "Option.bind (m2_root_key_32 m) key_32 = Some fresh" using assms(2,3) by (simp add: key_32_def)
  have v: "verify_server cx w m pk = Inr NetworkSecretConfirmed" using assms(4,6,7) by (simp add: verify_server_def verify_confirmed)
  obtain r st' where a: "apply_initiator_action t0 now now' \<lparr>network_name = cx_network_name cx, sk_peer_id = remote\<rparr> Create
      (b_session_generation m) (Some fresh) (m2_initial_epoch m) (cx_encryption_algorithm cx) (server_encryption_algorithm m) (key_32 pk) st
      = (Inr r, st')" "peer_static_pubkey (heap st' r) = key_32 pk"
    using fresh_apply [OF assms(1)] by blast
  have s: "ps_root_key (heap st' r) = fresh" "ps_session_generation (heap st' r) = b_session_generation m" "ps_is_valid (heap st' r)"
    "sessions st' \<lparr>network_name = cx_network_name cx, sk_peer_id = remote\<rparr> = Some r"
    using apply_sync_create [OF _ a(1)] by auto
  show ?thesis using a s assms(4,5,6,8) rk v by (simp add: noise_client_adopt_def classify_remote_identity_def)
qed

lemma server_accepts:
  assumes "m3_a_conn_id_echo m = a_conn_id (sw_msg1 w)" and "b_conn_id_echo m = Some (sw_b_conn_id w)" and "sw_role_hint w = 1"
    and "peer_static_pubkey (heap st (sw_session w)) = None" and "get_remote_static nz hs = Some pk"
    and "m3_secret_proof_32 m = Some p" and "cx_secret_proof cx (sw_handshake_hash_for_proof w) = Some p"
    and "a_network_name (sw_msg1 w) = cx_network_name cx"
  shows "\<exists>n st' s'. noise_server_accept nz cx c w m hs st = (Inr n, st') \<and> st' = heap_put (sw_session w) s' st \<and>
    datagram s' = datagram (heap st (sw_session w)) \<and> ps_invalidated s' = ps_invalidated (heap st (sw_session w)) \<and>
    peer_static_pubkey s' = key_32 pk \<and> nr_session n = sw_session w \<and>
    nr_peer_id n = sw_remote_peer_id w \<and> nr_remote_static_pubkey n = pk \<and> nr_secure_auth_level n = NetworkSecretConfirmed \<and>
    nr_peer_identity_type n = Admin"
proof -
  have v: "verify_client cx w m pk = Inr NetworkSecretConfirmed" using assms(3,6,7) by (simp add: verify_client_def verify_confirmed)
  show ?thesis using assms v
    by (auto simp: noise_server_accept_def Let_def check_or_set_peer_static_pubkey_def classify_remote_identity_def key_32_def)
qed

text \<open>A handshake whose messages arrive unchanged.\<close>

lemma honest_run:
  assumes "noise_xx_ok nz pub" and "codec_ok pb" and "same_network cxa cxb" and "length fresh = 32"
    and "cx_keypair cxa = Some (ka, pub ka)" and "cx_keypair cxb = Some (kb, pub kb)"
    and "noise_client_start nz pb cxa u tx uuid_a eph_a ca sta = Some (Inr (p1, cw), sta1)"
    and "noise_server_start nz pb cxb u' tx' hook now fresh uuid_b eph_b p1 cb stb = Some (Inr (p2, sw, cb'), stb1)"
    and "noise_client_finish nz pb cxa u tx t0 now1 now2 ca cw [Inr p2] sta1 = Some ([p3], ra, sta2)"
    and "sessions stb \<lparr>network_name = cx_network_name cxb, sk_peer_id = c_my_peer_id ca\<rparr> = None"
    and "sessions sta1 \<lparr>network_name = cx_network_name cxa, sk_peer_id = c_my_peer_id cb'\<rparr> = None"
  shows "\<exists>na nb stb2. ra = Inr na \<and> noise_server_finish nz pb cxb cb' sw [Inr p3] stb1 = Some (Inr nb, stb2) \<and>
    nr_secure_auth_level na = NetworkSecretConfirmed \<and> nr_secure_auth_level nb = NetworkSecretConfirmed \<and>
    nr_peer_identity_type na = Admin \<and> nr_peer_identity_type nb = Admin \<and>
    nr_peer_id na = c_my_peer_id cb' \<and> nr_peer_id nb = c_my_peer_id ca \<and>
    nr_remote_static_pubkey na = pub kb \<and> nr_remote_static_pubkey nb = pub ka \<and>
    ps_is_valid (heap sta2 (nr_session na)) \<and> ps_is_valid (heap stb2 (nr_session nb)) \<and>
    ps_root_key (heap sta2 (nr_session na)) = ps_root_key (heap stb2 (nr_session nb)) \<and>
    ps_session_generation (heap sta2 (nr_session na)) = ps_session_generation (heap stb2 (nr_session nb)) \<and>
    peer_static_pubkey (heap sta2 (nr_session na)) = key_32 (pub kb) \<and>
    peer_static_pubkey (heap stb2 (nr_session nb)) = key_32 (pub ka)"
proof -
  have dec: "dec_m1 pb (enc_m1 pb x) = Some x" "dec_m2 pb (enc_m2 pb y) = Some y" "dec_m3 pb (enc_m3 pb z) = Some z" for x y z
    using assms(2) by (auto simp: codec_ok_def)
  obtain a0 m1 c1 h1 where C: "build_initiator nz XX prologue ka None eph_a = Some a0" "write_message nz a0 (enc_m1 pb m1) = Some (c1, cw_hs cw)"
    "payload p1 = Some c1" "peer_manager_header p1 = Some h1" "from_peer_id h1 = c_my_peer_id ca"
    "pm_packet_type h1 = PacketType_code PT_NoiseHandshakeMsg1" "cw_server_handshake_hash cw = get_handshake_hash nz (cw_hs cw)"
    "cw_conn_id cw = uuid_a" "a_network_name m1 = cx_network_name cxa" "a_conn_id m1 = Some uuid_a"
    using client_start_spec [OF assms(7)] assms(5) by auto
  obtain b0 m b1 m2 c2 h2 where S: "build_responder nz XX prologue kb eph_b = Some b0"
    "conn_decode_handshake_message nz (dec_m1 pb) PT_NoiseHandshakeMsg1 b0 p1 = Some (Inr (m, b1))"
    "server_msg2 nz cxb now fresh uuid_b (from_peer_id h1) m b1 stb = (Inr (m2, sw_session sw), stb1)"
    "write_message nz b1 (enc_m2 pb m2) = Some (c2, sw_hs sw)" "payload p2 = Some c2" "peer_manager_header p2 = Some h2"
    "from_peer_id h2 = c_my_peer_id cb'" "pm_packet_type h2 = PacketType_code PT_NoiseHandshakeMsg2"
    "sw_handshake_hash_for_proof sw = get_handshake_hash nz (sw_hs sw)" "sw_msg1 sw = m" "sw_b_conn_id sw = uuid_b"
    "sw_remote_peer_id sw = from_peer_id h1" "sw_role_hint sw = role_hint m2"
    using server_start_spec [OF assms(8)] assms(6) C(4) by auto
  obtain b1' where N1: "read_message nz b0 c1 = Some (enc_m1 pb m1, b1')" "get_handshake_hash nz b1' = get_handshake_hash nz (cw_hs cw)"
    "\<forall>q2 d2 b2. write_message nz b1' q2 = Some (d2, b2) \<longrightarrow>
       (\<exists>a2. read_message nz (cw_hs cw) d2 = Some (q2, a2) \<and> get_handshake_hash nz a2 = get_handshake_hash nz b2 \<and>
         (\<forall>p3 c3 a3. write_message nz a2 p3 = Some (c3, a3) \<longrightarrow> get_remote_static nz a3 = Some (pub kb) \<and>
           (\<exists>b3. read_message nz b2 c3 = Some (p3, b3) \<and> get_remote_static nz b3 = Some (pub ka))))"
    using assms(1) C(1,2) S(1) unfolding noise_xx_ok_def by blast
  have m: "m = m1" "b1' = b1" using S(2) decode_written [where dec = "dec_m1 pb", OF C(3,4,6) N1(1) dec(1)] by auto
  obtain a2 where N2: "read_message nz (cw_hs cw) c2 = Some (enc_m2 pb m2, a2)" "get_handshake_hash nz a2 = get_handshake_hash nz (sw_hs sw)"
    "\<forall>p3 c3 a3. write_message nz a2 p3 = Some (c3, a3) \<longrightarrow> get_remote_static nz a3 = Some (pub kb) \<and>
       (\<exists>b3. read_message nz (sw_hs sw) c3 = Some (p3, b3) \<and> get_remote_static nz b3 = Some (pub ka))"
    using N1(3) S(4) m by blast
  have net: "cx_network_name cxa = cx_network_name cxb" using assms(3) by (simp add: same_network_def)
  note K = server_msg2_create [OF S(3)]
  have K: "m2_action m2 = action_code Create" "m2_root_key_32 m2 = Some fresh" "ps_is_valid (heap stb1 (sw_session sw))"
    "ps_root_key (heap stb1 (sw_session sw)) = fresh" "ps_session_generation (heap stb1 (sw_session sw)) = b_session_generation m2"
    "peer_static_pubkey (heap stb1 (sw_session sw)) = None" "b_conn_id m2 = Some uuid_b" "m2_a_conn_id_echo m2 = Some uuid_a"
    "b_network_name m2 = cx_network_name cxb" "role_hint m2 = 1" "m2_secret_proof_32 m2 = cx_secret_proof cxb (get_handshake_hash nz b1)"
    using K assms(10) C(5,9,10) m net by auto
  obtain action m3 c3 hs3 h3 where F: "check_msg2 cxa cw m2 = Inr action"
    "m3 = \<lparr>m3_a_conn_id_echo = Some (cw_conn_id cw), b_conn_id_echo = b_conn_id m2,
      m3_secret_proof_32 = cx_secret_proof cxa (get_handshake_hash nz a2), m3_secret_digest = client_secret_digest cxa\<rparr>"
    "write_message nz a2 (enc_m3 pb m3) = Some (c3, hs3)" "payload p3 = Some c3" "peer_manager_header p3 = Some h3"
    "pm_packet_type h3 = PacketType_code PT_NoiseHandshakeMsg3"
    "(ra, sta2) = noise_client_adopt nz cxa t0 now1 now2 action cw (from_peer_id h2) m2 hs3 ca sta1"
    using client_finish_spec [OF assms(9) S(6,8) decode_written [where dec = "dec_m2 pb", OF S(5,6,8) N2(1) dec(2)]] by blast
  have act: "action = Create" using F(1) K C(8) net by (simp add: check_msg2_def action_try_from_def split: if_splits)
  obtain pa where pa: "cx_secret_proof cxa (cw_server_handshake_hash cw) = Some pa" "m2_secret_proof_32 m2 = Some pa"
    using same_network_proof [OF assms(3)] K(11) C(7) N1(2) m(2) by fastforce
  obtain pb' where pb': "cx_secret_proof cxb (sw_handshake_hash_for_proof sw) = Some pb'" "m3_secret_proof_32 m3 = Some pb'"
    using same_network_proof [OF assms(3), of "get_handshake_hash nz a2"] F(2) S(9) N2(2) by fastforce
  obtain b3 where N3: "get_remote_static nz hs3 = Some (pub kb)" "read_message nz (sw_hs sw) c3 = Some (enc_m3 pb m3, b3)"
    "get_remote_static nz b3 = Some (pub ka)" using N2(3) F(3) by blast
  obtain na where A: "ra = Inr na" "nr_peer_id na = from_peer_id h2" "nr_remote_static_pubkey na = pub kb"
    "nr_secure_auth_level na = NetworkSecretConfirmed" "nr_peer_identity_type na = Admin" "ps_is_valid (heap sta2 (nr_session na))"
    "ps_root_key (heap sta2 (nr_session na)) = fresh" "ps_session_generation (heap sta2 (nr_session na)) = b_session_generation m2"
    "peer_static_pubkey (heap sta2 (nr_session na)) = key_32 (pub kb)"
    using client_adopts [where cx = cxa and st = sta1 and remote = "from_peer_id h2" and m = m2 and w = cw and nz = nz and hs = hs3
        and ?t0.0 = t0 and now = now1 and now' = now2 and c = ca, OF _ assms(4) K(2,10) _ pa(2,1) N3(1)] assms(11) S(7) K(9) net F(7) act
    by auto
  have e: "m3_a_conn_id_echo m3 = a_conn_id (sw_msg1 sw)" "b_conn_id_echo m3 = Some (sw_b_conn_id sw)" "sw_role_hint sw = 1"
    "a_network_name (sw_msg1 sw) = cx_network_name cxb" using F(2) C(8,9,10) S(10,11,13) K(7,10) m(1) net by auto
  obtain nb stb2 s' where B: "noise_server_accept nz cxb cb' sw m3 b3 stb1 = (Inr nb, stb2)" "stb2 = heap_put (sw_session sw) s' stb1"
    "datagram s' = datagram (heap stb1 (sw_session sw))" "ps_invalidated s' = ps_invalidated (heap stb1 (sw_session sw))"
    "peer_static_pubkey s' = key_32 (pub ka)" "nr_session nb = sw_session sw" "nr_peer_id nb = sw_remote_peer_id sw"
    "nr_remote_static_pubkey nb = pub ka" "nr_secure_auth_level nb = NetworkSecretConfirmed" "nr_peer_identity_type nb = Admin"
    using server_accepts [OF e(1,2,3) K(6) N3(3) pb'(2,1) e(4)] by metis
  have fin: "noise_server_finish nz pb cxb cb' sw [Inr p3] stb1 = Some (Inr nb, stb2)"
    using recv_next_hit [OF F(5,6)] decode_written [where dec = "dec_m3 pb", OF F(4,5,6) N3(2) dec(3)] B(1) by (simp add: noise_server_finish_def)
  show ?thesis
    using A B fin C(5) S(7,12) K(3,4,5)
    by (intro exI [of _ na] exI [of _ nb] exI [of _ stb2]) (simp add: ps_is_valid_def ps_root_key_def ps_session_generation_def)
qed


text \<open>
  C30. The Noise handshake between two administrators of a network that have no session yet. Once the three messages were
  sent and nobody touched them, both ends accept: each has confirmed that the other holds the network secret and takes it
  for an administrator, each knows the other's static public key and peer identifier, and the sessions they stored for
  each other are valid, have the same root key and generation and are pinned to that key.
\<close>

theorem noise_handshake_authenticates:
  assumes "noise_xx_ok nz pub" and "codec_ok pb" and "same_network cxa cxb" and "length fresh = 32"
    and "cx_keypair cxa = Some (ka, pub ka)" and "cx_keypair cxb = Some (kb, pub kb)"
    and "noise_client_start nz pb cxa u tx uuid_a eph_a ca sta = Some (Inr (p1, cw), sta1)"
    and "noise_server_start nz pb cxb u' tx' hook now fresh uuid_b eph_b p1 cb stb = Some (Inr (p2, sw, cb'), stb1)"
    and "noise_client_finish nz pb cxa u tx t0 now1 now2 ca cw [Inr p2] sta1 = Some ([p3], ra, sta2)"
    and "sessions stb \<lparr>network_name = cx_network_name cxb, sk_peer_id = c_my_peer_id ca\<rparr> = None"
    and "sessions sta1 \<lparr>network_name = cx_network_name cxa, sk_peer_id = c_my_peer_id cb'\<rparr> = None"
  shows "\<exists>na nb stb2. ra = Inr na \<and> noise_server_finish nz pb cxb cb' sw [Inr p3] stb1 = Some (Inr nb, stb2) \<and>
    nr_secure_auth_level na = NetworkSecretConfirmed \<and> nr_secure_auth_level nb = NetworkSecretConfirmed \<and>
    nr_peer_identity_type na = Admin \<and> nr_peer_identity_type nb = Admin \<and>
    nr_peer_id na = c_my_peer_id cb' \<and> nr_peer_id nb = c_my_peer_id ca \<and>
    nr_remote_static_pubkey na = pub kb \<and> nr_remote_static_pubkey nb = pub ka \<and>
    ps_is_valid (heap sta2 (nr_session na)) \<and> ps_is_valid (heap stb2 (nr_session nb)) \<and>
    ps_root_key (heap sta2 (nr_session na)) = ps_root_key (heap stb2 (nr_session nb)) \<and>
    ps_session_generation (heap sta2 (nr_session na)) = ps_session_generation (heap stb2 (nr_session nb)) \<and>
    peer_static_pubkey (heap sta2 (nr_session na)) = key_32 (pub kb) \<and>
    peer_static_pubkey (heap stb2 (nr_session nb)) = key_32 (pub ka)"
  by (rule honest_run [OF assms])

section \<open>What a server knows of a client\<close>

lemma verify_server_side:
  assumes "verify_remote_auth cx proof hash k None b False n = Inr level"
  shows "level = NetworkSecretConfirmed \<and> (\<exists>p. proof = Some p \<and> cx_secret_proof cx hash = Some p) \<or>
    level = PeerVerified \<and> cx_pubkey_trusted cx k n"
  using assms by (auto simp: verify_remote_auth_def split: if_splits)

lemma server_msg2_role:
  "server_msg2 nz cx now fresh uuid remote m hs st = (Inr (m2, r), st') \<Longrightarrow> role_hint m2 = (if a_network_name m = cx_network_name cx then 1 else 2)"
  by (auto simp: server_msg2_def Let_def split: sum.splits prod.splits)

lemma server_accept_cases:
  assumes "noise_server_accept nz cx c w m hs st = (Inr n, st')"
  shows "\<exists>s. st' = heap_put (sw_session w) s st \<and> nr_session n = sw_session w \<and> nr_peer_id n = sw_remote_peer_id w \<and>
    nr_remote_network_name n = a_network_name (sw_msg1 w) \<and>
    (\<forall>k. key_32 (nr_remote_static_pubkey n) = Some k \<longrightarrow> peer_static_pubkey s = Some k) \<and>
    verify_client cx w m (nr_remote_static_pubkey n) = Inr (nr_secure_auth_level n) \<and>
    nr_client_secret_proof n = map_option (\<lambda>p. (sw_handshake_hash_for_proof w, p)) (m3_secret_proof_32 m) \<and>
    nr_peer_identity_type n = classify_remote_identity cx (a_network_name (sw_msg1 w)) (nr_secure_auth_level n) (sw_role_hint w = 1)
      (m3_secret_proof_32 m \<noteq> None) False \<and> nr_secret_digest n = m3_secret_digest m"
  using assms by (auto simp: noise_server_accept_def Let_def check_or_set_peer_static_pubkey_def split: if_splits sum.splits option.splits)

text \<open>
  C31. Whatever a client sends, a server finishes a Noise handshake for its own network only with a client that either
  proved the network secret over this very handshake, or whose static public key it trusts as a credential or a known
  node; the session it uses for the connection is then pinned to that key.
\<close>

theorem server_accepts_authenticated:
  assumes "noise_server_start nz pb cx u tx hook now fresh uuid eph p1 c st = Some (Inr (p2, w, c'), st1)"
    and "noise_server_finish nz pb cx c' w items st2 = Some (Inr n, st3)"
    and "nr_remote_network_name n = cx_network_name cx"
  shows "(nr_secure_auth_level n = NetworkSecretConfirmed \<and>
      (\<exists>proof. nr_client_secret_proof n = Some (sw_handshake_hash_for_proof w, proof) \<and>
        cx_secret_proof cx (sw_handshake_hash_for_proof w) = Some proof) \<or>
    nr_secure_auth_level n = PeerVerified \<and> cx_pubkey_trusted cx (nr_remote_static_pubkey n) (cx_network_name cx)) \<and>
    (length (nr_remote_static_pubkey n) = 32 \<longrightarrow> peer_static_pubkey (heap st3 (nr_session n)) = Some (nr_remote_static_pubkey n))"
proof -
  obtain m hs where a: "noise_server_accept nz cx c' w m hs st2 = (Inr n, st3)"
    using assms(2) by (auto simp: noise_server_finish_def split: sum.splits bind_splits)
  obtain s where s: "st3 = heap_put (sw_session w) s st2" "nr_session n = sw_session w" "nr_remote_network_name n = a_network_name (sw_msg1 w)"
    "\<forall>k. key_32 (nr_remote_static_pubkey n) = Some k \<longrightarrow> peer_static_pubkey s = Some k"
    "verify_client cx w m (nr_remote_static_pubkey n) = Inr (nr_secure_auth_level n)"
    "nr_client_secret_proof n = map_option (\<lambda>p. (sw_handshake_hash_for_proof w, p)) (m3_secret_proof_32 m)"
    using server_accept_cases [OF a] by blast
  obtain m2 remote b1 where m2: "server_msg2 nz cx now fresh uuid remote (sw_msg1 w) b1 st = (Inr (m2, sw_session w), st1)" "sw_role_hint w = role_hint m2"
    using server_start_spec [OF assms(1)] by blast
  then have "sw_role_hint w = 1" using server_msg2_role [OF m2(1)] assms(3) s(3) by simp
  then have "verify_remote_auth cx (m3_secret_proof_32 m) (sw_handshake_hash_for_proof w) (nr_remote_static_pubkey n) None
      (ni_network_secret (cx_identity cx) \<noteq> None) False (cx_network_name cx) = Inr (nr_secure_auth_level n)"
    using s(3,5) assms(3) by (simp add: verify_client_def)
  from verify_server_side [OF this] show ?thesis using s(1,2,4,6) by (auto simp: key_32_def)
qed

text \<open>
  A node that joins with a credential only is taken for an administrator if it sends any bytes as a proof of the
  network secret, right or wrong; without such a field the same node is a credential node. The check of the proof fails,
  but the trusted key lets the handshake succeed, and the classification asks whether a proof was sent, not whether it
  was right.
\<close>

theorem wrong_proof_makes_admin:
  assumes "sw_role_hint w = 1" and "a_network_name (sw_msg1 w) = cx_network_name cx"
    and "m3_a_conn_id_echo m = a_conn_id (sw_msg1 w)" and "b_conn_id_echo m = Some (sw_b_conn_id w)"
    and "get_remote_static nz hs = Some key" and "cx_pubkey_trusted cx key (cx_network_name cx)"
    and "peer_static_pubkey (heap st (sw_session w)) \<in> {None, Some key}"
    and "cx_secret_proof cx (sw_handshake_hash_for_proof w) \<noteq> Some junk"
  shows "(\<exists>n st'. noise_server_accept nz cx c w (m\<lparr>m3_secret_proof_32 := Some junk\<rparr>) hs st = (Inr n, st') \<and>
      nr_secure_auth_level n = PeerVerified \<and> nr_peer_identity_type n = Admin) \<and>
    (\<exists>n st'. noise_server_accept nz cx c w (m\<lparr>m3_secret_proof_32 := None\<rparr>) hs st = (Inr n, st') \<and>
      nr_secure_auth_level n = PeerVerified \<and> nr_peer_identity_type n = Credential)"
proof -
  obtain s where s: "check_or_set_peer_static_pubkey (key_32 key) (heap st (sw_session w)) = Inr s"
    using assms(7) by (cases "length key = 32") (auto simp: check_or_set_peer_static_pubkey_def key_32_def)
  then show ?thesis
    using assms by (simp add: noise_server_accept_def Let_def verify_client_def verify_remote_auth_def classify_remote_identity_def)
qed

text \<open>
  C32. The root key of a running session is handed to anyone who claims the peer's identifier. A first message, written
  with any private key at all, that names a peer with whom the server has a valid session gets an answer, if any, that
  its writer can read, and it contains the root key of that session unless the message names the session's current
  generation (then the answer asks to join, without the key): the session is looked up by the claimed identifier before
  the client has proved anything, and a client that leaves the generation out is always sent the key.
\<close>

theorem root_key_disclosed:
  assumes "noise_xx_ok nz pub" and "codec_ok pb"
    and "build_initiator nz XX prologue attacker_key None eph_a = Some a0"
    and "write_message nz a0 (enc_m1 pb m1) = Some (c1, a1)"
    and "payload p1 = Some c1" and "peer_manager_header p1 = Some h1" and "pm_packet_type h1 = PacketType_code PT_NoiseHandshakeMsg1"
    and "sessions st \<lparr>network_name = a_network_name m1, sk_peer_id = from_peer_id h1\<rparr> = Some r" and "ps_is_valid (heap st r)"
    and "noise_server_start nz pb cx u tx hook now fresh uuid eph p1 c st = Some (Inr (p2, w, c'), st1)"
  shows "\<exists>c2 a2 m2. payload p2 = Some c2 \<and> read_message nz a1 c2 = Some (enc_m2 pb m2, a2) \<and>
    m2_root_key_32 m2 = (if a_session_generation m1 = Some (ps_session_generation (heap st r)) then None else Some (ps_root_key (heap st r)))"
proof -
  have dec: "dec_m1 pb (enc_m1 pb x) = Some x" for x using assms(2) by (auto simp: codec_ok_def)
  obtain priv b0 m b1 m2 c2 where S: "build_responder nz XX prologue priv eph = Some b0"
    "conn_decode_handshake_message nz (dec_m1 pb) PT_NoiseHandshakeMsg1 b0 p1 = Some (Inr (m, b1))"
    "server_msg2 nz cx now fresh uuid (from_peer_id h1) m b1 st = (Inr (m2, sw_session w), st1)"
    "write_message nz b1 (enc_m2 pb m2) = Some (c2, sw_hs w)" "payload p2 = Some c2"
    using server_start_spec [OF assms(10)] assms(6) by auto
  obtain b1' where N: "read_message nz b0 c1 = Some (enc_m1 pb m1, b1')"
    "\<forall>p2 c2 b2. write_message nz b1' p2 = Some (c2, b2) \<longrightarrow> (\<exists>a2. read_message nz a1 c2 = Some (p2, a2))"
    using assms(1) [unfolded noise_xx_ok_def, rule_format, OF conjI [OF assms(3) S(1)] assms(4)] by blast
  have m: "m = m1" "b1' = b1" using S(2) decode_written [where dec = "dec_m1 pb", OF assms(5,6,7) N(1) dec] by auto
  have "m2_root_key_32 m2 = (if a_session_generation m1 = Some (ps_session_generation (heap st r)) then None else Some (ps_root_key (heap st r)))"
    using S(3) assms(8,9) m(1)
    by (auto simp: server_msg2_def Let_def upsert_responder_session_def check_session_def ps_check_encrypt_algo_same_def
        check_or_set_peer_static_pubkey_def ps_root_key_def ps_session_generation_def split: option.splits sum.splits prod.splits if_splits)
  then show ?thesis using N(2) S(4,5) m(2) by blast
qed


section \<open>The session filters of both ends\<close>

lemma set_encrypted_ids [simp]:
  "from_peer_id (set_encrypted b h) = from_peer_id h" "to_peer_id (set_encrypted b h) = to_peer_id h"
  "pm_packet_type (set_encrypted b h) = pm_packet_type h"
  by (simp_all add: set_encrypted_def)

lemma should_skip_set_encrypted [simp]: "should_skip_encrypt (set_encrypted b h) = should_skip_encrypt h"
  by (simp add: should_skip_encrypt_def)

lemma ps_encrypt_Inr:
  assumes "ps_encrypt_payload hmac api rnd now a b p s = Some (Inr q, s')"
  shows "\<exists>d. encrypt_payload hmac api rnd now (dir_for_sender a b) p (datagram s) = Some (Inr q, d) \<and> s' = s\<lparr>datagram := d\<rparr>"
proof -
  obtain r d where r: "encrypt_payload hmac api rnd now (dir_for_sender a b) p (datagram s) = Some (r, d)"
    using assms by (auto simp: ps_encrypt_payload_def split: if_splits)
  then show ?thesis using assms by (cases r) (auto simp: ps_encrypt_payload_def split: if_splits)
qed

text \<open>What one end of a session encrypts, the other end decrypts, if it has the same root key and admits the nonce.\<close>

lemma session_round_trip:
  assumes "hmac_ok hmac" and "aead_ok api" and "length rnd = 12" and "ps_is_valid sb"
    and "key_cache_ok hmac (datagram sa)" and "key_cache_ok hmac (datagram sb)" and "ps_root_key sb = ps_root_key sa"
    and "recv_cipher_algorithm (datagram sb) = send_cipher_algorithm (datagram sa)"
    and "EncryptionAlgorithm_try_from (send_cipher_algorithm (datagram sa)) \<noteq> Some EA_Xor"
    and "peer_manager_header p = Some h" and "\<not> is_encrypted h"
    and "next_nonce now (dir_for_sender a b) (datagram sa) = ((e, n, nonce), s0)"
    and "fst (precheck_replay e n (dir_for_sender a b) now' (datagram sb))"
    and "ps_encrypt_payload hmac api rnd now a b p sa = Some (Inr q, s)"
  shows "peer_manager_header q = Some (set_encrypted True h) \<and>
    (\<exists>sb'. ps_decrypt_payload hmac api now' a b q sb = Some (Inr p, sb') \<and> ps_is_valid sb')"
proof -
  let ?dir = "dir_for_sender a b"
  obtain d where enc: "encrypt_payload hmac api rnd now ?dir p (datagram sa) = Some (Inr q, d)"
    using ps_encrypt_Inr [OF assms(14)] by blast
  obtain c pl where c: "traffic_cipher hmac (root_key (datagram sa)) (send_cipher_algorithm (datagram sa)) e ?dir = Some c"
    "decrypt api c q = Some (Inr p)" "payload q = Some pl" "parse_tail pl = Some nonce" "nonce = be_bytes 4 e @ be_bytes 8 n"
    "peer_manager_header q = Some (set_encrypted True h)"
    using encrypt_payload_Inr [OF assms(1-3,5,9-12) enc] by blast
  have e: "of_be (take 4 nonce) = e" "of_be (drop 4 nonce) = n" using c(5) by (simp_all add: of_be_be_bytes)
  have v: "is_valid (datagram sb)" "\<not> ps_invalidated sb" using assms(4) by (auto simp: ps_is_valid_def)
  obtain d' where dec: "decrypt_payload hmac api now' ?dir q (datagram sb) = Some (Inr p, d')" "is_valid d'"
    using decrypt_payload_Inr [OF v(1) c(3,4) _ assms(6,1) _ c(2), of ?dir now'] e assms(7,8,13) c(1) by (auto simp: ps_root_key_def)
  then show ?thesis using c(6) v assms(4) by (auto simp: ps_decrypt_payload_def ps_is_valid_def)
qed

text \<open>
  A packet a node sends to a neighbour over a connection in secure mode leaves the filter encrypted, and the filter of
  the neighbour hands on the original packet, if both ends hold sessions with the same root key, the receiver uses the
  algorithm of the sender (any AEAD) and its replay check admits the nonce.
\<close>

theorem session_filter_delivers:
  assumes "hmac_ok hmac" and "aead_ok api" and "length rnd = 12"
    and "fa = \<lparr>sf_enabled = True, sf_my_peer_id = a, sf_peer_id = Some b, sf_session = Some ra\<rparr>"
    and "fb = \<lparr>sf_enabled = True, sf_my_peer_id = b, sf_peer_id = Some a, sf_session = Some rb\<rparr>"
    and "sa = heap sta ra" and "sb = heap stb rb" and "ps_is_valid sb"
    and "key_cache_ok hmac (datagram sa)" and "key_cache_ok hmac (datagram sb)" and "ps_root_key sb = ps_root_key sa"
    and "recv_cipher_algorithm (datagram sb) = send_cipher_algorithm (datagram sa)"
    and "EncryptionAlgorithm_try_from (send_cipher_algorithm (datagram sa)) \<noteq> Some EA_Xor"
    and "peer_manager_header p = Some h" and "\<not> is_encrypted h" and "from_peer_id h = a" and "to_peer_id h = b" and "a \<noteq> 0"
    and "\<not> should_skip_encrypt h"
    and "next_nonce now (dir_for_sender a b) (datagram sa) = ((e, n, nonce), s0)"
    and "fst (precheck_replay e n (dir_for_sender a b) now' (datagram sb))"
    and "before_send hmac api rnd now fa p sta = Some (Some q, sta')"
  shows "peer_manager_header q = Some (set_encrypted True h) \<and>
    (\<exists>stb'. after_received hmac api now' fb (Inr q) stb = Some (Some (Inr p), stb') \<and> ps_is_valid (heap stb' rb))"
proof -
  obtain s where enc: "ps_encrypt_payload hmac api rnd now a b p sa = Some (Inr q, s)"
    using assms(4,6,14,16,19,22) by (auto simp: before_send_def Let_def split: bind_splits sum.splits)
  obtain sb' where q: "peer_manager_header q = Some (set_encrypted True h)"
    "ps_decrypt_payload hmac api now' a b q sb = Some (Inr p, sb')" "ps_is_valid sb'"
    using session_round_trip [OF assms(1-3,8-15,20,21) enc] by blast
  then have "after_received hmac api now' fb (Inr q) stb = Some (Some (Inr p), heap_put rb sb' stb)"
    using assms(5,7,16-19) by (simp add: after_received_def)
  then show ?thesis using q(1,3) by auto
qed


section \<open>Concrete libraries\<close>

text \<open>
  Stand-ins for the libraries, with which the hypotheses above hold: messages as framed fields, and a Noise state that
  sends the static key and the payload and keeps the transcript.
\<close>

definition frame :: "bytes \<Rightarrow> bytes" where
  "frame bs = replicate (length bs) 1 @ 0 # bs"

fun take_fields :: "nat \<Rightarrow> bytes \<Rightarrow> bytes list" where
  "take_fields 0 b = []"
| "take_fields (Suc k) b =
     (let n = length (takeWhile (\<lambda>x. x = 1) b); r = drop (Suc n) b in take n r # take_fields k (drop n r))"

lemma takeWhile_ones: "takeWhile (\<lambda>x. x = 1) (replicate n 1 @ 0 # r) = (replicate n 1 :: bytes)"
  by (induction n) simp_all

lemma take_fields_frames: "take_fields (length xs) (concat (map frame xs)) = xs"
  by (induction xs) (simp_all add: frame_def takeWhile_ones Let_def)

definition opt_bytes :: "('a \<Rightarrow> bytes) \<Rightarrow> 'a option \<Rightarrow> bytes" where
  "opt_bytes f v = (case v of None \<Rightarrow> [] | Some x \<Rightarrow> 1 # f x)"

definition bytes_opt :: "(bytes \<Rightarrow> 'a) \<Rightarrow> bytes \<Rightarrow> 'a option" where
  "bytes_opt g b = (case b of [] \<Rightarrow> None | _ # r \<Rightarrow> Some (g r))"

definition bytes_str :: "bytes \<Rightarrow> string" where
  "bytes_str b = map (\<lambda>x. char_of (unat x)) b"

lemma bytes_opt_bytes [simp]: "(\<And>x. g (f x) = x) \<Longrightarrow> bytes_opt g (opt_bytes f v) = v"
  by (cases v) (simp_all add: bytes_opt_def opt_bytes_def)

lemma char_of_byte: "char_of (unat (of_char ch :: u8)) = ch"
proof -
  have "unat (of_nat (of_char ch) :: u8) = of_char ch" using nat_of_char_less_256 [of ch] by (simp add: unat_of_nat)
  then show ?thesis by (simp add: of_nat_of_char)
qed

lemma bytes_str_bytes [simp]: "bytes_str (str_bytes s) = s"
  by (simp add: bytes_str_def str_bytes_def char_of_byte comp_def)

definition demo_pb :: pb_codec where
  "demo_pb = \<lparr>enc_req = (\<lambda>_. []), dec_req = (\<lambda>_. None),
     enc_m1 = (\<lambda>m. concat (map frame [be_bytes 4 (m1_version m), str_bytes (a_network_name m),
       opt_bytes (be_bytes 4) (a_session_generation m), opt_bytes (be_bytes 16) (a_conn_id m), str_bytes (client_encryption_algorithm m)])),
     dec_m1 = (\<lambda>b. let f = take_fields 5 b in Some \<lparr>m1_version = of_be (f ! 0), a_network_name = bytes_str (f ! 1),
       a_session_generation = bytes_opt of_be (f ! 2), a_conn_id = bytes_opt of_be (f ! 3), client_encryption_algorithm = bytes_str (f ! 4)\<rparr>),
     enc_m2 = (\<lambda>m. concat (map frame [str_bytes (b_network_name m), be_bytes 4 (role_hint m), be_bytes 4 (m2_action m),
       be_bytes 4 (b_session_generation m), opt_bytes id (m2_root_key_32 m), be_bytes 4 (m2_initial_epoch m), opt_bytes (be_bytes 16) (b_conn_id m),
       opt_bytes (be_bytes 16) (m2_a_conn_id_echo m), opt_bytes id (m2_secret_proof_32 m), str_bytes (server_encryption_algorithm m)])),
     dec_m2 = (\<lambda>b. let f = take_fields 10 b in Some \<lparr>b_network_name = bytes_str (f ! 0), role_hint = of_be (f ! 1), m2_action = of_be (f ! 2),
       b_session_generation = of_be (f ! 3), m2_root_key_32 = bytes_opt id (f ! 4), m2_initial_epoch = of_be (f ! 5), b_conn_id = bytes_opt of_be (f ! 6),
       m2_a_conn_id_echo = bytes_opt of_be (f ! 7), m2_secret_proof_32 = bytes_opt id (f ! 8), server_encryption_algorithm = bytes_str (f ! 9)\<rparr>),
     enc_m3 = (\<lambda>m. concat (map frame [opt_bytes (be_bytes 16) (m3_a_conn_id_echo m), opt_bytes (be_bytes 16) (b_conn_id_echo m),
       opt_bytes id (m3_secret_proof_32 m), m3_secret_digest m])),
     dec_m3 = (\<lambda>b. let f = take_fields 4 b in Some \<lparr>m3_a_conn_id_echo = bytes_opt of_be (f ! 0), b_conn_id_echo = bytes_opt of_be (f ! 1),
       m3_secret_proof_32 = bytes_opt id (f ! 2), m3_secret_digest = f ! 3\<rparr>)\<rparr>"

lemma take_fields_n: "length xs = n \<Longrightarrow> take_fields n (concat (map frame xs)) = xs"
  using take_fields_frames by auto

lemma demo_pb_ok: "codec_ok demo_pb"
  by (simp add: codec_ok_def demo_pb_def take_fields_n Let_def of_be_be_bytes del: concat.simps list.map)

definition demo_noise :: "(bytes \<times> bytes \<times> bytes option) noise_api" where
  "demo_noise = \<lparr>build_initiator = (\<lambda>_ pro k _ _. Some (k, pro, None)), build_responder = (\<lambda>_ pro k _. Some (k, pro, None)),
     write_message = (\<lambda>(k, t, r) p. let c = public_key demo_keys k @ p in Some (c, (k, t @ c, r))),
     read_message = (\<lambda>(k, t, r) c. if length c < 32 then None else Some (drop 32 c, (k, t @ c, Some (take 32 c)))),
     get_handshake_hash = (\<lambda>(k, t, r). t), get_remote_static = (\<lambda>(k, t, r). r)\<rparr>"

lemma demo_noise_ok: "noise_xx_ok demo_noise (public_key demo_keys)"
proof -
  have "length (public_key demo_keys k) = 32" for k using demo_keys_ok by (simp add: key_api_ok_def)
  then show ?thesis by (auto simp: noise_xx_ok_def demo_noise_def Let_def)
qed


definition demo_cx :: "bytes \<Rightarrow> conn_ctx" where
  "demo_cx k = \<lparr>cx_hmac = (\<lambda>k d. k @ d), cx_identity = \<lparr>ni_network_name = ''net'', ni_network_secret = Some ''s'',
     ni_network_secret_digest = Some (replicate 32 1)\<rparr>, cx_secure_enabled = True, cx_keypair = Some (k, public_key demo_keys k),
     cx_keys = demo_keys, cx_unix_now = 0, cx_trusted_keys = [''net'' \<mapsto> [replicate 32 9 \<mapsto> \<lparr>source = OspfCredential, key_expiry = None\<rparr>]],
     cx_credentials = credential_manager_new None, cx_encryption_algorithm = ''aes-gcm'', cx_peers = [], cx_hmac_secret_digest = False\<rparr>"

definition demo_conn_of :: "bytes \<Rightarrow> PeerId \<Rightarrow> conn" where
  "demo_conn_of k p = conn_new (demo_cx k) p None None"

lemma noise_packet_total:
  assumes "write_message nz hs body = Some (c, hs')"
  shows "\<exists>p. noise_packet u nz my remote t body hs = Some (Inr (p, hs'))"
proof -
  obtain q h where q: "new_with_payload u c = Some q" "peer_manager_header q = Some h"
    using new_with_payload_spec [of u c] by auto
  then show ?thesis using assms fill_peer_manager_hdr_spec [of q my remote "PacketType_code t"] by (auto simp: noise_packet_def)
qed

lemma demo_write: "\<exists>c hs'. write_message demo_noise hs body = Some (c, hs')"
  by (cases hs) (simp add: demo_noise_def Let_def)

lemma demo_packet_sent: "\<exists>p hs'. noise_packet u demo_noise my remote t body hs = Some (Inr (p, hs'))"
  using demo_write noise_packet_total by metis

lemma demo_cx_simps [simp]:
  "cx_keypair (demo_cx k) = Some (k, public_key demo_keys k)" "cx_network_name (demo_cx k) = ''net''" "cx_peers (demo_cx k) = []"
  "cx_secret_proof (demo_cx k) ch = Some (str_bytes ''s'' @ str_bytes ''easytier secret proof'' @ ch)"
  by (simp_all add: demo_cx_def cx_network_name_def cx_secret_proof_def get_secret_proof_def)

lemma demo_client_start: "\<exists>p1 cw. noise_client_start demo_noise demo_pb (demo_cx k) u (\<lambda>_. True) uuid eph (demo_conn_of k p) st = Some (Inr (p1, cw), st)"
proof -
  let ?m = "\<lparr>m1_version = VERSION, a_network_name = ''net'', a_session_generation = None, a_conn_id = Some uuid,
      client_encryption_algorithm = c_my_encrypt_algo (demo_conn_of k p)\<rparr>"
  obtain p1 hs where "noise_packet u demo_noise (c_my_peer_id (demo_conn_of k p)) 0 PT_NoiseHandshakeMsg1 (enc_m1 demo_pb ?m) (k, prologue, None) = Some (Inr (p1, hs))"
    using demo_packet_sent by metis
  moreover have "build_initiator demo_noise XX prologue k None eph = Some (k, prologue, None)" by (simp add: demo_noise_def)
  moreover have "c_peer_id_hint (demo_conn_of k p) = None" "c_remote_url (demo_conn_of k p) = None" by (simp_all add: demo_conn_of_def conn_new_def)
  ultimately show ?thesis by (simp add: noise_client_start_def get_pinned_remote_static_pubkey_b64_def)
qed

lemma demo_server_start:
  assumes "payload p1 = Some c1" and "peer_manager_header p1 = Some h1" and "pm_packet_type h1 = PacketType_code PT_NoiseHandshakeMsg1"
    and "read_message demo_noise (k, prologue, None) c1 = Some (enc_m1 demo_pb m, hs)"
    and "server_msg2 demo_noise (demo_cx k) now fresh uuid (from_peer_id h1) m hs st = (Inr (m2, r), st')"
  shows "\<exists>p2 sw. noise_server_start demo_noise demo_pb (demo_cx k) u (\<lambda>_. True) (\<lambda>_ c. Some (Inr c)) now fresh uuid eph p1 c st =
    Some (Inr (p2, sw, c), st')"
proof -
  have "dec_m1 demo_pb (enc_m1 demo_pb m) = Some m" using demo_pb_ok by (simp add: codec_ok_def)
  note d = decode_written [where dec = "dec_m1 demo_pb", OF assms(1-4) this]
  obtain p2 hs' where "noise_packet u demo_noise (c_my_peer_id c) (from_peer_id h1) PT_NoiseHandshakeMsg2 (enc_m2 demo_pb m2) hs = Some (Inr (p2, hs'))"
    using demo_packet_sent by metis
  moreover have "build_responder demo_noise XX prologue k eph = Some (k, prologue, None)" by (simp add: demo_noise_def)
  ultimately show ?thesis using d assms(2,5) by (simp add: noise_server_start_def get_src_peer_id_def)
qed

text \<open>A complete run of two administrators that have no session.\<close>

lemma demo_conn_run:
  "\<exists>p1 cw p2 sw stb1 p3 ra sta2.
    noise_client_start demo_noise demo_pb (demo_cx [1]) u (\<lambda>_. True) 5 [] (demo_conn_of [1] 1) empty_store = Some (Inr (p1, cw), empty_store) \<and>
    noise_server_start demo_noise demo_pb (demo_cx [2]) u (\<lambda>_. True) (\<lambda>_ c. Some (Inr c)) 3 (replicate 32 4) 6 [] p1 (demo_conn_of [2] 2) empty_store =
      Some (Inr (p2, sw, demo_conn_of [2] 2), stb1) \<and>
    noise_client_finish demo_noise demo_pb (demo_cx [1]) u (\<lambda>_. True) 3 3 3 (demo_conn_of [1] 1) cw [Inr p2] empty_store = Some ([p3], ra, sta2)"
proof -
  obtain p1 cw where c: "noise_client_start demo_noise demo_pb (demo_cx [1]) u (\<lambda>_. True) 5 [] (demo_conn_of [1] 1) empty_store = Some (Inr (p1, cw), empty_store)"
    using demo_client_start by metis
  obtain a0 m c1 h1 where C: "write_message demo_noise a0 (enc_m1 demo_pb m) = Some (c1, cw_hs cw)" "build_initiator demo_noise XX prologue [1] None [] = Some a0"
    "payload p1 = Some c1" "peer_manager_header p1 = Some h1" "pm_packet_type h1 = PacketType_code PT_NoiseHandshakeMsg1" "cw_conn_id cw = 5" "a_conn_id m = Some 5"
    "a_network_name m = ''net''" using client_start_spec [OF c] by auto
  have b0: "build_responder demo_noise XX prologue [2] [] = Some ([2], prologue, None)" by (simp add: demo_noise_def)
  from demo_noise_ok [unfolded noise_xx_ok_def, rule_format, OF conjI [OF C(2) b0] C(1)] obtain b1 where
    b1: "read_message demo_noise ([2], prologue, None) c1 = Some (enc_m1 demo_pb m, b1)"
    and N: "\<forall>p2 c2 b2. write_message demo_noise b1 p2 = Some (c2, b2) \<longrightarrow> (\<exists>a2. read_message demo_noise (cw_hs cw) c2 = Some (p2, a2))" by blast
  obtain m2 r st1 where m2: "server_msg2 demo_noise (demo_cx [2]) 3 (replicate 32 4) 6 (from_peer_id h1) m b1 empty_store = (Inr (m2, r), st1)"
    "role_hint m2 = 1" "m2_action m2 = action_code Create" "m2_a_conn_id_echo m2 = Some 5"
    by (simp add: server_msg2_def upsert_responder_session_def empty_store_def alloc_def Let_def C(7,8))
  obtain p2 sw where s: "noise_server_start demo_noise demo_pb (demo_cx [2]) u (\<lambda>_. True) (\<lambda>_ c. Some (Inr c)) 3 (replicate 32 4) 6 [] p1
      (demo_conn_of [2] 2) empty_store = Some (Inr (p2, sw, demo_conn_of [2] 2), st1)"
    using demo_server_start [OF C(3-5) b1 m2(1)] by metis
  obtain b1' m' m2' c2 h2 where S: "conn_decode_handshake_message demo_noise (dec_m1 demo_pb) PT_NoiseHandshakeMsg1 ([2], prologue, None) p1 = Some (Inr (m', b1'))"
    "server_msg2 demo_noise (demo_cx [2]) 3 (replicate 32 4) 6 (from_peer_id h1) m' b1' empty_store = (Inr (m2', sw_session sw), st1)"
    "write_message demo_noise b1' (enc_m2 demo_pb m2') = Some (c2, sw_hs sw)" "payload p2 = Some c2" "peer_manager_header p2 = Some h2"
    "pm_packet_type h2 = PacketType_code PT_NoiseHandshakeMsg2"
    using server_start_spec [OF s] C(4) b0 by auto
  have dec: "dec_m1 demo_pb (enc_m1 demo_pb x) = Some x" "dec_m2 demo_pb (enc_m2 demo_pb y) = Some y" for x y using demo_pb_ok by (auto simp: codec_ok_def)
  have eq: "b1' = b1" "m2' = m2" using S(1,2) decode_written [where dec = "dec_m1 demo_pb", OF C(3-5) b1 dec(1)] m2(1) by auto
  obtain a2 where a2: "read_message demo_noise (cw_hs cw) c2 = Some (enc_m2 demo_pb m2, a2)" using N S(3) eq by blast
  note d2 = decode_written [where dec = "dec_m2 demo_pb", OF S(4-6) a2 dec(2)]
  have ch: "check_msg2 (demo_cx [1]) cw m2 = Inr Create" using m2 C(6) by (simp add: check_msg2_def action_try_from_def)
  obtain p3 ra sta2 where "noise_client_finish demo_noise demo_pb (demo_cx [1]) u (\<lambda>_. True) 3 3 3 (demo_conn_of [1] 1) cw [Inr p2] empty_store = Some ([p3], ra, sta2)"
  proof -
    let ?m3 = "\<lparr>m3_a_conn_id_echo = Some (cw_conn_id cw), b_conn_id_echo = b_conn_id m2,
      m3_secret_proof_32 = cx_secret_proof (demo_cx [1]) (get_handshake_hash demo_noise a2), m3_secret_digest = client_secret_digest (demo_cx [1])\<rparr>"
    obtain p3 hs3 where np: "noise_packet u demo_noise (c_my_peer_id (demo_conn_of [1] 1)) (from_peer_id h2) PT_NoiseHandshakeMsg3 (enc_m3 demo_pb ?m3) a2 = Some (Inr (p3, hs3))"
      using demo_packet_sent by metis
    obtain ra sta2 where "noise_client_adopt demo_noise (demo_cx [1]) 3 3 3 Create cw (from_peer_id h2) m2 hs3 (demo_conn_of [1] 1) empty_store = (ra, sta2)" by fastforce
    then show ?thesis using that np d2 ch S(5) recv_next_hit [OF S(5,6)] unfolding noise_client_finish_def
      by (simp add: get_src_peer_id_def demo_conn_of_def conn_new_def)
  qed
  then show ?thesis using c s by blast
qed

theorem noise_handshake_authenticates_witness:
  "\<exists>p1 cw p2 sw stb1 p3 na nb sta2 stb2.
    noise_client_finish demo_noise demo_pb (demo_cx [1]) (\<lambda>_. 0) (\<lambda>_. True) 3 3 3 (demo_conn_of [1] 1) cw [Inr p2] empty_store = Some ([p3], Inr na, sta2) \<and>
    noise_server_start demo_noise demo_pb (demo_cx [2]) (\<lambda>_. 0) (\<lambda>_. True) (\<lambda>_ c. Some (Inr c)) 3 (replicate 32 4) 6 [] p1 (demo_conn_of [2] 2) empty_store =
      Some (Inr (p2, sw, demo_conn_of [2] 2), stb1) \<and>
    noise_server_finish demo_noise demo_pb (demo_cx [2]) (demo_conn_of [2] 2) sw [Inr p3] stb1 = Some (Inr nb, stb2) \<and>
    nr_peer_identity_type na = Admin \<and> nr_peer_identity_type nb = Admin \<and>
    ps_root_key (heap sta2 (nr_session na)) = ps_root_key (heap stb2 (nr_session nb))"
proof -
  have sn: "same_network (demo_cx [1]) (demo_cx [2])" by (simp add: same_network_def demo_cx_def cx_network_name_def)
  have none: "sessions empty_store key = None" for key by (simp add: empty_store_def)
  obtain p1 cw p2 sw stb1 p3 ra sta2 where
    r: "noise_client_start demo_noise demo_pb (demo_cx [1]) (\<lambda>_. 0) (\<lambda>_. True) 5 [] (demo_conn_of [1] 1) empty_store = Some (Inr (p1, cw), empty_store)"
    "noise_server_start demo_noise demo_pb (demo_cx [2]) (\<lambda>_. 0) (\<lambda>_. True) (\<lambda>_ c. Some (Inr c)) 3 (replicate 32 4) 6 [] p1 (demo_conn_of [2] 2) empty_store =
      Some (Inr (p2, sw, demo_conn_of [2] 2), stb1)"
    "noise_client_finish demo_noise demo_pb (demo_cx [1]) (\<lambda>_. 0) (\<lambda>_. True) 3 3 3 (demo_conn_of [1] 1) cw [Inr p2] empty_store = Some ([p3], ra, sta2)"
    using demo_conn_run by metis
  from noise_handshake_authenticates [OF demo_noise_ok demo_pb_ok sn _ demo_cx_simps(1) demo_cx_simps(1) r none none] r(2,3)
  show ?thesis by (auto; blast)
qed


theorem server_accepts_authenticated_witness:
  "\<exists>p1 p2 sw stb1 p3 nb stb2.
    noise_server_start demo_noise demo_pb (demo_cx [2]) (\<lambda>_. 0) (\<lambda>_. True) (\<lambda>_ c. Some (Inr c)) 3 (replicate 32 4) 6 [] p1 (demo_conn_of [2] 2) empty_store =
      Some (Inr (p2, sw, demo_conn_of [2] 2), stb1) \<and>
    noise_server_finish demo_noise demo_pb (demo_cx [2]) (demo_conn_of [2] 2) sw [Inr p3] stb1 = Some (Inr nb, stb2) \<and>
    nr_remote_network_name nb = ''net'' \<and> nr_secure_auth_level nb = NetworkSecretConfirmed \<and>
    peer_static_pubkey (heap stb2 (nr_session nb)) = Some (nr_remote_static_pubkey nb)"
proof -
  have sn: "same_network (demo_cx [1]) (demo_cx [2])" by (simp add: same_network_def demo_cx_def cx_network_name_def)
  have none: "sessions empty_store key = None" for key by (simp add: empty_store_def)
  obtain p1 cw p2 sw stb1 p3 ra sta2 where
    r: "noise_client_start demo_noise demo_pb (demo_cx [1]) (\<lambda>_. 0) (\<lambda>_. True) 5 [] (demo_conn_of [1] 1) empty_store = Some (Inr (p1, cw), empty_store)"
    "noise_server_start demo_noise demo_pb (demo_cx [2]) (\<lambda>_. 0) (\<lambda>_. True) (\<lambda>_ c. Some (Inr c)) 3 (replicate 32 4) 6 [] p1 (demo_conn_of [2] 2) empty_store =
      Some (Inr (p2, sw, demo_conn_of [2] 2), stb1)"
    "noise_client_finish demo_noise demo_pb (demo_cx [1]) (\<lambda>_. 0) (\<lambda>_. True) 3 3 3 (demo_conn_of [1] 1) cw [Inr p2] empty_store = Some ([p3], ra, sta2)"
    using demo_conn_run by metis
  obtain nb stb2 where f: "noise_server_finish demo_noise demo_pb (demo_cx [2]) (demo_conn_of [2] 2) sw [Inr p3] stb1 = Some (Inr nb, stb2)"
    "nr_secure_auth_level nb = NetworkSecretConfirmed" "nr_remote_static_pubkey nb = public_key demo_keys [1]"
    using honest_run [OF demo_noise_ok demo_pb_ok sn _ demo_cx_simps(1) demo_cx_simps(1) r none none] by auto
  obtain m hs where acc: "noise_server_accept demo_noise (demo_cx [2]) (demo_conn_of [2] 2) sw m hs stb1 = (Inr nb, stb2)"
    using f(1) by (auto simp: noise_server_finish_def split: sum.splits bind_splits)
  have "nr_remote_network_name nb = a_network_name (sw_msg1 sw)" using server_accept_cases [OF acc] by auto
  also have "a_network_name (sw_msg1 sw) = ''net''"
  proof -
    obtain a0 m c1 h1 where C: "write_message demo_noise a0 (enc_m1 demo_pb m) = Some (c1, cw_hs cw)" "build_initiator demo_noise XX prologue [1] None [] = Some a0"
      "payload p1 = Some c1" "peer_manager_header p1 = Some h1" "pm_packet_type h1 = PacketType_code PT_NoiseHandshakeMsg1" "a_network_name m = ''net''"
      using client_start_spec [OF r(1)] by auto
    obtain priv b0 m' b1 where S: "build_responder demo_noise XX prologue priv [] = Some b0" "sw_msg1 sw = m'"
      "conn_decode_handshake_message demo_noise (dec_m1 demo_pb) PT_NoiseHandshakeMsg1 b0 p1 = Some (Inr (m', b1))" using server_start_spec [OF r(2)] by blast
    have dec: "dec_m1 demo_pb (enc_m1 demo_pb m) = Some m" using demo_pb_ok by (auto simp: codec_ok_def)
    obtain b1' where "read_message demo_noise b0 c1 = Some (enc_m1 demo_pb m, b1')"
      using demo_noise_ok [unfolded noise_xx_ok_def, rule_format, OF conjI [OF C(2) S(1)] C(1)] by blast
    from decode_written [where dec = "dec_m1 demo_pb", OF C(3-5) this dec] show ?thesis using S(2,3) C(6) by simp
  qed
  finally have net: "nr_remote_network_name nb = cx_network_name (demo_cx [2])" by simp
  have "length (nr_remote_static_pubkey nb) = 32" using f(3) demo_keys_ok by (simp add: key_api_ok_def)
  then have pin: "peer_static_pubkey (heap stb2 (nr_session nb)) = Some (nr_remote_static_pubkey nb)"
    using server_accepts_authenticated [OF r(2) f(1) net] by blast
  have "nr_remote_network_name nb = ''net''" using net by simp
  with pin show ?thesis using r(2) f(1,2) by blast
qed

theorem wrong_proof_makes_admin_witness:
  "let w = \<lparr>sw_hs = ([2], [], None), sw_msg1 = \<lparr>m1_version = 1, a_network_name = ''net'', a_session_generation = None, a_conn_id = Some 5,
         client_encryption_algorithm = ''aes-gcm''\<rparr>, sw_remote_peer_id = 1, sw_role_hint = 1, sw_b_conn_id = 6, sw_session = 0,
         sw_handshake_hash_for_proof = [8], sw_local_static_pubkey = []\<rparr>;
       m = \<lparr>m3_a_conn_id_echo = Some 5, b_conn_id_echo = Some 6, m3_secret_proof_32 = None, m3_secret_digest = []\<rparr>
   in \<exists>n st'. noise_server_accept demo_noise (demo_cx [2]) (demo_conn_of [2] 2) w (m\<lparr>m3_secret_proof_32 := Some []\<rparr>) ([2], [], Some (replicate 32 9))
     empty_store = (Inr n, st') \<and> nr_peer_identity_type n = Admin"
proof -
  have t: "cx_pubkey_trusted (demo_cx [2]) (replicate 32 9) ''net''"
    by (simp add: cx_pubkey_trusted_def is_pubkey_trusted_def verify_trusted_key_def verify_trusted_key_with_source_def is_expired_def)
       (simp add: demo_cx_def verify_trusted_key_with_source_def is_expired_def)
  show ?thesis unfolding Let_def
    using wrong_proof_makes_admin [where cx = "demo_cx [2]" and nz = demo_noise and hs = "([2], [], Some (replicate 32 9))" and key = "replicate 32 9"
        and st = empty_store and junk = "[]" and c = "demo_conn_of [2] 2"
        and w = "\<lparr>sw_hs = ([2], [], None), sw_msg1 = \<lparr>m1_version = 1, a_network_name = ''net'', a_session_generation = None, a_conn_id = Some 5,
           client_encryption_algorithm = ''aes-gcm''\<rparr>, sw_remote_peer_id = 1, sw_role_hint = 1, sw_b_conn_id = 6, sw_session = 0,
           sw_handshake_hash_for_proof = [8], sw_local_static_pubkey = []\<rparr>"
        and m = "\<lparr>m3_a_conn_id_echo = Some 5, b_conn_id_echo = Some 6, m3_secret_proof_32 = None, m3_secret_digest = []\<rparr>"] t
    by (auto simp: empty_store_def ps_new_def demo_noise_def str_bytes_def)
qed

theorem root_key_disclosed_witness:
  "\<exists>st r p1 cw p2 sw st1 c2 a2 m2.
    noise_client_start demo_noise demo_pb (demo_cx [66]) (\<lambda>_. 0) (\<lambda>_. True) 5 [] (demo_conn_of [66] 1) empty_store = Some (Inr (p1, cw), empty_store) \<and>
    sessions st \<lparr>network_name = ''net'', sk_peer_id = 1\<rparr> = Some r \<and> ps_root_key (heap st r) = replicate 32 4 \<and>
    noise_server_start demo_noise demo_pb (demo_cx [2]) (\<lambda>_. 0) (\<lambda>_. True) (\<lambda>_ c. Some (Inr c)) 9 [] 6 [] p1 (demo_conn_of [2] 2) st =
      Some (Inr (p2, sw, demo_conn_of [2] 2), st1) \<and>
    payload p2 = Some c2 \<and> read_message demo_noise (cw_hs cw) c2 = Some (enc_m2 demo_pb m2, a2) \<and> m2_root_key_32 m2 = Some (replicate 32 4)"
proof -
  let ?key = "\<lparr>network_name = ''net'', sk_peer_id = 1\<rparr>"
  define st where "st = snd (upsert_responder_session 3 (replicate 32 4) ?key None ''aes-gcm'' ''aes-gcm'' None empty_store)"
  have st: "sessions st ?key = Some 0" "ps_is_valid (heap st 0)" "ps_root_key (heap st 0) = replicate 32 4"
    "send_cipher_algorithm (datagram (heap st 0)) = ''aes-gcm''" "recv_cipher_algorithm (datagram (heap st 0)) = ''aes-gcm''"
    by (simp_all add: st_def upsert_responder_session_def empty_store_def alloc_def insert_session_def ps_new_def session_new_def
        ps_is_valid_def is_valid_def ps_root_key_def)
  obtain p1 cw where c: "noise_client_start demo_noise demo_pb (demo_cx [66]) (\<lambda>_. 0) (\<lambda>_. True) 5 [] (demo_conn_of [66] 1) empty_store = Some (Inr (p1, cw), empty_store)"
    using demo_client_start by metis
  have dc: "c_my_peer_id (demo_conn_of [66] 1) = 1" "c_peer_id_hint (demo_conn_of [66] 1) = None" "c_my_encrypt_algo (demo_conn_of [66] 1) = ''aes-gcm''"
    by (simp_all add: demo_conn_of_def conn_new_def demo_cx_def)
  obtain a0 m c1 h1 where C: "build_initiator demo_noise XX prologue [66] None [] = Some a0" "write_message demo_noise a0 (enc_m1 demo_pb m) = Some (c1, cw_hs cw)"
    "payload p1 = Some c1" "peer_manager_header p1 = Some h1" "pm_packet_type h1 = PacketType_code PT_NoiseHandshakeMsg1" "from_peer_id h1 = 1"
    "a_network_name m = ''net''" "client_encryption_algorithm m = ''aes-gcm''" "a_session_generation m = None"
    using client_start_spec [OF c] dc by auto
  have b0: "build_responder demo_noise XX prologue [2] [] = Some ([2], prologue, None)" by (simp add: demo_noise_def)
  obtain b1 where b1: "read_message demo_noise ([2], prologue, None) c1 = Some (enc_m1 demo_pb m, b1)"
    using demo_noise_ok [unfolded noise_xx_ok_def, rule_format, OF conjI [OF C(1) b0] C(2)] by blast
  have alg: "cx_encryption_algorithm (demo_cx [2]) = ''aes-gcm''" by (simp add: demo_cx_def)
  obtain m2 r st1 where m2: "server_msg2 demo_noise (demo_cx [2]) 9 [] 6 (from_peer_id h1) m b1 st = (Inr (m2, r), st1)"
    using st C(6-9) alg by (simp add: server_msg2_def upsert_responder_session_def check_session_def ps_check_encrypt_algo_same_def
        check_encrypt_algo_same_def check_or_set_peer_static_pubkey_def Let_def)
  obtain p2 sw where s: "noise_server_start demo_noise demo_pb (demo_cx [2]) (\<lambda>_. 0) (\<lambda>_. True) (\<lambda>_ c. Some (Inr c)) 9 [] 6 [] p1 (demo_conn_of [2] 2) st =
      Some (Inr (p2, sw, demo_conn_of [2] 2), st1)" using demo_server_start [OF C(3-5) b1 m2] by metis
  have k: "sessions st \<lparr>network_name = a_network_name m, sk_peer_id = from_peer_id h1\<rparr> = Some 0" using st(1) C(6,7) by simp
  from root_key_disclosed [OF demo_noise_ok demo_pb_ok C(1-5) k st(2) s] obtain c2 a2 m2 where
    d: "payload p2 = Some c2" "read_message demo_noise (cw_hs cw) c2 = Some (enc_m2 demo_pb m2, a2)" "m2_root_key_32 m2 = Some (replicate 32 4)"
    using st(3) C(9) by auto
  show ?thesis
    by (intro exI conjI) (rule c, rule st(1), rule st(3), rule s, rule d(1), rule d(2), rule d(3))
qed

theorem session_filter_delivers_witness:
  "let st = empty_store\<lparr>heap := (\<lambda>_. \<lparr>ps_peer_id = 2, peer_static_pubkey = None, datagram = demo_session, ps_invalidated = False\<rparr>)\<rparr>;
       fa = \<lparr>sf_enabled = True, sf_my_peer_id = 1, sf_peer_id = Some 2, sf_session = Some 0\<rparr>;
       fb = \<lparr>sf_enabled = True, sf_my_peer_id = 2, sf_peer_id = Some 1, sf_session = Some 0\<rparr>
   in \<exists>q sta' stb'. before_send demo_hmac demo_api (replicate 12 0) 1 fa demo_packet st = Some (Some q, sta') \<and>
     peer_manager_header q = Some (set_encrypted True demo_header) \<and> after_received demo_hmac demo_api 2 fb (Inr q) st = Some (Some (Inr demo_packet), stb')"
proof -
  let ?s = "\<lparr>ps_peer_id = 2, peer_static_pubkey = None, datagram = demo_session, ps_invalidated = False\<rparr>"
  define st where "st = empty_store\<lparr>heap := (\<lambda>_. ?s)\<rparr>"
  define fa where "fa = \<lparr>sf_enabled = True, sf_my_peer_id = 1 :: PeerId, sf_peer_id = Some (2 :: PeerId), sf_session = Some (0 :: ref)\<rparr>"
  define fb where "fb = \<lparr>sf_enabled = True, sf_my_peer_id = 2 :: PeerId, sf_peer_id = Some (1 :: PeerId), sf_session = Some (0 :: ref)\<rparr>"
  have h: "heap st 0 = ?s" by (simp add: st_def)
  have v: "ps_is_valid ?s" by (simp add: ps_is_valid_def demo_facts)
  have seal: "length n = 12 \<Longrightarrow> aead_seal demo_api alg key n m \<noteq> None" for alg key n m by (simp add: demo_api_def)
  obtain q s' where q: "encrypt_payload demo_hmac demo_api (replicate 12 0) 1 AToB demo_packet demo_session = Some (Inr q, s')"
    using encrypt_payload_total [OF demo_facts(1) demo_api_ok _ demo_facts(2,3) seal demo_header_facts(1)] by fastforce
  have dir: "dir_for_sender 1 2 = AToB" by (simp add: dir_for_sender_def)
  have sk: "\<not> should_skip_encrypt demo_header" by (simp add: should_skip_encrypt_def demo_header_def)
  have ids: "from_peer_id demo_header = 1" "to_peer_id demo_header = 2" by (simp_all add: demo_header_def)
  have bs: "before_send demo_hmac demo_api (replicate 12 0) 1 fa demo_packet st = Some (Some q, heap_put 0 (?s\<lparr>datagram := s'\<rparr>) st)"
    using q sk v by (simp add: before_send_def fa_def demo_header_facts(1) ids ps_encrypt_payload_def h dir)
  have "EncryptionAlgorithm_try_from (send_cipher_algorithm demo_session) \<noteq> Some EA_Xor" by (simp add: demo_facts(4))
  then have "peer_manager_header q = Some (set_encrypted True demo_header) \<and>
      (\<exists>stb'. after_received demo_hmac demo_api 2 fb (Inr q) st = Some (Some (Inr demo_packet), stb') \<and> ps_is_valid (heap stb' 0))"
    using session_filter_delivers [OF demo_facts(1) demo_api_ok _ fa_def fb_def h [symmetric] h [symmetric] v _ _ refl _ _ demo_header_facts ids _ sk _ _ bs,
        where ?now' = 2] demo_facts by (simp add: dir)
  then show ?thesis using bs unfolding Let_def fa_def fb_def st_def by blast
qed


end
