(* ===== verification/Relay_Peer_Map.thy ===== *)
theory Relay_Peer_Map
  imports Peer_Auth "HOL-Library.Sublist"
begin

text \<open>
  \<open>peers/relay_peer_map.rs\<close>: packets to peers that are not neighbours. In secure mode two such nodes share a session,
  which they agree on with a Noise handshake carried in packets of the mesh; packets wait while it runs. The handshake task
  is cut where it waits for the answer: what else happens to the node in the meantime, and the answer, come from a
  parameter. Locks are numbered in the order of their creation. Metrics are left out.
\<close>

section \<open>State\<close>

definition HANDSHAKE_RETRY_BASE_MS :: u64 where "HANDSHAKE_RETRY_BASE_MS = 200"
definition HANDSHAKE_MAX_ATTEMPTS :: nat where "HANDSHAKE_MAX_ATTEMPTS = 3"
definition MAX_PENDING_PACKETS_PER_PEER :: nat where "MAX_PENDING_PACKETS_PER_PEER = 32"
definition RELAY_NOISE_VERSION :: u32 where "RELAY_NOISE_VERSION = 1"
definition RELAY_NOISE_PROLOGUE :: bytes where "RELAY_NOISE_PROLOGUE = str_bytes ''easytier-relay-noise''"
definition IK :: string where "IK = ''Noise_IK_25519_ChaChaPoly_SHA256''"

text \<open>Instants are in milliseconds.\<close>

record RelayPeerState =
  last_active_at :: nat
  failure_count :: u32
  next_retry_at :: "nat option"

definition relay_state_default :: "nat \<Rightarrow> RelayPeerState" where
  "relay_state_default now = \<lparr>last_active_at = now, failure_count = 0, next_retry_at = None\<rparr>"

record RelayPeerMap =
  rp_my_peer_id :: PeerId
  rp_network_name :: string
  rp_keypair :: "(bytes \<times> bytes) option"
  rp_encryption_algorithm :: string
  rp_secure_mode_enabled :: bool
  rp_peers :: PeerMap
  rp_foreign_client :: "PeerMap option"
  rp_store :: store
  rp_states :: "PeerId \<rightharpoonup> RelayPeerState"
  pending_handshakes :: "PeerId set"
  handshake_locks :: "PeerId \<rightharpoonup> nat"
  locks_held :: "nat set"
  locks_created :: nat
  pending_packets :: "PeerId \<rightharpoonup> (zc_packet \<times> NextHopPolicy) list"

definition relay_key :: "RelayPeerMap \<Rightarrow> PeerId \<Rightarrow> SessionKey" where
  "relay_key n dst = \<lparr>network_name = rp_network_name n, sk_peer_id = dst\<rparr>"

definition get_remote_static_pubkey :: "RelayPeerMap \<Rightarrow> PeerId \<Rightarrow> bytes option" where
  "get_remote_static_pubkey n p = (case get_route_peer_info (rp_peers n) p of
     None \<Rightarrow> None
   | Some info \<Rightarrow> if noise_static_pubkey info = [] then None else Some (noise_static_pubkey info))"

text \<open>\<open>states.entry(..).or_default()\<close> with an update.\<close>

definition with_state :: "nat \<Rightarrow> PeerId \<Rightarrow> (RelayPeerState \<Rightarrow> RelayPeerState) \<Rightarrow> RelayPeerMap \<Rightarrow> RelayPeerMap" where
  "with_state now p f n = n\<lparr>rp_states := (rp_states n)(p \<mapsto>
     f (case rp_states n p of Some s \<Rightarrow> s | None \<Rightarrow> relay_state_default now))\<rparr>"

section \<open>Sending\<close>

definition send_via_next_hop :: "sink \<Rightarrow> zc_packet \<Rightarrow> PeerId \<Rightarrow> NextHopPolicy \<Rightarrow> RelayPeerMap \<Rightarrow> (pm_error + delivery) \<times> RelayPeerMap" where
  "send_via_next_hop sink msg dst policy n = (case get_gateway_peer_id (rp_peers n) dst policy of
     None \<Rightarrow> (Inl RouteError, n)
   | Some next_hop \<Rightarrow>
       if has_peer (rp_peers n) next_hop
       then let (r, m) = send_msg_directly sink msg next_hop (rp_peers n) in (r, n\<lparr>rp_peers := m\<rparr>)
       else case rp_foreign_client n of
         Some client \<Rightarrow> let (r, m) = client_send_msg sink msg next_hop client in (r, n\<lparr>rp_foreign_client := Some m\<rparr>)
       | None \<Rightarrow> (Inl RouteError, n))"

definition get_handshake_lock :: "PeerId \<Rightarrow> RelayPeerMap \<Rightarrow> nat \<times> RelayPeerMap" where
  "get_handshake_lock p n = (case handshake_locks n p of
     Some l \<Rightarrow> (l, n)
   | None \<Rightarrow> (locks_created n, n\<lparr>handshake_locks := (handshake_locks n)(p \<mapsto> locks_created n), locks_created := Suc (locks_created n)\<rparr>))"

text \<open>\<open>ensure_session\<close>: the session, or the guard of the handshake task that was started, if its lock was free.\<close>

definition ensure_session :: "PeerId \<Rightarrow> RelayPeerMap \<Rightarrow> (nat option + ref) \<times> RelayPeerMap" where
  "ensure_session dst n = (case store_get (relay_key n dst) (rp_store n) of
     (Some r, st) \<Rightarrow> (Inr r, n\<lparr>rp_store := st\<rparr>)
   | (None, st) \<Rightarrow>
       let (l, n) = get_handshake_lock dst (n\<lparr>rp_store := st\<rparr>)
       in if l \<in> locks_held n then (Inl None, n)
          else (Inl (Some l), n\<lparr>locks_held := insert l (locks_held n)\<rparr>))"

definition buffer_pending_packet :: "PeerId \<Rightarrow> zc_packet \<Rightarrow> NextHopPolicy \<Rightarrow> RelayPeerMap \<Rightarrow> RelayPeerMap" where
  "buffer_pending_packet dst packet policy n =
     (let entry = (case pending_packets n dst of Some l \<Rightarrow> l | None \<Rightarrow> []);
          entry = (if length entry < MAX_PENDING_PACKETS_PER_PEER then entry @ [(packet, policy)] else entry)
      in n\<lparr>pending_packets := (pending_packets n)(dst \<mapsto> entry)\<rparr>)"

text \<open>The parameters of the session ciphers: HMAC, AEAD, randomness and clock.\<close>

record crypto =
  cr_hmac :: "bytes \<Rightarrow> bytes \<Rightarrow> bytes"
  cr_api :: aead_api
  cr_rnd :: bytes
  cr_now :: u64

definition session_encrypt :: "crypto \<Rightarrow> PeerId \<Rightarrow> ref \<Rightarrow> zc_packet \<Rightarrow> RelayPeerMap \<Rightarrow> ((ps_error + zc_packet) \<times> RelayPeerMap) may_panic" where
  "session_encrypt cr dst r msg n = do {
     (res, s) \<leftarrow> ps_encrypt_payload (cr_hmac cr) (cr_api cr) (cr_rnd cr) (cr_now cr) (rp_my_peer_id n) dst msg (heap (rp_store n) r);
     Some (res, n\<lparr>rp_store := heap_put r s (rp_store n)\<rparr>) }"

text \<open>A packet is on its way, or it waits for a handshake, with the guard if the task of the handshake was started now.\<close>

datatype relay_outcome = Sent delivery | Buffered "nat option"

definition relay_send_msg ::
  "crypto \<Rightarrow> sink \<Rightarrow> nat \<Rightarrow> zc_packet \<Rightarrow> PeerId \<Rightarrow> NextHopPolicy \<Rightarrow> RelayPeerMap \<Rightarrow> ((pm_error + relay_outcome) \<times> RelayPeerMap) may_panic" where
  "relay_send_msg cr sink now msg dst policy n =
     (let n = with_state now dst (\<lambda>s. s\<lparr>last_active_at := now\<rparr>) n
      in if rp_secure_mode_enabled n
         then (case ensure_session dst n of
             (Inr r, n) \<Rightarrow> do {
               (res, n) \<leftarrow> session_encrypt cr dst r msg n;
               Some (case res of
                   Inl _ \<Rightarrow> (Inl RouteError, n)
                 | Inr msg \<Rightarrow> let (r, n) = send_via_next_hop sink msg dst policy n in (map_sum id Sent r, n)) }
           | (Inl started, n) \<Rightarrow> Some (Inr (Buffered started), buffer_pending_packet dst msg policy n))
         else let (r, n) = send_via_next_hop sink msg dst policy n in Some (map_sum id Sent r, n))"

text \<open>The packets that waited, one after the other; errors are ignored.\<close>

fun flush_loop :: "crypto \<Rightarrow> sink \<Rightarrow> PeerId \<Rightarrow> ref \<Rightarrow> (zc_packet \<times> NextHopPolicy) list \<Rightarrow> RelayPeerMap \<Rightarrow> (delivery list \<times> RelayPeerMap) may_panic" where
  "flush_loop cr sink dst r [] n = Some ([], n)"
| "flush_loop cr sink dst r ((packet, policy) # ps) n = do {
     (res, n) \<leftarrow> session_encrypt cr dst r packet n;
     case res of
       Inl _ \<Rightarrow> flush_loop cr sink dst r ps n
     | Inr q \<Rightarrow> do {
         let (out, n) = send_via_next_hop sink q dst policy n;
         (ds, n) \<leftarrow> flush_loop cr sink dst r ps n;
         Some (case out of Inl _ \<Rightarrow> ds | Inr d \<Rightarrow> d # ds, n) } }"

definition flush_pending_packets :: "crypto \<Rightarrow> sink \<Rightarrow> PeerId \<Rightarrow> ref \<Rightarrow> RelayPeerMap \<Rightarrow> (delivery list \<times> RelayPeerMap) may_panic" where
  "flush_pending_packets cr sink dst r n = (case pending_packets n dst of
     None \<Rightarrow> Some ([], n)
   | Some packets \<Rightarrow> flush_loop cr sink dst r packets (n\<lparr>pending_packets := (pending_packets n)(dst := None)\<rparr>))"

definition has_session :: "PeerId \<Rightarrow> RelayPeerMap \<Rightarrow> bool \<times> RelayPeerMap" where
  "has_session dst n = (let (r, st) = store_get (relay_key n dst) (rp_store n) in (r \<noteq> None, n\<lparr>rp_store := st\<rparr>))"

section \<open>The relay handshake\<close>

record RelayMsg1 =
  r1_version :: u32
  r1_session_generation :: "u32 option"
  r1_conn_id :: "128 word option"
  r1_client_encryption_algorithm :: string

record RelayMsg2 =
  r2_action :: u32
  r2_session_generation :: u32
  r2_root_key_32 :: "bytes option"
  r2_initial_epoch :: u32
  r2_b_conn_id :: "128 word option"
  r2_a_conn_id_echo :: "128 word option"
  r2_server_encryption_algorithm :: string

record relay_codec =
  enc_r1 :: "RelayMsg1 \<Rightarrow> bytes"
  dec_r1 :: "bytes \<Rightarrow> RelayMsg1 option"
  enc_r2 :: "RelayMsg2 \<Rightarrow> bytes"
  dec_r2 :: "bytes \<Rightarrow> RelayMsg2 option"

definition send_handshake_packet ::
  "(nat \<Rightarrow> u8) \<Rightarrow> sink \<Rightarrow> bytes \<Rightarrow> PacketType \<Rightarrow> PeerId \<Rightarrow> NextHopPolicy \<Rightarrow> RelayPeerMap \<Rightarrow> ((pm_error + delivery) \<times> RelayPeerMap) may_panic" where
  "send_handshake_packet u sink body t dst policy n = do {
     packet \<leftarrow> new_with_payload u body;
     packet \<leftarrow> fill_peer_manager_hdr (rp_my_peer_id n) dst (PacketType_code t) packet;
     Some (send_via_next_hop sink packet dst policy n) }"

definition relay_decode_message ::
  "('hs, 'z) noise_api_scheme \<Rightarrow> (bytes \<Rightarrow> 'm option) \<Rightarrow> PacketType \<Rightarrow> 'hs \<Rightarrow> zc_packet \<Rightarrow> ('m \<times> 'hs) option may_panic" where
  "relay_decode_message nz dec t hs packet = (case peer_manager_header packet of
     None \<Rightarrow> Some None
   | Some hdr \<Rightarrow>
       if pm_packet_type hdr \<noteq> PacketType_code t then Some None
       else do {
         pl \<leftarrow> payload packet;
         Some (case read_message nz hs pl of
             None \<Rightarrow> None
           | Some (out, hs) \<Rightarrow> map_option (\<lambda>m. (m, hs)) (dec out)) })"

record 'hs relay_wait =
  rw_hs :: 'hs
  rw_conn_id :: "128 word"
  rw_remote_static :: bytes

text \<open>\<open>handshake_session_once\<close> up to the wait for the answer.\<close>

definition relay_handshake_start ::
  "('hs, 'z) noise_api_scheme \<Rightarrow> relay_codec \<Rightarrow> (nat \<Rightarrow> u8) \<Rightarrow> sink \<Rightarrow> 128 word \<Rightarrow> bytes \<Rightarrow> PeerId \<Rightarrow> NextHopPolicy \<Rightarrow> RelayPeerMap
    \<Rightarrow> ((pm_error + (delivery \<times> 'hs relay_wait)) \<times> RelayPeerMap) may_panic" where
  "relay_handshake_start nz pb u sink uuid eph dst policy n =
     (case (rp_keypair n, get_remote_static_pubkey n dst) of
        (Some (priv, _), Some remote_static) \<Rightarrow>
          (case build_initiator nz IK RELAY_NOISE_PROLOGUE priv (Some remote_static) eph of
             None \<Rightarrow> Some (Inl RouteError, n)
           | Some hs \<Rightarrow>
               let (r, st) = store_get (relay_key n dst) (rp_store n);
                   n = n\<lparr>rp_store := st\<rparr>;
                   msg1 = \<lparr>r1_version = RELAY_NOISE_VERSION,
                     r1_session_generation = map_option (\<lambda>r. ps_session_generation (heap st r)) r,
                     r1_conn_id = Some uuid, r1_client_encryption_algorithm = rp_encryption_algorithm n\<rparr>
               in (case write_message nz hs (enc_r1 pb msg1) of
                     None \<Rightarrow> Some (Inl RouteError, n)
                   | Some (out, hs) \<Rightarrow> do {
                       let n = n\<lparr>pending_handshakes := insert dst (pending_handshakes n)\<rparr>;
                       (sent, n) \<leftarrow> send_handshake_packet u sink out PT_RelayHandshake dst policy n;
                       Some (case sent of
                           Inl e \<Rightarrow> (Inl e, n\<lparr>pending_handshakes := pending_handshakes n - {dst}\<rparr>)
                         | Inr d \<Rightarrow> (Inr (d, \<lparr>rw_hs = hs, rw_conn_id = uuid, rw_remote_static = remote_static\<rparr>), n)) }))
      | _ \<Rightarrow> Some (Inl RouteError, n))"

text \<open>How the wait ends: with the packet of \<open>handle_handshake_packet\<close>, which has removed the sender, or without.\<close>

datatype relay_reply = Reply zc_packet | NoReply

definition relay_handshake_finish ::
  "('hs, 'z) noise_api_scheme \<Rightarrow> relay_codec \<Rightarrow> u64 \<Rightarrow> u64 \<Rightarrow> u64 \<Rightarrow> PeerId \<Rightarrow> 'hs relay_wait \<Rightarrow> relay_reply \<Rightarrow> RelayPeerMap
    \<Rightarrow> ((pm_error + ref) \<times> RelayPeerMap) may_panic" where
  "relay_handshake_finish nz pb t0 now now' dst w reply n = (case reply of
     NoReply \<Rightarrow> Some (Inl RouteError, n\<lparr>pending_handshakes := pending_handshakes n - {dst}\<rparr>)
   | Reply packet \<Rightarrow> do {
       dec \<leftarrow> relay_decode_message nz (dec_r2 pb) PT_RelayHandshakeAck (rw_hs w) packet;
       Some (case dec of
           None \<Rightarrow> (Inl RouteError, n)
         | Some (m, _) \<Rightarrow>
             if r2_a_conn_id_echo m \<noteq> Some (rw_conn_id w) then (Inl RouteError, n)
             else case action_try_from (r2_action m) of
               None \<Rightarrow> (Inl RouteError, n)
             | Some action \<Rightarrow>
                 (case apply_initiator_action t0 now now' (relay_key n dst) action (r2_session_generation m)
                     (Option.bind (r2_root_key_32 m) key_32) (r2_initial_epoch m) (rp_encryption_algorithm n)
                     (r2_server_encryption_algorithm m) (key_32 (rw_remote_static w)) (rp_store n) of
                    (Inl _, st) \<Rightarrow> (Inl RouteError, n\<lparr>rp_store := st\<rparr>)
                  | (Inr r, st) \<Rightarrow> (Inr r, n\<lparr>rp_store := st\<rparr>))) })"

definition register_handshake_success :: "nat \<Rightarrow> PeerId \<Rightarrow> RelayPeerMap \<Rightarrow> RelayPeerMap" where
  "register_handshake_success now dst n = with_state now dst (\<lambda>s. s\<lparr>failure_count := 0, next_retry_at := None\<rparr>) n"

text \<open>\<open>HANDSHAKE_RETRY_BASE_MS.saturating_mul(1 << attempt)\<close>; the shift is by less than three.\<close>

definition relay_backoff :: "nat \<Rightarrow> nat" where
  "relay_backoff attempt = unat HANDSHAKE_RETRY_BASE_MS * 2 ^ attempt"

definition register_handshake_failure :: "nat \<Rightarrow> PeerId \<Rightarrow> nat \<Rightarrow> RelayPeerMap \<Rightarrow> RelayPeerMap" where
  "register_handshake_failure now dst attempt n = with_state now dst
     (\<lambda>s. s\<lparr>failure_count := (if failure_count s = - 1 then failure_count s else failure_count s + 1),
            next_retry_at := Some (now + relay_backoff attempt)\<rparr>) n"

text \<open>
  The attempts. \<open>env\<close> is what happens during the wait of an attempt: the end of the wait and the state of the node
  then; its sleeps between attempts are part of it. \<open>clock\<close> gives the time of each attempt.
\<close>

fun handshake_attempts ::
  "('hs, 'z) noise_api_scheme \<Rightarrow> relay_codec \<Rightarrow> crypto \<Rightarrow> (nat \<Rightarrow> u8) \<Rightarrow> sink \<Rightarrow> (nat \<Rightarrow> 128 word) \<Rightarrow> (nat \<Rightarrow> bytes) \<Rightarrow> (nat \<Rightarrow> nat)
    \<Rightarrow> (nat \<Rightarrow> RelayPeerMap \<Rightarrow> relay_reply \<times> RelayPeerMap) \<Rightarrow> PeerId \<Rightarrow> NextHopPolicy \<Rightarrow> nat list \<Rightarrow> RelayPeerMap
    \<Rightarrow> (bool \<times> delivery list \<times> RelayPeerMap) may_panic" where
  "handshake_attempts nz pb cr u sink uuid eph clock env dst policy [] n =
     Some (False, [], n\<lparr>pending_packets := (pending_packets n)(dst := None)\<rparr>)"
| "handshake_attempts nz pb cr u sink uuid eph clock env dst policy (a # as) n = do {
     (sent, n) \<leftarrow> relay_handshake_start nz pb u sink (uuid a) (eph a) dst policy n;
     (res, ds, n) \<leftarrow> (case sent of
         Inl e \<Rightarrow> Some (Inl e, [], n)
       | Inr (d, w) \<Rightarrow> do {
           let (reply, n) = env a n;
           (res, n) \<leftarrow> relay_handshake_finish nz pb (cr_now cr) (cr_now cr) (cr_now cr) dst w reply n;
           Some (res, [d], n) });
     case res of
       Inr r \<Rightarrow> do {
         (flushed, n) \<leftarrow> flush_pending_packets cr sink dst r (register_handshake_success (clock a) dst n);
         Some (True, ds @ flushed, n) }
     | Inl _ \<Rightarrow> do {
         (ok, ds', n) \<leftarrow> handshake_attempts nz pb cr u sink uuid eph clock env dst policy as
           (register_handshake_failure (clock a) dst a n);
         Some (ok, ds @ ds', n) } }"

text \<open>\<open>handshake_session\<close>; at its end the guard is dropped.\<close>

definition handshake_session ::
  "('hs, 'z) noise_api_scheme \<Rightarrow> relay_codec \<Rightarrow> crypto \<Rightarrow> (nat \<Rightarrow> u8) \<Rightarrow> sink \<Rightarrow> (nat \<Rightarrow> 128 word) \<Rightarrow> (nat \<Rightarrow> bytes) \<Rightarrow> (nat \<Rightarrow> nat)
    \<Rightarrow> (nat \<Rightarrow> RelayPeerMap \<Rightarrow> relay_reply \<times> RelayPeerMap) \<Rightarrow> nat \<Rightarrow> PeerId \<Rightarrow> NextHopPolicy \<Rightarrow> nat option \<Rightarrow> RelayPeerMap
    \<Rightarrow> (bool \<times> delivery list \<times> RelayPeerMap) may_panic" where
  "handshake_session nz pb cr u sink uuid eph clock env now dst policy guard n =
     map_option (\<lambda>(ok, ds, n). (ok, ds, n\<lparr>locks_held := locks_held n - set_option guard\<rparr>))
     (case store_get (relay_key n dst) (rp_store n) of
        (Some r, st) \<Rightarrow> map_option (\<lambda>(ds, n). (True, ds, n)) (flush_pending_packets cr sink dst r (n\<lparr>rp_store := st\<rparr>))
      | (None, st) \<Rightarrow>
          let n = n\<lparr>rp_store := st\<rparr>
          in if (case Option.bind (rp_states n dst) next_retry_at of Some t \<Rightarrow> now < t | None \<Rightarrow> False)
             then Some (False, [], n\<lparr>pending_packets := (pending_packets n)(dst := None)\<rparr>)
             else handshake_attempts nz pb cr u sink uuid eph clock env dst policy [0..<HANDSHAKE_MAX_ATTEMPTS] n)"

section \<open>The answering side\<close>

definition relay_msg2 :: "128 word \<Rightarrow> RelayMsg1 \<Rightarrow> upsert_return \<Rightarrow> string \<Rightarrow> RelayMsg2" where
  "relay_msg2 uuid m ret algo = \<lparr>r2_action = action_code (ur_action ret), r2_session_generation = ur_generation ret,
     r2_root_key_32 = ur_root_key ret, r2_initial_epoch = ur_initial_epoch ret, r2_b_conn_id = Some uuid,
     r2_a_conn_id_echo = r1_conn_id m, r2_server_encryption_algorithm = algo\<rparr>"

text \<open>\<open>handle_relay_msg1\<close> after the race was decided.\<close>

definition answer_relay_msg1 ::
  "('hs, 'z) noise_api_scheme \<Rightarrow> relay_codec \<Rightarrow> crypto \<Rightarrow> (nat \<Rightarrow> u8) \<Rightarrow> sink \<Rightarrow> nat \<Rightarrow> bytes \<Rightarrow> 128 word \<Rightarrow> bytes \<Rightarrow> zc_packet \<Rightarrow> PeerId
    \<Rightarrow> RelayPeerMap \<Rightarrow> ((pm_error + delivery list) \<times> RelayPeerMap) may_panic" where
  "answer_relay_msg1 nz pb cr u sink now fresh_key uuid eph msg1 remote n =
     (case rp_keypair n of
        None \<Rightarrow> Some (Inl RouteError, n)
      | Some (priv, _) \<Rightarrow>
          (case build_responder nz IK RELAY_NOISE_PROLOGUE priv eph of
             None \<Rightarrow> Some (Inl RouteError, n)
           | Some hs \<Rightarrow> do {
               dec \<leftarrow> relay_decode_message nz (dec_r1 pb) PT_RelayHandshake hs msg1;
               case dec of
                 None \<Rightarrow> Some (Inl RouteError, n)
               | Some (m, hs) \<Rightarrow>
                   let remote_static = (case get_remote_static nz hs of Some k \<Rightarrow> k | None \<Rightarrow> [])
                   in if get_remote_static_pubkey n remote \<noteq> Some remote_static then Some (Inl RouteError, n)
                      else case upsert_responder_session (cr_now cr) fresh_key (relay_key n remote) (r1_session_generation m)
                          (rp_encryption_algorithm n) (r1_client_encryption_algorithm m) (key_32 remote_static) (rp_store n) of
                        (Inl _, st) \<Rightarrow> Some (Inl RouteError, n\<lparr>rp_store := st\<rparr>)
                      | (Inr ret, st) \<Rightarrow>
                          let n = n\<lparr>rp_store := st\<rparr>
                          in (case write_message nz hs (enc_r2 pb (relay_msg2 uuid m ret (rp_encryption_algorithm n))) of
                                None \<Rightarrow> Some (Inl RouteError, n)
                              | Some (out, _) \<Rightarrow> do {
                                  (sent, n) \<leftarrow> send_handshake_packet u sink out PT_RelayHandshakeAck remote LeastHop
                                    (register_handshake_success now remote n);
                                  case sent of
                                    Inl e \<Rightarrow> Some (Inl e, n)
                                  | Inr d \<Rightarrow> do {
                                      (ds, n) \<leftarrow> flush_pending_packets cr sink remote (ur_session ret) n;
                                      Some (Inr (d # ds), n) } }) }))"

text \<open>Of two handshakes at the same time the one of the smaller identifier goes on.\<close>

definition handle_relay_msg1 ::
  "('hs, 'z) noise_api_scheme \<Rightarrow> relay_codec \<Rightarrow> crypto \<Rightarrow> (nat \<Rightarrow> u8) \<Rightarrow> sink \<Rightarrow> nat \<Rightarrow> bytes \<Rightarrow> 128 word \<Rightarrow> bytes \<Rightarrow> zc_packet \<Rightarrow> PeerId
    \<Rightarrow> RelayPeerMap \<Rightarrow> ((pm_error + delivery list) \<times> RelayPeerMap) may_panic" where
  "handle_relay_msg1 nz pb cr u sink now fresh_key uuid eph msg1 remote n =
     (if remote \<in> pending_handshakes n \<and> \<not> remote < rp_my_peer_id n then Some (Inl RouteError, n)
      else answer_relay_msg1 nz pb cr u sink now fresh_key uuid eph msg1 remote
        (n\<lparr>pending_handshakes := pending_handshakes n - {remote}\<rparr>))"

text \<open>A second message goes to the task that waits for it, if there is one.\<close>

datatype handled = Answered "pm_error + delivery list" | HandedOver zc_packet | NotExpected

definition handle_handshake_packet ::
  "('hs, 'z) noise_api_scheme \<Rightarrow> relay_codec \<Rightarrow> crypto \<Rightarrow> (nat \<Rightarrow> u8) \<Rightarrow> sink \<Rightarrow> nat \<Rightarrow> bytes \<Rightarrow> 128 word \<Rightarrow> bytes \<Rightarrow> zc_packet
    \<Rightarrow> RelayPeerMap \<Rightarrow> ((pm_error + handled) \<times> RelayPeerMap) may_panic" where
  "handle_handshake_packet nz pb cr u sink now fresh_key uuid eph packet n = (case peer_manager_header packet of
     None \<Rightarrow> Some (Inl RouteError, n)
   | Some hdr \<Rightarrow>
       if pm_packet_type hdr = PacketType_code PT_RelayHandshake
       then map_option (\<lambda>(r, n). (Inr (Answered r), n))
         (handle_relay_msg1 nz pb cr u sink now fresh_key uuid eph packet (from_peer_id hdr) n)
       else if pm_packet_type hdr = PacketType_code PT_RelayHandshakeAck
       then Some (if from_peer_id hdr \<in> pending_handshakes n
         then (Inr (HandedOver packet), n\<lparr>pending_handshakes := pending_handshakes n - {from_peer_id hdr}\<rparr>)
         else (Inr NotExpected, n))
       else Some (Inr NotExpected, n))"

section \<open>Receiving and forgetting\<close>

definition decrypt_if_needed :: "crypto \<Rightarrow> nat \<Rightarrow> zc_packet \<Rightarrow> RelayPeerMap \<Rightarrow> ((pm_error + (bool \<times> zc_packet)) \<times> RelayPeerMap) may_panic" where
  "decrypt_if_needed cr now packet n =
     (if \<not> rp_secure_mode_enabled n then Some (Inr (False, packet), n)
      else case peer_manager_header packet of
        None \<Rightarrow> Some (Inl RouteError, n)
      | Some hdr \<Rightarrow>
          (case store_get (relay_key n (from_peer_id hdr)) (rp_store n) of
             (None, st) \<Rightarrow>
               (case ensure_session (from_peer_id hdr) (n\<lparr>rp_store := st\<rparr>) of
                  (Inl _, n) \<Rightarrow> Some (Inl RouteError, n)
                | (Inr _, n) \<Rightarrow> Some (Inr (False, packet), n))
           | (Some r, st) \<Rightarrow> do {
               let n = with_state now (from_peer_id hdr) (\<lambda>s. s\<lparr>last_active_at := now\<rparr>) (n\<lparr>rp_store := st\<rparr>);
               (res, s) \<leftarrow> ps_decrypt_payload (cr_hmac cr) (cr_api cr) (cr_now cr) (from_peer_id hdr) (rp_my_peer_id n) packet (heap st r);
               let n = n\<lparr>rp_store := heap_put r s (rp_store n)\<rparr>;
               Some (case res of Inl e \<Rightarrow> Inl (CryptError e) | Inr q \<Rightarrow> Inr (True, q), n) }))"

definition relay_remove_peer :: "PeerId \<Rightarrow> RelayPeerMap \<Rightarrow> RelayPeerMap" where
  "relay_remove_peer p n = n\<lparr>rp_states := (rp_states n)(p := None), pending_handshakes := pending_handshakes n - {p},
     handshake_locks := (handshake_locks n)(p := None), pending_packets := (pending_packets n)(p := None)\<rparr>"

definition evict_idle_sessions :: "nat \<Rightarrow> nat \<Rightarrow> RelayPeerMap \<Rightarrow> RelayPeerMap" where
  "evict_idle_sessions now idle n =
     (let gone = {p. case rp_states n p of Some s \<Rightarrow> now - last_active_at s > idle | None \<Rightarrow> False}
      in n\<lparr>rp_states := rp_states n |` (- gone), pending_handshakes := pending_handshakes n - gone,
           handshake_locks := handshake_locks n |` (- gone), pending_packets := pending_packets n |` (- gone)\<rparr>)"

definition relay_failure_count :: "PeerId \<Rightarrow> RelayPeerMap \<Rightarrow> u32 option" where
  "relay_failure_count p n = map_option failure_count (rp_states n p)"

definition is_backoff_active :: "nat \<Rightarrow> PeerId \<Rightarrow> RelayPeerMap \<Rightarrow> bool" where
  "is_backoff_active now p n = (case Option.bind (rp_states n p) next_retry_at of Some t \<Rightarrow> now < t | None \<Rightarrow> False)"


section \<open>Waiting for the session\<close>

primrec delivery_packet :: "delivery \<Rightarrow> zc_packet" where
  "delivery_packet (Loopback p) = p"
| "delivery_packet (OnConn _ _ p) = p"

text \<open>Packets sent one after the other, each at a time of its own.\<close>

fun relay_send_all ::
  "crypto \<Rightarrow> sink \<Rightarrow> PeerId \<Rightarrow> (nat \<times> zc_packet \<times> NextHopPolicy) list \<Rightarrow> RelayPeerMap \<Rightarrow> ((pm_error + relay_outcome) list \<times> RelayPeerMap) may_panic" where
  "relay_send_all cr sink dst [] n = Some ([], n)"
| "relay_send_all cr sink dst ((now, msg, policy) # ps) n = do {
     (res, n) \<leftarrow> relay_send_msg cr sink now msg dst policy n;
     (rs, n) \<leftarrow> relay_send_all cr sink dst ps n;
     Some (res # rs, n) }"

text \<open>The encryptions of a list of packets by a session, without the packets it failed for.\<close>

fun encrypt_all :: "crypto \<Rightarrow> PeerId \<Rightarrow> PeerId \<Rightarrow> zc_packet list \<Rightarrow> peer_session \<Rightarrow> zc_packet list may_panic" where
  "encrypt_all cr a b [] s = Some []"
| "encrypt_all cr a b (p # ps) s = do {
     (res, s) \<leftarrow> ps_encrypt_payload (cr_hmac cr) (cr_api cr) (cr_rnd cr) (cr_now cr) a b p s;
     qs \<leftarrow> encrypt_all cr a b ps s;
     Some (case res of Inl _ \<Rightarrow> qs | Inr q \<Rightarrow> q # qs) }"

definition pending_of :: "PeerId \<Rightarrow> RelayPeerMap \<Rightarrow> (zc_packet \<times> NextHopPolicy) list" where
  "pending_of dst n = (case pending_packets n dst of Some l \<Rightarrow> l | None \<Rightarrow> [])"

definition lock_free :: "PeerId \<Rightarrow> RelayPeerMap \<Rightarrow> bool" where
  "lock_free dst n \<longleftrightarrow> (case handshake_locks n dst of Some l \<Rightarrow> l \<notin> locks_held n | None \<Rightarrow> locks_created n \<notin> locks_held n)"

lemma store_get_None:
  assumes "fst (store_get k st) = None"
  shows "fst (store_get k (snd (store_get k st))) = None"
  using assms by (auto simp: store_get_def store_remove_def split: option.splits if_splits)

lemma with_state_simps [simp]:
  "rp_store (with_state now p f n) = rp_store n" "rp_secure_mode_enabled (with_state now p f n) = rp_secure_mode_enabled n"
  "handshake_locks (with_state now p f n) = handshake_locks n" "locks_held (with_state now p f n) = locks_held n"
  "locks_created (with_state now p f n) = locks_created n" "pending_packets (with_state now p f n) = pending_packets n"
  "rp_network_name (with_state now p f n) = rp_network_name n" "rp_my_peer_id (with_state now p f n) = rp_my_peer_id n"
  "rp_keypair (with_state now p f n) = rp_keypair n" "rp_peers (with_state now p f n) = rp_peers n"
  "pending_handshakes (with_state now p f n) = pending_handshakes n"
  "rp_encryption_algorithm (with_state now p f n) = rp_encryption_algorithm n"
  by (simp_all add: with_state_def)

text \<open>One packet while there is no session: it is appended if there is room, and the first one starts the handshake.\<close>

lemma relay_send_buffers:
  assumes "rp_secure_mode_enabled n" and "fst (store_get (relay_key n dst) (rp_store n)) = None"
  shows "\<exists>g n'. relay_send_msg cr sink now msg dst policy n = Some (Inr (Buffered g), n') \<and>
    rp_secure_mode_enabled n' \<and> fst (store_get (relay_key n' dst) (rp_store n')) = None \<and>
    (g \<noteq> None \<longleftrightarrow> lock_free dst n) \<and> \<not> lock_free dst n' \<and>
    pending_packets n' dst = Some (if length (pending_of dst n) < 32 then pending_of dst n @ [(msg, policy)] else pending_of dst n)"
proof -
  obtain st where st: "store_get (relay_key n dst) (rp_store n) = (None, st)" using assms(2) by (metis prod.collapse)
  then have st': "fst (store_get (relay_key n dst) st) = None" using store_get_None [OF assms(2)] by simp
  note defs = relay_send_msg_def ensure_session_def get_handshake_lock_def buffer_pending_packet_def lock_free_def pending_of_def
    relay_key_def MAX_PENDING_PACKETS_PER_PEER_def Let_def
  show ?thesis
  proof (cases "handshake_locks n dst")
    case None
    then show ?thesis using assms(1) st st' by (auto simp: defs split: option.split)
  next
    case (Some l)
    then show ?thesis using assms(1) st st' by (cases "l \<in> locks_held n") (auto simp: defs split: option.split)
  qed
qed

lemma relay_send_all_locked:
  assumes "rp_secure_mode_enabled n" and "fst (store_get (relay_key n dst) (rp_store n)) = None" and "\<not> lock_free dst n"
    and "length (pending_of dst n) \<le> 32"
  shows "\<exists>n'. relay_send_all cr sink dst ps n = Some (replicate (length ps) (Inr (Buffered None)), n') \<and>
    pending_of dst n' = take 32 (pending_of dst n @ map snd ps)"
  using assms
proof (induction ps arbitrary: n)
  case (Cons x ps)
  obtain now msg policy where x: "x = (now, msg, policy)" using prod_cases3 by blast
  obtain n1 where n1: "relay_send_msg cr sink now msg dst policy n = Some (Inr (Buffered None), n1)"
    "rp_secure_mode_enabled n1" "fst (store_get (relay_key n1 dst) (rp_store n1)) = None" "\<not> lock_free dst n1"
    "pending_packets n1 dst = Some (if length (pending_of dst n) < 32 then pending_of dst n @ [(msg, policy)] else pending_of dst n)"
    using relay_send_buffers [OF Cons.prems(1,2), of cr sink now msg policy] Cons.prems(3) by (metis not_None_eq)
  have "length (pending_of dst n1) \<le> 32" using n1(5) Cons.prems(4) by (simp add: pending_of_def)
  from Cons.IH [OF n1(2-4) this] obtain n' where
    n': "relay_send_all cr sink dst ps n1 = Some (replicate (length ps) (Inr (Buffered None)), n')"
    "pending_of dst n' = take 32 (pending_of dst n1 @ map snd ps)" by blast
  have "take 32 (pending_of dst n1 @ map snd ps) = take 32 (pending_of dst n @ map snd (x # ps))"
    using n1(5) Cons.prems(4) by (auto simp: pending_of_def x take_Cons')
  then show ?case using n1(1) n' by (simp add: x)
qed simp

lemma map_sum_Inr_iff: "map_sum id f x = Inr d \<longleftrightarrow> (\<exists>y. x = Inr y \<and> d = f y)"
  by (cases x) auto

lemma send_directly_packet: "send_msg_directly sink msg g m = (Inr d, m') \<Longrightarrow> delivery_packet d = msg"
  by (auto simp: send_msg_directly_def Let_def map_sum_Inr_iff split: if_splits option.splits prod.splits)

lemma send_via_next_hop_frame:
  assumes "send_via_next_hop sink msg dst policy n = (res, n')"
  shows "(\<forall>d. res = Inr d \<longrightarrow> delivery_packet d = msg) \<and> (\<exists>m c. n' = n\<lparr>rp_peers := m, rp_foreign_client := c\<rparr>)"
proof -
  have n: "\<exists>m c. n = n\<lparr>rp_peers := m, rp_foreign_client := c\<rparr>" by (rule exI [of _ "rp_peers n"], rule exI [of _ "rp_foreign_client n"]) simp
  have n1: "\<exists>m' c. n\<lparr>rp_peers := m\<rparr> = n\<lparr>rp_peers := m', rp_foreign_client := c\<rparr>" for m
    by (rule exI [of _ m], rule exI [of _ "rp_foreign_client n"]) simp
  have n2: "\<exists>m c'. n\<lparr>rp_foreign_client := c\<rparr> = n\<lparr>rp_peers := m, rp_foreign_client := c'\<rparr>" for c
    by (rule exI [of _ "rp_peers n"], rule exI [of _ c]) simp
  show ?thesis using assms send_directly_packet n n1 n2
    by (auto simp: send_via_next_hop_def client_send_msg_def split: option.splits if_splits prod.splits)
qed

lemma session_encrypt_frame:
  assumes "session_encrypt cr dst r msg n = Some (res, n')"
  shows "\<exists>s. ps_encrypt_payload (cr_hmac cr) (cr_api cr) (cr_rnd cr) (cr_now cr) (rp_my_peer_id n) dst msg (heap (rp_store n) r) = Some (res, s) \<and>
    n' = n\<lparr>rp_store := heap_put r s (rp_store n)\<rparr>"
  using assms by (auto simp: session_encrypt_def split: bind_splits)

lemma flush_loop_encrypts:
  assumes "flush_loop cr sink dst r ps n = Some (ds, n')"
  shows "\<exists>qs. encrypt_all cr (rp_my_peer_id n) dst (map fst ps) (heap (rp_store n) r) = Some qs \<and> subseq (map delivery_packet ds) qs \<and>
    pending_packets n' = pending_packets n \<and> pending_handshakes n' = pending_handshakes n"
  using assms
proof (induction ps arbitrary: n ds n')
  case (Cons x ps)
  obtain p policy where x: "x = (p, policy)" by fastforce
  obtain res n1 where e: "session_encrypt cr dst r p n = Some (res, n1)" using Cons.prems by (auto simp: x split: bind_splits)
  obtain s where s: "ps_encrypt_payload (cr_hmac cr) (cr_api cr) (cr_rnd cr) (cr_now cr) (rp_my_peer_id n) dst p (heap (rp_store n) r) = Some (res, s)"
    "n1 = n\<lparr>rp_store := heap_put r s (rp_store n)\<rparr>" using session_encrypt_frame [OF e] by blast
  show ?case
  proof (cases res)
    case (Inl err)
    then have "flush_loop cr sink dst r ps n1 = Some (ds, n')" using Cons.prems e by (simp add: x)
    from Cons.IH [OF this] show ?thesis using s Inl by (auto simp: x)
  next
    case (Inr q)
    obtain out n2 where o2: "send_via_next_hop sink q dst policy n1 = (out, n2)" by fastforce
    obtain ds' where f: "flush_loop cr sink dst r ps n2 = Some (ds', n')" "ds = (case out of Inl _ \<Rightarrow> ds' | Inr d \<Rightarrow> d # ds')"
      using Cons.prems e Inr o2 by (auto simp: x split: bind_splits)
    obtain m c where n2: "n2 = n1\<lparr>rp_peers := m, rp_foreign_client := c\<rparr>" "\<forall>d. out = Inr d \<longrightarrow> delivery_packet d = q"
      using send_via_next_hop_frame [OF o2] by blast
    from Cons.IH [OF f(1)] obtain qs where qs: "encrypt_all cr (rp_my_peer_id n) dst (map fst ps) s = Some qs" "subseq (map delivery_packet ds') qs"
      "pending_packets n' = pending_packets n" "pending_handshakes n' = pending_handshakes n" using n2(1) s(2) by auto
    have "subseq (map delivery_packet ds) (q # qs)" using qs(2) n2(2) f(2) by (cases out) auto
    then show ?thesis using qs s(1) Inr by (simp add: x)
  qed
qed simp

text \<open>
  C33. Secure mode, no session with the destination: none of the packets sent leaves the node; the first one starts a single
  handshake, and exactly the first 32 are kept, in order. When the session is there, what the node sends of them are
  encryptions by this session in the same order, each at most once, and nothing is left waiting.
\<close>

theorem relay_waits_for_session:
  assumes "rp_secure_mode_enabled n" and "fst (store_get (relay_key n dst) (rp_store n)) = None" and "lock_free dst n"
    and "pending_packets n dst = None" and "ps \<noteq> []"
  shows "\<exists>l n'. relay_send_all cr sink dst ps n = Some (Inr (Buffered (Some l)) # replicate (length ps - 1) (Inr (Buffered None)), n') \<and>
    pending_packets n' dst = Some (take 32 (map snd ps)) \<and>
    (\<forall>m r cr' sink' ds m'. pending_packets m dst = pending_packets n' dst \<and> flush_pending_packets cr' sink' dst r m = Some (ds, m') \<longrightarrow>
       pending_packets m' dst = None \<and>
       (\<exists>qs. encrypt_all cr' (rp_my_peer_id m) dst (map (fst \<circ> snd) (take 32 ps)) (heap (rp_store m) r) = Some qs \<and>
          subseq (map delivery_packet ds) qs))"
proof -
  obtain now msg policy ps' where ps: "ps = (now, msg, policy) # ps'" using assms(5) by (metis list.exhaust prod_cases3)
  obtain l n1 where n1: "relay_send_msg cr sink now msg dst policy n = Some (Inr (Buffered (Some l)), n1)"
    "rp_secure_mode_enabled n1" "fst (store_get (relay_key n1 dst) (rp_store n1)) = None" "\<not> lock_free dst n1"
    "pending_packets n1 dst = Some [(msg, policy)]"
    using relay_send_buffers [OF assms(1,2), of cr sink now msg policy] assms(3,4) by (auto simp: pending_of_def)
  have p1: "pending_of dst n1 = [(msg, policy)]" using n1(5) by (simp add: pending_of_def)
  obtain n' where n': "relay_send_all cr sink dst ps' n1 = Some (replicate (length ps') (Inr (Buffered None)), n')"
    "pending_of dst n' = take 32 (map snd ps)"
    using relay_send_all_locked [OF n1(2-4), of cr sink ps'] p1 by (auto simp: ps)
  have pend: "pending_packets n' dst = Some (take 32 (map snd ps))"
    using n'(2) by (cases "pending_packets n' dst") (simp_all add: pending_of_def ps)
  have flush: "pending_packets m' dst = None \<and> (\<exists>qs. encrypt_all cr' (rp_my_peer_id m) dst (map (fst \<circ> snd) (take 32 ps)) (heap (rp_store m) r) = Some qs \<and>
      subseq (map delivery_packet ds) qs)"
    if "pending_packets m dst = pending_packets n' dst" "flush_pending_packets cr' sink' dst r m = Some (ds, m')" for m r cr' sink' ds m'
  proof -
    have "flush_loop cr' sink' dst r (take 32 (map snd ps)) (m\<lparr>pending_packets := (pending_packets m)(dst := None)\<rparr>) = Some (ds, m')"
      using that pend by (simp add: flush_pending_packets_def)
    from flush_loop_encrypts [OF this] show ?thesis by (auto simp: take_map)
  qed
  have "relay_send_all cr sink dst ps n = Some (Inr (Buffered (Some l)) # replicate (length ps - 1) (Inr (Buffered None)), n')"
    using n1(1) n'(1) by (simp add: ps)
  then show ?thesis using pend flush by blast
qed


section \<open>From end to end\<close>

lemma relay_send_secure:
  assumes "relay_send_msg cr sink now msg dst policy n = Some (Inr (Sent d), n')" and "rp_secure_mode_enabled n"
  shows "\<exists>r s. sessions (rp_store n) (relay_key n dst) = Some r \<and> ps_is_valid (heap (rp_store n) r) \<and>
    ps_encrypt_payload (cr_hmac cr) (cr_api cr) (cr_rnd cr) (cr_now cr) (rp_my_peer_id n) dst msg (heap (rp_store n) r) =
      Some (Inr (delivery_packet d), s)"
proof -
  let ?n = "with_state now dst (\<lambda>s. s\<lparr>last_active_at := now\<rparr>) n"
  have k: "relay_key ?n dst = relay_key n dst" by (simp add: relay_key_def)
  obtain r where r: "sessions (rp_store n) (relay_key n dst) = Some r" "ps_is_valid (heap (rp_store n) r)"
  proof (cases "store_get (relay_key n dst) (rp_store n)")
    case (Pair x st)
    then show ?thesis using assms that
      by (cases x) (auto simp: relay_send_msg_def ensure_session_def k Let_def store_get_def split: option.splits if_splits prod.splits)
  qed
  then have e: "ensure_session dst ?n = (Inr r, ?n)" by (simp add: ensure_session_def store_get_def k)
  obtain res n1 where s: "session_encrypt cr dst r msg ?n = Some (res, n1)"
    using assms e by (auto simp: relay_send_msg_def Let_def split: bind_splits)
  obtain q where q: "res = Inr q" "delivery_packet d = q"
    using assms e s send_via_next_hop_frame by (cases res) (fastforce simp: relay_send_msg_def Let_def map_sum_Inr_iff split: prod.splits)+
  from session_encrypt_frame [OF s] show ?thesis using r q by auto
qed

text \<open>
  C34. A packet that leaves a node in secure mode for a peer it does not neighbour reaches that peer as it was sent, whatever
  relays carried it: it leaves encrypted by the session with the peer, and the peer, if its own session with the sender has
  the same root key and algorithm (any AEAD) and its replay check admits the nonce, obtains the original packet.
\<close>

theorem relay_delivers:
  assumes "hmac_ok (cr_hmac cr)" and "aead_ok (cr_api cr)" and "length (cr_rnd cr) = 12"
    and "cr_hmac cr' = cr_hmac cr" and "cr_api cr' = cr_api cr"
    and "rp_secure_mode_enabled na" and "rp_secure_mode_enabled nb" and "rp_my_peer_id na = a" and "rp_my_peer_id nb = b"
    and "sessions (rp_store na) (relay_key na b) = Some ra" and "sa = heap (rp_store na) ra"
    and "sessions (rp_store nb) (relay_key nb a) = Some rb" and "sb = heap (rp_store nb) rb" and "ps_is_valid sb"
    and "key_cache_ok (cr_hmac cr) (datagram sa)" and "key_cache_ok (cr_hmac cr) (datagram sb)" and "ps_root_key sb = ps_root_key sa"
    and "recv_cipher_algorithm (datagram sb) = send_cipher_algorithm (datagram sa)"
    and "EncryptionAlgorithm_try_from (send_cipher_algorithm (datagram sa)) \<noteq> Some EA_Xor"
    and "peer_manager_header p = Some h" and "\<not> is_encrypted h" and "from_peer_id h = a"
    and "next_nonce (cr_now cr) (dir_for_sender a b) (datagram sa) = ((e, i, nonce), s0)"
    and "fst (precheck_replay e i (dir_for_sender a b) (cr_now cr') (datagram sb))"
    and "relay_send_msg cr sink now p b policy na = Some (Inr (Sent d), na')"
  shows "peer_manager_header (delivery_packet d) = Some (set_encrypted True h) \<and>
    (\<exists>nb'. decrypt_if_needed cr' now' (delivery_packet d) nb = Some (Inr (True, p), nb'))"
proof -
  obtain s where enc: "ps_encrypt_payload (cr_hmac cr) (cr_api cr) (cr_rnd cr) (cr_now cr) a b p sa = Some (Inr (delivery_packet d), s)"
    using relay_send_secure [OF assms(25,6)] assms(8,10,11) by auto
  obtain sb' where q: "peer_manager_header (delivery_packet d) = Some (set_encrypted True h)"
    "ps_decrypt_payload (cr_hmac cr) (cr_api cr) (cr_now cr') a b (delivery_packet d) sb = Some (Inr p, sb')"
    using session_round_trip [OF assms(1-3,14-21,23,24) enc] by blast
  then show ?thesis using assms(4,5,7,9,12-14,22) by (simp add: decrypt_if_needed_def store_get_def Let_def)
qed


section \<open>Two handshakes at the same time\<close>

text \<open>
  The pattern IK: the responder reads the first message and then knows the public key of the initiator, and the initiator
  reads the answer.
\<close>

definition noise_ik_ok :: "('hs, 'z) noise_api_scheme \<Rightarrow> (bytes \<Rightarrow> bytes) \<Rightarrow> bool" where
  "noise_ik_ok nz pub \<longleftrightarrow> (\<forall>pro ka kb ea eb a0 b0.
     build_initiator nz IK pro ka (Some (pub kb)) ea = Some a0 \<and> build_responder nz IK pro kb eb = Some b0 \<longrightarrow>
     (\<forall>p1 c1 a1. write_message nz a0 p1 = Some (c1, a1) \<longrightarrow>
       (\<exists>b1. read_message nz b0 c1 = Some (p1, b1) \<and> get_remote_static nz b1 = Some (pub ka) \<and>
         (\<forall>p2 c2 b2. write_message nz b1 p2 = Some (c2, b2) \<longrightarrow> (\<exists>a2. read_message nz a1 c2 = Some (p2, a2))))))"

definition relay_codec_ok :: "relay_codec \<Rightarrow> bool" where
  "relay_codec_ok pb \<longleftrightarrow> (\<forall>m. dec_r1 pb (enc_r1 pb m) = Some m) \<and> (\<forall>m. dec_r2 pb (enc_r2 pb m) = Some m)"

lemma send_handshake_packet_spec:
  assumes "send_handshake_packet u sink body t dst policy n = Some (Inr d, n')"
  shows "\<exists>h m c. payload (delivery_packet d) = Some body \<and> peer_manager_header (delivery_packet d) = Some h \<and>
    from_peer_id h = rp_my_peer_id n \<and> to_peer_id h = dst \<and> pm_packet_type h = PacketType_code t \<and> \<not> is_encrypted h \<and>
    n' = n\<lparr>rp_peers := m, rp_foreign_client := c\<rparr>"
proof -
  obtain q h where q: "new_with_payload u body = Some q" "payload q = Some body" "peer_manager_header q = Some h"
    using new_with_payload_spec [of u body] by auto
  obtain p where p: "fill_peer_manager_hdr (rp_my_peer_id n) dst (PacketType_code t) q = Some p"
    using assms q(1) by (auto simp: send_handshake_packet_def split: bind_splits)
  then have h: "payload p = Some body" "peer_manager_header p = Some \<lparr>from_peer_id = rp_my_peer_id n, to_peer_id = dst, pm_packet_type = PacketType_code t,
         pm_flags = 0, forward_counter = 1, pm_reserved = pm_reserved h, pm_len = of_nat (payload_len q)\<rparr>"
    using fill_peer_manager_hdr_spec [of q "rp_my_peer_id n" dst "PacketType_code t"] q by auto
  have "send_via_next_hop sink p dst policy n = (Inr d, n')" using assms q(1) p by (simp add: send_handshake_packet_def)
  from send_via_next_hop_frame [OF this] h show ?thesis by (auto simp: is_encrypted_def flag_contains_def ENCRYPTED_def)
qed

lemma relay_start_spec:
  assumes "relay_handshake_start nz pb u sink uuid eph dst policy n = Some (Inr (d, w), n')"
  shows "\<exists>priv pk rs hs c m h. rp_keypair n = Some (priv, pk) \<and> get_remote_static_pubkey n dst = Some rs \<and>
    build_initiator nz IK RELAY_NOISE_PROLOGUE priv (Some rs) eph = Some hs \<and> write_message nz hs (enc_r1 pb m) = Some (c, rw_hs w) \<and>
    r1_conn_id m = Some uuid \<and> rw_conn_id w = uuid \<and> rw_remote_static w = rs \<and>
    payload (delivery_packet d) = Some c \<and> peer_manager_header (delivery_packet d) = Some h \<and> from_peer_id h = rp_my_peer_id n \<and>
    to_peer_id h = dst \<and> pm_packet_type h = PacketType_code PT_RelayHandshake \<and>
    (\<exists>ps fc. n' = n\<lparr>rp_store := snd (store_get (relay_key n dst) (rp_store n)), pending_handshakes := insert dst (pending_handshakes n),
       rp_peers := ps, rp_foreign_client := fc\<rparr>)"
proof -
  obtain priv pk rs where k: "rp_keypair n = Some (priv, pk)" "get_remote_static_pubkey n dst = Some rs"
    using assms by (auto simp: relay_handshake_start_def split: option.splits)
  obtain hs where hs: "build_initiator nz IK RELAY_NOISE_PROLOGUE priv (Some rs) eph = Some hs"
    using assms k by (auto simp: relay_handshake_start_def split: option.splits)
  obtain r st where g: "store_get (relay_key n dst) (rp_store n) = (r, st)" by fastforce
  define m where "m = \<lparr>r1_version = RELAY_NOISE_VERSION, r1_session_generation = map_option (\<lambda>r. ps_session_generation (heap st r)) r,
    r1_conn_id = Some uuid, r1_client_encryption_algorithm = rp_encryption_algorithm n\<rparr>"
  obtain c hs' where c: "write_message nz hs (enc_r1 pb m) = Some (c, hs')"
    using assms k hs g by (auto simp: relay_handshake_start_def m_def Let_def split: option.splits)
  define n1 where "n1 = n\<lparr>rp_store := st, pending_handshakes := insert dst (pending_handshakes n)\<rparr>"
  obtain res n2 where s: "send_handshake_packet u sink c PT_RelayHandshake dst policy n1 = Some (res, n2)"
    using assms k hs g c by (auto simp: relay_handshake_start_def m_def n1_def Let_def split: bind_splits)
  have r: "res = Inr d" "w = \<lparr>rw_hs = hs', rw_conn_id = uuid, rw_remote_static = rs\<rparr>" "n2 = n'"
    using assms k hs g c s by (auto simp: relay_handshake_start_def m_def n1_def Let_def split: sum.splits)
  from send_handshake_packet_spec [OF s [unfolded r]] obtain h ps fc where
    "payload (delivery_packet d) = Some c" "peer_manager_header (delivery_packet d) = Some h" "from_peer_id h = rp_my_peer_id n"
    "to_peer_id h = dst" "pm_packet_type h = PacketType_code PT_RelayHandshake" "n' = n1\<lparr>rp_peers := ps, rp_foreign_client := fc\<rparr>"
    by (auto simp: n1_def)
  then show ?thesis using k hs c r(2) g m_def n1_def by (auto intro!: exI [of _ m])
qed

text \<open>Encryption changes neither the root key nor the generation of a session, so flushing keeps them and the map of sessions.\<close>

lemma get_or_create_frame:
  assumes "get_or_create_encryptor hmac e dir g send s = Some (c, s')"
  shows "\<exists>kc. s' = s\<lparr>key_cache := kc\<rparr>"
proof -
  have "\<exists>kc. s = s\<lparr>key_cache := kc\<rparr>" by (rule exI [of _ "key_cache s"]) simp
  then show ?thesis using assms
    by (auto simp: get_or_create_encryptor_def Let_def split: if_splits prod.splits bind_splits)
qed

lemma encrypt_payload_keeps:
  assumes "encrypt_payload hmac api rnd now dir p s = Some (res, s')"
  shows "root_key s' = root_key s \<and> session_generation s' = session_generation s"
proof (cases "is_valid s")
  case True
  obtain e n nonce s0 where nn: "next_nonce now dir s = ((e, n, nonce), s0)" by (metis prod_cases3 prod.exhaust)
  have s0: "root_key s0 = root_key s" "session_generation s0 = session_generation s"
    using nn by (auto simp: next_nonce_def maybe_rotate_epoch_def Let_def)
  obtain c s1 where c: "get_or_create_encryptor hmac e dir (session_generation s0) True s0 = Some (c, s1)"
    using assms True nn by (auto simp: encrypt_payload_def split: bind_splits)
  obtain kc where "s1 = s0\<lparr>key_cache := kc\<rparr>" using get_or_create_frame [OF c] by blast
  then show ?thesis using assms True nn s0 c by (auto simp: encrypt_payload_def invalidate_def split: bind_splits sum.splits)
qed (use assms in \<open>simp add: encrypt_payload_def\<close>)

lemma ps_encrypt_keeps:
  assumes "ps_encrypt_payload hmac api rnd now a b p s = Some (res, s')"
  shows "ps_root_key s' = ps_root_key s \<and> ps_session_generation s' = ps_session_generation s"
proof (cases "ps_is_valid s")
  case True
  then obtain r d where "encrypt_payload hmac api rnd now (dir_for_sender a b) p (datagram s) = Some (r, d)" "s' = s\<lparr>datagram := d\<rparr>"
    using assms by (auto simp: ps_encrypt_payload_def)
  then show ?thesis using encrypt_payload_keeps by (auto simp: ps_root_key_def ps_session_generation_def)
qed (use assms in \<open>simp add: ps_encrypt_payload_def\<close>)

lemma flush_loop_keeps:
  assumes "flush_loop cr sink dst r ps n = Some (ds, n')"
  shows "sessions (rp_store n') = sessions (rp_store n) \<and> ps_root_key (heap (rp_store n') k) = ps_root_key (heap (rp_store n) k) \<and>
    ps_session_generation (heap (rp_store n') k) = ps_session_generation (heap (rp_store n) k)"
  using assms
proof (induction ps arbitrary: n ds n')
  case (Cons x ps)
  obtain p policy where x: "x = (p, policy)" by fastforce
  obtain res n1 where e: "session_encrypt cr dst r p n = Some (res, n1)" using Cons.prems by (auto simp: x split: bind_splits)
  obtain s where s: "ps_encrypt_payload (cr_hmac cr) (cr_api cr) (cr_rnd cr) (cr_now cr) (rp_my_peer_id n) dst p (heap (rp_store n) r) = Some (res, s)"
    "n1 = n\<lparr>rp_store := heap_put r s (rp_store n)\<rparr>" using session_encrypt_frame [OF e] by blast
  have k: "sessions (rp_store n1) = sessions (rp_store n) \<and> ps_root_key (heap (rp_store n1) k) = ps_root_key (heap (rp_store n) k) \<and>
    ps_session_generation (heap (rp_store n1) k) = ps_session_generation (heap (rp_store n) k)"
    using ps_encrypt_keeps [OF s(1)] s(2) by (simp add: heap_put_def)
  show ?case
  proof (cases res)
    case (Inl err)
    then have "flush_loop cr sink dst r ps n1 = Some (ds, n')" using Cons.prems e by (simp add: x)
    from Cons.IH [OF this] show ?thesis using k by simp
  next
    case (Inr q)
    obtain out n2 where o2: "send_via_next_hop sink q dst policy n1 = (out, n2)" by fastforce
    obtain ds' where f: "flush_loop cr sink dst r ps n2 = Some (ds', n')"
      using Cons.prems e Inr o2 by (auto simp: x split: bind_splits)
    from Cons.IH [OF f] k send_via_next_hop_frame [OF o2] show ?thesis by auto
  qed
qed simp

lemma flush_keeps:
  assumes "flush_pending_packets cr sink dst r n = Some (ds, n')"
  shows "sessions (rp_store n') = sessions (rp_store n) \<and> ps_root_key (heap (rp_store n') k) = ps_root_key (heap (rp_store n) k) \<and>
    ps_session_generation (heap (rp_store n') k) = ps_session_generation (heap (rp_store n) k) \<and>
    pending_handshakes n' = pending_handshakes n"
proof (cases "pending_packets n dst")
  case None
  then show ?thesis using assms by (simp add: flush_pending_packets_def)
next
  case (Some l)
  then have "flush_loop cr sink dst r l (n\<lparr>pending_packets := (pending_packets n)(dst := None)\<rparr>) = Some (ds, n')"
    using assms by (simp add: flush_pending_packets_def)
  from flush_loop_keeps [OF this, of k] flush_loop_encrypts [OF this] show ?thesis by auto
qed


lemma answer_spec:
  assumes "answer_relay_msg1 nz pb cr u sink now fresh uuid eph p remote n = Some (Inr (d # ds), n')"
    and "sessions (rp_store n) (relay_key n remote) = None"
  shows "\<exists>priv pk b0 m b1 m2 c2 b2 h2 r. rp_keypair n = Some (priv, pk) \<and> build_responder nz IK RELAY_NOISE_PROLOGUE priv eph = Some b0 \<and>
    relay_decode_message nz (dec_r1 pb) PT_RelayHandshake b0 p = Some (Some (m, b1)) \<and>
    write_message nz b1 (enc_r2 pb m2) = Some (c2, b2) \<and> payload (delivery_packet d) = Some c2 \<and>
    peer_manager_header (delivery_packet d) = Some h2 \<and> from_peer_id h2 = rp_my_peer_id n \<and> to_peer_id h2 = remote \<and>
    pm_packet_type h2 = PacketType_code PT_RelayHandshakeAck \<and>
    r2_action m2 = action_code Create \<and> r2_session_generation m2 = 1 \<and> r2_root_key_32 m2 = Some fresh \<and> r2_a_conn_id_echo m2 = r1_conn_id m \<and>
    sessions (rp_store n') (relay_key n remote) = Some r \<and> ps_root_key (heap (rp_store n') r) = fresh \<and>
    ps_session_generation (heap (rp_store n') r) = 1 \<and> pending_handshakes n' = pending_handshakes n"
proof -
  obtain priv pk b0 where k: "rp_keypair n = Some (priv, pk)" "build_responder nz IK RELAY_NOISE_PROLOGUE priv eph = Some b0"
    using assms(1) by (auto simp: answer_relay_msg1_def split: option.splits)
  obtain m b1 where m: "relay_decode_message nz (dec_r1 pb) PT_RelayHandshake b0 p = Some (Some (m, b1))"
    using assms(1) k by (auto simp: answer_relay_msg1_def split: bind_splits option.splits)
  let ?rs = "case get_remote_static nz b1 of Some k \<Rightarrow> k | None \<Rightarrow> []"
  have rs: "get_remote_static_pubkey n remote = Some ?rs"
    using assms(1) k m by (auto simp: answer_relay_msg1_def Let_def split: if_splits)
  obtain r st where up: "upsert_responder_session (cr_now cr) fresh (relay_key n remote) (r1_session_generation m) (rp_encryption_algorithm n)
      (r1_client_encryption_algorithm m) (key_32 ?rs) (rp_store n) =
      (Inr \<lparr>ur_session = r, ur_action = Create, ur_generation = 1, ur_root_key = Some fresh, ur_initial_epoch = 0\<rparr>, st)"
    "sessions st (relay_key n remote) = Some r" "ps_root_key (heap st r) = fresh" "ps_session_generation (heap st r) = 1"
    using assms(2) by (simp add: upsert_responder_session_def alloc_def insert_session_def ps_new_def session_new_def
        ps_session_generation_def ps_root_key_def)
  define m2 where "m2 = relay_msg2 uuid m \<lparr>ur_session = r, ur_action = Create, ur_generation = 1, ur_root_key = Some fresh, ur_initial_epoch = 0\<rparr>
    (rp_encryption_algorithm n)"
  define n1 where "n1 = register_handshake_success now remote (n\<lparr>rp_store := st\<rparr>)"
  obtain c2 b2 where w: "write_message nz b1 (enc_r2 pb m2) = Some (c2, b2)"
    using assms(1) k m rs up(1) by (auto simp: answer_relay_msg1_def Let_def m2_def split: option.splits)
  obtain res n2 where s: "send_handshake_packet u sink c2 PT_RelayHandshakeAck remote LeastHop n1 = Some (res, n2)"
    using assms(1) k m rs up(1) w by (auto simp: answer_relay_msg1_def Let_def m2_def n1_def split: bind_splits)
  have f: "res = Inr d" "flush_pending_packets cr sink remote r n2 = Some (ds, n')"
    using assms(1) k m rs up(1) w s by (auto simp: answer_relay_msg1_def Let_def m2_def n1_def split: bind_splits sum.splits)
  obtain h2 ps fc where h2: "payload (delivery_packet d) = Some c2" "peer_manager_header (delivery_packet d) = Some h2"
    "from_peer_id h2 = rp_my_peer_id n" "to_peer_id h2 = remote" "pm_packet_type h2 = PacketType_code PT_RelayHandshakeAck"
    "n2 = n1\<lparr>rp_peers := ps, rp_foreign_client := fc\<rparr>"
    using send_handshake_packet_spec [OF s [unfolded f(1)]] by (auto simp: n1_def register_handshake_success_def)
  have "sessions (rp_store n') = sessions st" "ps_root_key (heap (rp_store n') r) = fresh" "ps_session_generation (heap (rp_store n') r) = 1"
    "pending_handshakes n' = pending_handshakes n"
    using flush_keeps [OF f(2), of r] h2(6) up(3,4) by (simp_all add: n1_def register_handshake_success_def)
  then show ?thesis using k m w h2(1-5) up(2) by (auto simp: m2_def relay_msg2_def intro!: exI [of _ m2])
qed

lemma apply_create_fresh:
  assumes "sessions st key = None"
  shows "\<exists>r st'. apply_initiator_action t0 now now' key Create g (Some k) ep sa ra pk st = (Inr r, st')"
  using assms by (auto simp: apply_initiator_action_def entry_or_insert_def check_session_def ps_check_encrypt_algo_same_def check_encrypt_algo_same_def
      check_or_set_peer_static_pubkey_def alloc_def insert_session_def ps_new_def session_new_def Let_def split: option.splits)

text \<open>
  C35. Two nodes that start a relay handshake with each other at the same time end with one session: the node with the
  smaller identifier refuses the other's first message and changes nothing; the other one gives up its own handshake
  and answers, and the answer is handed to the waiting task of the first, which obtains a session with the same root
  key and generation as the one that was created by the answer.
\<close>

theorem relay_race_resolved:
  assumes "noise_ik_ok nz pub" and "relay_codec_ok pb" and "length fresh = 32" and "a < b"
    and "rp_my_peer_id na0 = a" and "rp_my_peer_id nb0 = b" and "rp_network_name na0 = rp_network_name nb0"
    and "rp_keypair na0 = Some (ka, pub ka)" and "rp_keypair nb0 = Some (kb, pub kb)"
    and "get_remote_static_pubkey na0 b = Some (pub kb)"
    and "sessions (rp_store na0) (relay_key na0 b) = None" and "sessions (rp_store nb0) (relay_key nb0 a) = None"
    and "relay_handshake_start nz pb u sink uuid eph b policy na0 = Some (Inr (da, wa), na)"
    and "relay_handshake_start nz pb u' sink' uuid' eph' a policy' nb0 = Some (Inr (db, wb), nb)"
    and "handle_relay_msg1 nz pb cr u' sink' now fresh uuid'' eph'' (delivery_packet da) a nb = Some (Inr (d # ds), nb')"
  shows "handle_relay_msg1 nz pb cr' u sink now' fresh' uuid3 eph3 (delivery_packet db) b na = Some (Inl RouteError, na) \<and>
    a \<notin> pending_handshakes nb' \<and>
    (\<exists>na1 ra na2 rb. handle_handshake_packet nz pb cr' u sink now' fresh' uuid3 eph3 (delivery_packet d) na = Some (Inr (HandedOver (delivery_packet d)), na1) \<and>
       relay_handshake_finish nz pb t0 t1 t2 b wa (Reply (delivery_packet d)) na1 = Some (Inr ra, na2) \<and>
       sessions (rp_store na2) (relay_key na0 b) = Some ra \<and> sessions (rp_store nb') (relay_key nb0 a) = Some rb \<and>
       ps_is_valid (heap (rp_store na2) ra) \<and>
       ps_root_key (heap (rp_store na2) ra) = ps_root_key (heap (rp_store nb') rb) \<and>
       ps_session_generation (heap (rp_store na2) ra) = ps_session_generation (heap (rp_store nb') rb))"
proof -
  obtain a0 c1 m1 h1 psa fca where A: "build_initiator nz IK RELAY_NOISE_PROLOGUE ka (Some (pub kb)) eph = Some a0"
    "write_message nz a0 (enc_r1 pb m1) = Some (c1, rw_hs wa)" "r1_conn_id m1 = Some uuid" "rw_conn_id wa = uuid"
    "payload (delivery_packet da) = Some c1" "peer_manager_header (delivery_packet da) = Some h1"
    "pm_packet_type h1 = PacketType_code PT_RelayHandshake"
    "na = na0\<lparr>rp_store := rp_store na0, pending_handshakes := insert b (pending_handshakes na0), rp_peers := psa, rp_foreign_client := fca\<rparr>"
    using relay_start_spec [OF assms(13)] assms(8,10,11) by (auto simp: store_get_def)
  obtain psb fcb where B: "nb = nb0\<lparr>pending_handshakes := insert a (pending_handshakes nb0), rp_peers := psb, rp_foreign_client := fcb\<rparr>"
    using relay_start_spec [OF assms(14)] assms(12) by (auto simp: store_get_def)
  let ?nb = "nb\<lparr>pending_handshakes := pending_handshakes nb - {a}\<rparr>"
  have "answer_relay_msg1 nz pb cr u' sink' now fresh uuid'' eph'' (delivery_packet da) a ?nb = Some (Inr (d # ds), nb')"
    using assms(4,6,15) B by (simp add: handle_relay_msg1_def)
  moreover have key: "relay_key ?nb a = relay_key nb0 a" "relay_key na b = relay_key na0 b" using A(8) B by (simp_all add: relay_key_def)
  ultimately obtain b0 m b1 m2 c2 b2 h2 r where S: "build_responder nz IK RELAY_NOISE_PROLOGUE kb eph'' = Some b0"
    "relay_decode_message nz (dec_r1 pb) PT_RelayHandshake b0 (delivery_packet da) = Some (Some (m, b1))"
    "write_message nz b1 (enc_r2 pb m2) = Some (c2, b2)" "payload (delivery_packet d) = Some c2"
    "peer_manager_header (delivery_packet d) = Some h2" "from_peer_id h2 = b" "pm_packet_type h2 = PacketType_code PT_RelayHandshakeAck"
    "r2_action m2 = action_code Create" "r2_session_generation m2 = 1" "r2_root_key_32 m2 = Some fresh" "r2_a_conn_id_echo m2 = r1_conn_id m"
    "sessions (rp_store nb') (relay_key nb0 a) = Some r" "ps_root_key (heap (rp_store nb') r) = fresh"
    "ps_session_generation (heap (rp_store nb') r) = 1" "pending_handshakes nb' = pending_handshakes ?nb"
    using answer_spec [of nz pb cr u' sink' now fresh uuid'' eph'' "delivery_packet da" a ?nb d ds nb'] assms(6,9,12) B by auto
  obtain b1' where N: "read_message nz b0 c1 = Some (enc_r1 pb m1, b1')"
    "\<forall>p2 c2 b2. write_message nz b1' p2 = Some (c2, b2) \<longrightarrow> (\<exists>a2. read_message nz (rw_hs wa) c2 = Some (p2, a2))"
    using assms(1) [unfolded noise_ik_ok_def, rule_format, OF conjI [OF A(1) S(1)] A(2)] by blast
  have m: "m = m1" "b1' = b1" using S(2) N(1) A(5-7) assms(2) by (auto simp: relay_decode_message_def relay_codec_ok_def)
  obtain a2 where a2: "read_message nz (rw_hs wa) c2 = Some (enc_r2 pb m2, a2)" using N(2) S(3) m(2) by blast
  have nlt: "\<not> b < a" using assms(4) by (simp add: not_less)
  define na1 where "na1 = na\<lparr>pending_handshakes := pending_handshakes na - {b}\<rparr>"
  have hand: "handle_handshake_packet nz pb cr' u sink now' fresh' uuid3 eph3 (delivery_packet d) na = Some (Inr (HandedOver (delivery_packet d)), na1)"
    using S(5-7) A(8) by (simp add: handle_handshake_packet_def na1_def)
  have dec: "relay_decode_message nz (dec_r2 pb) PT_RelayHandshakeAck (rw_hs wa) (delivery_packet d) = Some (Some (m2, a2))"
    using S(4,5,7) a2 assms(2) by (simp add: relay_decode_message_def relay_codec_ok_def)
  have "sessions (rp_store na1) (relay_key na1 b) = None" using assms(11) A(8) by (simp add: na1_def relay_key_def)
  then obtain ra st where ap: "apply_initiator_action t0 t1 t2 (relay_key na1 b) Create 1 (Some fresh) (r2_initial_epoch m2) (rp_encryption_algorithm na1)
      (r2_server_encryption_algorithm m2) (key_32 (rw_remote_static wa)) (rp_store na1) = (Inr ra, st)"
    using apply_create_fresh by blast
  then have fin: "relay_handshake_finish nz pb t0 t1 t2 b wa (Reply (delivery_packet d)) na1 = Some (Inr ra, na1\<lparr>rp_store := st\<rparr>)"
    using dec S(8-11) m(1) A(3,4) assms(3) by (simp add: relay_handshake_finish_def action_try_from_def key_32_def)
  have "ps_root_key (heap st ra) = fresh" "ps_session_generation (heap st ra) = 1" "sessions st (relay_key na1 b) = Some ra" "ps_is_valid (heap st ra)"
    using apply_sync_create [OF _ ap] by auto
  moreover have "relay_key na1 b = relay_key na0 b" using A(8) by (simp add: na1_def relay_key_def)
  moreover have "handle_relay_msg1 nz pb cr' u sink now' fresh' uuid3 eph3 (delivery_packet db) b na = Some (Inl RouteError, na)"
    using A(8) assms(5) nlt by (simp add: handle_relay_msg1_def)
  ultimately show ?thesis using hand fin S(12-15) by auto
qed


section \<open>Concrete runs\<close>

definition demo_relay_pb :: relay_codec where
  "demo_relay_pb = \<lparr>
     enc_r1 = (\<lambda>m. concat (map frame [be_bytes 4 (r1_version m), opt_bytes (be_bytes 4) (r1_session_generation m),
       opt_bytes (be_bytes 16) (r1_conn_id m), str_bytes (r1_client_encryption_algorithm m)])),
     dec_r1 = (\<lambda>b. let f = take_fields 4 b in Some \<lparr>r1_version = of_be (f ! 0), r1_session_generation = bytes_opt of_be (f ! 1),
       r1_conn_id = bytes_opt of_be (f ! 2), r1_client_encryption_algorithm = bytes_str (f ! 3)\<rparr>),
     enc_r2 = (\<lambda>m. concat (map frame [be_bytes 4 (r2_action m), be_bytes 4 (r2_session_generation m), opt_bytes id (r2_root_key_32 m),
       be_bytes 4 (r2_initial_epoch m), opt_bytes (be_bytes 16) (r2_b_conn_id m), opt_bytes (be_bytes 16) (r2_a_conn_id_echo m),
       str_bytes (r2_server_encryption_algorithm m)])),
     dec_r2 = (\<lambda>b. let f = take_fields 7 b in Some \<lparr>r2_action = of_be (f ! 0), r2_session_generation = of_be (f ! 1),
       r2_root_key_32 = bytes_opt id (f ! 2), r2_initial_epoch = of_be (f ! 3), r2_b_conn_id = bytes_opt of_be (f ! 4),
       r2_a_conn_id_echo = bytes_opt of_be (f ! 5), r2_server_encryption_algorithm = bytes_str (f ! 6)\<rparr>)\<rparr>"

lemma demo_relay_pb_ok: "relay_codec_ok demo_relay_pb"
  by (simp add: relay_codec_ok_def demo_relay_pb_def take_fields_n Let_def of_be_be_bytes del: concat.simps list.map)

lemma demo_noise_ik: "noise_ik_ok demo_noise (public_key demo_keys)"
proof -
  have "length (public_key demo_keys k) = 32" for k using demo_keys_ok by (simp add: key_api_ok_def)
  then show ?thesis by (auto simp: noise_ik_ok_def demo_noise_def Let_def)
qed

text \<open>Node \<open>p\<close> has a neighbour 7, through which it reaches node \<open>q\<close>, whose public key is \<open>rk\<close>.\<close>

definition demo_peers :: "PeerId \<Rightarrow> PeerId \<Rightarrow> bytes \<Rightarrow> PeerConnId \<Rightarrow> PeerMap" where
  "demo_peers p q rk cid = \<lparr>map_my_peer_id = p,
    peer_map = [(7, \<lparr>peer_node_id = 7, conns = [(1, demo_conn 1 [5] 90), (2, demo_conn 2 [5] 40)], default_conn_id = cid,
      peer_identity_type = Some Admin, peer_public_key = Some [5]\<rparr>)],
    routes = [\<lparr>ro_next_hop_with_policy = (\<lambda>_ _. Some 7), ro_peer_id_by_ipv4 = (\<lambda>_. None), ro_peer_id_by_ipv6 = (\<lambda>_. None),
      ro_peer_info = [q \<mapsto> (route_peer_info_new ''v'')\<lparr>peer_id := q, noise_static_pubkey := rk\<rparr>],
      ro_origin_my_peer_id = (\<lambda>_ _. None), ro_peers_own_foreign_network = (\<lambda>_. []), ro_list_routes = []\<rparr>],
    alive_client_urls = []\<rparr>"

definition demo_node :: "PeerId \<Rightarrow> bytes \<Rightarrow> PeerId \<Rightarrow> bytes \<Rightarrow> store \<Rightarrow> RelayPeerMap" where
  "demo_node p k q rk st = \<lparr>rp_my_peer_id = p, rp_network_name = ''net'', rp_keypair = Some (k, public_key demo_keys k),
     rp_encryption_algorithm = ''aes-gcm'', rp_secure_mode_enabled = True, rp_peers = demo_peers p q rk 0, rp_foreign_client = None,
     rp_store = st, rp_states = (\<lambda>_. None), pending_handshakes = {}, handshake_locks = (\<lambda>_. None), locks_held = {}, locks_created = 0,
     pending_packets = (\<lambda>_. None)\<rparr>"

lemma demo_send:
  assumes "rp_peers n = demo_peers p q rk cid" and "cid = 0 \<or> cid = 2" and "p \<noteq> 7" and "dst \<noteq> p" and "dst \<noteq> 7"
  shows "send_via_next_hop (\<lambda>_ _. True) msg dst policy n = (Inr (OnConn 7 2 msg), n\<lparr>rp_peers := demo_peers p q rk 2\<rparr>)"
  using assms(2) assms(1,3-5)
  by (auto simp: send_via_next_hop_def get_gateway_peer_id_def has_peer_def demo_peers_def demo_conn_def
      send_msg_directly_def peer_send_msg_def select_conn_def min_latency_conn_def Let_def split: option.splits)

theorem relay_waits_for_session_witness:
  "\<exists>n'. relay_send_all \<lparr>cr_hmac = demo_hmac, cr_api = demo_api, cr_rnd = replicate 12 0, cr_now = 1\<rparr> (\<lambda>_ _. True) 2
      (replicate 40 (0, demo_packet, LeastHop)) (demo_node 1 [1] 2 (public_key demo_keys [2]) empty_store) =
      Some (Inr (Buffered (Some 0)) # replicate 39 (Inr (Buffered None)), n') \<and>
    pending_packets n' 2 = Some (replicate 32 (demo_packet, LeastHop))"
proof -
  let ?n = "demo_node 1 [1] 2 (public_key demo_keys [2]) empty_store" and ?ps = "replicate 40 (0 :: nat, demo_packet, LeastHop)"
  let ?cr = "\<lparr>cr_hmac = demo_hmac, cr_api = demo_api, cr_rnd = replicate 12 0, cr_now = 1\<rparr>"
  have h: "rp_secure_mode_enabled ?n" "fst (store_get (relay_key ?n 2) (rp_store ?n)) = None" "lock_free 2 ?n" "pending_packets ?n 2 = None"
    by (simp_all add: demo_node_def store_get_def empty_store_def lock_free_def)
  obtain l n' where r: "relay_send_all ?cr (\<lambda>_ _. True) 2 ?ps ?n = Some (Inr (Buffered (Some l)) # replicate (length ?ps - 1) (Inr (Buffered None)), n')"
    "pending_packets n' 2 = Some (take 32 (map snd ?ps))"
    using relay_waits_for_session [OF h, of ?ps ?cr "\<lambda>_ _. True"] by auto
  have "l = 0"
  proof -
    have "relay_send_msg ?cr (\<lambda>_ _. True) 0 demo_packet 2 LeastHop ?n = Some (Inr (Buffered (Some 0)), snd (the (relay_send_msg ?cr (\<lambda>_ _. True) 0 demo_packet 2 LeastHop ?n)))"
      by (simp add: relay_send_msg_def demo_node_def ensure_session_def store_get_def empty_store_def get_handshake_lock_def with_state_def Let_def)
    moreover have "?ps = (0, demo_packet, LeastHop) # replicate 39 (0, demo_packet, LeastHop)" by (simp add: numeral_eq_Suc)
    ultimately show ?thesis using r(1) by (auto split: bind_splits)
  qed
  then show ?thesis using r by (simp add: map_replicate_const)
qed

theorem relay_delivers_witness:
  "\<exists>na nb d na' nb'. rp_secure_mode_enabled na \<and>
    relay_send_msg \<lparr>cr_hmac = demo_hmac, cr_api = demo_api, cr_rnd = replicate 12 0, cr_now = 1\<rparr> (\<lambda>_ _. True) 0 demo_packet 2 LeastHop na = Some (Inr (Sent d), na') \<and>
    peer_manager_header (delivery_packet d) = Some (set_encrypted True demo_header) \<and>
    decrypt_if_needed \<lparr>cr_hmac = demo_hmac, cr_api = demo_api, cr_rnd = replicate 12 0, cr_now = 2\<rparr> 0 (delivery_packet d) nb = Some (Inr (True, demo_packet), nb')"
proof -
  let ?s = "\<lparr>ps_peer_id = 2, peer_static_pubkey = None, datagram = demo_session, ps_invalidated = False\<rparr>"
  define st where "st = \<lparr>sessions = (\<lambda>_. Some 0), heap = (\<lambda>_. ?s), next_ref = 1\<rparr>"
  define na where "na = demo_node 1 [1] 2 (public_key demo_keys [2]) st"
  define nb where "nb = demo_node 2 [2] 1 (public_key demo_keys [1]) st"
  let ?cr = "\<lparr>cr_hmac = demo_hmac, cr_api = demo_api, cr_rnd = replicate 12 0, cr_now = 1\<rparr>" and ?cr' = "\<lparr>cr_hmac = demo_hmac, cr_api = demo_api, cr_rnd = replicate 12 0, cr_now = 2\<rparr>"
  have v: "ps_is_valid ?s" by (simp add: ps_is_valid_def demo_facts)
  have seal: "length n = 12 \<Longrightarrow> aead_seal demo_api alg key n m \<noteq> None" for alg key n m by (simp add: demo_api_def)
  obtain q s' where q: "encrypt_payload demo_hmac demo_api (replicate 12 0) 1 AToB demo_packet demo_session = Some (Inr q, s')"
    using encrypt_payload_total [OF demo_facts(1) demo_api_ok _ demo_facts(2,3) seal demo_header_facts(1)] by fastforce
  have dir: "dir_for_sender 1 2 = AToB" by (simp add: dir_for_sender_def)
  have ids: "from_peer_id demo_header = 1" by (simp add: demo_header_def)
  define na1 where "na1 = with_state 0 2 (\<lambda>s. s\<lparr>last_active_at := 0\<rparr>) na"
  have es: "ensure_session 2 na1 = (Inr 0, na1)" using v by (simp add: ensure_session_def store_get_def na1_def na_def demo_node_def st_def with_state_def)
  have pe: "ps_encrypt_payload demo_hmac demo_api (replicate 12 0) 1 1 2 demo_packet ?s = Some (Inr q, ?s\<lparr>datagram := s'\<rparr>)"
    using q v by (simp add: ps_encrypt_payload_def dir)
  let ?na2 = "na1\<lparr>rp_store := heap_put 0 (?s\<lparr>datagram := s'\<rparr>) (rp_store na1)\<rparr>"
  have "session_encrypt ?cr 2 0 demo_packet na1 = Some (Inr q, ?na2)"
    using pe by (simp add: session_encrypt_def na1_def na_def demo_node_def st_def with_state_def)
  moreover have "send_via_next_hop (\<lambda>_ _. True) q 2 LeastHop ?na2 = (Inr (OnConn 7 2 q), ?na2\<lparr>rp_peers := demo_peers 1 2 (public_key demo_keys [2]) 2\<rparr>)"
    by (rule demo_send [where cid = 0]) (simp_all add: na1_def na_def demo_node_def with_state_def)
  moreover have "rp_secure_mode_enabled na1" by (simp add: na1_def na_def demo_node_def)
  ultimately have s: "relay_send_msg ?cr (\<lambda>_ _. True) 0 demo_packet 2 LeastHop na = Some (Inr (Sent (OnConn 7 2 q)), ?na2\<lparr>rp_peers := demo_peers 1 2 (public_key demo_keys [2]) 2\<rparr>)"
    using es by (simp add: relay_send_msg_def Let_def na1_def [symmetric])
  have n: "rp_secure_mode_enabled na" "rp_secure_mode_enabled nb" "rp_my_peer_id na = 1" "rp_my_peer_id nb = 2"
    "sessions (rp_store na) (relay_key na 2) = Some 0" "heap (rp_store na) 0 = ?s" "sessions (rp_store nb) (relay_key nb 1) = Some 0" "heap (rp_store nb) 0 = ?s"
    by (simp_all add: na_def nb_def demo_node_def st_def)
  have "EncryptionAlgorithm_try_from (send_cipher_algorithm demo_session) \<noteq> Some EA_Xor" by (simp add: demo_facts(4))
  then have "peer_manager_header q = Some (set_encrypted True demo_header) \<and> (\<exists>nb'. decrypt_if_needed ?cr' 0 q nb = Some (Inr (True, demo_packet), nb'))"
    using relay_delivers [where cr = ?cr and cr' = ?cr' and now' = 0, OF _ _ _ _ _ n(1-5) n(6) [symmetric] n(7) n(8) [symmetric] v _ _ refl _ _ demo_header_facts ids _ _ s]
      demo_facts demo_api_ok by (simp add: dir)
  then show ?thesis using n(1) s by (metis delivery_packet.simps(2))
qed

lemma demo_send_handshake:
  assumes "rp_peers n = demo_peers p q rk cid" and "cid = 0 \<or> cid = 2" and "p \<noteq> 7" and "dst \<noteq> p" and "dst \<noteq> 7"
  shows "\<exists>d. send_handshake_packet u (\<lambda>_ _. True) body t dst policy n = Some (Inr d, n\<lparr>rp_peers := demo_peers p q rk 2\<rparr>)"
proof -
  obtain x h where x: "new_with_payload u body = Some x" "peer_manager_header x = Some h"
    using new_with_payload_spec [of u body] by auto
  then obtain y where "fill_peer_manager_hdr (rp_my_peer_id n) dst (PacketType_code t) x = Some y"
    using fill_peer_manager_hdr_spec [of x "rp_my_peer_id n" dst "PacketType_code t"] by auto
  then show ?thesis using x demo_send [OF assms] by (simp add: send_handshake_packet_def)
qed

lemma demo_node_facts:
  "rp_keypair (demo_node p k q rk st) = Some (k, public_key demo_keys k)"
  "rk \<noteq> [] \<Longrightarrow> get_remote_static_pubkey (demo_node p k q rk st) q = Some rk" "public_key demo_keys k \<noteq> []"
  using demo_keys_ok
  by (auto simp: demo_node_def get_remote_static_pubkey_def get_route_peer_info_def demo_peers_def key_api_ok_def
      dest!: spec [of _ k])

lemma demo_relay_start:
  assumes "rk \<noteq> []" and "p \<noteq> 7" and "q \<noteq> p" and "q \<noteq> 7"
  shows "\<exists>d w. relay_handshake_start demo_noise demo_relay_pb u (\<lambda>_ _. True) uuid eph q policy (demo_node p k q rk empty_store) =
    Some (Inr (d, w), (demo_node p k q rk empty_store)\<lparr>pending_handshakes := {q}, rp_peers := demo_peers p q rk 2\<rparr>)"
proof -
  let ?n = "demo_node p k q rk empty_store"
  let ?m = "\<lparr>r1_version = RELAY_NOISE_VERSION, r1_session_generation = None, r1_conn_id = Some uuid, r1_client_encryption_algorithm = rp_encryption_algorithm ?n\<rparr>"
  obtain c hs where w: "write_message demo_noise (k, RELAY_NOISE_PROLOGUE, None) (enc_r1 demo_relay_pb ?m) = Some (c, hs)" using demo_write by blast
  obtain d where d: "send_handshake_packet u (\<lambda>_ _. True) c PT_RelayHandshake q policy (?n\<lparr>pending_handshakes := insert q (pending_handshakes ?n)\<rparr>) =
      Some (Inr d, ?n\<lparr>pending_handshakes := {q}, rp_peers := demo_peers p q rk 2\<rparr>)"
    using demo_send_handshake [of "?n\<lparr>pending_handshakes := insert q (pending_handshakes ?n)\<rparr>" p q rk 0 q u c PT_RelayHandshake policy] assms(2-4)
    by (auto simp: demo_node_def)
  have "build_initiator demo_noise IK RELAY_NOISE_PROLOGUE k (Some rk) eph = Some (k, RELAY_NOISE_PROLOGUE, None)" by (simp add: demo_noise_def)
  moreover have "store_get (relay_key ?n q) (rp_store ?n) = (None, rp_store ?n)" by (simp add: demo_node_def store_get_def empty_store_def)
  ultimately show ?thesis using w d demo_node_facts(1) demo_node_facts(2) [OF assms(1)] by (simp add: relay_handshake_start_def)
qed

theorem relay_race_resolved_witness:
  "\<exists>na nb da wa db d ds nb' na1 ra na2 rb.
    handle_relay_msg1 demo_noise demo_relay_pb \<lparr>cr_hmac = demo_hmac, cr_api = demo_api, cr_rnd = replicate 12 0, cr_now = 1\<rparr> (\<lambda>_. 0) (\<lambda>_ _. True) 0
      [] 0 [] (delivery_packet db) 2 na = Some (Inl RouteError, na) \<and>
    handle_relay_msg1 demo_noise demo_relay_pb \<lparr>cr_hmac = demo_hmac, cr_api = demo_api, cr_rnd = replicate 12 0, cr_now = 1\<rparr> (\<lambda>_. 0) (\<lambda>_ _. True) 0
      (replicate 32 4) 6 [] (delivery_packet da) 1 nb = Some (Inr (d # ds), nb') \<and>
    relay_handshake_finish demo_noise demo_relay_pb 0 0 0 2 wa (Reply (delivery_packet d)) na1 = Some (Inr ra, na2) \<and>
    ps_root_key (heap (rp_store na2) ra) = ps_root_key (heap (rp_store nb') rb)"
proof -
  let ?ka = "public_key demo_keys [1]" and ?kb = "public_key demo_keys [2]" and ?u = "\<lambda>_ :: nat. 0 :: u8" and ?T = "(\<lambda>_ _. True) :: sink"
  let ?cr = "\<lparr>cr_hmac = demo_hmac, cr_api = demo_api, cr_rnd = replicate 12 0, cr_now = 1\<rparr>"
  define na0 nb0 where n0: "na0 = demo_node 1 [1] 2 ?kb empty_store" "nb0 = demo_node 2 [2] 1 ?ka empty_store"
  define nb where "nb = nb0\<lparr>pending_handshakes := {1}, rp_peers := demo_peers 2 1 ?ka 2\<rparr>"
  obtain da wa na where a: "relay_handshake_start demo_noise demo_relay_pb ?u ?T 5 [] 2 LeastHop na0 = Some (Inr (da, wa), na)"
    using demo_relay_start [OF demo_node_facts(3), of 1 2] unfolding n0 by fastforce
  obtain db wb where b: "relay_handshake_start demo_noise demo_relay_pb ?u ?T 6 [] 1 LeastHop nb0 = Some (Inr (db, wb), nb)"
    using demo_relay_start [OF demo_node_facts(3), of 2 1] unfolding n0 nb_def by fastforce
  have e: "sessions (rp_store na0) key = None" "sessions (rp_store nb0) key = None" for key by (simp_all add: n0 demo_node_def empty_store_def)
  obtain m1 c1 h1 where A: "build_initiator demo_noise IK RELAY_NOISE_PROLOGUE [1] (Some ?kb) [] = Some ([1], RELAY_NOISE_PROLOGUE, None)"
    "write_message demo_noise ([1], RELAY_NOISE_PROLOGUE, None) (enc_r1 demo_relay_pb m1) = Some (c1, rw_hs wa)"
    "payload (delivery_packet da) = Some c1" "peer_manager_header (delivery_packet da) = Some h1" "pm_packet_type h1 = PacketType_code PT_RelayHandshake"
    using relay_start_spec [OF a] by (auto simp: n0 demo_node_facts demo_noise_def)
  have rb: "build_responder demo_noise IK RELAY_NOISE_PROLOGUE [2] [] = Some ([2], RELAY_NOISE_PROLOGUE, None)" by (simp add: demo_noise_def)
  obtain b1 where N: "read_message demo_noise ([2], RELAY_NOISE_PROLOGUE, None) c1 = Some (enc_r1 demo_relay_pb m1, b1)" "get_remote_static demo_noise b1 = Some ?ka"
    using demo_noise_ik [unfolded noise_ik_ok_def, rule_format, OF conjI [OF A(1) rb] A(2)] by blast
  have dec: "relay_decode_message demo_noise (dec_r1 demo_relay_pb) PT_RelayHandshake ([2], RELAY_NOISE_PROLOGUE, None) (delivery_packet da) = Some (Some (m1, b1))"
    using A(3-5) N(1) demo_relay_pb_ok by (simp add: relay_decode_message_def relay_codec_ok_def)
  obtain d ds nb' where h: "handle_relay_msg1 demo_noise demo_relay_pb ?cr ?u ?T 0 (replicate 32 4) 6 [] (delivery_packet da) 1 nb = Some (Inr (d # ds), nb')"
  proof -
    let ?n = "nb\<lparr>pending_handshakes := pending_handshakes nb - {1}\<rparr>"
    obtain ret st where up: "upsert_responder_session 1 (replicate 32 4) (relay_key ?n 1) (r1_session_generation m1) (rp_encryption_algorithm ?n)
        (r1_client_encryption_algorithm m1) (key_32 ?ka) (rp_store ?n) = (Inr ret, st)"
      using e(2) by (simp add: upsert_responder_session_def nb_def alloc_def Let_def)
    obtain c2 b2 where w: "write_message demo_noise b1 (enc_r2 demo_relay_pb (relay_msg2 6 m1 ret (rp_encryption_algorithm ?n))) = Some (c2, b2)" using demo_write by blast
    let ?n1 = "register_handshake_success 0 1 (?n\<lparr>rp_store := st\<rparr>)"
    obtain d where d: "send_handshake_packet ?u ?T c2 PT_RelayHandshakeAck 1 LeastHop ?n1 = Some (Inr d, ?n1\<lparr>rp_peers := demo_peers 2 1 ?ka 2\<rparr>)"
      using demo_send_handshake [of ?n1 2 1 ?ka 2 1 ?u c2 PT_RelayHandshakeAck LeastHop] by (auto simp: register_handshake_success_def nb_def)
    have f: "flush_pending_packets ?cr ?T 1 (ur_session ret) (?n1\<lparr>rp_peers := demo_peers 2 1 ?ka 2\<rparr>) = Some ([], ?n1\<lparr>rp_peers := demo_peers 2 1 ?ka 2\<rparr>)"
      by (simp add: flush_pending_packets_def register_handshake_success_def nb_def n0 demo_node_def)
    have "rp_keypair ?n = Some ([2], public_key demo_keys [2])" by (simp add: nb_def n0 demo_node_facts)
    moreover have "get_remote_static_pubkey ?n 1 = Some ?ka"
      using demo_node_facts(3) by (simp add: nb_def n0 get_remote_static_pubkey_def get_route_peer_info_def demo_peers_def)
    ultimately have "answer_relay_msg1 demo_noise demo_relay_pb ?cr ?u ?T 0 (replicate 32 4) 6 [] (delivery_packet da) 1 ?n = Some (Inr [d], ?n1\<lparr>rp_peers := demo_peers 2 1 ?ka 2\<rparr>)"
      using rb dec N(2) up w d f by (simp add: answer_relay_msg1_def Let_def)
    then show ?thesis using that by (simp add: handle_relay_msg1_def nb_def n0 demo_node_def)
  qed
  have k: "rp_my_peer_id na0 = 1" "rp_my_peer_id nb0 = 2" "rp_network_name na0 = rp_network_name nb0" "rp_keypair na0 = Some ([1], ?ka)"
    "rp_keypair nb0 = Some ([2], ?kb)" by (simp_all add: n0 demo_node_def)
  have g: "get_remote_static_pubkey na0 2 = Some ?kb" using demo_node_facts(2,3) by (simp add: n0)
  have R: "handle_relay_msg1 demo_noise demo_relay_pb ?cr ?u ?T 0 [] 0 [] (delivery_packet db) 2 na = Some (Inl RouteError, na) \<and>
    (\<exists>na1 ra na2 rb. relay_handshake_finish demo_noise demo_relay_pb 0 0 0 2 wa (Reply (delivery_packet d)) na1 = Some (Inr ra, na2) \<and>
      ps_root_key (heap (rp_store na2) ra) = ps_root_key (heap (rp_store nb') rb))"
    using relay_race_resolved [OF demo_noise_ik demo_relay_pb_ok _ _ k g e a b h, of ?cr 0 "[]" 0 "[]" 0 0 0] by auto
  then show ?thesis using h by blast
qed

end
