(* ===== verification/Foreign_Network_Manager.thy ===== *)
theory Foreign_Network_Manager
  imports Relay_Peer_Map Token_Bucket
begin

text \<open>
  \<open>peers/foreign_network_manager.rs\<close>: a node serves networks it is not a member of. Each such network has an entry with
  a peer map and relay sessions of its own; sessions and rate limiters are shared by all entries. Whether a new connection
  is admitted, the packets that arrive from peers of a foreign network, and the clean-up after events. The route service
  of a foreign network is the one of the node (\<open>Route_Service\<close>); its lookups enter as a parameter. Metrics are left out.
\<close>

section \<open>State\<close>

definition MAX_DIRECT_CONNS_PER_PEER_IN_FOREIGN_NETWORK :: nat where "MAX_DIRECT_CONNS_PER_PEER_IN_FOREIGN_NETWORK = 3"

text \<open>The allocation number of an entry stands for its address, which \<open>Arc::ptr_eq\<close> compares.\<close>

record ForeignNetworkEntry =
  fe_id :: nat
  fe_network :: NetworkIdentity
  fe_relay :: RelayPeerMap
  fe_relay_data :: bool
  fe_bps_limiter :: "nat option"
  fe_trusted_keys :: TrustedKeyMapManager
  fe_event_handler_started :: bool

record ForeignNetworkManager =
  network_peer_maps :: "string \<rightharpoonup> ForeignNetworkEntry"
  peer_network_map :: "PeerId \<rightharpoonup> string set"
  network_peer_last_update :: "string \<rightharpoonup> nat"
  fm_store :: store
  fm_buckets :: TokenBucketManager
  fm_entries_created :: nat

text \<open>
  What the manager reads of the node: flags, keys, clock, the wildcard matcher (crate \<open>wildmatch\<close>), the standard library's
  hasher behind the digest of an identity, and the route of a new entry.
\<close>

record foreign_ctx =
  fx_relay_all_peer_rpc :: bool
  fx_relay_network_whitelist :: string
  fx_wildmatch :: "string \<Rightarrow> string \<Rightarrow> bool"
  fx_disable_relay_data :: bool
  fx_foreign_relay_bps_limit :: u64
  fx_secure_mode_enabled :: bool
  fx_keypair :: "(bytes \<times> bytes) option"
  fx_encryption_algorithm :: string
  fx_hash :: "bytes \<Rightarrow> u64"
  fx_unix_now :: int
  fx_route :: "NetworkIdentity \<Rightarrow> PeerId \<Rightarrow> route_ops"

text \<open>\<open>split(" ")\<close>: the pieces between single spaces, empty ones included.\<close>

fun split_space :: "string \<Rightarrow> string list" where
  "split_space [] = [[]]"
| "split_space (c # cs) =
     (if c = CHR '' '' then [] # split_space cs
      else case split_space cs of w # ws \<Rightarrow> (c # w) # ws | [] \<Rightarrow> [[c]])"

definition check_network_in_whitelist :: "foreign_ctx \<Rightarrow> string \<Rightarrow> bool" where
  "check_network_in_whitelist cx name = list_ex (\<lambda>w. fx_wildmatch cx w name) (split_space (fx_relay_network_whitelist cx))"

section \<open>Entries\<close>

definition foreign_relay_new :: "foreign_ctx \<Rightarrow> NetworkIdentity \<Rightarrow> PeerId \<Rightarrow> store \<Rightarrow> RelayPeerMap" where
  "foreign_relay_new cx ni my st = \<lparr>rp_my_peer_id = my, rp_network_name = ni_network_name ni, rp_keypair = fx_keypair cx,
     rp_encryption_algorithm = fx_encryption_algorithm cx, rp_secure_mode_enabled = fx_secure_mode_enabled cx,
     rp_peers = peer_map_new my, rp_foreign_client = None, rp_store = st, rp_states = (\<lambda>_. None), pending_handshakes = {},
     handshake_locks = (\<lambda>_. None), locks_held = {}, locks_created = 0, pending_packets = (\<lambda>_. None)\<rparr>"

text \<open>\<open>ForeignNetworkEntry::new\<close> and the route that \<open>prepare\<close> adds.\<close>

definition foreign_entry_new :: "foreign_ctx \<Rightarrow> NetworkIdentity \<Rightarrow> PeerId \<Rightarrow> bool \<Rightarrow> ForeignNetworkManager \<Rightarrow> ForeignNetworkEntry \<times> ForeignNetworkManager" where
  "foreign_entry_new cx ni my relay_data m =
     (let limit = fx_foreign_relay_bps_limit cx;
          (limiter, bm) = (if limit \<noteq> - 1
            then let (r, bm) = get_or_create (ni_network_name ni)
                       (bucket_config_from \<lparr>lc_burst_rate = None, lc_bps = Some limit, lc_fill_duration_ms = None\<rparr>) (fm_buckets m)
                 in (Some r, bm)
            else (None, fm_buckets m));
          n = foreign_relay_new cx ni my (fm_store m);
          n = n\<lparr>rp_peers := add_route (fx_route cx ni my) (rp_peers n)\<rparr>
      in (\<lparr>fe_id = fm_entries_created m, fe_network = ni, fe_relay = n, fe_relay_data = relay_data, fe_bps_limiter = limiter,
           fe_trusted_keys = (\<lambda>_. None), fe_event_handler_started = False\<rparr>,
          m\<lparr>fm_buckets := bm, fm_entries_created := Suc (fm_entries_created m)\<rparr>))"

definition put_entry :: "string \<Rightarrow> ForeignNetworkEntry \<Rightarrow> ForeignNetworkManager \<Rightarrow> ForeignNetworkManager" where
  "put_entry name e m = m\<lparr>network_peer_maps := (network_peer_maps m)(name \<mapsto> e)\<rparr>"

definition fm_get_or_insert_entry ::
  "foreign_ctx \<Rightarrow> nat \<Rightarrow> NetworkIdentity \<Rightarrow> PeerId \<Rightarrow> PeerId \<Rightarrow> bool \<Rightarrow> ForeignNetworkManager \<Rightarrow> (ForeignNetworkEntry \<times> bool) \<times> ForeignNetworkManager" where
  "fm_get_or_insert_entry cx now ni my dst relay_data m =
     (let name = ni_network_name ni;
          (e, new_added, m) = (case network_peer_maps m name of
              Some e \<Rightarrow> (e, False, m)
            | None \<Rightarrow> let (e, m) = foreign_entry_new cx ni my relay_data m in (e, True, put_entry name e m));
          names = (case peer_network_map m dst of Some s \<Rightarrow> s | None \<Rightarrow> {})
      in ((e, new_added), m\<lparr>peer_network_map := (peer_network_map m)(dst \<mapsto> insert name names),
            network_peer_last_update := (network_peer_last_update m)(name \<mapsto> now)\<rparr>))"

definition forget_peer_network :: "string \<Rightarrow> PeerId \<Rightarrow> (PeerId \<rightharpoonup> string set) \<Rightarrow> PeerId \<rightharpoonup> string set" where
  "forget_peer_network name p f = (case f p of
     None \<Rightarrow> f
   | Some s \<Rightarrow> if s - {name} = {} then f(p := None) else f(p \<mapsto> s - {name}))"

definition foreign_peers :: "ForeignNetworkEntry \<Rightarrow> (PeerId \<times> Peer) list" where
  "foreign_peers e = peer_map (rp_peers (fe_relay e))"

definition fm_remove_peer :: "PeerId \<Rightarrow> string \<Rightarrow> ForeignNetworkManager \<Rightarrow> ForeignNetworkManager" where
  "fm_remove_peer p name m =
     (let m = m\<lparr>peer_network_map := forget_peer_network name p (peer_network_map m)\<rparr>
      in case network_peer_maps m name of
        Some e \<Rightarrow> if foreign_peers e = []
          then m\<lparr>network_peer_maps := (network_peer_maps m)(name := None), network_peer_last_update := (network_peer_last_update m)(name := None)\<rparr>
          else m
      | None \<Rightarrow> m)"

definition clear_no_conn_peer :: "string \<Rightarrow> ForeignNetworkManager \<Rightarrow> ForeignNetworkManager" where
  "clear_no_conn_peer name m = (case network_peer_maps m name of
     None \<Rightarrow> m
   | Some e \<Rightarrow> put_entry name (e\<lparr>fe_relay := (fe_relay e)\<lparr>rp_peers := clean_peer_without_conn (rp_peers (fe_relay e))\<rparr>\<rparr>) m)"

definition remove_network :: "string \<Rightarrow> ForeignNetworkManager \<Rightarrow> ForeignNetworkManager" where
  "remove_network name m =
     (let m = (case network_peer_maps m name of
          None \<Rightarrow> m
        | Some e \<Rightarrow> m\<lparr>network_peer_maps := (network_peer_maps m)(name := None),
            peer_network_map := fold (forget_peer_network name) (map fst (foreign_peers e)) (peer_network_map m)\<rparr>)
      in m\<lparr>network_peer_last_update := (network_peer_last_update m)(name := None)\<rparr>)"

definition remove_network_if_current :: "string \<Rightarrow> nat \<Rightarrow> ForeignNetworkManager \<Rightarrow> ForeignNetworkManager" where
  "remove_network_if_current name expected m = (case network_peer_maps m name of
     None \<Rightarrow> m
   | Some e \<Rightarrow> if fe_id e = expected then remove_network name m else m)"

section \<open>Admission\<close>

datatype fm_error = NotInWhitelist | NotEstablished | MyPeerIdMismatch | InvalidIdentityType | IdentityNotTrusted | TooManyDirectConns
  | FmPeerMap pm_error

definition should_reject_credential_trust_path :: "PeerIdentityType \<Rightarrow> bool" where
  "should_reject_credential_trust_path t \<longleftrightarrow> t = Admin"

definition credential_pubkey_is_trusted :: "int \<Rightarrow> TrustedKeyMapManager \<Rightarrow> string \<Rightarrow> bytes \<Rightarrow> bool" where
  "credential_pubkey_is_trusted now keys name pk \<longleftrightarrow>
     length pk = 32 \<and> verify_trusted_key_with_source now keys pk name (Some OspfCredential)"

definition is_existing_credential_pubkey_trusted :: "int \<Rightarrow> ForeignNetworkManager \<Rightarrow> string \<Rightarrow> bytes \<Rightarrow> bool" where
  "is_existing_credential_pubkey_trusted now m name pk = (case network_peer_maps m name of
     None \<Rightarrow> False
   | Some e \<Rightarrow> credential_pubkey_is_trusted now (fe_trusted_keys e) (ni_network_name (fe_network e)) pk)"

definition fm_get_network_peer_id :: "ForeignNetworkManager \<Rightarrow> string \<Rightarrow> PeerId option" where
  "fm_get_network_peer_id m name = map_option (\<lambda>e. rp_my_peer_id (fe_relay e)) (network_peer_maps m name)"

text \<open>The part of \<open>add_peer_conn\<close> under the lock of the entry: the reason to refuse, if any.\<close>

definition fm_refusal :: "foreign_ctx \<Rightarrow> ForeignNetworkEntry \<Rightarrow> bool \<Rightarrow> NetworkIdentity \<Rightarrow> PeerId \<Rightarrow> PeerConn \<Rightarrow> fm_error option" where
  "fm_refusal cx e new_added peer_network my pc =
     (let same_identity = network_identity_eq (fx_hash cx) (fe_network e) peer_network;
          trusted = network_secret_digest_is_empty peer_network \<and>
            credential_pubkey_is_trusted (fx_unix_now cx) (fe_trusted_keys e) (ni_network_name (fe_network e)) (noise_remote_static_pubkey pc);
          mismatch = trusted \<and> should_reject_credential_trust_path (conn_identity_type pc)
      in if \<not> (same_identity \<or> trusted) \<or> mismatch \<or> rp_my_peer_id (fe_relay e) \<noteq> my
         then Some (if rp_my_peer_id (fe_relay e) \<noteq> my then MyPeerIdMismatch else if mismatch then InvalidIdentityType else IdentityNotTrusted)
         else if new_added then None
         else case map_of (foreign_peers e) (conn_peer_id pc) of
           Some peer \<Rightarrow> if card (get_directly_connections peer) \<ge> MAX_DIRECT_CONNS_PER_PEER_IN_FOREIGN_NETWORK then Some TooManyDirectConns else None
         | None \<Rightarrow> None)"

definition fm_add_peer_conn ::
  "foreign_ctx \<Rightarrow> nat \<Rightarrow> PeerConnId \<Rightarrow> u64 \<Rightarrow> bool \<Rightarrow> conn \<Rightarrow> ForeignNetworkManager \<Rightarrow> ((fm_error + unit) \<times> ForeignNetworkManager) may_panic" where
  "fm_add_peer_conn cx now cid latency punched c m = do {
     pc \<leftarrow> peer_conn_of cid latency False punched c;
     peer_network \<leftarrow> conn_network_identity c;
     let name = ni_network_name peer_network;
     let in_whitelist = check_network_in_whitelist cx name;
     if \<not> in_whitelist \<and> \<not> fx_relay_all_peer_rpc cx then Some (Inl NotInWhitelist, m)
     else if network_secret_digest_is_empty peer_network \<and> network_peer_maps m name = None then Some (Inl NotEstablished, m)
     else
       let ((e, new_added), m) = fm_get_or_insert_entry cx now peer_network (c_my_peer_id c) (conn_peer_id pc) in_whitelist m;
           e = e\<lparr>fe_event_handler_started := True\<rparr>;
           m = put_entry name e m;
           rollback = (\<lambda>m. if new_added then fm_remove_peer (conn_peer_id pc) name m else m)
       in Some (case fm_refusal cx e new_added peer_network (c_my_peer_id c) pc of
           Some err \<Rightarrow> (Inl err, rollback m)
         | None \<Rightarrow> (case map_add_new_peer_conn pc (rp_peers (fe_relay e)) of
             (Inl err, pm) \<Rightarrow> (Inl (FmPeerMap err), rollback (put_entry name (e\<lparr>fe_relay := (fe_relay e)\<lparr>rp_peers := pm\<rparr>\<rparr>) m))
           | (Inr _, pm) \<Rightarrow> (Inr (), put_entry name (e\<lparr>fe_relay := (fe_relay e)\<lparr>rp_peers := pm\<rparr>\<rparr>) m))) }"

text \<open>The task of \<open>ensure_event_handler_started\<close>: one event, or its end.\<close>

datatype fm_event = PeerRemoved PeerId | PeerConnRemoved | PeerAdded | EventsLost

definition fm_handle_event :: "nat \<Rightarrow> string \<Rightarrow> nat \<Rightarrow> fm_event \<Rightarrow> ForeignNetworkManager \<Rightarrow> ForeignNetworkManager" where
  "fm_handle_event now name entry_id ev m = (case ev of
     PeerRemoved p \<Rightarrow> fm_remove_peer p name (m\<lparr>network_peer_last_update := (network_peer_last_update m)(name \<mapsto> now)\<rparr>)
   | PeerConnRemoved \<Rightarrow> clear_no_conn_peer name m
   | PeerAdded \<Rightarrow> m\<lparr>network_peer_last_update := (network_peer_last_update m)(name \<mapsto> now)\<rparr>
   | EventsLost \<Rightarrow> remove_network_if_current name entry_id m)"

section \<open>Packets\<close>

definition is_data_traffic :: "u8 \<Rightarrow> bool" where
  "is_data_traffic t \<longleftrightarrow> t \<in> PacketType_code ` {PT_Data, PT_KcpSrc, PT_KcpDst, PT_QuicSrc, PT_QuicDst, PT_DataWithKcpSrcModified, PT_DataWithQuicSrcModified}"

definition is_relay_data_packet_type :: "u8 \<Rightarrow> bool" where
  "is_relay_data_packet_type t \<longleftrightarrow> is_data_traffic t \<or> t = PacketType_code PT_ForeignNetworkPacket"

definition is_rpc_packet_type :: "u8 \<Rightarrow> bool" where
  "is_rpc_packet_type t \<longleftrightarrow> t \<in> PacketType_code ` {PT_TaRpc, PT_RpcReq, PT_RpcResp}"

text \<open>The relay sessions of an entry work on the shared store.\<close>

definition entry_relay :: "ForeignNetworkEntry \<Rightarrow> ForeignNetworkManager \<Rightarrow> RelayPeerMap" where
  "entry_relay e m = (fe_relay e)\<lparr>rp_store := fm_store m\<rparr>"

definition put_relay :: "string \<Rightarrow> ForeignNetworkEntry \<Rightarrow> RelayPeerMap \<Rightarrow> ForeignNetworkManager \<Rightarrow> ForeignNetworkManager" where
  "put_relay name e n m = (put_entry name (e\<lparr>fe_relay := n\<rparr>) m)\<lparr>fm_store := rp_store n\<rparr>"

text \<open>What became of a packet: dropped, given to the relay handshake, to the RPC service, sent, kept until a session is there, or passed on to the peer manager.\<close>

datatype foreign_fate = FDropped | FHandshake "pm_error + handled" | FRpc zc_packet | FSent delivery | FWaits | FToManager zc_packet

definition foreign_recv_local ::
  "('hs, 'z) noise_api_scheme \<Rightarrow> relay_codec \<Rightarrow> crypto \<Rightarrow> (nat \<Rightarrow> u8) \<Rightarrow> sink \<Rightarrow> nat \<Rightarrow> bytes \<Rightarrow> 128 word \<Rightarrow> bytes \<Rightarrow> string \<Rightarrow> ForeignNetworkEntry
    \<Rightarrow> PeerManagerHeader \<Rightarrow> zc_packet \<Rightarrow> ForeignNetworkManager \<Rightarrow> (foreign_fate \<times> ForeignNetworkManager) may_panic" where
  "foreign_recv_local nz pb cr u sink now fresh_key uuid eph name e hdr packet m =
     (if pm_packet_type hdr \<in> PacketType_code ` {PT_RelayHandshake, PT_RelayHandshakeAck}
      then do {
        (r, n) \<leftarrow> handle_handshake_packet nz pb cr u sink now fresh_key uuid eph packet (entry_relay e m);
        Some (FHandshake r, put_relay name e n m) }
      else do {
        (decoded, m) \<leftarrow> (if rp_secure_mode_enabled (fe_relay e) \<and> is_encrypted hdr
          then do {
            (r, n) \<leftarrow> decrypt_if_needed cr now packet (entry_relay e m);
            Some (case r of Inr (True, q) \<Rightarrow> Some q | _ \<Rightarrow> None, put_relay name e n m) }
          else Some (Some packet, m));
        Some (case decoded of
            None \<Rightarrow> (FDropped, m)
          | Some q \<Rightarrow> (if is_rpc_packet_type (pm_packet_type hdr) then FRpc q else FDropped, m)) })"

definition consume_limit :: "nat option \<Rightarrow> u64 \<Rightarrow> ForeignNetworkManager \<Rightarrow> bool \<times> ForeignNetworkManager" where
  "consume_limit limiter len m = (case limiter of
     None \<Rightarrow> (True, m)
   | Some r \<Rightarrow>
       let (b, ok) = try_consume len (bucket_heap (fm_buckets m) r)
       in (ok, m\<lparr>fm_buckets := (fm_buckets m)\<lparr>bucket_heap := (bucket_heap (fm_buckets m))(r := b)\<rparr>\<rparr>))"

definition foreign_forward ::
  "crypto \<Rightarrow> (nat \<Rightarrow> u8) \<Rightarrow> sink \<Rightarrow> nat \<Rightarrow> string \<Rightarrow> ForeignNetworkEntry \<Rightarrow> PeerManagerHeader \<Rightarrow> zc_packet \<Rightarrow> ForeignNetworkManager
    \<Rightarrow> (foreign_fate \<times> ForeignNetworkManager) may_panic" where
  "foreign_forward cr u sink now name e hdr packet m =
     (let n = entry_relay e m; my = rp_my_peer_id n; dst = to_peer_id hdr; gateway = get_gateway_peer_id (rp_peers n) dst LeastHop
      in case gateway of
        Some g \<Rightarrow>
          if has_peer (rp_peers n) g
          then if g \<noteq> dst \<and> from_peer_id hdr = my
               then do {
                 (r, n) \<leftarrow> relay_send_msg cr sink now packet dst LeastHop n;
                 Some (case r of Inl _ \<Rightarrow> FDropped | Inr (Sent d) \<Rightarrow> FSent d | Inr (Buffered _) \<Rightarrow> FWaits, put_relay name e n m) }
               else let (r, pm) = send_msg_directly sink packet g (rp_peers n)
                    in Some (case r of Inl _ \<Rightarrow> FDropped | Inr d \<Rightarrow> FSent d, put_relay name e (n\<lparr>rp_peers := pm\<rparr>) m)
          else do {
            fp \<leftarrow> new_for_foreign_network u (str_bytes name) dst packet;
            fp \<leftarrow> fill_peer_manager_hdr my g (PacketType_code PT_ForeignNetworkPacket) fp;
            Some (FToManager fp, m) }
      | None \<Rightarrow> do {
            fp \<leftarrow> new_for_foreign_network u (str_bytes name) dst packet;
            fp \<leftarrow> fill_peer_manager_hdr my dst (PacketType_code PT_ForeignNetworkPacket) fp;
            Some (FToManager fp, m) })"

text \<open>One round of \<open>start_packet_recv\<close>.\<close>

definition foreign_recv_packet ::
  "foreign_ctx \<Rightarrow> ('hs, 'z) noise_api_scheme \<Rightarrow> relay_codec \<Rightarrow> crypto \<Rightarrow> (nat \<Rightarrow> u8) \<Rightarrow> sink \<Rightarrow> nat \<Rightarrow> bytes \<Rightarrow> 128 word \<Rightarrow> bytes \<Rightarrow> string
    \<Rightarrow> ForeignNetworkEntry \<Rightarrow> zc_packet \<Rightarrow> ForeignNetworkManager \<Rightarrow> (foreign_fate \<times> ForeignNetworkManager) may_panic" where
  "foreign_recv_packet cx nz pb cr u sink now fresh_key uuid eph name e packet m = (case peer_manager_header packet of
     None \<Rightarrow> Some (FDropped, m)
   | Some hdr \<Rightarrow>
       if to_peer_id hdr = rp_my_peer_id (fe_relay e)
       then foreign_recv_local nz pb cr u sink now fresh_key uuid eph name e hdr packet m
       else if is_relay_data_packet_type (pm_packet_type hdr)
       then if \<not> fe_relay_data e \<or> fx_disable_relay_data cx then Some (FDropped, m)
            else let (ok, m) = consume_limit (fe_bps_limiter e) (ucast (pm_len hdr)) m
                 in if ok then foreign_forward cr u sink now name e hdr packet m else Some (FDropped, m)
       else foreign_forward cr u sink now name e hdr packet m)"

definition forward_foreign_network_packet :: "sink \<Rightarrow> string \<Rightarrow> PeerId \<Rightarrow> zc_packet \<Rightarrow> ForeignNetworkManager \<Rightarrow> (pm_error + delivery) \<times> ForeignNetworkManager" where
  "forward_foreign_network_packet sink name dst msg m = (case network_peer_maps m name of
     None \<Rightarrow> (Inl RouteError, m)
   | Some e \<Rightarrow>
       let (r, pm) = map_send_msg sink msg dst LeastHop (rp_peers (fe_relay e))
       in (r, put_entry name (e\<lparr>fe_relay := (fe_relay e)\<lparr>rp_peers := pm\<rparr>\<rparr>) m))"

text \<open>The networks of the peer are tried in some order until one of them knows the connection.\<close>

fun close_in_networks :: "PeerId \<Rightarrow> PeerConnId \<Rightarrow> ForeignNetworkManager \<Rightarrow> string list \<Rightarrow> pm_error + PeerConnId" where
  "close_in_networks p cid m [] = Inl ConnNotFound"
| "close_in_networks p cid m (name # names) = (case network_peer_maps m name of
     None \<Rightarrow> close_in_networks p cid m names
   | Some e \<Rightarrow> (case map_of (foreign_peers e) p of
       None \<Rightarrow> close_in_networks p cid m names
     | Some peer \<Rightarrow> (case close_peer_conn cid peer of
         Inr r \<Rightarrow> Inr r
       | Inl ConnNotFound \<Rightarrow> close_in_networks p cid m names
       | Inl err \<Rightarrow> Inl err)))"

text \<open>\<open>list_peers\<close> of the route interface: the peers elsewhere in the mesh and the connected ones, without the node itself.\<close>

definition foreign_list_peers :: "(NetworkIdentity \<Rightarrow> PeerId list) \<Rightarrow> ForeignNetworkEntry \<Rightarrow> PeerId list" where
  "foreign_list_peers accessor e = filter (\<lambda>p. p \<noteq> rp_my_peer_id (fe_relay e)) (accessor (fe_network e) @ list_peers_with_conn (rp_peers (fe_relay e)))"

record foreign_network_listing =
  fl_network_secret_digest :: bytes
  fl_my_peer_id_for_this_network :: PeerId
  fl_peers :: "(PeerId \<times> PeerConn list) list"

definition list_foreign_networks :: "ForeignNetworkManager \<Rightarrow> string \<rightharpoonup> foreign_network_listing" where
  "list_foreign_networks m = (\<lambda>name. map_option (\<lambda>e. \<lparr>
     fl_network_secret_digest = (case ni_network_secret_digest (fe_network e) of Some d \<Rightarrow> d | None \<Rightarrow> replicate 32 0),
     fl_my_peer_id_for_this_network = rp_my_peer_id (fe_relay e),
     fl_peers = map (\<lambda>(p, peer). (p, fst (list_peer_conns peer))) (foreign_peers e)\<rparr>) (network_peer_maps m name))"


section \<open>Properties of peers that no relay operation breaks\<close>

definition all_peers :: "(PeerId \<Rightarrow> Peer \<Rightarrow> bool) \<Rightarrow> PeerMap \<Rightarrow> bool" where
  "all_peers P m \<longleftrightarrow> list_all (\<lambda>(k, p). P k p) (peer_map m)"

definition relay_ok :: "(PeerId \<Rightarrow> Peer \<Rightarrow> bool) \<Rightarrow> PeerId \<Rightarrow> string \<Rightarrow> RelayPeerMap \<Rightarrow> bool" where
  "relay_ok P my name n \<longleftrightarrow> all_peers P (rp_peers n) \<and> map_my_peer_id (rp_peers n) = my \<and> rp_my_peer_id n = my \<and> rp_network_name n = name"

text \<open>
  A property of peers that does not depend on the chosen connection and survives the end of a connection: then sending,
  handshakes and clean-ups keep it for all peers of a map.
\<close>

locale peer_property =
  fixes P :: "PeerId \<Rightarrow> Peer \<Rightarrow> bool"
  assumes default_conn: "P k p \<Longrightarrow> P k (p\<lparr>default_conn_id := d\<rparr>)"
    and closed_conn: "P k p \<Longrightarrow> P k (conn_closed cid p)"
begin

lemma select: "P k p \<Longrightarrow> P k (snd (select_conn p))"
  using default_conn by (auto simp: select_conn_def Let_def split: option.split)

lemma lookup: "all_peers P m \<Longrightarrow> map_of (peer_map m) k = Some p \<Longrightarrow> P k p"
  by (auto simp: all_peers_def list_all_iff dest!: map_of_SomeD)

lemma updated: "all_peers P m \<Longrightarrow> P k p \<Longrightarrow> all_peers P (m\<lparr>peer_map := AList.update k p (peer_map m)\<rparr>)"
  by (simp add: all_peers_def list_all_update)

lemma send_directly:
  assumes "all_peers P m"
  shows "all_peers P (snd (send_msg_directly sink msg dst m)) \<and> map_my_peer_id (snd (send_msg_directly sink msg dst m)) = map_my_peer_id m"
proof (cases "map_of (peer_map m) dst")
  case (Some peer)
  have "P dst (snd (peer_send_msg sink msg peer))"
    using select [OF lookup [OF assms Some]] by (simp add: peer_send_state)
  then show ?thesis using assms Some
    by (auto simp: send_msg_directly_def Let_def split: prod.splits intro: updated)
qed (use assms in \<open>simp add: send_msg_directly_def\<close>)

lemma map_send:
  assumes "all_peers P m"
  shows "all_peers P (snd (map_send_msg sink msg dst policy m)) \<and> map_my_peer_id (snd (map_send_msg sink msg dst policy m)) = map_my_peer_id m"
  using send_directly [OF assms] assms by (simp add: map_send_msg_def split: option.split)

lemma closed: "all_peers P m \<Longrightarrow> all_peers P (close_peer k m) \<and> map_my_peer_id (close_peer k m) = map_my_peer_id m"
  by (simp add: all_peers_def close_peer_def list_all_delete)

lemma cleaned: "all_peers P m \<Longrightarrow> all_peers P (clean_peer_without_conn m) \<and> map_my_peer_id (clean_peer_without_conn m) = map_my_peer_id m"
proof -
  have "all_peers P m \<Longrightarrow> all_peers P (fold close_peer ks m) \<and> map_my_peer_id (fold close_peer ks m) = map_my_peer_id m" for ks
    by (induction ks arbitrary: m) (simp_all add: closed)
  then show "all_peers P m \<Longrightarrow> ?thesis" by (simp add: clean_peer_without_conn_def)
qed

lemma send_via:
  assumes "send_via_next_hop sink msg dst policy n = (res, n')" and "relay_ok P my name n"
  shows "relay_ok P my name n'"
proof (cases "get_gateway_peer_id (rp_peers n) dst policy")
  case (Some g)
  have s: "all_peers P (snd (send_msg_directly sink msg g (rp_peers n)))"
    "map_my_peer_id (snd (send_msg_directly sink msg g (rp_peers n))) = my"
    using send_directly assms(2) by (auto simp: relay_ok_def)
  show ?thesis using assms Some s
    by (cases "has_peer (rp_peers n) g"; cases "rp_foreign_client n")
      (auto simp: send_via_next_hop_def relay_ok_def split: prod.splits)
qed (use assms in \<open>simp add: send_via_next_hop_def\<close>)

lemma encrypted: "session_encrypt cr dst r msg n = Some (res, n') \<Longrightarrow> relay_ok P my name n \<Longrightarrow> relay_ok P my name n'"
  using session_encrypt_frame by (fastforce simp: relay_ok_def)

lemma with_state: "relay_ok P my name (with_state now p f n) \<longleftrightarrow> relay_ok P my name n"
  by (simp add: relay_ok_def)

lemma ensured: "ensure_session dst n = (res, n') \<Longrightarrow> relay_ok P my name n \<Longrightarrow> relay_ok P my name n'"
  by (auto simp: ensure_session_def get_handshake_lock_def relay_ok_def Let_def split: option.splits prod.splits if_splits)

lemma buffered: "relay_ok P my name (buffer_pending_packet dst msg policy n) \<longleftrightarrow> relay_ok P my name n"
  by (simp add: buffer_pending_packet_def relay_ok_def Let_def)

lemma relay_send:
  assumes "relay_send_msg cr sink now msg dst policy n = Some (res, n')" and "relay_ok P my name n"
  shows "relay_ok P my name n'"
proof -
  let ?n = "with_state now dst (\<lambda>s. s\<lparr>last_active_at := now\<rparr>) n"
  have n: "relay_ok P my name ?n" using assms(2) by (simp add: with_state)
  show ?thesis
  proof (cases "rp_secure_mode_enabled n")
    case False
    then obtain r where "send_via_next_hop sink msg dst policy ?n = (r, n')"
      using assms(1) by (auto simp: relay_send_msg_def Let_def split: prod.splits)
    then show ?thesis using send_via n by blast
  next
    case True
    obtain s n1 where e: "ensure_session dst ?n = (s, n1)" by fastforce
    have n1: "relay_ok P my name n1" using ensured [OF e n] .
    show ?thesis
    proof (cases s)
      case (Inl g)
      then show ?thesis using assms(1) True e n1 by (auto simp: relay_send_msg_def Let_def buffered)
    next
      case (Inr r)
      obtain out n2 where o2: "session_encrypt cr dst r msg n1 = Some (out, n2)"
        using assms(1) True e Inr by (auto simp: relay_send_msg_def Let_def split: bind_splits)
      have n2: "relay_ok P my name n2" using encrypted [OF o2 n1] .
      show ?thesis
      proof (cases out)
        case (Inl err)
        then show ?thesis using assms(1) True e Inr o2 n2 by (auto simp: relay_send_msg_def Let_def)
      next
        case (Inr q)
        obtain r' n3 where s3: "send_via_next_hop sink q dst policy n2 = (r', n3)" by fastforce
        then show ?thesis using assms(1) True e \<open>s = Inr r\<close> o2 Inr send_via [OF s3 n2] by (auto simp: relay_send_msg_def Let_def)
      qed
    qed
  qed
qed

lemma flushed_loop:
  "flush_loop cr sink dst r ps n = Some (ds, n') \<Longrightarrow> relay_ok P my name n \<Longrightarrow> relay_ok P my name n'"
proof (induction ps arbitrary: n ds n')
  case (Cons x ps)
  obtain p policy where x: "x = (p, policy)" by fastforce
  obtain res n1 where e: "session_encrypt cr dst r p n = Some (res, n1)" using Cons.prems(1) by (auto simp: x split: bind_splits)
  have n1: "relay_ok P my name n1" using encrypted [OF e Cons.prems(2)] .
  show ?case
  proof (cases res)
    case (Inl err)
    then show ?thesis using Cons.prems(1) Cons.IH [OF _ n1] e by (simp add: x)
  next
    case (Inr q)
    obtain out n2 where o2: "send_via_next_hop sink q dst policy n1 = (out, n2)" by fastforce
    obtain ds' where "flush_loop cr sink dst r ps n2 = Some (ds', n')" using Cons.prems(1) e Inr o2 by (auto simp: x split: bind_splits)
    then show ?thesis using Cons.IH send_via [OF o2 n1] by blast
  qed
qed simp

lemma flushed: "flush_pending_packets cr sink dst r n = Some (ds, n') \<Longrightarrow> relay_ok P my name n \<Longrightarrow> relay_ok P my name n'"
  using flushed_loop [where n = "n\<lparr>pending_packets := (pending_packets n)(dst := None)\<rparr>"]
  by (auto simp: flush_pending_packets_def relay_ok_def split: option.splits)

lemma handshake_sent:
  "send_handshake_packet u sink body t dst policy n = Some (res, n') \<Longrightarrow> relay_ok P my name n \<Longrightarrow> relay_ok P my name n'"
  using send_via by (auto simp: send_handshake_packet_def split: bind_splits)

lemma stored: "relay_ok P my name (n\<lparr>rp_store := st\<rparr>) \<longleftrightarrow> relay_ok P my name n"
  by (simp add: relay_ok_def)

lemma answered:
  assumes "answer_relay_msg1 nz pb cr u sink now fresh uuid eph p remote n = Some (res, n')" and "relay_ok P my name n"
  shows "relay_ok P my name n'"
proof (cases "n' = n \<or> (\<exists>st. n' = n\<lparr>rp_store := st\<rparr>)")
  case False
  obtain priv pk b0 where k: "rp_keypair n = Some (priv, pk)" "build_responder nz IK RELAY_NOISE_PROLOGUE priv eph = Some b0"
    using assms(1) False by (auto simp: answer_relay_msg1_def split: option.splits)
  obtain m b1 where m: "relay_decode_message nz (dec_r1 pb) PT_RelayHandshake b0 p = Some (Some (m, b1))"
    using assms(1) False k by (auto simp: answer_relay_msg1_def split: bind_splits option.splits)
  let ?rs = "case get_remote_static nz b1 of Some k \<Rightarrow> k | None \<Rightarrow> []"
  have rs: "get_remote_static_pubkey n remote = Some ?rs"
    using assms(1) False k m by (auto simp: answer_relay_msg1_def Let_def split: if_splits)
  obtain up st where up: "upsert_responder_session (cr_now cr) fresh (relay_key n remote) (r1_session_generation m) (rp_encryption_algorithm n)
      (r1_client_encryption_algorithm m) (key_32 ?rs) (rp_store n) = (up, st)" by fastforce
  then obtain ret where ret: "up = Inr ret" using assms(1) False k m rs by (cases up) (auto simp: answer_relay_msg1_def Let_def)
  let ?n = "n\<lparr>rp_store := st\<rparr>"
  obtain c2 b2 where w: "write_message nz b1 (enc_r2 pb (relay_msg2 uuid m ret (rp_encryption_algorithm ?n))) = Some (c2, b2)"
    using assms(1) False k m rs up ret by (auto simp: answer_relay_msg1_def Let_def split: option.splits)
  obtain sent n2 where s: "send_handshake_packet u sink c2 PT_RelayHandshakeAck remote LeastHop (register_handshake_success now remote ?n) = Some (sent, n2)"
    using assms(1) k m rs up ret w by (auto simp: answer_relay_msg1_def Let_def split: bind_splits)
  have n2: "relay_ok P my name n2"
    using handshake_sent [OF s] assms(2) by (simp add: register_handshake_success_def with_state stored)
  show ?thesis
  proof (cases sent)
    case (Inl e)
    then show ?thesis using assms(1) k m rs up ret w s n2 by (auto simp: answer_relay_msg1_def Let_def)
  next
    case (Inr d)
    obtain ds where "flush_pending_packets cr sink remote (ur_session ret) n2 = Some (ds, n')"
      using assms(1) k m rs up ret w s Inr by (auto simp: answer_relay_msg1_def Let_def split: bind_splits)
    then show ?thesis using flushed n2 by blast
  qed
qed (use assms(2) stored in auto)

lemma handshake_handled:
  assumes "handle_handshake_packet nz pb cr u sink now fresh uuid eph p n = Some (res, n')" and "relay_ok P my name n"
  shows "relay_ok P my name n'"
proof -
  have pend: "relay_ok P my name (n\<lparr>pending_handshakes := s\<rparr>)" for s using assms(2) by (simp add: relay_ok_def)
  have "relay_ok P my name n1" if "handle_relay_msg1 nz pb cr u sink now fresh uuid eph p remote n = Some (r, n1)" for remote r n1
  proof (cases "remote \<in> pending_handshakes n \<and> \<not> remote < rp_my_peer_id n")
    case True
    then show ?thesis using that assms(2) by (simp add: handle_relay_msg1_def)
  next
    case False
    then have "answer_relay_msg1 nz pb cr u sink now fresh uuid eph p remote (n\<lparr>pending_handshakes := pending_handshakes n - {remote}\<rparr>) = Some (r, n1)"
      using that by (simp only: handle_relay_msg1_def if_False)
    then show ?thesis using answered pend by blast
  qed
  then show ?thesis using assms pend by (auto simp: handle_handshake_packet_def split: option.splits if_splits)
qed

lemma decrypted:
  assumes "decrypt_if_needed cr now p n = Some (res, n')" and "relay_ok P my name n"
  shows "relay_ok P my name n'"
proof (cases "\<not> rp_secure_mode_enabled n \<or> peer_manager_header p = None")
  case True
  then show ?thesis using assms by (cases "rp_secure_mode_enabled n") (auto simp: decrypt_if_needed_def)
next
  case False
  then obtain h where h: "rp_secure_mode_enabled n" "peer_manager_header p = Some h" by auto
  obtain x st where g: "store_get (relay_key n (from_peer_id h)) (rp_store n) = (x, st)" by fastforce
  show ?thesis
  proof (cases x)
    case None
    obtain e n1 where e: "ensure_session (from_peer_id h) (n\<lparr>rp_store := st\<rparr>) = (e, n1)" by fastforce
    then show ?thesis using assms h g None ensured [OF e] by (cases e) (auto simp: decrypt_if_needed_def stored)
  next
    case (Some r)
    then show ?thesis using assms h g
      by (auto simp: decrypt_if_needed_def Let_def relay_ok_def with_state_def split: bind_splits)
  qed
qed

end

interpretation ok_peer: peer_property peer_ok
  by unfold_locales (simp_all add: peer_ok_closed)

text \<open>No more than three direct connections.\<close>

definition few_direct_conns :: "PeerId \<Rightarrow> Peer \<Rightarrow> bool" where
  "few_direct_conns k p \<longleftrightarrow> card (get_directly_connections p) \<le> MAX_DIRECT_CONNS_PER_PEER_IN_FOREIGN_NETWORK"

lemma get_directly_mono:
  assumes "set cs \<subseteq> set (conns p)"
  shows "set (map (conn_id \<circ> snd) (filter (\<lambda>(_, c). \<not> is_hole_punched c) cs)) \<subseteq> get_directly_connections p"
  using assms by (auto simp: get_directly_connections_def)

interpretation few_direct: peer_property few_direct_conns
proof unfold_locales
  fix k p d cid
  assume few: "few_direct_conns k p"
  then show "few_direct_conns k (p\<lparr>default_conn_id := d\<rparr>)" by (simp add: few_direct_conns_def get_directly_connections_def)
  have "get_directly_connections (conn_closed cid p) \<subseteq> get_directly_connections p"
    by (auto simp: get_directly_connections_def conn_closed_def Let_def AList.delete_eq split: option.splits)
  then have "card (get_directly_connections (conn_closed cid p)) \<le> card (get_directly_connections p)"
    by (rule card_mono [rotated]) (simp add: get_directly_connections_def)
  then show "few_direct_conns k (conn_closed cid p)" using few by (simp add: few_direct_conns_def)
qed


section \<open>Runs of the manager\<close>

definition entry_ok :: "string \<Rightarrow> ForeignNetworkEntry \<Rightarrow> bool" where
  "entry_ok name e \<longleftrightarrow> ni_network_name (fe_network e) = name \<and> \<not> network_secret_digest_is_empty (fe_network e) \<and>
     relay_ok peer_ok (rp_my_peer_id (fe_relay e)) name (fe_relay e) \<and>
     relay_ok few_direct_conns (rp_my_peer_id (fe_relay e)) name (fe_relay e)"

definition fm_ok :: "ForeignNetworkManager \<Rightarrow> bool" where
  "fm_ok m \<longleftrightarrow> (\<forall>name e. network_peer_maps m name = Some e \<longrightarrow> entry_ok name e)"

definition fm_new :: "store \<Rightarrow> TokenBucketManager \<Rightarrow> ForeignNetworkManager" where
  "fm_new st bm = \<lparr>network_peer_maps = (\<lambda>_. None), peer_network_map = (\<lambda>_. None), network_peer_last_update = (\<lambda>_. None),
     fm_store = st, fm_buckets = bm, fm_entries_created = 0\<rparr>"

text \<open>New connections, events, packets, the end of a connection, new trusted keys of the route service, and changes of the shared sessions and limiters.\<close>

inductive fm_step :: "('hs, 'z) noise_api_scheme \<Rightarrow> ForeignNetworkManager \<Rightarrow> ForeignNetworkManager \<Rightarrow> bool" for nz where
  step_conn: "fm_add_peer_conn cx now cid latency punched c m = Some (r, m') \<Longrightarrow> fm_step nz m m'"
| step_event: "fm_step nz m (fm_handle_event now name entry_id ev m)"
| step_packet: "network_peer_maps m name = Some e \<Longrightarrow>
    foreign_recv_packet cx nz pb cr u sink now fresh_key uuid eph name e packet m = Some (r, m') \<Longrightarrow> fm_step nz m m'"
| step_forward: "forward_foreign_network_packet sink name dst msg m = (r, m') \<Longrightarrow> fm_step nz m m'"
| step_closed: "network_peer_maps m name = Some e \<Longrightarrow> map_of (foreign_peers e) k = Some p \<Longrightarrow>
    fm_step nz m (put_entry name (e\<lparr>fe_relay := (fe_relay e)\<lparr>rp_peers := (rp_peers (fe_relay e))\<lparr>peer_map := AList.update k (conn_closed cid p) (foreign_peers e)\<rparr>\<rparr>\<rparr>) m)"
| step_trust: "network_peer_maps m name = Some e \<Longrightarrow> fm_step nz m (put_entry name (e\<lparr>fe_trusted_keys := keys\<rparr>) m)"
| step_shared: "fm_step nz m (m\<lparr>fm_store := st, fm_buckets := bm\<rparr>)"

lemma fm_ok_put: "fm_ok m \<Longrightarrow> entry_ok name e \<Longrightarrow> fm_ok (put_entry name e m)"
  by (simp add: fm_ok_def put_entry_def)

lemma fm_ok_lookup: "fm_ok m \<Longrightarrow> network_peer_maps m name = Some e \<Longrightarrow> entry_ok name e"
  by (simp add: fm_ok_def)

lemma fm_ok_fields [simp]:
  "fm_ok (m\<lparr>peer_network_map := a\<rparr>) = fm_ok m" "fm_ok (m\<lparr>network_peer_last_update := b\<rparr>) = fm_ok m"
  "fm_ok (m\<lparr>fm_store := st\<rparr>) = fm_ok m" "fm_ok (m\<lparr>fm_buckets := bm\<rparr>) = fm_ok m" "fm_ok (m\<lparr>fm_entries_created := c\<rparr>) = fm_ok m"
  by (simp_all add: fm_ok_def)

lemma fm_ok_removed: "fm_ok m \<Longrightarrow> fm_ok (m\<lparr>network_peer_maps := (network_peer_maps m)(name := None)\<rparr>)"
  by (auto simp: fm_ok_def)

lemma fm_ok_remove_peer: "fm_ok m \<Longrightarrow> fm_ok (fm_remove_peer p name m)"
  using fm_ok_removed by (auto simp: fm_remove_peer_def fm_ok_def Let_def split: option.splits if_splits)

lemma fm_ok_event: "fm_ok m \<Longrightarrow> fm_ok (fm_handle_event now name entry_id ev m)"
proof (cases ev)
  case (PeerRemoved p)
  then show "fm_ok m \<Longrightarrow> ?thesis" by (simp add: fm_handle_event_def fm_ok_remove_peer)
next
  case PeerConnRemoved
  assume ok: "fm_ok m"
  show ?thesis
  proof (cases "network_peer_maps m name")
    case (Some e)
    have "entry_ok name (e\<lparr>fe_relay := (fe_relay e)\<lparr>rp_peers := clean_peer_without_conn (rp_peers (fe_relay e))\<rparr>\<rparr>)"
      using fm_ok_lookup [OF ok Some] ok_peer.cleaned few_direct.cleaned by (auto simp: entry_ok_def relay_ok_def)
    then show ?thesis using ok Some PeerConnRemoved by (simp add: fm_handle_event_def clear_no_conn_peer_def fm_ok_put)
  qed (use ok PeerConnRemoved in \<open>simp add: fm_handle_event_def clear_no_conn_peer_def\<close>)
next
  case EventsLost
  then show "fm_ok m \<Longrightarrow> ?thesis"
    by (auto simp: fm_handle_event_def remove_network_if_current_def remove_network_def fm_ok_def Let_def split: option.splits if_splits)
qed (simp add: fm_handle_event_def)

lemma fm_ok_relay: "fm_ok m \<Longrightarrow> entry_ok name e \<Longrightarrow> relay_ok peer_ok (rp_my_peer_id (fe_relay e)) name n \<Longrightarrow>
    relay_ok few_direct_conns (rp_my_peer_id (fe_relay e)) name n \<Longrightarrow> fm_ok (put_relay name e n m)"
  by (auto simp: put_relay_def entry_ok_def relay_ok_def intro!: fm_ok_put)

lemma entry_relay_ok:
  assumes "entry_ok name e"
  shows "relay_ok peer_ok (rp_my_peer_id (fe_relay e)) name (entry_relay e m)" "relay_ok few_direct_conns (rp_my_peer_id (fe_relay e)) name (entry_relay e m)"
  using assms by (simp_all add: entry_ok_def entry_relay_def relay_ok_def)

lemma fm_ok_local:
  assumes "fm_ok m" and "entry_ok name e"
    and "foreign_recv_local nz pb cr u sink now fresh_key uuid eph name e hdr packet m = Some (r, m')"
  shows "fm_ok m'"
proof (cases "pm_packet_type hdr \<in> PacketType_code ` {PT_RelayHandshake, PT_RelayHandshakeAck}")
  case True
  obtain x n where h: "handle_handshake_packet nz pb cr u sink now fresh_key uuid eph packet (entry_relay e m) = Some (x, n)" "m' = put_relay name e n m"
    using assms(3) True by (auto simp: foreign_recv_local_def split: bind_splits)
  show ?thesis using fm_ok_relay [OF assms(1,2)] ok_peer.handshake_handled [OF h(1)] few_direct.handshake_handled [OF h(1)]
      entry_relay_ok [OF assms(2)] h(2) by blast
next
  case False
  show ?thesis
  proof (cases "rp_secure_mode_enabled (fe_relay e) \<and> is_encrypted hdr")
    case True
    obtain x n where d: "decrypt_if_needed cr now packet (entry_relay e m) = Some (x, n)" "m' = put_relay name e n m"
      using assms(3) False True by (auto simp: foreign_recv_local_def split: bind_splits option.splits)
    show ?thesis using fm_ok_relay [OF assms(1,2)] ok_peer.decrypted [OF d(1)] few_direct.decrypted [OF d(1)]
      entry_relay_ok [OF assms(2)] d(2) by blast
  next
    case enc: False
    then have "m' = m" using assms(3) False by (auto simp: foreign_recv_local_def split: bind_splits option.splits)
    then show ?thesis using assms(1) by simp
  qed
qed

lemma fm_ok_forward:
  assumes "fm_ok m" and "entry_ok name e" and "foreign_forward cr u sink now name e hdr packet m = Some (r, m')"
  shows "fm_ok m'"
proof -
  let ?n = "entry_relay e m"
  note ok = entry_relay_ok [OF assms(2), of m]
  show ?thesis
  proof (cases "\<exists>g. get_gateway_peer_id (rp_peers ?n) (to_peer_id hdr) LeastHop = Some g \<and> has_peer (rp_peers ?n) g")
    case True
    then obtain g where g: "get_gateway_peer_id (rp_peers ?n) (to_peer_id hdr) LeastHop = Some g" "has_peer (rp_peers ?n) g" by blast
    show ?thesis
    proof (cases "g \<noteq> to_peer_id hdr \<and> from_peer_id hdr = rp_my_peer_id ?n")
      case True
      obtain x n where s: "relay_send_msg cr sink now packet (to_peer_id hdr) LeastHop ?n = Some (x, n)" "m' = put_relay name e n m"
        using assms(3) g True by (auto simp: foreign_forward_def Let_def split: bind_splits)
      show ?thesis using fm_ok_relay [OF assms(1,2)] ok_peer.relay_send [OF s(1)] few_direct.relay_send [OF s(1)] ok s(2) by blast
    next
      case False
      obtain x pm where s: "send_msg_directly sink packet g (rp_peers ?n) = (x, pm)" by fastforce
      have pm: "snd (send_msg_directly sink packet g (rp_peers ?n)) = pm" using s by simp
      have "m' = put_relay name e (?n\<lparr>rp_peers := pm\<rparr>) m" using assms(3) g False s by (auto simp: foreign_forward_def Let_def)
      then show ?thesis using fm_ok_relay [OF assms(1,2)] ok ok_peer.send_directly [of "rp_peers ?n" sink packet g]
          few_direct.send_directly [of "rp_peers ?n" sink packet g] unfolding pm by (simp add: relay_ok_def)
    qed
  next
    case False
    then have "m' = m" using assms(3) by (auto simp: foreign_forward_def Let_def split: option.splits if_splits bind_splits)
    then show ?thesis using assms(1) by simp
  qed
qed

lemma fm_ok_packet:
  assumes "fm_ok m" and "entry_ok name e"
    and "foreign_recv_packet cx nz pb cr u sink now fresh_key uuid eph name e packet m = Some (r, m')"
  shows "fm_ok m'"
proof (cases "peer_manager_header packet")
  case (Some hdr)
  obtain ok m1 where c: "consume_limit (fe_bps_limiter e) (ucast (pm_len hdr)) m = (ok, m1)" by fastforce
  have "fm_ok m1" using c assms(1) by (auto simp: consume_limit_def Let_def split: option.splits prod.splits)
  then show ?thesis using assms Some c fm_ok_local fm_ok_forward by (auto simp: foreign_recv_packet_def split: if_splits)
qed (use assms in \<open>simp add: foreign_recv_packet_def\<close>)


section \<open>Admission of connections\<close>

lemma maintain_urls_simps [simp]:
  "peer_map (maintain_alive_client_urls pc m) = peer_map m" "map_my_peer_id (maintain_alive_client_urls pc m) = map_my_peer_id m"
  by (simp_all add: maintain_alive_client_urls_def split: option.split)

lemma add_conn_all_peers:
  assumes "all_peers P m"
    and "\<And>p. map_of (peer_map m) (conn_peer_id pc) = Some p \<or> map_of (peer_map m) (conn_peer_id pc) = None \<and> p = peer_new (conn_peer_id pc) \<Longrightarrow>
      P (conn_peer_id pc) (snd (add_peer_conn pc p))"
  shows "all_peers P (snd (map_add_new_peer_conn pc m)) \<and> map_my_peer_id (snd (map_add_new_peer_conn pc m)) = map_my_peer_id m"
proof (cases "map_of (peer_map m) (conn_peer_id pc)")
  case None
  then show ?thesis using assms(1) assms(2) [of "peer_new (conn_peer_id pc)"]
    by (auto simp: map_add_new_peer_conn_def all_peers_def Let_def split: prod.splits sum.splits intro: list_all_update)
next
  case (Some p)
  then show ?thesis using assms(1) assms(2) [of p]
    by (auto simp: map_add_new_peer_conn_def all_peers_def Let_def split: prod.splits intro: list_all_update)
qed

lemma add_peer_conn_Inr: "add_peer_conn pc p = (Inr (), p') \<Longrightarrow> map_of (conns p') (conn_id pc) = Some pc"
  by (auto simp: add_peer_conn_def Let_def update_Some_unfold split: if_splits option.splits)

lemma add_conn_stored:
  assumes "map_add_new_peer_conn pc m = (Inr (), m')"
  shows "\<exists>p. map_of (peer_map m') (conn_peer_id pc) = Some p \<and> map_of (conns p) (conn_id pc) = Some pc"
  using assms by (auto simp: map_add_new_peer_conn_def Let_def update_Some_unfold dest: add_peer_conn_Inr split: option.splits prod.splits sum.splits)

lemma set_AList_update: "set (AList.update k v xs) \<subseteq> insert (k, v) (set xs)"
  by (induction xs) auto

lemma few_direct_add:
  assumes "card (get_directly_connections p) < MAX_DIRECT_CONNS_PER_PEER_IN_FOREIGN_NETWORK"
  shows "few_direct_conns k (snd (add_peer_conn pc p))"
proof -
  have "set (AList.update (conn_id pc) pc (conns p)) \<subseteq> insert (conn_id pc, pc) (set (conns p))" by (rule set_AList_update)
  then have sub: "get_directly_connections (snd (add_peer_conn pc p)) \<subseteq> insert (conn_id pc) (get_directly_connections p)"
    by (auto simp: get_directly_connections_def add_peer_conn_def Let_def split: if_splits option.splits)
  have "card (get_directly_connections (snd (add_peer_conn pc p))) \<le> card (insert (conn_id pc) (get_directly_connections p))"
    by (rule card_mono [OF _ sub]) (simp add: get_directly_connections_def)
  also have "\<dots> \<le> Suc (card (get_directly_connections p))" by (simp add: card_insert_le_m1 get_directly_connections_def)
  finally show ?thesis using assms by (simp add: few_direct_conns_def)
qed

text \<open>The entry of a network, existing or new.\<close>

lemma get_or_insert_spec:
  assumes "fm_get_or_insert_entry cx now ni my dst rd m = ((e, new), m1)"
  shows "network_peer_maps m1 = (network_peer_maps m)(ni_network_name ni \<mapsto> e)"
    and "peer_network_map m1 dst \<noteq> None" and "dom (peer_network_map m1) = insert dst (dom (peer_network_map m))"
    and "network_peer_maps m (ni_network_name ni) = Some e0 \<Longrightarrow> e = e0 \<and> \<not> new"
    and "network_peer_maps m (ni_network_name ni) = None \<Longrightarrow> new \<and> fe_network e = ni \<and> fe_relay_data e = rd \<and> foreign_peers e = [] \<and>
      relay_ok P my (ni_network_name ni) (fe_relay e)"
proof -
  show "network_peer_maps m1 = (network_peer_maps m)(ni_network_name ni \<mapsto> e)"
    "peer_network_map m1 dst \<noteq> None" "dom (peer_network_map m1) = insert dst (dom (peer_network_map m))"
    "network_peer_maps m (ni_network_name ni) = Some e0 \<Longrightarrow> e = e0 \<and> \<not> new"
    "network_peer_maps m (ni_network_name ni) = None \<Longrightarrow> new \<and> fe_network e = ni \<and> fe_relay_data e = rd \<and> foreign_peers e = [] \<and>
      relay_ok P my (ni_network_name ni) (fe_relay e)"
    using assms
    by (auto simp: fm_get_or_insert_entry_def foreign_entry_new_def foreign_relay_new_def put_entry_def Let_def foreign_peers_def relay_ok_def
        all_peers_def add_route_def peer_map_new_def split: option.splits if_splits prod.splits)
qed


lemma put_entry_twice [simp]: "put_entry name e' (put_entry name e m) = put_entry name e' m"
  by (simp add: put_entry_def)

definition started :: "ForeignNetworkEntry \<Rightarrow> ForeignNetworkEntry" where
  "started e = e\<lparr>fe_event_handler_started := True\<rparr>"

lemma started_simps [simp]:
  "fe_network (started e) = fe_network e" "fe_relay (started e) = fe_relay e" "fe_relay_data (started e) = fe_relay_data e"
  "fe_trusted_keys (started e) = fe_trusted_keys e" "foreign_peers (started e) = foreign_peers e" "entry_ok name (started e) = entry_ok name e"
  by (simp_all add: started_def foreign_peers_def entry_ok_def)

definition with_peers :: "ForeignNetworkEntry \<Rightarrow> PeerMap \<Rightarrow> ForeignNetworkEntry" where
  "with_peers e pm = e\<lparr>fe_relay := (fe_relay e)\<lparr>rp_peers := pm\<rparr>\<rparr>"

text \<open>How \<open>add_peer_conn\<close> can end.\<close>

lemma fm_add_cases:
  assumes "fm_add_peer_conn cx now cid latency punched c m = Some (r, m')"
    and "peer_conn_of cid latency False punched c = Some pc" and "conn_network_identity c = Some pn" and "name = ni_network_name pn"
  obtains (early) err where "r = Inl err" "m' = m" "err = NotInWhitelist \<or> err = NotEstablished"
    | (entry) e new m1 where "fm_get_or_insert_entry cx now pn (c_my_peer_id c) (conn_peer_id pc) (check_network_in_whitelist cx name) m = ((e, new), m1)"
      "check_network_in_whitelist cx name \<or> fx_relay_all_peer_rpc cx" "network_secret_digest_is_empty pn \<longrightarrow> network_peer_maps m name \<noteq> None"
      "(\<exists>err. fm_refusal cx (started e) new pn (c_my_peer_id c) pc = Some err \<and> r = Inl err \<and>
          m' = (if new then fm_remove_peer (conn_peer_id pc) name else id) (put_entry name (started e) m1)) \<or>
       (\<exists>err pm. fm_refusal cx (started e) new pn (c_my_peer_id c) pc = None \<and> map_add_new_peer_conn pc (rp_peers (fe_relay e)) = (Inl err, pm) \<and>
          r = Inl (FmPeerMap err) \<and> m' = (if new then fm_remove_peer (conn_peer_id pc) name else id) (put_entry name (with_peers (started e) pm) m1)) \<or>
       (\<exists>pm. fm_refusal cx (started e) new pn (c_my_peer_id c) pc = None \<and> map_add_new_peer_conn pc (rp_peers (fe_relay e)) = (Inr (), pm) \<and>
          r = Inr () \<and> m' = put_entry name (with_peers (started e) pm) m1)"
proof (cases "(\<not> check_network_in_whitelist cx name \<and> \<not> fx_relay_all_peer_rpc cx) \<or> (network_secret_digest_is_empty pn \<and> network_peer_maps m name = None)")
  case True
  then show ?thesis using assms early by (auto simp: fm_add_peer_conn_def Let_def split: if_splits)
next
  case False
  obtain e new m1 where g: "fm_get_or_insert_entry cx now pn (c_my_peer_id c) (conn_peer_id pc) (check_network_in_whitelist cx name) m = ((e, new), m1)"
    by (metis prod.exhaust)
  obtain res pm where a: "map_add_new_peer_conn pc (rp_peers (fe_relay e)) = (res, pm)" by fastforce
  show ?thesis
  proof (rule entry [OF g])
    show "check_network_in_whitelist cx name \<or> fx_relay_all_peer_rpc cx" "network_secret_digest_is_empty pn \<longrightarrow> network_peer_maps m name \<noteq> None"
      using False by auto
  next
    show "(\<exists>err. fm_refusal cx (started e) new pn (c_my_peer_id c) pc = Some err \<and> r = Inl err \<and>
          m' = (if new then fm_remove_peer (conn_peer_id pc) name else id) (put_entry name (started e) m1)) \<or>
       (\<exists>err pm. fm_refusal cx (started e) new pn (c_my_peer_id c) pc = None \<and> map_add_new_peer_conn pc (rp_peers (fe_relay e)) = (Inl err, pm) \<and>
          r = Inl (FmPeerMap err) \<and> m' = (if new then fm_remove_peer (conn_peer_id pc) name else id) (put_entry name (with_peers (started e) pm) m1)) \<or>
       (\<exists>pm. fm_refusal cx (started e) new pn (c_my_peer_id c) pc = None \<and> map_add_new_peer_conn pc (rp_peers (fe_relay e)) = (Inr (), pm) \<and>
          r = Inr () \<and> m' = put_entry name (with_peers (started e) pm) m1)"
      using assms False g a
      by (cases "fm_refusal cx (started e) new pn (c_my_peer_id c) pc"; cases res)
        (auto simp: fm_add_peer_conn_def Let_def started_def [symmetric] with_peers_def)
  qed
qed

lemma conn_of_ids:
  assumes "peer_conn_of cid latency False punched c = Some pc"
  shows "conn_id pc = cid" "conn_identity_type pc = get_peer_identity_type c"
  using assms by (auto simp: peer_conn_of_def split: bind_splits)

lemma entry_ok_added:
  assumes "entry_ok name e" and "fm_refusal cx e new pn my pc = None" and "new \<Longrightarrow> foreign_peers e = []"
    and "map_add_new_peer_conn pc (rp_peers (fe_relay e)) = (res, pm)"
  shows "entry_ok name (with_peers e pm)"
proof -
  let ?m = "rp_peers (fe_relay e)" and ?k = "conn_peer_id pc"
  have pm: "snd (map_add_new_peer_conn pc ?m) = pm" using assms(4) by simp
  have ok: "all_peers peer_ok ?m" "all_peers few_direct_conns ?m" using assms(1) by (auto simp: entry_ok_def relay_ok_def)
  have "peer_ok ?k (snd (add_peer_conn pc p))" if "map_of (peer_map ?m) ?k = Some p \<or> map_of (peer_map ?m) ?k = None \<and> p = peer_new ?k" for p
    using that peer_ok_add [OF _ refl] peer_ok_new ok_peer.lookup [OF ok(1)] by blast
  moreover have "few_direct_conns ?k (snd (add_peer_conn pc p))"
    if "map_of (peer_map ?m) ?k = Some p \<or> map_of (peer_map ?m) ?k = None \<and> p = peer_new ?k" for p
  proof (rule few_direct_add)
    show "card (get_directly_connections p) < MAX_DIRECT_CONNS_PER_PEER_IN_FOREIGN_NETWORK"
      using that assms(2,3) by (auto simp: fm_refusal_def Let_def foreign_peers_def get_directly_connections_def peer_new_def
          MAX_DIRECT_CONNS_PER_PEER_IN_FOREIGN_NETWORK_def split: if_splits)
  qed
  ultimately have "all_peers peer_ok pm" "all_peers few_direct_conns pm" "map_my_peer_id pm = map_my_peer_id ?m"
    using add_conn_all_peers [OF ok(1), of pc] add_conn_all_peers [OF ok(2), of pc] unfolding pm by blast+
  then show ?thesis using assms(1) by (simp add: entry_ok_def relay_ok_def with_peers_def)
qed

lemma fm_ok_add:
  assumes "fm_ok m" and "fm_add_peer_conn cx now cid latency punched c m = Some (r, m')"
  shows "fm_ok m'"
proof -
  obtain pc pn where c: "peer_conn_of cid latency False punched c = Some pc" "conn_network_identity c = Some pn"
    using assms(2) by (auto simp: fm_add_peer_conn_def split: bind_splits)
  define name where "name = ni_network_name pn"
  from assms(2) c name_def show ?thesis
  proof (cases rule: fm_add_cases)
    case (entry e new m1)
    note G = get_or_insert_spec [OF entry(1), folded name_def]
    have e: "entry_ok name (started e)" "new \<Longrightarrow> foreign_peers (started e) = []"
    proof (atomize (full), cases "network_peer_maps m name")
      case None
      then show "entry_ok name (started e) \<and> (new \<longrightarrow> foreign_peers (started e) = [])"
        using G(5) [of peer_ok] G(5) [of few_direct_conns] entry(3) by (auto simp: entry_ok_def name_def relay_ok_def)
    next
      case (Some e0)
      then show "entry_ok name (started e) \<and> (new \<longrightarrow> foreign_peers (started e) = [])"
        using G(4) [OF Some] fm_ok_lookup [OF assms(1) Some] by auto
    qed
    have m1: "fm_ok ((if new then fm_remove_peer (conn_peer_id pc) name else id) (put_entry name e1 m1))" "fm_ok (put_entry name e1 m1)" if "entry_ok name e1" for e1
    proof -
      show "fm_ok (put_entry name e1 m1)" using assms(1) that G(1) by (auto simp: fm_ok_def put_entry_def)
      then show "fm_ok ((if new then fm_remove_peer (conn_peer_id pc) name else id) (put_entry name e1 m1))" by (simp add: fm_ok_remove_peer)
    qed
    show ?thesis using entry(4) entry_ok_added [OF e(1) _ e(2)] m1 e(1) by fastforce
  qed (use assms(1) in auto)
qed


lemma fm_step_ok:
  assumes "fm_step nz m m'" and "fm_ok m"
  shows "fm_ok m'"
  using assms
proof (induction rule: fm_step.induct)
  case (step_conn cx now cid latency punched c m r m')
  then show ?case using fm_ok_add by blast
next
  case (step_event m now name entry_id ev)
  then show ?case by (rule fm_ok_event)
next
  case (step_packet m name e cx pb cr u sink now fresh_key uuid eph packet r m')
  then show ?case using fm_ok_packet fm_ok_lookup by blast
next
  case (step_forward sink name dst msg m r m')
  show ?case
  proof (cases "network_peer_maps m name")
    case (Some e)
    have e: "entry_ok name e" using fm_ok_lookup [OF step_forward(2) Some] .
    obtain pm where pm: "snd (map_send_msg sink msg dst LeastHop (rp_peers (fe_relay e))) = pm" by blast
    have "entry_ok name (with_peers e pm)"
      using e ok_peer.map_send [of "rp_peers (fe_relay e)" sink msg dst LeastHop] few_direct.map_send [of "rp_peers (fe_relay e)" sink msg dst LeastHop]
      unfolding pm by (auto simp: entry_ok_def relay_ok_def with_peers_def)
    then show ?thesis using step_forward Some pm
      by (auto simp: forward_foreign_network_packet_def with_peers_def intro: fm_ok_put split: prod.splits)
  qed (use step_forward in \<open>simp add: forward_foreign_network_packet_def\<close>)
next
  case (step_closed m name e k p cid)
  have e: "entry_ok name e" using fm_ok_lookup [OF step_closed(3,1)] .
  let ?pm = "(rp_peers (fe_relay e))\<lparr>peer_map := AList.update k (conn_closed cid p) (foreign_peers e)\<rparr>"
  have "all_peers peer_ok ?pm" "all_peers few_direct_conns ?pm"
    using e step_closed(2) ok_peer.updated few_direct.updated ok_peer.closed_conn few_direct.closed_conn ok_peer.lookup few_direct.lookup
    by (auto simp: entry_ok_def relay_ok_def foreign_peers_def)
  then have "entry_ok name (e\<lparr>fe_relay := (fe_relay e)\<lparr>rp_peers := ?pm\<rparr>\<rparr>)" using e by (simp add: entry_ok_def relay_ok_def)
  then show ?case using fm_ok_put step_closed(3) by blast
next
  case (step_trust m name e keys)
  then show ?case using fm_ok_lookup [OF step_trust(2,1)] by (auto simp: entry_ok_def intro!: fm_ok_put)
qed simp

lemma fm_run_ok: "(fm_step nz)\<^sup>*\<^sup>* (fm_new st bm) m \<Longrightarrow> fm_ok m"
proof (induction rule: rtranclp_induct)
  case base
  show ?case by (simp add: fm_ok_def fm_new_def)
qed (rule fm_step_ok)


lemma identity_digest:
  assumes "network_identity_eq h a b" and "ni_network_secret_digest a \<noteq> None" and "ni_network_secret_digest b \<noteq> None"
  shows "ni_network_secret_digest a = ni_network_secret_digest b"
  using assms by (simp add: network_identity_eq_def with_only_digest_def)

lemma conn_identity_digest: "conn_network_identity c = Some pn \<Longrightarrow> ni_network_secret_digest pn \<noteq> None"
  by (auto simp: conn_network_identity_def split: bind_splits)

text \<open>
  C36. Who may join a foreign network. An accepted connection is in the whitelist (or the node relays the calls of all
  networks), uses the node's identifier for that network, and either presents the secret digest the network was
  established with, or no digest and a key that the network's own administrators announced as a credential, and then
  not as an administrator. The first connection with a digest establishes the network; later ones change neither
  its identity nor whether its data is relayed.
\<close>

theorem foreign_admission:
  assumes "(fm_step nz)\<^sup>*\<^sup>* (fm_new st bm) m" and "peer_conn_of cid latency False punched c = Some pc"
    and "conn_network_identity c = Some pn" and "fm_add_peer_conn cx now cid latency punched c m = Some (Inr (), m')"
  shows "\<exists>e'. network_peer_maps m' (ni_network_name pn) = Some e' \<and>
    (\<exists>p. map_of (foreign_peers e') (conn_peer_id pc) = Some p \<and> map_of (conns p) cid = Some pc) \<and>
    rp_my_peer_id (fe_relay e') = c_my_peer_id c \<and> (check_network_in_whitelist cx (ni_network_name pn) \<or> fx_relay_all_peer_rpc cx) \<and>
    (ni_network_secret_digest pn = ni_network_secret_digest (fe_network e') \<and> \<not> network_secret_digest_is_empty pn \<or>
     network_secret_digest_is_empty pn \<and> conn_identity_type pc \<noteq> Admin \<and>
       credential_pubkey_is_trusted (fx_unix_now cx) (fe_trusted_keys e') (ni_network_name pn) (noise_remote_static_pubkey pc)) \<and>
    (case network_peer_maps m (ni_network_name pn) of
       Some e \<Rightarrow> fe_network e' = fe_network e \<and> fe_relay_data e' = fe_relay_data e
     | None \<Rightarrow> fe_network e' = pn \<and> fe_relay_data e' = check_network_in_whitelist cx (ni_network_name pn))"
proof -
  define name where "name = ni_network_name pn"
  from assms(4,2,3) name_def show ?thesis
  proof (cases rule: fm_add_cases)
    case (entry e new m1)
    then obtain pm where pm: "fm_refusal cx (started e) new pn (c_my_peer_id c) pc = None" "map_add_new_peer_conn pc (rp_peers (fe_relay e)) = (Inr (), pm)"
      "m' = put_entry name (with_peers (started e) pm) m1" by auto
    let ?e = "with_peers (started e) pm"
    have stored: "\<exists>p. map_of (foreign_peers ?e) (conn_peer_id pc) = Some p \<and> map_of (conns p) cid = Some pc"
      using add_conn_stored [OF pm(2)] conn_of_ids(1) [OF assms(2)] by (simp add: with_peers_def foreign_peers_def)
    have ref: "rp_my_peer_id (fe_relay e) = c_my_peer_id c"
      "network_identity_eq (fx_hash cx) (fe_network e) pn \<or> network_secret_digest_is_empty pn \<and> conn_identity_type pc \<noteq> Admin \<and>
         credential_pubkey_is_trusted (fx_unix_now cx) (fe_trusted_keys e) (ni_network_name (fe_network e)) (noise_remote_static_pubkey pc)"
      using pm(1) by (auto simp: fm_refusal_def Let_def should_reject_credential_trust_path_def split: if_splits)
    note G = get_or_insert_spec [OF entry(1), folded name_def]
    have net: "case network_peer_maps m name of Some e0 \<Rightarrow> e = e0 | None \<Rightarrow> fe_network e = pn \<and> fe_relay_data e = check_network_in_whitelist cx name"
      using G(4) G(5) [of peer_ok] by (auto split: option.split)
    have est: "ni_network_name (fe_network e) = name \<and> \<not> network_secret_digest_is_empty (fe_network e)"
    proof (cases "network_peer_maps m name")
      case None
      then show ?thesis using net entry(3) by (auto simp: name_def)
    next
      case (Some e0)
      then show ?thesis using net fm_ok_lookup [OF fm_run_ok [OF assms(1)] Some] by (simp add: entry_ok_def)
    qed
    have same: "ni_network_secret_digest pn = ni_network_secret_digest (fe_network e) \<and> \<not> network_secret_digest_is_empty pn"
      if "network_identity_eq (fx_hash cx) (fe_network e) pn"
    proof -
      have "ni_network_secret_digest (fe_network e) \<noteq> None" using est by (auto simp: network_secret_digest_is_empty_def split: option.splits)
      then have d: "ni_network_secret_digest (fe_network e) = ni_network_secret_digest pn"
        using identity_digest [OF that] conn_identity_digest [OF assms(3)] by blast
      then show ?thesis using est by (simp add: network_secret_digest_is_empty_def)
    qed
    have f: "fe_network ?e = fe_network e" "fe_relay_data ?e = fe_relay_data e" "fe_trusted_keys ?e = fe_trusted_keys e"
      "rp_my_peer_id (fe_relay ?e) = rp_my_peer_id (fe_relay e)" by (simp_all add: with_peers_def)
    have "network_peer_maps m' name = Some ?e" by (simp add: pm(3) put_entry_def)
    then show ?thesis using stored ref same net est entry(2) f unfolding name_def [symmetric] by (auto split: option.splits)
  qed simp
qed

text \<open>Connections offered one after the other.\<close>

fun fm_add_all :: "foreign_ctx \<Rightarrow> (nat \<times> PeerConnId \<times> u64 \<times> bool \<times> conn) list \<Rightarrow> ForeignNetworkManager
    \<Rightarrow> ((fm_error + unit) list \<times> ForeignNetworkManager) may_panic" where
  "fm_add_all cx [] m = Some ([], m)"
| "fm_add_all cx ((now, cid, latency, punched, c) # xs) m = do {
     (r, m) \<leftarrow> fm_add_peer_conn cx now cid latency punched c m;
     (rs, m) \<leftarrow> fm_add_all cx xs m;
     Some (r # rs, m) }"

lemma refused_once:
  assumes "fm_add_peer_conn cx now cid latency punched c m = Some (Inl IdentityNotTrusted, m')"
    and "conn_network_identity c = Some pn" and "network_peer_maps m (ni_network_name pn) \<noteq> None"
  shows "\<exists>k. get_peer_id c = Some k \<and> dom (peer_network_map m') = insert k (dom (peer_network_map m)) \<and>
    (\<forall>name. map_option foreign_peers (network_peer_maps m' name) = map_option foreign_peers (network_peer_maps m name))"
proof -
  obtain pc where pc: "peer_conn_of cid latency False punched c = Some pc"
    using assms(1) by (auto simp: fm_add_peer_conn_def split: bind_splits)
  obtain e0 where e0: "network_peer_maps m (ni_network_name pn) = Some e0" using assms(3) by auto
  have k: "get_peer_id c = Some (conn_peer_id pc)" using pc by (auto simp: peer_conn_of_def split: bind_splits)
  from assms(1) pc assms(2) refl show ?thesis
  proof (cases rule: fm_add_cases)
    case (early err)
    then show ?thesis by simp
  next
    case (entry e new m1)
    note G = get_or_insert_spec [OF entry(1)]
    have "e = e0" "\<not> new" using G(4) [OF e0] by auto
    then have "m' = put_entry (ni_network_name pn) (started e0) m1" using entry(4) by auto
    then show ?thesis using k G(1,3) e0 \<open>e = e0\<close> by (auto simp: put_entry_def)
  qed
qed

text \<open>
  A peer that is refused because its digest is not the one of the network stays in the map of peers and their networks:
  the map grows with every new identifier that such a peer claims, although no connection is stored. Entries of that map are
  only removed when a stored peer goes away.
\<close>

theorem refused_peers_remembered:
  assumes "fm_add_all cx xs m = Some (rs, m')" and "\<forall>r \<in> set rs. r = Inl IdentityNotTrusted"
    and "\<forall>(now, cid, latency, punched, c) \<in> set xs. \<exists>pn. conn_network_identity c = Some pn \<and> network_peer_maps m (ni_network_name pn) \<noteq> None"
  shows "dom (peer_network_map m') = dom (peer_network_map m) \<union> {k. \<exists>(now, cid, latency, punched, c) \<in> set xs. get_peer_id c = Some k} \<and>
    (\<forall>name. map_option foreign_peers (network_peer_maps m' name) = map_option foreign_peers (network_peer_maps m name))"
  using assms
proof (induction xs arbitrary: m rs)
  case (Cons x xs)
  obtain now cid latency punched c where x: "x = (now, cid, latency, punched, c)" by (metis prod_cases5)
  obtain r m1 rs1 where s: "fm_add_peer_conn cx now cid latency punched c m = Some (r, m1)" "fm_add_all cx xs m1 = Some (rs1, m')" "rs = r # rs1"
    using Cons.prems(1) by (auto simp: x split: bind_splits)
  obtain pn where pn: "conn_network_identity c = Some pn" "network_peer_maps m (ni_network_name pn) \<noteq> None" using Cons.prems(3) by (auto simp: x)
  have "r = Inl IdentityNotTrusted" using Cons.prems(2) s(3) by simp
  then obtain k where k: "get_peer_id c = Some k" "dom (peer_network_map m1) = insert k (dom (peer_network_map m))"
    "\<And>name. map_option foreign_peers (network_peer_maps m1 name) = map_option foreign_peers (network_peer_maps m name)"
    using refused_once [OF _ pn] s(1) by blast
  have same: "network_peer_maps m1 name = None \<longleftrightarrow> network_peer_maps m name = None" for name
    using k(3) [of name] by (metis option.map_disc_iff)
  have "\<forall>(now, cid, latency, punched, c) \<in> set xs. \<exists>pn. conn_network_identity c = Some pn \<and> network_peer_maps m1 (ni_network_name pn) \<noteq> None"
    using Cons.prems(3) by (simp add: same)
  from Cons.IH [OF s(2) _ this] Cons.prems(2) s(3) have IH: "dom (peer_network_map m') = dom (peer_network_map m1) \<union>
      {k. \<exists>(now, cid, latency, punched, c) \<in> set xs. get_peer_id c = Some k}"
    "\<And>name. map_option foreign_peers (network_peer_maps m' name) = map_option foreign_peers (network_peer_maps m1 name)" by auto
  have "{k. \<exists>(now, cid, latency, punched, c) \<in> set (x # xs). get_peer_id c = Some k} = insert k {k. \<exists>(now, cid, latency, punched, c) \<in> set xs. get_peer_id c = Some k}"
    using k(1) by (auto simp: x)
  then show ?case using IH k(2,3) by auto
qed simp


section \<open>Concrete connections\<close>

text \<open>A connection without Noise handshake from peer \<open>k\<close> of the network ''other'' with a digest of bytes \<open>d\<close>; the node is peer 1 there.\<close>

definition foreign_conn :: "PeerId \<Rightarrow> u8 \<Rightarrow> conn" where
  "foreign_conn k d = (demo_conn_of [1] 1)\<lparr>c_info := Some \<lparr>hr_magic = MAGIC, hr_my_peer_id = k, hr_version = VERSION, hr_features = [],
     hr_network_name = ''other'', hr_network_secret_digest = replicate 32 d\<rparr>\<rparr>"

definition demo_fx :: foreign_ctx where
  "demo_fx = \<lparr>fx_relay_all_peer_rpc = False, fx_relay_network_whitelist = ''net other'', fx_wildmatch = (=), fx_disable_relay_data = False,
     fx_foreign_relay_bps_limit = - 1, fx_secure_mode_enabled = False, fx_keypair = None, fx_encryption_algorithm = ''aes-gcm'',
     fx_hash = (\<lambda>_. 0), fx_unix_now = 0, fx_route = (\<lambda>_ _. hd (routes (demo_peers 1 2 [] 0)))\<rparr>"

definition demo_fm :: ForeignNetworkManager where
  "demo_fm = fm_new empty_store \<lparr>buckets = (\<lambda>_. None), bucket_heap = (\<lambda>_. bucket_new 1 1 1), bucket_next = 0\<rparr>"

lemma foreign_conn_facts:
  "conn_network_identity (foreign_conn k d) = Some \<lparr>ni_network_name = ''other'', ni_network_secret = None, ni_network_secret_digest = Some (replicate 32 d)\<rparr>"
  "get_peer_id (foreign_conn k d) = Some k" "c_my_peer_id (foreign_conn k d) = 1"
  "\<exists>pc. peer_conn_of cid lat False punched (foreign_conn k d) = Some pc \<and> conn_peer_id pc = k \<and> conn_id pc = cid \<and> is_hole_punched pc = punched \<and>
     noise_remote_static_pubkey pc = []"
  by (auto simp: foreign_conn_def conn_network_identity_def copy_range_def get_peer_id_def demo_conn_of_def conn_new_def peer_conn_of_def)

lemma demo_whitelist: "check_network_in_whitelist demo_fx ''other''"
  by (simp add: check_network_in_whitelist_def demo_fx_def)

text \<open>The first connection establishes the network.\<close>

lemma demo_established:
  "\<exists>m e. fm_add_peer_conn demo_fx 0 5 9 False (foreign_conn 7 1) demo_fm = Some (Inr (), m) \<and> network_peer_maps m ''other'' = Some e \<and>
    map fst (foreign_peers e) = [7] \<and> rp_my_peer_id (fe_relay e) = 1 \<and> fe_trusted_keys e = (\<lambda>_. None) \<and>
    fe_network e = \<lparr>ni_network_name = ''other'', ni_network_secret = None, ni_network_secret_digest = Some (replicate 32 1)\<rparr> \<and>
    dom (peer_network_map m) = {7}"
proof -
  obtain pc where pc: "peer_conn_of 5 9 False False (foreign_conn 7 1) = Some pc" "conn_peer_id pc = 7" "conn_id pc = 5" "noise_remote_static_pubkey pc = []"
    using foreign_conn_facts(4) by blast
  have d: "\<not> network_secret_digest_is_empty \<lparr>ni_network_name = ''other'', ni_network_secret = None, ni_network_secret_digest = Some (replicate 32 1)\<rparr>"
    by (simp add: network_secret_digest_is_empty_def list_all_iff)
  show ?thesis using pc foreign_conn_facts(1,3) demo_whitelist d
    by (simp add: fm_add_peer_conn_def fm_get_or_insert_entry_def foreign_entry_new_def demo_fm_def fm_new_def foreign_relay_new_def Let_def fm_refusal_def
        network_identity_eq_def put_entry_def map_add_new_peer_conn_def add_route_def peer_map_new_def add_peer_conn_def peer_new_def
        foreign_peers_def maintain_alive_client_urls_def demo_fx_def split: option.split)
qed




theorem foreign_admission_witness:
  "\<exists>m' e'. fm_add_peer_conn demo_fx 0 5 9 False (foreign_conn 7 1) demo_fm = Some (Inr (), m') \<and> network_peer_maps m' ''other'' = Some e' \<and>
    fe_relay_data e' \<and> ni_network_secret_digest (fe_network e') = Some (replicate 32 1)"
proof -
  obtain m where d: "fm_add_peer_conn demo_fx 0 5 9 False (foreign_conn 7 1) demo_fm = Some (Inr (), m)" using demo_established by metis
  obtain pc where pc: "peer_conn_of 5 9 False False (foreign_conn 7 1) = Some pc" using foreign_conn_facts(4) by blast
  have e: "(fm_step demo_noise)\<^sup>*\<^sup>* (fm_new empty_store \<lparr>buckets = (\<lambda>_. None), bucket_heap = (\<lambda>_. bucket_new 1 1 1), bucket_next = 0\<rparr>) demo_fm" by (simp add: demo_fm_def)
  have none: "network_peer_maps demo_fm ''other'' = None" by (simp add: demo_fm_def fm_new_def)
  show ?thesis using foreign_admission [OF e pc foreign_conn_facts(1) d] d none demo_whitelist by auto
qed

text \<open>Two peers with another digest.\<close>

theorem refused_peers_remembered_witness:
  "\<exists>m m'. fm_add_peer_conn demo_fx 0 5 9 False (foreign_conn 7 1) demo_fm = Some (Inr (), m) \<and>
    fm_add_all demo_fx [(1, 6, 9, False, foreign_conn 8 2), (2, 7, 9, False, foreign_conn 9 3)] m = Some ([Inl IdentityNotTrusted, Inl IdentityNotTrusted], m') \<and>
    dom (peer_network_map m') = {7, 8, 9} \<and> map_option (map fst \<circ> foreign_peers) (network_peer_maps m' ''other'') = Some [7]"
proof -
  obtain m e where d: "fm_add_peer_conn demo_fx 0 5 9 False (foreign_conn 7 1) demo_fm = Some (Inr (), m)" "network_peer_maps m ''other'' = Some e"
    "map fst (foreign_peers e) = [7]" "rp_my_peer_id (fe_relay e) = 1" "fe_trusted_keys e = (\<lambda>_. None)"
    "fe_network e = \<lparr>ni_network_name = ''other'', ni_network_secret = None, ni_network_secret_digest = Some (replicate 32 1)\<rparr>" "dom (peer_network_map m) = {7}"
    using demo_established by metis
  have ref: "\<exists>m2 e2. fm_add_peer_conn demo_fx now cid 9 False (foreign_conn k x) m1 = Some (Inl IdentityNotTrusted, m2) \<and> network_peer_maps m2 ''other'' = Some e2 \<and>
      rp_my_peer_id (fe_relay e2) = 1 \<and> fe_trusted_keys e2 = (\<lambda>_. None) \<and> fe_network e2 = fe_network e"
    if m1: "network_peer_maps m1 ''other'' = Some e1" "rp_my_peer_id (fe_relay e1) = 1" "fe_trusted_keys e1 = (\<lambda>_. None)" "fe_network e1 = fe_network e" "x \<noteq> 1" "x \<noteq> 0"
    for now cid k x m1 e1
  proof -
    obtain pc where pc: "peer_conn_of cid 9 False False (foreign_conn k x) = Some pc" using foreign_conn_facts(4) by blast
    have r: "replicate 32 (1 :: u8) \<noteq> replicate 32 x" using m1(5) by (simp add: replicate_eq_replicate)
    show ?thesis using m1 pc foreign_conn_facts(1,3) demo_whitelist d(6) r
      by (simp add: fm_add_peer_conn_def Let_def fm_get_or_insert_entry_def put_entry_def fm_refusal_def network_identity_eq_def with_only_digest_def
          network_secret_digest_is_empty_def list_all_iff)
  qed
  obtain m2 e2 where m2: "fm_add_peer_conn demo_fx 1 6 9 False (foreign_conn 8 2) m = Some (Inl IdentityNotTrusted, m2)" "network_peer_maps m2 ''other'' = Some e2"
    "rp_my_peer_id (fe_relay e2) = 1" "fe_trusted_keys e2 = (\<lambda>_. None)" "fe_network e2 = fe_network e" using ref [OF d(2,4,5) refl, where x = 2 and now = 1 and cid = 6 and k = 8] by (auto; metis)
  obtain m3 where m3: "fm_add_peer_conn demo_fx 2 7 9 False (foreign_conn 9 3) m2 = Some (Inl IdentityNotTrusted, m3)" using ref [OF m2(2-5), where x = 3 and now = 2 and cid = 7 and k = 9] by auto
  have a: "fm_add_all demo_fx [(1, 6, 9, False, foreign_conn 8 2), (2, 7, 9, False, foreign_conn 9 3)] m = Some ([Inl IdentityNotTrusted, Inl IdentityNotTrusted], m3)"
    using m2(1) m3 by simp
  have "dom (peer_network_map m3) = {7, 8, 9} \<and> map_option foreign_peers (network_peer_maps m3 ''other'') = Some (foreign_peers e)"
    using refused_peers_remembered [OF a] d(2,7) foreign_conn_facts(1,2) by auto
  then show ?thesis using d(1,3) a by (auto simp: option.map_comp [symmetric])
qed

end
