(* ===== verification/Peer_Manager.thy ===== *)
theory Peer_Manager
  imports Foreign_Network_Manager Acl_Filter Compressor
begin

text \<open>
  \<open>peers/peer_manager.rs\<close>: the node as a whole. Packets of the virtual network are sent to the owners of their address;
  packets that arrive are forwarded, or decrypted, filtered and given to the network interface or the RPC service;
  connections are admitted to the node's own network or to a foreign one. Sessions are shared by the relay sessions and the
  foreign networks. Metrics are left out; the packet filters that gateways add are a parameter.
\<close>

section \<open>State and environment\<close>

record 'c PeerManager =
  pg_relay :: RelayPeerMap
  pg_foreign :: ForeignNetworkManager
  pg_acl :: "'c AclFilter"
  reserved_my_peer_id_map :: "string \<rightharpoonup> PeerId"
  recent_have_traffic :: "PeerId \<rightharpoonup> nat"
  exit_nodes :: "IpAddr list"

definition put_pg_relay :: "RelayPeerMap \<Rightarrow> 'c PeerManager \<Rightarrow> 'c PeerManager" where
  "put_pg_relay n g = g\<lparr>pg_relay := n, pg_foreign := (pg_foreign g)\<lparr>fm_store := rp_store n\<rparr>\<rparr>"

text \<open>Flags and addresses of the node, the libraries, and for each call the clock and randomness.\<close>

record 'c pm_env =
  me_identity :: NetworkIdentity
  me_ipv4 :: "(u32 \<times> nat) option"
  me_ipv6 :: "(128 word \<times> nat) option"
  me_public_ipv6_lease :: "128 word option"
  me_disable_relay_data :: bool
  me_latency_first :: bool
  me_p2p_only :: bool
  me_private_mode :: bool
  me_disable_p2p :: bool
  me_lazy_p2p :: bool
  me_encryptor :: cipher
  me_aead :: aead_api
  me_rnd :: bytes
  me_zstd :: zstd_api
  me_compress_algo :: CompressorAlgo
  me_cidr :: "'c cidr_api"
  me_pnet :: pnet_api
  me_peer_groups :: "u32 \<Rightarrow> string list"
  me_crypto :: crypto
  me_codec :: relay_codec
  me_uninit :: "nat \<Rightarrow> u8"
  me_sink :: sink
  me_filters :: "(zc_packet \<Rightarrow> zc_packet option) list"
  me_nic_filters :: "(zc_packet \<Rightarrow> zc_packet) list"
  me_public_ipv6_gateway :: "PeerId option"
  me_hash :: "bytes \<Rightarrow> u64"
  me_now :: nat
  me_secs :: u64

definition pg_my_peer_id :: "'c PeerManager \<Rightarrow> PeerId" where
  "pg_my_peer_id g = rp_my_peer_id (pg_relay g)"

definition pg_peers :: "'c PeerManager \<Rightarrow> PeerMap" where
  "pg_peers g = rp_peers (pg_relay g)"

definition latency_first :: "'c pm_env \<Rightarrow> bool" where
  "latency_first cx \<longleftrightarrow> me_latency_first cx \<and> \<not> me_p2p_only cx"

section \<open>Addresses\<close>

text \<open>The network of a prefix length around an address; \<open>contains\<close> and \<open>last_address\<close> of the crate \<open>cidr\<close>.\<close>

definition inet_contains :: "'a::len word \<times> nat \<Rightarrow> 'a word \<Rightarrow> bool" where
  "inet_contains inet ip \<longleftrightarrow> drop_bit (LENGTH('a) - snd inet) ip = drop_bit (LENGTH('a) - snd inet) (fst inet)"

definition last_address :: "'a::len word \<times> nat \<Rightarrow> 'a word" where
  "last_address inet = or (fst inet) (mask (LENGTH('a) - snd inet))"

definition is_ip_local_ipv6 :: "'c pm_env \<Rightarrow> 128 word \<Rightarrow> bool" where
  "is_ip_local_ipv6 cx ip \<longleftrightarrow> map_option fst (me_ipv6 cx) = Some ip \<or> me_public_ipv6_lease cx = Some ip"

definition is_ip_in_same_network :: "'c pm_env \<Rightarrow> IpAddr \<Rightarrow> bool" where
  "is_ip_in_same_network cx ip = (case ip of
     IpV4 a \<Rightarrow> (case me_ipv4 cx of Some inet \<Rightarrow> inet_contains inet a | None \<Rightarrow> False)
   | IpV6 a \<Rightarrow> (case me_ipv6 cx of Some inet \<Rightarrow> inet_contains inet a | None \<Rightarrow> False))"

definition is_ip_local_virtual_ip :: "'c pm_env \<Rightarrow> IpAddr \<Rightarrow> bool" where
  "is_ip_local_virtual_ip cx ip = (case ip of
     IpV4 a \<Rightarrow> map_option fst (me_ipv4 cx) = Some a
   | IpV6 a \<Rightarrow> is_ip_local_ipv6 cx a)"

definition ipv4_is_multicast :: "u32 \<Rightarrow> bool" where "ipv4_is_multicast a \<longleftrightarrow> drop_bit 28 a = 14"
definition ipv6_is_multicast :: "128 word \<Rightarrow> bool" where "ipv6_is_multicast a \<longleftrightarrow> drop_bit 120 a = 255"
definition ipv6_is_unicast_link_local :: "128 word \<Rightarrow> bool" where "ipv6_is_unicast_link_local a \<longleftrightarrow> drop_bit 118 a = 1018"

definition is_all_peers_broadcast_ipv4 :: "'c pm_env \<Rightarrow> u32 \<Rightarrow> bool" where
  "is_all_peers_broadcast_ipv4 cx a =
     (let len = (case me_ipv4 cx of Some inet \<Rightarrow> snd inet | None \<Rightarrow> 24)
      in a = - 1 \<or> ipv4_is_multicast a \<or> a = last_address (a, len))"

definition is_all_peers_broadcast_ipv6 :: "'c pm_env \<Rightarrow> 128 word \<Rightarrow> bool" where
  "is_all_peers_broadcast_ipv6 cx a =
     (let len = (case me_ipv6 cx of Some inet \<Rightarrow> snd inet | None \<Rightarrow> 64)
      in ipv6_is_multicast a \<or> a = last_address (a, len))"

definition select_ipv4_broadcast_peers :: "PeerId \<Rightarrow> listed_route list \<Rightarrow> PeerId list" where
  "select_ipv4_broadcast_peers my rs = map lr_peer_id (filter (\<lambda>r. lr_peer_id r \<noteq> my \<and> lr_ipv4_addr r \<noteq> None) rs)"

fun first_exit_node :: "(IpAddr \<Rightarrow> PeerId option) \<Rightarrow> IpAddr list \<Rightarrow> PeerId list \<times> bool" where
  "first_exit_node f [] = ([], False)"
| "first_exit_node f (e # es) = (case f e of Some p \<Rightarrow> ([p], True) | None \<Rightarrow> first_exit_node f es)"

definition get_msg_dst_peer_ipv4 :: "'c pm_env \<Rightarrow> 'c PeerManager \<Rightarrow> u32 \<Rightarrow> PeerId list \<times> bool" where
  "get_msg_dst_peer_ipv4 cx g a =
     (if is_all_peers_broadcast_ipv4 cx a
      then (select_ipv4_broadcast_peers (pg_my_peer_id g) (list_route_infos (pg_peers g)), False)
      else case map_peer_id_by_ipv4 (pg_peers g) a of
        Some p \<Rightarrow> ([p], False)
      | None \<Rightarrow>
          if is_ip_in_same_network cx (IpV4 a) then ([], False)
          else first_exit_node (\<lambda>e. case e of IpV4 x \<Rightarrow> map_peer_id_by_ipv4 (pg_peers g) x | IpV6 _ \<Rightarrow> None) (exit_nodes g))"

text \<open>The peers of \<open>list_routes\<close> come in the order of a map of another crate, given by \<open>order\<close>.\<close>

definition get_msg_dst_peer_ipv6 :: "'c pm_env \<Rightarrow> PeerId list \<Rightarrow> 'c PeerManager \<Rightarrow> 128 word \<Rightarrow> PeerId list \<times> bool" where
  "get_msg_dst_peer_ipv6 cx order g a =
     (if is_all_peers_broadcast_ipv6 cx a then (filter (\<lambda>p. map_list_routes (pg_peers g) p \<noteq> None) order, False)
      else case map_peer_id_by_ipv6 (pg_peers g) a of
        Some p \<Rightarrow> ([p], False)
      | None \<Rightarrow>
          if ipv6_is_unicast_link_local a then ([], False)
          else case me_public_ipv6_gateway cx of
            Some p \<Rightarrow> ([p], False)
          | None \<Rightarrow> first_exit_node (\<lambda>e. case e of IpV6 x \<Rightarrow> map_peer_id_by_ipv6 (pg_peers g) x | IpV4 _ \<Rightarrow> None) (exit_nodes g))"

definition get_msg_dst_peer :: "'c pm_env \<Rightarrow> PeerId list \<Rightarrow> 'c PeerManager \<Rightarrow> IpAddr \<Rightarrow> PeerId list \<times> bool" where
  "get_msg_dst_peer cx order g ip = (case ip of IpV4 a \<Rightarrow> get_msg_dst_peer_ipv4 cx g a | IpV6 a \<Rightarrow> get_msg_dst_peer_ipv6 cx order g a)"

section \<open>Recent traffic\<close>

text \<open>Instants are in milliseconds.\<close>

definition RECENT_HAVE_TRAFFIC_TTL :: nat where "RECENT_HAVE_TRAFFIC_TTL = 30000"

definition pg_has_directly_connected_conn :: "'c PeerManager \<Rightarrow> PeerId \<Rightarrow> bool" where
  "pg_has_directly_connected_conn g p = (case map_of (peer_map (pg_peers g)) p of
     Some peer \<Rightarrow> peer_has_directly_connected_conn peer
   | None \<Rightarrow> (case rp_foreign_client (pg_relay g) of Some client \<Rightarrow> has_peer client p | None \<Rightarrow> False))"

text \<open>The flag tells that the tasks waiting for demand are woken.\<close>

definition mark_recent_traffic :: "'c pm_env \<Rightarrow> PeerId \<Rightarrow> 'c PeerManager \<Rightarrow> bool \<times> 'c PeerManager" where
  "mark_recent_traffic cx dst g =
     (if dst = pg_my_peer_id g \<or> me_disable_p2p cx \<or> \<not> me_lazy_p2p cx \<or> pg_has_directly_connected_conn g dst then (False, g)
      else (case recent_have_traffic g dst of Some t \<Rightarrow> me_now cx - t > RECENT_HAVE_TRAFFIC_TTL | None \<Rightarrow> True,
        g\<lparr>recent_have_traffic := (recent_have_traffic g)(dst \<mapsto> me_now cx)\<rparr>))"

definition has_recent_traffic :: "'c PeerManager \<Rightarrow> PeerId \<Rightarrow> nat \<Rightarrow> bool" where
  "has_recent_traffic g p now =
     (if pg_has_directly_connected_conn g p then False
      else case recent_have_traffic g p of Some t \<Rightarrow> now - t \<le> RECENT_HAVE_TRAFFIC_TTL | None \<Rightarrow> False)"

definition gc_recent_traffic :: "nat \<Rightarrow> 'c PeerManager \<Rightarrow> 'c PeerManager" where
  "gc_recent_traffic now g = g\<lparr>recent_have_traffic := recent_have_traffic g |`
     {p. case recent_have_traffic g p of Some t \<Rightarrow> \<not> (now - t > RECENT_HAVE_TRAFFIC_TTL \<or> pg_has_directly_connected_conn g p) | None \<Rightarrow> False}\<rparr>"

definition clear_recent_traffic :: "PeerId \<Rightarrow> 'c PeerManager \<Rightarrow> 'c PeerManager" where
  "clear_recent_traffic p g = g\<lparr>recent_have_traffic := (recent_have_traffic g)(p := None)\<rparr>"

section \<open>Sending\<close>

definition get_next_hop_policy :: "bool \<Rightarrow> NextHopPolicy" where
  "get_next_hop_policy is_first_latency = (if is_first_latency then LeastCost else LeastHop)"

definition check_p2p_only_before_send :: "'c pm_env \<Rightarrow> 'c PeerManager \<Rightarrow> PeerId \<Rightarrow> bool" where
  "check_p2p_only_before_send cx g dst \<longleftrightarrow> \<not> (me_p2p_only cx \<and> \<not> has_peer (pg_peers g) dst)"

definition client_has_next_hop :: "RelayPeerMap \<Rightarrow> PeerId \<Rightarrow> bool" where
  "client_has_next_hop n p = (case rp_foreign_client n of Some client \<Rightarrow> client_get_next_hop client p \<noteq> None | None \<Rightarrow> False)"

definition send_via_client :: "sink \<Rightarrow> zc_packet \<Rightarrow> PeerId \<Rightarrow> RelayPeerMap \<Rightarrow> (pm_error + relay_outcome) \<times> RelayPeerMap" where
  "send_via_client sink msg dst n = (case rp_foreign_client n of
     None \<Rightarrow> (Inl RouteError, n)
   | Some client \<Rightarrow> let (r, c) = client_send_msg sink msg dst client in (map_sum id Sent r, n\<lparr>rp_foreign_client := Some c\<rparr>))"

definition send_msg_internal :: "crypto \<Rightarrow> sink \<Rightarrow> nat \<Rightarrow> zc_packet \<Rightarrow> PeerId \<Rightarrow> RelayPeerMap \<Rightarrow> ((pm_error + relay_outcome) \<times> RelayPeerMap) may_panic" where
  "send_msg_internal cr sink now msg dst n = do {
     hdr \<leftarrow> peer_manager_header msg;
     let policy = get_next_hop_policy (is_latency_first hdr);
     if has_peer (rp_peers n) dst
     then let (r, m) = send_msg_directly sink msg dst (rp_peers n) in Some (map_sum id Sent r, n\<lparr>rp_peers := m\<rparr>)
     else if client_has_next_hop n dst then Some (send_via_client sink msg dst n)
     else case get_gateway_peer_id (rp_peers n) dst policy of
       Some gateway \<Rightarrow>
         if has_peer (rp_peers n) gateway \<or> client_has_next_hop n gateway then relay_send_msg cr sink now msg dst policy n
         else Some (Inl RouteError, n)
     | None \<Rightarrow> if client_has_next_hop n dst then Some (send_via_client sink msg dst n) else Some (Inl RouteError, n) }"

text \<open>\<open>try_compress_and_encrypt\<close>: whether it succeeded, and the packet as far as it got.\<close>

definition try_compress_and_encrypt :: "'c pm_env \<Rightarrow> bool \<Rightarrow> zc_packet \<Rightarrow> (bool \<times> zc_packet) may_panic" where
  "try_compress_and_encrypt cx secure msg = do {
     r \<leftarrow> compress (me_zstd cx) (me_compress_algo cx) msg;
     case r of
       Inl _ \<Rightarrow> Some (False, msg)
     | Inr msg \<Rightarrow>
         if secure then Some (True, msg)
         else do {
           r \<leftarrow> encrypt (me_aead cx) (me_rnd cx) (me_encryptor cx) msg;
           Some (case r of Inl _ \<Rightarrow> (False, msg) | Inr msg \<Rightarrow> (True, msg)) } }"

definition pg_send_internal :: "'c pm_env \<Rightarrow> zc_packet \<Rightarrow> PeerId \<Rightarrow> 'c PeerManager \<Rightarrow> ((pm_error + relay_outcome) \<times> 'c PeerManager) may_panic" where
  "pg_send_internal cx msg dst g = do {
     (r, n) \<leftarrow> send_msg_internal (me_crypto cx) (me_sink cx) (me_now cx) msg dst (pg_relay g);
     Some (r, put_pg_relay n g) }"

definition send_msg_for_proxy :: "'c pm_env \<Rightarrow> zc_packet \<Rightarrow> PeerId \<Rightarrow> 'c PeerManager \<Rightarrow> ((pm_error + relay_outcome) \<times> 'c PeerManager) may_panic" where
  "send_msg_for_proxy cx msg dst g =
     (let (_, g) = mark_recent_traffic cx dst g
      in if \<not> check_p2p_only_before_send cx g dst then Some (Inl RouteError, g)
         else do {
           (ok, msg) \<leftarrow> try_compress_and_encrypt cx (rp_secure_mode_enabled (pg_relay g)) msg;
           if \<not> ok then Some (Inl TunnelError, g) else pg_send_internal cx msg dst g })"

text \<open>\<open>send\<close> of the transport of the RPC service: to the node itself, which forwards it.\<close>

definition rpc_transport_send :: "'c pm_env \<Rightarrow> zc_packet \<Rightarrow> PeerId \<Rightarrow> 'c PeerManager \<Rightarrow> ((pm_error + delivery) \<times> 'c PeerManager) may_panic" where
  "rpc_transport_send cx msg dst g = do {
     let public_server = (case Option.bind (get_route_peer_info (pg_peers g) dst) feature_flag of
         Some f \<Rightarrow> is_public_server f
       | None \<Rightarrow> \<not> has_peer (pg_peers g) dst);
     r \<leftarrow> (if \<not> public_server \<and> \<not> rp_secure_mode_enabled (pg_relay g)
       then encrypt (me_aead cx) (me_rnd cx) (me_encryptor cx) msg else Some (Inr msg));
     case r of
       Inl _ \<Rightarrow> Some (Inl TunnelError, g)
     | Inr msg \<Rightarrow>
         let (d, m) = send_msg_directly (me_sink cx) msg (pg_my_peer_id g) (pg_peers g)
         in Some (d, g\<lparr>pg_relay := (pg_relay g)\<lparr>rp_peers := m\<rparr>\<rparr>) }"

text \<open>\<open>run_nic_packet_process_pipeline\<close>; the filters of the gateways may mark the packet as their own.\<close>

definition run_nic_packet_process_pipeline :: "'c pm_env \<Rightarrow> zc_packet \<Rightarrow> 'c PeerManager \<Rightarrow> (zc_packet option \<times> 'c PeerManager) may_panic" where
  "run_nic_packet_process_pipeline cx data g = do {
     (ok, f) \<leftarrow> process_packet_with_acl (me_cidr cx) (me_pnet cx)
       \<lparr>my_ipv4 = None, is_local_ipv6 = (\<lambda>_. False), get_peer_groups = me_peer_groups cx\<rparr> (me_now cx) (me_secs cx) data False (pg_acl g);
     Some (if ok then Some (fold (\<lambda>f p. f p) (me_nic_filters cx) data) else None, g\<lparr>pg_acl := f\<rparr>) }"

text \<open>The loop over the destinations; the errors are counted.\<close>

fun send_to_peers :: "'c pm_env \<Rightarrow> IpAddr \<Rightarrow> bool \<Rightarrow> bool \<Rightarrow> zc_packet \<Rightarrow> PeerId list \<Rightarrow> 'c PeerManager \<Rightarrow> (relay_outcome list \<times> nat \<times> 'c PeerManager) may_panic" where
  "send_to_peers cx ip not_send_to_self mark msg [] g = Some ([], 0, g)"
| "send_to_peers cx ip not_send_to_self mark msg (p # ps) g =
     (let g = (if mark then snd (mark_recent_traffic cx p g) else g)
      in if \<not> check_p2p_only_before_send cx g p
         then map_option (\<lambda>(os, e, g). (os, Suc e, g)) (send_to_peers cx ip not_send_to_self mark msg ps g)
         else do {
           m \<leftarrow> mut_peer_manager_header (\<lambda>h. h\<lparr>to_peer_id := p\<rparr>) msg;
           m \<leftarrow> (if not_send_to_self \<and> p = pg_my_peer_id g \<and> \<not> is_ip_local_virtual_ip cx ip
             then mut_peer_manager_header (\<lambda>h. set_no_proxy True (set_not_send_to_tun True h)) m else Some m);
           (r, g) \<leftarrow> pg_send_internal cx m p g;
           (os, e, g) \<leftarrow> send_to_peers cx ip not_send_to_self mark msg ps g;
           Some (case r of Inl _ \<Rightarrow> (os, Suc e, g) | Inr out \<Rightarrow> (out # os, e, g)) })"

datatype sent_by_ip = AclDenied | NoDestination | EncodingFailed | ToPeers "relay_outcome list" nat

definition send_msg_by_ip :: "'c pm_env \<Rightarrow> PeerId list \<Rightarrow> zc_packet \<Rightarrow> IpAddr \<Rightarrow> bool \<Rightarrow> 'c PeerManager \<Rightarrow> (sent_by_ip \<times> 'c PeerManager) may_panic" where
  "send_msg_by_ip cx order msg ip not_send_to_self g = do {
     msg \<leftarrow> fill_peer_manager_hdr (pg_my_peer_id g) 0 (PacketType_code PT_Data) msg;
     (r, g) \<leftarrow> run_nic_packet_process_pipeline cx msg g;
     case r of
       None \<Rightarrow> Some (AclDenied, g)
     | Some msg \<Rightarrow> do {
         hdr \<leftarrow> peer_manager_header msg;
         if to_peer_id hdr \<noteq> 0
         then do {
           (r, g) \<leftarrow> pg_send_internal cx msg (to_peer_id hdr) (snd (mark_recent_traffic cx (to_peer_id hdr) g));
           Some (case r of Inl _ \<Rightarrow> ToPeers [] 1 | Inr out \<Rightarrow> ToPeers [out] 0, g) }
         else
           let (dst_peers, is_exit_node) = get_msg_dst_peer cx order g ip
           in if dst_peers = [] then Some (NoDestination, g)
              else do {
                (ok, msg) \<leftarrow> try_compress_and_encrypt cx (rp_secure_mode_enabled (pg_relay g)) msg;
                if \<not> ok then Some (EncodingFailed, g)
                else do {
                  msg \<leftarrow> mut_peer_manager_header (\<lambda>h. set_exit_node is_exit_node (set_latency_first (latency_first cx) h)) msg;
                  (os, e, g) \<leftarrow> send_to_peers cx ip not_send_to_self (length dst_peers \<le> 1) msg dst_peers g;
                  Some (ToPeers os e, g) } } } }"


section \<open>Receiving\<close>

definition is_relay_data_zc_packet :: "zc_packet \<Rightarrow> bool may_panic" where
  "is_relay_data_zc_packet packet = (case peer_manager_header packet of
     None \<Rightarrow> Some False
   | Some hdr \<Rightarrow>
       if pm_packet_type hdr = PacketType_code PT_ForeignNetworkPacket
       then map_option (\<lambda>t. case t of None \<Rightarrow> True | Some t \<Rightarrow> is_relay_data_packet_type t) (foreign_network_inner_packet_type packet)
       else Some (is_relay_data_packet_type (pm_packet_type hdr)))"

text \<open>
  \<open>try_handle_foreign_network_packet\<close>: the packet to go on with, if it was not taken. The header of the packet, the header
  of the foreign network and the name in it are unwrapped.
\<close>

definition try_handle_foreign_network_packet :: "'c pm_env \<Rightarrow> zc_packet \<Rightarrow> 'c PeerManager \<Rightarrow> (zc_packet option \<times> delivery option \<times> 'c PeerManager) may_panic" where
  "try_handle_foreign_network_packet cx packet g = do {
     hdr \<leftarrow> peer_manager_header packet;
     if pm_packet_type hdr \<noteq> PacketType_code PT_ForeignNetworkPacket then Some (Some packet, None, g)
     else do {
       drop_data \<leftarrow> (if me_disable_relay_data cx then is_relay_data_zc_packet packet else Some False);
       if drop_data then Some (None, None, g)
       else do {
         fho \<leftarrow> foreign_network_hdr packet;
         fh \<leftarrow> fho;
         pl \<leftarrow> payload packet;
         name_bytes \<leftarrow> get_network_name fh pl;
         let name = bytes_str name_bytes;
         if to_peer_id hdr = pg_my_peer_id g
         then do {
           inner_packet \<leftarrow> foreign_network_packet packet;
           let (r, m) = forward_foreign_network_packet (me_sink cx) name (fnh_get_dst_peer_id fh) inner_packet (pg_foreign g);
           Some (None, case r of Inr d \<Rightarrow> Some d | Inl _ \<Rightarrow> None, g\<lparr>pg_foreign := m\<rparr>) }
         else if fm_get_network_peer_id (pg_foreign g) name = Some (from_peer_id hdr)
         then (case get_origin_my_peer_id (pg_peers g) name (to_peer_id hdr) of
             None \<Rightarrow> Some (Some packet, None, g)
           | Some dst \<Rightarrow> do {
               packet \<leftarrow> mut_peer_manager_header (\<lambda>h. h\<lparr>to_peer_id := dst\<rparr>) packet;
               let (r, m) = map_send_msg (me_sink cx) packet dst LeastHop (pg_peers g);
               Some (None, case r of Inr d \<Rightarrow> Some d | Inl _ \<Rightarrow> None, g\<lparr>pg_relay := (pg_relay g)\<lparr>rp_peers := m\<rparr>\<rparr>) })
         else Some (Some packet, None, g) } } }"

text \<open>What becomes of a received packet. \<open>FilterTook\<close> is a filter of a gateway.\<close>

datatype pm_fate = Discarded | ForeignHandled "delivery option" | Forwarded zc_packet "pm_error + relay_outcome" | HandshakeHandled "pm_error + handled"
  | ToNic zc_packet | ToRpc zc_packet | NotDecoded | FilterTook | Unhandled

definition is_handshake_type :: "u8 \<Rightarrow> bool" where
  "is_handshake_type t \<longleftrightarrow> t \<in> PacketType_code ` {PT_HandShake, PT_NoiseHandshakeMsg1, PT_NoiseHandshakeMsg2, PT_NoiseHandshakeMsg3}"

text \<open>A packet for another node: the forward counter, handshakes of credential nodes, and the encoding of own packets.\<close>

definition recv_forward :: "'c pm_env \<Rightarrow> PeerManagerHeader \<Rightarrow> zc_packet \<Rightarrow> 'c PeerManager \<Rightarrow> (pm_fate \<times> 'c PeerManager) may_panic" where
  "recv_forward cx hdr packet g = do {
     relay_data \<leftarrow> is_relay_data_zc_packet packet;
     let secure = rp_secure_mode_enabled (pg_relay g);
     if me_disable_relay_data cx \<and> relay_data then Some (Discarded, g)
     else if forward_counter hdr > 7 then Some (Discarded, g)
     else if ni_network_secret (me_identity cx) = None \<and> secure \<and> is_handshake_type (pm_packet_type hdr) then Some (Discarded, g)
     else do {
       packet \<leftarrow> mut_peer_manager_header (\<lambda>h.
         (if forward_counter h > 2 \<and> is_latency_first h then set_latency_first False h else h)\<lparr>forward_counter := forward_counter h + 1\<rparr>) packet;
       packet \<leftarrow> (if from_peer_id hdr = pg_my_peer_id g \<and> pm_packet_type hdr \<in> PacketType_code ` {PT_Data, PT_KcpSrc, PT_KcpDst}
         then map_option snd (try_compress_and_encrypt cx secure packet) else Some packet);
       (r, g) \<leftarrow> pg_send_internal cx packet (to_peer_id hdr) g;
       Some (Forwarded packet r, g) } }"

text \<open>\<open>NicPacketProcessor\<close> and \<open>PeerRpcPacketProcessor\<close>.\<close>

definition nic_processor :: "zc_packet \<Rightarrow> pm_fate option may_panic" where
  "nic_processor packet = do {
     hdr \<leftarrow> peer_manager_header packet;
     Some (if pm_packet_type hdr = PacketType_code PT_Data \<and> \<not> is_not_send_to_tun hdr
       then Some (if is_encrypted hdr \<or> is_compressed hdr then NotDecoded else ToNic packet)
       else None) }"

definition rpc_processor :: "zc_packet \<Rightarrow> pm_fate option may_panic" where
  "rpc_processor packet = do {
     hdr \<leftarrow> peer_manager_header packet;
     Some (if is_rpc_packet_type (pm_packet_type hdr) then Some (ToRpc packet) else None) }"

text \<open>The newest filter comes first: those of the gateways, then the RPC service, then the interface.\<close>

fun run_pipeline :: "(zc_packet \<Rightarrow> zc_packet option) list \<Rightarrow> zc_packet \<Rightarrow> pm_fate may_panic" where
  "run_pipeline (f # fs) packet = (case f packet of None \<Rightarrow> Some FilterTook | Some packet \<Rightarrow> run_pipeline fs packet)"
| "run_pipeline [] packet = do {
     r \<leftarrow> rpc_processor packet;
     case r of
       Some fate \<Rightarrow> Some fate
     | None \<Rightarrow> map_option (\<lambda>r. case r of Some fate \<Rightarrow> fate | None \<Rightarrow> Unhandled) (nic_processor packet) }"

definition recv_env :: "'c pm_env \<Rightarrow> node_env" where
  "recv_env cx = \<lparr>my_ipv4 = map_option fst (me_ipv4 cx), is_local_ipv6 = is_ip_local_ipv6 cx, get_peer_groups = me_peer_groups cx\<rparr>"

text \<open>The packet after decryption, if it may go on: with the node's cipher, or in secure mode with the session, if the packet is marked as encrypted.\<close>

definition recv_decrypt :: "'c pm_env \<Rightarrow> PeerManagerHeader \<Rightarrow> zc_packet \<Rightarrow> 'c PeerManager \<Rightarrow> (zc_packet option \<times> 'c PeerManager) may_panic" where
  "recv_decrypt cx hdr packet g =
     (if \<not> rp_secure_mode_enabled (pg_relay g)
      then map_option (\<lambda>r. (case r of Inr q \<Rightarrow> Some q | Inl _ \<Rightarrow> None, g)) (decrypt (me_aead cx) (me_encryptor cx) packet)
      else if is_encrypted hdr
      then map_option (\<lambda>(r, n). (case r of Inr (True, q) \<Rightarrow> Some q | _ \<Rightarrow> None, put_pg_relay n g))
        (decrypt_if_needed (me_crypto cx) (me_now cx) packet (pg_relay g))
      else Some (Some packet, g))"

definition recv_local ::
  "'c pm_env \<Rightarrow> ('hs, 'z) noise_api_scheme \<Rightarrow> bytes \<Rightarrow> 128 word \<Rightarrow> bytes \<Rightarrow> PeerManagerHeader \<Rightarrow> zc_packet \<Rightarrow> 'c PeerManager \<Rightarrow> (pm_fate \<times> 'c PeerManager) may_panic" where
  "recv_local cx nz fresh_key uuid eph hdr packet g =
     (if pm_packet_type hdr \<in> PacketType_code ` {PT_RelayHandshake, PT_RelayHandshakeAck}
      then do {
        (r, n) \<leftarrow> handle_handshake_packet nz (me_codec cx) (me_crypto cx) (me_uninit cx) (me_sink cx) (me_now cx) fresh_key uuid eph packet (pg_relay g);
        Some (HandshakeHandled r, put_pg_relay n g) }
      else do {
        (r, g) \<leftarrow> recv_decrypt cx hdr packet g;
        case r of
          None \<Rightarrow> Some (Discarded, g)
        | Some packet \<Rightarrow> do {
            r \<leftarrow> decompress (me_zstd cx) packet;
            case r of
              Inl _ \<Rightarrow> Some (Discarded, g)
            | Inr packet \<Rightarrow> do {
                (ok, f) \<leftarrow> process_packet_with_acl (me_cidr cx) (me_pnet cx) (recv_env cx) (me_now cx) (me_secs cx) packet True (pg_acl g);
                let g = g\<lparr>pg_acl := f\<rparr>;
                if \<not> ok then Some (Discarded, g)
                else do {
                  fate \<leftarrow> run_pipeline (me_filters cx) packet;
                  Some (fate, g) } } } })"

text \<open>One round of \<open>start_peer_recv\<close>.\<close>

definition peer_recv ::
  "'c pm_env \<Rightarrow> ('hs, 'z) noise_api_scheme \<Rightarrow> bytes \<Rightarrow> 128 word \<Rightarrow> bytes \<Rightarrow> zc_packet \<Rightarrow> 'c PeerManager \<Rightarrow> (pm_fate \<times> 'c PeerManager) may_panic" where
  "peer_recv cx nz fresh_key uuid eph packet g = do {
     (r, d, g) \<leftarrow> try_handle_foreign_network_packet cx packet g;
     case r of
       None \<Rightarrow> Some (ForeignHandled d, g)
     | Some packet \<Rightarrow> (case peer_manager_header packet of
         None \<Rightarrow> Some (Discarded, g)
       | Some hdr \<Rightarrow>
           if to_peer_id hdr \<noteq> pg_my_peer_id g then recv_forward cx hdr packet g
           else recv_local cx nz fresh_key uuid eph hdr packet g) }"

section \<open>Connections\<close>

definition pg_add_new_peer_conn :: "'c pm_env \<Rightarrow> PeerConnId \<Rightarrow> u64 \<Rightarrow> bool \<Rightarrow> conn \<Rightarrow> 'c PeerManager \<Rightarrow> ((pm_error + unit) \<times> 'c PeerManager) may_panic" where
  "pg_add_new_peer_conn cx cid latency punched c g = do {
     peer_identity \<leftarrow> conn_network_identity c;
     pc \<leftarrow> peer_conn_of cid latency False punched c;
     let peer_secure_mode = (noise_remote_static_pubkey pc \<noteq> []);
     if rp_secure_mode_enabled (pg_relay g) \<noteq> peer_secure_mode then Some (Inl SecretKeyError, g)
     else
       let identity_ok = (if network_secret_digest_is_empty (me_identity cx) \<or> network_secret_digest_is_empty peer_identity
             then ni_network_name (me_identity cx) = ni_network_name peer_identity
             else network_identity_eq (me_hash cx) (me_identity cx) peer_identity)
       in if \<not> identity_ok then Some (Inl SecretKeyError, g)
          else let (r, m) = map_add_new_peer_conn pc (pg_peers g);
                   g = g\<lparr>pg_relay := (pg_relay g)\<lparr>rp_peers := m\<rparr>\<rparr>
               in Some (case r of Inl e \<Rightarrow> (Inl e, g) | Inr _ \<Rightarrow> (Inr (), clear_recent_traffic (conn_peer_id pc) g)) }"

text \<open>The end of \<open>add_client_tunnel_with_peer_id_hint\<close>, after the handshake.\<close>

definition add_client_conn :: "'c pm_env \<Rightarrow> PeerConnId \<Rightarrow> u64 \<Rightarrow> bool \<Rightarrow> conn \<Rightarrow> 'c PeerManager \<Rightarrow> ((pm_error + unit) \<times> 'c PeerManager) may_panic" where
  "add_client_conn cx cid latency is_directly_connected c g = do {
     ni \<leftarrow> conn_network_identity c;
     if ni_network_name ni = ni_network_name (me_identity cx) then pg_add_new_peer_conn cx cid latency (\<not> is_directly_connected) c g
     else do {
       pc \<leftarrow> peer_conn_of cid latency False (\<not> is_directly_connected) c;
       Some (case rp_foreign_client (pg_relay g) of
           None \<Rightarrow> (Inl RouteError, g)
         | Some client \<Rightarrow>
             let (r, m) = map_add_new_peer_conn pc client in (r, g\<lparr>pg_relay := (pg_relay g)\<lparr>rp_foreign_client := Some m\<rparr>\<rparr>)) } }"

text \<open>
  The closure that \<open>add_tunnel_as_server\<close> passes to the handshake: for another network the node takes the identifier it has
  there, or one that is reserved for it; \<open>random\<close> is a new one. The last result is the name it was reserved for.
\<close>

definition server_network_hook :: "'c pm_env \<Rightarrow> PeerId \<Rightarrow> string \<Rightarrow> conn \<Rightarrow> 'c PeerManager \<Rightarrow> (conn \<times> string option \<times> 'c PeerManager) may_panic" where
  "server_network_hook cx random name c g =
     (if name = ni_network_name (me_identity cx) then Some (c, None, g)
      else let (p, reserved, g) = (case fm_get_network_peer_id (pg_foreign g) name of
             Some p \<Rightarrow> (p, None, g)
           | None \<Rightarrow>
               let p = (case reserved_my_peer_id_map g name of Some p \<Rightarrow> p | None \<Rightarrow> random)
               in (p, Some name, g\<lparr>reserved_my_peer_id_map := (reserved_my_peer_id_map g)(name \<mapsto> p)\<rparr>))
           in map_option (\<lambda>c. (c, reserved, g)) (conn_set_peer_id p c))"

definition release_reserved_peer_id :: "string \<Rightarrow> 'c PeerManager \<Rightarrow> 'c PeerManager" where
  "release_reserved_peer_id name g = g\<lparr>reserved_my_peer_id_map := (reserved_my_peer_id_map g)(name := None)\<rparr>"

datatype server_error = SE_PrivateMode | SE_Own pm_error | SE_Foreign fm_error

text \<open>\<open>add_tunnel_as_server\<close> after the handshake: \<open>cn\<close> is the context the connection was made in.\<close>

definition add_server_conn ::
  "'c pm_env \<Rightarrow> foreign_ctx \<Rightarrow> conn_ctx \<Rightarrow> PeerConnId \<Rightarrow> u64 \<Rightarrow> bool \<Rightarrow> conn \<Rightarrow> 'c PeerManager \<Rightarrow> ((server_error + unit) \<times> 'c PeerManager) may_panic" where
  "add_server_conn cx fx cn cid latency is_directly_connected c g = do {
     peer_identity \<leftarrow> conn_network_identity c;
     pc \<leftarrow> peer_conn_of cid latency False (\<not> is_directly_connected) c;
     let name = ni_network_name peer_identity;
     let is_local_network = (name = ni_network_name (me_identity cx));
     let trusted = (get_peer_identity_type c = Credential \<and>
       is_existing_credential_pubkey_trusted (fx_unix_now fx) (pg_foreign g) name (noise_remote_static_pubkey pc));
     secret_ok \<leftarrow> matches_local_network_secret cn c;
     if \<not> is_local_network \<and> me_private_mode cx \<and> \<not> (secret_ok \<or> trusted) then Some (Inl SE_PrivateMode, release_reserved_peer_id name g)
     else if is_local_network
     then map_option (\<lambda>(r, g). (map_sum SE_Own id r, release_reserved_peer_id name g))
       (pg_add_new_peer_conn cx cid latency (\<not> is_directly_connected) c g)
     else map_option (\<lambda>(r, m). (map_sum SE_Foreign id r, release_reserved_peer_id name (g\<lparr>pg_foreign := m\<rparr>)))
       (fm_add_peer_conn fx (me_now cx) cid latency (\<not> is_directly_connected) c (pg_foreign g)) }"

definition map_close_peer_conn :: "PeerMap \<Rightarrow> PeerId \<Rightarrow> PeerConnId \<Rightarrow> pm_error + PeerConnId" where
  "map_close_peer_conn m p cid = (case map_of (peer_map m) p of Some peer \<Rightarrow> close_peer_conn cid peer | None \<Rightarrow> Inl ConnNotFound)"

text \<open>The own network, then the client of foreign networks, then the served networks in the order \<open>names\<close>.\<close>

definition pg_close_peer_conn :: "string list \<Rightarrow> 'c PeerManager \<Rightarrow> PeerId \<Rightarrow> PeerConnId \<Rightarrow> pm_error + PeerConnId" where
  "pg_close_peer_conn names g p cid =
     (let r = map_close_peer_conn (pg_peers g) p cid
      in if r \<noteq> Inl ConnNotFound then r
         else let r = (case rp_foreign_client (pg_relay g) of Some client \<Rightarrow> map_close_peer_conn client p cid | None \<Rightarrow> Inl ConnNotFound)
              in if r \<noteq> Inl ConnNotFound then r else close_in_networks p cid (pg_foreign g) names)"

text \<open>\<open>check_allow_kcp_to_dst\<close>, and with the other flags \<open>check_allow_quic_to_dst\<close>.\<close>

definition check_allow_to_dst :: "(PeerFeatureFlag \<Rightarrow> bool) \<Rightarrow> (PeerFeatureFlag \<Rightarrow> bool) \<Rightarrow> bool \<Rightarrow> route_ops \<Rightarrow> IpAddr \<Rightarrow> bool" where
  "check_allow_to_dst input no_relay lat_first r ip =
     (case (case ip of IpV4 a \<Rightarrow> ro_peer_id_by_ipv4 r a | IpV6 a \<Rightarrow> ro_peer_id_by_ipv6 r a) of
        None \<Rightarrow> False
      | Some dst \<Rightarrow> (case ro_peer_info r dst of
          None \<Rightarrow> False
        | Some info \<Rightarrow>
            (case feature_flag info of Some f \<Rightarrow> input f | None \<Rightarrow> False) \<and>
            (case ro_next_hop_with_policy r dst (get_next_hop_policy lat_first) of
               None \<Rightarrow> False
             | Some hop \<Rightarrow> hop = dst \<or>
                 (case ro_peer_info r hop of
                    None \<Rightarrow> False
                  | Some info \<Rightarrow> \<not> (case feature_flag info of Some f \<Rightarrow> no_relay f | None \<Rightarrow> False)))))"

definition check_allow_kcp_to_dst :: "'c pm_env \<Rightarrow> route_ops \<Rightarrow> IpAddr \<Rightarrow> bool" where
  "check_allow_kcp_to_dst cx = check_allow_to_dst kcp_input no_relay_kcp (me_latency_first cx)"

definition check_allow_quic_to_dst :: "'c pm_env \<Rightarrow> route_ops \<Rightarrow> IpAddr \<Rightarrow> bool" where
  "check_allow_quic_to_dst cx = check_allow_to_dst quic_input no_relay_quic (me_latency_first cx)"


section \<open>The number of forwards\<close>





definition packet_counter :: "zc_packet \<Rightarrow> u8 option" where
  "packet_counter p = map_option forward_counter (peer_manager_header p)"

lemma packet_counterI: "peer_manager_header p = Some h \<Longrightarrow> packet_counter p = Some (forward_counter h)"
  by (simp add: packet_counter_def)




text \<open>Only \<open>recv_forward\<close> forwards, and it gets the packet as it arrived.\<close>

lemma try_handle_passes:
  assumes "try_handle_foreign_network_packet cx p g = Some (Some q, d, g')"
  shows "q = p \<and> g' = g"
  using assms by (auto simp: try_handle_foreign_network_packet_def Let_def split: if_splits bind_splits option.splits prod.splits)

lemma run_pipeline_not_forwarded: "run_pipeline fs p \<noteq> Some (Forwarded q r)"
proof (induction fs p rule: run_pipeline.induct)
  case (2 p)
  then show ?case by (auto simp: rpc_processor_def nic_processor_def split: bind_splits if_splits option.splits)
qed (auto split: option.splits)

lemma recv_local_not_forwarded: "recv_local cx nz k u e h p g \<noteq> Some (Forwarded q r, g')"
  using run_pipeline_not_forwarded by (auto simp: recv_local_def Let_def split: bind_splits if_splits option.splits sum.splits)

lemma peer_recv_forwarded:
  assumes "peer_recv cx nz k u e p g = Some (Forwarded q r, g')"
  shows "\<exists>h. peer_manager_header p = Some h \<and> to_peer_id h \<noteq> pg_my_peer_id g \<and> recv_forward cx h p g = Some (Forwarded q r, g')"
proof -
  obtain x d g1 where t: "try_handle_foreign_network_packet cx p g = Some (x, d, g1)" "x \<noteq> None"
    using assms by (auto simp: peer_recv_def split: bind_splits option.splits)
  then have "try_handle_foreign_network_packet cx p g = Some (Some p, d, g)" using try_handle_passes by blast
  then show ?thesis using assms by (auto simp: peer_recv_def recv_local_not_forwarded split: option.splits if_splits)
qed

text \<open>What a node that forwards a packet sends on, and a packet that goes through a list of nodes.\<close>

definition forwards_to ::
  "('hs, 'z) noise_api_scheme \<Rightarrow> bytes \<Rightarrow> 128 word \<Rightarrow> bytes \<Rightarrow> 'c pm_env \<times> 'c PeerManager \<Rightarrow> zc_packet \<Rightarrow> zc_packet option" where
  "forwards_to nz k u e node p = (case peer_recv (fst node) nz k u e p (snd node) of
     Some (Forwarded _ (Inr (Sent d)), _) \<Rightarrow> Some (delivery_packet d)
   | _ \<Rightarrow> None)"

fun carried_by ::
  "('hs, 'z) noise_api_scheme \<Rightarrow> bytes \<Rightarrow> 128 word \<Rightarrow> bytes \<Rightarrow> ('c pm_env \<times> 'c PeerManager) list \<Rightarrow> zc_packet \<Rightarrow> zc_packet option" where
  "carried_by nz k u e [] p = Some p"
| "carried_by nz k u e (node # nodes) p = Option.bind (forwards_to nz k u e node p) (carried_by nz k u e nodes)"


lemma forwards_to_Some:
  assumes "forwards_to nz k u e (cx, g) p = Some q"
  obtains h x d g' where "peer_manager_header p = Some h" and "to_peer_id h \<noteq> pg_my_peer_id g"
    and "recv_forward cx h p g = Some (Forwarded x (Inr (Sent d)), g')" and "q = delivery_packet d"
proof -
  obtain x d g' where "peer_recv cx nz k u e p g = Some (Forwarded x (Inr (Sent d)), g')" "q = delivery_packet d"
    using assms by (auto simp: forwards_to_def split: option.splits pm_fate.splits sum.splits relay_outcome.splits prod.splits)
  then show thesis using peer_recv_forwarded [of cx nz k u e p g x "Inr (Sent d)" g'] that by blast
qed



section \<open>From address to interface\<close>

text \<open>What forwarding keeps of a packet: all but the forward counter and the flags that choose the route.\<close>

definition header_content :: "PeerManagerHeader \<Rightarrow> PeerId \<times> PeerId \<times> u8 \<times> u32 \<times> bool \<times> bool \<times> bool" where
  "header_content h = (from_peer_id h, to_peer_id h, pm_packet_type h, pm_len h, is_encrypted h, is_compressed h, is_not_send_to_tun h)"

definition content :: "zc_packet \<Rightarrow> ((PeerId \<times> PeerId \<times> u8 \<times> u32 \<times> bool \<times> bool \<times> bool) \<times> bytes) option" where
  "content p = do { h \<leftarrow> peer_manager_header p; pl \<leftarrow> payload p; Some (header_content h, pl) }"

lemma content_pkt: "hdr_room t pre \<Longrightarrow> content (pkt t pre h pl) = Some (header_content h, pl)"
  by (simp add: content_def pkt_simps)

lemma content_SomeE:
  assumes "content p = Some (c, pl)"
  obtains t pre h where "p = pkt t pre h pl" and "hdr_room t pre" and "header_content h = c"
proof -
  obtain h where h: "peer_manager_header p = Some h" "payload p = Some pl" "header_content h = c"
    using assms by (auto simp: content_def split: bind_splits)
  from h(1) obtain t pre pl' where "p = pkt t pre h pl'" "hdr_room t pre" by (rule pkt_cases)
  then show thesis using that h(2,3) by (simp add: pkt_simps)
qed

lemma route_flags_content:
  "header_content (set_latency_first b h) = header_content h" "header_content (set_exit_node b h) = header_content h"
  "header_content (h\<lparr>forward_counter := c\<rparr>) = header_content h"
  by (simp_all add: header_content_def flag_ops flag_defs flag_put_other)

lemma send_internal_plain:
  assumes "\<not> rp_secure_mode_enabled n" and "send_msg_internal cr sink now msg dst n = Some (Inr (Sent d), n')"
  shows "delivery_packet d = msg"
proof -
  have client: "send_via_client sink msg dst n = (Inr (Sent d), n'') \<Longrightarrow> delivery_packet d = msg" for n''
    by (auto simp: send_via_client_def client_send_msg_def map_sum_Inr_iff dest!: send_directly_packet split: option.splits prod.splits)
  have relay: "relay_send_msg cr sink now msg dst policy n = Some (Inr (Sent d), n') \<Longrightarrow> delivery_packet d = msg" for policy
    using assms(1) send_via_next_hop_frame by (fastforce simp: relay_send_msg_def Let_def map_sum_Inr_iff split: prod.splits)
  obtain h where h: "peer_manager_header msg = Some h" using assms(2) by (auto simp: send_msg_internal_def split: bind_splits)
  show ?thesis
  proof (cases "has_peer (rp_peers n) dst")
    case True
    then show ?thesis using h assms(2) by (auto simp: send_msg_internal_def map_sum_Inr_iff dest!: send_directly_packet split: prod.splits)
  next
    case False
    then show ?thesis using h assms(2) client relay by (auto simp: send_msg_internal_def Let_def split: if_splits option.splits)
  qed
qed

lemma recv_forward_content:
  assumes "\<not> rp_secure_mode_enabled (pg_relay g)" and "peer_manager_header p = Some h" and "from_peer_id h \<noteq> pg_my_peer_id g"
    and "recv_forward cx h p g = Some (Forwarded x (Inr (Sent d)), g')"
  shows "content (delivery_packet d) = content p"
proof -
  define f where "f = (\<lambda>h. (if forward_counter h > 2 \<and> is_latency_first h then set_latency_first False h else h)\<lparr>forward_counter := forward_counter h + 1\<rparr>)"
  from assms(2) obtain t pre pl where p: "p = pkt t pre h pl" "hdr_room t pre" by (rule pkt_cases)
  obtain b where b: "is_relay_data_zc_packet p = Some b" using assms(4) by (auto simp: recv_forward_def split: bind_splits)
  have "pg_send_internal cx (pkt t pre (f h) pl) (to_peer_id h) g = Some (Inr (Sent d), g')"
    using assms(3,4) b p by (auto simp: recv_forward_def Let_def f_def [symmetric] pkt_simps split: if_splits bind_splits)
  then obtain n where "send_msg_internal (me_crypto cx) (me_sink cx) (me_now cx) (pkt t pre (f h) pl) (to_peer_id h) (pg_relay g) = Some (Inr (Sent d), n)"
    by (auto simp: pg_send_internal_def split: bind_splits)
  from send_internal_plain [OF assms(1) this] show ?thesis using p
    by (simp add: content_pkt f_def route_flags_content)
qed

lemma carried_content:
  assumes "\<forall>node \<in> set nodes. \<not> rp_secure_mode_enabled (pg_relay (snd node)) \<and> pg_my_peer_id (snd node) \<noteq> a"
    and "carried_by nz k u e nodes p = Some q" and "get_src_peer_id p = Some a"
  shows "content q = content p"
  using assms
proof (induction nodes arbitrary: p)
  case (Cons node nodes)
  obtain cx g where n: "node = (cx, g)" by fastforce
  obtain p1 where p1: "forwards_to nz k u e (cx, g) p = Some p1" "carried_by nz k u e nodes p1 = Some q"
    using Cons.prems(2) n by (auto simp: bind_eq_Some_conv)
  obtain h x d g' where f: "peer_manager_header p = Some h" "recv_forward cx h p g = Some (Forwarded x (Inr (Sent d)), g')" "p1 = delivery_packet d"
    using p1(1) by (elim forwards_to_Some)
  have a: "from_peer_id h = a" using Cons.prems(3) f(1) by (simp add: get_src_peer_id_def)
  have c: "content p1 = content p" using recv_forward_content [OF _ f(1) _ f(2)] Cons.prems(1) n a f(3) by auto
  from f(1) obtain t pre pl where p: "p = pkt t pre h pl" "hdr_room t pre" by (rule pkt_cases)
  then have "content p1 = Some (header_content h, pl)" using c by (simp add: content_pkt)
  then have "get_src_peer_id p1 = Some a" using a
    by (elim content_SomeE) (auto simp: get_src_peer_id_def pkt_simps header_content_def)
  then show ?case using Cons.IH [OF _ p1(2)] Cons.prems(1) c by simp
qed simp


text \<open>A packet that was compressed and encrypted is decoded from its content, whatever became of the rest of its header.\<close>

lemma encrypt_decode:
  assumes "aead_ok api" and "length rnd = 12" and "hdr_room t pre" and "\<not> is_encrypted h"
    and "encrypt api rnd c (pkt t pre h pl) = Some (Inr q)"
  shows "\<exists>h' pl'. q = pkt t pre h' pl' \<and> (h' = h \<or> h' = set_encrypted True h) \<and>
    (\<forall>t2 pre2 h2. hdr_room t2 pre2 \<longrightarrow> is_encrypted h2 = is_encrypted h' \<longrightarrow>
      decrypt api c (pkt t2 pre2 h2 pl') = Some (Inr (pkt t2 pre2 (if is_encrypted h2 then set_encrypted False h2 else h2) pl)))"
proof -
  note e = ring_encrypt_pkt [OF assms(1,3,4)] aes_gcm_encrypt_pkt [OF assms(1,3,4)] and d = ring_decrypt_pkt [OF assms(1)] aes_gcm_decrypt_pkt [OF assms(1)]
  show ?thesis
  proof (cases c)
    case NullCipher
    then show ?thesis using assms(4,5)
      by (intro exI [of _ h] exI [of _ pl]) (auto simp: encrypt_def null_encrypt_def null_decrypt_def pkt_simps)
  next
    case (XorCipher key)
    then show ?thesis using assms(3-5)
      by (intro exI [of _ "set_encrypted True h"] exI [of _ "xor_data key pl"]) (auto simp: encrypt_def xor_encrypt_pkt xor_decrypt_pkt)
  next
    case (RingCipher r)
    obtain ct tag where s: "aead_seal api (fst (get_cipher r)) (snd (get_cipher r)) rnd pl = Some (ct, tag)" "q = pkt t pre (set_encrypted True h) (ct @ tag @ rnd)"
      using RingCipher assms(5) e(1) by (auto simp: encrypt_def split: option.splits)
    then show ?thesis using RingCipher aead_ok_seal [OF assms(1) s(1)] assms(2)
      by (intro exI [of _ "set_encrypted True h"] exI [of _ "ct @ tag @ rnd"]) (auto simp: d(1) Let_def)
  next
    case (AesGcmCipher r)
    obtain ct tag where s: "aead_seal api (fst (aes_gcm_cipher r)) (snd (aes_gcm_cipher r)) rnd pl = Some (ct, tag)" "q = pkt t pre (set_encrypted True h) (ct @ tag @ rnd)"
      using AesGcmCipher assms(5) e(2) by (auto simp: encrypt_def split: option.splits)
    then show ?thesis using AesGcmCipher aead_ok_seal [OF assms(1) s(1)] assms(2)
      by (intro exI [of _ "set_encrypted True h"] exI [of _ "ct @ tag @ rnd"]) (auto simp: d(2) Let_def)
  qed
qed

lemma compress_decode:
  assumes "zstd_ok z" and "hdr_room t pre" and "\<not> is_compressed h" and "unat (pm_len h) = length pl" and "length pl \<le> 65536"
    and "compress z algo (pkt t pre h pl) = Some (Inr q)"
  shows "\<exists>h' pl'. q = pkt t pre h' pl' \<and> (h' = h \<or> h' = set_compressed True h) \<and>
    (\<forall>t2 pre2 h2. hdr_room t2 pre2 \<longrightarrow> is_compressed h2 = is_compressed h' \<longrightarrow> pm_len h2 = pm_len h \<longrightarrow>
      decompress z (pkt t2 pre2 h2 pl') = Some (Inr (pkt t2 pre2 (if is_compressed h2 then set_compressed False h2 else h2) pl)))"
proof (cases "q = pkt t pre h pl")
  case True
  then show ?thesis using assms(3) by (intro exI [of _ h] exI [of _ pl]) (auto simp: decompress_def pkt_simps)
next
  case False
  then have algo: "algo = CA_ZstdDefault" using assms(6) by (cases algo) (auto simp: compress_def)
  obtain c where c: "zstd_compress z pl = Some c" "length c + 1 \<le> length pl" "q = pkt t pre (set_compressed True h) (c @ [1])"
    using assms(3,4,6) False algo compress_pkt [OF assms(2), of z h pl] by (auto split: option.splits if_splits)
  have "decompress_raw z c CA_ZstdDefault = Inr pl"
    using decompress_raw_of_compressed [OF assms(1), of pl CA_ZstdDefault c] c(1,2) assms(5) by (simp add: compress_raw_def)
  then show ?thesis using c(3) assms(4)
    by (intro exI [of _ "set_compressed True h"] exI [of _ "c @ [1]"]) (auto simp: decompress_pkt)
qed

text \<open>The receiving half of a node in the clear: decoding, the access control list and the interface.\<close>

definition decodes_to :: "aead_api \<Rightarrow> cipher \<Rightarrow> zstd_api \<Rightarrow> bytes \<Rightarrow> PeerManagerHeader \<Rightarrow> bytes \<Rightarrow> bool" where
  "decodes_to api c z pl h pl' \<longleftrightarrow> (\<forall>t2 pre2 h2. hdr_room t2 pre2 \<longrightarrow>
     is_encrypted h2 = is_encrypted h \<longrightarrow> is_compressed h2 = is_compressed h \<longrightarrow> pm_len h2 = pm_len h \<longrightarrow>
     (\<exists>x h3. decrypt api c (pkt t2 pre2 h2 pl') = Some (Inr x) \<and> decompress z x = Some (Inr (pkt t2 pre2 h3 pl)) \<and>
       header_content h3 = header_content (set_encrypted False (set_compressed False h2))))"

lemma header_content_flags:
  assumes "header_content h2 = header_content h"
  shows "header_content (set_encrypted b h2) = header_content (set_encrypted b h)"
    "header_content (set_compressed b h2) = header_content (set_compressed b h)"
  using assms by (simp_all add: header_content_def flag_ops flag_defs flag_put_other flag_put_same)

lemma header_content_clear:
  "\<not> is_encrypted h \<Longrightarrow> header_content (set_encrypted False h) = header_content h"
  "\<not> is_compressed h \<Longrightarrow> header_content (set_compressed False h) = header_content h"
  by (simp_all add: header_content_def flag_ops flag_defs flag_put_other flag_put_same)

lemma header_content_swap: "header_content (set_compressed b (set_encrypted c h)) = header_content (set_encrypted c (set_compressed b h))"
  by (simp add: header_content_def flag_ops flag_defs flag_put_other flag_put_same)

lemma try_compress_decodes:
  assumes "aead_ok (me_aead cx)" and "length (me_rnd cx) = 12" and "zstd_ok (me_zstd cx)" and "hdr_room t pre"
    and "\<not> is_encrypted h" and "\<not> is_compressed h" and "unat (pm_len h) = length pl" and "length pl \<le> 65536"
    and "try_compress_and_encrypt cx False (pkt t pre h pl) = Some (True, q)"
  shows "\<exists>h' pl'. q = pkt t pre h' pl' \<and> decodes_to (me_aead cx) (me_encryptor cx) (me_zstd cx) pl h' pl' \<and>
    header_content (set_encrypted False (set_compressed False h')) = header_content h"
proof -
  obtain p1 where p1: "compress (me_zstd cx) (me_compress_algo cx) (pkt t pre h pl) = Some (Inr p1)"
    using assms(9) by (auto simp: try_compress_and_encrypt_def split: bind_splits sum.splits)
  have en: "encrypt (me_aead cx) (me_rnd cx) (me_encryptor cx) p1 = Some (Inr q)"
    using assms(9) p1 by (auto simp: try_compress_and_encrypt_def split: bind_splits sum.splits)
  obtain h1 pl1 where c: "p1 = pkt t pre h1 pl1" "h1 = h \<or> h1 = set_compressed True h"
    "\<And>t2 pre2 h2. hdr_room t2 pre2 \<Longrightarrow> is_compressed h2 = is_compressed h1 \<Longrightarrow> pm_len h2 = pm_len h \<Longrightarrow>
      decompress (me_zstd cx) (pkt t2 pre2 h2 pl1) = Some (Inr (pkt t2 pre2 (if is_compressed h2 then set_compressed False h2 else h2) pl))"
    using compress_decode [OF assms(3,4,6-8) p1] by metis
  have "\<not> is_encrypted h1" using c(2) assms(5) by auto
  then obtain h' pl' where e: "q = pkt t pre h' pl'" "h' = h1 \<or> h' = set_encrypted True h1"
    "\<And>t2 pre2 h2. hdr_room t2 pre2 \<Longrightarrow> is_encrypted h2 = is_encrypted h' \<Longrightarrow>
      decrypt (me_aead cx) (me_encryptor cx) (pkt t2 pre2 h2 pl') = Some (Inr (pkt t2 pre2 (if is_encrypted h2 then set_encrypted False h2 else h2) pl1))"
    using encrypt_decode [OF assms(1,2,4) _ en [unfolded c(1)]] by metis
  have ch: "is_compressed h' = is_compressed h1" "pm_len h' = pm_len h" using c(2) e(2) by auto
  have "decodes_to (me_aead cx) (me_encryptor cx) (me_zstd cx) pl h' pl'"
    unfolding decodes_to_def
  proof (intro allI impI)
    fix t2 pre2 h2 assume r: "hdr_room t2 pre2" and i: "is_encrypted h2 = is_encrypted h'" "is_compressed h2 = is_compressed h'" "pm_len h2 = pm_len h'"
    let ?h3 = "if is_encrypted h2 then set_encrypted False h2 else h2"
    let ?h4 = "if is_compressed ?h3 then set_compressed False ?h3 else ?h3"
    have "decompress (me_zstd cx) (pkt t2 pre2 ?h3 pl1) = Some (Inr (pkt t2 pre2 ?h4 pl))" by (rule c(3)) (use r i ch in auto)
    moreover have "header_content ?h4 = header_content (set_encrypted False (set_compressed False h2))"
    proof -
      have "header_content ?h4 = header_content (set_compressed False ?h3)" by (simp add: header_content_clear)
      also have "\<dots> = header_content (set_compressed False (set_encrypted False h2))" by (rule header_content_flags(2)) (simp add: header_content_clear)
      also have "\<dots> = header_content (set_encrypted False (set_compressed False h2))" by (rule header_content_swap)
      finally show ?thesis .
    qed
    ultimately show "\<exists>x h3. decrypt (me_aead cx) (me_encryptor cx) (pkt t2 pre2 h2 pl') = Some (Inr x) \<and>
        decompress (me_zstd cx) x = Some (Inr (pkt t2 pre2 h3 pl)) \<and> header_content h3 = header_content (set_encrypted False (set_compressed False h2))"
      using e(3) [OF r i(1)] by blast
  qed
  moreover have "header_content (set_encrypted False (set_compressed False h')) = header_content h"
    using c(2) e(2) assms(5,6) by (auto simp: header_content_def flag_ops flag_defs flag_put_other flag_put_same)
  ultimately show ?thesis using e(1) by blast
qed


text \<open>Sending in the clear keeps the identity of the node, so the loop over the destinations sends the same packet to each of them.\<close>

definition in_clear :: "PeerId \<Rightarrow> 'c PeerManager \<Rightarrow> bool" where
  "in_clear a g \<longleftrightarrow> pg_my_peer_id g = a \<and> \<not> rp_secure_mode_enabled (pg_relay g)"

lemma send_internal_in_clear:
  assumes "in_clear a g" and "pg_send_internal cx msg dst g = Some (r, g')"
  shows "in_clear a g' \<and> (\<forall>d. r = Inr (Sent d) \<longrightarrow> delivery_packet d = msg)"
proof -
  obtain n where n: "send_msg_internal (me_crypto cx) (me_sink cx) (me_now cx) msg dst (pg_relay g) = Some (r, n)" "g' = put_pg_relay n g"
    using assms(2) by (auto simp: pg_send_internal_def split: bind_splits)
  have s: "\<not> rp_secure_mode_enabled (pg_relay g)" using assms(1) by (simp add: in_clear_def)
  obtain h where h: "peer_manager_header msg = Some h" using n(1) by (auto simp: send_msg_internal_def split: bind_splits)
  have relay: "relay_send_msg (me_crypto cx) (me_sink cx) (me_now cx) msg dst policy (pg_relay g) = Some (r, n) \<Longrightarrow>
      rp_my_peer_id n = rp_my_peer_id (pg_relay g) \<and> \<not> rp_secure_mode_enabled n" for policy
    using s by (auto simp: relay_send_msg_def Let_def dest!: send_via_next_hop_frame split: prod.splits)
  have "rp_my_peer_id n = rp_my_peer_id (pg_relay g) \<and> \<not> rp_secure_mode_enabled n"
  proof (cases "has_peer (rp_peers (pg_relay g)) dst")
    case True
    then show ?thesis using h n(1) s by (auto simp: send_msg_internal_def Let_def split: prod.splits)
  next
    case False
    then show ?thesis using h n(1) s relay
      by (auto simp: send_msg_internal_def send_via_client_def Let_def split: if_splits option.splits prod.splits)
  qed
  moreover have "\<forall>d. r = Inr (Sent d) \<longrightarrow> delivery_packet d = msg" using send_internal_plain [OF s] n(1) by blast
  ultimately show ?thesis using assms(1) n(2) by (simp add: in_clear_def pg_my_peer_id_def put_pg_relay_def)
qed

lemma mark_recent_in_clear: "in_clear a g \<Longrightarrow> in_clear a (snd (mark_recent_traffic cx p g))"
  by (simp add: mark_recent_traffic_def in_clear_def pg_my_peer_id_def)

lemma send_to_peers_delivers:
  assumes "send_to_peers cx ip nself mark (pkt t pre h pl) ps g = Some (os, n, g')" and "in_clear a g" and "hdr_room t pre" and "Sent d \<in> set os"
  shows "\<exists>p h'. p \<in> set ps \<and> delivery_packet d = pkt t pre h' pl \<and> to_peer_id h' = p \<and> from_peer_id h' = from_peer_id h \<and> (p \<noteq> a \<longrightarrow> h' = h\<lparr>to_peer_id := p\<rparr>)"
  using assms
proof (induction ps arbitrary: g os n g')
  case (Cons p ps)
  define g1 where "g1 = (if mark then snd (mark_recent_traffic cx p g) else g)"
  have g1: "in_clear a g1" using Cons.prems(2) by (simp add: g1_def mark_recent_in_clear)
  show ?case
  proof (cases "check_p2p_only_before_send cx g1 p")
    case False
    then obtain n' where "send_to_peers cx ip nself mark (pkt t pre h pl) ps g1 = Some (os, n', g')"
      using Cons.prems(1) by (auto simp: g1_def [symmetric])
    from Cons.IH [OF this g1 Cons.prems(3,4)] show ?thesis by auto
  next
    case True
    define h1 where "h1 = (if nself \<and> p = pg_my_peer_id g1 \<and> \<not> is_ip_local_virtual_ip cx ip
      then set_no_proxy True (set_not_send_to_tun True (h\<lparr>to_peer_id := p\<rparr>)) else h\<lparr>to_peer_id := p\<rparr>)"
    have h1: "to_peer_id h1 = p" "from_peer_id h1 = from_peer_id h" "p \<noteq> a \<longrightarrow> h1 = h\<lparr>to_peer_id := p\<rparr>" using g1 by (auto simp: h1_def flag_ops in_clear_def)
    obtain r g2 where s: "pg_send_internal cx (pkt t pre h1 pl) p g1 = Some (r, g2)"
      using Cons.prems(1,3) True by (auto simp: g1_def [symmetric] h1_def pkt_simps split: bind_splits if_splits)
    obtain os' n' where rest: "send_to_peers cx ip nself mark (pkt t pre h pl) ps g2 = Some (os', n', g')"
      "os = os' \<or> (\<exists>out. r = Inr out \<and> os = out # os')"
      using Cons.prems(1,3) True s by (cases r) (auto simp: g1_def [symmetric] h1_def pkt_simps split: bind_splits if_splits)
    note g2 = send_internal_in_clear [OF g1 s]
    show ?thesis
    proof (cases "Sent d \<in> set os'")
      case True
      from Cons.IH [OF rest(1) _ Cons.prems(3) True] g2 show ?thesis by auto
    next
      case False
      then have "r = Inr (Sent d)" using rest(2) Cons.prems(4) by auto
      then show ?thesis using g2 h1 by auto
    qed
  qed
qed simp

text \<open>What the interface gets from a node in the clear.\<close>

lemma payload_len_pkt: "hdr_room t pre \<Longrightarrow> length pl \<le> 65536 \<Longrightarrow> payload_len (pkt t pre h pl) = length pl"
  using pkt_buf_len [of t pre h pl] by (simp add: payload_len_def pkt_payload_offset buf_len_def)

lemma get_msg_dst_peer_acl [simp]: "get_msg_dst_peer cx order (g\<lparr>pg_acl := f\<rparr>) ip = get_msg_dst_peer cx order g ip"
  by (simp add: get_msg_dst_peer_def get_msg_dst_peer_ipv4_def get_msg_dst_peer_ipv6_def pg_peers_def pg_my_peer_id_def cong: if_cong option.case_cong IpAddr.case_cong)

lemma recv_decoded:
  assumes "in_clear b gb" and "me_filters cb = []" and "hdr_room t pre" and "to_peer_id h = b" and "pm_packet_type h = PacketType_code PT_Data"
    and "decrypt (me_aead cb) (me_encryptor cb) (pkt t pre h pl') = Some (Inr x1)" and "decompress (me_zstd cb) x1 = Some (Inr (pkt t pre h3 pl))"
    and "pm_packet_type h3 = PacketType_code PT_Data" and "\<not> is_encrypted h3" and "\<not> is_compressed h3" and "\<not> is_not_send_to_tun h3"
  shows "peer_recv cb nz k u e (pkt t pre h pl') gb = map_option (\<lambda>(ok, f). (if ok then ToNic (pkt t pre h3 pl) else Discarded, gb\<lparr>pg_acl := f\<rparr>))
    (process_packet_with_acl (me_cidr cb) (me_pnet cb) (recv_env cb) (me_now cb) (me_secs cb) (pkt t pre h3 pl) True (pg_acl gb))"
proof -
  have "try_handle_foreign_network_packet cb (pkt t pre h pl') gb = Some (Some (pkt t pre h pl'), None, gb)"
    using assms(3,5) by (simp add: try_handle_foreign_network_packet_def pkt_simps)
  moreover have "run_pipeline (me_filters cb) (pkt t pre h3 pl) = Some (ToNic (pkt t pre h3 pl))"
    using assms(2,3,8-11) by (simp add: rpc_processor_def nic_processor_def pkt_simps is_rpc_packet_type_def)
  ultimately show ?thesis using assms(1,3-7)
    by (cases "process_packet_with_acl (me_cidr cb) (me_pnet cb) (recv_env cb) (me_now cb) (me_secs cb) (pkt t pre h3 pl) True (pg_acl gb)")
      (auto simp: peer_recv_def recv_local_def recv_decrypt_def in_clear_def pkt_simps Let_def)
qed

lemma by_ip_encodes:
  assumes "aead_ok (me_aead cx)" and "length (me_rnd cx) = 12" and "zstd_ok (me_zstd cx)" and "me_nic_filters cx = []"
    and "hdr_room t pre" and "\<not> is_encrypted h" and "\<not> is_compressed h" and "unat (pm_len h) = length pl" and "length pl \<le> 65536"
    and "to_peer_id h = 0" and "\<not> rp_secure_mode_enabled (pg_relay g)"
    and "fill_peer_manager_hdr (pg_my_peer_id g) 0 (PacketType_code PT_Data) msg = Some (pkt t pre h pl)"
    and "send_msg_by_ip cx order msg ip nself g = Some (ToPeers os n, g')"
  shows "\<exists>plq acl mark h1. decodes_to (me_aead cx) (me_encryptor cx) (me_zstd cx) pl h1 plq \<and>
    header_content (set_encrypted False (set_compressed False h1)) = header_content h \<and>
    send_to_peers cx ip nself mark (pkt t pre h1 plq) (fst (get_msg_dst_peer cx order g ip)) (g\<lparr>pg_acl := acl\<rparr>) = Some (os, n, g')"
proof -
  obtain acl where acl: "run_nic_packet_process_pipeline cx (pkt t pre h pl) g = Some (Some (pkt t pre h pl), g\<lparr>pg_acl := acl\<rparr>)"
    using assms(4,12,13) by (auto simp: send_msg_by_ip_def run_nic_packet_process_pipeline_def split: bind_splits if_splits)
  obtain dst ex where dst: "get_msg_dst_peer cx order g ip = (dst, ex)" by fastforce
  obtain q where q: "try_compress_and_encrypt cx False (pkt t pre h pl) = Some (True, q)"
    using assms(5,10-13) acl dst by (auto simp: send_msg_by_ip_def pkt_simps split: bind_splits if_splits)
  obtain hq plq where e: "q = pkt t pre hq plq" "decodes_to (me_aead cx) (me_encryptor cx) (me_zstd cx) pl hq plq"
    "header_content (set_encrypted False (set_compressed False hq)) = header_content h"
    using try_compress_decodes [OF assms(1-3,5-9) q] by blast
  let ?h1 = "set_exit_node ex (set_latency_first (latency_first cx) hq)"
  have c: "header_content ?h1 = header_content hq" by (simp add: route_flags_content)
  have "decodes_to (me_aead cx) (me_encryptor cx) (me_zstd cx) pl ?h1 plq"
    using e(2) c by (simp add: decodes_to_def header_content_def)
  moreover have "header_content (set_encrypted False (set_compressed False ?h1)) = header_content h"
    using e(3) by (simp add: header_content_flags(1) [OF header_content_flags(2) [OF c]])
  moreover have "send_to_peers cx ip nself (length dst \<le> 1) (pkt t pre ?h1 plq) dst (g\<lparr>pg_acl := acl\<rparr>) = Some (os, n, g')"
    using assms(5,10-13) acl dst q e(1) by (auto simp: send_msg_by_ip_def pkt_simps split: bind_splits if_splits)
  ultimately show ?thesis using dst by (metis fst_conv)
qed

text \<open>
  C5. A packet that the interface of one node sends to an address of the virtual network comes out of the interface of its
  destination with the same bytes: the destination is one that the route table and the exit nodes give for the address; the
  packet is compressed and encrypted with the cipher of the network, and any nodes between may forward it; the receiving
  node decodes it, and hands it to its interface unless its access control list forbids it (without secure mode, and
  without gateway filters).
\<close>

theorem packet_reaches_interface:
  assumes "aead_ok (me_aead cx)" and "length (me_rnd cx) = 12" and "zstd_ok (me_zstd cx)" and "me_nic_filters cx = []"
    and "in_clear a g" and "peer_manager_header msg = Some h" and "payload msg = Some pl" and "length pl \<le> 65536"
    and "send_msg_by_ip cx order msg ip nself g = Some (ToPeers os n, g')" and "Sent d \<in> set os"
    and "\<forall>node \<in> set nodes. \<exists>m. in_clear m (snd node) \<and> m \<noteq> a"
    and "carried_by nz k u e nodes (delivery_packet d) = Some x"
    and "in_clear b gb" and "b \<noteq> a" and "get_dst_peer_id x = Some b"
    and "me_aead cb = me_aead cx" and "me_encryptor cb = me_encryptor cx" and "me_zstd cb = me_zstd cx" and "me_filters cb = []"
  shows "b \<in> set (fst (get_msg_dst_peer cx order g ip)) \<and>
    (\<exists>y. payload y = Some pl \<and> get_src_peer_id y = Some a \<and>
      peer_recv cb nz k u e x gb = map_option (\<lambda>(ok, f). (if ok then ToNic y else Discarded, gb\<lparr>pg_acl := f\<rparr>))
        (process_packet_with_acl (me_cidr cb) (me_pnet cb) (recv_env cb) (me_now cb) (me_secs cb) y True (pg_acl gb)))"
proof -
  from assms(6) obtain t pre pl' where msg: "msg = pkt t pre h pl'" and r: "hdr_room t pre" by (rule pkt_cases)
  then have pl: "pl' = pl" using assms(7) by (simp add: pkt_simps)
  define h0 where "h0 = h\<lparr>from_peer_id := a, to_peer_id := 0, pm_packet_type := PacketType_code PT_Data, pm_flags := 0,
    forward_counter := 1, pm_len := of_nat (length pl)\<rparr>"
  have a: "pg_my_peer_id g = a" "\<not> rp_secure_mode_enabled (pg_relay g)" using assms(5) by (auto simp: in_clear_def)
  have f: "fill_peer_manager_hdr (pg_my_peer_id g) 0 (PacketType_code PT_Data) msg = Some (pkt t pre h0 pl)"
    using r payload_len_pkt [OF r assms(8)] by (simp add: fill_peer_manager_hdr_def msg pl pkt_simps h0_def a)
  have h0: "\<not> is_encrypted h0" "\<not> is_compressed h0" "\<not> is_not_send_to_tun h0" "unat (pm_len h0) = length pl" "to_peer_id h0 = 0"
    "pm_packet_type h0 = PacketType_code PT_Data" "from_peer_id h0 = a"
    using assms(8) by (simp_all add: h0_def flag_ops flag_contains_def flag_defs unat_of_nat take_bit_nat_eq_self)
  obtain plq acl mark h1 where q: "decodes_to (me_aead cx) (me_encryptor cx) (me_zstd cx) pl h1 plq"
    "header_content (set_encrypted False (set_compressed False h1)) = header_content h0"
    "send_to_peers cx ip nself mark (pkt t pre h1 plq) (fst (get_msg_dst_peer cx order g ip)) (g\<lparr>pg_acl := acl\<rparr>) = Some (os, n, g')"
    using by_ip_encodes [OF assms(1-4) r h0(1,2,4) assms(8) h0(5) a(2) f assms(9)] by blast
  have "in_clear a (g\<lparr>pg_acl := acl\<rparr>)" using assms(5) by (simp add: in_clear_def pg_my_peer_id_def)
  then obtain p h' where d: "p \<in> set (fst (get_msg_dst_peer cx order g ip))" "delivery_packet d = pkt t pre h' plq" "to_peer_id h' = p"
    "from_peer_id h' = from_peer_id h1" "p \<noteq> a \<longrightarrow> h' = h1\<lparr>to_peer_id := p\<rparr>" using send_to_peers_delivers [OF q(3) _ r assms(10)] by blast
  have h1: "from_peer_id h1 = a" "pm_packet_type h1 = PacketType_code PT_Data" "\<not> is_not_send_to_tun h1"
    using q(2) h0 by (auto simp: header_content_def flag_ops flag_defs flag_put_other)
  have nodes: "\<forall>node \<in> set nodes. \<not> rp_secure_mode_enabled (pg_relay (snd node)) \<and> pg_my_peer_id (snd node) \<noteq> a"
    using assms(11) by (auto simp: in_clear_def)
  have "get_src_peer_id (delivery_packet d) = Some a" using d(2,4) h1(1) r by (simp add: get_src_peer_id_def pkt_simps)
  then have "content x = Some (header_content h', plq)" using carried_content [OF nodes assms(12)] d(2) r by (simp add: content_pkt)
  then obtain t2 pre2 h2 where x: "x = pkt t2 pre2 h2 plq" "hdr_room t2 pre2" "header_content h2 = header_content h'" by (rule content_SomeE)
  have p: "p = b" using x d(3) assms(15) by (auto simp: get_dst_peer_id_def pkt_simps header_content_def)
  then have h': "h' = h1\<lparr>to_peer_id := b\<rparr>" using d(5) assms(14) by simp
  have h2: "is_encrypted h2 = is_encrypted h1" "is_compressed h2 = is_compressed h1" "pm_len h2 = pm_len h1" "to_peer_id h2 = b"
    "from_peer_id h2 = a" "pm_packet_type h2 = PacketType_code PT_Data" "\<not> is_not_send_to_tun h2"
    using x(3) h1 by (auto simp: h' header_content_def flag_ops)
  obtain x1 h3 where dec: "decrypt (me_aead cx) (me_encryptor cx) (pkt t2 pre2 h2 plq) = Some (Inr x1)"
    "decompress (me_zstd cx) x1 = Some (Inr (pkt t2 pre2 h3 pl))" "header_content h3 = header_content (set_encrypted False (set_compressed False h2))"
    using q(1) [unfolded decodes_to_def, rule_format, OF x(2) h2(1-3)] by blast
  have h3: "pm_packet_type h3 = PacketType_code PT_Data" "\<not> is_encrypted h3" "\<not> is_compressed h3" "\<not> is_not_send_to_tun h3" "from_peer_id h3 = a"
    using dec(3) h2 by (auto simp: header_content_def flag_ops flag_defs flag_put_other flag_put_same)
  show ?thesis
  proof (intro conjI exI [of _ "pkt t2 pre2 h3 pl"])
    show "b \<in> set (fst (get_msg_dst_peer cx order g ip))" using d(1) p by simp
    show "payload (pkt t2 pre2 h3 pl) = Some pl" "get_src_peer_id (pkt t2 pre2 h3 pl) = Some a"
      using x(2) h3(5) by (simp_all add: pkt_simps get_src_peer_id_def)
    show "peer_recv cb nz k u e x gb = map_option (\<lambda>(ok, f). (if ok then ToNic (pkt t2 pre2 h3 pl) else Discarded, gb\<lparr>pg_acl := f\<rparr>))
        (process_packet_with_acl (me_cidr cb) (me_pnet cb) (recv_env cb) (me_now cb) (me_secs cb) (pkt t2 pre2 h3 pl) True (pg_acl gb))"
      unfolding x(1) by (rule recv_decoded [OF assms(13,19) x(2) h2(4,6) _ _ h3(1-4)]) (use dec assms(16-18) in simp_all)
  qed
qed


section \<open>Relay handshakes over several hops\<close>

text \<open>The node on the way: a handshake for a peer that is not its neighbour goes through its own session with that peer.\<close>

lemma forward_secure:
  assumes "rp_secure_mode_enabled (pg_relay g)" and "peer_manager_header p = Some h" and "pm_packet_type h = PacketType_code PT_RelayHandshake"
    and "\<not> has_peer (pg_peers g) (to_peer_id h)" and "\<not> client_has_next_hop (pg_relay g) (to_peer_id h)"
    and "recv_forward cx h p g = Some (Forwarded x (Inr (Sent d)), g')"
  shows "\<exists>policy n. mut_peer_manager_header (\<lambda>h. (if forward_counter h > 2 \<and> is_latency_first h then set_latency_first False h else h)\<lparr>forward_counter := forward_counter h + 1\<rparr>) p = Some x \<and>
    relay_send_msg (me_crypto cx) (me_sink cx) (me_now cx) x (to_peer_id h) policy (pg_relay g) = Some (Inr (Sent d), n)"
proof -
  define f where "f = (\<lambda>h. (if forward_counter h > 2 \<and> is_latency_first h then set_latency_first False h else h)\<lparr>forward_counter := forward_counter h + 1\<rparr>)"
  obtain p1 where p1: "mut_peer_manager_header f p = Some p1" "peer_manager_header p1 = Some (f h)"
    using mut_peer_manager_header_Some [OF assms(2)] by blast
  obtain b where b: "is_relay_data_zc_packet p = Some b" using assms(6) by (auto simp: recv_forward_def split: bind_splits)
  have s: "pg_send_internal cx p1 (to_peer_id h) g = Some (Inr (Sent d), g')" "x = p1"
    using assms(3,6) p1(1) b by (auto simp: recv_forward_def Let_def f_def [symmetric] split: if_splits bind_splits)
  then obtain n where "send_msg_internal (me_crypto cx) (me_sink cx) (me_now cx) p1 (to_peer_id h) (pg_relay g) = Some (Inr (Sent d), n)"
    by (auto simp: pg_send_internal_def split: bind_splits)
  then have "relay_send_msg (me_crypto cx) (me_sink cx) (me_now cx) p1 (to_peer_id h) (get_next_hop_policy (is_latency_first (f h))) (pg_relay g) = Some (Inr (Sent d), n)"
    using assms(4,5) p1(2) by (auto simp: send_msg_internal_def pg_peers_def Let_def split: if_splits option.splits)
  then show ?thesis using p1(1) s(2) unfolding f_def by blast
qed

text \<open>
  The first message of the pattern IK is authenticated: what a responder reads was written, for the public key of the
  responder, by an initiator whose public key the responder then knows.
\<close>

definition written_ik :: "('hs, 'z) noise_api_scheme \<Rightarrow> (bytes \<Rightarrow> bytes) \<Rightarrow> bytes \<Rightarrow> bytes \<Rightarrow> bytes \<Rightarrow> bool" where
  "written_ik nz pub k priv c \<longleftrightarrow> (\<exists>eph hs m hs'. build_initiator nz IK RELAY_NOISE_PROLOGUE k (Some (pub priv)) eph = Some hs \<and>
     write_message nz hs m = Some (c, hs'))"

definition noise_ik_authentic :: "('hs, 'z) noise_api_scheme \<Rightarrow> (bytes \<Rightarrow> bytes) \<Rightarrow> bool" where
  "noise_ik_authentic nz pub \<longleftrightarrow> (\<forall>priv eph hs c m hs'. build_responder nz IK RELAY_NOISE_PROLOGUE priv eph = Some hs \<longrightarrow>
     read_message nz hs c = Some (m, hs') \<longrightarrow> (\<exists>k. get_remote_static nz hs' = Some (pub k) \<and> written_ik nz pub k priv c))"

text \<open>The end: a message that the peer named as its sender did not write for this node is refused, and no session comes of it.\<close>

lemma unwritten_handshake_refused:
  assumes "peer_manager_header p = Some h" and "pm_packet_type h = PacketType_code PT_RelayHandshake" and "to_peer_id h = pg_my_peer_id g"
    and "payload p = Some pl" and "noise_ik_authentic nz pub"
    and "\<forall>priv pk k. rp_keypair (pg_relay g) = Some (priv, pk) \<and> get_remote_static_pubkey (pg_relay g) (from_peer_id h) = Some (pub k) \<longrightarrow>
      \<not> written_ik nz pub k priv pl"
  shows "\<exists>g'. peer_recv cx nz fk u e p g = Some (HandshakeHandled (Inr (Answered (Inl RouteError))), g') \<and> rp_store (pg_relay g') = rp_store (pg_relay g)"
proof -
  let ?n = "(pg_relay g)\<lparr>pending_handshakes := pending_handshakes (pg_relay g) - {from_peer_id h}\<rparr>"
  have key: "get_remote_static_pubkey ?n (from_peer_id h) = get_remote_static_pubkey (pg_relay g) (from_peer_id h)"
    by (simp add: get_remote_static_pubkey_def)
  have "answer_relay_msg1 nz pb cr v sink now fk u e p (from_peer_id h) ?n = Some (Inl RouteError, ?n)" for pb cr v sink now
  proof (cases "rp_keypair (pg_relay g)")
    case (Some kp)
    obtain priv pk where kp: "kp = (priv, pk)" by fastforce
    show ?thesis
    proof (cases "build_responder nz IK RELAY_NOISE_PROLOGUE priv e")
      case hs: (Some hs)
      show ?thesis
      proof (cases "read_message nz hs pl")
        case None
        then show ?thesis using assms(1,2,4) Some kp hs by (simp add: answer_relay_msg1_def relay_decode_message_def)
      next
        case (Some mh)
        obtain m hs' where mh: "mh = (m, hs')" by fastforce
        obtain k where "get_remote_static nz hs' = Some (pub k)" "written_ik nz pub k priv pl"
          using assms(5) hs Some mh unfolding noise_ik_authentic_def by blast
        moreover from this have "get_remote_static_pubkey (pg_relay g) (from_peer_id h) \<noteq> Some (pub k)"
          using assms(6) \<open>rp_keypair (pg_relay g) = Some kp\<close> kp by blast
        ultimately show ?thesis using assms(1,2,4) \<open>rp_keypair (pg_relay g) = Some kp\<close> kp hs Some mh key
          by (cases "dec_r1 pb m") (simp_all add: answer_relay_msg1_def relay_decode_message_def)
      qed
    qed (simp add: answer_relay_msg1_def Some kp)
  qed (simp add: answer_relay_msg1_def)
  then have "\<exists>n. handle_handshake_packet nz (me_codec cx) (me_crypto cx) (me_uninit cx) (me_sink cx) (me_now cx) fk u e p (pg_relay g) =
      Some (Inr (Answered (Inl RouteError)), n) \<and> rp_store n = rp_store (pg_relay g)"
    using assms(1,2) by (simp add: handle_handshake_packet_def handle_relay_msg1_def)
  moreover have "try_handle_foreign_network_packet cx p g = Some (Some p, None, g)"
    using assms(1,2) by (simp add: try_handle_foreign_network_packet_def)
  ultimately show ?thesis using assms(1-3) by (auto simp: peer_recv_def recv_local_def put_pg_relay_def)
qed

lemma sealed_length:
  assumes "hmac_ok hmac" and "aead_ok api" and "length rnd = 12" and "key_cache_ok hmac (datagram s)"
    and "EncryptionAlgorithm_try_from (send_cipher_algorithm (datagram s)) \<noteq> Some EA_Xor"
    and "peer_manager_header p = Some h" and "\<not> is_encrypted h" and "payload p = Some pl"
    and "ps_encrypt_payload hmac api rnd now a b p s = Some (Inr q, s')"
  shows "peer_manager_header q = Some (set_encrypted True h) \<and> (\<exists>pl'. payload q = Some pl' \<and> length pl' = length pl + 28)"
proof -
  let ?dir = "dir_for_sender a b"
  have v: "ps_is_valid s" using assms(9) by (cases "ps_is_valid s") (auto simp: ps_encrypt_payload_def)
  obtain r d where rd: "encrypt_payload hmac api rnd now ?dir p (datagram s) = Some (r, d)"
    using assms(9) v by (auto simp: ps_encrypt_payload_def)
  then have d: "encrypt_payload hmac api rnd now ?dir p (datagram s) = Some (Inr q, d)"
    using assms(9) v by (cases r) (auto simp: ps_encrypt_payload_def)
  obtain e i nonce s0 where n: "next_nonce now ?dir (datagram s) = ((e, i, nonce), s0)" by (metis prod_cases3 prod.exhaust)
  obtain c where c: "traffic_cipher hmac (root_key (datagram s)) (send_cipher_algorithm (datagram s)) e ?dir = Some c"
    "decrypt api c q = Some (Inr p)" "peer_manager_header q = Some (set_encrypted True h)"
    using encrypt_payload_Inr [OF assms(1-7) n d] by blast
  obtain rc where rc: "c = RingCipher rc" using traffic_cipher_ring [OF c(1) assms(5)] by blast
  from c(3) obtain t pre pl' where q: "q = pkt t pre (set_encrypted True h) pl'" "hdr_room t pre" by (rule pkt_cases)
  obtain tx where t: "aead_open api (fst (get_cipher rc)) (snd (get_cipher rc)) (drop (length pl' - 28 + 16) pl') (take (length pl' - 28) pl')
      (take 16 (drop (length pl' - 28) pl')) = Some tx" "\<not> length pl' < 28" "p = pkt t pre (set_encrypted False (set_encrypted True h)) tx"
    using c(2) rc q ring_decrypt_pkt [OF assms(2) q(2), of "set_encrypted True h" rc pl'] by (auto simp: Let_def split: if_splits option.splits)
  have "tx = pl" using t(3) assms(8) q(2) by (simp add: pkt_simps)
  then have "length pl = length pl' - 28" using aead_ok_open [OF assms(2) t(1)] by simp
  then show ?thesis using c(3) q t(2) by (auto simp: pkt_simps)
qed

text \<open>
  C38. In secure mode a relay handshake does not survive a node that is not a neighbour of its destination, if the session
  of that node with the destination uses an AEAD (not XOR): such a node sends the handshake through its own session with
  the destination, as if it were its own, and it arrives encrypted, 28 bytes longer. The destination does not decrypt
  handshakes; it gives the encrypted bytes to Noise as they are. Since the first message of the pattern IK is
  authenticated, they are refused and no session comes of them, unless these very bytes are themselves a handshake
  message that the peer named as the sender wrote for the destination. (The same forwarding in a foreign network spares
  packets of other nodes.)
\<close>

theorem relayed_handshake_lost:
  assumes "hmac_ok (cr_hmac (me_crypto cx))" and "aead_ok (cr_api (me_crypto cx))" and "length (cr_rnd (me_crypto cx)) = 12"
    and "rp_secure_mode_enabled (pg_relay g)" and "peer_manager_header p = Some h" and "pm_packet_type h = PacketType_code PT_RelayHandshake"
    and "\<not> is_encrypted h" and "payload p = Some pl"
    and "\<not> has_peer (pg_peers g) (to_peer_id h)" and "\<not> client_has_next_hop (pg_relay g) (to_peer_id h)"
    and "\<forall>r. sessions (rp_store (pg_relay g)) (relay_key (pg_relay g) (to_peer_id h)) = Some r \<longrightarrow>
      key_cache_ok (cr_hmac (me_crypto cx)) (datagram (heap (rp_store (pg_relay g)) r)) \<and>
      EncryptionAlgorithm_try_from (send_cipher_algorithm (datagram (heap (rp_store (pg_relay g)) r))) \<noteq> Some EA_Xor"
    and "peer_recv cx nz k u e p g = Some (Forwarded x (Inr (Sent d)), g')"
    and "to_peer_id h = pg_my_peer_id gd" and "noise_ik_authentic nzd pub"
  shows "\<exists>pl'. payload (delivery_packet d) = Some pl' \<and> length pl' = length pl + 28 \<and>
    map_option is_encrypted (peer_manager_header (delivery_packet d)) = Some True \<and>
    ((\<forall>priv pk k'. rp_keypair (pg_relay gd) = Some (priv, pk) \<and> get_remote_static_pubkey (pg_relay gd) (from_peer_id h) = Some (pub k') \<longrightarrow>
        \<not> written_ik nzd pub k' priv pl') \<longrightarrow>
      (\<exists>gd'. peer_recv cd nzd kd ud ed (delivery_packet d) gd = Some (HandshakeHandled (Inr (Answered (Inl RouteError))), gd') \<and>
        rp_store (pg_relay gd') = rp_store (pg_relay gd)))"
proof -
  from assms(5) obtain t pre pl0 where p: "p = pkt t pre h pl0" "hdr_room t pre" by (rule pkt_cases)
  then have pl0: "pl0 = pl" using assms(8) by (simp add: pkt_simps)
  have f: "recv_forward cx h p g = Some (Forwarded x (Inr (Sent d)), g')" using peer_recv_forwarded [OF assms(12)] assms(5) by auto
  obtain hx policy n where x: "x = pkt t pre hx pl" "\<not> is_encrypted hx" "pm_packet_type hx = PacketType_code PT_RelayHandshake" "to_peer_id hx = to_peer_id h" "from_peer_id hx = from_peer_id h"
    "relay_send_msg (me_crypto cx) (me_sink cx) (me_now cx) x (to_peer_id h) policy (pg_relay g) = Some (Inr (Sent d), n)"
    using forward_secure [OF assms(4-6,9,10) f] p pl0 assms(6,7) by (auto simp: pkt_simps flag_ops flag_defs flag_put_other)
  obtain r s where r: "sessions (rp_store (pg_relay g)) (relay_key (pg_relay g) (to_peer_id h)) = Some r" "ps_is_valid (heap (rp_store (pg_relay g)) r)"
    and enc: "ps_encrypt_payload (cr_hmac (me_crypto cx)) (cr_api (me_crypto cx)) (cr_rnd (me_crypto cx)) (cr_now (me_crypto cx)) (rp_my_peer_id (pg_relay g))
      (to_peer_id h) x (heap (rp_store (pg_relay g)) r) = Some (Inr (delivery_packet d), s)"
    using relay_send_secure [OF x(6) assms(4)] by blast
  have hx: "peer_manager_header x = Some hx" using x(1) p(2) by (simp add: pkt_simps)
  have q: "peer_manager_header (delivery_packet d) = Some (set_encrypted True hx)" "\<exists>pl'. payload (delivery_packet d) = Some pl' \<and> length pl' = length pl + 28"
    using sealed_length [OF assms(1-3) _ _ hx x(2) _ enc] assms(11) r(1) x(1) p(2) by (auto simp: pkt_simps)
  then obtain pl' where pl': "payload (delivery_packet d) = Some pl'" "length pl' = length pl + 28" by blast
  have "pm_packet_type (set_encrypted True hx) = PacketType_code PT_RelayHandshake" "to_peer_id (set_encrypted True hx) = pg_my_peer_id gd"
    using x(3,4) assms(13) by (simp_all add: flag_ops)
  from unwritten_handshake_refused [OF q(1) this pl'(1) assms(14), where cx = cd and fk = kd and u = ud and e = ed] x(5)
  have "(\<forall>priv pk k'. rp_keypair (pg_relay gd) = Some (priv, pk) \<and> get_remote_static_pubkey (pg_relay gd) (from_peer_id h) = Some (pub k') \<longrightarrow>
      \<not> written_ik nzd pub k' priv pl') \<longrightarrow> (\<exists>gd'. peer_recv cd nzd kd ud ed (delivery_packet d) gd = Some (HandshakeHandled (Inr (Answered (Inl RouteError))), gd') \<and>
        rp_store (pg_relay gd') = rp_store (pg_relay gd))" by simp
  then show ?thesis using pl' q(1) by auto
qed

section \<open>Packets in the clear in secure mode\<close>

text \<open>
  C39. In secure mode a relay can send packets in the name of any peer that is not itself: a data packet that is not marked as
  encrypted, with the identifier of another peer as its sender, passes the filter of the connection it arrives on unchanged,
  and the node hands it to its interface like a packet of that peer (unless its access control list forbids it).
\<close>

theorem forged_packet_accepted:
  assumes "peer_manager_header p = Some h" and "pm_packet_type h = PacketType_code PT_Data"
    and "\<not> is_encrypted h" and "\<not> is_compressed h" and "\<not> is_not_send_to_tun h" and "to_peer_id h = pg_my_peer_id g"
    and "sf_enabled f" and "sf_peer_id f = Some relay" and "from_peer_id h \<noteq> relay"
    and "rp_secure_mode_enabled (pg_relay g)" and "me_filters cx = []"
  shows "after_received hmac api now f (Inr p) st = Some (Some (Inr p), st) \<and>
    peer_recv cx nz k u e p g = map_option (\<lambda>(ok, fl). (if ok then ToNic p else Discarded, g\<lparr>pg_acl := fl\<rparr>))
      (process_packet_with_acl (me_cidr cx) (me_pnet cx) (recv_env cx) (me_now cx) (me_secs cx) p True (pg_acl g))"
proof
  show "after_received hmac api now f (Inr p) st = Some (Some (Inr p), st)"
    using assms(1,7-9) by (cases "sf_session f") (auto simp: after_received_def)
  have "try_handle_foreign_network_packet cx p g = Some (Some p, None, g)"
    using assms(1,2) by (simp add: try_handle_foreign_network_packet_def)
  moreover have "run_pipeline (me_filters cx) p = Some (ToNic p)"
    using assms(1-5,11) by (simp add: rpc_processor_def nic_processor_def is_rpc_packet_type_def)
  moreover have "decompress (me_zstd cx) p = Some (Inr p)" using assms(1,4) by (simp add: decompress_def)
  ultimately show "peer_recv cx nz k u e p g = map_option (\<lambda>(ok, fl). (if ok then ToNic p else Discarded, g\<lparr>pg_acl := fl\<rparr>))
      (process_packet_with_acl (me_cidr cx) (me_pnet cx) (recv_env cx) (me_now cx) (me_secs cx) p True (pg_acl g))"
    using assms(1,2,3,6,10)
    by (cases "process_packet_with_acl (me_cidr cx) (me_pnet cx) (recv_env cx) (me_now cx) (me_secs cx) p True (pg_acl g)")
      (auto simp: peer_recv_def recv_local_def recv_decrypt_def Let_def)
qed


section \<open>Admission to the network\<close>

text \<open>A handshake in the clear of a new peer that names the network of the node.\<close>

definition clear_handshake :: "'c pm_env \<Rightarrow> bytes \<Rightarrow> PeerId \<Rightarrow> conn \<Rightarrow> bool" where
  "clear_handshake cx digest p c \<longleftrightarrow> c_noise c = None \<and> (case c_info c of None \<Rightarrow> False | Some info \<Rightarrow>
     hr_network_name info = ni_network_name (me_identity cx) \<and> hr_my_peer_id info = p \<and> hr_network_secret_digest info = digest)"

lemma clear_handshake_identity:
  assumes "clear_handshake cx digest p c" and "length digest = 32"
  shows "conn_network_identity c = Some \<lparr>ni_network_name = ni_network_name (me_identity cx), ni_network_secret = None, ni_network_secret_digest = Some digest\<rparr>"
    and "\<exists>pc. peer_conn_of cid latency False punched c = Some pc \<and> conn_peer_id pc = p \<and> noise_remote_static_pubkey pc = []"
  using assms by (auto simp: clear_handshake_def conn_network_identity_def copy_range_def peer_conn_of_def get_peer_id_def split: option.splits)

lemma add_server_conn_own:
  assumes "clear_handshake cx digest p c" and "length digest = 32"
  shows "add_server_conn cx fx cn cid latency direct c g = map_option (\<lambda>(r, g). (map_sum SE_Own id r, release_reserved_peer_id (ni_network_name (me_identity cx)) g))
    (pg_add_new_peer_conn cx cid latency (\<not> direct) c g)"
proof -
  note i = clear_handshake_identity [OF assms]
  obtain pc where pc: "peer_conn_of cid latency False (\<not> direct) c = Some pc" using i(2) by blast
  obtain b where "matches_local_network_secret cn c = Some b" using i(1) by (cases "matches_local_secret_proof cn c") (auto simp: matches_local_network_secret_def)
  then show ?thesis using i(1) pc by (simp add: add_server_conn_def Let_def)
qed

lemma map_add_new_peer:
  assumes "map_of (peer_map m) (conn_peer_id pc) = None"
  shows "\<exists>m'. map_add_new_peer_conn pc m = (Inr (), m') \<and> has_peer m' (conn_peer_id pc)"
proof -
  have "peer_map (maintain_alive_client_urls pc m) = peer_map m" by (simp add: maintain_alive_client_urls_def split: option.split)
  then show ?thesis using assms by (simp add: map_add_new_peer_conn_def add_peer_conn_def peer_new_def has_peer_def update_conv' Let_def)
qed

text \<open>
  C40. A node without secure mode admits whoever knows the name of its network: it compares the digest of the network secret
  with its own only if the digest in the handshake is not zero. A new peer that sends 32 zero bytes is added to the peers of
  the node; one that sends any other digest than that of the node is refused. (The exception is meant for nodes with a
  credential, which need secure mode.)
\<close>

theorem zero_digest_admitted:
  assumes "\<not> rp_secure_mode_enabled (pg_relay g)" and "clear_handshake cx digest p c" and "length digest = 32"
    and "ni_network_secret_digest (me_identity cx) = Some own" and "\<not> list_all (\<lambda>b. b = 0) own" and "map_of (peer_map (pg_peers g)) p = None"
  shows "(digest = replicate 32 0 \<longrightarrow> (\<exists>g'. add_server_conn cx fx cn cid latency direct c g = Some (Inr (), g') \<and> has_peer (pg_peers g') p)) \<and>
    (digest \<noteq> replicate 32 0 \<longrightarrow> digest \<noteq> own \<longrightarrow>
      (\<exists>g'. add_server_conn cx fx cn cid latency direct c g = Some (Inl (SE_Own SecretKeyError), g') \<and> pg_peers g' = pg_peers g))"
proof -
  note i = clear_handshake_identity [OF assms(2,3)] and add = add_server_conn_own [OF assms(2,3)]
  obtain pc where pc: "peer_conn_of cid latency False (\<not> direct) c = Some pc" "conn_peer_id pc = p" "noise_remote_static_pubkey pc = []" using i(2) by blast
  have zero: "list_all (\<lambda>b. b = 0) digest \<longleftrightarrow> digest = replicate 32 0"
    using assms(3) by (auto simp: list_all_iff replicate_eqI in_set_replicate dest: replicate_eqI)
  obtain m' where m': "map_add_new_peer_conn pc (pg_peers g) = (Inr (), m')" "has_peer m' p" using map_add_new_peer pc(2) assms(6) by blast
  have "\<exists>g'. pg_add_new_peer_conn cx cid latency (\<not> direct) c g = Some (Inr (), g') \<and> has_peer (pg_peers g') p" if "digest = replicate 32 0"
    using i(1) pc m' assms(1) that
    by (simp add: pg_add_new_peer_conn_def network_secret_digest_is_empty_def clear_recent_traffic_def pg_peers_def Let_def list_all_length)
  moreover have "pg_add_new_peer_conn cx cid latency (\<not> direct) c g = Some (Inl SecretKeyError, g)" if "digest \<noteq> replicate 32 0" "digest \<noteq> own"
    using i(1) pc assms(1,4,5) zero that
    by (auto simp: pg_add_new_peer_conn_def network_secret_digest_is_empty_def network_identity_eq_def with_only_digest_def Let_def)
  ultimately show ?thesis unfolding add by (auto simp: release_reserved_peer_id_def pg_peers_def)
qed

text \<open>A node in private mode admits peers of other networks only if they know its secret or have a credential it trusts.\<close>

lemma private_mode_enforced:
  assumes "add_server_conn cx fx cn cid latency direct c g = Some (Inr (), g')" and "me_private_mode cx"
    and "conn_network_identity c = Some ni" and "ni_network_name ni \<noteq> ni_network_name (me_identity cx)"
  shows "matches_local_network_secret cn c = Some True \<or> (get_peer_identity_type c = Credential \<and>
    (\<exists>k. is_existing_credential_pubkey_trusted (fx_unix_now fx) (pg_foreign g) (ni_network_name ni) k))"
  using assms by (auto simp: add_server_conn_def Let_def split: bind_splits if_splits)

section \<open>Recent traffic\<close>

lemma directly_connected_recent [simp]:
  "pg_has_directly_connected_conn (g\<lparr>recent_have_traffic := r\<rparr>) p = pg_has_directly_connected_conn g p"
  by (simp add: pg_has_directly_connected_conn_def pg_peers_def split: option.split)

text \<open>Removing what is old does not change the answers; a packet makes its destination recent for 30 seconds.\<close>

lemma gc_keeps_recent: "has_recent_traffic (gc_recent_traffic now g) p now = has_recent_traffic g p now"
  by (simp add: has_recent_traffic_def gc_recent_traffic_def restrict_map_def split: option.splits)

lemma mark_makes_recent:
  assumes "p \<noteq> pg_my_peer_id g" and "\<not> me_disable_p2p cx" and "me_lazy_p2p cx" and "\<not> pg_has_directly_connected_conn g p"
    and "me_now cx \<le> t"
  shows "has_recent_traffic (snd (mark_recent_traffic cx p g)) p t \<longleftrightarrow> t \<le> me_now cx + RECENT_HAVE_TRAFFIC_TTL"
  using assms
  by (auto simp: mark_recent_traffic_def has_recent_traffic_def)

section \<open>Panics\<close>

text \<open>A packet of a foreign network that is too short for the header of one ends the receiving task.\<close>

lemma short_foreign_packet_panics:
  assumes "peer_manager_header p = Some h" and "pm_packet_type h = PacketType_code PT_ForeignNetworkPacket" and "\<not> me_disable_relay_data cx"
    and "foreign_network_hdr p = None \<or> foreign_network_hdr p = Some None"
  shows "peer_recv cx nz k u e p g = None"
  using assms by (auto simp: peer_recv_def try_handle_foreign_network_packet_def)


section \<open>A small network\<close>

text \<open>Node \<open>my\<close> has the neighbour \<open>nb\<close>, through which all its routes go; 10.0.0.2 is the address of node 2.\<close>

definition demo_map :: "PeerId \<Rightarrow> PeerId \<Rightarrow> PeerMap" where
  "demo_map my nb = \<lparr>map_my_peer_id = my,
    peer_map = [(nb, \<lparr>peer_node_id = nb, conns = [(1, (demo_conn 1 [5] 90)\<lparr>conn_peer_id := nb\<rparr>)], default_conn_id = 1,
      peer_identity_type = Some Admin, peer_public_key = Some [5]\<rparr>)],
    routes = [\<lparr>ro_next_hop_with_policy = (\<lambda>_ _. Some nb), ro_peer_id_by_ipv4 = [0x0A000002 \<mapsto> 2], ro_peer_id_by_ipv6 = (\<lambda>_. None),
      ro_peer_info = (\<lambda>_. None), ro_origin_my_peer_id = (\<lambda>_ _. None), ro_peers_own_foreign_network = (\<lambda>_. []), ro_list_routes = []\<rparr>],
    alive_client_urls = []\<rparr>"

definition demo_mgr :: "bool \<Rightarrow> store \<Rightarrow> PeerId \<Rightarrow> PeerId \<Rightarrow> (u32 \<times> u32) PeerManager" where
  "demo_mgr secure st my nb = \<lparr>pg_relay = (demo_node my [1] 2 [] st)\<lparr>rp_secure_mode_enabled := secure, rp_peers := demo_map my nb\<rparr>,
     pg_foreign = demo_fm, pg_acl = filter_new demo_cidr, reserved_my_peer_id_map = Map.empty, recent_have_traffic = Map.empty, exit_nodes = []\<rparr>"

definition demo_me :: "(u32 \<times> u32) pm_env" where
  "demo_me = \<lparr>me_identity = \<lparr>ni_network_name = ''net'', ni_network_secret = Some ''s'', ni_network_secret_digest = Some (replicate 32 3)\<rparr>,
     me_ipv4 = Some (0x0A000001, 24), me_ipv6 = None, me_public_ipv6_lease = None, me_disable_relay_data = False, me_latency_first = False,
     me_p2p_only = False, me_private_mode = False, me_disable_p2p = False, me_lazy_p2p = False, me_encryptor = RingCipher (Ring_ChaCha20 [2]),
     me_aead = demo_api, me_rnd = replicate 12 0, me_zstd = demo_zstd, me_compress_algo = CA_ZstdDefault, me_cidr = demo_cidr, me_pnet = demo_pnet,
     me_peer_groups = (\<lambda>_. []), me_crypto = \<lparr>cr_hmac = demo_hmac, cr_api = demo_api, cr_rnd = replicate 12 0, cr_now = 1\<rparr>,
     me_codec = demo_relay_pb, me_uninit = (\<lambda>_. 0), me_sink = (\<lambda>_ _. True), me_filters = [], me_nic_filters = [],
     me_public_ipv6_gateway = None, me_hash = (\<lambda>_. 0), me_now = 0, me_secs = 0\<rparr>"

lemma demo_me_simps [simp]:
  "me_crypto demo_me = \<lparr>cr_hmac = demo_hmac, cr_api = demo_api, cr_rnd = replicate 12 0, cr_now = 1\<rparr>" "me_aead demo_me = demo_api"
  "me_rnd demo_me = replicate 12 0" "me_zstd demo_me = demo_zstd" "me_sink demo_me = (\<lambda>_ _. True)" "me_filters demo_me = []"
  "me_nic_filters demo_me = []" "me_disable_relay_data demo_me = False" "me_p2p_only demo_me = False" "me_now demo_me = 0"
  "ni_network_secret (me_identity demo_me) = Some ''s''"
  by (simp_all add: demo_me_def)

lemma demo_mgr_simps [simp]:
  "pg_my_peer_id (demo_mgr secure st my nb) = my" "rp_secure_mode_enabled (pg_relay (demo_mgr secure st my nb)) = secure"
  "in_clear my (demo_mgr False st my nb)" "rp_store (pg_relay (demo_mgr secure st my nb)) = st" "acl_enabled (pg_acl (demo_mgr secure st my nb)) = False"
  "pg_peers (demo_mgr secure st my nb) = demo_map my nb" "rp_peers (pg_relay (demo_mgr secure st my nb)) = demo_map my nb"
  "rp_foreign_client (pg_relay (demo_mgr secure st my nb)) = None"
  by (simp_all add: demo_mgr_def pg_my_peer_id_def in_clear_def demo_node_def filter_new_def pg_peers_def)

lemma demo_direct:
  "send_msg_directly (\<lambda>_ _. True) msg nb (demo_map my nb) = (if nb = my then (Inr (Loopback msg), demo_map my nb) else (Inr (OnConn nb 1 msg), demo_map my nb))"
  by (simp add: demo_map_def demo_conn_def send_msg_directly_def peer_send_msg_def select_conn_def Let_def)

lemma demo_hop:
  assumes "peer_manager_header msg = Some h" and "nb \<noteq> my" and "dst \<noteq> my"
  shows "\<exists>g'. pg_send_internal demo_me msg dst (demo_mgr False st my nb) = Some (Inr (Sent (OnConn nb 1 msg)), g')"
proof -
  have gw: "get_gateway_peer_id (demo_map my nb) dst policy = Some nb" for policy
    using assms(2,3) by (simp add: demo_map_def get_gateway_peer_id_def has_peer_def)
  have hp: "has_peer (demo_map my nb) nb" by (simp add: demo_map_def has_peer_def)
  show ?thesis
  proof (cases "dst = nb")
    case True
    then show ?thesis using assms(1,2) hp demo_direct [of msg nb my] by (simp add: pg_send_internal_def send_msg_internal_def)
  next
    case False
    then have "\<not> has_peer (demo_map my nb) dst" using assms(3) by (simp add: demo_map_def has_peer_def)
    then show ?thesis using assms(1,2) gw hp demo_direct [of msg nb my]
      by (simp add: pg_send_internal_def send_msg_internal_def client_has_next_hop_def relay_send_msg_def send_via_next_hop_def Let_def)
  qed
qed

lemma demo_forwards:
  assumes "hdr_room t pre" and "to_peer_id h \<noteq> my" and "from_peer_id h \<noteq> my" and "nb \<noteq> my" and "pm_packet_type h = PacketType_code PT_Data"
    and "forward_counter h \<le> 7" and "\<not> is_latency_first h"
  shows "forwards_to nz k u e (demo_me, demo_mgr False st my nb) (pkt t pre h pl) = Some (pkt t pre (h\<lparr>forward_counter := forward_counter h + 1\<rparr>) pl)"
proof -
  let ?q = "pkt t pre (h\<lparr>forward_counter := forward_counter h + 1\<rparr>) pl"
  obtain g' where s: "pg_send_internal demo_me ?q (to_peer_id h) (demo_mgr False st my nb) = Some (Inr (Sent (OnConn nb 1 ?q)), g')"
    using demo_hop [of ?q _ nb my "to_peer_id h" st] assms by (auto simp: pkt_simps)
  have "recv_forward demo_me h (pkt t pre h pl) (demo_mgr False st my nb) = Some (Forwarded ?q (Inr (Sent (OnConn nb 1 ?q))), g')"
    using assms s by (simp add: recv_forward_def is_relay_data_zc_packet_def pkt_simps Let_def)
  then show ?thesis using assms by (simp add: forwards_to_def peer_recv_def try_handle_foreign_network_packet_def pkt_simps)
qed



lemma demo_acl_same: "(demo_mgr secure st my nb)\<lparr>pg_acl := pg_acl (demo_mgr secure st my nb)\<rparr> = demo_mgr secure st my nb"
  by (simp add: demo_mgr_def)

lemma demo_dst: "get_msg_dst_peer demo_me order (demo_mgr secure st my nb) (IpV4 0x0A000002) = ([2], False)"
proof -
  have "last_address (0x0A000002 :: u32, 24) = 0x0A0000FF" "\<not> ipv4_is_multicast 0x0A000002" by code_simp+
  then show ?thesis
    by (simp add: get_msg_dst_peer_def get_msg_dst_peer_ipv4_def is_all_peers_broadcast_ipv4_def demo_me_def demo_map_def map_peer_id_by_ipv4_def)
qed

lemma demo_encodes:
  assumes "hdr_room t pre" and "\<not> is_encrypted h" and "\<not> is_compressed h" and "pm_len h = 9"
  shows "\<exists>pl. try_compress_and_encrypt demo_me False (pkt t pre h (replicate 9 3)) = Some (True, pkt t pre (set_encrypted True (set_compressed True h)) pl)"
proof -
  have c: "compress demo_zstd CA_ZstdDefault (pkt t pre h (replicate 9 3)) = Some (Inr (pkt t pre (set_compressed True h) ([9, 3] @ [1])))"
    using assms by (simp add: compress_pkt) (simp add: demo_zstd_def)
  obtain pl where "encrypt demo_api (replicate 12 0) (RingCipher (Ring_ChaCha20 [2])) (pkt t pre (set_compressed True h) ([9, 3] @ [1])) =
      Some (Inr (pkt t pre (set_encrypted True (set_compressed True h)) pl))"
    using assms ring_encrypt_pkt [OF demo_api_ok, of t pre "set_compressed True h" "replicate 12 0" "Ring_ChaCha20 [2]" None "[9, 3] @ [1]"]
    by (auto simp: encrypt_def demo_api_def)
  then show ?thesis using c by (intro exI [of _ pl]) (simp add: try_compress_and_encrypt_def demo_me_def)
qed

theorem packet_reaches_interface_witness:
  "\<exists>d x y g' gb'. send_msg_by_ip demo_me [] (pkt ZT_DummyTunnel [] demo_header (replicate 9 3)) (IpV4 0x0A000002) False (demo_mgr False empty_store 1 7) =
      Some (ToPeers [Sent d] 0, g') \<and>
    carried_by demo_noise [] 0 [] [(demo_me, demo_mgr False empty_store 7 2)] (delivery_packet d) = Some x \<and>
    peer_recv demo_me demo_noise [] 0 [] x (demo_mgr False empty_store 2 7) = Some (ToNic y, gb') \<and> payload y = Some (replicate 9 3)"
proof -
  let ?g = "demo_mgr False empty_store 1 7" and ?msg = "pkt ZT_DummyTunnel [] demo_header (replicate 9 3)"
  have r: "hdr_room ZT_DummyTunnel []" by (simp add: hdr_room_def)
  define h0 where "h0 = demo_header\<lparr>from_peer_id := 1, to_peer_id := 0, pm_packet_type := PacketType_code PT_Data, pm_flags := 0, forward_counter := 1, pm_len := 9\<rparr>"
  have h0: "\<not> is_encrypted h0" "\<not> is_compressed h0" "pm_len h0 = 9" by (simp_all add: h0_def flag_ops flag_contains_def flag_defs)
  have fill: "fill_peer_manager_hdr 1 0 (PacketType_code PT_Data) ?msg = Some (pkt ZT_DummyTunnel [] h0 (replicate 9 3))"
    using r by (simp add: fill_peer_manager_hdr_def pkt_simps h0_def payload_len_pkt)
  obtain pl where enc: "try_compress_and_encrypt demo_me False (pkt ZT_DummyTunnel [] h0 (replicate 9 3)) = Some (True, pkt ZT_DummyTunnel [] (set_encrypted True (set_compressed True h0)) pl)"
    using demo_encodes [OF r h0] by blast
  let ?h1 = "(set_exit_node False (set_latency_first False (set_encrypted True (set_compressed True h0))))\<lparr>to_peer_id := 2\<rparr>"
  let ?m = "pkt ZT_DummyTunnel [] ?h1 pl"
  obtain g1 where s: "pg_send_internal demo_me ?m 2 ?g = Some (Inr (Sent (OnConn 7 1 ?m)), g1)"
    using demo_hop [of ?m ?h1 7 1 2 empty_store] r by (auto simp: pkt_simps)
  have mark: "mark_recent_traffic demo_me p g = (False, g)" for p and g :: "(u32 \<times> u32) PeerManager" by (simp add: mark_recent_traffic_def demo_me_def)
  have nic: "run_nic_packet_process_pipeline demo_me (pkt ZT_DummyTunnel [] h0 (replicate 9 3)) ?g = Some (Some (pkt ZT_DummyTunnel [] h0 (replicate 9 3)), ?g)"
    by (simp add: run_nic_packet_process_pipeline_def process_packet_with_acl_def demo_acl_same)
  have lf: "latency_first demo_me = False" by (simp add: latency_first_def demo_me_def)
  have "to_peer_id h0 = 0" by (simp add: h0_def)
  then have by_ip: "send_msg_by_ip demo_me [] ?msg (IpV4 0x0A000002) False ?g = Some (ToPeers [Sent (OnConn 7 1 ?m)] 0, g1)"
    using r fill nic enc s by (simp add: send_msg_by_ip_def demo_dst pkt_simps lf mark check_p2p_only_before_send_def)
  have h1: "to_peer_id ?h1 = 2" "from_peer_id ?h1 = 1" "pm_packet_type ?h1 = PacketType_code PT_Data" "forward_counter ?h1 = 1" "\<not> is_latency_first ?h1"
    by (simp_all add: h0_def flag_ops flag_contains_def flag_defs flag_put_def)
  let ?x = "pkt ZT_DummyTunnel [] (?h1\<lparr>forward_counter := 2\<rparr>) pl"
  have fw: "carried_by demo_noise [] 0 [] [(demo_me, demo_mgr False empty_store 7 2)] (delivery_packet (OnConn 7 1 ?m)) = Some ?x"
    using demo_forwards [of ZT_DummyTunnel "[]" ?h1 7 2 demo_noise "[]" 0 "[]" empty_store pl] r h1 by simp
  have dst: "get_dst_peer_id ?x = Some 2" using r by (simp add: get_dst_peer_id_def pkt_simps)
  have nodes: "\<forall>node \<in> set [(demo_me, demo_mgr False empty_store 7 2)]. \<exists>m. in_clear m (snd node) \<and> m \<noteq> 1" by (auto simp: in_clear_def)
  obtain y where y: "payload y = Some (replicate 9 3)" "peer_recv demo_me demo_noise [] 0 [] ?x (demo_mgr False empty_store 2 7) =
      map_option (\<lambda>(ok, f). (if ok then ToNic y else Discarded, (demo_mgr False empty_store 2 7)\<lparr>pg_acl := f\<rparr>))
        (process_packet_with_acl (me_cidr demo_me) (me_pnet demo_me) (recv_env demo_me) (me_now demo_me) (me_secs demo_me) y True (pg_acl (demo_mgr False empty_store 2 7)))"
    using packet_reaches_interface [where nodes = "[(demo_me, demo_mgr False empty_store 7 2)]" and gb = "demo_mgr False empty_store 2 7" and b = 2 and cb = demo_me and d = "OnConn 7 1 ?m",
        OF _ _ _ _ demo_mgr_simps(3) pkt_peer_manager_header [OF r] pkt_payload [OF r] _ by_ip _ nodes fw demo_mgr_simps(3) _ dst] demo_api_ok demo_zstd_ok
    by auto
  then have "peer_recv demo_me demo_noise [] 0 [] ?x (demo_mgr False empty_store 2 7) = Some (ToNic y, demo_mgr False empty_store 2 7)"
    by (simp add: process_packet_with_acl_def demo_acl_same)
  then show ?thesis using by_ip fw y(1) by blast
qed

theorem forged_packet_accepted_witness:
  "after_received demo_hmac demo_api 0 \<lparr>sf_enabled = True, sf_my_peer_id = 2, sf_peer_id = Some 7, sf_session = Some 0\<rparr> (Inr demo_packet) empty_store =
      Some (Some (Inr demo_packet), empty_store) \<and>
    peer_recv demo_me demo_noise [] 0 [] demo_packet (demo_mgr True empty_store 2 7) = Some (ToNic demo_packet, demo_mgr True empty_store 2 7)"
proof -
  let ?f = "\<lparr>sf_enabled = True, sf_my_peer_id = 2, sf_peer_id = Some 7, sf_session = Some 0\<rparr>"
  have h: "\<not> is_compressed demo_header" "\<not> is_not_send_to_tun demo_header" "pm_packet_type demo_header = PacketType_code PT_Data"
    "to_peer_id demo_header = pg_my_peer_id (demo_mgr True empty_store 2 7)" "from_peer_id demo_header \<noteq> 7"
    by (simp_all add: demo_header_def flag_ops flag_contains_def flag_defs)
  from forged_packet_accepted [OF demo_header_facts(1) h(3) demo_header_facts(2) h(1,2,4), of ?f 7 demo_me demo_hmac demo_api 0 empty_store demo_noise "[]" 0 "[]"] h(5)
  show ?thesis by (simp add: process_packet_with_acl_def demo_acl_same)
qed

definition zero_conn :: "u8 \<Rightarrow> conn" where
  "zero_conn d = (foreign_conn 9 d)\<lparr>c_noise := None, c_info := map_option (hr_network_name_update (\<lambda>_. ''net'')) (c_info (foreign_conn 9 d))\<rparr>"

theorem zero_digest_admitted_witness:
  "(\<exists>g'. add_server_conn demo_me demo_fx (demo_cx [1]) 4 0 True (zero_conn 0) (demo_mgr False empty_store 1 7) = Some (Inr (), g') \<and> has_peer (pg_peers g') 9) \<and>
   (\<exists>g'. add_server_conn demo_me demo_fx (demo_cx [1]) 4 0 True (zero_conn 5) (demo_mgr False empty_store 1 7) = Some (Inl (SE_Own SecretKeyError), g'))"
proof -
  have c: "clear_handshake demo_me (replicate 32 d) 9 (zero_conn d)" for d
    by (simp add: clear_handshake_def zero_conn_def foreign_conn_def demo_me_def)
  have own: "ni_network_secret_digest (me_identity demo_me) = Some (replicate 32 3)" "\<not> list_all (\<lambda>b. b = 0) (replicate 32 (3 :: u8))"
    by (simp_all add: demo_me_def list_all_iff)
  have new: "map_of (peer_map (pg_peers (demo_mgr False empty_store 1 7))) 9 = None" by (simp add: demo_map_def)
  have ne: "replicate 32 (5 :: u8) \<noteq> replicate 32 0" "replicate 32 (5 :: u8) \<noteq> replicate 32 3" by simp_all
  show ?thesis
    using zero_digest_admitted [OF _ c [of 0] _ own new, of demo_fx "demo_cx [1]" 4 0 True]
      zero_digest_admitted [OF _ c [of 5] _ own new, of demo_fx "demo_cx [1]" 4 0 True] ne by auto
qed

text \<open>Node 7 has a session with node 2 and the neighbour 8; the messages of Noise are a public key and three bytes.\<close>

definition strict_noise :: "(bytes \<times> bytes \<times> bytes option) noise_api" where
  "strict_noise = demo_noise\<lparr>write_message := (\<lambda>(k, t, r) p. if length p = 3 then Some (public_key demo_keys k @ p, (k, t, r)) else None),
     read_message := (\<lambda>(k, t, r) c. if length c = 35 then Some (drop 32 c, (k, t, Some (take 32 c))) else None)\<rparr>"

lemma strict_noise_authentic: "noise_ik_authentic strict_noise (public_key demo_keys)"
  unfolding noise_ik_authentic_def
proof (intro allI impI)
  fix priv eph hs c m hs'
  assume b: "build_responder strict_noise IK RELAY_NOISE_PROLOGUE priv eph = Some hs" and r: "read_message strict_noise hs c = Some (m, hs')"
  have "length c = 35" "get_remote_static strict_noise hs' = Some (take 32 c)"
    using r by (auto simp: strict_noise_def demo_noise_def split: prod.splits if_splits)
  moreover have "public_key demo_keys (take 32 c) = take 32 c" if "length c = 35" using that by (simp add: demo_keys_def)
  moreover have "written_ik strict_noise (public_key demo_keys) (take 32 c) priv c" if "length c = 35"
    unfolding written_ik_def
    by (intro exI [of _ "[]"] exI [of _ "(take 32 c, RELAY_NOISE_PROLOGUE, None)"] exI [of _ "drop 32 c"])
      (use that in \<open>auto simp: strict_noise_def demo_noise_def demo_keys_def\<close>)
  ultimately show "\<exists>k. get_remote_static strict_noise hs' = Some (public_key demo_keys k) \<and> written_ik strict_noise (public_key demo_keys) k priv c" by metis
qed

lemma strict_noise_length: "written_ik strict_noise (public_key demo_keys) k priv c \<Longrightarrow> length c = 35"
  by (auto simp: written_ik_def strict_noise_def demo_noise_def demo_keys_def split: if_splits)

definition session_store :: store where
  "session_store = \<lparr>sessions = (\<lambda>_. Some 0),
     heap = (\<lambda>_. \<lparr>ps_peer_id = 2, peer_static_pubkey = None, datagram = demo_session, ps_invalidated = False\<rparr>), next_ref = 1\<rparr>"

theorem relayed_handshake_lost_witness:
  "written_ik strict_noise (public_key demo_keys) [1] [2] (replicate 32 1 @ [5, 6, 7]) \<and> (\<exists>x d g' gd'. peer_recv demo_me demo_noise [] 0 [] (pkt ZT_DummyTunnel [] (demo_header\<lparr>pm_packet_type := PacketType_code PT_RelayHandshake\<rparr>) (replicate 32 1 @ [5, 6, 7]))
      (demo_mgr True session_store 7 8) = Some (Forwarded x (Inr (Sent d)), g') \<and>
    peer_recv demo_me strict_noise [] 0 [] (delivery_packet d) (demo_mgr True empty_store 2 8) = Some (HandshakeHandled (Inr (Answered (Inl RouteError))), gd'))"
proof -
  let ?pl = "replicate 32 1 @ [5, 6, 7] :: bytes"
  let ?h = "demo_header\<lparr>pm_packet_type := PacketType_code PT_RelayHandshake\<rparr>" and ?g = "demo_mgr True session_store 7 8" and ?n = "pg_relay (demo_mgr True session_store 7 8)"
  let ?p = "pkt ZT_DummyTunnel [] ?h ?pl" and ?s = "\<lparr>ps_peer_id = 2, peer_static_pubkey = None, datagram = demo_session, ps_invalidated = False\<rparr>"
  have r: "hdr_room ZT_DummyTunnel []" by (simp add: hdr_room_def)
  have h: "\<not> is_encrypted ?h" "\<not> is_latency_first ?h" "to_peer_id ?h = 2" "from_peer_id ?h = 1" "forward_counter ?h = forward_counter demo_header" "forward_counter demo_header \<le> 7"
    by (simp_all add: demo_header_def flag_ops flag_contains_def flag_defs)
  let ?x = "pkt ZT_DummyTunnel [] (?h\<lparr>forward_counter := forward_counter demo_header + 1\<rparr>) ?pl"
  have v: "ps_is_valid ?s" by (simp add: ps_is_valid_def demo_facts)
  have seal: "length n = 12 \<Longrightarrow> aead_seal Encrypt.demo_api alg key n m \<noteq> None" for alg key n m by (simp add: demo_api_def)
  obtain q s' where q: "encrypt_payload demo_hmac Encrypt.demo_api (replicate 12 0) 1 (dir_for_sender 7 2) ?x demo_session = Some (Inr q, s')"
    using encrypt_payload_total [OF demo_facts(1) demo_api_ok _ demo_facts(2,3) seal pkt_peer_manager_header [OF r]] by fastforce
  have pe: "ps_encrypt_payload demo_hmac Encrypt.demo_api (replicate 12 0) 1 7 2 ?x ?s = Some (Inr q, ?s\<lparr>datagram := s'\<rparr>)"
    using q v by (simp add: ps_encrypt_payload_def)
  have hp: "\<not> has_peer (demo_map 7 8) 2" "has_peer (demo_map 7 8) 8" "get_gateway_peer_id (demo_map 7 8) 2 policy = Some 8" for policy
    by (simp_all add: demo_map_def has_peer_def get_gateway_peer_id_def)
  have nc: "\<not> client_has_next_hop ?n dst" for dst by (simp add: client_has_next_hop_def)
  let ?n1 = "with_state 0 2 (\<lambda>s. s\<lparr>last_active_at := 0\<rparr>) ?n"
  have es: "ensure_session 2 ?n1 = (Inr 0, ?n1)" using v by (simp add: ensure_session_def store_get_def session_store_def)
  have my: "rp_my_peer_id ?n = 7" by (simp add: demo_mgr_def demo_node_def)
  obtain n2 where se: "session_encrypt (me_crypto demo_me) 2 0 ?x ?n1 = Some (Inr q, n2)" "rp_peers n2 = demo_map 7 8"
    using pe my by (simp add: session_encrypt_def session_store_def)
  have rs: "\<exists>n3. relay_send_msg (me_crypto demo_me) (\<lambda>_ _. True) 0 ?x 2 policy ?n = Some (Inr (Sent (OnConn 8 1 q)), n3)" for policy
    using es se hp(2,3) demo_direct [of q 8 7] by (simp add: relay_send_msg_def send_via_next_hop_def Let_def)
  obtain n3 where n3: "relay_send_msg (me_crypto demo_me) (\<lambda>_ _. True) 0 ?x 2 (get_next_hop_policy (is_latency_first (?h\<lparr>forward_counter := forward_counter demo_header + 1\<rparr>))) ?n =
      Some (Inr (Sent (OnConn 8 1 q)), n3)" using rs by blast
  then have "send_msg_internal (me_crypto demo_me) (\<lambda>_ _. True) 0 ?x 2 ?n = Some (Inr (Sent (OnConn 8 1 q)), n3)"
    using r hp nc [of 2] by (simp add: send_msg_internal_def pkt_simps Let_def)
  then obtain g' where "pg_send_internal demo_me ?x 2 ?g = Some (Inr (Sent (OnConn 8 1 q)), g')" by (simp add: pg_send_internal_def)
  then have "recv_forward demo_me ?h ?p ?g = Some (Forwarded ?x (Inr (Sent (OnConn 8 1 q))), g')"
    using r h by (simp add: recv_forward_def is_relay_data_zc_packet_def pkt_simps Let_def)
  then have f: "peer_recv demo_me demo_noise [] 0 [] ?p ?g = Some (Forwarded ?x (Inr (Sent (OnConn 8 1 q))), g')"
    using r h by (simp add: peer_recv_def try_handle_foreign_network_packet_def pkt_simps)
  have keys: "\<forall>r. sessions (rp_store ?n) (relay_key ?n (to_peer_id ?h)) = Some r \<longrightarrow> key_cache_ok (cr_hmac (me_crypto demo_me)) (datagram (heap (rp_store ?n) r)) \<and>
      EncryptionAlgorithm_try_from (send_cipher_algorithm (datagram (heap (rp_store ?n) r))) \<noteq> Some EA_Xor"
    by (simp add: session_store_def demo_facts)
  have sn: "length c = 63 \<Longrightarrow> \<not> written_ik strict_noise (public_key demo_keys) k' priv c" for k' priv c using strict_noise_length by fastforce
  have "\<exists>gd'. peer_recv demo_me strict_noise [] 0 [] q (demo_mgr True empty_store 2 8) = Some (HandshakeHandled (Inr (Answered (Inl RouteError))), gd')"
    using relayed_handshake_lost [where nzd = strict_noise and pub = "public_key demo_keys" and gd = "demo_mgr True empty_store 2 8" and cd = demo_me and kd = "[]" and ud = 0 and ed = "[]",
        OF _ _ _ _ pkt_peer_manager_header [OF r] _ h(1) pkt_payload [OF r] _ nc keys f _ strict_noise_authentic] demo_facts(1) demo_api_ok hp(1) h(3) sn by auto
  then have "\<exists>x d g' gd'. peer_recv demo_me demo_noise [] 0 [] ?p ?g = Some (Forwarded x (Inr (Sent d)), g') \<and>
      peer_recv demo_me strict_noise [] 0 [] (delivery_packet d) (demo_mgr True empty_store 2 8) = Some (HandshakeHandled (Inr (Answered (Inl RouteError))), gd')"
    using f by (metis delivery_packet.simps(2))
  moreover have "written_ik strict_noise (public_key demo_keys) [1] [2] ?pl"
    unfolding written_ik_def
    by (intro exI [of _ "[]"] exI [of _ "([1], RELAY_NOISE_PROLOGUE, None)"] exI [of _ "[5, 6, 7]"]) (auto simp: strict_noise_def demo_noise_def demo_keys_def)
  ultimately show ?thesis by blast
qed

end
