(* ===== verification/Spec2Isabelle.thy ===== *)
theory Spec2Isabelle
  imports Prelude Packet_Def Zc_Packet Encrypt Compressor Replay_Window Secure_Datagram Peer_Session
    Token_Bucket Acl_Processor Acl_Correctness Acl_Filter Rpc_Packet Rpc_Call Ip_Reassembler
    Graph_Algo Route_Info Route_Sync Route_Table Route_Paths Route_Forwarding Route_Trust
    Route_Own Route_Session Route_Service Route_Exchange Route_Initiator
    Credential_Manager Peer_Map Peer_Conn Peer_Auth Relay_Peer_Map Foreign_Network_Manager Peer_Manager
begin

text \<open>
  This development verifies the core of EasyTier, a decentralised mesh VPN in Rust. The sources are under
  \<open>src/EasyTier-2.6.4/easytier/src\<close>; file names below are relative to it.

  \<^bold>\<open>The program.\<close> Every node of a mesh keeps connections to some peers. A packet of the virtual network
  enters at a node, is checked against the access control rules, compressed, encrypted and sent to the next
  hop of the route to its owner, node after node. The routes come from a link state protocol: nodes
  exchange descriptions of themselves and the lists of their neighbours by remote procedure calls, which
  are themselves carried in packets of the mesh, and each node computes shortest paths on what it knows.
  Two nodes that do not trust the relays in between share a session with rotating keys and a replay window.

  \<^bold>\<open>Conventions.\<close> Rust integers are words of their width. A function that can panic returns an option
  (\<open>may_panic\<close>, with \<open>None\<close> the panic); one that returns \<open>Result\<close> a sum with the error on the left. Shared
  state (\<open>DashMap\<close>, atomics, locks) is passed explicitly, so a definition describes one call that is not
  interleaved with another; properties of sequences of calls are stated over lists of calls or step
  relations. Time, random numbers, ciphers, hashes, codecs, prefix maps, heaps and iteration orders of
  other crates are parameters, and the laws needed of them are hypotheses named at the place.

  \<^bold>\<open>The theories.\<close>

  \<^item> \<open>Prelude\<close>: machine integers, slices, byte orders, association lists, the panic and result types.
  \<^item> \<open>Packet_Def\<close>, \<open>Zc_Packet\<close>: \<open>tunnel/packet_def.rs\<close>; the packed headers, the flags, and the buffer in
    which a packet moves between tunnel types. Headers survive a round trip, conversion keeps the packet,
    and the accessors panic exactly on short buffers.
  \<^item> \<open>Encrypt\<close>: \<open>peers/encrypt\<close>; the packet ciphers. Decryption undoes encryption for every cipher, and with an AEAD
    a packet that is marked as encrypted decrypts only if it is an encryption under the key. XOR, and packets that are not
    marked, are not authenticated.
  \<^item> \<open>Compressor\<close>: \<open>common/compressor.rs\<close>; compression of packets with its tail, and the growing buffer of
    the decompressor.
  \<^item> \<open>Replay_Window\<close>, \<open>Secure_Datagram\<close>: \<open>peers/secure_datagram.rs\<close>; the 256 bit replay window, epochs, key
    rotation, traffic keys and the datagram format. The window refines a set of seen numbers; a
    session accepts each number at most once between synchronisations, as long as no receive slot is evicted because it was
    idle (\<open>replay_after_idle\<close> shows a replay after that). An error never commits a number, but a packet that is not marked
    as encrypted is accepted without authentication.
  \<^item> \<open>Peer_Session\<close>: \<open>peers/peer_session.rs\<close>; the shared sessions of a node and the two sides of the
    handshake, with an explicit heap because sessions are shared.
  \<^item> \<open>Token_Bucket\<close>: \<open>common/token_bucket.rs\<close>; rate limiting, with its floating point arithmetic written out.
  \<^item> \<open>Acl_Processor\<close>, \<open>Acl_Correctness\<close>, \<open>Acl_Filter\<close>: \<open>common/acl_processor.rs\<close> and \<open>peers/acl_filter.rs\<close>;
    compiled rules, the verdict cache, rate limits, whitelists, and the packet filter in front of it.
  \<^item> \<open>Rpc_Packet\<close>, \<open>Rpc_Call\<close>: \<open>proto/rpc_impl\<close>; splitting and merging of messages, the receive loops of the
    server and the client. A call returns the result of the method whatever the order of its packets.
  \<^item> \<open>Ip_Reassembler\<close>: \<open>gateway/ip_reassembler.rs\<close>; fragments of IPv4 packets.
  \<^item> \<open>Graph_Algo\<close>: \<open>peers/graph_algo.rs\<close>; Dijkstra's algorithm with first hops, over the interface of a
    binary heap (locales \<open>max_queue\<close> and \<open>score_queue\<close>, interpreted on a list heap with the code's ordering).
  \<^item> \<open>Route_Info\<close>, \<open>Route_Sync\<close>, \<open>Route_Trust\<close>: \<open>peers/peer_ospf_route.rs\<close>, the synced information; merging by
    version (locale \<open>newest_wins\<close>, interpreted for descriptions, connections and foreign networks), and
    the proofs of group membership and of credentials with the removal of untrusted peers. A peer is in a group by a
    proof, by a trusted credential, or, on a node without the network secret, by the declaration of an administrator.
  \<^item> \<open>Route_Own\<close>, \<open>Route_Session\<close>, \<open>Route_Service\<close>, \<open>Route_Exchange\<close>, \<open>Route_Initiator\<close>: the rest of the route service; the
    entries a node owns, what it remembers of a neighbour (locale \<open>synced_store\<close>, interpreted for descriptions
    and for connections), requests and their handler, expiry, and the choice of the session to initiate.
    An exchange on a session that is right about the neighbour delivers what is reachable (after a restart of the
    neighbour it need not be, \<open>new_session_not_resent\<close>), the bitmap of connections says what the map says, a request that
    names a peer with a credential as its sender changes only what that credential allows (the sender is the one the
    request claims), and a step relation over the operations on sessions and stores shows that a node initiates at most one
    session. The relation leaves out the marking of interface peers as dirty, the refresh of the cost calculator and the
    leases of public IPv6 addresses, which touch no session.
  \<^item> \<open>Route_Table\<close>, \<open>Route_Paths\<close>, \<open>Route_Forwarding\<close>: the route table of the same file. Next hops lie on best
    paths, hop by hop forwarding arrives, addresses resolve to their nearest owner.

  \<^item> \<open>Credential_Manager\<close>: \<open>peers/credential_manager.rs\<close>; the credentials an administrator issues. A credential is trusted
    until it expires or is revoked, and what is announced of it carries a proof that holders of the secret accept.
  \<^item> \<open>Peer_Map\<close>: \<open>peers/peer.rs\<close>, \<open>peers/peer_map.rs\<close> and \<open>peers/foreign_network_client.rs\<close>; the connections of a node by
    peer, the choice of the connection to send on, next hops. A step relation over all operations shows that the
    connections of a peer have one identity and one public key.
  \<^item> \<open>Peer_Conn\<close>, \<open>Peer_Auth\<close>: \<open>peers/peer_conn.rs\<close>; the handshakes in the clear and with Noise, the digests and proofs of the
    network secret, and the filter that encrypts a connection. A handshake whose messages arrive authenticates both ends, a
    server completes one only with a client it can authenticate; two theorems show where the code gives more than it means to.
  \<^item> \<open>Relay_Peer_Map\<close>: \<open>peers/relay_peer_map.rs\<close>; sessions with peers that are no neighbours. Nothing is sent before there is
    a session, what waits is sent in order, packets are delivered as they were, and two handshakes at once end in one session.
  \<^item> \<open>Foreign_Network_Manager\<close>: \<open>peers/foreign_network_manager.rs\<close>; the networks a node serves without being a member. What
    its peers keep is a locale (\<open>peer_property\<close>) over the operations of \<open>Peer_Map\<close>, interpreted for the identity of a peer and
    for the bound on its direct connections; a step relation carries both to all runs. Each call is one step: in the code
    the call of \<open>add_peer_conn\<close> that creates a network awaits its lock and then skips the check of direct connections, so
    calls that get the lock in between can take the peer past the bound, which the model does not show.
  \<^item> \<open>Peer_Manager\<close>: \<open>peers/peer_manager.rs\<close>; the node as a whole, which composes the theories above: destinations of
    addresses, sending, forwarding, receiving and the admission of connections. A packet sent to a virtual address comes out of
    the interface of its destination with the same bytes, no packet is forwarded more than eight times, and three theorems
    show relay handshakes that are lost on the way, and packets and peers that are accepted although nothing authenticates them.

  \<^bold>\<open>Bounds and fuel.\<close> Recursions follow the data or a measure; the search loop of \<open>Graph_Algo\<close> takes fuel and
  \<open>dijkstra_least_cost\<close> proves that the number of edges plus one is enough. The decompressor's loop is the
  code's own five attempts.

  \<^bold>\<open>Not modelled.\<close> Input and output (tunnels, TUN devices, sockets, STUN, UPnP, DNS), the asynchronous
  tasks that drive the modelled operations (among them the receive loop and the pings of a connection), events,
  metrics, the JSON text of the credential file, the packet filters of the gateways (a parameter of
  \<open>Peer_Manager\<close>), configuration files, command line, web console, GUI and
  platform bindings: they are glue between operating system, crates and the code modelled here.
\<close>

end
